(* ===== verification/Prelude.thy ===== *)
theory Prelude
  imports Complex_Main "HOL-Library.AList"
begin

text \<open>
  What the components share: the JSON values of the durable documents, the outcome of a
  store operation, checks that fail with the first error message (the shape of a pydantic
  \<open>model_validator\<close>), and the list and dictionary operations of Python that the source uses
  (\<open>dict.fromkeys\<close>, \<open>max(.., default=..)\<close>, \<open>next(.., None)\<close>) with their lemmas.

  Conventions. A Python \<open>int\<close> is an \<open>int\<close>; a \<open>float\<close> is a rational; a timezone-aware
  \<open>datetime\<close> is the number of microseconds of its instant since the UTC epoch (a naive one
  is read as UTC, which is what the code does with it); a \<open>dict\<close> whose order matters is an
  association list in insertion order, updated by \<^const>\<open>AList.update\<close>, which keeps the
  position of an existing key as Python does; a field annotated \<open>ge=0\<close> stays an \<open>int\<close> and
  its constraint is part of the validator, because \<open>model_copy\<close> does not validate.
\<close>

named_theorems check_defs "definitions of the validators"
named_theorems entry_defs "definitions of the small predicates on tool batch entries"

type_synonym datetime = int

datatype json =
    JNull
  | JBool bool
  | JInt int
  | JFloat rat
  | JStr string
  | JArr "json list"
  | JObj "(string \<times> json) list"

fun json_get :: "json \<Rightarrow> string \<Rightarrow> json option" where
  "json_get (JObj kvs) k = map_of kvs k"
| "json_get _ k = None"

text \<open>The outcome vocabulary of every store and commit (\<open>StoreOutcome\<close> in the source).\<close>

datatype outcome = Accepted | Replayed | Conflict | StoreError

section \<open>Checks\<close>

text \<open>
  A validator raises \<open>ValueError(msg)\<close> at its first failing condition. As a value: \<open>None\<close>
  when the model is valid, \<open>Some msg\<close> for the first failure.
\<close>

type_synonym check = "string option"

definition require :: "bool \<Rightarrow> string \<Rightarrow> check" where
  "require b msg = (if b then None else Some msg)"

fun first_error :: "check list \<Rightarrow> check" where
  "first_error [] = None"
| "first_error (c # cs) = (case c of None \<Rightarrow> first_error cs | Some m \<Rightarrow> Some m)"

lemma require_None [simp]: "require b msg = None \<longleftrightarrow> b"
  by (simp add: require_def)

lemma require_Some: "require b msg = Some m \<longleftrightarrow> \<not> b \<and> m = msg"
  by (auto simp: require_def)

lemma case_error_None [simp]:
  "(case c of None \<Rightarrow> x | Some m \<Rightarrow> Some m) = None \<longleftrightarrow> c = None \<and> x = None"
  by (cases c) auto

lemma first_error_None: "first_error cs = None \<longleftrightarrow> (\<forall>c \<in> set cs. c = None)"
  by (induction cs) auto

lemma first_error_append:
  "first_error (xs @ ys) = (case first_error xs of None \<Rightarrow> first_error ys | Some m \<Rightarrow> Some m)"
  by (induction xs) (auto split: option.splits)

section \<open>Lists and dictionaries\<close>

text \<open>\<open>list(dict.fromkeys(xs))\<close>: duplicates dropped, the first occurrence kept.\<close>

definition fromkeys :: "'a list \<Rightarrow> 'a list" where
  "fromkeys xs = rev (remdups (rev xs))"

lemma set_fromkeys [simp]: "set (fromkeys xs) = set xs"
  by (simp add: fromkeys_def)

lemma distinct_fromkeys [simp]: "distinct (fromkeys xs)"
  by (simp add: fromkeys_def)

lemma fromkeys_distinct: "distinct xs \<Longrightarrow> fromkeys xs = xs"
  by (simp add: fromkeys_def distinct_remdups_id)

lemma remdups_append_filter:
  "remdups (xs @ ys) = filter (\<lambda>x. x \<notin> set ys) (remdups xs) @ remdups ys"
  by (induction xs) auto

lemma fromkeys_append:
  "fromkeys (xs @ ys) = fromkeys xs @ filter (\<lambda>y. y \<notin> set xs) (fromkeys ys)"
  by (simp add: fromkeys_def remdups_append_filter rev_filter)

lemma fromkeys_prefix:
  "distinct xs \<Longrightarrow> \<exists>zs. fromkeys (xs @ ys) = xs @ zs"
  by (simp add: fromkeys_append fromkeys_distinct)

lemma fromkeys_idem [simp]: "fromkeys (fromkeys xs) = fromkeys xs"
  by (rule fromkeys_distinct) simp

text \<open>\<open>max(xs, default=d)\<close>.\<close>

fun max_default :: "int \<Rightarrow> int list \<Rightarrow> int" where
  "max_default d [] = d"
| "max_default d (x # xs) = foldl max x xs"

lemma foldl_max_ge: "(a::int) \<le> foldl max a xs \<and> (\<forall>x \<in> set xs. x \<le> foldl max a xs)"
proof (induction xs arbitrary: a)
  case Nil
  then show ?case by simp
next
  case (Cons x xs)
  from Cons [of "max a x"] show ?case by auto
qed

lemma foldl_max_in: "foldl max (a::int) xs \<in> insert a (set xs)"
proof (induction xs arbitrary: a)
  case Nil
  then show ?case by simp
next
  case (Cons x xs)
  from Cons [of "max a x"] show ?case by (auto simp: max_def split: if_splits)
qed

lemma max_default_upper: "x \<in> set xs \<Longrightarrow> x \<le> max_default d xs"
  using foldl_max_ge by (cases xs) auto

lemma max_default_in: "xs \<noteq> [] \<Longrightarrow> max_default d xs \<in> set xs"
  using foldl_max_in by (cases xs) auto

lemma max_default_succ_fresh: "max_default d xs + 1 \<notin> set xs"
  using max_default_upper [of "max_default d xs + 1" xs d] by auto

text \<open>Membership of a list as a check, and indexed update of one element.\<close>

lemma find_Some: "List.find P xs = Some x \<Longrightarrow> x \<in> set xs \<and> P x"
  by (induction xs) (auto split: if_splits)

lemma find_None: "List.find P xs = None \<longleftrightarrow> (\<forall>x \<in> set xs. \<not> P x)"
  by (induction xs) auto

lemma find_unique:
  assumes "x \<in> set xs" and "P x" and "\<And>y. y \<in> set xs \<Longrightarrow> P y \<Longrightarrow> y = x"
  shows "List.find P xs = Some x"
proof (cases "List.find P xs")
  case None
  with assms(1,2) show ?thesis by (simp add: find_None)
next
  case (Some y)
  with find_Some [OF Some] assms(3) show ?thesis by blast
qed

text \<open>Association lists as dictionaries.\<close>

lemma map_of_update [simp]: "map_of (AList.update k v al) = (map_of al)(k \<mapsto> v)"
  by (rule update_conv')

lemma map_of_delete [simp]: "map_of (AList.delete k al) = (map_of al)(k := None)"
  by (rule delete_conv')

lemma map_of_filter_keys:
  "distinct (map fst al) \<Longrightarrow>
     map_of (filter P al) k = (case map_of al k of None \<Rightarrow> None
        | Some v \<Rightarrow> if P (k, v) then Some v else None)"
proof (induction al)
  case Nil
  then show ?case by simp
next
  case (Cons a al)
  show ?case
  proof (cases "k = fst a")
    case True
    with Cons.prems have "map_of al k = None" and "map_of (filter P al) k = None"
      by (auto simp: map_of_eq_None_iff)
    with True show ?thesis by (cases a) auto
  next
    case False
    with Cons show ?thesis by (cases a) auto
  qed
qed

lemma map_of_set_values: "distinct (map fst al) \<Longrightarrow> (k, v) \<in> set al \<longleftrightarrow> map_of al k = Some v"
  by (rule map_of_eq_Some_iff [symmetric])

section \<open>Decimal numerals\<close>

text \<open>\<open>str(n)\<close> of a Python integer, as formatted strings use it.\<close>

definition digit_char :: "nat \<Rightarrow> char" where
  "digit_char d = char_of (48 + d)"

function nat_digits :: "nat \<Rightarrow> string" where
  "nat_digits n = (if n < 10 then [digit_char n]
     else nat_digits (n div 10) @ [digit_char (n mod 10)])"
  by pat_completeness auto
termination by (relation "measure id") auto

declare nat_digits.simps [simp del]

definition show_int :: "int \<Rightarrow> string" where
  "show_int n = (if n < 0 then CHR ''-'' # nat_digits (nat (- n)) else nat_digits (nat n))"

lemma digit_char_inj: "d < 10 \<Longrightarrow> e < 10 \<Longrightarrow> digit_char d = digit_char e \<Longrightarrow> d = e"
  by (simp add: digit_char_def char_of_eq_iff take_bit_nat_eq_self)

lemma nat_digits_nonempty [simp]: "nat_digits n \<noteq> []" "[] \<noteq> nat_digits n"
  by (simp_all add: nat_digits.simps [of n])

lemma nat_digits_inj: "nat_digits m = nat_digits n \<Longrightarrow> m = n"
proof (induction m arbitrary: n rule: nat_digits.induct)
  case (1 m)
  show ?case
  proof (cases "m < 10 \<or> n < 10")
    case True
    with 1(2) show ?thesis
      by (cases "m < 10"; cases "n < 10")
        (auto simp: nat_digits.simps [of m] nat_digits.simps [of n] digit_char_inj)
  next
    case False
    with 1(2) have d: "nat_digits (m div 10) = nat_digits (n div 10)"
      and "digit_char (m mod 10) = digit_char (n mod 10)"
      by (simp_all add: nat_digits.simps [of m] nat_digits.simps [of n])
    then have "m mod 10 = n mod 10" by (simp add: digit_char_inj)
    moreover from 1(1) False d have "m div 10 = n div 10" by simp
    ultimately show ?thesis by (metis div_mult_mod_eq)
  qed
qed

lemma nat_digits_no_minus: "CHR ''-'' \<notin> set (nat_digits n)"
proof (induction n rule: nat_digits.induct)
  case (1 n)
  have "digit_char (n mod 10) \<noteq> CHR ''-''"
  proof
    assume "digit_char (n mod 10) = CHR ''-''"
    then have "of_char (digit_char (n mod 10)) = (45 :: nat)" by simp
    then show False by (simp add: digit_char_def)
  qed
  with 1 show ?case by (cases "n < 10") (auto simp: nat_digits.simps [of n])
qed

lemma show_int_inj: "show_int m = show_int n \<longleftrightarrow> m = n"
proof
  assume a: "show_int m = show_int n"
  have h: "hd (nat_digits k) \<noteq> CHR ''-''" for k
    using nat_digits_no_minus [of k] hd_in_set [of "nat_digits k"] by fastforce
  show "m = n"
  proof (cases "m < 0 \<longleftrightarrow> n < 0")
    case True
    with a nat_digits_inj show ?thesis
      by (cases "m < 0") (auto simp: show_int_def dest: nat_digits_inj)
  next
    case False
    with a h show ?thesis by (auto simp: show_int_def split: if_splits) (metis list.sel(1))+
  qed
qed simp

text \<open>Sums.\<close>

lemma map_sum_Inr [simp]: "map_sum id f x = Inr y \<longleftrightarrow> (\<exists>z. x = Inr z \<and> y = f z)"
  by (cases x) auto

text \<open>The first element that satisfies a condition is changed.\<close>

fun update_first :: "('a \<Rightarrow> bool) \<Rightarrow> ('a \<Rightarrow> 'a) \<Rightarrow> 'a list \<Rightarrow> 'a list" where
  "update_first p f [] = []"
| "update_first p f (x # xs) = (if p x then f x # xs else x # update_first p f xs)"

lemma update_first_length [simp]: "length (update_first p f xs) = length xs"
  by (induction xs) auto

lemma update_first_set: "y \<in> set (update_first p f xs) \<Longrightarrow> y \<in> set xs \<or> (\<exists>x \<in> set xs. p x \<and> y = f x)"
  by (induction xs) (auto split: if_splits)

lemma update_first_map: "(\<And>x. g (f x) = g x) \<Longrightarrow> map g (update_first p f xs) = map g xs"
  by (induction xs) auto

lemma update_first_none: "List.find p xs = None \<Longrightarrow> update_first p f xs = xs"
  by (induction xs) (auto split: if_splits)

lemma update_first_id: "List.find p xs = Some x \<Longrightarrow> f x = x \<Longrightarrow> update_first p f xs = xs"
  by (induction xs) (auto split: if_splits)

end
