(* ===== verification/Tool_Contracts.thy ===== *)
theory Tool_Contracts
  imports Prelude
begin

text \<open>
  The provider-neutral contracts of \<open>execution/orchestrator/models.py\<close> up to the run
  aggregate: content parts, tools and tool results, tool-batch entries and batches with their
  validators, the durable transcript messages, the model-facing messages and the model stream
  events. Every record field is a field of the source class; the prefix of a field name is the
  initials of its class, because Isabelle selectors share one name space. A union with a
  discriminator is a datatype; a validator is a \<^typ>\<open>check\<close> with the source's messages,
  the \<open>Field\<close> constraints of the class first.
\<close>

section \<open>Content and tools\<close>

datatype content_part =
    TextPart string
  | DataPart json string "json option"
  | ArtifactRefPart string "string option"

record usage_record =
  ur_input_tokens :: int
  ur_output_tokens :: int
  ur_cache_read_tokens :: int
  ur_cache_write_tokens :: int

definition usage_zero :: usage_record where
  "usage_zero = \<lparr>ur_input_tokens = 0, ur_output_tokens = 0, ur_cache_read_tokens = 0,
     ur_cache_write_tokens = 0\<rparr>"

definition usage_error :: "usage_record \<Rightarrow> check" where
  "usage_error u = first_error
     [require (0 \<le> ur_input_tokens u) ''input_tokens'',
      require (0 \<le> ur_output_tokens u) ''output_tokens'',
      require (0 \<le> ur_cache_read_tokens u) ''cache_read_tokens'',
      require (0 \<le> ur_cache_write_tokens u) ''cache_write_tokens'']"

datatype execution_mode = Sequential | Parallel
datatype side_effect = EffectRead | EffectWrite | EffectExternal

record tool_definition =
  td_name :: string
  td_label :: string
  td_description :: string
  td_input_schema :: json
  td_execution_mode :: execution_mode
  td_side_effect_level :: side_effect

record tool_call =
  tc_call_id :: string
  tc_tool_name :: string
  tc_arguments :: "(string \<times> json) list"

datatype result_status = ResCompleted | ResFailed | ResCanceled | ResRejected | ResExpired

record tool_result =
  tr_call_id :: string
  tr_tool_name :: string
  tr_status :: result_status
  tr_content :: "content_part list"
  tr_artifact_refs :: "string list"
  tr_error_code :: "string option"
  tr_error_message :: "string option"

record tool_binding_ref =
  tbr_binding_id :: string
  tbr_binding_digest :: string

record resolved_tool =
  rt_definition :: tool_definition
  rt_binding :: tool_binding_ref

record tool_invocation =
  ti_invocation_id :: string
  ti_run_id :: string
  ti_expected_run_version :: int
  ti_assistant_message_id :: string
  ti_source_index :: int
  ti_causation_id :: string
  ti_idempotency_key :: string
  ti_tool :: resolved_tool
  ti_arguments :: "(string \<times> json) list"
  ti_deadline_at :: datetime

definition invocation_error :: "tool_invocation \<Rightarrow> check" where
  "invocation_error i = first_error
     [require (0 \<le> ti_expected_run_version i) ''expected_run_version'',
      require (0 \<le> ti_source_index i) ''source_index'']"

record tool_acceptance =
  ta_acceptance_id :: string
  ta_invocation_id :: string
  ta_idempotency_key :: string
  ta_accepted_at :: datetime

section \<open>Interactions, suspensions and observations\<close>

datatype suspension_status = SusWaitingExternal | SusInputRequired | SusAuthRequired
datatype reply_delivery = ReplyAccepted | ReplyTransportUncertain

record interaction_question =
  iq_question_id :: string
  iq_interaction_kind :: string
  iq_prompt :: string
  iq_answer_kind :: string
  iq_required :: bool
  iq_choices :: "string list option"

record interaction_answer =
  ia_question_id :: string
  ia_answer :: string

record interaction_answers =
  ias_interaction_id :: string
  ias_answers :: "interaction_answer list"

record tool_suspension =
  ts_invocation_id :: string
  ts_status :: suspension_status
  ts_observation_cursor :: "string option"
  ts_delivery_state :: "reply_delivery option"
  ts_call_record_id :: "string option"
  ts_interaction_id :: "string option"
  ts_interaction_fingerprint :: "string option"
  ts_questions :: "interaction_question list"

datatype execution_outcome = OutcomeResult tool_result | OutcomeSuspension tool_suspension

record tool_observation =
  to_observation_id :: string
  to_invocation_id :: string
  to_outcome :: execution_outcome
  to_observed_at :: datetime
  to_interaction_answers :: "interaction_answers option"

section \<open>Tool batches\<close>

datatype entry_state =
    EsPending | EsInvalid | EsAcceptanceFailed | EsSkipped | EsAccepted | EsExecuting
  | EsWaitingExternal | EsInputRequired | EsAuthRequired | EsTerminal

record batch_entry =
  be_call_id :: string
  be_opaque_public_call_id :: "string option"
  be_assistant_message_id :: string
  be_source_index :: int
  be_tool_name :: string
  be_state :: entry_state
  be_invocation :: "tool_invocation option"
  be_acceptance :: "tool_acceptance option"
  be_buffered_terminal_result :: "tool_result option"
  be_public_update_index :: int
  be_public_terminal_emitted :: bool
  be_processed_observation_ids :: "string list"
  be_presented :: bool
  be_result_flushed :: bool
  be_suspended_call_record_id :: "string option"
  be_surface_for_call_record_id :: "string option"
  be_presentation_id :: "string option"
  be_interaction_id :: "string option"
  be_interaction_fingerprint :: "string option"
  be_interaction_questions :: "interaction_question list"
  be_interaction_answers :: "interaction_answers list"

definition entry_error :: "batch_entry \<Rightarrow> check" where
  "entry_error e = first_error
     [require (0 \<le> be_source_index e) ''source_index'',
      require (0 \<le> be_public_update_index e) ''public_update_index'',
      (case be_invocation e of None \<Rightarrow> None | Some i \<Rightarrow> invocation_error i),
      require (distinct (be_processed_observation_ids e))
        ''processed observation IDs must be unique'',
      require (be_state e = EsTerminal \<longrightarrow> be_buffered_terminal_result e \<noteq> None)
        ''terminal tool entry requires buffered result'',
      require (be_acceptance e \<noteq> None \<longrightarrow> be_invocation e \<noteq> None)
        ''tool acceptance requires an invocation'',
      require (be_public_terminal_emitted e \<longrightarrow> be_state e = EsTerminal)
        ''public Tool terminal requires terminal durable state'']"

record tool_batch =
  tb_assistant_message_id :: string
  tb_entries :: "batch_entry list"
  tb_results_flushed :: bool
  tb_internal_turn_id :: "string option"

definition batch_error :: "tool_batch \<Rightarrow> check" where
  "batch_error b = first_error
     (map entry_error (tb_entries b) @
     [require (distinct (map be_call_id (tb_entries b)))
        ''tool batch call IDs must be unique'',
      require (list_all (\<lambda>e. be_assistant_message_id e = tb_assistant_message_id b) (tb_entries b))
        ''tool batch entries must belong to the assistant message''])"

section \<open>The durable transcript\<close>

record user_message =
  um_message_id :: string
  um_content :: "content_part list"
  um_created_at :: datetime

datatype finish_reason =
    FinStop | FinToolCalls | FinLength | FinContentFilter | FinError | FinAborted

record assistant_message =
  am_message_id :: string
  am_content :: "content_part list"
  am_tool_calls :: "tool_call list"
  am_finish_reason :: finish_reason
  am_usage :: "usage_record option"
  am_created_at :: datetime

record tool_result_message =
  trm_message_id :: string
  trm_call_id :: string
  trm_tool_name :: string
  trm_status :: result_status
  trm_content :: "content_part list"
  trm_artifact_refs :: "string list"
  trm_is_error :: bool
  trm_error_code :: "string option"
  trm_error_message :: "string option"
  trm_interaction_answers :: "interaction_answers list"
  trm_created_at :: datetime

record tool_interaction_message =
  tim_message_id :: string
  tim_call_id :: string
  tim_tool_name :: string
  tim_presentation_id :: "string option"
  tim_interaction_id :: string
  tim_interaction_fingerprint :: string
  tim_questions :: "interaction_question list"
  tim_artifact_refs :: "string list"
  tim_agent_label :: "string option"
  tim_interaction_answers :: "interaction_answers list"
  tim_created_at :: datetime

record session_notice =
  sn_notice_id :: string
  sn_code :: string
  sn_content :: string
  sn_related_call_id :: "string option"
  sn_created_at :: datetime

datatype agent_message =
    UserMsg user_message
  | AssistantMsg assistant_message
  | ToolResultMsg tool_result_message
  | ToolInteractionMsg tool_interaction_message
  | NoticeMsg session_notice

definition message_error :: "agent_message \<Rightarrow> check" where
  "message_error m = (case m of
      AssistantMsg a \<Rightarrow> (case am_usage a of None \<Rightarrow> None | Some u \<Rightarrow> usage_error u)
    | _ \<Rightarrow> None)"

section \<open>Model-facing messages\<close>

datatype model_part =
    ModelText string
  | ModelToolCall string string "(string \<times> json) list"
  | ModelToolResult string string "string list" bool

datatype model_role = RoleUser | RoleAssistant | RoleTool

record model_message =
  mm_role :: model_role
  mm_content :: "model_part list"

record compaction_result =
  cr_summary :: string
  cr_provider_attempts :: int
  cr_usage :: "usage_record option"

section \<open>Model stream events\<close>

datatype stream_kind =
    SkAttemptStarted | SkRetryScheduled | SkAttemptFailed | SkTextDelta | SkReasoningDelta
  | SkToolCallStart | SkToolCallArgumentsDelta | SkToolCallEnd | SkUsage | SkFinish | SkError

datatype error_class =
    EcAuthentication | EcRateLimit | EcTimeout | EcNetwork | EcProvider5xx | EcContextOverflow
  | EcInvalidRequest | EcContentFilter | EcAborted | EcUnknown

record stream_event =
  se_kind :: stream_kind
  se_attempt :: "int option"
  se_provider_request_id :: "string option"
  se_error_class :: "error_class option"
  se_retryable :: "bool option"
  se_retry_delay_ms :: "int option"
  se_error_code :: "string option"
  se_error_message :: "string option"
  se_call_id :: "string option"
  se_tool_name :: "string option"
  se_delta :: "string option"
  se_usage :: "usage_record option"
  se_finish_reason :: "string option"

definition stream_kind_name :: "stream_kind \<Rightarrow> string" where
  "stream_kind_name k = (case k of
      SkAttemptStarted \<Rightarrow> ''attempt_started'' | SkRetryScheduled \<Rightarrow> ''retry_scheduled''
    | SkAttemptFailed \<Rightarrow> ''attempt_failed'' | SkTextDelta \<Rightarrow> ''text_delta''
    | SkReasoningDelta \<Rightarrow> ''reasoning_delta'' | SkToolCallStart \<Rightarrow> ''tool_call_start''
    | SkToolCallArgumentsDelta \<Rightarrow> ''tool_call_arguments_delta''
    | SkToolCallEnd \<Rightarrow> ''tool_call_end'' | SkUsage \<Rightarrow> ''usage'' | SkFinish \<Rightarrow> ''finish''
    | SkError \<Rightarrow> ''error'')"

fun join_strings :: "string \<Rightarrow> string list \<Rightarrow> string" where
  "join_strings sep [] = []"
| "join_strings sep [x] = x"
| "join_strings sep (x # y # ys) = x @ sep @ join_strings sep (y # ys)"

text \<open>The names of the accounting fields a retry event lacks, in the source's order.\<close>

definition missing_retry_metadata :: "stream_event \<Rightarrow> string list" where
  "missing_retry_metadata ev =
     (if se_attempt ev = None then [''attempt''] else []) @
     (if se_error_class ev = None then [''error_class''] else []) @
     (if se_retryable ev = None then [''retryable''] else [])"

definition stream_event_error :: "stream_event \<Rightarrow> check" where
  "stream_event_error ev = first_error
     [require (\<forall>a \<in> set_option (se_attempt ev). 1 \<le> a) ''attempt'',
      require (\<forall>d \<in> set_option (se_retry_delay_ms ev). 0 \<le> d) ''retry_delay_ms'',
      (case se_usage ev of None \<Rightarrow> None | Some u \<Rightarrow> usage_error u),
      require (se_kind ev = SkAttemptStarted \<longrightarrow> se_attempt ev \<noteq> None)
        ''attempt_started requires an attempt number'',
      require (se_kind ev \<in> {SkAttemptFailed, SkRetryScheduled} \<longrightarrow> missing_retry_metadata ev = [])
        (stream_kind_name (se_kind ev) @ '' requires '' @
           join_strings '', '' (missing_retry_metadata ev)),
      require (se_kind ev = SkRetryScheduled \<longrightarrow> se_retryable ev = Some True)
        ''retry_scheduled requires retryable=true'',
      require (se_kind ev = SkError \<longrightarrow> se_error_class ev \<noteq> None)
        ''error requires error_class'']"

end
