(* ===== verification/Run_Contracts.thy ===== *)
theory Run_Contracts
  imports Tool_Contracts
begin

text \<open>
  The run aggregate of \<open>execution/orchestrator/models.py\<close>: the frozen profile and model route,
  the resource manifest and tool catalog, the budget, the recovery claim, the projection
  outbox, \<open>OrchestratorRunState\<close> with its validator, and the durable event; the run-status
  vocabulary of \<open>persistence.py\<close>; and the task text an Agent tool receives, without copied
  history labels.
\<close>

section \<open>Profile and model route\<close>

datatype provider = ProvOpenai | ProvDeepseek
datatype provider_api = ApiChatCompletions | ApiResponses
datatype structured_validation = SvProviderStrict | SvLocal | SvUnsupported
datatype tool_strategy = TsNative | TsStructuredAction

record model_snapshot =
  ms_route :: string
  ms_provider :: provider
  ms_model_id :: string
  ms_api :: provider_api
  ms_supports_native_tools :: bool
  ms_supports_provider_strict_schema :: bool
  ms_supports_local_structured_action :: bool
  ms_structured_action_validation :: structured_validation
  ms_tool_strategy :: tool_strategy
  ms_context_window :: int
  ms_max_output_tokens :: int
  ms_temperature :: "rat option"
  ms_provider_timeout_seconds :: rat
  ms_max_provider_retries :: int
  ms_supported_thinking_levels :: "string list"

definition model_snapshot_error :: "model_snapshot \<Rightarrow> check" where
  "model_snapshot_error m = first_error
     [require (0 < ms_context_window m) ''context_window'',
      require (0 < ms_max_output_tokens m) ''max_output_tokens'',
      require (0 < ms_provider_timeout_seconds m) ''provider_timeout_seconds'',
      require (0 \<le> ms_max_provider_retries m) ''max_provider_retries'',
      require (\<not> (ms_tool_strategy m = TsNative \<and> \<not> ms_supports_native_tools m))
        ''native tool strategy requires native tool capability'',
      (if ms_tool_strategy m = TsStructuredAction then first_error
         [require (ms_structured_action_validation m \<noteq> SvUnsupported)
            ''structured-action strategy requires a validation capability'',
          require (\<not> (ms_structured_action_validation m = SvProviderStrict
                     \<and> \<not> ms_supports_provider_strict_schema m))
            ''provider-strict strategy requires provider strict schema capability'',
          require (\<not> (ms_structured_action_validation m = SvLocal
                     \<and> \<not> ms_supports_local_structured_action m))
            ''local structured-action strategy requires local validation capability'']
       else require (ms_structured_action_validation m = SvUnsupported)
              ''native tool strategy cannot select structured validation'')]"

record prompt_snapshot =
  ps_prompt_id :: string
  ps_version :: string
  ps_content_digest :: string
  ps_rendered_system_prompt :: string

datatype profile_id = ProfFast | ProfUltimate | ProfPassthrough
datatype initial_routing = ExplicitAgentFirst | ModelSelect
datatype finalization = FinalPassThrough | FinalLight | FinalSynthesize

record orch_profile =
  op_profile_id :: profile_id
  op_model :: "model_snapshot option"
  op_prompt :: "prompt_snapshot option"
  op_thinking_level :: "string option"
  op_max_model_turns :: int
  op_grace_model_turns :: int
  op_max_agent_calls :: int
  op_max_parallel_calls :: int
  op_max_transport_retries_per_call :: int
  op_max_provider_retries_total :: int
  op_max_input_tokens_total :: "int option"
  op_max_output_tokens_total :: "int option"
  op_max_compactions :: int
  op_deadline_seconds :: rat
  op_initial_routing :: initial_routing
  op_tool_execution :: execution_mode
  op_finalization :: finalization

definition profile_error :: "orch_profile \<Rightarrow> check" where
  "profile_error p = first_error
     [(case op_model p of None \<Rightarrow> None | Some m \<Rightarrow> model_snapshot_error m),
      require (0 \<le> op_max_model_turns p) ''max_model_turns'',
      require (0 \<le> op_grace_model_turns p) ''grace_model_turns'',
      require (0 < op_max_agent_calls p) ''max_agent_calls'',
      require (0 < op_max_parallel_calls p) ''max_parallel_calls'',
      require (0 \<le> op_max_transport_retries_per_call p) ''max_transport_retries_per_call'',
      require (0 \<le> op_max_provider_retries_total p) ''max_provider_retries_total'',
      require (\<forall>n \<in> set_option (op_max_input_tokens_total p). 0 < n) ''max_input_tokens_total'',
      require (\<forall>n \<in> set_option (op_max_output_tokens_total p). 0 < n) ''max_output_tokens_total'',
      require (0 \<le> op_max_compactions p) ''max_compactions'',
      require (0 < op_deadline_seconds p) ''deadline_seconds'',
      require (op_max_parallel_calls p \<le> op_max_agent_calls p)
        ''max_parallel_calls cannot exceed max_agent_calls'',
      require (\<not> (op_profile_id p \<noteq> ProfPassthrough \<and> (op_model p = None \<or> op_prompt p = None)))
        ''model profiles require a model route and prompt'',
      require (case op_thinking_level p of None \<Rightarrow> True
               | Some l \<Rightarrow> (case op_model p of None \<Rightarrow> False
                           | Some m \<Rightarrow> l \<in> set (ms_supported_thinking_levels m)))
        ''thinking_level is unsupported by the frozen model route'']"

section \<open>The task of an Agent tool call\<close>

text \<open>
  \<open>_HISTORICAL_TASK_LABEL\<close> is an anchored regular expression that repeats one label: optional
  white space, the literal \<open>[historical plan, not evidence\<close>, anything but a bracket or a newline,
  the closing bracket, blanks, and a newline or the end. Every choice in it is decided by the
  next character, so one repetition is the function \<open>drop_label\<close> and the greedy repetition is
  \<open>strip_labels\<close>.
\<close>

definition py_isspace :: "char \<Rightarrow> bool" where
  "py_isspace c \<longleftrightarrow> of_char c \<in> {9, 10, 11, 12, 13, 28, 29, 30, 31, 32, 133, 160 :: nat}"

definition py_strip :: "string \<Rightarrow> string" where
  "py_strip s = rev (dropWhile py_isspace (rev (dropWhile py_isspace s)))"

definition history_label :: string where
  "history_label = ''[historical plan, not evidence''"

definition newline :: char where "newline = CHR 0x0A"

definition drop_label :: "string \<Rightarrow> string option" where
  "drop_label s =
     (let s1 = dropWhile py_isspace s in
      if take (length history_label) s1 = history_label then
        (case dropWhile (\<lambda>c. c \<noteq> CHR '']'' \<and> c \<noteq> newline) (drop (length history_label) s1) of
           [] \<Rightarrow> None
         | c # s2 \<Rightarrow>
             if c = CHR '']'' then
               (case dropWhile (\<lambda>c. c = CHR '' '' \<or> c = CHR 0x09) s2 of
                  [] \<Rightarrow> Some []
                | d # s3 \<Rightarrow> if d = newline then Some s3 else None)
             else None)
      else None)"

lemma dropWhile_suffix: "\<exists>p. xs = p @ dropWhile P xs"
  by (rule exI [of _ "takeWhile P xs"]) simp

lemma drop_label_suffix: "drop_label s = Some r \<Longrightarrow> \<exists>p. s = p @ r \<and> p \<noteq> []"
proof -
  assume a: "drop_label s = Some r"
  define s1 where "s1 = dropWhile py_isspace s"
  define t where "t = dropWhile (\<lambda>c. c \<noteq> CHR '']'' \<and> c \<noteq> newline) (drop (length history_label) s1)"
  from a have "take (length history_label) s1 = history_label"
    by (auto simp: drop_label_def Let_def s1_def split: if_splits)
  with a obtain c s2 where t: "t = c # s2" and c: "c = CHR '']''"
    and r: "(case dropWhile (\<lambda>c. c = CHR '' '' \<or> c = CHR 0x09) s2 of
                  [] \<Rightarrow> Some [] | d # s3 \<Rightarrow> if d = newline then Some s3 else None) = Some r"
    by (auto simp: drop_label_def Let_def s1_def t_def split: if_splits list.splits)
  obtain p0 where p0: "s = p0 @ s1" unfolding s1_def using dropWhile_suffix by blast
  obtain p1 where p1: "drop (length history_label) s1 = p1 @ t"
    unfolding t_def using dropWhile_suffix by blast
  obtain p2 where p2: "s2 = p2 @ dropWhile (\<lambda>c. c = CHR '' '' \<or> c = CHR 0x09) s2"
    using dropWhile_suffix by blast
  from r have "\<exists>q. dropWhile (\<lambda>c. c = CHR '' '' \<or> c = CHR 0x09) s2 = q @ r"
    by (auto split: list.splits if_splits)
  then obtain q where q: "dropWhile (\<lambda>c. c = CHR '' '' \<or> c = CHR 0x09) s2 = q @ r" ..
  have "s1 = take (length history_label) s1 @ p1 @ (c # p2 @ q) @ r"
    by (metis append_take_drop_id p1 t p2 q append_Cons append_assoc)
  with p0 have "s = (p0 @ take (length history_label) s1 @ p1 @ (c # p2 @ q)) @ r"
    by simp
  then show ?thesis by blast
qed

function strip_labels :: "string \<Rightarrow> string" where
  "strip_labels s = (case drop_label s of None \<Rightarrow> s | Some r \<Rightarrow> strip_labels r)"
  by pat_completeness auto
termination
  by (relation "measure length") (auto dest!: drop_label_suffix)

declare strip_labels.simps [simp del]

lemma strip_labels_no_label: "drop_label (strip_labels s) = None"
proof (induction s rule: strip_labels.induct)
  case (1 s)
  then show ?case by (cases "drop_label s") (auto simp: strip_labels.simps [of s])
qed

lemma strip_labels_suffix: "\<exists>p. s = p @ strip_labels s"
proof (induction s rule: strip_labels.induct)
  case (1 s)
  show ?case
  proof (cases "drop_label s")
    case None
    then show ?thesis by (simp add: strip_labels.simps [of s])
  next
    case (Some r)
    with 1 obtain p where "r = p @ strip_labels r" by blast
    with Some drop_label_suffix [OF Some] show ?thesis
      by (metis strip_labels.simps option.simps(5) append_assoc)
  qed
qed

lemma strip_labels_id: "drop_label s = None \<Longrightarrow> strip_labels s = s"
  by (simp add: strip_labels.simps)

text \<open>The validated \<open>task\<close>: \<open>Inl\<close> the validation error, \<open>Inr\<close> the text the Agent gets.\<close>

definition agent_task :: "string \<Rightarrow> string + string" where
  "agent_task v =
     (if length v < 1 then Inl ''min_length''
      else if 20000 < length v then Inl ''max_length''
      else let stripped = strip_labels v in
        if py_strip stripped = [] then Inl ''task is empty after removing the history label''
        else Inr stripped)"

section \<open>Resources and the frozen tool catalog\<close>

datatype resource_kind = RkContext | RkArtifact | RkAttachment

record prepared_resource_ref =
  pr_ref_id :: string
  pr_kind :: resource_kind
  pr_source_message_id :: string
  pr_mime_type :: "string option"
  pr_size_bytes :: int
  pr_content_digest :: string

record resource_manifest =
  rm_manifest_id :: string
  rm_refs :: "prepared_resource_ref list"
  rm_content_digest :: string

definition manifest_error :: "resource_manifest \<Rightarrow> check" where
  "manifest_error m = first_error (map (\<lambda>r. require (0 \<le> pr_size_bytes r) ''size_bytes'') (rm_refs m))"

record catalog_entry =
  ce_definition :: tool_definition
  ce_binding :: tool_binding_ref
  ce_input_modes :: "string list"
  ce_agent_display_name :: "string option"

record tool_catalog =
  tcat_catalog_id :: string
  tcat_entries :: "catalog_entry list"
  tcat_created_at :: datetime

definition catalog_error :: "tool_catalog \<Rightarrow> check" where
  "catalog_error c = first_error
     [require (distinct (map (\<lambda>e. td_name (ce_definition e)) (tcat_entries c)))
        ''frozen tool names must be unique'',
      require (distinct (map (\<lambda>e. tbr_binding_id (ce_binding e)) (tcat_entries c)))
        ''frozen tool binding IDs must be unique'']"

record run_request =
  rr_request_fingerprint :: string
  rr_room_epoch :: int
  rr_requesting_subject_id :: string
  rr_user_message_id :: string
  rr_quoted_message_id :: "string option"
  rr_attachment_refs :: "string list"

definition run_request_error :: "run_request \<Rightarrow> check" where
  "run_request_error r = first_error
     [require (1 \<le> rr_room_epoch r) ''room_epoch'',
      require (1 \<le> length (rr_requesting_subject_id r)
               \<and> length (rr_requesting_subject_id r) \<le> 256) ''requesting_subject_id'']"

section \<open>Recovery claim and projection outbox\<close>

datatype claim_kind = ClaimExecution | ClaimCancellation
datatype quarantine_reason = TerminalInvariantConflict

record recovery_claim =
  rc_kind :: claim_kind
  rc_owner_id :: "string option"
  rc_lease_expires_at :: "datetime option"
  rc_next_attempt_at :: "datetime option"
  rc_failure_count :: int
  rc_quarantined_at :: "datetime option"
  rc_quarantine_reason :: "quarantine_reason option"

definition recovery_claim_error :: "recovery_claim \<Rightarrow> check" where
  "recovery_claim_error c = first_error
     [require (0 \<le> rc_failure_count c) ''failure_count'',
      require ((rc_quarantined_at c = None) = (rc_quarantine_reason c = None))
        ''recovery quarantine timestamp and reason must be paired'',
      require (\<not> (rc_quarantined_at c \<noteq> None \<and> rc_owner_id c \<noteq> None))
        ''quarantined recovery cannot retain an owner'']"

datatype intent_status = IntPending | IntClaimed | IntCompleted | IntBlocked

record projection_intent =
  pi_intent_id :: string
  pi_kind :: string
  pi_target :: string
  pi_dedupe_key :: string
  pi_required :: bool
  pi_event_id :: string
  pi_event_sequence :: int
  pi_causation_id :: string
  pi_payload :: "(string \<times> json) list"
  pi_status :: intent_status
  pi_blocked_reason :: "string option"
  pi_claim_owner :: "string option"
  pi_claim_expires_at :: "datetime option"
  pi_attempt_count :: int
  pi_next_attempt_at :: "datetime option"

definition intent_error :: "projection_intent \<Rightarrow> check" where
  "intent_error i = first_error
     [require (0 < pi_event_sequence i) ''event_sequence'',
      require (0 \<le> pi_attempt_count i) ''attempt_count'']"

section \<open>Budget\<close>

record budget_state =
  bs_model_turns_used :: int
  bs_grace_turns_used :: int
  bs_agent_calls_used :: int
  bs_parallel_calls_active :: int
  bs_provider_retries_used :: int
  bs_provider_attempt_keys :: "string list"
  bs_usage_by_attempt :: "(string \<times> usage_record) list"
  bs_transport_retries_used :: int
  bs_compactions_used :: int
  bs_input_tokens :: int
  bs_output_tokens :: int
  bs_deadline_at :: datetime
  bs_suspended_at :: "datetime option"
  bs_wrap_up_requested :: bool

definition budget_error :: "budget_state \<Rightarrow> check" where
  "budget_error b = first_error
     [require (0 \<le> bs_model_turns_used b) ''model_turns_used'',
      require (0 \<le> bs_grace_turns_used b) ''grace_turns_used'',
      require (0 \<le> bs_agent_calls_used b) ''agent_calls_used'',
      require (0 \<le> bs_parallel_calls_active b) ''parallel_calls_active'',
      require (0 \<le> bs_provider_retries_used b) ''provider_retries_used'',
      require (0 \<le> bs_transport_retries_used b) ''transport_retries_used'',
      require (0 \<le> bs_compactions_used b) ''compactions_used'',
      require (0 \<le> bs_input_tokens b) ''input_tokens'',
      require (0 \<le> bs_output_tokens b) ''output_tokens'',
      first_error (map (\<lambda>(k, u). usage_error u) (bs_usage_by_attempt b)),
      require (distinct (bs_provider_attempt_keys b)) ''provider attempt keys must be unique'',
      require (list_all (\<lambda>(k, u). k \<in> set (bs_provider_attempt_keys b)) (bs_usage_by_attempt b))
        ''usage ledger keys must identify recorded attempts'']"

section \<open>Candidate scope\<close>

datatype authorization_kind =
    AuthRoomMember | AuthSavedGroupMember | AuthExplicitSelection | AuthMention
  | AuthAllActiveAgents

record authorization_basis =
  ab_kind :: authorization_kind
  ab_conversation_id :: "string option"
  ab_group_id :: "string option"
  ab_selected_by_user_id :: "string option"
  ab_checked_at :: datetime

record candidate_agent =
  ca_agent_id :: string
  ca_name :: "string option"
  ca_role :: "string option"
  ca_capability_summary :: string
  ca_status :: "string option"
  ca_source :: "string option"
  ca_capabilities :: "string list"
  ca_input_modes :: "string list"
  ca_output_modes :: "string list"
  ca_supports_file_upload :: bool
  ca_success_rate :: "rat option"

record candidate_scope =
  cs_snapshot_id :: string
  cs_revision :: int
  cs_source :: string
  cs_conversation_id :: string
  cs_group_id :: "string option"
  cs_agent_ids :: "string list"
  cs_agents :: "candidate_agent list"
  cs_room_membership_version :: "string option"
  cs_group_version :: "string option"
  cs_resolved_at :: datetime
  cs_authorization_basis :: authorization_basis

end
