(* ===== verification/Run_State.thy ===== *)
theory Run_State
  imports Run_Contracts
begin

text \<open>
  \<open>OrchestratorRunState\<close>, the durable aggregate of one Run, with its validator
  \<open>_aggregate_identity_and_uniqueness\<close>, the status vocabulary of \<open>persistence.py\<close> and
  \<open>common/run_status.py\<close>, and \<open>OrchestratorEvent\<close>. The fields fixed by a \<open>Literal\<close> of one
  value (\<open>schema_version\<close>, \<open>lifecycle_family\<close>, \<open>runtime_generation\<close>) carry no information
  and are left out.
\<close>

datatype run_status =
    Queued | Running | WaitingExternal | AwaitingUser | Canceling | Finalizing
  | Completed | Failed | Canceled | BudgetExhausted

definition status_name :: "run_status \<Rightarrow> string" where
  "status_name s = (case s of
      Queued \<Rightarrow> ''queued'' | Running \<Rightarrow> ''running'' | WaitingExternal \<Rightarrow> ''waiting_external''
    | AwaitingUser \<Rightarrow> ''awaiting_user'' | Canceling \<Rightarrow> ''canceling''
    | Finalizing \<Rightarrow> ''finalizing'' | Completed \<Rightarrow> ''completed'' | Failed \<Rightarrow> ''failed''
    | Canceled \<Rightarrow> ''canceled'' | BudgetExhausted \<Rightarrow> ''budget_exhausted'')"

definition terminal_run_statuses :: "run_status set" where
  "terminal_run_statuses = {Completed, Failed, Canceled, BudgetExhausted}"

definition non_terminal_run_statuses :: "run_status list" where
  "non_terminal_run_statuses =
     [Queued, Running, WaitingExternal, AwaitingUser, Canceling, Finalizing]"

definition suspended_run_statuses :: "run_status set" where
  "suspended_run_statuses = {WaitingExternal, AwaitingUser}"

abbreviation is_terminal_status :: "run_status \<Rightarrow> bool" where
  "is_terminal_status s \<equiv> s \<in> terminal_run_statuses"

lemma status_partition: "s \<in> set non_terminal_run_statuses \<longleftrightarrow> \<not> is_terminal_status s"
  by (cases s) (auto simp: non_terminal_run_statuses_def terminal_run_statuses_def)

lemma status_name_inj: "status_name s = status_name t \<Longrightarrow> s = t"
  by (cases s; cases t) (simp_all add: status_name_def)

datatype cancellation_cause = UserRequested | RoomClosed | Shutdown | Policy
datatype projection_state = ProjPending | ProjSettled | ProjBlocked

record run_state =
  run_id :: string
  run_session_id :: string
  run_conversation_id :: string
  run_client_request_id :: "string option"
  run_req :: run_request
  run_profile :: orch_profile
  run_candidate_scope :: candidate_scope
  run_st :: run_status
  run_transcript :: "agent_message list"
  run_background_context :: "model_message list"
  run_tool_catalog :: "tool_catalog option"
  run_resource_manifest :: "resource_manifest option"
  run_tool_batches :: "tool_batch list"
  run_artifact_refs :: "string list"
  run_budget :: budget_state
  run_compaction_summary :: "string option"
  run_compaction_baseline_tokens :: "int option"
  run_active_internal_turn_id :: "string option"
  run_active_assistant_message_id :: "string option"
  run_active_attempt :: "int option"
  run_consecutive_model_joins :: int
  run_greatest_public_text_offset :: int
  run_active_public_text :: string
  run_proposed_final_message_id :: "string option"
  run_terminal_reason :: "string option"
  run_cancellation_command_id :: "string option"
  run_cancellation_requested_at :: "datetime option"
  run_cancellation_cause :: "cancellation_cause option"
  run_projection_state :: projection_state
  run_recovery_claim :: recovery_claim
  run_projection_outbox :: "projection_intent list"
  run_processed_command_ids :: "string list"
  run_state_version :: int
  run_created_at :: datetime
  run_updated_at :: datetime

definition run_entries :: "run_state \<Rightarrow> batch_entry list" where
  "run_entries r = concat (map tb_entries (run_tool_batches r))"

lemma set_run_entries: "set (run_entries r) = (\<Union>b \<in> set (run_tool_batches r). set (tb_entries b))"
  by (simp add: run_entries_def)

text \<open>\<open>[entry.opaque_public_call_id for .. if .. is not None]\<close>\<close>

definition public_call_ids :: "batch_entry list \<Rightarrow> string list" where
  "public_call_ids es = List.map_filter be_opaque_public_call_id es"

text \<open>Python truth of an optional string or integer: absent, empty and zero are false.\<close>

definition truthy_str :: "string option \<Rightarrow> bool" where
  "truthy_str x = (case x of None \<Rightarrow> False | Some s \<Rightarrow> s \<noteq> [])"

definition truthy_int :: "int option \<Rightarrow> bool" where
  "truthy_int x = (case x of None \<Rightarrow> False | Some n \<Rightarrow> n \<noteq> 0)"

text \<open>The \<open>Field\<close> constraints of the aggregate and its parts.\<close>

definition run_field_error :: "run_state \<Rightarrow> check" where
  "run_field_error r = first_error
     [run_request_error (run_req r),
      profile_error (run_profile r),
      require (1 \<le> cs_revision (run_candidate_scope r)) ''revision'',
      first_error (map message_error (run_transcript r)),
      (case run_tool_catalog r of None \<Rightarrow> None | Some c \<Rightarrow> catalog_error c),
      (case run_resource_manifest r of None \<Rightarrow> None | Some m \<Rightarrow> manifest_error m),
      first_error (map batch_error (run_tool_batches r)),
      budget_error (run_budget r),
      require (\<forall>n \<in> set_option (run_compaction_baseline_tokens r). 0 \<le> n)
        ''compaction_baseline_tokens'',
      require (\<forall>n \<in> set_option (run_active_attempt r). 1 \<le> n) ''active_attempt'',
      require (0 \<le> run_consecutive_model_joins r) ''consecutive_model_joins'',
      require (0 \<le> run_greatest_public_text_offset r) ''greatest_public_text_offset'',
      require (length (run_active_public_text r) \<le> 32000) ''active_public_text'',
      recovery_claim_error (run_recovery_claim r),
      first_error (map intent_error (run_projection_outbox r)),
      require (0 \<le> run_state_version r) ''state_version'']"

text \<open>The cancellation metadata of a Run agrees with its status.\<close>

definition cancellation_error :: "run_state \<Rightarrow> check" where
  "cancellation_error r =
     (if run_st r = Canceling then first_error
        [require (run_cancellation_command_id r \<noteq> None \<and> run_cancellation_requested_at r \<noteq> None
                  \<and> run_cancellation_cause r \<noteq> None)
           ''canceling Runs require complete cancellation metadata'',
         require (rc_kind (run_recovery_claim r) = ClaimCancellation)
           ''canceling Runs require cancellation recovery'']
      else if run_st r = Canceled then first_error
        [require (run_cancellation_cause r \<noteq> None)
           ''canceled canonical Runs require a cancellation cause'',
         require ((run_cancellation_command_id r = None) = (run_cancellation_requested_at r = None))
           ''canceled Run command metadata must be paired'']
      else require (run_cancellation_command_id r = None \<and> run_cancellation_requested_at r = None
                    \<and> run_cancellation_cause r = None)
             ''cancellation metadata is valid only for canceling or canceled Runs'')"

text \<open>What a terminal Run may not retain.\<close>

definition terminal_error :: "run_state \<Rightarrow> check" where
  "terminal_error r =
     (if is_terminal_status (run_st r) then first_error
        [require (\<not> (truthy_str (run_active_internal_turn_id r)
                   \<or> truthy_str (run_active_assistant_message_id r)
                   \<or> truthy_int (run_active_attempt r) \<or> run_active_public_text r \<noteq> []))
           ''terminal canonical Runs cannot retain active lifecycle state'',
         require (list_all (\<lambda>e. be_state e = EsTerminal) (run_entries r))
           ''terminal canonical Runs cannot retain open declared Tools'',
         require (list_all tb_results_flushed (run_tool_batches r))
           ''terminal canonical Runs require every Tool batch flushed'']
      else None)"

definition aggregate_error :: "run_state \<Rightarrow> check" where
  "aggregate_error r = first_error
     [require (distinct (map tb_assistant_message_id (run_tool_batches r)))
        ''tool batch assistant message IDs must be unique'',
      require (distinct (map be_call_id (run_entries r))) ''tool batch call IDs must be unique'',
      require (distinct (run_artifact_refs r)) ''artifact refs must be unique'',
      require (distinct (run_processed_command_ids r)) ''processed command IDs must be unique'',
      require (distinct (map pi_intent_id (run_projection_outbox r)))
        ''projection intent IDs must be unique'',
      require (distinct (public_call_ids (run_entries r)))
        ''opaque public call IDs must be unique'',
      cancellation_error r,
      require (list_all (\<lambda>e. be_acceptance e \<noteq> None \<longrightarrow> truthy_str (be_opaque_public_call_id e))
                 (run_entries r))
        ''accepted canonical tool entries require a public call ID'',
      require (run_greatest_public_text_offset r = int (length (run_active_public_text r)))
        ''canonical public offset must match active text checkpoint'',
      terminal_error r]"

definition run_error :: "run_state \<Rightarrow> check" where
  "run_error r = first_error [run_field_error r, aggregate_error r]"

definition valid_run :: "run_state \<Rightarrow> bool" where
  "valid_run r \<longleftrightarrow> run_error r = None"

lemmas run_check_defs =
  valid_run_def run_error_def run_field_error_def aggregate_error_def cancellation_error_def
  terminal_error_def

section \<open>Durable events\<close>

datatype event_type =
    EvRunStarted | EvTurnStarted | EvMessageStarted | EvMessageUpdated | EvMessageCompleted
  | EvToolCallAccepted | EvToolCallUpdated | EvToolCallCompleted | EvTurnCompleted
  | EvRunWaitingExternal | EvRunAwaitingUser | EvRunFinalizing | EvRunCompleted | EvRunFailed
  | EvRunCanceled | EvRunBudgetExhausted

record orch_event =
  ev_event_id :: string
  ev_event_type :: event_type
  ev_session_id :: string
  ev_run_id :: string
  ev_conversation_id :: string
  ev_room_epoch :: int
  ev_sequence :: int
  ev_state_version :: int
  ev_causation_id :: string
  ev_correlation_id :: "string option"
  ev_payload :: "(string \<times> json) list"
  ev_created_at :: datetime

definition event_error :: "orch_event \<Rightarrow> check" where
  "event_error e = first_error
     [require (1 \<le> ev_room_epoch e) ''room_epoch'',
      require (0 < ev_sequence e) ''sequence'',
      require (0 \<le> ev_state_version e) ''state_version'']"

end
