(* ===== verification/Samples.thy ===== *)
theory Samples
  imports Run_State
begin

text \<open>
  Concrete, validated values of the contracts: a profile, a budget, a batch entry with its
  accepted invocation, and a Run whose final answer is ready to commit. The witnesses of the
  component theories apply their properties to these.
\<close>

definition sample_profile :: orch_profile where
  "sample_profile = \<lparr>op_profile_id = ProfPassthrough, op_model = None, op_prompt = None,
     op_thinking_level = None, op_max_model_turns = 2, op_grace_model_turns = 1,
     op_max_agent_calls = 4, op_max_parallel_calls = 2, op_max_transport_retries_per_call = 1,
     op_max_provider_retries_total = 2, op_max_input_tokens_total = Some 100,
     op_max_output_tokens_total = None, op_max_compactions = 1, op_deadline_seconds = 60,
     op_initial_routing = ExplicitAgentFirst, op_tool_execution = Sequential,
     op_finalization = FinalPassThrough\<rparr>"

definition sample_budget :: budget_state where
  "sample_budget = \<lparr>bs_model_turns_used = 0, bs_grace_turns_used = 0, bs_agent_calls_used = 0,
     bs_parallel_calls_active = 0, bs_provider_retries_used = 0, bs_provider_attempt_keys = [],
     bs_usage_by_attempt = [], bs_transport_retries_used = 0, bs_compactions_used = 0,
     bs_input_tokens = 0, bs_output_tokens = 0, bs_deadline_at = 60, bs_suspended_at = None,
     bs_wrap_up_requested = False\<rparr>"

definition sample_definition :: tool_definition where
  "sample_definition = \<lparr>td_name = ''ask'', td_label = ''Ask'', td_description = '''',
     td_input_schema = JObj [], td_execution_mode = Sequential, td_side_effect_level = EffectRead\<rparr>"

definition sample_invocation :: tool_invocation where
  "sample_invocation = \<lparr>ti_invocation_id = ''c1'', ti_run_id = ''run'', ti_expected_run_version = 0,
     ti_assistant_message_id = ''m1'', ti_source_index = 0, ti_causation_id = ''k'',
     ti_idempotency_key = ''key'',
     ti_tool = \<lparr>rt_definition = sample_definition,
       rt_binding = \<lparr>tbr_binding_id = ''b'', tbr_binding_digest = ''bd''\<rparr>\<rparr>,
     ti_arguments = [], ti_deadline_at = 60\<rparr>"

definition sample_acceptance :: tool_acceptance where
  "sample_acceptance = \<lparr>ta_acceptance_id = ''a'', ta_invocation_id = ''c1'',
     ta_idempotency_key = ''key'', ta_accepted_at = 1\<rparr>"

definition sample_result :: tool_result where
  "sample_result = \<lparr>tr_call_id = ''c1'', tr_tool_name = ''ask'', tr_status = ResCompleted,
     tr_content = [TextPart ''sunny''], tr_artifact_refs = [''art''], tr_error_code = None,
     tr_error_message = None\<rparr>"

definition sample_entry :: batch_entry where
  "sample_entry = \<lparr>be_call_id = ''c1'', be_opaque_public_call_id = Some ''inv_1'',
     be_assistant_message_id = ''m1'', be_source_index = 0, be_tool_name = ''ask'',
     be_state = EsTerminal, be_invocation = Some sample_invocation,
     be_acceptance = Some sample_acceptance, be_buffered_terminal_result = Some sample_result,
     be_public_update_index = 0, be_public_terminal_emitted = True,
     be_processed_observation_ids = [], be_presented = False, be_result_flushed = True,
     be_suspended_call_record_id = None, be_surface_for_call_record_id = None,
     be_presentation_id = None, be_interaction_id = None, be_interaction_fingerprint = None,
     be_interaction_questions = [], be_interaction_answers = []\<rparr>"

definition sample_batch :: tool_batch where
  "sample_batch = \<lparr>tb_assistant_message_id = ''m1'', tb_entries = [sample_entry],
     tb_results_flushed = True, tb_internal_turn_id = Some ''t1''\<rparr>"

definition sample_final :: assistant_message where
  "sample_final = \<lparr>am_message_id = ''m2'', am_content = [TextPart ''It is sunny.'',
     ArtifactRefPart ''art'' None], am_tool_calls = [], am_finish_reason = FinStop,
     am_usage = None, am_created_at = 2\<rparr>"

definition sample_request :: run_request where
  "sample_request = \<lparr>rr_request_fingerprint = ''fp'', rr_room_epoch = 1,
     rr_requesting_subject_id = ''user'', rr_user_message_id = ''u1'', rr_quoted_message_id = None,
     rr_attachment_refs = []\<rparr>"

definition sample_scope :: candidate_scope where
  "sample_scope = \<lparr>cs_snapshot_id = ''s'', cs_revision = 1, cs_source = ''mention'',
     cs_conversation_id = ''room'', cs_group_id = None, cs_agent_ids = [], cs_agents = [],
     cs_room_membership_version = None, cs_group_version = None, cs_resolved_at = 0,
     cs_authorization_basis = \<lparr>ab_kind = AuthMention, ab_conversation_id = Some ''room'',
       ab_group_id = None, ab_selected_by_user_id = None, ab_checked_at = 0\<rparr>\<rparr>"

definition sample_claim :: recovery_claim where
  "sample_claim = \<lparr>rc_kind = ClaimExecution, rc_owner_id = None, rc_lease_expires_at = None,
     rc_next_attempt_at = None, rc_failure_count = 0, rc_quarantined_at = None,
     rc_quarantine_reason = None\<rparr>"

definition sample_run :: run_state where
  "sample_run = \<lparr>run_id = ''run'', run_session_id = ''sess'', run_conversation_id = ''room'',
     run_client_request_id = Some ''req'', run_req = sample_request, run_profile = sample_profile,
     run_candidate_scope = sample_scope, run_st = Finalizing,
     run_transcript = [AssistantMsg sample_final], run_background_context = [],
     run_tool_catalog = None, run_resource_manifest = None, run_tool_batches = [sample_batch],
     run_artifact_refs = [''art''], run_budget = sample_budget, run_compaction_summary = None,
     run_compaction_baseline_tokens = None, run_active_internal_turn_id = None,
     run_active_assistant_message_id = None, run_active_attempt = None,
     run_consecutive_model_joins = 0, run_greatest_public_text_offset = 0,
     run_active_public_text = [], run_proposed_final_message_id = Some ''m2'',
     run_terminal_reason = None, run_cancellation_command_id = None,
     run_cancellation_requested_at = None, run_cancellation_cause = None,
     run_projection_state = ProjPending, run_recovery_claim = sample_claim,
     run_projection_outbox = [], run_processed_command_ids = [''c0''], run_state_version = 7,
     run_created_at = 0, run_updated_at = 2\<rparr>"

lemmas sample_defs =
  sample_profile_def sample_budget_def sample_definition_def sample_invocation_def
  sample_acceptance_def sample_result_def sample_entry_def sample_batch_def sample_final_def
  sample_request_def sample_scope_def sample_claim_def sample_run_def

lemma sample_budget_valid: "budget_error sample_budget = None"
  by (simp add: budget_error_def sample_budget_def)

lemma sample_entry_valid: "entry_error sample_entry = None"
  by (simp add: entry_error_def invocation_error_def sample_entry_def sample_invocation_def)

lemma sample_batch_valid: "batch_error sample_batch = None"
  by (simp add: batch_error_def sample_batch_def sample_entry_valid)
    (simp add: sample_entry_def)

lemma sample_profile_valid: "profile_error sample_profile = None"
  by (simp add: profile_error_def sample_profile_def)

lemma sample_run_valid: "valid_run sample_run"
proof -
  have "run_field_error sample_run = None"
    by (simp add: run_field_error_def sample_run_def run_request_error_def sample_request_def
        sample_profile_valid sample_batch_valid sample_budget_valid message_error_def
        sample_final_def recovery_claim_error_def sample_claim_def sample_scope_def)
  moreover have "aggregate_error sample_run = None"
    by (simp add: aggregate_error_def sample_run_def cancellation_error_def terminal_error_def
        terminal_run_statuses_def run_entries_def public_call_ids_def sample_batch_def
        sample_entry_def truthy_str_def List.map_filter_def)
  ultimately show ?thesis by (simp add: valid_run_def run_error_def)
qed

end
