(* ===== verification/Budget.thy ===== *)
theory Budget
  imports Samples
begin

text \<open>
  \<open>execution/orchestrator/budget.py\<close>: the per-attempt usage ledger, \<open>BudgetPolicy\<close> (one
  definition per method, raising \<open>BudgetExceeded(reason)\<close> as a value) and the suspension clock
  that stops the deadline while a Run waits. The lemmas show what bounds the model loop: how
  many turns, provider retries and Agent calls can be admitted, that a usage snapshot is counted
  once however often it is replayed, and that a pause costs no active time.
\<close>

datatype budget_exn = BudgetExceeded string | BudgetValueError string

type_synonym attempt_usage = "((int \<times> int) \<times> usage_record) list"

definition ledger_record :: "attempt_usage \<Rightarrow> int \<Rightarrow> int \<Rightarrow> usage_record \<Rightarrow> attempt_usage" where
  "ledger_record l turn att u = AList.update (turn, att) u l"

definition usage_sum :: "(usage_record \<Rightarrow> int) \<Rightarrow> ('k \<times> usage_record) list \<Rightarrow> int" where
  "usage_sum f l = sum_list (map (\<lambda>(k, u). f u) l)"

definition ledger_totals :: "attempt_usage \<Rightarrow> usage_record" where
  "ledger_totals l = \<lparr>ur_input_tokens = usage_sum ur_input_tokens l,
     ur_output_tokens = usage_sum ur_output_tokens l,
     ur_cache_read_tokens = usage_sum ur_cache_read_tokens l,
     ur_cache_write_tokens = usage_sum ur_cache_write_tokens l\<rparr>"

definition usage_of :: "string \<Rightarrow> (string \<times> usage_record) list \<Rightarrow> usage_record" where
  "usage_of k l = (case map_of l k of None \<Rightarrow> usage_zero | Some u \<Rightarrow> u)"

text \<open>\<open>limit is not None and used >= limit\<close>, and the strict form.\<close>

definition reached :: "int option \<Rightarrow> int \<Rightarrow> bool" where
  "reached lmt used = (case lmt of None \<Rightarrow> False | Some n \<Rightarrow> n \<le> used)"

definition exceeded :: "int option \<Rightarrow> int \<Rightarrow> bool" where
  "exceeded lmt used = (case lmt of None \<Rightarrow> False | Some n \<Rightarrow> n < used)"

section \<open>Guards\<close>

definition before_model_turn ::
  "budget_state \<Rightarrow> orch_profile \<Rightarrow> datetime \<Rightarrow> string \<Rightarrow> budget_exn option" where
  "before_model_turn b p now purpose =
     (if bs_deadline_at b \<le> now then Some (BudgetExceeded ''deadline'')
      else if op_max_provider_retries_total p < bs_provider_retries_used b
        then Some (BudgetExceeded ''provider_retries'')
      else if reached (op_max_input_tokens_total p) (bs_input_tokens b)
        then Some (BudgetExceeded ''input_tokens'')
      else if reached (op_max_output_tokens_total p) (bs_output_tokens b)
        then Some (BudgetExceeded ''output_tokens'')
      else if purpose = ''compaction'' then
        (if op_max_compactions p \<le> bs_compactions_used b
         then Some (BudgetExceeded ''compactions'') else None)
      else if op_max_model_turns p + op_grace_model_turns p
                \<le> bs_model_turns_used b + bs_grace_turns_used b
        then Some (BudgetExceeded ''model_turns'')
      else None)"

definition remaining_provider_retries :: "budget_state \<Rightarrow> orch_profile \<Rightarrow> int" where
  "remaining_provider_retries b p =
     max 0 (op_max_provider_retries_total p - bs_provider_retries_used b)"

definition before_tool_call ::
  "budget_state \<Rightarrow> orch_profile \<Rightarrow> datetime \<Rightarrow> budget_exn option" where
  "before_tool_call b p now =
     (if bs_deadline_at b \<le> now then Some (BudgetExceeded ''deadline'')
      else if bs_wrap_up_requested b then Some (BudgetExceeded ''grace_tools_disabled'')
      else if op_max_agent_calls p \<le> bs_agent_calls_used b
        then Some (BudgetExceeded ''tool_calls'')
      else None)"

definition before_token_side_effect ::
  "budget_state \<Rightarrow> orch_profile \<Rightarrow> budget_exn option" where
  "before_token_side_effect b p =
     (if exceeded (op_max_input_tokens_total p) (bs_input_tokens b)
        then Some (BudgetExceeded ''input_tokens'')
      else if exceeded (op_max_output_tokens_total p) (bs_output_tokens b)
        then Some (BudgetExceeded ''output_tokens'')
      else None)"

section \<open>Recording operations\<close>

definition record_provider_attempt ::
  "budget_state \<Rightarrow> orch_profile \<Rightarrow> string \<Rightarrow> bool \<Rightarrow> budget_exn + budget_state" where
  "record_provider_attempt b p key retry =
     (if key \<in> set (bs_provider_attempt_keys b) then Inr b
      else let retries = bs_provider_retries_used b + (if retry then 1 else 0) in
        if op_max_provider_retries_total p < retries
        then Inl (BudgetExceeded ''provider_retries'')
        else Inr (b\<lparr>bs_provider_attempt_keys := bs_provider_attempt_keys b @ [key],
                    bs_provider_retries_used := retries\<rparr>))"

definition record_usage_snapshot ::
  "budget_state \<Rightarrow> string \<Rightarrow> usage_record \<Rightarrow> budget_exn + budget_state" where
  "record_usage_snapshot b key u =
     (if key \<notin> set (bs_provider_attempt_keys b)
      then Inl (BudgetValueError ''usage must identify a recorded provider attempt'')
      else let previous = usage_of key (bs_usage_by_attempt b) in
        Inr (b\<lparr>bs_usage_by_attempt := AList.update key u (bs_usage_by_attempt b),
               bs_input_tokens := bs_input_tokens b + ur_input_tokens u - ur_input_tokens previous,
               bs_output_tokens :=
                 bs_output_tokens b + ur_output_tokens u - ur_output_tokens previous\<rparr>))"

definition record_assistant_turn :: "budget_state \<Rightarrow> bool \<Rightarrow> budget_state" where
  "record_assistant_turn b grace =
     (if grace then b\<lparr>bs_grace_turns_used := bs_grace_turns_used b + 1\<rparr>
      else b\<lparr>bs_model_turns_used := bs_model_turns_used b + 1\<rparr>)"

definition opt_usage :: "(usage_record \<Rightarrow> int) \<Rightarrow> usage_record option \<Rightarrow> int" where
  "opt_usage f u = (case u of None \<Rightarrow> 0 | Some v \<Rightarrow> f v)"

definition record_model_turn ::
  "budget_state \<Rightarrow> orch_profile \<Rightarrow> int \<Rightarrow> usage_record option \<Rightarrow> bool
     \<Rightarrow> budget_exn + budget_state" where
  "record_model_turn b p attempts u grace =
     (let b1 = b\<lparr>bs_provider_retries_used := bs_provider_retries_used b + max 0 (attempts - 1),
                 bs_input_tokens := bs_input_tokens b + opt_usage ur_input_tokens u,
                 bs_output_tokens := bs_output_tokens b + opt_usage ur_output_tokens u\<rparr>;
          b2 = record_assistant_turn b1 grace in
      case before_token_side_effect b2 p of Some e \<Rightarrow> Inl e | None \<Rightarrow> Inr b2)"

definition record_tool_calls :: "budget_state \<Rightarrow> int \<Rightarrow> budget_state" where
  "record_tool_calls b n = b\<lparr>bs_agent_calls_used := bs_agent_calls_used b + n\<rparr>"

definition request_wrap_up :: "budget_state \<Rightarrow> budget_state" where
  "request_wrap_up b = (if bs_wrap_up_requested b then b else b\<lparr>bs_wrap_up_requested := True\<rparr>)"

definition record_compaction ::
  "budget_state \<Rightarrow> orch_profile option \<Rightarrow> int \<Rightarrow> usage_record option
     \<Rightarrow> budget_exn + budget_state" where
  "record_compaction b prof attempts u =
     (let b1 = b\<lparr>bs_compactions_used := bs_compactions_used b + 1,
                 bs_provider_retries_used := bs_provider_retries_used b + max 0 (attempts - 1),
                 bs_input_tokens := bs_input_tokens b + opt_usage ur_input_tokens u,
                 bs_output_tokens := bs_output_tokens b + opt_usage ur_output_tokens u\<rparr> in
      case prof of None \<Rightarrow> Inr b1
      | Some p \<Rightarrow>
          (case before_token_side_effect b1 p of Some e \<Rightarrow> Inl e
           | None \<Rightarrow> if op_max_provider_retries_total p < bs_provider_retries_used b1
                     then Inl (BudgetExceeded ''provider_retries'') else Inr b1))"

section \<open>The suspension clock\<close>

definition resumed_deadline_at :: "budget_state \<Rightarrow> datetime \<Rightarrow> datetime" where
  "resumed_deadline_at b now = (case bs_suspended_at b of
      None \<Rightarrow> bs_deadline_at b
    | Some s \<Rightarrow> bs_deadline_at b + max (now - s) 0)"

definition apply_suspension_clock :: "budget_state \<Rightarrow> bool \<Rightarrow> datetime \<Rightarrow> budget_state" where
  "apply_suspension_clock b suspended now =
     (if suspended then
        (if bs_suspended_at b \<noteq> None then b else b\<lparr>bs_suspended_at := Some now\<rparr>)
      else if bs_suspended_at b = None then b
      else b\<lparr>bs_deadline_at := resumed_deadline_at b now, bs_suspended_at := None\<rparr>)"

section \<open>Lemmas: usage accounting\<close>

lemma usage_sum_Nil [simp]: "usage_sum f [] = 0"
  and usage_sum_Cons [simp]: "usage_sum f ((k, u) # l) = f u + usage_sum f l"
  by (simp_all add: usage_sum_def)

lemma usage_sum_update:
  assumes "distinct (map fst l)" and "f usage_zero = 0"
  shows "usage_sum f (AList.update k u l) = usage_sum f l + f u - f (usage_of k l)"
  using assms
proof (induction l)
  case Nil
  then show ?case by (simp add: usage_of_def)
next
  case (Cons p l)
  obtain k' u' where p: "p = (k', u')" by force
  show ?case
  proof (cases "k' = k")
    case True
    with p Cons.prems show ?thesis by (simp add: usage_of_def)
  next
    case False
    with p Cons show ?thesis by (simp add: usage_of_def)
  qed
qed

text \<open>One step of the provider accounting: an attempt is reserved or its usage is reported.\<close>

datatype usage_op = Attempt string bool | Snapshot string usage_record

fun usage_step :: "orch_profile \<Rightarrow> budget_state \<Rightarrow> usage_op \<Rightarrow> budget_exn + budget_state" where
  "usage_step p b (Attempt k r) = record_provider_attempt b p k r"
| "usage_step p b (Snapshot k u) = record_usage_snapshot b k u"

text \<open>A refused operation raises and leaves the persisted budget as it was.\<close>

fun usage_run :: "orch_profile \<Rightarrow> budget_state \<Rightarrow> usage_op list \<Rightarrow> budget_state" where
  "usage_run p b [] = b"
| "usage_run p b (x # xs) =
     usage_run p (case usage_step p b x of Inl e \<Rightarrow> b | Inr b' \<Rightarrow> b') xs"

definition attempts_recorded :: "budget_state \<Rightarrow> bool" where
  "attempts_recorded b \<longleftrightarrow> distinct (bs_provider_attempt_keys b)
     \<and> distinct (map fst (bs_usage_by_attempt b))
     \<and> fst ` set (bs_usage_by_attempt b) \<subseteq> set (bs_provider_attempt_keys b)"

lemma attempt_Inr:
  assumes "record_provider_attempt b p k r = Inr b'"
  shows "b' = b \<or> k \<notin> set (bs_provider_attempt_keys b)
    \<and> bs_provider_retries_used b + (if r then 1 else 0) \<le> op_max_provider_retries_total p
    \<and> b' = b\<lparr>bs_provider_attempt_keys := bs_provider_attempt_keys b @ [k],
             bs_provider_retries_used := bs_provider_retries_used b + (if r then 1 else 0)\<rparr>"
  using assms by (simp add: record_provider_attempt_def Let_def not_less split: if_split_asm)

lemma snapshot_Inr:
  assumes "record_usage_snapshot b k u = Inr b'"
  shows "k \<in> set (bs_provider_attempt_keys b)"
    and "b' = b\<lparr>bs_usage_by_attempt := AList.update k u (bs_usage_by_attempt b),
       bs_input_tokens := bs_input_tokens b + ur_input_tokens u
         - ur_input_tokens (usage_of k (bs_usage_by_attempt b)),
       bs_output_tokens := bs_output_tokens b + ur_output_tokens u
         - ur_output_tokens (usage_of k (bs_usage_by_attempt b))\<rparr>"
  using assms by (simp_all add: record_usage_snapshot_def Let_def split: if_split_asm)

definition ledger_gap :: "(usage_record \<Rightarrow> int) \<Rightarrow> (budget_state \<Rightarrow> int) \<Rightarrow> budget_state \<Rightarrow> int" where
  "ledger_gap f g b = g b - usage_sum f (bs_usage_by_attempt b)"

lemma usage_step_Inr:
  assumes "usage_step p b x = Inr b'" and inv: "attempts_recorded b"
  shows "attempts_recorded b'"
    and "ledger_gap ur_input_tokens bs_input_tokens b' = ledger_gap ur_input_tokens bs_input_tokens b"
    and "ledger_gap ur_output_tokens bs_output_tokens b'
       = ledger_gap ur_output_tokens bs_output_tokens b"
    and "bs_provider_retries_used b' \<le> max (bs_provider_retries_used b) (op_max_provider_retries_total p)"
proof -
  consider (att) k r where "record_provider_attempt b p k r = Inr b'"
    | (snap) k u where "record_usage_snapshot b k u = Inr b'"
    using assms(1) by (cases x) auto
  then have "attempts_recorded b'
    \<and> ledger_gap ur_input_tokens bs_input_tokens b' = ledger_gap ur_input_tokens bs_input_tokens b
    \<and> ledger_gap ur_output_tokens bs_output_tokens b' = ledger_gap ur_output_tokens bs_output_tokens b
    \<and> bs_provider_retries_used b' \<le> max (bs_provider_retries_used b) (op_max_provider_retries_total p)"
  proof cases
    case att
    from attempt_Inr [OF att] inv show ?thesis
      by (elim disjE conjE) (auto simp: attempts_recorded_def ledger_gap_def)
  next
    case snap
    from snapshot_Inr [OF snap] inv show ?thesis
      by (auto simp: attempts_recorded_def ledger_gap_def usage_sum_update usage_zero_def
          distinct_update dom_update)
  qed
  then show "attempts_recorded b'"
    and "ledger_gap ur_input_tokens bs_input_tokens b' = ledger_gap ur_input_tokens bs_input_tokens b"
    and "ledger_gap ur_output_tokens bs_output_tokens b'
       = ledger_gap ur_output_tokens bs_output_tokens b"
    and "bs_provider_retries_used b' \<le> max (bs_provider_retries_used b) (op_max_provider_retries_total p)"
    by simp_all
qed

lemma usage_run_invariant:
  assumes "attempts_recorded b"
  shows "attempts_recorded (usage_run p b xs)
    \<and> ledger_gap ur_input_tokens bs_input_tokens (usage_run p b xs)
      = ledger_gap ur_input_tokens bs_input_tokens b
    \<and> ledger_gap ur_output_tokens bs_output_tokens (usage_run p b xs)
      = ledger_gap ur_output_tokens bs_output_tokens b
    \<and> bs_provider_retries_used (usage_run p b xs)
        \<le> max (bs_provider_retries_used b) (op_max_provider_retries_total p)"
  using assms
proof (induction xs arbitrary: b)
  case Nil
  then show ?case by simp
next
  case (Cons x xs)
  show ?case
  proof (cases "usage_step p b x")
    case (Inl e)
    with Cons show ?thesis by simp
  next
    case (Inr b')
    note step = usage_step_Inr [OF Inr Cons.prems]
    from Cons.IH [OF step(1)] step(2,3,4) Inr show ?thesis by auto
  qed
qed


section \<open>Lemmas: admission and the clock\<close>

text \<open>
  A loop that asks \<open>before_model_turn\<close> before each turn and records every admitted one: the
  number of turns it takes and the final budget.
\<close>

fun admit_turns :: "orch_profile \<Rightarrow> budget_state \<Rightarrow> (datetime \<times> bool) list \<Rightarrow> nat \<times> budget_state" where
  "admit_turns p b [] = (0, b)"
| "admit_turns p b ((now, grace) # xs) =
     (case before_model_turn b p now ''agent_turn'' of
        Some e \<Rightarrow> admit_turns p b xs
      | None \<Rightarrow> (let (n, b') = admit_turns p (record_assistant_turn b grace) xs in (Suc n, b')))"

definition turns_left :: "orch_profile \<Rightarrow> budget_state \<Rightarrow> int" where
  "turns_left p b = op_max_model_turns p + op_grace_model_turns p
     - (bs_model_turns_used b + bs_grace_turns_used b)"

definition usage_admits :: "orch_profile \<Rightarrow> budget_state \<Rightarrow> bool" where
  "usage_admits p b \<longleftrightarrow> bs_provider_retries_used b \<le> op_max_provider_retries_total p
     \<and> \<not> reached (op_max_input_tokens_total p) (bs_input_tokens b)
     \<and> \<not> reached (op_max_output_tokens_total p) (bs_output_tokens b)"

lemma before_model_turn_agent_None:
  "before_model_turn b p now ''agent_turn'' = None \<longleftrightarrow>
     now < bs_deadline_at b \<and> usage_admits p b \<and> 0 < turns_left p b"
  by (auto simp: before_model_turn_def usage_admits_def turns_left_def)

lemma record_assistant_turn_simps [simp]:
  "turns_left p (record_assistant_turn b g) = turns_left p b - 1"
  "bs_deadline_at (record_assistant_turn b g) = bs_deadline_at b"
  "usage_admits p (record_assistant_turn b g) = usage_admits p b"
  by (simp_all add: record_assistant_turn_def turns_left_def usage_admits_def)

lemma admit_turns_bound: "int (fst (admit_turns p b xs)) \<le> max 0 (turns_left p b)"
proof (induction xs arbitrary: b)
  case Nil
  then show ?case by simp
next
  case (Cons x xs)
  obtain now g where x: "x = (now, g)" by force
  show ?case
  proof (cases "before_model_turn b p now ''agent_turn''")
    case None
    then have "0 < turns_left p b" by (simp add: before_model_turn_agent_None)
    with None Cons [of "record_assistant_turn b g"] x show ?thesis
      by (auto split: prod.splits)
  next
    case (Some e)
    with Cons x show ?thesis by simp
  qed
qed

lemma admit_turns_exact:
  assumes "usage_admits p b" and "list_all (\<lambda>(now, g). now < bs_deadline_at b) xs"
  shows "int (fst (admit_turns p b xs)) = min (int (length xs)) (max 0 (turns_left p b))"
  using assms
proof (induction xs arbitrary: b)
  case Nil
  then show ?case by simp
next
  case (Cons x xs)
  obtain now g where x: "x = (now, g)" by force
  show ?case
  proof (cases "0 < turns_left p b")
    case True
    with Cons x have "before_model_turn b p now ''agent_turn'' = None"
      by (simp add: before_model_turn_agent_None)
    with True Cons.IH [of "record_assistant_turn b g"] Cons.prems x show ?thesis
      by (auto split: prod.splits)
  next
    case False
    then have "before_model_turn b p now ''agent_turn'' \<noteq> None"
      by (simp add: before_model_turn_agent_None)
    then have "admit_turns p b (x # xs) = admit_turns p b xs" using x by auto
    with False admit_turns_bound [of p b xs] show ?thesis by simp
  qed
qed

text \<open>
  A history of checkpoints, each with the persisted status's suspension and the time. The
  specification of the clock is the time spent unsuspended between them.
\<close>

fun clock_run :: "budget_state \<Rightarrow> (bool \<times> datetime) list \<Rightarrow> budget_state" where
  "clock_run b [] = b"
| "clock_run b ((s, now) # xs) = clock_run (apply_suspension_clock b s now) xs"

fun active_time :: "bool \<Rightarrow> datetime \<Rightarrow> (bool \<times> datetime) list \<Rightarrow> int" where
  "active_time s t [] = 0"
| "active_time s t ((s', t') # xs) = (if s then 0 else t' - t) + active_time s' t' xs"

definition remaining_time :: "budget_state \<Rightarrow> datetime \<Rightarrow> int" where
  "remaining_time b now =
     bs_deadline_at b - (case bs_suspended_at b of None \<Rightarrow> now | Some s \<Rightarrow> s)"

definition clock_ok :: "budget_state \<Rightarrow> bool \<Rightarrow> datetime \<Rightarrow> bool" where
  "clock_ok b s t \<longleftrightarrow> (case bs_suspended_at b of None \<Rightarrow> \<not> s | Some u \<Rightarrow> s \<and> u \<le> t)"

lemma clock_step:
  assumes "clock_ok b s t" and "t \<le> t'"
  shows "clock_ok (apply_suspension_clock b s' t') s' t'"
    and "remaining_time (apply_suspension_clock b s' t') t'
       = remaining_time b t - (if s then 0 else t' - t)"
  using assms
  by (auto simp: clock_ok_def apply_suspension_clock_def remaining_time_def resumed_deadline_at_def
      split: option.splits)

lemma clock_run_remaining:
  assumes "clock_ok b s t" and "sorted (t # map snd xs)"
  shows "clock_ok (clock_run b xs) (fst (last ((s, t) # xs))) (snd (last ((s, t) # xs)))
    \<and> remaining_time (clock_run b xs) (snd (last ((s, t) # xs)))
      = remaining_time b t - active_time s t xs"
  using assms
proof (induction xs arbitrary: b s t)
  case Nil
  then show ?case by simp
next
  case (Cons x xs)
  obtain s' t' where x: "x = (s', t')" by force
  from Cons.prems x have le: "t \<le> t'" and sorted': "sorted (t' # map snd xs)" by auto
  note step = clock_step [OF Cons.prems(1) le, of s']
  from Cons.IH [OF step(1) sorted'] step(2) x show ?case by auto
qed

section \<open>Properties\<close>

text \<open>
  Usage is counted once. From a budget whose token totals are the sums of its per-attempt
  ledger, any sequence of attempt reservations and usage snapshots (refused ones included)
  keeps both totals equal to the sum over attempts of the latest snapshot, so snapshots that
  are repeated or revised while a stream runs never accumulate; and repeating an accepted
  snapshot changes nothing.
\<close>

theorem usage_counted_once:
  assumes "attempts_recorded b"
    and "bs_input_tokens b = usage_sum ur_input_tokens (bs_usage_by_attempt b)"
    and "bs_output_tokens b = usage_sum ur_output_tokens (bs_usage_by_attempt b)"
  shows "bs_input_tokens (usage_run p b xs)
           = usage_sum ur_input_tokens (bs_usage_by_attempt (usage_run p b xs))
    \<and> bs_output_tokens (usage_run p b xs)
           = usage_sum ur_output_tokens (bs_usage_by_attempt (usage_run p b xs))
    \<and> (record_usage_snapshot (usage_run p b xs) k u = Inr b' \<longrightarrow>
         map_of (bs_usage_by_attempt b') k = Some u \<and> record_usage_snapshot b' k u = Inr b')"
proof -
  have "record_usage_snapshot c k u = Inr c' \<Longrightarrow>
      map_of (bs_usage_by_attempt c') k = Some u \<and> record_usage_snapshot c' k u = Inr c'" for c c'
    by (frule snapshot_Inr(1), drule snapshot_Inr(2))
      (simp add: record_usage_snapshot_def usage_of_def)
  with usage_run_invariant [OF assms(1), of p xs] assms(2,3) show ?thesis
    by (simp add: ledger_gap_def)
qed

theorem usage_counted_once_witness:
  "let b = usage_run sample_profile sample_budget
         [Attempt ''k'' False, Snapshot ''k'' (usage_zero\<lparr>ur_input_tokens := 3\<rparr>)]
   in bs_input_tokens b = 3 \<and> usage_sum ur_input_tokens (bs_usage_by_attempt b) = 3
      \<and> record_usage_snapshot b ''k'' (usage_zero\<lparr>ur_input_tokens := 3\<rparr>) = Inr b"
proof -
  have "attempts_recorded sample_budget"
    and "bs_input_tokens sample_budget
         = usage_sum ur_input_tokens (bs_usage_by_attempt sample_budget)"
    and "bs_output_tokens sample_budget
         = usage_sum ur_output_tokens (bs_usage_by_attempt sample_budget)"
    by (simp_all add: attempts_recorded_def sample_budget_def)
  note use = usage_counted_once [OF this, of sample_profile
      "[Attempt ''k'' False, Snapshot ''k'' (usage_zero\<lparr>ur_input_tokens := 3\<rparr>)]" "''k''"
      "usage_zero\<lparr>ur_input_tokens := 3\<rparr>"]
  then show ?thesis
    by (simp add: Let_def record_provider_attempt_def record_usage_snapshot_def sample_budget_def
        sample_profile_def usage_of_def usage_zero_def)
qed

text \<open>
  Everything a Run does to its budget between checkpoints: provider accounting, turns, compactions (with or without
  the profile), Agent calls, the request to wrap up and the clock. A refused operation raises and leaves the
  persisted budget as it was.
\<close>

datatype budget_op = Usage usage_op | AssistantTurn bool | ModelTurn int "usage_record option" bool
  | Compaction bool int "usage_record option" | ToolCalls int | WrapUp | Clock bool datetime

fun budget_step :: "orch_profile \<Rightarrow> budget_state \<Rightarrow> budget_op \<Rightarrow> budget_exn + budget_state" where
  "budget_step p b (Usage x) = usage_step p b x"
| "budget_step p b (AssistantTurn grace) = Inr (record_assistant_turn b grace)"
| "budget_step p b (ModelTurn n u grace) = record_model_turn b p n u grace"
| "budget_step p b (Compaction checked n u) = record_compaction b (if checked then Some p else None) n u"
| "budget_step p b (ToolCalls n) = Inr (record_tool_calls b n)"
| "budget_step p b WrapUp = Inr (request_wrap_up b)"
| "budget_step p b (Clock suspended now) = Inr (apply_suspension_clock b suspended now)"

text \<open>The budget after a sequence of operations, and those of them that were accepted.\<close>

fun budget_run :: "orch_profile \<Rightarrow> budget_state \<Rightarrow> budget_op list \<Rightarrow> budget_op list \<times> budget_state" where
  "budget_run p b [] = ([], b)"
| "budget_run p b (x # xs) = (case budget_step p b x of
     Inl e \<Rightarrow> budget_run p b xs
   | Inr b' \<Rightarrow> (case budget_run p b' xs of (acc, c) \<Rightarrow> (x # acc, c)))"

text \<open>The further attempts an operation reports, those it reports without looking at the total, and the retries it asks for.\<close>

fun reported :: "budget_op \<Rightarrow> int" where
  "reported (ModelTurn n u g) = max 0 (n - 1)"
| "reported (Compaction checked n u) = max 0 (n - 1)"
| "reported _ = 0"

fun unbounded :: "budget_op \<Rightarrow> int" where
  "unbounded (ModelTurn n u g) = max 0 (n - 1)"
| "unbounded (Compaction checked n u) = (if checked then 0 else max 0 (n - 1))"
| "unbounded _ = 0"

definition retry_keys :: "budget_op list \<Rightarrow> string set" where
  "retry_keys xs = {k. Usage (Attempt k True) \<in> set xs}"

definition plain_keys :: "budget_op list \<Rightarrow> string set" where
  "plain_keys xs = {k. Usage (Attempt k False) \<in> set xs}"

lemma finite_retry_keys [simp]: "finite (retry_keys xs)"
proof -
  have "retry_keys xs \<subseteq> (\<lambda>x. case x of Usage (Attempt k r) \<Rightarrow> k | _ \<Rightarrow> []) ` set xs"
    by (force simp: retry_keys_def image_iff)
  then show ?thesis by (rule finite_subset) simp
qed

text \<open>The retries counted so far: those of the first budget, one for each recorded key of a retry, and what was reported.\<close>

definition new_retries :: "budget_state \<Rightarrow> budget_op list \<Rightarrow> budget_state \<Rightarrow> string set" where
  "new_retries b xs c = retry_keys xs \<inter> (set (bs_provider_attempt_keys c) - set (bs_provider_attempt_keys b))"

lemma budget_step_others:
  assumes "budget_step p b x = Inr c" and "\<And>k r. x \<noteq> Usage (Attempt k r)"
  shows "bs_provider_attempt_keys c = bs_provider_attempt_keys b"
    and "bs_provider_retries_used c = bs_provider_retries_used b + reported x"
    and "attempts_recorded b \<Longrightarrow> attempts_recorded c"
    and "bs_provider_retries_used b \<le> m \<Longrightarrow> op_max_provider_retries_total p \<le> m
      \<Longrightarrow> bs_provider_retries_used c \<le> m + unbounded x"
proof -
  have step: "bs_provider_attempt_keys c = bs_provider_attempt_keys b
    \<and> bs_provider_retries_used c = bs_provider_retries_used b + reported x
    \<and> (bs_usage_by_attempt c = bs_usage_by_attempt b \<or> (\<exists>y. x = Usage y))
    \<and> (unbounded x = reported x \<or> bs_provider_retries_used c \<le> op_max_provider_retries_total p \<and> unbounded x = 0)"
  proof (cases x)
    case (Usage y)
    then show ?thesis using assms by (cases y) (auto dest: snapshot_Inr)
  next
    case (ModelTurn n u g)
    with assms(1) show ?thesis
      by (auto simp: record_model_turn_def record_assistant_turn_def Let_def split: option.splits if_splits)
  next
    case (Compaction checked n u)
    with assms(1) show ?thesis
      by (auto simp: record_compaction_def Let_def not_less split: option.splits if_splits)
  qed (use assms in \<open>auto simp: record_assistant_turn_def record_tool_calls_def request_wrap_up_def
      apply_suspension_clock_def\<close>)
  then show "bs_provider_attempt_keys c = bs_provider_attempt_keys b"
    "bs_provider_retries_used c = bs_provider_retries_used b + reported x"
    "bs_provider_retries_used b \<le> m \<Longrightarrow> op_max_provider_retries_total p \<le> m
      \<Longrightarrow> bs_provider_retries_used c \<le> m + unbounded x"
    by auto
  show "attempts_recorded c" if "attempts_recorded b"
  proof (cases "\<exists>y. x = Usage y")
    case True
    with assms(1) usage_step_Inr(1) that show ?thesis by auto
  next
    case False
    with step that show ?thesis by (simp add: attempts_recorded_def)
  qed
qed

lemma retry_keys_simps [simp]:
  "retry_keys [] = {}" "plain_keys [] = {}"
  "retry_keys (x # xs) = (case x of Usage (Attempt k True) \<Rightarrow> insert k (retry_keys xs) | _ \<Rightarrow> retry_keys xs)"
  "plain_keys (x # xs) = (case x of Usage (Attempt k False) \<Rightarrow> insert k (plain_keys xs) | _ \<Rightarrow> plain_keys xs)"
  by (auto simp: retry_keys_def plain_keys_def split: budget_op.splits usage_op.splits bool.splits)

definition usage_accounted :: "orch_profile \<Rightarrow> budget_state \<Rightarrow> budget_op list \<Rightarrow> budget_op list \<Rightarrow> budget_state \<Rightarrow> bool" where
  "usage_accounted p b xs acc c \<longleftrightarrow> attempts_recorded c
     \<and> set (bs_provider_attempt_keys b) \<subseteq> set (bs_provider_attempt_keys c)
     \<and> set (bs_provider_attempt_keys c) \<subseteq> set (bs_provider_attempt_keys b) \<union> retry_keys xs \<union> plain_keys xs
     \<and> bs_provider_retries_used c = bs_provider_retries_used b + int (card (new_retries b xs c)) + sum_list (map reported acc)
     \<and> (\<forall>m. bs_provider_retries_used b \<le> m \<and> op_max_provider_retries_total p \<le> m
          \<longrightarrow> bs_provider_retries_used c \<le> m + sum_list (map unbounded acc))
     \<and> (list_all (\<lambda>x. reported x = 0) xs \<and> bs_provider_retries_used b \<le> op_max_provider_retries_total p
          \<longrightarrow> retry_keys xs \<subseteq> set (bs_provider_attempt_keys c)
            \<or> bs_provider_retries_used c = op_max_provider_retries_total p)"

lemma reported_nonneg: "0 \<le> reported x" "0 \<le> unbounded x" "reported x = 0 \<Longrightarrow> unbounded x = 0"
  by (cases x; simp)+

lemma accepted_among: "budget_run p b xs = (acc, c) \<Longrightarrow> set acc \<subseteq> set xs"
proof (induction xs arbitrary: b acc)
  case (Cons x xs)
  then show ?case by (fastforce split: sum.splits prod.splits)
qed simp

lemma unreported:
  assumes "budget_run p b xs = (acc, c)" and "list_all (\<lambda>x. reported x = 0) xs"
  shows "sum_list (map reported acc) = 0" "sum_list (map unbounded acc) = 0"
proof -
  have "\<forall>x \<in> set acc. reported x = 0 \<and> unbounded x = 0"
    using accepted_among [OF assms(1)] assms(2) reported_nonneg(3) by (auto simp: list_all_iff)
  then show "sum_list (map reported acc) = 0" "sum_list (map unbounded acc) = 0"
    by (induction acc) simp_all
qed

text \<open>An operation that is not a reservation, accepted, replayed or refused, leaves the keys alone.\<close>

lemma usage_skip:
  assumes "usage_accounted p b' xs acc c" and "bs_provider_attempt_keys b' = bs_provider_attempt_keys b"
    and "\<And>k r. x \<noteq> Usage (Attempt k r)"
    and "bs_provider_retries_used b' = bs_provider_retries_used b + reported x"
    and "\<And>m. bs_provider_retries_used b \<le> m \<Longrightarrow> op_max_provider_retries_total p \<le> m
      \<Longrightarrow> bs_provider_retries_used b' \<le> m + unbounded x"
  shows "usage_accounted p b (x # xs) (x # acc) c"
proof -
  have k: "retry_keys (x # xs) = retry_keys xs" "plain_keys (x # xs) = plain_keys xs"
    using assms(3) by (auto split: budget_op.splits usage_op.splits bool.splits)
  have m: "bs_provider_retries_used c \<le> m + sum_list (map unbounded (x # acc))"
    if m: "bs_provider_retries_used b \<le> m \<and> op_max_provider_retries_total p \<le> m" for m
  proof -
    have "op_max_provider_retries_total p \<le> m + unbounded x" using m reported_nonneg(2) [of x] by linarith
    with assms(1) assms(5) m show ?thesis unfolding usage_accounted_def by fastforce
  qed
  have e: "retry_keys xs \<subseteq> set (bs_provider_attempt_keys c) \<or> bs_provider_retries_used c = op_max_provider_retries_total p"
    if "list_all (\<lambda>x. reported x = 0) (x # xs)" "bs_provider_retries_used b \<le> op_max_provider_retries_total p"
  proof -
    from assms(1) have "list_all (\<lambda>x. reported x = 0) xs \<and> bs_provider_retries_used b' \<le> op_max_provider_retries_total p
      \<longrightarrow> retry_keys xs \<subseteq> set (bs_provider_attempt_keys c) \<or> bs_provider_retries_used c = op_max_provider_retries_total p"
      unfolding usage_accounted_def by blast
    with assms(4) that show ?thesis by simp
  qed
  have "new_retries b (x # xs) c = new_retries b' xs c" by (simp only: new_retries_def k assms(2))
  with assms(1,2,4) m e show ?thesis unfolding usage_accounted_def k by simp
qed

lemma usage_refused:
  assumes "usage_accounted p b xs acc c" and "\<And>k r. x \<noteq> Usage (Attempt k r)"
  shows "usage_accounted p b (x # xs) acc c"
proof -
  have k: "retry_keys (x # xs) = retry_keys xs" "plain_keys (x # xs) = plain_keys xs"
    using assms(2) by (auto split: budget_op.splits usage_op.splits bool.splits)
  from assms(1) show ?thesis
    unfolding usage_accounted_def new_retries_def k by (elim conjE) (intro conjI; simp)
qed

text \<open>A reservation: replayed, recorded, or refused because the total is used up.\<close>

lemma recorded_attempt:
  assumes run: "usage_accounted p b' xs acc c" and flags: "retry_keys (x # xs) \<inter> plain_keys (x # xs) = {}"
    and x: "x = Usage (Attempt k r)" and k: "k \<notin> set (bs_provider_attempt_keys b)"
    and b': "bs_provider_attempt_keys b' = bs_provider_attempt_keys b @ [k]"
      "bs_provider_retries_used b' = bs_provider_retries_used b + (if r then 1 else 0)"
      "bs_provider_retries_used b' \<le> op_max_provider_retries_total p"
  shows "usage_accounted p b (x # xs) (x # acc) c"
proof -
  let ?K = "\<lambda>b. set (bs_provider_attempt_keys b)"
  from run b'(1) have c: "?K b \<subseteq> ?K c" "k \<in> ?K c" by (auto simp: usage_accounted_def)
  have "new_retries b (x # xs) c = (if r then insert k (new_retries b' xs c) else new_retries b' xs c)"
    using flags k b'(1) c(2) by (auto simp: new_retries_def x split: bool.splits)
  moreover have "k \<notin> new_retries b' xs c" "finite (new_retries b' xs c)" using b'(1) by (auto simp: new_retries_def)
  ultimately have card: "int (card (new_retries b (x # xs) c)) = int (card (new_retries b' xs c)) + (if r then 1 else 0)"
    by simp
  have m: "bs_provider_retries_used c \<le> m + sum_list (map unbounded (x # acc))"
    if "bs_provider_retries_used b \<le> m \<and> op_max_provider_retries_total p \<le> m" for m
    using run b'(3) that by (fastforce simp: usage_accounted_def x)
  have "?K c \<subseteq> ?K b \<union> retry_keys (x # xs) \<union> plain_keys (x # xs)"
    using run b'(1) by (auto simp: usage_accounted_def x split: bool.splits)
  moreover have "retry_keys (x # xs) \<subseteq> ?K c \<or> bs_provider_retries_used c = op_max_provider_retries_total p"
    if "list_all (\<lambda>x. reported x = 0) (x # xs)"
    using run b'(3) c(2) that by (auto simp: usage_accounted_def x split: bool.splits)
  ultimately show ?thesis using run card b'(2) c(1) m unfolding usage_accounted_def by (simp add: x)
qed

lemma usage_refused_attempt:
  assumes run: "usage_accounted p b xs acc c" and flags: "retry_keys (x # xs) \<inter> plain_keys (x # xs) = {}"
    and x: "x = Usage (Attempt k r)" and k: "k \<in> set (bs_provider_attempt_keys b)
      \<or> op_max_provider_retries_total p < bs_provider_retries_used b + (if r then 1 else 0)"
    and acc: "budget_run p b xs = (acc, c)" and acc': "acc' = acc \<or> acc' = x # acc"
  shows "usage_accounted p b (x # xs) acc' c"
proof -
  let ?K = "\<lambda>b. set (bs_provider_attempt_keys b)"
  have sums: "sum_list (map reported acc') = sum_list (map reported acc)"
    "sum_list (map unbounded acc') = sum_list (map unbounded acc)" using acc' by (auto simp: x)
  have new: "new_retries b (x # xs) c = new_retries b xs c"
  proof (cases "k \<in> ?K b")
    case False
    have "k \<in> retry_keys xs" if "r" "k \<in> ?K c"
      using that run flags False by (auto simp: usage_accounted_def x)
    then show ?thesis by (auto simp: new_retries_def x split: bool.splits)
  qed (auto simp: new_retries_def x split: bool.splits)
  have "retry_keys (x # xs) \<subseteq> ?K c \<or> bs_provider_retries_used c = op_max_provider_retries_total p"
    if "list_all (\<lambda>x. reported x = 0) (x # xs)" "bs_provider_retries_used b \<le> op_max_provider_retries_total p"
  proof (cases "k \<in> ?K b \<or> \<not> r")
    case True
    with run that show ?thesis by (auto simp: usage_accounted_def x split: bool.splits)
  next
    case False
    have "bs_provider_retries_used c \<le> op_max_provider_retries_total p"
      using run that unreported(2) [OF acc] by (fastforce simp: usage_accounted_def)
    moreover have "bs_provider_retries_used b \<le> bs_provider_retries_used c"
      using run that unreported(1) [OF acc] by (simp add: usage_accounted_def)
    ultimately show ?thesis using k False by auto
  qed
  moreover have "?K c \<subseteq> ?K b \<union> retry_keys (x # xs) \<union> plain_keys (x # xs)"
    using run by (auto simp: usage_accounted_def x split: bool.splits)
  ultimately show ?thesis using run unfolding usage_accounted_def new sums by blast
qed

lemma attempt_cases:
  assumes "budget_step p b (Usage (Attempt k r)) = res"
  obtains (replay) "k \<in> set (bs_provider_attempt_keys b)" "res = Inr b"
  | (refused) e where "op_max_provider_retries_total p < bs_provider_retries_used b + (if r then 1 else 0)" "res = Inl e"
  | (recorded) "k \<notin> set (bs_provider_attempt_keys b)"
      "bs_provider_retries_used b + (if r then 1 else 0) \<le> op_max_provider_retries_total p"
      "res = Inr (b\<lparr>bs_provider_attempt_keys := bs_provider_attempt_keys b @ [k],
        bs_provider_retries_used := bs_provider_retries_used b + (if r then 1 else 0)\<rparr>)"
  using assms by (auto simp: record_provider_attempt_def Let_def split: if_splits)

lemma budget_accounted:
  "attempts_recorded b \<Longrightarrow> retry_keys xs \<inter> plain_keys xs = {} \<Longrightarrow> budget_run p b xs = (acc, c)
     \<Longrightarrow> usage_accounted p b xs acc c"
proof (induction xs arbitrary: b acc)
  case Nil
  then show ?case by (simp add: usage_accounted_def new_retries_def)
next
  case (Cons x xs)
  have flags: "retry_keys xs \<inter> plain_keys xs = {}"
    using Cons.prems(2) by (auto split: budget_op.splits usage_op.splits bool.splits)
  show ?case
  proof (cases "\<exists>k r. x = Usage (Attempt k r)")
    case True
    then obtain k r where x: "x = Usage (Attempt k r)" by blast
    note IH = Cons.IH [OF _ flags]
    from refl [of "budget_step p b (Usage (Attempt k r))"] show ?thesis
    proof (cases rule: attempt_cases)
      case replay
      with Cons.prems(3) x obtain acc1 where a: "budget_run p b xs = (acc1, c)" "acc = x # acc1"
        by (auto split: prod.splits)
      with usage_refused_attempt [OF IH [OF Cons.prems(1) a(1)] Cons.prems(2) x _ a(1)] replay show ?thesis by blast
    next
      case (refused e)
      with Cons.prems(3) x have a: "budget_run p b xs = (acc, c)" by simp
      with usage_refused_attempt [OF IH [OF Cons.prems(1) a] Cons.prems(2) x _ a] refused show ?thesis by blast
    next
      case recorded
      let ?b = "b\<lparr>bs_provider_attempt_keys := bs_provider_attempt_keys b @ [k],
        bs_provider_retries_used := bs_provider_retries_used b + (if r then 1 else 0)\<rparr>"
      from recorded Cons.prems(3) x obtain acc1 where a: "budget_run p ?b xs = (acc1, c)" "acc = x # acc1"
        by (auto split: prod.splits)
      have "attempts_recorded ?b" using Cons.prems(1) recorded(1) by (auto simp: attempts_recorded_def)
      from recorded_attempt [OF IH [OF this a(1)] Cons.prems(2) x recorded(1)] recorded(2) a(2) show ?thesis by simp
    qed
  next
    case False
    then have n: "\<And>k r. x \<noteq> Usage (Attempt k r)" by blast
    show ?thesis
    proof (cases "budget_step p b x")
      case (Inl e)
      with Cons.prems(3) have "budget_run p b xs = (acc, c)" by simp
      with Cons.IH [OF Cons.prems(1) flags] n usage_refused show ?thesis by blast
    next
      case (Inr b')
      with Cons.prems(3) obtain acc1 where a: "budget_run p b' xs = (acc1, c)" "acc = x # acc1"
        by (auto split: prod.splits)
      note step = budget_step_others [OF Inr n]
      from usage_skip [OF Cons.IH [OF step(3) [OF Cons.prems(1)] flags a(1)] step(1) n step(2,4)] a(2)
      show ?thesis by simp
    qed
  qed
qed

text \<open>
  C37: The retries of the provider are counted exactly and bounded across the whole Run. Take any sequence of the
  budget's operations (reservations of attempts, usage reports, assistant and model turns, compactions, Agent calls,
  the request to wrap up and the clock), where a refused operation leaves the budget as it was and a
  reservation with the same key always has the same retry flag, from a budget whose retries are within the total of the
  profile. Then the retries used have grown by one for each newly recorded key of a retry and by the further attempts
  that accepted turns and compactions report, and they are within the total but for the attempts reported by
  \<open>record_model_turn\<close>, or by \<open>record_compaction\<close> without a profile, which do not look at the total. When nothing reports
  further attempts, as in the kernel, the count is the smaller of the total and of the retries before plus the number of
  the new keys reserved as retries, and the rest of the total remains. Keys stay unique, and every usage entry belongs to
  a reserved attempt.
\<close>

theorem provider_retries_bounded:
  assumes "attempts_recorded b" and "bs_provider_retries_used b \<le> op_max_provider_retries_total p"
    and "retry_keys xs \<inter> plain_keys xs = {}" and "budget_run p b xs = (acc, c)"
  shows "attempts_recorded c
    \<and> bs_provider_retries_used c = bs_provider_retries_used b + sum_list (map reported acc)
        + int (card (retry_keys xs \<inter> (set (bs_provider_attempt_keys c) - set (bs_provider_attempt_keys b))))
    \<and> bs_provider_retries_used c \<le> op_max_provider_retries_total p + sum_list (map unbounded acc)
    \<and> (list_all (\<lambda>x. reported x = 0) xs \<longrightarrow>
         bs_provider_retries_used c = min (op_max_provider_retries_total p)
           (bs_provider_retries_used b + int (card (retry_keys xs - set (bs_provider_attempt_keys b))))
         \<and> remaining_provider_retries c p = op_max_provider_retries_total p - bs_provider_retries_used c)"
proof -
  have a: "usage_accounted p b xs acc c" by (rule budget_accounted [OF assms(1,3,4)])
  let ?new = "retry_keys xs \<inter> (set (bs_provider_attempt_keys c) - set (bs_provider_attempt_keys b))"
  let ?all = "retry_keys xs - set (bs_provider_attempt_keys b)"
  have used: "bs_provider_retries_used c
      = bs_provider_retries_used b + int (card ?new) + sum_list (map reported acc)"
    and le: "bs_provider_retries_used c \<le> op_max_provider_retries_total p + sum_list (map unbounded acc)"
    using a assms(2) by (auto simp: usage_accounted_def new_retries_def)
  have "bs_provider_retries_used c
      = min (op_max_provider_retries_total p) (bs_provider_retries_used b + int (card ?all))
    \<and> bs_provider_retries_used c \<le> op_max_provider_retries_total p" if z: "list_all (\<lambda>x. reported x = 0) xs"
  proof -
    note zero = unreported [OF assms(4) z]
    have "card ?new \<le> card ?all" by (rule card_mono) auto
    moreover have "?new = ?all \<or> bs_provider_retries_used c = op_max_provider_retries_total p"
      using a z assms(2) by (auto simp: usage_accounted_def)
    ultimately show ?thesis using used le zero by auto
  qed
  with a used le show ?thesis by (auto simp: usage_accounted_def remaining_provider_retries_def)
qed

theorem provider_retries_bounded_witness:
  "bs_provider_retries_used (snd (budget_run sample_profile sample_budget
      [Usage (Attempt ''a'' False), Usage (Attempt ''b'' True), Usage (Attempt ''b'' True), AssistantTurn False,
       Usage (Attempt ''c'' True), Usage (Attempt ''d'' True)])) = 2"
proof -
  let ?xs = "[Usage (Attempt ''a'' False), Usage (Attempt ''b'' True), Usage (Attempt ''b'' True), AssistantTurn False,
    Usage (Attempt ''c'' True), Usage (Attempt ''d'' True)]"
  have "attempts_recorded sample_budget"
    and "bs_provider_retries_used sample_budget \<le> op_max_provider_retries_total sample_profile"
    and "retry_keys ?xs \<inter> plain_keys ?xs = {}"
    by (simp_all add: attempts_recorded_def sample_budget_def sample_profile_def)
  from provider_retries_bounded [OF this prod.collapse [symmetric]]
  show ?thesis by (simp add: sample_profile_def sample_budget_def)
qed

text \<open>
  The model loop takes exactly as many turns as the profile allows. A loop that asks
  \<open>before_model_turn\<close> and records each admitted turn never takes more than the turns left (the
  model turns plus the grace turns, less those used), whatever the clock and the token totals
  say; and while the deadline, the retries and the token limits admit turns it takes all of
  them.
\<close>

theorem model_turns_exact:
  "int (fst (admit_turns p b xs)) \<le> max 0 (turns_left p b)
   \<and> (usage_admits p b \<and> list_all (\<lambda>(now, g). now < bs_deadline_at b) xs \<longrightarrow>
        int (fst (admit_turns p b xs)) = min (int (length xs)) (max 0 (turns_left p b)))"
  using admit_turns_bound admit_turns_exact by blast

theorem model_turns_exact_witness:
  "fst (admit_turns sample_profile sample_budget
      [(0, False), (1, False), (2, True), (3, True), (4, True)]) = 3"
proof -
  have "usage_admits sample_profile sample_budget
    \<and> list_all (\<lambda>(now, g). now < bs_deadline_at sample_budget)
        [(0, False), (1, False), (2, True), (3, True), (4, True)]"
    and "turns_left sample_profile sample_budget = 3"
    by (simp_all add: usage_admits_def reached_def sample_budget_def sample_profile_def turns_left_def)
  with model_turns_exact [of sample_profile sample_budget
      "[(0, False), (1, False), (2, True), (3, True), (4, True)]"]
  show ?thesis by simp
qed

text \<open>
  A pause costs no active time. Over any history of checkpoints in time order the time left
  until the deadline falls by exactly the time spent unsuspended, so when the Run is running at
  the last checkpoint \<open>before_model_turn\<close> finds the deadline passed if and only if the active
  time since the start has used up what was left then.
\<close>

theorem suspension_preserves_active_time:
  assumes "clock_ok b False t" and "sorted (t # map snd xs)" and "xs \<noteq> []"
    and "last xs = (False, now)"
  shows "remaining_time (clock_run b xs) now = remaining_time b t - active_time False t xs
    \<and> (before_model_turn (clock_run b xs) p now purpose = Some (BudgetExceeded ''deadline'')
        \<longleftrightarrow> remaining_time b t \<le> active_time False t xs)"
proof -
  from clock_run_remaining [OF assms(1,2)] assms(3,4)
  have ok: "clock_ok (clock_run b xs) False now"
    and rem: "remaining_time (clock_run b xs) now = remaining_time b t - active_time False t xs"
    by simp_all
  from ok have "remaining_time (clock_run b xs) now = bs_deadline_at (clock_run b xs) - now"
    by (simp add: clock_ok_def remaining_time_def split: option.splits)
  with rem show ?thesis by (auto simp: before_model_turn_def)
qed

theorem suspension_preserves_active_time_witness:
  "remaining_time (clock_run sample_budget [(True, 10), (True, 500), (False, 1000), (False, 1020)]) 1020
     = 30
   \<and> before_model_turn (clock_run sample_budget
        [(True, 10), (True, 500), (False, 1000), (False, 1020)]) sample_profile 1020 ''agent_turn''
      \<noteq> Some (BudgetExceeded ''deadline'')"
proof -
  let ?xs = "[(True, 10), (True, 500), (False, 1000), (False, 1020)] :: (bool \<times> int) list"
  have "clock_ok sample_budget False 0" and "sorted (0 # map snd ?xs)" and "?xs \<noteq> []"
    and "last ?xs = (False, 1020)"
    by (simp_all add: clock_ok_def sample_budget_def)
  from suspension_preserves_active_time [OF this, of sample_profile "''agent_turn''"]
  show ?thesis by (simp add: remaining_time_def sample_budget_def)
qed

end
