(* ===== verification/Run_Events.thy ===== *)
theory Run_Events
  imports Samples
begin

text \<open>
  \<open>execution/orchestrator/events.py\<close> and the append path of
  \<open>execution/repository/orchestrator/event_store.py\<close>: BSON canonicalisation of an event, the
  replay and ordering decision \<open>evaluate_event_append\<close>, and the Mongo store's \<open>append\<close> with the
  insert race its unique indexes arbitrate. The lemmas show that the inventory of a Run stays
  contiguous, that event identities stay unique, and that the outbox may deliver an event any
  number of times.
\<close>

definition bson_millis :: "datetime \<Rightarrow> datetime" where
  "bson_millis t = (t div 1000) * 1000"

lemma bson_millis_idem [simp]: "bson_millis (bson_millis t) = bson_millis t"
  by (simp add: bson_millis_def)

definition canonicalize_event :: "orch_event \<Rightarrow> orch_event" where
  "canonicalize_event e = e\<lparr>ev_created_at := bson_millis (ev_created_at e)\<rparr>"

lemma canonicalize_event_simps [simp]:
  "ev_event_id (canonicalize_event e) = ev_event_id e"
  "ev_event_type (canonicalize_event e) = ev_event_type e"
  "ev_run_id (canonicalize_event e) = ev_run_id e"
  "ev_sequence (canonicalize_event e) = ev_sequence e"
  "ev_state_version (canonicalize_event e) = ev_state_version e"
  "ev_causation_id (canonicalize_event e) = ev_causation_id e"
  "canonicalize_event (canonicalize_event e) = canonicalize_event e"
  by (simp_all add: canonicalize_event_def)

text \<open>The reason of a decision; the expected sequence is printed into the source's string.\<close>

datatype append_reason =
    EventMayBeAppended | EventAlreadyExists | EventIdDifferentContent | SequenceOccupied
  | InventorySpansRuns | ExpectedSequence int | StateVersionBackwards

text \<open>\<open>max(existing, key=sequence)\<close>: the first event of the greatest sequence.\<close>

fun latest_event :: "orch_event list \<Rightarrow> orch_event option" where
  "latest_event [] = None"
| "latest_event (x # xs) =
     Some (foldl (\<lambda>a y. if ev_sequence a < ev_sequence y then y else a) x xs)"

definition evaluate_event_append ::
  "orch_event list \<Rightarrow> orch_event \<Rightarrow> outcome \<times> append_reason" where
  "evaluate_event_append existing0 event0 =
     (let event = canonicalize_event event0;
          existing = map canonicalize_event existing0 in
      case List.find (\<lambda>i. ev_event_id i = ev_event_id event) existing of
        Some same \<Rightarrow> if same = event then (Replayed, EventAlreadyExists)
                      else (Conflict, EventIdDifferentContent)
      | None \<Rightarrow>
          if list_ex (\<lambda>i. ev_sequence i = ev_sequence event) existing
            then (Conflict, SequenceOccupied)
          else if list_ex (\<lambda>i. ev_run_id i \<noteq> ev_run_id event) existing
            then (StoreError, InventorySpansRuns)
          else let expected = max_default 0 (map ev_sequence existing) + 1 in
            if ev_sequence event \<noteq> expected then (Conflict, ExpectedSequence expected)
            else (case latest_event existing of
                    None \<Rightarrow> (Accepted, EventMayBeAppended)
                  | Some latest \<Rightarrow> if ev_state_version event < ev_state_version latest
                      then (Conflict, StateVersionBackwards)
                      else (Accepted, EventMayBeAppended)))"

section \<open>The event store\<close>

text \<open>
  The collection is the list of its documents. Its two unique indexes, on \<open>event_id\<close> and on
  \<open>(run_id, sequence)\<close>, refuse a document that collides with a stored one.
\<close>

definition index_collision :: "orch_event list \<Rightarrow> orch_event \<Rightarrow> bool" where
  "index_collision docs e = list_ex (\<lambda>d. ev_event_id d = ev_event_id e
     \<or> (ev_run_id d = ev_run_id e \<and> ev_sequence d = ev_sequence e)) docs"

definition read_events :: "orch_event list \<Rightarrow> string \<Rightarrow> int \<Rightarrow> orch_event list" where
  "read_events docs rid after =
     filter (\<lambda>e. after < ev_sequence e)
       (sort_key ev_sequence (filter (\<lambda>e. ev_run_id e = rid) docs))"

text \<open>
  \<open>append\<close> awaits between its read and its insert, so another appender may run there:
  \<open>docs\<close> is the collection read, \<open>docs'\<close> the collection at the insert.
\<close>

definition append_event ::
  "orch_event list \<Rightarrow> orch_event list \<Rightarrow> orch_event \<Rightarrow> outcome \<times> orch_event list" where
  "append_event docs docs' event0 =
     (let event = canonicalize_event event0;
          (oc, _) = evaluate_event_append (read_events docs (ev_run_id event) 0) event in
      if oc \<noteq> Accepted then (oc, docs')
      else if index_collision docs' event then
        (case List.find (\<lambda>d. ev_event_id d = ev_event_id event) docs' of
           None \<Rightarrow> (Conflict, docs')
         | Some cur \<Rightarrow>
             (if canonicalize_event cur = event then Replayed else Conflict, docs'))
      else (Accepted, docs' @ [event]))"

definition delete_events_by_epoch :: "orch_event list \<Rightarrow> string \<Rightarrow> int \<Rightarrow> nat \<times> orch_event list" where
  "delete_events_by_epoch docs room epoch =
     (let hit = (\<lambda>e. ev_conversation_id e = room \<and> ev_room_epoch e = epoch) in
      (length (filter hit docs), filter (\<lambda>e. \<not> hit e) docs))"

section \<open>Lemmas\<close>

lemma latest_event_max:
  "latest_event xs = Some e \<Longrightarrow> e \<in> set xs \<and> (\<forall>x \<in> set xs. ev_sequence x \<le> ev_sequence e)"
proof -
  have fold: "foldl (\<lambda>a y. if ev_sequence a < ev_sequence y then y else a) a ys \<in> insert a (set ys)
      \<and> (\<forall>x \<in> insert a (set ys). ev_sequence x
           \<le> ev_sequence (foldl (\<lambda>a y. if ev_sequence a < ev_sequence y then y else a) a ys))"
    for a ys
  proof (induction ys arbitrary: a)
    case Nil
    then show ?case by simp
  next
    case (Cons y ys)
    from Cons [of "if ev_sequence a < ev_sequence y then y else a"]
    show ?case by (auto split: if_splits)
  qed
  assume "latest_event xs = Some e"
  with fold show ?thesis by (cases xs) auto
qed

lemma evaluate_event_append_Accepted:
  "fst (evaluate_event_append existing e) = Accepted \<longleftrightarrow>
     (\<forall>i \<in> set existing. ev_event_id i \<noteq> ev_event_id e \<and> ev_run_id i = ev_run_id e)
     \<and> ev_sequence e = max_default 0 (map ev_sequence existing) + 1
     \<and> (case latest_event (map canonicalize_event existing) of None \<Rightarrow> True
        | Some l \<Rightarrow> ev_state_version l \<le> ev_state_version e)"
proof (cases "\<exists>i \<in> set existing. ev_event_id i = ev_event_id e")
  case True
  then have "List.find (\<lambda>i. ev_event_id i = ev_event_id (canonicalize_event e))
      (map canonicalize_event existing) \<noteq> None"
    by (auto simp: find_None)
  then have "fst (evaluate_event_append existing e) \<noteq> Accepted"
    by (auto simp: evaluate_event_append_def Let_def split: if_splits)
  with True show ?thesis by auto
next
  case False
  then have none: "List.find (\<lambda>i. ev_event_id i = ev_event_id (canonicalize_event e))
      (map canonicalize_event existing) = None"
    by (auto simp: find_None)
  have fresh: "ev_sequence e = max_default 0 (map ev_sequence existing) + 1
      \<Longrightarrow> \<not> (\<exists>i \<in> set existing. ev_sequence i = ev_sequence e)"
    using max_default_succ_fresh [of 0 "map ev_sequence existing"] by force
  have "fst (evaluate_event_append existing e) = Accepted \<longleftrightarrow>
     \<not> (\<exists>i \<in> set existing. ev_sequence i = ev_sequence e)
     \<and> \<not> (\<exists>i \<in> set existing. ev_run_id i \<noteq> ev_run_id e)
     \<and> ev_sequence e = max_default 0 (map ev_sequence existing) + 1
     \<and> (case latest_event (map canonicalize_event existing) of None \<Rightarrow> True
        | Some l \<Rightarrow> ev_state_version l \<le> ev_state_version e)"
    using none by (simp add: evaluate_event_append_def Let_def list_ex_iff comp_def not_less
        split: option.splits)
  with fresh False show ?thesis by blast
qed

text \<open>The inventory of one Run: sequences 1, 2, .. in order, state versions never falling.\<close>

definition inventory_ok :: "orch_event list \<Rightarrow> bool" where
  "inventory_ok xs \<longleftrightarrow> map ev_sequence xs = map int [1 ..< Suc (length xs)]
     \<and> distinct (map ev_event_id xs) \<and> sorted (map ev_state_version xs)
     \<and> (\<forall>x \<in> set xs. \<forall>y \<in> set xs. ev_run_id x = ev_run_id y)"

lemma max_default_upto: "max_default 0 (map int [1 ..< Suc n]) = int n"
proof (cases n)
  case 0
  then show ?thesis by simp
next
  case (Suc m)
  let ?xs = "map int [1 ..< Suc n]"
  have "?xs \<noteq> []" using Suc by simp
  then have "max_default 0 ?xs \<in> set ?xs" by (rule max_default_in)
  moreover have "int n \<in> set ?xs" using Suc by force
  then have "int n \<le> max_default 0 ?xs" by (rule max_default_upper)
  ultimately show ?thesis by auto
qed

lemma inventory_nth:
  assumes "inventory_ok xs" and "j < length xs"
  shows "ev_sequence (xs ! j) = int (Suc j)"
proof -
  have "map ev_sequence xs ! j = map int [1 ..< Suc (length xs)] ! j"
    using assms(1) by (simp only: inventory_ok_def)
  with assms(2) show ?thesis by (simp del: upt_Suc)
qed

lemma inventory_latest:
  assumes "inventory_ok xs" and "xs \<noteq> []"
  shows "\<exists>l. latest_event (map canonicalize_event xs) = Some l \<and> ev_state_version l = ev_state_version (last xs)"
proof -
  obtain l where l: "latest_event (map canonicalize_event xs) = Some l"
    using assms(2) by (cases xs) auto
  from latest_event_max [OF l] obtain y where y: "y \<in> set xs" "l = canonicalize_event y"
    and up: "\<forall>x \<in> set xs. ev_sequence x \<le> ev_sequence y" by auto
  from y(1) obtain i where i: "i < length xs" "y = xs ! i" by (auto simp: in_set_conv_nth)
  note seq = inventory_nth [OF assms(1)]
  have "length xs - 1 < length xs" using assms(2) by simp
  then have "ev_sequence (xs ! (length xs - 1)) \<le> ev_sequence y" using up nth_mem by blast
  with seq [of "length xs - 1"] seq [of i] i assms(2) have "i = length xs - 1" by simp
  with i(2) y(2) l assms(2) show ?thesis by (simp add: last_conv_nth)
qed

lemma append_keeps_inventory:
  assumes "inventory_ok xs" and "fst (evaluate_event_append xs e) = Accepted"
  shows "inventory_ok (xs @ [canonicalize_event e])"
proof -
  from assms(2) have ids: "\<forall>i \<in> set xs. ev_event_id i \<noteq> ev_event_id e \<and> ev_run_id i = ev_run_id e"
    and seq: "ev_sequence e = max_default 0 (map ev_sequence xs) + 1"
    and ver: "case latest_event (map canonicalize_event xs) of None \<Rightarrow> True
        | Some l \<Rightarrow> ev_state_version l \<le> ev_state_version e"
    unfolding evaluate_event_append_Accepted by blast+
  from assms(1) have map_seq: "map ev_sequence xs = map int [1 ..< Suc (length xs)]"
    and dist: "distinct (map ev_event_id xs)" and srt: "sorted (map ev_state_version xs)"
    by (simp_all add: inventory_ok_def)
  from seq map_seq have "ev_sequence e = int (length xs) + 1"
    by (simp only: max_default_upto)
  with map_seq have "map ev_sequence (xs @ [canonicalize_event e])
      = map int [1 ..< Suc (length (xs @ [canonicalize_event e]))]"
    by simp
  moreover have "sorted (map ev_state_version (xs @ [canonicalize_event e]))"
  proof (cases "xs = []")
    case True
    then show ?thesis by simp
  next
    case False
    with inventory_latest [OF assms(1)] ver
    have "ev_state_version (last xs) \<le> ev_state_version e" by auto
    moreover have "x \<in> set xs \<Longrightarrow> ev_state_version x \<le> ev_state_version (last xs)" for x
    proof -
      assume "x \<in> set xs"
      then obtain j where "j < length xs" "x = xs ! j" by (auto simp: in_set_conv_nth)
      with srt sorted_nth_mono [OF srt, of j "length xs - 1"] False show ?thesis
        by (simp add: last_conv_nth)
    qed
    ultimately show ?thesis using srt by (auto simp: sorted_append intro: order_trans)
  qed
  moreover have "distinct (map ev_event_id (xs @ [canonicalize_event e]))"
    using dist ids by auto
  moreover have "\<forall>x \<in> set (xs @ [canonicalize_event e]). \<forall>y \<in> set (xs @ [canonicalize_event e]).
      ev_run_id x = ev_run_id y"
    using ids by auto
  ultimately show ?thesis by (simp only: inventory_ok_def)
qed

lemma inventory_sorted:
  assumes "inventory_ok xs"
  shows "sorted (map ev_sequence xs)" and "\<forall>x \<in> set xs. 0 < ev_sequence x"
proof -
  from assms have eq: "map ev_sequence xs = map int [1 ..< Suc (length xs)]"
    by (simp add: inventory_ok_def)
  have "sorted (map int [1 ..< Suc (length xs)])" by (simp add: sorted_map del: upt_Suc)
  with eq show "sorted (map ev_sequence xs)" by simp
  have "set (map ev_sequence xs) \<subseteq> {0<..}" unfolding eq by auto
  then show "\<forall>x \<in> set xs. 0 < ev_sequence x" by auto
qed

lemma read_inventory:
  assumes "inventory_ok (filter (\<lambda>e. ev_run_id e = rid) docs)"
  shows "read_events docs rid 0 = filter (\<lambda>e. ev_run_id e = rid) docs"
proof -
  from inventory_sorted [OF assms]
  have "sort_key ev_sequence (filter (\<lambda>e. ev_run_id e = rid) docs)
      = filter (\<lambda>e. ev_run_id e = rid) docs"
    by (simp add: sort_key_id_if_sorted)
  with inventory_sorted(2) [OF assms] show ?thesis
    by (simp add: read_events_def filter_id_conv del: filter_filter)
qed


section \<open>Concurrent appenders\<close>

text \<open>
  The store with the appends in flight: each has read the collection and not yet inserted. An
  in-flight append may also insert more than once, as a retried worker does.
\<close>

record event_store =
  es_docs :: "orch_event list"
  es_inflight :: "(orch_event list \<times> orch_event) list"

inductive es_step :: "event_store \<Rightarrow> event_store \<Rightarrow> bool" where
  es_read: "es_step s (s\<lparr>es_inflight := (es_docs s, e) # es_inflight s\<rparr>)"
| es_insert: "(snap, e) \<in> set (es_inflight s) \<Longrightarrow>
     es_step s (s\<lparr>es_docs := snd (append_event snap (es_docs s) e)\<rparr>)"

inductive es_reachable :: "event_store \<Rightarrow> bool" where
  es_start: "es_reachable \<lparr>es_docs = [], es_inflight = []\<rparr>"
| es_next: "es_reachable s \<Longrightarrow> es_step s t \<Longrightarrow> es_reachable t"

definition events_ok :: "orch_event list \<Rightarrow> bool" where
  "events_ok docs \<longleftrightarrow> (\<forall>rid. inventory_ok (filter (\<lambda>e. ev_run_id e = rid) docs))
     \<and> distinct (map ev_event_id docs)"

lemma append_event_cases:
  assumes "append_event snap docs e = (oc, docs')"
  shows "docs' = docs \<and> oc \<noteq> Accepted
    \<or> oc = Accepted \<and> docs' = docs @ [canonicalize_event e]
      \<and> fst (evaluate_event_append (read_events snap (ev_run_id e) 0) (canonicalize_event e)) = Accepted
      \<and> \<not> index_collision docs (canonicalize_event e)"
  using assms
  by (cases "evaluate_event_append (read_events snap (ev_run_id e) 0) (canonicalize_event e)")
    (auto simp: append_event_def Let_def split: if_splits option.splits)

lemma accepted_append_keeps_ok:
  assumes ok: "events_ok (snap @ rest)" and snap: "events_ok snap"
    and acc: "fst (evaluate_event_append (read_events snap (ev_run_id e) 0) (canonicalize_event e)) = Accepted"
    and coll: "\<not> index_collision (snap @ rest) (canonicalize_event e)"
  shows "events_ok (snap @ rest @ [canonicalize_event e])"
proof -
  define mine :: "orch_event list \<Rightarrow> orch_event list" where "mine = filter (\<lambda>d. ev_run_id d = ev_run_id e)"
  have inv: "inventory_ok (mine snap)" and inv': "inventory_ok (mine (snap @ rest))"
    using ok snap by (simp_all only: events_ok_def mine_def)
  have read: "read_events snap (ev_run_id e) 0 = mine snap"
    using read_inventory inv by (simp add: mine_def)
  have "ev_sequence e = int (length (mine snap)) + 1"
    using acc inv unfolding read evaluate_event_append_Accepted inventory_ok_def
    by (metis canonicalize_event_simps(4) max_default_upto)
  moreover have "length (mine (snap @ rest)) = length (mine snap)"
  proof (rule ccontr)
    assume neq: "length (mine (snap @ rest)) \<noteq> length (mine snap)"
    then have lt: "length (mine snap) < length (mine (snap @ rest))"
      by (simp add: mine_def)
    have "ev_sequence (mine (snap @ rest) ! length (mine snap)) = ev_sequence e"
      using inventory_nth [OF inv' lt] calculation by simp
    moreover have "mine (snap @ rest) ! length (mine snap) \<in> set (mine (snap @ rest))"
      using lt by (rule nth_mem)
    ultimately show False
      using coll by (auto simp: index_collision_def list_ex_iff mine_def)
  qed
  then have "mine (snap @ rest) = mine snap" by (simp add: mine_def)
  with read acc append_keeps_inventory [OF inv, of "canonicalize_event e"]
  have mine_ok: "inventory_ok (mine (snap @ rest @ [canonicalize_event e]))"
    by (simp add: mine_def)
  have "inventory_ok (filter (\<lambda>d. ev_run_id d = rid) (snap @ rest @ [canonicalize_event e]))" for rid
  proof (cases "rid = ev_run_id e")
    case True
    then show ?thesis using mine_ok by (simp add: mine_def)
  next
    case False
    then have "filter (\<lambda>d. ev_run_id d = rid) (snap @ rest @ [canonicalize_event e])
        = filter (\<lambda>d. ev_run_id d = rid) (snap @ rest)" by auto
    then show ?thesis using ok by (simp only: events_ok_def)
  qed
  moreover have "distinct (map ev_event_id (snap @ rest @ [canonicalize_event e]))"
    using ok coll by (auto simp: events_ok_def index_collision_def list_ex_iff)
  ultimately show ?thesis by (simp only: events_ok_def simp_thms)
qed

definition inflight_ok :: "event_store \<Rightarrow> bool" where
  "inflight_ok s \<longleftrightarrow> events_ok (es_docs s)
     \<and> (\<forall>(snap, e) \<in> set (es_inflight s). events_ok snap \<and> (\<exists>rest. es_docs s = snap @ rest))"

lemma es_step_inflight_ok: "es_step s t \<Longrightarrow> inflight_ok s \<Longrightarrow> inflight_ok t"
proof (induction rule: es_step.induct)
  case (es_read s e)
  then show ?case by (auto simp: inflight_ok_def)
next
  case (es_insert snap e s)
  then obtain rest where docs: "es_docs s = snap @ rest" and ok: "events_ok (es_docs s)"
    and snap: "events_ok snap" by (auto simp: inflight_ok_def)
  obtain oc docs' where app: "append_event snap (es_docs s) e = (oc, docs')" by force
  from append_event_cases [OF app] show ?case
  proof
    assume "docs' = es_docs s \<and> oc \<noteq> Accepted"
    with es_insert app show ?thesis by (simp add: inflight_ok_def)
  next
    assume acc: "oc = Accepted \<and> docs' = es_docs s @ [canonicalize_event e]
      \<and> fst (evaluate_event_append (read_events snap (ev_run_id e) 0) (canonicalize_event e)) = Accepted
      \<and> \<not> index_collision (es_docs s) (canonicalize_event e)"
    with accepted_append_keeps_ok [OF _ snap] ok docs have "events_ok docs'" by simp
    with es_insert.prems acc app show ?thesis
      by (force simp: inflight_ok_def)
  qed
qed

lemma es_reachable_inflight_ok: "es_reachable s \<Longrightarrow> inflight_ok s"
proof (induction rule: es_reachable.induct)
  case es_start
  show ?case by (simp add: inflight_ok_def events_ok_def inventory_ok_def)
next
  case (es_next s t)
  then show ?case by (blast intro: es_step_inflight_ok)
qed

section \<open>Properties\<close>

text \<open>
  Concurrent appenders keep every Run's event inventory exact. In every reachable state of
  the store, under any interleaving of appenders that read and insert at different times (and
  may retry), the events of each Run carry the sequences 1, 2, 3, .. in insertion order with
  non-decreasing state versions, and no event id is stored twice.
\<close>

theorem concurrent_appends_keep_inventories:
  assumes "es_reachable s"
  shows "inventory_ok (filter (\<lambda>e. ev_run_id e = rid) (es_docs s))
    \<and> distinct (map ev_event_id (es_docs s))"
  using es_reachable_inflight_ok [OF assms] by (simp add: inflight_ok_def events_ok_def)

definition sample_event :: orch_event where
  "sample_event = \<lparr>ev_event_id = ''e1'', ev_event_type = EvRunCompleted, ev_session_id = ''sess'',
     ev_run_id = ''run'', ev_conversation_id = ''room'', ev_room_epoch = 1, ev_sequence = 1,
     ev_state_version = 8, ev_causation_id = ''c'', ev_correlation_id = None, ev_payload = [],
     ev_created_at = 1234567\<rparr>"

lemma sample_append:
  "append_event [] [] sample_event = (Accepted, [sample_event\<lparr>ev_created_at := 1234000\<rparr>])"
  by (simp add: append_event_def read_events_def evaluate_event_append_def Let_def
      index_collision_def sample_event_def canonicalize_event_def bson_millis_def)

theorem concurrent_appends_keep_inventories_witness:
  "inventory_ok (filter (\<lambda>e. ev_run_id e = ''run'') [sample_event\<lparr>ev_created_at := 1234000\<rparr>])
   \<and> distinct (map ev_event_id [sample_event\<lparr>ev_created_at := 1234000\<rparr>])"
proof -
  let ?s0 = "\<lparr>es_docs = [], es_inflight = []\<rparr>"
  let ?s1 = "?s0\<lparr>es_inflight := [([], sample_event)]\<rparr>"
  let ?s2 = "?s1\<lparr>es_docs := [sample_event\<lparr>ev_created_at := 1234000\<rparr>]\<rparr>"
  have "es_step ?s0 ?s1" using es_read [of ?s0 sample_event] by simp
  moreover have "es_step ?s1 ?s2"
    using es_insert [of "[]" sample_event ?s1] by (simp add: sample_append)
  ultimately have "es_reachable ?s2" by (blast intro: es_reachable.intros)
  from concurrent_appends_keep_inventories [OF this, of "''run''"] show ?thesis by simp
qed

text \<open>
  Delivering an event again is harmless. Once an append was accepted, appending the same
  event again (with any sub-millisecond part in its time stamp, as an outbox payload still
  carries after BSON has dropped it from the stored one) is a replay that leaves the store
  unchanged, while another event under the same id is a conflict that leaves it unchanged.
\<close>

theorem event_redelivery_is_replayed:
  assumes "events_ok docs" and "append_event docs docs e = (Accepted, docs')"
    and "ev_event_id e' = ev_event_id e" and "ev_run_id e' = ev_run_id e"
  shows "append_event docs' docs' e'
    = (if canonicalize_event e' = canonicalize_event e then Replayed else Conflict, docs')"
proof -
  let ?c = "canonicalize_event e"
  from append_event_cases [OF assms(2)] have docs': "docs' = docs @ [?c]"
    and acc: "fst (evaluate_event_append (read_events docs (ev_run_id e) 0) ?c) = Accepted"
    and coll: "\<not> index_collision docs ?c" by auto
  have "events_ok docs'" unfolding docs'
    using accepted_append_keeps_ok [of docs "[]" e] assms(1) acc coll by simp
  then have inv: "inventory_ok (filter (\<lambda>d. ev_run_id d = ev_run_id e) docs')"
    by (simp only: events_ok_def)
  let ?ex = "read_events docs' (ev_run_id e) 0"
  have "?ex = filter (\<lambda>d. ev_run_id d = ev_run_id e) docs'" by (rule read_inventory [OF inv])
  then have mem: "?c \<in> set ?ex" and
    uniq: "y \<in> set ?ex \<Longrightarrow> ev_event_id y = ev_event_id e \<Longrightarrow> y = ?c" for y
    using coll by (auto simp: docs' index_collision_def list_ex_iff)
  have "List.find (\<lambda>i. ev_event_id i = ev_event_id e) (map canonicalize_event ?ex) = Some ?c"
  proof (rule find_unique)
    have "canonicalize_event ?c \<in> set (map canonicalize_event ?ex)" using mem by (simp only: set_map imageI)
    then show "?c \<in> set (map canonicalize_event ?ex)" by simp
    show "ev_event_id ?c = ev_event_id e" by simp
  next
    fix y assume "y \<in> set (map canonicalize_event ?ex)" and id: "ev_event_id y = ev_event_id e"
    then obtain z where z: "z \<in> set ?ex" "y = canonicalize_event z" by auto
    with id uniq [of z] have "z = ?c" by simp
    with z show "y = ?c" by simp
  qed
  then have "fst (evaluate_event_append ?ex (canonicalize_event e'))
      = (if ?c = canonicalize_event e' then Replayed else Conflict)"
    using assms(3) by (simp add: evaluate_event_append_def Let_def)
  then show ?thesis using assms(3,4)
    by (cases "evaluate_event_append ?ex (canonicalize_event e')")
      (auto simp: append_event_def Let_def)
qed

theorem event_redelivery_is_replayed_witness:
  "append_event [sample_event\<lparr>ev_created_at := 1234000\<rparr>] [sample_event\<lparr>ev_created_at := 1234000\<rparr>]
     (sample_event\<lparr>ev_created_at := 1234999\<rparr>)
   = (Replayed, [sample_event\<lparr>ev_created_at := 1234000\<rparr>])"
proof -
  have ok: "events_ok []" by (simp add: events_ok_def inventory_ok_def)
  have "ev_event_id (sample_event\<lparr>ev_created_at := 1234999\<rparr>) = ev_event_id sample_event"
    and "ev_run_id (sample_event\<lparr>ev_created_at := 1234999\<rparr>) = ev_run_id sample_event"
    by simp_all
  from event_redelivery_is_replayed [OF ok sample_append this]
  show ?thesis by (simp add: canonicalize_event_def bson_millis_def sample_event_def)
qed

end
