(* ===== verification/Settlement.thy ===== *)
theory Settlement
  imports Run_Events
begin

text \<open>
  \<open>execution/orchestrator/settlement.py\<close>: the completion gates, the two terminal commits (the
  successful one and the failed, canceled or exhausted one), the projection-intent state
  machine, and the settlement of the outbox. Both commits meet one contract, the locale
  \<open>terminal_commit\<close>, from which it follows that a Run has one terminal winner however commits
  race and are retried.

  \<open>jsontime\<close> is pydantic's JSON rendering of a timestamp, a parameter of the event dump. A reason the
  source formats with a value is a constructor carrying that value. The set of referenced
  artifacts is walked in content order (Python leaves the order of a set open; it only picks
  which failing artifact the reason names).
\<close>

section \<open>Completion gates\<close>

datatype terminal_decision =
    TdReady | TdWaitingExternal | TdAwaitingUser | TdOperationalRejection | TdTerminalConflict

datatype decision_reason =
    CancellationAlreadyWon | RunAlreadyTerminal | FinalMessageNotPending
  | UserInteractionPending | ToolEntryActive | PublicTerminalNotDurable
  | ObservationNotPersisted | ArtifactUndeliverable string | CompletionGatesPass
  | CommandAlreadyApplied | StateVersionChanged | IdentityAllocated
  | InconsistentSequences | SequenceAllocatedTwice | ExpectedTerminalSequence int

record artifact_check =
  ac_artifact_ref :: string
  ac_exists :: bool
  ac_belongs_to_run :: bool
  ac_belongs_to_room :: bool
  ac_deliverable :: bool

record terminal_facts =
  tf_final_message_id :: string
  tf_terminal_observations_persisted :: bool
  tf_cancellation_won :: bool
  tf_artifact_checks :: "artifact_check list"

record decision_evaluation =
  de_decision :: terminal_decision
  de_reason :: decision_reason

definition evaluation :: "terminal_decision \<Rightarrow> decision_reason \<Rightarrow> decision_evaluation" where
  "evaluation d r = \<lparr>de_decision = d, de_reason = r\<rparr>"

fun find_final_message :: "agent_message list \<Rightarrow> string \<Rightarrow> assistant_message option" where
  "find_final_message [] mid = None"
| "find_final_message (AssistantMsg a # ms) mid =
     (if am_message_id a = mid then Some a else find_final_message ms mid)"
| "find_final_message (_ # ms) mid = find_final_message ms mid"

definition public_terminals_complete :: "run_state \<Rightarrow> bool" where
  "public_terminals_complete r \<longleftrightarrow>
     list_all (\<lambda>e. be_acceptance e = None \<or> be_public_terminal_emitted e) (run_entries r)"

fun artifact_refs_of :: "content_part list \<Rightarrow> string list" where
  "artifact_refs_of [] = []"
| "artifact_refs_of (ArtifactRefPart ref _ # ps) = ref # artifact_refs_of ps"
| "artifact_refs_of (_ # ps) = artifact_refs_of ps"

text \<open>\<open>{check.artifact_ref: check for check in checks}\<close>: the last check of a reference wins.\<close>

definition artifact_check_for :: "artifact_check list \<Rightarrow> string \<Rightarrow> artifact_check option" where
  "artifact_check_for cs ref = List.find (\<lambda>c. ac_artifact_ref c = ref) (rev cs)"

definition artifact_deliverable :: "run_state \<Rightarrow> artifact_check list \<Rightarrow> string \<Rightarrow> bool" where
  "artifact_deliverable r cs ref = (case artifact_check_for cs ref of
      None \<Rightarrow> False
    | Some c \<Rightarrow> ac_exists c \<and> ac_belongs_to_run c \<and> ac_belongs_to_room c \<and> ac_deliverable c
        \<and> ref \<in> set (run_artifact_refs r))"

definition evaluate_terminal_decision :: "run_state \<Rightarrow> terminal_facts \<Rightarrow> decision_evaluation" where
  "evaluate_terminal_decision r f =
     (if tf_cancellation_won f \<or> run_st r \<in> {Canceling, Canceled}
        then evaluation TdTerminalConflict CancellationAlreadyWon
      else if is_terminal_status (run_st r)
        then evaluation TdTerminalConflict RunAlreadyTerminal
      else case find_final_message (run_transcript r) (tf_final_message_id f) of
        None \<Rightarrow> evaluation TdOperationalRejection FinalMessageNotPending
      | Some final \<Rightarrow>
          if run_proposed_final_message_id r \<noteq> Some (tf_final_message_id f)
            then evaluation TdOperationalRejection FinalMessageNotPending
          else let states = map be_state (run_entries r) in
            if list_ex (\<lambda>s. s \<in> {EsInputRequired, EsAuthRequired}) states
              then evaluation TdAwaitingUser UserInteractionPending
            else if list_ex (\<lambda>s. s \<in> {EsPending, EsAccepted, EsExecuting, EsWaitingExternal}) states
              then evaluation TdWaitingExternal ToolEntryActive
            else if \<not> public_terminals_complete r
              then evaluation TdWaitingExternal PublicTerminalNotDurable
            else if \<not> tf_terminal_observations_persisted f
              then evaluation TdWaitingExternal ObservationNotPersisted
            else (case List.find (\<lambda>ref. \<not> artifact_deliverable r (tf_artifact_checks f) ref)
                    (artifact_refs_of (am_content final)) of
                    Some ref \<Rightarrow> evaluation TdOperationalRejection (ArtifactUndeliverable ref)
                  | None \<Rightarrow> evaluation TdReady CompletionGatesPass))"

section \<open>The event dump and the outbox intents\<close>

definition json_opt :: "string option \<Rightarrow> json" where
  "json_opt x = (case x of None \<Rightarrow> JNull | Some s \<Rightarrow> JStr s)"

definition event_type_name :: "event_type \<Rightarrow> string" where
  "event_type_name t = (case t of
      EvRunStarted \<Rightarrow> ''run_started'' | EvTurnStarted \<Rightarrow> ''turn_started''
    | EvMessageStarted \<Rightarrow> ''message_started'' | EvMessageUpdated \<Rightarrow> ''message_updated''
    | EvMessageCompleted \<Rightarrow> ''message_completed'' | EvToolCallAccepted \<Rightarrow> ''tool_call_accepted''
    | EvToolCallUpdated \<Rightarrow> ''tool_call_updated'' | EvToolCallCompleted \<Rightarrow> ''tool_call_completed''
    | EvTurnCompleted \<Rightarrow> ''turn_completed'' | EvRunWaitingExternal \<Rightarrow> ''run_waiting_external''
    | EvRunAwaitingUser \<Rightarrow> ''run_awaiting_user'' | EvRunFinalizing \<Rightarrow> ''run_finalizing''
    | EvRunCompleted \<Rightarrow> ''run_completed'' | EvRunFailed \<Rightarrow> ''run_failed''
    | EvRunCanceled \<Rightarrow> ''run_canceled'' | EvRunBudgetExhausted \<Rightarrow> ''run_budget_exhausted'')"

text \<open>\<open>event.model_dump(mode="json")\<close>: the stored key of the conversation is \<open>room_id\<close>.\<close>

definition event_dump :: "(datetime \<Rightarrow> string) \<Rightarrow> orch_event \<Rightarrow> (string \<times> json) list" where
  "event_dump jsontime e =
     [(''schema_version'', JInt 2), (''event_id'', JStr (ev_event_id e)),
      (''event_type'', JStr (event_type_name (ev_event_type e))),
      (''session_id'', JStr (ev_session_id e)), (''run_id'', JStr (ev_run_id e)),
      (''room_id'', JStr (ev_conversation_id e)), (''room_epoch'', JInt (ev_room_epoch e)),
      (''sequence'', JInt (ev_sequence e)), (''state_version'', JInt (ev_state_version e)),
      (''causation_id'', JStr (ev_causation_id e)),
      (''correlation_id'', json_opt (ev_correlation_id e)), (''payload'', JObj (ev_payload e)),
      (''created_at'', JStr (jsontime (ev_created_at e)))]"

text \<open>A fresh required intent of an event, with the \<open>common\<close> fields both commits share.\<close>

definition new_intent ::
  "orch_event \<Rightarrow> string \<Rightarrow> string \<Rightarrow> string \<Rightarrow> string \<Rightarrow> string \<Rightarrow> (string \<times> json) list
     \<Rightarrow> projection_intent" where
  "new_intent e causation iid knd target dedupe payload =
     \<lparr>pi_intent_id = iid, pi_kind = knd, pi_target = target, pi_dedupe_key = dedupe,
      pi_required = True, pi_event_id = ev_event_id e, pi_event_sequence = ev_sequence e,
      pi_causation_id = causation, pi_payload = payload, pi_status = IntPending,
      pi_blocked_reason = None, pi_claim_owner = None, pi_claim_expires_at = None,
      pi_attempt_count = 0, pi_next_attempt_at = None\<rparr>"

section \<open>The successful terminal commit\<close>

record commit_request =
  cq_expected_state_version :: int
  cq_command_id :: string
  cq_event_id :: string
  cq_event_sequence :: int
  cq_event_intent_id :: string
  cq_final_message_intent_id :: string
  cq_public_run_intent_id :: string
  cq_final_message_target :: string
  cq_public_run_target :: string
  cq_terminal_reason :: string
  cq_correlation_id :: "string option"
  cq_created_at :: datetime

record commit_result =
  cres_outcome :: outcome
  cres_evaluation :: decision_evaluation
  cres_run :: run_state
  cres_event :: "orch_event option"

definition refused :: "outcome \<Rightarrow> decision_evaluation \<Rightarrow> run_state \<Rightarrow> commit_result" where
  "refused oc ev r =
     \<lparr>cres_outcome = oc, cres_evaluation = ev, cres_run = r, cres_event = None\<rparr>"

text \<open>
  The two allocation loops: \<open>setdefault\<close> on a dictionary, failing when the value stored first
  differs. \<open>None\<close> is the early return.
\<close>

fun allocate_sequences ::
  "projection_intent list \<Rightarrow> (string \<times> int) list \<Rightarrow> (string \<times> int) list option" where
  "allocate_sequences [] d = Some d"
| "allocate_sequences (i # is) d =
     (case map_of d (pi_event_id i) of
        None \<Rightarrow> allocate_sequences is (d @ [(pi_event_id i, pi_event_sequence i)])
      | Some n \<Rightarrow> if n \<noteq> pi_event_sequence i then None else allocate_sequences is d)"

fun occupy_sequences :: "(string \<times> int) list \<Rightarrow> (int \<times> string) list \<Rightarrow> (int \<times> string) list option" where
  "occupy_sequences [] d = Some d"
| "occupy_sequences ((eid, n) # xs) d =
     (case map_of d n of
        None \<Rightarrow> occupy_sequences xs (d @ [(n, eid)])
      | Some o' \<Rightarrow> if o' \<noteq> eid then None else occupy_sequences xs d)"

definition completed_event :: "run_state \<Rightarrow> terminal_facts \<Rightarrow> commit_request \<Rightarrow> orch_event" where
  "completed_event r f q = canonicalize_event
     \<lparr>ev_event_id = cq_event_id q, ev_event_type = EvRunCompleted,
      ev_session_id = run_session_id r, ev_run_id = run_id r,
      ev_conversation_id = run_conversation_id r, ev_room_epoch = rr_room_epoch (run_req r),
      ev_sequence = cq_event_sequence q, ev_state_version = run_state_version r + 1,
      ev_causation_id = cq_command_id q, ev_correlation_id = cq_correlation_id q,
      ev_payload = [(''final_message_id'', JStr (tf_final_message_id f)),
                    (''terminal_reason'', JStr (cq_terminal_reason q))],
      ev_created_at = cq_created_at q\<rparr>"

definition completed_intents ::
  "(datetime \<Rightarrow> string) \<Rightarrow> run_state \<Rightarrow> terminal_facts \<Rightarrow> commit_request \<Rightarrow> projection_intent list" where
  "completed_intents jsontime r f q =
     (let e = completed_event r f q; mk = new_intent e (cq_command_id q) in
      [mk (cq_event_intent_id q) ''append_orchestrator_event'' ''orchestrator_run_events''
          (ev_event_id e) (event_dump jsontime e),
       mk (cq_final_message_intent_id q) ''deliver_final_message'' (cq_final_message_target q)
          (''final-message:'' @ tf_final_message_id f)
          [(''run_id'', JStr (run_id r)), (''room_id'', JStr (run_conversation_id r)),
           (''message_id'', JStr (tf_final_message_id f))],
       mk (cq_public_run_intent_id q) ''project_terminal_run_status'' (cq_public_run_target q)
          (''run-completed:'' @ run_id r)
          [(''run_id'', JStr (run_id r)), (''status'', JStr ''completed'')]])"

definition commit_terminal_decision ::
  "(datetime \<Rightarrow> string) \<Rightarrow> run_state \<Rightarrow> terminal_facts \<Rightarrow> commit_request \<Rightarrow> commit_result" where
  "commit_terminal_decision jsontime r f q =
     (if cq_command_id q \<in> set (run_processed_command_ids r)
        then refused Replayed (evaluation TdTerminalConflict CommandAlreadyApplied) r
      else if cq_expected_state_version q \<noteq> run_state_version r
        then refused Conflict (evaluation TdTerminalConflict StateVersionChanged) r
      else let ev = evaluate_terminal_decision r f;
               ids = [cq_event_intent_id q, cq_final_message_intent_id q, cq_public_run_intent_id q] in
        if de_decision ev \<noteq> TdReady then refused Conflict ev r
        else if \<not> distinct ids
             \<or> list_ex (\<lambda>i. pi_intent_id i \<in> set ids \<or> pi_event_id i = cq_event_id q)
                 (run_projection_outbox r)
          then refused Conflict (evaluation TdTerminalConflict IdentityAllocated) r
        else case allocate_sequences (run_projection_outbox r) [] of
          None \<Rightarrow> refused Conflict (evaluation TdTerminalConflict InconsistentSequences) r
        | Some allocated \<Rightarrow>
            (case occupy_sequences allocated [] of
               None \<Rightarrow> refused Conflict (evaluation TdTerminalConflict SequenceAllocatedTwice) r
             | Some occupied \<Rightarrow>
                 let expected = max_default 0 (map fst occupied) + 1 in
                 if cq_event_sequence q \<noteq> expected
                   then refused Conflict
                     (evaluation TdTerminalConflict (ExpectedTerminalSequence expected)) r
                 else
                   \<lparr>cres_outcome = Accepted, cres_evaluation = ev,
                    cres_run = r\<lparr>run_st := Completed,
                      run_terminal_reason := Some (cq_terminal_reason q),
                      run_projection_state := ProjPending,
                      run_projection_outbox :=
                        run_projection_outbox r @ completed_intents jsontime r f q,
                      run_processed_command_ids :=
                        run_processed_command_ids r @ [cq_command_id q],
                      run_state_version := run_state_version r + 1,
                      run_updated_at := cq_created_at q\<rparr>,
                    cres_event = Some (completed_event r f q)\<rparr>))"

section \<open>The other terminal commit\<close>

datatype terminal_failure = TfFailed | TfCanceled | TfBudgetExhausted

definition failure_status :: "terminal_failure \<Rightarrow> run_status" where
  "failure_status t = (case t of TfFailed \<Rightarrow> Failed | TfCanceled \<Rightarrow> Canceled
     | TfBudgetExhausted \<Rightarrow> BudgetExhausted)"

definition failure_event_type :: "terminal_failure \<Rightarrow> event_type" where
  "failure_event_type t = (case t of TfFailed \<Rightarrow> EvRunFailed | TfCanceled \<Rightarrow> EvRunCanceled
     | TfBudgetExhausted \<Rightarrow> EvRunBudgetExhausted)"

record status_request =
  sq_expected_state_version :: int
  sq_command_id :: string
  sq_event_id :: string
  sq_event_sequence :: int
  sq_event_intent_id :: string
  sq_public_run_intent_id :: string
  sq_public_run_target :: string
  sq_status :: terminal_failure
  sq_terminal_reason :: string
  sq_cancellation_cause :: "cancellation_cause option"
  sq_correlation_id :: "string option"
  sq_created_at :: datetime

definition status_request_error :: "status_request \<Rightarrow> check" where
  "status_request_error q = first_error
     [require (0 \<le> sq_expected_state_version q) ''expected_state_version'',
      require (0 < sq_event_sequence q) ''event_sequence'',
      require (\<not> (sq_status q = TfCanceled \<and> sq_cancellation_cause q = None))
        ''canceled terminal status requires cancellation_cause'',
      require (\<not> (sq_status q \<noteq> TfCanceled \<and> sq_cancellation_cause q \<noteq> None))
        ''cancellation_cause is valid only for canceled status'']"

definition failure_event :: "run_state \<Rightarrow> status_request \<Rightarrow> orch_event" where
  "failure_event r q = canonicalize_event
     \<lparr>ev_event_id = sq_event_id q, ev_event_type = failure_event_type (sq_status q),
      ev_session_id = run_session_id r, ev_run_id = run_id r,
      ev_conversation_id = run_conversation_id r, ev_room_epoch = rr_room_epoch (run_req r),
      ev_sequence = sq_event_sequence q, ev_state_version = run_state_version r + 1,
      ev_causation_id = sq_command_id q, ev_correlation_id = sq_correlation_id q,
      ev_payload = [(''terminal_reason'', JStr (sq_terminal_reason q))],
      ev_created_at = sq_created_at q\<rparr>"

definition failure_intents ::
  "(datetime \<Rightarrow> string) \<Rightarrow> run_state \<Rightarrow> status_request \<Rightarrow> projection_intent list" where
  "failure_intents jsontime r q =
     (let e = failure_event r q; mk = new_intent e (sq_command_id q);
          status = status_name (failure_status (sq_status q)) in
      [mk (sq_event_intent_id q) ''append_orchestrator_event'' ''orchestrator_run_events''
          (ev_event_id e) (event_dump jsontime e),
       mk (sq_public_run_intent_id q) ''project_terminal_run_status'' (sq_public_run_target q)
          (''run-'' @ status @ '':'' @ run_id r)
          [(''run_id'', JStr (run_id r)), (''status'', JStr status)]])"

definition commit_terminal_status ::
  "(datetime \<Rightarrow> string) \<Rightarrow> run_state \<Rightarrow> status_request
     \<Rightarrow> outcome \<times> run_state \<times> orch_event option" where
  "commit_terminal_status jsontime r q =
     (if sq_command_id q \<in> set (run_processed_command_ids r) then (Replayed, r, None)
      else if sq_expected_state_version q \<noteq> run_state_version r then (Conflict, r, None)
      else if is_terminal_status (run_st r) then (Conflict, r, None)
      else if run_st r = Canceling
              \<and> (sq_status q \<noteq> TfCanceled \<or> sq_cancellation_cause q \<noteq> run_cancellation_cause r)
        then (Conflict, r, None)
      else if \<not> public_terminals_complete r then (Conflict, r, None)
      else if sq_event_sequence q
                \<noteq> max_default 0 (map pi_event_sequence (run_projection_outbox r)) + 1
        then (Conflict, r, None)
      else if \<not> distinct [sq_event_id q, sq_event_intent_id q, sq_public_run_intent_id q]
           \<or> list_ex (\<lambda>i. pi_event_id i = sq_event_id q
                \<or> pi_intent_id i \<in> {sq_event_intent_id q, sq_public_run_intent_id q})
               (run_projection_outbox r)
        then (Conflict, r, None)
      else (Accepted,
        r\<lparr>run_st := failure_status (sq_status q),
          run_terminal_reason := Some (sq_terminal_reason q),
          run_cancellation_cause := sq_cancellation_cause q,
          run_projection_state := ProjPending,
          run_projection_outbox := run_projection_outbox r @ failure_intents jsontime r q,
          run_processed_command_ids := run_processed_command_ids r @ [sq_command_id q],
          run_state_version := run_state_version r + 1,
          run_updated_at := sq_created_at q\<rparr>,
        Some (failure_event r q)))"

section \<open>The projection-intent state machine\<close>

definition intent_transitions :: "intent_status \<Rightarrow> intent_status set" where
  "intent_transitions s = (case s of
      IntPending \<Rightarrow> {IntClaimed, IntBlocked}
    | IntClaimed \<Rightarrow> {IntPending, IntCompleted, IntBlocked}
    | IntCompleted \<Rightarrow> {} | IntBlocked \<Rightarrow> {})"

datatype intent_exn =
    IllegalTransition intent_status intent_status
  | ClaimNeedsOwnerAndLease | BlockNeedsReason

definition transition_intent ::
  "projection_intent \<Rightarrow> intent_status \<Rightarrow> string option \<Rightarrow> datetime option \<Rightarrow> string option
     \<Rightarrow> datetime option \<Rightarrow> intent_exn + projection_intent" where
  "transition_intent i to owner expires blocked_reason next_attempt =
     (if to \<notin> intent_transitions (pi_status i) then Inl (IllegalTransition (pi_status i) to)
      else if to = IntClaimed \<and> (owner = None \<or> expires = None) then Inl ClaimNeedsOwnerAndLease
      else if to = IntBlocked \<and> \<not> truthy_str blocked_reason then Inl BlockNeedsReason
      else Inr (i\<lparr>pi_status := to,
        pi_blocked_reason := (if to = IntBlocked then blocked_reason else None),
        pi_claim_owner := (if to = IntClaimed then owner else None),
        pi_claim_expires_at := (if to = IntClaimed then expires else None),
        pi_attempt_count := pi_attempt_count i + (if to = IntClaimed then 1 else 0),
        pi_next_attempt_at := next_attempt\<rparr>))"

section \<open>Settlement of the outbox\<close>

definition evaluate_projection_settlement :: "projection_intent list \<Rightarrow> projection_state" where
  "evaluate_projection_settlement is =
     (let required = filter pi_required is in
      if required = [] then ProjPending
      else if list_ex (\<lambda>i. pi_status i = IntBlocked) required then ProjBlocked
      else if list_ex (\<lambda>i. pi_status i \<noteq> IntCompleted) required then ProjPending
      else ProjSettled)"

definition intent_group_key :: "projection_intent \<Rightarrow> string \<times> int \<times> string" where
  "intent_group_key i = (pi_event_id i, pi_event_sequence i, pi_causation_id i)"

text \<open>Grouping by \<open>setdefault(key, []).append(item)\<close>: keys by first use, items in order.\<close>

definition intent_groups :: "projection_intent list \<Rightarrow> projection_intent list list" where
  "intent_groups is =
     map (\<lambda>k. filter (\<lambda>i. intent_group_key i = k) is) (fromkeys (map intent_group_key is))"

definition payload_is :: "projection_intent \<Rightarrow> string \<Rightarrow> string option \<Rightarrow> bool" where
  "payload_is i k v \<longleftrightarrow> (case map_of (pi_payload i) k of
      None \<Rightarrow> v = None | Some JNull \<Rightarrow> v = None | Some (JStr s) \<Rightarrow> v = Some s | Some _ \<Rightarrow> False)"

definition group_matches :: "run_state \<Rightarrow> projection_intent list \<Rightarrow> bool" where
  "group_matches r items =
     (let required = filter pi_required items;
          kinds = map pi_kind required in
      ''append_orchestrator_event'' \<in> set kinds \<and> ''project_terminal_run_status'' \<in> set kinds
      \<and> (run_st r = Completed \<longrightarrow> ''deliver_final_message'' \<in> set kinds)
      \<and> list_ex (\<lambda>i. pi_kind i = ''project_terminal_run_status''
           \<and> payload_is i ''status'' (Some (status_name (run_st r)))) required
      \<and> list_ex (\<lambda>i. pi_kind i = ''append_orchestrator_event''
           \<and> payload_is i ''event_type'' (Some (''run_'' @ status_name (run_st r)))) required
      \<and> (run_st r = Completed \<longrightarrow> list_ex (\<lambda>i. pi_kind i = ''deliver_final_message''
           \<and> payload_is i ''message_id'' (run_proposed_final_message_id r)) required))"

definition has_mandatory_terminal_intents :: "run_state \<Rightarrow> bool" where
  "has_mandatory_terminal_intents r \<longleftrightarrow>
     length (filter (group_matches r) (intent_groups (run_projection_outbox r))) = 1"

definition transition_after_terminal_evaluation ::
  "run_state \<Rightarrow> decision_evaluation \<Rightarrow> int \<Rightarrow> datetime \<Rightarrow> outcome \<times> run_state" where
  "transition_after_terminal_evaluation r ev expected now =
     (if expected \<noteq> run_state_version r then (Conflict, r)
      else if run_st r = Canceling \<or> is_terminal_status (run_st r) then (Conflict, r)
      else case (case de_decision ev of TdWaitingExternal \<Rightarrow> Some WaitingExternal
                  | TdAwaitingUser \<Rightarrow> Some AwaitingUser | _ \<Rightarrow> None) of
          None \<Rightarrow> (Conflict, r)
        | Some target \<Rightarrow>
            if run_st r = target then (Replayed, r)
            else (Accepted, r\<lparr>run_st := target, run_state_version := run_state_version r + 1,
                   run_updated_at := now\<rparr>))"

definition transition_projection_settlement ::
  "run_state \<Rightarrow> int \<Rightarrow> datetime \<Rightarrow> outcome \<times> run_state" where
  "transition_projection_settlement r expected now =
     (if expected \<noteq> run_state_version r then (Conflict, r)
      else if \<not> is_terminal_status (run_st r) then (Conflict, r)
      else let st = (if has_mandatory_terminal_intents r
                     then evaluate_projection_settlement (run_projection_outbox r)
                     else ProjPending) in
        if st = run_projection_state r then (Replayed, r)
        else (Accepted, r\<lparr>run_projection_state := st,
               run_state_version := run_state_version r + 1, run_updated_at := now\<rparr>))"

end
