(* ===== verification/Terminal_Commit.thy ===== *)
theory Terminal_Commit
  imports Settlement
begin

text \<open>
  The contract of a terminal commit as a locale, interpreted on the three commits of
  \<open>settlement.py\<close>: the successful one, the other one, and their race. Then what the commits do to
  the aggregate: the completion gates, the validator of the committed Run, the event sequence,
  and the outbox facts that settlement later looks for.
\<close>

section \<open>The contract\<close>

locale terminal_commit =
  fixes commit :: "'q \<Rightarrow> run_state \<Rightarrow> outcome \<times> run_state"
    and command :: "'q \<Rightarrow> string"
    and expected :: "'q \<Rightarrow> int"
  assumes replayed: "command q \<in> set (run_processed_command_ids r) \<Longrightarrow> commit q r = (Replayed, r)"
    and refused_same: "commit q r = (oc, r') \<Longrightarrow> oc \<noteq> Accepted \<Longrightarrow> r' = r"
    and accepted: "commit q r = (Accepted, r') \<Longrightarrow>
      expected q = run_state_version r \<and> \<not> is_terminal_status (run_st r)
      \<and> is_terminal_status (run_st r') \<and> run_state_version r' = run_state_version r + 1
      \<and> run_processed_command_ids r' = run_processed_command_ids r @ [command q]"

text \<open>A history of commit attempts on one aggregate: the outcomes and the final aggregate.\<close>

fun commit_all :: "('q \<Rightarrow> run_state \<Rightarrow> outcome \<times> run_state) \<Rightarrow> run_state \<Rightarrow> 'q list
    \<Rightarrow> outcome list \<times> run_state" where
  "commit_all c r [] = ([], r)"
| "commit_all c r (q # qs) =
     (let (oc, r') = c q r; (ocs, r'') = commit_all c r' qs in (oc # ocs, r''))"

context terminal_commit begin

lemma terminal_absorbs: "is_terminal_status (run_st r) \<Longrightarrow> commit q r = (oc, r') \<Longrightarrow> oc \<noteq> Accepted \<and> r' = r"
  using accepted [of q r r'] refused_same [of q r oc r'] by (cases "oc = Accepted") auto

lemma commit_all_terminal:
  "is_terminal_status (run_st r) \<Longrightarrow>
     snd (commit_all commit r qs) = r \<and> Accepted \<notin> set (fst (commit_all commit r qs))"
proof (induction qs)
  case Nil
  then show ?case by simp
next
  case (Cons q qs)
  obtain oc r' where c: "commit q r = (oc, r')" by force
  from terminal_absorbs [OF Cons.prems c] Cons c show ?case by (auto split: prod.splits)
qed

lemma refused_all:
  "Accepted \<in> set (fst (commit_all commit r qs)) \<or> snd (commit_all commit r qs) = r"
proof (induction qs arbitrary: r)
  case Nil
  then show ?case by simp
next
  case (Cons q qs)
  obtain oc r' where c: "commit q r = (oc, r')" by force
  with Cons [of r'] refused_same [OF c] show ?case by (auto split: prod.splits)
qed

lemma one_winner: "length (filter ((=) Accepted) (fst (commit_all commit r qs))) \<le> 1"
proof (induction qs arbitrary: r)
  case Nil
  then show ?case by simp
next
  case (Cons q qs)
  obtain oc r' where c: "commit q r = (oc, r')" by force
  show ?case
  proof (cases "oc = Accepted")
    case True
    with c accepted have "is_terminal_status (run_st r')" by blast
    from commit_all_terminal [OF this, of qs] c True show ?thesis
      by (auto simp: filter_empty_conv split: prod.splits)
  next
    case False
    with c Cons [of r'] show ?thesis by (auto split: prod.splits)
  qed
qed

lemma retry_is_replayed:
  assumes "commit q r = (Accepted, r')"
  shows "commit q (snd (commit_all commit r' qs)) = (Replayed, snd (commit_all commit r' qs))"
proof -
  from accepted [OF assms] have t: "is_terminal_status (run_st r')"
    and "command q \<in> set (run_processed_command_ids r')" by auto
  then show ?thesis using replayed commit_all_terminal [OF t] by simp
qed

lemma version_counts_winner:
  "run_state_version (snd (commit_all commit r qs))
     = run_state_version r + (if Accepted \<in> set (fst (commit_all commit r qs)) then 1 else 0)"
proof (induction qs arbitrary: r)
  case Nil
  then show ?case by simp
next
  case (Cons q qs)
  obtain oc r' where c: "commit q r = (oc, r')" by force
  show ?case
  proof (cases "oc = Accepted")
    case True
    with c accepted have t: "is_terminal_status (run_st r')"
      and "run_state_version r' = run_state_version r + 1" by blast+
    with commit_all_terminal [OF t, of qs] c True show ?thesis by (auto split: prod.splits)
  next
    case False
    with c Cons [of r'] refused_same show ?thesis by (fastforce split: prod.splits)
  qed
qed

end

section \<open>When the commits accept\<close>

lemma evaluate_ready:
  "de_decision (evaluate_terminal_decision r f) = TdReady \<longleftrightarrow>
     \<not> tf_cancellation_won f \<and> run_st r \<noteq> Canceling \<and> \<not> is_terminal_status (run_st r)
     \<and> run_proposed_final_message_id r = Some (tf_final_message_id f)
     \<and> (\<exists>final. find_final_message (run_transcript r) (tf_final_message_id f) = Some final
          \<and> list_all (artifact_deliverable r (tf_artifact_checks f)) (artifact_refs_of (am_content final)))
     \<and> list_all (\<lambda>e. be_state e \<in> {EsTerminal, EsInvalid, EsAcceptanceFailed, EsSkipped})
         (run_entries r)
     \<and> public_terminals_complete r \<and> tf_terminal_observations_persisted f"
proof -
  have st: "list_all (\<lambda>e. be_state e \<in> {EsTerminal, EsInvalid, EsAcceptanceFailed, EsSkipped}) es
      \<longleftrightarrow> \<not> list_ex (\<lambda>s. s \<in> {EsInputRequired, EsAuthRequired}) (map be_state es)
        \<and> \<not> list_ex (\<lambda>s. s \<in> {EsPending, EsAccepted, EsExecuting, EsWaitingExternal}) (map be_state es)"
    for es
  proof (induction es)
    case Nil
    then show ?case by simp
  next
    case (Cons e es)
    then show ?case by (cases "be_state e") auto
  qed
  have fn: "List.find (\<lambda>ref. \<not> artifact_deliverable r cs ref) xs = None
      \<longleftrightarrow> list_all (artifact_deliverable r cs) xs" for cs xs
    by (simp add: find_None list_all_iff)
  have rdy: "de_decision (evaluation d x) = TdReady \<longleftrightarrow> d = TdReady" for d x
    by (simp add: evaluation_def)
  have canc: "is_terminal_status Canceled" by (simp add: terminal_run_statuses_def)
  show ?thesis
  proof (cases "tf_cancellation_won f \<or> run_st r = Canceling \<or> is_terminal_status (run_st r)
      \<or> run_proposed_final_message_id r \<noteq> Some (tf_final_message_id f)")
    case True
    then show ?thesis
      by (auto simp: evaluate_terminal_decision_def rdy canc split: option.split)
  next
    case False
    with canc have neq: "run_st r \<noteq> Canceled" by auto
    show ?thesis
      unfolding st fn [symmetric]
      using False neq
      by (simp add: evaluate_terminal_decision_def rdy Let_def split: option.split)
  qed
qed

definition decision_fresh :: "run_state \<Rightarrow> commit_request \<Rightarrow> bool" where
  "decision_fresh r q \<longleftrightarrow>
     distinct [cq_event_intent_id q, cq_final_message_intent_id q, cq_public_run_intent_id q]
     \<and> (\<forall>i \<in> set (run_projection_outbox r).
          pi_intent_id i \<notin> {cq_event_intent_id q, cq_final_message_intent_id q, cq_public_run_intent_id q}
          \<and> pi_event_id i \<noteq> cq_event_id q)"

definition decision_commit ::
  "(datetime \<Rightarrow> string) \<Rightarrow> run_state \<Rightarrow> terminal_facts \<Rightarrow> commit_request \<Rightarrow> run_state" where
  "decision_commit jt r f q = r\<lparr>run_st := Completed,
     run_terminal_reason := Some (cq_terminal_reason q), run_projection_state := ProjPending,
     run_projection_outbox := run_projection_outbox r @ completed_intents jt r f q,
     run_processed_command_ids := run_processed_command_ids r @ [cq_command_id q],
     run_state_version := run_state_version r + 1, run_updated_at := cq_created_at q\<rparr>"

lemma commit_decision_cases:
  "cres_outcome (commit_terminal_decision jt r f q) \<noteq> Accepted
     \<and> cres_run (commit_terminal_decision jt r f q) = r
     \<and> cres_event (commit_terminal_decision jt r f q) = None
   \<or> cres_outcome (commit_terminal_decision jt r f q) = Accepted
     \<and> cres_run (commit_terminal_decision jt r f q) = decision_commit jt r f q
     \<and> cres_event (commit_terminal_decision jt r f q) = Some (completed_event r f q)
     \<and> cq_command_id q \<notin> set (run_processed_command_ids r)
     \<and> cq_expected_state_version q = run_state_version r
     \<and> de_decision (evaluate_terminal_decision r f) = TdReady
     \<and> decision_fresh r q
     \<and> (\<exists>al oc. allocate_sequences (run_projection_outbox r) [] = Some al
          \<and> occupy_sequences al [] = Some oc
          \<and> cq_event_sequence q = max_default 0 (map fst oc) + 1)"
proof -
  note d = commit_terminal_decision_def [of jt r f q]
  consider (a) "cq_command_id q \<in> set (run_processed_command_ids r)"
    | (b) "cq_command_id q \<notin> set (run_processed_command_ids r)"
        "cq_expected_state_version q \<noteq> run_state_version r"
    | (c) "cq_command_id q \<notin> set (run_processed_command_ids r)"
        "cq_expected_state_version q = run_state_version r"
        "de_decision (evaluate_terminal_decision r f) \<noteq> TdReady"
    | (d) "cq_command_id q \<notin> set (run_processed_command_ids r)"
        "cq_expected_state_version q = run_state_version r"
        "de_decision (evaluate_terminal_decision r f) = TdReady"
    by blast
  then show ?thesis
  proof cases
    case d
    have fresh: "decision_fresh r q \<longleftrightarrow>
        \<not> (\<not> distinct [cq_event_intent_id q, cq_final_message_intent_id q, cq_public_run_intent_id q]
           \<or> list_ex (\<lambda>i. pi_intent_id i \<in> set [cq_event_intent_id q, cq_final_message_intent_id q,
                 cq_public_run_intent_id q] \<or> pi_event_id i = cq_event_id q)
               (run_projection_outbox r))"
      by (auto simp: decision_fresh_def list_ex_iff)
    show ?thesis
    proof (cases "decision_fresh r q")
      case False
      with d show ?thesis
        unfolding fresh by (simp add: commit_terminal_decision_def refused_def Let_def)
    next
      case True
      then show ?thesis
        using d unfolding fresh
        by (simp add: commit_terminal_decision_def refused_def Let_def decision_commit_def
            decision_fresh_def split: option.split)
    qed
  qed (simp_all add: commit_terminal_decision_def refused_def Let_def)
qed

definition status_fresh :: "run_state \<Rightarrow> status_request \<Rightarrow> bool" where
  "status_fresh r q \<longleftrightarrow> distinct [sq_event_id q, sq_event_intent_id q, sq_public_run_intent_id q]
     \<and> (\<forall>i \<in> set (run_projection_outbox r). pi_event_id i \<noteq> sq_event_id q
          \<and> pi_intent_id i \<notin> {sq_event_intent_id q, sq_public_run_intent_id q})"

definition status_commit :: "(datetime \<Rightarrow> string) \<Rightarrow> run_state \<Rightarrow> status_request \<Rightarrow> run_state" where
  "status_commit jt r q = r\<lparr>run_st := failure_status (sq_status q),
     run_terminal_reason := Some (sq_terminal_reason q),
     run_cancellation_cause := sq_cancellation_cause q, run_projection_state := ProjPending,
     run_projection_outbox := run_projection_outbox r @ failure_intents jt r q,
     run_processed_command_ids := run_processed_command_ids r @ [sq_command_id q],
     run_state_version := run_state_version r + 1, run_updated_at := sq_created_at q\<rparr>"

lemma commit_status_cases:
  "fst (commit_terminal_status jt r q) \<noteq> Accepted
     \<and> snd (commit_terminal_status jt r q) = (r, None)
   \<or> commit_terminal_status jt r q = (Accepted, status_commit jt r q, Some (failure_event r q))
     \<and> sq_command_id q \<notin> set (run_processed_command_ids r)
     \<and> sq_expected_state_version q = run_state_version r \<and> \<not> is_terminal_status (run_st r)
     \<and> (run_st r = Canceling \<longrightarrow> sq_status q = TfCanceled
          \<and> sq_cancellation_cause q = run_cancellation_cause r)
     \<and> public_terminals_complete r \<and> status_fresh r q
     \<and> sq_event_sequence q = max_default 0 (map pi_event_sequence (run_projection_outbox r)) + 1"
proof -
  have fresh: "status_fresh r q \<longleftrightarrow>
      \<not> (\<not> distinct [sq_event_id q, sq_event_intent_id q, sq_public_run_intent_id q]
         \<or> list_ex (\<lambda>i. pi_event_id i = sq_event_id q
              \<or> pi_intent_id i \<in> {sq_event_intent_id q, sq_public_run_intent_id q})
             (run_projection_outbox r))"
    by (auto simp: status_fresh_def list_ex_iff)
  show ?thesis unfolding fresh
    by (simp add: commit_terminal_status_def status_commit_def)
qed

text \<open>The race of both commits over one aggregate.\<close>

datatype any_request = SuccessCommit terminal_facts commit_request | FailureCommit status_request

definition commit_success ::
  "(datetime \<Rightarrow> string) \<Rightarrow> terminal_facts \<times> commit_request \<Rightarrow> run_state \<Rightarrow> outcome \<times> run_state" where
  "commit_success jt = (\<lambda>(f, q) r. let c = commit_terminal_decision jt r f q in
     (cres_outcome c, cres_run c))"

definition commit_failure ::
  "(datetime \<Rightarrow> string) \<Rightarrow> status_request \<Rightarrow> run_state \<Rightarrow> outcome \<times> run_state" where
  "commit_failure jt q r = (case commit_terminal_status jt r q of (oc, r', _) \<Rightarrow> (oc, r'))"

fun commit_any :: "(datetime \<Rightarrow> string) \<Rightarrow> any_request \<Rightarrow> run_state \<Rightarrow> outcome \<times> run_state" where
  "commit_any jt (SuccessCommit f q) r = commit_success jt (f, q) r"
| "commit_any jt (FailureCommit q) r = commit_failure jt q r"

fun any_command :: "any_request \<Rightarrow> string" where
  "any_command (SuccessCommit f q) = cq_command_id q"
| "any_command (FailureCommit q) = sq_command_id q"

fun any_expected :: "any_request \<Rightarrow> int" where
  "any_expected (SuccessCommit f q) = cq_expected_state_version q"
| "any_expected (FailureCommit q) = sq_expected_state_version q"

lemma failure_status_terminal [simp]: "is_terminal_status (failure_status t)"
  by (cases t) (simp_all add: failure_status_def terminal_run_statuses_def)

interpretation success: terminal_commit "commit_success jt" "\<lambda>(f, q). cq_command_id q"
  "\<lambda>(f, q). cq_expected_state_version q" for jt
proof
  fix q :: "terminal_facts \<times> commit_request" and r r' :: run_state and oc
  obtain f c where q: "q = (f, c)" by force
  note cases = commit_decision_cases [of jt r f c]
  show "(case q of (f, q) \<Rightarrow> cq_command_id q) \<in> set (run_processed_command_ids r)
      \<Longrightarrow> commit_success jt q r = (Replayed, r)"
    by (simp add: q commit_success_def commit_terminal_decision_def refused_def)
  show "commit_success jt q r = (oc, r') \<Longrightarrow> oc \<noteq> Accepted \<Longrightarrow> r' = r"
    using cases by (auto simp: q commit_success_def Let_def)
  assume "commit_success jt q r = (Accepted, r')"
  with cases show "(case q of (f, q) \<Rightarrow> cq_expected_state_version q) = run_state_version r
      \<and> \<not> is_terminal_status (run_st r)
      \<and> is_terminal_status (run_st r') \<and> run_state_version r' = run_state_version r + 1
      \<and> run_processed_command_ids r' =
        run_processed_command_ids r @ [case q of (f, q) \<Rightarrow> cq_command_id q]"
    by (auto simp: q commit_success_def Let_def decision_commit_def evaluate_ready
        terminal_run_statuses_def)
qed

interpretation failure: terminal_commit "commit_failure jt" sq_command_id
  sq_expected_state_version for jt
proof
  fix q :: status_request and r r' :: run_state and oc
  note cases = commit_status_cases [of jt r q]
  show "sq_command_id q \<in> set (run_processed_command_ids r)
      \<Longrightarrow> commit_failure jt q r = (Replayed, r)"
    by (simp add: commit_failure_def commit_terminal_status_def)
  show "commit_failure jt q r = (oc, r') \<Longrightarrow> oc \<noteq> Accepted \<Longrightarrow> r' = r"
    using cases by (auto simp: commit_failure_def split: prod.splits)
  assume "commit_failure jt q r = (Accepted, r')"
  with cases show "sq_expected_state_version q = run_state_version r
      \<and> \<not> is_terminal_status (run_st r)
      \<and> is_terminal_status (run_st r') \<and> run_state_version r' = run_state_version r + 1
      \<and> run_processed_command_ids r' = run_processed_command_ids r @ [sq_command_id q]"
    by (auto simp: commit_failure_def status_commit_def split: prod.splits)
qed

interpretation race: terminal_commit "commit_any jt" any_command any_expected for jt
proof
  fix q :: any_request and r r' :: run_state and oc
  show "any_command q \<in> set (run_processed_command_ids r) \<Longrightarrow> commit_any jt q r = (Replayed, r)"
    using success.replayed [of "(f, c)" r jt for f c] failure.replayed by (cases q) auto
  show "commit_any jt q r = (oc, r') \<Longrightarrow> oc \<noteq> Accepted \<Longrightarrow> r' = r"
    using success.refused_same failure.refused_same by (cases q) auto
  assume "commit_any jt q r = (Accepted, r')"
  then show "any_expected q = run_state_version r \<and> \<not> is_terminal_status (run_st r)
      \<and> is_terminal_status (run_st r') \<and> run_state_version r' = run_state_version r + 1
      \<and> run_processed_command_ids r' = run_processed_command_ids r @ [any_command q]"
    using success.accepted [of jt "(f, c)" r r' for f c] failure.accepted [of jt _ r r']
    by (cases q) (auto simp del: commit_success_def)
qed

end
