(* ===== verification/Commit_Properties.thy ===== *)
theory Commit_Properties
  imports Terminal_Commit
begin

text \<open>
  What the terminal commits promise: one winner, exact completion gates, a committed Run that the
  store's validator accepts, a gap-free event sequence, and an outbox that settlement recognises.
\<close>

section \<open>The allocation loops\<close>

text \<open>Both loops of the source are one loop over pairs that fails on a second value for a key.\<close>

fun insert_all :: "('k \<times> 'v) list \<Rightarrow> ('k \<times> 'v) list \<Rightarrow> ('k \<times> 'v) list option" where
  "insert_all [] d = Some d"
| "insert_all ((k, v) # xs) d = (case map_of d k of
      None \<Rightarrow> insert_all xs (d @ [(k, v)])
    | Some w \<Rightarrow> if w \<noteq> v then None else insert_all xs d)"

definition functional :: "('k \<times> 'v) set \<Rightarrow> bool" where
  "functional R \<longleftrightarrow> (\<forall>p \<in> R. \<forall>q \<in> R. fst p = fst q \<longrightarrow> snd p = snd q)"

lemma functional_set: "distinct (map fst d) \<Longrightarrow> functional (set d)"
  unfolding functional_def by (metis map_of_is_SomeI option.inject prod.collapse)

lemma insert_all_result:
  "distinct (map fst d) \<Longrightarrow> insert_all xs d = Some r \<Longrightarrow>
     set r = set d \<union> set xs \<and> distinct (map fst r)"
proof (induction xs d rule: insert_all.induct)
  case (1 d)
  then show ?case by simp
next
  case (2 k v xs d)
  show ?case
  proof (cases "map_of d k")
    case None
    then have "k \<notin> fst ` set d" by (simp add: map_of_eq_None_iff)
    with 2 None show ?thesis by auto
  next
    case (Some w)
    with 2 have w: "w = v" and r: "insert_all xs d = Some r" by (auto split: if_splits)
    from 2(2) [OF Some] 2(3) w r have "set r = set d \<union> set xs \<and> distinct (map fst r)" by simp
    with map_of_SomeD [OF Some] w show ?thesis by auto
  qed
qed

lemma insert_all_Some_iff:
  "distinct (map fst d) \<Longrightarrow> insert_all xs d \<noteq> None \<longleftrightarrow> functional (set d \<union> set xs)"
proof (induction xs d rule: insert_all.induct)
  case (1 d)
  then show ?case by (simp add: functional_set)
next
  case (2 k v xs d)
  show ?case
  proof (cases "map_of d k")
    case None
    then have "k \<notin> fst ` set d" by (simp add: map_of_eq_None_iff)
    with 2(1) [OF None] 2(3) None show ?thesis by simp
  next
    case (Some w)
    note m = map_of_SomeD [OF Some]
    show ?thesis
    proof (cases "w = v")
      case True
      with m have "set d \<union> set ((k, v) # xs) = set d \<union> set xs" by auto
      with 2(2) [OF Some] 2(3) True Some show ?thesis by simp
    next
      case False
      have "(k, w) \<in> set d \<union> set ((k, v) # xs)" "(k, v) \<in> set d \<union> set ((k, v) # xs)"
        using m by auto
      with False have "\<not> functional (set d \<union> set ((k, v) # xs))"
        unfolding functional_def by (metis fst_conv snd_conv)
      with False Some show ?thesis by simp
    qed
  qed
qed

lemma allocate_insert_all:
  "allocate_sequences is d = insert_all (map (\<lambda>i. (pi_event_id i, pi_event_sequence i)) is) d"
  by (induction "is" d rule: allocate_sequences.induct) (auto split: option.split)

lemma occupy_insert_all: "occupy_sequences xs d = insert_all (map (\<lambda>(e, n). (n, e)) xs) d"
  by (induction xs d rule: occupy_sequences.induct) (auto split: option.split)

definition outbox_consistent :: "projection_intent list \<Rightarrow> bool" where
  "outbox_consistent is \<longleftrightarrow> (\<forall>i \<in> set is. \<forall>j \<in> set is.
     pi_event_id i = pi_event_id j \<longleftrightarrow> pi_event_sequence i = pi_event_sequence j)"

lemma allocation_exact:
  "(\<exists>al oc. allocate_sequences is [] = Some al \<and> occupy_sequences al [] = Some oc)
     \<longleftrightarrow> outbox_consistent is"
proof -
  let ?ps = "map (\<lambda>i. (pi_event_id i, pi_event_sequence i)) is"
  have al: "set al = set ?ps" if "allocate_sequences is [] = Some al" for al
    using that insert_all_result [of "[]" ?ps al] by (simp add: allocate_insert_all)
  have ex: "(\<exists>al. allocate_sequences is [] = Some al) \<longleftrightarrow> functional (set ?ps)"
    using insert_all_Some_iff [of "[]" ?ps] by (simp add: allocate_insert_all)
  have oc: "(\<exists>oc. occupy_sequences al [] = Some oc) \<longleftrightarrow> functional ((\<lambda>(e, n). (n, e)) ` set ?ps)"
    if "allocate_sequences is [] = Some al" for al
    using insert_all_Some_iff [of "[]" "map (\<lambda>(e, n). (n, e)) al"] al [OF that]
    by (simp add: occupy_insert_all)
  have "outbox_consistent is \<longleftrightarrow> functional (set ?ps) \<and> functional ((\<lambda>(e, n). (n, e)) ` set ?ps)"
    unfolding outbox_consistent_def functional_def set_map ball_simps fst_conv snd_conv
      case_prod_conv by blast
  with ex oc show ?thesis by blast
qed

lemma occupied_sequences:
  assumes "allocate_sequences is [] = Some al" and "occupy_sequences al [] = Some oc"
  shows "fst ` set oc = pi_event_sequence ` set is"
proof -
  from insert_all_result [OF _ assms(1) [unfolded allocate_insert_all]]
  have al: "set al = (\<lambda>i. (pi_event_id i, pi_event_sequence i)) ` set is" by simp
  from insert_all_result [OF _ assms(2) [unfolded occupy_insert_all]]
  have "set oc = (\<lambda>(e, n). (n, e)) ` set al" by simp
  then show ?thesis by (simp add: al image_image)
qed

lemma max_default_set:
  assumes "set xs = set ys" shows "max_default d xs = max_default d ys"
proof (cases "xs = []")
  case True
  with assms show ?thesis by simp
next
  case False
  with assms have n: "ys \<noteq> []" by auto
  from False n assms max_default_in [of xs d] max_default_in [of ys d]
    max_default_upper [of "max_default d xs" ys d] max_default_upper [of "max_default d ys" xs d]
  show ?thesis by auto
qed

section \<open>One winner\<close>

text \<open>
  C1: A Run has one terminal winner. Whatever sequence of successful, failed, canceled and
  exhausted commits is attempted on an aggregate, with any expected versions and command ids, at
  most one is accepted; the version has moved by exactly that one; and once the Run is terminal
  no further commit is accepted or changes it.
\<close>

theorem terminal_commit_wins_once:
  "length (filter ((=) Accepted) (fst (commit_all (commit_any jt) r qs)))
     \<le> (if is_terminal_status (run_st r) then 0 else 1)
   \<and> run_state_version (snd (commit_all (commit_any jt) r qs)) = run_state_version r
       + (if Accepted \<in> set (fst (commit_all (commit_any jt) r qs)) then 1 else 0)
   \<and> (snd (commit_all (commit_any jt) r qs) = r
       \<or> Accepted \<in> set (fst (commit_all (commit_any jt) r qs)))"
proof (cases "is_terminal_status (run_st r)")
  case True
  from race.commit_all_terminal [OF this] race.version_counts_winner [of jt r qs] True
  show ?thesis by (auto simp: filter_empty_conv)
next
  case False
  with race.one_winner [of jt r qs] race.version_counts_winner [of jt r qs]
    race.refused_all [of jt r qs] show ?thesis by auto
qed

definition sample_facts :: terminal_facts where
  "sample_facts = \<lparr>tf_final_message_id = ''m2'', tf_terminal_observations_persisted = True,
     tf_cancellation_won = False, tf_artifact_checks = [\<lparr>ac_artifact_ref = ''art'', ac_exists = True,
       ac_belongs_to_run = True, ac_belongs_to_room = True, ac_deliverable = True\<rparr>]\<rparr>"

definition sample_commit :: commit_request where
  "sample_commit = \<lparr>cq_expected_state_version = 7, cq_command_id = ''c1'', cq_event_id = ''e1'',
     cq_event_sequence = 1, cq_event_intent_id = ''i1'', cq_final_message_intent_id = ''i2'',
     cq_public_run_intent_id = ''i3'', cq_final_message_target = ''room'',
     cq_public_run_target = ''run'', cq_terminal_reason = ''done'', cq_correlation_id = None,
     cq_created_at = 1234567\<rparr>"

definition sample_failure :: status_request where
  "sample_failure = \<lparr>sq_expected_state_version = 7, sq_command_id = ''c2'', sq_event_id = ''e2'',
     sq_event_sequence = 1, sq_event_intent_id = ''i4'', sq_public_run_intent_id = ''i5'',
     sq_public_run_target = ''run'', sq_status = TfFailed, sq_terminal_reason = ''failed'',
     sq_cancellation_cause = None, sq_correlation_id = None, sq_created_at = 1234567\<rparr>"

lemmas sample_commit_defs = sample_facts_def sample_commit_def sample_failure_def

lemma sample_ready: "de_decision (evaluate_terminal_decision sample_run sample_facts) = TdReady"
  by (simp add: evaluate_ready sample_defs sample_commit_defs run_entries_def
      public_terminals_complete_def artifact_deliverable_def artifact_check_for_def
      terminal_run_statuses_def)

lemma sample_commit_accepted:
  "cres_outcome (commit_terminal_decision jt sample_run sample_facts sample_commit) = Accepted"
  using sample_ready
  by (simp add: commit_terminal_decision_def Let_def sample_run_def sample_commit_def)

lemma sample_success:
  "commit_any jt (SuccessCommit sample_facts sample_commit) sample_run
     = (Accepted, decision_commit jt sample_run sample_facts sample_commit)"
  using commit_decision_cases [of jt sample_run sample_facts sample_commit]
  by (simp add: sample_commit_accepted commit_success_def Let_def)

text \<open>
  A retried commit is a replay. After a commit was accepted, the same request (and any request
  carrying its command id) answers \<open>replayed\<close> and changes nothing, whatever other commits were
  attempted in between.
\<close>

theorem accepted_commit_replays:
  assumes "commit_any jt q r = (Accepted, r')" and "any_command q' = any_command q"
  shows "commit_any jt q' (snd (commit_all (commit_any jt) r' qs))
     = (Replayed, snd (commit_all (commit_any jt) r' qs))"
proof -
  from race.accepted [OF assms(1)] have "is_terminal_status (run_st r')"
    and p: "any_command q \<in> set (run_processed_command_ids r')" by auto
  then have "snd (commit_all (commit_any jt) r' qs) = r'"
    using race.commit_all_terminal by blast
  with p assms(2) show ?thesis by (simp add: race.replayed)
qed

theorem accepted_commit_replays_witness:
  "commit_any (\<lambda>t. []) (SuccessCommit sample_facts sample_commit)
     (snd (commit_all (commit_any (\<lambda>t. []))
        (decision_commit (\<lambda>t. []) sample_run sample_facts sample_commit)
        [FailureCommit sample_failure]))
   = (Replayed, snd (commit_all (commit_any (\<lambda>t. []))
        (decision_commit (\<lambda>t. []) sample_run sample_facts sample_commit)
        [FailureCommit sample_failure]))"
  by (rule accepted_commit_replays [OF sample_success refl])

section \<open>Exact gates\<close>

lemma expected_sequence:
  assumes "allocate_sequences is [] = Some al" and "occupy_sequences al [] = Some oc"
  shows "max_default 0 (map fst oc) = max_default 0 (map pi_event_sequence is)"
  by (rule max_default_set) (use occupied_sequences [OF assms] in simp)

lemma commit_decision_accepted_iff:
  "cres_outcome (commit_terminal_decision jt r f q) = Accepted \<longleftrightarrow>
     cq_command_id q \<notin> set (run_processed_command_ids r)
     \<and> cq_expected_state_version q = run_state_version r
     \<and> de_decision (evaluate_terminal_decision r f) = TdReady \<and> decision_fresh r q
     \<and> outbox_consistent (run_projection_outbox r)
     \<and> cq_event_sequence q = max_default 0 (map pi_event_sequence (run_projection_outbox r)) + 1"
    (is "?L \<longleftrightarrow> ?R")
proof
  assume ?L
  with commit_decision_cases [of jt r f q] obtain al oc
    where g: "cq_command_id q \<notin> set (run_processed_command_ids r)"
        "cq_expected_state_version q = run_state_version r"
        "de_decision (evaluate_terminal_decision r f) = TdReady" "decision_fresh r q"
      and a: "allocate_sequences (run_projection_outbox r) [] = Some al"
      and o: "occupy_sequences al [] = Some oc"
      and s: "cq_event_sequence q = max_default 0 (map fst oc) + 1" by blast
  from a o allocation_exact have "outbox_consistent (run_projection_outbox r)" by blast
  with g s expected_sequence [OF a o] show ?R by simp
next
  assume R: ?R
  then obtain al oc where a: "allocate_sequences (run_projection_outbox r) [] = Some al"
    and o: "occupy_sequences al [] = Some oc" using allocation_exact by blast
  from R have "distinct [cq_event_intent_id q, cq_final_message_intent_id q,
      cq_public_run_intent_id q]"
    and "\<not> list_ex (\<lambda>i. pi_intent_id i \<in> set [cq_event_intent_id q, cq_final_message_intent_id q,
             cq_public_run_intent_id q] \<or> pi_event_id i = cq_event_id q) (run_projection_outbox r)"
    by (auto simp: decision_fresh_def list_ex_iff)
  with R a o expected_sequence [OF a o] show ?L
    by (simp add: commit_terminal_decision_def Let_def)
qed

text \<open>
  C5: The successful commit is accepted under exactly its gates: a new command at the current
  version; no cancellation and no earlier terminal status; a proposed final message that is in the
  transcript and whose artifacts all exist, belong to the Run and the room and can be delivered;
  every Tool entry closed and, where it was accepted, publicly terminal; every observation
  persisted; fresh event and intent identities; an outbox whose event ids and sequences determine
  each other; and the next free event sequence.
\<close>

theorem success_commit_gates:
  "cres_outcome (commit_terminal_decision jt r f q) = Accepted \<longleftrightarrow>
     cq_command_id q \<notin> set (run_processed_command_ids r)
     \<and> cq_expected_state_version q = run_state_version r
     \<and> \<not> tf_cancellation_won f
     \<and> run_st r \<in> {Queued, Running, WaitingExternal, AwaitingUser, Finalizing}
     \<and> run_proposed_final_message_id r = Some (tf_final_message_id f)
     \<and> (\<exists>final. find_final_message (run_transcript r) (tf_final_message_id f) = Some final
          \<and> list_all (artifact_deliverable r (tf_artifact_checks f)) (artifact_refs_of (am_content final)))
     \<and> list_all (\<lambda>e. be_state e \<in> {EsTerminal, EsInvalid, EsAcceptanceFailed, EsSkipped}
          \<and> (be_acceptance e = None \<or> be_public_terminal_emitted e)) (run_entries r)
     \<and> tf_terminal_observations_persisted f
     \<and> distinct [cq_event_intent_id q, cq_final_message_intent_id q, cq_public_run_intent_id q]
     \<and> list_all (\<lambda>i. pi_intent_id i \<notin> {cq_event_intent_id q, cq_final_message_intent_id q,
            cq_public_run_intent_id q} \<and> pi_event_id i \<noteq> cq_event_id q) (run_projection_outbox r)
     \<and> outbox_consistent (run_projection_outbox r)
     \<and> cq_event_sequence q = max_default 0 (map pi_event_sequence (run_projection_outbox r)) + 1"
proof -
  have st: "run_st r \<noteq> Canceling \<and> \<not> is_terminal_status (run_st r)
      \<longleftrightarrow> run_st r \<in> {Queued, Running, WaitingExternal, AwaitingUser, Finalizing}"
    by (cases "run_st r") (simp_all add: terminal_run_statuses_def)
  have en: "list_all (\<lambda>e. be_state e \<in> S \<and> (be_acceptance e = None \<or> be_public_terminal_emitted e))
        (run_entries r)
      \<longleftrightarrow> list_all (\<lambda>e. be_state e \<in> S) (run_entries r) \<and> public_terminals_complete r" for S
    by (auto simp: public_terminals_complete_def list_all_iff)
  have fr: "decision_fresh r q \<longleftrightarrow>
      distinct [cq_event_intent_id q, cq_final_message_intent_id q, cq_public_run_intent_id q]
      \<and> list_all (\<lambda>i. pi_intent_id i \<notin> {cq_event_intent_id q, cq_final_message_intent_id q,
            cq_public_run_intent_id q} \<and> pi_event_id i \<noteq> cq_event_id q) (run_projection_outbox r)"
    unfolding decision_fresh_def list_all_iff ..
  show ?thesis
    unfolding commit_decision_accepted_iff evaluate_ready en st [symmetric] fr by blast
qed

section \<open>The committed Run is a valid Run\<close>

definition closure_complete :: "run_state \<Rightarrow> bool" where
  "closure_complete r \<longleftrightarrow>
     \<not> truthy_str (run_active_internal_turn_id r)
     \<and> \<not> truthy_str (run_active_assistant_message_id r)
     \<and> \<not> truthy_int (run_active_attempt r) \<and> run_active_public_text r = []
     \<and> list_all (\<lambda>e. be_state e = EsTerminal) (run_entries r)
     \<and> list_all tb_results_flushed (run_tool_batches r)"

lemma terminal_error_iff:
  "is_terminal_status (run_st r) \<Longrightarrow> terminal_error r = None \<longleftrightarrow> closure_complete r"
  by (simp add: terminal_error_def closure_complete_def)

lemma valid_run_parts:
  "valid_run r \<longleftrightarrow> run_field_error r = None \<and> distinct (map tb_assistant_message_id (run_tool_batches r))
     \<and> distinct (map be_call_id (run_entries r)) \<and> distinct (run_artifact_refs r)
     \<and> distinct (run_processed_command_ids r)
     \<and> distinct (map pi_intent_id (run_projection_outbox r))
     \<and> distinct (public_call_ids (run_entries r)) \<and> cancellation_error r = None
     \<and> list_all (\<lambda>e. be_acceptance e \<noteq> None \<longrightarrow> truthy_str (be_opaque_public_call_id e)) (run_entries r)
     \<and> run_greatest_public_text_offset r = int (length (run_active_public_text r))
     \<and> terminal_error r = None"
  by (simp add: valid_run_def run_error_def aggregate_error_def)

lemma run_field_error_None_iff:
  "run_field_error r = None \<longleftrightarrow> run_request_error (run_req r) = None
     \<and> profile_error (run_profile r) = None \<and> 1 \<le> cs_revision (run_candidate_scope r)
     \<and> first_error (map message_error (run_transcript r)) = None
     \<and> (case run_tool_catalog r of None \<Rightarrow> None | Some c \<Rightarrow> catalog_error c) = None
     \<and> (case run_resource_manifest r of None \<Rightarrow> None | Some m \<Rightarrow> manifest_error m) = None
     \<and> first_error (map batch_error (run_tool_batches r)) = None
     \<and> budget_error (run_budget r) = None
     \<and> (\<forall>n \<in> set_option (run_compaction_baseline_tokens r). 0 \<le> n)
     \<and> (\<forall>n \<in> set_option (run_active_attempt r). 1 \<le> n)
     \<and> 0 \<le> run_consecutive_model_joins r \<and> 0 \<le> run_greatest_public_text_offset r
     \<and> length (run_active_public_text r) \<le> 32000
     \<and> recovery_claim_error (run_recovery_claim r) = None
     \<and> first_error (map intent_error (run_projection_outbox r)) = None
     \<and> 0 \<le> run_state_version r"
  unfolding run_field_error_def first_error.simps case_error_None require_None by simp

lemma outbox_sequences_positive:
  assumes "run_field_error r = None"
  shows "0 < max_default 0 (map pi_event_sequence (run_projection_outbox r)) + 1"
proof (cases "run_projection_outbox r")
  case Nil
  then show ?thesis by simp
next
  case (Cons i rest)
  from assms have "first_error (map intent_error (run_projection_outbox r)) = None"
    by (simp add: run_field_error_None_iff)
  with Cons have "0 < pi_event_sequence i" by (simp add: intent_error_def)
  moreover have "pi_event_sequence i \<le> max_default 0 (map pi_event_sequence (run_projection_outbox r))"
    by (rule max_default_upper) (simp add: Cons)
  ultimately show ?thesis by simp
qed

lemmas new_intent_defs = completed_intents_def failure_intents_def new_intent_def Let_def

lemma completed_intents_ok:
  "0 < cq_event_sequence q \<Longrightarrow> first_error (map intent_error (completed_intents jt r f q)) = None"
  by (simp add: new_intent_defs intent_error_def completed_event_def)

lemma failure_intents_ok:
  "0 < sq_event_sequence q \<Longrightarrow> first_error (map intent_error (failure_intents jt r q)) = None"
  by (simp add: new_intent_defs intent_error_def failure_event_def)

lemma completed_intent_ids [simp]:
  "map pi_intent_id (completed_intents jt r f q)
     = [cq_event_intent_id q, cq_final_message_intent_id q, cq_public_run_intent_id q]"
  by (simp add: new_intent_defs)

lemma failure_intent_ids [simp]:
  "map pi_intent_id (failure_intents jt r q) = [sq_event_intent_id q, sq_public_run_intent_id q]"
  by (simp add: new_intent_defs)

lemma decision_commit_simps [simp]:
  "run_tool_batches (decision_commit jt r f q) = run_tool_batches r"
  "run_entries (decision_commit jt r f q) = run_entries r"
  "run_projection_outbox (decision_commit jt r f q)
     = run_projection_outbox r @ completed_intents jt r f q"
  "run_st (decision_commit jt r f q) = Completed"
  "run_processed_command_ids (decision_commit jt r f q)
     = run_processed_command_ids r @ [cq_command_id q]"
  by (simp_all add: decision_commit_def run_entries_def)

lemma status_commit_simps [simp]:
  "run_tool_batches (status_commit jt r q) = run_tool_batches r"
  "run_entries (status_commit jt r q) = run_entries r"
  "run_projection_outbox (status_commit jt r q)
     = run_projection_outbox r @ failure_intents jt r q"
  "run_st (status_commit jt r q) = failure_status (sq_status q)"
  "run_processed_command_ids (status_commit jt r q)
     = run_processed_command_ids r @ [sq_command_id q]"
  by (simp_all add: status_commit_def run_entries_def)

lemma closure_complete_commit [simp]:
  "closure_complete (decision_commit jt r f q) \<longleftrightarrow> closure_complete r"
  "closure_complete (status_commit jt r q') \<longleftrightarrow> closure_complete r"
  unfolding closure_complete_def decision_commit_simps status_commit_simps
  by (simp_all add: decision_commit_def status_commit_def)

lemma decision_commit_valid:
  assumes v: "valid_run r" and a: "cres_outcome (commit_terminal_decision jt r f q) = Accepted"
  shows "valid_run (decision_commit jt r f q) \<longleftrightarrow> closure_complete r"
proof -
  from a have g: "cq_command_id q \<notin> set (run_processed_command_ids r)" "decision_fresh r q"
      "cq_event_sequence q = max_default 0 (map pi_event_sequence (run_projection_outbox r)) + 1"
      "run_st r \<noteq> Canceling" "\<not> is_terminal_status (run_st r)"
    by (simp_all add: commit_decision_accepted_iff evaluate_ready)
  from v have f: "run_field_error r = None" by (simp add: valid_run_parts)
  from g(3) outbox_sequences_positive [OF f] have "0 < cq_event_sequence q" by simp
  with f have "run_field_error (decision_commit jt r f q) = None"
    unfolding run_field_error_None_iff
    by (simp add: decision_commit_def first_error_append completed_intents_ok)
  moreover from v g(4,5) have "cancellation_error (decision_commit jt r f q) = None"
    by (auto simp: valid_run_parts cancellation_error_def decision_commit_def
        terminal_run_statuses_def split: if_splits)
  moreover from v g(2) have "distinct (map pi_intent_id (run_projection_outbox (decision_commit jt r f q)))"
    by (fastforce simp: valid_run_parts decision_fresh_def)
  moreover have "terminal_error (decision_commit jt r f q) = None \<longleftrightarrow> closure_complete r"
    by (simp add: terminal_error_iff terminal_run_statuses_def)
  ultimately show ?thesis
    using v g(1) by (simp add: valid_run_parts) (simp add: decision_commit_def)
qed

lemma status_commit_valid:
  assumes v: "valid_run r" and q: "status_request_error q = None"
    and a: "fst (commit_terminal_status jt r q) = Accepted"
  shows "valid_run (status_commit jt r q) \<longleftrightarrow> closure_complete r"
proof -
  from a commit_status_cases [of jt r q] have
      g: "sq_command_id q \<notin> set (run_processed_command_ids r)" "status_fresh r q"
      "sq_event_sequence q = max_default 0 (map pi_event_sequence (run_projection_outbox r)) + 1"
      "\<not> is_terminal_status (run_st r)" "run_st r = Canceling \<longrightarrow> sq_status q = TfCanceled"
    by auto
  from v have f: "run_field_error r = None" by (simp add: valid_run_parts)
  from g(3) outbox_sequences_positive [OF f] have "0 < sq_event_sequence q" by simp
  with f have "run_field_error (status_commit jt r q) = None"
    unfolding run_field_error_None_iff
    by (simp add: status_commit_def first_error_append failure_intents_ok)
  moreover from v q g(4,5) have "cancellation_error (status_commit jt r q) = None"
    by (cases "sq_status q") (auto simp: valid_run_parts cancellation_error_def status_commit_def
        failure_status_def terminal_run_statuses_def status_request_error_def split: if_splits)
  moreover from v g(2) have "distinct (map pi_intent_id (run_projection_outbox (status_commit jt r q)))"
    by (fastforce simp: valid_run_parts status_fresh_def)
  moreover have "terminal_error (status_commit jt r q) = None \<longleftrightarrow> closure_complete r"
    by (simp add: terminal_error_iff)
  ultimately show ?thesis
    using v g(1) by (simp add: valid_run_parts) (simp add: status_commit_def)
qed

fun request_ok :: "any_request \<Rightarrow> bool" where
  "request_ok (SuccessCommit f q) \<longleftrightarrow> True"
| "request_ok (FailureCommit q) \<longleftrightarrow> status_request_error q = None"

fun committed :: "(datetime \<Rightarrow> string) \<Rightarrow> any_request \<Rightarrow> run_state \<Rightarrow> run_state" where
  "committed jt (SuccessCommit f q) r = decision_commit jt r f q"
| "committed jt (FailureCommit q) r = status_commit jt r q"

lemma commit_any_Accepted:
  assumes "commit_any jt q r = (Accepted, r')"
  shows "r' = committed jt q r"
proof (cases q)
  case (SuccessCommit f c)
  with assms commit_decision_cases [of jt r f c] show ?thesis
    by (auto simp: commit_success_def Let_def)
next
  case (FailureCommit c)
  with assms commit_status_cases [of jt r c] show ?thesis
    by (auto simp: commit_failure_def split: prod.splits)
qed

text \<open>
  C4: An accepted commit yields a Run the store can persist exactly when the terminal closure is
  complete. For a valid Run and a validated request, the aggregate the commit returns passes every
  validator of \<open>OrchestratorRunState\<close> (fields, unique identities, cancellation metadata, outbox,
  terminal rules) if and only if no turn, assistant message, attempt or public text is still
  active, every Tool entry is terminal and every batch is flushed.
\<close>

theorem committed_run_valid_iff_closed:
  assumes "valid_run r" and "request_ok q" and "commit_any jt q r = (Accepted, r')"
  shows "valid_run r' \<longleftrightarrow>
     \<not> truthy_str (run_active_internal_turn_id r)
     \<and> \<not> truthy_str (run_active_assistant_message_id r)
     \<and> \<not> truthy_int (run_active_attempt r) \<and> run_active_public_text r = []
     \<and> list_all (\<lambda>e. be_state e = EsTerminal) (run_entries r)
     \<and> list_all tb_results_flushed (run_tool_batches r)"
  unfolding closure_complete_def [symmetric] commit_any_Accepted [OF assms(3)]
proof (cases q)
  case (SuccessCommit f c)
  with assms(3) have "cres_outcome (commit_terminal_decision jt r f c) = Accepted"
    by (simp add: commit_success_def Let_def)
  with SuccessCommit assms(1) show "valid_run (committed jt q r) \<longleftrightarrow> closure_complete r"
    by (simp add: decision_commit_valid)
next
  case (FailureCommit c)
  with assms(3) have "fst (commit_terminal_status jt r c) = Accepted"
    by (simp add: commit_failure_def split: prod.splits)
  with FailureCommit assms(1,2) show "valid_run (committed jt q r) \<longleftrightarrow> closure_complete r"
    by (simp add: status_commit_valid)
qed

lemma sample_closure_complete:
  "run_active_internal_turn_id sample_run = None" "run_active_assistant_message_id sample_run = None"
  "run_active_attempt sample_run = None" "run_active_public_text sample_run = []"
  "list_all (\<lambda>e. be_state e = EsTerminal) (run_entries sample_run)"
  "list_all tb_results_flushed (run_tool_batches sample_run)"
  by (simp_all add: sample_defs run_entries_def)

theorem committed_run_valid_iff_closed_witness:
  "valid_run (decision_commit (\<lambda>t. []) sample_run sample_facts sample_commit)"
  using committed_run_valid_iff_closed [OF sample_run_valid _ sample_success]
  by (simp add: sample_closure_complete truthy_str_def truthy_int_def)

section \<open>The outbox of a terminal commit\<close>

fun request_intents :: "(datetime \<Rightarrow> string) \<Rightarrow> any_request \<Rightarrow> run_state \<Rightarrow> projection_intent list" where
  "request_intents jt (SuccessCommit f q) r = completed_intents jt r f q"
| "request_intents jt (FailureCommit q) r = failure_intents jt r q"

fun request_event_id :: "any_request \<Rightarrow> string" where
  "request_event_id (SuccessCommit f q) = cq_event_id q"
| "request_event_id (FailureCommit q) = sq_event_id q"

lemma committed_outbox:
  "run_projection_outbox (committed jt q r) = run_projection_outbox r @ request_intents jt q r"
  by (cases q) simp_all

lemma commit_any_allocation:
  assumes "commit_any jt q r = (Accepted, r')"
  shows "list_all (\<lambda>i. pi_event_id i = request_event_id q \<and> pi_causation_id i = any_command q
       \<and> pi_event_sequence i = max_default 0 (map pi_event_sequence (run_projection_outbox r)) + 1
       \<and> pi_required i \<and> pi_status i = IntPending \<and> pi_attempt_count i = 0)
       (request_intents jt q r)
     \<and> list_all (\<lambda>i. pi_event_id i \<noteq> request_event_id q) (run_projection_outbox r)"
proof (cases q)
  case (SuccessCommit f c)
  with assms have "cres_outcome (commit_terminal_decision jt r f c) = Accepted"
    by (simp add: commit_success_def Let_def)
  then have "cq_event_sequence c
        = max_default 0 (map pi_event_sequence (run_projection_outbox r)) + 1"
    and "decision_fresh r c" by (simp_all add: commit_decision_accepted_iff)
  with SuccessCommit show ?thesis
    by (auto simp: new_intent_defs completed_event_def decision_fresh_def list_all_iff)
next
  case (FailureCommit c)
  with assms have "fst (commit_terminal_status jt r c) = Accepted"
    by (simp add: commit_failure_def split: prod.splits)
  with commit_status_cases [of jt r c] have "sq_event_sequence c
        = max_default 0 (map pi_event_sequence (run_projection_outbox r)) + 1"
    and "status_fresh r c" by auto
  with FailureCommit show ?thesis
    by (auto simp: new_intent_defs failure_event_def status_fresh_def list_all_iff)
qed

lemma outbox_consistent_append:
  assumes "outbox_consistent is" and "list_all (\<lambda>i. pi_event_id i = e \<and> pi_event_sequence i = n) js"
    and "list_all (\<lambda>i. pi_event_id i \<noteq> e) is" and "n \<notin> pi_event_sequence ` set is"
  shows "outbox_consistent (is @ js)"
  using assms unfolding outbox_consistent_def list_all_iff set_append by (metis UnE image_eqI)

text \<open>
  A terminal commit extends the outbox by one fresh event. The accepted commit appends its
  required, pending, never attempted intents and keeps the earlier ones; they all carry the
  request's event under the next sequence, larger than every allocated one, and if event ids and
  sequences determined each other in the outbox they still do.
\<close>

theorem commit_allocates_next_event:
  assumes "commit_any jt q r = (Accepted, r')" and "outbox_consistent (run_projection_outbox r)"
  shows "run_projection_outbox r' = run_projection_outbox r @ request_intents jt q r
    \<and> list_all (\<lambda>i. pi_event_id i = request_event_id q \<and> pi_causation_id i = any_command q
         \<and> pi_required i \<and> pi_status i = IntPending \<and> pi_attempt_count i = 0
         \<and> list_all (\<lambda>j. pi_event_sequence j < pi_event_sequence i) (run_projection_outbox r))
        (request_intents jt q r)
    \<and> outbox_consistent (run_projection_outbox r')"
proof -
  let ?n = "max_default 0 (map pi_event_sequence (run_projection_outbox r)) + 1"
  note alloc = commit_any_allocation [OF assms(1)]
  have up: "pi_event_sequence j < ?n" if "j \<in> set (run_projection_outbox r)" for j
    using that max_default_upper [of "pi_event_sequence j"] by fastforce
  have "outbox_consistent (run_projection_outbox r @ request_intents jt q r)"
  proof (rule outbox_consistent_append [OF assms(2)])
    show "list_all (\<lambda>i. pi_event_id i = request_event_id q \<and> pi_event_sequence i = ?n)
        (request_intents jt q r)" using alloc by (simp add: list_all_iff)
    show "?n \<notin> pi_event_sequence ` set (run_projection_outbox r)" using up by fastforce
  qed (use alloc in blast)
  with alloc up show ?thesis
    by (simp add: commit_any_Accepted [OF assms(1)] committed_outbox list_all_iff)
qed

theorem commit_allocates_next_event_witness:
  "outbox_consistent (run_projection_outbox
     (decision_commit (\<lambda>t. []) sample_run sample_facts sample_commit))"
  using commit_allocates_next_event [OF sample_success]
  by (simp add: outbox_consistent_def sample_run_def)

end
