(* ===== verification/Intent_Lifecycle.thy ===== *)
theory Intent_Lifecycle
  imports Commit_Properties
begin

text \<open>
  The life of a projection intent under \<open>transition_intent\<close>, as a step relation with its reachable
  intents, and settlement: after a terminal commit, what
  \<open>transition_projection_settlement\<close> makes of the outbox is decided by the delivery states of
  the required intents alone.
\<close>

section \<open>Intent histories\<close>

text \<open>A fresh intent is what \<open>new_intent\<close> makes; a step is one accepted transition.\<close>

definition fresh_intent :: "projection_intent \<Rightarrow> bool" where
  "fresh_intent i \<longleftrightarrow> pi_status i = IntPending \<and> pi_blocked_reason i = None
     \<and> pi_claim_owner i = None \<and> pi_claim_expires_at i = None \<and> pi_attempt_count i = 0"

inductive intent_history :: "projection_intent \<Rightarrow> projection_intent \<Rightarrow> bool" where
  history_start: "intent_history i i"
| history_step: "intent_history i j \<Longrightarrow> transition_intent j to owner expires reason next_at = Inr k
     \<Longrightarrow> intent_history i k"

definition intent_identity :: "projection_intent \<Rightarrow> projection_intent" where
  "intent_identity i = i\<lparr>pi_status := IntPending, pi_blocked_reason := None, pi_claim_owner := None,
     pi_claim_expires_at := None, pi_attempt_count := 0, pi_next_attempt_at := None\<rparr>"

lemma intent_identity_simps [simp]:
  "pi_kind (intent_identity i) = pi_kind i" "pi_required (intent_identity i) = pi_required i"
  "pi_event_id (intent_identity i) = pi_event_id i"
  "pi_event_sequence (intent_identity i) = pi_event_sequence i"
  "pi_causation_id (intent_identity i) = pi_causation_id i"
  "pi_payload (intent_identity i) = pi_payload i"
  "pi_intent_id (intent_identity i) = pi_intent_id i"
  by (simp_all add: intent_identity_def)

lemma transition_intent_Inr_iff:
  "transition_intent i to owner expires reason next_at = Inr k \<longleftrightarrow>
     to \<in> intent_transitions (pi_status i)
     \<and> (to = IntClaimed \<longrightarrow> owner \<noteq> None \<and> expires \<noteq> None)
     \<and> (to = IntBlocked \<longrightarrow> truthy_str reason)
     \<and> k = i\<lparr>pi_status := to, pi_blocked_reason := (if to = IntBlocked then reason else None),
        pi_claim_owner := (if to = IntClaimed then owner else None),
        pi_claim_expires_at := (if to = IntClaimed then expires else None),
        pi_attempt_count := pi_attempt_count i + (if to = IntClaimed then 1 else 0),
        pi_next_attempt_at := next_at\<rparr>"
  by (simp add: transition_intent_def) blast

lemma transition_targets:
  "to \<in> intent_transitions s \<longleftrightarrow> s = IntPending \<and> to \<in> {IntClaimed, IntBlocked}
     \<or> s = IntClaimed \<and> to \<in> {IntPending, IntCompleted, IntBlocked}"
  by (cases s; cases to) (simp_all add: intent_transitions_def)

definition intent_wf :: "projection_intent \<Rightarrow> bool" where
  "intent_wf i \<longleftrightarrow> 0 \<le> pi_attempt_count i
     \<and> (pi_claim_owner i \<noteq> None \<longleftrightarrow> pi_status i = IntClaimed)
     \<and> (pi_claim_expires_at i \<noteq> None \<longleftrightarrow> pi_status i = IntClaimed)
     \<and> (truthy_str (pi_blocked_reason i) \<longleftrightarrow> pi_status i = IntBlocked)
     \<and> (pi_status i \<in> {IntClaimed, IntCompleted} \<longrightarrow> 1 \<le> pi_attempt_count i)"

lemma transition_intent_wf:
  "intent_wf i \<Longrightarrow> transition_intent i to owner expires reason next_at = Inr k \<Longrightarrow>
     intent_wf k \<and> intent_identity k = intent_identity i \<and> pi_attempt_count i \<le> pi_attempt_count k"
  unfolding transition_intent_Inr_iff transition_targets
  by (cases to) (auto simp: intent_wf_def intent_identity_def truthy_str_def)

lemma intent_history_wf:
  "intent_history i j \<Longrightarrow> intent_wf i \<Longrightarrow>
     intent_wf j \<and> intent_identity j = intent_identity i \<and> pi_attempt_count i \<le> pi_attempt_count j"
proof (induction rule: intent_history.induct)
  case (history_start i)
  then show ?case by simp
next
  case (history_step i j to owner expires reason next_at k)
  then have "intent_wf j" by blast
  from transition_intent_wf [OF this history_step.hyps(2)] history_step show ?case by simp
qed

lemma intent_history_absorbs:
  "intent_history i j \<Longrightarrow> pi_status i \<in> {IntCompleted, IntBlocked} \<Longrightarrow> j = i"
proof (induction rule: intent_history.induct)
  case (history_start i)
  then show ?case by simp
next
  case (history_step i j to owner expires reason next_at k)
  then have "pi_status j \<in> {IntCompleted, IntBlocked}" by blast
  with history_step.hyps(2) have False
    unfolding transition_intent_Inr_iff transition_targets by auto
  then show ?case ..
qed

text \<open>
  A projection intent keeps its claim discipline for life. In every history of accepted
  transitions from a fresh intent: it has an owner and a lease exactly while claimed and a reason
  exactly when blocked; it is completed only after a claim; its identity (everything but the
  delivery fields) never changes; and once completed or blocked it changes no more.
\<close>

theorem intent_claim_discipline:
  assumes "fresh_intent i" and "intent_history i j"
  shows "(pi_claim_owner j \<noteq> None \<longleftrightarrow> pi_status j = IntClaimed)
    \<and> (pi_claim_expires_at j \<noteq> None \<longleftrightarrow> pi_status j = IntClaimed)
    \<and> (truthy_str (pi_blocked_reason j) \<longleftrightarrow> pi_status j = IntBlocked)
    \<and> (pi_status j \<in> {IntClaimed, IntCompleted} \<longrightarrow> 1 \<le> pi_attempt_count j)
    \<and> intent_identity j = intent_identity i
    \<and> (pi_status j \<in> {IntCompleted, IntBlocked} \<longrightarrow> (\<forall>k. intent_history j k \<longrightarrow> k = j))"
proof -
  from assms(1) have "intent_wf i" by (simp add: fresh_intent_def intent_wf_def truthy_str_def)
  from intent_history_wf [OF assms(2) this] intent_history_absorbs show ?thesis
    by (simp add: intent_wf_def)
qed

definition sample_intent :: projection_intent where
  "sample_intent = \<lparr>pi_intent_id = ''i'', pi_kind = ''deliver_final_message'', pi_target = ''room'',
     pi_dedupe_key = ''d'', pi_required = True, pi_event_id = ''e'', pi_event_sequence = 1,
     pi_causation_id = ''c'', pi_payload = [], pi_status = IntPending, pi_blocked_reason = None,
     pi_claim_owner = None, pi_claim_expires_at = None, pi_attempt_count = 0,
     pi_next_attempt_at = None\<rparr>"

lemma sample_intent_claim:
  "intent_history sample_intent (sample_intent\<lparr>pi_status := IntClaimed, pi_claim_owner := Some ''w'',
     pi_claim_expires_at := Some 9, pi_attempt_count := 1\<rparr>)"
  by (rule history_step [OF history_start, where to = IntClaimed and owner = "Some ''w''"
        and expires = "Some 9" and reason = None and next_at = None])
    (simp add: transition_intent_Inr_iff transition_targets sample_intent_def)

theorem intent_claim_discipline_witness:
  "(1::int) \<le> pi_attempt_count (sample_intent\<lparr>pi_status := IntClaimed, pi_claim_owner := Some ''w'',
     pi_claim_expires_at := Some 9, pi_attempt_count := 1\<rparr>)"
  using intent_claim_discipline [OF _ sample_intent_claim]
  by (simp add: fresh_intent_def sample_intent_def)

section \<open>Settlement\<close>

lemma fromkeys_replicate: "xs \<noteq> [] \<Longrightarrow> set xs \<subseteq> {k} \<Longrightarrow> fromkeys xs = [k]"
proof -
  assume "xs \<noteq> []" "set xs \<subseteq> {k}"
  then have "set (fromkeys xs) = {k}" by (cases xs) auto
  moreover have "distinct (fromkeys xs)" by simp
  ultimately show ?thesis
    by (cases "fromkeys xs" rule: list.exhaust; cases "tl (fromkeys xs)") auto
qed

lemma intent_groups_append:
  assumes "js \<noteq> []" and "set (map intent_group_key js) \<subseteq> {k}"
    and "k \<notin> set (map intent_group_key is)"
  shows "intent_groups (is @ js) = intent_groups is @ [js]"
proof -
  have "fromkeys (map intent_group_key (is @ js)) = fromkeys (map intent_group_key is) @ [k]"
    using assms fromkeys_replicate [of "map intent_group_key js" k]
    by (auto simp: fromkeys_append)
  moreover have "filter (\<lambda>i. intent_group_key i = k) (is @ js) = js"
  proof -
    from assms(3) have "filter (\<lambda>i. intent_group_key i = k) is = []"
      by (auto simp: filter_empty_conv)
    moreover from assms(2) have "filter (\<lambda>i. intent_group_key i = k) js = js"
      by (auto simp: filter_id_conv)
    ultimately show ?thesis by simp
  qed
  moreover have "filter (\<lambda>i. intent_group_key i = l) (is @ js) = filter (\<lambda>i. intent_group_key i = l) is"
    if "l \<in> set (map intent_group_key is)" for l
    using that assms(2,3) by (auto simp: filter_empty_conv)
  ultimately show ?thesis by (simp add: intent_groups_def)
qed

lemma intent_groups_identity:
  "intent_groups (map intent_identity is) = map (map intent_identity) (intent_groups is)"
proof -
  have k: "intent_group_key (intent_identity i) = intent_group_key i" for i
    by (simp add: intent_group_key_def)
  then show ?thesis by (simp add: intent_groups_def filter_map comp_def)
qed

lemma list_ex_map: "list_ex P (map f xs) = list_ex (\<lambda>x. P (f x)) xs"
  by (induction xs) auto

lemma payload_is_identity: "payload_is (intent_identity i) = payload_is i"
  by (intro ext) (simp add: payload_is_def)

lemma group_matches_identity: "group_matches r (map intent_identity g) = group_matches r g"
  unfolding group_matches_def Let_def filter_map comp_def list_ex_map payload_is_identity
    map_map intent_identity_simps ..

lemma has_mandatory_identity:
  assumes "map intent_identity (run_projection_outbox r) = map intent_identity (run_projection_outbox r')"
    and "run_st r = run_st r'" and "run_proposed_final_message_id r = run_proposed_final_message_id r'"
  shows "has_mandatory_terminal_intents r = has_mandatory_terminal_intents r'"
proof -
  have m: "group_matches r = group_matches r'"
    using assms(2,3) by (intro ext) (simp add: group_matches_def)
  have "length (filter (group_matches s) (intent_groups is))
      = length (filter (group_matches s) (intent_groups (map intent_identity is)))" for s "is"
    by (simp add: intent_groups_identity filter_map comp_def group_matches_identity)
  with m assms(1) show ?thesis unfolding has_mandatory_terminal_intents_def by metis
qed

lemma event_name_of_failure:
  "event_type_name (failure_event_type t) = ''run_'' @ status_name (failure_status t)"
  by (cases t) (simp_all add: event_type_name_def failure_event_type_def status_name_def
      failure_status_def)

lemma request_intents_match:
  assumes "commit_any jt q r = (Accepted, r')"
  shows "group_matches r' (request_intents jt q r)"
proof (cases q)
  case (SuccessCommit f c)
  with assms have "cres_outcome (commit_terminal_decision jt r f c) = Accepted"
    by (simp add: commit_success_def Let_def)
  then have "run_proposed_final_message_id r = Some (tf_final_message_id f)"
    by (simp add: commit_decision_accepted_iff evaluate_ready)
  then show ?thesis
    by (simp add: commit_any_Accepted [OF assms] SuccessCommit new_intent_defs group_matches_def
        payload_is_def event_dump_def completed_event_def canonicalize_event_def
        event_type_name_def status_name_def)
      (simp add: decision_commit_def)
next
  case (FailureCommit c)
  have "failure_status (sq_status c) \<noteq> Completed"
    by (cases "sq_status c") (simp_all add: failure_status_def)
  then show ?thesis
    by (simp add: commit_any_Accepted [OF assms] FailureCommit new_intent_defs group_matches_def
        payload_is_def event_dump_def failure_event_def canonicalize_event_def
        event_name_of_failure)
qed

definition no_terminal_projection :: "projection_intent list \<Rightarrow> bool" where
  "no_terminal_projection is \<longleftrightarrow> list_all (\<lambda>i. pi_kind i \<noteq> ''project_terminal_run_status'') is"

lemma commit_has_mandatory:
  assumes acc: "commit_any jt q r = (Accepted, r')"
    and old: "no_terminal_projection (run_projection_outbox r)"
  shows "has_mandatory_terminal_intents r'"
proof -
  let ?is = "run_projection_outbox r" and ?js = "request_intents jt q r"
  let ?k = "(request_event_id q, max_default 0 (map pi_event_sequence ?is) + 1, any_command q)"
  note alloc = commit_any_allocation [OF acc]
  have "?js \<noteq> []" by (cases q) (simp_all add: new_intent_defs)
  moreover have "set (map intent_group_key ?js) \<subseteq> {?k}"
    using alloc by (auto simp: list_all_iff intent_group_key_def)
  moreover have "?k \<notin> set (map intent_group_key ?is)"
    using alloc by (auto simp: list_all_iff intent_group_key_def)
  ultimately have g: "intent_groups (?is @ ?js) = intent_groups ?is @ [?js]"
    by (rule intent_groups_append)
  have "\<not> group_matches r' g" if "g \<in> set (intent_groups ?is)" for g
  proof -
    from that have "set g \<subseteq> set ?is" by (auto simp: intent_groups_def)
    with old have "''project_terminal_run_status'' \<notin> pi_kind ` set (filter pi_required g)"
      by (auto simp: no_terminal_projection_def list_all_iff)
    then show ?thesis by (simp add: group_matches_def Let_def)
  qed
  then have "filter (group_matches r') (intent_groups ?is) = []" by (simp add: filter_empty_conv)
  with g request_intents_match [OF acc] show ?thesis
    by (simp add: has_mandatory_terminal_intents_def commit_any_Accepted [OF acc] committed_outbox)
qed

lemma request_intents_required:
  assumes "commit_any jt q r = (Accepted, r')"
  shows "filter pi_required (run_projection_outbox r') \<noteq> []"
proof -
  have "filter pi_required (request_intents jt q r) \<noteq> []"
    by (cases q) (simp_all add: new_intent_defs)
  then show ?thesis by (simp add: commit_any_Accepted [OF assms] committed_outbox)
qed

lemma required_identity:
  assumes "map intent_identity is = map intent_identity js" and "filter pi_required js \<noteq> []"
  shows "filter pi_required is \<noteq> []"
proof -
  have f: "map intent_identity (filter pi_required xs) = filter pi_required (map intent_identity xs)"
    for xs by (simp add: filter_map comp_def)
  from assms show ?thesis using f by (metis map_is_Nil_conv)
qed

lemma evaluate_settlement_nonempty:
  "filter pi_required is \<noteq> [] \<Longrightarrow> evaluate_projection_settlement is =
     (if list_ex (\<lambda>i. pi_required i \<and> pi_status i = IntBlocked) is then ProjBlocked
      else if list_all (\<lambda>i. pi_required i \<longrightarrow> pi_status i = IntCompleted) is then ProjSettled
      else ProjPending)"
proof -
  have ex: "list_ex P (filter R xs) = list_ex (\<lambda>x. R x \<and> P x) xs" for P R and xs :: "projection_intent list"
    by (induction xs) auto
  have all: "list_ex (\<lambda>x. R x \<and> \<not> P x) xs = (\<not> list_all (\<lambda>x. R x \<longrightarrow> P x) xs)"
    for P R and xs :: "projection_intent list" by (induction xs) auto
  assume "filter pi_required is \<noteq> []"
  then show ?thesis
    unfolding evaluate_projection_settlement_def Let_def ex all by simp
qed

text \<open>
  Settlement follows delivery. Take the Run an accepted terminal commit left, let the outbox
  be delivered by any transitions of its intents, and settle: the Run's projection state becomes
  blocked if a required intent is blocked, settled if every required intent is completed, and
  pending otherwise; the terminal status does not change; and settling again is a replay.
\<close>

theorem settlement_follows_delivery:
  assumes acc: "commit_any jt q r = (Accepted, r')"
    and old: "no_terminal_projection (run_projection_outbox r)"
    and same: "map intent_identity (run_projection_outbox s) = map intent_identity (run_projection_outbox r')"
      "run_st s = run_st r'" "run_proposed_final_message_id s = run_proposed_final_message_id r'"
    and settle: "transition_projection_settlement s (run_state_version s) now = (oc, s')"
  shows "run_projection_state s' =
       (if list_ex (\<lambda>i. pi_required i \<and> pi_status i = IntBlocked) (run_projection_outbox s)
          then ProjBlocked
        else if list_all (\<lambda>i. pi_required i \<longrightarrow> pi_status i = IntCompleted) (run_projection_outbox s)
          then ProjSettled else ProjPending)
     \<and> oc \<in> {Accepted, Replayed} \<and> run_st s' = run_st r'
     \<and> transition_projection_settlement s' (run_state_version s') later = (Replayed, s')"
proof -
  let ?st = "evaluate_projection_settlement (run_projection_outbox s)"
  have m: "has_mandatory_terminal_intents t"
    if "run_projection_outbox t = run_projection_outbox s" "run_st t = run_st s"
      "run_proposed_final_message_id t = run_proposed_final_message_id s" for t
    unfolding has_mandatory_identity [of t r', unfolded that, OF same]
    by (rule commit_has_mandatory [OF acc old])
  have t: "is_terminal_status (run_st s)" using race.accepted [OF acc] same(2) by simp
  have "filter pi_required (run_projection_outbox s) \<noteq> []"
    by (rule required_identity [OF same(1) request_intents_required [OF acc]])
  note ev = evaluate_settlement_nonempty [OF this]
  from settle m [of s] t have "s' = (if ?st = run_projection_state s then s
      else s\<lparr>run_projection_state := ?st, run_state_version := run_state_version s + 1,
        run_updated_at := now\<rparr>) \<and> oc \<in> {Accepted, Replayed}"
    by (auto simp: transition_projection_settlement_def Let_def split: if_splits)
  moreover have "has_mandatory_terminal_intents s'"
    using calculation by (intro m) auto
  ultimately show ?thesis
    using t same(2) unfolding ev [symmetric]
    by (auto simp: transition_projection_settlement_def Let_def split: if_splits)
qed

text \<open>All three intents of the sample commit delivered.\<close>

definition sample_delivered :: run_state where
  "sample_delivered = (decision_commit (\<lambda>t. []) sample_run sample_facts sample_commit)
     \<lparr>run_projection_outbox := map (\<lambda>i. i\<lparr>pi_status := IntCompleted, pi_attempt_count := 1\<rparr>)
        (completed_intents (\<lambda>t. []) sample_run sample_facts sample_commit)\<rparr>"

theorem settlement_follows_delivery_witness:
  "run_projection_state (snd (transition_projection_settlement sample_delivered 8 9)) = ProjSettled"
proof -
  let ?d = "decision_commit (\<lambda>t. []) sample_run sample_facts sample_commit"
  obtain oc s' where t: "transition_projection_settlement sample_delivered
      (run_state_version sample_delivered) 9 = (oc, s')" by force
  have "run_projection_state s' = ProjSettled"
    using settlement_follows_delivery [OF sample_success _ _ _ _ t]
    by (simp add: sample_delivered_def no_terminal_projection_def sample_run_def new_intent_defs
        intent_identity_def decision_commit_def)
  moreover have "run_state_version sample_delivered = 8"
    by (simp add: sample_delivered_def decision_commit_def sample_run_def)
  ultimately show ?thesis using t by simp
qed

end
