(* ===== verification/Run_Normalize.thy ===== *)
theory Run_Normalize
  imports Run_Events
begin

text \<open>
  \<open>_normalize_run_for_mongo\<close> of \<open>run_store.py\<close>: every timestamp of the aggregate is cut to the
  milliseconds BSON keeps, however deep it sits, and the result is validated. One function per
  contract that holds a timestamp. The lemmas show that the cut is idempotent and that no
  validator sees it, so a Run that was valid is stored as what a later read returns.
\<close>

definition opt_millis :: "datetime option \<Rightarrow> datetime option" where
  "opt_millis = map_option bson_millis"

definition trunc_message :: "agent_message \<Rightarrow> agent_message" where
  "trunc_message m = (case m of
      UserMsg u \<Rightarrow> UserMsg (u\<lparr>um_created_at := bson_millis (um_created_at u)\<rparr>)
    | AssistantMsg a \<Rightarrow> AssistantMsg (a\<lparr>am_created_at := bson_millis (am_created_at a)\<rparr>)
    | ToolResultMsg t \<Rightarrow> ToolResultMsg (t\<lparr>trm_created_at := bson_millis (trm_created_at t)\<rparr>)
    | ToolInteractionMsg t \<Rightarrow>
        ToolInteractionMsg (t\<lparr>tim_created_at := bson_millis (tim_created_at t)\<rparr>)
    | NoticeMsg n \<Rightarrow> NoticeMsg (n\<lparr>sn_created_at := bson_millis (sn_created_at n)\<rparr>))"

definition trunc_invocation :: "tool_invocation \<Rightarrow> tool_invocation" where
  "trunc_invocation i = i\<lparr>ti_deadline_at := bson_millis (ti_deadline_at i)\<rparr>"

definition trunc_acceptance :: "tool_acceptance \<Rightarrow> tool_acceptance" where
  "trunc_acceptance a = a\<lparr>ta_accepted_at := bson_millis (ta_accepted_at a)\<rparr>"

definition trunc_entry :: "batch_entry \<Rightarrow> batch_entry" where
  "trunc_entry e = e\<lparr>be_invocation := map_option trunc_invocation (be_invocation e),
     be_acceptance := map_option trunc_acceptance (be_acceptance e)\<rparr>"

definition trunc_batch :: "tool_batch \<Rightarrow> tool_batch" where
  "trunc_batch b = b\<lparr>tb_entries := map trunc_entry (tb_entries b)\<rparr>"

definition trunc_scope :: "candidate_scope \<Rightarrow> candidate_scope" where
  "trunc_scope c = c\<lparr>cs_resolved_at := bson_millis (cs_resolved_at c),
     cs_authorization_basis := (cs_authorization_basis c)
       \<lparr>ab_checked_at := bson_millis (ab_checked_at (cs_authorization_basis c))\<rparr>\<rparr>"

definition trunc_catalog :: "tool_catalog \<Rightarrow> tool_catalog" where
  "trunc_catalog c = c\<lparr>tcat_created_at := bson_millis (tcat_created_at c)\<rparr>"

definition trunc_budget :: "budget_state \<Rightarrow> budget_state" where
  "trunc_budget b = b\<lparr>bs_deadline_at := bson_millis (bs_deadline_at b),
     bs_suspended_at := opt_millis (bs_suspended_at b)\<rparr>"

definition trunc_claim :: "recovery_claim \<Rightarrow> recovery_claim" where
  "trunc_claim c = c\<lparr>rc_lease_expires_at := opt_millis (rc_lease_expires_at c),
     rc_next_attempt_at := opt_millis (rc_next_attempt_at c),
     rc_quarantined_at := opt_millis (rc_quarantined_at c)\<rparr>"

definition trunc_intent :: "projection_intent \<Rightarrow> projection_intent" where
  "trunc_intent i = i\<lparr>pi_claim_expires_at := opt_millis (pi_claim_expires_at i),
     pi_next_attempt_at := opt_millis (pi_next_attempt_at i)\<rparr>"

definition truncate_run :: "run_state \<Rightarrow> run_state" where
  "truncate_run r = r\<lparr>run_candidate_scope := trunc_scope (run_candidate_scope r),
     run_transcript := map trunc_message (run_transcript r),
     run_tool_catalog := map_option trunc_catalog (run_tool_catalog r),
     run_tool_batches := map trunc_batch (run_tool_batches r),
     run_budget := trunc_budget (run_budget r),
     run_cancellation_requested_at := opt_millis (run_cancellation_requested_at r),
     run_recovery_claim := trunc_claim (run_recovery_claim r),
     run_projection_outbox := map trunc_intent (run_projection_outbox r),
     run_created_at := bson_millis (run_created_at r),
     run_updated_at := bson_millis (run_updated_at r)\<rparr>"

text \<open>\<open>Inl\<close> the validation error, \<open>Inr\<close> the document to store.\<close>

definition normalize_run :: "run_state \<Rightarrow> string + run_state" where
  "normalize_run r = (case run_error (truncate_run r) of
      Some m \<Rightarrow> Inl m | None \<Rightarrow> Inr (truncate_run r))"

section \<open>The cut is idempotent\<close>

named_theorems trunc_defs "the truncation of each contract"

lemmas [trunc_defs] =
  trunc_invocation_def trunc_acceptance_def trunc_entry_def trunc_batch_def trunc_scope_def
  trunc_catalog_def trunc_budget_def trunc_claim_def trunc_intent_def

lemma opt_millis_idem [simp]: "opt_millis (opt_millis x) = opt_millis x"
  by (cases x) (simp_all add: opt_millis_def)

lemma opt_millis_None [simp]: "opt_millis x = None \<longleftrightarrow> x = None" "None = opt_millis x \<longleftrightarrow> x = None"
  by (cases x; simp add: opt_millis_def)+

lemma trunc_message_idem [simp]: "trunc_message (trunc_message m) = trunc_message m"
  by (cases m) (simp_all add: trunc_message_def)

lemma trunc_parts_idem [simp]:
  "trunc_invocation (trunc_invocation i) = trunc_invocation i"
  "trunc_acceptance (trunc_acceptance a) = trunc_acceptance a"
  "trunc_scope (trunc_scope s) = trunc_scope s"
  "trunc_catalog (trunc_catalog c) = trunc_catalog c"
  "trunc_budget (trunc_budget b) = trunc_budget b"
  "trunc_claim (trunc_claim q) = trunc_claim q"
  "trunc_intent (trunc_intent p) = trunc_intent p"
  by (simp_all add: trunc_defs)

lemma map_option_idem: "(\<And>x. f (f x) = f x) \<Longrightarrow> map_option f (map_option f y) = map_option f y"
  by (cases y) simp_all

lemma trunc_entry_idem [simp]: "trunc_entry (trunc_entry e) = trunc_entry e"
  by (simp add: trunc_entry_def map_option_idem)

lemma trunc_batch_idem [simp]: "trunc_batch (trunc_batch b) = trunc_batch b"
  by (simp add: trunc_batch_def)

lemma truncate_run_idem [simp]: "truncate_run (truncate_run r) = truncate_run r"
  by (simp add: truncate_run_def map_option_idem)

section \<open>No validator sees the cut\<close>

lemma trunc_message_error [simp]: "message_error (trunc_message m) = message_error m"
  by (cases m) (simp_all add: trunc_message_def message_error_def)

lemma trunc_invocation_error [simp]: "invocation_error (trunc_invocation i) = invocation_error i"
  by (simp add: trunc_invocation_def invocation_error_def)

lemma trunc_entry_simps [simp]:
  "be_call_id (trunc_entry e) = be_call_id e" "be_state (trunc_entry e) = be_state e"
  "be_assistant_message_id (trunc_entry e) = be_assistant_message_id e"
  "be_opaque_public_call_id (trunc_entry e) = be_opaque_public_call_id e"
  "be_acceptance (trunc_entry e) = None \<longleftrightarrow> be_acceptance e = None"
  "be_public_terminal_emitted (trunc_entry e) = be_public_terminal_emitted e"
  by (simp_all add: trunc_entry_def)

lemma trunc_entry_error [simp]: "entry_error (trunc_entry e) = entry_error e"
  by (cases "be_invocation e") (simp_all add: entry_error_def trunc_entry_def)

lemma trunc_batch_simps [simp]:
  "tb_entries (trunc_batch b) = map trunc_entry (tb_entries b)"
  "tb_results_flushed (trunc_batch b) = tb_results_flushed b"
  "tb_assistant_message_id (trunc_batch b) = tb_assistant_message_id b"
  by (simp_all add: trunc_batch_def)

lemma trunc_batch_error [simp]: "batch_error (trunc_batch b) = batch_error b"
  by (simp add: batch_error_def comp_def list_all_iff)

lemma trunc_catalog_error [simp]: "catalog_error (trunc_catalog c) = catalog_error c"
  by (simp add: trunc_catalog_def catalog_error_def)

lemma trunc_budget_error [simp]: "budget_error (trunc_budget b) = budget_error b"
  by (simp add: trunc_budget_def budget_error_def)

lemma trunc_claim_error [simp]: "recovery_claim_error (trunc_claim c) = recovery_claim_error c"
  by (simp add: trunc_claim_def recovery_claim_error_def)

lemma trunc_claim_simps [simp]:
  "rc_kind (trunc_claim c) = rc_kind c" "rc_owner_id (trunc_claim c) = rc_owner_id c"
  by (simp_all add: trunc_claim_def)

lemma trunc_intent_error [simp]: "intent_error (trunc_intent i) = intent_error i"
  by (simp add: trunc_intent_def intent_error_def)

lemma trunc_scope_revision [simp]: "cs_revision (trunc_scope s) = cs_revision s"
  by (simp add: trunc_scope_def)

lemma truncate_run_simps [simp]:
  "run_id (truncate_run r) = run_id r" "run_st (truncate_run r) = run_st r"
  "run_conversation_id (truncate_run r) = run_conversation_id r"
  "run_client_request_id (truncate_run r) = run_client_request_id r"
  "run_req (truncate_run r) = run_req r"
  "run_state_version (truncate_run r) = run_state_version r"
  "run_processed_command_ids (truncate_run r) = run_processed_command_ids r"
  "run_cancellation_command_id (truncate_run r) = run_cancellation_command_id r"
  "run_cancellation_cause (truncate_run r) = run_cancellation_cause r"
  "run_cancellation_requested_at (truncate_run r) = opt_millis (run_cancellation_requested_at r)"
  "run_recovery_claim (truncate_run r) = trunc_claim (run_recovery_claim r)"
  "run_tool_batches (truncate_run r) = map trunc_batch (run_tool_batches r)"
  "run_projection_outbox (truncate_run r) = map trunc_intent (run_projection_outbox r)"
  "run_artifact_refs (truncate_run r) = run_artifact_refs r"
  "run_greatest_public_text_offset (truncate_run r) = run_greatest_public_text_offset r"
  "run_active_public_text (truncate_run r) = run_active_public_text r"
  "run_active_internal_turn_id (truncate_run r) = run_active_internal_turn_id r"
  "run_active_assistant_message_id (truncate_run r) = run_active_assistant_message_id r"
  "run_active_attempt (truncate_run r) = run_active_attempt r"
  by (simp_all add: truncate_run_def)

lemma truncate_run_entries: "run_entries (truncate_run r) = map trunc_entry (run_entries r)"
  by (simp add: run_entries_def truncate_run_def comp_def map_concat)

lemma truncate_field_error: "run_field_error (truncate_run r) = run_field_error r"
  unfolding run_field_error_def
  by (cases "run_tool_catalog r") (simp_all add: truncate_run_def comp_def)

lemma truncate_terminal_error: "terminal_error (truncate_run r) = terminal_error r"
  unfolding terminal_error_def truncate_run_entries truncate_run_simps list.pred_map comp_def
    trunc_entry_simps trunc_batch_simps ..

lemma truncate_cancellation_error: "cancellation_error (truncate_run r) = cancellation_error r"
  by (simp add: cancellation_error_def)

lemma truncate_aggregate_error: "aggregate_error (truncate_run r) = aggregate_error r"
proof -
  have p: "public_call_ids (map trunc_entry es) = public_call_ids es" for es
    by (simp add: public_call_ids_def map_filter_def filter_map comp_def)
  have i: "pi_intent_id (trunc_intent i) = pi_intent_id i" for i
    by (simp add: trunc_intent_def)
  show ?thesis
    unfolding aggregate_error_def truncate_terminal_error truncate_cancellation_error
      truncate_run_entries p truncate_run_simps map_map comp_def list.pred_map i
      trunc_entry_simps trunc_batch_simps ..
qed

lemma truncate_run_error [simp]: "run_error (truncate_run r) = run_error r"
  by (simp add: run_error_def truncate_field_error truncate_aggregate_error)

lemma normalize_run_iff:
  "normalize_run r = Inr d \<longleftrightarrow> valid_run r \<and> d = truncate_run r"
  by (auto simp: normalize_run_def valid_run_def split: option.splits)

lemma normalize_run_valid: "normalize_run r = Inr d \<Longrightarrow> valid_run d \<and> truncate_run d = d"
  by (auto simp: normalize_run_iff valid_run_def)

end
