(* ===== verification/Run_Store.thy ===== *)
theory Run_Store
  imports Settlement Run_Normalize "HOL-Library.List_Lexorder" "HOL-Library.Char_ord"
    "HOL-Library.Product_Lexorder"
begin

text \<open>
  \<open>execution/repository/orchestrator/run_store.py\<close>: the Mongo store of Runs. A Run is one document,
  replaced under its \<open>state_version\<close>; the recovery lease is a document of its own, of which the
  Run keeps a mirror for queries.

  \<open>create\<close>, \<open>cas_mutate\<close> and the lease claim await between their read and their write, so they take
  the store they read and the store they write to; every other operation is composed of these
  and is given one store. A write may fail at the adapter (\<open>RecoverableAdapterError\<close>) before or after
  it took effect, which the caller cannot tell; that is the parameter \<open>fault\<close>. Mongo cuts the
  timestamps of what is stored to milliseconds.
\<close>

section \<open>The store\<close>

datatype store_exn =
    ValidationFailed string
  | AdapterFailed
  | TransitionFailed intent_exn

datatype fault = NoFault | FaultBefore | FaultAfter

text \<open>
  \<open>st_dedicated\<close>: a recovery collection was injected (always in production); else \<open>st_claims\<close> is
  the store's own dictionary.
\<close>

record run_store =
  st_runs :: "run_state list"
  st_claims :: "(string \<times> recovery_claim) list"
  st_dedicated :: bool

type_synonym store_result = "store_exn + (outcome \<times> run_state option)"

definition find_run :: "run_store \<Rightarrow> string \<Rightarrow> run_state option" where
  "find_run s rid = List.find (\<lambda>r. run_id r = rid) (st_runs s)"

definition load_claim :: "run_store \<Rightarrow> string \<Rightarrow> recovery_claim option" where
  "load_claim s rid = map_of (st_claims s) rid"

definition put_claim :: "run_store \<Rightarrow> string \<Rightarrow> recovery_claim \<Rightarrow> run_store" where
  "put_claim s rid c = s\<lparr>st_claims :=
     AList.update rid (if st_dedicated s then trunc_claim c else c) (st_claims s)\<rparr>"

definition run_from_document ::
  "run_state \<Rightarrow> recovery_claim option \<Rightarrow> store_exn + run_state" where
  "run_from_document doc claim =
     (let lags = (case claim of None \<Rightarrow> False
                  | Some c \<Rightarrow> run_st doc = Canceling \<and> rc_kind c \<noteq> ClaimCancellation);
          r = (case claim of None \<Rightarrow> doc
               | Some c \<Rightarrow> if lags then doc else doc\<lparr>run_recovery_claim := c\<rparr>) in
      case run_error r of Some m \<Rightarrow> Inl (ValidationFailed m) | None \<Rightarrow> Inr r)"

definition with_claim :: "run_store \<Rightarrow> run_state option \<Rightarrow> store_exn + run_state option" where
  "with_claim s doc = (case doc of None \<Rightarrow> Inr None
     | Some d \<Rightarrow> map_sum id Some (run_from_document d (load_claim s (run_id d))))"

definition load :: "run_store \<Rightarrow> string \<Rightarrow> store_exn + run_state option" where
  "load s rid = with_claim s (find_run s rid)"

definition load_by_user_message_id :: "run_store \<Rightarrow> string \<Rightarrow> store_exn + run_state option" where
  "load_by_user_message_id s mid =
     with_claim s (List.find (\<lambda>r. rr_user_message_id (run_req r) = mid) (st_runs s))"

definition load_duplicate :: "run_store \<Rightarrow> run_state \<Rightarrow> store_exn + run_state option" where
  "load_duplicate s r = (if run_client_request_id r = None then Inr None
     else with_claim s (List.find (\<lambda>d. run_conversation_id d = run_conversation_id r
            \<and> run_client_request_id d = run_client_request_id r) (st_runs s)))"

text \<open>\<open>run = await self.load(..)\<close>, with the rest of the operation on the Run it returns.\<close>

definition with_load ::
  "run_store \<Rightarrow> string \<Rightarrow> run_store \<Rightarrow> (run_state option \<Rightarrow> store_result \<times> run_store)
     \<Rightarrow> store_result \<times> run_store" where
  "with_load s rid s' k = (case load s rid of Inl e \<Rightarrow> (Inl e, s') | Inr r \<Rightarrow> k r)"

text \<open>
  The unique indexes besides \<open>run_id\<close>: one non-terminal Run per room, and one Run per client
  request of a room. (The call-id index is keyed by \<open>run_id\<close> too, which is unique already.)
\<close>

definition index_clash :: "run_state \<Rightarrow> run_state \<Rightarrow> bool" where
  "index_clash a b \<longleftrightarrow> run_conversation_id a = run_conversation_id b
     \<and> (\<not> is_terminal_status (run_st a) \<and> \<not> is_terminal_status (run_st b)
        \<or> run_client_request_id a \<noteq> None \<and> run_client_request_id a = run_client_request_id b)"

definition index_violation :: "run_store \<Rightarrow> run_state \<Rightarrow> bool" where
  "index_violation s cand =
     list_ex (\<lambda>d. run_id d \<noteq> run_id cand \<and> index_clash d cand) (st_runs s)"

definition with_command :: "string \<Rightarrow> run_state \<Rightarrow> run_state" where
  "with_command cmd r = r\<lparr>run_processed_command_ids :=
     (if cmd \<in> set (run_processed_command_ids r) then run_processed_command_ids r
      else run_processed_command_ids r @ [cmd])\<rparr>"

section \<open>create\<close>

definition replayed_if :: "bool \<Rightarrow> outcome" where
  "replayed_if b = (if b then Replayed else Conflict)"

definition has_command :: "string \<Rightarrow> run_state option \<Rightarrow> bool" where
  "has_command cmd r = (case r of None \<Rightarrow> False | Some x \<Rightarrow> cmd \<in> set (run_processed_command_ids x))"

text \<open>The two look-ups \<open>create\<close> makes before its insert and again after a duplicate key.\<close>

definition create_existing ::
  "run_store \<Rightarrow> run_state \<Rightarrow> string \<Rightarrow> (store_exn + (outcome \<times> run_state option) option)" where
  "create_existing s r cmd = (case load s (run_id r) of
      Inl e \<Rightarrow> Inl e
    | Inr (Some x) \<Rightarrow> Inr (Some (replayed_if (has_command cmd (Some x)), Some x))
    | Inr None \<Rightarrow> (case load_duplicate s r of
          Inl e \<Rightarrow> Inl e
        | Inr None \<Rightarrow> Inr None
        | Inr (Some d) \<Rightarrow> Inr (Some (replayed_if (rr_request_fingerprint (run_req d)
              = rr_request_fingerprint (run_req r)), Some d))))"

definition create_run ::
  "run_store \<Rightarrow> run_store \<Rightarrow> fault \<Rightarrow> run_state \<Rightarrow> string \<Rightarrow> store_result \<times> run_store" where
  "create_run s s' flt r cmd =
     (case normalize_run (with_command cmd r) of
        Inl m \<Rightarrow> (Inl (ValidationFailed m), s')
      | Inr cand \<Rightarrow>
          (case create_existing s r cmd of
             Inl e \<Rightarrow> (Inl e, s')
           | Inr (Some answer) \<Rightarrow> (Inr answer, s')
           | Inr None \<Rightarrow>
               (let refused = find_run s' (run_id cand) \<noteq> None \<or> index_violation s' cand;
                    s'' = (if refused \<or> flt = FaultBefore then s'
                           else s'\<lparr>st_runs := st_runs s' @ [cand]\<rparr>) in
                if flt \<noteq> NoFault then
                  with_load s'' (run_id r) s'' (\<lambda>x.
                    if has_command cmd x then (Inr (Replayed, x), s'') else (Inl AdapterFailed, s''))
                else if refused then
                  (case create_existing s' r cmd of
                     Inl e \<Rightarrow> (Inl e, s')
                   | Inr (Some answer) \<Rightarrow> (Inr answer, s')
                   | Inr None \<Rightarrow> (Inr (Conflict, None), s'))
                else (Inr (Accepted, Some cand), s''))))"

section \<open>cas_mutate\<close>

definition cancellation_metadata ::
  "run_state \<Rightarrow> string option \<times> datetime option \<times> cancellation_cause option" where
  "cancellation_metadata r =
     (run_cancellation_command_id r, run_cancellation_requested_at r, run_cancellation_cause r)"

definition cancellation_transition_allowed :: "run_state \<Rightarrow> run_state \<Rightarrow> bool" where
  "cancellation_transition_allowed cur cand =
     (if run_cancellation_command_id cur \<noteq> None
           \<and> cancellation_metadata cur \<noteq> cancellation_metadata cand then False
      else if run_st cur \<noteq> Canceling then True
      else run_st cand \<in> {Canceling, Canceled}
           \<and> cancellation_metadata cur = cancellation_metadata cand)"

definition mirror_claim :: "run_store \<Rightarrow> string \<Rightarrow> recovery_claim \<Rightarrow> run_store" where
  "mirror_claim s rid c = s\<lparr>st_runs := map (\<lambda>r.
     if run_id r = rid \<and> (rc_kind c = ClaimCancellation \<or> run_st r \<noteq> Canceling)
     then r\<lparr>run_recovery_claim := trunc_claim c\<rparr> else r) (st_runs s)\<rparr>"

definition version_matches :: "run_store \<Rightarrow> string \<Rightarrow> int \<Rightarrow> bool" where
  "version_matches s rid v = (case find_run s rid of None \<Rightarrow> False | Some d \<Rightarrow> run_state_version d = v)"

definition replace_run :: "run_store \<Rightarrow> run_state \<Rightarrow> run_store" where
  "replace_run s cand = s\<lparr>st_runs := map (\<lambda>r. if run_id r = run_id cand then cand else r) (st_runs s)\<rparr>"

text \<open>The tail of an accepted replacement: overlay the row of the same fencing token.\<close>

definition overlay_claim :: "run_store \<Rightarrow> run_state \<Rightarrow> store_result \<times> run_store" where
  "overlay_claim s cand = (case load_claim s (run_id cand) of
      None \<Rightarrow> (Inr (Accepted, Some cand), s)
    | Some c \<Rightarrow>
        if st_dedicated s \<and> rc_kind (run_recovery_claim cand) = ClaimExecution
           \<and> rc_kind c = ClaimExecution \<and> rc_owner_id (run_recovery_claim cand) = rc_owner_id c
        then (Inr (Accepted, Some (cand\<lparr>run_recovery_claim := c\<rparr>)), mirror_claim s (run_id cand) c)
        else (Inr (Accepted, Some cand), s))"

text \<open>\<open>cas_mutate\<close> after its read: \<open>cur\<close> is what was loaded, \<open>s\<close> the store at the replacement.\<close>

definition cas_apply ::
  "run_state \<Rightarrow> run_store \<Rightarrow> fault \<Rightarrow> run_state \<Rightarrow> int \<Rightarrow> string \<Rightarrow> store_result \<times> run_store" where
  "cas_apply cur s flt r expected cmd =
     (if cmd \<in> set (run_processed_command_ids cur) then (Inr (Replayed, Some cur), s)
      else if run_state_version cur \<noteq> expected \<or> run_state_version r \<noteq> expected + 1
        then (Inr (Conflict, Some cur), s)
      else case normalize_run (with_command cmd r) of
        Inl m \<Rightarrow> (Inl (ValidationFailed m), s)
      | Inr cand \<Rightarrow>
          if \<not> cancellation_transition_allowed cur cand then (Inr (Conflict, Some cur), s)
          else
            let hit = version_matches s (run_id r) expected;
                clash = hit \<and> index_violation s cand;
                s' = (if hit \<and> \<not> clash \<and> flt \<noteq> FaultBefore then replace_run s cand else s) in
            if flt \<noteq> NoFault then
              with_load s' (run_id r) s' (\<lambda>w.
                if has_command cmd w then (Inr (Replayed, w), s') else (Inl AdapterFailed, s'))
            else if clash then with_load s' (run_id r) s' (\<lambda>w. (Inr (Conflict, w), s'))
            else if \<not> hit then
              with_load s' (run_id r) s' (\<lambda>w. (Inr (replayed_if (has_command cmd w), w), s'))
            else overlay_claim s' cand)"

definition cas_mutate ::
  "run_store \<Rightarrow> run_store \<Rightarrow> fault \<Rightarrow> run_state \<Rightarrow> int \<Rightarrow> string \<Rightarrow> store_result \<times> run_store" where
  "cas_mutate s s' flt r expected cmd = with_load s (run_id r) s' (\<lambda>cur. case cur of
      None \<Rightarrow> (Inr (StoreError, None), s')
    | Some c \<Rightarrow> cas_apply c s' flt r expected cmd)"

definition cas_now ::
  "run_store \<Rightarrow> run_state \<Rightarrow> int \<Rightarrow> string \<Rightarrow> store_result \<times> run_store" where
  "cas_now s r expected cmd = cas_mutate s s NoFault r expected cmd"

end
