(* ===== verification/Run_Recovery.thy ===== *)
theory Run_Recovery
  imports Run_Store
begin

text \<open>
  The rest of \<open>run_store.py\<close>, over the reads and writes of \<open>Run_Store\<close>: cancellation, the
  recovery schedule and its fenced lease, the listings, and the operations on one projection
  intent. \<open>isoformat\<close> is \<open>datetime.isoformat\<close>, a parameter (it only names a command).
\<close>

section \<open>Claims\<close>

definition fresh_claim :: "claim_kind \<Rightarrow> datetime option \<Rightarrow> recovery_claim" where
  "fresh_claim k next_at = \<lparr>rc_kind = k, rc_owner_id = None, rc_lease_expires_at = None,
     rc_next_attempt_at = next_at, rc_failure_count = 0, rc_quarantined_at = None,
     rc_quarantine_reason = None\<rparr>"

definition claim_is_due :: "recovery_claim \<Rightarrow> datetime \<Rightarrow> bool" where
  "claim_is_due c tm \<longleftrightarrow> rc_quarantined_at c = None
     \<and> (case rc_next_attempt_at c of None \<Rightarrow> True | Some t \<Rightarrow> t \<le> tm)
     \<and> (case rc_lease_expires_at c of None \<Rightarrow> True | Some t \<Rightarrow> t \<le> tm)"

text \<open>The query of the conditional update: it also admits an unowned row with a lease.\<close>

definition row_claimable :: "recovery_claim \<Rightarrow> datetime \<Rightarrow> bool" where
  "row_claimable c tm \<longleftrightarrow> rc_quarantined_at c = None
     \<and> (case rc_next_attempt_at c of None \<Rightarrow> True | Some t \<Rightarrow> t \<le> tm)
     \<and> (rc_owner_id c = None
        \<or> (case rc_lease_expires_at c of None \<Rightarrow> True | Some t \<Rightarrow> t \<le> tm))"

definition owned_by :: "recovery_claim \<Rightarrow> string \<Rightarrow> datetime \<Rightarrow> recovery_claim" where
  "owned_by c owner lease = c\<lparr>rc_owner_id := Some owner, rc_lease_expires_at := Some lease,
     rc_next_attempt_at := None\<rparr>"

text \<open>\<open>s\<close> is the store read, \<open>s'\<close> the store at the conditional update.\<close>

definition claim_dedicated ::
  "run_store \<Rightarrow> run_store \<Rightarrow> fault \<Rightarrow> string \<Rightarrow> string \<Rightarrow> datetime \<Rightarrow> datetime
     \<Rightarrow> (store_exn + recovery_claim option) \<times> run_store" where
  "claim_dedicated s s' flt rid owner lease tm =
     (let existing = load_claim s rid;
          blocked = (case existing of None \<Rightarrow> False | Some c \<Rightarrow> \<not> claim_is_due c tm) in
      if blocked then (Inr None, s')
      else let
        claim = owned_by (case existing of None \<Rightarrow> fresh_claim ClaimExecution None | Some c \<Rightarrow> c)
                  owner lease;
        row = load_claim s' rid;
        writes = (case row of None \<Rightarrow> True | Some c \<Rightarrow> row_claimable c tm);
        s'' = (if writes \<and> flt \<noteq> FaultBefore then put_claim s' rid claim else s') in
        if flt \<noteq> NoFault then
          (if load_claim s'' rid = Some claim then Inr (Some claim) else Inl AdapterFailed, s'')
        else (Inr (if writes then Some claim else None), s''))"

definition update_dedicated ::
  "run_store \<Rightarrow> fault \<Rightarrow> string \<Rightarrow> string \<Rightarrow> recovery_claim \<Rightarrow> (store_exn + bool) \<times> run_store" where
  "update_dedicated s flt rid owner claim =
     (let hit = (case load_claim s rid of None \<Rightarrow> False | Some c \<Rightarrow> rc_owner_id c = Some owner);
          s' = (if hit \<and> flt \<noteq> FaultBefore then put_claim s rid claim else s) in
      if flt \<noteq> NoFault then
        (if load_claim s' rid = Some claim then Inr True else Inl AdapterFailed, s')
      else (Inr hit, s'))"

section \<open>Cancellation\<close>

definition replace_cancellation_recovery :: "run_store \<Rightarrow> string \<Rightarrow> datetime \<Rightarrow> run_store" where
  "replace_cancellation_recovery s rid tm =
     (let claim = fresh_claim ClaimCancellation (Some tm) in
      mirror_claim (put_claim s rid claim) rid claim)"

definition canceling_candidate ::
  "run_state \<Rightarrow> string \<Rightarrow> cancellation_cause \<Rightarrow> datetime \<Rightarrow> run_state" where
  "canceling_candidate r cmd cause tm = r\<lparr>run_st := Canceling,
     run_cancellation_command_id := Some cmd, run_cancellation_requested_at := Some tm,
     run_cancellation_cause := Some cause,
     run_recovery_claim := fresh_claim ClaimCancellation (Some tm),
     run_state_version := run_state_version r + 1, run_updated_at := tm\<rparr>"

definition request_cancellation ::
  "run_store \<Rightarrow> string \<Rightarrow> int \<Rightarrow> string \<Rightarrow> cancellation_cause \<Rightarrow> datetime \<Rightarrow> store_result \<times> run_store"
  where
  "request_cancellation s rid expected cmd cause tm = with_load s rid s (\<lambda>run. case run of
      None \<Rightarrow> (Inr (StoreError, None), s)
    | Some r \<Rightarrow>
        if cmd \<in> set (run_processed_command_ids r)
          then (Inr (Replayed, Some r), replace_cancellation_recovery s rid tm)
        else if run_state_version r \<noteq> expected
             \<or> run_st r \<notin> {Queued, Running, WaitingExternal, AwaitingUser}
          then (Inr (Conflict, Some r), s)
        else (case cas_now s (canceling_candidate r cmd cause tm) (run_state_version r) cmd of
            (Inl e, s') \<Rightarrow> (Inl e, s')
          | (Inr (oc, x), s') \<Rightarrow>
              if oc \<in> {Accepted, Replayed} then
                (let s'' = replace_cancellation_recovery s' rid tm in
                 with_load s'' rid s'' (\<lambda>latest.
                   (Inr (oc, case latest of None \<Rightarrow> x | Some l \<Rightarrow> Some l), s'')))
              else (Inr (oc, x), s')))"

text \<open>
  \<open>repair_canceling_recovery\<close>: canceling Runs whose row or mirror is not a cancellation claim, in
  \<open>(updated_at, run_id)\<close> order. \<open>now\<close> stands for \<open>datetime.now\<close>.
\<close>

definition needs_repair :: "run_store \<Rightarrow> run_state \<Rightarrow> bool" where
  "needs_repair s r \<longleftrightarrow>
     (case load_claim s (run_id r) of None \<Rightarrow> True | Some c \<Rightarrow> rc_kind c \<noteq> ClaimCancellation)
     \<or> rc_kind (run_recovery_claim r) \<noteq> ClaimCancellation"

fun repair_loop :: "datetime \<Rightarrow> nat \<Rightarrow> run_state list \<Rightarrow> run_store \<Rightarrow> nat \<Rightarrow> nat \<times> run_store" where
  "repair_loop now lmt [] s n = (n, s)"
| "repair_loop now lmt (d # ds) s n =
     (let row = load_claim s (run_id d);
          cancel_row = (case row of None \<Rightarrow> False | Some c \<Rightarrow> rc_kind c = ClaimCancellation) in
      if cancel_row \<and> rc_kind (run_recovery_claim d) = ClaimCancellation
        then repair_loop now lmt ds s n
      else let s' = (case row of
              Some c \<Rightarrow> if rc_kind c = ClaimCancellation then mirror_claim s (run_id d) c
                else replace_cancellation_recovery s (run_id d)
                  (case run_cancellation_requested_at d of None \<Rightarrow> now | Some t \<Rightarrow> t)
            | None \<Rightarrow> replace_cancellation_recovery s (run_id d)
                  (case run_cancellation_requested_at d of None \<Rightarrow> now | Some t \<Rightarrow> t)) in
        if lmt \<le> n + 1 then (n + 1, s') else repair_loop now lmt ds s' (n + 1))"

definition repair_canceling_recovery :: "run_store \<Rightarrow> datetime \<Rightarrow> int \<Rightarrow> nat \<times> run_store" where
  "repair_canceling_recovery s now lmt =
     (if lmt \<le> 0 then (0, s)
      else let docs = sort_key (\<lambda>r. (run_updated_at r, run_id r))
                        (filter (\<lambda>r. run_st r = Canceling) (st_runs s));
               docs' = (if st_dedicated s then take (nat lmt) (filter (needs_repair s) docs) else docs) in
        repair_loop now (nat lmt) docs' s 0)"

section \<open>The recovery lease\<close>

definition with_recovery :: "run_state \<Rightarrow> recovery_claim \<Rightarrow> run_state" where
  "with_recovery r c = r\<lparr>run_recovery_claim := c, run_state_version := run_state_version r + 1\<rparr>"

definition schedule_command :: "(datetime \<Rightarrow> string) \<Rightarrow> run_state \<Rightarrow> datetime \<Rightarrow> string" where
  "schedule_command isoformat r next_at =
     ''schedule-recovery:'' @ show_int (run_state_version r) @ '':'' @ isoformat next_at"

definition store_schedule ::
  "run_store \<Rightarrow> string \<Rightarrow> datetime \<Rightarrow> datetime \<Rightarrow> recovery_claim \<Rightarrow> store_result \<times> run_store" where
  "store_schedule s rid due next_at claim =
     (let write = (\<lambda>c. let s' = put_claim s rid c in with_load s' rid s' (\<lambda>l. (Inr (Accepted, l), s'))) in
      if \<not> st_dedicated s then write claim
      else (case load_claim s rid of
          None \<Rightarrow> write claim
        | Some c \<Rightarrow>
            if rc_kind c = ClaimExecution \<and> rc_owner_id c = None \<and> rc_quarantined_at c = None
               \<and> rc_next_attempt_at c = Some due
            then write (c\<lparr>rc_next_attempt_at := Some next_at\<rparr>)
            else with_load s rid s (\<lambda>l. (Inr (Conflict, l), s))))"

definition schedule_recovery ::
  "(datetime \<Rightarrow> string) \<Rightarrow> run_store \<Rightarrow> string \<Rightarrow> int \<Rightarrow> datetime \<Rightarrow> store_result \<times> run_store" where
  "schedule_recovery isoformat s rid expected next_at = with_load s rid s (\<lambda>run. case run of
      None \<Rightarrow> (Inr (Conflict, None), s)
    | Some r \<Rightarrow>
        let c = run_recovery_claim r in
        if run_state_version r \<noteq> expected \<or> run_st r \<notin> set non_terminal_run_statuses
           \<or> run_st r = Canceling \<or> rc_kind c \<noteq> ClaimExecution \<or> rc_owner_id c \<noteq> None
           \<or> rc_quarantined_at c \<noteq> None
          then (Inr (Conflict, Some r), s)
        else (case rc_next_attempt_at c of
            None \<Rightarrow> (Inr (Replayed, Some r), s)
          | Some due \<Rightarrow>
              if due \<le> next_at then (Inr (Replayed, Some r), s)
              else let claim = c\<lparr>rc_next_attempt_at := Some next_at\<rparr> in
                (case cas_now s (with_recovery r claim) (run_state_version r)
                     (schedule_command isoformat r next_at) of
                   (Inl e, s') \<Rightarrow> (Inl e, s')
                 | (Inr (oc, x), s') \<Rightarrow>
                     if oc \<notin> {Accepted, Replayed} then (Inr (oc, x), s')
                     else store_schedule s' rid due next_at claim)))"

text \<open>The version-fenced admission of an acquired lease, given back when it loses.\<close>

definition claim_command :: "string \<Rightarrow> run_state \<Rightarrow> string" where
  "claim_command owner r = ''claim:'' @ owner @ '':'' @ show_int (run_state_version r)"

definition admit_claimed ::
  "run_store \<Rightarrow> string \<Rightarrow> run_state \<Rightarrow> string \<Rightarrow> recovery_claim \<Rightarrow> store_result \<times> run_store" where
  "admit_claimed s rid r owner acquired =
     (case cas_now s (with_recovery r acquired) (run_state_version r) (claim_command owner r) of
        (Inl e, s') \<Rightarrow> (Inl e, s')
      | (Inr (oc, x), s') \<Rightarrow>
          if oc \<in> {Accepted, Replayed} then (Inr (oc, x), s')
          else let released = (run_recovery_claim r)\<lparr>rc_owner_id := None, rc_lease_expires_at := None\<rparr> in
            (case update_dedicated s' NoFault rid owner released of
               (Inl e, s'') \<Rightarrow> (Inl e, s'')
             | (Inr True, s'') \<Rightarrow> (Inr (oc, x), mirror_claim s'' rid released)
             | (Inr False, s'') \<Rightarrow> (Inr (oc, x), s'')))"

definition claim_recovery ::
  "run_store \<Rightarrow> string \<Rightarrow> int \<Rightarrow> string \<Rightarrow> datetime \<Rightarrow> datetime \<Rightarrow> bool \<Rightarrow> store_result \<times> run_store" where
  "claim_recovery s rid expected owner lease tm allow_scheduled = with_load s rid s (\<lambda>run. case run of
      None \<Rightarrow> (Inr (Conflict, None), s)
    | Some r \<Rightarrow>
        let c = run_recovery_claim r; due = claim_is_due c tm in
        if run_state_version r \<noteq> expected \<or> lease \<le> tm \<or> (rc_owner_id c \<noteq> None \<and> \<not> due)
           \<or> (\<not> allow_scheduled \<and> \<not> due)
          then (Inr (Conflict, Some r), s)
        else if \<not> st_dedicated s then
          (let claim = owned_by c owner lease in
           case cas_now s (with_recovery r claim) (run_state_version r) (claim_command owner r) of
             (Inr (oc, x), s') \<Rightarrow>
               (Inr (oc, x), if oc \<in> {Accepted, Replayed} then put_claim s' rid claim else s')
           | (Inl e, s') \<Rightarrow> (Inl e, s'))
        else (case claim_dedicated s s NoFault rid owner lease tm of
            (Inl e, s') \<Rightarrow> (Inl e, s')
          | (Inr None, s') \<Rightarrow> with_load s' rid s' (\<lambda>l. (Inr (Conflict, l), s'))
          | (Inr (Some acquired), s') \<Rightarrow> admit_claimed s' rid r owner acquired))"

definition renewed ::
  "run_store \<Rightarrow> string \<Rightarrow> run_state \<Rightarrow> recovery_claim \<Rightarrow> store_result \<times> run_store" where
  "renewed s rid r claim =
     (Inr (Accepted, Some (r\<lparr>run_recovery_claim := claim\<rparr>)), mirror_claim s rid claim)"

definition renew_recovery ::
  "run_store \<Rightarrow> string \<Rightarrow> int \<Rightarrow> string \<Rightarrow> datetime \<Rightarrow> store_result \<times> run_store" where
  "renew_recovery s rid expected owner lease = with_load s rid s (\<lambda>run. case run of
      None \<Rightarrow> (Inr (Conflict, None), s)
    | Some r \<Rightarrow>
        if run_state_version r \<noteq> expected \<or> rc_owner_id (run_recovery_claim r) \<noteq> Some owner
          then (Inr (Conflict, Some r), s)
        else let claim = (run_recovery_claim r)\<lparr>rc_lease_expires_at := Some lease\<rparr> in
          if \<not> st_dedicated s then renewed (put_claim s rid claim) rid r claim
          else (case update_dedicated s NoFault rid owner claim of
              (Inl e, s') \<Rightarrow> (Inl e, s')
            | (Inr False, s') \<Rightarrow> with_load s' rid s' (\<lambda>l. (Inr (Conflict, l), s'))
            | (Inr True, s') \<Rightarrow> renewed s' rid r claim))"

text \<open>The Run after its lease row was released: a lost CAS still mirrors the row.\<close>

definition commit_release ::
  "run_store \<Rightarrow> string \<Rightarrow> run_state \<Rightarrow> string \<Rightarrow> recovery_claim \<Rightarrow> store_result \<times> run_store" where
  "commit_release s rid r owner claim =
     (case cas_now s (with_recovery r claim) (run_state_version r)
        (''release:'' @ owner @ '':'' @ show_int (run_state_version r)) of
        (Inl e, s') \<Rightarrow> (Inl e, s')
      | (Inr (oc, x), s') \<Rightarrow>
          if oc \<in> {Accepted, Replayed} then (Inr (oc, x), s')
          else let s'' = mirror_claim s' rid claim in
            with_load s'' rid s'' (\<lambda>l. case l of
                Some latest \<Rightarrow> (if run_recovery_claim latest = claim
                  then Inr (Replayed, Some latest) else Inr (oc, x), s'')
              | None \<Rightarrow> (Inr (oc, x), s'')))"

definition release_recovery ::
  "run_store \<Rightarrow> string \<Rightarrow> int \<Rightarrow> string \<Rightarrow> datetime option \<Rightarrow> int \<Rightarrow> datetime option
     \<Rightarrow> quarantine_reason option \<Rightarrow> store_result \<times> run_store" where
  "release_recovery s rid expected owner next_at failures q_at q_reason = with_load s rid s (\<lambda>run.
    case run of
      None \<Rightarrow> (Inr (Conflict, None), s)
    | Some r \<Rightarrow>
        if run_state_version r \<noteq> expected \<or> rc_owner_id (run_recovery_claim r) \<noteq> Some owner
          then (Inr (Conflict, Some r), s)
        else let
          claim = \<lparr>rc_kind = rc_kind (run_recovery_claim r), rc_owner_id = None,
            rc_lease_expires_at = None, rc_next_attempt_at = next_at, rc_failure_count = failures,
            rc_quarantined_at = q_at, rc_quarantine_reason = q_reason\<rparr> in
          case recovery_claim_error claim of
            Some m \<Rightarrow> (Inl (ValidationFailed m), s)
          | None \<Rightarrow>
              if \<not> st_dedicated s then commit_release (put_claim s rid claim) rid r owner claim
              else (case update_dedicated s NoFault rid owner claim of
                  (Inl e, s') \<Rightarrow> (Inl e, s')
                | (Inr False, s') \<Rightarrow> with_load s' rid s' (\<lambda>l. (Inr (Conflict, l), s'))
                | (Inr True, s') \<Rightarrow> commit_release s' rid r owner claim))"

section \<open>Due Runs\<close>

definition listed_run :: "run_state \<Rightarrow> recovery_claim option \<Rightarrow> run_state option" where
  "listed_run doc claim = (case run_from_document doc claim of Inl e \<Rightarrow> None | Inr r \<Rightarrow> Some r)"

definition embedded_due :: "run_store \<Rightarrow> datetime \<Rightarrow> run_state list" where
  "embedded_due s tm = List.map_filter (\<lambda>d.
     if load_claim s (run_id d) \<noteq> None \<and> st_dedicated s then None
     else (case listed_run d (load_claim s (run_id d)) of
         None \<Rightarrow> None
       | Some r \<Rightarrow> if claim_is_due (run_recovery_claim r) tm then Some r else None))
     (sort_key (\<lambda>r. (run_updated_at r, run_id r))
       (filter (\<lambda>d. run_st d \<in> set non_terminal_run_statuses
          \<and> claim_is_due (run_recovery_claim d) tm) (st_runs s)))"

definition dedicated_due :: "run_store \<Rightarrow> datetime \<Rightarrow> run_state list" where
  "dedicated_due s tm = List.map_filter (\<lambda>rid. case (find_run s rid, load_claim s rid) of
       (Some d, Some c) \<Rightarrow>
         if \<not> claim_is_due c tm then None
         else (case listed_run d (Some c) of
             None \<Rightarrow> None
           | Some r \<Rightarrow> if run_st r \<in> set non_terminal_run_statuses then Some r else None)
     | _ \<Rightarrow> None)
     (if st_dedicated s then sort (remdups (map fst (filter (\<lambda>(_, c). claim_is_due c tm) (st_claims s))))
      else [])"

definition list_due_runs :: "run_store \<Rightarrow> datetime \<Rightarrow> int \<Rightarrow> run_state list" where
  "list_due_runs s tm lmt =
     (if lmt \<le> 0 then []
      else let due = foldl (\<lambda>d r. AList.update (run_id r) r d) [] (embedded_due s tm @ dedicated_due s tm) in
        take (nat lmt) (sort_key (\<lambda>r. (case rc_next_attempt_at (run_recovery_claim r) of
            None \<Rightarrow> run_updated_at r | Some t \<Rightarrow> t, run_id r)) (map snd due)))"

section \<open>One projection intent\<close>

definition find_intent :: "run_state option \<Rightarrow> string \<Rightarrow> projection_intent option" where
  "find_intent r iid = (case r of None \<Rightarrow> None
     | Some x \<Rightarrow> List.find (\<lambda>i. pi_intent_id i = iid) (run_projection_outbox x))"

fun update_intent ::
  "string \<Rightarrow> (projection_intent \<Rightarrow> intent_exn + projection_intent) \<Rightarrow> projection_intent list
     \<Rightarrow> (intent_exn + projection_intent list) option" where
  "update_intent iid f [] = None"
| "update_intent iid f (i # is) =
     (if pi_intent_id i = iid then Some (map_sum id (\<lambda>j. j # is) (f i))
      else map_option (map_sum id ((#) i)) (update_intent iid f is))"

definition intent_op ::
  "run_store \<Rightarrow> string \<Rightarrow> string \<Rightarrow> int \<Rightarrow> string
     \<Rightarrow> (projection_intent \<Rightarrow> intent_exn + projection_intent) \<Rightarrow> store_result \<times> run_store" where
  "intent_op s rid iid expected cmd f = with_load s rid s (\<lambda>run. case run of
      None \<Rightarrow> (Inr (Conflict, None), s)
    | Some r \<Rightarrow>
        if run_state_version r \<noteq> expected then (Inr (Conflict, Some r), s)
        else (case update_intent iid f (run_projection_outbox r) of
            None \<Rightarrow> (Inr (Conflict, Some r), s)
          | Some (Inl e) \<Rightarrow> (Inl (TransitionFailed e), s)
          | Some (Inr is) \<Rightarrow> cas_now s (r\<lparr>run_projection_outbox := is,
              run_state_version := run_state_version r + 1\<rparr>) (run_state_version r) cmd))"

definition intent_command :: "string \<Rightarrow> string \<Rightarrow> int \<Rightarrow> string" where
  "intent_command verb iid v = verb @ ''-intent:'' @ iid @ '':'' @ show_int v"

definition claim_intent ::
  "run_store \<Rightarrow> string \<Rightarrow> string \<Rightarrow> int \<Rightarrow> string \<Rightarrow> datetime \<Rightarrow> store_result \<times> run_store" where
  "claim_intent s rid iid expected owner lease =
     intent_op s rid iid expected (intent_command ''claim'' iid expected)
       (\<lambda>i. transition_intent i IntClaimed (Some owner) (Some lease) None None)"

definition complete_intent ::
  "run_store \<Rightarrow> string \<Rightarrow> string \<Rightarrow> int \<Rightarrow> string \<Rightarrow> store_result \<times> run_store" where
  "complete_intent s rid iid expected owner = with_load s rid s (\<lambda>run. case find_intent run iid of
      None \<Rightarrow> (Inr (Conflict, run), s)
    | Some i \<Rightarrow> if pi_claim_owner i \<noteq> Some owner then (Inr (Conflict, run), s)
        else intent_op s rid iid expected (intent_command ''complete'' iid expected)
          (\<lambda>i. transition_intent i IntCompleted None None None None))"

definition block_intent ::
  "run_store \<Rightarrow> string \<Rightarrow> string \<Rightarrow> int \<Rightarrow> string \<Rightarrow> string \<Rightarrow> store_result \<times> run_store" where
  "block_intent s rid iid expected owner reason = with_load s rid s (\<lambda>run. case find_intent run iid of
      None \<Rightarrow> (Inr (Conflict, run), s)
    | Some i \<Rightarrow> if pi_claim_owner i \<notin> {None, Some owner} then (Inr (Conflict, run), s)
        else intent_op s rid iid expected (intent_command ''block'' iid expected)
          (\<lambda>i. transition_intent i IntBlocked None None (Some reason) None))"

definition release_intent ::
  "run_store \<Rightarrow> string \<Rightarrow> string \<Rightarrow> int \<Rightarrow> string \<Rightarrow> datetime \<Rightarrow> datetime \<Rightarrow> store_result \<times> run_store" where
  "release_intent s rid iid expected owner next_at now = with_load s rid s (\<lambda>run.
    case find_intent run iid of
      None \<Rightarrow> (Inr (Conflict, run), s)
    | Some i \<Rightarrow>
        if pi_status i \<noteq> IntClaimed then (Inr (Conflict, run), s)
        else let expired = (case pi_claim_expires_at i of None \<Rightarrow> False | Some t \<Rightarrow> t \<le> now) in
          if pi_claim_owner i \<noteq> Some owner \<and> \<not> expired then (Inr (Conflict, run), s)
          else intent_op s rid iid expected (intent_command ''release'' iid expected)
            (\<lambda>i. transition_intent i IntPending None None None (Some next_at)))"

definition intent_due :: "datetime \<Rightarrow> projection_intent \<Rightarrow> bool" where
  "intent_due tm i \<longleftrightarrow>
     pi_status i = IntPending \<and> (case pi_next_attempt_at i of None \<Rightarrow> True | Some t \<Rightarrow> t \<le> tm)
     \<or> pi_status i = IntClaimed \<and> (case pi_claim_expires_at i of None \<Rightarrow> False | Some t \<Rightarrow> t \<le> tm)"

definition list_due_intents :: "run_store \<Rightarrow> datetime \<Rightarrow> int \<Rightarrow> (string \<times> projection_intent) list" where
  "list_due_intents s tm lmt =
     (if lmt \<le> 0 then []
      else let rows = concat (map (\<lambda>r. map (\<lambda>i. (r, i)) (filter (intent_due tm) (run_projection_outbox r)))
                        (st_runs s));
               due_at = (\<lambda>(r, i). case pi_next_attempt_at i of Some t \<Rightarrow> t
                 | None \<Rightarrow> (case pi_claim_expires_at i of Some t \<Rightarrow> t | None \<Rightarrow> run_updated_at r)) in
        map (\<lambda>(r, i). (run_id r, i)) (filter (\<lambda>(r, i). intent_error i = None)
          (take (nat lmt) (sort_key (\<lambda>p. (due_at p, run_id (fst p))) rows))))"

end
