(* ===== verification/Versioned.thy ===== *)
theory Versioned
  imports Prelude
begin

text \<open>
  The contract behind every compare-and-swap store of the program: documents carry a version,
  a writer replaces the document it read only while the version is unchanged, and every other
  operation leaves version and guarded content alone. A client that works from an old snapshot
  then still writes as if it had read and written at once. \<open>content\<close> is what the version guards;
  \<open>allowed\<close> is what the writer's own checks, made on its snapshot, permit.
\<close>

definition keeps ::
  "('s \<Rightarrow> 'k \<Rightarrow> 'd option) \<Rightarrow> ('d \<Rightarrow> int) \<Rightarrow> ('d \<Rightarrow> 'c) \<Rightarrow> 's \<Rightarrow> 's \<Rightarrow> 'k \<Rightarrow> bool" where
  "keeps look version content s s' k \<longleftrightarrow> (case look s k of None \<Rightarrow> True
     | Some d \<Rightarrow> (case look s' k of None \<Rightarrow> False
         | Some d' \<Rightarrow> version d' = version d \<and> content d' = content d))"

definition advances ::
  "('s \<Rightarrow> 'k \<Rightarrow> 'd option) \<Rightarrow> ('d \<Rightarrow> int) \<Rightarrow> ('d \<Rightarrow> 'c) \<Rightarrow> ('c \<Rightarrow> 'c \<Rightarrow> bool) \<Rightarrow> 's \<Rightarrow> 's \<Rightarrow> 'k \<Rightarrow> bool"
  where
  "advances look version content allowed s s' k \<longleftrightarrow> (case (look s k, look s' k) of
      (Some d, Some d') \<Rightarrow> version d' = version d + 1 \<and> allowed (content d) (content d')
    | _ \<Rightarrow> False)"

text \<open>A snapshot is as old as the stored document, or older.\<close>

definition snapshot_ok ::
  "('s \<Rightarrow> 'k \<Rightarrow> 'd option) \<Rightarrow> ('d \<Rightarrow> 'k) \<Rightarrow> ('d \<Rightarrow> int) \<Rightarrow> ('d \<Rightarrow> 'c) \<Rightarrow> 's \<Rightarrow> 'd \<Rightarrow> bool" where
  "snapshot_ok look key version content s c \<longleftrightarrow> (case look s (key c) of None \<Rightarrow> False
     | Some d \<Rightarrow> version c < version d \<or> version c = version d \<and> content c = content d)"

locale versioned_documents =
  fixes look :: "'s \<Rightarrow> 'k \<Rightarrow> 'd option"
    and key :: "'d \<Rightarrow> 'k"
    and version :: "'d \<Rightarrow> int"
    and content :: "'d \<Rightarrow> 'c"
    and allowed :: "'c \<Rightarrow> 'c \<Rightarrow> bool"
    and put :: "'d \<Rightarrow> 's \<Rightarrow> 's \<Rightarrow> bool"
  assumes write_other: "put c s s' \<Longrightarrow> k \<noteq> key c \<Longrightarrow> keeps look version content s s' k"
    and write_own: "put c s s' \<Longrightarrow> keeps look version content s s' (key c)
      \<or> (\<exists>d d'. look s (key c) = Some d \<and> version d = version c \<and> look s' (key c) = Some d'
           \<and> version d' = version c + 1 \<and> allowed (content c) (content d'))"
begin

lemma write_is_atomic:
  assumes "put c s s'" and "snapshot_ok look key version content s c"
  shows "keeps look version content s s' k
    \<or> k = key c \<and> advances look version content allowed s s' k"
proof (cases "k = key c")
  case False
  with write_other [OF assms(1)] show ?thesis by blast
next
  case True
  from write_own [OF assms(1)] show ?thesis
  proof
    assume "\<exists>d d'. look s (key c) = Some d \<and> version d = version c \<and> look s' (key c) = Some d'
        \<and> version d' = version c + 1 \<and> allowed (content c) (content d')"
    then obtain d d' where d: "look s (key c) = Some d" "version d = version c"
        "look s' (key c) = Some d'" "version d' = version c + 1" "allowed (content c) (content d')"
      by blast
    with assms(2) have "content d = content c" by (simp add: snapshot_ok_def)
    with d True show ?thesis by (simp add: advances_def)
  qed (simp add: True)
qed

lemma snapshot_survives:
  assumes "snapshot_ok look key version content s c"
    and "keeps look version content s s' (key c) \<or> advances look version content allowed s s' (key c)"
  shows "snapshot_ok look key version content s' c"
  using assms by (auto simp: snapshot_ok_def keeps_def advances_def split: option.splits)

end

lemma keeps_refl [simp]: "keeps look version content s s k"
  by (simp add: keeps_def split: option.split)

lemma keeps_trans:
  "keeps look version content s t k \<Longrightarrow> keeps look version content t u k
     \<Longrightarrow> keeps look version content s u k"
  by (auto simp: keeps_def split: option.splits)

end
