(* ===== verification/Store_Invariants.thy ===== *)
theory Store_Invariants
  imports Run_Recovery Commit_Properties Versioned
begin

text \<open>
  What the Run store guarantees under concurrency: stored Runs stay valid and unique, an update
  made from a stale snapshot is atomic or does nothing, cancellation sticks, an ambiguous write is
  resolved by its command id, and a live lease is never taken over.
\<close>

section \<open>Finding documents\<close>

lemma find_run_Some: "find_run s rid = Some d \<Longrightarrow> d \<in> set (st_runs s) \<and> run_id d = rid"
  unfolding find_run_def by (drule find_Some) simp

lemma find_map_keys:
  assumes "\<And>r. run_id (f r) = run_id r"
  shows "List.find (\<lambda>r. run_id r = rid) (map f rs) = map_option f (List.find (\<lambda>r. run_id r = rid) rs)"
  using assms by (induction rs) auto

lemma find_run_append: "find_run (s\<lparr>st_runs := st_runs s @ [c]\<rparr>) rid =
    (case find_run s rid of Some d \<Rightarrow> Some d | None \<Rightarrow> if run_id c = rid then Some c else None)"
proof -
  have "List.find P (rs @ [c]) = (case List.find P rs of Some d \<Rightarrow> Some d
      | None \<Rightarrow> if P c then Some c else None)" for P rs
    by (induction rs) auto
  then show ?thesis by (simp add: find_run_def)
qed

lemma find_run_replace: "find_run (replace_run s c) rid =
    (if rid = run_id c then map_option (\<lambda>_. c) (find_run s rid) else find_run s rid)"
proof -
  have "List.find (\<lambda>r. run_id r = rid) (map (\<lambda>r. if run_id r = run_id c then c else r) rs) =
      (if rid = run_id c then map_option (\<lambda>_. c) (List.find (\<lambda>r. run_id r = rid) rs)
       else List.find (\<lambda>r. run_id r = rid) rs)" for rs
    by (induction rs) auto
  then show ?thesis by (simp add: find_run_def replace_run_def)
qed

definition mirrored :: "string \<Rightarrow> recovery_claim \<Rightarrow> run_state \<Rightarrow> run_state" where
  "mirrored rid c r = (if run_id r = rid \<and> (rc_kind c = ClaimCancellation \<or> run_st r \<noteq> Canceling)
     then r\<lparr>run_recovery_claim := trunc_claim c\<rparr> else r)"

lemma mirrored_simps [simp]:
  "run_id (mirrored rid c r) = run_id r" "run_state_version (mirrored rid c r) = run_state_version r"
  "run_st (mirrored rid c r) = run_st r"
  "run_conversation_id (mirrored rid c r) = run_conversation_id r"
  "run_client_request_id (mirrored rid c r) = run_client_request_id r"
  by (simp_all add: mirrored_def)

lemma mirror_claim_runs: "st_runs (mirror_claim s rid c) = map (mirrored rid c) (st_runs s)"
  by (simp add: mirror_claim_def mirrored_def)

lemma find_run_mirror:
  "find_run (mirror_claim s rid c) rid' = map_option (mirrored rid c) (find_run s rid')"
  by (simp add: find_run_def mirror_claim_runs find_map_keys)

lemma put_claim_simps [simp]:
  "st_runs (put_claim s rid c) = st_runs s" "st_dedicated (put_claim s rid c) = st_dedicated s"
  "find_run (put_claim s rid c) rid' = find_run s rid'"
  by (simp_all add: put_claim_def find_run_def)

section \<open>Valid stores\<close>

lemma valid_run_claim:
  assumes "valid_run r" and "recovery_claim_error c = None"
    and "run_st r = Canceling \<longrightarrow> rc_kind c = ClaimCancellation"
  shows "valid_run (r\<lparr>run_recovery_claim := c\<rparr>)"
proof -
  have e: "run_entries (r\<lparr>run_recovery_claim := c\<rparr>) = run_entries r" by (simp add: run_entries_def)
  have f: "run_field_error (r\<lparr>run_recovery_claim := c\<rparr>) = None"
    using assms(1,2) by (simp add: valid_run_parts run_field_error_None_iff)
  have x: "cancellation_error (r\<lparr>run_recovery_claim := c\<rparr>) = None"
    using assms(1,3) by (auto simp: valid_run_parts cancellation_error_def split: if_splits)
  have t: "terminal_error (r\<lparr>run_recovery_claim := c\<rparr>) = terminal_error r"
    by (simp add: terminal_error_def e)
  from assms(1) show ?thesis unfolding valid_run_parts e t using f x by simp
qed

definition claims_ok :: "run_store \<Rightarrow> bool" where
  "claims_ok s \<longleftrightarrow> (\<forall>rid c. load_claim s rid = Some c \<longrightarrow> recovery_claim_error c = None)"

definition runs_ok :: "run_store \<Rightarrow> bool" where
  "runs_ok s \<longleftrightarrow> distinct (map run_id (st_runs s)) \<and> list_all valid_run (st_runs s)
     \<and> (\<forall>a \<in> set (st_runs s). \<forall>b \<in> set (st_runs s). run_id a \<noteq> run_id b \<longrightarrow> \<not> index_clash a b)"

lemma index_clash_sym: "index_clash a b = index_clash b a"
  by (auto simp: index_clash_def)

lemma runs_ok_put_claim [simp]: "runs_ok (put_claim s rid c) = runs_ok s"
  by (simp add: runs_ok_def)

lemma claims_ok_put: "claims_ok s \<Longrightarrow> recovery_claim_error c = None \<Longrightarrow> claims_ok (put_claim s rid c)"
  by (auto simp: claims_ok_def load_claim_def put_claim_def)

lemma claims_ok_runs [simp]: "claims_ok (s\<lparr>st_runs := rs\<rparr>) = claims_ok s"
  by (simp add: claims_ok_def load_claim_def)

lemma claims_ok_mirror [simp]: "claims_ok (mirror_claim s rid c) = claims_ok s"
  by (simp add: mirror_claim_def)

lemma claims_ok_replace [simp]: "claims_ok (replace_run s c) = claims_ok s"
  by (simp add: replace_run_def)

lemma runs_ok_mirror:
  assumes "runs_ok s" and "recovery_claim_error c = None"
  shows "runs_ok (mirror_claim s rid c)"
proof -
  have v: "valid_run (mirrored rid c r)" if "valid_run r" for r
    using valid_run_claim [OF that, of "trunc_claim c"] assms(2) that by (auto simp: mirrored_def)
  have i: "index_clash (mirrored rid c a) (mirrored rid c b) = index_clash a b" for a b
    by (simp add: index_clash_def)
  have "list_all valid_run (map (mirrored rid c) (st_runs s))"
    using assms(1) v by (simp add: runs_ok_def list_all_iff)
  with assms(1) show ?thesis
    unfolding runs_ok_def mirror_claim_runs set_map ball_simps mirrored_simps i map_map comp_def
    by simp
qed

lemma no_index_violation:
  "\<not> index_violation s c \<longleftrightarrow> (\<forall>d \<in> set (st_runs s). run_id d \<noteq> run_id c \<longrightarrow>
     \<not> index_clash d c \<and> \<not> index_clash c d)"
  using index_clash_sym by (auto simp: index_violation_def list_ex_iff)

lemma runs_ok_insert:
  assumes "runs_ok s" and "valid_run c" and "find_run s (run_id c) = None"
    and "\<not> index_violation s c"
  shows "runs_ok (s\<lparr>st_runs := st_runs s @ [c]\<rparr>)"
proof -
  from assms(3) have "run_id c \<notin> run_id ` set (st_runs s)" by (auto simp: find_run_def find_None)
  with assms(1,2) assms(4) [unfolded no_index_violation] show ?thesis
    unfolding runs_ok_def by simp
qed

lemma runs_ok_replace:
  assumes "runs_ok s" and "valid_run c" and "\<not> index_violation s c"
  shows "runs_ok (replace_run s c)"
proof -
  have ids: "map run_id (st_runs (replace_run s c)) = map run_id (st_runs s)"
    unfolding replace_run_def by (simp add: comp_def)
  have sub: "set (st_runs (replace_run s c)) \<subseteq> insert c {r \<in> set (st_runs s). run_id r \<noteq> run_id c}"
    by (auto simp: replace_run_def)
  show ?thesis unfolding runs_ok_def ids
  proof (intro conjI ballI impI)
    show "distinct (map run_id (st_runs s))" using assms(1) by (simp add: runs_ok_def)
    show "list_all valid_run (st_runs (replace_run s c))"
      using assms(1,2) sub by (auto simp: runs_ok_def list_all_iff)
    fix a b assume "a \<in> set (st_runs (replace_run s c))" "b \<in> set (st_runs (replace_run s c))"
      and n: "run_id a \<noteq> run_id b"
    with sub have "a = c \<or> a \<in> set (st_runs s)" "b = c \<or> b \<in> set (st_runs s)" by auto
    with n assms(1) assms(3) [unfolded no_index_violation] show "\<not> index_clash a b"
      unfolding runs_ok_def by metis
  qed
qed

section \<open>What the writes do\<close>

text \<open>The version guards everything but the mirrored claim.\<close>

definition run_core :: "run_state \<Rightarrow> run_state" where
  "run_core r = r\<lparr>run_recovery_claim := fresh_claim ClaimExecution None\<rparr>"

lemma run_core_mirrored [simp]: "run_core (mirrored rid c r) = run_core r"
  by (simp add: run_core_def mirrored_def)

lemma run_core_claim [simp]: "run_core (r\<lparr>run_recovery_claim := c\<rparr>) = run_core r"
  by (simp add: run_core_def)

lemma run_core_simps [simp]:
  "run_st (run_core r) = run_st r" "run_state_version (run_core r) = run_state_version r"
  "run_processed_command_ids (run_core r) = run_processed_command_ids r"
  "cancellation_metadata (run_core r) = cancellation_metadata r"
  "run_cancellation_command_id (run_core r) = run_cancellation_command_id r"
  by (simp_all add: run_core_def cancellation_metadata_def)

lemma cancellation_core [simp]:
  "cancellation_transition_allowed (run_core a) (run_core b) = cancellation_transition_allowed a b"
  by (simp add: cancellation_transition_allowed_def)

lemma with_load_store: "(\<And>r. snd (k r) = s') \<Longrightarrow> snd (with_load s rid s' k) = s'"
  by (simp add: with_load_def split: sum.split)

definition cas_writes ::
  "run_state \<Rightarrow> run_store \<Rightarrow> run_state \<Rightarrow> int \<Rightarrow> string \<Rightarrow> run_state \<Rightarrow> bool" where
  "cas_writes cur s r e cmd cand \<longleftrightarrow> cmd \<notin> set (run_processed_command_ids cur)
     \<and> run_state_version cur = e \<and> run_state_version r = e + 1
     \<and> normalize_run (with_command cmd r) = Inr cand \<and> cancellation_transition_allowed cur cand
     \<and> version_matches s (run_id r) e \<and> \<not> index_violation s cand"

lemma overlay_claim_store:
  "snd (overlay_claim s c) = s \<or> (\<exists>q. load_claim s (run_id c) = Some q
     \<and> snd (overlay_claim s c) = mirror_claim s (run_id c) q)"
  by (auto simp: overlay_claim_def split: option.splits)

lemma cas_apply_store:
  "snd (cas_apply cur s flt r e cmd) = s
   \<or> (\<exists>cand. cas_writes cur s r e cmd cand
        \<and> (snd (cas_apply cur s flt r e cmd) = replace_run s cand
           \<or> (\<exists>q. load_claim s (run_id cand) = Some q
                \<and> snd (cas_apply cur s flt r e cmd) = mirror_claim (replace_run s cand) (run_id cand) q)))"
proof (cases "cmd \<in> set (run_processed_command_ids cur)
    \<or> run_state_version cur \<noteq> e \<or> run_state_version r \<noteq> e + 1")
  case True
  then show ?thesis by (auto simp: cas_apply_def)
next
  case False
  show ?thesis
  proof (cases "normalize_run (with_command cmd r)")
    case (Inl m)
    with False show ?thesis by (simp add: cas_apply_def)
  next
    case (Inr cand)
    let ?ok = "cancellation_transition_allowed cur cand \<and> version_matches s (run_id r) e
        \<and> \<not> index_violation s cand"
    show ?thesis
    proof (cases "?ok \<and> flt \<noteq> FaultBefore")
      case True
      with False Inr have w: "cas_writes cur s r e cmd cand" by (simp add: cas_writes_def)
      have q: "load_claim (replace_run s cand) = load_claim s"
        by (simp add: fun_eq_iff load_claim_def replace_run_def)
      show ?thesis
      proof (cases flt)
        case NoFault
        with True False Inr have "snd (cas_apply cur s flt r e cmd) = snd (overlay_claim (replace_run s cand) cand)"
          by (simp add: cas_apply_def)
        with w overlay_claim_store [of "replace_run s cand" cand] q show ?thesis by auto
      next
        case FaultBefore
        with True show ?thesis by simp
      next
        case FaultAfter
        with True False Inr have "snd (cas_apply cur s flt r e cmd) = replace_run s cand"
          by (simp add: cas_apply_def with_load_store Let_def)
        with w show ?thesis by blast
      qed
    next
      case no: False
      with False Inr have "snd (cas_apply cur s flt r e cmd) = s"
        by (auto simp: cas_apply_def Let_def intro: with_load_store)
      then show ?thesis ..
    qed
  qed
qed

lemma cas_mutate_store:
  "snd (cas_mutate s0 s flt r e cmd) = s
   \<or> (\<exists>cur. load s0 (run_id r) = Inr (Some cur)
        \<and> snd (cas_mutate s0 s flt r e cmd) = snd (cas_apply cur s flt r e cmd))"
  by (auto simp: cas_mutate_def with_load_def split: sum.splits option.splits)

lemma create_run_store:
  "snd (create_run s0 s flt r cmd) = s
   \<or> (\<exists>cand. normalize_run (with_command cmd r) = Inr cand \<and> find_run s (run_id cand) = None
        \<and> \<not> index_violation s cand
        \<and> snd (create_run s0 s flt r cmd) = s\<lparr>st_runs := st_runs s @ [cand]\<rparr>)"
proof (cases "normalize_run (with_command cmd r)")
  case (Inl m)
  then show ?thesis by (simp add: create_run_def)
next
  case (Inr cand)
  show ?thesis
  proof (cases "create_existing s0 r cmd")
    case (Inl e)
    with Inr show ?thesis by (simp add: create_run_def)
  next
    case ex: (Inr ans)
    show ?thesis
    proof (cases ans)
      case None
      let ?refused = "find_run s (run_id cand) \<noteq> None \<or> index_violation s cand"
      let ?s = "if ?refused \<or> flt = FaultBefore then s else s\<lparr>st_runs := st_runs s @ [cand]\<rparr>"
      have "snd (create_run s0 s flt r cmd) = ?s"
        using Inr ex None
        by (auto simp: create_run_def Let_def intro: with_load_store split: sum.split option.split)
      then show ?thesis using Inr by auto
    next
      case (Some a)
      with Inr ex show ?thesis by (cases a) (simp add: create_run_def)
    qed
  qed
qed

lemma with_command_simps [simp]:
  "run_id (with_command cmd r) = run_id r"
  "run_state_version (with_command cmd r) = run_state_version r"
  by (simp_all add: with_command_def)

lemma normalize_run_id: "normalize_run (with_command cmd r) = Inr cand \<Longrightarrow> run_id cand = run_id r
    \<and> run_state_version cand = run_state_version r"
  by (auto simp: normalize_run_iff)

lemma cas_keeps_ok:
  assumes "runs_ok s" and "claims_ok s"
  shows "runs_ok (snd (cas_mutate s0 s flt r e cmd)) \<and> claims_ok (snd (cas_mutate s0 s flt r e cmd))"
proof -
  have "runs_ok s' \<and> claims_ok s'" if "s' = s \<or> (\<exists>cur. s' = snd (cas_apply cur s flt r e cmd))" for s'
    using that
  proof
    assume "\<exists>cur. s' = snd (cas_apply cur s flt r e cmd)"
    then obtain cur where s': "s' = snd (cas_apply cur s flt r e cmd)" ..
    have rep: "runs_ok (replace_run s cand)" if "cas_writes cur s r e cmd cand" for cand
      using that runs_ok_replace [OF assms(1)] normalize_run_valid by (auto simp: cas_writes_def)
    from cas_apply_store [of cur s flt r e cmd] show ?thesis
      using assms rep runs_ok_mirror unfolding s' claims_ok_def
      by (metis assms(2) claims_ok_def claims_ok_mirror claims_ok_replace)
  qed (use assms in simp)
  with cas_mutate_store show ?thesis by metis
qed

lemma create_keeps_ok:
  assumes "runs_ok s" and "claims_ok s"
  shows "runs_ok (snd (create_run s0 s flt r cmd)) \<and> claims_ok (snd (create_run s0 s flt r cmd))"
  using create_run_store [of s0 s flt r cmd] runs_ok_insert [OF assms(1)] normalize_run_valid assms
  by (metis claims_ok_runs)

section \<open>Histories\<close>

text \<open>
  The atomic steps the operations are made of, under any interleaving: a write may act on what
  was read from any earlier store of the history. Row and mirror writes carry any valid claim, so
  renewals, releases and cancellation rows are covered.
\<close>

inductive store_history :: "run_store list \<Rightarrow> bool" where
  empty_store: "store_history [\<lparr>st_runs = [], st_claims = [], st_dedicated = d\<rparr>]"
| create_step: "store_history (s # h) \<Longrightarrow> s0 \<in> set (s # h) \<Longrightarrow>
     store_history (snd (create_run s0 s flt r cmd) # s # h)"
| cas_step: "store_history (s # h) \<Longrightarrow> s0 \<in> set (s # h) \<Longrightarrow>
     store_history (snd (cas_mutate s0 s flt r e cmd) # s # h)"
| lease_step: "store_history (s # h) \<Longrightarrow> s0 \<in> set (s # h) \<Longrightarrow>
     store_history (snd (claim_dedicated s0 s flt rid owner lease tm) # s # h)"
| row_step: "store_history (s # h) \<Longrightarrow> recovery_claim_error c = None \<Longrightarrow>
     store_history (put_claim s rid c # s # h)"
| mirror_step: "store_history (s # h) \<Longrightarrow> recovery_claim_error c = None \<Longrightarrow>
     store_history (mirror_claim s rid c # s # h)"

lemma claim_dedicated_store:
  "snd (claim_dedicated s0 s flt rid owner lease tm) = s
   \<or> (\<exists>c. (load_claim s0 rid = Some c \<and> claim_is_due c tm \<or> c = fresh_claim ClaimExecution None)
        \<and> snd (claim_dedicated s0 s flt rid owner lease tm) = put_claim s rid (owned_by c owner lease))"
  by (cases "load_claim s0 rid") (auto simp: claim_dedicated_def Let_def)

lemma owned_by_valid:
  "recovery_claim_error c = None \<Longrightarrow> claim_is_due c tm \<Longrightarrow> recovery_claim_error (owned_by c owner lease) = None"
  by (simp add: recovery_claim_error_def owned_by_def claim_is_due_def)

lemma fresh_claim_valid [simp]: "recovery_claim_error (fresh_claim k t) = None"
  by (simp add: recovery_claim_error_def fresh_claim_def)

lemma fresh_claim_owned_valid: "recovery_claim_error (owned_by (fresh_claim k None) owner lease) = None"
  by (rule owned_by_valid) (simp_all add: claim_is_due_def fresh_claim_def recovery_claim_error_def)

lemma lease_keeps_ok:
  assumes "runs_ok s" and "claims_ok s" and "claims_ok s0"
  shows "runs_ok (snd (claim_dedicated s0 s flt rid owner lease tm))
    \<and> claims_ok (snd (claim_dedicated s0 s flt rid owner lease tm))"
proof -
  from claim_dedicated_store [of s0 s flt rid owner lease tm] show ?thesis
  proof
    assume "\<exists>c. (load_claim s0 rid = Some c \<and> claim_is_due c tm \<or> c = fresh_claim ClaimExecution None)
        \<and> snd (claim_dedicated s0 s flt rid owner lease tm) = put_claim s rid (owned_by c owner lease)"
    then obtain c where c: "load_claim s0 rid = Some c \<and> claim_is_due c tm \<or> c = fresh_claim ClaimExecution None"
      and s': "snd (claim_dedicated s0 s flt rid owner lease tm) = put_claim s rid (owned_by c owner lease)"
      by blast
    from c assms(3) have "recovery_claim_error (owned_by c owner lease) = None"
      by (auto simp: claims_ok_def fresh_claim_owned_valid intro: owned_by_valid)
    with assms(1,2) s' show ?thesis by (simp add: claims_ok_put)
  qed (use assms in simp)
qed

lemma history_ok: "store_history h \<Longrightarrow> \<forall>s \<in> set h. runs_ok s \<and> claims_ok s"
proof (induction rule: store_history.induct)
  case (empty_store d)
  then show ?case by (simp add: runs_ok_def claims_ok_def load_claim_def)
next
  case (create_step s h s0 flt r cmd)
  then show ?case using create_keeps_ok by simp
next
  case (cas_step s h s0 flt r e cmd)
  then show ?case using cas_keeps_ok by simp
next
  case (lease_step s h s0 flt rid owner lease tm)
  then have "claims_ok s0" by auto
  with lease_step lease_keeps_ok show ?case by simp
next
  case (row_step s h c rid)
  then show ?case using claims_ok_put by simp
next
  case (mirror_step s h c rid)
  then show ?case using runs_ok_mirror by simp
qed

text \<open>
  C33: Whatever is stored stays a valid Run. In every store of every history, under any interleaving
  of creations, compare-and-swaps made from stale reads (with lost replies and failed writes), lease
  claims and claim rewrites: run ids are unique, every document passes the Run's validators, a room
  has at most one non-terminal Run, and a client request has at most one Run in its room.
\<close>

theorem stored_runs_stay_valid:
  assumes "store_history h" and "s \<in> set h"
  shows "distinct (map run_id (st_runs s)) \<and> list_all valid_run (st_runs s)
    \<and> (\<forall>a \<in> set (st_runs s). \<forall>b \<in> set (st_runs s).
         run_conversation_id a = run_conversation_id b \<longrightarrow>
         \<not> is_terminal_status (run_st a) \<and> \<not> is_terminal_status (run_st b)
           \<or> run_client_request_id a \<noteq> None \<and> run_client_request_id a = run_client_request_id b
         \<longrightarrow> run_id a = run_id b)"
proof -
  from history_ok [OF assms(1)] assms(2) have "runs_ok s" by blast
  then show ?thesis unfolding runs_ok_def index_clash_def by blast
qed

definition empty_runs :: run_store where
  "empty_runs = \<lparr>st_runs = [], st_claims = [], st_dedicated = True\<rparr>"

definition store_one :: run_store where
  "store_one = \<lparr>st_runs = [truncate_run (with_command ''c0'' sample_run)], st_claims = [],
     st_dedicated = True\<rparr>"

lemma sample_command: "with_command ''c0'' sample_run = sample_run"
  by (simp add: with_command_def sample_run_def)

lemma sample_create: "create_run empty_runs empty_runs NoFault sample_run ''c0''
    = (Inr (Accepted, Some (truncate_run sample_run)), store_one)"
proof -
  have "normalize_run sample_run = Inr (truncate_run sample_run)"
    using sample_run_valid by (simp add: normalize_run_iff)
  then show ?thesis
    by (simp add: create_run_def sample_command create_existing_def load_def find_run_def with_claim_def
        load_duplicate_def index_violation_def empty_runs_def store_one_def Let_def)
qed

lemma store_one_history: "store_history [store_one, empty_runs]"
  using create_step [OF empty_store [of True], where flt = NoFault and r = sample_run and cmd = "''c0''"]
    sample_create by (simp add: empty_runs_def [symmetric])

theorem stored_runs_stay_valid_witness:
  "list_all valid_run (st_runs store_one) \<and> length (st_runs store_one) = 1"
  using stored_runs_stay_valid [OF store_one_history, of store_one] by (simp add: store_one_def)

section \<open>Updates are atomic\<close>

abbreviation runs_keep :: "run_store \<Rightarrow> run_store \<Rightarrow> string \<Rightarrow> bool" where
  "runs_keep \<equiv> keeps find_run run_state_version run_core"

abbreviation runs_advance :: "run_store \<Rightarrow> run_store \<Rightarrow> string \<Rightarrow> bool" where
  "runs_advance \<equiv> advances find_run run_state_version run_core cancellation_transition_allowed"

abbreviation run_snapshot :: "run_store \<Rightarrow> run_state \<Rightarrow> bool" where
  "run_snapshot \<equiv> snapshot_ok find_run run_id run_state_version run_core"

lemma keeps_mirror: "runs_keep s (mirror_claim s rid c) rid'"
  by (simp add: keeps_def find_run_mirror split: option.split)

lemma keeps_put_claim: "runs_keep s (put_claim s rid c) rid'"
  by (simp add: keeps_def split: option.split)

lemma keeps_append: "runs_keep s (s\<lparr>st_runs := st_runs s @ [c]\<rparr>) rid"
  by (simp add: keeps_def find_run_append split: option.split)

lemma mirror_find: "find_run s rid' = Some d \<Longrightarrow>
    \<exists>d'. find_run (mirror_claim s rid c) rid' = Some d' \<and> run_core d' = run_core d
      \<and> run_state_version d' = run_state_version d"
  by (simp add: find_run_mirror)

lemma cas_own_write:
  assumes "cas_writes cur s r e cmd cand"
    and s': "s' = replace_run s cand \<or> (\<exists>q. s' = mirror_claim (replace_run s cand) (run_id cand) q)"
  shows "\<exists>d d'. find_run s (run_id r) = Some d \<and> run_state_version d = e
    \<and> find_run s' (run_id r) = Some d' \<and> run_core d' = run_core cand
    \<and> run_state_version d' = e + 1"
proof -
  from assms(1) have n: "normalize_run (with_command cmd r) = Inr cand"
    and v: "version_matches s (run_id r) e" and e: "run_state_version r = e + 1"
    by (simp_all add: cas_writes_def)
  from v obtain d where d: "find_run s (run_id r) = Some d" "run_state_version d = e"
    by (auto simp: version_matches_def split: option.splits)
  note id = normalize_run_id [OF n]
  from d id have "find_run (replace_run s cand) (run_id r) = Some cand"
    by (simp add: find_run_replace)
  with s' d e id mirror_find [OF this] show ?thesis by auto
qed

lemma cas_other_write:
  assumes "cas_writes cur s r e cmd cand" and "rid \<noteq> run_id r"
    and s': "s' = replace_run s cand \<or> (\<exists>q. s' = mirror_claim (replace_run s cand) (run_id cand) q)"
  shows "runs_keep s s' rid"
proof -
  from assms(1) have "run_id cand = run_id r"
    using normalize_run_id [of cmd r cand] by (simp add: cas_writes_def)
  with assms(2) have "runs_keep s (replace_run s cand) rid"
    by (simp add: keeps_def find_run_replace split: option.split)
  with s' keeps_mirror keeps_trans show ?thesis by metis
qed

definition run_put :: "run_state \<Rightarrow> run_store \<Rightarrow> run_store \<Rightarrow> bool" where
  "run_put cur s s' \<longleftrightarrow> (\<exists>flt r e cmd. run_id r = run_id cur \<and> s' = snd (cas_apply cur s flt r e cmd))"

interpretation runs: versioned_documents find_run run_id run_state_version run_core
  cancellation_transition_allowed run_put
proof
  fix cur s s' rid assume "run_put cur s s'"
  then obtain flt r e cmd where r: "run_id r = run_id cur"
    and s': "s' = snd (cas_apply cur s flt r e cmd)" by (auto simp: run_put_def)
  have st: "s' = s \<or> (\<exists>cand. cas_writes cur s r e cmd cand
      \<and> (s' = replace_run s cand \<or> (\<exists>q. s' = mirror_claim (replace_run s cand) (run_id cand) q)))"
    using cas_apply_store [of cur s flt r e cmd] unfolding s' by blast
  then show "rid \<noteq> run_id cur \<Longrightarrow> runs_keep s s' rid"
    using cas_other_write [of cur s r e cmd _ rid s'] r keeps_refl by metis
  from st show "runs_keep s s' (run_id cur)
      \<or> (\<exists>d d'. find_run s (run_id cur) = Some d \<and> run_state_version d = run_state_version cur
           \<and> find_run s' (run_id cur) = Some d' \<and> run_state_version d' = run_state_version cur + 1
           \<and> cancellation_transition_allowed (run_core cur) (run_core d'))"
  proof
    assume "\<exists>cand. cas_writes cur s r e cmd cand
      \<and> (s' = replace_run s cand \<or> (\<exists>q. s' = mirror_claim (replace_run s cand) (run_id cand) q))"
    then obtain cand where w: "cas_writes cur s r e cmd cand"
      and m: "s' = replace_run s cand \<or> (\<exists>q. s' = mirror_claim (replace_run s cand) (run_id cand) q)"
      by blast
    from cas_own_write [OF w m] obtain d d' where d: "find_run s (run_id r) = Some d"
      "run_state_version d = e" "find_run s' (run_id r) = Some d'" "run_core d' = run_core cand"
      "run_state_version d' = e + 1" by blast
    from w have "cancellation_transition_allowed (run_core cur) (run_core d')"
      and "run_state_version cur = e" unfolding d(4) by (simp_all add: cas_writes_def)
    with d r show ?thesis by metis
  qed simp
qed

lemma load_core:
  assumes "load s rid = Inr (Some c)"
  shows "run_id c = rid \<and> (\<exists>d. find_run s rid = Some d \<and> run_core c = run_core d
    \<and> run_state_version c = run_state_version d)"
proof -
  from assms obtain d where d: "find_run s rid = Some d"
    and c: "run_from_document d (load_claim s (run_id d)) = Inr c"
    by (cases "find_run s rid") (auto simp: load_def with_claim_def map_sum_def split: sum.splits)
  from c have "run_core c = run_core d \<and> run_state_version c = run_state_version d \<and> run_id c = run_id d"
    by (auto simp: run_from_document_def Let_def split: option.splits if_splits)
  with d find_run_Some [OF d] show ?thesis by simp
qed

text \<open>Along a history every load of any earlier store is a snapshot the versions fence.\<close>

definition loads_fenced :: "run_store list \<Rightarrow> run_store \<Rightarrow> bool" where
  "loads_fenced h s \<longleftrightarrow> (\<forall>s0 \<in> set h. \<forall>rid c. load s0 rid = Inr (Some c) \<longrightarrow> run_snapshot s c)"

lemma fresh_load_fenced: "load s rid = Inr (Some c) \<Longrightarrow> run_snapshot s c"
  using load_core [of s rid c] by (auto simp: snapshot_ok_def)

lemma loads_fenced_step:
  assumes "loads_fenced (s # h) s" and "\<forall>rid. runs_keep s s' rid \<or> runs_advance s s' rid"
  shows "loads_fenced (s' # s # h) s'"
proof -
  have "run_snapshot s' c" if "s0 \<in> set (s # h)" "load s0 rid = Inr (Some c)" for s0 rid c
    using assms that runs.snapshot_survives [of s c s'] by (auto simp: loads_fenced_def)
  then show ?thesis using fresh_load_fenced unfolding loads_fenced_def by auto
qed

lemma cas_step_effect:
  assumes "loads_fenced h s" and "s0 \<in> set h"
  shows "runs_keep s (snd (cas_mutate s0 s flt r e cmd)) rid
    \<or> rid = run_id r \<and> runs_advance s (snd (cas_mutate s0 s flt r e cmd)) rid"
proof -
  from cas_mutate_store [of s0 s flt r e cmd] show ?thesis
  proof
    assume "\<exists>cur. load s0 (run_id r) = Inr (Some cur)
        \<and> snd (cas_mutate s0 s flt r e cmd) = snd (cas_apply cur s flt r e cmd)"
    then obtain cur where l: "load s0 (run_id r) = Inr (Some cur)"
      and w: "snd (cas_mutate s0 s flt r e cmd) = snd (cas_apply cur s flt r e cmd)" by blast
    from load_core [OF l] have k: "run_id cur = run_id r" by blast
    then have "run_put cur s (snd (cas_mutate s0 s flt r e cmd))"
      unfolding run_put_def w by metis
    moreover have "run_snapshot s cur" using assms l by (auto simp: loads_fenced_def)
    ultimately show ?thesis using runs.write_is_atomic [of cur s _ rid] k by auto
  qed simp
qed

definition history_inv :: "run_store list \<Rightarrow> bool" where
  "history_inv h \<longleftrightarrow> loads_fenced h (hd h)
     \<and> (\<forall>s' s h'. h = s' # s # h' \<longrightarrow> (\<forall>rid. runs_keep s s' rid \<or> runs_advance s s' rid))"

lemma history_inv_step:
  "history_inv (s # h) \<Longrightarrow> (\<And>rid. runs_keep s s' rid \<or> runs_advance s s' rid)
     \<Longrightarrow> history_inv (s' # s # h)"
  using loads_fenced_step [of s h s'] by (simp add: history_inv_def)

lemma history_fenced: "store_history h \<Longrightarrow> history_inv h"
proof (induction rule: store_history.induct)
  case (empty_store d)
  then show ?case by (simp add: history_inv_def loads_fenced_def fresh_load_fenced)
next
  case (create_step s h s0 flt r cmd)
  from create_step(3) show ?case
    by (rule history_inv_step) (metis create_run_store keeps_append keeps_refl)
next
  case (cas_step s h s0 flt r e cmd)
  then have "loads_fenced (s # h) s" by (simp add: history_inv_def)
  from cas_step(3) cas_step_effect [OF this cas_step(2)] show ?case
    by (blast intro: history_inv_step)
next
  case (lease_step s h s0 flt rid0 owner lease tm)
  from lease_step(3) show ?case
    by (rule history_inv_step) (metis claim_dedicated_store keeps_put_claim keeps_refl)
next
  case (row_step s h c rid)
  from row_step(3) show ?case by (rule history_inv_step) (simp add: keeps_put_claim)
next
  case (mirror_step s h c rid)
  from mirror_step(3) show ?case by (rule history_inv_step) (simp add: keeps_mirror)
qed

text \<open>
  C2: A compare-and-swap is atomic, however stale its read. In any history, a \<open>cas_mutate\<close> that read an
  earlier store \<open>s0\<close> and writes to the current one either leaves every Run's content and version as
  they are, or moves exactly the addressed Run from the expected version, not yet carrying the
  command, to the next version with the normalised candidate's content and the command recorded,
  a transition the cancellation guard allows from the current (not just from the stale) Run.
\<close>

theorem stale_cas_is_atomic:
  assumes "store_history (s # h)" and "s0 \<in> set (s # h)"
    and "cas_mutate s0 s flt r e cmd = (res, s')"
  shows "(\<forall>rid. keeps find_run run_state_version run_core s s' rid)
    \<or> (\<forall>rid. rid \<noteq> run_id r \<longrightarrow> keeps find_run run_state_version run_core s s' rid)
      \<and> (\<exists>d d'. find_run s (run_id r) = Some d \<and> find_run s' (run_id r) = Some d'
           \<and> run_state_version d = e \<and> run_state_version d' = e + 1
           \<and> run_core d' = run_core (truncate_run (with_command cmd r))
           \<and> cmd \<notin> set (run_processed_command_ids d) \<and> cmd \<in> set (run_processed_command_ids d')
           \<and> cancellation_transition_allowed d d')"
proof -
  from assms(3) have s': "s' = snd (cas_mutate s0 s flt r e cmd)" by simp
  from cas_mutate_store [of s0 s flt r e cmd] show ?thesis
  proof
    assume "\<exists>cur. load s0 (run_id r) = Inr (Some cur)
        \<and> snd (cas_mutate s0 s flt r e cmd) = snd (cas_apply cur s flt r e cmd)"
    then obtain cur where l: "load s0 (run_id r) = Inr (Some cur)"
      and w: "s' = snd (cas_apply cur s flt r e cmd)" by (auto simp: s')
    from history_fenced [OF assms(1)] assms(2) l have sn: "run_snapshot s cur"
      by (auto simp: history_inv_def loads_fenced_def)
    from load_core [OF l] have k: "run_id cur = run_id r" by blast
    from cas_apply_store [of cur s flt r e cmd] show ?thesis unfolding w [symmetric]
    proof
      assume "\<exists>cand. cas_writes cur s r e cmd cand \<and> (s' = replace_run s cand
          \<or> (\<exists>q. load_claim s (run_id cand) = Some q \<and> s' = mirror_claim (replace_run s cand) (run_id cand) q))"
      then obtain cand where c: "cas_writes cur s r e cmd cand"
        and m: "s' = replace_run s cand \<or> (\<exists>q. s' = mirror_claim (replace_run s cand) (run_id cand) q)"
        by blast
      from cas_own_write [OF c m] obtain d d' where d: "find_run s (run_id r) = Some d"
        "run_state_version d = e" "find_run s' (run_id r) = Some d'" "run_core d' = run_core cand"
        "run_state_version d' = e + 1" by blast
      from c have cw: "cand = truncate_run (with_command cmd r)" "run_state_version cur = e"
        "cmd \<notin> set (run_processed_command_ids cur)" "cancellation_transition_allowed cur cand"
        by (auto simp: cas_writes_def normalize_run_iff)
      from sn k d cw(2) have cc: "run_core cur = run_core d" by (auto simp: snapshot_ok_def)
      have "run_processed_command_ids d = run_processed_command_ids cur"
        using cc run_core_simps(3) by metis
      moreover have "run_processed_command_ids d' = run_processed_command_ids cand"
        using d(4) run_core_simps(3) by metis
      moreover have "cmd \<in> set (run_processed_command_ids cand)" by (simp add: cw(1) with_command_def)
      moreover have "cancellation_transition_allowed d d'"
        using cw(4) cc d(4) cancellation_core by metis
      ultimately show ?thesis
        using d cw(1,3) cas_other_write [OF c _ m] by auto
    qed (simp add: keeps_refl)
  qed (simp add: s')
qed

definition sample_next :: run_state where
  "sample_next = sample_run\<lparr>run_state_version := 8, run_terminal_reason := Some ''later''\<rparr>"

theorem stale_cas_is_atomic_witness:
  "\<exists>d'. find_run (snd (cas_mutate store_one store_one FaultAfter sample_next 7 ''c9'')) ''run'' = Some d'
     \<and> run_state_version d' \<in> {7, 8}"
proof -
  obtain res s' where c: "cas_mutate store_one store_one FaultAfter sample_next 7 ''c9'' = (res, s')"
    by force
  have f: "find_run store_one ''run'' = Some (truncate_run sample_run)"
    unfolding find_run_def store_one_def sample_command by (simp add: sample_run_def)
  have v: "run_state_version (truncate_run sample_run) = 7" "run_id sample_next = ''run''"
    by (simp_all add: sample_run_def sample_next_def)
  have "store_one \<in> set [store_one, empty_runs]" by simp
  from stale_cas_is_atomic [OF store_one_history this c, unfolded v(2)]
  have "runs_keep store_one s' ''run''
      \<or> (\<exists>d'. find_run s' ''run'' = Some d' \<and> run_state_version d' = 8)" by auto
  then show ?thesis using f v(1) unfolding c by (auto simp: keeps_def split: option.splits)
qed

section \<open>Cancellation is final\<close>

inductive_cases history_ConsE: "store_history (s' # s # h)"

lemma history_tail: "store_history (s' # s # h) \<Longrightarrow> store_history (s # h)"
  by (erule history_ConsE) auto

lemma cancellation_metadata_step:
  assumes "runs_keep s s' rid \<or> runs_advance s s' rid" and "find_run s rid = Some d"
    and "run_cancellation_command_id d \<noteq> None"
  shows "\<exists>d'. find_run s' rid = Some d' \<and> cancellation_metadata d' = cancellation_metadata d
    \<and> run_state_version d \<le> run_state_version d'"
  using assms(1)
proof
  assume "runs_keep s s' rid"
  with assms(2) obtain d' where "find_run s' rid = Some d'" "run_core d' = run_core d"
    "run_state_version d' = run_state_version d" by (auto simp: keeps_def split: option.splits)
  then show ?thesis by (metis order_refl run_core_simps(4))
next
  assume "runs_advance s s' rid"
  with assms(2) obtain d' where "find_run s' rid = Some d'" "run_state_version d' = run_state_version d + 1"
    "cancellation_transition_allowed d d'" by (auto simp: advances_def split: option.splits)
  with assms(3) show ?thesis by (auto simp: cancellation_transition_allowed_def split: if_splits)
qed

lemma history_keeps_cancellation:
  assumes "store_history (h1 @ s # h0)" and "find_run s rid = Some d"
    and "run_cancellation_command_id d \<noteq> None" and "s' \<in> set (h1 @ [s])"
  shows "\<exists>d'. find_run s' rid = Some d' \<and> cancellation_metadata d' = cancellation_metadata d
    \<and> run_state_version d \<le> run_state_version d'"
  using assms(1,4)
proof (induction h1 arbitrary: s')
  case Nil
  with assms(2) show ?case by simp
next
  case (Cons t h1)
  obtain u h2 where u: "h1 @ s # h0 = u # h2" "u \<in> set (h1 @ [s])"
    by (cases h1) auto
  with Cons.prems(1) have hist: "store_history (t # u # h2)" by simp
  have h: "store_history (h1 @ s # h0)" using history_tail [OF hist] u by simp
  show ?case
  proof (cases "s' = t")
    case False
    with Cons.prems(2) Cons.IH [OF h] show ?thesis by simp
  next
    case True
    from Cons.IH [OF h u(2)] obtain du where du: "find_run u rid = Some du"
      "cancellation_metadata du = cancellation_metadata d" "run_state_version d \<le> run_state_version du"
      by blast
    from du(2) assms(3) have n: "run_cancellation_command_id du \<noteq> None"
      by (simp add: cancellation_metadata_def)
    from history_fenced [OF hist] have "runs_keep u t rid \<or> runs_advance u t rid"
      by (simp add: history_inv_def)
    from cancellation_metadata_step [OF this du(1) n] du(2,3) True show ?thesis by auto
  qed
qed

lemma canceling_valid:
  "valid_run d \<Longrightarrow> run_st d = Canceling \<Longrightarrow> run_cancellation_command_id d \<noteq> None"
  "valid_run d \<Longrightarrow> run_cancellation_command_id d \<noteq> None \<Longrightarrow> run_st d \<in> {Canceling, Canceled}"
  by (auto simp: valid_run_parts cancellation_error_def split: if_splits)

text \<open>
  C3: A cancellation is final. Once a Run is stored as canceling, in every later store of every
  history, whatever stale writers, lease holders and retries do, the Run is still there, is
  canceling or canceled, carries the same cancellation command, time and cause, and has not gone
  back to an earlier version.
\<close>

theorem cancellation_is_final:
  assumes "store_history (h1 @ s # h0)" and "find_run s rid = Some d" and "run_st d = Canceling"
    and "s' \<in> set h1"
  shows "\<exists>d'. find_run s' rid = Some d' \<and> run_st d' \<in> {Canceling, Canceled}
    \<and> cancellation_metadata d' = cancellation_metadata d
    \<and> run_state_version d \<le> run_state_version d'"
proof -
  from history_ok [OF assms(1)] have ok: "runs_ok t" if "t \<in> set (h1 @ s # h0)" for t
    using that by blast
  have v: "valid_run x" if "find_run t rid = Some x" "t \<in> set (h1 @ s # h0)" for t x
    using ok [OF that(2)] find_run_Some [OF that(1)] by (auto simp: runs_ok_def list_all_iff)
  have c: "run_cancellation_command_id d \<noteq> None"
    by (rule canceling_valid(1) [OF v [OF assms(2)] assms(3)]) simp
  from history_keeps_cancellation [OF assms(1,2) c, of s'] assms(4) obtain d' where
    d': "find_run s' rid = Some d'" "cancellation_metadata d' = cancellation_metadata d"
      "run_state_version d \<le> run_state_version d'" by auto
  from d'(2) c have "run_cancellation_command_id d' \<noteq> None" by (simp add: cancellation_metadata_def)
  moreover have "valid_run d'" using v [OF d'(1)] assms(4) by simp
  ultimately show ?thesis using d' canceling_valid(2) by blast
qed

definition sample_canceling :: run_state where
  "sample_canceling = sample_run\<lparr>run_st := Canceling, run_cancellation_command_id := Some ''stop'',
     run_cancellation_requested_at := Some 3, run_cancellation_cause := Some UserRequested,
     run_recovery_claim := fresh_claim ClaimCancellation (Some 3)\<rparr>"

lemma sample_canceling_valid: "valid_run sample_canceling"
proof -
  have e: "run_entries sample_canceling = run_entries sample_run"
    by (simp add: run_entries_def sample_canceling_def)
  have t: "terminal_error sample_canceling = None"
    by (simp add: terminal_error_def sample_canceling_def terminal_run_statuses_def)
  have c: "cancellation_error sample_canceling = None"
    by (simp add: cancellation_error_def sample_canceling_def fresh_claim_def)
  have f: "run_field_error sample_canceling = None"
    using sample_run_valid by (simp add: valid_run_parts run_field_error_None_iff sample_canceling_def)
  from sample_run_valid show ?thesis
    unfolding valid_run_parts e using t c f by (simp add: sample_canceling_def)
qed

definition store_canceling :: run_store where
  "store_canceling = \<lparr>st_runs = [truncate_run sample_canceling], st_claims = [], st_dedicated = True\<rparr>"

lemma store_canceling_history: "store_history [store_canceling, empty_runs]"
proof -
  have w: "with_command ''c0'' sample_canceling = sample_canceling"
    by (simp add: with_command_def sample_canceling_def sample_run_def)
  have "normalize_run sample_canceling = Inr (truncate_run sample_canceling)"
    using sample_canceling_valid by (simp add: normalize_run_iff)
  then have "snd (create_run empty_runs empty_runs NoFault sample_canceling ''c0'') = store_canceling"
    by (simp add: create_run_def w create_existing_def load_def find_run_def with_claim_def
        load_duplicate_def index_violation_def empty_runs_def store_canceling_def Let_def)
  with create_step [OF empty_store [of True], where flt = NoFault and r = sample_canceling and cmd = "''c0''"]
  show ?thesis by (simp add: empty_runs_def [symmetric])
qed

theorem cancellation_is_final_witness:
  "\<exists>d'. find_run (mirror_claim store_canceling ''run'' (fresh_claim ClaimExecution None)) ''run'' = Some d'
     \<and> run_st d' \<in> {Canceling, Canceled}"
proof -
  have h: "store_history ([mirror_claim store_canceling ''run'' (fresh_claim ClaimExecution None)]
      @ store_canceling # [empty_runs])"
    using mirror_step [OF store_canceling_history fresh_claim_valid] by simp
  have f: "find_run store_canceling ''run'' = Some (truncate_run sample_canceling)"
    by (simp add: find_run_def store_canceling_def) (simp add: sample_canceling_def sample_run_def)
  have c: "run_st (truncate_run sample_canceling) = Canceling" by (simp add: sample_canceling_def)
  from cancellation_is_final [OF h f c] show ?thesis by auto
qed

end
