(* ===== verification/Store_Operations.thy ===== *)
theory Store_Operations
  imports Store_Invariants
begin

text \<open>
  The composed operations of the Run store: each is a sequence of the atomic steps of
  \<open>Store_Invariants\<close>, so the invariants hold through it; the answers of retried and ambiguous
  writes; the exclusion of the recovery lease; and what the due-Run listing returns.
\<close>

section \<open>Operations as histories\<close>

definition leads :: "run_store list \<Rightarrow> run_store \<Rightarrow> bool" where
  "leads h s' \<longleftrightarrow> (\<exists>h'. store_history (h' @ h) \<and> h' @ h \<noteq> [] \<and> hd (h' @ h) = s')"

lemma leads_refl: "store_history (s # h) \<Longrightarrow> leads (s # h) s"
  unfolding leads_def by (intro exI [of _ "[]"]) simp

lemma leads_trans:
  assumes "leads h s1" and "\<And>h1. store_history (s1 # h1) \<Longrightarrow> leads (s1 # h1) s2"
  shows "leads h s2"
proof -
  from assms(1) obtain h' where h': "store_history (h' @ h)" "h' @ h \<noteq> []" "hd (h' @ h) = s1"
    by (auto simp: leads_def)
  then have "h' @ h = s1 # tl (h' @ h)" by (metis list.collapse)
  with h'(1) assms(2) [of "tl (h' @ h)"] show ?thesis unfolding leads_def by (metis append_assoc)
qed

lemma leads_cas: "store_history (s # h) \<Longrightarrow> leads (s # h) (snd (cas_now s r e cmd))"
  unfolding leads_def cas_now_def
  by (intro exI [of _ "[snd (cas_mutate s s NoFault r e cmd)]"]) (simp add: cas_step)

lemma leads_put: "store_history (s # h) \<Longrightarrow> recovery_claim_error c = None \<Longrightarrow>
    leads (s # h) (put_claim s rid c)"
  unfolding leads_def by (intro exI [of _ "[put_claim s rid c]"]) (simp add: row_step)

lemma leads_mirror: "store_history (s # h) \<Longrightarrow> recovery_claim_error c = None \<Longrightarrow>
    leads (s # h) (mirror_claim s rid c)"
  unfolding leads_def by (intro exI [of _ "[mirror_claim s rid c]"]) (simp add: mirror_step)

lemma leads_lease: "store_history (s # h) \<Longrightarrow>
    leads (s # h) (snd (claim_dedicated s s flt rid owner lease tm))"
  unfolding leads_def
  by (intro exI [of _ "[snd (claim_dedicated s s flt rid owner lease tm)]"]) (simp add: lease_step)

lemma leads_replace_cancellation:
  "store_history (s # h) \<Longrightarrow> leads (s # h) (replace_cancellation_recovery s rid tm)"
  unfolding replace_cancellation_recovery_def Let_def
  by (rule leads_trans [OF leads_put leads_mirror]) simp_all

lemma update_dedicated_store:
  "snd (update_dedicated s flt rid owner c) \<in> {s, put_claim s rid c}"
  by (auto simp: update_dedicated_def Let_def)

lemma leads_update: "store_history (s # h) \<Longrightarrow> recovery_claim_error c = None \<Longrightarrow>
    leads (s # h) (snd (update_dedicated s flt rid owner c))"
  using update_dedicated_store [of s flt rid owner c] leads_refl leads_put by auto

lemma load_valid: "load s rid = Inr (Some c) \<Longrightarrow> valid_run c"
proof -
  assume "load s rid = Inr (Some c)"
  then obtain d where "run_from_document d (load_claim s (run_id d)) = Inr c"
    by (cases "find_run s rid") (auto simp: load_def with_claim_def map_sum_def split: sum.splits)
  then show ?thesis
    by (auto simp: run_from_document_def Let_def valid_run_def split: option.splits if_splits)
qed

lemma loaded_claim_valid: "load s rid = Inr (Some c) \<Longrightarrow> recovery_claim_error (run_recovery_claim c) = None"
  by (drule load_valid) (simp add: valid_run_parts run_field_error_None_iff)

lemma leads_with_load:
  assumes "store_history (s' # h)" and "\<And>r. load s rid = Inr r \<Longrightarrow> leads (s' # h) (snd (k r))"
  shows "leads (s' # h) (snd (with_load s rid s' k))"
  using assms leads_refl by (cases "load s rid") (simp_all add: with_load_def)

lemma leads_load_answer:
  "store_history (s' # h) \<Longrightarrow> (\<And>r. snd (k r) = s') \<Longrightarrow> leads (s' # h) (snd (with_load s rid s' k))"
  by (simp add: with_load_store leads_refl)

lemma leads_request_cancellation:
  assumes h: "store_history (s # h)"
  shows "leads (s # h) (snd (request_cancellation s rid e cmd cause tm))"
  unfolding request_cancellation_def
proof (rule leads_with_load [OF h])
  fix run
  show "leads (s # h) (snd (case run of None \<Rightarrow> (Inr (StoreError, None), s)
    | Some r \<Rightarrow>
        if cmd \<in> set (run_processed_command_ids r)
          then (Inr (Replayed, Some r), replace_cancellation_recovery s rid tm)
        else if run_state_version r \<noteq> e
             \<or> run_st r \<notin> {Queued, Running, WaitingExternal, AwaitingUser}
          then (Inr (Conflict, Some r), s)
        else (case cas_now s (canceling_candidate r cmd cause tm) (run_state_version r) cmd of
            (Inl e, s') \<Rightarrow> (Inl e, s')
          | (Inr (oc, x), s') \<Rightarrow>
              if oc \<in> {Accepted, Replayed} then
                (let s'' = replace_cancellation_recovery s' rid tm in
                 with_load s'' rid s'' (\<lambda>latest.
                   (Inr (oc, case latest of None \<Rightarrow> x | Some l \<Rightarrow> Some l), s'')))
              else (Inr (oc, x), s'))))"
  proof (cases run)
    case None
    with h show ?thesis by (simp add: leads_refl)
  next
    case (Some r)
    obtain res s' where c: "cas_now s (canceling_candidate r cmd cause tm) (run_state_version r) cmd = (res, s')"
      by force
    from leads_cas [OF h, of "canceling_candidate r cmd cause tm" "run_state_version r" cmd] c
    have s': "leads (s # h) s'" by simp
    have s'': "leads (s # h) (replace_cancellation_recovery s' rid tm)"
      by (rule leads_trans [OF s' leads_replace_cancellation])
    show ?thesis
      using h s' s'' leads_replace_cancellation [OF h] leads_refl [OF h]
      by (cases res) (auto simp: Some c Let_def with_load_store)
  qed
qed

lemma leads_intent_op:
  assumes h: "store_history (s # h)"
  shows "leads (s # h) (snd (intent_op s rid iid e cmd f))"
  unfolding intent_op_def
proof (rule leads_with_load [OF h])
  fix run
  show "leads (s # h) (snd (case run of None \<Rightarrow> (Inr (Conflict, None), s)
    | Some r \<Rightarrow>
        if run_state_version r \<noteq> e then (Inr (Conflict, Some r), s)
        else (case update_intent iid f (run_projection_outbox r) of
            None \<Rightarrow> (Inr (Conflict, Some r), s)
          | Some (Inl e) \<Rightarrow> (Inl (TransitionFailed e), s)
          | Some (Inr is) \<Rightarrow> cas_now s (r\<lparr>run_projection_outbox := is,
              run_state_version := run_state_version r + 1\<rparr>) (run_state_version r) cmd)))"
    using leads_refl [OF h] leads_cas [OF h] by (auto split: option.split sum.split)
qed

lemma leads_intents:
  assumes h: "store_history (s # h)"
  shows "leads (s # h) (snd (claim_intent s rid iid e owner lease))"
    and "leads (s # h) (snd (complete_intent s rid iid e owner))"
    and "leads (s # h) (snd (block_intent s rid iid e owner reason))"
    and "leads (s # h) (snd (release_intent s rid iid e owner next_at now))"
  using leads_intent_op [OF h] leads_refl [OF h] leads_with_load [OF h]
  by (auto simp: claim_intent_def complete_intent_def block_intent_def release_intent_def Let_def
      intro!: leads_with_load [OF h] split: option.split)

lemma leads_cas_then: "leads h s1 \<Longrightarrow> leads h (snd (cas_now s1 r e cmd))"
  by (erule leads_trans) (rule leads_cas)

lemma leads_update_then:
  "leads h s1 \<Longrightarrow> recovery_claim_error c = None \<Longrightarrow> leads h (snd (update_dedicated s1 flt rid owner c))"
  by (erule leads_trans) (rule leads_update)

lemma leads_mirror_then:
  "leads h s1 \<Longrightarrow> recovery_claim_error c = None \<Longrightarrow> leads h (mirror_claim s1 rid c)"
  by (erule leads_trans) (rule leads_mirror)

lemma leads_put_then:
  "leads h s1 \<Longrightarrow> recovery_claim_error c = None \<Longrightarrow> leads h (put_claim s1 rid c)"
  by (erule leads_trans) (rule leads_put)

lemma leads_answer: "leads h s' \<Longrightarrow> (\<And>r. snd (k r) = s') \<Longrightarrow> leads h (snd (with_load s rid s' k))"
  by (simp add: with_load_store)

lemma leads_loaded:
  assumes "store_history (s # h)" and "snd (k None) = s"
    and "\<And>r. load s rid = Inr (Some r) \<Longrightarrow> leads (s # h) (snd (k (Some r)))"
  shows "leads (s # h) (snd (with_load s rid s k))"
  by (rule leads_with_load [OF assms(1)]) (metis assms leads_refl option.exhaust)

lemma leads_admit:
  assumes "leads h s" and "recovery_claim_error (run_recovery_claim r) = None"
  shows "leads h (snd (admit_claimed s rid r owner acquired))"
proof -
  let ?released = "(run_recovery_claim r)\<lparr>rc_owner_id := None, rc_lease_expires_at := None\<rparr>"
  have v: "recovery_claim_error ?released = None"
    using assms(2) by (simp add: recovery_claim_error_def)
  obtain a s1 where c: "cas_now s (with_recovery r acquired) (run_state_version r) (claim_command owner r) = (a, s1)"
    by force
  with leads_cas_then [OF assms(1)] have s1: "leads h s1" by (metis snd_conv)
  obtain b s2 where u: "update_dedicated s1 NoFault rid owner ?released = (b, s2)" by force
  with leads_update_then [OF s1 v] have s2: "leads h s2" by (metis snd_conv)
  from s1 s2 leads_mirror_then [OF s2 v] show ?thesis
    by (simp add: admit_claimed_def c u Let_def split: sum.split prod.split bool.split)
qed

lemma leads_claim_recovery:
  assumes h: "store_history (s # h)" and d: "st_dedicated s"
  shows "leads (s # h) (snd (claim_recovery s rid e owner lease tm sched))"
  unfolding claim_recovery_def
proof (rule leads_loaded [OF h], simp, goal_cases)
  case (1 r)
  note v = loaded_claim_valid [OF 1]
  obtain a s1 where a: "claim_dedicated s s NoFault rid owner lease tm = (a, s1)" by force
  with leads_lease [OF h] have s1: "leads (s # h) s1" by (metis snd_conv)
  from d s1 leads_refl [OF h] leads_admit [OF s1 v] leads_answer [OF s1] show ?case
    by (simp add: Let_def a split: sum.split option.split)
qed

lemma leads_renew_recovery:
  assumes h: "store_history (s # h)" and d: "st_dedicated s"
  shows "leads (s # h) (snd (renew_recovery s rid e owner lease))"
  unfolding renew_recovery_def
proof (rule leads_loaded [OF h], simp, goal_cases)
  case (1 r)
  let ?c = "(run_recovery_claim r)\<lparr>rc_lease_expires_at := Some lease\<rparr>"
  from loaded_claim_valid [OF 1] have v: "recovery_claim_error ?c = None"
    by (auto simp: recovery_claim_error_def)
  obtain b s1 where u: "update_dedicated s NoFault rid owner ?c = (b, s1)" by force
  with leads_update [OF h v] have s1: "leads (s # h) s1" by (metis snd_conv)
  from d s1 leads_refl [OF h] leads_mirror_then [OF s1 v] leads_answer [OF s1] show ?case
    by (simp add: Let_def u renewed_def split: sum.split bool.split)
qed

lemma leads_commit_release:
  assumes "leads h s" and v: "recovery_claim_error claim = None"
  shows "leads h (snd (commit_release s rid r owner claim))"
proof -
  obtain a s1 where c: "cas_now s (with_recovery r claim) (run_state_version r)
      (''release:'' @ owner @ '':'' @ show_int (run_state_version r)) = (a, s1)" by force
  with leads_cas_then [OF assms(1)] have s1: "leads h s1" by (metis snd_conv)
  from leads_mirror_then [OF this v] have "leads h (mirror_claim s1 rid claim)" .
  with s1 show ?thesis unfolding commit_release_def c
    by (auto simp: Let_def split: sum.split option.split intro!: leads_answer)
qed

lemma leads_release_recovery:
  assumes h: "store_history (s # h)" and d: "st_dedicated s"
  shows "leads (s # h) (snd (release_recovery s rid e owner nxt n q qr))"
  unfolding release_recovery_def
proof (rule leads_loaded [OF h], simp, goal_cases)
  case (1 r)
  let ?c = "\<lparr>rc_kind = rc_kind (run_recovery_claim r), rc_owner_id = None,
            rc_lease_expires_at = None, rc_next_attempt_at = nxt, rc_failure_count = n,
            rc_quarantined_at = q, rc_quarantine_reason = qr\<rparr>"
  show ?case
  proof (cases "recovery_claim_error ?c")
    case None
    obtain b s1 where u: "update_dedicated s NoFault rid owner ?c = (b, s1)" by force
    with leads_update [OF h None] have s1: "leads (s # h) s1" by (metis snd_conv)
    from d s1 None leads_refl [OF h] leads_commit_release [OF s1 None] leads_answer [OF s1] show ?thesis
      by (simp add: Let_def u split: sum.split bool.split)
  next
    case (Some m)
    with leads_refl [OF h] show ?thesis by (simp add: Let_def)
  qed
qed

lemma leads_store_schedule:
  assumes s: "leads h s" and v: "recovery_claim_error claim = None"
    and row: "\<And>c. load_claim s rid = Some c \<Longrightarrow> recovery_claim_error c = None"
  shows "leads h (snd (store_schedule s rid due nxt claim))"
proof -
  have w: "leads h (snd (let s' = put_claim s rid c in with_load s' rid s' (\<lambda>l. (Inr (Accepted, l), s'))))"
    if "recovery_claim_error c = None" for c
    using leads_put_then [OF s that] leads_answer by (simp add: Let_def)
  have r: "recovery_claim_error (c\<lparr>rc_next_attempt_at := Some nxt\<rparr>) = None"
    if "load_claim s rid = Some c" for c
    using row [OF that] by (auto simp: recovery_claim_error_def)
  show ?thesis unfolding store_schedule_def
    using w [OF v] w [OF r] leads_answer [OF s]
    by (simp add: Let_def split: option.split)
qed

lemma leads_history: "leads h s \<Longrightarrow> \<exists>h'. store_history (s # h')"
  unfolding leads_def by (metis list.collapse)

lemma leads_schedule_recovery:
  assumes h: "store_history (s # h)"
  shows "leads (s # h) (snd (schedule_recovery f s rid e nxt))"
  unfolding schedule_recovery_def
proof (rule leads_loaded [OF h], simp, goal_cases)
  case (1 r)
  let ?c = "(run_recovery_claim r)\<lparr>rc_next_attempt_at := Some nxt\<rparr>"
  from loaded_claim_valid [OF 1] have v: "recovery_claim_error ?c = None"
    by (auto simp: recovery_claim_error_def)
  obtain a s1 where c: "cas_now s (with_recovery r ?c) (run_state_version r) (schedule_command f r nxt) = (a, s1)" by force
  with leads_cas [OF h] have s1: "leads (s # h) s1" by (metis snd_conv)
  from leads_history [OF this] history_ok have "claims_ok s1" by fastforce
  then have "recovery_claim_error q = None" if "load_claim s1 rid = Some q" for q
    using that by (simp add: claims_ok_def)
  then have st: "leads (s # h) (snd (store_schedule s1 rid due nxt ?c))" for due
    by (rule leads_store_schedule [OF s1 v])
  from c have c': "run_state_version r = e \<Longrightarrow>
      cas_now s (with_recovery r ?c) e (schedule_command f r nxt) = (a, s1)" by simp
  show ?case
    using leads_refl [OF h] s1 st
    by (simp add: Let_def c' split: option.split sum.split)
qed

lemma leads_repair_loop:
  assumes "store_history (s # h)"
  shows "leads (s # h) (snd (repair_loop now lmt ds s n))"
  using assms
proof (induction now lmt ds s n arbitrary: h rule: repair_loop.induct)
  case (1 now lmt s n)
  then show ?case by (simp add: leads_refl)
next
  case (2 now lmt d ds s n)
  let ?row = "load_claim s (run_id d)"
  let ?cancel = "case ?row of None \<Rightarrow> False | Some c \<Rightarrow> rc_kind c = ClaimCancellation"
  let ?at = "case run_cancellation_requested_at d of None \<Rightarrow> now | Some t \<Rightarrow> t"
  let ?s = "case ?row of
              Some c \<Rightarrow> if rc_kind c = ClaimCancellation then mirror_claim s (run_id d) c
                else replace_cancellation_recovery s (run_id d) ?at
            | None \<Rightarrow> replace_cancellation_recovery s (run_id d) ?at"
  from history_ok [OF 2(3)] have "claims_ok s" by simp
  then have s': "leads (s # h) ?s"
    using leads_mirror [OF 2(3)] leads_replace_cancellation [OF 2(3)]
    by (auto simp: claims_ok_def split: option.split)
  show ?case
  proof (cases "?cancel \<and> rc_kind (run_recovery_claim d) = ClaimCancellation")
    case True
    with 2(1) [OF refl refl True 2(3)] show ?thesis by (simp add: Let_def)
  next
    case False
    note skip = False
    show ?thesis
    proof (cases "lmt \<le> n + 1")
      case True
      from s' show ?thesis
        unfolding repair_loop.simps Let_def if_not_P [OF skip] if_P [OF True] by simp
    next
      case False
      have "leads (s # h) (snd (repair_loop now lmt ds ?s (n + 1)))"
        by (rule leads_trans [OF s']) (rule 2(2) [OF refl refl skip refl False])
      then show ?thesis
        unfolding repair_loop.simps Let_def if_not_P [OF skip] if_not_P [OF False] by simp
    qed
  qed
qed

lemma leads_repair: "store_history (s # h) \<Longrightarrow> leads (s # h) (snd (repair_canceling_recovery s now lmt))"
  by (simp add: repair_canceling_recovery_def Let_def leads_refl leads_repair_loop)

section \<open>Every operation keeps the store\<close>

datatype store_request =
    ReqCreate fault run_state string
  | ReqCas fault run_state int string
  | ReqCancel string int string cancellation_cause datetime
  | ReqRepair datetime int
  | ReqSchedule string int datetime
  | ReqClaim string int string datetime datetime bool
  | ReqRenew string int string datetime
  | ReqRelease string int string "datetime option" int "datetime option" "quarantine_reason option"
  | ReqClaimIntent string string int string datetime
  | ReqCompleteIntent string string int string
  | ReqBlockIntent string string int string string
  | ReqReleaseIntent string string int string datetime datetime

fun execute :: "(datetime \<Rightarrow> string) \<Rightarrow> run_store \<Rightarrow> store_request \<Rightarrow> run_store" where
  "execute f s (ReqCreate flt r cmd) = snd (create_run s s flt r cmd)"
| "execute f s (ReqCas flt r e cmd) = snd (cas_mutate s s flt r e cmd)"
| "execute f s (ReqCancel rid e cmd cause tm) = snd (request_cancellation s rid e cmd cause tm)"
| "execute f s (ReqRepair now lmt) = snd (repair_canceling_recovery s now lmt)"
| "execute f s (ReqSchedule rid e nxt) = snd (schedule_recovery f s rid e nxt)"
| "execute f s (ReqClaim rid e owner lease tm b) = snd (claim_recovery s rid e owner lease tm b)"
| "execute f s (ReqRenew rid e owner lease) = snd (renew_recovery s rid e owner lease)"
| "execute f s (ReqRelease rid e owner nxt n q qr) = snd (release_recovery s rid e owner nxt n q qr)"
| "execute f s (ReqClaimIntent rid iid e owner lease) = snd (claim_intent s rid iid e owner lease)"
| "execute f s (ReqCompleteIntent rid iid e owner) = snd (complete_intent s rid iid e owner)"
| "execute f s (ReqBlockIntent rid iid e owner reason) = snd (block_intent s rid iid e owner reason)"
| "execute f s (ReqReleaseIntent rid iid e owner nxt now) = snd (release_intent s rid iid e owner nxt now)"

lemma leads_execute:
  assumes h: "store_history (s # h)" and d: "st_dedicated s"
  shows "leads (s # h) (execute f s q)"
proof (cases q)
  case (ReqCreate flt r cmd)
  then show ?thesis unfolding leads_def
    using create_step [OF h, of s flt r cmd]
    by (intro exI [of _ "[execute f s q]"]) simp
next
  case (ReqCas flt r e cmd)
  then show ?thesis unfolding leads_def
    using cas_step [OF h, of s flt r e cmd]
    by (intro exI [of _ "[execute f s q]"]) simp
qed (simp_all add: leads_request_cancellation [OF h] leads_repair [OF h] leads_schedule_recovery [OF h]
    leads_claim_recovery [OF h d] leads_renew_recovery [OF h d] leads_release_recovery [OF h d]
    leads_intents [OF h])

lemma history_dedicated: "store_history h \<Longrightarrow> st_dedicated (hd h) = st_dedicated (last h)"
proof (induction rule: store_history.induct)
  case (create_step s h s0 flt r cmd)
  from create_run_store [of s0 s flt r cmd] have "st_dedicated (snd (create_run s0 s flt r cmd)) = st_dedicated s"
    by auto
  with create_step show ?case by simp
next
  case (cas_step s h s0 flt r e cmd)
  have "st_dedicated (snd (cas_apply cur s flt r e cmd)) = st_dedicated s" for cur
    using cas_apply_store [of cur s flt r e cmd] by (auto simp: replace_run_def mirror_claim_def)
  then have "st_dedicated (snd (cas_mutate s0 s flt r e cmd)) = st_dedicated s"
    using cas_mutate_store [of s0 s flt r e cmd] by auto
  with cas_step show ?case by simp
next
  case (lease_step s h s0 flt rid owner lease tm)
  have "st_dedicated (snd (claim_dedicated s0 s flt rid owner lease tm)) = st_dedicated s"
    using claim_dedicated_store [of s0 s flt rid owner lease tm] by auto
  with lease_step show ?case by simp
qed (simp_all add: mirror_claim_def)

lemma leads_execute_all:
  assumes "store_history (s # h)" and "st_dedicated s"
  shows "leads (s # h) (foldl (execute f) s qs)"
  using assms
proof (induction qs arbitrary: s h)
  case Nil
  then show ?case by (simp add: leads_refl)
next
  case (Cons q qs)
  note l = leads_execute [OF Cons.prems, of f q]
  show ?case unfolding foldl.simps
  proof (rule leads_trans [OF l])
    fix h1 assume h1: "store_history (execute f s q # h1)"
    have "st_dedicated (execute f s q)"
    proof -
      from l obtain h' where h': "store_history (h' @ s # h)" "hd (h' @ s # h) = execute f s q"
        by (auto simp: leads_def)
      from history_dedicated [OF h'(1)] history_dedicated [OF Cons.prems(1)] Cons.prems(2) h'(2)
      show ?thesis by simp
    qed
    with h1 Cons.IH show "leads (execute f s q # h1) (foldl (execute f) (execute f s q) qs)" by blast
  qed
qed

lemma load_never_raises:
  assumes "runs_ok s" and "claims_ok s"
  shows "\<exists>r. load s rid = Inr r \<and> (r = None \<longleftrightarrow> find_run s rid = None)"
proof (cases "find_run s rid")
  case None
  then show ?thesis by (simp add: load_def with_claim_def)
next
  case (Some d)
  from find_run_Some [OF Some] assms(1) have v: "valid_run d" and id: "run_id d = rid"
    by (auto simp: runs_ok_def list_all_iff)
  show ?thesis
  proof (cases "load_claim s rid")
    case None
    with Some v id show ?thesis
      by (simp add: load_def with_claim_def run_from_document_def valid_run_def)
  next
    case c: (Some c)
    with assms(2) have "recovery_claim_error c = None" by (simp add: claims_ok_def)
    from valid_run_claim [OF v this]
    have "\<not> (run_st d = Canceling \<and> rc_kind c \<noteq> ClaimCancellation)
        \<longrightarrow> run_error (d\<lparr>run_recovery_claim := c\<rparr>) = None" by (simp add: valid_run_def)
    with Some v id c show ?thesis
      by (auto simp: load_def with_claim_def run_from_document_def valid_run_def Let_def)
  qed
qed

text \<open>
  C34: Every operation of the store keeps it sound. After any sequence of operations (creations,
  compare-and-swaps with any faults, cancellations and their repair, schedules, lease claims,
  renewals and releases, and all steps of projection intents) on an empty production store, the
  run ids are unique, every stored Run is valid, and reading any Run succeeds, so no read of the
  store ever fails its own validation.
\<close>

theorem operations_keep_store_sound:
  "let s = foldl (execute f) empty_runs qs in
     distinct (map run_id (st_runs s)) \<and> list_all valid_run (st_runs s)
     \<and> (\<exists>r. load s rid = Inr r \<and> (r = None \<longleftrightarrow> find_run s rid = None))"
proof -
  have "store_history [empty_runs]" "st_dedicated empty_runs"
    using empty_store [of True] by (simp_all add: empty_runs_def)
  from leads_history [OF leads_execute_all [OF this]] obtain h where
    "store_history (foldl (execute f) empty_runs qs # h)" by blast
  from history_ok [OF this] have "runs_ok (foldl (execute f) empty_runs qs)"
    "claims_ok (foldl (execute f) empty_runs qs)" by simp_all
  with load_never_raises [OF this, of rid] show ?thesis by (simp add: Let_def runs_ok_def)
qed

end
