(* ===== verification/Store_Properties.thy ===== *)
theory Store_Properties
  imports Store_Operations
begin

text \<open>
  The answers of the Run store: ambiguous and repeated writes, the exclusion of the recovery
  lease, the due-Run listing, and the ownership of projection intents.
\<close>

section \<open>The recovery lease\<close>

text \<open>One try on a lease row: a claim (with the store it read) or an owner-fenced update.\<close>

datatype lease_try =
    TryClaim run_store fault string datetime datetime
  | TryUpdate fault string recovery_claim

fun try_lease :: "string \<Rightarrow> run_store \<Rightarrow> lease_try \<Rightarrow> bool \<times> run_store" where
  "try_lease rid s (TryClaim s0 flt owner lease tm) = (case claim_dedicated s0 s flt rid owner lease tm of
     (Inr (Some _), s') \<Rightarrow> (True, s') | (_, s') \<Rightarrow> (False, s'))"
| "try_lease rid s (TryUpdate flt owner c) = (case update_dedicated s flt rid owner c of
     (Inr b, s') \<Rightarrow> (b, s') | (Inl _, s') \<Rightarrow> (False, s'))"

text \<open>A try by somebody else, made while the lease runs (an update names itself or nobody).\<close>

fun foreign_try :: "string \<Rightarrow> datetime \<Rightarrow> lease_try \<Rightarrow> bool" where
  "foreign_try holder expiry (TryClaim s0 flt owner lease tm) \<longleftrightarrow> owner \<noteq> holder \<and> tm < expiry"
| "foreign_try holder expiry (TryUpdate flt owner c) \<longleftrightarrow> owner \<noteq> holder
     \<and> rc_owner_id c \<in> {None, Some owner}"

fun try_all :: "string \<Rightarrow> run_store \<Rightarrow> lease_try list \<Rightarrow> bool list \<times> run_store" where
  "try_all rid s [] = ([], s)"
| "try_all rid s (q # qs) = (let (b, s') = try_lease rid s q; (bs, s'') = try_all rid s' qs in (b # bs, s''))"

lemma foreign_try_fails:
  assumes "load_claim s rid = Some c" and "rc_owner_id c = Some holder"
    and "rc_lease_expires_at c = Some expiry" and "foreign_try holder expiry q"
  shows "try_lease rid s q = (False, s)"
proof (cases q)
  case (TryClaim s0 flt owner lease tm)
  with assms have n: "\<not> row_claimable c tm" "owner \<noteq> holder" by (auto simp: row_claimable_def)
  then have neq: "c \<noteq> owned_by x owner lease" for x
    using assms(2) by (auto simp: owned_by_def)
  show ?thesis using assms(1) n neq
    by (auto simp: TryClaim claim_dedicated_def Let_def split: option.split)
next
  case (TryUpdate flt owner c')
  with assms have "rc_owner_id c \<noteq> Some owner" "c \<noteq> c'" by auto
  with assms(1) show ?thesis by (simp add: TryUpdate update_dedicated_def Let_def)
qed

lemma foreign_tries_fail:
  assumes "load_claim s rid = Some c" and "rc_owner_id c = Some holder"
    and "rc_lease_expires_at c = Some expiry" and "list_all (foreign_try holder expiry) qs"
  shows "try_all rid s qs = (replicate (length qs) False, s)"
  using assms(4) by (induction qs) (simp_all add: foreign_try_fails [OF assms(1-3)])

text \<open>
  C35: A live recovery lease is exclusive. After a worker acquired the lease of a Run, no sequence of
  tries by other owners while the lease (as Mongo stores it, to the millisecond) runs succeeds or
  changes the store: not a claim, whatever stale row it read, not a renewal, not a release, and not
  when replies are lost.
\<close>

theorem live_lease_is_exclusive:
  assumes "claim_dedicated s0 s NoFault rid holder expiry tm = (Inr (Some c), s')"
    and "st_dedicated s" and "list_all (foreign_try holder (bson_millis expiry)) qs"
  shows "try_all rid s' qs = (replicate (length qs) False, s')
    \<and> rc_owner_id c = Some holder \<and> load_claim s' rid = Some (trunc_claim c)"
proof -
  from assms(1) obtain x where c: "c = owned_by x holder expiry" and s': "s' = put_claim s rid c"
    by (auto simp: claim_dedicated_def Let_def split: if_splits option.splits)
  have l: "load_claim s' rid = Some (trunc_claim c)"
    using assms(2) by (simp add: s' load_claim_def put_claim_def)
  have o': "rc_owner_id (trunc_claim c) = Some holder"
    "rc_lease_expires_at (trunc_claim c) = Some (bson_millis expiry)"
    by (simp_all add: c owned_by_def trunc_claim_def opt_millis_def)
  from foreign_tries_fail [OF l o' assms(3)] l show ?thesis by (simp add: c owned_by_def)
qed

theorem live_lease_is_exclusive_witness:
  "try_all ''run'' (snd (claim_dedicated store_one store_one NoFault ''run'' ''w1'' 9000 1000))
     [TryClaim store_one NoFault ''w2'' 20000 5000, TryUpdate FaultAfter ''w2'' (fresh_claim ClaimExecution None)]
   = ([False, False], snd (claim_dedicated store_one store_one NoFault ''run'' ''w1'' 9000 1000))"
proof -
  have "claim_dedicated store_one store_one NoFault ''run'' ''w1'' 9000 1000
      = (Inr (Some (owned_by (fresh_claim ClaimExecution None) ''w1'' 9000)),
         put_claim store_one ''run'' (owned_by (fresh_claim ClaimExecution None) ''w1'' 9000))"
    by (simp add: claim_dedicated_def load_claim_def store_one_def Let_def)
  from live_lease_is_exclusive [OF this, of "[TryClaim store_one NoFault ''w2'' 20000 5000,
        TryUpdate FaultAfter ''w2'' (fresh_claim ClaimExecution None)]"] this
  show ?thesis by (simp add: store_one_def bson_millis_def fresh_claim_def numeral_2_eq_2)
qed

section \<open>Ambiguous and repeated writes\<close>

lemma load_after_replace:
  assumes ok: "runs_ok s" "claims_ok s" and w: "cas_writes cur s r e cmd cand"
  shows "\<exists>w. load (replace_run s cand) (run_id r) = Inr (Some w) \<and> run_core w = run_core cand"
proof -
  from w have n: "normalize_run (with_command cmd r) = Inr cand" by (simp add: cas_writes_def)
  have ok': "runs_ok (replace_run s cand)" "claims_ok (replace_run s cand)"
    using runs_ok_replace [OF ok(1)] normalize_run_valid [OF n] w ok(2) by (auto simp: cas_writes_def)
  from cas_own_write [OF w disjI1 [OF refl]] obtain d' where
    "find_run (replace_run s cand) (run_id r) = Some d'" "run_core d' = run_core cand" by blast
  with load_never_raises [OF ok', of "run_id r"] load_core show ?thesis by fastforce
qed

text \<open>
  C36: An ambiguous write is resolved by its command id. Take a compare-and-swap the store would
  accept. If its reply is lost after the write took effect, the operation answers \<open>replayed\<close> with the
  stored new Run; if it failed before, it raises and the store is unchanged. In both cases repeating
  the call applies the command exactly once: the Run ends at the next version with the candidate's
  content, the repetition answering \<open>replayed\<close> or \<open>accepted\<close>.
\<close>

theorem ambiguous_cas_is_resolved:
  assumes "runs_ok s" and "claims_ok s" and "load s (run_id r) = Inr (Some cur)"
    and "cas_writes cur s r e cmd cand" and "flt \<noteq> NoFault"
    and "cas_mutate s s flt r e cmd = (res, s1)"
    and "cas_mutate s1 s1 NoFault r e cmd = (res', s2)"
  shows "(if flt = FaultAfter then \<exists>w. res = Inr (Replayed, Some w) \<and> run_core w = run_core cand
          else res = Inl AdapterFailed \<and> s1 = s)
    \<and> (\<exists>w. res' = Inr (if flt = FaultAfter then Replayed else Accepted, Some w)
          \<and> run_core w = run_core cand)
    \<and> (\<exists>d. find_run s2 (run_id r) = Some d \<and> run_core d = run_core cand
          \<and> run_state_version d = e + 1)"
proof -
  note w = assms(4)
  from w have g: "cmd \<notin> set (run_processed_command_ids cur)" "run_state_version cur = e"
    "run_state_version r = e + 1" "normalize_run (with_command cmd r) = Inr cand"
    "cancellation_transition_allowed cur cand" "version_matches s (run_id r) e" "\<not> index_violation s cand"
    by (simp_all add: cas_writes_def)
  have cmdin: "cmd \<in> set (run_processed_command_ids x)" if "run_core x = run_core cand" for x
  proof -
    from that have "run_processed_command_ids x = run_processed_command_ids cand"
      by (metis run_core_simps(3))
    with g(4) show ?thesis by (auto simp: normalize_run_iff with_command_def)
  qed
  obtain v where v: "load (replace_run s cand) (run_id r) = Inr (Some v)" "run_core v = run_core cand"
    using load_after_replace [OF assms(1,2) w] by blast
  have own: "\<exists>d. find_run s' (run_id r) = Some d \<and> run_core d = run_core cand \<and> run_state_version d = e + 1"
    if "s' = replace_run s cand \<or> (\<exists>q. s' = mirror_claim (replace_run s cand) (run_id cand) q)" for s'
    using cas_own_write [OF w that] by blast
  show ?thesis
  proof (cases "flt = FaultAfter")
    case True
    have 1: "cas_mutate s s flt r e cmd = (Inr (Replayed, Some v), replace_run s cand)"
      using True g assms(3) v(1) cmdin [OF v(2)]
      by (simp add: cas_mutate_def cas_apply_def with_load_def Let_def has_command_def)
    have 2: "cas_mutate (replace_run s cand) (replace_run s cand) NoFault r e cmd
        = (Inr (Replayed, Some v), replace_run s cand)"
      using v(1) cmdin [OF v(2)] by (simp add: cas_mutate_def cas_apply_def with_load_def)
    from 1 2 assms(6,7) own [OF disjI1 [OF refl]] v(2) True show ?thesis by auto
  next
    case False
    with assms(5) have b: "flt = FaultBefore" by (cases flt) auto
    have 1: "cas_mutate s s flt r e cmd = (Inl AdapterFailed, s)"
      using b g assms(3) by (simp add: cas_mutate_def cas_apply_def with_load_def Let_def has_command_def)
    have 2: "cas_mutate s s NoFault r e cmd = overlay_claim (replace_run s cand) cand"
      using g assms(3) by (simp add: cas_mutate_def cas_apply_def with_load_def Let_def)
    have "\<exists>x q. overlay_claim (replace_run s cand) cand = (Inr (Accepted, Some x), q)
        \<and> run_core x = run_core cand
        \<and> (q = replace_run s cand \<or> (\<exists>c. q = mirror_claim (replace_run s cand) (run_id cand) c))"
      by (auto simp: overlay_claim_def split: option.split)
    with 1 2 assms(6,7) own False show ?thesis by auto
  qed
qed

lemma store_one_ok: "runs_ok store_one" "claims_ok store_one"
  using history_ok [OF store_one_history] by simp_all

lemma load_store_one: "load store_one ''run'' = Inr (Some (truncate_run sample_run))"
proof -
  have "find_run store_one ''run'' = Some (truncate_run sample_run)"
    unfolding find_run_def store_one_def sample_command by (simp add: sample_run_def)
  moreover have "valid_run (truncate_run sample_run)" using sample_run_valid by (simp add: valid_run_def)
  ultimately show ?thesis
    by (simp add: load_def with_claim_def load_claim_def run_from_document_def valid_run_def Let_def
        store_one_def)
qed

lemma sample_next_valid: "valid_run (with_command ''c9'' sample_next)"
proof -
  let ?n = "with_command ''c9'' sample_next"
  have e: "run_entries ?n = run_entries sample_run"
    by (simp add: run_entries_def sample_next_def with_command_def)
  have t: "terminal_error ?n = None"
    by (simp add: terminal_error_def sample_next_def with_command_def sample_run_def
        terminal_run_statuses_def)
  have c: "cancellation_error ?n = None"
    by (simp add: cancellation_error_def sample_next_def with_command_def sample_run_def)
  have f: "run_field_error ?n = None"
    using sample_run_valid
    by (simp add: valid_run_parts run_field_error_None_iff sample_next_def with_command_def)
  have d: "distinct (run_processed_command_ids ?n)"
    by (simp add: sample_next_def with_command_def sample_run_def)
  from sample_run_valid show ?thesis
    unfolding valid_run_parts e using t c f d by (simp add: sample_next_def with_command_def)
qed

lemma sample_cas_writes:
  "cas_writes (truncate_run sample_run) store_one sample_next 7 ''c9''
     (truncate_run (with_command ''c9'' sample_next))"
proof -
  have v: "version_matches store_one (run_id sample_next) 7"
    unfolding version_matches_def find_run_def store_one_def sample_command
    by (simp add: sample_next_def sample_run_def)
  have i: "\<not> index_violation store_one (truncate_run (with_command ''c9'' sample_next))"
    unfolding index_violation_def store_one_def sample_command
    by (simp add: sample_next_def sample_run_def)
  show ?thesis
    using v i sample_next_valid
    by (simp add: cas_writes_def normalize_run_iff cancellation_transition_allowed_def)
      (simp add: sample_next_def sample_run_def)
qed

theorem ambiguous_cas_is_resolved_witness:
  "\<exists>d. find_run (snd (cas_mutate (snd (cas_mutate store_one store_one FaultAfter sample_next 7 ''c9''))
        (snd (cas_mutate store_one store_one FaultAfter sample_next 7 ''c9'')) NoFault sample_next 7 ''c9''))
     ''run'' = Some d \<and> run_state_version d = 8"
proof -
  have id: "run_id sample_next = ''run''" by (simp add: sample_next_def sample_run_def)
  obtain res s1 where 1: "cas_mutate store_one store_one FaultAfter sample_next 7 ''c9'' = (res, s1)" by force
  obtain res' s2 where 2: "cas_mutate s1 s1 NoFault sample_next 7 ''c9'' = (res', s2)" by force
  have l: "load store_one (run_id sample_next) = Inr (Some (truncate_run sample_run))"
    unfolding id by (rule load_store_one)
  from ambiguous_cas_is_resolved [OF store_one_ok l sample_cas_writes _ 1 2] show ?thesis
    unfolding 1 snd_conv 2 id by auto
qed

section \<open>Creation\<close>

lemma create_existing_answer: "create_existing s r cmd = Inr (Some (oc, x)) \<Longrightarrow> oc \<noteq> Accepted"
  by (auto simp: create_existing_def replayed_if_def split: sum.splits option.splits if_splits)

lemma create_accepted:
  assumes "create_run s s NoFault r cmd = (Inr (Accepted, Some c), s1)"
  shows "normalize_run (with_command cmd r) = Inr c \<and> create_existing s r cmd = Inr None
    \<and> find_run s (run_id c) = None \<and> \<not> index_violation s c
    \<and> s1 = s\<lparr>st_runs := st_runs s @ [c]\<rparr>"
proof (cases "normalize_run (with_command cmd r)")
  case (Inl m)
  with assms show ?thesis by (simp add: create_run_def)
next
  case (Inr cand)
  with assms create_existing_answer [of s r cmd Accepted "Some c"] have "create_existing s r cmd = Inr None"
    by (auto simp: create_run_def Let_def split: sum.splits option.splits)
  with assms Inr show ?thesis by (auto simp: create_run_def Let_def split: if_splits)
qed

lemma load_duplicate_None:
  assumes "load_duplicate s r = Inr None" and "run_client_request_id r \<noteq> None"
  shows "List.find (\<lambda>d. run_conversation_id d = run_conversation_id r
            \<and> run_client_request_id d = run_client_request_id r) (st_runs s) = None"
  using assms by (auto simp: load_duplicate_def with_claim_def map_sum_def split: option.splits sum.splits)

lemma find_append_last: "List.find P xs = None \<Longrightarrow> P c \<Longrightarrow> List.find P (xs @ [c]) = Some c"
  by (induction xs) (auto split: if_splits)

lemma run_core_fields: "run_core a = run_core b \<Longrightarrow> run_req a = run_req b
    \<and> run_processed_command_ids a = run_processed_command_ids b"
proof
  assume c: "run_core a = run_core b"
  have "run_req (run_core x) = run_req x" for x by (simp add: run_core_def)
  with c show "run_req a = run_req b" by metis
  from c show "run_processed_command_ids a = run_processed_command_ids b" by (metis run_core_simps(3))
qed

text \<open>
  Creation is idempotent per Run and per client request. Once a creation was accepted, creating
  again under the same run id with the same command, and creating another Run id for the same
  client request of the room with the same fingerprint, both answer \<open>replayed\<close> with the stored Run
  and change nothing; the same client request with another fingerprint is a conflict.
\<close>

theorem creation_is_idempotent:
  assumes "runs_ok s" and "claims_ok s" and "create_run s s NoFault r cmd = (Inr (Accepted, Some c), s1)"
    and "valid_run (with_command cmd' r')" and "run_conversation_id r' = run_conversation_id r"
    and "run_client_request_id r' = run_client_request_id r" and "run_client_request_id r \<noteq> None"
    and "load s (run_id r') = Inr None"
  shows "\<exists>w. run_core w = run_core c
    \<and> create_run s1 s1 NoFault r cmd = (Inr (Replayed, Some w), s1)
    \<and> create_run s1 s1 NoFault r' cmd' = (Inr (if (if run_id r' = run_id r
          then cmd' \<in> set (run_processed_command_ids c)
          else rr_request_fingerprint (run_req r) = rr_request_fingerprint (run_req r'))
        then Replayed else Conflict, Some w), s1)"
proof -
  note acc = create_accepted [OF assms(3)]
  from acc have n: "normalize_run (with_command cmd r) = Inr c"
    and s1: "s1 = s\<lparr>st_runs := st_runs s @ [c]\<rparr>" by simp_all
  from n have cid: "run_id c = run_id r" "run_conversation_id c = run_conversation_id r"
    "run_client_request_id c = run_client_request_id r" "run_req c = run_req r"
    "cmd \<in> set (run_processed_command_ids c)"
    by (auto simp: normalize_run_iff with_command_def)
  have ok1: "runs_ok s1" "claims_ok s1"
    using runs_ok_insert [OF assms(1)] normalize_run_valid [OF n] acc assms(2) by auto
  have found: "find_run s1 (run_id r) = Some c" using acc cid(1) by (simp add: s1 find_run_append)
  obtain w where w: "load s1 (run_id r) = Inr (Some w)"
    using load_never_raises [OF ok1, of "run_id r"] found by auto
  from load_core [OF w] found have wc: "run_core w = run_core c" by auto
  note wf = run_core_fields [OF wc]
  have again: "create_run s1 s1 NoFault r cmd = (Inr (Replayed, Some w), s1)"
    using n w wf cid by (simp add: create_run_def create_existing_def replayed_if_def has_command_def)
  from assms(4) have n': "normalize_run (with_command cmd' r') = Inr (truncate_run (with_command cmd' r'))"
    by (simp add: normalize_run_iff)
  show ?thesis
  proof (cases "run_id r' = run_id r")
    case True
    with again w wc wf n' show ?thesis
      by (intro exI [of _ w]) (simp add: create_run_def create_existing_def replayed_if_def has_command_def)
  next
    case False
    from assms(8) have "find_run s (run_id r') = None"
      using load_never_raises [OF assms(1,2), of "run_id r'"] by simp
    with False cid(1) have l: "load s1 (run_id r') = Inr None"
      by (simp add: load_def with_claim_def s1 find_run_append)
    have "load_duplicate s r = Inr None"
      using acc by (auto simp: create_existing_def split: sum.splits option.splits)
    from find_append_last [OF load_duplicate_None [OF this assms(7)], of c] cid assms(5-7)
    have "load_duplicate s1 r' = with_claim s1 (Some c)" by (auto simp: load_duplicate_def s1)
    also have "\<dots> = load s1 (run_id r)" using found by (simp add: load_def)
    finally have d: "load_duplicate s1 r' = Inr (Some w)" using w by simp
    from again wc wf cid(4) n' l d False show ?thesis
      by (intro exI [of _ w]) (simp add: create_run_def create_existing_def replayed_if_def)
  qed
qed

theorem creation_is_idempotent_witness:
  "\<exists>w. create_run store_one store_one NoFault sample_run ''c0'' = (Inr (Replayed, Some w), store_one)"
proof -
  have v: "valid_run (with_command ''c0'' sample_run)" using sample_run_valid by (simp add: sample_command)
  have e: "runs_ok empty_runs" "claims_ok empty_runs" "load empty_runs (run_id sample_run) = Inr None"
    by (simp_all add: runs_ok_def claims_ok_def load_claim_def empty_runs_def load_def find_run_def
        with_claim_def)
  have q: "run_client_request_id sample_run \<noteq> None" by (simp add: sample_run_def)
  from creation_is_idempotent [OF e(1,2) sample_create v refl refl q e(3)] show ?thesis by blast
qed

section \<open>Due Runs\<close>

text \<open>The claim that schedules a stored Run: its dedicated row, else the embedded claim.\<close>

definition scheduling_claim :: "run_store \<Rightarrow> run_state \<Rightarrow> recovery_claim" where
  "scheduling_claim s d = (case load_claim s (run_id d) of Some c \<Rightarrow> c | None \<Rightarrow> run_recovery_claim d)"

definition due_run :: "run_store \<Rightarrow> datetime \<Rightarrow> run_state \<Rightarrow> bool" where
  "due_run s tm r \<longleftrightarrow> load s (run_id r) = Inr (Some r) \<and> \<not> is_terminal_status (run_st r)
     \<and> (\<exists>d. find_run s (run_id r) = Some d \<and> claim_is_due (scheduling_claim s d) tm)"

lemma map_filter_set: "set (List.map_filter f xs) = {y. \<exists>x \<in> set xs. f x = Some y}"
  by (force simp: List.map_filter_def)

lemma find_run_mem: "runs_ok s \<Longrightarrow> d \<in> set (st_runs s) \<Longrightarrow> find_run s (run_id d) = Some d"
  unfolding find_run_def runs_ok_def
  by (rule find_unique) (auto simp: distinct_map inj_on_def)

lemma listed_run_load:
  "find_run s rid = Some d \<Longrightarrow> listed_run d (load_claim s rid) = Some r \<longleftrightarrow> load s rid = Inr (Some r)"
  using find_run_Some [of s rid d]
  by (auto simp: listed_run_def load_def with_claim_def split: sum.splits)

lemma loaded_fields: "load s rid = Inr (Some r) \<Longrightarrow> find_run s rid = Some d \<Longrightarrow> run_id r = rid \<and> run_st r = run_st d"
  using load_core [of s rid r] run_core_simps(1) by (metis option.inject)

lemma loaded_unclaimed:
  "load s rid = Inr (Some r) \<Longrightarrow> find_run s rid = Some d \<Longrightarrow> load_claim s rid = None \<Longrightarrow> r = d"
  using find_run_Some [of s rid d]
  by (auto simp: load_def with_claim_def run_from_document_def Let_def split: option.splits)

lemma embedded_due_set:
  assumes "runs_ok s" and "st_dedicated s"
  shows "set (embedded_due s tm) = {r. due_run s tm r \<and> load_claim s (run_id r) = None}"
proof (intro set_eqI iffI)
  fix r assume "r \<in> set (embedded_due s tm)"
  then obtain d where d: "d \<in> set (st_runs s)" "\<not> is_terminal_status (run_st d)"
    "claim_is_due (run_recovery_claim d) tm" "load_claim s (run_id d) = None"
    "listed_run d None = Some r"
    using assms(2) by (auto simp: embedded_due_def map_filter_set status_partition split: if_splits option.splits)
  note f = find_run_mem [OF assms(1) d(1)]
  from listed_run_load [OF f, of r] d(4,5) have l: "load s (run_id d) = Inr (Some r)" by simp
  from loaded_unclaimed [OF l f d(4)] d f l show "r \<in> {r. due_run s tm r \<and> load_claim s (run_id r) = None}"
    by (simp add: due_run_def scheduling_claim_def)
next
  fix r assume "r \<in> {r. due_run s tm r \<and> load_claim s (run_id r) = None}"
  then obtain d where l: "load s (run_id r) = Inr (Some r)" and n: "\<not> is_terminal_status (run_st r)"
    and f: "find_run s (run_id r) = Some d" and q: "claim_is_due (scheduling_claim s d) tm"
    and c: "load_claim s (run_id r) = None" by (auto simp: due_run_def)
  from loaded_unclaimed [OF l f c] have r: "r = d" .
  from q c r have q': "claim_is_due (run_recovery_claim d) tm" by (simp add: scheduling_claim_def)
  from listed_run_load [OF f, of r] l c have li: "listed_run d None = Some d" by (simp add: r)
  from find_run_Some [OF f] have m: "d \<in> set (st_runs s)" ..
  show "r \<in> set (embedded_due s tm)"
    unfolding embedded_due_def map_filter_set mem_Collect_eq
  proof (rule bexI [of _ d])
    show "(if load_claim s (run_id d) \<noteq> None \<and> st_dedicated s then None
        else case listed_run d (load_claim s (run_id d)) of None \<Rightarrow> None
           | Some r \<Rightarrow> if claim_is_due (run_recovery_claim r) tm then Some r else None) = Some r"
      using c li q' by (simp add: r)
    show "d \<in> set (sort_key (\<lambda>r. (run_updated_at r, run_id r))
        (filter (\<lambda>d. run_st d \<in> set non_terminal_run_statuses \<and> claim_is_due (run_recovery_claim d) tm)
          (st_runs s)))"
      using m q' n by (simp add: r status_partition)
  qed
qed

lemma dedicated_due_set:
  assumes "st_dedicated s"
  shows "set (dedicated_due s tm) = {r. due_run s tm r \<and> load_claim s (run_id r) \<noteq> None}"
proof (intro set_eqI iffI)
  fix r assume "r \<in> set (dedicated_due s tm)"
  then obtain rid where rid: "(case (find_run s rid, load_claim s rid) of
       (Some d, Some c) \<Rightarrow>
         if \<not> claim_is_due c tm then None
         else (case listed_run d (Some c) of
             None \<Rightarrow> None
           | Some r \<Rightarrow> if run_st r \<in> set non_terminal_run_statuses then Some r else None)
     | _ \<Rightarrow> None) = Some r"
    unfolding dedicated_due_def map_filter_set by blast
  then obtain d c where f: "find_run s rid = Some d" and c: "load_claim s rid = Some c"
    by (cases "find_run s rid"; cases "load_claim s rid") auto
  with rid have q: "claim_is_due c tm" and r: "listed_run d (Some c) = Some r"
    and n: "\<not> is_terminal_status (run_st r)"
    by (auto simp: status_partition split: if_splits option.splits)
  from listed_run_load [OF f, of r] c r have l: "load s rid = Inr (Some r)" by simp
  from loaded_fields [OF l f] find_run_Some [OF f] f c q l n
  show "r \<in> {r. due_run s tm r \<and> load_claim s (run_id r) \<noteq> None}"
    by (simp add: due_run_def scheduling_claim_def)
next
  fix r assume "r \<in> {r. due_run s tm r \<and> load_claim s (run_id r) \<noteq> None}"
  then obtain d c where l: "load s (run_id r) = Inr (Some r)" and n: "\<not> is_terminal_status (run_st r)"
    and f: "find_run s (run_id r) = Some d" and c: "load_claim s (run_id r) = Some c"
    and q: "claim_is_due c tm"
    using find_run_Some by (fastforce simp: due_run_def scheduling_claim_def)
  from c have "(run_id r, c) \<in> set (st_claims s)" by (simp add: load_claim_def map_of_SomeD)
  with q have "run_id r \<in> fst ` set (filter (\<lambda>(_, c). claim_is_due c tm) (st_claims s))"
    by force
  with assms f c q n listed_run_load [OF f] l show "r \<in> set (dedicated_due s tm)"
    unfolding dedicated_due_def map_filter_set by (force simp: status_partition)
qed

lemma update_all_distinct:
  "distinct (map run_id rs) \<Longrightarrow> (\<forall>r \<in> set rs. run_id r \<notin> fst ` set d) \<Longrightarrow>
     foldl (\<lambda>d r. AList.update (run_id r) r d) d rs = d @ map (\<lambda>r. (run_id r, r)) rs"
proof (induction rs arbitrary: d)
  case Nil
  then show ?case by simp
next
  case (Cons r rs)
  have "AList.update (run_id r) r d = d @ [(run_id r, r)]"
    using Cons.prems(2) by (induction d) auto
  moreover have "\<forall>q \<in> set rs. run_id q \<notin> fst ` set (d @ [(run_id r, r)])"
    using Cons.prems by (auto simp: image_iff)
  ultimately show ?case using Cons.IH [of "d @ [(run_id r, r)]"] Cons.prems(1) by simp
qed

lemma distinct_map_filter_key:
  assumes "distinct (map k xs)" and "\<And>x y. x \<in> set xs \<Longrightarrow> f x = Some y \<Longrightarrow> g y = k x"
  shows "distinct (map g (List.map_filter f xs))"
  using assms
proof (induction xs)
  case Nil
  then show ?case by (simp add: List.map_filter_simps)
next
  case (Cons x xs)
  then have ih: "distinct (map g (List.map_filter f xs))" by simp
  have ne: "g y \<noteq> k x" if "y \<in> set (List.map_filter f xs)" for y
  proof -
    from that obtain z where "z \<in> set xs" "f z = Some y" by (auto simp: map_filter_set)
    with Cons.prems(2) [of z y] have "g y = k z" by simp
    with \<open>z \<in> set xs\<close> Cons.prems(1) show ?thesis by (auto simp: image_iff)
  qed
  show ?case
  proof (cases "f x")
    case None
    with ih show ?thesis by (simp add: List.map_filter_simps)
  next
    case (Some y)
    with Cons.prems(2) [of x y] have "g y = k x" by simp
    with ne have "g y \<notin> g ` set (List.map_filter f xs)" by (metis imageE)
    with ih Some show ?thesis by (simp add: List.map_filter_simps)
  qed
qed

lemma due_ids_distinct:
  assumes "runs_ok s" and "st_dedicated s"
  shows "distinct (map run_id (embedded_due s tm @ dedicated_due s tm))"
proof -
  have sd: "distinct (map run_id (sort_key k (filter P (st_runs s))))" for k :: "run_state \<Rightarrow> int \<times> string" and P
  proof -
    have "distinct (map run_id (filter P (st_runs s)))"
      using assms(1) by (simp add: runs_ok_def distinct_map_filter)
    then show ?thesis by (simp add: distinct_map)
  qed
  have e: "distinct (map run_id (embedded_due s tm))"
    unfolding embedded_due_def
    by (rule distinct_map_filter_key [OF sd]) (auto simp: listed_run_def run_from_document_def Let_def
        split: if_splits option.splits sum.splits)
  have d: "distinct (map run_id (dedicated_due s tm))"
    unfolding dedicated_due_def
    by (rule distinct_map_filter_key [where k = "\<lambda>x. x"])
      (auto simp: listed_run_def run_from_document_def Let_def dest!: find_run_Some
        split: if_splits option.splits sum.splits)
  have "run_id ` set (embedded_due s tm) \<inter> run_id ` set (dedicated_due s tm) = {}"
    unfolding embedded_due_set [OF assms] dedicated_due_set [OF assms(2)] by auto
  with e d show ?thesis by simp
qed

definition due_key :: "run_state \<Rightarrow> int \<times> string" where
  "due_key r = (case rc_next_attempt_at (run_recovery_claim r) of None \<Rightarrow> run_updated_at r | Some t \<Rightarrow> t, run_id r)"

lemma list_due_runs_sorted:
  assumes "runs_ok s" and "st_dedicated s"
  shows "list_due_runs s tm lmt
    = take (nat lmt) (sort_key due_key (embedded_due s tm @ dedicated_due s tm))"
  using update_all_distinct [OF due_ids_distinct [OF assms, of tm], of "[]"]
  by (simp add: list_due_runs_def due_key_def [abs_def] comp_def)

text \<open>
  The due listing returns exactly the Runs whose authoritative claim is due. For a production
  store, the listing is the first \<open>limit\<close> entries, in the order of their due time and id, of a list
  whose members are, each once, the non-terminal Runs (as a load returns them) whose scheduling
  claim, the dedicated row where there is one and the embedded claim otherwise, is unquarantined,
  past its backoff and past its lease.
\<close>

theorem due_listing_exact:
  assumes "runs_ok s" and "st_dedicated s"
  shows "\<exists>due. list_due_runs s tm lmt = take (nat lmt) due \<and> sorted (map due_key due)
    \<and> distinct (map run_id due) \<and> set due = {r. due_run s tm r}"
proof (intro exI conjI)
  let ?due = "embedded_due s tm @ dedicated_due s tm"
  show "list_due_runs s tm lmt = take (nat lmt) (sort_key due_key ?due)"
    by (rule list_due_runs_sorted [OF assms])
  show "sorted (map due_key (sort_key due_key ?due))" by (rule sorted_sort_key)
  show "distinct (map run_id (sort_key due_key ?due))"
    using due_ids_distinct [OF assms, of tm] unfolding distinct_map distinct_sort set_sort .
  show "set (sort_key due_key ?due) = {r. due_run s tm r}"
    using embedded_due_set [OF assms] dedicated_due_set [OF assms(2)] by auto
qed

theorem due_listing_exact_witness:
  "set (list_due_runs store_one 5 1) = {r. due_run store_one 5 r}"
proof -
  from due_listing_exact [OF store_one_ok(1), of 5 1] obtain due where
    due: "list_due_runs store_one 5 1 = take (nat 1) due" "distinct (map run_id due)"
      "set due = {r. due_run store_one 5 r}" by (auto simp: store_one_def)
  have "run_id ` set due \<subseteq> {run_id (truncate_run sample_run)}"
  proof
    fix x assume "x \<in> run_id ` set due"
    then obtain r where "x = run_id r" "r \<in> set due" by blast
    moreover with due(3) obtain d where "find_run store_one (run_id r) = Some d"
      unfolding due_run_def by blast
    from find_run_Some [OF this] have "run_id r = run_id (truncate_run sample_run)"
      unfolding store_one_def sample_command by auto
    ultimately show "x \<in> {run_id (truncate_run sample_run)}"
      by simp
  qed
  with due(2) have "length due \<le> 1"
    using card_mono [of "{run_id (truncate_run sample_run)}" "set (map run_id due)"] distinct_card [OF due(2)]
    by simp
  with due(1,3) show ?thesis by simp
qed

end
