(* ===== verification/Stream_Assembly.thy ===== *)
theory Stream_Assembly
  imports Samples
begin

text \<open>
  \<open>execution/orchestrator/streaming.py\<close>: \<open>ModelStreamAssembler\<close>, which folds the ordered events of
  one model turn, with its provider retries, into one outcome. A raise is a value; what the
  assembler holds after a raise is dropped, as the callers drop it. \<open>json.loads\<close> and \<open>sha256\<close> are
  parameters (\<open>None\<close> is \<open>JSONDecodeError\<close>); nothing is assumed of them.

  The lemmas show that an outcome is made of the last attempt alone, that attempts are numbered
  without gaps, that usage is kept per attempt, and when a turn yields Tool calls.
\<close>

section \<open>The assembler\<close>

datatype assembly_error =
    ContractViolation string
  | MalformedArguments string string "string option" nat string
  | TruncatedToolCall "string option" "string option" "nat option" "string option"
  | PythonTypeError

record assembler =
  as_text :: "string list"
  as_tool_names :: "(string \<times> string) list"
  as_tool_arguments :: "(string \<times> string list) list"
  as_closed_calls :: "string list"
  as_usage :: "usage_record option"
  as_usage_by_attempt :: "(int \<times> usage_record) list"
  as_finish_reason :: "finish_reason option"
  as_terminal_error_class :: "error_class option"
  as_terminal_error_code :: "string option"
  as_attempt :: "int option"
  as_failed_attempt :: "int option"
  as_scheduled_attempt :: "int option"
  as_retry_events :: "stream_event list"
  as_provider_request_id :: "string option"

definition new_assembler :: assembler where
  "new_assembler = \<lparr>as_text = [], as_tool_names = [], as_tool_arguments = [], as_closed_calls = [],
     as_usage = None, as_usage_by_attempt = [], as_finish_reason = None,
     as_terminal_error_class = None, as_terminal_error_code = None, as_attempt = None,
     as_failed_attempt = None, as_scheduled_attempt = None, as_retry_events = [],
     as_provider_request_id = None\<rparr>"

definition clear_attempt_output :: "assembler \<Rightarrow> assembler" where
  "clear_attempt_output a = a\<lparr>as_text := [], as_tool_names := [], as_tool_arguments := [],
     as_closed_calls := [], as_usage := None\<rparr>"

definition violation :: "string \<Rightarrow> assembly_error + assembler" where
  "violation msg = Inl (ContractViolation msg)"

definition opt_string :: "string option \<Rightarrow> string" where
  "opt_string x = (case x of None \<Rightarrow> [] | Some s \<Rightarrow> s)"

definition accept_attempt_started :: "assembler \<Rightarrow> stream_event \<Rightarrow> assembly_error + assembler" where
  "accept_attempt_started a ev = (case se_attempt ev of
      None \<Rightarrow> violation ''attempt_started requires an attempt number''
    | Some n \<Rightarrow>
        if as_attempt a \<noteq> None \<and> as_scheduled_attempt a \<noteq> Some n
          then violation ''next model attempt must match the scheduled retry''
        else if as_attempt a = None \<and> n \<noteq> 1 then violation ''first model attempt must be 1''
        else Inr ((clear_attempt_output a)\<lparr>as_attempt := Some n, as_failed_attempt := None,
               as_scheduled_attempt := None\<rparr>))"

definition accept_attempt_failed :: "assembler \<Rightarrow> stream_event \<Rightarrow> assembly_error + assembler" where
  "accept_attempt_failed a ev =
     (if as_attempt a = None \<or> se_attempt ev \<noteq> as_attempt a
        then violation ''attempt_failed must identify the active model attempt''
      else if as_failed_attempt a \<noteq> None then violation ''model attempt failed more than once''
      else Inr ((clear_attempt_output a)\<lparr>as_failed_attempt := se_attempt ev,
             as_retry_events := as_retry_events a @ [ev]\<rparr>))"

text \<open>With no attempt started, \<open>self._attempt + 1\<close> is a \<open>TypeError\<close>.\<close>

definition accept_retry_scheduled :: "assembler \<Rightarrow> stream_event \<Rightarrow> assembly_error + assembler" where
  "accept_retry_scheduled a ev =
     (if as_failed_attempt a \<noteq> as_attempt a
        then violation ''retry_scheduled must follow a failed model attempt''
      else case as_attempt a of
        None \<Rightarrow> Inl PythonTypeError
      | Some n \<Rightarrow>
          if se_attempt ev \<noteq> Some (n + 1)
            then violation ''retry_scheduled must identify the next model attempt''
          else if as_scheduled_attempt a \<noteq> None
            then violation ''model retry scheduled more than once''
          else let failed_event = last (as_retry_events a) in
            if se_error_class ev \<noteq> se_error_class failed_event
               \<or> se_retryable ev \<noteq> se_retryable failed_event
              then violation ''scheduled retry must preserve failed-attempt classification''
            else Inr (a\<lparr>as_scheduled_attempt := se_attempt ev,
                   as_retry_events := as_retry_events a @ [ev]\<rparr>))"

definition accept_text_delta :: "assembler \<Rightarrow> stream_event \<Rightarrow> assembly_error + assembler" where
  "accept_text_delta a ev =
     (if as_failed_attempt a \<noteq> None \<and> as_failed_attempt a = as_attempt a
        then violation ''output received after attempt failure''
      else Inr (a\<lparr>as_text := as_text a @ [opt_string (se_delta ev)]\<rparr>))"

definition accept_tool_call_start :: "assembler \<Rightarrow> stream_event \<Rightarrow> assembly_error + assembler" where
  "accept_tool_call_start a ev =
     (if opt_string (se_call_id ev) = [] \<or> opt_string (se_tool_name ev) = []
        then violation ''tool_call_start requires call_id and tool_name''
      else let c = opt_string (se_call_id ev) in
        if c \<in> fst ` set (as_tool_names a) then violation ''duplicate tool_call_start''
        else Inr (a\<lparr>as_tool_names := AList.update c (opt_string (se_tool_name ev)) (as_tool_names a),
               as_tool_arguments := AList.update c [] (as_tool_arguments a)\<rparr>))"

definition accept_arguments_delta :: "assembler \<Rightarrow> stream_event \<Rightarrow> assembly_error + assembler" where
  "accept_arguments_delta a ev =
     (let c = opt_string (se_call_id ev) in
      case map_of (as_tool_arguments a) c of
        None \<Rightarrow> violation ''arguments delta precedes tool call start''
      | Some ds \<Rightarrow> if c = [] then violation ''arguments delta precedes tool call start''
          else Inr (a\<lparr>as_tool_arguments :=
                 AList.update c (ds @ [opt_string (se_delta ev)]) (as_tool_arguments a)\<rparr>))"

definition accept_tool_call_end :: "assembler \<Rightarrow> stream_event \<Rightarrow> assembly_error + assembler" where
  "accept_tool_call_end a ev =
     (let c = opt_string (se_call_id ev) in
      if c = [] \<or> c \<notin> fst ` set (as_tool_arguments a)
        then violation ''tool_call_end precedes tool call start''
      else if c \<in> set (as_closed_calls a) then violation ''duplicate tool_call_end''
      else Inr (a\<lparr>as_closed_calls := as_closed_calls a @ [c]\<rparr>))"

text \<open>\<open>self._attempt or 1\<close>\<close>

definition usage_attempt :: "assembler \<Rightarrow> int" where
  "usage_attempt a = (case as_attempt a of None \<Rightarrow> 1 | Some n \<Rightarrow> if n = 0 then 1 else n)"

definition accept_usage :: "assembler \<Rightarrow> stream_event \<Rightarrow> assembly_error + assembler" where
  "accept_usage a ev = (case se_usage ev of
      None \<Rightarrow> violation ''usage event has no usage''
    | Some u \<Rightarrow>
        let a' = a\<lparr>as_usage_by_attempt := AList.update (usage_attempt a) u (as_usage_by_attempt a)\<rparr> in
        Inr (if as_failed_attempt a \<noteq> Some (usage_attempt a) then a'\<lparr>as_usage := Some u\<rparr> else a'))"

definition finish_of :: "string \<Rightarrow> finish_reason option" where
  "finish_of s = map_of [(''stop'', FinStop), (''tool_calls'', FinToolCalls), (''length'', FinLength),
     (''content_filter'', FinContentFilter), (''error'', FinError), (''aborted'', FinAborted)] s"

definition accept_finish :: "assembler \<Rightarrow> stream_event \<Rightarrow> assembly_error + assembler" where
  "accept_finish a ev = (case Option.bind (se_finish_reason ev) finish_of of
      None \<Rightarrow> violation ''unsupported finish reason''
    | Some f \<Rightarrow> Inr (a\<lparr>as_finish_reason := Some f\<rparr>))"

definition accept_error :: "assembler \<Rightarrow> stream_event \<Rightarrow> assembly_error + assembler" where
  "accept_error a ev =
     (if se_error_class ev = None then violation ''terminal error requires error_class''
      else if as_attempt a \<noteq> None \<and> as_failed_attempt a \<noteq> as_attempt a
        then violation ''terminal error must follow attempt_failed''
      else Inr (a\<lparr>as_terminal_error_class := se_error_class ev,
             as_terminal_error_code := se_error_code ev\<rparr>))"

definition accept_event :: "assembler \<Rightarrow> stream_event \<Rightarrow> assembly_error + assembler" where
  "accept_event a0 ev =
     (if as_finish_reason a0 \<noteq> None \<or> as_terminal_error_class a0 \<noteq> None
        then violation ''stream event received after terminal event''
      else let a = (if se_provider_request_id ev = None then a0
                    else a0\<lparr>as_provider_request_id := se_provider_request_id ev\<rparr>) in
        case se_kind ev of
          SkAttemptStarted \<Rightarrow> accept_attempt_started a ev
        | SkRetryScheduled \<Rightarrow> accept_retry_scheduled a ev
        | SkAttemptFailed \<Rightarrow> accept_attempt_failed a ev
        | SkTextDelta \<Rightarrow> accept_text_delta a ev
        | SkReasoningDelta \<Rightarrow> Inr a
        | SkToolCallStart \<Rightarrow> accept_tool_call_start a ev
        | SkToolCallArgumentsDelta \<Rightarrow> accept_arguments_delta a ev
        | SkToolCallEnd \<Rightarrow> accept_tool_call_end a ev
        | SkUsage \<Rightarrow> accept_usage a ev
        | SkFinish \<Rightarrow> accept_finish a ev
        | SkError \<Rightarrow> accept_error a ev)"

fun accept_all :: "assembler \<Rightarrow> stream_event list \<Rightarrow> assembly_error + assembler" where
  "accept_all a [] = Inr a"
| "accept_all a (ev # evs) = (case accept_event a ev of Inl e \<Rightarrow> Inl e | Inr a' \<Rightarrow> accept_all a' evs)"

section \<open>The outcome\<close>

datatype outcome_kind = OkAssistant | OkContextOverflow | OkProviderError | OkAborted

record assembly_outcome =
  ao_kind :: outcome_kind
  ao_assistant :: "assistant_message option"
  ao_error_class :: "error_class option"
  ao_provider_request_id :: "string option"
  ao_error_code :: "string option"

fun index_of :: "'a \<Rightarrow> 'a list \<Rightarrow> nat" where
  "index_of x [] = 0"
| "index_of x (y # ys) = (if x = y then 0 else Suc (index_of x ys))"

definition arguments_text :: "assembler \<Rightarrow> string \<Rightarrow> string" where
  "arguments_text a c = concat (case map_of (as_tool_arguments a) c of None \<Rightarrow> [] | Some ds \<Rightarrow> ds)"

definition build_tool_call ::
  "(string \<Rightarrow> json option) \<Rightarrow> (string \<Rightarrow> string) \<Rightarrow> assembler \<Rightarrow> string \<Rightarrow> assembly_error + tool_call" where
  "build_tool_call loads sha a c =
     (let raw = (if arguments_text a c = [] then ''{}'' else arguments_text a c);
          err = (\<lambda>msg. Inl (MalformedArguments msg c (map_of (as_tool_names a) c)
                  (index_of c (map fst (as_tool_names a))) (sha raw))) in
      case loads raw of
        None \<Rightarrow> err ''malformed arguments for tool call''
      | Some (JObj kvs) \<Rightarrow> Inr \<lparr>tc_call_id = c,
          tc_tool_name = opt_string (map_of (as_tool_names a) c), tc_arguments = kvs\<rparr>
      | Some _ \<Rightarrow> err ''tool arguments must be an object'')"

fun build_tool_calls ::
  "(string \<Rightarrow> json option) \<Rightarrow> (string \<Rightarrow> string) \<Rightarrow> assembler \<Rightarrow> string list
     \<Rightarrow> assembly_error + tool_call list" where
  "build_tool_calls loads sha a [] = Inr []"
| "build_tool_calls loads sha a (c # cs) = (case build_tool_call loads sha a c of
      Inl e \<Rightarrow> Inl e
    | Inr t \<Rightarrow> map_sum id (\<lambda>ts. t # ts) (build_tool_calls loads sha a cs))"

definition failed_outcome ::
  "assembler \<Rightarrow> outcome_kind \<Rightarrow> error_class \<Rightarrow> string option \<Rightarrow> assembly_outcome" where
  "failed_outcome a k cls code = \<lparr>ao_kind = k, ao_assistant = None, ao_error_class = Some cls,
     ao_provider_request_id = as_provider_request_id a, ao_error_code = code\<rparr>"

definition truncated_call :: "(string \<Rightarrow> string) \<Rightarrow> assembler \<Rightarrow> assembly_error" where
  "truncated_call sha a =
     (case List.find (\<lambda>c. c \<notin> set (as_closed_calls a)) (map fst (as_tool_names a)) of
        None \<Rightarrow> TruncatedToolCall None (map_of (as_tool_names a) []) None None
      | Some c \<Rightarrow> TruncatedToolCall (Some c) (map_of (as_tool_names a) c)
          (Some (index_of c (map fst (as_tool_names a)))) (Some (sha (arguments_text a c))))"

definition build_outcome ::
  "(string \<Rightarrow> json option) \<Rightarrow> (string \<Rightarrow> string) \<Rightarrow> assembler \<Rightarrow> string \<Rightarrow> datetime
     \<Rightarrow> assembly_error + assembly_outcome" where
  "build_outcome loads sha a message_id created_at =
     (case as_terminal_error_class a of
        Some cls \<Rightarrow> Inr (failed_outcome a
          (if cls = EcContextOverflow then OkContextOverflow
           else if cls = EcAborted then OkAborted else OkProviderError) cls (as_terminal_error_code a))
      | None \<Rightarrow>
          (case as_finish_reason a of
             None \<Rightarrow> Inl (ContractViolation ''stream did not finish'')
           | Some f \<Rightarrow>
               if f \<in> {FinError, FinAborted, FinContentFilter} then Inr (failed_outcome a
                 (if f = FinAborted then OkAborted else OkProviderError)
                 (if f = FinAborted then EcAborted
                  else if f = FinContentFilter then EcContentFilter else EcUnknown) None)
               else if set (as_closed_calls a) \<noteq> fst ` set (as_tool_names a)
                 then Inl (truncated_call sha a)
               else (case (if f = FinToolCalls then build_tool_calls loads sha a (as_closed_calls a)
                           else Inr []) of
                   Inl e \<Rightarrow> Inl e
                 | Inr calls \<Rightarrow> Inr \<lparr>ao_kind = OkAssistant,
                     ao_assistant = Some \<lparr>am_message_id = message_id,
                       am_content = (if as_text a = [] then [] else [TextPart (concat (as_text a))]),
                       am_tool_calls = calls, am_finish_reason = f, am_usage = as_usage a,
                       am_created_at = created_at\<rparr>,
                     ao_error_class = None, ao_provider_request_id = as_provider_request_id a,
                     ao_error_code = None\<rparr>)))"

definition outcome_kind_name :: "outcome_kind \<Rightarrow> string" where
  "outcome_kind_name k = (case k of OkAssistant \<Rightarrow> ''assistant''
     | OkContextOverflow \<Rightarrow> ''context_overflow'' | OkProviderError \<Rightarrow> ''provider_error''
     | OkAborted \<Rightarrow> ''aborted'')"

definition build_message ::
  "(string \<Rightarrow> json option) \<Rightarrow> (string \<Rightarrow> string) \<Rightarrow> assembler \<Rightarrow> string \<Rightarrow> datetime
     \<Rightarrow> assembly_error + assistant_message" where
  "build_message loads sha a message_id created_at =
     (case build_outcome loads sha a message_id created_at of
        Inl e \<Rightarrow> Inl e
      | Inr oc \<Rightarrow> (case ao_assistant oc of
          None \<Rightarrow> Inl (ContractViolation (''model stream ended with '' @ outcome_kind_name (ao_kind oc)))
        | Some m \<Rightarrow> Inr m))"

section \<open>The last attempt\<close>

text \<open>The events since the last attempt began or failed.\<close>

definition resets :: "stream_event \<Rightarrow> bool" where
  "resets ev \<longleftrightarrow> se_kind ev \<in> {SkAttemptStarted, SkAttemptFailed}"

definition last_attempt :: "stream_event list \<Rightarrow> stream_event list" where
  "last_attempt evs = rev (takeWhile (\<lambda>ev. \<not> resets ev) (rev evs))"

definition of_kind :: "stream_kind \<Rightarrow> stream_event list \<Rightarrow> stream_event list" where
  "of_kind k evs = filter (\<lambda>ev. se_kind ev = k) evs"

definition call_id_of :: "stream_event \<Rightarrow> string" where
  "call_id_of ev = opt_string (se_call_id ev)"

definition delta_of :: "stream_event \<Rightarrow> string" where
  "delta_of ev = opt_string (se_delta ev)"

lemma last_attempt_snoc: "last_attempt (evs @ [ev]) = (if resets ev then [] else last_attempt evs @ [ev])"
  by (simp add: last_attempt_def)

lemma of_kind_snoc [simp]: "of_kind k (evs @ [ev]) = of_kind k evs @ (if se_kind ev = k then [ev] else [])"
  by (simp add: of_kind_def)

lemma of_kind_Nil [simp]: "of_kind k [] = []"
  by (simp add: of_kind_def)

lemma accept_all_snoc:
  "accept_all a (evs @ [ev]) = (case accept_all a evs of Inl e \<Rightarrow> Inl e | Inr a' \<Rightarrow> accept_event a' ev)"
  by (induction evs arbitrary: a) (simp_all split: sum.split)

lemma accept_all_induct [consumes 1, case_names start event]:
  assumes "accept_all new_assembler evs = Inr a" and "P [] new_assembler"
    and "\<And>evs ev a a'. accept_all new_assembler evs = Inr a \<Longrightarrow> P evs a \<Longrightarrow> accept_event a ev = Inr a'
      \<Longrightarrow> P (evs @ [ev]) a'"
  shows "P evs a"
  using assms(1)
proof (induction evs arbitrary: a rule: rev_induct)
  case Nil
  with assms(2) show ?case by simp
next
  case (snoc ev evs)
  then show ?case using assms(3) by (auto simp: accept_all_snoc split: sum.splits)
qed

lemmas accept_handlers =
  accept_attempt_started_def accept_retry_scheduled_def accept_attempt_failed_def
  accept_text_delta_def accept_tool_call_start_def accept_arguments_delta_def
  accept_tool_call_end_def accept_usage_def accept_finish_def accept_error_def

definition text_deltas :: "stream_event list \<Rightarrow> string list" where
  "text_deltas seg = map delta_of (of_kind SkTextDelta seg)"

definition started_calls :: "stream_event list \<Rightarrow> string list" where
  "started_calls seg = map call_id_of (of_kind SkToolCallStart seg)"

definition ended_calls :: "stream_event list \<Rightarrow> string list" where
  "ended_calls seg = map call_id_of (of_kind SkToolCallEnd seg)"

definition argument_calls :: "stream_event list \<Rightarrow> string list" where
  "argument_calls seg = map call_id_of (of_kind SkToolCallArgumentsDelta seg)"

definition argument_deltas :: "stream_event list \<Rightarrow> string \<Rightarrow> string list" where
  "argument_deltas seg c =
     map delta_of (filter (\<lambda>ev. call_id_of ev = c) (of_kind SkToolCallArgumentsDelta seg))"

lemma segment_snoc [simp]:
  "text_deltas (seg @ [ev]) = text_deltas seg @ (if se_kind ev = SkTextDelta then [delta_of ev] else [])"
  "started_calls (seg @ [ev]) = started_calls seg @ (if se_kind ev = SkToolCallStart then [call_id_of ev] else [])"
  "ended_calls (seg @ [ev]) = ended_calls seg @ (if se_kind ev = SkToolCallEnd then [call_id_of ev] else [])"
  "argument_calls (seg @ [ev]) = argument_calls seg
     @ (if se_kind ev = SkToolCallArgumentsDelta then [call_id_of ev] else [])"
  "argument_deltas (seg @ [ev]) c = argument_deltas seg c
     @ (if se_kind ev = SkToolCallArgumentsDelta \<and> call_id_of ev = c then [delta_of ev] else [])"
  by (simp_all add: text_deltas_def started_calls_def ended_calls_def argument_calls_def
      argument_deltas_def)

lemma segment_Nil [simp]:
  "text_deltas [] = []" "started_calls [] = []" "ended_calls [] = []" "argument_calls [] = []"
  "argument_deltas [] c = []"
  by (simp_all add: text_deltas_def started_calls_def ended_calls_def argument_calls_def
      argument_deltas_def)

lemma argument_deltas_none: "c \<notin> set (argument_calls seg) \<Longrightarrow> argument_deltas seg c = []"
  by (auto simp: argument_deltas_def argument_calls_def filter_empty_conv)

definition output_matches :: "stream_event list \<Rightarrow> assembler \<Rightarrow> bool" where
  "output_matches seg a \<longleftrightarrow> as_text a = text_deltas seg
     \<and> map fst (as_tool_names a) = started_calls seg \<and> map fst (as_tool_arguments a) = started_calls seg
     \<and> as_closed_calls a = ended_calls seg \<and> distinct (started_calls seg) \<and> distinct (ended_calls seg)
     \<and> set (ended_calls seg) \<subseteq> set (started_calls seg)
     \<and> set (argument_calls seg) \<subseteq> set (started_calls seg)
     \<and> (\<forall>c ds. map_of (as_tool_arguments a) c = Some ds \<longrightarrow> ds = argument_deltas seg c)"

lemma output_matches_keys:
  assumes "output_matches seg a"
  shows "fst ` set (as_tool_names a) = set (started_calls seg)"
    and "fst ` set (as_tool_arguments a) = set (started_calls seg)"
  using assms unfolding output_matches_def by (metis list.set_map)+

lemma output_matches_frame:
  assumes "output_matches seg a" and "as_text b = as_text a" and "as_tool_names b = as_tool_names a"
    and "as_tool_arguments b = as_tool_arguments a" and "as_closed_calls b = as_closed_calls a"
  shows "output_matches seg b"
  unfolding output_matches_def assms(2-5) by (rule assms(1) [unfolded output_matches_def])

lemma output_matches_skip:
  "output_matches seg a \<Longrightarrow> se_kind ev \<notin> {SkTextDelta, SkToolCallStart, SkToolCallEnd,
     SkToolCallArgumentsDelta} \<Longrightarrow> output_matches (seg @ [ev]) a"
  by (simp add: output_matches_def)

lemma output_matches_cleared:
  "as_text a = [] \<Longrightarrow> as_tool_names a = [] \<Longrightarrow> as_tool_arguments a = [] \<Longrightarrow> as_closed_calls a = []
     \<Longrightarrow> output_matches [] a"
  by (simp add: output_matches_def)

lemma update_keys: "map fst (AList.update k v al) = (if k \<in> fst ` set al then map fst al else map fst al @ [k])"
  by (induction al) auto

definition identified :: "assembler \<Rightarrow> stream_event \<Rightarrow> assembler" where
  "identified a ev = (if se_provider_request_id ev = None then a
     else a\<lparr>as_provider_request_id := se_provider_request_id ev\<rparr>)"

lemma identified_simps [simp]:
  "as_text (identified a ev) = as_text a" "as_tool_names (identified a ev) = as_tool_names a"
  "as_tool_arguments (identified a ev) = as_tool_arguments a"
  "as_closed_calls (identified a ev) = as_closed_calls a"
  "as_attempt (identified a ev) = as_attempt a"
  "as_failed_attempt (identified a ev) = as_failed_attempt a"
  "as_scheduled_attempt (identified a ev) = as_scheduled_attempt a"
  "as_retry_events (identified a ev) = as_retry_events a"
  "as_finish_reason (identified a ev) = as_finish_reason a"
  "as_terminal_error_class (identified a ev) = as_terminal_error_class a"
  by (simp_all add: identified_def)

lemma output_matches_identified [simp]: "output_matches seg (identified a ev) = output_matches seg a"
  by (simp add: output_matches_def)

lemma accept_event_identified:
  "accept_event a ev = Inr a' \<longleftrightarrow> as_finish_reason a = None \<and> as_terminal_error_class a = None
     \<and> (case se_kind ev of
          SkAttemptStarted \<Rightarrow> accept_attempt_started (identified a ev) ev
        | SkRetryScheduled \<Rightarrow> accept_retry_scheduled (identified a ev) ev
        | SkAttemptFailed \<Rightarrow> accept_attempt_failed (identified a ev) ev
        | SkTextDelta \<Rightarrow> accept_text_delta (identified a ev) ev
        | SkReasoningDelta \<Rightarrow> Inr (identified a ev)
        | SkToolCallStart \<Rightarrow> accept_tool_call_start (identified a ev) ev
        | SkToolCallArgumentsDelta \<Rightarrow> accept_arguments_delta (identified a ev) ev
        | SkToolCallEnd \<Rightarrow> accept_tool_call_end (identified a ev) ev
        | SkUsage \<Rightarrow> accept_usage (identified a ev) ev
        | SkFinish \<Rightarrow> accept_finish (identified a ev) ev
        | SkError \<Rightarrow> accept_error (identified a ev) ev) = Inr a'"
  unfolding accept_event_def identified_def [symmetric] Let_def violation_def by simp

lemma text_delta_matches:
  assumes m: "output_matches seg a" and k: "se_kind ev = SkTextDelta"
    and s: "accept_text_delta a ev = Inr a'"
  shows "output_matches (seg @ [ev]) a'"
proof -
  from s have a': "a' = a\<lparr>as_text := as_text a @ [delta_of ev]\<rparr>"
    by (auto simp: accept_text_delta_def violation_def delta_of_def split: if_splits)
  show ?thesis using m unfolding output_matches_def a' by (simp add: k)
qed

lemma tool_start_matches:
  assumes m: "output_matches seg a" and k: "se_kind ev = SkToolCallStart"
    and s: "accept_tool_call_start a ev = Inr a'"
  shows "output_matches (seg @ [ev]) a'"
proof -
  let ?c = "call_id_of ev"
  from s have fresh: "?c \<notin> set (started_calls seg)"
    and a': "a' = a\<lparr>as_tool_names := AList.update ?c (opt_string (se_tool_name ev)) (as_tool_names a),
        as_tool_arguments := AList.update ?c [] (as_tool_arguments a)\<rparr>"
    by (auto simp: accept_tool_call_start_def violation_def call_id_of_def Let_def
        output_matches_keys [OF m] split: if_splits)
  from m fresh have "argument_deltas seg ?c = []"
    by (intro argument_deltas_none) (auto simp: output_matches_def)
  with m k fresh show ?thesis
    by (auto simp: output_matches_def a' update_keys output_matches_keys [OF m] split: if_splits)
qed

lemma arguments_match:
  assumes m: "output_matches seg a" and k: "se_kind ev = SkToolCallArgumentsDelta"
    and s: "accept_arguments_delta a ev = Inr a'"
  shows "output_matches (seg @ [ev]) a'"
proof -
  let ?c = "call_id_of ev"
  from s obtain ds where ds: "map_of (as_tool_arguments a) ?c = Some ds"
    and a': "a' = a\<lparr>as_tool_arguments := AList.update ?c (ds @ [delta_of ev]) (as_tool_arguments a)\<rparr>"
    by (auto simp: accept_arguments_delta_def violation_def call_id_of_def delta_of_def Let_def
        split: option.splits if_splits)
  from ds have "?c \<in> set (started_calls seg)"
    using output_matches_keys(2) [OF m] by (metis domI dom_map_of_conv_image_fst)
  with m k ds show ?thesis
    by (auto simp: output_matches_def a' update_keys output_matches_keys [OF m] split: if_splits)
qed

lemma tool_end_matches:
  assumes m: "output_matches seg a" and k: "se_kind ev = SkToolCallEnd"
    and s: "accept_tool_call_end a ev = Inr a'"
  shows "output_matches (seg @ [ev]) a'"
proof -
  from s have "call_id_of ev \<in> set (started_calls seg)" "call_id_of ev \<notin> set (ended_calls seg)"
    and a': "a' = a\<lparr>as_closed_calls := as_closed_calls a @ [call_id_of ev]\<rparr>"
    using m by (auto simp: accept_tool_call_end_def violation_def call_id_of_def Let_def
        output_matches_keys [OF m] output_matches_def split: if_splits)
  with m k show ?thesis by (simp add: output_matches_def)
qed

lemma accepted_output:
  "accept_all new_assembler evs = Inr a \<Longrightarrow> output_matches (last_attempt evs) a"
proof (induction rule: accept_all_induct)
  case start
  then show ?case by (simp add: output_matches_def last_attempt_def new_assembler_def)
next
  case (event evs ev a a')
  let ?i = "identified a ev"
  have i: "output_matches (last_attempt evs) ?i" using event.IH by simp
  have cleared: "output_matches [] b" if "b = clear_attempt_output ?i
      \<or> (\<exists>x y z r. b = (clear_attempt_output ?i)\<lparr>as_attempt := x, as_failed_attempt := y, as_scheduled_attempt := z\<rparr>
        \<or> b = (clear_attempt_output ?i)\<lparr>as_failed_attempt := y, as_retry_events := r\<rparr>)" for b
    using that by (auto simp: output_matches_def clear_attempt_output_def)
  note step = event.hyps(2) [unfolded accept_event_identified]
  show ?case
  proof (cases "se_kind ev")
    case SkAttemptStarted
    with step have "output_matches [] a'"
      by (intro cleared) (auto simp: accept_attempt_started_def violation_def split: option.splits if_splits)
    with SkAttemptStarted show ?thesis by (simp add: last_attempt_snoc resets_def)
  next
    case SkAttemptFailed
    with step have "output_matches [] a'"
      by (intro cleared) (auto simp: accept_attempt_failed_def violation_def split: if_splits)
    with SkAttemptFailed show ?thesis by (simp add: last_attempt_snoc resets_def)
  next
    case SkTextDelta
    with step text_delta_matches [OF i] show ?thesis by (simp add: last_attempt_snoc resets_def)
  next
    case SkToolCallStart
    with step tool_start_matches [OF i] show ?thesis by (simp add: last_attempt_snoc resets_def)
  next
    case SkToolCallArgumentsDelta
    with step arguments_match [OF i] show ?thesis by (simp add: last_attempt_snoc resets_def)
  next
    case SkToolCallEnd
    with step tool_end_matches [OF i] show ?thesis by (simp add: last_attempt_snoc resets_def)
  next
    case SkRetryScheduled
    with step have "output_matches (last_attempt evs) a'"
      by (intro output_matches_frame [OF i])
        (auto simp: accept_retry_scheduled_def violation_def Let_def split: option.splits if_splits)
    with SkRetryScheduled show ?thesis by (simp add: last_attempt_snoc resets_def output_matches_skip)
  next
    case SkReasoningDelta
    with step i show ?thesis by (simp add: last_attempt_snoc resets_def output_matches_skip)
  next
    case SkUsage
    with step have "output_matches (last_attempt evs) a'"
      by (intro output_matches_frame [OF i])
        (auto simp: accept_usage_def violation_def Let_def split: option.splits if_splits)
    with SkUsage show ?thesis by (simp add: last_attempt_snoc resets_def output_matches_skip)
  next
    case SkFinish
    with step have "output_matches (last_attempt evs) a'"
      by (intro output_matches_frame [OF i]) (auto simp: accept_finish_def violation_def split: option.splits)
    with SkFinish show ?thesis by (simp add: last_attempt_snoc resets_def output_matches_skip)
  next
    case SkError
    with step have "output_matches (last_attempt evs) a'"
      by (intro output_matches_frame [OF i]) (auto simp: accept_error_def violation_def split: if_splits)
    with SkError show ?thesis by (simp add: last_attempt_snoc resets_def output_matches_skip)
  qed
qed

section \<open>Attempts\<close>

definition attempts_ok :: "stream_event list \<Rightarrow> assembler \<Rightarrow> bool" where
  "attempts_ok evs a \<longleftrightarrow>
     (let n = length (of_kind SkAttemptStarted evs) in
      map se_attempt (of_kind SkAttemptStarted evs) = map (\<lambda>k. Some (int k)) [1..<Suc n]
      \<and> as_attempt a = (if n = 0 then None else Some (int n))
      \<and> as_failed_attempt a \<in> {None, as_attempt a}
      \<and> as_scheduled_attempt a \<in> {None, Some (int n + 1)}
      \<and> (as_scheduled_attempt a \<noteq> None \<longrightarrow> as_failed_attempt a \<noteq> None)
      \<and> length (of_kind SkAttemptFailed evs) = (n - 1) + (if as_failed_attempt a = None then 0 else 1)
      \<and> length (of_kind SkRetryScheduled evs) = (n - 1) + (if as_scheduled_attempt a = None then 0 else 1))"

lemma attempts_frame:
  assumes "attempts_ok evs a" and "se_kind ev \<notin> {SkAttemptStarted, SkAttemptFailed, SkRetryScheduled}"
    and "as_attempt b = as_attempt a" and "as_failed_attempt b = as_failed_attempt a"
    and "as_scheduled_attempt b = as_scheduled_attempt a"
  shows "attempts_ok (evs @ [ev]) b"
  using assms unfolding attempts_ok_def by simp

lemma attempt_started_ok:
  assumes "attempts_ok evs a" and "se_kind ev = SkAttemptStarted" and "accept_attempt_started a ev = Inr b"
  shows "attempts_ok (evs @ [ev]) b"
proof -
  let ?n = "length (of_kind SkAttemptStarted evs)"
  from assms(3) obtain k where k: "se_attempt ev = Some k"
    and b: "as_attempt b = Some k" "as_failed_attempt b = None" "as_scheduled_attempt b = None"
    and g: "as_attempt a \<noteq> None \<longrightarrow> as_scheduled_attempt a = Some k" "as_attempt a = None \<longrightarrow> k = 1"
    by (auto simp: accept_attempt_started_def violation_def split: option.splits if_splits)
  from assms(1) have old: "map se_attempt (of_kind SkAttemptStarted evs) = map (\<lambda>k. Some (int k)) [1..<Suc ?n]"
      "as_attempt a = (if ?n = 0 then None else Some (int ?n))"
      "as_scheduled_attempt a \<in> {None, Some (int ?n + 1)}"
      "as_scheduled_attempt a \<noteq> None \<longrightarrow> as_failed_attempt a \<noteq> None"
      "length (of_kind SkAttemptFailed evs) = (?n - 1) + (if as_failed_attempt a = None then 0 else 1)"
      "length (of_kind SkRetryScheduled evs) = (?n - 1) + (if as_scheduled_attempt a = None then 0 else 1)"
      "as_failed_attempt a \<in> {None, as_attempt a}"
    unfolding attempts_ok_def Let_def by blast+
  have kn: "k = int ?n + 1" using g old(2,3) by (cases "?n = 0") auto
  have "length (of_kind SkAttemptFailed evs) = ?n" "length (of_kind SkRetryScheduled evs) = ?n"
    using g old(2-) by (cases "?n = 0"; auto)+
  with old(1) assms(2) k b kn show ?thesis
    by (simp add: attempts_ok_def)
qed

lemma attempt_failed_ok:
  assumes "attempts_ok evs a" and "se_kind ev = SkAttemptFailed" and "accept_attempt_failed a ev = Inr b"
  shows "attempts_ok (evs @ [ev]) b"
proof -
  from assms(3) have "as_attempt a \<noteq> None" "as_failed_attempt a = None" "as_failed_attempt b = as_attempt a"
    "as_attempt b = as_attempt a" "as_scheduled_attempt b = as_scheduled_attempt a"
    by (auto simp: accept_attempt_failed_def violation_def clear_attempt_output_def split: if_splits)
  with assms(1,2) show ?thesis by (auto simp: attempts_ok_def Let_def split: if_splits)
qed

lemma retry_scheduled_ok:
  assumes "attempts_ok evs a" and "se_kind ev = SkRetryScheduled" and "accept_retry_scheduled a ev = Inr b"
  shows "attempts_ok (evs @ [ev]) b"
proof -
  from assms(3) obtain n where "as_attempt a = Some n" "as_failed_attempt a = Some n"
    "as_scheduled_attempt a = None" "as_scheduled_attempt b = Some (n + 1)"
    "as_attempt b = as_attempt a" "as_failed_attempt b = as_failed_attempt a"
    by (auto simp: accept_retry_scheduled_def violation_def Let_def split: if_splits option.splits)
  with assms(1,2) show ?thesis by (auto simp: attempts_ok_def Let_def split: if_splits)
qed

definition terminal_kind :: "stream_event \<Rightarrow> bool" where
  "terminal_kind ev \<longleftrightarrow> se_kind ev \<in> {SkFinish, SkError}"

definition same_attempt :: "assembler \<Rightarrow> assembler \<Rightarrow> bool" where
  "same_attempt a b \<longleftrightarrow> as_attempt b = as_attempt a \<and> as_failed_attempt b = as_failed_attempt a
     \<and> as_scheduled_attempt b = as_scheduled_attempt a"

lemma handlers_same_attempt:
  "accept_text_delta a ev = Inr b \<Longrightarrow> same_attempt a b"
  "accept_tool_call_start a ev = Inr b \<Longrightarrow> same_attempt a b"
  "accept_arguments_delta a ev = Inr b \<Longrightarrow> same_attempt a b"
  "accept_tool_call_end a ev = Inr b \<Longrightarrow> same_attempt a b"
  "accept_usage a ev = Inr b \<Longrightarrow> same_attempt a b"
  "accept_finish a ev = Inr b \<Longrightarrow> same_attempt a b"
  "accept_error a ev = Inr b \<Longrightarrow> same_attempt a b"
  by (auto simp: same_attempt_def accept_text_delta_def accept_tool_call_start_def
      accept_arguments_delta_def accept_tool_call_end_def accept_usage_def accept_finish_def
      accept_error_def violation_def Let_def split: if_splits option.splits)

lemma accepted_attempts: "accept_all new_assembler evs = Inr a \<Longrightarrow> attempts_ok evs a"
proof (induction rule: accept_all_induct)
  case start
  then show ?case by (simp add: attempts_ok_def new_assembler_def)
next
  case (event evs ev a a')
  let ?i = "identified a ev"
  have i: "attempts_ok evs ?i" using event.IH by (simp add: attempts_ok_def)
  note step = event.hyps(2) [unfolded accept_event_identified]
  have frame: "attempts_ok (evs @ [ev]) a'"
    if "se_kind ev \<notin> {SkAttemptStarted, SkAttemptFailed, SkRetryScheduled}" and "same_attempt ?i a'"
    using attempts_frame [OF i that(1)] that(2) by (simp add: same_attempt_def)
  show ?case
  proof (cases "se_kind ev")
    case SkAttemptStarted
    with step attempt_started_ok [OF i] show ?thesis by simp
  next
    case SkAttemptFailed
    with step attempt_failed_ok [OF i] show ?thesis by simp
  next
    case SkRetryScheduled
    with step retry_scheduled_ok [OF i] show ?thesis by simp
  next
    case SkReasoningDelta
    with step frame show ?thesis by (simp add: same_attempt_def)
  qed (use step frame handlers_same_attempt [of ?i ev a'] in simp_all)
qed

lemma accepted_terminal:
  "accept_all new_assembler evs = Inr a \<Longrightarrow> list_all (\<lambda>ev. \<not> terminal_kind ev) (butlast evs)
     \<and> (as_finish_reason a = None \<and> as_terminal_error_class a = None \<longrightarrow> list_all (\<lambda>ev. \<not> terminal_kind ev) evs)"
proof (induction rule: accept_all_induct)
  case start
  then show ?case by simp
next
  case (event evs ev a a')
  note step = event.hyps(2) [unfolded accept_event_identified]
  have "as_finish_reason a' \<noteq> None \<or> as_terminal_error_class a' \<noteq> None" if "terminal_kind ev"
    using step that by (cases "se_kind ev")
      (auto simp: terminal_kind_def accept_finish_def accept_error_def violation_def
        split: if_splits option.splits)
  with step event.IH show ?case by auto
qed

text \<open>
  Provider attempts are numbered without gaps and every retry is accounted. In any accepted
  event stream the attempts that started are 1, 2, .., n in this order; every attempt but the last
  failed exactly once and had its successor scheduled exactly once (the last may have failed and may
  have a successor scheduled); and nothing follows a finish or a terminal error.
\<close>

theorem attempts_numbered_without_gaps:
  assumes "accept_all new_assembler evs = Inr a"
  shows "map se_attempt (of_kind SkAttemptStarted evs)
      = map (\<lambda>k. Some (int k)) [1..<Suc (length (of_kind SkAttemptStarted evs))]
    \<and> length (of_kind SkAttemptFailed evs) - (length (of_kind SkAttemptStarted evs) - 1) \<le> 1
    \<and> length (of_kind SkAttemptStarted evs) - 1 \<le> length (of_kind SkRetryScheduled evs)
    \<and> length (of_kind SkRetryScheduled evs) \<le> length (of_kind SkAttemptFailed evs)
    \<and> list_all (\<lambda>ev. \<not> terminal_kind ev) (butlast evs)"
  using accepted_attempts [OF assms] accepted_terminal [OF assms]
  by (auto simp: attempts_ok_def Let_def split: if_splits)

definition sample_stream_event :: "stream_kind \<Rightarrow> stream_event" where
  "sample_stream_event k = \<lparr>se_kind = k, se_attempt = None, se_provider_request_id = None,
     se_error_class = None, se_retryable = None, se_retry_delay_ms = None, se_error_code = None,
     se_error_message = None, se_call_id = None, se_tool_name = None, se_delta = None,
     se_usage = None, se_finish_reason = None\<rparr>"

text \<open>A failed first attempt with some text, its retry with one Tool call.\<close>

definition sample_stream :: "stream_event list" where
  "sample_stream =
     [(sample_stream_event SkAttemptStarted)\<lparr>se_attempt := Some 1\<rparr>,
      (sample_stream_event SkTextDelta)\<lparr>se_delta := Some ''lost''\<rparr>,
      (sample_stream_event SkAttemptFailed)\<lparr>se_attempt := Some 1, se_error_class := Some EcTimeout,
        se_retryable := Some True\<rparr>,
      (sample_stream_event SkRetryScheduled)\<lparr>se_attempt := Some 2, se_error_class := Some EcTimeout,
        se_retryable := Some True\<rparr>,
      (sample_stream_event SkAttemptStarted)\<lparr>se_attempt := Some 2\<rparr>,
      (sample_stream_event SkTextDelta)\<lparr>se_delta := Some ''kept''\<rparr>,
      (sample_stream_event SkToolCallStart)\<lparr>se_call_id := Some ''c1'', se_tool_name := Some ''ask''\<rparr>,
      (sample_stream_event SkToolCallArgumentsDelta)\<lparr>se_call_id := Some ''c1'', se_delta := Some ''{}''\<rparr>,
      (sample_stream_event SkToolCallEnd)\<lparr>se_call_id := Some ''c1''\<rparr>,
      (sample_stream_event SkFinish)\<lparr>se_finish_reason := Some ''tool_calls''\<rparr>]"

lemma sample_stream_accepted:
  "\<exists>a. accept_all new_assembler sample_stream = Inr a \<and> as_finish_reason a = Some FinToolCalls
     \<and> as_terminal_error_class a = None"
  by (simp add: sample_stream_def sample_stream_event_def accept_event_def accept_handlers
      clear_attempt_output_def new_assembler_def opt_string_def finish_of_def Let_def)

theorem attempts_numbered_without_gaps_witness:
  "map se_attempt (of_kind SkAttemptStarted sample_stream)
     = map (\<lambda>k. Some (int k)) [1..<Suc (length (of_kind SkAttemptStarted sample_stream))]"
  using sample_stream_accepted attempts_numbered_without_gaps by blast

section \<open>The message of a turn\<close>

lemma build_tool_calls_spec:
  "build_tool_calls loads sha a cs = Inr ts \<Longrightarrow> map tc_call_id ts = cs
     \<and> list_all (\<lambda>t. loads (if arguments_text a (tc_call_id t) = [] then ''{}''
          else arguments_text a (tc_call_id t)) = Some (JObj (tc_arguments t))
        \<and> tc_tool_name t = opt_string (map_of (as_tool_names a) (tc_call_id t))) ts"
proof (induction cs arbitrary: ts)
  case Nil
  then show ?case by simp
next
  case (Cons c cs)
  then obtain t ts' where t: "build_tool_call loads sha a c = Inr t"
    and ts': "build_tool_calls loads sha a cs = Inr ts'" and ts: "ts = t # ts'"
    by (auto simp: map_sum_def split: sum.splits)
  from t have "tc_call_id t = c \<and> loads (if arguments_text a c = [] then ''{}'' else arguments_text a c)
      = Some (JObj (tc_arguments t)) \<and> tc_tool_name t = opt_string (map_of (as_tool_names a) c)"
    by (auto simp: build_tool_call_def Let_def split: option.splits json.splits)
  with Cons.IH [OF ts'] ts show ?case by (simp split: if_splits)
qed

text \<open>
  A turn is made of its last attempt alone. When an accepted stream yields an assistant message,
  its text is the concatenation of the text deltas after the last attempt began (nothing of an
  earlier, failed attempt survives); all Tool calls started there were ended; and when the turn
  finished with Tool calls they are these calls, each once, in the order they ended, each with the
  arguments its own deltas spell in JSON.
\<close>

theorem message_of_last_attempt:
  assumes "accept_all new_assembler evs = Inr a" and "build_message loads sha a mid t = Inr m"
  shows "let seg = last_attempt evs in
      am_content m = (if text_deltas seg = [] then [] else [TextPart (concat (text_deltas seg))])
    \<and> set (ended_calls seg) = set (started_calls seg) \<and> distinct (map tc_call_id (am_tool_calls m))
    \<and> map tc_call_id (am_tool_calls m) = (if am_finish_reason m = FinToolCalls then ended_calls seg else [])
    \<and> list_all (\<lambda>c. loads (if concat (argument_deltas seg (tc_call_id c)) = [] then ''{}''
          else concat (argument_deltas seg (tc_call_id c))) = Some (JObj (tc_arguments c)))
        (am_tool_calls m)"
proof -
  let ?seg = "last_attempt evs"
  note o = accepted_output [OF assms(1)]
  from assms(2) have n: "as_terminal_error_class a = None"
    by (auto simp: build_message_def build_outcome_def failed_outcome_def split: option.splits)
  with assms(2) obtain f where f: "as_finish_reason a = Some f"
    by (auto simp: build_message_def build_outcome_def split: option.splits)
  from assms(2) n f have ok: "f \<notin> {FinError, FinAborted, FinContentFilter}"
    by (auto simp: build_message_def build_outcome_def failed_outcome_def)
  from assms(2) n f ok have closed: "set (as_closed_calls a) = fst ` set (as_tool_names a)"
    by (auto simp: build_message_def build_outcome_def split: if_splits)
  obtain ts where ts: "(if f = FinToolCalls then build_tool_calls loads sha a (as_closed_calls a) else Inr [])
      = Inr ts"
    using assms(2) n f ok closed
    by (cases "if f = FinToolCalls then build_tool_calls loads sha a (as_closed_calls a) else Inr []")
      (simp_all add: build_message_def build_outcome_def)
  from assms(2) n f ok closed ts have m:
      "am_content m = (if as_text a = [] then [] else [TextPart (concat (as_text a))])"
      "am_tool_calls m = ts" "am_finish_reason m = f"
    by (auto simp: build_message_def build_outcome_def)
  have tx: "as_text a = text_deltas ?seg" and cl: "as_closed_calls a = ended_calls ?seg"
    and d: "distinct (ended_calls ?seg)" using o by (simp_all add: output_matches_def)
  have ids: "map tc_call_id ts = (if f = FinToolCalls then ended_calls ?seg else [])"
    using ts build_tool_calls_spec [of loads sha a _ ts] cl by (auto split: if_splits)
  have arg: "arguments_text a c = concat (argument_deltas ?seg c)" if "c \<in> set (started_calls ?seg)" for c
  proof -
    from that output_matches_keys(2) [OF o] obtain ds where "map_of (as_tool_arguments a) c = Some ds"
      by (metis map_of_eq_None_iff not_None_eq)
    with o show ?thesis by (simp add: arguments_text_def output_matches_def)
  qed
  have sub: "tc_call_id x \<in> set (started_calls ?seg)" if "x \<in> set ts" for x
  proof -
    from that have "tc_call_id x \<in> set (map tc_call_id ts)" by simp
    with ids o show ?thesis unfolding output_matches_def by (auto split: if_splits)
  qed
  have "list_all (\<lambda>c. loads (if concat (argument_deltas ?seg (tc_call_id c)) = [] then ''{}''
          else concat (argument_deltas ?seg (tc_call_id c))) = Some (JObj (tc_arguments c))) ts"
    using ts build_tool_calls_spec [of loads sha a "as_closed_calls a" ts] arg sub
    by (auto simp: list_all_iff split: if_splits)
  with m tx ids d closed cl output_matches_keys(1) [OF o] show ?thesis
    by (auto simp: Let_def)
qed

theorem message_of_last_attempt_witness:
  "\<exists>a m. accept_all new_assembler sample_stream = Inr a
     \<and> build_message (\<lambda>s. Some (JObj [])) id a ''m'' 5 = Inr m \<and> am_content m = [TextPart ''kept'']"
proof -
  obtain a where a: "accept_all new_assembler sample_stream = Inr a"
    "as_finish_reason a = Some FinToolCalls" "as_terminal_error_class a = None"
    using sample_stream_accepted by blast
  have seg: "text_deltas (last_attempt sample_stream) = [''kept'']"
    "ended_calls (last_attempt sample_stream) = [''c1'']" "started_calls (last_attempt sample_stream) = [''c1'']"
    by (simp_all add: last_attempt_def sample_stream_def sample_stream_event_def resets_def
        text_deltas_def ended_calls_def started_calls_def of_kind_def delta_of_def call_id_of_def opt_string_def)
  have calls: "\<exists>ts. build_tool_calls (\<lambda>s. Some (JObj [])) id a cs = Inr ts" for cs
    by (induction cs) (auto simp: build_tool_call_def)
  have "fst ` set (as_tool_names a) = set (as_closed_calls a)"
    using output_matches_keys(1) [OF accepted_output [OF a(1)]] accepted_output [OF a(1)] seg
    by (simp add: output_matches_def)
  with a calls [of "as_closed_calls a"] obtain m where m: "build_message (\<lambda>s. Some (JObj [])) id a ''m'' 5 = Inr m"
    by (auto simp: build_message_def build_outcome_def)
  from message_of_last_attempt [OF a(1) m] seg have "am_content m = [TextPart ''kept'']"
    by (simp add: Let_def)
  with a(1) m show ?thesis by blast
qed

end
