(* ===== verification/Transcript.thy ===== *)
theory Transcript
  imports Samples
begin

text \<open>
  \<open>execution/orchestrator/transcript.py\<close>: the conversion of the durable transcript into provider
  messages. \<open>dumps\<close> is \<open>json.dumps\<close> with sorted keys and compact separators, a parameter of which
  nothing is assumed. The ellipsis the source writes as one Unicode character is its UTF-8 bytes.

  The lemmas show that conversion succeeds exactly on well-paired transcripts, and that what the
  provider then receives pairs every Tool call with exactly one later Tool message.
\<close>

section \<open>Rendering\<close>

definition nl :: string where "nl = [newline]"

definition lines_of :: "string list \<Rightarrow> string" where
  "lines_of ss = join_strings nl ss"

fun render_part :: "(json \<Rightarrow> string) \<Rightarrow> content_part \<Rightarrow> string" where
  "render_part dumps (TextPart t) = t"
| "render_part dumps (DataPart d s x) = dumps d"
| "render_part dumps (ArtifactRefPart ref mime) = ''[artifact reference: '' @ ref
     @ (if truthy_str mime then '' ('' @ the mime @ '')'' else []) @ '']''"

definition content_text :: "(json \<Rightarrow> string) \<Rightarrow> content_part list \<Rightarrow> string" where
  "content_text dumps parts = lines_of (filter (\<lambda>s. s \<noteq> []) (map (render_part dumps) parts))"

definition starts_with :: "string \<Rightarrow> string \<Rightarrow> bool" where
  "starts_with p s \<longleftrightarrow> take (length p) s = p"

definition room_file_ref_prefix :: string where "room_file_ref_prefix = ''/api/v1/files/''"

definition unread_files_note :: string where
  "unread_files_note = ''[platform note: Hybro has not read the contents of the referenced files; ''
     @ ''describe them only from what the Agent reported above]''"

definition status_text :: "result_status \<Rightarrow> string" where
  "status_text s = (case s of ResCompleted \<Rightarrow> ''completed'' | ResFailed \<Rightarrow> ''failed''
     | ResCanceled \<Rightarrow> ''canceled'' | ResRejected \<Rightarrow> ''rejected'' | ResExpired \<Rightarrow> ''expired'')"

text \<open>One \<open>text = f"{text}\n{extra}".strip()\<close> of the source.\<close>

definition add_line :: "string \<Rightarrow> string \<Rightarrow> string" where
  "add_line text extra = py_strip (text @ nl @ extra)"

definition result_text :: "(json \<Rightarrow> string) \<Rightarrow> bool \<Rightarrow> tool_result_message \<Rightarrow> string" where
  "result_text dumps prep m =
     (let t0 = content_text dumps (trm_content m);
          refs = lines_of (map (\<lambda>r. ''[artifact reference: '' @ r @ '']'') (trm_artifact_refs m));
          t1 = (if refs \<noteq> [] then add_line t0 refs else t0);
          t2 = (if list_ex (starts_with room_file_ref_prefix) (trm_artifact_refs m)
                then add_line t1 unread_files_note else t1);
          t3 = (if truthy_str (trm_error_code m)
                then add_line t2 (''[agent error code: '' @ the (trm_error_code m) @ '']'') else t2);
          t4 = (if truthy_str (trm_error_message m) then add_line t3 (the (trm_error_message m)) else t3) in
      if prep then
        add_line (if trm_status m = ResCompleted \<and> \<not> trm_is_error m
                  then ''[agent observation: verified completed result; usable as evidence]''
                  else ''[agent observation: status='' @ status_text (trm_status m)
                    @ ''; diagnostic only, not evidence]'') t4
      else t4)"

definition opt_json :: "string option \<Rightarrow> json" where
  "opt_json x = (case x of None \<Rightarrow> JNull | Some s \<Rightarrow> JStr s)"

definition question_json :: "interaction_question \<Rightarrow> json" where
  "question_json q = JObj [(''question_id'', JStr (iq_question_id q)),
     (''interaction_kind'', JStr (iq_interaction_kind q)), (''answer_kind'', JStr (iq_answer_kind q)),
     (''required'', JBool (iq_required q)), (''prompt'', JStr (iq_prompt q)),
     (''choices'', case iq_choices q of None \<Rightarrow> JNull | Some cs \<Rightarrow> JArr (map JStr cs))]"

definition interaction_text ::
  "(json \<Rightarrow> string) \<Rightarrow> tool_interaction_message \<Rightarrow> bool \<Rightarrow> interaction_answers option \<Rightarrow> string" where
  "interaction_text dumps m resolved answers =
     (let payload = [(''presentation_id'', opt_json (tim_presentation_id m)),
            (''interaction_id'', JStr (tim_interaction_id m)),
            (''interaction_fingerprint'', JStr (tim_interaction_fingerprint m)),
            (''questions'', JArr (map question_json (tim_questions m))),
            (''artifact_refs'', JArr (map JStr (tim_artifact_refs m)))] in
      case answers of
        Some a \<Rightarrow> ''[agent input request; the user answered it in user_answers and the ''
            @ ''answers were sent to the Agent; do not ask it again]'' @ nl
            @ dumps (JObj (payload @ [(''user_answers'', JArr (map (\<lambda>x. JObj
                [(''question_id'', JStr (ia_question_id x)), (''answer'', JStr (ia_answer x))])
                (ias_answers a)))]))
      | None \<Rightarrow> (if resolved
            then ''[agent input request; already answered, the Agent's result follows; ''
              @ ''do not ask it again]''
            else ''[agent input request; answer it from existing evidence, or ask the user]'')
          @ nl @ dumps (JObj payload))"

definition ellipsis :: string where "ellipsis = [CHR 0xE2, CHR 0x80, CHR 0xA6]"

definition rstrip :: "string \<Rightarrow> string" where
  "rstrip s = rev (dropWhile py_isspace (rev s))"

definition lstrip :: "string \<Rightarrow> string" where "lstrip = dropWhile py_isspace"

definition historical_value :: "(json \<Rightarrow> string) \<Rightarrow> string \<Rightarrow> json \<Rightarrow> json" where
  "historical_value dumps k v = (case v of
      JStr s \<Rightarrow> if k = ''task'' then
          (if length s \<le> 2400 then JStr (''[historical plan, not evidence]'' @ nl @ s)
           else JStr (''[historical plan, not evidence; middle omitted]'' @ nl @ rstrip (take 1800 s)
             @ nl @ ellipsis @ nl @ lstrip (drop (length s - 400) s)))
        else v
    | JArr xs \<Rightarrow> JArr (take 20 xs)
    | JObj kvs \<Rightarrow> if length (dumps v) \<le> 1000 then v
        else JStr ''[historical structured argument omitted]''
    | _ \<Rightarrow> v)"

definition historical_arguments ::
  "(json \<Rightarrow> string) \<Rightarrow> (string \<times> json) list \<Rightarrow> (string \<times> json) list" where
  "historical_arguments dumps args = map (\<lambda>(k, v). (k, historical_value dumps k v)) args"

section \<open>Resolved answers and unresolved calls\<close>

record answer_scan =
  an_prompts :: "((string \<times> string) \<times> string) list"
  an_asked :: "(string \<times> string) list"
  an_pairs :: "(string \<times> string) list"
  an_seen :: "(string \<times> string) list"

definition answer_max_chars :: nat where "answer_max_chars = 1000"

definition scan_answer :: "string \<Rightarrow> answer_scan \<Rightarrow> interaction_answer \<Rightarrow> answer_scan" where
  "scan_answer iid s a =
     (let key = (iid, ia_question_id a) in
      if key \<in> set (an_seen s) then s
      else s\<lparr>an_seen := an_seen s @ [key],
        an_pairs := an_pairs s @ [(case map_of (an_prompts s) key of None \<Rightarrow> ia_question_id a
            | Some p \<Rightarrow> p, take answer_max_chars (ia_answer a))]\<rparr>)"

definition scan_answers :: "interaction_answers list \<Rightarrow> answer_scan \<Rightarrow> answer_scan" where
  "scan_answers xs s = foldl (\<lambda>s x. foldl (scan_answer (ias_interaction_id x)) s (ias_answers x)) s xs"

definition scan_call :: "answer_scan \<Rightarrow> tool_call \<Rightarrow> answer_scan" where
  "scan_call s c = (case map_of (tc_arguments c) ''question'' of
      Some (JStr q) \<Rightarrow> if tc_tool_name c = ''request_user_input''
        then s\<lparr>an_asked := AList.update (tc_call_id c) q (an_asked s)\<rparr> else s
    | _ \<Rightarrow> s)"

fun scan_message :: "(json \<Rightarrow> string) \<Rightarrow> answer_scan \<Rightarrow> agent_message \<Rightarrow> answer_scan" where
  "scan_message dumps s (AssistantMsg a) = foldl scan_call s (am_tool_calls a)"
| "scan_message dumps s (ToolInteractionMsg t) = scan_answers (tim_interaction_answers t)
     (s\<lparr>an_prompts := foldl (\<lambda>p q. AList.update (tim_interaction_id t, iq_question_id q) (iq_prompt q) p)
        (an_prompts s) (tim_questions t)\<rparr>)"
| "scan_message dumps s (ToolResultMsg t) =
     (let s' = scan_answers (trm_interaction_answers t) s in
      case map_of (an_asked s') (trm_call_id t) of
        None \<Rightarrow> s'
      | Some q \<Rightarrow>
          let answer = py_strip (content_text dumps (trm_content t)) in
          if trm_status t = ResCompleted \<and> answer \<noteq> []
            then s'\<lparr>an_pairs := an_pairs s' @ [(q, take answer_max_chars answer)]\<rparr> else s')"
| "scan_message dumps s _ = s"

definition resolved_user_answers :: "(json \<Rightarrow> string) \<Rightarrow> agent_message list \<Rightarrow> (string \<times> string) list" where
  "resolved_user_answers dumps ms = an_pairs (foldl (scan_message dumps)
     \<lparr>an_prompts = [], an_asked = [], an_pairs = [], an_seen = []\<rparr> ms)"

fun calls_of :: "agent_message \<Rightarrow> string list" where
  "calls_of (AssistantMsg a) = map tc_call_id (am_tool_calls a)"
| "calls_of _ = []"

fun answered_call :: "agent_message \<Rightarrow> string list" where
  "answered_call (ToolResultMsg t) = [trm_call_id t]"
| "answered_call (ToolInteractionMsg t) = [tim_call_id t]"
| "answered_call _ = []"

fun result_call :: "agent_message \<Rightarrow> string list" where
  "result_call (ToolResultMsg t) = [trm_call_id t]"
| "result_call _ = []"

definition unresolved_call_ids :: "agent_message list \<Rightarrow> string set" where
  "unresolved_call_ids ms =
     set (concat (map calls_of ms)) - set (concat (map answered_call ms))"


section \<open>Conversion, first pass\<close>

record conversion =
  cv_dumps :: "json \<Rightarrow> string"
  cv_include_notices :: bool
  cv_prepare :: bool
  cv_resolved :: "string list"
  cv_with_result :: "string list"
  cv_answers :: "string \<Rightarrow> interaction_answers option"

fun answers_in :: "agent_message \<Rightarrow> interaction_answers list" where
  "answers_in (ToolResultMsg t) = trm_interaction_answers t"
| "answers_in (ToolInteractionMsg t) = tim_interaction_answers t"
| "answers_in _ = []"

text \<open>A dictionary comprehension: the last answer of an interaction is kept.\<close>

definition user_answers :: "agent_message list \<Rightarrow> string \<Rightarrow> interaction_answers option" where
  "user_answers ms = map_of (rev (map (\<lambda>x. (ias_interaction_id x, x)) (concat (map answers_in ms))))"

definition call_part :: "conversion \<Rightarrow> tool_call \<Rightarrow> model_part" where
  "call_part cv c = ModelToolCall (tc_call_id c) (tc_tool_name c)
     (if cv_prepare cv \<and> tc_call_id c \<in> set (cv_resolved cv)
      then historical_arguments (cv_dumps cv) (tc_arguments c) else tc_arguments c)"

fun convert_calls :: "conversion \<Rightarrow> string list \<Rightarrow> tool_call list \<Rightarrow> string + (string list \<times> model_part list)" where
  "convert_calls cv calls [] = Inr (calls, [])"
| "convert_calls cv calls (c # cs) =
     (if tc_call_id c \<in> set calls then Inl ''duplicate assistant tool call''
      else case convert_calls cv (calls @ [tc_call_id c]) cs of
        Inl e \<Rightarrow> Inl e
      | Inr (calls', ps) \<Rightarrow> Inr (calls', call_part cv c # ps))"

definition tool_message :: "string \<Rightarrow> string \<Rightarrow> string \<Rightarrow> bool \<Rightarrow> model_message" where
  "tool_message cid name text err =
     \<lparr>mm_role = RoleTool, mm_content = [ModelToolResult cid name [text] err]\<rparr>"

definition text_message :: "string \<Rightarrow> model_message" where
  "text_message text = \<lparr>mm_role = RoleUser, mm_content = [ModelText text]\<rparr>"

text \<open>The body of the loop: the calls announced, the calls with a result, the messages to append.\<close>

fun convert_message :: "conversion \<Rightarrow> string list \<Rightarrow> string list \<Rightarrow> agent_message
    \<Rightarrow> string + (string list \<times> string list \<times> model_message list)" where
  "convert_message cv calls results (UserMsg m) =
     Inr (calls, results, [text_message (content_text (cv_dumps cv) (um_content m))])"
| "convert_message cv calls results (AssistantMsg m) =
     (let text = content_text (cv_dumps cv) (am_content m) in
      case convert_calls cv calls (am_tool_calls m) of
        Inl e \<Rightarrow> Inl e
      | Inr (calls', ps) \<Rightarrow> Inr (calls', results,
          [\<lparr>mm_role = RoleAssistant, mm_content = (if text \<noteq> [] then [ModelText text] else []) @ ps\<rparr>]))"
| "convert_message cv calls results (ToolResultMsg m) =
     (if trm_call_id m \<notin> set calls then Inl ''orphan tool result''
      else if trm_call_id m \<in> set results then Inl ''duplicate tool result''
      else Inr (calls, results @ [trm_call_id m],
        [tool_message (trm_call_id m) (trm_tool_name m)
           (result_text (cv_dumps cv) (cv_prepare cv) m) (trm_is_error m)]))"
| "convert_message cv calls results (ToolInteractionMsg m) =
     (if tim_call_id m \<notin> set calls then Inl ''orphan tool interaction''
      else Inr (calls, results,
        [tool_message (tim_call_id m) (tim_tool_name m)
           (interaction_text (cv_dumps cv) m (tim_call_id m \<in> set (cv_with_result cv))
             (cv_answers cv (tim_interaction_id m))) False]))"
| "convert_message cv calls results (NoticeMsg m) =
     Inr (calls, results, if cv_include_notices cv
       then [text_message (''[runtime:'' @ sn_code m @ ''] '' @ sn_content m)] else [])"

fun convert :: "conversion \<Rightarrow> string list \<Rightarrow> string list \<Rightarrow> agent_message list \<Rightarrow> string + model_message list" where
  "convert cv calls results [] = Inr []"
| "convert cv calls results (m # ms) = (case convert_message cv calls results m of
      Inl e \<Rightarrow> Inl e
    | Inr (calls', results', out) \<Rightarrow> (case convert cv calls' results' ms of
        Inl e \<Rightarrow> Inl e
      | Inr rest \<Rightarrow> Inr (out @ rest)))"

section \<open>Conversion, second pass\<close>

definition surface_tool :: string where "surface_tool = ''surface_agent_questions''"

text \<open>
  The Tool part of a Tool message. The first pass gives every Tool message exactly one part with
  exactly one text, so the other shapes, on which the source would fail, do not occur.
\<close>

fun tool_part :: "model_message \<Rightarrow> (string \<times> string \<times> string \<times> bool) option" where
  "tool_part \<lparr>mm_role = RoleTool, mm_content = [ModelToolResult cid name [text] err]\<rparr> =
     Some (cid, name, text, err)"
| "tool_part _ = None"

definition failed_surface_calls :: "model_message list \<Rightarrow> string list" where
  "failed_surface_calls ms = List.map_filter (\<lambda>m. case tool_part m of
      Some (cid, name, text, err) \<Rightarrow> if name = surface_tool \<and> err then Some cid else None
    | None \<Rightarrow> None) ms"

fun keep_part :: "string list \<Rightarrow> model_part \<Rightarrow> bool" where
  "keep_part failed (ModelToolCall cid name args) = (name = surface_tool \<longrightarrow> cid \<in> set failed)"
| "keep_part failed (ModelToolResult cid name ts err) = (name = surface_tool \<longrightarrow> cid \<in> set failed)"
| "keep_part failed (ModelText t) = True"

type_synonym folding = "model_message list \<times> (string \<rightharpoonup> string \<times> string \<times> string \<times> bool)"

definition merge_part :: "string \<times> string \<times> string \<times> bool \<Rightarrow> string \<times> string \<times> string \<times> bool
    \<Rightarrow> string \<times> string \<times> string \<times> bool" where
  "merge_part x y = (case x of (cid, name, text, err) \<Rightarrow> case y of (cid', name', text', err') \<Rightarrow>
     (cid, name, text @ nl @ nl @ text', err \<or> err'))"

definition part_message :: "string \<times> string \<times> string \<times> bool \<Rightarrow> model_message" where
  "part_message p = (case p of (cid, name, text, err) \<Rightarrow> tool_message cid name text err)"

definition is_tool_of :: "string \<Rightarrow> model_message \<Rightarrow> bool" where
  "is_tool_of cid m = (case tool_part m of Some p \<Rightarrow> fst p = cid | None \<Rightarrow> False)"

text \<open>The search from the end: the last element that satisfies \<open>P\<close> is replaced.\<close>

fun replace_first :: "('a \<Rightarrow> bool) \<Rightarrow> 'a \<Rightarrow> 'a list \<Rightarrow> 'a list" where
  "replace_first P y [] = []"
| "replace_first P y (x # xs) = (if P x then y # xs else x # replace_first P y xs)"

definition replace_last :: "('a \<Rightarrow> bool) \<Rightarrow> 'a \<Rightarrow> 'a list \<Rightarrow> 'a list" where
  "replace_last P y xs = rev (replace_first P y (rev xs))"

definition fold_tool :: "string \<times> string \<times> string \<times> bool \<Rightarrow> model_message \<Rightarrow> folding \<Rightarrow> folding" where
  "fold_tool p m f = (case f of (folded, blocks) \<Rightarrow>
     (case blocks (fst p) of
        Some existing \<Rightarrow>
          let updated = merge_part existing p in
          (replace_last (is_tool_of (fst p)) (part_message updated) folded,
           blocks(fst p \<mapsto> updated))
      | None \<Rightarrow> (folded @ [m], blocks(fst p \<mapsto> p))))"

definition fold_message :: "string list \<Rightarrow> folding \<Rightarrow> model_message \<Rightarrow> folding" where
  "fold_message failed f m = (case mm_role m of
      RoleAssistant \<Rightarrow>
        let parts = filter (keep_part failed) (mm_content m) in
        if parts = [] then f else (fst f @ [m\<lparr>mm_content := parts\<rparr>], snd f)
    | RoleTool \<Rightarrow> (case tool_part m of
        Some p \<Rightarrow> if fst (snd p) = surface_tool \<and> fst p \<notin> set failed then f else fold_tool p m f
      | None \<Rightarrow> (fst f @ [m], snd f))
    | RoleUser \<Rightarrow> (fst f @ [m], snd f))"

definition fold_messages :: "model_message list \<Rightarrow> model_message list" where
  "fold_messages ms = fst (foldl (fold_message (failed_surface_calls ms)) ([], Map.empty) ms)"

definition conversion_of :: "(json \<Rightarrow> string) \<Rightarrow> bool \<Rightarrow> bool \<Rightarrow> agent_message list \<Rightarrow> conversion" where
  "conversion_of dumps notices prep ms = \<lparr>cv_dumps = dumps, cv_include_notices = notices,
     cv_prepare = prep, cv_resolved = concat (map answered_call ms),
     cv_with_result = concat (map result_call ms), cv_answers = user_answers ms\<rparr>"

definition agent_messages_to_model ::
  "(json \<Rightarrow> string) \<Rightarrow> bool \<Rightarrow> bool \<Rightarrow> agent_message list \<Rightarrow> string + model_message list" where
  "agent_messages_to_model dumps notices prep ms =
     (case convert (conversion_of dumps notices prep ms) [] [] ms of
        Inl e \<Rightarrow> Inl e
      | Inr out \<Rightarrow> Inr (fold_messages out))"


section \<open>Well-paired transcripts\<close>

text \<open>
  The declarative reading of the four corruption errors: no call is announced twice, none has two
  results, and a result or an interaction follows the announcement of its call.
\<close>

definition well_paired :: "agent_message list \<Rightarrow> bool" where
  "well_paired ms \<longleftrightarrow> distinct (concat (map calls_of ms)) \<and> distinct (concat (map result_call ms))
     \<and> (\<forall>i < length ms. set (answered_call (ms ! i)) \<subseteq> set (concat (map calls_of (take i ms))))"

fun answers_follow :: "string list \<Rightarrow> agent_message list \<Rightarrow> bool" where
  "answers_follow calls [] = True"
| "answers_follow calls (m # ms) = (set (answered_call m) \<subseteq> set calls
     \<and> answers_follow (calls @ calls_of m) ms)"

lemma answers_follow_nth:
  "answers_follow calls ms \<longleftrightarrow> (\<forall>i < length ms. set (answered_call (ms ! i))
     \<subseteq> set (calls @ concat (map calls_of (take i ms))))"
proof (induction ms arbitrary: calls)
  case Nil
  then show ?case by simp
next
  case (Cons m ms)
  have set_split: "(\<forall>i < length (m # ms). P i) \<longleftrightarrow> P 0 \<and> (\<forall>i < length ms. P (Suc i))" for P
    by (auto simp: less_Suc_eq_0_disj)
  show ?case unfolding set_split answers_follow.simps Cons.IH by (auto simp: answers_follow.simps)
qed

lemma well_paired_follow:
  "well_paired ms \<longleftrightarrow> distinct (concat (map calls_of ms)) \<and> distinct (concat (map result_call ms))
     \<and> answers_follow [] ms"
  by (simp add: well_paired_def answers_follow_nth)

lemma convert_calls_outcome:
  "distinct calls \<Longrightarrow> convert_calls cv calls cs =
     (if distinct (calls @ map tc_call_id cs)
      then Inr (calls @ map tc_call_id cs, map (call_part cv) cs)
      else Inl ''duplicate assistant tool call'')"
  by (induction cs arbitrary: calls) auto

lemma result_answered: "set (result_call m) \<subseteq> set (answered_call m)"
  by (cases m) auto

lemma convert_message_succeeds:
  assumes "distinct calls" and "distinct results"
  shows "(\<exists>out. convert_message cv calls results m = Inr (calls @ calls_of m, results @ result_call m, out))
     = (distinct (calls @ calls_of m) \<and> distinct (results @ result_call m)
        \<and> set (answered_call m) \<subseteq> set calls)"
  using assms by (cases m) (auto simp: convert_calls_outcome Let_def)

lemma convert_message_state:
  assumes "distinct calls" and "convert_message cv calls results m = Inr (calls', results', out)"
  shows "calls' = calls @ calls_of m \<and> results' = results @ result_call m"
  using assms by (cases m) (auto simp: convert_calls_outcome Let_def split: if_splits)

lemma convert_succeeds:
  "distinct calls \<Longrightarrow> distinct results \<Longrightarrow> (\<exists>out. convert cv calls results ms = Inr out) \<longleftrightarrow>
     distinct (calls @ concat (map calls_of ms)) \<and> distinct (results @ concat (map result_call ms))
     \<and> answers_follow calls ms"
proof (induction ms arbitrary: calls results)
  case Nil
  then show ?case by simp
next
  case (Cons m ms)
  show ?case
  proof (cases "convert_message cv calls results m")
    case (Inl e)
    then have "\<not> (distinct (calls @ calls_of m) \<and> distinct (results @ result_call m)
        \<and> set (answered_call m) \<subseteq> set calls)"
      using convert_message_succeeds [OF Cons.prems, of cv m] by auto
    then show ?thesis using Inl by auto
  next
    case (Inr x)
    obtain c' r' o' where x: "x = (c', r', o')" by (cases x)
    have st: "c' = calls @ calls_of m" "r' = results @ result_call m"
      using convert_message_state [OF Cons.prems(1)] Inr x by auto
    have ok: "distinct (calls @ calls_of m) \<and> distinct (results @ result_call m)
        \<and> set (answered_call m) \<subseteq> set calls"
      using convert_message_succeeds [OF Cons.prems, of cv m] Inr x st by blast
    have "(\<exists>out. convert cv calls results (m # ms) = Inr out)
        \<longleftrightarrow> (\<exists>out. convert cv c' r' ms = Inr out)"
      by (auto simp: Inr x split: sum.splits)
    then show ?thesis unfolding st using Cons.IH [of "calls @ calls_of m" "results @ result_call m"] ok
      by simp
  qed
qed


section \<open>The provider's protocol\<close>

text \<open>Calls and observations as pairs of call and Tool name, in the transcript and in the output.\<close>

fun named_calls :: "agent_message \<Rightarrow> (string \<times> string) list" where
  "named_calls (AssistantMsg a) = map (\<lambda>c. (tc_call_id c, tc_tool_name c)) (am_tool_calls a)"
| "named_calls _ = []"

fun named_answers :: "agent_message \<Rightarrow> (string \<times> string) list" where
  "named_answers (ToolResultMsg t) = [(trm_call_id t, trm_tool_name t)]"
| "named_answers (ToolInteractionMsg t) = [(tim_call_id t, tim_tool_name t)]"
| "named_answers _ = []"

definition names_agree :: "agent_message list \<Rightarrow> bool" where
  "names_agree ms \<longleftrightarrow> set (concat (map named_answers ms)) \<subseteq> set (concat (map named_calls ms))"

fun part_call :: "model_part \<Rightarrow> (string \<times> string) list" where
  "part_call (ModelToolCall cid name args) = [(cid, name)]"
| "part_call _ = []"

definition announces :: "model_message \<Rightarrow> (string \<times> string) list" where
  "announces m = (if mm_role m = RoleAssistant then concat (map part_call (mm_content m)) else [])"

definition observes :: "model_message \<Rightarrow> (string \<times> string) list" where
  "observes m = (case tool_part m of Some (cid, name, text, err) \<Rightarrow> [(cid, name)] | None \<Rightarrow> [])"

fun announced_first :: "(string \<times> string) list \<Rightarrow> model_message list \<Rightarrow> bool" where
  "announced_first seen [] = True"
| "announced_first seen (m # ms) = (set (observes m) \<subseteq> set seen
     \<and> announced_first (seen @ announces m) ms)"

text \<open>
  What a provider accepts: call ids are announced once and observed at most once, and a Tool
  message names a call, with its Tool, that an earlier assistant message announced.
\<close>

definition provider_protocol :: "model_message list \<Rightarrow> bool" where
  "provider_protocol ms \<longleftrightarrow> distinct (map fst (concat (map announces ms)))
     \<and> distinct (map fst (concat (map observes ms))) \<and> announced_first [] ms"

lemma tool_part_iff: "tool_part m = Some p \<longleftrightarrow> m = part_message p"
  by (cases m rule: tool_part.cases) (auto simp: part_message_def tool_message_def split: prod.splits)

lemma tool_part_message [simp]: "tool_part (part_message p) = Some p"
  by (simp add: tool_part_iff)

lemma tool_part_tool_message [simp]: "tool_part (tool_message cid name text err) = Some (cid, name, text, err)"
  by (simp add: tool_message_def)

lemma tool_part_role: "mm_role m \<noteq> RoleTool \<Longrightarrow> tool_part m = None"
  by (cases m rule: tool_part.cases) auto

lemma observes_part_message [simp]: "observes (part_message p) = [(fst p, fst (snd p))]"
  by (cases p) (simp add: observes_def)

lemma announces_part_message [simp]: "announces (part_message p) = []"
  by (cases p) (simp add: announces_def part_message_def tool_message_def)

lemma observed_announces_nothing: "tool_part m \<noteq> None \<Longrightarrow> announces m = []"
  by (auto simp: tool_part_iff)

lemma part_calls: "concat (map part_call (map (call_part cv) cs)) = map (\<lambda>c. (tc_call_id c, tc_tool_name c)) cs"
  by (induction cs) (simp_all add: call_part_def)

lemma convert_message_output:
  assumes "convert_message cv calls results m = Inr (calls', results', out)" and "distinct calls"
  shows "concat (map announces out) = named_calls m \<and> concat (map observes out) = named_answers m
    \<and> list_all (\<lambda>x. mm_role x = RoleTool \<longrightarrow> tool_part x \<noteq> None) out \<and> length out \<le> 1"
  using assms
  by (cases m) (auto simp: convert_calls_outcome Let_def announces_def observes_def text_message_def
    tool_part_role part_calls [unfolded map_map] tool_message_def split: if_splits)

lemma convert_output:
  "convert cv calls results ms = Inr out \<Longrightarrow> distinct calls \<Longrightarrow>
     concat (map announces out) = concat (map named_calls ms)
     \<and> concat (map observes out) = concat (map named_answers ms)
     \<and> list_all (\<lambda>x. mm_role x = RoleTool \<longrightarrow> tool_part x \<noteq> None) out"
proof (induction ms arbitrary: calls results out)
  case Nil
  then show ?case by simp
next
  case (Cons m ms)
  from Cons.prems(1) obtain c' r' o1 o2 where m: "convert_message cv calls results m = Inr (c', r', o1)"
    and r: "convert cv c' r' ms = Inr o2" and out: "out = o1 @ o2"
    by (auto split: sum.splits prod.splits)
  have "distinct c'"
    using Cons.prems(2) m by (cases m) (auto simp: convert_calls_outcome Let_def split: if_splits)
  from Cons.IH [OF r this] convert_message_output [OF m Cons.prems(2)]
  show ?case by (simp add: out)
qed

lemma call_names: "map fst (named_calls m) = calls_of m" "map fst (named_answers m) = answered_call m"
  by (cases m; simp)+

lemma call_names_list: "map fst (concat (map named_calls ms)) = concat (map calls_of ms)"
  "map fst (concat (map named_answers ms)) = concat (map answered_call ms)"
  by (induction ms) (simp_all add: call_names)

lemma announced_first_append:
  "announced_first seen (xs @ ys) \<longleftrightarrow> announced_first seen xs
     \<and> announced_first (seen @ concat (map announces xs)) ys"
  by (induction xs arbitrary: seen) auto

lemma announced_first_single: "length out \<le> 1 \<Longrightarrow>
  announced_first seen out \<longleftrightarrow> set (concat (map observes out)) \<subseteq> set seen"
  by (cases out) auto

text \<open>Names agree across the transcript, and each id is announced once, so the announcement that
  precedes an observation is the one with its name.\<close>

lemma named_earlier:
  assumes "distinct (map fst all)" and "set seen \<subseteq> set all"
    and "(cid, name) \<in> set all" and "cid \<in> fst ` set seen"
  shows "(cid, name) \<in> set seen"
proof -
  from assms(4) obtain name' where s: "(cid, name') \<in> set seen" by force
  then have "(cid, name') \<in> set all" using assms(2) by auto
  then have "name' = name" using assms(1,3) by (metis eq_key_imp_eq_value)
  then show ?thesis using s by simp
qed

lemma same_pairs:
  assumes "distinct (map fst all)" and "set xs \<subseteq> set all" and "fst ` set all \<subseteq> fst ` set xs"
  shows "set xs = set all"
proof -
  have "inj_on fst (set all)" using assms(1) by (simp add: distinct_map)
  moreover have "fst ` set xs = fst ` set all" using assms(2,3) by auto
  ultimately show ?thesis using assms(2) by (metis inj_on_image_eq_iff order_refl)
qed

lemma convert_announced_first:
  "convert cv calls results ms = Inr out \<Longrightarrow> distinct calls \<Longrightarrow> map fst seen = calls \<Longrightarrow>
   distinct (map fst all) \<Longrightarrow> set (seen @ concat (map named_calls ms)) \<subseteq> set all \<Longrightarrow>
   set (concat (map named_answers ms)) \<subseteq> set all \<Longrightarrow> announced_first seen out"
proof (induction ms arbitrary: calls results out seen)
  case Nil
  then show ?case by simp
next
  case (Cons m ms)
  from Cons.prems(1) obtain c' r' o1 o2 where m: "convert_message cv calls results m = Inr (c', r', o1)"
    and r: "convert cv c' r' ms = Inr o2" and out: "out = o1 @ o2"
    by (auto split: sum.splits prod.splits)
  have c': "c' = calls @ calls_of m" using convert_message_state [OF Cons.prems(2) m] by simp
  have d': "distinct c'"
    using Cons.prems(2) m by (cases m) (auto simp: convert_calls_outcome Let_def split: if_splits)
  have o1: "concat (map announces o1) = named_calls m" "concat (map observes o1) = named_answers m"
      "length o1 \<le> 1"
    using convert_message_output [OF m Cons.prems(2)] by auto
  have seen: "x \<in> fst ` set seen" if "x \<in> set (answered_call m)" for x
  proof -
    have "x \<in> set calls" using m that by (cases m) (auto split: if_splits)
    then show ?thesis using Cons.prems(3) by (metis list.set_map)
  qed
  have "p \<in> set seen" if p: "p \<in> set (named_answers m)" for p
  proof -
    have "fst p \<in> set (answered_call m)" using p by (metis call_names(2) image_eqI list.set_map)
    then have "fst p \<in> fst ` set seen" by (rule seen)
    then show ?thesis
      using named_earlier [of all seen "fst p" "snd p"] Cons.prems(4-6) p by auto
  qed
  then have "set (named_answers m) \<subseteq> set seen" by (rule subsetI)
  then have first: "announced_first seen o1"
    unfolding announced_first_single [OF o1(3)] o1(2) .
  have "announced_first (seen @ named_calls m) o2"
    by (rule Cons.IH [OF r d'])
      (use Cons.prems in \<open>auto simp: c' call_names\<close>)
  with first show ?case by (simp add: out announced_first_append o1)
qed


section \<open>The second pass is a merge\<close>

text \<open>
  A reference definition of the fold: drop the surface calls that did not fail, then give each
  call one Tool message, where its first observation stood, with all its observations joined.
\<close>

definition survivor :: "string list \<Rightarrow> model_message \<Rightarrow> model_message option" where
  "survivor failed m = (case mm_role m of
      RoleAssistant \<Rightarrow> let parts = filter (keep_part failed) (mm_content m) in
        if parts = [] then None else Some (m\<lparr>mm_content := parts\<rparr>)
    | RoleTool \<Rightarrow> (case tool_part m of
        Some p \<Rightarrow> if fst (snd p) = surface_tool \<and> fst p \<notin> set failed then None else Some m
      | None \<Rightarrow> Some m)
    | RoleUser \<Rightarrow> Some m)"

definition survivors :: "string list \<Rightarrow> model_message list \<Rightarrow> model_message list" where
  "survivors failed ms = List.map_filter (survivor failed) ms"

definition parts_of :: "string \<Rightarrow> model_message list \<Rightarrow> (string \<times> string \<times> string \<times> bool) list" where
  "parts_of cid ms = filter (\<lambda>p. fst p = cid) (List.map_filter tool_part ms)"

function merge_tools :: "model_message list \<Rightarrow> model_message list" where
  "merge_tools [] = []"
| "merge_tools (m # ms) = (case tool_part m of
      None \<Rightarrow> m # merge_tools ms
    | Some p \<Rightarrow> part_message (foldl merge_part p (parts_of (fst p) ms))
        # merge_tools (filter (\<lambda>x. \<not> is_tool_of (fst p) x) ms))"
  by pat_completeness auto
termination
  by (relation "measure length") (auto simp: le_imp_less_Suc)

definition block_of :: "model_message list \<Rightarrow> string \<rightharpoonup> string \<times> string \<times> string \<times> bool" where
  "block_of ms cid = (case parts_of cid ms of [] \<Rightarrow> None | p # ps \<Rightarrow> Some (foldl merge_part p ps))"

lemma merge_part_key [simp]: "fst (merge_part x y) = fst x" "fst (snd (merge_part x y)) = fst (snd x)"
  by (cases x; cases y; simp add: merge_part_def)+

lemma foldl_merge_part_key [simp]:
  "fst (foldl merge_part p ps) = fst p" "fst (snd (foldl merge_part p ps)) = fst (snd p)"
  by (induction ps arbitrary: p) simp_all

lemma is_tool_of_message [simp]: "is_tool_of cid (part_message p) \<longleftrightarrow> fst p = cid"
  by (simp add: is_tool_of_def)

lemma parts_of_append: "parts_of cid (xs @ ys) = parts_of cid xs @ parts_of cid ys"
  by (simp add: parts_of_def List.map_filter_def)

lemma parts_of_single: "parts_of cid [m] = (case tool_part m of
    Some p \<Rightarrow> if fst p = cid then [p] else [] | None \<Rightarrow> [])"
  by (simp add: parts_of_def List.map_filter_def split: option.splits)

lemma parts_of_Cons: "parts_of cid (m # ms) = (case tool_part m of
    Some p \<Rightarrow> if fst p = cid then [p] else [] | None \<Rightarrow> []) @ parts_of cid ms"
  using parts_of_append [of cid "[m]" ms] parts_of_single [of cid m] by simp

lemma parts_of_filter: "cid \<noteq> c \<Longrightarrow> parts_of cid (filter (\<lambda>x. \<not> is_tool_of c x) ms) = parts_of cid ms"
  by (induction ms) (auto simp: parts_of_Cons is_tool_of_def split: option.splits)

lemma parts_of_Nil: "parts_of cid [] = []"
  by (simp add: parts_of_def List.map_filter_def)

lemma parts_of_filtered: "parts_of c (filter (\<lambda>x. \<not> is_tool_of c x) ms) = []"
  by (induction ms) (auto simp: parts_of_Nil parts_of_Cons is_tool_of_def split: option.splits)

lemma parts_of_merge_empty: "parts_of c ms = [] \<Longrightarrow> x \<in> set (merge_tools ms) \<Longrightarrow> \<not> is_tool_of c x"
proof (induction ms rule: merge_tools.induct)
  case 1
  then show ?case by simp
next
  case (2 m ms)
  show ?case
  proof (cases "tool_part m")
    case None
    then show ?thesis using 2 by (auto simp: parts_of_Cons is_tool_of_def)
  next
    case (Some p)
    then have ne: "fst p \<noteq> c" and rest: "parts_of c ms = []"
      using "2.prems"(1) by (auto simp: parts_of_Cons split: if_splits)
    then show ?thesis
      using "2.IH"(2) [OF Some] "2.prems"(2) Some parts_of_filter [of c "fst p" ms] by auto
  qed
qed

text \<open>At most one element satisfies \<open>P\<close>: replacing the last one replaces it.\<close>

lemma replace_first_none: "\<forall>x \<in> set xs. \<not> P x \<Longrightarrow> replace_first P y xs = xs"
  by (induction xs) auto

lemma replace_last_snoc: "replace_last P y (xs @ [x]) = (if P x then xs @ [y] else replace_last P y xs @ [x])"
  by (simp add: replace_last_def)

lemma replace_last_append: "\<forall>x \<in> set ys. \<not> P x \<Longrightarrow> replace_last P y (xs @ ys) = replace_last P y xs @ ys"
  by (induction ys rule: rev_induct) (auto simp: replace_last_snoc simp flip: append_assoc)

lemma replace_last_Cons:
  "replace_last P y (x # xs) = (if list_ex P xs then x # replace_last P y xs
     else if P x then y # xs else x # xs)"
proof (induction xs rule: rev_induct)
  case Nil
  then show ?case by (simp add: replace_last_def)
next
  case (snoc z zs)
  then show ?case using replace_last_snoc [of P y "x # zs" z] by (auto simp: replace_last_snoc)
qed

lemma replace_last_none: "\<not> list_ex P xs \<Longrightarrow> replace_last P y xs = xs"
  by (simp add: replace_last_def replace_first_none list_ex_iff)

lemma merge_tools_snoc_new:
  "(case tool_part m of None \<Rightarrow> True | Some p \<Rightarrow> parts_of (fst p) ms = []) \<Longrightarrow>
     merge_tools (ms @ [m]) = merge_tools ms @ [m]"
proof (induction ms rule: merge_tools.induct)
  case 1
  then show ?case by (auto simp: parts_of_Nil tool_part_iff split: option.splits)
next
  case (2 a as)
  show ?case
  proof (cases "tool_part a")
    case None
    then show ?thesis using 2 by (auto simp: parts_of_Cons split: option.splits)
  next
    case (Some p)
    have diff: "\<not> is_tool_of (fst p) m"
      using "2.prems" Some by (auto simp: parts_of_Cons is_tool_of_def split: option.splits if_splits)
    have same: "parts_of (fst p) (as @ [m]) = parts_of (fst p) as"
      using diff by (auto simp: parts_of_append parts_of_single is_tool_of_def split: option.splits)
    have new: "case tool_part m of None \<Rightarrow> True
        | Some q \<Rightarrow> parts_of (fst q) (filter (\<lambda>x. \<not> is_tool_of (fst p) x) as) = []"
    proof (cases "tool_part m")
      case (Some q)
      then have "fst q \<noteq> fst p" using diff by (simp add: is_tool_of_def)
      then show ?thesis using "2.prems" Some by (simp add: parts_of_Cons parts_of_filter)
    qed simp
    have IH: "merge_tools (filter (\<lambda>x. \<not> is_tool_of (fst p) x) as @ [m])
        = merge_tools (filter (\<lambda>x. \<not> is_tool_of (fst p) x) as) @ [m]"
      by (rule "2.IH"(2) [OF Some new])
    show ?thesis using Some diff IH by (simp add: same)
  qed
qed


lemma merge_tools_has: "parts_of c ms \<noteq> [] \<Longrightarrow> list_ex (is_tool_of c) (merge_tools ms)"
proof (induction ms rule: merge_tools.induct)
  case 1
  then show ?case by (simp add: parts_of_Nil)
next
  case (2 m ms)
  show ?case
  proof (cases "tool_part m")
    case None
    then show ?thesis using 2 by (simp add: parts_of_Cons)
  next
    case (Some p)
    show ?thesis
    proof (cases "fst p = c")
      case False
      then have "list_ex (is_tool_of c) (merge_tools (filter (\<lambda>x. \<not> is_tool_of (fst p) x) ms))"
        using "2.prems" Some by (intro "2.IH"(2) [OF Some]) (simp add: parts_of_Cons parts_of_filter)
      then show ?thesis using Some by simp
    qed (simp add: Some)
  qed
qed

lemma merge_tools_snoc_old:
  "tool_part m = Some p \<Longrightarrow> block_of ms (fst p) = Some e \<Longrightarrow>
     merge_tools (ms @ [m]) = replace_last (is_tool_of (fst p)) (part_message (merge_part e p)) (merge_tools ms)"
proof (induction ms rule: merge_tools.induct)
  case 1
  then show ?case by (simp add: block_of_def parts_of_Nil)
next
  case (2 a as)
  show ?case
  proof (cases "tool_part a")
    case None
    then have "block_of as (fst p) = Some e" using "2.prems" by (simp add: block_of_def parts_of_Cons)
    moreover from this have "parts_of (fst p) as \<noteq> []" by (auto simp: block_of_def)
    ultimately show ?thesis
      using None "2.IH"(1) "2.prems"(1) merge_tools_has by (simp add: replace_last_Cons)
  next
    case (Some q)
    show ?thesis
    proof (cases "fst q = fst p")
      case True
      let ?rest = "merge_tools (filter (\<lambda>x. \<not> is_tool_of (fst p) x) as)"
      have none: "list_ex (is_tool_of (fst p)) ?rest = False"
        using parts_of_merge_empty [OF parts_of_filtered [of "fst p" as]] by (meson list_ex_iff)
      have e: "foldl merge_part q (parts_of (fst p) as) = e"
        using "2.prems"(2) Some True by (simp add: block_of_def parts_of_Cons)
      have m: "is_tool_of (fst p) m" using "2.prems"(1) by (simp add: is_tool_of_def)
      have "merge_tools ((a # as) @ [m]) = part_message (merge_part e p) # ?rest"
        using m by (simp add: Some True parts_of_append parts_of_single "2.prems"(1) e)
      moreover have "merge_tools (a # as) = part_message e # ?rest"
        by (simp add: Some True e)
      moreover have "is_tool_of (fst p) (part_message e)"
        using e True by (metis foldl_merge_part_key(1) is_tool_of_message)
      ultimately show ?thesis by (simp only: replace_last_Cons none if_True if_False)
    next
      case False
      let ?as = "filter (\<lambda>x. \<not> is_tool_of (fst q) x) as"
      have blk: "block_of ?as (fst p) = Some e"
        using "2.prems"(2) Some False by (simp add: block_of_def parts_of_Cons parts_of_filter)
      then have "parts_of (fst p) ?as \<noteq> []" by (auto simp: block_of_def)
      then have "list_ex (is_tool_of (fst p)) (merge_tools ?as)" by (rule merge_tools_has)
      moreover have "\<not> is_tool_of (fst q) m" using "2.prems"(1) False by (simp add: is_tool_of_def)
      moreover have "merge_tools (?as @ [m])
          = replace_last (is_tool_of (fst p)) (part_message (merge_part e p)) (merge_tools ?as)"
        by (rule "2.IH"(2) [OF Some "2.prems"(1) blk])
      ultimately show ?thesis using Some False "2.prems"(1)
        by (simp add: replace_last_Cons parts_of_append parts_of_single)
    qed
  qed
qed

lemma block_of_snoc: "block_of (ms @ [m]) = (case tool_part m of
    None \<Rightarrow> block_of ms
  | Some p \<Rightarrow> (block_of ms)(fst p \<mapsto> (case block_of ms (fst p) of None \<Rightarrow> p | Some e \<Rightarrow> merge_part e p)))"
  by (rule ext) (auto simp: block_of_def parts_of_append parts_of_single split: option.splits list.splits)

lemma fold_tool_merge:
  assumes "tool_part m = Some p"
  shows "fold_tool p m (merge_tools ms, block_of ms) = (merge_tools (ms @ [m]), block_of (ms @ [m]))"
proof (cases "block_of ms (fst p)")
  case None
  then have "parts_of (fst p) ms = []" by (auto simp: block_of_def split: list.splits)
  then show ?thesis using assms None by (simp add: fold_tool_def block_of_snoc merge_tools_snoc_new)
next
  case (Some e)
  then show ?thesis using assms merge_tools_snoc_old [OF assms Some]
    by (simp add: fold_tool_def block_of_snoc Let_def)
qed

lemma fold_message_merge:
  "fold_message failed (merge_tools ks, block_of ks) m =
     (let ks' = ks @ (case survivor failed m of None \<Rightarrow> [] | Some k \<Rightarrow> [k]) in
      (merge_tools ks', block_of ks'))"
proof -
  have plain: "merge_tools (ks @ [k]) = merge_tools ks @ [k] \<and> block_of (ks @ [k]) = block_of ks"
    if "tool_part k = None" for k
    using that merge_tools_snoc_new [where m = k and ms = ks] by (simp add: block_of_snoc)
  show ?thesis
    using plain fold_tool_merge [of m _ ks]
    by (cases "mm_role m")
      (auto simp: fold_message_def survivor_def Let_def tool_part_role split: option.splits)
qed

lemma fold_messages_merge:
  "foldl (fold_message failed) ([], Map.empty) ms =
     (merge_tools (survivors failed ms), block_of (survivors failed ms))"
proof (induction ms rule: rev_induct)
  case Nil
  show ?case by (rule prod_eqI) (auto simp: survivors_def List.map_filter_def block_of_def parts_of_def)
next
  case (snoc m ms)
  have "survivors failed (ms @ [m])
      = survivors failed ms @ (case survivor failed m of None \<Rightarrow> [] | Some k \<Rightarrow> [k])"
    by (auto simp: survivors_def List.map_filter_def split: option.splits)
  then show ?case by (simp add: snoc fold_message_merge Let_def)
qed


definition kept :: "string list \<Rightarrow> string \<times> string \<Rightarrow> bool" where
  "kept failed x \<longleftrightarrow> (snd x = surface_tool \<longrightarrow> fst x \<in> set failed)"

lemma kept_calls: "concat (map part_call (filter (keep_part failed) ps))
    = filter (kept failed) (concat (map part_call ps))"
proof (induction ps)
  case (Cons p ps)
  then show ?case by (cases p) (auto simp: kept_def)
qed simp

lemma survivor_announces:
  "concat (map announces (case survivor failed m of None \<Rightarrow> [] | Some k \<Rightarrow> [k])) = filter (kept failed) (announces m)"
  using kept_calls [of failed "mm_content m"]
  by (cases "mm_role m") (auto simp: survivor_def announces_def Let_def split: option.splits if_splits)

lemma survivor_observes:
  "concat (map observes (case survivor failed m of None \<Rightarrow> [] | Some k \<Rightarrow> [k])) = filter (kept failed) (observes m)"
  by (cases "mm_role m") (auto simp: survivor_def observes_def tool_part_role kept_def Let_def split: option.splits)

lemma survivors_Cons:
  "survivors failed (m # ms) = (case survivor failed m of None \<Rightarrow> [] | Some k \<Rightarrow> [k]) @ survivors failed ms"
  by (simp add: survivors_def List.map_filter_def split: option.splits)

lemma survivors_Nil: "survivors failed [] = []"
  by (simp add: survivors_def List.map_filter_def)

lemma survivors_announce: "concat (map announces (survivors failed ms)) = filter (kept failed) (concat (map announces ms))"
  by (induction ms) (simp_all add: survivors_Nil survivors_Cons survivor_announces)

lemma survivors_observe: "concat (map observes (survivors failed ms)) = filter (kept failed) (concat (map observes ms))"
  by (induction ms) (simp_all add: survivors_Nil survivors_Cons survivor_observes)

lemma survivors_announced_first:
  "announced_first seen ms \<Longrightarrow> announced_first (filter (kept failed) seen) (survivors failed ms)"
proof (induction ms arbitrary: seen)
  case Nil
  then show ?case by (simp add: survivors_def List.map_filter_def)
next
  case (Cons m ms)
  let ?k = "case survivor failed m of None \<Rightarrow> [] | Some k \<Rightarrow> [k]"
  have obs: "set (concat (map observes ?k)) \<subseteq> set (filter (kept failed) seen)"
    unfolding survivor_observes using Cons.prems by auto
  have "length ?k \<le> 1" by (cases "survivor failed m") auto
  then have "announced_first (filter (kept failed) seen) ?k" using obs announced_first_single by blast
  moreover have "announced_first (filter (kept failed) seen @ concat (map announces ?k)) (survivors failed ms)"
    unfolding survivor_announces using Cons.IH [of "seen @ announces m"] Cons.prems by simp
  ultimately show ?case by (simp only: survivors_Cons announced_first_append simp_thms)
qed

lemma is_tool_of_None: "tool_part m = None \<Longrightarrow> \<not> is_tool_of c m"
  by (simp add: is_tool_of_def)

lemma filter_tools_announces:
  "concat (map announces (filter (\<lambda>x. \<not> is_tool_of c x) ms)) = concat (map announces ms)"
  by (induction ms) (auto simp: is_tool_of_def observed_announces_nothing split: option.splits)

lemma filter_tools_announced_first:
  "announced_first seen ms \<Longrightarrow> announced_first seen (filter (\<lambda>x. \<not> is_tool_of c x) ms)"
proof (induction ms arbitrary: seen)
  case (Cons m ms)
  then show ?case
    by (cases "tool_part m") (auto simp: is_tool_of_None observed_announces_nothing)
qed simp

lemma observed_message: "tool_part m = Some p \<Longrightarrow> observes m = [(fst p, fst (snd p))]"
  by (simp add: tool_part_iff)

lemma unobserved: "tool_part m = None \<Longrightarrow> observes m = []"
  by (simp add: observes_def)

lemma observed_is_tool: "x \<in> fst ` set (observes m) \<longleftrightarrow> is_tool_of x m"
  by (auto simp: is_tool_of_def observed_message unobserved split: option.splits)

lemma merge_announces: "concat (map announces (merge_tools ms)) = concat (map announces ms)"
  by (induction ms rule: merge_tools.induct)
    (auto simp: filter_tools_announces observed_announces_nothing split: option.splits)

lemma merge_announced_first: "announced_first seen ms \<Longrightarrow> announced_first seen (merge_tools ms)"
  by (induction ms arbitrary: seen rule: merge_tools.induct)
    (auto simp: observed_message observed_announces_nothing filter_tools_announced_first
      split: option.splits)

lemma merge_observed_ids:
  "fst ` set (concat (map observes (merge_tools ms))) = fst ` set (concat (map observes ms))"
proof (induction ms rule: merge_tools.induct)
  case 1
  then show ?case by simp
next
  case (2 m ms)
  show ?case
  proof (cases "tool_part m")
    case None
    then show ?thesis using 2 by (simp add: unobserved)
  next
    case (Some p)
    have "fst ` set (concat (map observes (filter (\<lambda>x. \<not> is_tool_of (fst p) x) ms)))
        = fst ` set (concat (map observes ms)) - {fst p}"
      by (induction ms) (auto simp: is_tool_of_def observed_message unobserved split: option.splits)
    then show ?thesis using "2.IH"(2) [OF Some] Some by (auto simp: observed_message)
  qed
qed

lemma merge_observes_once: "distinct (map fst (concat (map observes (merge_tools ms))))"
proof (induction ms rule: merge_tools.induct)
  case 1
  then show ?case by simp
next
  case (2 m ms)
  show ?case
  proof (cases "tool_part m")
    case None
    then show ?thesis using 2 by (simp add: unobserved)
  next
    case (Some p)
    have "fst p \<notin> fst ` set (concat (map observes (filter (\<lambda>x. \<not> is_tool_of (fst p) x) ms)))"
      using observed_is_tool by auto
    then show ?thesis
      using "2.IH"(2) [OF Some] merge_observed_ids [of "filter (\<lambda>x. \<not> is_tool_of (fst p) x) ms"] Some
      by auto
  qed
qed


section \<open>Properties\<close>

lemma answers_follow_unresolved:
  "answers_follow calls ms \<Longrightarrow> set (concat (map answered_call ms)) \<subseteq> set (calls @ concat (map calls_of ms))"
  by (induction ms arbitrary: calls) force+

lemma conversion_paired: "(\<exists>out. agent_messages_to_model dumps notices prep ms = Inr out) = well_paired ms"
  using convert_succeeds [of "[]" "[]" "conversion_of dumps notices prep ms" ms]
  by (auto simp: agent_messages_to_model_def well_paired_follow split: sum.splits)

lemma conversion_output:
  assumes "agent_messages_to_model dumps notices prep ms = Inr out"
  obtains raw where "convert (conversion_of dumps notices prep ms) [] [] ms = Inr raw"
    and "out = merge_tools (survivors (failed_surface_calls raw) raw)"
  using assms by (auto simp: agent_messages_to_model_def fold_messages_def fold_messages_merge split: sum.splits)

text \<open>
  Conversion succeeds exactly on well-paired transcripts: it raises on every transcript in
  which a call is announced twice, answered twice, or answered before it is announced, and on no
  other.\<close>

theorem conversion_succeeds_iff_paired:
  "(\<exists>out. agent_messages_to_model dumps notices prep ms = Inr out) = well_paired ms"
  by (rule conversion_paired)

text \<open>
  The second pass, which rewrites the growing output in place, is the merge: surface calls
  that did not fail disappear, and each remaining call has one Tool message, where its first
  observation stood, whose text joins all its observations in order.\<close>

theorem second_pass_is_merge:
  "fold_messages raw = merge_tools (survivors (failed_surface_calls raw) raw)"
  by (simp add: fold_messages_def fold_messages_merge)

text \<open>
  When the observations of the transcript name the Tool of their call, what the provider
  receives respects its protocol, and when no call is unresolved, every call it sees has its
  observation.\<close>

theorem provider_sees_paired_calls:
  assumes "agent_messages_to_model dumps notices prep ms = Inr out"
    and names: "names_agree ms"
  shows "provider_protocol out
    \<and> (unresolved_call_ids ms = {} \<longrightarrow>
       fst ` set (concat (map observes out)) = fst ` set (concat (map announces out)))"
proof -
  obtain raw where raw: "convert (conversion_of dumps notices prep ms) [] [] ms = Inr raw"
    and out: "out = merge_tools (survivors (failed_surface_calls raw) raw)"
    using conversion_output [OF assms(1)] .
  define failed where "failed = failed_surface_calls raw"
  let ?calls = "concat (map named_calls ms)" and ?answers = "concat (map named_answers ms)"
  have paired: "well_paired ms" using conversion_paired assms(1) by blast
  have once: "distinct (map fst ?calls)" using paired by (simp add: well_paired_def call_names_list)
  have raw_pairs: "concat (map announces raw) = ?calls" "concat (map observes raw) = ?answers"
    using convert_output [OF raw] by auto
  have first: "announced_first [] raw"
    by (rule convert_announced_first [OF raw _ _ once]) (use names in \<open>auto simp: names_agree_def\<close>)
  have ann: "concat (map announces out) = filter (kept failed) ?calls"
    by (simp only: out merge_announces survivors_announce raw_pairs failed_def)
  have obs: "fst ` set (concat (map observes out)) = fst ` set (filter (kept failed) ?answers)"
    by (simp only: out merge_observed_ids survivors_observe raw_pairs failed_def)
  have "announced_first [] out"
    using merge_announced_first [OF survivors_announced_first [OF first, of failed]]
    by (simp add: out failed_def)
  moreover have "distinct (map fst (filter (kept failed) ?calls))"
    using once by (simp only: distinct_map distinct_filter) (metis filter_is_subset inj_on_subset)
  ultimately have protocol: "provider_protocol out"
    unfolding provider_protocol_def ann using merge_observes_once by (simp add: out)
  have "fst ` set (filter (kept failed) ?answers) = fst ` set (filter (kept failed) ?calls)"
    if "unresolved_call_ids ms = {}"
  proof -
    have "set (map fst ?calls) \<subseteq> set (map fst ?answers)"
      using that unfolding unresolved_call_ids_def call_names_list by simp
    moreover have "set ?answers \<subseteq> set ?calls" using names by (simp add: names_agree_def)
    ultimately have "set ?answers = set ?calls" using once by (intro same_pairs) auto
    then show ?thesis by simp
  qed
  then show ?thesis using protocol unfolding obs ann by blast
qed

definition sample_transcript :: "agent_message list" where
  "sample_transcript =
    [UserMsg \<lparr>um_message_id = ''m1'', um_content = [TextPart ''book a flight''], um_created_at = 0\<rparr>,
     AssistantMsg \<lparr>am_message_id = ''m2'', am_content = [],
       am_tool_calls = [\<lparr>tc_call_id = ''c1'', tc_tool_name = ''call_agent'', tc_arguments = []\<rparr>,
         \<lparr>tc_call_id = ''c2'', tc_tool_name = surface_tool, tc_arguments = []\<rparr>],
       am_finish_reason = FinToolCalls, am_usage = None, am_created_at = 1\<rparr>,
     ToolInteractionMsg \<lparr>tim_message_id = ''m3'', tim_call_id = ''c1'', tim_tool_name = ''call_agent'',
       tim_presentation_id = None, tim_interaction_id = ''i1'', tim_interaction_fingerprint = ''f'',
       tim_questions = [], tim_artifact_refs = [], tim_agent_label = None,
       tim_interaction_answers = [], tim_created_at = 2\<rparr>,
     ToolResultMsg \<lparr>trm_message_id = ''m4'', trm_call_id = ''c2'', trm_tool_name = surface_tool,
       trm_status = ResCompleted, trm_content = [TextPart ''shown''], trm_artifact_refs = [],
       trm_is_error = False, trm_error_code = None, trm_error_message = None,
       trm_interaction_answers = [], trm_created_at = 3\<rparr>,
     ToolResultMsg \<lparr>trm_message_id = ''m5'', trm_call_id = ''c1'', trm_tool_name = ''call_agent'',
       trm_status = ResCompleted, trm_content = [TextPart ''booked''], trm_artifact_refs = [],
       trm_is_error = False, trm_error_code = None, trm_error_message = None,
       trm_interaction_answers = [], trm_created_at = 4\<rparr>]"

lemma sample_paired: "well_paired sample_transcript"
  by (simp add: well_paired_follow sample_transcript_def)

theorem provider_sees_paired_calls_witness:
  "\<exists>out. agent_messages_to_model (\<lambda>_. ''{}'') True True sample_transcript = Inr out
     \<and> provider_protocol out
     \<and> fst ` set (concat (map observes out)) = fst ` set (concat (map announces out))"
proof -
  obtain out where out: "agent_messages_to_model (\<lambda>_. ''{}'') True True sample_transcript = Inr out"
    using conversion_paired sample_paired by blast
  have "names_agree sample_transcript" and "unresolved_call_ids sample_transcript = {}"
    by (simp_all add: names_agree_def unresolved_call_ids_def sample_transcript_def)
  then show ?thesis using provider_sees_paired_calls [OF out] out by blast
qed

end
