(* ===== verification/Context.thy ===== *)
theory Context
  imports Transcript Run_State
begin

text \<open>
  \<open>execution/orchestrator/context.py\<close>: the token estimator and the bounded compilation of a model
  turn's context. \<open>json.dumps\<close> is written out for the estimator, with the rendering of a string
  literal and of a float as parameters; nothing is assumed of them.

  The lemmas show that a context reported ready fits the window with its output reserve, that
  the retained part of a transcript never separates an observation from its call, and what a
  compacted context is made of.
\<close>

section \<open>Serialised models\<close>

record literals =
  lit_string :: "string \<Rightarrow> string"
  lit_float :: "rat \<Rightarrow> string"

text \<open>\<open>json.dumps(x, separators=(",", ":"))\<close>.\<close>

fun render_json :: "literals \<Rightarrow> json \<Rightarrow> string" where
  "render_json l JNull = ''null''"
| "render_json l (JBool b) = (if b then ''true'' else ''false'')"
| "render_json l (JInt n) = show_int n"
| "render_json l (JFloat q) = lit_float l q"
| "render_json l (JStr s) = lit_string l s"
| "render_json l (JArr xs) = ''['' @ join_strings '','' (map (render_json l) xs) @ '']''"
| "render_json l (JObj kvs) = ''{'' @ join_strings '',''
     (map (\<lambda>kv. lit_string l (fst kv) @ '':'' @ render_json l (snd kv)) kvs) @ ''}''"

definition text_part_json :: "string \<Rightarrow> json" where
  "text_part_json t = JObj [(''kind'', JStr ''text''), (''text'', JStr t)]"

fun model_part_json :: "model_part \<Rightarrow> json" where
  "model_part_json (ModelText t) = text_part_json t"
| "model_part_json (ModelToolCall cid name args) = JObj [(''kind'', JStr ''tool_call''),
     (''call_id'', JStr cid), (''tool_name'', JStr name), (''arguments'', JObj args)]"
| "model_part_json (ModelToolResult cid name ts err) = JObj [(''kind'', JStr ''tool_result''),
     (''call_id'', JStr cid), (''tool_name'', JStr name),
     (''content'', JArr (map text_part_json ts)), (''is_error'', JBool err)]"

definition role_name :: "model_role \<Rightarrow> string" where
  "role_name r = (case r of RoleUser \<Rightarrow> ''user'' | RoleAssistant \<Rightarrow> ''assistant'' | RoleTool \<Rightarrow> ''tool'')"

definition model_message_json :: "model_message \<Rightarrow> json" where
  "model_message_json m = JObj [(''role'', JStr (role_name (mm_role m))),
     (''content'', JArr (map model_part_json (mm_content m)))]"

definition tool_definition_json :: "tool_definition \<Rightarrow> json" where
  "tool_definition_json t = JObj [(''name'', JStr (td_name t)), (''label'', JStr (td_label t)),
     (''description'', JStr (td_description t)), (''input_schema'', td_input_schema t),
     (''execution_mode'', JStr (case td_execution_mode t of Sequential \<Rightarrow> ''sequential''
        | Parallel \<Rightarrow> ''parallel'')),
     (''side_effect_level'', JStr (case td_side_effect_level t of EffectRead \<Rightarrow> ''read''
        | EffectWrite \<Rightarrow> ''write'' | EffectExternal \<Rightarrow> ''external''))]"

section \<open>The estimator\<close>

definition estimate_text :: "string \<Rightarrow> int" where
  "estimate_text t = max 1 ((int (length t) + 2) div 3)"

definition estimate_messages :: "literals \<Rightarrow> model_message list \<Rightarrow> int" where
  "estimate_messages l ms = estimate_text (render_json l (JArr (map model_message_json ms)))
     + 4 * int (length ms)"

definition estimate_tools :: "literals \<Rightarrow> tool_definition list \<Rightarrow> int" where
  "estimate_tools l ts = estimate_text (render_json l (JArr (map tool_definition_json ts)))"

section \<open>Pair-safe groups\<close>

text \<open>The pending calls of the group after one more message.\<close>

fun pending_after :: "string list \<Rightarrow> agent_message \<Rightarrow> string list" where
  "pending_after pending (AssistantMsg a) = pending @ map tc_call_id (am_tool_calls a)"
| "pending_after pending (ToolResultMsg t) = removeAll (trm_call_id t) pending"
| "pending_after pending _ = pending"

text \<open>How many messages the inner loop takes.\<close>

fun group_length :: "string list \<Rightarrow> agent_message list \<Rightarrow> nat" where
  "group_length pending [] = 0"
| "group_length pending (m # ms) =
     (if pending = [] then 0 else Suc (group_length (pending_after pending m) ms))"

function pair_groups :: "nat \<Rightarrow> agent_message list \<Rightarrow> nat list list" where
  "pair_groups i [] = []"
| "pair_groups i (m # ms) =
     (let n = (if calls_of m = [] then 0 else group_length (calls_of m) ms) in
      [i..<Suc (i + n)] # pair_groups (Suc (i + n)) (drop n ms))"
  by pat_completeness auto
termination
  by (relation "measure (length \<circ> snd)") (auto simp: Let_def le_imp_less_Suc)

definition pair_safe_tail_indexes :: "agent_message list \<Rightarrow> nat list list" where
  "pair_safe_tail_indexes ms = pair_groups 0 ms"

section \<open>Compilation\<close>

datatype compile_error =
    UnresolvedToolBatch
  | CorruptTranscript string
  | MissingModel

datatype context_kind = CtxReady | CtxNeedsCompaction | CtxUnfit

record compiled_context =
  cc_kind :: context_kind
  cc_messages :: "model_message list"
  cc_estimated_input :: int
  cc_reserved_output :: int
  cc_retained :: "nat list"
  cc_compacted :: bool

record compiler =
  co_dumps :: "json \<Rightarrow> string"
  co_literals :: literals

fun is_user :: "agent_message \<Rightarrow> bool" where
  "is_user (UserMsg m) = True"
| "is_user _ = False"

text \<open>\<open>next((index for index, message in enumerate(..) if ..), None)\<close>.\<close>

definition first_user :: "agent_message list \<Rightarrow> nat option" where
  "first_user ms = List.find (\<lambda>i. is_user (ms ! i)) [0..<length ms]"

definition subtranscript :: "agent_message list \<Rightarrow> nat list \<Rightarrow> agent_message list" where
  "subtranscript ms idx = map (\<lambda>i. ms ! i) idx"

text \<open>\<open>agent_messages_to_model(.., prepare_orchestration_context=True)\<close>.\<close>

definition prepared :: "compiler \<Rightarrow> agent_message list \<Rightarrow> string + model_message list" where
  "prepared co ms = agent_messages_to_model (co_dumps co) True True ms"

definition unfit :: "int \<Rightarrow> int \<Rightarrow> bool \<Rightarrow> compiled_context" where
  "unfit estimated reserve compacted = \<lparr>cc_kind = CtxUnfit, cc_messages = [],
     cc_estimated_input = estimated, cc_reserved_output = reserve, cc_retained = [],
     cc_compacted = compacted\<rparr>"

text \<open>The loop over \<open>reversed(retained)\<close>: the groups are tried newest first.\<close>

fun select_groups :: "compiler \<Rightarrow> agent_message list \<Rightarrow> nat option \<Rightarrow> int \<Rightarrow> nat list list
    \<Rightarrow> nat list \<Rightarrow> model_message list \<Rightarrow> string + (nat list \<times> model_message list)" where
  "select_groups co ms user available [] selected out = Inr (selected, out)"
| "select_groups co ms user available (g # gs) selected out =
     (if (case user of None \<Rightarrow> False | Some u \<Rightarrow> u \<in> set g)
      then select_groups co ms user available gs selected out
      else let candidate = sorted_list_of_set (set (g @ selected)) in
        case prepared co (subtranscript ms candidate) of
          Inl e \<Rightarrow> Inl e
        | Inr msgs \<Rightarrow>
            if estimate_messages (co_literals co) msgs > available
            then select_groups co ms user available gs selected out
            else select_groups co ms user available gs candidate msgs)"

definition summary_message :: "string \<Rightarrow> model_message" where
  "summary_message s = text_message (''[summary] '' @ s)"

definition compile_compacted :: "compiler \<Rightarrow> agent_message list \<Rightarrow> model_message list \<Rightarrow> int \<Rightarrow> int \<Rightarrow> int
    \<Rightarrow> string \<Rightarrow> compile_error + compiled_context" where
  "compile_compacted co ms background window mandatory reserve summary =
     (let est = estimate_messages (co_literals co);
          sm = summary_message summary;
          summary_tokens = est [sm];
          available = window - mandatory - summary_tokens in
      if available < 0 then Inr (unfit (mandatory - reserve + summary_tokens) reserve True)
      else let user = first_user ms; start = (case user of None \<Rightarrow> [] | Some u \<Rightarrow> [u]) in
        case (if user = None then Inr [] else prepared co (subtranscript ms start)) of
          Inl e \<Rightarrow> Inl (CorruptTranscript e)
        | Inr out0 \<Rightarrow>
            if est out0 > available
            then Inr (unfit (mandatory - reserve + summary_tokens + est out0) reserve True)
            else case select_groups co ms user available (rev (pair_safe_tail_indexes ms)) start out0 of
              Inl e \<Rightarrow> Inl (CorruptTranscript e)
            | Inr (selected, out) \<Rightarrow> Inr \<lparr>cc_kind = CtxReady, cc_messages = background @ sm # out,
                cc_estimated_input = mandatory - reserve + est (sm # out),
                cc_reserved_output = reserve, cc_retained = selected, cc_compacted = True\<rparr>)"

definition compile_context :: "compiler \<Rightarrow> run_state \<Rightarrow> tool_definition list \<Rightarrow> model_message list
    \<Rightarrow> string option \<Rightarrow> compile_error + compiled_context" where
  "compile_context co r tools background summary =
     (if unresolved_call_ids (run_transcript r) \<noteq> {} then Inl UnresolvedToolBatch
      else case (op_model (run_profile r), op_prompt (run_profile r)) of
        (Some model, Some prompt) \<Rightarrow>
          let est = estimate_messages (co_literals co);
              ms = run_transcript r;
              reserve = ms_max_output_tokens model;
              window = ms_context_window model;
              mandatory = estimate_text (ps_rendered_system_prompt prompt)
                + estimate_tools (co_literals co) tools + est background + reserve in
          if mandatory > window then Inr (unfit (mandatory - reserve) reserve False)
          else (case prepared co ms of
            Inl e \<Rightarrow> Inl (CorruptTranscript e)
          | Inr converted \<Rightarrow> (case summary of
              Some s \<Rightarrow> compile_compacted co ms background window mandatory reserve s
            | None \<Rightarrow> Inr \<lparr>cc_kind = (if mandatory - reserve + est converted + reserve \<le> window then CtxReady
                  else CtxNeedsCompaction), cc_messages = background @ converted,
                cc_estimated_input = mandatory - reserve + est converted,
                cc_reserved_output = reserve, cc_retained = [0..<length ms], cc_compacted = False\<rparr>))
      | _ \<Rightarrow> Inl MissingModel)"


section \<open>The estimator is subadditive\<close>

lemma join_strings_Cons: "xs \<noteq> [] \<Longrightarrow> join_strings sep (x # xs) = x @ sep @ join_strings sep xs"
  by (cases xs) simp_all

lemma estimate_text_pos: "1 \<le> estimate_text t"
  by (simp add: estimate_text_def)

text \<open>Prefixing one message costs at most what the message costs alone: the brackets that the
  single list saves pay for the comma.\<close>

lemma estimate_messages_Cons: "estimate_messages l (m # ms) \<le> estimate_messages l [m] + estimate_messages l ms"
proof -
  define a where "a = length (render_json l (model_message_json m))"
  define b where "b = length (join_strings '','' (map (render_json l) (map model_message_json ms)))"
  have many: "length (render_json l (JArr (map model_message_json (m # ms))))
      = (if ms = [] then a + 2 else a + b + 3)"
    using join_strings_Cons [of "map (render_json l) (map model_message_json ms)" "'',''"]
    by (simp add: a_def b_def)
  have one: "length (render_json l (JArr (map model_message_json [m]))) = a + 2"
    by (simp add: a_def)
  have rest: "length (render_json l (JArr (map model_message_json ms))) = b + 2"
    by (simp add: b_def)
  have "(int (a + b + 3) + 2) div 3 \<le> (int (a + 2) + 2) div 3 + (int (b + 2) + 2) div 3"
    by simp
  then show ?thesis
    unfolding estimate_messages_def estimate_text_def many one rest by (cases "ms = []") auto
qed

section \<open>Groups keep observations with their calls\<close>

text \<open>Nothing observes a call after its result.\<close>

definition results_last :: "agent_message list \<Rightarrow> bool" where
  "results_last ms \<longleftrightarrow> (\<forall>i < length ms. \<forall>j < i. set (result_call (ms ! j)) \<inter> set (answered_call (ms ! i)) = {})"

lemma pending_after_set:
  "set (pending_after pending m) = (set pending \<union> set (calls_of m)) - set (result_call m)"
  by (cases m) auto

lemma group_length_le: "group_length pending ms \<le> length ms"
  by (induction ms arbitrary: pending) auto

lemma group_closed:
  "group_length pending ms < length ms \<Longrightarrow>
     set pending \<union> set (concat (map calls_of (take (group_length pending ms) ms)))
       \<subseteq> set (concat (map result_call (take (group_length pending ms) ms)))"
proof (induction ms arbitrary: pending)
  case Nil
  then show ?case by simp
next
  case (Cons m ms)
  show ?case
  proof (cases "pending = []")
    case False
    have "group_length (pending_after pending m) ms < length ms" using Cons.prems False by simp
    from Cons.IH [OF this] show ?thesis using False by (auto simp: pending_after_set)
  qed simp
qed

lemma pair_groups_range: "g \<in> set (pair_groups k ms) \<Longrightarrow> i \<in> set g \<Longrightarrow> k \<le> i \<and> i < k + length ms"
proof (induction k ms rule: pair_groups.induct)
  case 1
  then show ?case by simp
next
  case (2 k m ms)
  let ?n = "if calls_of m = [] then 0 else group_length (calls_of m) ms"
  have n: "?n \<le> length ms" using group_length_le by simp
  from "2.prems"(1) have "g = [k..<Suc (k + ?n)] \<or> g \<in> set (pair_groups (Suc (k + ?n)) (drop ?n ms))"
    by (simp only: pair_groups.simps Let_def) auto
  then show ?case
  proof
    assume "g = [k..<Suc (k + ?n)]"
    then show ?thesis using "2.prems"(2) n by auto
  next
    assume "g \<in> set (pair_groups (Suc (k + ?n)) (drop ?n ms))"
    from "2.IH" [OF refl this "2.prems"(2)] n show ?thesis by auto
  qed
qed

lemma results_last_drop: "results_last ms \<Longrightarrow> results_last (drop n ms)"
  by (simp add: results_last_def add.commute)

lemma results_lastD:
  "results_last ms \<Longrightarrow> i < length ms \<Longrightarrow> j < i \<Longrightarrow> c \<in> set (result_call (ms ! j)) \<Longrightarrow>
     c \<notin> set (answered_call (ms ! i))"
  unfolding results_last_def by blast

lemma earlier_group_resolved:
  assumes "results_last (m # ms)" and n: "n = (if calls_of m = [] then 0 else group_length (calls_of m) ms)"
    and "j \<le> n" and "n < i" and "i < Suc (length ms)"
    and "c \<in> set (calls_of ((m # ms) ! j))"
  shows "c \<notin> set (answered_call ((m # ms) ! i))"
proof (cases "calls_of m = []")
  case True
  then show ?thesis using assms by simp
next
  case False
  then have len: "group_length (calls_of m) ms < length ms" and n': "n = group_length (calls_of m) ms"
    using assms(4,5) n by auto
  have "c \<in> set (calls_of m) \<union> set (concat (map calls_of (take n ms)))"
  proof (cases j)
    case (Suc j')
    then have "j' < n" and "j' < length ms" using assms(3-5) by auto
    then have "ms ! j' \<in> set (take n ms)" by (auto simp: in_set_conv_nth)
    then show ?thesis using assms(6) Suc by auto
  qed (use assms(6) in simp)
  then have "c \<in> set (concat (map result_call (take n ms)))"
    using group_closed [OF len] n' by blast
  then obtain x where x: "x \<in> set (take n ms)" "c \<in> set (result_call x)" by auto
  then obtain q where "q < n" "q < length ms" "c \<in> set (result_call (ms ! q))"
    using in_set_conv_nth [of x "take n ms"] by auto
  then show ?thesis
    using results_lastD [OF assms(1), of i "Suc q" c] assms(4,5) by simp
qed

lemma group_contains_call:
  "results_last ms \<Longrightarrow> g \<in> set (pair_groups k ms) \<Longrightarrow> k + i \<in> set g \<Longrightarrow> j < i \<Longrightarrow>
     c \<in> set (answered_call (ms ! i)) \<Longrightarrow> c \<in> set (calls_of (ms ! j)) \<Longrightarrow> k + j \<in> set g"
proof (induction k ms arbitrary: i j rule: pair_groups.induct)
  case 1
  then show ?case by simp
next
  case (2 k m ms)
  define n where "n = (if calls_of m = [] then 0 else group_length (calls_of m) ms)"
  have "g = [k..<Suc (k + n)] \<or> g \<in> set (pair_groups (Suc (k + n)) (drop n ms))"
    using "2.prems"(2) by (simp only: pair_groups.simps Let_def n_def) auto
  then show ?case
  proof
    assume "g = [k..<Suc (k + n)]"
    then show ?thesis using "2.prems"(3,4) by auto
  next
    assume g: "g \<in> set (pair_groups (Suc (k + n)) (drop n ms))"
    have i: "n < i" "i < Suc (length ms)"
      using pair_groups_range [OF g "2.prems"(3)] by auto
    then obtain i' where i': "i = Suc (n + i')" using less_iff_Suc_add by blast
    have "n < j"
    proof (rule ccontr)
      assume "\<not> n < j"
      then show False
        using earlier_group_resolved [OF "2.prems"(1) n_def _ i "2.prems"(6)] "2.prems"(5) by simp
    qed
    then obtain j' where j': "j = Suc (n + j')" using less_iff_Suc_add by blast
    have nth: "(m # ms) ! Suc (n + x) = drop n ms ! x" if "n + x < length ms" for x
      using that by simp
    have last: "results_last (drop n ms)"
      using results_last_drop [OF "2.prems"(1), of "Suc n"] by simp
    have "Suc (k + n) + j' \<in> set g"
      by (rule "2.IH" [OF n_def last g])
        (use "2.prems" i i' j' nth [of i'] nth [of j'] in \<open>simp_all add: add.assoc\<close>)
    then show ?thesis by (simp add: j' add.assoc)
  qed
qed

text \<open>A set of positions that holds the announcement of every observation it holds.\<close>

definition call_closed :: "agent_message list \<Rightarrow> nat set \<Rightarrow> bool" where
  "call_closed ms S \<longleftrightarrow> (\<forall>i \<in> S. i < length ms \<and> (\<forall>j < i. \<forall>c \<in> set (answered_call (ms ! i)).
     c \<in> set (calls_of (ms ! j)) \<longrightarrow> j \<in> S))"

lemma call_closed_Un: "call_closed ms S \<Longrightarrow> call_closed ms T \<Longrightarrow> call_closed ms (S \<union> T)"
  unfolding call_closed_def by blast

lemma call_closed_group:
  assumes "results_last ms" and "g \<in> set (pair_safe_tail_indexes ms)"
  shows "call_closed ms (set g)"
  using assms group_contains_call [of ms g 0] pair_groups_range [of g 0 ms]
  unfolding call_closed_def pair_safe_tail_indexes_def by simp

lemma user_answers_nothing: "is_user m \<Longrightarrow> answered_call m = []"
  by (cases m) auto

lemma first_user_Some: "first_user ms = Some u \<Longrightarrow> u < length ms \<and> is_user (ms ! u)"
  unfolding first_user_def using find_Some by fastforce

lemma call_closed_first_user: "first_user ms = Some u \<Longrightarrow> call_closed ms {u}"
  using first_user_Some [of ms u] user_answers_nothing by (auto simp: call_closed_def)

lemma call_closed_empty: "call_closed ms {}"
  by (simp add: call_closed_def)

section \<open>Retained transcripts stay well paired\<close>

lemma sorted_positions:
  assumes "finite S" and "\<forall>i \<in> S. i < length ms"
  shows "subtranscript ms (sorted_list_of_set S) = nths ms S"
proof -
  have "sorted_list_of_set S = filter (\<lambda>i. i \<in> S) [0..<length ms]"
  proof -
    have "set (filter (\<lambda>i. i \<in> S) [0..<length ms]) = S" using assms by auto
    then show ?thesis
      using sorted_list_of_set.idem_if_sorted_distinct [of "filter (\<lambda>i. i \<in> S) [0..<length ms]"]
      by (simp add: sorted_wrt_filter)
  qed
  moreover have "map (\<lambda>i. ms ! i) (filter (\<lambda>i. i \<in> S) [0..<length ms]) = nths ms S" for ms :: "agent_message list"
  proof (induction ms rule: rev_induct)
    case (snoc x xs)
    have "map (\<lambda>i. (xs @ [x]) ! i) (filter (\<lambda>i. i \<in> S) [0..<length xs])
        = map (\<lambda>i. xs ! i) (filter (\<lambda>i. i \<in> S) [0..<length xs])"
      by (auto simp: nth_append)
    then show ?case using snoc by (auto simp: nths_append)
  qed simp
  ultimately show ?thesis by (simp add: subtranscript_def)
qed


lemma answers_follow_snoc:
  "answers_follow calls (xs @ [m]) \<longleftrightarrow> answers_follow calls xs
     \<and> set (answered_call m) \<subseteq> set (calls @ concat (map calls_of xs))"
  by (induction xs arbitrary: calls) auto

lemma nths_below: "nths ms S = nths ms (S \<inter> {..<length ms})"
  unfolding nths_def by (intro arg_cong [where f = "map fst"] filter_cong) (auto dest: set_zip_rightD)

lemma answers_follow_nths:
  "answers_follow [] ms \<Longrightarrow> call_closed ms S \<Longrightarrow> answers_follow [] (nths ms S)"
proof (induction ms arbitrary: S rule: rev_induct)
  case Nil
  then show ?case by simp
next
  case (snoc m ms)
  let ?S = "S \<inter> {..<length ms}"
  have "call_closed ms ?S" unfolding call_closed_def
  proof (intro ballI conjI allI impI)
    fix i j c assume *: "i \<in> ?S" "j < i" "c \<in> set (answered_call (ms ! i))" "c \<in> set (calls_of (ms ! j))"
    then have "j \<in> S" using snoc.prems(2) by (force simp: call_closed_def nth_append)
    then show "j \<in> ?S" using * by simp
  qed simp
  then have IH: "answers_follow [] (nths ms S)"
    using snoc.IH snoc.prems(1) nths_below [of ms S] by (simp add: answers_follow_snoc)
  show ?case
  proof (cases "length ms \<in> S")
    case True
    have "c \<in> set (concat (map calls_of (nths ms S)))" if c: "c \<in> set (answered_call m)" for c
    proof -
      have "c \<in> set (concat (map calls_of ms))"
        using snoc.prems(1) c by (auto simp: answers_follow_snoc)
      then obtain x where x: "x \<in> set ms" "c \<in> set (calls_of x)" by auto
      then obtain j where j: "j < length ms" "c \<in> set (calls_of (ms ! j))"
        using in_set_conv_nth [of x ms] by auto
      then have "j \<in> S" using snoc.prems(2) True c by (force simp: call_closed_def nth_append)
      then show ?thesis using j by (auto simp: set_nths)
    qed
    then show ?thesis using IH True by (auto simp: nths_append answers_follow_snoc)
  qed (simp add: nths_append IH)
qed

lemma distinct_concat_nths:
  "distinct (concat (map f ms)) \<Longrightarrow> distinct (concat (map f (nths ms S)))"
proof (induction ms rule: rev_induct)
  case (snoc m ms)
  then show ?case using set_nths_subset [of ms S] by (auto simp: nths_append)
qed simp

lemma retained_well_paired:
  assumes "well_paired ms" and "finite S" and "call_closed ms S"
  shows "well_paired (subtranscript ms (sorted_list_of_set S))"
proof -
  have "subtranscript ms (sorted_list_of_set S) = nths ms S"
    using assms(2,3) by (intro sorted_positions) (auto simp: call_closed_def)
  then show ?thesis using assms answers_follow_nths [of ms S]
    by (simp add: well_paired_follow distinct_concat_nths)
qed

lemma prepared_paired: "(\<exists>out. prepared co ms = Inr out) = well_paired ms"
  by (simp add: prepared_def conversion_paired)

text \<open>What the selection loop maintains.\<close>

definition selection_ok :: "compiler \<Rightarrow> agent_message list \<Rightarrow> int \<Rightarrow> nat list \<Rightarrow> model_message list \<Rightarrow> bool" where
  "selection_ok co ms available selected out \<longleftrightarrow>
     sorted selected \<and> distinct selected \<and> (\<forall>i \<in> set selected. i < length ms)
     \<and> prepared co (subtranscript ms selected) = Inr out
     \<and> estimate_messages (co_literals co) out \<le> available"

lemma select_groups_ok:
  "select_groups co ms user available gs selected out = Inr (selected', out') \<Longrightarrow>
   selection_ok co ms available selected out \<Longrightarrow> \<forall>g \<in> set gs. \<forall>i \<in> set g. i < length ms \<Longrightarrow>
     selection_ok co ms available selected' out' \<and> set selected \<subseteq> set selected'"
proof (induction gs arbitrary: selected out)
  case Nil
  then show ?case by simp
next
  case (Cons g gs)
  define candidate where "candidate = sorted_list_of_set (set (g @ selected))"
  have cand: "sorted candidate" "distinct candidate" "set candidate = set g \<union> set selected"
    by (simp_all add: candidate_def)
  note step = Cons.prems(1) [unfolded select_groups.simps Let_def, folded candidate_def]
  show ?case
  proof (cases "case user of None \<Rightarrow> False | Some u \<Rightarrow> u \<in> set g")
    case True
    then show ?thesis using step Cons.IH [of selected out] Cons.prems(2,3) by simp
  next
    case False
    then obtain msgs where msgs: "prepared co (subtranscript ms candidate) = Inr msgs"
      using step by (cases "prepared co (subtranscript ms candidate)") simp_all
    show ?thesis
    proof (cases "estimate_messages (co_literals co) msgs > available")
      case True
      then show ?thesis using step False msgs Cons.IH [of selected out] Cons.prems(2,3) by simp
    next
      case le: False
      have "selection_ok co ms available candidate msgs"
        using cand msgs le Cons.prems(2,3) by (auto simp: selection_ok_def)
      moreover have "select_groups co ms user available gs candidate msgs = Inr (selected', out')"
        using step False msgs le by simp
      ultimately show ?thesis using Cons.IH [of candidate msgs] Cons.prems(3) cand(3) by auto
    qed
  qed
qed

lemma select_groups_succeeds:
  "well_paired ms \<Longrightarrow> call_closed ms (set selected) \<Longrightarrow> \<forall>g \<in> set gs. call_closed ms (set g) \<Longrightarrow>
     \<exists>x. select_groups co ms user available gs selected out = Inr x"
proof (induction gs arbitrary: selected out)
  case Nil
  then show ?case by simp
next
  case (Cons g gs)
  let ?c = "sorted_list_of_set (set (g @ selected))"
  have closed: "call_closed ms (set ?c)" using Cons.prems by (simp add: call_closed_Un)
  have "well_paired (subtranscript ms ?c)"
    using Cons.prems by (intro retained_well_paired) (simp_all add: call_closed_Un)
  then obtain msgs where msgs: "prepared co (subtranscript ms ?c) = Inr msgs"
    using prepared_paired by blast
  show ?case
    using Cons.IH [of selected out] Cons.IH [of ?c msgs] Cons.prems closed msgs
    by (auto simp: Let_def simp del: sorted_list_of_set_sort_remdups)
qed


lemma compile_compacted_ready:
  assumes "compile_compacted co ms background window mandatory reserve summary = Inr c"
    and "cc_kind c = CtxReady"
  obtains out where "selection_ok co ms
      (window - mandatory - estimate_messages (co_literals co) [summary_message summary]) (cc_retained c) out"
    and "set_option (first_user ms) \<subseteq> set (cc_retained c)"
    and "c = \<lparr>cc_kind = CtxReady, cc_messages = background @ summary_message summary # out,
      cc_estimated_input = mandatory - reserve
        + estimate_messages (co_literals co) (summary_message summary # out),
      cc_reserved_output = reserve, cc_retained = cc_retained c, cc_compacted = True\<rparr>"
proof -
  define est where "est = estimate_messages (co_literals co)"
  define available where "available = window - mandatory - est [summary_message summary]"
  define start where "start = (case first_user ms of None \<Rightarrow> [] | Some u \<Rightarrow> [u])"
  define first where "first = (if first_user ms = None then Inr [] else prepared co (subtranscript ms start))"
  note def = assms(1) [unfolded compile_compacted_def Let_def, folded est_def start_def,
      folded available_def first_def]
  have fits: "\<not> available < 0" using def assms(2) by (auto simp: unfit_def)
  obtain out0 where out0: "first = Inr out0" using def fits by (cases first) simp_all
  have le: "est out0 \<le> available"
    using def fits out0 assms(2) by (cases "est out0 > available") (auto simp: unfit_def)
  obtain sel out where sel: "select_groups co ms (first_user ms) available
      (rev (pair_safe_tail_indexes ms)) start out0 = Inr (sel, out)"
    using def fits out0 le
    by (cases "select_groups co ms (first_user ms) available (rev (pair_safe_tail_indexes ms)) start out0")
      auto
  have c: "c = \<lparr>cc_kind = CtxReady, cc_messages = background @ summary_message summary # out,
      cc_estimated_input = mandatory - reserve + est (summary_message summary # out),
      cc_reserved_output = reserve, cc_retained = sel, cc_compacted = True\<rparr>"
    using def fits out0 le sel by simp
  have "prepared co (subtranscript ms start) = Inr out0"
  proof (cases "first_user ms")
    case None
    then have "out0 = []" "start = []" using out0 by (simp_all add: first_def start_def)
    moreover have "prepared co [] = Inr []"
      by (simp add: prepared_def agent_messages_to_model_def fold_messages_def)
    ultimately show ?thesis by (simp add: subtranscript_def)
  qed (use out0 in \<open>simp add: first_def\<close>)
  then have "selection_ok co ms available start out0"
    using le first_user_Some [of ms] by (auto simp: selection_ok_def start_def est_def split: option.splits)
  moreover have "\<forall>g \<in> set (rev (pair_safe_tail_indexes ms)). \<forall>i \<in> set g. i < length ms"
    using pair_groups_range [of _ 0 ms] by (auto simp: pair_safe_tail_indexes_def)
  ultimately have "selection_ok co ms available sel out \<and> set start \<subseteq> set sel"
    using select_groups_ok [OF sel] by blast
  moreover have "set start = set_option (first_user ms)"
    by (cases "first_user ms") (simp_all add: start_def)
  ultimately show thesis
    using that [of out] c by (simp add: est_def available_def)
qed

section \<open>A sample compilation\<close>

definition sample_compiler :: compiler where
  "sample_compiler = \<lparr>co_dumps = (\<lambda>_. ''{}''), co_literals = \<lparr>lit_string = (\<lambda>s. s), lit_float = (\<lambda>_. ''0.5'')\<rparr>\<rparr>"

definition sample_model :: model_snapshot where
  "sample_model = \<lparr>ms_route = ''r'', ms_provider = ProvOpenai, ms_model_id = ''m'',
     ms_api = ApiResponses, ms_supports_native_tools = True,
     ms_supports_provider_strict_schema = True, ms_supports_local_structured_action = False,
     ms_structured_action_validation = SvUnsupported, ms_tool_strategy = TsNative,
     ms_context_window = 130, ms_max_output_tokens = 40, ms_temperature = None,
     ms_provider_timeout_seconds = 60, ms_max_provider_retries = 1,
     ms_supported_thinking_levels = []\<rparr>"

definition sample_prompt :: prompt_snapshot where
  "sample_prompt = \<lparr>ps_prompt_id = ''p'', ps_version = ''1'', ps_content_digest = ''d'',
     ps_rendered_system_prompt = ''Be brief.''\<rparr>"

definition sample_context_run :: run_state where
  "sample_context_run = sample_run\<lparr>run_transcript :=
       UserMsg \<lparr>um_message_id = ''m0'', um_content = [TextPart ''hi''], um_created_at = 0\<rparr>
       # sample_transcript,
     run_profile := sample_profile\<lparr>op_model := Some sample_model, op_prompt := Some sample_prompt\<rparr>\<rparr>"

lemma sample_context:
  "case compile_context sample_compiler sample_context_run [] [] (Some ''s'') of
     Inl e \<Rightarrow> False | Inr c \<Rightarrow> cc_kind c = CtxReady \<and> cc_retained c = [0, 1]"
  by code_simp

lemma sample_context_ready:
  obtains c where "compile_context sample_compiler sample_context_run [] [] (Some ''s'') = Inr c"
    and "cc_kind c = CtxReady" and "cc_retained c = [0, 1]"
  using sample_context by (cases "compile_context sample_compiler sample_context_run [] [] (Some ''s'')") auto

lemma sample_context_model: "op_model (run_profile sample_context_run) = Some sample_model"
  by (simp add: sample_context_run_def)

lemma sample_context_paired: "well_paired (run_transcript sample_context_run)"
  by (simp add: well_paired_follow sample_context_run_def sample_transcript_def)

lemma results_last_Nil: "results_last []"
  by (simp add: results_last_def)

lemma results_last_Cons: "results_last (m # ms) \<longleftrightarrow>
    results_last ms \<and> list_all (\<lambda>x. set (result_call m) \<inter> set (answered_call x) = {}) ms"
  by (auto simp: results_last_def All_less_Suc2 list_all_length)

lemma sample_context_results: "results_last (run_transcript sample_context_run)"
  by (simp add: results_last_Cons results_last_Nil sample_context_run_def sample_transcript_def)

section \<open>Properties\<close>

text \<open>
  A context reported ready fits: the estimated input and the reserved output together stay
  within the model's context window, also after compaction, where the estimate of the summary and
  the retained messages is never taken together during the selection.\<close>

theorem ready_context_fits:
  assumes "compile_context co r tools background summary = Inr c"
    and "cc_kind c = CtxReady" and "op_model (run_profile r) = Some model"
  shows "cc_estimated_input c + cc_reserved_output c \<le> ms_context_window model"
proof -
  obtain prompt where prompt: "op_prompt (run_profile r) = Some prompt"
    using assms(1,3) by (auto simp: compile_context_def split: if_splits option.splits)
  define est where "est = estimate_messages (co_literals co)"
  define mandatory where "mandatory = estimate_text (ps_rendered_system_prompt prompt)
    + estimate_tools (co_literals co) tools + est background + ms_max_output_tokens model"
  note def = assms(1) [unfolded compile_context_def assms(3) prompt prod.case option.case Let_def,
      folded est_def, folded mandatory_def]
  have fits: "\<not> mandatory > ms_context_window model"
    using def assms(2) by (auto simp: unfit_def split: if_splits)
  obtain converted where conv: "prepared co (run_transcript r) = Inr converted"
    using def fits by (cases "prepared co (run_transcript r)") (auto split: if_splits)
  show ?thesis
  proof (cases summary)
    case None
    then show ?thesis using def fits conv assms(2) by (auto split: if_splits)
  next
    case (Some s)
    then have "compile_compacted co (run_transcript r) background (ms_context_window model) mandatory
        (ms_max_output_tokens model) s = Inr c"
      using def fits conv by (auto split: if_splits)
    then obtain out where "selection_ok co (run_transcript r)
        (ms_context_window model - mandatory - est [summary_message s]) (cc_retained c) out"
      and c: "c = \<lparr>cc_kind = CtxReady, cc_messages = background @ summary_message s # out,
        cc_estimated_input = mandatory - ms_max_output_tokens model + est (summary_message s # out),
        cc_reserved_output = ms_max_output_tokens model, cc_retained = cc_retained c,
        cc_compacted = True\<rparr>"
      using assms(2) unfolding est_def by (rule compile_compacted_ready)
    then have "est out \<le> ms_context_window model - mandatory - est [summary_message s]"
      by (simp add: selection_ok_def est_def)
    moreover have "est (summary_message s # out) \<le> est [summary_message s] + est out"
      unfolding est_def by (rule estimate_messages_Cons)
    ultimately show ?thesis by (subst (1 2) c) simp
  qed
qed

theorem ready_context_fits_witness:
  "\<exists>c. compile_context sample_compiler sample_context_run [] [] (Some ''s'') = Inr c
     \<and> cc_estimated_input c + cc_reserved_output c \<le> 130"
proof -
  obtain c where c: "compile_context sample_compiler sample_context_run [] [] (Some ''s'') = Inr c"
    "cc_kind c = CtxReady" by (rule sample_context_ready)
  from ready_context_fits [OF c sample_context_model] c show ?thesis by (simp add: sample_model_def)
qed

text \<open>
  Compilation of a Run with a model never raises when its calls are resolved, its transcript is
  well paired and no observation follows its call's result: whatever subset of the transcript is
  retained, no observation is separated from its call.\<close>

theorem compilation_never_raises:
  assumes "well_paired (run_transcript r)" and "results_last (run_transcript r)"
    and "unresolved_call_ids (run_transcript r) = {}"
    and "op_model (run_profile r) \<noteq> None" and "op_prompt (run_profile r) \<noteq> None"
  shows "\<exists>c. compile_context co r tools background summary = Inr c"
proof -
  let ?ms = "run_transcript r"
  obtain model prompt where profile: "op_model (run_profile r) = Some model"
      "op_prompt (run_profile r) = Some prompt"
    using assms(4,5) by blast
  obtain converted where conv: "prepared co ?ms = Inr converted" using assms(1) prepared_paired by blast
  have "\<exists>c. compile_compacted co ?ms background window mandatory reserve s = Inr c"
    for window mandatory reserve s
  proof -
    define start where "start = (case first_user ?ms of None \<Rightarrow> [] | Some u \<Rightarrow> [u])"
    have closed: "call_closed ?ms (set start)"
      by (cases "first_user ?ms") (simp_all add: start_def call_closed_empty call_closed_first_user)
    have sorted: "sorted_list_of_set (set start) = start"
      by (cases "first_user ?ms") (simp_all add: start_def)
    have "well_paired (subtranscript ?ms start)"
      using retained_well_paired [OF assms(1) _ closed] by (simp add: sorted)
    then obtain out0 where "prepared co (subtranscript ?ms start) = Inr out0"
      using prepared_paired by blast
    moreover define first where
      "first = (if first_user ?ms = None then Inr [] else prepared co (subtranscript ?ms start))"
    ultimately obtain out1 where first: "first = Inr out1"
      by (cases "first_user ?ms = None") simp_all
    define available where
      "available = window - mandatory - estimate_messages (co_literals co) [summary_message s]"
    obtain selected out where "select_groups co ?ms (first_user ?ms) available
        (rev (pair_safe_tail_indexes ?ms)) start out1 = Inr (selected, out)"
      using select_groups_succeeds [OF assms(1) closed, of "rev (pair_safe_tail_indexes ?ms)"]
        call_closed_group [OF assms(2)] by (metis set_rev surj_pair)
    then show ?thesis
      unfolding compile_compacted_def Let_def
      unfolding start_def [symmetric] first_def [symmetric] available_def [symmetric] first by simp
  qed
  then show ?thesis
    using assms(3) profile conv by (simp add: compile_context_def Let_def split: option.split)
qed

theorem compilation_never_raises_witness:
  "\<exists>c. compile_context sample_compiler sample_context_run [] [] None = Inr c"
  by (rule compilation_never_raises [OF sample_context_paired sample_context_results])
    (simp_all add: sample_context_run_def unresolved_call_ids_def sample_transcript_def)

text \<open>
  A compacted context is the background, the summary and the conversion of the retained
  messages, in transcript order, and the first user message is always retained.\<close>

theorem compacted_context_is_retained:
  assumes "compile_context co r tools background (Some s) = Inr c" and "cc_kind c = CtxReady"
  shows "\<exists>out. agent_messages_to_model (co_dumps co) True True
        (subtranscript (run_transcript r) (cc_retained c)) = Inr out
      \<and> cc_messages c = background @ summary_message s # out
      \<and> sorted (cc_retained c) \<and> distinct (cc_retained c)
      \<and> set_option (first_user (run_transcript r)) \<subseteq> set (cc_retained c)"
proof -
  obtain model prompt where profile: "op_model (run_profile r) = Some model"
      "op_prompt (run_profile r) = Some prompt"
    using assms(1) by (auto simp: compile_context_def split: if_splits option.splits)
  obtain mandatory where "compile_compacted co (run_transcript r) background (ms_context_window model)
      mandatory (ms_max_output_tokens model) s = Inr c"
    using assms profile by (auto simp: compile_context_def Let_def unfit_def split: if_splits sum.splits)
  then obtain out where "selection_ok co (run_transcript r) (ms_context_window model - mandatory
        - estimate_messages (co_literals co) [summary_message s]) (cc_retained c) out"
      and "set_option (first_user (run_transcript r)) \<subseteq> set (cc_retained c)"
      and "cc_messages c = background @ summary_message s # out"
    using assms(2) by (rule compile_compacted_ready) (metis compiled_context.select_convs(2))
  then show ?thesis by (auto simp: selection_ok_def prepared_def)
qed

theorem compacted_context_is_retained_witness:
  "\<exists>c out. compile_context sample_compiler sample_context_run [] [] (Some ''s'') = Inr c
     \<and> cc_messages c = summary_message ''s'' # out"
proof -
  obtain c where c: "compile_context sample_compiler sample_context_run [] [] (Some ''s'') = Inr c"
    "cc_kind c = CtxReady" by (rule sample_context_ready)
  from compacted_context_is_retained [OF c] c show ?thesis by auto
qed

end
