(* ===== verification/Outbox_Worker.thy ===== *)
theory Outbox_Worker
  imports Store_Properties
begin

text \<open>
  \<open>execution/orchestrator/projection.py\<close>: the driver that settles a terminal Run and the worker that
  drains the durable projection outbox. A projector is a parameter, \<open>None\<close> when it raises. Every
  store call awaits, so other actors act between two calls: \<open>ow_others\<close> lists what they do before
  each call. \<open>ow_projected\<close> and \<open>ow_notified\<close> record the projector and listener calls. Times and
  durations are microseconds; the listener is taken to return.
\<close>

section \<open>Awaited store calls\<close>

record outbox_world =
  ow_store :: run_store
  ow_others :: "store_request list list"
  ow_projected :: "(projection_intent \<times> run_state) list"
  ow_notified :: "(run_state \<times> projection_intent) list"

definition others_act :: "(datetime \<Rightarrow> string) \<Rightarrow> outbox_world \<Rightarrow> run_store" where
  "others_act f w = foldl (execute f) (ow_store w) (case ow_others w of [] \<Rightarrow> [] | qs # _ \<Rightarrow> qs)"

definition call_store ::
  "(datetime \<Rightarrow> string) \<Rightarrow> (run_store \<Rightarrow> 'a \<times> run_store) \<Rightarrow> outbox_world \<Rightarrow> 'a \<times> outbox_world" where
  "call_store f op w = (case op (others_act f w) of
     (x, s) \<Rightarrow> (x, w\<lparr>ow_store := s, ow_others := tl (ow_others w)\<rparr>))"

definition read_run :: "string \<Rightarrow> run_store \<Rightarrow> (store_exn + run_state option) \<times> run_store" where
  "read_run rid s = (load s rid, s)"

section \<open>The driver\<close>

definition public_terminal_status :: "run_status \<Rightarrow> string option" where
  "public_terminal_status s = (case s of
      Completed \<Rightarrow> Some ''completed'' | Failed \<Rightarrow> Some ''failed'' | Canceled \<Rightarrow> Some ''canceled''
    | BudgetExhausted \<Rightarrow> Some ''failed'' | _ \<Rightarrow> None)"

definition settle_command :: "run_state \<Rightarrow> string" where
  "settle_command r = ''settle:'' @ run_id r @ '':'' @ show_int (run_state_version r)"

text \<open>\<open>_settle\<close>: the Run the store answers with, or the Run it was given.\<close>

definition settle_run ::
  "(datetime \<Rightarrow> string) \<Rightarrow> run_state \<Rightarrow> datetime \<Rightarrow> outbox_world \<Rightarrow> (store_exn + run_state) \<times> outbox_world"
  where
  "settle_run f r now w = (case transition_projection_settlement r (run_state_version r) now of
      (Accepted, r') \<Rightarrow>
        (case call_store f (\<lambda>s. cas_now s r' (run_state_version r) (settle_command r)) w of
           (Inl e, w') \<Rightarrow> (Inl e, w')
         | (Inr (_, x), w') \<Rightarrow> (Inr (case x of None \<Rightarrow> r | Some y \<Rightarrow> y), w'))
    | _ \<Rightarrow> (Inr r, w))"

datatype driver_exn = MissingRun string | StoreRaised store_exn

definition driver_settle ::
  "(datetime \<Rightarrow> string) \<Rightarrow> string \<Rightarrow> datetime \<Rightarrow> outbox_world \<Rightarrow> (driver_exn + run_state) \<times> outbox_world" where
  "driver_settle f rid now w = (case call_store f (read_run rid) w of
      (Inl e, w') \<Rightarrow> (Inl (StoreRaised e), w')
    | (Inr None, w') \<Rightarrow> (Inl (MissingRun rid), w')
    | (Inr (Some r), w') \<Rightarrow> (case settle_run f r now w' of
         (Inl e, w'') \<Rightarrow> (Inl (StoreRaised e), w'') | (Inr x, w'') \<Rightarrow> (Inr x, w'')))"

section \<open>The worker\<close>

type_synonym projector = "projection_intent \<Rightarrow> run_state \<Rightarrow> outcome option"

record outbox_worker =
  wk_id :: string
  wk_projectors :: "string \<Rightarrow> projector option"
  wk_lease :: int
  wk_max_attempts :: int
  wk_backoff_base :: int
  wk_backoff_max :: int
  wk_batch_limit :: int
  wk_listener :: bool

text \<open>The claim of a worker that lost its lease is taken back. \<open>None\<close> is \<open>return False\<close>.\<close>

definition lease_lapsed :: "projection_intent \<Rightarrow> datetime \<Rightarrow> bool" where
  "lease_lapsed i now = (case pi_claim_expires_at i of None \<Rightarrow> False | Some t \<Rightarrow> t \<le> now)"

definition reopen_claimed ::
  "(datetime \<Rightarrow> string) \<Rightarrow> outbox_worker \<Rightarrow> string \<Rightarrow> run_state \<Rightarrow> projection_intent \<Rightarrow> datetime \<Rightarrow> outbox_world
     \<Rightarrow> (store_exn + (run_state \<times> projection_intent) option) \<times> outbox_world" where
  "reopen_claimed f wk rid r i now w =
     (if pi_status i \<noteq> IntClaimed then (Inr (Some (r, i)), w)
      else if \<not> lease_lapsed i now then (Inr None, w)
      else (case call_store f (\<lambda>s. release_intent s rid (pi_intent_id i) (run_state_version r)
             (if truthy_str (pi_claim_owner i) then the (pi_claim_owner i) else wk_id wk) now now) w of
          (Inl e, w') \<Rightarrow> (Inl e, w')
        | (Inr (_, None), w') \<Rightarrow> (Inr None, w')
        | (Inr (_, Some r'), w') \<Rightarrow> (Inr (case find_intent (Some r') (pi_intent_id i) of
              None \<Rightarrow> None
            | Some i' \<Rightarrow> if pi_status i' = IntPending then Some (r', i') else None), w')))"

text \<open>Publication of the terminal status waits for every other required intent.\<close>

definition held_back :: "run_state \<Rightarrow> projection_intent \<Rightarrow> bool" where
  "held_back r i \<longleftrightarrow> pi_kind i = ''project_terminal_run_status''
     \<and> list_ex (\<lambda>j. pi_required j \<and> pi_intent_id j \<noteq> pi_intent_id i \<and> pi_status j \<noteq> IntCompleted)
         (run_projection_outbox r)"

definition run_projector :: "outbox_worker \<Rightarrow> projection_intent \<Rightarrow> run_state \<Rightarrow> outcome" where
  "run_projector wk i r = (case wk_projectors wk (pi_kind i) of
      None \<Rightarrow> StoreError
    | Some p \<Rightarrow> (case p i r of None \<Rightarrow> StoreError | Some oc \<Rightarrow> oc))"

definition record_projection ::
  "outbox_worker \<Rightarrow> projection_intent \<Rightarrow> run_state \<Rightarrow> outbox_world \<Rightarrow> outbox_world" where
  "record_projection wk i r w = (if wk_projectors wk (pi_kind i) = None then w
     else w\<lparr>ow_projected := ow_projected w @ [(i, r)]\<rparr>)"

definition backoff_delay :: "outbox_worker \<Rightarrow> projection_intent \<Rightarrow> int" where
  "backoff_delay wk i =
     min (wk_backoff_base wk * 2 ^ nat (max (pi_attempt_count i - 1) 0)) (wk_backoff_max wk)"

text \<open>After an accepted projection: complete, reload on a lost race, settle, notify.\<close>

definition notify_listener ::
  "outbox_worker \<Rightarrow> projection_intent \<Rightarrow> run_state \<Rightarrow> outbox_world \<Rightarrow> outbox_world" where
  "notify_listener wk i r w =
     (if pi_kind i \<noteq> ''project_terminal_run_status'' \<and> run_projection_state r = ProjSettled \<and> wk_listener wk
      then w\<lparr>ow_notified := ow_notified w @ [(r, i)]\<rparr> else w)"

definition settle_and_notify ::
  "(datetime \<Rightarrow> string) \<Rightarrow> outbox_worker \<Rightarrow> projection_intent \<Rightarrow> datetime \<Rightarrow> run_state \<Rightarrow> outbox_world
     \<Rightarrow> (store_exn + bool) \<times> outbox_world" where
  "settle_and_notify f wk i now r w = (case settle_run f r now w of
      (Inl e, w') \<Rightarrow> (Inl e, w')
    | (Inr r', w') \<Rightarrow> (Inr True, notify_listener wk i r' w'))"

definition acknowledge ::
  "(datetime \<Rightarrow> string) \<Rightarrow> outbox_worker \<Rightarrow> string \<Rightarrow> run_state \<Rightarrow> projection_intent \<Rightarrow> datetime \<Rightarrow> outbox_world
     \<Rightarrow> (store_exn + bool) \<times> outbox_world" where
  "acknowledge f wk rid r i now w =
     (case call_store f (\<lambda>s. complete_intent s rid (pi_intent_id i) (run_state_version r) (wk_id wk)) w of
        (Inl e, w') \<Rightarrow> (Inl e, w')
      | (Inr (oc, x), w') \<Rightarrow>
          if oc \<in> {Accepted, Replayed} \<and> x \<noteq> None then settle_and_notify f wk i now (the x) w'
          else (case call_store f (read_run rid) w' of
              (Inl e, w'') \<Rightarrow> (Inl e, w'')
            | (Inr l, w'') \<Rightarrow>
                settle_and_notify f wk i now (case l of None \<Rightarrow> r | Some y \<Rightarrow> y) w''))"

text \<open>After a failed projection: block when the attempts are spent, else release with a delay.\<close>

definition give_up ::
  "(datetime \<Rightarrow> string) \<Rightarrow> outbox_worker \<Rightarrow> string \<Rightarrow> run_state \<Rightarrow> projection_intent \<Rightarrow> datetime \<Rightarrow> outbox_world
     \<Rightarrow> (store_exn + bool) \<times> outbox_world" where
  "give_up f wk rid r i now w =
     (case call_store f (\<lambda>s. block_intent s rid (pi_intent_id i) (run_state_version r) (wk_id wk)
          ''projection attempts exceeded'') w of
        (Inl e, w') \<Rightarrow> (Inl e, w')
      | (Inr (_, x), w') \<Rightarrow> (case settle_run f (case x of None \<Rightarrow> r | Some y \<Rightarrow> y) now w' of
           (Inl e, w'') \<Rightarrow> (Inl e, w'') | (Inr _, w'') \<Rightarrow> (Inr False, w'')))"

definition back_off ::
  "(datetime \<Rightarrow> string) \<Rightarrow> outbox_worker \<Rightarrow> string \<Rightarrow> run_state \<Rightarrow> projection_intent \<Rightarrow> datetime \<Rightarrow> outbox_world
     \<Rightarrow> (store_exn + bool) \<times> outbox_world" where
  "back_off f wk rid r i now w =
     (case call_store f (\<lambda>s. release_intent s rid (pi_intent_id i) (run_state_version r) (wk_id wk)
          (now + backoff_delay wk i) now) w of
        (Inl e, w') \<Rightarrow> (Inl e, w') | (Inr _, w') \<Rightarrow> (Inr False, w'))"

definition project_claimed ::
  "(datetime \<Rightarrow> string) \<Rightarrow> outbox_worker \<Rightarrow> string \<Rightarrow> run_state \<Rightarrow> projection_intent \<Rightarrow> datetime \<Rightarrow> outbox_world
     \<Rightarrow> (store_exn + bool) \<times> outbox_world" where
  "project_claimed f wk rid r i now w =
     (let w' = record_projection wk i r w in
      if run_projector wk i r \<in> {Accepted, Replayed} then acknowledge f wk rid r i now w'
      else if wk_max_attempts wk \<le> pi_attempt_count i then give_up f wk rid r i now w'
      else back_off f wk rid r i now w')"

definition claim_and_project ::
  "(datetime \<Rightarrow> string) \<Rightarrow> outbox_worker \<Rightarrow> string \<Rightarrow> run_state \<Rightarrow> projection_intent \<Rightarrow> datetime \<Rightarrow> outbox_world
     \<Rightarrow> (store_exn + bool) \<times> outbox_world" where
  "claim_and_project f wk rid r i now w =
     (if pi_status i \<noteq> IntPending \<or> held_back r i then (Inr False, w)
      else (case call_store f (\<lambda>s. claim_intent s rid (pi_intent_id i) (run_state_version r) (wk_id wk)
             (now + wk_lease wk)) w of
          (Inl e, w') \<Rightarrow> (Inl e, w')
        | (Inr (oc, x), w') \<Rightarrow>
            if oc \<notin> {Accepted, Replayed} then (Inr False, w')
            else (case x of None \<Rightarrow> (Inr False, w')
              | Some r' \<Rightarrow> (case find_intent (Some r') (pi_intent_id i) of
                  None \<Rightarrow> (Inr False, w')
                | Some i' \<Rightarrow> if pi_status i' \<noteq> IntClaimed then (Inr False, w')
                    else project_claimed f wk rid r' i' now w'))))"

definition process_intent ::
  "(datetime \<Rightarrow> string) \<Rightarrow> outbox_worker \<Rightarrow> string \<Rightarrow> string \<Rightarrow> datetime \<Rightarrow> outbox_world
     \<Rightarrow> (store_exn + bool) \<times> outbox_world" where
  "process_intent f wk rid iid now w = (case call_store f (read_run rid) w of
      (Inl e, w') \<Rightarrow> (Inl e, w')
    | (Inr r, w') \<Rightarrow> (case (r, find_intent r iid) of
        (Some r, Some i) \<Rightarrow>
          if pi_status i \<in> {IntCompleted, IntBlocked} then (Inr False, w')
          else (case reopen_claimed f wk rid r i now w' of
              (Inl e, w'') \<Rightarrow> (Inl e, w'')
            | (Inr None, w'') \<Rightarrow> (Inr False, w'')
            | (Inr (Some (r', i')), w'') \<Rightarrow> claim_and_project f wk rid r' i' now w'')
      | _ \<Rightarrow> (Inr False, w')))"

text \<open>One batch: the listing, then each intent in turn; a raise ends the batch.\<close>

fun process_batch ::
  "(datetime \<Rightarrow> string) \<Rightarrow> outbox_worker \<Rightarrow> datetime \<Rightarrow> (string \<times> projection_intent) list \<Rightarrow> nat \<Rightarrow> outbox_world
     \<Rightarrow> (store_exn + nat) \<times> outbox_world" where
  "process_batch f wk now [] n w = (Inr n, w)"
| "process_batch f wk now ((rid, i) # due) n w = (case process_intent f wk rid (pi_intent_id i) now w of
      (Inl e, w') \<Rightarrow> (Inl e, w')
    | (Inr b, w') \<Rightarrow> process_batch f wk now due (if b then n + 1 else n) w')"

definition run_once ::
  "(datetime \<Rightarrow> string) \<Rightarrow> outbox_worker \<Rightarrow> datetime \<Rightarrow> outbox_world \<Rightarrow> (store_exn + nat) \<times> outbox_world" where
  "run_once f wk now w =
     (case call_store f (\<lambda>s. (list_due_intents s now (wk_batch_limit wk), s)) w of
        (due, w') \<Rightarrow> process_batch f wk now due 0 w')"

text \<open>The worker's defaults, with projectors that accept.\<close>

definition sample_worker :: outbox_worker where
  "sample_worker = \<lparr>wk_id = ''w'', wk_projectors = (\<lambda>k. Some (\<lambda>i r. Some Accepted)), wk_lease = 60000000,
     wk_max_attempts = 8, wk_backoff_base = 2000000, wk_backoff_max = 300000000, wk_batch_limit = 100,
     wk_listener = False\<rparr>"

end
