(* ===== verification/Outbox_Properties.thy ===== *)
theory Outbox_Properties
  imports Outbox_Worker Intent_Lifecycle
begin

text \<open>
  What the outbox worker guarantees: whatever other actors do between its store calls, the public
  terminal status is projected only when every other required intent is completed; and on its own,
  one pass over an intent completes it, blocks it, or releases it with a bounded delay.
\<close>

section \<open>Answers of a compare-and-swap\<close>

text \<open>The Run of an answer is the stored one, or the candidate that replaced it.\<close>

definition wrote :: "run_store \<Rightarrow> run_state \<Rightarrow> run_store \<Rightarrow> bool" where
  "wrote s cand s' \<longleftrightarrow> s' = replace_run s cand
     \<or> (\<exists>q. load_claim s (run_id cand) = Some q \<and> s' = mirror_claim (replace_run s cand) (run_id cand) q)"

lemma overlay_claim_answer:
  "overlay_claim (replace_run s cand) cand = (Inr (oc, x), s') \<Longrightarrow>
     oc = Accepted \<and> (\<exists>y. x = Some y \<and> run_core y = run_core cand \<and> run_id y = run_id cand) \<and> wrote s cand s'"
  by (auto simp: overlay_claim_def wrote_def load_claim_def replace_run_def split: option.splits if_splits)

lemma overlay_claim_Inr: "\<exists>a s'. overlay_claim s c = (Inr a, s')"
  by (auto simp: overlay_claim_def split: option.split)

lemma cas_now_answer:
  assumes "cas_now s r e cmd = (Inr (oc, x), s')" and "load s (run_id r) = Inr (Some cur)"
  shows "s' = s \<and> x = Some cur \<and> oc \<noteq> Accepted
    \<or> (\<exists>cand y. oc = Accepted \<and> cas_writes cur s r e cmd cand \<and> wrote s cand s'
         \<and> x = Some y \<and> run_core y = run_core cand \<and> run_id y = run_id r)"
proof -
  have app: "cas_apply cur s NoFault r e cmd = (Inr (oc, x), s')"
    using assms by (simp add: cas_now_def cas_mutate_def with_load_def)
  show ?thesis
  proof (cases "cmd \<in> set (run_processed_command_ids cur) \<or> run_state_version cur \<noteq> e
      \<or> run_state_version r \<noteq> e + 1")
    case True
    then have "cas_apply cur s NoFault r e cmd
        = (Inr (if cmd \<in> set (run_processed_command_ids cur) then Replayed else Conflict, Some cur), s)"
      by (auto simp: cas_apply_def)
    then show ?thesis using app by auto
  next
    case False
    then obtain cand where cand: "normalize_run (with_command cmd r) = Inr cand"
      using app by (cases "normalize_run (with_command cmd r)") (simp_all add: cas_apply_def)
    have id: "run_id cand = run_id r" using normalize_run_id [OF cand] by simp
    show ?thesis
    proof (cases "cancellation_transition_allowed cur cand \<and> version_matches s (run_id r) e
        \<and> \<not> index_violation s cand")
      case True
      then have "overlay_claim (replace_run s cand) cand = (Inr (oc, x), s')"
        using app False cand by (simp add: cas_apply_def)
      from overlay_claim_answer [OF this] show ?thesis
        using True False cand id by (auto simp: cas_writes_def)
    next
      case no: False
      then have "s' = s \<and> x = Some cur \<and> oc \<noteq> Accepted"
        using app False cand assms(2)
        by (auto simp: cas_apply_def with_load_def replayed_if_def Let_def split: if_splits)
      then show ?thesis by blast
    qed
  qed
qed

lemma cas_now_accepts:
  assumes "load s (run_id r) = Inr (Some cur)" and "cas_writes cur s r e cmd cand"
  shows "\<exists>y s'. cas_now s r e cmd = (Inr (Accepted, Some y), s')"
proof -
  have eq: "cas_now s r e cmd = overlay_claim (replace_run s cand) cand"
    using assms by (simp add: cas_now_def cas_mutate_def with_load_def cas_apply_def cas_writes_def Let_def)
  obtain a s' where a: "overlay_claim (replace_run s cand) cand = (Inr a, s')"
    using overlay_claim_Inr by blast
  obtain oc x where "a = (oc, x)" by force
  with a eq overlay_claim_answer show ?thesis by metis
qed

lemma wrote_find:
  assumes "wrote s cand s'" and "find_run s (run_id cand) = Some d"
  shows "\<exists>d'. find_run s' (run_id cand) = Some d' \<and> run_core d' = run_core cand
    \<and> run_state_version d' = run_state_version cand"
proof -
  have "find_run (replace_run s cand) (run_id cand) = Some cand" using assms(2) by (simp add: find_run_replace)
  then show ?thesis using assms(1) by (auto simp: wrote_def find_run_mirror)
qed

section \<open>Snapshots\<close>

lemma snapshot_leads:
  assumes "store_history (s # h)" and "run_snapshot s c" and "leads (s # h) s'"
  shows "run_snapshot s' c"
proof -
  obtain h' where h': "store_history (h' @ s # h)" "hd (h' @ s # h) = s'"
    using assms(3) by (auto simp: leads_def)
  have "store_history (h' @ s # h) \<Longrightarrow> run_snapshot (hd (h' @ s # h)) c"
  proof (induction h')
    case Nil
    show ?case using assms(2) by simp
  next
    case (Cons a h')
    obtain b t where t: "h' @ s # h = b # t" by (cases "h' @ s # h") auto
    have tail: "store_history (h' @ s # h)" using Cons.prems t history_tail [of a b t] by simp
    have "\<forall>rid. runs_keep b a rid \<or> runs_advance b a rid"
      using history_fenced [OF Cons.prems] t by (simp add: history_inv_def)
    then show ?case using Cons.IH [OF tail] t runs.snapshot_survives [of b c a] by simp
  qed
  then show ?thesis using h' by simp
qed

lemma snapshot_core:
  "run_snapshot s c \<Longrightarrow> run_core x = run_core c \<Longrightarrow> run_id x = run_id c \<Longrightarrow> run_snapshot s x"
  by (simp add: snapshot_ok_def split: option.splits) (metis run_core_simps(2))

lemma same_version_same_core:
  assumes "run_snapshot s c" and "load s (run_id c) = Inr (Some cur)"
    and "run_state_version cur = run_state_version c"
  shows "run_core cur = run_core c"
  using assms load_core [OF assms(2)] by (auto simp: snapshot_ok_def)

lemma wrote_snapshot:
  assumes "cas_writes cur s r e cmd cand" and "wrote s cand s'" and "run_core y = run_core cand"
    and "run_id y = run_id r"
  shows "run_snapshot s' y"
proof -
  have id: "run_id cand = run_id r" using assms(1) normalize_run_id by (auto simp: cas_writes_def)
  have "version_matches s (run_id cand) e" using assms(1) id by (simp add: cas_writes_def)
  then obtain d where "find_run s (run_id cand) = Some d"
    by (auto simp: version_matches_def split: option.splits)
  from wrote_find [OF assms(2) this] show ?thesis
    using assms(3,4) id by (auto simp: snapshot_ok_def) (metis run_core_simps(2))
qed

text \<open>Fields of the Run that the version guards.\<close>

lemma core_fields:
  assumes "run_core x = run_core y"
  shows "run_projection_outbox x = run_projection_outbox y" "run_st x = run_st y"
    "run_state_version x = run_state_version y"
    "run_processed_command_ids x = run_processed_command_ids y"
    "run_projection_state x = run_projection_state y"
    "run_proposed_final_message_id x = run_proposed_final_message_id y"
proof -
  from arg_cong [OF assms, of run_projection_outbox] arg_cong [OF assms, of run_st]
    arg_cong [OF assms, of run_state_version] arg_cong [OF assms, of run_processed_command_ids]
    arg_cong [OF assms, of run_projection_state] arg_cong [OF assms, of run_proposed_final_message_id]
  show "run_projection_outbox x = run_projection_outbox y" "run_st x = run_st y"
    "run_state_version x = run_state_version y"
    "run_processed_command_ids x = run_processed_command_ids y"
    "run_projection_state x = run_projection_state y"
    "run_proposed_final_message_id x = run_proposed_final_message_id y"
    by (simp_all add: run_core_def)
qed

section \<open>Operations on one intent\<close>

text \<open>What every transition keeps of an intent.\<close>

definition intent_role :: "projection_intent \<Rightarrow> string \<times> string \<times> bool" where
  "intent_role i = (pi_intent_id i, pi_kind i, pi_required i)"

lemma transition_intent_role: "transition_intent i to owner lease reason next_at = Inr k \<Longrightarrow> intent_role k = intent_role i"
  by (auto simp: transition_intent_Inr_iff intent_role_def)

lemma update_intent_find:
  assumes "update_intent iid g is = Some (Inr js)" and "\<And>i k. g i = Inr k \<Longrightarrow> intent_role k = intent_role i"
  shows "\<exists>i k. List.find (\<lambda>i. pi_intent_id i = iid) is = Some i \<and> g i = Inr k
    \<and> List.find (\<lambda>i. pi_intent_id i = iid) js = Some k
    \<and> (\<forall>j \<in> set js. pi_intent_id j \<noteq> iid \<longrightarrow> j \<in> set is)
    \<and> map intent_role js = map intent_role is
    \<and> (distinct (map pi_intent_id is) \<longrightarrow> js = map (\<lambda>j. if pi_intent_id j = iid then k else j) is)"
  using assms(1)
proof (induction "is" arbitrary: js)
  case Nil
  then show ?case by simp
next
  case (Cons a as)
  show ?case
  proof (cases "pi_intent_id a = iid")
    case True
    then obtain k where k: "g a = Inr k" "js = k # as" using Cons.prems by (cases "g a") auto
    have "pi_intent_id k = iid" using assms(2) [OF k(1)] True by (simp add: intent_role_def)
    moreover have "map (\<lambda>j. if pi_intent_id j = iid then k else j) as = as"
      if "iid \<notin> pi_intent_id ` set as" using that by (intro map_idI) auto
    ultimately show ?thesis using True k assms(2) [OF k(1)] by auto
  next
    case False
    then obtain z where z: "update_intent iid g as = Some z" "map_sum id ((#) a) z = Inr js"
      using Cons.prems by auto
    then obtain js' where "update_intent iid g as = Some (Inr js')" and js: "js = a # js'"
      by (cases z) auto
    from Cons.IH [OF this(1)] show ?thesis using False js by auto
  qed
qed

lemma find_trunc_intent:
  "List.find (\<lambda>i. pi_intent_id i = iid) (map trunc_intent is)
     = map_option trunc_intent (List.find (\<lambda>i. pi_intent_id i = iid) is)"
  by (induction "is") (auto simp: trunc_intent_def)

lemma trunc_intent_simps [simp]:
  "pi_intent_id (trunc_intent i) = pi_intent_id i" "pi_kind (trunc_intent i) = pi_kind i"
  "pi_required (trunc_intent i) = pi_required i" "pi_status (trunc_intent i) = pi_status i"
  "pi_claim_owner (trunc_intent i) = pi_claim_owner i" "pi_attempt_count (trunc_intent i) = pi_attempt_count i"
  "pi_blocked_reason (trunc_intent i) = pi_blocked_reason i"
  "intent_identity (trunc_intent i) = intent_identity i"
  by (simp_all add: trunc_intent_def intent_identity_def)

lemma candidate_outbox:
  "normalize_run (with_command cmd r) = Inr cand \<Longrightarrow>
     run_projection_outbox cand = map trunc_intent (run_projection_outbox r)"
  by (auto simp: normalize_run_iff truncate_run_def with_command_def)

lemma intent_op_answer:
  assumes "intent_op s rid iid e cmd g = (Inr (oc, Some x), s')"
  shows "\<exists>cur. load s rid = Inr (Some cur) \<and> (s' = s \<and> x = cur \<and> oc \<noteq> Accepted
    \<or> (\<exists>is. oc = Accepted \<and> run_state_version cur = e
         \<and> update_intent iid g (run_projection_outbox cur) = Some (Inr is)
         \<and> run_projection_outbox x = map trunc_intent is \<and> run_snapshot s' x \<and> run_id x = rid))"
proof -
  obtain cur where cur: "load s rid = Inr (Some cur)"
    using assms by (auto simp: intent_op_def with_load_def split: sum.splits option.splits)
  have id: "run_id cur = rid" using load_core [OF cur] by simp
  show ?thesis
  proof (cases "run_state_version cur = e \<and> (\<exists>is. update_intent iid g (run_projection_outbox cur) = Some (Inr is))")
    case False
    then show ?thesis using assms cur
      by (auto simp: intent_op_def with_load_def split: if_splits option.splits sum.splits)
  next
    case True
    then obtain "is" where up: "update_intent iid g (run_projection_outbox cur) = Some (Inr is)" by blast
    define r where "r = cur\<lparr>run_projection_outbox := is, run_state_version := e + 1\<rparr>"
    have now: "cas_now s r e cmd = (Inr (oc, Some x), s')"
      using assms cur True up by (simp add: intent_op_def with_load_def r_def)
    have "load s (run_id r) = Inr (Some cur)" using cur id by (simp add: r_def)
    from cas_now_answer [OF now this] show ?thesis
    proof
      assume "\<exists>cand y. oc = Accepted \<and> cas_writes cur s r e cmd cand \<and> wrote s cand s'
         \<and> Some x = Some y \<and> run_core y = run_core cand \<and> run_id y = run_id r"
      then obtain cand where w: "oc = Accepted" "cas_writes cur s r e cmd cand" "wrote s cand s'"
        "run_core x = run_core cand" "run_id x = run_id r" by blast
      have "normalize_run (with_command cmd r) = Inr cand" using w(2) by (simp add: cas_writes_def)
      then have "run_projection_outbox x = map trunc_intent is"
        using candidate_outbox core_fields(1) [OF w(4)] by (simp add: r_def)
      moreover have "run_snapshot s' x" using wrote_snapshot [OF w(2-5)] .
      ultimately show ?thesis using cur True up w(1,5) id by (auto simp: r_def)
    qed (use cur in auto)
  qed
qed

lemma held_back_update:
  assumes "\<forall>j \<in> set js. pi_intent_id j \<noteq> pi_intent_id i' \<longrightarrow> j \<in> set is"
    and "run_projection_outbox x = map trunc_intent js" and "run_projection_outbox c = is"
    and "pi_intent_id i' = pi_intent_id i" and "pi_kind i' = pi_kind i" and "\<not> held_back c i"
  shows "\<not> held_back x i'"
  using assms by (fastforce simp: held_back_def list_ex_iff)

text \<open>The claim of a Run that was checked earlier keeps the check true, whatever happened between:
  the version of the checked Run fences it.\<close>

lemma claim_keeps_check:
  assumes snap: "run_snapshot s c" and iid: "find_intent (Some c) iid = Some i" "pi_status i = IntPending"
    and held: "\<not> held_back c i"
    and claim: "claim_intent s (run_id c) iid (run_state_version c) owner lease = (Inr (oc, Some x), s')"
    and claimed: "find_intent (Some x) iid = Some i'" "pi_status i' = IntClaimed"
    and oc: "oc \<in> {Accepted, Replayed}"
  shows "\<not> held_back x i' \<and> pi_claim_owner i' = Some owner"
proof -
  obtain cur where cur: "load s (run_id c) = Inr (Some cur)"
    and answer: "s' = s \<and> x = cur \<and> oc \<noteq> Accepted \<or> (\<exists>js. oc = Accepted
      \<and> run_state_version cur = run_state_version c
      \<and> update_intent iid (\<lambda>i. transition_intent i IntClaimed (Some owner) (Some lease) None None)
          (run_projection_outbox cur) = Some (Inr js)
      \<and> run_projection_outbox x = map trunc_intent js \<and> run_snapshot s' x \<and> run_id x = run_id c)"
    using intent_op_answer [OF claim [unfolded claim_intent_def]] by blast
  show ?thesis
  proof (cases "run_state_version cur = run_state_version c")
    case True
    have out: "run_projection_outbox cur = run_projection_outbox c"
      using core_fields(1) same_version_same_core [OF snap cur True] by blast
    from answer show ?thesis
    proof
      assume "s' = s \<and> x = cur \<and> oc \<noteq> Accepted"
      then have "i' = i" using claimed(1) iid(1) out by (simp add: find_intent_def)
      then show ?thesis using iid(2) claimed(2) by simp
    next
      assume "\<exists>js. oc = Accepted \<and> run_state_version cur = run_state_version c
        \<and> update_intent iid (\<lambda>i. transition_intent i IntClaimed (Some owner) (Some lease) None None)
            (run_projection_outbox cur) = Some (Inr js)
        \<and> run_projection_outbox x = map trunc_intent js \<and> run_snapshot s' x \<and> run_id x = run_id c"
      then obtain js where js: "update_intent iid
            (\<lambda>i. transition_intent i IntClaimed (Some owner) (Some lease) None None)
            (run_projection_outbox c) = Some (Inr js)" "run_projection_outbox x = map trunc_intent js"
        by (auto simp: out)
      obtain k where k: "transition_intent i IntClaimed (Some owner) (Some lease) None None = Inr k"
          "List.find (\<lambda>i. pi_intent_id i = iid) js = Some k"
          "\<forall>j \<in> set js. pi_intent_id j \<noteq> iid \<longrightarrow> j \<in> set (run_projection_outbox c)"
        using update_intent_find [OF js(1)] transition_intent_role iid(1) by (auto simp: find_intent_def)
      have i': "i' = trunc_intent k" using claimed(1) js(2) k(2) by (simp add: find_intent_def find_trunc_intent)
      have role: "pi_intent_id i' = iid" "pi_intent_id i = iid" "pi_kind i' = pi_kind i"
        using transition_intent_role [OF k(1)] iid(1) find_Some i'
        by (fastforce simp: intent_role_def find_intent_def)+
      have "\<not> held_back x i'"
        by (rule held_back_update [OF _ js(2) refl _ role(3) held]) (use k(3) role in auto)
      moreover have "pi_claim_owner i' = Some owner"
        using k(1) i' by (auto simp: transition_intent_Inr_iff)
      ultimately show ?thesis ..
    qed
  next
    case False
    then have "intent_op s (run_id c) iid (run_state_version c) cmd g = (Inr (Conflict, Some cur), s)" for cmd g
      using cur by (simp add: intent_op_def with_load_def)
    then show ?thesis using claim oc by (simp add: claim_intent_def)
  qed
qed

section \<open>The worker among others\<close>

definition sound_store :: "run_store \<Rightarrow> bool" where
  "sound_store s \<longleftrightarrow> st_dedicated s \<and> (\<exists>h. store_history (s # h))"

definition succeeds :: "run_store \<Rightarrow> run_store \<Rightarrow> bool" where
  "succeeds s s' \<longleftrightarrow> sound_store s' \<and> (\<forall>c. run_snapshot s c \<longrightarrow> run_snapshot s' c)"

lemma succeeds_leads:
  assumes "sound_store s" and "\<And>h. store_history (s # h) \<Longrightarrow> leads (s # h) s'"
  shows "succeeds s s'"
proof -
  obtain h where h: "store_history (s # h)" "st_dedicated s" using assms(1) by (auto simp: sound_store_def)
  obtain h' where h': "store_history (h' @ s # h)" "hd (h' @ s # h) = s'"
    using assms(2) [OF h(1)] by (auto simp: leads_def)
  have "st_dedicated s'" using history_dedicated [OF h'(1)] history_dedicated [OF h(1)] h h' by simp
  moreover have "\<exists>t. store_history (s' # t)" using h' by (metis append_is_Nil_conv list.collapse list.distinct(1))
  ultimately show ?thesis
    using snapshot_leads [OF h(1) _ assms(2) [OF h(1)]] by (simp add: succeeds_def sound_store_def)
qed

lemma succeeds_trans: "succeeds s t \<Longrightarrow> succeeds t u \<Longrightarrow> succeeds s u"
  by (simp add: succeeds_def)

lemma succeeds_refl: "sound_store s \<Longrightarrow> succeeds s s"
  by (simp add: succeeds_def)

lemma succeeds_sound: "succeeds s t \<Longrightarrow> sound_store t"
  by (simp add: succeeds_def)

lemma others_succeed: "sound_store (ow_store w) \<Longrightarrow> succeeds (ow_store w) (others_act f w)"
  unfolding others_act_def
  by (rule succeeds_leads) (auto simp: sound_store_def intro: leads_execute_all)

lemma call_store_simps [simp]:
  "ow_projected (snd (call_store f op w)) = ow_projected w"
  "ow_store (snd (call_store f op w)) = snd (op (others_act f w))"
  "fst (call_store f op w) = fst (op (others_act f w))"
  by (simp_all add: call_store_def split: prod.split)

lemma read_answer:
  assumes "call_store f (read_run rid) w = (Inr (Some r), w')" and "sound_store (ow_store w)"
  shows "sound_store (ow_store w') \<and> run_snapshot (ow_store w') r \<and> run_id r = rid
    \<and> ow_projected w' = ow_projected w"
proof -
  have s: "ow_store w' = others_act f w" "load (others_act f w) rid = Inr (Some r)"
    and p: "ow_projected w' = ow_projected w"
    using assms(1) call_store_simps [of f "read_run rid" w] by (auto simp: read_run_def)
  have "sound_store (others_act f w)" using others_succeed [OF assms(2)] succeeds_sound by blast
  then show ?thesis using s p load_core [OF s(2)] fresh_load_fenced [OF s(2)] by simp
qed

lemma release_answer:
  assumes "release_intent s rid iid e owner next_at now = (Inr (oc, Some x), s')"
  shows "run_snapshot s' x \<and> run_id x = rid"
proof -
  have loaded: "run_snapshot s y \<and> run_id y = rid" if "load s rid = Inr (Some y)" for y
    using fresh_load_fenced [OF that] load_core [OF that] by simp
  have op: "run_snapshot s' x \<and> run_id x = rid"
    if "intent_op s rid iid e cmd g = (Inr (oc, Some x), s')" for cmd g
    using intent_op_answer [OF that] loaded by blast
  show ?thesis using assms loaded op
    by (auto simp: release_intent_def with_load_def Let_def split: sum.splits option.splits if_splits)
qed

lemma reopen_answer:
  assumes "reopen_claimed f wk rid r i now w = (Inr (Some (r', i')), w')"
    and "sound_store (ow_store w)" and "run_snapshot (ow_store w) r" and "run_id r = rid"
    and "find_intent (Some r) iid = Some i"
  shows "sound_store (ow_store w') \<and> run_snapshot (ow_store w') r' \<and> run_id r' = rid
    \<and> find_intent (Some r') iid = Some i' \<and> ow_projected w' = ow_projected w"
proof (cases "pi_status i = IntClaimed")
  case False
  then show ?thesis using assms by (simp add: reopen_claimed_def)
next
  case True
  have iid: "pi_intent_id i = iid" using assms(5) find_Some by (fastforce simp: find_intent_def)
  let ?op = "\<lambda>s. release_intent s rid iid (run_state_version r)
    (if truthy_str (pi_claim_owner i) then the (pi_claim_owner i) else wk_id wk) now now"
  obtain oc x where c: "call_store f ?op w = (Inr (oc, Some x), w')" "r' = x"
      "find_intent (Some x) iid = Some i'"
    using assms(1) True
    by (auto simp: reopen_claimed_def iid split: if_splits prod.splits sum.splits option.splits)
  have s: "?op (others_act f w) = (Inr (oc, Some x), ow_store w')" and p: "ow_projected w' = ow_projected w"
    using c(1) call_store_simps [of f ?op w] by (auto simp: prod_eq_iff)
  have o: "sound_store (others_act f w)" using others_succeed [OF assms(2)] succeeds_sound by blast
  have "succeeds (others_act f w) (ow_store w')"
  proof (rule succeeds_leads [OF o])
    fix h assume "store_history (others_act f w # h)"
    from leads_intents(4) [OF this] show "leads (others_act f w # h) (ow_store w')" by (metis s snd_conv)
  qed
  then show ?thesis using release_answer [OF s] c p succeeds_sound by simp
qed

lemma call_log: "call_store f op w = (a, w') \<Longrightarrow> ow_projected w' = ow_projected w"
  using call_store_simps(1) [of f op w] by simp

lemma settle_run_log: "settle_run f r now w = (a, w') \<Longrightarrow> ow_projected w' = ow_projected w"
  by (auto simp: settle_run_def dest!: call_log split: prod.splits outcome.splits sum.splits)

lemma settle_and_notify_log: "settle_and_notify f wk i now r w = (a, w') \<Longrightarrow> ow_projected w' = ow_projected w"
  by (auto simp: settle_and_notify_def notify_listener_def dest: settle_run_log
      split: prod.splits sum.splits)

lemma project_claimed_log:
  assumes "project_claimed f wk rid r i now w = (a, w')"
  shows "ow_projected w' = ow_projected w \<or> ow_projected w' = ow_projected w @ [(i, r)]"
proof -
  have "ow_projected w' = ow_projected (record_projection wk i r w)"
    using assms
    by (auto simp: project_claimed_def acknowledge_def give_up_def back_off_def Let_def
        dest!: settle_and_notify_log settle_run_log call_log split: prod.splits sum.splits if_splits)
  then show ?thesis by (auto simp: record_projection_def)
qed

lemma reopen_log: "reopen_claimed f wk rid r i now w = (a, w') \<Longrightarrow> ow_projected w' = ow_projected w"
  by (auto simp: reopen_claimed_def dest!: call_log split: if_splits prod.splits sum.splits option.splits)

lemma claim_and_project_log:
  assumes "claim_and_project f wk rid r i now w = (res, w')" and "ow_projected w' \<noteq> ow_projected w"
  obtains oc x i' w1 where "pi_status i = IntPending" and "\<not> held_back r i"
    and "call_store f (\<lambda>s. claim_intent s rid (pi_intent_id i) (run_state_version r) (wk_id wk)
        (now + wk_lease wk)) w = (Inr (oc, Some x), w1)"
    and "oc \<in> {Accepted, Replayed}" and "find_intent (Some x) (pi_intent_id i) = Some i'"
    and "pi_status i' = IntClaimed" and "project_claimed f wk rid x i' now w1 = (res, w')"
  using assms call_log [of f "\<lambda>s. claim_intent s rid (pi_intent_id i) (run_state_version r) (wk_id wk)
        (now + wk_lease wk)" w]
  by (auto simp: claim_and_project_def split: if_splits prod.splits sum.splits option.splits)

text \<open>
  C6: The public terminal status is published last, whatever other actors do. In any sound store,
  with any operations of others between any two store calls of the worker, processing an intent
  calls a projector at most once, on an intent the worker has claimed, and never projects the
  terminal status of a Run one of whose other required intents is not completed.
\<close>

theorem publication_waits_for_delivery:
  assumes "sound_store (ow_store w)" and "process_intent f wk rid iid now w = (res, w')"
  shows "\<exists>calls. ow_projected w' = ow_projected w @ calls \<and> length calls \<le> 1
    \<and> list_all (\<lambda>(i, r). find_intent (Some r) iid = Some i \<and> pi_status i = IntClaimed
         \<and> pi_claim_owner i = Some (wk_id wk)
         \<and> (pi_kind i = ''project_terminal_run_status'' \<longrightarrow> list_all (\<lambda>j. pi_required j
              \<longrightarrow> pi_intent_id j = pi_intent_id i \<or> pi_status j = IntCompleted) (run_projection_outbox r))) calls"
proof (cases "ow_projected w' = ow_projected w")
  case True
  then show ?thesis by (intro exI [of _ "[]"]) simp
next
  case False
  then obtain r i w1 where r: "call_store f (read_run rid) w = (Inr (Some r), w1)"
      "find_intent (Some r) iid = Some i"
    using assms(2) call_log [of f "read_run rid" w]
    by (auto simp: process_intent_def split: prod.splits sum.splits option.splits)
  note r_ok = read_answer [OF r(1) assms(1)]
  have log1: "ow_projected w1 = ow_projected w" using r_ok by simp
  obtain a w2 where a: "reopen_claimed f wk rid r i now w1 = (a, w2)" by force
  from assms(2) r False log1 reopen_log [OF a] obtain r' i' where a': "a = Inr (Some (r', i'))"
    and rest: "claim_and_project f wk rid r' i' now w2 = (res, w')"
    by (auto simp: process_intent_def a split: if_splits sum.splits option.splits)
  have r': "sound_store (ow_store w2)" "run_snapshot (ow_store w2) r'" "run_id r' = rid"
      "find_intent (Some r') iid = Some i'" "ow_projected w2 = ow_projected w"
    using reopen_answer [OF a [unfolded a']] r_ok r(2) by auto
  have iid: "pi_intent_id i' = iid" using r'(4) find_Some by (fastforce simp: find_intent_def)
  have changed: "ow_projected w' \<noteq> ow_projected w2" using False r'(5) by simp
  obtain oc x i2 w3 where
    pre: "pi_status i' = IntPending" "\<not> held_back r' i'"
    and claim: "call_store f (\<lambda>s. claim_intent s rid iid (run_state_version r') (wk_id wk)
        (now + wk_lease wk)) w2 = (Inr (oc, Some x), w3)" "oc \<in> {Accepted, Replayed}"
    and i2: "find_intent (Some x) iid = Some i2" "pi_status i2 = IntClaimed"
    and proj: "project_claimed f wk rid x i2 now w3 = (res, w')"
    by (rule claim_and_project_log [OF rest changed, unfolded iid])
  have s: "claim_intent (others_act f w2) rid iid (run_state_version r') (wk_id wk) (now + wk_lease wk)
      = (Inr (oc, Some x), ow_store w3)"
    using claim(1) by (auto simp: call_store_def split: prod.splits)
  have "run_snapshot (others_act f w2) r'" using others_succeed [OF r'(1)] r'(2) by (simp add: succeeds_def)
  from claim_keeps_check [OF this r'(4) pre _ i2 claim(2)] s r'(3)
  have ok: "\<not> held_back x i2 \<and> pi_claim_owner i2 = Some (wk_id wk)" by blast
  have "ow_projected w' = ow_projected w @ [(i2, x)]"
    using project_claimed_log [OF proj] call_log [OF claim(1)] r'(5) False by simp
  moreover have "pi_kind i2 = ''project_terminal_run_status'' \<longrightarrow> list_all (\<lambda>j. pi_required j
      \<longrightarrow> pi_intent_id j = pi_intent_id i2 \<or> pi_status j = IntCompleted) (run_projection_outbox x)"
    using ok by (auto simp: held_back_def list_all_iff list_ex_iff)
  ultimately show ?thesis using i2 ok by (intro exI [of _ "[(i2, x)]"]) simp
qed

theorem publication_waits_for_delivery_witness:
  "\<exists>calls. ow_projected (snd (process_intent (\<lambda>t. []) sample_worker ''run'' ''i1'' 5
       \<lparr>ow_store = store_one, ow_others = [[ReqRepair 3 1]], ow_projected = [], ow_notified = []\<rparr>)) = calls
     \<and> length calls \<le> 1"
proof -
  let ?w = "\<lparr>ow_store = store_one, ow_others = [[ReqRepair 3 1]], ow_projected = [], ow_notified = []\<rparr>"
  have "sound_store (ow_store ?w)"
    using store_one_history by (auto simp: sound_store_def store_one_def)
  from publication_waits_for_delivery [OF this, of "\<lambda>t. []" sample_worker "''run''" "''i1''" 5
      "fst (process_intent (\<lambda>t. []) sample_worker ''run'' ''i1'' 5 ?w)"
      "snd (process_intent (\<lambda>t. []) sample_worker ''run'' ''i1'' 5 ?w)"]
  show ?thesis by auto
qed

end
