(* ===== verification/Outbox_Progress.thy ===== *)
theory Outbox_Progress
  imports Outbox_Properties
begin

text \<open>
  One pass of the worker over a pending intent, undisturbed: what the store holds afterwards, on
  each of its three branches, and that the Run's projection state is then current.
\<close>

section \<open>A write of the outbox is accepted\<close>

text \<open>The shape of every write the worker makes.\<close>

definition outbox_step :: "run_state \<Rightarrow> projection_intent list \<Rightarrow> projection_state \<Rightarrow> datetime \<Rightarrow> run_state" where
  "outbox_step c js ps tm = c\<lparr>run_projection_outbox := js, run_projection_state := ps,
     run_state_version := run_state_version c + 1, run_updated_at := tm\<rparr>"

definition same_intents :: "projection_intent list \<Rightarrow> projection_intent list \<Rightarrow> bool" where
  "same_intents js is \<longleftrightarrow> map pi_intent_id js = map pi_intent_id is
     \<and> first_error (map intent_error js) = None"

lemma outbox_step_valid:
  assumes "valid_run c" and "same_intents js (run_projection_outbox c)"
  shows "valid_run (with_command cmd (outbox_step c js ps tm))"
proof -
  let ?r = "with_command cmd (outbox_step c js ps tm)"
  have e: "run_entries ?r = run_entries c"
    by (simp add: run_entries_def outbox_step_def with_command_def)
  have f: "run_field_error ?r = None"
    using assms by (simp add: valid_run_parts run_field_error_None_iff outbox_step_def with_command_def
        same_intents_def)
  have t: "terminal_error ?r = terminal_error c"
    unfolding terminal_error_def e by (simp add: outbox_step_def with_command_def)
  have x: "cancellation_error ?r = cancellation_error c"
    by (simp add: cancellation_error_def outbox_step_def with_command_def)
  show ?thesis using assms unfolding valid_run_parts e t x
    by (simp add: f) (simp add: outbox_step_def with_command_def same_intents_def)
qed

text \<open>\<open>stored s rid c\<close>: the sound store \<open>s\<close> holds the Run \<open>c\<close>, but for its recovery claim. Timestamps are
  stored cut to milliseconds, which the cancellation guard relies on.\<close>

definition stored :: "run_store \<Rightarrow> string \<Rightarrow> run_state \<Rightarrow> bool" where
  "stored s rid c \<longleftrightarrow> runs_ok s \<and> claims_ok s \<and> valid_run c \<and> run_id c = rid
     \<and> opt_millis (run_cancellation_requested_at c) = run_cancellation_requested_at c
     \<and> (\<exists>cur. load s rid = Inr (Some cur) \<and> run_core cur = run_core c)"

lemma core_shape:
  assumes "run_core x = run_core y"
  shows "run_id x = run_id y" "run_conversation_id x = run_conversation_id y"
    "run_client_request_id x = run_client_request_id y" "cancellation_metadata x = cancellation_metadata y"
proof -
  from arg_cong [OF assms, of run_id] arg_cong [OF assms, of run_conversation_id]
    arg_cong [OF assms, of run_client_request_id] arg_cong [OF assms, of cancellation_metadata]
  show "run_id x = run_id y" "run_conversation_id x = run_conversation_id y"
    "run_client_request_id x = run_client_request_id y" "cancellation_metadata x = cancellation_metadata y"
    by (simp_all add: run_core_def cancellation_metadata_def)
qed

lemma stored_no_clash:
  assumes "stored s rid c" and "run_id x = rid" and "run_conversation_id x = run_conversation_id c"
    and "run_client_request_id x = run_client_request_id c" and "run_st x = run_st c"
  shows "\<not> index_violation s x"
proof -
  obtain cur d where "load s rid = Inr (Some cur)" "run_core cur = run_core c"
    and d: "find_run s rid = Some d" "run_core cur = run_core d"
    using assms(1) load_core unfolding stored_def by blast
  then have core: "run_core d = run_core c" by simp
  have clash: "index_clash a x = index_clash a d" for a
    using assms(3-5) core_shape [OF core] core_fields(2) [OF core] by (simp add: index_clash_def)
  have d': "d \<in> set (st_runs s)" "run_id d = rid" using find_run_Some [OF d(1)] by auto
  then have "\<not> index_clash a d" if "a \<in> set (st_runs s)" "run_id a \<noteq> rid" for a
    using assms(1) that by (auto simp: stored_def runs_ok_def)
  then show ?thesis using assms(2) by (auto simp: index_violation_def list_ex_iff clash)
qed

definition candidate :: "string \<Rightarrow> run_state \<Rightarrow> run_state" where
  "candidate cmd r = truncate_run (with_command cmd r)"

lemma stored_writes:
  assumes "stored s rid c" and "load s rid = Inr (Some cur)" and "cmd \<notin> set (run_processed_command_ids c)"
    and "same_intents js (run_projection_outbox c)"
  shows "cas_writes cur s (outbox_step c js ps tm) (run_state_version c) cmd
    (candidate cmd (outbox_step c js ps tm))"
proof -
  let ?r = "outbox_step c js ps tm"
  have core: "run_core cur = run_core c" and id: "run_id c = rid"
    using assms(1,2) by (auto simp: stored_def)
  obtain d where d: "find_run s rid = Some d" "run_core cur = run_core d"
    "run_state_version cur = run_state_version d" using load_core [OF assms(2)] by blast
  have "normalize_run (with_command cmd ?r) = Inr (candidate cmd ?r)"
    using outbox_step_valid [OF _ assms(4)] assms(1) by (simp add: stored_def normalize_run_iff candidate_def)
  moreover have "cancellation_transition_allowed cur (candidate cmd ?r)"
    using core_fields(2) [OF core] core_shape(4) [OF core] assms(1)
    by (auto simp: cancellation_transition_allowed_def candidate_def outbox_step_def with_command_def
        cancellation_metadata_def stored_def)
  moreover have "version_matches s (run_id ?r) (run_state_version c)"
    using d core_fields(3) [OF core] id by (simp add: version_matches_def outbox_step_def)
  moreover have "\<not> index_violation s (candidate cmd ?r)"
    by (rule stored_no_clash [OF assms(1)])
      (simp_all add: candidate_def outbox_step_def with_command_def id)
  ultimately show ?thesis
    using assms(3) core_fields(3,4) [OF core] by (simp add: cas_writes_def outbox_step_def)
qed

lemma overlay_valid:
  assumes "overlay_claim s' c = (Inr (oc, Some y), s'')" and "valid_run c" and "claims_ok s'"
  shows "valid_run y"
proof -
  have "valid_run (c\<lparr>run_recovery_claim := q\<rparr>)"
    if "load_claim s' (run_id c) = Some q" "rc_kind (run_recovery_claim c) = ClaimExecution" for q
  proof (rule valid_run_claim [OF assms(2)])
    show "recovery_claim_error q = None" using that(1) assms(3) by (simp add: claims_ok_def)
    show "run_st c = Canceling \<longrightarrow> rc_kind q = ClaimCancellation"
      using assms(2) that(2) by (auto simp: valid_run_parts cancellation_error_def)
  qed
  then show ?thesis using assms(1,2) by (auto simp: overlay_claim_def split: option.splits if_splits)
qed

text \<open>The write of the worker is accepted, and what it answers is what the store then holds.\<close>

lemma outbox_write_accepted:
  assumes "stored s rid c" and "cmd \<notin> set (run_processed_command_ids c)"
    and "same_intents js (run_projection_outbox c)"
  shows "\<exists>y s'. cas_now s (outbox_step c js ps tm) (run_state_version c) cmd = (Inr (Accepted, Some y), s')
    \<and> stored s' rid y \<and> run_core y = run_core (candidate cmd (outbox_step c js ps tm))"
proof -
  let ?r = "outbox_step c js ps tm"
  obtain cur where cur: "load s rid = Inr (Some cur)" using assms(1) by (auto simp: stored_def)
  note w = stored_writes [OF assms(1) cur assms(2,3), of ps tm]
  have id: "run_id ?r = rid" using assms(1) by (simp add: stored_def outbox_step_def)
  obtain y s' where now: "cas_now s ?r (run_state_version c) cmd = (Inr (Accepted, Some y), s')"
    using cas_now_accepts [OF _ w] cur id by auto
  have y: "wrote s (candidate cmd ?r) s'" "run_core y = run_core (candidate cmd ?r)" "run_id y = rid"
    using cas_now_answer [OF now, of cur] cur id w by (auto simp: cas_writes_def)
  have ok: "runs_ok s'" "claims_ok s'"
    using cas_keeps_ok [of s s NoFault ?r "run_state_version c" cmd] now assms(1)
    by (simp_all add: cas_now_def stored_def)
  have "overlay_claim (replace_run s (candidate cmd ?r)) (candidate cmd ?r) = (Inr (Accepted, Some y), s')"
    using now cur w id by (simp add: cas_now_def cas_mutate_def with_load_def cas_apply_def cas_writes_def)
  then have v: "valid_run y"
    by (rule overlay_valid) (use w assms(1) normalize_run_valid in \<open>auto simp: cas_writes_def stored_def\<close>)
  obtain d where "find_run s rid = Some d" using load_core [OF cur] by blast
  then obtain d' where d': "find_run s' rid = Some d'" "run_core d' = run_core (candidate cmd ?r)"
    using wrote_find [OF y(1)] id by (auto simp: candidate_def)
  then obtain z where "load s' rid = Inr (Some z)" "run_core z = run_core d'"
    using load_never_raises [OF ok, of rid] load_core by fastforce
  moreover have "opt_millis (run_cancellation_requested_at y) = run_cancellation_requested_at y"
    using core_shape(4) [OF y(2)] by (simp add: cancellation_metadata_def candidate_def)
  ultimately show ?thesis using now ok v y d' by (auto simp: stored_def)
qed

section \<open>One operation on one intent\<close>

definition set_intent :: "string \<Rightarrow> projection_intent \<Rightarrow> projection_intent list \<Rightarrow> projection_intent list" where
  "set_intent iid k is = map (\<lambda>j. if pi_intent_id j = iid then k else j) is"

lemma core_candidate:
  assumes "run_core a = run_core b"
  shows "run_core (candidate cmd (outbox_step a js ps tm)) = run_core (candidate cmd (outbox_step b js ps tm))"
proof -
  have a: "a = b\<lparr>run_recovery_claim := run_recovery_claim a\<rparr>"
    using assms by (cases a, cases b) (simp add: run_core_def)
  show ?thesis by (subst a) (simp add: run_core_def candidate_def truncate_run_def outbox_step_def with_command_def)
qed

lemma candidate_fields:
  assumes "run_core y = run_core (candidate cmd (outbox_step c js ps tm))"
    and "cmd \<notin> set (run_processed_command_ids c)"
  shows "run_projection_outbox y = map trunc_intent js" "run_st y = run_st c"
    "run_state_version y = run_state_version c + 1"
    "run_processed_command_ids y = run_processed_command_ids c @ [cmd]"
    "run_projection_state y = ps" "run_proposed_final_message_id y = run_proposed_final_message_id c"
    "run_id y = run_id c"
  using core_fields [OF assms(1)] core_shape(1) [OF assms(1)] assms(2)
  by (simp_all add: candidate_def truncate_run_def outbox_step_def with_command_def)

lemma stored_loaded:
  assumes "stored s rid c" and "load s rid = Inr (Some cur)"
  shows "stored s rid cur \<and> run_core cur = run_core c"
  using assms load_valid [OF assms(2)] load_core [OF assms(2)] core_shape(4) [of cur c]
  by (auto simp: stored_def cancellation_metadata_def)

lemma outbox_valid: "stored s rid c \<Longrightarrow> first_error (map intent_error (run_projection_outbox c)) = None"
  by (simp add: stored_def valid_run_parts run_field_error_None_iff)

lemma outbox_distinct: "stored s rid c \<Longrightarrow> distinct (map pi_intent_id (run_projection_outbox c))"
  by (simp add: stored_def valid_run_parts)

lemma update_intent_set:
  "List.find (\<lambda>i. pi_intent_id i = iid) is = Some i \<Longrightarrow> g i = Inr k \<Longrightarrow> distinct (map pi_intent_id is) \<Longrightarrow>
     update_intent iid g is = Some (Inr (set_intent iid k is))"
proof (induction "is")
  case Nil
  then show ?case by simp
next
  case (Cons a as)
  have "set_intent iid k as = as" if "iid \<notin> pi_intent_id ` set as"
    using that unfolding set_intent_def by (intro map_idI) auto
  then show ?case using Cons by (auto simp: set_intent_def split: if_splits)
qed

lemma set_intent_same:
  assumes "List.find (\<lambda>i. pi_intent_id i = iid) is = Some i" and "pi_intent_id k = iid"
    and "first_error (map intent_error is) = None" and "intent_error k = None"
  shows "same_intents (set_intent iid k is) is"
  using assms by (auto simp: same_intents_def set_intent_def first_error_None)

lemma quiet_intent_op:
  assumes "stored s rid c" and "find_intent (Some c) iid = Some i" and "transition_intent i to owner lease reason nxt = Inr k"
    and "cmd \<notin> set (run_processed_command_ids c)"
  shows "\<exists>y s'. intent_op s rid iid (run_state_version c) cmd
       (\<lambda>i. transition_intent i to owner lease reason nxt) = (Inr (Accepted, Some y), s')
    \<and> stored s' rid y \<and> run_core y = run_core (candidate cmd (outbox_step c
        (set_intent iid k (run_projection_outbox c)) (run_projection_state c) (run_updated_at c)))"
proof -
  obtain cur where cur: "load s rid = Inr (Some cur)" using assms(1) by (auto simp: stored_def)
  have st: "stored s rid cur" and core: "run_core cur = run_core c"
    using stored_loaded [OF assms(1) cur] by auto
  note fields = core_fields [OF core]
  have same_at: "run_updated_at cur = run_updated_at c" using arg_cong [OF core, of run_updated_at] by (simp add: run_core_def)
  let ?js = "set_intent iid k (run_projection_outbox cur)"
  have found: "List.find (\<lambda>i. pi_intent_id i = iid) (run_projection_outbox cur) = Some i"
    using assms(2) fields(1) by (simp add: find_intent_def)
  have up: "update_intent iid (\<lambda>i. transition_intent i to owner lease reason nxt) (run_projection_outbox cur)
      = Some (Inr ?js)"
    by (rule update_intent_set [OF found _ outbox_distinct [OF st]]) (rule assms(3))
  have k: "pi_intent_id k = iid" "intent_error k = None"
    using assms(3) found find_Some [OF found] outbox_valid [OF st]
    by (auto simp: transition_intent_Inr_iff first_error_None intent_error_def)
  have "cmd \<notin> set (run_processed_command_ids cur)" using assms(4) fields(4) by simp
  from outbox_write_accepted [OF st this set_intent_same [OF found k(1) outbox_valid [OF st] k(2)],
      of "run_projection_state cur" "run_updated_at cur"]
  obtain y s' where y: "cas_now s (outbox_step cur ?js (run_projection_state cur) (run_updated_at cur))
        (run_state_version cur) cmd = (Inr (Accepted, Some y), s')" "stored s' rid y"
      "run_core y = run_core (candidate cmd (outbox_step cur ?js (run_projection_state cur) (run_updated_at cur)))"
    by blast
  have "cur\<lparr>run_projection_outbox := ?js, run_state_version := run_state_version cur + 1\<rparr>
      = outbox_step cur ?js (run_projection_state cur) (run_updated_at cur)"
    by (simp add: outbox_step_def)
  then have "intent_op s rid iid (run_state_version c) cmd (\<lambda>i. transition_intent i to owner lease reason nxt)
      = (Inr (Accepted, Some y), s')"
    using cur up y(1) fields(3) by (simp add: intent_op_def with_load_def)
  then show ?thesis using y core_candidate [OF core, of cmd] fields(1,5) same_at by auto
qed

section \<open>Settlement\<close>

definition settlement_current :: "run_state \<Rightarrow> bool" where
  "settlement_current r \<longleftrightarrow> run_projection_state r = (if has_mandatory_terminal_intents r
     then evaluate_projection_settlement (run_projection_outbox r) else ProjPending)"

lemma evaluate_trunc:
  assumes "map trunc_intent is = map trunc_intent js"
  shows "evaluate_projection_settlement is = evaluate_projection_settlement js"
proof -
  have e: "evaluate_projection_settlement (map trunc_intent xs) = evaluate_projection_settlement xs" for xs
    by (simp add: evaluate_projection_settlement_def filter_map comp_def list_ex_map Let_def)
  from e [of "is"] e [of js] assms show ?thesis by simp
qed

lemma settlement_current_cong:
  assumes "map trunc_intent (run_projection_outbox a) = map trunc_intent (run_projection_outbox b)"
    and "run_st a = run_st b" and "run_proposed_final_message_id a = run_proposed_final_message_id b"
    and "run_projection_state a = run_projection_state b"
  shows "settlement_current a = settlement_current b"
proof -
  have "map intent_identity (map trunc_intent is) = map intent_identity is" for "is" by simp
  then have "map intent_identity (run_projection_outbox a) = map intent_identity (run_projection_outbox b)"
    using assms(1) by metis
  from has_mandatory_identity [OF this assms(2,3)] evaluate_trunc [OF assms(1)] assms(4)
  show ?thesis by (simp add: settlement_current_def)
qed

lemma call_quiet:
  "ow_others w = [] \<Longrightarrow> op (ow_store w) = (a, s') \<Longrightarrow> call_store f op w = (a, w\<lparr>ow_store := s'\<rparr>)"
  by (simp add: call_store_def others_act_def)

lemma trunc_intent_idem [simp]: "trunc_intent (trunc_intent i) = trunc_intent i"
  by (simp add: trunc_intent_def)

lemma settle_quiet:
  assumes "stored (ow_store w) rid x" and "ow_others w = []"
    and "settle_command x \<notin> set (run_processed_command_ids x)"
  shows "\<exists>y s'. settle_run f x now w = (Inr y, w\<lparr>ow_store := s'\<rparr>) \<and> stored s' rid y
    \<and> map trunc_intent (run_projection_outbox y) = map trunc_intent (run_projection_outbox x)
    \<and> run_st y = run_st x \<and> run_proposed_final_message_id y = run_proposed_final_message_id x
    \<and> (is_terminal_status (run_st x) \<longrightarrow> settlement_current y)"
proof -
  define st where "st = (if has_mandatory_terminal_intents x
    then evaluate_projection_settlement (run_projection_outbox x) else ProjPending)"
  show ?thesis
  proof (cases "is_terminal_status (run_st x) \<and> st \<noteq> run_projection_state x")
    case False
    then have "settle_run f x now w = (Inr x, w)"
      by (auto simp: settle_run_def transition_projection_settlement_def st_def Let_def)
    moreover have "is_terminal_status (run_st x) \<longrightarrow> settlement_current x"
      using False by (auto simp: settlement_current_def st_def)
    ultimately show ?thesis using assms(1) by (intro exI [of _ x] exI [of _ "ow_store w"]) simp
  next
    case True
    let ?r = "outbox_step x (run_projection_outbox x) st now"
    have t: "transition_projection_settlement x (run_state_version x) now = (Accepted, ?r)"
      using True by (simp add: transition_projection_settlement_def st_def Let_def outbox_step_def)
    have "same_intents (run_projection_outbox x) (run_projection_outbox x)"
      using outbox_valid [OF assms(1)] by (simp add: same_intents_def)
    from outbox_write_accepted [OF assms(1,3) this, of st now] obtain y s' where
      y: "cas_now (ow_store w) ?r (run_state_version x) (settle_command x) = (Inr (Accepted, Some y), s')"
        "stored s' rid y" "run_core y = run_core (candidate (settle_command x) ?r)" by blast
    note fy = candidate_fields [OF y(3) assms(3)]
    have "settle_run f x now w = (Inr y, w\<lparr>ow_store := s'\<rparr>)"
      using call_quiet [OF assms(2), of "\<lambda>s. cas_now s ?r (run_state_version x) (settle_command x)", OF y(1)]
      by (simp add: settle_run_def t)
    moreover have "settlement_current y"
    proof -
      let ?x = "x\<lparr>run_projection_state := st\<rparr>"
      have "settlement_current y = settlement_current ?x"
        by (rule settlement_current_cong) (simp_all add: fy)
      moreover have "has_mandatory_terminal_intents ?x = has_mandatory_terminal_intents x"
        by (rule has_mandatory_identity) simp_all
      ultimately show ?thesis by (simp add: settlement_current_def st_def)
    qed
    ultimately show ?thesis using y(2) fy(1,2,6) by (intro exI [of _ y] exI [of _ s']) (simp add: comp_def)
  qed
qed

section \<open>One pass\<close>

text \<open>The intent after one attempt whose projector answered \<open>oc\<close>.\<close>

definition attempted :: "outbox_worker \<Rightarrow> datetime \<Rightarrow> outcome \<Rightarrow> projection_intent \<Rightarrow> projection_intent" where
  "attempted wk now oc i =
     (let j = i\<lparr>pi_claim_owner := None, pi_claim_expires_at := None, pi_blocked_reason := None,
          pi_attempt_count := pi_attempt_count i + 1, pi_next_attempt_at := None\<rparr> in
      if oc \<in> {Accepted, Replayed} then j\<lparr>pi_status := IntCompleted\<rparr>
      else if wk_max_attempts wk \<le> pi_attempt_count j
        then j\<lparr>pi_status := IntBlocked, pi_blocked_reason := Some ''projection attempts exceeded''\<rparr>
      else j\<lparr>pi_status := IntPending, pi_next_attempt_at := Some (now + backoff_delay wk j)\<rparr>)"

text \<open>The command ids of the pass are new to the Run.\<close>

definition pass_commands :: "run_state \<Rightarrow> string \<Rightarrow> string list" where
  "pass_commands r iid = (let v = run_state_version r in
     [intent_command ''claim'' iid v, intent_command ''complete'' iid (v + 1),
      intent_command ''block'' iid (v + 1), intent_command ''release'' iid (v + 1),
      ''settle:'' @ run_id r @ '':'' @ show_int (v + 2)])"

definition claimed_by :: "outbox_worker \<Rightarrow> datetime \<Rightarrow> projection_intent \<Rightarrow> projection_intent" where
  "claimed_by wk now i = i\<lparr>pi_status := IntClaimed, pi_blocked_reason := None,
     pi_claim_owner := Some (wk_id wk), pi_claim_expires_at := Some (now + wk_lease wk),
     pi_attempt_count := pi_attempt_count i + 1, pi_next_attempt_at := None\<rparr>"

text \<open>A stored Run whose intent \<open>iid\<close> is claimed, as the claim of \<open>r\<close> leaves it.\<close>

definition after_claim :: "outbox_worker \<Rightarrow> datetime \<Rightarrow> run_state \<Rightarrow> string \<Rightarrow> projection_intent \<Rightarrow> run_state \<Rightarrow> bool" where
  "after_claim wk now r iid i y \<longleftrightarrow>
     run_projection_outbox y = map trunc_intent (set_intent iid (claimed_by wk now i) (run_projection_outbox r))
     \<and> run_st y = run_st r \<and> run_state_version y = run_state_version r + 1 \<and> run_id y = run_id r
     \<and> run_proposed_final_message_id y = run_proposed_final_message_id r
     \<and> run_processed_command_ids y
         = run_processed_command_ids r @ [intent_command ''claim'' iid (run_state_version r)]"

lemma find_set_intent:
  "List.find (\<lambda>i. pi_intent_id i = iid) is = Some i \<Longrightarrow> pi_intent_id k = iid \<Longrightarrow>
     List.find (\<lambda>i. pi_intent_id i = iid) (set_intent iid k is) = Some k"
  by (induction "is") (auto simp: set_intent_def split: if_splits)

lemma after_claim_find:
  assumes "after_claim wk now r iid i y" and "find_intent (Some r) iid = Some i"
  shows "find_intent (Some y) iid = Some (trunc_intent (claimed_by wk now i))"
proof -
  have f: "List.find (\<lambda>i. pi_intent_id i = iid) (run_projection_outbox r) = Some i"
    using assms(2) by (simp add: find_intent_def)
  have "pi_intent_id (claimed_by wk now i) = iid" using find_Some [OF f] by (simp add: claimed_by_def)
  from find_set_intent [OF f this] assms(1) show ?thesis
    by (simp add: find_intent_def after_claim_def find_trunc_intent)
qed

lemma set_intent_twice:
  assumes "pi_intent_id k = iid" and "trunc_intent k' = trunc_intent k''"
  shows "map trunc_intent (set_intent iid k' (map trunc_intent (set_intent iid k is)))
    = map trunc_intent (set_intent iid k'' is)"
  using assms by (induction "is") (auto simp: set_intent_def)

text \<open>The operations that end the claim, on a Run as the claim left it.\<close>

lemma end_claim:
  assumes "stored s rid y" and y: "after_claim wk now r iid i y" and "find_intent (Some r) iid = Some i"
    and "run_id r = rid"
    and cmd: "cmd \<notin> set (run_processed_command_ids y)"
    and k: "transition_intent (trunc_intent (claimed_by wk now i)) to None None reason nxt = Inr k"
    and k': "trunc_intent k = trunc_intent k'"
  shows "\<exists>z s'. intent_op s rid iid (run_state_version y) cmd
       (\<lambda>i. transition_intent i to None None reason nxt) = (Inr (Accepted, Some z), s')
    \<and> stored s' rid z \<and> run_projection_outbox z = map trunc_intent (set_intent iid k' (run_projection_outbox r))
    \<and> run_st z = run_st r \<and> run_state_version z = run_state_version r + 2
    \<and> run_proposed_final_message_id z = run_proposed_final_message_id r
    \<and> run_processed_command_ids z = run_processed_command_ids y @ [cmd]"
proof -
  from quiet_intent_op [OF assms(1) after_claim_find [OF y assms(3)] k cmd] obtain z s' where
    z: "intent_op s rid iid (run_state_version y) cmd (\<lambda>i. transition_intent i to None None reason nxt)
          = (Inr (Accepted, Some z), s')" "stored s' rid z"
       "run_core z = run_core (candidate cmd (outbox_step y (set_intent iid k (run_projection_outbox y))
          (run_projection_state y) (run_updated_at y)))" by blast
  note fz = candidate_fields [OF z(3) cmd]
  have "pi_intent_id (claimed_by wk now i) = iid"
    using assms(3) find_Some by (fastforce simp: find_intent_def claimed_by_def)
  from set_intent_twice [OF this k'] have
    "run_projection_outbox z = map trunc_intent (set_intent iid k' (run_projection_outbox r))"
    using fz(1) y by (simp add: after_claim_def)
  then show ?thesis using z(1,2) fz(2-4,6) y by (intro exI [of _ z] exI [of _ s']) (simp add: after_claim_def)
qed

lemma claim_quiet:
  assumes "stored s rid r" and "find_intent (Some r) iid = Some i" and "pi_status i = IntPending"
    and "intent_command ''claim'' iid (run_state_version r) \<notin> set (run_processed_command_ids r)"
  shows "\<exists>y s'. claim_intent s rid iid (run_state_version r) (wk_id wk) (now + wk_lease wk)
      = (Inr (Accepted, Some y), s') \<and> stored s' rid y \<and> after_claim wk now r iid i y"
proof -
  have "transition_intent i IntClaimed (Some (wk_id wk)) (Some (now + wk_lease wk)) None None
      = Inr (claimed_by wk now i)"
    using assms(3) by (simp add: transition_intent_Inr_iff transition_targets claimed_by_def)
  from quiet_intent_op [OF assms(1,2) this assms(4)] obtain y s' where
    y: "intent_op s rid iid (run_state_version r) (intent_command ''claim'' iid (run_state_version r))
         (\<lambda>i. transition_intent i IntClaimed (Some (wk_id wk)) (Some (now + wk_lease wk)) None None)
          = (Inr (Accepted, Some y), s')" "stored s' rid y"
       "run_core y = run_core (candidate (intent_command ''claim'' iid (run_state_version r))
          (outbox_step r (set_intent iid (claimed_by wk now i) (run_projection_outbox r))
            (run_projection_state r) (run_updated_at r)))" by blast
  from y candidate_fields [OF y(3) assms(4)] show ?thesis
    by (intro exI [of _ y] exI [of _ s']) (simp add: claim_intent_def after_claim_def)
qed

lemma ending_operations:
  assumes "stored s rid y" and "after_claim wk now r iid i y" and "find_intent (Some r) iid = Some i"
  shows "complete_intent s rid iid e (wk_id wk) = intent_op s rid iid e (intent_command ''complete'' iid e)
      (\<lambda>i. transition_intent i IntCompleted None None None None)"
    and "block_intent s rid iid e (wk_id wk) reason = intent_op s rid iid e (intent_command ''block'' iid e)
      (\<lambda>i. transition_intent i IntBlocked None None (Some reason) None)"
    and "release_intent s rid iid e (wk_id wk) nxt now' = intent_op s rid iid e (intent_command ''release'' iid e)
      (\<lambda>i. transition_intent i IntPending None None None (Some nxt))"
proof -
  obtain cur where cur: "load s rid = Inr (Some cur)" "run_core cur = run_core y"
    using assms(1) by (auto simp: stored_def)
  then have f: "find_intent (Some cur) iid = Some (trunc_intent (claimed_by wk now i))"
    using after_claim_find [OF assms(2,3)] core_fields(1) [OF cur(2)] by (simp add: find_intent_def)
  have owner: "pi_claim_owner (trunc_intent (claimed_by wk now i)) = Some (wk_id wk)"
    and status: "pi_status (trunc_intent (claimed_by wk now i)) = IntClaimed"
    by (simp_all add: claimed_by_def)
  show "complete_intent s rid iid e (wk_id wk) = intent_op s rid iid e (intent_command ''complete'' iid e)
      (\<lambda>i. transition_intent i IntCompleted None None None None)"
    unfolding complete_intent_def with_load_def cur(1) sum.case f option.case owner by simp
  show "block_intent s rid iid e (wk_id wk) reason = intent_op s rid iid e (intent_command ''block'' iid e)
      (\<lambda>i. transition_intent i IntBlocked None None (Some reason) None)"
    unfolding block_intent_def with_load_def cur(1) sum.case f option.case owner by simp
  show "release_intent s rid iid e (wk_id wk) nxt now' = intent_op s rid iid e (intent_command ''release'' iid e)
      (\<lambda>i. transition_intent i IntPending None None None (Some nxt))"
    unfolding release_intent_def with_load_def cur(1) sum.case f option.case owner status Let_def by simp
qed

definition pass_result :: "outbox_worker \<Rightarrow> datetime \<Rightarrow> outcome \<Rightarrow> run_state \<Rightarrow> string \<Rightarrow> projection_intent \<Rightarrow> run_state \<Rightarrow> bool" where
  "pass_result wk now oc r iid i z \<longleftrightarrow>
     map trunc_intent (run_projection_outbox z)
       = map trunc_intent (set_intent iid (attempted wk now oc i) (run_projection_outbox r))
     \<and> run_st z = run_st r \<and> run_proposed_final_message_id z = run_proposed_final_message_id r
     \<and> (if is_terminal_status (run_st r) \<and> pi_status (attempted wk now oc i) \<noteq> IntPending
        then settlement_current z else True)"

lemma settled_result:
  assumes "stored (ow_store w) rid x" and "ow_others w = []"
    and "settle_command x \<notin> set (run_processed_command_ids x)"
    and "run_projection_outbox x = map trunc_intent (set_intent iid (attempted wk now oc i) (run_projection_outbox r))"
    and "run_st x = run_st r" and "run_proposed_final_message_id x = run_proposed_final_message_id r"
  shows "\<exists>y s'. settle_run f x now w = (Inr y, w\<lparr>ow_store := s'\<rparr>) \<and> stored s' rid y
    \<and> pass_result wk now oc r iid i y"
proof -
  obtain y s' where y: "settle_run f x now w = (Inr y, w\<lparr>ow_store := s'\<rparr>)" "stored s' rid y"
    "map trunc_intent (run_projection_outbox y) = map trunc_intent (run_projection_outbox x)"
    "run_st y = run_st x" "run_proposed_final_message_id y = run_proposed_final_message_id x"
    "is_terminal_status (run_st x) \<longrightarrow> settlement_current y"
    using settle_quiet [OF assms(1-3)] by blast
  then show ?thesis using assms(4-6)
    by (intro exI [of _ y] exI [of _ s']) (simp add: pass_result_def comp_def)
qed

lemma notify_store [simp]: "ow_store (notify_listener wk i r w) = ow_store w"
  by (simp add: notify_listener_def)

lemma conclude_pass:
  assumes st: "stored (ow_store w) rid y" and y: "after_claim wk now r iid i y"
    and i: "find_intent (Some r) iid = Some i" and r: "run_id r = rid" and q: "ow_others w = []"
    and fresh: "list_all (\<lambda>c. c \<notin> set (run_processed_command_ids r)) (pass_commands r iid)"
    and oc: "run_projector wk (trunc_intent (claimed_by wk now i)) y = oc"
  shows "\<exists>z w'. project_claimed f wk rid y (trunc_intent (claimed_by wk now i)) now w
      = (Inr (oc \<in> {Accepted, Replayed}), w') \<and> stored (ow_store w') rid z \<and> pass_result wk now oc r iid i z"
proof -
  let ?i = "trunc_intent (claimed_by wk now i)" and ?v = "run_state_version r"
  define w1 where "w1 = record_projection wk ?i y w"
  have w1: "ow_store w1 = ow_store w" "ow_others w1 = []"
    using q by (auto simp: w1_def record_projection_def)
  have iid: "pi_intent_id ?i = iid" using i find_Some by (fastforce simp: find_intent_def claimed_by_def)
  have v: "run_state_version y = ?v + 1" and p: "run_processed_command_ids y
      = run_processed_command_ids r @ [intent_command ''claim'' iid ?v]"
    and idy: "run_id y = rid" using y r by (simp_all add: after_claim_def)
  have new: "intent_command ''complete'' iid (?v + 1) \<notin> set (run_processed_command_ids y)"
    "intent_command ''block'' iid (?v + 1) \<notin> set (run_processed_command_ids y)"
    "intent_command ''release'' iid (?v + 1) \<notin> set (run_processed_command_ids y)"
    using fresh unfolding p pass_commands_def Let_def
    by (simp_all add: intent_command_def)
  have settle_new: "settle_command z \<notin> set (run_processed_command_ids z)"
    if "stored s rid z" "run_state_version z = ?v + 2" "verb \<in> {''complete'', ''block''}"
      "run_processed_command_ids z = run_processed_command_ids y @ [intent_command verb iid (?v + 1)]" for s z verb
    using fresh that r unfolding p pass_commands_def Let_def
    by (auto simp: settle_command_def stored_def intent_command_def)
  note ops = ending_operations [OF st y i]
  consider (delivered) "oc \<in> {Accepted, Replayed}"
    | (blocked) "oc \<notin> {Accepted, Replayed}" "wk_max_attempts wk \<le> pi_attempt_count i + 1"
    | (released) "oc \<notin> {Accepted, Replayed}" "\<not> wk_max_attempts wk \<le> pi_attempt_count i + 1" by blast
  then show ?thesis
  proof cases
    case delivered
    let ?k = "attempted wk now oc i"
    have k: "transition_intent ?i IntCompleted None None None None = Inr (trunc_intent ?k)"
      using delivered by (simp add: transition_intent_Inr_iff transition_targets attempted_def claimed_by_def
          trunc_intent_def opt_millis_def)
    from end_claim [OF st y i r new(1) k, of ?k] obtain z s' where
      z: "complete_intent (ow_store w1) rid iid (?v + 1) (wk_id wk) = (Inr (Accepted, Some z), s')"
        "stored s' rid z" "run_projection_outbox z = map trunc_intent (set_intent iid ?k (run_projection_outbox r))"
        "run_st z = run_st r" "run_state_version z = ?v + 2"
        "run_processed_command_ids z = run_processed_command_ids y @ [intent_command ''complete'' iid (?v + 1)]"
        "run_proposed_final_message_id z = run_proposed_final_message_id r"
      using ops(1) v w1(1) by auto
    have call: "call_store f (\<lambda>s. complete_intent s rid iid (?v + 1) (wk_id wk)) w1
        = (Inr (Accepted, Some z), w1\<lparr>ow_store := s'\<rparr>)"
      by (rule call_quiet [OF w1(2)]) (simp only: z(1))
    obtain u t where u: "settle_run f z now (w1\<lparr>ow_store := s'\<rparr>) = (Inr u, w1\<lparr>ow_store := s', ow_store := t\<rparr>)"
        "stored t rid u" "pass_result wk now oc r iid i u"
      using settled_result [of "w1\<lparr>ow_store := s'\<rparr>" rid z iid wk now oc i r f] z(2-4,7)
        settle_new [OF z(2,5) _ z(6)] w1(2) by auto
    then show ?thesis using call delivered oc v iid
      by (simp add: project_claimed_def acknowledge_def settle_and_notify_def flip: w1_def) blast
  next
    case blocked
    let ?k = "attempted wk now oc i"
    have k: "transition_intent ?i IntBlocked None None (Some ''projection attempts exceeded'') None
        = Inr (trunc_intent ?k)"
      using blocked by (simp add: transition_intent_Inr_iff transition_targets attempted_def claimed_by_def
          trunc_intent_def opt_millis_def truthy_str_def)
    from end_claim [OF st y i r new(2) k, of ?k] obtain z s' where
      z: "block_intent (ow_store w1) rid iid (?v + 1) (wk_id wk) ''projection attempts exceeded''
          = (Inr (Accepted, Some z), s')"
        "stored s' rid z" "run_projection_outbox z = map trunc_intent (set_intent iid ?k (run_projection_outbox r))"
        "run_st z = run_st r" "run_state_version z = ?v + 2"
        "run_processed_command_ids z = run_processed_command_ids y @ [intent_command ''block'' iid (?v + 1)]"
        "run_proposed_final_message_id z = run_proposed_final_message_id r"
      using ops(2) v w1(1) by auto
    have call: "call_store f (\<lambda>s. block_intent s rid iid (?v + 1) (wk_id wk) ''projection attempts exceeded'') w1
        = (Inr (Accepted, Some z), w1\<lparr>ow_store := s'\<rparr>)"
      by (rule call_quiet [OF w1(2)]) (simp only: z(1))
    obtain u t where u: "settle_run f z now (w1\<lparr>ow_store := s'\<rparr>) = (Inr u, w1\<lparr>ow_store := s', ow_store := t\<rparr>)"
        "stored t rid u" "pass_result wk now oc r iid i u"
      using settled_result [of "w1\<lparr>ow_store := s'\<rparr>" rid z iid wk now oc i r f] z(2-4,7)
        settle_new [OF z(2,5) _ z(6)] w1(2) by auto
    have "pi_attempt_count ?i = pi_attempt_count i + 1" by (simp add: claimed_by_def)
    then show ?thesis using u call blocked oc v iid
      by (simp add: project_claimed_def give_up_def flip: w1_def) blast
  next
    case released
    let ?k = "attempted wk now oc i"
    define k where "k = trunc_intent (claimed_by wk now i)\<lparr>pi_status := IntPending, pi_blocked_reason := None,
      pi_claim_owner := None, pi_claim_expires_at := None, pi_next_attempt_at := Some (now + backoff_delay wk ?i)\<rparr>"
    have k: "transition_intent ?i IntPending None None None (Some (now + backoff_delay wk ?i)) = Inr k"
      by (simp add: transition_intent_Inr_iff transition_targets claimed_by_def k_def trunc_intent_def)
    have k': "trunc_intent k = trunc_intent ?k"
      using released by (simp add: k_def attempted_def claimed_by_def trunc_intent_def opt_millis_def Let_def
          backoff_delay_def)
    from end_claim [OF st y i r new(3) k k'] obtain z s' where
      z: "release_intent (ow_store w1) rid iid (?v + 1) (wk_id wk) (now + backoff_delay wk ?i) now
          = (Inr (Accepted, Some z), s')"
        "stored s' rid z" "run_projection_outbox z = map trunc_intent (set_intent iid ?k (run_projection_outbox r))"
        "run_st z = run_st r" "run_proposed_final_message_id z = run_proposed_final_message_id r"
      using ops(3) v w1(1) by auto
    have call: "call_store f (\<lambda>s. release_intent s rid iid (?v + 1) (wk_id wk) (now + backoff_delay wk ?i) now) w1
        = (Inr (Accepted, Some z), w1\<lparr>ow_store := s'\<rparr>)"
      by (rule call_quiet [OF w1(2)]) (simp only: z(1))
    have "pass_result wk now oc r iid i z"
      using z(3-5) released by (simp add: pass_result_def attempted_def comp_def)
    moreover have "pi_attempt_count ?i = pi_attempt_count i + 1" by (simp add: claimed_by_def)
    ultimately show ?thesis using z(2) call released oc v iid
      by (simp add: project_claimed_def back_off_def flip: w1_def) blast
  qed
qed

lemma pass_over_intent:
  assumes st: "stored (ow_store w) rid r" and i: "find_intent (Some r) iid = Some i"
    and pend: "pi_status i = IntPending" and held: "\<not> held_back r i" and q: "ow_others w = []"
    and fresh: "list_all (\<lambda>c. c \<notin> set (run_processed_command_ids r)) (pass_commands r iid)"
    and answer: "\<And>j k. pi_kind j = pi_kind i \<Longrightarrow> run_projector wk j k = oc"
  shows "\<exists>z w'. process_intent f wk rid iid now w = (Inr (oc \<in> {Accepted, Replayed}), w')
    \<and> stored (ow_store w') rid z \<and> pass_result wk now oc r iid i z"
proof -
  obtain cur where cur: "load (ow_store w) rid = Inr (Some cur)" using st by (auto simp: stored_def)
  have st': "stored (ow_store w) rid cur" and core: "run_core cur = run_core r"
    using stored_loaded [OF st cur] by auto
  note same = core_fields [OF core]
  have i': "find_intent (Some cur) iid = Some i" using i same(1) by (simp add: find_intent_def)
  have held': "\<not> held_back cur i" using held same(1) by (simp add: held_back_def)
  have id: "run_id cur = run_id r" "run_id cur = rid" using core_shape(1) [OF core] st' by (simp_all add: stored_def)
  have fresh': "list_all (\<lambda>c. c \<notin> set (run_processed_command_ids cur)) (pass_commands cur iid)"
    using fresh same(3,4) id(1) by (simp add: pass_commands_def)
  have "intent_command ''claim'' iid (run_state_version cur) \<notin> set (run_processed_command_ids cur)"
    using fresh' by (simp add: pass_commands_def Let_def)
  from claim_quiet [OF st' i' pend this] obtain y s' where
    y: "claim_intent (ow_store w) rid iid (run_state_version cur) (wk_id wk) (now + wk_lease wk)
        = (Inr (Accepted, Some y), s')" "stored s' rid y" "after_claim wk now cur iid i y" by blast
  have iid: "pi_intent_id i = iid" using i find_Some by (fastforce simp: find_intent_def)
  have "call_store f (read_run rid) w = (Inr (Some cur), w)"
    using call_quiet [OF q, of "read_run rid" "Inr (Some cur)" "ow_store w" f] cur by (simp add: read_run_def)
  moreover have "reopen_claimed f wk rid cur i now w = (Inr (Some (cur, i)), w)"
    using pend by (simp add: reopen_claimed_def)
  moreover have "call_store f (\<lambda>s. claim_intent s rid iid (run_state_version cur) (wk_id wk) (now + wk_lease wk)) w
      = (Inr (Accepted, Some y), w\<lparr>ow_store := s'\<rparr>)"
    by (rule call_quiet [OF q]) (simp only: y(1))
  ultimately have run: "process_intent f wk rid iid now w
      = project_claimed f wk rid y (trunc_intent (claimed_by wk now i)) now (w\<lparr>ow_store := s'\<rparr>)"
    using i' pend held' after_claim_find [OF y(3) i']
    by (simp add: process_intent_def claim_and_project_def iid) (simp add: claimed_by_def)
  have "run_projector wk (trunc_intent (claimed_by wk now i)) y = oc"
    by (rule answer) (simp add: claimed_by_def)
  from conclude_pass [OF _ y(3) i' id(2) _ fresh' this, of "w\<lparr>ow_store := s'\<rparr>" f] y(2) q
  obtain z w' where "process_intent f wk rid iid now w = (Inr (oc \<in> {Accepted, Replayed}), w')"
    "stored (ow_store w') rid z" "pass_result wk now oc cur iid i z"
    by (auto simp: run)
  then show ?thesis using same(1,2,6) by (auto simp: pass_result_def)
qed

lemma mandatory_required:
  assumes "has_mandatory_terminal_intents r"
  shows "filter pi_required (run_projection_outbox r) \<noteq> []"
proof -
  have "filter (group_matches r) (intent_groups (run_projection_outbox r)) \<noteq> []"
    using assms by (auto simp: has_mandatory_terminal_intents_def)
  then obtain g where "g \<in> set (intent_groups (run_projection_outbox r))" "group_matches r g"
    by (auto simp: filter_empty_conv)
  then have "\<exists>j \<in> set (run_projection_outbox r). pi_required j"
    by (auto simp: group_matches_def Let_def intent_groups_def)
  then show ?thesis by (auto simp: filter_empty_conv)
qed

section \<open>Properties\<close>

text \<open>
  One pass over a pending intent decides it. With the store to itself, the worker returns whether
  the projector accepted, and the store then holds the Run with that intent completed, or blocked
  with a reason once its attempts are spent, or pending again until a delay has passed; the attempt
  is counted, no other intent and no status changes, and after a completed or blocked intent the
  projection state of a terminal Run is current.
\<close>

theorem one_pass_decides_intent:
  assumes "stored (ow_store w) rid r" and "find_intent (Some r) iid = Some i"
    and "pi_status i = IntPending" and "\<not> held_back r i" and "ow_others w = []"
    and "list_all (\<lambda>c. c \<notin> set (run_processed_command_ids r)) (pass_commands r iid)"
    and "\<And>j k. pi_kind j = pi_kind i \<Longrightarrow> run_projector wk j k = oc"
  shows "\<exists>z w'. process_intent f wk rid iid now w = (Inr (oc \<in> {Accepted, Replayed}), w')
    \<and> stored (ow_store w') rid z \<and> pass_result wk now oc r iid i z"
  using pass_over_intent [OF assms(1-6), of wk oc] assms(7) by blast

text \<open>
  C7: The last accepted projection settles the Run. Suppose that the store holds a valid terminal Run with its
  mandatory terminal intents, that one intent is pending, that every other required intent of the Run is completed,
  that no command of this pass over it was processed before, that the projector accepts the intent, and that nobody else
  writes to the store during the pass. Then one pass of the worker over the intent reports success
  and leaves the stored Run settled.
\<close>

theorem last_projection_settles:
  assumes "stored (ow_store w) rid r" and "find_intent (Some r) iid = Some i"
    and "pi_status i = IntPending" and "ow_others w = []"
    and "list_all (\<lambda>c. c \<notin> set (run_processed_command_ids r)) (pass_commands r iid)"
    and accepts: "\<And>j k. pi_kind j = pi_kind i \<Longrightarrow> run_projector wk j k = Accepted"
    and over: "is_terminal_status (run_st r)" and mandatory: "has_mandatory_terminal_intents r"
    and rest: "list_all (\<lambda>j. pi_required j \<and> pi_intent_id j \<noteq> iid \<longrightarrow> pi_status j = IntCompleted)
      (run_projection_outbox r)"
  shows "\<exists>z w'. process_intent f wk rid iid now w = (Inr True, w')
    \<and> stored (ow_store w') rid z \<and> run_projection_state z = ProjSettled"
proof -
  have iid: "pi_intent_id i = iid" and mem: "i \<in> set (run_projection_outbox r)"
    using assms(2) find_Some by (fastforce simp: find_intent_def)+
  have "\<not> held_back r i" using rest iid by (auto simp: held_back_def list_all_iff list_ex_iff)
  from pass_over_intent [OF assms(1-3) this assms(4,5) accepts, where f = f and now = now] obtain z w' where
    z: "process_intent f wk rid iid now w = (Inr True, w')" "stored (ow_store w') rid z"
       "pass_result wk now Accepted r iid i z" by auto
  let ?k = "attempted wk now Accepted i"
  let ?js = "set_intent iid ?k (run_projection_outbox r)"
  have k: "pi_status ?k = IntCompleted" "intent_identity ?k = intent_identity i" "pi_required ?k = pi_required i"
    by (simp_all add: attempted_def intent_identity_def)
  have out: "map trunc_intent (run_projection_outbox z) = map trunc_intent ?js" and st: "run_st z = run_st r"
    and proposed: "run_proposed_final_message_id z = run_proposed_final_message_id r"
    and cur: "settlement_current z" using z(3) over k(1) by (simp_all add: pass_result_def)
  have ids: "map intent_identity (map trunc_intent is) = map intent_identity is" for "is" by simp
  have same: "map intent_identity ?js = map intent_identity (run_projection_outbox r)"
  proof -
    have "j = i" if "j \<in> set (run_projection_outbox r)" "pi_intent_id j = iid" for j
      using that mem iid outbox_distinct [OF assms(1)] by (metis distinct_map inj_onD)
    then show ?thesis using k(2) by (auto simp: set_intent_def)
  qed
  have "map intent_identity (run_projection_outbox z) = map intent_identity (run_projection_outbox r)"
    using ids [of "run_projection_outbox z"] ids [of ?js] out same by metis
  from has_mandatory_identity [OF this st proposed] mandatory have m: "has_mandatory_terminal_intents z" by simp
  have req: "filter pi_required ?js \<noteq> []"
  proof -
    have "filter pi_required (run_projection_outbox r) \<noteq> []"
      using mandatory_required [OF mandatory] .
    then show ?thesis using required_identity [OF same] by blast
  qed
  have all: "list_all (\<lambda>j. pi_required j \<longrightarrow> pi_status j = IntCompleted) ?js"
    using rest k(1) by (auto simp: set_intent_def list_all_iff)
  then have "\<not> list_ex (\<lambda>j. pi_required j \<and> pi_status j = IntBlocked) ?js"
    by (fastforce simp: list_all_iff list_ex_iff)
  with all have "evaluate_projection_settlement ?js = ProjSettled"
    by (simp add: evaluate_settlement_nonempty [OF req])
  then show ?thesis
    using z(1,2) cur m evaluate_trunc [OF out] by (auto simp: settlement_current_def)
qed

section \<open>A sample drain\<close>

text \<open>The sample Run after its terminal commit, the first two of its three intents delivered.\<close>

definition sample_terminal :: run_state where
  "sample_terminal = decision_commit (\<lambda>t. []) sample_run sample_facts sample_commit"

definition sample_intents :: "projection_intent list" where
  "sample_intents = map (\<lambda>i. if pi_kind i = ''project_terminal_run_status'' then i
     else i\<lparr>pi_status := IntCompleted, pi_attempt_count := 1\<rparr>) (run_projection_outbox sample_terminal)"

definition sample_outbox_run :: run_state where
  "sample_outbox_run = candidate ''d'' (outbox_step sample_terminal sample_intents ProjPending 9)"

definition sample_outbox_world :: outbox_world where
  "sample_outbox_world = \<lparr>ow_store = empty_runs\<lparr>st_runs := [sample_outbox_run]\<rparr>, ow_others = [],
     ow_projected = [], ow_notified = []\<rparr>"

lemma sample_terminal_outbox:
  "run_projection_outbox sample_terminal = completed_intents (\<lambda>t. []) sample_run sample_facts sample_commit"
  by (simp add: sample_terminal_def decision_commit_def sample_run_def)

lemma sample_terminal_valid: "valid_run sample_terminal"
  unfolding sample_terminal_def decision_commit_valid [OF sample_run_valid sample_commit_accepted]
  by (simp add: closure_complete_def sample_closure_complete truthy_str_def truthy_int_def)

lemma sample_outbox_valid: "valid_run sample_outbox_run"
proof -
  have "same_intents sample_intents (run_projection_outbox sample_terminal)"
    by (simp add: same_intents_def sample_intents_def sample_terminal_outbox new_intent_defs intent_error_def
        completed_event_def canonicalize_event_def sample_commit_def)
  from outbox_step_valid [OF sample_terminal_valid this] show ?thesis
    by (simp add: sample_outbox_run_def candidate_def valid_run_def)
qed

lemma sample_outbox_fields:
  "run_id sample_outbox_run = ''run''" "run_st sample_outbox_run = Completed"
  "run_cancellation_requested_at sample_outbox_run = None" "run_state_version sample_outbox_run = 9"
  "run_processed_command_ids sample_outbox_run = [''c0'', ''c1'', ''d'']"
  "run_proposed_final_message_id sample_outbox_run = Some ''m2''"
  "run_projection_outbox sample_outbox_run = map trunc_intent sample_intents"
  by (simp_all add: sample_outbox_run_def candidate_def outbox_step_def with_command_def sample_terminal_def
      decision_commit_def sample_run_def sample_commit_def truncate_run_def)

lemma sample_outbox_stored: "stored (ow_store sample_outbox_world) ''run'' sample_outbox_run"
proof -
  have f: "find_run (empty_runs\<lparr>st_runs := [sample_outbox_run]\<rparr>) ''run'' = Some sample_outbox_run"
    by (simp add: find_run_def sample_outbox_fields)
  have "load (empty_runs\<lparr>st_runs := [sample_outbox_run]\<rparr>) ''run'' = Inr (Some sample_outbox_run)"
    using sample_outbox_valid f
    by (simp add: load_def with_claim_def load_claim_def run_from_document_def valid_run_def Let_def
        empty_runs_def)
  then show ?thesis using sample_outbox_valid
    by (simp add: stored_def runs_ok_def claims_ok_def load_claim_def sample_outbox_world_def
        sample_outbox_fields) (simp add: empty_runs_def opt_millis_def)
qed

definition sample_status_intent :: projection_intent where
  "sample_status_intent = trunc_intent (sample_intents ! 2)"

lemma sample_intent_list:
  "map pi_intent_id sample_intents = [''i1'', ''i2'', ''i3'']"
  "map pi_status sample_intents = [IntCompleted, IntCompleted, IntPending]"
  "length sample_intents = 3"
  by (simp_all add: sample_intents_def sample_terminal_outbox new_intent_defs sample_commit_def)

lemma sample_intents_split: "sample_intents = [sample_intents ! 0, sample_intents ! 1, sample_intents ! 2]"
  using sample_intent_list(3) by (intro nth_equalityI) (auto simp: less_Suc_eq numeral_3_eq_3 numeral_2_eq_2)

lemma sample_intent_nth:
  "pi_intent_id (sample_intents ! 0) = ''i1''" "pi_intent_id (sample_intents ! Suc 0) = ''i2''"
  "pi_intent_id (sample_intents ! 2) = ''i3''" "pi_status (sample_intents ! 0) = IntCompleted"
  "pi_status (sample_intents ! Suc 0) = IntCompleted" "pi_status (sample_intents ! 2) = IntPending"
  using sample_intent_list(1,2) by (subst (asm) (1 2) sample_intents_split; simp)+

lemma sample_outbox_intent: "find_intent (Some sample_outbox_run) ''i3'' = Some sample_status_intent"
  unfolding find_intent_def option.case sample_outbox_fields sample_status_intent_def find_trunc_intent
  by (subst sample_intents_split) (simp add: sample_intent_nth)

lemma sample_outbox_rest:
  "list_all (\<lambda>j. pi_required j \<and> pi_intent_id j \<noteq> ''i3'' \<longrightarrow> pi_status j = IntCompleted)
     (run_projection_outbox sample_outbox_run)"
  unfolding sample_outbox_fields by (subst sample_intents_split) (simp add: sample_intent_nth)

lemma sample_outbox_fresh:
  "list_all (\<lambda>c. c \<notin> set (run_processed_command_ids sample_outbox_run)) (pass_commands sample_outbox_run ''i3'')"
  by (simp add: pass_commands_def sample_outbox_fields intent_command_def Let_def)

lemma sample_outbox_mandatory: "has_mandatory_terminal_intents sample_outbox_run"
proof -
  have "has_mandatory_terminal_intents sample_terminal"
    using commit_has_mandatory [OF sample_success [of "\<lambda>t. []"]]
    by (simp add: sample_terminal_def no_terminal_projection_def sample_run_def)
  moreover have "map intent_identity (run_projection_outbox sample_outbox_run)
      = map intent_identity (run_projection_outbox sample_terminal)"
    by (simp add: sample_outbox_fields sample_intents_def intent_identity_def trunc_intent_def)
  moreover have "run_st sample_outbox_run = run_st sample_terminal"
    and "run_proposed_final_message_id sample_outbox_run = run_proposed_final_message_id sample_terminal"
    unfolding sample_outbox_fields by (simp_all add: sample_terminal_def decision_commit_def sample_run_def)
  ultimately show ?thesis using has_mandatory_identity by blast
qed

theorem last_projection_settles_witness:
  "\<exists>z w'. process_intent (\<lambda>t. []) sample_worker ''run'' ''i3'' 10 sample_outbox_world = (Inr True, w')
     \<and> stored (ow_store w') ''run'' z \<and> run_projection_state z = ProjSettled"
  by (rule last_projection_settles [OF sample_outbox_stored sample_outbox_intent _ _ sample_outbox_fresh _ _
        sample_outbox_mandatory sample_outbox_rest])
    (simp_all add: sample_status_intent_def sample_intent_nth sample_outbox_world_def run_projector_def
      sample_worker_def sample_outbox_fields terminal_run_statuses_def)

theorem one_pass_decides_intent_witness:
  "\<exists>z w'. process_intent (\<lambda>t. []) (sample_worker\<lparr>wk_projectors := \<lambda>_. None\<rparr>) ''run'' ''i3'' 10
      sample_outbox_world = (Inr False, w') \<and> stored (ow_store w') ''run'' z
     \<and> pass_result (sample_worker\<lparr>wk_projectors := \<lambda>_. None\<rparr>) 10 StoreError sample_outbox_run ''i3''
        sample_status_intent z"
proof -
  have "\<not> held_back sample_outbox_run sample_status_intent"
    using sample_outbox_rest
    by (auto simp: held_back_def list_all_iff list_ex_iff sample_status_intent_def sample_intent_nth)
  from one_pass_decides_intent [OF sample_outbox_stored sample_outbox_intent _ this _ sample_outbox_fresh,
      of "sample_worker\<lparr>wk_projectors := \<lambda>_. None\<rparr>" StoreError "\<lambda>t. []" 10]
  show ?thesis
    by (simp add: sample_status_intent_def sample_intent_nth sample_outbox_world_def run_projector_def)
qed

end
