(* ===== verification/Kernel_Batches.thy ===== *)
theory Kernel_Batches
  imports Transcript Samples
begin

text \<open>
  \<open>execution/orchestrator/kernel.py\<close>, the functions of the module that read and rewrite the Tool
  batches of a Run: the creation of a batch, the flush that turns buffered terminal results into
  transcript messages, the parking and presentation of an Agent's questions, and the look-ups by
  invocation, by presentation and by parent call. The model of the kernel's methods is in the
  theories that import this one.

  \<open>digest\<close> is the hexadecimal SHA-256 of a string, \<open>dumps\<close> is \<open>json.dumps\<close> with compact separators.
\<close>

section \<open>Errors and names\<close>

datatype kernel_error =
    KernelConflict string
  | CancellationPending
  | MissingKey string
  | InvalidValue string
  | AssertionFailed

datatype kernel_outcome =
    FinalAnswer | OutWaitingExternal | OutAwaitingUser | OutCancellationPending
  | OutBudgetExhausted | OutAborted | OutFailed

definition request_input_tool :: string where "request_input_tool = ''request_user_input''"

definition outcome_for_status :: "run_status \<Rightarrow> kernel_outcome" where
  "outcome_for_status s = (case s of Completed \<Rightarrow> FinalAnswer | Failed \<Rightarrow> OutFailed
     | Canceled \<Rightarrow> OutAborted | BudgetExhausted \<Rightarrow> OutBudgetExhausted | _ \<Rightarrow> OutFailed)"

definition opaque_public_call_id :: "(string \<Rightarrow> string) \<Rightarrow> string \<Rightarrow> string \<Rightarrow> string" where
  "opaque_public_call_id digest rid cid = ''inv_'' @ take 24 (digest (rid @ '':'' @ cid))"

definition supervisor_answer_observation ::
  "(string \<Rightarrow> string) \<Rightarrow> string \<Rightarrow> string \<Rightarrow> string \<Rightarrow> datetime \<Rightarrow> tool_observation" where
  "supervisor_answer_observation digest rid cid answers now =
     \<lparr>to_observation_id = digest (rid @ '':ask-answer:'' @ cid @ '':'' @ answers),
      to_invocation_id = cid,
      to_outcome = OutcomeResult
        \<lparr>tr_call_id = cid, tr_tool_name = request_input_tool, tr_status = ResCompleted,
         tr_content = [TextPart answers], tr_artifact_refs = [], tr_error_code = None,
         tr_error_message = None\<rparr>,
      to_observed_at = now, to_interaction_answers = None\<rparr>"

section \<open>Texts for the public projection\<close>

definition task_text :: "json \<Rightarrow> string" where
  "task_text arguments = (case json_get arguments ''task'' of
      Some (JStr task) \<Rightarrow> if py_strip task \<noteq> [] then take 4000 (py_strip task) else []
    | _ \<Rightarrow> [])"

fun result_part_text :: "(json \<Rightarrow> string) \<Rightarrow> content_part \<Rightarrow> string option" where
  "result_part_text dumps (TextPart t) = (if t \<noteq> [] then Some t else None)"
| "result_part_text dumps (DataPart d m n) = Some (dumps d)"
| "result_part_text dumps (ArtifactRefPart a n) = Some (''[artifact reference: '' @ a @ '']'')"

definition passthrough_answer_text :: "(json \<Rightarrow> string) \<Rightarrow> tool_result \<Rightarrow> string" where
  "passthrough_answer_text dumps r =
     join_strings nl (List.map_filter (result_part_text dumps) (tr_content r))"

definition kernel_result_text :: "(json \<Rightarrow> string) \<Rightarrow> tool_result \<Rightarrow> string" where
  "kernel_result_text dumps r =
     take 8000 (join_strings nl (List.map_filter (result_part_text dumps) (tr_content r)))"

definition interaction_question_summary :: "interaction_question list \<Rightarrow> string" where
  "interaction_question_summary qs =
     (if qs = [] then [] else take 1000 (join_strings '' | '' (map iq_prompt qs)))"

fun nonempty_text :: "content_part \<Rightarrow> string option" where
  "nonempty_text (TextPart t) = (if t \<noteq> [] then Some t else None)"
| "nonempty_text _ = None"

definition assistant_text :: "assistant_message \<Rightarrow> string" where
  "assistant_text a = take 32000 (join_strings nl (List.map_filter nonempty_text (am_content a)))"

definition first_user_message :: "agent_message list \<Rightarrow> user_message option" where
  "first_user_message ms = (case List.find (\<lambda>m. case m of UserMsg _ \<Rightarrow> True | _ \<Rightarrow> False) ms of
      Some (UserMsg u) \<Rightarrow> Some u | _ \<Rightarrow> None)"

fun text_of_part :: "content_part \<Rightarrow> string option" where
  "text_of_part (TextPart t) = Some t"
| "text_of_part _ = None"

definition user_request_text :: "run_state \<Rightarrow> string" where
  "user_request_text r = (case first_user_message (run_transcript r) of
      None \<Rightarrow> []
    | Some u \<Rightarrow> py_strip (join_strings nl (List.map_filter text_of_part (um_content u))))"

definition kernel_tool_error :: "tool_call \<Rightarrow> string \<Rightarrow> string \<Rightarrow> tool_result" where
  "kernel_tool_error c code message =
     \<lparr>tr_call_id = tc_call_id c, tr_tool_name = tc_tool_name c, tr_status = ResRejected,
      tr_content = [TextPart (take 500 message)], tr_artifact_refs = [],
      tr_error_code = Some code, tr_error_message = Some (take 500 message)\<rparr>"

section \<open>Parked entries\<close>

text \<open>\<open>entry.state in {"input_required", "auth_required"}\<close>\<close>

definition needs_input :: "batch_entry \<Rightarrow> bool" where
  "needs_input e \<longleftrightarrow> be_state e = EsInputRequired \<or> be_state e = EsAuthRequired"

definition has_presentable_interactions :: "run_state \<Rightarrow> bool" where
  "has_presentable_interactions r = list_ex (\<lambda>b. list_ex (\<lambda>e.
     needs_input e \<and> be_interaction_id e \<noteq> None \<and> \<not> be_presented e
     \<and> be_surface_for_call_record_id e = None) (tb_entries b)) (run_tool_batches r)"

definition visible_input :: "batch_entry \<Rightarrow> bool" where
  "visible_input e \<longleftrightarrow> needs_input e
     \<and> (be_surface_for_call_record_id e \<noteq> None
        \<or> \<not> be_presented e \<and> be_interaction_id e = None)"

definition has_visible_input :: "tool_batch list \<Rightarrow> bool" where
  "has_visible_input bs = list_ex (\<lambda>b. list_ex visible_input (tb_entries b)) bs"

definition has_presented_interactions :: "run_state \<Rightarrow> bool" where
  "has_presented_interactions r =
     list_ex (\<lambda>b. list_ex (\<lambda>e. needs_input e \<and> be_presented e) (tb_entries b)) (run_tool_batches r)"

text \<open>\<open>entry.interaction_fingerprint or ''\<close>\<close>

definition or_empty :: "string option \<Rightarrow> string" where
  "or_empty x = (case x of None \<Rightarrow> [] | Some s \<Rightarrow> s)"

definition presentation_id :: "(string \<Rightarrow> string) \<Rightarrow> run_state \<Rightarrow> batch_entry \<Rightarrow> string" where
  "presentation_id digest r e =
     (if truthy_str (be_presentation_id e) then or_empty (be_presentation_id e)
      else ''prs_'' @ take 24 (digest (run_id r @ '':presentation:'' @ be_call_id e @ '':''
             @ or_empty (be_interaction_fingerprint e))))"

text \<open>Entries and messages of older Runs get the presentation identity they lack.\<close>

definition needs_presentation_id :: "batch_entry \<Rightarrow> bool" where
  "needs_presentation_id e \<longleftrightarrow> be_presented e \<and> needs_input e \<and> be_interaction_fingerprint e \<noteq> None"

definition presentation_replacements ::
  "(string \<Rightarrow> string) \<Rightarrow> run_state \<Rightarrow> ((string \<times> string) \<times> string) list" where
  "presentation_replacements digest r = map (\<lambda>e.
     ((be_call_id e, or_empty (be_interaction_fingerprint e)), presentation_id digest r e))
     (filter needs_presentation_id (run_entries r))"

definition backfill_entry :: "(string \<Rightarrow> string) \<Rightarrow> run_state \<Rightarrow> batch_entry \<Rightarrow> batch_entry" where
  "backfill_entry digest r e = (if needs_presentation_id e \<and> be_presentation_id e = None
     then e\<lparr>be_presentation_id := Some (presentation_id digest r e)\<rparr> else e)"

definition backfill_message :: "((string \<times> string) \<times> string) list \<Rightarrow> agent_message \<Rightarrow> agent_message" where
  "backfill_message reps m = (case m of
      ToolInteractionMsg t \<Rightarrow>
        (case map_of (rev reps) (tim_call_id t, tim_interaction_fingerprint t) of
           Some p \<Rightarrow> if tim_presentation_id t = None
                     then ToolInteractionMsg (t\<lparr>tim_presentation_id := Some p\<rparr>) else m
         | None \<Rightarrow> m)
    | _ \<Rightarrow> m)"

definition backfill_presentation_ids :: "(string \<Rightarrow> string) \<Rightarrow> run_state \<Rightarrow> run_state" where
  "backfill_presentation_ids digest r = r
     \<lparr>run_tool_batches := map (\<lambda>b. b\<lparr>tb_entries := map (backfill_entry digest r) (tb_entries b)\<rparr>)
        (run_tool_batches r),
      run_transcript := map (backfill_message (presentation_replacements digest r)) (run_transcript r)\<rparr>"

definition batch_is_parked :: "tool_batch \<Rightarrow> bool" where
  "batch_is_parked b \<longleftrightarrow> tb_entries b \<noteq> []
     \<and> list_all (\<lambda>e. be_state e = EsTerminal \<and> be_result_flushed e \<or> needs_input e \<and> be_presented e)
         (tb_entries b)"

text \<open>
  Entries are named by their position, \<open>(batch index, entry index)\<close>, in the order of the nested
  loops of the source.
\<close>

definition positions :: "tool_batch list \<Rightarrow> (nat \<times> nat \<times> batch_entry) list" where
  "positions bs = concat (map (\<lambda>(i, b). map (\<lambda>(j, e). (i, j, e)) (enumerate 0 (tb_entries b)))
     (enumerate 0 bs))"

definition presented_targets ::
  "(string \<Rightarrow> string) \<Rightarrow> run_state \<Rightarrow> (string \<times> nat \<times> nat \<times> batch_entry) list" where
  "presented_targets digest r = map (\<lambda>(i, j, e). (presentation_id digest r e, i, j, e))
     (filter (\<lambda>(i, j, e). needs_input e \<and> be_presented e \<and> be_surface_for_call_record_id e = None)
       (positions (run_tool_batches r)))"

definition forwarded_presentation_ids :: "run_state \<Rightarrow> string list" where
  "forwarded_presentation_ids r = map (or_empty \<circ> be_presentation_id)
     (filter (\<lambda>e. be_tool_name e = surface_tool \<and> be_state e = EsTerminal
        \<and> truthy_str (be_presentation_id e)) (run_entries r))"

definition find_presented_entry ::
  "(string \<Rightarrow> string) \<Rightarrow> run_state \<Rightarrow> string option \<Rightarrow> (nat \<times> nat \<times> batch_entry) option" where
  "find_presented_entry digest r pid = (case pid of
      None \<Rightarrow> (case presented_targets digest r of [(_, t)] \<Rightarrow> Some t | _ \<Rightarrow> None)
    | Some p \<Rightarrow> map_option snd (List.find (\<lambda>t. fst t = p) (presented_targets digest r)))"

definition find_join_target :: "run_state \<Rightarrow> string \<Rightarrow> string option" where
  "find_join_target r tool = foldl (\<lambda>target e.
     if be_tool_name e = tool \<and> needs_input e \<and> be_presented e \<and> be_suspended_call_record_id e \<noteq> None
     then be_suspended_call_record_id e else target) None (run_entries r)"

definition parked_interaction_questions :: "run_state \<Rightarrow> string \<Rightarrow> interaction_question list" where
  "parked_interaction_questions r rec =
     (case List.find (\<lambda>e. be_suspended_call_record_id e = Some rec \<and> needs_input e) (run_entries r) of
        None \<Rightarrow> [] | Some e \<Rightarrow> be_interaction_questions e)"

text \<open>The call-specific schema of \<open>surface_agent_questions\<close>.\<close>

definition surface_definition :: tool_definition where
  "surface_definition = \<lparr>td_name = surface_tool, td_label = ''Forward the agent's questions'',
     td_description = ''Forward an Agent's typed questions to the user unchanged, one question at a time, preserving each question's answer kind and options. The runtime supplies an invocation-specific target schema.'',
     td_input_schema = JObj [(''type'', JStr ''object''), (''additionalProperties'', JBool False),
       (''properties'', JObj [])],
     td_execution_mode = Sequential, td_side_effect_level = EffectRead\<rparr>"

definition surface_tool_definition :: "(string \<Rightarrow> string) \<Rightarrow> run_state \<Rightarrow> tool_definition" where
  "surface_tool_definition digest r =
     (let targets = presented_targets digest r in
      if length targets \<le> 1 then surface_definition\<lparr>td_description :=
        ''Forward the only pending Agent interaction's typed questions unchanged. This tool takes no arguments.''\<rparr>
      else surface_definition\<lparr>td_description :=
          ''Forward one pending Agent interaction's typed questions unchanged. Use the presentation_id from the private Agent input observation.'',
        td_input_schema := JObj [(''type'', JStr ''object''), (''additionalProperties'', JBool False),
          (''required'', JArr [JStr ''presentation_id'']),
          (''properties'', JObj [(''presentation_id'', JObj [(''type'', JStr ''string''),
             (''enum'', JArr (map (JStr \<circ> fst) targets))])])]\<rparr>)"

section \<open>Batches\<close>

definition new_tool_batch :: "assistant_message \<Rightarrow> string option \<Rightarrow> tool_batch" where
  "new_tool_batch a turn = \<lparr>tb_assistant_message_id = am_message_id a,
     tb_entries = map (\<lambda>(i, c). \<lparr>be_call_id = tc_call_id c, be_opaque_public_call_id = None,
       be_assistant_message_id = am_message_id a, be_source_index = int i,
       be_tool_name = tc_tool_name c, be_state = EsPending, be_invocation = None,
       be_acceptance = None, be_buffered_terminal_result = None, be_public_update_index = 0,
       be_public_terminal_emitted = False, be_processed_observation_ids = [],
       be_presented = False, be_result_flushed = False, be_suspended_call_record_id = None,
       be_surface_for_call_record_id = None, be_presentation_id = None, be_interaction_id = None,
       be_interaction_fingerprint = None, be_interaction_questions = [],
       be_interaction_answers = []\<rparr>) (enumerate 0 (am_tool_calls a)),
     tb_results_flushed = False, tb_internal_turn_id = turn\<rparr>"

definition batch_turn_id :: "tool_batch \<Rightarrow> string" where
  "batch_turn_id b = (if truthy_str (tb_internal_turn_id b) then or_empty (tb_internal_turn_id b)
     else tb_assistant_message_id b)"

definition merge_artifact_refs :: "string list \<Rightarrow> tool_result list \<Rightarrow> string list" where
  "merge_artifact_refs old rs = fromkeys (old @ concat (map tr_artifact_refs rs))"

definition with_interaction_answers ::
  "interaction_answers list \<Rightarrow> interaction_answers option \<Rightarrow> interaction_answers list" where
  "with_interaction_answers known observed = (case observed of
      None \<Rightarrow> known
    | Some a \<Rightarrow> if list_ex (\<lambda>x. ias_interaction_id x = ias_interaction_id a) known then known
                else known @ [a])"

definition flush_message :: "datetime \<Rightarrow> batch_entry \<Rightarrow> tool_result \<Rightarrow> tool_result_message" where
  "flush_message now e r = \<lparr>trm_message_id = ''tool-result:'' @ be_call_id e,
     trm_call_id = tr_call_id r, trm_tool_name = tr_tool_name r, trm_status = tr_status r,
     trm_content = tr_content r, trm_artifact_refs = tr_artifact_refs r,
     trm_is_error = (tr_status r \<noteq> ResCompleted), trm_error_code = tr_error_code r,
     trm_error_message = tr_error_message r, trm_interaction_answers = be_interaction_answers e,
     trm_created_at = now\<rparr>"

definition flushable :: "batch_entry \<Rightarrow> bool" where
  "flushable e \<longleftrightarrow> \<not> be_result_flushed e \<and> be_state e = EsTerminal"

fun flush_results :: "datetime \<Rightarrow> batch_entry list \<Rightarrow> kernel_error + agent_message list" where
  "flush_results now [] = Inr []"
| "flush_results now (e # es) =
     (if \<not> flushable e then flush_results now es
      else case be_buffered_terminal_result e of
        None \<Rightarrow> Inl (InvalidValue ''terminal tool entry has no buffered result'')
      | Some r \<Rightarrow> (case flush_results now es of
          Inl x \<Rightarrow> Inl x
        | Inr ms \<Rightarrow> Inr (ToolResultMsg (flush_message now e r) # ms)))"

definition mark_flushed :: "batch_entry \<Rightarrow> batch_entry" where
  "mark_flushed e = (if be_state e = EsTerminal then e\<lparr>be_result_flushed := True\<rparr> else e)"

definition all_terminal :: "tool_batch \<Rightarrow> bool" where
  "all_terminal b \<longleftrightarrow> list_all (\<lambda>e. be_state e = EsTerminal) (tb_entries b)"

definition flush_batch ::
  "agent_message list \<Rightarrow> tool_batch \<Rightarrow> datetime \<Rightarrow> kernel_error + (agent_message list \<times> tool_batch)" where
  "flush_batch transcript b now =
     (if tb_results_flushed b then Inr (transcript, b)
      else case flush_results now (sort_key be_source_index (tb_entries b)) of
        Inl x \<Rightarrow> Inl x
      | Inr ms \<Rightarrow> Inr (transcript @ ms, b\<lparr>tb_entries := map mark_flushed (tb_entries b),
                        tb_results_flushed := all_terminal b\<rparr>))"

definition wait_status :: "tool_batch \<Rightarrow> run_status" where
  "wait_status b = (if list_ex needs_input (tb_entries b) then AwaitingUser else WaitingExternal)"

section \<open>Look-ups\<close>

text \<open>\<open>(None, None)\<close> of the source is \<open>None\<close> here.\<close>

definition find_invocation :: "run_state \<Rightarrow> string \<Rightarrow> (nat \<times> nat \<times> batch_entry) option" where
  "find_invocation r iid = List.find (\<lambda>(i, j, e). be_call_id e = iid) (positions (run_tool_batches r))"

definition find_entry :: "run_state \<Rightarrow> string \<Rightarrow> string \<Rightarrow> (nat \<times> nat \<times> batch_entry) option" where
  "find_entry r mid cid = List.find
     (\<lambda>(i, j, e). tb_assistant_message_id (run_tool_batches r ! i) = mid \<and> be_call_id e = cid)
     (positions (run_tool_batches r))"

definition finalization_candidate :: "run_state \<Rightarrow> assistant_message option" where
  "finalization_candidate r = (case run_proposed_final_message_id r of
      None \<Rightarrow> None
    | Some mid \<Rightarrow> (case List.map_filter (\<lambda>m. case m of
          AssistantMsg a \<Rightarrow> if am_message_id a = mid \<and> am_tool_calls a = [] then Some a else None
        | _ \<Rightarrow> None) (run_transcript r) of
        [a] \<Rightarrow> Some a | _ \<Rightarrow> None))"

definition assistant_missing_tool_batch :: "run_state \<Rightarrow> assistant_message option" where
  "assistant_missing_tool_batch r =
     (let unresolved = unresolved_call_ids (run_transcript r);
          mids = map tb_assistant_message_id (run_tool_batches r) in
      case List.find (\<lambda>m. case m of
          AssistantMsg a \<Rightarrow> am_tool_calls a \<noteq> [] \<and> am_message_id a \<notin> set mids
            \<and> list_ex (\<lambda>c. tc_call_id c \<in> unresolved) (am_tool_calls a)
        | _ \<Rightarrow> False) (run_transcript r) of
        Some (AssistantMsg a) \<Rightarrow> Some a | _ \<Rightarrow> None)"

section \<open>Turn closure\<close>

record turn_closure =
  tcl_message_id :: string
  tcl_public_ids :: "string list"

definition sorted_entries :: "tool_batch \<Rightarrow> batch_entry list" where
  "sorted_entries b = sort_key be_source_index (tb_entries b)"

definition turn_batches :: "run_state \<Rightarrow> string \<Rightarrow> tool_batch list" where
  "turn_batches r turn = filter (\<lambda>b. batch_turn_id b = turn) (run_tool_batches r)"

definition turn_public_ids :: "tool_batch list \<Rightarrow> string list" where
  "turn_public_ids bs = public_call_ids (concat (map sorted_entries bs))"

definition canonical_final_turn_closure ::
  "run_state \<Rightarrow> string \<Rightarrow> string \<Rightarrow> turn_closure option" where
  "canonical_final_turn_closure r turn mid =
     (if list_all all_terminal (turn_batches r turn)
      then Some \<lparr>tcl_message_id = mid, tcl_public_ids = turn_public_ids (turn_batches r turn)\<rparr>
      else None)"

text \<open>\<open>(active if .. else None) or (batches[-1] if batches else None)\<close>\<close>

definition closing_message :: "run_state \<Rightarrow> tool_batch list \<Rightarrow> string \<Rightarrow> string option" where
  "closing_message r bs turn =
     (let active = (if run_active_internal_turn_id r = Some turn then run_active_assistant_message_id r
                    else None) in
      if truthy_str active then active
      else if bs = [] then None else Some (tb_assistant_message_id (last bs)))"

definition canonical_turn_closure :: "run_state \<Rightarrow> string \<Rightarrow> turn_closure option" where
  "canonical_turn_closure r turn =
     (let bs = turn_batches r turn in
      if \<not> list_all all_terminal bs then None
      else case closing_message r bs turn of
        None \<Rightarrow> None
      | Some mid \<Rightarrow> Some \<lparr>tcl_message_id = mid, tcl_public_ids = turn_public_ids bs\<rparr>)"

definition terminal_closure_is_complete :: "run_state \<Rightarrow> bool" where
  "terminal_closure_is_complete r = list_all (\<lambda>b. tb_results_flushed b
     \<and> list_all (\<lambda>e. be_state e = EsTerminal
         \<and> (be_acceptance e = None \<and> be_opaque_public_call_id e = None
            \<or> be_opaque_public_call_id e \<noteq> None \<and> be_public_terminal_emitted e)) (tb_entries b))
     (run_tool_batches r)"

text \<open>The public outcome, error flag and failure reason of a terminal result.\<close>

definition expected_public_terminal :: "tool_result \<Rightarrow> string \<times> bool \<times> string option" where
  "expected_public_terminal r = (case tr_status r of
      ResCompleted \<Rightarrow> (''completed'', False, None)
    | ResCanceled \<Rightarrow> (''canceled'', False, None)
    | ResRejected \<Rightarrow> (''failed'', True, Some ''rejected'')
    | ResExpired \<Rightarrow> (''failed'', True, Some ''expired'')
    | ResFailed \<Rightarrow> (''failed'', True, Some ''execution''))"

text \<open>\<open>ParkedInteractionCloseout\<close> of \<open>ports.py\<close>.\<close>

record parked_closeout =
  pco_result :: tool_result
  pco_local_cancellation_won :: bool

definition parked_closeout_result :: "batch_entry \<Rightarrow> parked_closeout \<Rightarrow> kernel_error + tool_result" where
  "parked_closeout_result e c =
     (let direct = tr_call_id (pco_result c) = be_call_id e \<and> tr_tool_name (pco_result c) = be_tool_name e;
          projected = be_surface_for_call_record_id e \<noteq> None
            \<and> be_surface_for_call_record_id e = be_suspended_call_record_id e in
      if \<not> direct \<and> \<not> projected
        then Inl (KernelConflict ''parked Agent-call terminal winner does not correlate'')
      else if pco_local_cancellation_won c then Inr
        \<lparr>tr_call_id = be_call_id e, tr_tool_name = be_tool_name e, tr_status = ResCanceled,
         tr_content = [], tr_artifact_refs = [], tr_error_code = Some ''interaction_abandoned'',
         tr_error_message = None\<rparr>
      else if direct then Inr (pco_result c)
      else Inr (pco_result c\<lparr>tr_call_id := be_call_id e, tr_tool_name := be_tool_name e\<rparr>))"

end
