(* ===== verification/Kernel_Observation.thy ===== *)
theory Kernel_Observation
  imports Kernel_Batches Budget
begin

text \<open>
  \<open>OrchestratorKernel.observe_tool\<close> up to its checkpoint: the guards of a Tool observation, the entry it
  updates, the closing of the surface rows that stood for the consumed round, the flush of the batches
  and the status the Run is left in. What it does before the checkpoint is a function of the
  loaded Run; \<open>Kernel_Checkpoint\<close> adds the store.
\<close>

section \<open>Guards\<close>

datatype observation_step =
    ObservationReplayed kernel_outcome
  | ObservationApplies nat nat batch_entry

definition observation_correlates :: "tool_observation \<Rightarrow> batch_entry \<Rightarrow> tool_invocation \<Rightarrow> check" where
  "observation_correlates obs e iv =
     (if to_invocation_id obs \<noteq> ti_invocation_id iv
      then Some ''observation invocation does not correlate''
      else case to_outcome obs of
        OutcomeResult x \<Rightarrow> require (tr_call_id x = be_call_id e \<and> tr_tool_name x = be_tool_name e)
          ''observation result does not correlate''
      | OutcomeSuspension x \<Rightarrow> require (ts_invocation_id x = ti_invocation_id iv)
          ''observation suspension does not correlate'')"

definition suspended_entry :: "batch_entry \<Rightarrow> bool" where
  "suspended_entry e \<longleftrightarrow> be_state e = EsWaitingExternal \<or> needs_input e"

definition observation_guard :: "run_state \<Rightarrow> tool_observation \<Rightarrow> kernel_error + observation_step" where
  "observation_guard r obs =
     (if run_st r = Canceling
        then Inl (KernelConflict ''canceling Run cannot accept a tool observation'')
      else case find_invocation r (to_invocation_id obs) of
        None \<Rightarrow> Inl (MissingKey (to_invocation_id obs))
      | Some (i, j, e) \<Rightarrow> (case be_invocation e of
          None \<Rightarrow> Inl (KernelConflict ''tool observation target has no invocation'')
        | Some iv \<Rightarrow> (case observation_correlates obs e iv of
            Some m \<Rightarrow> Inl (InvalidValue m)
          | None \<Rightarrow>
              let seen = to_observation_id obs \<in> set (be_processed_observation_ids e) in
              if is_terminal_status (run_st r) then
                (if seen then Inr (ObservationReplayed (outcome_for_status (run_st r)))
                 else Inl (KernelConflict ''terminal Run cannot accept a new tool observation''))
              else if run_st r \<notin> suspended_run_statuses
                then Inl (KernelConflict ''tool observations require a suspended Run'')
              else if \<not> suspended_entry e
                then Inl (KernelConflict ''tool observation target is not suspended'')
              else if seen then Inr (ObservationReplayed
                (if run_st r = WaitingExternal then OutWaitingExternal else OutAwaitingUser))
              else Inr (ObservationApplies i j e))))"

section \<open>The transition\<close>

fun suspension_state :: "suspension_status \<Rightarrow> entry_state" where
  "suspension_state SusWaitingExternal = EsWaitingExternal"
| "suspension_state SusInputRequired = EsInputRequired"
| "suspension_state SusAuthRequired = EsAuthRequired"

text \<open>A continuation round that differs from the one the entry has.\<close>

definition new_interaction :: "batch_entry \<Rightarrow> execution_outcome \<Rightarrow> bool" where
  "new_interaction e oc = (case oc of
      OutcomeResult _ \<Rightarrow> False
    | OutcomeSuspension s \<Rightarrow> be_interaction_id e \<noteq> ts_interaction_id s
        \<or> be_interaction_fingerprint e \<noteq> ts_interaction_fingerprint s
        \<or> be_interaction_questions e \<noteq> ts_questions s)"

definition observed_entry :: "tool_observation \<Rightarrow> batch_entry \<Rightarrow> batch_entry" where
  "observed_entry obs e =
     (let fresh = new_interaction e (to_outcome obs);
          e' = e\<lparr>be_processed_observation_ids := be_processed_observation_ids e @ [to_observation_id obs],
                 be_interaction_answers :=
                   with_interaction_answers (be_interaction_answers e) (to_interaction_answers obs)\<rparr> in
      case to_outcome obs of
        OutcomeResult x \<Rightarrow> e'\<lparr>be_state := EsTerminal, be_buffered_terminal_result := Some x\<rparr>
      | OutcomeSuspension s \<Rightarrow> e'\<lparr>be_state := suspension_state (ts_status s),
          be_suspended_call_record_id := ts_call_record_id s,
          be_interaction_id := ts_interaction_id s,
          be_interaction_fingerprint := ts_interaction_fingerprint s,
          be_interaction_questions := ts_questions s,
          be_presented := (if fresh then False else be_presented e),
          be_presentation_id := (if fresh then None else be_presentation_id e)\<rparr>)"

definition surface_result :: "execution_outcome \<Rightarrow> batch_entry \<Rightarrow> tool_result" where
  "surface_result oc s = (case oc of
      OutcomeResult x \<Rightarrow> x\<lparr>tr_call_id := be_call_id s, tr_tool_name := surface_tool\<rparr>
    | OutcomeSuspension _ \<Rightarrow>
        \<lparr>tr_call_id = be_call_id s, tr_tool_name = surface_tool, tr_status = ResCompleted,
         tr_content = [TextPart ''The user's answers were applied; the Agent requested follow-up input.''],
         tr_artifact_refs = [], tr_error_code = None, tr_error_message = None\<rparr>)"

text \<open>A surface row of another batch that shows the round of call record \<open>rec\<close>.\<close>

definition open_surface :: "string option \<Rightarrow> batch_entry \<Rightarrow> bool" where
  "open_surface rec s \<longleftrightarrow> rec \<noteq> None \<and> be_surface_for_call_record_id s = rec \<and> needs_input s"

definition close_surface :: "string option \<Rightarrow> execution_outcome \<Rightarrow> batch_entry \<Rightarrow> batch_entry" where
  "close_surface rec oc s = (if open_surface rec s
     then s\<lparr>be_state := EsTerminal, be_buffered_terminal_result := Some (surface_result oc s)\<rparr> else s)"

definition close_surfaces ::
  "nat \<Rightarrow> batch_entry \<Rightarrow> execution_outcome \<Rightarrow> tool_batch list \<Rightarrow> tool_batch list" where
  "close_surfaces i e oc bs =
     (if (case oc of OutcomeResult _ \<Rightarrow> True | _ \<Rightarrow> new_interaction e oc)
      then map (\<lambda>(k, b). if k = i then b
             else b\<lparr>tb_entries := map (close_surface (be_suspended_call_record_id e) oc) (tb_entries b)\<rparr>)
           (enumerate 0 bs)
      else bs)"

text \<open>
  The batches other than \<open>i\<close> that are terminal and not flushed, flushed in order. The last
  component is the list of their indices.
\<close>

fun flush_others :: "nat \<Rightarrow> datetime \<Rightarrow> nat \<Rightarrow> agent_message list \<Rightarrow> tool_batch list
    \<Rightarrow> kernel_error + (agent_message list \<times> tool_batch list \<times> nat list)" where
  "flush_others i now k tr [] = Inr (tr, [], [])"
| "flush_others i now k tr (b # bs) =
     (if k = i \<or> tb_results_flushed b \<or> \<not> all_terminal b
      then map_sum id (\<lambda>(tr', bs', ks). (tr', b # bs', ks)) (flush_others i now (Suc k) tr bs)
      else case flush_batch tr b now of
        Inl x \<Rightarrow> Inl x
      | Inr (tr1, b1) \<Rightarrow> map_sum id (\<lambda>(tr', bs', ks). (tr', b1 # bs', k # ks))
          (flush_others i now (Suc k) tr1 bs))"

definition observed_status :: "tool_batch list \<Rightarrow> run_status" where
  "observed_status bs =
     (if has_visible_input bs then AwaitingUser
      else if list_ex (\<lambda>b. list_ex (\<lambda>e. be_state e = EsExecuting \<or> be_state e = EsWaitingExternal)
                (tb_entries b)) bs then WaitingExternal
      else Running)"

definition is_result :: "execution_outcome \<Rightarrow> bool" where
  "is_result oc = (case oc of OutcomeResult _ \<Rightarrow> True | _ \<Rightarrow> False)"

text \<open>
  Everything between the guards and the checkpoint. The own batch is flushed before the others,
  and only by a result; the status the source writes first is replaced at the end by
  \<^const>\<open>observed_status\<close> in every case.
\<close>

definition observed_batches :: "tool_observation \<Rightarrow> nat \<Rightarrow> nat \<Rightarrow> batch_entry \<Rightarrow> tool_batch list \<Rightarrow> tool_batch list" where
  "observed_batches obs i j e bs =
     (let b = bs ! i; b' = b\<lparr>tb_entries := (tb_entries b)[j := observed_entry obs e]\<rparr> in
      close_surfaces i e (to_outcome obs) (bs[i := b']))"

definition flush_observed ::
  "tool_observation \<Rightarrow> nat \<Rightarrow> datetime \<Rightarrow> agent_message list \<Rightarrow> tool_batch list
     \<Rightarrow> kernel_error + (agent_message list \<times> tool_batch list \<times> nat list)" where
  "flush_observed obs i now tr bs =
     (case (if is_result (to_outcome obs)
            then map_sum id (\<lambda>(tr', b'). (tr', bs[i := b'])) (flush_batch tr (bs ! i) now)
            else Inr (tr, bs)) of
        Inl x \<Rightarrow> Inl x
      | Inr (tr', bs') \<Rightarrow> flush_others i now 0 tr' bs')"

definition observed_refs :: "execution_outcome \<Rightarrow> string list \<Rightarrow> string list" where
  "observed_refs oc refs = (case oc of OutcomeResult x \<Rightarrow> merge_artifact_refs refs [x] | _ \<Rightarrow> refs)"

definition apply_observation ::
  "run_state \<Rightarrow> tool_observation \<Rightarrow> datetime \<Rightarrow> nat \<Rightarrow> nat \<Rightarrow> batch_entry \<Rightarrow> kernel_error + (run_state \<times> nat list)" where
  "apply_observation r obs now i j e =
     (case flush_observed obs i now (run_transcript r) (observed_batches obs i j e (run_tool_batches r)) of
        Inl x \<Rightarrow> Inl x
      | Inr (tr, bs, ks) \<Rightarrow> Inr
          (r\<lparr>run_tool_batches := bs, run_transcript := tr,
             run_artifact_refs := observed_refs (to_outcome obs) (run_artifact_refs r),
             run_consecutive_model_joins :=
               (if is_result (to_outcome obs) then 0 else run_consecutive_model_joins r),
             run_st := observed_status bs\<rparr>, ks))"

definition observe :: "run_state \<Rightarrow> tool_observation \<Rightarrow> datetime \<Rightarrow> kernel_error + run_state" where
  "observe r obs now = (case observation_guard r obs of
      Inl x \<Rightarrow> Inl x
    | Inr (ObservationReplayed _) \<Rightarrow> Inr r
    | Inr (ObservationApplies i j e) \<Rightarrow> map_sum id fst (apply_observation r obs now i j e))"

end
