(* ===== verification/Kernel_Checkpoint.thy ===== *)
theory Kernel_Checkpoint
  imports Kernel_Observation Store_Operations
begin

text \<open>
  The methods of \<open>OrchestratorKernel\<close> that write through the Run store: \<open>_checkpoint\<close>, \<open>_load\<close>,
  \<open>_update_entry\<close> with its one retry, the publication of checkpointed Tool ends and suspensions,
  \<open>_present_interactions\<close>, and the methods that append to the transcript or add a batch.

  A method is a function of the world it runs in: the store, what other actors do before each store
  call, the clock, and the lifecycle events emitted so far. Other actors act between two
  store calls; the race inside one compare-and-swap is the subject of \<open>Run_Store\<close>. The lifecycle
  callback is taken to return.
\<close>

section \<open>The world of a method\<close>

type_synonym kernel_event = "string \<times> (string \<times> json) list"

record kernel_world =
  kw_store :: run_store
  kw_others :: "nat \<Rightarrow> store_request list"
  kw_clock :: "nat \<Rightarrow> datetime"
  kw_tick :: nat
  kw_lifecycle :: bool
  kw_emitted :: "kernel_event list"

text \<open>What the kernel is constructed with: the digest, \<open>json.dumps\<close> and the key of the due scan.\<close>

record kernel_env =
  kn_digest :: "string \<Rightarrow> string"
  kn_dumps :: "json \<Rightarrow> string"
  kn_sort_key :: "datetime \<Rightarrow> string"

datatype kernel_exn = KernelRaised kernel_error | StoreFailed store_exn | BudgetRaised budget_exn

type_synonym 'a action = "kernel_world \<Rightarrow> (kernel_exn + 'a) \<times> kernel_world"

definition returns :: "'a \<Rightarrow> 'a action" where
  "returns x w = (Inr x, w)"

definition raises :: "kernel_exn \<Rightarrow> 'a action" where
  "raises e w = (Inl e, w)"

definition conflict :: "string \<Rightarrow> 'a action" where
  "conflict m = raises (KernelRaised (KernelConflict m))"

definition andthen :: "'a action \<Rightarrow> ('a \<Rightarrow> 'b action) \<Rightarrow> 'b action" where
  "andthen m k w = (case m w of (Inl e, w') \<Rightarrow> (Inl e, w') | (Inr x, w') \<Rightarrow> k x w')"

fun for_each :: "('a \<Rightarrow> 'b \<Rightarrow> 'b action) \<Rightarrow> 'a list \<Rightarrow> 'b \<Rightarrow> 'b action" where
  "for_each body [] s = returns s"
| "for_each body (x # xs) s = andthen (body x s) (for_each body xs)"

definition now_is :: "datetime action" where
  "now_is w = (Inr (kw_clock w (kw_tick w)), w\<lparr>kw_tick := Suc (kw_tick w)\<rparr>)"

text \<open>One awaited store call: the others act, then it runs.\<close>

definition stored_before :: "kernel_env \<Rightarrow> kernel_world \<Rightarrow> run_store" where
  "stored_before env w = foldl (execute (kn_sort_key env)) (kw_store w) (kw_others w (kw_tick w))"

definition await_store :: "kernel_env \<Rightarrow> (run_store \<Rightarrow> (store_exn + 'a) \<times> run_store) \<Rightarrow> 'a action" where
  "await_store env op w = (case op (stored_before env w) of
      (Inl e, s) \<Rightarrow> (Inl (StoreFailed e), w\<lparr>kw_store := s, kw_tick := Suc (kw_tick w)\<rparr>)
    | (Inr x, s) \<Rightarrow> (Inr x, w\<lparr>kw_store := s, kw_tick := Suc (kw_tick w)\<rparr>))"

definition emits :: "string \<Rightarrow> (string \<times> json) list \<Rightarrow> unit action" where
  "emits kind payload w = (Inr (), if kw_lifecycle w
     then w\<lparr>kw_emitted := kw_emitted w @ [(kind, payload)]\<rparr> else w)"

section \<open>Checkpoints\<close>

definition load_run :: "kernel_env \<Rightarrow> string \<Rightarrow> run_state action" where
  "load_run env rid = andthen (await_store env (\<lambda>s. (load s rid, s))) (\<lambda>x. case x of
      None \<Rightarrow> raises (KernelRaised (MissingKey rid)) | Some r \<Rightarrow> returns r)"

definition outcome_name :: "outcome \<Rightarrow> string" where
  "outcome_name oc = (case oc of Accepted \<Rightarrow> ''accepted'' | Replayed \<Rightarrow> ''replayed''
     | Conflict \<Rightarrow> ''conflict'' | StoreError \<Rightarrow> ''store_error'')"

text \<open>The update applies to the Run; then the deadline clock, the version and the time.\<close>

definition checkpoint_candidate :: "(run_state \<Rightarrow> run_state) \<Rightarrow> run_state \<Rightarrow> datetime \<Rightarrow> run_state" where
  "checkpoint_candidate upd r now =
     (let u = upd r in u\<lparr>run_budget := apply_suspension_clock (run_budget u)
            (run_st u \<in> suspended_run_statuses) now,
        run_state_version := run_state_version r + 1, run_updated_at := now\<rparr>)"

definition checkpoint_failed :: "string \<Rightarrow> outcome \<Rightarrow> 'a action" where
  "checkpoint_failed cmd oc = conflict (''checkpoint failed: '' @ cmd @ '':'' @ outcome_name oc)"

text \<open>What is made of the answer of the store.\<close>

definition checkpoint_reply ::
  "kernel_env \<Rightarrow> run_state \<Rightarrow> string \<Rightarrow> outcome \<times> run_state option \<Rightarrow> run_state action" where
  "checkpoint_reply env r cmd ans = (case ans of
      (Accepted, Some y) \<Rightarrow> returns y
    | (Replayed, Some y) \<Rightarrow> returns y
    | (Conflict, _) \<Rightarrow> andthen (load_run env (run_id r)) (\<lambda>cur.
         if run_st cur = Canceling then raises (KernelRaised CancellationPending)
         else if cmd \<in> set (run_processed_command_ids cur) then returns cur
         else checkpoint_failed cmd Conflict)
    | (oc, _) \<Rightarrow> checkpoint_failed cmd oc)"

definition checkpoint :: "kernel_env \<Rightarrow> run_state \<Rightarrow> (run_state \<Rightarrow> run_state) \<Rightarrow> string \<Rightarrow> run_state action" where
  "checkpoint env r upd cmd = andthen now_is (\<lambda>now.
     andthen (await_store env (\<lambda>s. cas_now s (checkpoint_candidate upd r now) (run_state_version r) cmd))
       (checkpoint_reply env r cmd))"

section \<open>One entry\<close>

text \<open>The keyword arguments of \<open>_update_entry\<close>; a \<open>None\<close> keeps the field, except of the result.\<close>

record entry_patch =
  ep_state :: entry_state
  ep_invocation :: "tool_invocation option"
  ep_acceptance :: "tool_acceptance option"
  ep_opaque_public_call_id :: "string option"
  ep_result :: "tool_result option"
  ep_public_update_index :: "int option"
  ep_public_terminal_emitted :: "bool option"

definition or_keep :: "'a option \<Rightarrow> 'a \<Rightarrow> 'a" where
  "or_keep x y = (case x of None \<Rightarrow> y | Some z \<Rightarrow> z)"

definition patch_entry :: "entry_patch \<Rightarrow> batch_entry \<Rightarrow> batch_entry" where
  "patch_entry p e = e\<lparr>be_state := ep_state p, be_buffered_terminal_result := ep_result p,
     be_invocation := (if ep_invocation p = None then be_invocation e else ep_invocation p),
     be_acceptance := (if ep_acceptance p = None then be_acceptance e else ep_acceptance p),
     be_opaque_public_call_id := (if ep_opaque_public_call_id p = None then be_opaque_public_call_id e
        else ep_opaque_public_call_id p),
     be_public_update_index := or_keep (ep_public_update_index p) (be_public_update_index e),
     be_public_terminal_emitted := or_keep (ep_public_terminal_emitted p) (be_public_terminal_emitted e)\<rparr>"

definition put_entry :: "nat \<Rightarrow> nat \<Rightarrow> batch_entry \<Rightarrow> run_state \<Rightarrow> run_state" where
  "put_entry i j e r = (let bs = run_tool_batches r; b = bs ! i in
     r\<lparr>run_tool_batches := bs[i := b\<lparr>tb_entries := (tb_entries b)[j := e]\<rparr>]\<rparr>)"

definition entry_at :: "run_state \<Rightarrow> nat \<Rightarrow> nat \<Rightarrow> batch_entry" where
  "entry_at r i j = tb_entries (run_tool_batches r ! i) ! j"

text \<open>\<open>except KernelConflict\<close>: the other exceptions pass.\<close>

definition on_conflict :: "'a action \<Rightarrow> 'a action \<Rightarrow> 'a action" where
  "on_conflict m h w = (case m w of
      (Inl (KernelRaised (KernelConflict _)), w') \<Rightarrow> h w'
    | res \<Rightarrow> res)"

definition update_entry ::
  "kernel_env \<Rightarrow> run_state \<Rightarrow> nat \<Rightarrow> nat \<Rightarrow> entry_patch \<Rightarrow> string \<Rightarrow> run_state action" where
  "update_entry env r i j p cmd =
     (let original = entry_at r i j; desired = patch_entry p original in
      on_conflict (checkpoint env r (put_entry i j desired) cmd)
        (andthen (load_run env (run_id r)) (\<lambda>cur.
           case find_entry cur (be_assistant_message_id original) (be_call_id original) of
             None \<Rightarrow> conflict ''tool entry disappeared during CAS retry''
           | Some (i', j', e') \<Rightarrow>
               if e' = desired then returns cur
               else if e' \<noteq> original then conflict ''tool entry changed during CAS retry''
               else checkpoint env cur (put_entry i' j' desired) cmd)))"

section \<open>Publication\<close>

definition tool_label :: "run_state \<Rightarrow> string \<Rightarrow> string option" where
  "tool_label r tool = (case run_tool_catalog r of
      None \<Rightarrow> None
    | Some c \<Rightarrow> (case List.find (\<lambda>x. td_name (ce_definition x) = tool) (tcat_entries c) of
        None \<Rightarrow> None
      | Some x \<Rightarrow> (let l = py_strip (td_label (ce_definition x)) in if l = [] then None else Some l)))"

definition tool_binding_id :: "run_state \<Rightarrow> string \<Rightarrow> string option" where
  "tool_binding_id r tool = (case run_tool_catalog r of
      None \<Rightarrow> None
    | Some c \<Rightarrow> map_option (tbr_binding_id \<circ> ce_binding)
        (List.find (\<lambda>x. td_name (ce_definition x) = tool) (tcat_entries c)))"

definition result_status_name :: "result_status \<Rightarrow> string" where
  "result_status_name s = (case s of ResCompleted \<Rightarrow> ''completed'' | ResFailed \<Rightarrow> ''failed''
     | ResCanceled \<Rightarrow> ''canceled'' | ResRejected \<Rightarrow> ''rejected'' | ResExpired \<Rightarrow> ''expired'')"

text \<open>\<open>f"{x}"\<close> of an optional string.\<close>

definition show_opt :: "string option \<Rightarrow> string" where
  "show_opt x = (case x of None \<Rightarrow> ''None'' | Some s \<Rightarrow> s)"

definition public_call_id_of :: "kernel_env \<Rightarrow> run_state \<Rightarrow> batch_entry \<Rightarrow> string" where
  "public_call_id_of env r e = (if truthy_str (be_opaque_public_call_id e)
     then or_empty (be_opaque_public_call_id e)
     else opaque_public_call_id (kn_digest env) (run_id r) (be_call_id e))"

definition tool_end_fields ::
  "kernel_env \<Rightarrow> run_state \<Rightarrow> batch_entry \<Rightarrow> tool_result \<Rightarrow> string \<Rightarrow> string \<Rightarrow> (string \<times> json) list" where
  "tool_end_fields env r e x turn text =
     [(''public_event_id'', JStr (''public:'' @ run_id r @ '':'' @ show_opt (be_opaque_public_call_id e) @ '':end'')),
      (''call_id'', JStr (be_call_id e)),
      (''public_call_id'', JStr (public_call_id_of env r e)),
      (''internal_turn_id'', JStr turn),
      (''status'', JStr (result_status_name (tr_status x))),
      (''result_status'', JStr (result_status_name (tr_status x))),
      (''result_error_code'', opt_json (tr_error_code x)),
      (''result_error_message'', opt_json (tr_error_message x)),
      (''tool_name'', JStr (be_tool_name e)),
      (''agent_label'', opt_json (tool_label r (be_tool_name e))),
      (''duration_ms'', JInt 0),
      (''result_text'', JStr text)]"

definition tool_end_payload :: "kernel_env \<Rightarrow> run_state \<Rightarrow> batch_entry \<Rightarrow> tool_result \<Rightarrow> string \<Rightarrow> (string \<times> json) list" where
  "tool_end_payload env r e x turn = tool_end_fields env r e x turn
     (if be_tool_name e = request_input_tool then [] else kernel_result_text (kn_dumps env) x)"

definition publishable :: "batch_entry \<Rightarrow> bool" where
  "publishable e \<longleftrightarrow> be_state e = EsTerminal \<and> be_buffered_terminal_result e \<noteq> None
     \<and> \<not> be_public_terminal_emitted e
     \<and> (be_acceptance e \<noteq> None \<or> be_opaque_public_call_id e \<noteq> None)"

definition keep_patch :: "entry_state \<Rightarrow> tool_result option \<Rightarrow> entry_patch" where
  "keep_patch st x = \<lparr>ep_state = st, ep_invocation = None, ep_acceptance = None,
     ep_opaque_public_call_id = None, ep_result = x, ep_public_update_index = None,
     ep_public_terminal_emitted = None\<rparr>"

definition publish_terminal :: "kernel_env \<Rightarrow> nat \<Rightarrow> string \<Rightarrow> nat \<Rightarrow> run_state \<Rightarrow> run_state action" where
  "publish_terminal env i turn j r =
     (let e = entry_at r i j in
      if \<not> publishable e then returns r
      else case be_buffered_terminal_result e of
        None \<Rightarrow> returns r
      | Some x \<Rightarrow> andthen (emits ''tool_execution_completed'' (tool_end_payload env r e x turn)) (\<lambda>_.
          update_entry env r i j ((keep_patch EsTerminal (Some x))\<lparr>ep_public_terminal_emitted := Some True\<rparr>)
            (''public-tool-end:'' @ be_call_id e)))"

definition publish_checkpointed_tool_terminals ::
  "kernel_env \<Rightarrow> run_state \<Rightarrow> nat \<Rightarrow> string \<Rightarrow> run_state action" where
  "publish_checkpointed_tool_terminals env r i turn =
     for_each (publish_terminal env i turn) [0..<length (tb_entries (run_tool_batches r ! i))] r"

definition publish_consumed_parent_terminals :: "kernel_env \<Rightarrow> run_state \<Rightarrow> nat \<Rightarrow> run_state action" where
  "publish_consumed_parent_terminals env r i =
     for_each (\<lambda>k x. if k = i then returns x
         else publish_checkpointed_tool_terminals env x k (batch_turn_id (run_tool_batches x ! k)))
       [0..<length (run_tool_batches r)] r"

definition tool_update_payload ::
  "kernel_env \<Rightarrow> run_state \<Rightarrow> batch_entry \<Rightarrow> string \<Rightarrow> int \<Rightarrow> string \<Rightarrow> (string \<times> json) list" where
  "tool_update_payload env r e turn n status =
     [(''public_event_id'', JStr (''public:'' @ run_id r @ '':'' @ show_opt (be_opaque_public_call_id e)
        @ '':update:'' @ show_int n)),
      (''call_id'', JStr (be_call_id e)),
      (''public_call_id'', JStr (public_call_id_of env r e)),
      (''internal_turn_id'', JStr turn),
      (''tool_name'', JStr (be_tool_name e)),
      (''agent_label'', opt_json (tool_label r (be_tool_name e))),
      (''update_index'', JInt n),
      (''status'', JStr status),
      (''partial_result'', JStr [])]"

definition publish_suspension :: "kernel_env \<Rightarrow> nat \<Rightarrow> string \<Rightarrow> nat \<Rightarrow> run_state \<Rightarrow> run_state action" where
  "publish_suspension env i turn j r =
     (let e = entry_at r i j; n = be_public_update_index e + 1 in
      if \<not> suspended_entry e then returns r
      else andthen (emits ''tool_execution_updated'' (tool_update_payload env r e turn n ''suspended'')) (\<lambda>_.
        update_entry env r i j
          \<lparr>ep_state = be_state e, ep_invocation = be_invocation e, ep_acceptance = be_acceptance e,
           ep_opaque_public_call_id = be_opaque_public_call_id e,
           ep_result = be_buffered_terminal_result e, ep_public_update_index = Some n,
           ep_public_terminal_emitted = None\<rparr>
          (''public-tool-suspended:'' @ be_call_id e @ '':'' @ show_int n)))"

definition publish_checkpointed_suspensions ::
  "kernel_env \<Rightarrow> run_state \<Rightarrow> nat \<Rightarrow> string \<Rightarrow> run_state action" where
  "publish_checkpointed_suspensions env r i turn =
     for_each (publish_suspension env i turn) [0..<length (tb_entries (run_tool_batches r ! i))] r"

end
