(* ===== verification/Kernel_Steps.thy ===== *)
theory Kernel_Steps
  imports Kernel_Checkpoint
begin

text \<open>
  The methods of \<open>OrchestratorKernel\<close> that extend a Run by one checkpoint: the assistant message with
  its batch, the reconstruction of a lost batch, the rejection of Tools during wrap-up, notices,
  the presentation of parked questions to the model, the recording of provider attempts and usage,
  and the refresh of the resource manifest. \<open>execute_one\<close> is the guarded call of the Tool runtime.
\<close>

section \<open>Transcript and batches\<close>

definition with_assistant :: "assistant_message \<Rightarrow> run_state \<Rightarrow> run_state" where
  "with_assistant a r =
     (let r' = r\<lparr>run_transcript := run_transcript r @ [AssistantMsg a]\<rparr> in
      if am_tool_calls a \<noteq> []
      then r'\<lparr>run_tool_batches := run_tool_batches r @ [new_tool_batch a (run_active_internal_turn_id r)]\<rparr>
      else r'\<lparr>run_proposed_final_message_id := Some (am_message_id a), run_st := Finalizing\<rparr>)"

definition append_assistant :: "kernel_env \<Rightarrow> run_state \<Rightarrow> assistant_message \<Rightarrow> run_state action" where
  "append_assistant env r a = checkpoint env r (with_assistant a) (''assistant:'' @ am_message_id a)"

definition is_notice :: "string \<Rightarrow> agent_message \<Rightarrow> bool" where
  "is_notice nid m = (case m of NoticeMsg n \<Rightarrow> sn_notice_id n = nid | _ \<Rightarrow> False)"

definition append_notice :: "kernel_env \<Rightarrow> run_state \<Rightarrow> session_notice \<Rightarrow> run_state action" where
  "append_notice env r n =
     (if list_ex (is_notice (sn_notice_id n)) (run_transcript r) then returns r
      else checkpoint env r (\<lambda>r. r\<lparr>run_transcript := run_transcript r @ [NoticeMsg n]\<rparr>)
             (''notice:'' @ sn_notice_id n))"

fun presented_call :: "agent_message \<Rightarrow> string list" where
  "presented_call (ToolInteractionMsg t) = [tim_call_id t]"
| "presented_call _ = []"

definition ensure_tool_batch :: "kernel_env \<Rightarrow> run_state \<Rightarrow> assistant_message \<Rightarrow> run_state action" where
  "ensure_tool_batch env r a =
     (let ids = map tc_call_id (am_tool_calls a);
          known = unresolved_call_ids (run_transcript r)
            \<union> set (concat (map presented_call (run_transcript r))) in
      if list_ex (\<lambda>b. tb_assistant_message_id b = am_message_id a) (run_tool_batches r) then returns r
      else if ids = [] \<or> \<not> list_all (\<lambda>c. c \<in> known) ids
        then conflict ''tool batch reconstruction is inconsistent''
      else checkpoint env r (\<lambda>r. r\<lparr>run_tool_batches :=
             run_tool_batches r @ [new_tool_batch a (run_active_internal_turn_id r)]\<rparr>)
             (''reconstruct-tool-batch:'' @ am_message_id a))"

fun find_index :: "('a \<Rightarrow> bool) \<Rightarrow> 'a list \<Rightarrow> nat option" where
  "find_index P [] = None"
| "find_index P (x # xs) = (if P x then Some 0 else map_option Suc (find_index P xs))"

text \<open>A dictionary of the calls by id keeps the last call of an id.\<close>

definition call_named :: "assistant_message \<Rightarrow> string \<Rightarrow> tool_call option" where
  "call_named a cid = List.find (\<lambda>c. tc_call_id c = cid) (rev (am_tool_calls a))"

fun grace_entries :: "assistant_message \<Rightarrow> batch_entry list \<Rightarrow> kernel_error + batch_entry list" where
  "grace_entries a [] = Inr []"
| "grace_entries a (e # es) = (case call_named a (be_call_id e) of
      None \<Rightarrow> Inl (KernelConflict ''wrap-up tool batch does not correlate'')
    | Some c \<Rightarrow> map_sum id (\<lambda>es'. e\<lparr>be_state := EsTerminal, be_buffered_terminal_result :=
          Some (kernel_tool_error c ''grace_tools_disabled'' ''Tools are disabled during wrap-up.'')\<rparr> # es')
        (grace_entries a es))"

definition reject_grace_tools :: "kernel_env \<Rightarrow> run_state \<Rightarrow> assistant_message \<Rightarrow> run_state action" where
  "reject_grace_tools env r a =
     (case find_index (\<lambda>b. tb_assistant_message_id b = am_message_id a \<and> \<not> tb_results_flushed b)
             (run_tool_batches r) of
        None \<Rightarrow> conflict ''wrap-up tool batch is missing''
      | Some i \<Rightarrow> (case grace_entries a (tb_entries (run_tool_batches r ! i)) of
          Inl x \<Rightarrow> raises (KernelRaised x)
        | Inr es \<Rightarrow> andthen now_is (\<lambda>now.
            case flush_batch (run_transcript r) ((run_tool_batches r ! i)\<lparr>tb_entries := es\<rparr>) now of
              Inl x \<Rightarrow> raises (KernelRaised x)
            | Inr (tr, b) \<Rightarrow> checkpoint env r
                (\<lambda>r. r\<lparr>run_transcript := tr, run_tool_batches := (run_tool_batches r)[i := b]\<rparr>)
                (''reject-grace-tools:'' @ am_message_id a))))"

section \<open>Presentation\<close>

definition presentable :: "batch_entry \<Rightarrow> bool" where
  "presentable e \<longleftrightarrow> needs_input e \<and> \<not> be_presented e \<and> be_surface_for_call_record_id e = None
     \<and> be_interaction_id e \<noteq> None \<and> be_interaction_fingerprint e \<noteq> None"

definition interaction_message_id :: "batch_entry \<Rightarrow> string" where
  "interaction_message_id e =
     ''interaction:'' @ be_call_id e @ '':'' @ or_empty (be_interaction_fingerprint e)"

definition interaction_message ::
  "(string \<Rightarrow> string) \<Rightarrow> run_state \<Rightarrow> datetime \<Rightarrow> batch_entry \<Rightarrow> tool_interaction_message" where
  "interaction_message digest r now e = \<lparr>tim_message_id = interaction_message_id e,
     tim_call_id = be_call_id e, tim_tool_name = be_tool_name e,
     tim_presentation_id = Some (presentation_id digest r e),
     tim_interaction_id = or_empty (be_interaction_id e),
     tim_interaction_fingerprint = or_empty (be_interaction_fingerprint e),
     tim_questions = be_interaction_questions e, tim_artifact_refs = [],
     tim_agent_label = tool_label r (be_tool_name e),
     tim_interaction_answers = be_interaction_answers e, tim_created_at = now\<rparr>"

definition is_interaction :: "string \<Rightarrow> agent_message \<Rightarrow> bool" where
  "is_interaction mid m = (case m of ToolInteractionMsg t \<Rightarrow> tim_message_id t = mid | _ \<Rightarrow> False)"

text \<open>An existing message is rewritten in place and keeps its time.\<close>

definition put_interaction :: "tool_interaction_message \<Rightarrow> agent_message list \<Rightarrow> agent_message list" where
  "put_interaction t tr = (case List.find (is_interaction (tim_message_id t)) tr of
      Some (ToolInteractionMsg old) \<Rightarrow> replace_first (is_interaction (tim_message_id t))
        (ToolInteractionMsg (t\<lparr>tim_created_at := tim_created_at old\<rparr>)) tr
    | _ \<Rightarrow> tr @ [ToolInteractionMsg t])"

definition present_entry :: "(string \<Rightarrow> string) \<Rightarrow> run_state \<Rightarrow> batch_entry \<Rightarrow> batch_entry" where
  "present_entry digest r e = (if presentable e
     then e\<lparr>be_presented := True, be_presentation_id := Some (presentation_id digest r e)\<rparr> else e)"

text \<open>The Run with its parked questions presented, before the events.\<close>

definition presented_run :: "(string \<Rightarrow> string) \<Rightarrow> run_state \<Rightarrow> datetime \<Rightarrow> run_state" where
  "presented_run digest r now = r
     \<lparr>run_transcript := foldl (\<lambda>tr e. put_interaction (interaction_message digest r now e) tr)
        (run_transcript r) (filter presentable (run_entries r)),
      run_tool_batches := map (\<lambda>b. b\<lparr>tb_entries := map (present_entry digest r) (tb_entries b)\<rparr>)
        (run_tool_batches r)\<rparr>"

definition decision_payload :: "run_state \<Rightarrow> batch_entry \<Rightarrow> (string \<times> json) list" where
  "decision_payload r e =
     [(''internal_turn_id'', JStr (if truthy_str (run_active_internal_turn_id r)
         then or_empty (run_active_internal_turn_id r) else be_assistant_message_id e)),
      (''decision'', JStr ''interaction_received''),
      (''agent_label'', opt_json (tool_label r (be_tool_name e))),
      (''question_summary'', JStr (interaction_question_summary (be_interaction_questions e)))]"

definition present_interactions :: "kernel_env \<Rightarrow> run_state \<Rightarrow> run_state action" where
  "present_interactions env r = andthen now_is (\<lambda>now.
     for_each (\<lambda>e x. andthen (emits ''model_decision'' (decision_payload x e)) (\<lambda>_. returns x))
       (filter presentable (run_entries r)) (presented_run (kn_digest env) r now))"

section \<open>Provider attempts and usage\<close>

definition attempt_key :: "string \<Rightarrow> string option \<Rightarrow> int \<Rightarrow> string" where
  "attempt_key turn mid n = (case mid of
      None \<Rightarrow> turn @ '':'' @ show_int n
    | Some m \<Rightarrow> turn @ '':'' @ m @ '':'' @ show_int n)"

definition event_attempt :: "stream_event \<Rightarrow> int" where
  "event_attempt ev = (if truthy_int (se_attempt ev) then or_keep (se_attempt ev) 1 else 1)"

definition usage_key :: "usage_record \<Rightarrow> string" where
  "usage_key u = show_int (ur_input_tokens u) @ '':'' @ show_int (ur_output_tokens u) @ '':''
     @ show_int (ur_cache_read_tokens u) @ '':'' @ show_int (ur_cache_write_tokens u)"

definition set_budget :: "budget_state \<Rightarrow> run_state \<Rightarrow> run_state" where
  "set_budget b r = r\<lparr>run_budget := b\<rparr>"

definition record_model_event ::
  "kernel_env \<Rightarrow> run_state \<Rightarrow> string \<Rightarrow> stream_event \<Rightarrow> string option \<Rightarrow> run_state action" where
  "record_model_event env r turn ev mid =
     (let n = event_attempt ev; key = attempt_key turn mid n in
      if se_kind ev = SkAttemptStarted then
        (case record_provider_attempt (run_budget r) (run_profile r) key (1 < n) of
           Inl e \<Rightarrow> raises (BudgetRaised e)
         | Inr b \<Rightarrow> checkpoint env r (set_budget b) (''provider-attempt:'' @ key))
      else case (se_kind ev, se_usage ev) of
        (SkUsage, Some u) \<Rightarrow>
          (case record_usage_snapshot (run_budget r) key u of
             Inl e \<Rightarrow> raises (BudgetRaised e)
           | Inr b \<Rightarrow> andthen (checkpoint env r (set_budget b)
                 (''provider-usage:'' @ key @ '':'' @ usage_key u)) (\<lambda>x.
               case before_token_side_effect (run_budget x) (run_profile x) of
                 Some e \<Rightarrow> raises (BudgetRaised e) | None \<Rightarrow> returns x))
      | _ \<Rightarrow> returns r)"

section \<open>The Tool runtime\<close>

text \<open>What the runtime raises: a cancellation, which passes, or any other exception with its text.\<close>

datatype tool_exn = ToolCallCancelled | ToolCallFailed string

definition execute_one ::
  "(tool_invocation \<Rightarrow> tool_acceptance \<Rightarrow> tool_exn + execution_outcome) \<Rightarrow> tool_invocation
     \<Rightarrow> tool_acceptance \<Rightarrow> execution_outcome option" where
  "execute_one runtime iv acc =
     (let bad = (\<lambda>st code msg. OutcomeResult \<lparr>tr_call_id = ti_invocation_id iv,
            tr_tool_name = td_name (rt_definition (ti_tool iv)), tr_status = st, tr_content = [],
            tr_artifact_refs = [], tr_error_code = Some code, tr_error_message = Some msg\<rparr>) in
      if ta_invocation_id acc \<noteq> ti_invocation_id iv \<or> ta_idempotency_key acc \<noteq> ti_idempotency_key iv
      then Some (bad ResRejected ''acceptance_mismatch'' ''tool acceptance does not correlate'')
      else case runtime iv acc of
        Inr oc \<Rightarrow> Some oc
      | Inl ToolCallCancelled \<Rightarrow> None
      | Inl (ToolCallFailed msg) \<Rightarrow> Some (bad ResFailed ''tool_execution_failed'' (take 500 msg)))"

section \<open>The resource manifest\<close>

definition resource_kind_name :: "resource_kind \<Rightarrow> string" where
  "resource_kind_name k = (case k of RkContext \<Rightarrow> ''context'' | RkArtifact \<Rightarrow> ''artifact''
     | RkAttachment \<Rightarrow> ''attachment'')"

text \<open>The dump of a reference with sorted keys.\<close>

definition resource_json :: "prepared_resource_ref \<Rightarrow> json" where
  "resource_json x = JObj [(''content_digest'', JStr (pr_content_digest x)),
     (''kind'', JStr (resource_kind_name (pr_kind x))), (''mime_type'', opt_json (pr_mime_type x)),
     (''ref_id'', JStr (pr_ref_id x)), (''size_bytes'', JInt (pr_size_bytes x)),
     (''source_message_id'', JStr (pr_source_message_id x))]"

definition resource_manifest_from_refs :: "kernel_env \<Rightarrow> prepared_resource_ref list \<Rightarrow> resource_manifest" where
  "resource_manifest_from_refs env refs =
     (let d = kn_digest env (kn_dumps env (JArr (map resource_json refs))) in
      \<lparr>rm_manifest_id = ''manifest-'' @ d, rm_refs = refs, rm_content_digest = d\<rparr>)"

type_synonym metadata_reader = "string \<Rightarrow> string \<Rightarrow> int \<Rightarrow> prepared_resource_ref option"

fun describe_refs ::
  "metadata_reader option \<Rightarrow> run_state \<Rightarrow> string list \<Rightarrow> kernel_error + prepared_resource_ref list" where
  "describe_refs reader r [] = Inr []"
| "describe_refs reader r (ref # refs) =
     (let described = (case reader of None \<Rightarrow> None
        | Some f \<Rightarrow> f ref (run_conversation_id r) (rr_room_epoch (run_req r))) in
      case described of
        Some x \<Rightarrow> map_sum id (\<lambda>xs. x # xs) (describe_refs reader r refs)
      | None \<Rightarrow>
          if starts_with ''art_'' ref
          then Inl (KernelConflict (''inline artifact metadata is unavailable: '' @ ref))
          else map_sum id (\<lambda>xs. \<lparr>pr_ref_id = ref, pr_kind = RkArtifact,
              pr_source_message_id = rr_user_message_id (run_req r), pr_mime_type = None,
              pr_size_bytes = 0, pr_content_digest = []\<rparr> # xs) (describe_refs reader r refs))"

definition pending_refs :: "run_state \<Rightarrow> resource_manifest \<Rightarrow> string list" where
  "pending_refs r m = filter (\<lambda>ref. ref \<noteq> [] \<and> ref \<notin> set (map pr_ref_id (rm_refs m))) (run_artifact_refs r)"

text \<open>
  One pass of the loop; a Run loaded after a lost race is read for its manifest again, and a manifest
  that is gone raises (\<open>current.resource_manifest.refs\<close> of \<open>None\<close>, an \<open>AttributeError\<close>).
\<close>

fun refresh_manifest :: "kernel_env \<Rightarrow> metadata_reader option \<Rightarrow> nat \<Rightarrow> run_state \<Rightarrow> run_state action" where
  "refresh_manifest env reader 0 r = conflict ''resource manifest refresh did not converge''"
| "refresh_manifest env reader (Suc n) r = (case run_resource_manifest r of
      None \<Rightarrow> raises (KernelRaised (InvalidValue ''NoneType has no attribute refs''))
    | Some m \<Rightarrow>
        if pending_refs r m = [] then returns r
        else (case describe_refs reader r (pending_refs r m) of
          Inl x \<Rightarrow> raises (KernelRaised x)
        | Inr new \<Rightarrow>
            let m' = resource_manifest_from_refs env (rm_refs m @ new) in
            on_conflict (checkpoint env r (\<lambda>r. r\<lparr>run_resource_manifest := Some m'\<rparr>)
                (''resource-manifest:'' @ run_id r @ '':'' @ rm_content_digest m'))
              (andthen (load_run env (run_id r)) (refresh_manifest env reader n))))"

definition refresh_resource_manifest ::
  "kernel_env \<Rightarrow> metadata_reader option \<Rightarrow> run_state \<Rightarrow> run_state action" where
  "refresh_resource_manifest env reader r =
     (if run_resource_manifest r = None then returns r else refresh_manifest env reader 3 r)"

end
