(* ===== verification/Kernel_Outcomes.thy ===== *)
theory Kernel_Outcomes
  imports Kernel_Steps Kernel_Observation
begin

text \<open>
  What the kernel writes to the batches outside \<open>_update_entry\<close> and \<open>observe_tool\<close>: the outcomes of an
  executed Tool batch with the joins that close parked calls and the flushes that follow, the fence of
  a surfaced question, and a batch that is rebuilt from its assistant message.
\<close>

section \<open>The outcomes of a Tool batch\<close>

definition outcome_entry :: "execution_outcome \<Rightarrow> batch_entry \<Rightarrow> batch_entry" where
  "outcome_entry oc e = (case oc of
      OutcomeResult x \<Rightarrow> e\<lparr>be_state := EsTerminal, be_buffered_terminal_result := Some x\<rparr>
    | OutcomeSuspension s \<Rightarrow> e\<lparr>be_state := suspension_state (ts_status s),
        be_suspended_call_record_id := ts_call_record_id s, be_interaction_id := ts_interaction_id s,
        be_interaction_fingerprint := ts_interaction_fingerprint s,
        be_interaction_questions := ts_questions s\<rparr>)"

text \<open>\<open>validate_tool_result_correlation\<close>\<close>

definition result_correlates :: "tool_call \<Rightarrow> tool_result \<Rightarrow> bool" where
  "result_correlates c x \<longleftrightarrow> tr_call_id x = tc_call_id c \<and> tr_tool_name x = tc_tool_name c"

text \<open>A look-up by \<open>next\<close> that finds nothing raises \<open>StopIteration\<close>.\<close>

fun settle_outcomes ::
  "assistant_message \<Rightarrow> (string \<times> execution_outcome) list \<Rightarrow> batch_entry list \<Rightarrow> kernel_error + batch_entry list" where
  "settle_outcomes a [] es = Inr es"
| "settle_outcomes a ((cid, oc) # ocs) es = (case find_index (\<lambda>e. be_call_id e = cid) es of
      None \<Rightarrow> Inl (InvalidValue ''StopIteration'')
    | Some k \<Rightarrow> (case oc of
          OutcomeSuspension _ \<Rightarrow> settle_outcomes a ocs (es[k := outcome_entry oc (es ! k)])
        | OutcomeResult x \<Rightarrow> (case List.find (\<lambda>c. tc_call_id c = cid) (am_tool_calls a) of
              None \<Rightarrow> Inl (InvalidValue ''StopIteration'')
            | Some c \<Rightarrow> if result_correlates c x
                then settle_outcomes a ocs (es[k := outcome_entry oc (es ! k)])
                else Inl (InvalidValue ''ToolResult does not correlate to ToolCall''))))"

definition join_failure_codes :: "string list" where
  "join_failure_codes = [''model_reply_dispatch_failed'', ''tool_execution_failed'', ''auto_reply_limit_reached'',
     ''join_target_not_interactive'', ''continuation_target_missing'', ''call_ledger_missing'', ''invalid_tool_call'']"

definition close_joined :: "string \<Rightarrow> tool_result \<Rightarrow> batch_entry \<Rightarrow> batch_entry" where
  "close_joined parent x e = (if be_suspended_call_record_id e = Some parent \<and> needs_input e
     then e\<lparr>be_state := EsTerminal, be_buffered_terminal_result := Some (x\<lparr>tr_call_id := be_call_id e\<rparr>)\<rparr> else e)"

text \<open>The outcomes of the joins by their parent call, in the order of the dictionary.\<close>

definition close_join :: "string \<times> execution_outcome \<Rightarrow> tool_batch list \<Rightarrow> tool_batch list" where
  "close_join j bs = (case j of
      (parent, OutcomeResult x) \<Rightarrow>
        if (case tr_error_code x of None \<Rightarrow> False | Some c \<Rightarrow> c \<in> set join_failure_codes) then bs
        else map (\<lambda>b. b\<lparr>tb_entries := map (close_joined parent x) (tb_entries b)\<rparr>) bs
    | (parent, OutcomeSuspension _) \<Rightarrow> bs)"

fun outcome_result :: "execution_outcome \<Rightarrow> tool_result list" where
  "outcome_result (OutcomeResult x) = [x]"
| "outcome_result (OutcomeSuspension _) = []"

text \<open>
  The end of \<open>_execute_tool_batch\<close>, from the Run it loads again to the checkpoint: the outcomes are settled,
  the joins close what is parked on their parents, the batch and every other terminal batch are flushed. The status
  changes only when the batch stays open; \<open>fatal\<close> says that a declaration failed for the whole Run.
\<close>

definition settle_tool_batch ::
  "assistant_message \<Rightarrow> nat \<Rightarrow> (string \<times> execution_outcome) list \<Rightarrow> (string \<times> execution_outcome) list \<Rightarrow> bool
     \<Rightarrow> datetime \<Rightarrow> run_state \<Rightarrow> kernel_error + run_state" where
  "settle_tool_batch a i ocs joins fatal now r =
     (case settle_outcomes a ocs (tb_entries (run_tool_batches r ! i)) of Inl x \<Rightarrow> Inl x
      | Inr es \<Rightarrow>
        let bs = fold close_join joins ((run_tool_batches r)[i := (run_tool_batches r ! i)\<lparr>tb_entries := es\<rparr>]);
            refs = merge_artifact_refs (run_artifact_refs r) (concat (map (outcome_result \<circ> snd) ocs)) in
        (case flush_batch (run_transcript r) (bs ! i) now of Inl x \<Rightarrow> Inl x
         | Inr (tr, b) \<Rightarrow> (case flush_others i now 0 tr (bs[i := b]) of Inl x \<Rightarrow> Inl x
            | Inr (tr', bs', ks) \<Rightarrow> Inr (r\<lparr>run_transcript := tr', run_tool_batches := bs', run_artifact_refs := refs,
                run_st := (if tb_results_flushed b \<or> fatal then run_st r else wait_status b)\<rparr>))))"

section \<open>Surfaced questions and rebuilt batches\<close>

text \<open>\<open>_suspend_for_surface_forward\<close>: the entry is fenced before the question is published.\<close>

definition surface_entry :: "(string \<Rightarrow> string) \<Rightarrow> run_state \<Rightarrow> batch_entry \<Rightarrow> batch_entry \<Rightarrow> batch_entry" where
  "surface_entry digest r parked e = e\<lparr>be_suspended_call_record_id := be_suspended_call_record_id parked,
     be_surface_for_call_record_id := be_suspended_call_record_id parked,
     be_presentation_id := Some (presentation_id digest r parked), be_interaction_id := be_interaction_id parked,
     be_interaction_fingerprint := be_interaction_fingerprint parked,
     be_interaction_questions := be_interaction_questions parked\<rparr>"

definition declare_surface :: "(string \<Rightarrow> string) \<Rightarrow> batch_entry \<Rightarrow> nat \<Rightarrow> nat \<Rightarrow> run_state \<Rightarrow> run_state" where
  "declare_surface digest parked i j r = put_entry i j (surface_entry digest r parked (entry_at r i j)) r"

text \<open>\<open>_ensure_tool_batch\<close> as a change of the Run: what it requires, and what it writes.\<close>

definition reconstructible :: "assistant_message \<Rightarrow> run_state \<Rightarrow> bool" where
  "reconstructible a r \<longleftrightarrow> am_tool_calls a \<noteq> []
     \<and> list_all (\<lambda>c. tc_call_id c \<in> unresolved_call_ids (run_transcript r)
         \<union> set (concat (map presented_call (run_transcript r)))) (am_tool_calls a)"

definition with_batch :: "assistant_message \<Rightarrow> run_state \<Rightarrow> run_state" where
  "with_batch a r = r\<lparr>run_tool_batches :=
     run_tool_batches r @ [new_tool_batch a (run_active_internal_turn_id r)]\<rparr>"

lemma ensure_tool_batch_writes:
  "ensure_tool_batch env r a =
     (if list_ex (\<lambda>b. tb_assistant_message_id b = am_message_id a) (run_tool_batches r) then returns r
      else if \<not> reconstructible a r then conflict ''tool batch reconstruction is inconsistent''
      else checkpoint env r (with_batch a) (''reconstruct-tool-batch:'' @ am_message_id a))"
proof -
  have "(map tc_call_id (am_tool_calls a) = [] \<or> \<not> list_all (\<lambda>c. c \<in> unresolved_call_ids (run_transcript r)
      \<union> set (concat (map presented_call (run_transcript r)))) (map tc_call_id (am_tool_calls a)))
    = (\<not> reconstructible a r)"
    by (auto simp: reconstructible_def list_all_iff)
  then show ?thesis unfolding ensure_tool_batch_def Let_def with_batch_def [abs_def] by (rule arg_cong)
qed

text \<open>\<open>_reject_grace_tools\<close> as a change of the Run.\<close>

definition grace_rejected :: "assistant_message \<Rightarrow> nat \<Rightarrow> datetime \<Rightarrow> run_state \<Rightarrow> kernel_error + run_state" where
  "grace_rejected a i now r = (case grace_entries a (tb_entries (run_tool_batches r ! i)) of Inl x \<Rightarrow> Inl x
     | Inr es \<Rightarrow> (case flush_batch (run_transcript r) ((run_tool_batches r ! i)\<lparr>tb_entries := es\<rparr>) now of Inl x \<Rightarrow> Inl x
        | Inr (tr, b) \<Rightarrow> Inr (r\<lparr>run_transcript := tr, run_tool_batches := (run_tool_batches r)[i := b]\<rparr>)))"

text \<open>\<open>_flush_batch\<close> with its batch put back, as the finalization and the terminal sweep do.\<close>

definition flush_at :: "nat \<Rightarrow> datetime \<Rightarrow> run_state \<Rightarrow> kernel_error + run_state" where
  "flush_at i now r = map_sum id (\<lambda>(tr, b).
     r\<lparr>run_transcript := tr, run_tool_batches := (run_tool_batches r)[i := b]\<rparr>)
     (flush_batch (run_transcript r) (run_tool_batches r ! i) now)"

end
