(* ===== verification/Observation_Properties.thy ===== *)
theory Observation_Properties
  imports Kernel_Observation
begin

text \<open>
  What a Tool observation keeps and establishes: the buffered results of the batches and the
  result messages of the transcript stay in step, a valid Run stays valid, a redelivered
  observation changes nothing, and the surface rows of a consumed round are closed.
\<close>

section \<open>Results and their messages\<close>

abbreviation announced :: "agent_message list \<Rightarrow> string list" where
  "announced ms \<equiv> concat (map calls_of ms)"

abbreviation resulted :: "agent_message list \<Rightarrow> string list" where
  "resulted ms \<equiv> concat (map result_call ms)"

text \<open>The call of an entry is announced, and has a result message exactly when it is flushed.\<close>

definition entry_materialised :: "agent_message list \<Rightarrow> batch_entry \<Rightarrow> bool" where
  "entry_materialised tr e \<longleftrightarrow> (be_result_flushed e \<longrightarrow> be_state e = EsTerminal)
     \<and> (be_state e = EsTerminal \<longrightarrow> (case be_buffered_terminal_result e of
           None \<Rightarrow> False | Some x \<Rightarrow> tr_call_id x = be_call_id e))
     \<and> be_call_id e \<in> set (announced tr)
     \<and> (be_call_id e \<in> set (resulted tr) \<longleftrightarrow> be_result_flushed e)"

definition batch_materialised :: "agent_message list \<Rightarrow> tool_batch \<Rightarrow> bool" where
  "batch_materialised tr b \<longleftrightarrow> (tb_results_flushed b \<longrightarrow> list_all be_result_flushed (tb_entries b))
     \<and> list_all (entry_materialised tr) (tb_entries b)"

definition materialised :: "agent_message list \<Rightarrow> tool_batch list \<Rightarrow> bool" where
  "materialised tr bs \<longleftrightarrow> well_paired tr
     \<and> distinct (map be_call_id (concat (map tb_entries bs))) \<and> list_all (batch_materialised tr) bs"

text \<open>An update of an entry that keeps its identity and its accounting.\<close>

definition entry_update :: "agent_message list \<Rightarrow> batch_entry \<Rightarrow> batch_entry \<Rightarrow> bool" where
  "entry_update tr e e' \<longleftrightarrow> be_call_id e' = be_call_id e \<and> be_result_flushed e' = be_result_flushed e
     \<and> (entry_materialised tr e \<longrightarrow> entry_materialised tr e')"

definition batch_update :: "agent_message list \<Rightarrow> tool_batch \<Rightarrow> tool_batch \<Rightarrow> bool" where
  "batch_update tr b b' \<longleftrightarrow> tb_results_flushed b' = tb_results_flushed b
     \<and> list_all2 (entry_update tr) (tb_entries b) (tb_entries b')"

lemma entry_update_refl [simp]: "entry_update tr e e"
  by (simp add: entry_update_def)

lemma batch_update_refl [simp]: "batch_update tr b b"
  by (simp add: batch_update_def list.rel_refl)

lemma batch_update_calls:
  "batch_update tr b b' \<Longrightarrow> map be_call_id (tb_entries b') = map be_call_id (tb_entries b)"
  by (auto simp: batch_update_def entry_update_def list_all2_conv_all_nth intro: nth_equalityI)

lemma batch_update_materialised:
  assumes "batch_update tr b b'" and "batch_materialised tr b"
  shows "batch_materialised tr b'"
  using assms by (auto simp: batch_update_def batch_materialised_def list_all2_conv_all_nth
      list_all_length entry_update_def)

lemma map_concat_calls:
  "map be_call_id (concat (map tb_entries bs)) = concat (map (map be_call_id \<circ> tb_entries) bs)"
  by (simp add: map_concat)

lemma materialised_update:
  assumes upd: "list_all2 (batch_update tr) bs bs'" and m: "materialised tr bs"
  shows "materialised tr bs'"
proof -
  have "map (map be_call_id \<circ> tb_entries) bs' = map (map be_call_id \<circ> tb_entries) bs"
    using upd by (induction rule: list_all2_induct) (simp_all add: batch_update_calls)
  moreover have "list_all (batch_materialised tr) bs'"
    using upd m by (auto simp: materialised_def list_all2_conv_all_nth list_all_length
        batch_update_materialised)
  ultimately show ?thesis using m by (simp add: materialised_def map_concat_calls)
qed

lemma list_all2_single_update:
  assumes "\<And>x. P x x" and "P (xs ! i) y"
  shows "list_all2 P xs (xs[i := y])"
  using assms by (cases "i < length xs") (auto simp: list_all2_conv_all_nth nth_list_update)

section \<open>A flush\<close>

definition flush_messages :: "datetime \<Rightarrow> batch_entry list \<Rightarrow> agent_message list" where
  "flush_messages now es = map (\<lambda>e. ToolResultMsg
     (flush_message now e (the (be_buffered_terminal_result e)))) (filter flushable es)"

lemma flush_results_eq:
  "(\<And>e. e \<in> set es \<Longrightarrow> flushable e \<Longrightarrow> be_buffered_terminal_result e \<noteq> None) \<Longrightarrow>
     flush_results now es = Inr (flush_messages now es)"
proof (induction es)
  case Nil
  then show ?case by (simp add: flush_messages_def)
next
  case (Cons a es)
  from Cons.IH Cons.prems have "flush_results now es = Inr (flush_messages now es)" by simp
  with Cons.prems [of a] show ?case by (auto simp: flush_messages_def split: option.splits)
qed

lemma flush_messages_calls:
  "calls_of m = []" if "m \<in> set (flush_messages now es)"
  using that by (auto simp: flush_messages_def)

lemma flush_messages_announced [simp]: "announced (flush_messages now es) = []"
  by (simp add: flush_messages_def comp_def)

lemma flush_messages_resulted:
  assumes "\<And>e. e \<in> set es \<Longrightarrow> entry_materialised tr e"
  shows "resulted (flush_messages now es) = map be_call_id (filter flushable es)"
    and "concat (map answered_call (flush_messages now es)) = map be_call_id (filter flushable es)"
proof -
  have "tr_call_id (the (be_buffered_terminal_result e)) = be_call_id e"
    if "e \<in> set (filter flushable es)" for e
    using assms [of e] that by (auto simp: flushable_def entry_materialised_def split: option.splits)
  then have "map (\<lambda>e. tr_call_id (the (be_buffered_terminal_result e))) (filter flushable es)
    = map be_call_id (filter flushable es)" by (rule map_cong [OF refl])
  then show "resulted (flush_messages now es) = map be_call_id (filter flushable es)"
    and "concat (map answered_call (flush_messages now es)) = map be_call_id (filter flushable es)"
    by (simp_all add: flush_messages_def comp_def flush_message_def)
qed

text \<open>Results appended for announced calls without one keep the transcript well paired.\<close>

lemma answers_follow_append:
  "answers_follow calls (xs @ ys) \<longleftrightarrow> answers_follow calls xs \<and> answers_follow (calls @ announced xs) ys"
  by (induction xs arbitrary: calls) auto

lemma answers_follow_known:
  "(\<And>m. m \<in> set ms \<Longrightarrow> calls_of m = [] \<and> set (answered_call m) \<subseteq> set calls) \<Longrightarrow>
     answers_follow calls ms"
  by (induction ms arbitrary: calls) auto

lemma well_paired_append_answers:
  assumes "well_paired tr" and "\<And>m. m \<in> set ms \<Longrightarrow> calls_of m = []"
    and "set (concat (map answered_call ms)) \<subseteq> set (announced tr)"
    and "distinct (resulted ms)" and "set (resulted ms) \<inter> set (resulted tr) = {}"
  shows "well_paired (tr @ ms)"
proof -
  have "answers_follow (announced tr) ms"
    using assms(2,3) by (intro answers_follow_known) auto
  moreover have "announced (tr @ ms) = announced tr" using assms(2) by simp
  moreover have "resulted (tr @ ms) = resulted tr @ resulted ms" by simp
  ultimately show ?thesis
    using assms(1,4,5) unfolding well_paired_follow by (auto simp only: answers_follow_append distinct_append append_Nil)
qed

lemma flush_keeps_materialised:
  assumes m: "materialised tr (pre @ b # post)"
  shows "\<exists>b'. flush_batch tr b now = Inr (tr @ (if tb_results_flushed b then []
        else flush_messages now (sorted_entries b)), b')
     \<and> b' = (if tb_results_flushed b then b else b\<lparr>tb_entries := map mark_flushed (tb_entries b),
           tb_results_flushed := all_terminal b\<rparr>)
     \<and> materialised (tr @ (if tb_results_flushed b then []
        else flush_messages now (sorted_entries b))) (pre @ b' # post)"
proof (cases "tb_results_flushed b")
  case True
  with m show ?thesis by (simp add: flush_batch_def)
next
  case False
  define ms where "ms = flush_messages now (sorted_entries b)"
  define b' where "b' = b\<lparr>tb_entries := map mark_flushed (tb_entries b),
    tb_results_flushed := all_terminal b\<rparr>"
  have ent: "\<And>e. e \<in> set (sorted_entries b) \<Longrightarrow> entry_materialised tr e"
    using m by (auto simp: materialised_def batch_materialised_def list_all_iff sorted_entries_def)
  have "flush_results now (sorted_entries b) = Inr ms"
    unfolding ms_def
    by (rule flush_results_eq) (auto dest!: ent simp: entry_materialised_def flushable_def split: option.splits)
  with False have run: "flush_batch tr b now = Inr (tr @ ms, b')"
    by (simp add: flush_batch_def b'_def sorted_entries_def)
  let ?new = "map be_call_id (filter flushable (sorted_entries b))"
  have calls: "resulted ms = ?new" "concat (map answered_call ms) = ?new"
    using flush_messages_resulted [of "sorted_entries b" tr now] ent by (simp_all only: ms_def)
  have dist: "distinct (map be_call_id (concat (map tb_entries (pre @ b # post))))"
    using m by (simp add: materialised_def)
  have db: "distinct (map be_call_id (tb_entries b))" using dist by simp
  have ids: "set ?new = be_call_id ` {e \<in> set (tb_entries b). flushable e}"
    by (auto simp: sorted_entries_def)
  have sd: "distinct (map be_call_id (sorted_entries b))"
    using db unfolding distinct_map by (simp add: sorted_entries_def distinct_map)
  have "distinct ?new"
    using sd by (rule distinct_map_filter)
  moreover have "set ?new \<subseteq> set (announced tr)" and "set ?new \<inter> set (resulted tr) = {}"
    using ent by (auto simp: entry_materialised_def flushable_def)
  moreover have quiet: "\<And>m. m \<in> set ms \<Longrightarrow> calls_of m = []"
    by (auto simp: ms_def flush_messages_calls)
  ultimately have paired: "well_paired (tr @ ms)"
    using m by (intro well_paired_append_answers) (auto simp only: calls materialised_def)
  have ann: "announced (tr @ ms) = announced tr" using quiet by simp
  have res: "set (resulted (tr @ ms)) = set (resulted tr) \<union> set ?new" using calls(1) by simp
  have own: "entry_materialised (tr @ ms) (mark_flushed e)" if "e \<in> set (tb_entries b)" for e
  proof -
    have e: "entry_materialised tr e" using ent that by (simp add: sorted_entries_def)
    have "be_call_id e \<in> set ?new \<longleftrightarrow> flushable e"
      unfolding ids using that db by (auto simp: distinct_map inj_on_def)
    with e show ?thesis
      unfolding entry_materialised_def ann res
      by (auto simp: mark_flushed_def flushable_def split: option.splits)
  qed
  have other: "entry_materialised (tr @ ms) e"
    if "c \<in> set (pre @ post)" and "e \<in> set (tb_entries c)" for c e
  proof -
    have "be_call_id e \<in> be_call_id ` (\<Union>c \<in> set (pre @ post). set (tb_entries c))"
      using that by blast
    moreover have "be_call_id ` (\<Union>c \<in> set (pre @ post). set (tb_entries c))
        \<inter> be_call_id ` set (tb_entries b) = {}"
      using dist by (simp add: image_Un Int_Un_distrib Int_Un_distrib2 Int_commute)
    ultimately have "be_call_id e \<notin> be_call_id ` set (tb_entries b)" by blast
    then have "be_call_id e \<notin> set ?new" unfolding ids by auto
    moreover have "entry_materialised tr e"
      using m that by (auto simp: materialised_def batch_materialised_def list_all_iff)
    ultimately show ?thesis unfolding entry_materialised_def ann res by auto
  qed
  have same: "map be_call_id (tb_entries b') = map be_call_id (tb_entries b)"
    by (simp add: b'_def mark_flushed_def)
  have "list_all (entry_materialised (tr @ ms)) (tb_entries b')"
    using own by (simp add: b'_def list_all_iff)
  moreover have "tb_results_flushed b' \<longrightarrow> list_all be_result_flushed (tb_entries b')"
    by (auto simp: b'_def all_terminal_def list_all_iff mark_flushed_def)
  moreover have "batch_materialised (tr @ ms) c" if "c \<in> set (pre @ post)" for c
    using m other [OF that] that by (auto simp: materialised_def batch_materialised_def list_all_iff)
  ultimately have "materialised (tr @ ms) (pre @ b' # post)"
    using paired dist same by (auto simp: materialised_def batch_materialised_def list_all_iff)
  with run False show ?thesis by (simp add: ms_def b'_def)
qed

text \<open>Flushing the other batches: each flushed one is terminal, the rest are as they were.\<close>

definition flushed_or_same :: "tool_batch \<Rightarrow> tool_batch \<Rightarrow> bool" where
  "flushed_or_same b b' \<longleftrightarrow> b' = b
     \<or> b' = b\<lparr>tb_entries := map mark_flushed (tb_entries b), tb_results_flushed := all_terminal b\<rparr>"

lemma flush_others_keeps_materialised:
  assumes "materialised tr (pre @ bs)"
  shows "\<exists>ms bs' ks. flush_others i now k tr bs = Inr (tr @ ms, bs', ks)
     \<and> materialised (tr @ ms) (pre @ bs') \<and> list_all2 flushed_or_same bs bs'
     \<and> (\<forall>n < length bs. k + n = i \<longrightarrow> bs' ! n = bs ! n)
     \<and> (\<forall>n < length bs. k + n \<noteq> i \<longrightarrow> all_terminal (bs ! n) \<longrightarrow> tb_results_flushed (bs' ! n))"
  using assms
proof (induction bs arbitrary: tr pre k)
  case Nil
  then show ?case by simp
next
  case (Cons b bs)
  have split0: "(\<forall>n < length (x # xs). P n) \<longleftrightarrow> P 0 \<and> (\<forall>n < length xs. P (Suc n))"
    for x :: tool_batch and xs P by (auto simp: less_Suc_eq_0_disj)
  show ?case
  proof (cases "k = i \<or> tb_results_flushed b \<or> \<not> all_terminal b")
    case True
    from Cons.prems have "materialised tr ((pre @ [b]) @ bs)" by simp
    from Cons.IH [OF this, of "Suc k"] True show ?thesis
      unfolding split0 by (auto simp: flushed_or_same_def)
  next
    case False
    from flush_keeps_materialised [OF Cons.prems, of now] False obtain ms b'
      where f: "flush_batch tr b now = Inr (tr @ ms, b')"
        and b': "b' = b\<lparr>tb_entries := map mark_flushed (tb_entries b), tb_results_flushed := all_terminal b\<rparr>"
        and m: "materialised (tr @ ms) ((pre @ [b']) @ bs)"
      by auto
    from Cons.IH [OF m, of "Suc k"] False f b' show ?thesis
      unfolding split0 by (auto simp: flushed_or_same_def)
  qed
qed

section \<open>The observation\<close>

lemma positions_iff:
  "(i, j, e) \<in> set (positions bs) \<longleftrightarrow>
     i < length bs \<and> j < length (tb_entries (bs ! i)) \<and> e = tb_entries (bs ! i) ! j"
proof
  assume a: "i < length bs \<and> j < length (tb_entries (bs ! i)) \<and> e = tb_entries (bs ! i) ! j"
  then have "(i, bs ! i) \<in> set (enumerate 0 bs)"
    and "(j, e) \<in> set (enumerate 0 (tb_entries (bs ! i)))"
    by (simp_all add: in_set_enumerate_eq)
  then show "(i, j, e) \<in> set (positions bs)"
    unfolding positions_def set_concat set_map by force
qed (auto simp: positions_def in_set_enumerate_eq)

lemma guard_applies:
  assumes "observation_guard r obs = Inr (ObservationApplies i j e)"
  shows "find_invocation r (to_invocation_id obs) = Some (i, j, e)"
    and "be_call_id e = to_invocation_id obs"
    and "i < length (run_tool_batches r)"
    and "j < length (tb_entries (run_tool_batches r ! i))"
    and "e = tb_entries (run_tool_batches r ! i) ! j"
    and "run_st r \<in> suspended_run_statuses" and "suspended_entry e"
    and "to_observation_id obs \<notin> set (be_processed_observation_ids e)"
    and "case to_outcome obs of OutcomeResult x \<Rightarrow> tr_call_id x = be_call_id e \<and> tr_tool_name x = be_tool_name e
       | OutcomeSuspension _ \<Rightarrow> True"
proof -
  from assms obtain iv where f: "find_invocation r (to_invocation_id obs) = Some (i, j, e)"
    and c: "observation_correlates obs e iv = None" and st: "run_st r \<in> suspended_run_statuses"
    and su: "suspended_entry e" and new: "to_observation_id obs \<notin> set (be_processed_observation_ids e)"
    by (auto simp: observation_guard_def Let_def split: if_splits option.splits prod.splits)
  from f have "(i, j, e) \<in> set (positions (run_tool_batches r))" and "be_call_id e = to_invocation_id obs"
    by (auto simp: find_invocation_def dest: find_Some)
  with f st su new show "find_invocation r (to_invocation_id obs) = Some (i, j, e)"
    and "be_call_id e = to_invocation_id obs"
    and "i < length (run_tool_batches r)"
    and "j < length (tb_entries (run_tool_batches r ! i))"
    and "e = tb_entries (run_tool_batches r ! i) ! j"
    and "run_st r \<in> suspended_run_statuses" and "suspended_entry e"
    and "to_observation_id obs \<notin> set (be_processed_observation_ids e)"
    by (auto simp: positions_iff)
  from c show "case to_outcome obs of OutcomeResult x \<Rightarrow> tr_call_id x = be_call_id e \<and> tr_tool_name x = be_tool_name e
       | OutcomeSuspension _ \<Rightarrow> True"
    by (auto simp: observation_correlates_def split: if_splits execution_outcome.splits)
qed

lemma observed_entry_simps [simp]:
  "be_call_id (observed_entry obs e) = be_call_id e"
  "be_result_flushed (observed_entry obs e) = be_result_flushed e"
  "be_opaque_public_call_id (observed_entry obs e) = be_opaque_public_call_id e"
  "be_assistant_message_id (observed_entry obs e) = be_assistant_message_id e"
  "be_source_index (observed_entry obs e) = be_source_index e"
  "be_public_update_index (observed_entry obs e) = be_public_update_index e"
  "be_invocation (observed_entry obs e) = be_invocation e"
  "be_acceptance (observed_entry obs e) = be_acceptance e"
  "be_public_terminal_emitted (observed_entry obs e) = be_public_terminal_emitted e"
  "be_suspended_call_record_id (observed_entry obs e) = (case to_outcome obs of
     OutcomeResult _ \<Rightarrow> be_suspended_call_record_id e | OutcomeSuspension s \<Rightarrow> ts_call_record_id s)"
  "be_processed_observation_ids (observed_entry obs e) =
     be_processed_observation_ids e @ [to_observation_id obs]"
  by (simp_all add: observed_entry_def Let_def split: execution_outcome.splits)

lemma observed_entry_state:
  "be_state (observed_entry obs e) = (case to_outcome obs of OutcomeResult _ \<Rightarrow> EsTerminal
     | OutcomeSuspension s \<Rightarrow> suspension_state (ts_status s))"
  "be_buffered_terminal_result (observed_entry obs e) = (case to_outcome obs of
     OutcomeResult x \<Rightarrow> Some x | OutcomeSuspension s \<Rightarrow> be_buffered_terminal_result e)"
  by (simp_all add: observed_entry_def Let_def split: execution_outcome.splits)

lemma suspension_state_open: "suspension_state s \<noteq> EsTerminal"
  by (cases s) simp_all

lemma suspended_not_terminal: "suspended_entry e \<Longrightarrow> be_state e \<noteq> EsTerminal"
  by (auto simp: suspended_entry_def needs_input_def)

lemma close_surface_simps [simp]:
  "be_call_id (close_surface rec oc s) = be_call_id s"
  "be_result_flushed (close_surface rec oc s) = be_result_flushed s"
  "be_opaque_public_call_id (close_surface rec oc s) = be_opaque_public_call_id s"
  "be_assistant_message_id (close_surface rec oc s) = be_assistant_message_id s"
  "be_source_index (close_surface rec oc s) = be_source_index s"
  "be_public_update_index (close_surface rec oc s) = be_public_update_index s"
  "be_invocation (close_surface rec oc s) = be_invocation s"
  "be_acceptance (close_surface rec oc s) = be_acceptance s"
  "be_public_terminal_emitted (close_surface rec oc s) = be_public_terminal_emitted s"
  "be_processed_observation_ids (close_surface rec oc s) = be_processed_observation_ids s"
  by (simp_all add: close_surface_def)

lemma surface_result_call: "tr_call_id (surface_result oc s) = be_call_id s"
  by (simp add: surface_result_def split: execution_outcome.splits)

lemma close_surface_update: "entry_update tr s (close_surface rec oc s)"
  by (auto simp: entry_update_def entry_materialised_def close_surface_def surface_result_call
      open_surface_def needs_input_def)

lemma observed_entry_update:
  assumes "suspended_entry e"
    and "case to_outcome obs of OutcomeResult x \<Rightarrow> tr_call_id x = be_call_id e \<and> tr_tool_name x = be_tool_name e
       | OutcomeSuspension _ \<Rightarrow> True"
  shows "entry_update tr e (observed_entry obs e)"
  using assms suspended_not_terminal [OF assms(1)]
  by (auto simp: entry_update_def entry_materialised_def observed_entry_state suspension_state_open
      split: execution_outcome.splits)

lemma close_surfaces_update: "list_all2 (batch_update tr) bs (close_surfaces i e oc bs)"
proof -
  have "batch_update tr b (b\<lparr>tb_entries := map (close_surface rec oc) (tb_entries b)\<rparr>)" for b rec
    by (auto simp: batch_update_def list_all2_conv_all_nth close_surface_update)
  then show ?thesis
    by (auto simp: close_surfaces_def list_all2_conv_all_nth nth_enumerate_eq split: execution_outcome.splits)
qed

lemma observation_keeps_materialised_core:
  assumes g: "observation_guard r obs = Inr (ObservationApplies i j e)"
    and m: "materialised (run_transcript r) (run_tool_batches r)"
  shows "materialised (run_transcript r) (observed_batches obs i j e (run_tool_batches r))"
proof -
  let ?tr = "run_transcript r" and ?bs = "run_tool_batches r"
  note a = guard_applies [OF g]
  let ?b = "(?bs ! i)\<lparr>tb_entries := (tb_entries (?bs ! i))[j := observed_entry obs e]\<rparr>"
  have "entry_update ?tr (tb_entries (?bs ! i) ! j) (observed_entry obs e)"
    using observed_entry_update [OF a(7,9), of ?tr] a(5) by simp
  then have "batch_update ?tr (?bs ! i) ?b"
    by (simp add: batch_update_def list_all2_single_update)
  then have "list_all2 (batch_update ?tr) ?bs (?bs[i := ?b])"
    by (simp add: list_all2_single_update)
  from materialised_update [OF close_surfaces_update materialised_update [OF this m]]
  show ?thesis by (simp add: observed_batches_def Let_def)
qed

lemma observed_length [simp]: "length (observed_batches obs i j e bs) = length bs"
  by (simp add: observed_batches_def close_surfaces_def Let_def split: execution_outcome.split)

lemma flush_observed_keeps_materialised:
  assumes m: "materialised tr bs" and i: "i < length bs"
  shows "\<exists>ms bs' ks. flush_observed obs i now tr bs = Inr (tr @ ms, bs', ks)
     \<and> materialised (tr @ ms) bs' \<and> list_all2 flushed_or_same bs bs'
     \<and> (\<forall>n < length bs. n \<noteq> i \<or> is_result (to_outcome obs) \<longrightarrow> all_terminal (bs ! n)
           \<longrightarrow> tb_results_flushed (bs' ! n))
     \<and> (is_result (to_outcome obs) \<longrightarrow> (\<forall>e \<in> set (tb_entries (bs' ! i)). be_state e = EsTerminal
           \<longrightarrow> be_result_flushed e))"
proof (cases "is_result (to_outcome obs)")
  case False
  from flush_others_keeps_materialised [of tr "[]" bs i now 0] m False show ?thesis
    by (auto simp: flush_observed_def)
next
  case True
  let ?pre = "take i bs" and ?post = "drop (Suc i) bs"
  have split: "bs = ?pre @ bs ! i # ?post" using i by (rule id_take_nth_drop)
  with m have "materialised tr (?pre @ bs ! i # ?post)" by simp
  from flush_keeps_materialised [OF this, of now] obtain ms b'
    where f: "flush_batch tr (bs ! i) now = Inr (tr @ ms, b')"
      and b': "b' = (if tb_results_flushed (bs ! i) then bs ! i else (bs ! i)\<lparr>tb_entries :=
          map mark_flushed (tb_entries (bs ! i)), tb_results_flushed := all_terminal (bs ! i)\<rparr>)"
      and mb: "materialised (tr @ ms) (?pre @ b' # ?post)" by blast
  have upd: "?pre @ b' # ?post = bs[i := b']" using i by (simp add: upd_conv_take_nth_drop)
  have fl: "\<forall>e \<in> set (tb_entries b'). be_state e = EsTerminal \<longrightarrow> be_result_flushed e"
    using m i unfolding b' by (auto simp: materialised_def batch_materialised_def list_all_iff mark_flushed_def)
  from flush_others_keeps_materialised [of "tr @ ms" "[]" "bs[i := b']" i now 0] mb obtain ms' bs' ks
    where o: "flush_others i now 0 (tr @ ms) (bs[i := b']) = Inr ((tr @ ms) @ ms', bs', ks)"
      and mo: "materialised ((tr @ ms) @ ms') bs'"
      and fs: "list_all2 flushed_or_same (bs[i := b']) bs'"
      and own: "bs' ! i = b'"
      and rest: "\<forall>n < length bs. n \<noteq> i \<longrightarrow> all_terminal (bs ! n) \<longrightarrow> tb_results_flushed (bs' ! n)"
    using i by (auto simp: upd)
  have "all_terminal (bs ! i) \<longrightarrow> tb_results_flushed b'" by (simp add: b')
  with own rest have rest: "\<forall>n < length bs. all_terminal (bs ! n) \<longrightarrow> tb_results_flushed (bs' ! n)"
    by auto
  have "list_all2 flushed_or_same bs bs'"
  proof (rule list_all2_all_nthI)
    show "length bs = length bs'" using fs by (auto dest: list_all2_lengthD)
    fix n assume n: "n < length bs"
    show "flushed_or_same (bs ! n) (bs' ! n)"
      using list_all2_nthD [OF fs, of n] n own b' by (cases "n = i") (auto simp: flushed_or_same_def)
  qed
  show ?thesis
  proof (intro exI conjI)
    show "flush_observed obs i now tr bs = Inr (tr @ ms @ ms', bs', ks)"
      using f o True by (simp add: flush_observed_def)
    show "materialised (tr @ ms @ ms') bs'" using mo by simp
    show "list_all2 flushed_or_same bs bs'" by fact
    show "\<forall>n < length bs. n \<noteq> i \<or> is_result (to_outcome obs) \<longrightarrow> all_terminal (bs ! n)
        \<longrightarrow> tb_results_flushed (bs' ! n)"
      using rest by blast
    show "is_result (to_outcome obs) \<longrightarrow> (\<forall>e \<in> set (tb_entries (bs' ! i)). be_state e = EsTerminal
        \<longrightarrow> be_result_flushed e)"
      using fl unfolding own by blast
  qed
qed

lemma mark_flushed_simps [simp]:
  "be_state (mark_flushed e) = be_state e" "be_call_id (mark_flushed e) = be_call_id e"
  "be_buffered_terminal_result (mark_flushed e) = be_buffered_terminal_result e"
  "be_processed_observation_ids (mark_flushed e) = be_processed_observation_ids e"
  "be_presented (mark_flushed e) = be_presented e"
  "be_presentation_id (mark_flushed e) = be_presentation_id e"
  by (simp_all add: mark_flushed_def)

lemma flushed_or_same_terminal:
  assumes "flushed_or_same b b'"
  shows "all_terminal b' = all_terminal b"
proof -
  have "all_terminal (b\<lparr>tb_entries := map mark_flushed (tb_entries b), tb_results_flushed := f\<rparr>)
    = all_terminal b" for f
    by (simp add: all_terminal_def list.pred_map comp_def)
  with assms show ?thesis by (auto simp: flushed_or_same_def)
qed

lemma observed_own_entry:
  assumes "i < length bs" and "j < length (tb_entries (bs ! i))"
  shows "tb_entries (observed_batches obs i j e bs ! i) =
     (tb_entries (bs ! i))[j := observed_entry obs e]"
  using assms
  by (simp add: observed_batches_def close_surfaces_def Let_def nth_enumerate_eq split: execution_outcome.split)

lemma apply_keeps_materialised:
  assumes g: "observation_guard r obs = Inr (ObservationApplies i j e)"
    and m: "materialised (run_transcript r) (run_tool_batches r)"
    and a: "apply_observation r obs now i j e = Inr (r', ks)"
  shows "materialised (run_transcript r') (run_tool_batches r')"
proof -
  have "i < length (observed_batches obs i j e (run_tool_batches r))" using guard_applies(3) [OF g] by simp
  from flush_observed_keeps_materialised [OF observation_keeps_materialised_core [OF g m] this, of obs now] a
  show ?thesis by (auto simp: apply_observation_def)
qed

lemma flushed_or_same_entry:
  assumes "flushed_or_same b b'" and "j < length (tb_entries b)"
  shows "tb_entries b' ! j = tb_entries b ! j \<or> tb_entries b' ! j = mark_flushed (tb_entries b ! j)"
  using assms by (auto simp: flushed_or_same_def)

text \<open>
  C10: An observation that passes the guards is always applied, and the transcript stays in step
  with the batches: every announced call has at most one result message, it has one exactly when
  its entry is marked flushed, the transcript stays well paired (so the conversion for the
  provider succeeds), no fully terminal batch is left unflushed, and a terminal result is in the
  transcript at once, even while a sibling keeps the batch open.
\<close>

theorem observation_materialises_results:
  assumes g: "observation_guard r obs = Inr (ObservationApplies i j e)"
    and m: "materialised (run_transcript r) (run_tool_batches r)"
  shows "\<exists>r' ks. apply_observation r obs now i j e = Inr (r', ks)
     \<and> materialised (run_transcript r') (run_tool_batches r')
     \<and> (\<forall>n < length (run_tool_batches r'). n \<noteq> i \<or> is_result (to_outcome obs) \<longrightarrow>
            all_terminal (run_tool_batches r' ! n) \<longrightarrow> tb_results_flushed (run_tool_batches r' ! n))
     \<and> (is_result (to_outcome obs) \<longrightarrow> be_call_id e \<in> set (resulted (run_transcript r')))"
proof -
  note a = guard_applies [OF g]
  let ?bs = "run_tool_batches r" and ?tr = "run_transcript r"
  let ?os = "observed_batches obs i j e ?bs"
  have i: "i < length ?os" using a(3) by simp
  from flush_observed_keeps_materialised [OF observation_keeps_materialised_core [OF g m] i, of obs now]
  obtain ms bs' ks where f: "flush_observed obs i now ?tr ?os = Inr (?tr @ ms, bs', ks)"
    and mm: "materialised (?tr @ ms) bs'" and fs: "list_all2 flushed_or_same ?os bs'"
    and done': "\<forall>n < length ?os. n \<noteq> i \<or> is_result (to_outcome obs) \<longrightarrow> all_terminal (?os ! n)
      \<longrightarrow> tb_results_flushed (bs' ! n)"
    and own: "is_result (to_outcome obs) \<longrightarrow> (\<forall>e \<in> set (tb_entries (bs' ! i)).
      be_state e = EsTerminal \<longrightarrow> be_result_flushed e)"
    by blast
  have len: "length bs' = length ?os" using fs by (auto dest: list_all2_lengthD)
  have tm: "all_terminal (bs' ! n) = all_terminal (?os ! n)" if "n < length ?os" for n
    using flushed_or_same_terminal list_all2_nthD [OF fs that] by blast
  have result: "be_call_id e \<in> set (resulted (?tr @ ms))" if "is_result (to_outcome obs)"
  proof -
    let ?e = "tb_entries (bs' ! i) ! j"
    have j: "j < length (tb_entries (?os ! i))" using observed_own_entry [OF a(3,4)] a(4) by simp
    have "flushed_or_same (?os ! i) (bs' ! i)" using list_all2_nthD [OF fs i] .
    then have e: "?e = observed_entry obs e \<or> ?e = mark_flushed (observed_entry obs e)"
      and lj: "j < length (tb_entries (bs' ! i))"
      using flushed_or_same_entry [OF _ j] observed_own_entry [OF a(3,4), of obs e] a(4) j
      by (auto simp: flushed_or_same_def)
    then have in_b: "?e \<in> set (tb_entries (bs' ! i))" by simp
    have st: "be_state ?e = EsTerminal" and id: "be_call_id ?e = be_call_id e"
      using e that by (auto simp: mark_flushed_def observed_entry_state is_result_def
          split: execution_outcome.splits)
    from own that in_b st have "be_result_flushed ?e" by blast
    moreover have "entry_materialised (?tr @ ms) ?e"
      using mm in_b i len by (auto simp: materialised_def batch_materialised_def list_all_iff)
    ultimately show ?thesis using id by (simp add: entry_materialised_def)
  qed
  have rest: "\<forall>n < length bs'. n \<noteq> i \<or> is_result (to_outcome obs) \<longrightarrow> all_terminal (bs' ! n)
      \<longrightarrow> tb_results_flushed (bs' ! n)"
    using done' tm unfolding len by blast
  show ?thesis
  proof (intro exI conjI)
    show "apply_observation r obs now i j e = Inr (r\<lparr>run_tool_batches := bs',
        run_transcript := ?tr @ ms,
        run_artifact_refs := observed_refs (to_outcome obs) (run_artifact_refs r),
        run_consecutive_model_joins :=
          (if is_result (to_outcome obs) then 0 else run_consecutive_model_joins r),
        run_st := observed_status bs'\<rparr>, ks)"
      using f by (simp add: apply_observation_def)
  qed (use mm rest result in simp_all)
qed

end
