(* ===== verification/Observation_Safety.thy ===== *)
theory Observation_Safety
  imports Observation_Properties
begin

text \<open>
  What an applied observation leaves of the Run: a valid aggregate, no open surface row of the
  consumed round, and a state in which the same observation cannot be applied again. The samples
  at the end carry the witnesses of this theory and of \<open>Observation_Properties\<close>.
\<close>

section \<open>The frame of a batch\<close>

text \<open>What the operations on an observation never touch in a batch.\<close>

definition same_frame :: "tool_batch \<Rightarrow> tool_batch \<Rightarrow> bool" where
  "same_frame b b' \<longleftrightarrow> tb_assistant_message_id b' = tb_assistant_message_id b
     \<and> list_all2 (\<lambda>e e'. be_call_id e' = be_call_id e
          \<and> be_opaque_public_call_id e' = be_opaque_public_call_id e
          \<and> be_acceptance e' = be_acceptance e) (tb_entries b) (tb_entries b')"

lemma same_frame_refl [simp]: "same_frame b b"
  by (simp add: same_frame_def list.rel_refl)

lemma same_frame_trans: "same_frame a b \<Longrightarrow> same_frame b c \<Longrightarrow> same_frame a c"
  by (auto simp: same_frame_def list_all2_conv_all_nth)

lemma same_frames_trans:
  "list_all2 same_frame xs ys \<Longrightarrow> list_all2 same_frame ys zs \<Longrightarrow> list_all2 same_frame xs zs"
  by (rule list_all2_trans [OF same_frame_trans])

lemma observed_frame:
  assumes "i < length bs" and "j < length (tb_entries (bs ! i))" and "e = tb_entries (bs ! i) ! j"
  shows "list_all2 same_frame bs (observed_batches obs i j e bs)"
proof -
  have own: "same_frame (bs ! i) ((bs ! i)\<lparr>tb_entries := (tb_entries (bs ! i))[j := observed_entry obs e]\<rparr>)"
    using assms by (auto simp: same_frame_def list_all2_conv_all_nth nth_list_update)
  have "same_frame b (b\<lparr>tb_entries := map (close_surface rec oc) (tb_entries b)\<rparr>)" for b rec oc
    by (simp add: same_frame_def list_all2_conv_all_nth)
  then have "list_all2 same_frame xs (close_surfaces i e oc xs)" for oc xs
    by (auto simp: close_surfaces_def list_all2_conv_all_nth nth_enumerate_eq split: execution_outcome.splits)
  moreover have "list_all2 same_frame bs (bs[i := (bs ! i)\<lparr>tb_entries :=
      (tb_entries (bs ! i))[j := observed_entry obs e]\<rparr>])"
    using own by (simp add: list_all2_single_update)
  ultimately show ?thesis
    unfolding observed_batches_def Let_def by (blast intro: same_frames_trans)
qed

lemma flushed_frame: "flushed_or_same b b' \<Longrightarrow> same_frame b b'"
proof -
  have "same_frame b (b\<lparr>tb_entries := map mark_flushed (tb_entries b), tb_results_flushed := f\<rparr>)" for f
    by (simp add: same_frame_def list_all2_conv_all_nth mark_flushed_def)
  then show "flushed_or_same b b' \<Longrightarrow> same_frame b b'" by (auto simp: flushed_or_same_def)
qed

definition is_tool_result :: "agent_message \<Rightarrow> bool" where
  "is_tool_result m = (case m of ToolResultMsg _ \<Rightarrow> True | _ \<Rightarrow> False)"

lemma tool_result_facts:
  "is_tool_result m \<Longrightarrow> message_error m = None" "is_tool_result m \<Longrightarrow> calls_of m = []"
  by (cases m; simp add: is_tool_result_def message_error_def)+

lemma flush_batch_shape:
  assumes "flush_batch tr b now = Inr (tr', b')"
  shows "flushed_or_same b b' \<and> (\<exists>ms. tr' = tr @ ms \<and> (\<forall>m \<in> set ms. is_tool_result m))"
proof -
  have "flush_results now es = Inr ms \<Longrightarrow> \<forall>m \<in> set ms. is_tool_result m" for es ms
    by (induction es arbitrary: ms) (auto simp: is_tool_result_def split: if_splits option.splits sum.splits)
  with assms show ?thesis
    by (auto simp: flush_batch_def flushed_or_same_def split: if_splits sum.splits)
qed

lemma flush_others_shape:
  "flush_others i now k tr bs = Inr (tr', bs', ks) \<Longrightarrow>
     list_all2 flushed_or_same bs bs' \<and> (\<exists>ms. tr' = tr @ ms \<and> (\<forall>m \<in> set ms. is_tool_result m))
     \<and> (\<forall>n < length bs. k + n = i \<longrightarrow> bs' ! n = bs ! n)"
proof (induction bs arbitrary: k tr tr' bs' ks)
  case Nil
  then show ?case by auto
next
  case (Cons b bs)
  have split0: "(\<forall>n < length (x # xs). P n) \<longleftrightarrow> P 0 \<and> (\<forall>n < length xs. P (Suc n))"
    for x :: tool_batch and xs P by (auto simp: less_Suc_eq_0_disj)
  show ?case
  proof (cases "k = i \<or> tb_results_flushed b \<or> \<not> all_terminal b")
    case True
    with Cons.prems obtain bs1 where f: "flush_others i now (Suc k) tr bs = Inr (tr', bs1, ks)"
      and b': "bs' = b # bs1"
      by (auto split: sum.splits)
    from Cons.IH [OF f] show ?thesis
      unfolding split0 by (auto simp: b' flushed_or_same_def)
  next
    case False
    with Cons.prems obtain tr1 b1 bs1 ks1 where fb: "flush_batch tr b now = Inr (tr1, b1)"
      and f: "flush_others i now (Suc k) tr1 bs = Inr (tr', bs1, ks1)" and b': "bs' = b1 # bs1"
      by (auto split: sum.splits)
    from flush_batch_shape [OF fb] obtain ms where ms: "flushed_or_same b b1" "tr1 = tr @ ms"
      "\<forall>m \<in> set ms. is_tool_result m" by blast
    from Cons.IH [OF f] obtain ms' where "list_all2 flushed_or_same bs bs1" "tr' = tr1 @ ms'"
      "\<forall>m \<in> set ms'. is_tool_result m" "\<forall>n < length bs. Suc k + n = i \<longrightarrow> bs1 ! n = bs ! n"
      by blast
    with ms False show ?thesis
      unfolding split0 b' by (auto intro!: exI [of _ "ms @ ms'"])
  qed
qed

text \<open>
  The own batch is flushed at most once, then every other one: the entry that was observed is
  the observed entry, marked or not.
\<close>

lemma flush_observed_shape:
  assumes f: "flush_observed obs i now tr bs = Inr (tr', bs', ks)" and i: "i < length bs"
  shows "list_all2 flushed_or_same bs bs'"
    and "\<exists>ms. tr' = tr @ ms \<and> (\<forall>m \<in> set ms. is_tool_result m)"
proof -
  obtain tr1 b1 ms where b1: "flushed_or_same (bs ! i) b1" and tr1: "tr1 = tr @ ms"
    and ms: "\<forall>m \<in> set ms. is_tool_result m"
    and o: "flush_others i now 0 tr1 (bs[i := b1]) = Inr (tr', bs', ks)"
  proof (cases "is_result (to_outcome obs)")
    case True
    with f obtain tr1 b1 where fb: "flush_batch tr (bs ! i) now = Inr (tr1, b1)"
      and o: "flush_others i now 0 tr1 (bs[i := b1]) = Inr (tr', bs', ks)"
      by (auto simp: flush_observed_def split: sum.splits)
    from flush_batch_shape [OF fb] o that show ?thesis by blast
  next
    case False
    with f have "flush_others i now 0 (tr @ []) (bs[i := bs ! i]) = Inr (tr', bs', ks)"
      by (simp add: flush_observed_def)
    then show ?thesis by (intro that [of "bs ! i" "tr @ []" "[]"]) (auto simp: flushed_or_same_def)
  qed
  from flush_others_shape [OF o] obtain ms' where fs: "list_all2 flushed_or_same (bs[i := b1]) bs'"
    and tr': "tr' = tr1 @ ms'" and ms': "\<forall>m \<in> set ms'. is_tool_result m"
    and own: "bs' ! i = b1"
    using i by auto
  show "list_all2 flushed_or_same bs bs'"
  proof (rule list_all2_all_nthI)
    show "length bs = length bs'" using fs by (auto dest: list_all2_lengthD)
    fix n assume n: "n < length bs"
    show "flushed_or_same (bs ! n) (bs' ! n)"
      using list_all2_nthD [OF fs, of n] n own b1 by (cases "n = i") auto
  qed
  show "\<exists>ms. tr' = tr @ ms \<and> (\<forall>m \<in> set ms. is_tool_result m)"
    using tr1 ms tr' ms' by (auto intro!: exI [of _ "ms @ ms'"])
qed

section \<open>Validity\<close>

lemma observed_entry_valid:
  assumes v: "entry_error e = None" and s: "suspended_entry e"
    and new: "to_observation_id obs \<notin> set (be_processed_observation_ids e)"
  shows "entry_error (observed_entry obs e) = None"
proof -
  have "\<not> be_public_terminal_emitted e"
    using v suspended_not_terminal [OF s] by (auto simp: entry_error_def first_error_None)
  with v new show ?thesis
    by (auto simp: entry_error_def first_error_None observed_entry_state suspension_state_open
        split: execution_outcome.splits)
qed

lemma close_surface_valid: "entry_error s = None \<Longrightarrow> entry_error (close_surface rec oc s) = None"
  by (auto simp: entry_error_def first_error_None close_surface_def)

lemma mark_flushed_valid: "entry_error (mark_flushed e) = None \<longleftrightarrow> entry_error e = None"
  by (auto simp: entry_error_def first_error_None mark_flushed_def)

text \<open>A batch is valid when its entries are and its frame is that of a valid batch.\<close>

definition batch_ids_error :: "tool_batch \<Rightarrow> bool" where
  "batch_ids_error b \<longleftrightarrow> \<not> distinct (map be_call_id (tb_entries b))
     \<or> \<not> list_all (\<lambda>e. be_assistant_message_id e = tb_assistant_message_id b) (tb_entries b)"

lemma batch_error_split:
  "batch_error b = None \<longleftrightarrow> (\<forall>e \<in> set (tb_entries b). entry_error e = None) \<and> \<not> batch_ids_error b"
  by (auto simp: batch_error_def first_error_None batch_ids_error_def)

lemma mark_flushed_batch_valid:
  assumes "batch_error b = None" and "flushed_or_same b b'"
  shows "batch_error b' = None"
proof -
  have "batch_error (b\<lparr>tb_entries := map mark_flushed (tb_entries b), tb_results_flushed := f\<rparr>) = None" for f
    using assms(1)
    by (auto simp: batch_error_split batch_ids_error_def mark_flushed_valid list_all_iff comp_def)
      (simp_all add: mark_flushed_def)
  with assms show ?thesis by (auto simp: flushed_or_same_def)
qed

lemma flushed_batches_valid:
  "list_all2 flushed_or_same bs bs' \<Longrightarrow> \<forall>b \<in> set bs. batch_error b = None \<Longrightarrow>
     \<forall>b \<in> set bs'. batch_error b = None"
  by (induction rule: list_all2_induct) (auto intro: mark_flushed_batch_valid)

lemma close_surfaces_valid:
  assumes "\<forall>b \<in> set bs. batch_error b = None"
  shows "\<forall>b \<in> set (close_surfaces i e oc bs). batch_error b = None"
proof -
  have "batch_error (b\<lparr>tb_entries := map (close_surface rec oc) (tb_entries b)\<rparr>) = None"
    if "batch_error b = None" for b rec
    using that by (auto simp: batch_error_split batch_ids_error_def close_surface_valid list_all_iff comp_def)
  with assms show ?thesis
    by (auto simp: close_surfaces_def in_set_enumerate_eq split: if_splits)
qed

lemma observed_batches_valid:
  assumes v: "\<forall>b \<in> set bs. batch_error b = None" and i: "i < length bs"
    and j: "j < length (tb_entries (bs ! i))" and e: "e = tb_entries (bs ! i) ! j"
    and s: "suspended_entry e" and new: "to_observation_id obs \<notin> set (be_processed_observation_ids e)"
  shows "\<forall>b \<in> set (observed_batches obs i j e bs). batch_error b = None"
proof -
  let ?b = "bs ! i" and ?e = "observed_entry obs e"
  have b: "\<forall>e \<in> set (tb_entries ?b). entry_error e = None" "\<not> batch_ids_error ?b"
    using v i by (auto simp: batch_error_split)
  have ins: "set ((tb_entries ?b)[j := ?e]) \<subseteq> insert ?e (set (tb_entries ?b))"
    by (rule set_update_subset_insert)
  have "entry_error ?e = None"
    using b(1) j e by (intro observed_entry_valid [OF _ s new]) auto
  moreover have "map be_call_id ((tb_entries ?b)[j := ?e]) = map be_call_id (tb_entries ?b)"
    by (rule nth_equalityI) (use j in \<open>auto simp: nth_list_update e\<close>)
  moreover have "be_assistant_message_id ?e = tb_assistant_message_id ?b"
    using b(2) j e by (auto simp: batch_ids_error_def list_all_iff)
  ultimately have "batch_error (?b\<lparr>tb_entries := (tb_entries ?b)[j := ?e]\<rparr>) = None"
    using b ins by (auto simp: batch_error_split batch_ids_error_def list_all_iff)
  then have "\<forall>b \<in> set (bs[i := ?b\<lparr>tb_entries := (tb_entries ?b)[j := ?e]\<rparr>]). batch_error b = None"
    using v set_update_subset_insert [of bs i "?b\<lparr>tb_entries := (tb_entries ?b)[j := ?e]\<rparr>"] by auto
  then show ?thesis unfolding observed_batches_def Let_def by (rule close_surfaces_valid)
qed

lemma frames_ids:
  assumes "list_all2 same_frame bs bs'"
  shows "map tb_assistant_message_id bs' = map tb_assistant_message_id bs"
    and "map be_call_id (concat (map tb_entries bs')) = map be_call_id (concat (map tb_entries bs))"
    and "public_call_ids (concat (map tb_entries bs')) = public_call_ids (concat (map tb_entries bs))"
    and "list_all (\<lambda>e. be_acceptance e \<noteq> None \<longrightarrow> truthy_str (be_opaque_public_call_id e))
           (concat (map tb_entries bs'))
         = list_all (\<lambda>e. be_acceptance e \<noteq> None \<longrightarrow> truthy_str (be_opaque_public_call_id e))
           (concat (map tb_entries bs))"
proof -
  have "list_all2 (\<lambda>e e'. be_call_id e' = be_call_id e
      \<and> be_opaque_public_call_id e' = be_opaque_public_call_id e \<and> be_acceptance e' = be_acceptance e)
      (concat (map tb_entries bs)) (concat (map tb_entries bs'))"
    using assms by (induction rule: list_all2_induct) (auto simp: same_frame_def intro: list_all2_appendI)
  then show "map be_call_id (concat (map tb_entries bs')) = map be_call_id (concat (map tb_entries bs))"
    and "public_call_ids (concat (map tb_entries bs')) = public_call_ids (concat (map tb_entries bs))"
    and "list_all (\<lambda>e. be_acceptance e \<noteq> None \<longrightarrow> truthy_str (be_opaque_public_call_id e))
           (concat (map tb_entries bs'))
         = list_all (\<lambda>e. be_acceptance e \<noteq> None \<longrightarrow> truthy_str (be_opaque_public_call_id e))
           (concat (map tb_entries bs))"
    by (induction rule: list_all2_induct)
      (auto simp: public_call_ids_def List.map_filter_simps split: option.splits)
  show "map tb_assistant_message_id bs' = map tb_assistant_message_id bs"
    using assms by (induction rule: list_all2_induct) (auto simp: same_frame_def)
qed

lemma apply_observation_shape:
  assumes g: "observation_guard r obs = Inr (ObservationApplies i j e)"
    and a: "apply_observation r obs now i j e = Inr (r', ks)"
  obtains bs ms where "r' = r\<lparr>run_tool_batches := bs, run_transcript := run_transcript r @ ms,
       run_artifact_refs := observed_refs (to_outcome obs) (run_artifact_refs r),
       run_consecutive_model_joins :=
         (if is_result (to_outcome obs) then 0 else run_consecutive_model_joins r),
       run_st := observed_status bs\<rparr>"
    and "\<forall>m \<in> set ms. is_tool_result m"
    and "list_all2 flushed_or_same (observed_batches obs i j e (run_tool_batches r)) bs"
    and "list_all2 same_frame (run_tool_batches r) bs"
proof -
  note gs = guard_applies [OF g]
  from a obtain tr bs where f: "flush_observed obs i now (run_transcript r)
      (observed_batches obs i j e (run_tool_batches r)) = Inr (tr, bs, ks)"
    and r': "r' = r\<lparr>run_tool_batches := bs, run_transcript := tr,
       run_artifact_refs := observed_refs (to_outcome obs) (run_artifact_refs r),
       run_consecutive_model_joins :=
         (if is_result (to_outcome obs) then 0 else run_consecutive_model_joins r),
       run_st := observed_status bs\<rparr>"
    by (auto simp: apply_observation_def split: sum.splits)
  have i: "i < length (observed_batches obs i j e (run_tool_batches r))" using gs(3) by simp
  note fs = flush_observed_shape [OF f i]
  have "list_all2 same_frame (observed_batches obs i j e (run_tool_batches r)) bs"
    using fs(1) by (rule list_all2_mono) (rule flushed_frame)
  with observed_frame [OF gs(3-5)] have "list_all2 same_frame (run_tool_batches r) bs"
    by (rule same_frames_trans)
  with fs r' that show ?thesis by blast
qed

lemma apply_observation_transcript:
  assumes "observation_guard r obs = Inr (ObservationApplies i j e)"
    and "apply_observation r obs now i j e = Inr (r', ks)"
  shows "\<exists>ms. run_transcript r' = run_transcript r @ ms \<and> (\<forall>m \<in> set ms. is_tool_result m)"
  by (rule apply_observation_shape [OF assms]) auto

lemma aggregate_error_open:
  assumes "run_st r \<noteq> Canceling" and "\<not> is_terminal_status (run_st r)"
  shows "aggregate_error r = None \<longleftrightarrow>
     distinct (map tb_assistant_message_id (run_tool_batches r))
     \<and> distinct (map be_call_id (run_entries r)) \<and> distinct (run_artifact_refs r)
     \<and> distinct (run_processed_command_ids r) \<and> distinct (map pi_intent_id (run_projection_outbox r))
     \<and> distinct (public_call_ids (run_entries r))
     \<and> run_cancellation_command_id r = None \<and> run_cancellation_requested_at r = None
     \<and> run_cancellation_cause r = None
     \<and> list_all (\<lambda>e. be_acceptance e \<noteq> None \<longrightarrow> truthy_str (be_opaque_public_call_id e)) (run_entries r)
     \<and> run_greatest_public_text_offset r = int (length (run_active_public_text r))"
proof -
  have st: "run_st r \<noteq> Canceled" using assms(2) by (auto simp: terminal_run_statuses_def)
  show ?thesis
    unfolding aggregate_error_def cancellation_error_def terminal_error_def if_not_P [OF assms(1)]
      if_not_P [OF assms(2)] if_not_P [OF st] first_error_None
    by (simp add: conj_ac)
qed

lemma apply_observation_batches:
  assumes "observation_guard r obs = Inr (ObservationApplies i j e)"
    and "apply_observation r obs now i j e = Inr (r', ks)"
  shows "list_all2 flushed_or_same (observed_batches obs i j e (run_tool_batches r)) (run_tool_batches r')"
    and "list_all2 same_frame (run_tool_batches r) (run_tool_batches r')"
  by (rule apply_observation_shape [OF assms]; simp)+

lemma observed_status_open: "observed_status bs \<in> {AwaitingUser, WaitingExternal, Running}"
  by (simp add: observed_status_def)

text \<open>
  C11: Observing keeps the aggregate valid: every field constraint and every rule of the Run
  validator that held of the loaded Run holds of the Run the observation leaves.
\<close>

theorem observation_keeps_run_valid:
  assumes v: "valid_run r" and o: "observe r obs now = Inr r'"
  shows "valid_run r'"
proof (cases "observation_guard r obs")
  case (Inl x)
  with o show ?thesis by (simp add: observe_def)
next
  case (Inr step)
  show ?thesis
  proof (cases step)
    case (ObservationReplayed x)
    with Inr o v show ?thesis by (simp add: observe_def)
  next
    case (ObservationApplies i j e)
    with Inr have g: "observation_guard r obs = Inr (ObservationApplies i j e)" by simp
    with o obtain ks where a: "apply_observation r obs now i j e = Inr (r', ks)"
      by (auto simp: observe_def)
    note gs = guard_applies [OF g]
    from apply_observation_shape [OF g a] obtain bs ms where
      r': "r' = r\<lparr>run_tool_batches := bs, run_transcript := run_transcript r @ ms,
         run_artifact_refs := observed_refs (to_outcome obs) (run_artifact_refs r),
         run_consecutive_model_joins :=
           (if is_result (to_outcome obs) then 0 else run_consecutive_model_joins r),
         run_st := observed_status bs\<rparr>"
      and ms: "\<forall>m \<in> set ms. is_tool_result m"
      and fs: "list_all2 flushed_or_same (observed_batches obs i j e (run_tool_batches r)) bs"
      and fr: "list_all2 same_frame (run_tool_batches r) bs" .
    have "\<forall>b \<in> set (run_tool_batches r). batch_error b = None"
      using v by (auto simp: run_check_defs first_error_None)
    from observed_batches_valid [OF this gs(3-5) gs(7,8)]
    have "\<forall>b \<in> set bs. batch_error b = None"
      by (rule flushed_batches_valid [OF fs])
    moreover from v have "run_field_error r = None"
      by (simp add: valid_run_def run_error_def first_error_None)
    ultimately have fields: "run_field_error r' = None"
      using ms tool_result_facts(1) unfolding run_field_error_def r' by (simp add: first_error_None ball_Un)
    have st: "run_st r \<noteq> Canceling" "\<not> is_terminal_status (run_st r)"
      using gs(6) by (auto simp: suspended_run_statuses_def terminal_run_statuses_def)
    have st': "run_st r' \<noteq> Canceling" "\<not> is_terminal_status (run_st r')"
      using observed_status_open [of bs] by (auto simp: r' terminal_run_statuses_def)
    have old: "aggregate_error r = None"
      using v by (simp add: valid_run_def run_error_def first_error_None)
    then have "distinct (observed_refs (to_outcome obs) (run_artifact_refs r))"
      unfolding aggregate_error_open [OF st]
      by (simp add: observed_refs_def merge_artifact_refs_def split: execution_outcome.split)
    with old frames_ids(4) [OF fr] have "aggregate_error r' = None"
      unfolding aggregate_error_open [OF st] aggregate_error_open [OF st']
      by (simp add: r' run_entries_def frames_ids [OF fr])
    with fields show ?thesis by (simp add: valid_run_def run_error_def first_error_None)
  qed
qed

section \<open>Redelivery\<close>

lemma positions_entries: "map (\<lambda>(i, j, e). e) (positions bs) = concat (map tb_entries bs)"
proof -
  have row: "map (\<lambda>(i, j, e). e) (map (Pair k) (enumerate m es)) = es"
    for k :: nat and m :: nat and es :: "batch_entry list"
    by (induction es arbitrary: m) auto
  have "map (\<lambda>(i, j, e). e) (concat (map (\<lambda>(i, b). map (\<lambda>(j, e). (i, j, e)) (enumerate 0 (tb_entries b)))
      (enumerate n bs))) = concat (map tb_entries bs)" for n
    by (induction bs arbitrary: n) (simp_all add: row del: map_map)
  then show ?thesis by (simp add: positions_def)
qed

lemma find_invocation_unique:
  assumes d: "distinct (map be_call_id (concat (map tb_entries (run_tool_batches r))))"
    and i: "i < length (run_tool_batches r)" and j: "j < length (tb_entries (run_tool_batches r ! i))"
  shows "find_invocation r (be_call_id (tb_entries (run_tool_batches r ! i) ! j))
     = Some (i, j, tb_entries (run_tool_batches r ! i) ! j)"
proof -
  let ?ps = "positions (run_tool_batches r)" and ?e = "tb_entries (run_tool_batches r ! i) ! j"
  have "map be_call_id (concat (map tb_entries (run_tool_batches r)))
      = map (\<lambda>p. be_call_id (case p of (i, j, e) \<Rightarrow> e)) ?ps"
    unfolding positions_entries [symmetric] by simp
  with d have inj: "inj_on (\<lambda>p. be_call_id (case p of (i, j, e) \<Rightarrow> e)) (set ?ps)"
    by (simp add: distinct_map)
  show ?thesis unfolding find_invocation_def
  proof (rule find_unique)
    show m: "(i, j, ?e) \<in> set ?ps" using i j by (simp add: positions_iff)
    show "case (i, j, ?e) of (i, j, e) \<Rightarrow> be_call_id e = be_call_id ?e" by simp
    fix p assume p: "p \<in> set ?ps" "case p of (i, j, e) \<Rightarrow> be_call_id e = be_call_id ?e"
    then have "be_call_id (case p of (i, j, e) \<Rightarrow> e) = be_call_id (case (i, j, ?e) of (i, j, e) \<Rightarrow> e)"
      by (auto split: prod.splits)
    from inj_onD [OF inj this p(1) m] show "p = (i, j, ?e)" .
  qed
qed

lemma observed_target_kept:
  assumes g: "observation_guard r obs = Inr (ObservationApplies i j e)"
    and fs: "list_all2 flushed_or_same (observed_batches obs i j e (run_tool_batches r)) bs"
  shows "i < length bs" and "j < length (tb_entries (bs ! i))"
    and "tb_entries (bs ! i) ! j = observed_entry obs e \<or> tb_entries (bs ! i) ! j = mark_flushed (observed_entry obs e)"
proof -
  note gs = guard_applies [OF g]
  let ?os = "observed_batches obs i j e (run_tool_batches r)"
  show i: "i < length bs" using fs gs(3) by (auto dest: list_all2_lengthD)
  have f: "flushed_or_same (?os ! i) (bs ! i)" using fs gs(3) by (auto intro: list_all2_nthD)
  have own: "tb_entries (?os ! i) = (tb_entries (run_tool_batches r ! i))[j := observed_entry obs e]"
    by (rule observed_own_entry [OF gs(3,4)])
  have j: "j < length (tb_entries (?os ! i))" using gs(4) by (simp add: own)
  then show "j < length (tb_entries (bs ! i))" using f by (auto simp: flushed_or_same_def)
  show "tb_entries (bs ! i) ! j = observed_entry obs e \<or> tb_entries (bs ! i) ! j = mark_flushed (observed_entry obs e)"
    using flushed_or_same_entry [OF f j] gs(4) by (simp add: own)
qed

lemma seen_never_applies:
  assumes "find_invocation r (to_invocation_id obs) = Some (i, j, e)"
    and "to_observation_id obs \<in> set (be_processed_observation_ids e)"
  shows "observation_guard r obs \<noteq> Inr (ObservationApplies i' j' e')"
  using assms by (auto simp: observation_guard_def Let_def split: option.splits)

lemma not_applied_unchanged:
  assumes "\<And>i j e. observation_guard r obs \<noteq> Inr (ObservationApplies i j e)"
  shows "observe r obs now = Inr r \<or> (\<exists>x. observe r obs now = Inl x)"
  using assms by (auto simp: observe_def split: sum.splits observation_step.splits)

text \<open>
  A Tool observation takes effect once: delivered again, at any later time, to the Run it
  left behind, it is answered as a replay or refused, and the Run stays as it is.
\<close>

theorem observation_redelivery_changes_nothing:
  assumes v: "valid_run r" and o: "observe r obs now = Inr r'"
  shows "observe r' obs now' = Inr r' \<or> (\<exists>x. observe r' obs now' = Inl x)"
proof (cases "\<exists>i j e. observation_guard r obs = Inr (ObservationApplies i j e)")
  case False
  with o have "r' = r" by (auto simp: observe_def split: sum.splits observation_step.splits)
  with False show ?thesis by (intro not_applied_unchanged) auto
next
  case True
  then obtain i j e where g: "observation_guard r obs = Inr (ObservationApplies i j e)" by blast
  with o obtain ks where a: "apply_observation r obs now i j e = Inr (r', ks)"
    by (auto simp: observe_def)
  note fs = apply_observation_batches(1) [OF g a] and fr = apply_observation_batches(2) [OF g a]
  note t = observed_target_kept [OF g fs]
  have "distinct (map be_call_id (concat (map tb_entries (run_tool_batches r'))))"
    using v by (auto simp: run_check_defs first_error_None run_entries_def frames_ids(2) [OF fr])
  with find_invocation_unique [of r' i j] t guard_applies(2) [OF g]
  have "find_invocation r' (to_invocation_id obs) = Some (i, j, tb_entries (run_tool_batches r' ! i) ! j)"
    by auto
  moreover have "to_observation_id obs \<in> set (be_processed_observation_ids (tb_entries (run_tool_batches r' ! i) ! j))"
    using t(3) by auto
  ultimately show ?thesis by (intro not_applied_unchanged seen_never_applies)
qed

section \<open>Consumed rounds\<close>

lemma close_surface_closes: "\<not> open_surface rec (close_surface rec oc s)"
  by (auto simp: close_surface_def open_surface_def needs_input_def)

lemma open_surface_mark [simp]: "open_surface rec (mark_flushed s) = open_surface rec s"
  by (simp add: open_surface_def mark_flushed_def needs_input_def)

lemma observed_surfaces_closed:
  assumes "is_result (to_outcome obs) \<or> new_interaction e (to_outcome obs)"
    and "k < length bs" and "k \<noteq> i" and "s \<in> set (tb_entries (observed_batches obs i j e bs ! k))"
  shows "\<not> open_surface (be_suspended_call_record_id e) s"
proof -
  have "case to_outcome obs of OutcomeResult _ \<Rightarrow> True | OutcomeSuspension _ \<Rightarrow> new_interaction e (to_outcome obs)"
    using assms(1) by (auto simp: is_result_def split: execution_outcome.splits)
  with assms(2-4) show ?thesis
    by (auto simp: observed_batches_def close_surfaces_def Let_def nth_enumerate_eq close_surface_closes)
qed

lemma fresh_observed:
  assumes "new_interaction e (to_outcome obs)"
  shows "\<not> be_presented (observed_entry obs e) \<and> be_presentation_id (observed_entry obs e) = None"
  using assms by (cases "to_outcome obs") (simp_all add: observed_entry_def Let_def new_interaction_def)

text \<open>
  An answer is not asked for twice: once the terminal result of an Agent call, or a question
  that differs from the one the user answered, is observed, no row of another batch still shows the
  consumed round to the user, and a new question starts unpresented.
\<close>

theorem consumed_round_is_closed:
  assumes g: "observation_guard r obs = Inr (ObservationApplies i j e)"
    and a: "apply_observation r obs now i j e = Inr (r', ks)"
    and consumed: "is_result (to_outcome obs) \<or> new_interaction e (to_outcome obs)"
  shows "(\<forall>k < length (run_tool_batches r'). k \<noteq> i \<longrightarrow>
            (\<forall>s \<in> set (tb_entries (run_tool_batches r' ! k)). \<not> open_surface (be_suspended_call_record_id e) s))
     \<and> (new_interaction e (to_outcome obs) \<longrightarrow> \<not> be_presented (tb_entries (run_tool_batches r' ! i) ! j)
            \<and> be_presentation_id (tb_entries (run_tool_batches r' ! i) ! j) = None)"
proof -
  let ?os = "observed_batches obs i j e (run_tool_batches r)" and ?bs = "run_tool_batches r'"
  note fs = apply_observation_batches(1) [OF g a]
  have len: "length ?bs = length (run_tool_batches r)" using fs by (auto dest: list_all2_lengthD)
  have "\<not> open_surface (be_suspended_call_record_id e) s"
    if k: "k < length ?bs" "k \<noteq> i" and s: "s \<in> set (tb_entries (?bs ! k))" for k s
  proof -
    have f: "flushed_or_same (?os ! k) (?bs ! k)"
      using fs k(1) len by (auto intro: list_all2_nthD)
    from s obtain n where n: "n < length (tb_entries (?bs ! k))" and sn: "s = tb_entries (?bs ! k) ! n"
      by (auto simp: in_set_conv_nth)
    have n': "n < length (tb_entries (?os ! k))" using f n by (auto simp: flushed_or_same_def)
    then have "\<not> open_surface (be_suspended_call_record_id e) (tb_entries (?os ! k) ! n)"
      using observed_surfaces_closed [OF consumed _ k(2) nth_mem [OF n']] k(1) len by simp
    with flushed_or_same_entry [OF f n'] sn show ?thesis by auto
  qed
  moreover have "\<not> be_presented (tb_entries (?bs ! i) ! j) \<and> be_presentation_id (tb_entries (?bs ! i) ! j) = None"
    if "new_interaction e (to_outcome obs)"
    using observed_target_kept(3) [OF g fs] fresh_observed [OF that] by auto
  ultimately show ?thesis by blast
qed

section \<open>A Run that waits for an answer\<close>

text \<open>
  The call \<open>c1\<close> of an Agent asked a question, which the model forwarded to the user with the call
  \<open>c2\<close> of \<open>surface_agent_questions\<close>. The observation is the Agent's result after the answer.
\<close>

definition sample_asking :: "string \<Rightarrow> string \<Rightarrow> string \<Rightarrow> assistant_message" where
  "sample_asking mid cid tool = \<lparr>am_message_id = mid, am_content = [],
     am_tool_calls = [\<lparr>tc_call_id = cid, tc_tool_name = tool, tc_arguments = []\<rparr>],
     am_finish_reason = FinToolCalls, am_usage = None, am_created_at = 1\<rparr>"

definition sample_parked_entry :: batch_entry where
  "sample_parked_entry = sample_entry\<lparr>be_state := EsInputRequired, be_buffered_terminal_result := None,
     be_public_terminal_emitted := False, be_presented := True, be_result_flushed := False,
     be_suspended_call_record_id := Some ''rec'', be_interaction_id := Some ''q'',
     be_interaction_fingerprint := Some ''fp''\<rparr>"

definition sample_surface_entry :: batch_entry where
  "sample_surface_entry = sample_parked_entry\<lparr>be_call_id := ''c2'', be_assistant_message_id := ''m3'',
     be_opaque_public_call_id := Some ''inv_2'', be_tool_name := surface_tool, be_presented := False,
     be_invocation := None, be_acceptance := None, be_surface_for_call_record_id := Some ''rec''\<rparr>"

definition sample_parked_run :: run_state where
  "sample_parked_run = sample_run\<lparr>run_st := AwaitingUser,
     run_transcript := [AssistantMsg (sample_asking ''m1'' ''c1'' ''ask''),
       AssistantMsg (sample_asking ''m3'' ''c2'' surface_tool)],
     run_tool_batches :=
       [sample_batch\<lparr>tb_entries := [sample_parked_entry], tb_results_flushed := False\<rparr>,
        sample_batch\<lparr>tb_assistant_message_id := ''m3'', tb_entries := [sample_surface_entry],
          tb_results_flushed := False\<rparr>],
     run_proposed_final_message_id := None\<rparr>"

definition sample_answered :: tool_observation where
  "sample_answered = \<lparr>to_observation_id = ''o1'', to_invocation_id = ''c1'',
     to_outcome = OutcomeResult sample_result, to_observed_at = 9, to_interaction_answers = None\<rparr>"

lemmas parked_defs = sample_parked_run_def sample_parked_entry_def sample_surface_entry_def
  sample_answered_def sample_asking_def sample_defs

lemma sample_guard:
  "observation_guard sample_parked_run sample_answered = Inr (ObservationApplies 0 0 sample_parked_entry)"
  by code_simp

lemma sample_materialised:
  "materialised (run_transcript sample_parked_run) (run_tool_batches sample_parked_run)"
  by (simp add: materialised_def batch_materialised_def entry_materialised_def well_paired_follow
      parked_defs surface_tool_def)

lemma sample_parked_valid: "valid_run sample_parked_run"
proof -
  have "run_field_error sample_parked_run = None"
    using sample_run_valid
    by (simp add: valid_run_def run_error_def run_field_error_def first_error_None message_error_def
        batch_error_split batch_ids_error_def entry_error_def invocation_error_def parked_defs)
  moreover have "aggregate_error sample_parked_run = None"
    by (subst aggregate_error_open)
      (simp_all add: parked_defs terminal_run_statuses_def run_entries_def public_call_ids_def
        truthy_str_def List.map_filter_def)
  ultimately show ?thesis by (simp add: valid_run_def run_error_def first_error_None)
qed

lemma sample_applied: "case observe sample_parked_run sample_answered 9 of
     Inr r' \<Rightarrow> run_st r' = Running \<and> length (run_transcript r') = 4 | Inl _ \<Rightarrow> False"
  by code_simp

theorem observation_materialises_results_witness:
  "\<exists>r' ks. apply_observation sample_parked_run sample_answered 9 0 0 sample_parked_entry = Inr (r', ks)
     \<and> materialised (run_transcript r') (run_tool_batches r')"
  using observation_materialises_results [OF sample_guard sample_materialised, of 9] by blast

theorem observation_keeps_run_valid_witness:
  "\<exists>r'. observe sample_parked_run sample_answered 9 = Inr r' \<and> valid_run r'"
  using sample_applied observation_keeps_run_valid [OF sample_parked_valid, of sample_answered 9]
  by (auto split: sum.splits)

theorem observation_redelivery_changes_nothing_witness:
  "\<exists>r'. observe sample_parked_run sample_answered 9 = Inr r'
     \<and> (observe r' sample_answered 10 = Inr r' \<or> (\<exists>x. observe r' sample_answered 10 = Inl x))"
  using sample_applied observation_redelivery_changes_nothing [OF sample_parked_valid, of sample_answered 9 _ 10]
  by (auto split: sum.splits)

theorem consumed_round_is_closed_witness:
  "\<exists>r' ks. apply_observation sample_parked_run sample_answered 9 0 0 sample_parked_entry = Inr (r', ks)
     \<and> (\<forall>k < length (run_tool_batches r'). k \<noteq> 0 \<longrightarrow>
            (\<forall>s \<in> set (tb_entries (run_tool_batches r' ! k)).
               \<not> open_surface (be_suspended_call_record_id sample_parked_entry) s))"
proof -
  obtain r' ks where "apply_observation sample_parked_run sample_answered 9 0 0 sample_parked_entry = Inr (r', ks)"
    using sample_applied by (auto simp: observe_def sample_guard split: sum.splits)
  moreover have "is_result (to_outcome sample_answered)" by (simp add: sample_answered_def is_result_def)
  ultimately show ?thesis using consumed_round_is_closed [OF sample_guard] by blast
qed

end
