(* ===== verification/Kernel_Protocol.thy ===== *)
theory Kernel_Protocol
  imports Kernel_Outcomes Observation_Safety
begin

text \<open>
  The transcript protocol of the kernel as a step relation: every way in which the kernel changes the
  transcript or the batches of a Run is a step, and the invariant of every reachable Run is that the
  calls the transcript announces are the entries of the batches, with a result message exactly
  for the flushed ones. The transcript of a reachable Run can therefore always be converted for
  the provider.
\<close>

section \<open>Steps\<close>

text \<open>
  A patch that \<open>_update_entry\<close> may be given: a terminal entry stays terminal, and a terminal result
  answers the call of the entry.
\<close>

definition patch_correlates :: "entry_patch \<Rightarrow> batch_entry \<Rightarrow> bool" where
  "patch_correlates p e \<longleftrightarrow> (be_state e = EsTerminal \<longrightarrow> ep_state p = EsTerminal)
     \<and> (ep_state p = EsTerminal \<longrightarrow> (case ep_result p of
           None \<Rightarrow> False | Some x \<Rightarrow> tr_call_id x = be_call_id e))"

text \<open>
  A Tool that was executed had been accepted and was not terminal: the outcome that suspends a call meets an
  open entry.
\<close>

definition suspends_open :: "(string \<times> execution_outcome) list \<Rightarrow> batch_entry list \<Rightarrow> bool" where
  "suspends_open ocs es \<longleftrightarrow> list_all (\<lambda>(cid, oc). is_result oc
     \<or> list_all (\<lambda>e. be_call_id e = cid \<longrightarrow> be_state e \<noteq> EsTerminal) es) ocs"

text \<open>
  The checkpoints of the kernel that touch transcript or batches, each by the definition of the method that
  writes it: notices, assistant messages, \<open>_update_entry\<close>, the end of \<open>_execute_tool_batch\<close>,
  \<open>_reject_grace_tools\<close>, the flushes of the finalization and of the terminal sweep,
  \<open>_suspend_for_surface_forward\<close>, \<open>_present_interactions\<close>, \<open>_backfill_presentation_ids\<close>, \<open>_ensure_tool_batch\<close>
  and \<open>observe_tool\<close>. Every other checkpoint leaves both alone.
\<close>

inductive kernel_step :: "run_state \<Rightarrow> run_state \<Rightarrow> bool" where
  step_message: "calls_of m = [] \<Longrightarrow> answered_call m = [] \<Longrightarrow>
     kernel_step r (r\<lparr>run_transcript := run_transcript r @ [m]\<rparr>)"
| step_assistant: "valid_run (with_assistant a r) \<Longrightarrow> kernel_step r (with_assistant a r)"
| step_entry: "i < length (run_tool_batches r) \<Longrightarrow> j < length (tb_entries (run_tool_batches r ! i)) \<Longrightarrow>
     patch_correlates p (entry_at r i j) \<Longrightarrow>
     kernel_step r (put_entry i j (patch_entry p (entry_at r i j)) r)"
| step_settle: "i < length (run_tool_batches r) \<Longrightarrow> distinct (map fst ocs) \<Longrightarrow>
     suspends_open ocs (tb_entries (run_tool_batches r ! i)) \<Longrightarrow>
     settle_tool_batch a i ocs joins fatal now r = Inr r' \<Longrightarrow> kernel_step r r'"
| step_grace: "i < length (run_tool_batches r) \<Longrightarrow> grace_rejected a i now r = Inr r' \<Longrightarrow> kernel_step r r'"
| step_flush: "i < length (run_tool_batches r) \<Longrightarrow> flush_at i now r = Inr r' \<Longrightarrow> kernel_step r r'"
| step_surface: "parked \<in> set (run_entries r) \<Longrightarrow> be_interaction_id parked \<noteq> None \<Longrightarrow>
     be_suspended_call_record_id parked \<noteq> None \<Longrightarrow> kernel_step r (declare_surface digest parked i j r)"
| step_present: "list_all (\<lambda>e. CHR '':'' \<notin> set (or_empty (be_interaction_fingerprint e))) (run_entries r) \<Longrightarrow>
     kernel_step r (presented_run digest r now)"
| step_backfill: "kernel_step r (backfill_presentation_ids digest r)"
| step_reconstruct: "reconstructible a r \<Longrightarrow> valid_run (with_batch a r) \<Longrightarrow> kernel_step r (with_batch a r)"
| step_observe: "observe r obs now = Inr r' \<Longrightarrow> kernel_step r r'"
| step_frame: "run_transcript r' = run_transcript r \<Longrightarrow> run_tool_batches r' = run_tool_batches r \<Longrightarrow>
     kernel_step r r'"

inductive_cases kernel_stepE: "kernel_step r r'"

section \<open>The invariant\<close>

text \<open>An interaction message is identified by its call and its round.\<close>

definition interaction_named :: "agent_message \<Rightarrow> bool" where
  "interaction_named m = (case m of
      ToolInteractionMsg t \<Rightarrow> CHR '':'' \<notin> set (tim_interaction_fingerprint t)
        \<and> tim_message_id t = ''interaction:'' @ tim_call_id t @ '':'' @ tim_interaction_fingerprint t
    | _ \<Rightarrow> True)"

definition accounted :: "run_state \<Rightarrow> bool" where
  "accounted r \<longleftrightarrow> materialised (run_transcript r) (run_tool_batches r)
     \<and> set (announced (run_transcript r)) = set (map be_call_id (run_entries r))
     \<and> list_all interaction_named (run_transcript r)"

lemma accounted_update:
  assumes "accounted r" and "list_all2 (batch_update (run_transcript r)) (run_tool_batches r) bs"
    and "run_transcript r' = run_transcript r" and "run_tool_batches r' = bs"
  shows "accounted r'"
proof -
  have "map (map be_call_id \<circ> tb_entries) bs = map (map be_call_id \<circ> tb_entries) (run_tool_batches r)"
    using assms(2) by (induction rule: list_all2_induct) (simp_all add: batch_update_calls)
  then have "map be_call_id (run_entries r') = map be_call_id (run_entries r)"
    using assms(4) by (simp add: run_entries_def map_concat_calls)
  then show ?thesis
    using assms materialised_update [OF assms(2)] by (simp add: accounted_def)
qed

lemma accounted_message:
  assumes "accounted r" and "calls_of m = []" and "answered_call m = []"
  shows "accounted (r\<lparr>run_transcript := run_transcript r @ [m]\<rparr>)"
proof -
  have r: "result_call m = []" using assms(3) result_answered [of m] by simp
  then have "entry_materialised (run_transcript r @ [m]) = entry_materialised (run_transcript r)"
    using assms(2) by (simp add: entry_materialised_def fun_eq_iff)
  then have same: "batch_materialised (run_transcript r @ [m]) = batch_materialised (run_transcript r)"
    by (intro ext) (simp only: batch_materialised_def)
  have "well_paired (run_transcript r @ [m])"
    using assms r by (intro well_paired_append_answers) (auto simp: accounted_def materialised_def)
  moreover have "interaction_named m" using assms(3) by (cases m) (simp_all add: interaction_named_def)
  ultimately show ?thesis
    using assms(1,2) same by (simp add: accounted_def materialised_def run_entries_def)
qed

lemma answers_announced:
  "answers_follow calls ms \<Longrightarrow> set (concat (map answered_call ms)) \<subseteq> set calls \<union> set (announced ms)"
proof (induction ms arbitrary: calls)
  case Nil
  then show ?case by simp
next
  case (Cons m ms)
  then have "set (answered_call m) \<subseteq> set calls" and "answers_follow (calls @ calls_of m) ms" by auto
  with Cons.IH [of "calls @ calls_of m"] show ?case by auto
qed

lemma resulted_answers: "set (resulted ms) \<subseteq> set (concat (map answered_call ms))"
  using result_answered by (induction ms) auto

lemma resulted_announced: "well_paired ms \<Longrightarrow> set (resulted ms) \<subseteq> set (announced ms)"
  using answers_announced [of "[]" ms] resulted_answers [of ms] by (simp add: well_paired_follow)

lemma new_batch_calls: "map be_call_id (tb_entries (new_tool_batch a turn)) = map tc_call_id (am_tool_calls a)"
proof -
  have "map (\<lambda>x. tc_call_id (snd x)) (enumerate n cs) = map tc_call_id cs" for n :: nat and cs
    by (induction cs arbitrary: n) simp_all
  then show ?thesis by (simp add: new_tool_batch_def comp_def case_prod_beta)
qed

lemma new_batch_entries:
  "e \<in> set (tb_entries (new_tool_batch a turn)) \<Longrightarrow>
     be_state e = EsPending \<and> \<not> be_result_flushed e \<and> be_call_id e \<in> tc_call_id ` set (am_tool_calls a)"
  by (auto simp: new_tool_batch_def in_set_enumerate_eq)

lemma accounted_assistant:
  assumes acc: "accounted r" and v: "valid_run (with_assistant a r)"
  shows "accounted (with_assistant a r)"
proof (cases "am_tool_calls a = []")
  case True
  have "accounted (r\<lparr>run_transcript := run_transcript r @ [AssistantMsg a]\<rparr>)"
    using acc True by (intro accounted_message) auto
  with True show ?thesis by (simp add: accounted_def with_assistant_def run_entries_def)
next
  case False
  let ?tr = "run_transcript r" and ?ids = "map tc_call_id (am_tool_calls a)"
  let ?b = "new_tool_batch a (run_active_internal_turn_id r)"
  have w: "run_transcript (with_assistant a r) = ?tr @ [AssistantMsg a]"
    and wb: "run_tool_batches (with_assistant a r) = run_tool_batches r @ [?b]"
    using False by (simp_all add: with_assistant_def)
  have "distinct (map be_call_id (run_entries (with_assistant a r)))"
    using v by (auto simp: run_check_defs first_error_None)
  then have d: "distinct (map be_call_id (run_entries r) @ ?ids)"
    by (simp add: run_entries_def wb new_batch_calls del: distinct_append)
  have m: "materialised ?tr (run_tool_batches r)"
    and ann: "set (announced ?tr) = set (map be_call_id (run_entries r))"
    using acc by (simp_all add: accounted_def)
  have fresh: "set ?ids \<inter> set (announced ?tr) = {}" using d ann by auto
  have "set (resulted ?tr) \<subseteq> set (announced ?tr)"
    using m by (intro resulted_announced) (simp add: materialised_def)
  then have fresh_res: "set ?ids \<inter> set (resulted ?tr) = {}" using fresh by blast
  have pair: "well_paired (?tr @ [AssistantMsg a])"
    using m d fresh by (auto simp: materialised_def well_paired_follow answers_follow_append)
  have old: "entry_materialised (?tr @ [AssistantMsg a]) e" if "entry_materialised ?tr e" for e
    using that by (simp add: entry_materialised_def)
  have new: "entry_materialised (?tr @ [AssistantMsg a]) e" if "e \<in> set (tb_entries ?b)" for e
    using new_batch_entries [OF that] fresh_res by (auto simp: entry_materialised_def)
  have "batch_materialised (?tr @ [AssistantMsg a]) ?b"
    using new by (auto simp: batch_materialised_def list_all_iff new_tool_batch_def)
  moreover have "list_all (batch_materialised (?tr @ [AssistantMsg a])) (run_tool_batches r)"
    using m old by (auto simp: materialised_def batch_materialised_def list_all_iff)
  ultimately have "materialised (?tr @ [AssistantMsg a]) (run_tool_batches r @ [?b])"
    using pair d by (simp add: materialised_def run_entries_def new_batch_calls)
  then show ?thesis
    using ann acc new_batch_calls [of a "run_active_internal_turn_id r"]
    by (simp add: accounted_def w wb run_entries_def interaction_named_def)
qed

lemma patch_entry_simps [simp]:
  "be_call_id (patch_entry p e) = be_call_id e" "be_result_flushed (patch_entry p e) = be_result_flushed e"
  "be_state (patch_entry p e) = ep_state p" "be_buffered_terminal_result (patch_entry p e) = ep_result p"
  by (simp_all add: patch_entry_def)

lemma patch_entry_update: "patch_correlates p e \<Longrightarrow> entry_update tr e (patch_entry p e)"
  by (auto simp: patch_correlates_def entry_update_def entry_materialised_def cong: option.case_cong)

lemma accounted_entry:
  assumes acc: "accounted r" and i: "i < length (run_tool_batches r)"
    and p: "patch_correlates p (entry_at r i j)"
  shows "accounted (put_entry i j (patch_entry p (entry_at r i j)) r)"
proof (rule accounted_update [OF acc])
  let ?b = "run_tool_batches r ! i"
  have "batch_update (run_transcript r) ?b (?b\<lparr>tb_entries := (tb_entries ?b)[j := patch_entry p (entry_at r i j)]\<rparr>)"
    using patch_entry_update [OF p] by (simp add: batch_update_def list_all2_single_update entry_at_def)
  then show "list_all2 (batch_update (run_transcript r)) (run_tool_batches r) ((run_tool_batches r)
      [i := ?b\<lparr>tb_entries := (tb_entries ?b)[j := patch_entry p (entry_at r i j)]\<rparr>])"
    by (simp add: list_all2_single_update)
qed (simp_all add: put_entry_def Let_def)

lemma same_frame_calls:
  "list_all2 same_frame bs bs' \<Longrightarrow> map be_call_id (concat (map tb_entries bs')) = map be_call_id (concat (map tb_entries bs))"
  by (rule frames_ids)

lemma accounted_results:
  assumes acc: "accounted r" and tr: "run_transcript r' = run_transcript r @ ms"
    and ms: "\<forall>m \<in> set ms. is_tool_result m"
    and fr: "list_all2 same_frame (run_tool_batches r) (run_tool_batches r')"
    and m: "materialised (run_transcript r') (run_tool_batches r')"
  shows "accounted r'"
proof -
  have "announced ms = []" using ms tool_result_facts(2) by simp
  moreover have "list_all interaction_named ms"
    using ms by (auto simp: list_all_iff is_tool_result_def interaction_named_def split: agent_message.splits)
  moreover have "set (map be_call_id (run_entries r')) = set (map be_call_id (run_entries r))"
    unfolding run_entries_def same_frame_calls [OF fr] ..
  ultimately show ?thesis using acc m by (simp add: accounted_def tr)
qed

lemma accounted_flush:
  assumes acc: "accounted r" and i: "i < length (run_tool_batches r)"
    and f: "flush_batch (run_transcript r) (run_tool_batches r ! i) now = Inr (tr, b)"
  shows "accounted (r\<lparr>run_transcript := tr, run_tool_batches := (run_tool_batches r)[i := b]\<rparr>)"
proof -
  let ?bs = "run_tool_batches r"
  have "materialised (run_transcript r) (take i ?bs @ ?bs ! i # drop (Suc i) ?bs)"
    using acc i by (simp add: accounted_def id_take_nth_drop [symmetric])
  from flush_keeps_materialised [OF this, of now] obtain tr' b' where
    "flush_batch (run_transcript r) (?bs ! i) now = Inr (tr', b')"
    and "materialised tr' (take i ?bs @ b' # drop (Suc i) ?bs)" by blast
  with f i have m: "materialised tr (?bs[i := b])" by (simp add: upd_conv_take_nth_drop)
  from flush_batch_shape [OF f] obtain ms where fs: "flushed_or_same (?bs ! i) b" and tr: "tr = run_transcript r @ ms"
    and ms: "\<forall>m \<in> set ms. is_tool_result m" by blast
  have fr: "list_all2 same_frame ?bs (?bs[i := b])"
    using flushed_frame [OF fs] by (simp add: list_all2_single_update)
  show ?thesis by (rule accounted_results [OF acc _ ms]) (use tr fr m in simp_all)
qed

lemma answers_follow_cong:
  "map calls_of ms = map calls_of ns \<Longrightarrow> map answered_call ms = map answered_call ns \<Longrightarrow>
     answers_follow calls ms = answers_follow calls ns"
proof (induction ms arbitrary: ns calls)
  case Nil
  then show ?case by simp
next
  case (Cons m ms)
  then obtain n ns' where ns: "ns = n # ns'" by (cases ns) auto
  with Cons.prems have "calls_of m = calls_of n" "answered_call m = answered_call n"
    and "answers_follow c ms = answers_follow c ns'" for c
    using Cons.IH [of ns'] by simp_all
  then show ?case by (simp add: ns)
qed

lemma accounted_flush_at:
  assumes "accounted r" and "i < length (run_tool_batches r)" and "flush_at i now r = Inr r'"
  shows "accounted r'"
proof -
  from assms(3) obtain tr b where "flush_batch (run_transcript r) (run_tool_batches r ! i) now = Inr (tr, b)"
    and "r' = r\<lparr>run_transcript := tr, run_tool_batches := (run_tool_batches r)[i := b]\<rparr>"
    by (cases "flush_batch (run_transcript r) (run_tool_batches r ! i) now") (auto simp: flush_at_def)
  with accounted_flush [OF assms(1,2)] show ?thesis by simp
qed

lemma accounted_flush_others:
  assumes acc: "accounted r" and f: "flush_others i now 0 (run_transcript r) (run_tool_batches r) = Inr (tr, bs, ks)"
    and r': "run_transcript r' = tr" "run_tool_batches r' = bs"
  shows "accounted r'"
proof -
  have "materialised (run_transcript r) ([] @ run_tool_batches r)" using acc by (simp add: accounted_def)
  from flush_others_keeps_materialised [OF this, of i now 0] f have m: "materialised tr bs" by auto
  from flush_others_shape [OF f] obtain ms where fs: "list_all2 flushed_or_same (run_tool_batches r) bs"
    and tr: "tr = run_transcript r @ ms" and ms: "\<forall>m \<in> set ms. is_tool_result m" by blast
  have "list_all2 same_frame (run_tool_batches r) bs" using fs flushed_frame by (rule list_all2_mono)
  with accounted_results [OF acc _ ms] tr r' m show ?thesis by simp
qed

section \<open>The outcomes of a Tool batch\<close>

lemma find_index_Some: "find_index P xs = Some k \<Longrightarrow> k < length xs \<and> P (xs ! k)"
  by (induction xs arbitrary: k) (auto split: if_splits)

lemma entry_update_trans: "entry_update tr a b \<Longrightarrow> entry_update tr b c \<Longrightarrow> entry_update tr a c"
  by (simp add: entry_update_def)

lemma batch_update_trans: "batch_update tr a b \<Longrightarrow> batch_update tr b c \<Longrightarrow> batch_update tr a c"
  unfolding batch_update_def using list_all2_trans [OF entry_update_trans] by auto

lemma outcome_entry_update:
  assumes "case oc of OutcomeResult x \<Rightarrow> tr_call_id x = be_call_id e | OutcomeSuspension s \<Rightarrow> be_state e \<noteq> EsTerminal"
  shows "entry_update tr e (outcome_entry oc e)"
  using assms by (auto simp: entry_update_def entry_materialised_def outcome_entry_def suspension_state_open
      split: execution_outcome.splits)

lemma outcome_entry_call [simp]: "be_call_id (outcome_entry oc e) = be_call_id e"
  by (simp add: outcome_entry_def split: execution_outcome.split)

lemma settle_outcomes_update:
  "settle_outcomes a ocs es = Inr es' \<Longrightarrow> distinct (map fst ocs) \<Longrightarrow> suspends_open ocs es
     \<Longrightarrow> list_all2 (entry_update tr) es es'"
proof (induction ocs arbitrary: es)
  case Nil
  then show ?case by (simp add: list.rel_refl)
next
  case (Cons p ocs)
  obtain cid oc where p: "p = (cid, oc)" by force
  from Cons.prems(1) p obtain k where k: "find_index (\<lambda>e. be_call_id e = cid) es = Some k"
    by (auto split: option.splits)
  note at = find_index_Some [OF k]
  let ?es = "es[k := outcome_entry oc (es ! k)]"
  from Cons.prems(1) p k have rest: "settle_outcomes a ocs ?es = Inr es'"
    and result: "\<And>x. oc = OutcomeResult x \<Longrightarrow> tr_call_id x = cid"
    by (auto simp: result_correlates_def split: execution_outcome.splits option.splits if_splits dest: find_Some)
  from Cons.prems(3) p at have "\<not> is_result oc \<Longrightarrow> be_state (es ! k) \<noteq> EsTerminal"
    by (auto simp: suspends_open_def list_all_iff)
  with result at have "entry_update tr (es ! k) (outcome_entry oc (es ! k))"
    by (intro outcome_entry_update) (auto simp: is_result_def split: execution_outcome.split)
  then have now: "list_all2 (entry_update tr) es ?es" by (simp add: list_all2_single_update)
  have "suspends_open ocs ?es"
  proof -
    have "e \<in> set es" if "e \<in> set ?es" "be_call_id e \<noteq> cid" for e
      using that at by (auto simp: in_set_conv_nth nth_list_update split: if_splits)
    moreover have "c \<noteq> cid" if "(c, oc') \<in> set ocs" for c oc'
      using Cons.prems(2) p that by (force simp: image_iff)
    ultimately show ?thesis
      using Cons.prems(3) p unfolding suspends_open_def list_all_iff by fastforce
  qed
  with Cons.IH [OF rest] Cons.prems(2) have "list_all2 (entry_update tr) ?es es'" by simp
  from list_all2_trans [OF entry_update_trans now this] show ?case .
qed

lemma close_joined_update: "entry_update tr e (close_joined parent x e)"
  by (auto simp: entry_update_def entry_materialised_def close_joined_def needs_input_def)

lemma close_join_update: "list_all2 (batch_update tr) bs (close_join j bs)"
proof -
  have "batch_update tr b (b\<lparr>tb_entries := map (close_joined p x) (tb_entries b)\<rparr>)" for b p x
    by (simp add: batch_update_def list_all2_conv_all_nth close_joined_update)
  then show ?thesis
    by (auto simp: close_join_def list_all2_conv_all_nth list.rel_refl split: prod.split execution_outcome.split)
qed

lemma close_joins_update: "list_all2 (batch_update tr) bs (fold close_join joins bs)"
proof (induction joins arbitrary: bs)
  case Nil
  then show ?case by (simp add: list.rel_refl)
next
  case (Cons j joins)
  from list_all2_trans [OF batch_update_trans close_join_update Cons.IH] show ?case by simp
qed

lemma accounted_settle:
  assumes acc: "accounted r" and i: "i < length (run_tool_batches r)" and d: "distinct (map fst ocs)"
    and open_es: "suspends_open ocs (tb_entries (run_tool_batches r ! i))"
    and s: "settle_tool_batch a i ocs joins fatal now r = Inr r'"
  shows "accounted r'"
proof -
  let ?b = "run_tool_batches r ! i"
  from s obtain es where es: "settle_outcomes a ocs (tb_entries ?b) = Inr es"
    by (auto simp: settle_tool_batch_def split: sum.splits)
  define bs where "bs = fold close_join joins ((run_tool_batches r)[i := ?b\<lparr>tb_entries := es\<rparr>])"
  from s es obtain tr b tr' bs' ks where f: "flush_batch (run_transcript r) (bs ! i) now = Inr (tr, b)"
    "flush_others i now 0 tr (bs[i := b]) = Inr (tr', bs', ks)"
    and r': "run_transcript r' = tr'" "run_tool_batches r' = bs'"
    by (auto simp: settle_tool_batch_def Let_def bs_def split: sum.splits prod.splits)
  have "batch_update (run_transcript r) ?b (?b\<lparr>tb_entries := es\<rparr>)"
    using settle_outcomes_update [OF es d open_es] by (simp add: batch_update_def)
  then have "list_all2 (batch_update (run_transcript r)) (run_tool_batches r) ((run_tool_batches r)[i := ?b\<lparr>tb_entries := es\<rparr>])"
    by (simp add: list_all2_single_update)
  from list_all2_trans [OF batch_update_trans this close_joins_update]
  have upd: "list_all2 (batch_update (run_transcript r)) (run_tool_batches r) bs" by (simp only: bs_def)
  let ?r = "r\<lparr>run_tool_batches := bs\<rparr>"
  have acc1: "accounted ?r" by (rule accounted_update [OF acc upd]) simp_all
  have "i < length (run_tool_batches ?r)" using i list_all2_lengthD [OF upd] by simp
  from accounted_flush [OF acc1 this, of now tr b] f(1)
  have acc2: "accounted (?r\<lparr>run_transcript := tr, run_tool_batches := bs[i := b]\<rparr>)" by simp
  show ?thesis by (rule accounted_flush_others [OF acc2 _ r']) (use f(2) in simp)
qed

lemma grace_entries_update:
  "grace_entries a es = Inr es' \<Longrightarrow> list_all2 (entry_update tr) es es'"
proof (induction es arbitrary: es')
  case (Cons e es)
  obtain c where c: "call_named a (be_call_id e) = Some c" using Cons.prems by (auto split: option.splits)
  with Cons.prems obtain es1 where "grace_entries a es = Inr es1"
    and es': "es' = e\<lparr>be_state := EsTerminal, be_buffered_terminal_result :=
      Some (kernel_tool_error c ''grace_tools_disabled'' ''Tools are disabled during wrap-up.'')\<rparr> # es1"
    by (cases "grace_entries a es") auto
  moreover from c have "tc_call_id c = be_call_id e" by (auto simp: call_named_def dest: find_Some)
  ultimately show ?case
    using Cons.IH by (auto simp: entry_update_def entry_materialised_def kernel_tool_error_def)
qed simp

lemma accounted_grace:
  assumes acc: "accounted r" and i: "i < length (run_tool_batches r)" and g: "grace_rejected a i now r = Inr r'"
  shows "accounted r'"
proof -
  let ?b = "run_tool_batches r ! i"
  from g obtain es tr b where es: "grace_entries a (tb_entries ?b) = Inr es"
    and f: "flush_batch (run_transcript r) (?b\<lparr>tb_entries := es\<rparr>) now = Inr (tr, b)"
    and r': "r' = r\<lparr>run_transcript := tr, run_tool_batches := (run_tool_batches r)[i := b]\<rparr>"
    by (auto simp: grace_rejected_def split: sum.splits)
  let ?r = "r\<lparr>run_tool_batches := (run_tool_batches r)[i := ?b\<lparr>tb_entries := es\<rparr>]\<rparr>"
  have "batch_update (run_transcript r) ?b (?b\<lparr>tb_entries := es\<rparr>)"
    using grace_entries_update [OF es] by (simp add: batch_update_def)
  then have "accounted ?r"
    by (intro accounted_update [OF acc]) (simp_all add: list_all2_single_update)
  from accounted_flush [OF this, of i now tr b] i f r' show ?thesis by simp
qed

lemma accounted_surface:
  assumes "accounted r"
  shows "accounted (declare_surface digest parked i j r)"
proof (cases "i < length (run_tool_batches r)")
  case True
  let ?b = "run_tool_batches r ! i" and ?e = "surface_entry digest r parked (entry_at r i j)"
  have "entry_update (run_transcript r) (entry_at r i j) ?e"
    by (simp add: entry_update_def entry_materialised_def surface_entry_def cong: option.case_cong)
  then have "batch_update (run_transcript r) ?b (?b\<lparr>tb_entries := (tb_entries ?b)[j := ?e]\<rparr>)"
    by (simp add: batch_update_def list_all2_single_update entry_at_def)
  then have "list_all2 (batch_update (run_transcript r)) (run_tool_batches r)
      ((run_tool_batches r)[i := ?b\<lparr>tb_entries := (tb_entries ?b)[j := ?e]\<rparr>])"
    by (simp add: list_all2_single_update)
  from accounted_update [OF assms this] show ?thesis by (simp add: declare_surface_def put_entry_def Let_def)
next
  case False
  then have "declare_surface digest parked i j r = r" by (simp add: declare_surface_def put_entry_def Let_def list_update_beyond)
  with assms show ?thesis by simp
qed

text \<open>The presentation identity of a message is not part of its accounting.\<close>

lemma backfill_message_same [simp]:
  "calls_of (backfill_message reps m) = calls_of m" "answered_call (backfill_message reps m) = answered_call m"
  "result_call (backfill_message reps m) = result_call m" "interaction_named (backfill_message reps m) = interaction_named m"
  by (cases m; simp add: backfill_message_def interaction_named_def split: option.split)+

lemma backfill_entry_update: "entry_update tr e (backfill_entry digest r e)"
  by (simp add: entry_update_def entry_materialised_def backfill_entry_def cong: option.case_cong)

lemma accounted_transcript:
  assumes acc: "accounted r" and b: "run_tool_batches r' = run_tool_batches r"
    and m: "map calls_of (run_transcript r') = map calls_of (run_transcript r)"
      "map answered_call (run_transcript r') = map answered_call (run_transcript r)"
      "map result_call (run_transcript r') = map result_call (run_transcript r)"
    and named: "list_all interaction_named (run_transcript r')"
  shows "accounted r'"
proof -
  have k: "announced (run_transcript r') = announced (run_transcript r)" "resulted (run_transcript r') = resulted (run_transcript r)"
    by (simp_all only: m)
  have "entry_materialised (run_transcript r') = entry_materialised (run_transcript r)"
    by (intro ext) (simp only: entry_materialised_def k)
  then have "batch_materialised (run_transcript r') = batch_materialised (run_transcript r)"
    by (intro ext) (simp only: batch_materialised_def)
  moreover have "well_paired (run_transcript r') = well_paired (run_transcript r)"
    using answers_follow_cong [OF m(1,2), of "[]"] by (simp only: well_paired_follow k)
  ultimately show ?thesis using acc named by (simp add: accounted_def materialised_def run_entries_def b k)
qed

lemma accounted_backfill:
  assumes acc: "accounted r"
  shows "accounted (backfill_presentation_ids digest r)"
proof -
  let ?b = "backfill_presentation_ids digest r"
  have "list_all2 (batch_update (run_transcript r)) (run_tool_batches r) (run_tool_batches ?b)"
    by (simp add: backfill_presentation_ids_def list_all2_conv_all_nth batch_update_def backfill_entry_update)
  then have "accounted (?b\<lparr>run_transcript := run_transcript r\<rparr>)"
    by (rule accounted_update [OF acc]) simp_all
  then show ?thesis
    by (rule accounted_transcript) (use acc in \<open>simp_all add: backfill_presentation_ids_def accounted_def list_all_iff\<close>)
qed

text \<open>A Run that accounts for its calls has nothing to rebuild: the validator would refuse the batch.\<close>

lemma nothing_to_rebuild:
  assumes acc: "accounted r" and rc: "reconstructible a r"
  shows "\<not> valid_run (with_batch a r)"
proof
  assume v: "valid_run (with_batch a r)"
  have "distinct (map be_call_id (run_entries (with_batch a r)))"
    using v by (auto simp: run_check_defs first_error_None)
  then have "distinct (map be_call_id (run_entries r) @ map tc_call_id (am_tool_calls a))"
    by (simp add: run_entries_def with_batch_def new_batch_calls del: distinct_append)
  then have d: "set (map be_call_id (run_entries r)) \<inter> set (map tc_call_id (am_tool_calls a)) = {}"
    by (simp only: distinct_append)
  have presented: "set (presented_call m) \<subseteq> set (answered_call m)" for m by (cases m) auto
  have "set (concat (map answered_call (run_transcript r))) \<subseteq> set (announced (run_transcript r))"
    using acc answers_announced [of "[]" "run_transcript r"] by (simp add: accounted_def materialised_def well_paired_follow)
  with presented have "unresolved_call_ids (run_transcript r) \<union> set (concat (map presented_call (run_transcript r)))
      \<subseteq> set (map be_call_id (run_entries r))"
    using acc by (fastforce simp: unresolved_call_ids_def accounted_def)
  with rc d show False by (cases "am_tool_calls a") (auto simp: reconstructible_def)
qed

lemma accounted_observe:
  assumes acc: "accounted r" and o: "observe r obs now = Inr r'"
  shows "accounted r'"
proof (cases "\<exists>i j e. observation_guard r obs = Inr (ObservationApplies i j e)")
  case False
  with o have "r' = r" by (auto simp: observe_def split: sum.splits observation_step.splits)
  with acc show ?thesis by simp
next
  case True
  then obtain i j e where g: "observation_guard r obs = Inr (ObservationApplies i j e)" by blast
  with o obtain ks where a: "apply_observation r obs now i j e = Inr (r', ks)" by (auto simp: observe_def)
  have "materialised (run_transcript r) (run_tool_batches r)" using acc by (simp add: accounted_def)
  from apply_keeps_materialised [OF g this a]
  have m: "materialised (run_transcript r') (run_tool_batches r')" .
  from apply_observation_transcript [OF g a] obtain ms where
    "run_transcript r' = run_transcript r @ ms" "\<forall>m \<in> set ms. is_tool_result m"
    by blast
  from accounted_results [OF acc this apply_observation_batches(2) [OF g a] m] show ?thesis .
qed

section \<open>Presentation\<close>

lemma replace_first_map:
  "(\<And>x. x \<in> set xs \<Longrightarrow> P x \<Longrightarrow> f x = f y) \<Longrightarrow> map f (replace_first P y xs) = map f xs"
  by (induction xs) auto

lemma replace_first_set: "set (replace_first P y xs) \<subseteq> insert y (set xs)"
  by (induction xs) auto

text \<open>An interaction identifier names its call: the fingerprint holds no colon.\<close>

lemma after_last_colon:
  assumes "xs @ CHR '':'' # ys = us @ CHR '':'' # vs" and "CHR '':'' \<notin> set ys" and "CHR '':'' \<notin> set vs"
  shows "xs = us \<and> ys = vs"
proof -
  have "takeWhile (\<lambda>c. c \<noteq> CHR '':'') (rev (zs @ CHR '':'' # ws)) = rev ws"
    if "CHR '':'' \<notin> set ws" for zs ws :: string
  proof -
    have "\<forall>x \<in> set (rev ws). x \<noteq> CHR '':''" using that by auto
    then show ?thesis by (simp only: rev_append rev.simps append_assoc append.simps takeWhile_append2
          takeWhile.simps if_False simp_thms append_Nil2)
  qed
  from this [OF assms(2), of xs] this [OF assms(3), of us] assms(1) have "ys = vs" by simp
  with assms(1) show ?thesis by simp
qed

lemma interaction_id_call:
  assumes "interaction_named (ToolInteractionMsg s)" and "interaction_named (ToolInteractionMsg t)"
    and "tim_message_id s = tim_message_id t"
  shows "tim_call_id s = tim_call_id t \<and> tim_interaction_fingerprint s = tim_interaction_fingerprint t"
  using assms after_last_colon [of "tim_call_id s" "tim_interaction_fingerprint s" "tim_call_id t"
      "tim_interaction_fingerprint t"]
  by (auto simp: interaction_named_def)

lemma interaction_cases:
  assumes "is_interaction mid m"
  obtains t where "m = ToolInteractionMsg t" and "tim_message_id t = mid"
  using assms by (cases m) (auto simp: is_interaction_def)

lemma put_interaction_cases:
  obtains (append) "put_interaction t tr = tr @ [ToolInteractionMsg t]"
      and "\<forall>m \<in> set tr. \<not> is_interaction (tim_message_id t) m"
  | (replace) old where "ToolInteractionMsg old \<in> set tr" and "tim_message_id old = tim_message_id t"
      and "List.find (is_interaction (tim_message_id t)) tr = Some (ToolInteractionMsg old)"
      and "put_interaction t tr = replace_first (is_interaction (tim_message_id t))
        (ToolInteractionMsg (t\<lparr>tim_created_at := tim_created_at old\<rparr>)) tr"
proof (cases "List.find (is_interaction (tim_message_id t)) tr")
  case None
  then have "\<forall>m \<in> set tr. \<not> is_interaction (tim_message_id t) m" by (simp only: find_None)
  with None show ?thesis by (intro append) (simp_all only: put_interaction_def option.case)
next
  case (Some m)
  from find_Some [OF this] obtain old where "m = ToolInteractionMsg old" "m \<in> set tr"
    "tim_message_id old = tim_message_id t" by (auto elim: interaction_cases)
  with Some show ?thesis by (intro replace) (auto simp: put_interaction_def)
qed

lemma put_interaction_keeps:
  assumes named: "list_all interaction_named tr" and t: "interaction_named (ToolInteractionMsg t)"
    and c: "tim_call_id t \<in> set (announced tr)" and wp: "well_paired tr"
  shows "announced (put_interaction t tr) = announced tr \<and> resulted (put_interaction t tr) = resulted tr
     \<and> well_paired (put_interaction t tr) \<and> list_all interaction_named (put_interaction t tr)"
proof (cases rule: put_interaction_cases [of t tr])
  case append
  have "well_paired (tr @ [ToolInteractionMsg t])"
    using wp c by (intro well_paired_append_answers) auto
  with append named t show ?thesis by simp
next
  case (replace old)
  let ?y = "ToolInteractionMsg (t\<lparr>tim_created_at := tim_created_at old\<rparr>)"
  let ?P = "is_interaction (tim_message_id t)"
  have call: "answered_call x = answered_call ?y \<and> calls_of x = calls_of ?y \<and> result_call x = result_call ?y"
    if x: "x \<in> set tr" "?P x" for x
  proof -
    obtain s where s: "x = ToolInteractionMsg s" "tim_message_id s = tim_message_id t"
      using x(2) by (rule interaction_cases)
    with x(1) named have "interaction_named (ToolInteractionMsg s)" by (auto simp: list_all_iff)
    from interaction_id_call [OF this t s(2)] s(1) show ?thesis by simp
  qed
  then have m: "map answered_call (replace_first ?P ?y tr) = map answered_call tr"
    "map calls_of (replace_first ?P ?y tr) = map calls_of tr"
    "map result_call (replace_first ?P ?y tr) = map result_call tr"
    by (auto intro!: replace_first_map)
  have "interaction_named ?y" using t by (simp add: interaction_named_def)
  then have "list_all interaction_named (replace_first ?P ?y tr)"
    using named replace_first_set [of ?P ?y tr] by (auto simp: list_all_iff)
  moreover have "well_paired (replace_first ?P ?y tr)"
    using wp m answers_follow_cong [OF m(2) m(1), of "[]"] by (simp add: well_paired_follow)
  ultimately show ?thesis using m replace(4) by simp
qed

lemma put_interactions_keep:
  assumes "list_all interaction_named tr" and "well_paired tr"
    and "\<And>t. t \<in> set ts \<Longrightarrow> interaction_named (ToolInteractionMsg t) \<and> tim_call_id t \<in> set (announced tr)"
  shows "announced (foldl (\<lambda>tr t. put_interaction t tr) tr ts) = announced tr
     \<and> resulted (foldl (\<lambda>tr t. put_interaction t tr) tr ts) = resulted tr
     \<and> well_paired (foldl (\<lambda>tr t. put_interaction t tr) tr ts)
     \<and> list_all interaction_named (foldl (\<lambda>tr t. put_interaction t tr) tr ts)"
  using assms
proof (induction ts arbitrary: tr)
  case Nil
  then show ?case by simp
next
  case (Cons t ts)
  from put_interaction_keeps [of tr t] Cons.prems
  have k: "announced (put_interaction t tr) = announced tr" "resulted (put_interaction t tr) = resulted tr"
    "well_paired (put_interaction t tr)" "list_all interaction_named (put_interaction t tr)" by simp_all
  from Cons.IH [OF k(4,3)] Cons.prems(3) k show ?case by simp
qed

definition interaction_messages :: "(string \<Rightarrow> string) \<Rightarrow> run_state \<Rightarrow> datetime \<Rightarrow> tool_interaction_message list" where
  "interaction_messages digest r now = map (interaction_message digest r now) (filter presentable (run_entries r))"

lemma presented_transcript:
  "run_transcript (presented_run digest r now)
     = foldl (\<lambda>tr t. put_interaction t tr) (run_transcript r) (interaction_messages digest r now)"
  by (simp add: presented_run_def interaction_messages_def foldl_map)

lemma present_entry_update: "entry_update tr e (present_entry digest r e)"
  by (auto simp: entry_update_def present_entry_def entry_materialised_def cong: option.case_cong)

lemma accounted_present:
  assumes acc: "accounted r"
    and fp: "list_all (\<lambda>e. CHR '':'' \<notin> set (or_empty (be_interaction_fingerprint e))) (run_entries r)"
  shows "accounted (presented_run digest r now)"
proof -
  let ?tr = "run_transcript r" and ?p = "presented_run digest r now"
  have m: "materialised ?tr (run_tool_batches r)" "list_all interaction_named ?tr"
    and ann: "set (announced ?tr) = set (map be_call_id (run_entries r))"
    using acc by (simp_all add: accounted_def)
  have "interaction_named (ToolInteractionMsg t) \<and> tim_call_id t \<in> set (announced ?tr)"
    if "t \<in> set (interaction_messages digest r now)" for t
    using that fp unfolding ann
    by (auto simp: interaction_messages_def interaction_message_def interaction_named_def
        interaction_message_id_def list_all_iff)
  with m have k: "announced (run_transcript ?p) = announced ?tr" "resulted (run_transcript ?p) = resulted ?tr"
    "well_paired (run_transcript ?p)" "list_all interaction_named (run_transcript ?p)"
    using put_interactions_keep [of ?tr "interaction_messages digest r now"]
    unfolding presented_transcript by (simp_all add: materialised_def)
  have "entry_materialised (run_transcript ?p) = entry_materialised ?tr"
    by (intro ext) (simp only: entry_materialised_def k)
  then have same: "batch_materialised (run_transcript ?p) = batch_materialised ?tr"
    by (intro ext) (simp only: batch_materialised_def)
  have upd: "list_all2 (batch_update ?tr) (run_tool_batches r) (run_tool_batches ?p)"
    by (simp add: presented_run_def list_all2_conv_all_nth batch_update_def present_entry_update)
  have "accounted (?p\<lparr>run_transcript := ?tr\<rparr>)"
    by (rule accounted_update [OF acc upd]) simp_all
  then show ?thesis
    using k same by (simp add: accounted_def materialised_def run_entries_def)
qed

lemma put_keeps_interaction:
  assumes "m \<in> set tr" and "is_interaction mid m"
  shows "\<exists>m' \<in> set (put_interaction t tr). is_interaction mid m'"
proof (cases rule: put_interaction_cases [of t tr])
  case append
  with assms show ?thesis by auto
next
  case (replace old)
  have r: "\<exists>m' \<in> set (replace_first P y tr). is_interaction mid m'"
    if "\<And>x. P x \<Longrightarrow> is_interaction mid x \<Longrightarrow> is_interaction mid y" for P and y :: agent_message
    using assms(1) that assms(2) by (induction tr) auto
  show ?thesis
    unfolding replace(4) by (rule r) (auto simp: is_interaction_def split: agent_message.splits)
qed

lemma put_has_interaction: "\<exists>m \<in> set (put_interaction t tr). is_interaction (tim_message_id t) m"
proof (cases rule: put_interaction_cases [of t tr])
  case append
  then show ?thesis by (simp add: is_interaction_def)
next
  case (replace old)
  from replace(1,2) have "is_interaction (tim_message_id t) (ToolInteractionMsg old)"
    by (simp add: is_interaction_def)
  with put_keeps_interaction [OF replace(1)] show ?thesis by blast
qed

lemma puts_have_interactions:
  "(\<exists>m \<in> set tr. is_interaction mid m) \<or> mid \<in> tim_message_id ` set ts \<Longrightarrow>
     \<exists>m \<in> set (foldl (\<lambda>tr t. put_interaction t tr) tr ts). is_interaction mid m"
proof (induction ts arbitrary: tr)
  case Nil
  then show ?case by simp
next
  case (Cons t ts)
  show ?case
  proof (cases "mid = tim_message_id t")
    case True
    with put_has_interaction [of t tr] Cons.IH [of "put_interaction t tr"] show ?thesis by auto
  next
    case False
    with Cons.prems Cons.IH [of "put_interaction t tr"] put_keeps_interaction [of _ tr mid t]
    show ?thesis by auto
  qed
qed

lemma presented_not_presentable: "\<not> presentable (present_entry digest r e)"
  by (simp add: present_entry_def presentable_def)

lemma not_presentable_kept: "\<not> presentable e \<Longrightarrow> present_entry digest r e = e"
  by (simp add: present_entry_def)

text \<open>
  Presenting the parked questions is done once: every question that can be presented gets its
  interaction message, no entry is left that could be presented, and doing it again, at any time
  later, changes neither transcript nor batches.
\<close>

theorem questions_presented_once:
  "(\<forall>e \<in> set (run_entries r). presentable e \<longrightarrow>
      (\<exists>m \<in> set (run_transcript (presented_run digest r now)). is_interaction (interaction_message_id e) m))
   \<and> list_all (\<lambda>e. \<not> presentable e) (run_entries (presented_run digest r now))
   \<and> presented_run digest (presented_run digest r now) later = presented_run digest r now"
proof (intro conjI ballI impI)
  fix e assume "e \<in> set (run_entries r)" "presentable e"
  then have "interaction_message_id e \<in> tim_message_id ` set (interaction_messages digest r now)"
    by (force simp: interaction_messages_def interaction_message_def)
  then show "\<exists>m \<in> set (run_transcript (presented_run digest r now)). is_interaction (interaction_message_id e) m"
    unfolding presented_transcript by (intro puts_have_interactions) blast
next
  let ?p = "presented_run digest r now"
  show done': "list_all (\<lambda>e. \<not> presentable e) (run_entries ?p)"
    by (auto simp: run_entries_def presented_run_def list_all_iff presented_not_presentable)
  then have "filter presentable (run_entries ?p) = []" by (auto simp: filter_empty_conv list_all_iff)
  moreover have "map (\<lambda>b. b\<lparr>tb_entries := map (present_entry digest ?p) (tb_entries b)\<rparr>) (run_tool_batches ?p)
      = run_tool_batches ?p"
  proof (rule map_idI)
    fix b assume "b \<in> set (run_tool_batches ?p)"
    then have "map (present_entry digest ?p) (tb_entries b) = tb_entries b"
      using done' by (intro map_idI not_presentable_kept) (auto simp: run_entries_def list_all_iff)
    then show "b\<lparr>tb_entries := map (present_entry digest ?p) (tb_entries b)\<rparr> = b" by simp
  qed
  ultimately show "presented_run digest ?p later = ?p"
    by (simp add: presented_run_def [of digest ?p])
qed

section \<open>Reachable Runs\<close>

lemma accounted_frame:
  assumes "accounted r" and "run_transcript r' = run_transcript r" and "run_tool_batches r' = run_tool_batches r"
  shows "accounted r'"
  by (rule accounted_update [OF assms(1) _ assms(2,3)]) (simp add: list.rel_refl)

lemmas accounted_writes = accounted_message accounted_assistant accounted_entry accounted_settle accounted_grace
  accounted_flush_at accounted_surface accounted_present accounted_backfill accounted_observe accounted_frame

lemma step_accounted: "kernel_step r r' \<Longrightarrow> accounted r \<Longrightarrow> accounted r'"
proof (induction rule: kernel_step.induct)
  case (step_reconstruct a r)
  with nothing_to_rebuild show ?case by blast
qed (blast intro: accounted_writes)+

definition fresh_run :: "run_state \<Rightarrow> bool" where
  "fresh_run r \<longleftrightarrow> run_tool_batches r = []
     \<and> list_all (\<lambda>m. calls_of m = [] \<and> answered_call m = []) (run_transcript r)"

lemma fresh_accounted:
  assumes "fresh_run r"
  shows "accounted r"
proof -
  have ms: "\<forall>m \<in> set (run_transcript r). calls_of m = [] \<and> answered_call m = []"
    using assms by (simp add: fresh_run_def list_all_iff)
  then have ann: "announced (run_transcript r) = []" and res: "resulted (run_transcript r) = []"
    using resulted_answers [of "run_transcript r"] by auto
  have "answers_follow [] (run_transcript r)" using ms by (intro answers_follow_known) auto
  then have "well_paired (run_transcript r)" unfolding well_paired_follow ann res by simp
  moreover have "interaction_named m" if "m \<in> set (run_transcript r)" for m
    using ms that by (cases m) (auto simp: interaction_named_def)
  ultimately show ?thesis
    using assms ann by (simp add: accounted_def materialised_def fresh_run_def run_entries_def list_all_iff)
qed

lemma reachable_accounted: "kernel_step\<^sup>*\<^sup>* r r' \<Longrightarrow> fresh_run r \<Longrightarrow> accounted r'"
  by (induction rule: rtranclp_induct) (auto intro: fresh_accounted step_accounted)

text \<open>
  C8: Whatever the kernel writes, the transcript can be converted. Take a Run that starts with plain messages and
  any number of checkpoints in any order: notices, assistant messages with their batches, entry updates, the
  outcomes of an executed Tool batch with their joins and flushes, rejections during wrap-up, the
  flushes of an ending, the fence of a surfaced question, presentations, the backfill of presentation ids, rebuilt
  batches, observations, and checkpoints that touch neither transcript nor batches. It is assumed that the store's validator
  accepts an assistant message or a rebuilt batch; that \<open>_update_entry\<close> never reopens a
  terminal entry and closes one with a result for its own call; that the outcomes of a batch are for different
  calls, a suspension being for an open entry; and that interaction fingerprints, which are digests, contain no colon.
  Then the transcript can be converted for the provider without an error, the calls it announces are
  exactly the entries of the batches, and a call has a result message exactly when its entry is marked as flushed.
\<close>

theorem reachable_transcript_converts:
  assumes "fresh_run r" and "kernel_step\<^sup>*\<^sup>* r r'"
  shows "(\<exists>out. agent_messages_to_model dumps notices prep (run_transcript r') = Inr out)
     \<and> set (announced (run_transcript r')) = set (map be_call_id (run_entries r'))
     \<and> (\<forall>e \<in> set (run_entries r'). be_call_id e \<in> set (resulted (run_transcript r')) \<longleftrightarrow> be_result_flushed e)"
proof -
  have acc: "accounted r'" using reachable_accounted assms by blast
  then have "\<forall>e \<in> set (run_entries r'). entry_materialised (run_transcript r') e"
    by (auto simp: accounted_def materialised_def batch_materialised_def list_all_iff run_entries_def)
  moreover from acc have "well_paired (run_transcript r')"
    and "set (announced (run_transcript r')) = set (map be_call_id (run_entries r'))"
    by (simp_all add: accounted_def materialised_def)
  ultimately show ?thesis unfolding conversion_paired by (simp only: entry_materialised_def) blast
qed

definition sample_fresh_run :: run_state where
  "sample_fresh_run = sample_parked_run\<lparr>run_transcript := [], run_tool_batches := []\<rparr>"

definition sample_asked_run :: run_state where
  "sample_asked_run = with_assistant (sample_asking ''m1'' ''c1'' ''ask'') sample_fresh_run"

lemmas asked_defs = sample_asked_run_def with_assistant_def sample_fresh_run_def new_tool_batch_def parked_defs

lemma sample_asked_valid: "valid_run sample_asked_run"
proof -
  have "run_field_error sample_asked_run = None"
    using sample_run_valid
    by (simp add: asked_defs valid_run_def run_error_def run_field_error_def first_error_None message_error_def
        batch_error_split batch_ids_error_def entry_error_def invocation_error_def)
  moreover have "aggregate_error sample_asked_run = None"
    by (subst aggregate_error_open)
      (simp_all add: asked_defs terminal_run_statuses_def run_entries_def public_call_ids_def truthy_str_def
        List.map_filter_def)
  ultimately show ?thesis by (simp add: valid_run_def run_error_def first_error_None)
qed

theorem reachable_transcript_converts_witness:
  "\<exists>r'. kernel_step\<^sup>*\<^sup>* sample_fresh_run r' \<and> run_entries r' \<noteq> []
     \<and> (\<exists>out. agent_messages_to_model (\<lambda>_. []) False True (run_transcript r') = Inr out)"
proof -
  have s: "kernel_step\<^sup>*\<^sup>* sample_fresh_run sample_asked_run"
    using step_assistant [OF sample_asked_valid [unfolded sample_asked_run_def]]
    unfolding sample_asked_run_def by blast
  have "fresh_run sample_fresh_run" by (simp add: fresh_run_def sample_fresh_run_def)
  from reachable_transcript_converts [OF this s] s
  have "\<exists>out. agent_messages_to_model (\<lambda>_. []) False True (run_transcript sample_asked_run) = Inr out" by blast
  moreover have "run_entries sample_asked_run \<noteq> []"
    by (simp add: run_entries_def asked_defs)
  ultimately show ?thesis using s by blast
qed

definition sample_question_run :: run_state where
  "sample_question_run = sample_parked_run\<lparr>run_tool_batches :=
     [sample_batch\<lparr>tb_entries := [sample_parked_entry\<lparr>be_presented := False\<rparr>], tb_results_flushed := False\<rparr>]\<rparr>"

theorem questions_presented_once_witness:
  "presentable (sample_parked_entry\<lparr>be_presented := False\<rparr>)
   \<and> (\<exists>m \<in> set (run_transcript (presented_run (\<lambda>s. s) sample_question_run 9)).
        is_interaction (interaction_message_id (sample_parked_entry\<lparr>be_presented := False\<rparr>)) m)"
proof -
  have p: "presentable (sample_parked_entry\<lparr>be_presented := False\<rparr>)"
    by (simp add: presentable_def needs_input_def parked_defs)
  have "sample_parked_entry\<lparr>be_presented := False\<rparr> \<in> set (run_entries sample_question_run)"
    by (simp add: run_entries_def sample_question_run_def)
  with p questions_presented_once [of sample_question_run "\<lambda>s. s" 9 0] show ?thesis by blast
qed

end
