(* ===== verification/Kernel_Atomicity.thy ===== *)
theory Kernel_Atomicity
  imports Kernel_Steps Outbox_Properties Observation_Properties
begin

text \<open>
  The kernel's writes as atomic operations. A checkpoint that succeeds either installs its update on
  the Run as it is stored at that moment, or answers with a stored Run that has the command
  already. \<open>_update_entry\<close>, which may fail, load and try again, therefore refines the replacement of
  one entry in the stored Run: nothing another actor wrote meanwhile is lost.
\<close>

section \<open>Store calls among others\<close>

lemma stored_before_succeeds:
  assumes "sound_store (kw_store w)"
  shows "succeeds (kw_store w) (stored_before env w)"
  unfolding stored_before_def
  by (rule succeeds_leads [OF assms]) (rule leads_execute_all, use assms in \<open>auto simp: sound_store_def\<close>)

lemma cas_now_succeeds: "sound_store s \<Longrightarrow> succeeds s (snd (cas_now s r e cmd))"
  by (rule succeeds_leads) (auto intro: leads_cas)

lemma await_load:
  "kw_store (snd (await_store env (\<lambda>s. (load s rid, s)) w)) = stored_before env w"
  "fst (await_store env (\<lambda>s. (load s rid, s)) w) = map_sum StoreFailed id (load (stored_before env w) rid)"
  by (simp_all add: await_store_def split: sum.split)

lemma await_cas:
  "kw_store (snd (await_store env (\<lambda>s. cas_now s r e cmd) w)) = snd (cas_now (stored_before env w) r e cmd)"
  "fst (await_store env (\<lambda>s. cas_now s r e cmd) w)
     = map_sum StoreFailed id (fst (cas_now (stored_before env w) r e cmd))"
  by (simp_all add: await_store_def split: sum.split prod.split)

lemma load_run_answer:
  assumes "sound_store (kw_store w)" and "load_run env rid w = (res, w')"
  shows "succeeds (kw_store w) (kw_store w')"
    and "res = Inr r \<Longrightarrow> load (kw_store w') rid = Inr (Some r) \<and> run_snapshot (kw_store w') r \<and> run_id r = rid"
proof -
  let ?s = "stored_before env w"
  have w': "kw_store w' = ?s \<and> (res = Inr r \<longrightarrow> load ?s rid = Inr (Some r))" for r
    using assms(2)
    by (auto simp: load_run_def andthen_def await_store_def raises_def returns_def split: sum.splits option.splits)
  then show "succeeds (kw_store w) (kw_store w')" using stored_before_succeeds [OF assms(1)] by simp
  assume "res = Inr r"
  with w' have "load (kw_store w') rid = Inr (Some r)" by simp
  with load_core [OF this] fresh_load_fenced [OF this]
  show "load (kw_store w') rid = Inr (Some r) \<and> run_snapshot (kw_store w') r \<and> run_id r = rid" by simp
qed

lemma cas_now_cases:
  assumes "cas_now s r e cmd = (Inr (oc, x), s')"
  shows "x = None \<or> (\<exists>cur. load s (run_id r) = Inr (Some cur))"
  using assms by (auto simp: cas_now_def cas_mutate_def with_load_def split: sum.splits option.splits)

lemma cas_now_replayed:
  assumes "cas_now s r e cmd = (Inr (Replayed, Some x), s')"
  shows "cmd \<in> set (run_processed_command_ids x) \<and> s' = s \<and> load s (run_id r) = Inr (Some x)"
proof -
  from cas_now_cases [OF assms] obtain cur where cur: "load s (run_id r) = Inr (Some cur)" by auto
  from cas_now_answer [OF assms this] have x: "s' = s" "x = cur" by auto
  moreover have "cmd \<in> set (run_processed_command_ids cur)"
    using assms cur x
    by (auto simp: cas_now_def cas_mutate_def cas_apply_def with_load_def replayed_if_def has_command_def Let_def
        overlay_claim_def split: if_splits sum.splits option.splits)
  ultimately show ?thesis using cur by simp
qed

section \<open>A checkpoint\<close>

text \<open>The update \<open>upd\<close> of the Run \<open>base\<close> is installed: it was the stored Run, and the answer is its image.\<close>

definition installs ::
  "(run_state \<Rightarrow> run_state) \<Rightarrow> string \<Rightarrow> run_state \<Rightarrow> run_store \<Rightarrow> run_store \<Rightarrow> run_state \<Rightarrow> bool" where
  "installs upd cmd base s s' x \<longleftrightarrow> (\<exists>cur now cand. load s (run_id base) = Inr (Some cur)
     \<and> run_core cur = run_core base \<and> cmd \<notin> set (run_processed_command_ids cur)
     \<and> normalize_run (with_command cmd (checkpoint_candidate upd base now)) = Inr cand
     \<and> wrote s cand s' \<and> run_core x = run_core cand)"

definition replayed :: "string \<Rightarrow> string \<Rightarrow> run_store \<Rightarrow> run_state \<Rightarrow> bool" where
  "replayed rid cmd s x \<longleftrightarrow> load s rid = Inr (Some x) \<and> cmd \<in> set (run_processed_command_ids x)"

lemma candidate_id: "(\<And>r. run_id (upd r) = run_id r) \<Longrightarrow> run_id (checkpoint_candidate upd r now) = run_id r"
  by (simp add: checkpoint_candidate_def Let_def)

lemma candidate_version [simp]: "run_state_version (checkpoint_candidate upd r now) = run_state_version r + 1"
  by (simp add: checkpoint_candidate_def Let_def)

lemma checkpoint_failed_raises: "\<exists>m. checkpoint_failed cmd oc w = (Inl (KernelRaised (KernelConflict m)), w)"
  by (simp add: checkpoint_failed_def conflict_def raises_def)

lemma refused_reply:
  assumes "oc \<noteq> Conflict" and "y = None \<or> oc = StoreError"
  shows "\<exists>e. checkpoint_reply env r cmd (oc, y) w = (Inl e, w)"
  using assms
  by (cases oc; cases y) (simp_all add: checkpoint_reply_def checkpoint_failed_def conflict_def raises_def)

lemma conflict_reply:
  assumes "load_run env (run_id r) w = (ld, w3)"
  shows "checkpoint_reply env r cmd (Conflict, y) w = (case ld of Inl e \<Rightarrow> (Inl e, w3)
     | Inr cur \<Rightarrow> if run_st cur = Canceling then (Inl (KernelRaised CancellationPending), w3)
         else if cmd \<in> set (run_processed_command_ids cur) then (Inr cur, w3)
         else checkpoint_failed cmd Conflict w3)"
  using assms by (simp add: checkpoint_reply_def andthen_def raises_def returns_def split: sum.split)

lemma checkpoint_answer:
  assumes s: "sound_store (kw_store w)" and snap: "run_snapshot (kw_store w) r"
    and id: "\<And>r. run_id (upd r) = run_id r" and c: "checkpoint env r upd cmd w = (res, w')"
  shows "succeeds (kw_store w) (kw_store w')"
    and "res = Inr x \<Longrightarrow> run_snapshot (kw_store w') x \<and> run_id x = run_id r
      \<and> ((\<exists>s1. succeeds (kw_store w) s1 \<and> installs upd cmd r s1 (kw_store w') x)
         \<or> replayed (run_id r) cmd (kw_store w') x)"
proof -
  let ?now = "kw_clock w (kw_tick w)"
  let ?w1 = "w\<lparr>kw_tick := Suc (kw_tick w)\<rparr>"
  let ?cand = "checkpoint_candidate upd r ?now"
  let ?s1 = "stored_before env ?w1"
  have s1: "succeeds (kw_store w) ?s1" using stored_before_succeeds [of ?w1 env] s by simp
  then have snap1: "run_snapshot ?s1 r" using snap by (simp add: succeeds_def)
  obtain ans s2 where cas: "cas_now ?s1 ?cand (run_state_version r) cmd = (ans, s2)" by fastforce
  have s2: "succeeds (kw_store w) s2"
    using succeeds_trans [OF s1 cas_now_succeeds [OF succeeds_sound [OF s1]]] cas by (metis snd_conv)
  define w2 where "w2 = snd (await_store env (\<lambda>s. cas_now s ?cand (run_state_version r) cmd) ?w1)"
  have w2: "kw_store w2 = s2" and await: "await_store env (\<lambda>s. cas_now s ?cand (run_state_version r) cmd) ?w1
      = (map_sum StoreFailed id ans, w2)"
    unfolding w2_def using cas by (simp_all add: await_cas prod_eq_iff)
  have idc: "run_id ?cand = run_id r" using id by (rule candidate_id)
  have "succeeds (kw_store w) (kw_store w') \<and> (\<forall>x. res = Inr x \<longrightarrow> run_snapshot (kw_store w') x
      \<and> run_id x = run_id r \<and> (installs upd cmd r ?s1 (kw_store w') x
         \<or> replayed (run_id r) cmd (kw_store w') x))"
  proof (cases ans)
    case (Inl e)
    then have "res = Inl (StoreFailed e)" "w' = w2"
      using c await by (auto simp: checkpoint_def andthen_def now_is_def)
    with s2 w2 show ?thesis by simp
  next
    case (Inr a)
    obtain oc y where a: "a = (oc, y)" by force
    have c': "checkpoint_reply env r cmd (oc, y) w2 = (res, w')"
      using c await Inr a by (simp add: checkpoint_def andthen_def now_is_def)
    consider (accepted) z where "oc = Accepted" "y = Some z" | (replay) z where "oc = Replayed" "y = Some z"
      | (lost) "oc = Conflict" | (failed) "oc \<noteq> Conflict" "y = None \<or> oc = StoreError"
      by (cases oc; cases y) auto
    then show ?thesis
    proof cases
      case (accepted z)
      have res: "res = Inr z" "w' = w2" using c' accepted by (auto simp: checkpoint_reply_def returns_def)
      have cas': "cas_now ?s1 ?cand (run_state_version r) cmd = (Inr (Accepted, Some z), s2)"
        using cas Inr a accepted by simp
      from cas_now_cases [OF cas'] obtain cur where cur: "load ?s1 (run_id ?cand) = Inr (Some cur)" by auto
      from cas_now_answer [OF cas' this] obtain cand where k:
        "cas_writes cur ?s1 ?cand (run_state_version r) cmd cand" "wrote ?s1 cand s2"
        "run_core z = run_core cand" "run_id z = run_id ?cand" by auto
      have "run_core cur = run_core r"
        using same_version_same_core [OF snap1] cur k(1) idc by (simp add: cas_writes_def)
      then have "installs upd cmd r ?s1 s2 z"
        using cur k idc unfolding installs_def cas_writes_def by metis
      moreover have "run_snapshot s2 z" using wrote_snapshot [OF k] .
      ultimately show ?thesis using res s2 w2 k(4) idc by simp
    next
      case (replay z)
      have res: "res = Inr z" "w' = w2" using c' replay by (auto simp: checkpoint_reply_def returns_def)
      have "cas_now ?s1 ?cand (run_state_version r) cmd = (Inr (Replayed, Some z), s2)"
        using cas Inr a replay by simp
      from cas_now_replayed [OF this] have "replayed (run_id r) cmd s2 z" and l: "load s2 (run_id r) = Inr (Some z)"
        using idc by (simp_all add: replayed_def)
      with fresh_load_fenced [OF l] load_core [OF l] show ?thesis using res s2 w2 by simp
    next
      case lost
      obtain ld w3 where ld: "load_run env (run_id r) w2 = (ld, w3)" by fastforce
      note la = load_run_answer [OF _ ld, unfolded w2, OF succeeds_sound [OF s2]]
      have w3: "w' = w3 \<and> (\<forall>x. res = Inr x \<longrightarrow> ld = Inr x \<and> cmd \<in> set (run_processed_command_ids x))"
      proof (cases ld)
        case (Inl e)
        with c' lost conflict_reply [OF ld] show ?thesis by auto
      next
        case (Inr cur)
        obtain m where f: "checkpoint_failed cmd Conflict w3 = (Inl (KernelRaised (KernelConflict m)) :: _ + run_state, w3)"
          using checkpoint_failed_raises by blast
        from c' lost conflict_reply [OF ld, of cmd y] Inr f
        show ?thesis by (auto split: if_splits)
      qed
      have "succeeds (kw_store w) (kw_store w3)" using succeeds_trans [OF s2 la(1)] .
      moreover have "run_snapshot (kw_store w3) x \<and> run_id x = run_id r \<and> replayed (run_id r) cmd (kw_store w3) x"
        if "res = Inr x" for x
        using la(2) [of x] w3 that unfolding replayed_def by blast
      ultimately show ?thesis unfolding conjunct1 [OF w3] by blast
    next
      case failed
      from refused_reply [OF failed, of env r cmd w2] c' obtain e where "res = Inl e" "w' = w2" by auto
      with s2 w2 show ?thesis by simp
    qed
  qed
  then show "succeeds (kw_store w) (kw_store w')"
    and "res = Inr x \<Longrightarrow> run_snapshot (kw_store w') x \<and> run_id x = run_id r
      \<and> ((\<exists>s1. succeeds (kw_store w) s1 \<and> installs upd cmd r s1 (kw_store w') x)
         \<or> replayed (run_id r) cmd (kw_store w') x)"
    using s1 by blast+
qed

section \<open>One entry\<close>

text \<open>The entries of a Run by their position, as the store keeps them.\<close>

definition entry_board :: "run_state \<Rightarrow> nat \<times> nat \<rightharpoonup> batch_entry" where
  "entry_board r = (\<lambda>(i, j). if i < length (run_tool_batches r) \<and> j < length (tb_entries (run_tool_batches r ! i))
     then Some (trunc_entry (entry_at r i j)) else None)"

lemma put_entry_id [simp]: "run_id (put_entry i j e r) = run_id r"
  by (simp add: put_entry_def Let_def)

lemma put_entry_batches:
  "run_tool_batches (put_entry i j e r) = (run_tool_batches r)[i := (run_tool_batches r ! i)\<lparr>tb_entries :=
     (tb_entries (run_tool_batches r ! i))[j := e]\<rparr>]"
  by (simp add: put_entry_def Let_def)

lemma board_of_map:
  "run_tool_batches r = map trunc_batch bs \<Longrightarrow> entry_board r = entry_board (q\<lparr>run_tool_batches := bs\<rparr>)"
  by (auto simp: entry_board_def fun_eq_iff entry_at_def)

lemma board_put:
  assumes "i < length (run_tool_batches r)" and "j < length (tb_entries (run_tool_batches r ! i))"
  shows "entry_board (put_entry i j e r) = (entry_board r)((i, j) \<mapsto> trunc_entry e)"
  using assms by (auto simp: entry_board_def fun_eq_iff entry_at_def put_entry_batches nth_list_update)

lemma core_batches:
  assumes "run_core x = run_core y"
  shows "run_tool_batches x = run_tool_batches y" and "run_transcript x = run_transcript y"
  using arg_cong [OF assms, of run_tool_batches] arg_cong [OF assms, of run_transcript]
  by (simp_all add: run_core_def)

lemma installed_entry:
  assumes inst: "installs (put_entry i j e) cmd base s s' x"
    and i: "i < length (run_tool_batches base)" and j: "j < length (tb_entries (run_tool_batches base ! i))"
  shows "entry_board x = (entry_board base)((i, j) \<mapsto> trunc_entry e)
     \<and> run_transcript x = map trunc_message (run_transcript base)"
proof -
  from inst obtain now cand where c: "normalize_run (with_command cmd
      (checkpoint_candidate (put_entry i j e) base now)) = Inr cand" and x: "run_core x = run_core cand"
    by (auto simp: installs_def)
  have cand: "run_tool_batches cand = map trunc_batch (run_tool_batches (put_entry i j e base))"
    "run_transcript cand = map trunc_message (run_transcript base)"
    using c by (auto simp: normalize_run_iff with_command_def checkpoint_candidate_def Let_def truncate_run_def
        put_entry_def)
  then have "entry_board x = entry_board (put_entry i j e base)"
    using board_of_map [of x _ "put_entry i j e base"] core_batches(1) [OF x] by simp
  with board_put [OF i j] cand(2) core_batches(2) [OF x] show ?thesis by simp
qed

text \<open>The stored Run had the entry as it was read, and the update replaced that entry alone.\<close>

definition entry_replaced ::
  "run_store \<Rightarrow> run_state \<Rightarrow> batch_entry \<Rightarrow> batch_entry \<Rightarrow> run_store \<Rightarrow> run_state \<Rightarrow> bool" where
  "entry_replaced s0 base original desired s' x \<longleftrightarrow> (\<exists>s i j cur. succeeds s0 s
     \<and> load s (run_id base) = Inr (Some cur) \<and> run_core cur = run_core base
     \<and> entry_board base (i, j) = Some (trunc_entry original)
     \<and> entry_board x = (entry_board base)((i, j) \<mapsto> trunc_entry desired)
     \<and> run_transcript x = map trunc_message (run_transcript base)
     \<and> run_snapshot s' x)"

lemma checkpoint_entry:
  assumes s: "sound_store (kw_store w)" and snap: "run_snapshot (kw_store w) r"
    and i: "i < length (run_tool_batches r)" and j: "j < length (tb_entries (run_tool_batches r ! i))"
    and c: "checkpoint env r (put_entry i j e) cmd w = (Inr x, w')"
  shows "entry_replaced (kw_store w) r (entry_at r i j) e (kw_store w') x \<or> replayed (run_id r) cmd (kw_store w') x"
proof -
  from checkpoint_answer(2) [OF s snap put_entry_id c refl] have sn: "run_snapshot (kw_store w') x"
    and "(\<exists>s1. succeeds (kw_store w) s1 \<and> installs (put_entry i j e) cmd r s1 (kw_store w') x)
      \<or> replayed (run_id r) cmd (kw_store w') x" by blast+
  moreover have "entry_replaced (kw_store w) r (entry_at r i j) e (kw_store w') x"
    if s1: "succeeds (kw_store w) s1" "installs (put_entry i j e) cmd r s1 (kw_store w') x" for s1
  proof -
    from s1(2) obtain cur where "load s1 (run_id r) = Inr (Some cur)" "run_core cur = run_core r"
      by (auto simp: installs_def)
    moreover have "entry_board r (i, j) = Some (trunc_entry (entry_at r i j))"
      using i j by (simp add: entry_board_def)
    ultimately show ?thesis
      using s1(1) installed_entry [OF s1(2) i j] sn unfolding entry_replaced_def by blast
  qed
  ultimately show ?thesis by blast
qed

lemma find_entry_at:
  assumes "find_entry r mid cid = Some (i, j, e)"
  shows "i < length (run_tool_batches r)" and "j < length (tb_entries (run_tool_batches r ! i))"
    and "e = entry_at r i j"
  using find_Some [OF assms [unfolded find_entry_def]] by (auto simp: positions_iff entry_at_def)

text \<open>
  C9: A Tool entry is updated atomically, even after a lost race: when the update succeeds, either the
  Run that was stored at that moment still had the entry as the kernel read it and only this entry
  was replaced in it, every other entry and the transcript being those of the stored Run, or
  the command had been recorded before, or the stored entry was already the desired one.
\<close>

theorem entry_update_is_atomic:
  assumes s: "sound_store (kw_store w)" and snap: "run_snapshot (kw_store w) r"
    and i: "i < length (run_tool_batches r)" and j: "j < length (tb_entries (run_tool_batches r ! i))"
    and u: "update_entry env r i j p cmd w = (Inr x, w')"
  shows "(\<exists>base. run_id base = run_id r \<and> entry_replaced (kw_store w) base (entry_at r i j)
             (patch_entry p (entry_at r i j)) (kw_store w') x)
     \<or> replayed (run_id r) cmd (kw_store w') x
     \<or> load (kw_store w') (run_id r) = Inr (Some x)
        \<and> (\<exists>i' j'. entry_board x (i', j') = Some (trunc_entry (patch_entry p (entry_at r i j))))"
proof -
  let ?old = "entry_at r i j" and ?new = "patch_entry p (entry_at r i j)"
  obtain res1 w1 where c1: "checkpoint env r (put_entry i j ?new) cmd w = (res1, w1)" by fastforce
  have s1: "succeeds (kw_store w) (kw_store w1)" by (rule checkpoint_answer(1) [OF s snap put_entry_id c1])
  show ?thesis
  proof (cases "\<exists>m. res1 = Inl (KernelRaised (KernelConflict m))")
    case False
    then have "(res1, w1) = (Inr x, w')"
      using u c1 by (auto simp: update_entry_def on_conflict_def Let_def split: sum.splits kernel_exn.splits kernel_error.splits)
    then have "checkpoint env r (put_entry i j ?new) cmd w = (Inr x, w')" using c1 by simp
    from checkpoint_entry [OF s snap i j this] show ?thesis by blast
  next
    case True
    obtain ld w2 where ld: "load_run env (run_id r) w1 = (ld, w2)" by fastforce
    from True u c1 ld obtain cur where cur: "ld = Inr cur"
      and k: "(case find_entry cur (be_assistant_message_id ?old) (be_call_id ?old) of
             None \<Rightarrow> conflict ''tool entry disappeared during CAS retry''
           | Some (i', j', e') \<Rightarrow>
               if e' = ?new then returns cur
               else if e' \<noteq> ?old then conflict ''tool entry changed during CAS retry''
               else checkpoint env cur (put_entry i' j' ?new) cmd) w2 = (Inr x, w')"
      by (auto simp: update_entry_def on_conflict_def Let_def andthen_def split: sum.splits)
    note l = load_run_answer [OF succeeds_sound [OF s1] ld]
    have l2: "load (kw_store w2) (run_id r) = Inr (Some cur)" "run_snapshot (kw_store w2) cur" "run_id cur = run_id r"
      using l(2) [OF cur] by simp_all
    have s2: "succeeds (kw_store w) (kw_store w2)" using succeeds_trans [OF s1 l(1)] .
    obtain i' j' e' where f: "find_entry cur (be_assistant_message_id ?old) (be_call_id ?old) = Some (i', j', e')"
      using k by (cases "find_entry cur (be_assistant_message_id ?old) (be_call_id ?old)")
        (auto simp: conflict_def raises_def)
    note at = find_entry_at [OF f]
    show ?thesis
    proof (cases "e' = ?new")
      case True
      then have "x = cur" "w' = w2" using k f by (auto simp: returns_def)
      moreover have "entry_board cur (i', j') = Some (trunc_entry ?new)"
        using at True by (simp add: entry_board_def)
      ultimately show ?thesis using l2 by blast
    next
      case False
      then have "e' = ?old" and c2: "checkpoint env cur (put_entry i' j' ?new) cmd w2 = (Inr x, w')"
        using k f by (auto simp: conflict_def raises_def split: if_splits)
      from checkpoint_entry [OF succeeds_sound [OF s2] l2(2) at(1,2) c2]
      have "entry_replaced (kw_store w2) cur e' ?new (kw_store w') x \<or> replayed (run_id r) cmd (kw_store w') x"
        using at(3) l2(3) by simp
      moreover have "entry_replaced (kw_store w2) cur e' ?new (kw_store w') x \<Longrightarrow>
          entry_replaced (kw_store w) cur e' ?new (kw_store w') x"
        using s2 unfolding entry_replaced_def by (blast intro: succeeds_trans)
      ultimately show ?thesis using l2(3) \<open>e' = ?old\<close> by blast
    qed
  qed
qed

definition sample_env :: kernel_env where
  "sample_env = \<lparr>kn_digest = (\<lambda>s. s), kn_dumps = (\<lambda>_. []), kn_sort_key = (\<lambda>_. [])\<rparr>"

definition sample_kernel_world :: kernel_world where
  "sample_kernel_world = \<lparr>kw_store = store_one, kw_others = (\<lambda>_. []), kw_clock = (\<lambda>_. 5000), kw_tick = 0,
     kw_lifecycle = True, kw_emitted = []\<rparr>"

definition sample_patch :: entry_patch where
  "sample_patch = (keep_patch EsTerminal (Some sample_result))\<lparr>ep_public_update_index := Some 1\<rparr>"

definition sample_checkpointed :: run_state where
  "sample_checkpointed = checkpoint_candidate
     (put_entry 0 0 (patch_entry sample_patch (entry_at (truncate_run sample_run) 0 0))) (truncate_run sample_run) 5000"

lemma sample_checkpointed_eq:
  "sample_checkpointed = (truncate_run sample_run)\<lparr>run_tool_batches :=
     [trunc_batch (sample_batch\<lparr>tb_entries := [sample_entry\<lparr>be_public_update_index := 1\<rparr>]\<rparr>)],
     run_state_version := 8, run_updated_at := 5000\<rparr>"
  by (simp add: sample_checkpointed_def checkpoint_candidate_def put_entry_def entry_at_def patch_entry_def
      sample_patch_def keep_patch_def or_keep_def sample_run_def sample_batch_def sample_entry_def
      sample_budget_def apply_suspension_clock_def suspended_run_statuses_def truncate_run_def trunc_batch_def
      trunc_entry_def trunc_budget_def opt_millis_def)

lemma sample_checkpointed_valid: "valid_run (with_command ''c9'' sample_checkpointed)"
proof -
  let ?c = "with_command ''c9'' sample_checkpointed" and ?t = "truncate_run sample_run"
  have t: "valid_run ?t" using sample_run_valid by (simp add: valid_run_def)
  have e: "run_entries ?c = [trunc_entry (sample_entry\<lparr>be_public_update_index := 1\<rparr>)]"
    by (simp add: run_entries_def with_command_def sample_checkpointed_eq)
  have st: "run_st ?c = Finalizing"
    by (simp add: with_command_def sample_checkpointed_eq) (simp add: sample_run_def)
  have b: "batch_error (sample_batch\<lparr>tb_entries := [sample_entry\<lparr>be_public_update_index := 1\<rparr>]\<rparr>) = None"
    by (simp add: batch_error_def entry_error_def invocation_error_def sample_batch_def sample_entry_def
        sample_invocation_def)
  have "terminal_error ?c = None" using st by (simp add: terminal_error_def terminal_run_statuses_def)
  moreover have "cancellation_error ?c = None"
    using t st by (simp add: cancellation_error_def with_command_def sample_checkpointed_eq sample_run_def opt_millis_def)
  moreover have "run_field_error ?c = None"
    using t b by (simp add: valid_run_parts run_field_error_None_iff with_command_def sample_checkpointed_eq)
  moreover have "distinct (run_processed_command_ids ?c)"
    by (simp add: with_command_def sample_checkpointed_eq sample_run_def)
  ultimately show ?thesis
    using t unfolding valid_run_parts e
    by (simp add: with_command_def sample_checkpointed_eq public_call_ids_def List.map_filter_simps
        sample_entry_def truthy_str_def)
qed

lemma sample_update: "\<exists>x w'. update_entry sample_env (truncate_run sample_run) 0 0 sample_patch ''c9''
     sample_kernel_world = (Inr x, w')"
proof -
  let ?r = "truncate_run sample_run"
  have id: "run_id sample_run = ''run''" "run_state_version sample_run = 7" by (simp_all add: sample_run_def)
  have cid: "run_id sample_checkpointed = ''run''" "run_state_version sample_checkpointed = 8"
    by (simp_all add: sample_checkpointed_eq id)
  obtain cand where cand: "normalize_run (with_command ''c9'' sample_checkpointed) = Inr cand"
    and cand_eq: "cand = truncate_run (with_command ''c9'' sample_checkpointed)"
    using sample_checkpointed_valid by (simp add: normalize_run_iff)
  have "cas_writes ?r store_one sample_checkpointed 7 ''c9'' cand"
    unfolding cas_writes_def
    using cand cid
    by (simp add: cand_eq cancellation_transition_allowed_def cancellation_metadata_def version_matches_def
        index_violation_def)
      (simp add: store_one_def sample_command find_run_def with_command_def sample_checkpointed_eq sample_run_def)
  with load_store_one cid have "\<exists>y s'. cas_now store_one sample_checkpointed 7 ''c9'' = (Inr (Accepted, Some y), s')"
    by (intro cas_now_accepts) simp_all
  then obtain y s' where "cas_now store_one sample_checkpointed 7 ''c9'' = (Inr (Accepted, Some y), s')" by blast
  then show ?thesis
    by (simp add: update_entry_def on_conflict_def checkpoint_def andthen_def now_is_def await_store_def
        stored_before_def sample_kernel_world_def sample_checkpointed_def [symmetric] id checkpoint_reply_def
        returns_def Let_def)
qed

theorem entry_update_is_atomic_witness:
  "\<exists>x w'. update_entry sample_env (truncate_run sample_run) 0 0 sample_patch ''c9'' sample_kernel_world = (Inr x, w')
     \<and> ((\<exists>base. run_id base = run_id (truncate_run sample_run)
            \<and> entry_replaced store_one base (entry_at (truncate_run sample_run) 0 0)
                (patch_entry sample_patch (entry_at (truncate_run sample_run) 0 0)) (kw_store w') x)
        \<or> replayed (run_id (truncate_run sample_run)) ''c9'' (kw_store w') x
        \<or> load (kw_store w') (run_id (truncate_run sample_run)) = Inr (Some x)
           \<and> (\<exists>i' j'. entry_board x (i', j') = Some (trunc_entry
                (patch_entry sample_patch (entry_at (truncate_run sample_run) 0 0)))))"
proof -
  let ?r = "truncate_run sample_run"
  obtain x w' where u: "update_entry sample_env ?r 0 0 sample_patch ''c9'' sample_kernel_world = (Inr x, w')"
    using sample_update by blast
  have st: "kw_store sample_kernel_world = store_one" by (simp add: sample_kernel_world_def)
  have "sound_store (kw_store sample_kernel_world)"
    unfolding st using store_one_history by (auto simp: sound_store_def store_one_def)
  moreover have "run_snapshot (kw_store sample_kernel_world) ?r"
    unfolding st by (rule fresh_load_fenced [OF load_store_one])
  moreover have "0 < length (run_tool_batches ?r)" "0 < length (tb_entries (run_tool_batches ?r ! 0))"
    by (simp_all add: sample_run_def sample_batch_def)
  ultimately show ?thesis using entry_update_is_atomic [OF _ _ _ _ u] u unfolding st by blast
qed

end
