(* ===== verification/Kernel_Closure.thy ===== *)
theory Kernel_Closure
  imports Observation_Safety
begin

text \<open>
  \<open>_terminal_closure_plan\<close> of \<open>kernel.py\<close>: the pure check that comes before a Run is closed. It reads
  the batches of the Run and the canonical room records, refuses a history that cannot be closed
  consistently, and plans the Turn ends, the interactions to abandon and the public Tools whose end is
  already published. \<open>policy\<close> is \<open>enforce_public_label_policy\<close> with the secret values of the call.
\<close>

section \<open>Values of the canonical records\<close>

text \<open>\<open>d.get(k)\<close>; Python's \<open>None\<close> is \<^const>\<open>JNull\<close>.\<close>

definition dict_get :: "json \<Rightarrow> string \<Rightarrow> json" where
  "dict_get d k = (case json_get d k of None \<Rightarrow> JNull | Some v \<Rightarrow> v)"

fun is_dict :: "json \<Rightarrow> bool" where
  "is_dict (JObj _) = True"
| "is_dict _ = False"

fun str_value :: "json \<Rightarrow> string option" where
  "str_value (JStr s) = Some s"
| "str_value _ = None"

text \<open>\<open>isinstance(v, str) and v\<close>: a non-empty string.\<close>

definition nonempty_str :: "json \<Rightarrow> string option" where
  "nonempty_str v = (case str_value v of None \<Rightarrow> None | Some s \<Rightarrow> if s = [] then None else Some s)"

fun str_list :: "json list \<Rightarrow> string list option" where
  "str_list [] = Some []"
| "str_list (v # vs) = (case (str_value v, str_list vs) of
      (Some s, Some ss) \<Rightarrow> Some (s # ss) | _ \<Rightarrow> None)"

fun array_of_strings :: "json \<Rightarrow> string list option" where
  "array_of_strings (JArr vs) = str_list vs"
| "array_of_strings _ = None"

section \<open>The plan\<close>

record turn_plan =
  tp_turn :: string
  tp_message_id :: string
  tp_public_ids :: "string list"
  tp_emit_turn_end :: bool

record closure_plan =
  cp_turns :: "turn_plan list"
  cp_interactions :: "(string \<times> string) list"
  cp_replayed :: "string list"
  cp_active_message_end :: "(string \<times> string) option"

section \<open>The batches\<close>

record batch_scan =
  bsc_public :: "(string \<times> string \<times> string \<times> batch_entry) list"
  bsc_interactions :: "(string \<times> string) list"
  bsc_routes :: "(string \<times> string) list"
  bsc_incomplete :: "string list"

definition empty_scan :: batch_scan where
  "empty_scan = \<lparr>bsc_public = [], bsc_interactions = [], bsc_routes = [], bsc_incomplete = []\<rparr>"

definition catalog_label :: "run_state \<Rightarrow> string \<Rightarrow> string" where
  "catalog_label r tool = (case run_tool_catalog r of
      None \<Rightarrow> tool
    | Some c \<Rightarrow> (case List.find (\<lambda>x. td_name (ce_definition x) = tool) (tcat_entries c) of
        None \<Rightarrow> tool
      | Some x \<Rightarrow> if py_strip (td_label (ce_definition x)) = [] then tool
                  else py_strip (td_label (ce_definition x))))"

definition scan_public ::
  "(string \<Rightarrow> string) \<Rightarrow> run_state \<Rightarrow> string \<Rightarrow> batch_entry \<Rightarrow> batch_scan \<Rightarrow> kernel_error + batch_scan" where
  "scan_public policy r owner e st =
     (if be_acceptance e \<noteq> None \<and> be_opaque_public_call_id e = None
      then Inl (KernelConflict ''accepted Tool child has no canonical public identity'')
      else case be_opaque_public_call_id e of
        None \<Rightarrow> Inr st
      | Some pid \<Rightarrow>
          if pid \<in> fst ` set (bsc_public st)
          then Inl (KernelConflict ''canonical public Tool identity is duplicated'')
          else Inr (st\<lparr>bsc_public := bsc_public st
                 @ [(pid, owner, policy (catalog_label r (be_tool_name e)), e)]\<rparr>))"

definition entry_open :: "batch_entry \<Rightarrow> bool" where
  "entry_open e \<longleftrightarrow> be_state e \<noteq> EsTerminal
     \<or> be_opaque_public_call_id e \<noteq> None \<and> \<not> be_public_terminal_emitted e"

definition scan_parked :: "batch_entry \<Rightarrow> batch_scan \<Rightarrow> kernel_error + batch_scan" where
  "scan_parked e st =
     (if \<not> needs_input e then Inr st
      else if \<not> truthy_str (be_suspended_call_record_id e) \<or> \<not> truthy_str (be_interaction_id e)
        then Inl (KernelConflict ''parked Tool child has incomplete interaction identity'')
      else
        let rec = or_empty (be_suspended_call_record_id e); iid = or_empty (be_interaction_id e) in
        case map_of (bsc_routes st) iid of
          Some rec' \<Rightarrow>
            if rec' \<noteq> rec then Inl (KernelConflict ''parked interaction has conflicting ownership'')
            else Inr (if (rec, iid) \<in> set (bsc_interactions st) then st
              else st\<lparr>bsc_interactions := bsc_interactions st @ [(rec, iid)]\<rparr>)
        | None \<Rightarrow> Inr (st\<lparr>bsc_routes := bsc_routes st @ [(iid, rec)],
              bsc_interactions := (if (rec, iid) \<in> set (bsc_interactions st) then bsc_interactions st
                else bsc_interactions st @ [(rec, iid)])\<rparr>))"

definition mark_incomplete :: "bool \<Rightarrow> string \<Rightarrow> batch_scan \<Rightarrow> batch_scan" where
  "mark_incomplete b owner st =
     (if b then st\<lparr>bsc_incomplete := List.insert owner (bsc_incomplete st)\<rparr> else st)"

definition scan_entry ::
  "(string \<Rightarrow> string) \<Rightarrow> run_state \<Rightarrow> string \<Rightarrow> batch_entry \<Rightarrow> batch_scan \<Rightarrow> kernel_error + batch_scan" where
  "scan_entry policy r owner e st = (case scan_public policy r owner e st of
      Inl x \<Rightarrow> Inl x
    | Inr st1 \<Rightarrow> scan_parked e (mark_incomplete (entry_open e) owner st1))"

fun scan_entries ::
  "(string \<Rightarrow> string) \<Rightarrow> run_state \<Rightarrow> string \<Rightarrow> batch_entry list \<Rightarrow> batch_scan \<Rightarrow> kernel_error + batch_scan" where
  "scan_entries policy r owner [] st = Inr st"
| "scan_entries policy r owner (e # es) st = (case scan_entry policy r owner e st of
      Inl x \<Rightarrow> Inl x | Inr st' \<Rightarrow> scan_entries policy r owner es st')"

fun scan_batches ::
  "(string \<Rightarrow> string) \<Rightarrow> run_state \<Rightarrow> tool_batch list \<Rightarrow> batch_scan \<Rightarrow> kernel_error + batch_scan" where
  "scan_batches policy r [] st = Inr st"
| "scan_batches policy r (b # bs) st =
     (case scan_entries policy r (batch_turn_id b) (sorted_entries b)
             (mark_incomplete (\<not> tb_results_flushed b) (batch_turn_id b) st) of
        Inl x \<Rightarrow> Inl x | Inr st' \<Rightarrow> scan_batches policy r bs st')"

section \<open>The canonical records\<close>

record record_scan =
  rsc_closed :: "(string \<times> turn_closure) list"
  rsc_messages :: "(string \<times> string) list"
  rsc_tools :: "string list"
  rsc_replayed :: "string list"

definition empty_records :: record_scan where
  "empty_records = \<lparr>rsc_closed = [], rsc_messages = [], rsc_tools = [], rsc_replayed = []\<rparr>"

text \<open>The public end of a Tool says what its terminal result says.\<close>

definition public_end_agrees :: "json \<Rightarrow> tool_result \<Rightarrow> bool" where
  "public_end_agrees payload x = (case expected_public_terminal x of (oc, err, reason) \<Rightarrow>
     dict_get payload ''outcome'' = JStr oc \<and> dict_get payload ''is_error'' = JBool err
     \<and> dict_get payload ''failure_reason'' = (case reason of None \<Rightarrow> JNull | Some s \<Rightarrow> JStr s))"

definition scan_tool_end :: "run_state \<Rightarrow> batch_scan \<Rightarrow> json \<Rightarrow> record_scan \<Rightarrow> kernel_error + record_scan" where
  "scan_tool_end r bsc payload st =
     (case nonempty_str (dict_get payload ''internal_turn_id'') of
        None \<Rightarrow> Inl (KernelConflict ''canonical Tool end has no durable turn owner'')
      | Some owner \<Rightarrow>
          if owner \<notin> set (map batch_turn_id (run_tool_batches r))
          then Inl (KernelConflict ''canonical Tool end has no durable turn owner'')
          else (case nonempty_str (dict_get payload ''tool_call_id'') of
            None \<Rightarrow> Inl (KernelConflict ''canonical Tool end has no public identity'')
          | Some pid \<Rightarrow>
              if pid \<in> set (rsc_tools st)
              then Inl (KernelConflict ''canonical Tool end identity is duplicated'')
              else (case map_of (bsc_public bsc) pid of
                None \<Rightarrow> Inl (KernelConflict ''canonical Tool end has no durable child'')
              | Some (owner', label, e) \<Rightarrow>
                  if owner' \<noteq> owner \<or> dict_get payload ''tool_name'' \<noteq> JStr label
                  then Inl (KernelConflict ''canonical Tool end ownership conflicts'')
                  else (case be_buffered_terminal_result e of
                    None \<Rightarrow> Inl (KernelConflict ''canonical Tool end conflicts with durable child'')
                  | Some x \<Rightarrow>
                      if be_state e \<noteq> EsTerminal
                      then Inl (KernelConflict ''canonical Tool end conflicts with durable child'')
                      else if \<not> public_end_agrees payload x
                      then Inl (KernelConflict ''canonical Tool end outcome conflicts'')
                      else Inr (st\<lparr>rsc_tools := rsc_tools st @ [pid],
                        rsc_replayed := (if be_public_terminal_emitted e then rsc_replayed st
                          else rsc_replayed st @ [pid])\<rparr>)))))"

definition scan_turn_end :: "string \<Rightarrow> json \<Rightarrow> record_scan \<Rightarrow> kernel_error + record_scan" where
  "scan_turn_end owner payload st =
     (case (str_value (dict_get payload ''message_id''), array_of_strings (dict_get payload ''tool_call_ids'')) of
        (Some mid, Some ids) \<Rightarrow>
          let facts = \<lparr>tcl_message_id = mid, tcl_public_ids = ids\<rparr> in
          (case map_of (rsc_closed st) owner of
             None \<Rightarrow> Inr (st\<lparr>rsc_closed := rsc_closed st @ [(owner, facts)]\<rparr>)
           | Some old \<Rightarrow> if old \<noteq> facts
               then Inl (KernelConflict ''canonical turn has conflicting terminal inventory'') else Inr st)
      | _ \<Rightarrow> Inl (KernelConflict ''canonical turn end inventory is malformed''))"

definition scan_record :: "run_state \<Rightarrow> batch_scan \<Rightarrow> json \<Rightarrow> record_scan \<Rightarrow> kernel_error + record_scan" where
  "scan_record r bsc rec st =
     (let data = dict_get rec ''payload_public''; kind = dict_get data ''type'';
          payload = dict_get data ''payload'' in
      if \<not> is_dict data \<or> dict_get data ''run_id'' \<noteq> JStr (run_id r) then Inr st
      else if \<not> is_dict payload then
        (if kind = JStr ''tool_execution_end''
         then Inl (KernelConflict ''canonical Tool end payload is malformed'') else Inr st)
      else if kind = JStr ''tool_execution_end'' then scan_tool_end r bsc payload st
      else case nonempty_str (dict_get payload ''internal_turn_id'') of
        None \<Rightarrow> Inr st
      | Some owner \<Rightarrow>
          if kind = JStr ''message_end'' then
            (case nonempty_str (dict_get payload ''message_id'') of
               None \<Rightarrow> Inl (KernelConflict ''canonical message end has no identity'')
             | Some mid \<Rightarrow> Inr (st\<lparr>rsc_messages := rsc_messages st @ [(owner, mid)]\<rparr>))
          else if kind = JStr ''turn_end'' then scan_turn_end owner payload st
          else Inr st)"

fun scan_records :: "run_state \<Rightarrow> batch_scan \<Rightarrow> json list \<Rightarrow> record_scan \<Rightarrow> kernel_error + record_scan" where
  "scan_records r bsc [] st = Inr st"
| "scan_records r bsc (rec # recs) st = (case scan_record r bsc rec st of
      Inl x \<Rightarrow> Inl x | Inr st' \<Rightarrow> scan_records r bsc recs st')"

section \<open>The Turns\<close>

definition ordered_turns :: "run_state \<Rightarrow> string list" where
  "ordered_turns r =
     (let ts = fromkeys (map batch_turn_id (run_tool_batches r)) in
      case run_active_internal_turn_id r of
        None \<Rightarrow> ts | Some a \<Rightarrow> if a \<in> set ts then ts else ts @ [a])"

definition turn_affected :: "run_state \<Rightarrow> batch_scan \<Rightarrow> record_scan \<Rightarrow> bool \<Rightarrow> string \<Rightarrow> bool" where
  "turn_affected r bsc rsc reader owner \<longleftrightarrow> owner \<in> set (bsc_incomplete bsc)
     \<or> run_active_internal_turn_id r = Some owner
     \<or> reader \<and> map_of (rsc_closed rsc) owner = None"

definition plan_turn :: "run_state \<Rightarrow> record_scan \<Rightarrow> string \<Rightarrow> kernel_error + turn_plan" where
  "plan_turn r rsc owner =
     (case closing_message r (turn_batches r owner) owner of
        None \<Rightarrow> Inl (KernelConflict ''canonical turn has no durable assistant message'')
      | Some mid \<Rightarrow>
          let ids = turn_public_ids (turn_batches r owner);
              facts = \<lparr>tcl_message_id = mid, tcl_public_ids = ids\<rparr>;
              old = map_of (rsc_closed rsc) owner in
          if old \<noteq> None \<and> old \<noteq> Some facts
          then Inl (KernelConflict ''canonical turn terminal inventory conflicts'')
          else Inr \<lparr>tp_turn = owner, tp_message_id = mid, tp_public_ids = ids, tp_emit_turn_end = (old = None)\<rparr>)"

fun plan_turns :: "run_state \<Rightarrow> record_scan \<Rightarrow> string list \<Rightarrow> kernel_error + turn_plan list" where
  "plan_turns r rsc [] = Inr []"
| "plan_turns r rsc (t # ts) = (case plan_turn r rsc t of
      Inl x \<Rightarrow> Inl x
    | Inr p \<Rightarrow> (case plan_turns r rsc ts of Inl x \<Rightarrow> Inl x | Inr ps \<Rightarrow> Inr (p # ps)))"

definition active_remnants :: "run_state \<Rightarrow> bool" where
  "active_remnants r \<longleftrightarrow> truthy_str (run_active_assistant_message_id r) \<or> truthy_int (run_active_attempt r)
     \<or> run_active_public_text r \<noteq> [] \<or> run_greatest_public_text_offset r \<noteq> 0"

definition active_message_end :: "run_state \<Rightarrow> record_scan \<Rightarrow> (string \<times> string) option" where
  "active_message_end r rsc = (case (run_active_internal_turn_id r, run_active_assistant_message_id r) of
      (Some t, Some m) \<Rightarrow> if (t, m) \<in> set (rsc_messages rsc) then None else Some (t, m)
    | _ \<Rightarrow> None)"

definition terminal_closure_plan ::
  "(string \<Rightarrow> string) \<Rightarrow> run_state \<Rightarrow> json list \<Rightarrow> bool \<Rightarrow> kernel_error + closure_plan" where
  "terminal_closure_plan policy r recs reader =
     (if run_active_internal_turn_id r = None \<and> active_remnants r
      then Inl (KernelConflict ''canonical active lifecycle has no owning turn'')
      else case scan_batches policy r (run_tool_batches r) empty_scan of
        Inl x \<Rightarrow> Inl x
      | Inr bsc \<Rightarrow>
          if run_active_internal_turn_id r \<noteq> None
             \<and> run_active_internal_turn_id r \<notin> Some ` set (map batch_turn_id (run_tool_batches r))
             \<and> run_active_assistant_message_id r = None
          then Inl (KernelConflict ''canonical active turn has no durable assistant message'')
          else case scan_records r bsc recs empty_records of
            Inl x \<Rightarrow> Inl x
          | Inr rsc \<Rightarrow>
              if list_ex (\<lambda>t. map_of (rsc_closed rsc) t \<noteq> None) (bsc_incomplete bsc)
              then Inl (KernelConflict ''canonical closed turn retains an incomplete Tool child'')
              else case plan_turns r rsc (filter (turn_affected r bsc rsc reader) (ordered_turns r)) of
                Inl x \<Rightarrow> Inl x
              | Inr ps \<Rightarrow> Inr \<lparr>cp_turns = ps, cp_interactions = bsc_interactions bsc,
                  cp_replayed = rsc_replayed rsc, cp_active_message_end = active_message_end r rsc\<rparr>)"

section \<open>What the scans collect\<close>

lemma scan_public_Inr:
  assumes "scan_public policy r owner e st = Inr st'"
  shows "bsc_incomplete st' = bsc_incomplete st" and "bsc_interactions st' = bsc_interactions st"
    and "bsc_routes st' = bsc_routes st"
    and "map fst (bsc_public st') = map fst (bsc_public st) @ public_call_ids [e]"
    and "distinct (map fst (bsc_public st)) \<Longrightarrow> distinct (map fst (bsc_public st'))"
    and "set (bsc_public st') = set (bsc_public st) \<union>
      {(pid, owner, policy (catalog_label r (be_tool_name e)), e) | pid. be_opaque_public_call_id e = Some pid}"
  using assms
  by (auto simp: scan_public_def public_call_ids_def List.map_filter_simps split: if_splits option.splits)

lemma scan_parked_Inr:
  assumes "scan_parked e st = Inr st'"
  shows "bsc_incomplete st' = bsc_incomplete st" and "bsc_public st' = bsc_public st"
    and "set (bsc_interactions st) \<subseteq> set (bsc_interactions st')"
    and "distinct (bsc_interactions st) \<Longrightarrow> distinct (bsc_interactions st')"
    and "needs_input e \<Longrightarrow> \<exists>rec iid. be_suspended_call_record_id e = Some rec \<and> be_interaction_id e = Some iid
      \<and> (rec, iid) \<in> set (bsc_interactions st')"
proof -
  show "bsc_incomplete st' = bsc_incomplete st" and "bsc_public st' = bsc_public st"
    and "set (bsc_interactions st) \<subseteq> set (bsc_interactions st')"
    and "distinct (bsc_interactions st) \<Longrightarrow> distinct (bsc_interactions st')"
    using assms by (auto simp: scan_parked_def Let_def split: if_splits option.splits)
  assume n: "needs_input e"
  with assms obtain rec iid where "be_suspended_call_record_id e = Some rec" "be_interaction_id e = Some iid"
    by (cases "be_suspended_call_record_id e"; cases "be_interaction_id e")
      (auto simp: scan_parked_def truthy_str_def split: if_splits)
  with assms n show "\<exists>rec iid. be_suspended_call_record_id e = Some rec \<and> be_interaction_id e = Some iid
      \<and> (rec, iid) \<in> set (bsc_interactions st')"
    by (auto simp: scan_parked_def Let_def or_empty_def split: if_splits option.splits)
qed

lemma mark_incomplete_simps [simp]:
  "bsc_public (mark_incomplete b t st) = bsc_public st"
  "bsc_interactions (mark_incomplete b t st) = bsc_interactions st"
  "bsc_routes (mark_incomplete b t st) = bsc_routes st"
  "set (bsc_incomplete (mark_incomplete b t st)) = set (bsc_incomplete st) \<union> (if b then {t} else {})"
  by (simp_all add: mark_incomplete_def)

lemma scan_entry_Inr:
  assumes "scan_entry policy r owner e st = Inr st'"
  obtains st1 where "scan_public policy r owner e st = Inr st1"
    and "scan_parked e (mark_incomplete (entry_open e) owner st1) = Inr st'"
  using assms by (auto simp: scan_entry_def split: sum.splits)

lemma scan_entry_facts:
  assumes "scan_entry policy r owner e st = Inr st'"
  shows "set (bsc_incomplete st') = set (bsc_incomplete st) \<union> (if entry_open e then {owner} else {})"
    and "set (bsc_interactions st) \<subseteq> set (bsc_interactions st')"
    and "distinct (bsc_interactions st) \<Longrightarrow> distinct (bsc_interactions st')"
    and "needs_input e \<Longrightarrow> \<exists>rec iid. be_suspended_call_record_id e = Some rec \<and> be_interaction_id e = Some iid
      \<and> (rec, iid) \<in> set (bsc_interactions st')"
    and "distinct (map fst (bsc_public st)) \<Longrightarrow> distinct (map fst (bsc_public st'))"
    and "set (bsc_public st') = set (bsc_public st) \<union>
      {(pid, owner, policy (catalog_label r (be_tool_name e)), e) | pid. be_opaque_public_call_id e = Some pid}"
proof -
  from assms obtain st1 where p: "scan_public policy r owner e st = Inr st1"
    and k: "scan_parked e (mark_incomplete (entry_open e) owner st1) = Inr st'"
    by (rule scan_entry_Inr)
  note pf = scan_public_Inr [OF p] and kf = scan_parked_Inr [OF k]
  show "set (bsc_incomplete st') = set (bsc_incomplete st) \<union> (if entry_open e then {owner} else {})"
    using pf(1) kf(1) by simp
  show "set (bsc_interactions st) \<subseteq> set (bsc_interactions st')" using pf(2) kf(3) by simp
  show "distinct (bsc_interactions st) \<Longrightarrow> distinct (bsc_interactions st')" using pf(2) kf(4) by simp
  show "needs_input e \<Longrightarrow> \<exists>rec iid. be_suspended_call_record_id e = Some rec \<and> be_interaction_id e = Some iid
      \<and> (rec, iid) \<in> set (bsc_interactions st')" by (rule kf(5))
  show "distinct (map fst (bsc_public st)) \<Longrightarrow> distinct (map fst (bsc_public st'))" using pf(5) kf(2) by simp
  show "set (bsc_public st') = set (bsc_public st) \<union>
      {(pid, owner, policy (catalog_label r (be_tool_name e)), e) | pid. be_opaque_public_call_id e = Some pid}"
    using pf(6) kf(2) by simp
qed

lemma scan_entries_incomplete:
  "scan_entries policy r owner es st = Inr st' \<Longrightarrow>
     set (bsc_incomplete st') = set (bsc_incomplete st) \<union> (if list_ex entry_open es then {owner} else {})"
proof (induction es arbitrary: st)
  case (Cons e es)
  then obtain st1 where e: "scan_entry policy r owner e st = Inr st1" "scan_entries policy r owner es st1 = Inr st'"
    by (auto split: sum.splits)
  show ?case using scan_entry_facts(1) [OF e(1)] Cons.IH [OF e(2)] by simp
qed simp

lemma scan_entries_interactions:
  "scan_entries policy r owner es st = Inr st' \<Longrightarrow>
     set (bsc_interactions st) \<subseteq> set (bsc_interactions st')
     \<and> (distinct (bsc_interactions st) \<longrightarrow> distinct (bsc_interactions st'))
     \<and> (\<forall>e \<in> set es. needs_input e \<longrightarrow> (\<exists>rec iid. be_suspended_call_record_id e = Some rec
          \<and> be_interaction_id e = Some iid \<and> (rec, iid) \<in> set (bsc_interactions st')))"
proof (induction es arbitrary: st)
  case (Cons e es)
  then obtain st1 where e: "scan_entry policy r owner e st = Inr st1" "scan_entries policy r owner es st1 = Inr st'"
    by (auto split: sum.splits)
  show ?case using scan_entry_facts(2-4) [OF e(1)] Cons.IH [OF e(2)] by auto
qed simp

lemma scan_entries_public:
  "scan_entries policy r owner es st = Inr st' \<Longrightarrow>
     (distinct (map fst (bsc_public st)) \<longrightarrow> distinct (map fst (bsc_public st')))
     \<and> set (bsc_public st') = set (bsc_public st) \<union>
       {(pid, owner, policy (catalog_label r (be_tool_name e)), e) | pid e. e \<in> set es \<and> be_opaque_public_call_id e = Some pid}"
proof (induction es arbitrary: st)
  case (Cons e es)
  then obtain st1 where e: "scan_entry policy r owner e st = Inr st1" "scan_entries policy r owner es st1 = Inr st'"
    by (auto split: sum.splits)
  show ?case using scan_entry_facts(5,6) [OF e(1)] Cons.IH [OF e(2)] by auto
qed simp

section \<open>What the plan covers\<close>

definition batch_open :: "tool_batch \<Rightarrow> bool" where
  "batch_open b \<longleftrightarrow> \<not> tb_results_flushed b \<or> list_ex entry_open (tb_entries b)"

lemma sorted_entries_set [simp]: "set (sorted_entries b) = set (tb_entries b)"
  by (simp add: sorted_entries_def)

lemma list_ex_sorted [simp]: "list_ex P (sorted_entries b) = list_ex P (tb_entries b)"
  by (simp add: list_ex_iff)

lemma scan_batches_incomplete:
  "scan_batches policy r bs st = Inr st' \<Longrightarrow>
     set (bsc_incomplete st') = set (bsc_incomplete st) \<union> batch_turn_id ` {b \<in> set bs. batch_open b}"
proof (induction bs arbitrary: st)
  case (Cons b bs)
  then obtain st1 where b: "scan_entries policy r (batch_turn_id b) (sorted_entries b)
      (mark_incomplete (\<not> tb_results_flushed b) (batch_turn_id b) st) = Inr st1"
    "scan_batches policy r bs st1 = Inr st'"
    by (auto split: sum.splits)
  show ?case using scan_entries_incomplete [OF b(1)] Cons.IH [OF b(2)] by (auto simp: batch_open_def)
qed simp

lemma scan_batches_interactions:
  "scan_batches policy r bs st = Inr st' \<Longrightarrow>
     set (bsc_interactions st) \<subseteq> set (bsc_interactions st')
     \<and> (distinct (bsc_interactions st) \<longrightarrow> distinct (bsc_interactions st'))
     \<and> (\<forall>b \<in> set bs. \<forall>e \<in> set (tb_entries b). needs_input e \<longrightarrow> (\<exists>rec iid. be_suspended_call_record_id e = Some rec
          \<and> be_interaction_id e = Some iid \<and> (rec, iid) \<in> set (bsc_interactions st')))"
proof (induction bs arbitrary: st)
  case (Cons b bs)
  then obtain st1 where b: "scan_entries policy r (batch_turn_id b) (sorted_entries b)
      (mark_incomplete (\<not> tb_results_flushed b) (batch_turn_id b) st) = Inr st1"
    "scan_batches policy r bs st1 = Inr st'"
    by (auto split: sum.splits)
  show ?case using scan_entries_interactions [OF b(1)] Cons.IH [OF b(2)] by fastforce
qed simp

lemma scan_batches_public:
  "scan_batches policy r bs st = Inr st' \<Longrightarrow>
     (distinct (map fst (bsc_public st)) \<longrightarrow> distinct (map fst (bsc_public st')))
     \<and> set (bsc_public st') = set (bsc_public st) \<union>
       {(pid, batch_turn_id b, policy (catalog_label r (be_tool_name e)), e) | pid b e.
          b \<in> set bs \<and> e \<in> set (tb_entries b) \<and> be_opaque_public_call_id e = Some pid}"
proof (induction bs arbitrary: st)
  case (Cons b bs)
  then obtain st1 where b: "scan_entries policy r (batch_turn_id b) (sorted_entries b)
      (mark_incomplete (\<not> tb_results_flushed b) (batch_turn_id b) st) = Inr st1"
    "scan_batches policy r bs st1 = Inr st'"
    by (auto split: sum.splits)
  show ?case using scan_entries_public [OF b(1)] Cons.IH [OF b(2)] by auto
qed simp

text \<open>The Turn whose end a canonical record of the Run reports.\<close>

definition turn_end_of :: "run_state \<Rightarrow> json \<Rightarrow> string option" where
  "turn_end_of r rec =
     (let data = dict_get rec ''payload_public''; payload = dict_get data ''payload'' in
      if is_dict data \<and> dict_get data ''run_id'' = JStr (run_id r) \<and> is_dict payload
         \<and> dict_get data ''type'' = JStr ''turn_end''
      then nonempty_str (dict_get payload ''internal_turn_id'') else None)"

lemma scan_tool_end_Inr:
  assumes "scan_tool_end r bsc payload st = Inr st'"
  shows "rsc_closed st' = rsc_closed st"
    and "set (rsc_replayed st') - set (rsc_replayed st) \<subseteq> {pid. \<exists>owner label e.
      map_of (bsc_public bsc) pid = Some (owner, label, e) \<and> be_state e = EsTerminal \<and> \<not> be_public_terminal_emitted e}"
  using assms by (auto simp: scan_tool_end_def split: if_splits option.splits)

lemma scan_turn_end_Inr:
  assumes "scan_turn_end owner payload st = Inr st'"
  shows "fst ` set (rsc_closed st') = insert owner (fst ` set (rsc_closed st))"
    and "rsc_replayed st' = rsc_replayed st"
proof -
  have known: "map_of xs owner = Some y \<Longrightarrow> owner \<in> fst ` set xs" for xs :: "(string \<times> turn_closure) list" and y
    by (force dest: map_of_SomeD)
  show "fst ` set (rsc_closed st') = insert owner (fst ` set (rsc_closed st))"
    using assms known by (auto simp: scan_turn_end_def Let_def insert_absorb split: if_splits option.splits)
  show "rsc_replayed st' = rsc_replayed st"
    using assms by (auto simp: scan_turn_end_def Let_def split: if_splits option.splits)
qed

text \<open>A record leaves the scan alone or is a message end, a Tool end or a Turn end.\<close>

lemma scan_record_cases:
  assumes "scan_record r bsc rec st = Inr st'"
  shows "st' = st \<and> turn_end_of r rec = None
    \<or> (\<exists>m. st' = st\<lparr>rsc_messages := rsc_messages st @ [m]\<rparr>) \<and> turn_end_of r rec = None
    \<or> (\<exists>payload. scan_tool_end r bsc payload st = Inr st') \<and> turn_end_of r rec = None
    \<or> (\<exists>t payload. scan_turn_end t payload st = Inr st' \<and> turn_end_of r rec = Some t)"
proof -
  define data where "data = dict_get rec ''payload_public''"
  define kind where "kind = dict_get data ''type''"
  define payload where "payload = dict_get data ''payload''"
  define owner where "owner = nonempty_str (dict_get payload ''internal_turn_id'')"
  define te where "te = (JStr ''turn_end'')"
  define tl where "tl = (JStr ''tool_execution_end'')"
  define me where "me = (JStr ''message_end'')"
  have apart: "tl \<noteq> te" "me \<noteq> te" "tl \<noteq> me" by (simp_all add: te_def tl_def me_def)
  note d = data_def [symmetric] payload_def [symmetric] owner_def [symmetric] kind_def [symmetric]
    te_def [symmetric] tl_def [symmetric] me_def [symmetric]
  have e: "turn_end_of r rec = (if is_dict data \<and> dict_get data ''run_id'' = JStr (run_id r) \<and> is_dict payload
      \<and> kind = te then owner else None)"
    by (simp only: turn_end_of_def Let_def d)
  have f: "(if \<not> is_dict data \<or> dict_get data ''run_id'' \<noteq> JStr (run_id r) then Inr st
      else if \<not> is_dict payload then
        (if kind = tl then Inl (KernelConflict ''canonical Tool end payload is malformed'') else Inr st)
      else if kind = tl then scan_tool_end r bsc payload st
      else case owner of None \<Rightarrow> Inr st
      | Some t \<Rightarrow>
          if kind = me then
            (case nonempty_str (dict_get payload ''message_id'') of
               None \<Rightarrow> Inl (KernelConflict ''canonical message end has no identity'')
             | Some mid \<Rightarrow> Inr (st\<lparr>rsc_messages := rsc_messages st @ [(t, mid)]\<rparr>))
          else if kind = te then scan_turn_end t payload st else Inr st) = Inr st'"
    using assms by (simp only: scan_record_def Let_def d)
  consider (skip) "\<not> (is_dict data \<and> dict_get data ''run_id'' = JStr (run_id r) \<and> is_dict payload)"
    | (tool) "is_dict data" "dict_get data ''run_id'' = JStr (run_id r)" "is_dict payload" "kind = tl"
    | (other) "is_dict data" "dict_get data ''run_id'' = JStr (run_id r)" "is_dict payload" "kind \<noteq> tl"
    by blast
  then show ?thesis
  proof cases
    case skip
    have "st' = st" using f skip by (simp split: if_split_asm)
    moreover have "turn_end_of r rec = None" using e skip by auto
    ultimately show ?thesis by simp
  next
    case tool
    have "scan_tool_end r bsc payload st = Inr st'" using f tool by simp
    moreover have "turn_end_of r rec = None" using e tool apart by auto
    ultimately show ?thesis by blast
  next
    case other
    show ?thesis
    proof (cases owner)
      case None
      with f other have "st' = st" by simp
      moreover have "turn_end_of r rec = None" using e None by auto
      ultimately show ?thesis by simp
    next
      case (Some t)
      note g = f [unfolded Some option.case]
      show ?thesis
      proof (cases "kind = te")
        case True
        with g other apart have "scan_turn_end t payload st = Inr st'" by simp
        moreover have "turn_end_of r rec = Some t" using e other True Some by simp
        ultimately show ?thesis by blast
      next
        case False
        have "turn_end_of r rec = None" using e False by auto
        with g other False show ?thesis by (auto split: if_split_asm option.split_asm)
      qed
    qed
  qed
qed

lemma scan_record_Inr:
  assumes "scan_record r bsc rec st = Inr st'"
  shows "fst ` set (rsc_closed st') = fst ` set (rsc_closed st) \<union> set_option (turn_end_of r rec)"
    and "set (rsc_replayed st') - set (rsc_replayed st) \<subseteq> {pid. \<exists>owner label e.
      map_of (bsc_public bsc) pid = Some (owner, label, e) \<and> be_state e = EsTerminal \<and> \<not> be_public_terminal_emitted e}"
proof -
  note c = scan_record_cases [OF assms]
  show "fst ` set (rsc_closed st') = fst ` set (rsc_closed st) \<union> set_option (turn_end_of r rec)"
    using c by (elim disjE conjE exE) (simp, simp, drule scan_tool_end_Inr(1), simp,
      drule scan_turn_end_Inr(1), simp)
  show "set (rsc_replayed st') - set (rsc_replayed st) \<subseteq> {pid. \<exists>owner label e.
      map_of (bsc_public bsc) pid = Some (owner, label, e) \<and> be_state e = EsTerminal \<and> \<not> be_public_terminal_emitted e}"
    using c by (elim disjE conjE exE) (simp, simp, erule scan_tool_end_Inr(2), simp add: scan_turn_end_Inr(2))
qed

lemma scan_records_Inr:
  "scan_records r bsc recs st = Inr st' \<Longrightarrow>
     fst ` set (rsc_closed st') = fst ` set (rsc_closed st) \<union> {t. \<exists>rec \<in> set recs. turn_end_of r rec = Some t}"
proof (induction recs arbitrary: st)
  case (Cons rec recs)
  then obtain st1 where f: "scan_record r bsc rec st = Inr st1" "scan_records r bsc recs st1 = Inr st'"
    by (auto split: sum.splits)
  show ?case using scan_record_Inr(1) [OF f(1)] Cons.IH [OF f(2)] by (auto simp: set_eq_iff)
qed simp

lemma scan_records_replayed:
  "scan_records r bsc recs st = Inr st' \<Longrightarrow>
     set (rsc_replayed st') - set (rsc_replayed st) \<subseteq> {pid. \<exists>owner label e.
      map_of (bsc_public bsc) pid = Some (owner, label, e) \<and> be_state e = EsTerminal \<and> \<not> be_public_terminal_emitted e}"
proof (induction recs arbitrary: st)
  case (Cons rec recs)
  then obtain st1 where f: "scan_record r bsc rec st = Inr st1" "scan_records r bsc recs st1 = Inr st'"
    by (auto split: sum.splits)
  show ?case using scan_record_Inr(2) [OF f(1)] Cons.IH [OF f(2)] by fast
qed simp

lemma plan_turns_Inr:
  "plan_turns r rsc ts = Inr ps \<Longrightarrow>
     map tp_turn ps = ts \<and> (\<forall>p \<in> set ps. tp_public_ids p = turn_public_ids (turn_batches r (tp_turn p))
       \<and> Some (tp_message_id p) = closing_message r (turn_batches r (tp_turn p)) (tp_turn p)
       \<and> tp_emit_turn_end p = (map_of (rsc_closed rsc) (tp_turn p) = None))"
proof (induction ts arbitrary: ps)
  case (Cons t ts)
  then obtain p ps' where f: "plan_turn r rsc t = Inr p" "plan_turns r rsc ts = Inr ps'" "ps = p # ps'"
    by (auto split: sum.splits)
  have "tp_turn p = t \<and> tp_public_ids p = turn_public_ids (turn_batches r (tp_turn p))
      \<and> Some (tp_message_id p) = closing_message r (turn_batches r (tp_turn p)) (tp_turn p)
      \<and> tp_emit_turn_end p = (map_of (rsc_closed rsc) (tp_turn p) = None)"
    using f(1) by (auto simp: plan_turn_def Let_def split: option.splits if_split_asm)
  with Cons.IH [OF f(2)] f(3) show ?case by simp
qed simp

lemma terminal_closure_plan_Inr:
  assumes "terminal_closure_plan policy r recs reader = Inr plan"
  obtains bsc rsc where "scan_batches policy r (run_tool_batches r) empty_scan = Inr bsc"
    and "scan_records r bsc recs empty_records = Inr rsc"
    and "\<forall>t \<in> set (bsc_incomplete bsc). map_of (rsc_closed rsc) t = None"
    and "plan_turns r rsc (filter (turn_affected r bsc rsc reader) (ordered_turns r)) = Inr (cp_turns plan)"
    and "cp_interactions plan = bsc_interactions bsc" and "cp_replayed plan = rsc_replayed rsc"
  using assms unfolding terminal_closure_plan_def
  by (auto simp: list_ex_iff split: if_split_asm sum.split_asm)

text \<open>
  A plan covers the Run. When the check succeeds, the planned Turns are distinct; every batch that
is not finished (results not flushed, a child not terminal, or a public end not emitted) belongs to a
planned Turn whose \<open>turn_end\<close> no canonical record reports yet; each planned Turn lists exactly the
public call ids of its batches and emits its end iff no record reports it; every child that waits for
input has its interaction in the list to abandon, which has no duplicates; and every replayed id is that of
a terminal child whose public end was not marked as emitted.\<close>

theorem closure_plan_covers_run:
  assumes f: "terminal_closure_plan policy r recs reader = Inr plan"
  shows "distinct (map tp_turn (cp_turns plan))
    \<and> (\<forall>b \<in> set (run_tool_batches r). batch_open b \<longrightarrow> batch_turn_id b \<in> tp_turn ` set (cp_turns plan)
         \<and> (\<forall>rec \<in> set recs. turn_end_of r rec \<noteq> Some (batch_turn_id b)))
    \<and> (\<forall>p \<in> set (cp_turns plan). tp_public_ids p = turn_public_ids (turn_batches r (tp_turn p))
         \<and> (tp_emit_turn_end p \<longleftrightarrow> (\<forall>rec \<in> set recs. turn_end_of r rec \<noteq> Some (tp_turn p))))
    \<and> (\<forall>b \<in> set (run_tool_batches r). \<forall>e \<in> set (tb_entries b). needs_input e \<longrightarrow>
         (\<exists>rec iid. be_suspended_call_record_id e = Some rec \<and> be_interaction_id e = Some iid
            \<and> (rec, iid) \<in> set (cp_interactions plan)))
    \<and> distinct (cp_interactions plan)
    \<and> (\<forall>pid \<in> set (cp_replayed plan). \<exists>b \<in> set (run_tool_batches r). \<exists>e \<in> set (tb_entries b).
         be_opaque_public_call_id e = Some pid \<and> be_state e = EsTerminal \<and> \<not> be_public_terminal_emitted e)"
proof -
  from f obtain bsc rsc where bsc: "scan_batches policy r (run_tool_batches r) empty_scan = Inr bsc"
    and rsc: "scan_records r bsc recs empty_records = Inr rsc"
    and fresh: "\<forall>t \<in> set (bsc_incomplete bsc). map_of (rsc_closed rsc) t = None"
    and turns: "plan_turns r rsc (filter (turn_affected r bsc rsc reader) (ordered_turns r)) = Inr (cp_turns plan)"
    and ints: "cp_interactions plan = bsc_interactions bsc" and rep: "cp_replayed plan = rsc_replayed rsc"
    by (rule terminal_closure_plan_Inr)
  note pt = plan_turns_Inr [OF turns]
  have closed: "map_of (rsc_closed rsc) t = None \<longleftrightarrow> (\<forall>rec \<in> set recs. turn_end_of r rec \<noteq> Some t)" for t
    using scan_records_Inr [OF rsc] by (auto simp: map_of_eq_None_iff empty_records_def set_eq_iff)
  have dist: "distinct (ordered_turns r)" by (simp add: ordered_turns_def Let_def split: option.split)
  have turnset: "batch_turn_id ` set (run_tool_batches r) \<subseteq> set (ordered_turns r)"
    by (auto simp: ordered_turns_def Let_def split: option.split)
  have inc: "set (bsc_incomplete bsc) = batch_turn_id ` {b \<in> set (run_tool_batches r). batch_open b}"
    using scan_batches_incomplete [OF bsc] by (simp add: empty_scan_def)
  have planned: "tp_turn ` set (cp_turns plan) = set (filter (turn_affected r bsc rsc reader) (ordered_turns r))"
    using conjunct1 [OF pt] by (metis list.set_map)
  have 1: "distinct (map tp_turn (cp_turns plan))" using conjunct1 [OF pt] dist by simp
  have 2: "\<forall>b \<in> set (run_tool_batches r). batch_open b \<longrightarrow> batch_turn_id b \<in> tp_turn ` set (cp_turns plan)
         \<and> (\<forall>rec \<in> set recs. turn_end_of r rec \<noteq> Some (batch_turn_id b))"
  proof (intro ballI impI)
    fix b assume b: "b \<in> set (run_tool_batches r)" "batch_open b"
    then have t: "batch_turn_id b \<in> set (bsc_incomplete bsc)" by (auto simp: inc)
    moreover have "batch_turn_id b \<in> set (ordered_turns r)" using b turnset by auto
    ultimately have "batch_turn_id b \<in> tp_turn ` set (cp_turns plan)"
      unfolding planned by (simp add: turn_affected_def)
    with t fresh closed show "batch_turn_id b \<in> tp_turn ` set (cp_turns plan)
         \<and> (\<forall>rec \<in> set recs. turn_end_of r rec \<noteq> Some (batch_turn_id b))" by blast
  qed
  have 3: "\<forall>p \<in> set (cp_turns plan). tp_public_ids p = turn_public_ids (turn_batches r (tp_turn p))
         \<and> (tp_emit_turn_end p \<longleftrightarrow> (\<forall>rec \<in> set recs. turn_end_of r rec \<noteq> Some (tp_turn p)))"
    using conjunct2 [OF pt] closed by blast
  have 4: "\<forall>b \<in> set (run_tool_batches r). \<forall>e \<in> set (tb_entries b). needs_input e \<longrightarrow>
         (\<exists>rec iid. be_suspended_call_record_id e = Some rec \<and> be_interaction_id e = Some iid
            \<and> (rec, iid) \<in> set (cp_interactions plan))"
    unfolding ints using scan_batches_interactions [OF bsc] by blast
  have 5: "distinct (cp_interactions plan)"
    unfolding ints using scan_batches_interactions [OF bsc] by (simp add: empty_scan_def)
  have 6: "\<forall>pid \<in> set (cp_replayed plan). \<exists>b \<in> set (run_tool_batches r). \<exists>e \<in> set (tb_entries b).
         be_opaque_public_call_id e = Some pid \<and> be_state e = EsTerminal \<and> \<not> be_public_terminal_emitted e"
  proof
    fix pid assume "pid \<in> set (cp_replayed plan)"
    then obtain owner label e where m: "map_of (bsc_public bsc) pid = Some (owner, label, e)"
      and e: "be_state e = EsTerminal" "\<not> be_public_terminal_emitted e"
      using scan_records_replayed [OF rsc] by (auto simp: rep empty_records_def)
    have "set (bsc_public bsc) = {(pid, batch_turn_id b, policy (catalog_label r (be_tool_name e)), e) | pid b e.
          b \<in> set (run_tool_batches r) \<and> e \<in> set (tb_entries b) \<and> be_opaque_public_call_id e = Some pid}"
      using scan_batches_public [OF bsc] by (simp add: empty_scan_def)
    with map_of_SomeD [OF m] e show "\<exists>b \<in> set (run_tool_batches r). \<exists>e \<in> set (tb_entries b).
         be_opaque_public_call_id e = Some pid \<and> be_state e = EsTerminal \<and> \<not> be_public_terminal_emitted e"
      by auto
  qed
  show ?thesis using 1 2 3 4 5 6 by blast
qed

text \<open>The parked Run of the samples: its open Turn is planned once with both public ids, and the
question of the Agent is abandoned once although two children show it.\<close>

definition sample_closure :: closure_plan where
  "sample_closure = \<lparr>cp_turns = [\<lparr>tp_turn = ''t1'', tp_message_id = ''m3'', tp_public_ids = [''inv_1'', ''inv_2''],
     tp_emit_turn_end = True\<rparr>], cp_interactions = [(''rec'', ''q'')], cp_replayed = [], cp_active_message_end = None\<rparr>"

lemma sample_closure_planned: "terminal_closure_plan id sample_parked_run [] True = Inr sample_closure"
  by code_simp

theorem closure_plan_covers_run_witness:
  "terminal_closure_plan id sample_parked_run [] True = Inr sample_closure
   \<and> distinct (map tp_turn (cp_turns sample_closure)) \<and> distinct (cp_interactions sample_closure)"
  using sample_closure_planned closure_plan_covers_run [OF sample_closure_planned] by blast

end
