(* ===== verification/Kernel_Terminate.thy ===== *)
theory Kernel_Terminate
  imports Kernel_Closure Kernel_Steps Outbox_Worker
begin

text \<open>
  How the kernel ends a Run: \<open>_close_active_attempt\<close> closes every open descendant, \<open>_terminate\<close>
  commits a failed, canceled or exhausted Run after it, \<open>_complete\<close> commits a finished one, and
  \<open>_finalize_canonical_answer\<close> abandons the unused questions and publishes the final answer first.

  The services the kernel calls are parameters, of the number of awaited calls made so far: the
  reader of the canonical room records, \<open>abandon_parked_interaction\<close> of the Tool runtime, the label
  policy and the identifier factory. \<open>sv_repr\<close> is Python's \<open>repr\<close> of a string.
\<close>

section \<open>The services\<close>

type_synonym record_reader = "nat \<Rightarrow> string \<Rightarrow> string \<Rightarrow> kernel_exn + json list"

record kernel_services =
  sv_reader :: "record_reader option"
  sv_abandon :: "nat \<Rightarrow> string \<Rightarrow> string \<Rightarrow> kernel_exn + parked_closeout"
  sv_policy :: "string \<Rightarrow> string"
  sv_new_id :: "nat \<Rightarrow> string \<Rightarrow> string"
  sv_json_time :: "datetime \<Rightarrow> string"
  sv_repr :: "string \<Rightarrow> string"

definition external :: "(nat \<Rightarrow> kernel_exn + 'a) \<Rightarrow> 'a action" where
  "external f w = (f (kw_tick w), w\<lparr>kw_tick := Suc (kw_tick w)\<rparr>)"

definition lift_error :: "kernel_error + 'a \<Rightarrow> 'a action" where
  "lift_error x = (case x of Inl e \<Rightarrow> raises (KernelRaised e) | Inr y \<Rightarrow> returns y)"

definition new_id :: "kernel_services \<Rightarrow> string \<Rightarrow> string action" where
  "new_id sv prefix = external (\<lambda>t. Inr (sv_new_id sv t prefix))"

definition read_records :: "kernel_services \<Rightarrow> run_state \<Rightarrow> json list action" where
  "read_records sv r = (case sv_reader sv of
      None \<Rightarrow> returns []
    | Some f \<Rightarrow> external (\<lambda>t. f t (run_conversation_id r) (run_id r)))"

text \<open>The settlement by the projection driver, whose two store calls are awaited like the kernel's.\<close>

definition settle :: "kernel_env \<Rightarrow> string \<Rightarrow> run_state action" where
  "settle env rid = andthen now_is (\<lambda>now w.
     case driver_settle (kn_sort_key env) rid now \<lparr>ow_store = kw_store w,
         ow_others = [kw_others w (kw_tick w), kw_others w (Suc (kw_tick w))],
         ow_projected = [], ow_notified = []\<rparr> of (res, ow) \<Rightarrow>
       ((case res of Inr x \<Rightarrow> Inr x
         | Inl (MissingRun m) \<Rightarrow> Inl (KernelRaised (MissingKey m))
         | Inl (StoreRaised e) \<Rightarrow> Inl (StoreFailed e)),
        w\<lparr>kw_store := ow_store ow, kw_tick := Suc (Suc (kw_tick w))\<rparr>))"

section \<open>Closing an attempt\<close>

datatype disposition = DispError | DispAborted

definition disposition_name :: "disposition \<Rightarrow> string" where
  "disposition_name d = (case d of DispError \<Rightarrow> ''error'' | DispAborted \<Rightarrow> ''aborted'')"

type_synonym closeouts = "((string \<times> string) \<times> parked_closeout) list"

definition abandon_all :: "kernel_services \<Rightarrow> (string \<times> string) list \<Rightarrow> closeouts action" where
  "abandon_all sv ints = for_each (\<lambda>(rec, iid) cs.
     andthen (external (\<lambda>t. sv_abandon sv t rec iid)) (\<lambda>c. returns (cs @ [((rec, iid), c)]))) ints []"

text \<open>A Tool end that is in the room but not in the Run is marked as emitted.\<close>

definition mark_replayed :: "kernel_env \<Rightarrow> string \<Rightarrow> run_state \<Rightarrow> run_state action" where
  "mark_replayed env pid r =
     (case List.find (\<lambda>(i, j, e). be_opaque_public_call_id e = Some pid) (positions (run_tool_batches r)) of
        None \<Rightarrow> conflict ''canonical Tool end child disappeared''
      | Some (i, j, e) \<Rightarrow> (case be_buffered_terminal_result e of
          None \<Rightarrow> raises (KernelRaised AssertionFailed)
        | Some x \<Rightarrow> update_entry env r i j
            ((keep_patch EsTerminal (Some x))\<lparr>ep_public_terminal_emitted := Some True\<rparr>)
            (''recover-public-tool-end:'' @ pid)))"

definition message_end_payload ::
  "disposition \<Rightarrow> string \<Rightarrow> run_state \<Rightarrow> string \<times> string \<Rightarrow> (string \<times> json) list" where
  "message_end_payload d summary r = (\<lambda>(owner, mid).
     [(''public_event_id'', JStr (''public:'' @ run_id r @ '':'' @ owner @ '':'' @ mid @ '':message_end'')),
      (''internal_turn_id'', JStr owner), (''message_id'', JStr mid),
      (''stop_reason'', JStr (disposition_name d)), (''disposition'', JStr (disposition_name d)),
      (''text'', JStr (run_active_public_text r))]
     @ (if d = DispError then [(''error_summary'', JStr summary)] else []))"

definition end_active_message ::
  "disposition \<Rightarrow> string \<Rightarrow> (string \<times> string) option \<Rightarrow> run_state \<Rightarrow> unit action" where
  "end_active_message d summary m r = (case m of
      None \<Rightarrow> returns ()
    | Some om \<Rightarrow> emits ''message_completed'' (message_end_payload d summary r om))"

definition publish_all_terminals :: "kernel_env \<Rightarrow> run_state \<Rightarrow> run_state action" where
  "publish_all_terminals env r = for_each (\<lambda>i x. publish_checkpointed_tool_terminals env x i
     (batch_turn_id (run_tool_batches x ! i))) [0..<length (run_tool_batches r)] r"

definition parked_identity :: "batch_entry \<Rightarrow> (string \<times> string) option" where
  "parked_identity e = (if \<not> needs_input e then None
     else case (be_suspended_call_record_id e, be_interaction_id e) of
       (Some rec, Some iid) \<Rightarrow> Some (rec, iid) | _ \<Rightarrow> None)"

text \<open>The result of an open child: the Agent's own when its interaction was closed, else a synthetic one.\<close>

definition closing_result :: "disposition \<Rightarrow> closeouts \<Rightarrow> batch_entry \<Rightarrow> kernel_error + tool_result" where
  "closing_result d cs e = (case parked_identity e of
      Some p \<Rightarrow> (case map_of cs p of
          None \<Rightarrow> Inl (MissingKey (snd p))
        | Some c \<Rightarrow> parked_closeout_result e c)
    | None \<Rightarrow> Inr
       \<lparr>tr_call_id = be_call_id e, tr_tool_name = be_tool_name e,
        tr_status = (if d = DispAborted then ResCanceled else ResFailed), tr_content = [],
        tr_artifact_refs = [],
        tr_error_code = Some (if d = DispAborted then ''run_canceled''
          else if be_opaque_public_call_id e \<noteq> None then ''run_failed''
          else ''skipped_due_to_run_terminal''),
        tr_error_message = None\<rparr>)"

definition close_entry ::
  "kernel_env \<Rightarrow> disposition \<Rightarrow> closeouts \<Rightarrow> string \<Rightarrow> nat \<Rightarrow> nat \<Rightarrow> run_state \<Rightarrow> run_state action" where
  "close_entry env d cs owner i j r =
     (let e = entry_at r i j in
      if be_state e = EsTerminal then returns r
      else if be_acceptance e \<noteq> None \<and> be_opaque_public_call_id e = None
        then conflict ''accepted Tool child has no canonical public identity''
      else andthen (lift_error (closing_result d cs e)) (\<lambda>x.
        andthen (update_entry env r i j (keep_patch EsTerminal (Some x))
            (''public-close-tool:'' @ be_call_id e @ '':'' @ disposition_name d)) (\<lambda>r1.
          if be_opaque_public_call_id e = None then returns r1
          else andthen (emits ''tool_execution_completed'' (tool_end_fields env r1 e x owner [])) (\<lambda>_.
            update_entry env r1 i j
              ((keep_patch EsTerminal (Some x))\<lparr>ep_public_terminal_emitted := Some True\<rparr>)
              (''public-close-tool-emitted:'' @ be_call_id e)))))"

definition close_entries :: "kernel_env \<Rightarrow> disposition \<Rightarrow> closeouts \<Rightarrow> run_state \<Rightarrow> run_state action" where
  "close_entries env d cs r = for_each (\<lambda>i x. for_each
       (close_entry env d cs (batch_turn_id (run_tool_batches x ! i)) i)
       [0..<length (tb_entries (run_tool_batches x ! i))] x)
     [0..<length (run_tool_batches r)] r"

definition flush_closed :: "kernel_env \<Rightarrow> string \<Rightarrow> string \<Rightarrow> nat \<Rightarrow> run_state \<Rightarrow> run_state action" where
  "flush_closed env command left i r =
     (let b = run_tool_batches r ! i in
      if tb_results_flushed b then returns r
      else if \<not> all_terminal b then conflict left
      else andthen now_is (\<lambda>now. andthen (lift_error (flush_batch (run_transcript r) b now)) (\<lambda>(tr, b').
        checkpoint env r (\<lambda>x. x\<lparr>run_tool_batches := (run_tool_batches x)[i := b'], run_transcript := tr\<rparr>)
          (command @ tb_assistant_message_id b))))"

definition flush_all_closed :: "kernel_env \<Rightarrow> string \<Rightarrow> string \<Rightarrow> run_state \<Rightarrow> run_state action" where
  "flush_all_closed env command left r =
     for_each (flush_closed env command left) [0..<length (run_tool_batches r)] r"

definition planned_closure :: "turn_plan \<Rightarrow> turn_closure" where
  "planned_closure p = \<lparr>tcl_message_id = tp_message_id p, tcl_public_ids = tp_public_ids p\<rparr>"

definition turn_end_payload :: "run_state \<Rightarrow> string \<Rightarrow> turn_plan \<Rightarrow> (string \<times> json) list" where
  "turn_end_payload r status p =
     [(''public_event_id'', JStr (''public:'' @ run_id r @ '':'' @ tp_turn p @ '':turn_end:'' @ status)),
      (''internal_turn_id'', JStr (tp_turn p)), (''message_id'', JStr (tp_message_id p)),
      (''tool_call_ids'', JArr (map JStr (tp_public_ids p))), (''status'', JStr status)]"

definition end_planned_turn :: "disposition \<Rightarrow> run_state \<Rightarrow> turn_plan \<Rightarrow> unit \<Rightarrow> unit action" where
  "end_planned_turn d r p _ =
     (if canonical_turn_closure r (tp_turn p) \<noteq> Some (planned_closure p)
      then conflict ''canonical turn closure inventory changed''
      else if \<not> tp_emit_turn_end p then returns ()
      else emits ''turn_completed'' (turn_end_payload r (disposition_name d) p))"

definition clear_active :: "run_state \<Rightarrow> run_state" where
  "clear_active r = r\<lparr>run_active_internal_turn_id := None, run_active_assistant_message_id := None,
     run_active_attempt := None, run_active_public_text := [], run_greatest_public_text_offset := 0\<rparr>"

definition clear_active_attempt :: "kernel_env \<Rightarrow> disposition \<Rightarrow> string option \<Rightarrow> run_state \<Rightarrow> run_state action" where
  "clear_active_attempt env d turn r =
     (if truthy_str (run_active_internal_turn_id r) \<or> active_remnants r
      then checkpoint env r clear_active
        (''public-close-attempt:'' @ (if truthy_str turn then or_empty turn else ''orphaned'')
          @ '':'' @ disposition_name d)
      else returns r)"

text \<open>After the plan: \<open>closed_turn\<close> is the Turn the caller may schedule a retry for.\<close>

definition closed_turn :: "string option \<Rightarrow> closure_plan \<Rightarrow> string option" where
  "closed_turn turn plan = (if truthy_str turn then turn
     else if cp_turns plan = [] then None else Some (tp_turn (last (cp_turns plan))))"

definition carry_out ::
  "kernel_env \<Rightarrow> kernel_services \<Rightarrow> disposition \<Rightarrow> string \<Rightarrow> closure_plan \<Rightarrow> run_state
     \<Rightarrow> (run_state \<times> string option) action" where
  "carry_out env sv d summary plan r =
     andthen (abandon_all sv (cp_interactions plan)) (\<lambda>cs.
     andthen (for_each (mark_replayed env) (cp_replayed plan) r) (\<lambda>r1.
     andthen (end_active_message d summary (cp_active_message_end plan) r1) (\<lambda>_.
     andthen (publish_all_terminals env r1) (\<lambda>r2.
     andthen (close_entries env d cs r2) (\<lambda>r3.
     andthen (flush_all_closed env ''public-flush-closed-batch:'' ''terminal Tool sweep left an open entry'' r3) (\<lambda>r4.
       if \<not> terminal_closure_is_complete r4 then conflict ''terminal Tool closure invariant is incomplete''
       else andthen (for_each (end_planned_turn d r4) (cp_turns plan) ()) (\<lambda>_.
         andthen (clear_active_attempt env d (run_active_internal_turn_id r) r4) (\<lambda>r5.
           returns (r5, closed_turn (run_active_internal_turn_id r) plan)))))))))"

definition close_active_attempt ::
  "kernel_env \<Rightarrow> kernel_services \<Rightarrow> disposition \<Rightarrow> string \<Rightarrow> run_state \<Rightarrow> (run_state \<times> string option) action" where
  "close_active_attempt env sv d summary r =
     andthen (read_records sv r) (\<lambda>recs.
     andthen (lift_error (terminal_closure_plan (sv_policy sv) r recs (sv_reader sv \<noteq> None))) (\<lambda>plan.
       carry_out env sv d summary plan r))"

section \<open>The other terminal statuses\<close>

type_synonym kernel_result = "kernel_outcome \<times> run_state"

definition is_value_error :: "kernel_exn \<Rightarrow> bool" where
  "is_value_error e = (case e of
      KernelRaised (InvalidValue _) \<Rightarrow> True
    | StoreFailed (ValidationFailed _) \<Rightarrow> True
    | BudgetRaised (BudgetValueError _) \<Rightarrow> True
    | _ \<Rightarrow> False)"

definition rejected_publication :: "'a action \<Rightarrow> 'a action" where
  "rejected_publication m w = (case m w of
      (Inl e, w') \<Rightarrow> if is_value_error e
        then conflict ''canonical terminal lifecycle publication rejected'' w' else (Inl e, w')
    | res \<Rightarrow> res)"

definition next_event_sequence :: "run_state \<Rightarrow> int" where
  "next_event_sequence r = max_default 0 (map pi_event_sequence (run_projection_outbox r)) + 1"

definition termination_request ::
  "kernel_services \<Rightarrow> run_state \<Rightarrow> terminal_failure \<Rightarrow> string \<Rightarrow> cancellation_cause option \<Rightarrow> status_request action"
  where
  "termination_request sv r status reason cause =
     andthen (new_id sv ''event'') (\<lambda>ev. andthen (new_id sv ''intent-event'') (\<lambda>ie.
     andthen (new_id sv ''intent-run'') (\<lambda>ir. andthen now_is (\<lambda>now.
       let q = \<lparr>sq_expected_state_version = run_state_version r,
          sq_command_id = ''terminate:'' @ status_name (failure_status status) @ '':'' @ run_id r
            @ '':'' @ show_int (run_state_version r),
          sq_event_id = ev, sq_event_sequence = next_event_sequence r, sq_event_intent_id = ie,
          sq_public_run_intent_id = ir, sq_public_run_target = run_id r, sq_status = status,
          sq_terminal_reason = reason,
          sq_cancellation_cause = (if status = TfCanceled then Some (or_keep cause UserRequested) else None),
          sq_correlation_id = None, sq_created_at = now\<rparr> in
       case status_request_error q of
         Some m \<Rightarrow> raises (KernelRaised (InvalidValue m)) | None \<Rightarrow> returns q))))"

text \<open>The store call of a commit and what is made of its answer.\<close>

definition store_commit ::
  "kernel_env \<Rightarrow> string \<Rightarrow> bool \<Rightarrow> kernel_outcome \<Rightarrow> run_state \<Rightarrow> int \<Rightarrow> string \<Rightarrow> kernel_result action" where
  "store_commit env what canceling oc won expected cmd =
     andthen (await_store env (\<lambda>s. cas_now s won expected cmd)) (\<lambda>ans. case ans of
        (_, None) \<Rightarrow> conflict (what @ '' failed'')
      | (res, Some x) \<Rightarrow>
          if res = Accepted \<or> res = Replayed
          then andthen (settle env (run_id won)) (\<lambda>y. returns (oc, y))
          else if run_st x = Canceling \<and> canceling then returns (OutCancellationPending, x)
          else conflict (what @ '' lost''))"

definition commit_status ::
  "kernel_env \<Rightarrow> kernel_services \<Rightarrow> terminal_failure \<Rightarrow> run_state \<Rightarrow> status_request \<Rightarrow> kernel_result action" where
  "commit_status env sv status r q = (case commit_terminal_status (sv_json_time sv) r q of
      (Accepted, won, _) \<Rightarrow> store_commit env ''terminal status store CAS'' (status \<noteq> TfCanceled)
          (outcome_for_status (failure_status status)) won (run_state_version r) (sq_command_id q)
    | _ \<Rightarrow> conflict ''terminal status CAS rejected'')"

definition close_summary :: "string \<Rightarrow> string" where
  "close_summary reason = (if reason = ''public_text_oversized''
     then ''The response exceeded its safe public output limit.'' else ''The request could not be completed.'')"

definition terminate ::
  "kernel_env \<Rightarrow> kernel_services \<Rightarrow> string \<Rightarrow> terminal_failure \<Rightarrow> string \<Rightarrow> cancellation_cause option
     \<Rightarrow> kernel_result action" where
  "terminate env sv rid status reason cause =
     andthen (load_run env rid) (\<lambda>cur.
       if run_st cur = Canceling \<and> status \<noteq> TfCanceled then returns (OutCancellationPending, cur)
       else if is_terminal_status (run_st cur) then returns (outcome_for_status (run_st cur), cur)
       else andthen (rejected_publication (close_active_attempt env sv
               (if status = TfCanceled then DispAborted else DispError) (close_summary reason) cur)) (\<lambda>(r, _).
         if \<not> terminal_closure_is_complete r then conflict ''terminal Tool closure invariant is incomplete''
         else andthen (termination_request sv r status reason cause) (commit_status env sv status r)))"

section \<open>Completion\<close>

text \<open>The sentence of \<open>settlement.py\<close> for each reason.\<close>

definition reason_text :: "(string \<Rightarrow> string) \<Rightarrow> decision_reason \<Rightarrow> string" where
  "reason_text repr x = (case x of
      CancellationAlreadyWon \<Rightarrow> ''cancellation already won''
    | RunAlreadyTerminal \<Rightarrow> ''Run is already terminal''
    | FinalMessageNotPending \<Rightarrow> ''stable final message is not part of the pending aggregate''
    | UserInteractionPending \<Rightarrow> ''user interaction remains pending''
    | ToolEntryActive \<Rightarrow> ''ToolBatch entry remains active''
    | PublicTerminalNotDurable \<Rightarrow> ''an accepted Tool public terminal is not durable''
    | ObservationNotPersisted \<Rightarrow> ''a required terminal call observation is not persisted''
    | ArtifactUndeliverable ref \<Rightarrow> ''artifact '' @ repr ref @ '' is missing, foreign, or undeliverable''
    | CompletionGatesPass \<Rightarrow> ''completion gates pass''
    | CommandAlreadyApplied \<Rightarrow> ''command already applied''
    | StateVersionChanged \<Rightarrow> ''state version changed''
    | IdentityAllocated \<Rightarrow> ''terminal event or intent identity is already allocated''
    | InconsistentSequences \<Rightarrow> ''existing event identity has inconsistent sequences''
    | SequenceAllocatedTwice \<Rightarrow> ''existing event sequence is allocated more than once''
    | ExpectedTerminalSequence n \<Rightarrow> ''expected terminal event sequence '' @ show_int n)"

definition completion_request :: "kernel_services \<Rightarrow> run_state \<Rightarrow> assistant_message \<Rightarrow> commit_request action" where
  "completion_request sv r a =
     andthen (new_id sv ''event'') (\<lambda>ev. andthen (new_id sv ''intent-event'') (\<lambda>ie.
     andthen (new_id sv ''intent-message'') (\<lambda>im. andthen (new_id sv ''intent-run'') (\<lambda>ir.
     andthen now_is (\<lambda>now.
       if run_state_version r < 0 \<or> next_event_sequence r \<le> 0
       then raises (KernelRaised (InvalidValue ''terminal commit request''))
       else returns \<lparr>cq_expected_state_version = run_state_version r,
         cq_command_id = ''complete:'' @ run_id r @ '':'' @ am_message_id a, cq_event_id = ev,
         cq_event_sequence = next_event_sequence r, cq_event_intent_id = ie,
         cq_final_message_intent_id = im, cq_public_run_intent_id = ir,
         cq_final_message_target = run_conversation_id r, cq_public_run_target = run_id r,
         cq_terminal_reason = ''completed'', cq_correlation_id = None, cq_created_at = now\<rparr>)))))"

definition completion_facts :: "assistant_message \<Rightarrow> terminal_facts" where
  "completion_facts a = \<lparr>tf_final_message_id = am_message_id a, tf_terminal_observations_persisted = True,
     tf_cancellation_won = False, tf_artifact_checks = []\<rparr>"

definition commit_completion ::
  "kernel_env \<Rightarrow> kernel_services \<Rightarrow> run_state \<Rightarrow> assistant_message \<Rightarrow> commit_request \<Rightarrow> kernel_result action" where
  "commit_completion env sv r a q =
     (let c = commit_terminal_decision (sv_json_time sv) r (completion_facts a) q in
      if cres_outcome c \<noteq> Accepted
      then terminate env sv (run_id r) TfFailed (reason_text (sv_repr sv) (de_reason (cres_evaluation c))) None
      else store_commit env ''terminal completion CAS'' True FinalAnswer (cres_run c)
        (run_state_version r) (cq_command_id q))"

definition complete :: "kernel_env \<Rightarrow> kernel_services \<Rightarrow> run_state \<Rightarrow> assistant_message \<Rightarrow> kernel_result action" where
  "complete env sv r a = andthen (completion_request sv r a) (commit_completion env sv r a)"

section \<open>The final answer\<close>

definition final_guard :: "run_state \<Rightarrow> assistant_message \<Rightarrow> kernel_error + string" where
  "final_guard r a =
     (if am_tool_calls a \<noteq> [] then Inl (KernelConflict ''canonical finalization requires a no-tool answer'')
      else if run_proposed_final_message_id r \<noteq> Some (am_message_id a)
        then Inl (KernelConflict ''canonical finalization candidate does not correlate'')
      else case run_active_internal_turn_id r of
        None \<Rightarrow> Inl (KernelConflict ''canonical finalization has no active Turn'')
      | Some turn \<Rightarrow>
          if run_active_assistant_message_id r \<noteq> Some (am_message_id a)
            then Inl (KernelConflict ''canonical finalization has no active message'')
          else case List.find (\<lambda>e. be_state e \<noteq> EsTerminal
              \<and> \<not> (needs_input e \<and> truthy_str (be_suspended_call_record_id e) \<and> truthy_str (be_interaction_id e)))
              (run_entries r) of
            None \<Rightarrow> Inr turn
          | Some e \<Rightarrow> Inl (KernelConflict (if \<not> needs_input e
              then ''canonical finalization retained a non-parked Tool child''
              else ''canonical finalization found incomplete parked ownership'')))"

definition abandon_entry ::
  "kernel_env \<Rightarrow> string \<Rightarrow> closeouts \<Rightarrow> nat \<Rightarrow> nat \<Rightarrow> run_state \<Rightarrow> run_state action" where
  "abandon_entry env mid cs i j r =
     (let e = entry_at r i j in
      if be_state e = EsTerminal then returns r
      else case (be_suspended_call_record_id e, be_interaction_id e) of
        (Some rec, Some iid) \<Rightarrow> (case map_of cs (rec, iid) of
            None \<Rightarrow> raises (KernelRaised (MissingKey iid))
          | Some c \<Rightarrow> andthen (lift_error (parked_closeout_result e c)) (\<lambda>x.
              update_entry env r i j (keep_patch EsTerminal (Some x))
                (''final-abandon-tool:'' @ mid @ '':'' @ be_call_id e)))
      | _ \<Rightarrow> raises (KernelRaised AssertionFailed))"

definition abandon_entries :: "kernel_env \<Rightarrow> string \<Rightarrow> closeouts \<Rightarrow> run_state \<Rightarrow> run_state action" where
  "abandon_entries env mid cs r = for_each (\<lambda>i x. for_each (abandon_entry env mid cs i)
       [0..<length (tb_entries (run_tool_batches x ! i))] x) [0..<length (run_tool_batches r)] r"

text \<open>The ends of the other Turns; the plan of the active one is kept for later.\<close>

definition end_other_turn ::
  "run_state \<Rightarrow> string \<Rightarrow> turn_plan \<Rightarrow> turn_plan option \<Rightarrow> turn_plan option action" where
  "end_other_turn r turn p active =
     (if canonical_turn_closure r (tp_turn p) \<noteq> Some (planned_closure p)
      then conflict ''canonical final Turn inventory changed''
      else if tp_turn p = turn then returns (Some p)
      else if tp_emit_turn_end p
        then andthen (emits ''turn_completed'' (turn_end_payload r ''completed'' p)) (\<lambda>_. returns active)
      else returns active)"

definition final_message_payload :: "run_state \<Rightarrow> string \<Rightarrow> assistant_message \<Rightarrow> (string \<times> json) list" where
  "final_message_payload r turn a =
     [(''public_event_id'', JStr (''public:'' @ run_id r @ '':'' @ turn @ '':'' @ am_message_id a @ '':message_end'')),
      (''internal_turn_id'', JStr turn), (''message_id'', JStr (am_message_id a)),
      (''stop_reason'', JStr ''stop''), (''disposition'', JStr ''final''),
      (''text'', JStr (assistant_text a))]"

definition publish_final ::
  "kernel_env \<Rightarrow> kernel_services \<Rightarrow> run_state \<Rightarrow> string \<Rightarrow> assistant_message \<Rightarrow> turn_plan option \<Rightarrow> kernel_result action"
  where
  "publish_final env sv r turn a active = (case active of
      None \<Rightarrow> conflict ''canonical final Turn is absent from closeout plan''
    | Some p \<Rightarrow>
        if tp_message_id p \<noteq> am_message_id a
        then conflict ''canonical final Turn is absent from closeout plan''
        else andthen (emits ''message_completed'' (final_message_payload r turn a)) (\<lambda>_.
          andthen (if tp_emit_turn_end p then emits ''turn_completed'' (turn_end_payload r ''completed'' p)
                   else returns ()) (\<lambda>_.
          andthen (checkpoint env r clear_active (''public-final-turn-end:'' @ turn)) (\<lambda>r'.
            complete env sv r' a))))"

definition finalize_canonical_answer ::
  "kernel_env \<Rightarrow> kernel_services \<Rightarrow> run_state \<Rightarrow> assistant_message \<Rightarrow> kernel_result action" where
  "finalize_canonical_answer env sv r a =
     andthen (lift_error (final_guard r a)) (\<lambda>turn.
     andthen (read_records sv r) (\<lambda>recs.
     andthen (lift_error (terminal_closure_plan (sv_policy sv) r recs (sv_reader sv \<noteq> None))) (\<lambda>plan.
     andthen (abandon_all sv (cp_interactions plan)) (\<lambda>cs.
     andthen (abandon_entries env (am_message_id a) cs r) (\<lambda>r1.
     andthen (publish_all_terminals env r1) (\<lambda>r2.
     andthen (flush_all_closed env ''final-flush-batch:'' ''canonical finalization left an open Tool child'' r2) (\<lambda>r3.
       if \<not> terminal_closure_is_complete r3 then conflict ''canonical final Tool closure is incomplete''
       else andthen (for_each (end_other_turn r3 turn) (cp_turns plan) None) (\<lambda>active.
         publish_final env sv r3 turn a active))))))))"

end
