(* ===== verification/Kernel_Order.thy ===== *)
theory Kernel_Order
  imports Kernel_Terminate Kernel_Atomicity
begin

text \<open>
  What every method of the kernel does to its world: a preorder on worlds that the primitive actions
  respect is respected by all methods composed of them. The locale is interpreted twice: the store
  only moves on through sound stores, and the emitted events are only extended.
\<close>

section \<open>The contract\<close>

locale world_order =
  fixes le :: "kernel_world \<Rightarrow> kernel_world \<Rightarrow> bool"
  assumes le_refl: "le w w"
    and le_trans: "le u v \<Longrightarrow> le v w \<Longrightarrow> le u w"
    and le_tick: "le w (w\<lparr>kw_tick := Suc (kw_tick w)\<rparr>)"
    and le_emits: "le w (snd (emits k p w))"
    and le_load: "le w (snd (await_store env (\<lambda>s. (load s rid, s)) w))"
    and le_cas: "le w (snd (await_store env (\<lambda>s. cas_now s r e cmd) w))"
    and le_settle: "le w (snd (settle env rid w))"

definition onward :: "(kernel_world \<Rightarrow> kernel_world \<Rightarrow> bool) \<Rightarrow> 'a action \<Rightarrow> bool" where
  "onward le m \<longleftrightarrow> (\<forall>w. le w (snd (m w)))"

context world_order begin

lemma onward_pure [intro!]:
  "onward le (returns x)" "onward le (raises e)" "onward le (conflict s)" "onward le (lift_error y)"
  "onward le (checkpoint_failed cmd oc)"
  by (simp_all add: onward_def returns_def raises_def conflict_def lift_error_def checkpoint_failed_def
      le_refl split: sum.split)

lemma onward_primitive [intro!]:
  "onward le now_is" "onward le (external f)" "onward le (emits k p)" "onward le (settle env rid)"
  "onward le (await_store env (\<lambda>s. (load s i, s)))" "onward le (await_store env (\<lambda>s. cas_now s r e cmd))"
  using le_tick le_emits le_load le_cas le_settle
  by (simp_all add: onward_def now_is_def external_def)

lemma onward_andthen [intro!]:
  assumes "onward le m" and "\<And>x. onward le (k x)"
  shows "onward le (andthen m k)"
proof -
  have "le w (snd (andthen m k w))" for w
  proof -
    obtain r w' where m: "m w = (r, w')" by force
    with assms(1) have "le w w'" by (auto simp: onward_def dest: spec [of _ w])
    moreover have "le w' (snd (k x w'))" for x using assms(2) by (simp add: onward_def)
    ultimately show ?thesis using m le_trans by (cases r) (auto simp: andthen_def)
  qed
  then show ?thesis by (simp add: onward_def)
qed

lemma onward_for_each [intro!]: "(\<And>x s. onward le (body x s)) \<Longrightarrow> onward le (for_each body xs s)"
  by (induction xs arbitrary: s) auto

lemma onward_on_conflict [intro!]:
  assumes "onward le m" and "onward le h"
  shows "onward le (on_conflict m h)"
proof -
  have "le w (snd (on_conflict m h w))" for w
  proof -
    obtain r w' where m: "m w = (r, w')" by force
    have 1: "le w w'" using assms(1) m by (auto simp: onward_def dest: spec [of _ w])
    have 2: "le w' (snd (h w'))" using assms(2) by (simp add: onward_def)
    show ?thesis using m 1 le_trans [OF 1 2]
      by (auto simp: on_conflict_def split: sum.split kernel_exn.split kernel_error.split)
  qed
  then show ?thesis by (simp add: onward_def)
qed

lemma onward_rejected [intro!]:
  assumes "onward le m"
  shows "onward le (rejected_publication m)"
proof -
  have "snd (rejected_publication m w) = snd (m w)" for w
    by (simp add: rejected_publication_def conflict_def raises_def split: prod.split sum.split)
  with assms show ?thesis by (simp add: onward_def)
qed

text \<open>The methods.\<close>

lemma onward_load [intro!]: "onward le (load_run env rid)"
  unfolding load_run_def by (intro onward_andthen onward_primitive) (auto split: option.split)

lemma onward_checkpoint_reply [intro!]: "onward le (checkpoint_reply env r cmd ans)"
  unfolding checkpoint_reply_def by (auto split: prod.split outcome.split option.split)

lemma onward_checkpoint [intro!]: "onward le (checkpoint env r upd cmd)"
  unfolding checkpoint_def by (intro onward_andthen onward_primitive onward_checkpoint_reply)

lemma onward_update_entry [intro!]: "onward le (update_entry env r i j p cmd)"
  unfolding update_entry_def Let_def by (auto split: option.split)

lemma onward_publish [intro!]: "onward le (publish_checkpointed_tool_terminals env r i turn)"
  unfolding publish_checkpointed_tool_terminals_def publish_terminal_def Let_def
  by (auto split: option.split)

lemma onward_close_entry [intro!]: "onward le (close_entry env d cs owner i j r)"
  unfolding close_entry_def Let_def by auto

lemma onward_carry_out [intro!]: "onward le (carry_out env sv d summary plan r)"
  unfolding carry_out_def abandon_all_def mark_replayed_def end_active_message_def publish_all_terminals_def
    close_entries_def flush_all_closed_def flush_closed_def end_planned_turn_def clear_active_attempt_def Let_def
  by (auto split: option.split)

lemma onward_close_active_attempt [intro!]: "onward le (close_active_attempt env sv d summary r)"
  unfolding close_active_attempt_def read_records_def by (auto split: option.split)

lemma onward_store_commit [intro!]: "onward le (store_commit env what c oc won expected cmd)"
  unfolding store_commit_def by (intro onward_andthen onward_primitive) (auto split: option.split)

lemma onward_termination_request [intro!]: "onward le (termination_request sv r status reason cause)"
  unfolding termination_request_def new_id_def Let_def by (auto split: option.split)

lemma onward_commit_status [intro!]: "onward le (commit_status env sv status r q)"
  unfolding commit_status_def by (auto split: prod.split outcome.split)

lemma onward_terminate [intro!]: "onward le (terminate env sv rid status reason cause)"
  unfolding terminate_def by auto

lemma onward_complete [intro!]: "onward le (complete env sv r a)"
  unfolding complete_def completion_request_def commit_completion_def new_id_def Let_def by auto

lemma onward_finalize [intro!]: "onward le (finalize_canonical_answer env sv r a)"
  unfolding finalize_canonical_answer_def read_records_def abandon_all_def abandon_entries_def abandon_entry_def
    publish_all_terminals_def flush_all_closed_def flush_closed_def end_other_turn_def publish_final_def Let_def
  by (auto split: option.split)

end

section \<open>The two orders\<close>

lemma call_store_succeeds:
  "sound_store (ow_store w) \<Longrightarrow> succeeds (ow_store w) (ow_store (snd (call_store f (\<lambda>s. cas_now s x e cmd) w)))"
  unfolding call_store_simps
  using others_succeed cas_now_succeeds succeeds_trans succeeds_sound by blast

lemma settle_run_store:
  "ow_store (snd (settle_run f r now w)) = ow_store w
   \<or> (\<exists>x e cmd. ow_store (snd (settle_run f r now w)) = ow_store (snd (call_store f (\<lambda>s. cas_now s x e cmd) w)))"
proof -
  obtain oc r' where t: "transition_projection_settlement r (run_state_version r) now = (oc, r')" by force
  obtain a w' where c: "call_store f (\<lambda>s. cas_now s r' (run_state_version r) (settle_command r)) w = (a, w')" by force
  have "snd (settle_run f r now w) = (if oc = Accepted then w' else w)"
    using c t by (cases oc) (simp_all add: settle_run_def split: sum.split)
  with c show ?thesis by (metis snd_conv)
qed

lemma settle_run_succeeds:
  assumes "sound_store (ow_store w)"
  shows "succeeds (ow_store w) (ow_store (snd (settle_run f r now w)))"
  using settle_run_store [of f r now w] call_store_succeeds [OF assms] succeeds_refl [OF assms] by metis

lemma driver_settle_succeeds:
  assumes "sound_store (ow_store w)"
  shows "succeeds (ow_store w) (ow_store (snd (driver_settle f rid now w)))"
proof -
  obtain a w' where c: "call_store f (read_run rid) w = (a, w')" by force
  then have w': "ow_store w' = others_act f w"
    using call_store_simps(2) [of f "read_run rid" w] by (simp add: read_run_def)
  have s: "succeeds (ow_store w) (ow_store w')" unfolding w' by (rule others_succeed [OF assms])
  have n: "succeeds (ow_store w) (ow_store (snd (settle_run f r now w')))" for r
    by (rule succeeds_trans [OF s settle_run_succeeds [OF succeeds_sound [OF s]]])
  have some: "snd (driver_settle f rid now w) = snd (settle_run f r now w')" if "a = Inr (Some r)" for r
    using that by (simp add: driver_settle_def c case_prod_unfold split: sum.split)
  have none: "snd (driver_settle f rid now w) = w'" if "\<forall>r. a \<noteq> Inr (Some r)"
    using that by (auto simp: driver_settle_def c split: option.split sum.split)
  have "snd (driver_settle f rid now w) = w' \<or> (\<exists>r. snd (driver_settle f rid now w) = snd (settle_run f r now w'))"
    using some none by blast
  then show ?thesis using s n by metis
qed

definition store_moves_on :: "kernel_world \<Rightarrow> kernel_world \<Rightarrow> bool" where
  "store_moves_on w w' \<longleftrightarrow> (sound_store (kw_store w) \<longrightarrow> succeeds (kw_store w) (kw_store w'))"

interpretation stores: world_order store_moves_on
proof
  fix w u v :: kernel_world and k p env rid r e cmd
  show "store_moves_on w w" by (simp add: store_moves_on_def succeeds_refl)
  show "store_moves_on u v \<Longrightarrow> store_moves_on v w \<Longrightarrow> store_moves_on u w"
    unfolding store_moves_on_def using succeeds_sound succeeds_trans by blast
  show "store_moves_on w (w\<lparr>kw_tick := Suc (kw_tick w)\<rparr>)" by (simp add: store_moves_on_def succeeds_refl)
  show "store_moves_on w (snd (emits k p w))" by (simp add: store_moves_on_def emits_def succeeds_refl)
  show "store_moves_on w (snd (await_store env (\<lambda>s. (load s rid, s)) w))"
    by (simp add: store_moves_on_def await_load stored_before_succeeds)
  show "store_moves_on w (snd (await_store env (\<lambda>s. cas_now s r e cmd) w))"
    unfolding store_moves_on_def await_cas
    using stored_before_succeeds succeeds_trans succeeds_sound cas_now_succeeds by blast
  show "store_moves_on w (snd (settle env rid w))"
    using driver_settle_succeeds [of "\<lparr>ow_store = kw_store w,
         ow_others = [kw_others w (Suc (kw_tick w)), kw_others w (Suc (Suc (kw_tick w)))],
         ow_projected = [], ow_notified = []\<rparr>" "kn_sort_key env" rid "kw_clock w (kw_tick w)"]
    by (simp add: store_moves_on_def settle_def andthen_def now_is_def case_prod_unfold)
qed

definition events_extend :: "kernel_world \<Rightarrow> kernel_world \<Rightarrow> bool" where
  "events_extend w w' \<longleftrightarrow> (\<exists>es. kw_emitted w' = kw_emitted w @ es)"

interpretation events: world_order events_extend
proof
  fix w u v :: kernel_world and k p env rid r e cmd
  show "events_extend u v \<Longrightarrow> events_extend v w \<Longrightarrow> events_extend u w"
    by (auto simp: events_extend_def)
qed (auto simp: events_extend_def emits_def await_store_def settle_def andthen_def now_is_def
    split: prod.split sum.split)

end
