(* ===== verification/Kernel_Ending.thy ===== *)
theory Kernel_Ending
  imports Kernel_Order
begin

text \<open>
  What holds when the kernel ends a Run: the check of the history comes before every effect, and a
  terminal status is only committed for a Run whose descendants are all closed.
\<close>

section \<open>What a method yields\<close>

definition yields :: "('a \<Rightarrow> bool) \<Rightarrow> 'a action \<Rightarrow> bool" where
  "yields P m \<longleftrightarrow> (\<forall>w x w'. m w = (Inr x, w') \<longrightarrow> P x)"

named_theorems yields_intro

lemma yields_pure [yields_intro]:
  "yields P (raises e)" "yields P (conflict s)" "yields P (checkpoint_failed cmd oc)"
  "P x \<Longrightarrow> yields P (returns x)"
  by (simp_all add: yields_def returns_def raises_def conflict_def checkpoint_failed_def)

lemma yields_True: "yields (\<lambda>_. True) m"
  by (simp add: yields_def)

lemma yields_lift: "(\<And>y. x = Inr y \<Longrightarrow> P y) \<Longrightarrow> yields P (lift_error x)"
  by (cases x) (auto simp: lift_error_def yields_intro)

lemma yields_andthen:
  assumes "yields P m" and "\<And>x. P x \<Longrightarrow> yields Q (k x)"
  shows "yields Q (andthen m k)"
  using assms unfolding yields_def andthen_def by (fastforce split: prod.splits sum.splits)

lemmas yields_then [yields_intro] = yields_andthen [OF yields_True]

lemma yields_for_each:
  "P s \<Longrightarrow> (\<And>x s. P s \<Longrightarrow> yields P (body x s)) \<Longrightarrow> yields P (for_each body xs s)"
proof (induction xs arbitrary: s)
  case (Cons x xs)
  have "yields P (andthen (body x s) (for_each body xs))"
    by (rule yields_andthen [of P]) (use Cons in auto)
  then show ?case by simp
qed (simp add: yields_intro)

lemma yields_on_conflict: "yields P m \<Longrightarrow> yields P h \<Longrightarrow> yields P (on_conflict m h)"
  by (auto simp: yields_def on_conflict_def split: prod.splits sum.splits kernel_exn.splits kernel_error.splits)

lemma yields_rejected: "yields P m \<Longrightarrow> yields P (rejected_publication m)"
  by (auto simp: yields_def rejected_publication_def conflict_def raises_def split: prod.splits sum.splits if_splits)

section \<open>The Run stays the same Run\<close>

abbreviation same_run :: "string \<Rightarrow> run_state \<Rightarrow> bool" where
  "same_run rid r \<equiv> run_id r = rid"

lemma yields_load [yields_intro]: "yields (same_run rid) (load_run env rid)"
  using load_core(1)
  by (auto simp: yields_def load_run_def andthen_def await_store_def raises_def returns_def
      split: sum.splits option.splits prod.splits)

lemma yields_cas: "yields (\<lambda>ans. \<forall>y. snd ans = Some y \<longrightarrow> run_id y = run_id r)
    (await_store env (\<lambda>s. cas_now s r e cmd))"
  unfolding yields_def
proof (intro allI impI)
  fix w w' y and ans :: "outcome \<times> run_state option"
  assume a: "await_store env (\<lambda>s. cas_now s r e cmd) w = (Inr ans, w')" and y: "snd ans = Some y"
  let ?s = "stored_before env w"
  obtain oc where ans: "ans = (oc, Some y)" using y by (cases ans) auto
  obtain s' where c: "cas_now ?s r e cmd = (Inr (oc, Some y), s')"
    using a ans by (auto simp: await_store_def split: prod.splits sum.splits)
  from cas_now_cases [OF c] obtain cur where cur: "load ?s (run_id r) = Inr (Some cur)" by auto
  from cas_now_answer [OF c cur] load_core(1) [OF cur] show "run_id y = run_id r" by auto
qed

lemma yields_checkpoint [yields_intro]:
  assumes "\<And>x. run_id (upd x) = run_id x"
  shows "yields (same_run (run_id r)) (checkpoint env r upd cmd)"
proof -
  have reply: "yields (same_run (run_id r)) (checkpoint_reply env r cmd ans)"
    if "\<forall>y. snd ans = Some y \<longrightarrow> run_id y = run_id r" for ans
  proof -
    have "yields (same_run (run_id r)) (andthen (load_run env (run_id r)) (\<lambda>cur.
         if run_st cur = Canceling then raises (KernelRaised CancellationPending)
         else if cmd \<in> set (run_processed_command_ids cur) then returns cur
         else checkpoint_failed cmd Conflict))"
      by (rule yields_andthen [OF yields_load]) (simp add: yields_intro)
    note k = this
    obtain oc y where ans: "ans = (oc, y)" by force
    have "run_id z = run_id r" if "y = Some z" for z using \<open>\<forall>y. snd ans = Some y \<longrightarrow> run_id y = run_id r\<close> that ans by simp
    then have y: "yields (same_run (run_id r)) (returns z)" if "y = Some z" for z using that by (simp add: yields_pure)
    show ?thesis
    proof (cases oc)
      case Accepted
      show ?thesis unfolding ans checkpoint_reply_def prod.case Accepted outcome.case
        by (cases y) (simp_all only: option.case y yields_pure)
    next
      case Replayed
      show ?thesis unfolding ans checkpoint_reply_def prod.case Replayed outcome.case
        by (cases y) (simp_all only: option.case y yields_pure)
    next
      case Conflict
      show ?thesis unfolding ans checkpoint_reply_def prod.case Conflict outcome.case
        by (rule k)
    next
      case StoreError
      show ?thesis unfolding ans checkpoint_reply_def prod.case StoreError outcome.case
        by (rule yields_pure)
    qed
  qed
  have c: "run_id (checkpoint_candidate upd r now) = run_id r" for now by (rule candidate_id) (rule assms)
  show ?thesis unfolding checkpoint_def
    by (rule yields_then, rule yields_andthen [OF yields_cas], rule reply) (simp only: c)
qed

lemma yields_update_entry [yields_intro]: "yields (same_run (run_id r)) (update_entry env r i j p cmd)"
  unfolding update_entry_def Let_def
proof (rule yields_on_conflict)
  show "yields (same_run (run_id r)) (checkpoint env r (put_entry i j (patch_entry p (entry_at r i j))) cmd)"
    by (rule yields_checkpoint) simp
  let ?new = "patch_entry p (entry_at r i j)" and ?old = "entry_at r i j"
  have c: "yields (same_run (run_id r)) (checkpoint env x (put_entry i' j' ?new) cmd)" if "run_id x = run_id r" for x i' j'
    using yields_checkpoint [of "put_entry i' j' ?new" x env cmd] that by simp
  show "yields (same_run (run_id r)) (andthen (load_run env (run_id r)) (\<lambda>cur.
       case find_entry cur (be_assistant_message_id ?old) (be_call_id ?old) of
         None \<Rightarrow> conflict ''tool entry disappeared during CAS retry''
       | Some (i', j', e') \<Rightarrow> if e' = ?new then returns cur
           else if e' \<noteq> ?old then conflict ''tool entry changed during CAS retry''
           else checkpoint env cur (put_entry i' j' ?new) cmd))"
    by (rule yields_andthen [OF yields_load]) (auto simp: yields_intro c split: option.split)
qed

lemma yields_update_same: "run_id r = rid \<Longrightarrow> yields (same_run rid) (update_entry env r i j p cmd)"
  using yields_update_entry by blast

lemma yields_publish_all:
  assumes "run_id r = rid"
  shows "yields (same_run rid) (publish_all_terminals env r)"
  unfolding publish_all_terminals_def publish_checkpointed_tool_terminals_def publish_terminal_def Let_def
  by (intro yields_for_each assms)
    (auto simp: yields_intro yields_update_same split: option.split intro!: yields_then)

lemma yields_mark_replayed: "run_id r = rid \<Longrightarrow> yields (same_run rid) (mark_replayed env pid r)"
  by (auto simp: mark_replayed_def yields_intro yields_update_same split: option.split)

lemma yields_close_entry:
  assumes "run_id r = rid"
  shows "yields (same_run rid) (close_entry env d cs owner i j r)"
proof -
  let ?e = "entry_at r i j"
  have "yields (same_run rid) (andthen (update_entry env r i j p cmd) (\<lambda>r1.
          if c then returns r1 else andthen (emits k (f r1)) (\<lambda>_. update_entry env r1 i j p' cmd')))"
    for p cmd c k f p' cmd'
    by (rule yields_andthen [OF yields_update_same [OF assms]], cases c)
      (auto intro: yields_intro yields_then yields_update_same)
  then show ?thesis
    unfolding close_entry_def Let_def
    by (cases "be_state ?e = EsTerminal"; cases "be_acceptance ?e \<noteq> None \<and> be_opaque_public_call_id ?e = None")
      (simp_all only: if_True if_False assms yields_pure yields_then simp_thms)
qed

lemma yields_flush_closed:
  assumes "run_id r = rid"
  shows "yields (same_run rid) (flush_closed env command left i r)"
proof -
  let ?b = "run_tool_batches r ! i"
  have "yields (same_run rid) (checkpoint env r (\<lambda>x. x\<lparr>run_tool_batches := (run_tool_batches x)[i := b'],
      run_transcript := tr\<rparr>) cmd)" for b' tr cmd
    using yields_checkpoint [of "\<lambda>x. x\<lparr>run_tool_batches := (run_tool_batches x)[i := b'],
      run_transcript := tr\<rparr>" r env cmd] assms by simp
  then have "yields (same_run rid) (andthen now_is (\<lambda>now. andthen (lift_error (flush_batch (run_transcript r) ?b now))
      (\<lambda>(tr, b'). checkpoint env r (\<lambda>x. x\<lparr>run_tool_batches := (run_tool_batches x)[i := b'], run_transcript := tr\<rparr>)
          (command @ tb_assistant_message_id ?b))))"
    by (intro yields_then) (auto split: prod.split)
  then show ?thesis
    unfolding flush_closed_def Let_def
    by (cases "tb_results_flushed ?b"; cases "all_terminal ?b")
      (simp_all only: if_True if_False assms yields_pure simp_thms)
qed

lemma yields_close_entries: "run_id r = rid \<Longrightarrow> yields (same_run rid) (close_entries env d cs r)"
  unfolding close_entries_def by (intro yields_for_each yields_close_entry)

lemma yields_flush_all: "run_id r = rid \<Longrightarrow> yields (same_run rid) (flush_all_closed env command left r)"
  unfolding flush_all_closed_def by (intro yields_for_each yields_flush_closed)

lemma yields_replayed_all: "run_id r = rid \<Longrightarrow> yields (same_run rid) (for_each (mark_replayed env) pids r)"
  by (intro yields_for_each yields_mark_replayed)

lemma clear_active_id [simp]: "run_id (clear_active r) = run_id r"
  by (simp add: clear_active_def)

lemma yields_clear_attempt: "run_id r = rid \<Longrightarrow> yields (same_run rid) (clear_active_attempt env d turn r)"
  unfolding clear_active_attempt_def
  using yields_checkpoint [of clear_active r env] by (auto simp: yields_pure)

lemma yields_carry_out:
  assumes r: "run_id r = rid"
  shows "yields (\<lambda>p. run_id (fst p) = rid) (carry_out env sv d summary plan r)"
proof -
  have fin: "yields (\<lambda>p. run_id (fst p) = rid)
      (if \<not> terminal_closure_is_complete r4 then conflict m
       else andthen (for_each (end_planned_turn d r4) (cp_turns plan) ()) (\<lambda>_.
         andthen (clear_active_attempt env d turn r4) (\<lambda>r5. returns (r5, t))))"
    if r4: "run_id r4 = rid" for r4 m turn t
  proof -
    have "yields (\<lambda>p. run_id (fst p) = rid) (andthen (clear_active_attempt env d turn r4) (\<lambda>r5. returns (r5, t)))"
      by (rule yields_andthen [OF yields_clear_attempt [OF r4]]) (simp add: yields_pure)
    then show ?thesis by (cases "terminal_closure_is_complete r4") (simp_all only: if_True if_False simp_thms yields_then yields_pure)
  qed
  show ?thesis unfolding carry_out_def
    by (rule yields_then, rule yields_andthen [OF yields_replayed_all [OF r]], rule yields_then,
      erule yields_andthen [OF yields_publish_all], erule yields_andthen [OF yields_close_entries],
      erule yields_andthen [OF yields_flush_all], erule fin)
qed

lemma yields_close_attempt:
  "run_id r = rid \<Longrightarrow> yields (\<lambda>p. run_id (fst p) = rid) (close_active_attempt env sv d summary r)"
  unfolding close_active_attempt_def by (intro yields_then yields_carry_out)

section \<open>The check comes first\<close>

text \<open>A check that only refuses with a conflict.\<close>

definition conflicts :: "kernel_error + 'a \<Rightarrow> bool" where
  "conflicts x \<longleftrightarrow> (\<forall>e. x = Inl e \<longrightarrow> (\<exists>m. e = KernelConflict m))"

named_theorems conflict_intro

lemma conflicts_basic [conflict_intro]: "conflicts (Inr y)" "conflicts (Inl (KernelConflict m))"
  by (simp_all add: conflicts_def)

lemma conflicts_cases [conflict_intro]:
  "conflicts x \<Longrightarrow> conflicts y \<Longrightarrow> conflicts (if b then x else y)"
  "conflicts x \<Longrightarrow> (\<And>z. conflicts (f z)) \<Longrightarrow> conflicts (case opt of None \<Rightarrow> x | Some z \<Rightarrow> f z)"
  "(\<And>y z. conflicts (g y z)) \<Longrightarrow> conflicts (case p of (y, z) \<Rightarrow> g y z)"
  by (simp_all split: option.split prod.split)

lemma conflicts_then [conflict_intro]:
  "conflicts x \<Longrightarrow> (\<And>y. conflicts (f y)) \<Longrightarrow> conflicts (case x of Inl e \<Rightarrow> Inl e | Inr y \<Rightarrow> f y)"
  by (auto simp: conflicts_def split: sum.split)

lemma scans_conflict [conflict_intro]:
  "conflicts (scan_public policy r owner e st)" "conflicts (scan_parked e st')"
  "conflicts (scan_tool_end r bsc payload rst)" "conflicts (scan_turn_end owner payload rst')"
  "conflicts (plan_turn r rsc t)"
  unfolding scan_public_def scan_parked_def scan_tool_end_def scan_turn_end_def plan_turn_def Let_def
  by (intro conflict_intro)+

lemma scan_lists_conflict [conflict_intro]:
  "conflicts (scan_entries policy r owner es st)" "conflicts (scan_batches policy r bs st')"
  "conflicts (scan_records r bsc recs rst)" "conflicts (plan_turns r rsc ts)"
proof -
  show entries: "conflicts (scan_entries policy r owner es st)" for owner es st
    by (induction es arbitrary: st) (simp_all only: scan_entries.simps scan_entry_def, (intro conflict_intro | assumption)+)
  show "conflicts (scan_batches policy r bs st')"
    by (induction bs arbitrary: st') (simp_all only: scan_batches.simps, (intro conflict_intro entries | assumption)+)
  have rec1: "conflicts (scan_record r bsc rec st)" for rec st
    unfolding scan_record_def Let_def by (intro conflict_intro)
  show "conflicts (scan_records r bsc recs rst)"
    by (induction recs arbitrary: rst) (simp_all only: scan_records.simps, (intro conflict_intro rec1 | assumption)+)
  show "conflicts (plan_turns r rsc ts)"
    by (induction ts) (simp_all only: plan_turns.simps, (intro conflict_intro | assumption)+)
qed

lemma closure_plan_conflict:
  "terminal_closure_plan policy r recs reader = Inl x \<Longrightarrow> \<exists>m. x = KernelConflict m"
proof -
  have "conflicts (terminal_closure_plan policy r recs reader)"
    unfolding terminal_closure_plan_def by (intro conflict_intro)
  then show "terminal_closure_plan policy r recs reader = Inl x \<Longrightarrow> \<exists>m. x = KernelConflict m"
    by (simp add: conflicts_def)
qed

lemma external_effects:
  "kw_store (snd (external f w)) = kw_store w" "kw_emitted (snd (external f w)) = kw_emitted w"
  by (simp_all add: external_def)

lemma read_records_effects:
  "read_records sv r w = (res, w') \<Longrightarrow> kw_store w' = kw_store w \<and> kw_emitted w' = kw_emitted w
     \<and> kw_tick w' = kw_tick w + (if sv_reader sv = None then 0 else 1)"
  by (auto simp: read_records_def returns_def external_def split: option.splits)

lemma load_run_effects:
  "load_run env rid w = (res, w') \<Longrightarrow> kw_store w' = stored_before env w \<and> kw_emitted w' = kw_emitted w
     \<and> kw_tick w' = Suc (kw_tick w)"
  by (auto simp: load_run_def andthen_def await_store_def raises_def returns_def split: sum.splits option.splits)

lemma refused_close:
  assumes "read_records sv r w = (Inr recs, w')"
    and "terminal_closure_plan (sv_policy sv) r recs (sv_reader sv \<noteq> None) = Inl (KernelConflict m)"
  shows "close_active_attempt env sv d summary r w = (Inl (KernelRaised (KernelConflict m)), w')"
  using assms by (simp add: close_active_attempt_def andthen_def lift_error_def raises_def)

lemma rejected_passes:
  "m w = (Inl (KernelRaised (KernelConflict x)), w') \<Longrightarrow>
     rejected_publication m w = (Inl (KernelRaised (KernelConflict x)), w')"
  by (simp add: rejected_publication_def is_value_error_def)

text \<open>
  The check of the history comes before every effect. When the room history of a live Run cannot
be closed consistently, ending the Run with whatever status and publishing a final answer both
fail with a conflict, and nothing has happened: the load and the read of the history were the only
calls, so no interaction was abandoned; no event was emitted; and the store holds what the other
actors left there.\<close>

theorem refused_closure_has_no_effect:
  assumes l: "load_run env rid w = (Inr r, w1)" and live: "\<not> is_terminal_status (run_st r)"
    and st: "run_st r = Canceling \<Longrightarrow> status = TfCanceled"
    and rd: "read_records sv r w1 = (Inr recs, w2)"
    and bad: "terminal_closure_plan (sv_policy sv) r recs (sv_reader sv \<noteq> None) = Inl x"
  shows "\<exists>m. terminate env sv rid status reason cause w = (Inl (KernelRaised (KernelConflict m)), w2)
     \<and> (\<forall>a. \<exists>m' w3. finalize_canonical_answer env sv r a w1 = (Inl (KernelRaised m'), w3)
          \<and> kw_store w3 = kw_store w2 \<and> kw_emitted w3 = kw_emitted w2)
     \<and> kw_store w2 = stored_before env w \<and> kw_emitted w2 = kw_emitted w
     \<and> kw_tick w2 = kw_tick w + (if sv_reader sv = None then 1 else 2)"
proof -
  from closure_plan_conflict [OF bad] obtain m where x: "x = KernelConflict m" by blast
  note e = read_records_effects [OF rd] load_run_effects [OF l]
  have c: "rejected_publication (close_active_attempt env sv d summary r) w1
      = (Inl (KernelRaised (KernelConflict m)), w2)" for d summary
    using bad x by (intro rejected_passes refused_close [OF rd]) simp
  have t: "terminate env sv rid status reason cause w = (Inl (KernelRaised (KernelConflict m)), w2)"
  proof (cases "run_st r = Canceling")
    case True
    with st show ?thesis using c live by (simp add: terminate_def andthen_def l)
  next
    case False
    then show ?thesis using c live by (simp add: terminate_def andthen_def l)
  qed
  have f: "\<exists>m' w3. finalize_canonical_answer env sv r a w1 = (Inl (KernelRaised m'), w3)
      \<and> kw_store w3 = kw_store w2 \<and> kw_emitted w3 = kw_emitted w2" for a
  proof (cases "final_guard r a")
    case (Inl y)
    then have "finalize_canonical_answer env sv r a w1 = (Inl (KernelRaised y), w1)"
      by (simp add: finalize_canonical_answer_def andthen_def lift_error_def raises_def)
    with e(1) show ?thesis by auto
  next
    case (Inr turn)
    then have "finalize_canonical_answer env sv r a w1 = (Inl (KernelRaised x), w2)"
      using rd bad by (simp add: finalize_canonical_answer_def andthen_def lift_error_def raises_def returns_def)
    then show ?thesis by blast
  qed
  show ?thesis using t f e by auto
qed

section \<open>The commit comes last\<close>

lemma moves_on:
  assumes "onward store_moves_on m" and "m w = (res, w')" and "sound_store (kw_store w)"
  shows "succeeds (kw_store w) (kw_store w')"
  using assms unfolding onward_def store_moves_on_def by (metis snd_conv)

lemma andthen_Inr:
  assumes "andthen m k w = (Inr y, w')"
  obtains x w1 where "m w = (Inr x, w1)" and "k x w1 = (Inr y, w')"
  using assms by (auto simp: andthen_def split: prod.splits sum.splits)

text \<open>A commit reached the store: its image was written, or its command was there already.\<close>

definition commit_stored :: "run_store \<Rightarrow> run_state \<Rightarrow> string \<Rightarrow> run_store \<Rightarrow> bool" where
  "commit_stored s won cmd s' \<longleftrightarrow>
     (\<exists>cand. normalize_run (with_command cmd won) = Inr cand \<and> wrote s cand s')
     \<or> s' = s \<and> (\<exists>y. load s (run_id won) = Inr (Some y) \<and> cmd \<in> set (run_processed_command_ids y))"

lemma store_commit_stored:
  assumes f: "store_commit env what c oc won expected cmd w = (Inr (oc', x), w')" and oc: "oc' \<noteq> OutCancellationPending"
    and s: "sound_store (kw_store w)"
  shows "oc' = oc \<and> (\<exists>s1 s2. succeeds (kw_store w) s1 \<and> commit_stored s1 won cmd s2 \<and> succeeds s2 (kw_store w'))"
proof -
  from f obtain ans w1 where a: "await_store env (\<lambda>s. cas_now s won expected cmd) w = (Inr ans, w1)"
    and k: "(case ans of (_, None) \<Rightarrow> conflict (what @ '' failed'')
      | (res, Some x) \<Rightarrow> if res = Accepted \<or> res = Replayed
          then andthen (settle env (run_id won)) (\<lambda>y. returns (oc, y))
          else if run_st x = Canceling \<and> c then returns (OutCancellationPending, x)
          else conflict (what @ '' lost'')) w1 = (Inr (oc', x), w')"
    unfolding store_commit_def by (rule andthen_Inr)
  obtain res y where ans: "ans = (res, y)" by force
  from k ans oc obtain z where y: "y = Some z" and res: "res = Accepted \<or> res = Replayed"
    and st: "andthen (settle env (run_id won)) (\<lambda>y. returns (oc, y)) w1 = (Inr (oc', x), w')"
    by (auto simp: conflict_def raises_def returns_def split: option.splits if_splits)
  from st obtain y' where sd: "settle env (run_id won) w1 = (Inr y', w')" and "oc' = oc"
    by (rule andthen_Inr) (auto simp: returns_def)
  let ?s = "stored_before env w"
  have s1: "succeeds (kw_store w) ?s" by (rule stored_before_succeeds [OF s])
  have c: "cas_now ?s won expected cmd = (Inr (res, Some z), kw_store w1)"
    using a ans y by (auto simp: await_store_def split: prod.splits sum.splits)
  have w1: "sound_store (kw_store w1)"
    using succeeds_sound [OF cas_now_succeeds [OF succeeds_sound [OF s1], of won expected cmd]] c by simp
  have "commit_stored ?s won cmd (kw_store w1)"
  proof (cases "res = Accepted")
    case True
    from cas_now_cases [OF c] obtain cur where cur: "load ?s (run_id won) = Inr (Some cur)" by auto
    from cas_now_answer [OF c cur] True show ?thesis by (auto simp: commit_stored_def cas_writes_def)
  next
    case False
    with res c have "cas_now ?s won expected cmd = (Inr (Replayed, Some z), kw_store w1)" by simp
    from cas_now_replayed [OF this] show ?thesis by (auto simp: commit_stored_def)
  qed
  moreover have "succeeds (kw_store w1) (kw_store w')"
    using moves_on [of "settle env (run_id won)" w1] sd w1 stores.onward_primitive(4) by blast
  ultimately show ?thesis using s1 \<open>oc' = oc\<close> by blast
qed

lemma termination_request_fields:
  "termination_request sv r status reason cause w = (Inr q, w') \<Longrightarrow>
     sq_status q = status \<and> sq_terminal_reason q = reason \<and> sq_expected_state_version q = run_state_version r"
  unfolding termination_request_def Let_def
  by (elim andthen_Inr) (auto simp: raises_def returns_def split: option.splits)

text \<open>
  Only a closed Run is ended. When ending a Run returns and neither a cancellation is pending nor the
Run was terminal before, then a Run was committed whose every batch is flushed and every child is
terminal with its public end emitted; the commit has the asked status and reason, and it reached
the store, as the image of the committed Run or by a command recorded earlier.\<close>

theorem only_closed_runs_end:
  assumes s: "sound_store (kw_store w)"
    and f: "terminate env sv rid status reason cause w = (Inr (oc, x), w')" and oc: "oc \<noteq> OutCancellationPending"
  shows "(\<exists>s1. succeeds (kw_store w) s1 \<and> load s1 rid = Inr (Some x) \<and> is_terminal_status (run_st x)
        \<and> oc = outcome_for_status (run_st x))
    \<or> oc = outcome_for_status (failure_status status)
      \<and> (\<exists>r q won ev s1 s2. run_id r = rid \<and> terminal_closure_is_complete r
           \<and> commit_terminal_status (sv_json_time sv) r q = (Accepted, won, ev)
           \<and> sq_status q = status \<and> sq_terminal_reason q = reason
           \<and> succeeds (kw_store w) s1 \<and> commit_stored s1 won (sq_command_id q) s2 \<and> succeeds s2 (kw_store w'))"
proof -
  from f obtain cur w1 where l: "load_run env rid w = (Inr cur, w1)"
    and k: "(if run_st cur = Canceling \<and> status \<noteq> TfCanceled then returns (OutCancellationPending, cur)
       else if is_terminal_status (run_st cur) then returns (outcome_for_status (run_st cur), cur)
       else andthen (rejected_publication (close_active_attempt env sv
               (if status = TfCanceled then DispAborted else DispError) (close_summary reason) cur)) (\<lambda>(r, _).
         if \<not> terminal_closure_is_complete r then conflict ''terminal Tool closure invariant is incomplete''
         else andthen (termination_request sv r status reason cause) (commit_status env sv status r))) w1
      = (Inr (oc, x), w')"
    unfolding terminate_def by (rule andthen_Inr)
  note lr = load_run_answer [OF s l]
  have w1: "succeeds (kw_store w) (kw_store w1)" and id: "run_id cur = rid" using lr by auto
  have pend: "\<not> (run_st cur = Canceling \<and> status \<noteq> TfCanceled)"
    using k oc by (cases "run_st cur = Canceling \<and> status \<noteq> TfCanceled") (simp_all add: returns_def)
  show ?thesis
  proof (cases "is_terminal_status (run_st cur)")
    case True
    with k pend have "x = cur" "oc = outcome_for_status (run_st cur)" by (auto simp: returns_def split: if_splits)
    with True w1 lr show ?thesis by blast
  next
    case False
    let ?d = "if status = TfCanceled then DispAborted else DispError"
    have k2: "andthen (rejected_publication (close_active_attempt env sv ?d (close_summary reason) cur)) (\<lambda>(r, _).
         if \<not> terminal_closure_is_complete r then conflict ''terminal Tool closure invariant is incomplete''
         else andthen (termination_request sv r status reason cause) (commit_status env sv status r)) w1
      = (Inr (oc, x), w')"
      using k by (simp only: pend False if_False)
    then obtain p w2 where c: "rejected_publication (close_active_attempt env sv ?d (close_summary reason) cur) w1 = (Inr p, w2)"
      and k3: "(case p of (r, _) \<Rightarrow> if \<not> terminal_closure_is_complete r
          then conflict ''terminal Tool closure invariant is incomplete''
          else andthen (termination_request sv r status reason cause) (commit_status env sv status r)) w2 = (Inr (oc, x), w')"
      by (rule andthen_Inr)
    obtain r t where p: "p = (r, t)" by force
    have "yields (\<lambda>p. run_id (fst p) = rid) (rejected_publication (close_active_attempt env sv ?d (close_summary reason) cur))"
      by (intro yields_rejected yields_close_attempt id)
    with c p have rid: "run_id r = rid" unfolding yields_def by fastforce
    have w2: "succeeds (kw_store w1) (kw_store w2)"
      using moves_on [OF stores.onward_rejected [OF stores.onward_close_active_attempt]] c succeeds_sound [OF w1] by blast
    have closed: "terminal_closure_is_complete r"
      and k4: "andthen (termination_request sv r status reason cause) (commit_status env sv status r) w2 = (Inr (oc, x), w')"
      using k3 p by (auto simp: conflict_def raises_def split: if_splits)
    from k4 obtain q w3 where q: "termination_request sv r status reason cause w2 = (Inr q, w3)"
      and k5: "commit_status env sv status r q w3 = (Inr (oc, x), w')" by (rule andthen_Inr)
    have w3: "succeeds (kw_store w2) (kw_store w3)"
      using moves_on [OF stores.onward_termination_request] q succeeds_sound [OF w2] by blast
    obtain won ev where won: "commit_terminal_status (sv_json_time sv) r q = (Accepted, won, ev)"
      and k6: "store_commit env ''terminal status store CAS'' (status \<noteq> TfCanceled)
          (outcome_for_status (failure_status status)) won (run_state_version r) (sq_command_id q) w3 = (Inr (oc, x), w')"
      using k5 by (auto simp: commit_status_def conflict_def raises_def split: prod.splits outcome.splits)
    from store_commit_stored [OF k6 oc succeeds_sound [OF w3]] obtain s1 s2 where
      "oc = outcome_for_status (failure_status status)" "succeeds (kw_store w3) s1"
      "commit_stored s1 won (sq_command_id q) s2" "succeeds s2 (kw_store w')" by blast
    moreover have "succeeds (kw_store w) (kw_store w3)" using w1 w2 w3 succeeds_trans by blast
    ultimately show ?thesis
      using rid closed won termination_request_fields [OF q] succeeds_trans by blast
  qed
qed

end
