(* ===== verification/Ending_Samples.thy ===== *)
theory Ending_Samples
  imports Kernel_Ending
begin

text \<open>
  Concrete runs of \<open>_terminate\<close>, for the witnesses of \<open>Kernel_Ending\<close>: a Run that failed is ended and
  settled step by step, and a Run with a broken room history is not touched.
\<close>

definition sample_services :: kernel_services where
  "sample_services = \<lparr>sv_reader = None, sv_abandon = (\<lambda>_ _ iid. Inl (KernelRaised (MissingKey iid))),
     sv_policy = id, sv_new_id = (\<lambda>n prefix. prefix @ show_int (int n)), sv_json_time = show_int, sv_repr = id\<rparr>"

abbreviation stored_run :: run_state where "stored_run \<equiv> truncate_run sample_run"

abbreviation loaded_world :: kernel_world where "loaded_world \<equiv> sample_kernel_world\<lparr>kw_tick := 1\<rparr>"

lemma sample_load: "load_run sample_env ''run'' sample_kernel_world = (Inr stored_run, loaded_world)"
  by (simp add: load_run_def andthen_def await_store_def stored_before_def sample_kernel_world_def
      load_store_one returns_def)

lemma sample_close: "close_active_attempt sample_env sample_services DispError summary stored_run loaded_world
    = (Inr (stored_run, None), loaded_world)"
proof -
  have "terminal_closure_plan id stored_run [] False = Inr \<lparr>cp_turns = [], cp_interactions = [],
      cp_replayed = [], cp_active_message_end = None\<rparr>" by code_simp
  moreover have "terminal_closure_is_complete stored_run" "\<not> active_remnants stored_run"
    "run_active_internal_turn_id stored_run = None" by code_simp+
  moreover have "run_tool_batches stored_run = [trunc_batch sample_batch]" by (simp add: sample_run_def)
  ultimately show ?thesis
    by (simp add: close_active_attempt_def read_records_def sample_services_def andthen_def returns_def
        lift_error_def carry_out_def abandon_all_def end_active_message_def publish_all_terminals_def
        close_entries_def flush_all_closed_def clear_active_attempt_def closed_turn_def
        publish_checkpointed_tool_terminals_def Let_def publish_terminal_def publishable_def close_entry_def
        flush_closed_def entry_at_def sample_batch_def sample_entry_def truthy_str_def)
qed

definition sample_ending :: status_request where
  "sample_ending = \<lparr>sq_expected_state_version = 7, sq_command_id = ''terminate:failed:run:7'',
     sq_event_id = ''event1'', sq_event_sequence = 1, sq_event_intent_id = ''intent-event2'',
     sq_public_run_intent_id = ''intent-run3'', sq_public_run_target = ''run'', sq_status = TfFailed,
     sq_terminal_reason = ''why'', sq_cancellation_cause = None, sq_correlation_id = None, sq_created_at = 5000\<rparr>"

lemma sample_ending_request: "termination_request sample_services stored_run TfFailed ''why'' None loaded_world
    = (Inr sample_ending, sample_kernel_world\<lparr>kw_tick := 5\<rparr>)"
proof (rule prod_eqI)
  show "fst (termination_request sample_services stored_run TfFailed ''why'' None loaded_world)
      = fst (Inr sample_ending, sample_kernel_world\<lparr>kw_tick := 5\<rparr>)"
    by code_simp
  show "snd (termination_request sample_services stored_run TfFailed ''why'' None loaded_world)
      = snd (Inr sample_ending, sample_kernel_world\<lparr>kw_tick := 5\<rparr>)"
    by (simp add: termination_request_def new_id_def external_def andthen_def now_is_def Let_def raises_def
        returns_def split: option.split)
qed

definition sample_ended :: run_state where
  "sample_ended = status_commit show_int stored_run sample_ending"

lemma sample_ending_accepted: "fst (commit_terminal_status show_int stored_run sample_ending) = Accepted"
proof -
  have "sq_command_id sample_ending \<notin> set (run_processed_command_ids stored_run)"
    "sq_expected_state_version sample_ending = run_state_version stored_run"
    "\<not> is_terminal_status (run_st stored_run)" "run_st stored_run \<noteq> Canceling"
    "public_terminals_complete stored_run" "run_projection_outbox stored_run = []"
    "sq_event_sequence sample_ending = 1"
    "distinct [sq_event_id sample_ending, sq_event_intent_id sample_ending, sq_public_run_intent_id sample_ending]"
    by code_simp+
  then show ?thesis by (simp add: commit_terminal_status_def)
qed

lemma sample_ending_commit: "\<exists>ev. commit_terminal_status show_int stored_run sample_ending = (Accepted, sample_ended, ev)"
  using commit_status_cases [of show_int stored_run sample_ending]
proof (elim disjE conjE)
  assume "fst (commit_terminal_status show_int stored_run sample_ending) \<noteq> Accepted"
  then show ?thesis using sample_ending_accepted by (rule notE)
next
  assume "commit_terminal_status show_int stored_run sample_ending =
    (Accepted, status_commit show_int stored_run sample_ending, Some (failure_event stored_run sample_ending))"
  then show ?thesis unfolding sample_ended_def by (rule exI)
qed

lemma sample_ended_valid: "valid_run sample_ended"
  unfolding sample_ended_def
proof (rule iffD2 [OF status_commit_valid [OF _ _ sample_ending_accepted]])
  show "valid_run stored_run" using load_store_one by (rule load_valid)
  show "status_request_error sample_ending = None" "closure_complete stored_run" by code_simp+
qed

lemma sample_ended_stored: "cas_now store_one sample_ended 7 ''terminate:failed:run:7''
    = (Inr (Accepted, Some (truncate_run sample_ended)), replace_run store_one (truncate_run sample_ended))"
proof -
  have id: "run_id sample_ended = ''run''" "run_state_version sample_ended = 8"
    by (simp_all add: sample_ended_def status_commit_def sample_run_def)
  have cmd: "with_command ''terminate:failed:run:7'' sample_ended = sample_ended"
    by (simp add: with_command_def sample_ended_def status_commit_def sample_ending_def)
  have norm: "normalize_run (with_command ''terminate:failed:run:7'' sample_ended) = Inr (truncate_run sample_ended)"
    unfolding cmd using sample_ended_valid by (simp add: normalize_run_iff)
  have c: "''terminate:failed:run:7'' \<notin> set (run_processed_command_ids stored_run)" by code_simp
  have t: "cancellation_transition_allowed stored_run (truncate_run sample_ended)"
    by (simp add: cancellation_transition_allowed_def cancellation_metadata_def sample_run_def)
  have h: "version_matches store_one ''run'' 7" "\<not> index_violation store_one (truncate_run sample_ended)"
    by (simp_all add: version_matches_def index_violation_def find_run_def store_one_def sample_command id)
      (simp_all add: sample_run_def)
  have v: "run_state_version stored_run = 7" by code_simp
  have o: "overlay_claim (replace_run store_one (truncate_run sample_ended)) (truncate_run sample_ended)
     = (Inr (Accepted, Some (truncate_run sample_ended)), replace_run store_one (truncate_run sample_ended))"
    by (simp add: overlay_claim_def load_claim_def replace_run_def store_one_def)
  show ?thesis
    unfolding cas_now_def cas_mutate_def with_load_def id load_store_one sum.case option.case
      cas_apply_def norm v using c t h o by (simp add: Let_def id)
qed


lemma sample_ended_outbox: "run_projection_outbox sample_ended = failure_intents show_int stored_run sample_ending"
  "run_projection_state sample_ended = ProjPending" "run_id sample_ended = ''run''"
  by (simp_all add: sample_ended_def status_commit_def sample_run_def)

lemma sample_ended_pending: "evaluate_projection_settlement (map trunc_intent (failure_intents show_int stored_run sample_ending)) = ProjPending"
  by (simp add: evaluate_projection_settlement_def failure_intents_def new_intent_def Let_def)

lemma sample_ended_load: "load (replace_run store_one (truncate_run sample_ended)) ''run'' = Inr (Some (truncate_run sample_ended))"
proof -
  have "find_run (replace_run store_one (truncate_run sample_ended)) ''run'' = Some (truncate_run sample_ended)"
    unfolding find_run_def replace_run_def store_one_def sample_command
    using sample_ended_outbox(3) by (simp add: sample_run_def)
  moreover have "valid_run (truncate_run sample_ended)" using sample_ended_valid by (simp add: valid_run_def)
  ultimately show ?thesis
    by (simp add: load_def with_claim_def load_claim_def run_from_document_def valid_run_def Let_def
        store_one_def replace_run_def)
qed

lemma sample_ended_settles:
  "settle_run f (truncate_run sample_ended) now w = (Inr (truncate_run sample_ended), w)"
proof -
  have "run_projection_state (truncate_run sample_ended) = ProjPending"
    using sample_ended_outbox(2) by (simp add: truncate_run_def)
  then have "fst (transition_projection_settlement (truncate_run sample_ended)
      (run_state_version (truncate_run sample_ended)) now) \<noteq> Accepted"
    using sample_ended_pending
    by (simp add: transition_projection_settlement_def Let_def sample_ended_outbox)
  moreover obtain oc r' where "transition_projection_settlement (truncate_run sample_ended)
      (run_state_version (truncate_run sample_ended)) now = (oc, r')" by force
  ultimately show ?thesis unfolding settle_run_def by (cases oc) simp_all
qed

abbreviation ended_world :: kernel_world where
  "ended_world \<equiv> sample_kernel_world\<lparr>kw_store := replace_run store_one (truncate_run sample_ended), kw_tick := 6\<rparr>"

lemma sample_settle: "settle sample_env ''run'' ended_world = (Inr (truncate_run sample_ended), ended_world\<lparr>kw_tick := 9\<rparr>)"
  by (simp add: settle_def andthen_def now_is_def driver_settle_def call_store_def others_act_def read_run_def
      sample_ended_load sample_ended_settles sample_kernel_world_def)

lemma sample_terminated: "terminate sample_env sample_services ''run'' TfFailed ''why'' None sample_kernel_world
    = (Inr (OutFailed, truncate_run sample_ended), ended_world\<lparr>kw_tick := 9\<rparr>)"
proof -
  obtain ev where ev: "commit_terminal_status show_int stored_run sample_ending = (Accepted, sample_ended, ev)"
    using sample_ending_commit by blast
  have r: "run_st stored_run = Finalizing" "terminal_closure_is_complete stored_run" "run_state_version stored_run = 7"
    by code_simp+
  have r': "run_st sample_run = Finalizing" by (simp add: sample_run_def)
  have c: "rejected_publication (close_active_attempt sample_env sample_services DispError s stored_run) loaded_world
      = (Inr (stored_run, None), loaded_world)" for s
    by (simp only: rejected_publication_def sample_close prod.case sum.case)
  have q: "sq_command_id sample_ending = ''terminate:failed:run:7''" by (simp add: sample_ending_def)
  have oc: "outcome_for_status (failure_status TfFailed) = OutFailed"
    by (simp add: outcome_for_status_def failure_status_def)
  have jt: "sv_json_time sample_services = show_int" by (simp add: sample_services_def)
  have st: "stored_before sample_env (sample_kernel_world\<lparr>kw_tick := 5\<rparr>) = store_one"
    by (simp add: stored_before_def sample_kernel_world_def)
  have a: "await_store sample_env (\<lambda>s. cas_now s sample_ended 7 ''terminate:failed:run:7'') (sample_kernel_world\<lparr>kw_tick := 5\<rparr>)
      = (Inr (Accepted, Some (truncate_run sample_ended)), ended_world)"
    by (simp add: await_store_def st sample_ended_stored)
  have k: "store_commit sample_env what cn OutFailed sample_ended 7 ''terminate:failed:run:7''
      (sample_kernel_world\<lparr>kw_tick := 5\<rparr>) = (Inr (OutFailed, truncate_run sample_ended), ended_world\<lparr>kw_tick := 9\<rparr>)"
    for what cn
    by (simp add: store_commit_def andthen_def a sample_ended_outbox sample_settle returns_def)
  have "commit_status sample_env sample_services TfFailed stored_run sample_ending (sample_kernel_world\<lparr>kw_tick := 5\<rparr>)
      = (Inr (OutFailed, truncate_run sample_ended), ended_world\<lparr>kw_tick := 9\<rparr>)"
    unfolding commit_status_def jt ev prod.case outcome.case q r oc by (rule k)
  then show ?thesis
    by (simp add: terminate_def andthen_def sample_load r r' terminal_run_statuses_def c sample_ending_request del: One_nat_def)
qed

text \<open>A room history with a Tool end that has no payload.\<close>

definition broken_end :: json where
  "broken_end = JObj [(''payload_public'', JObj [(''run_id'', JStr ''run''),
     (''type'', JStr ''tool_execution_end''), (''payload'', JNull)])]"

lemma broken_plan: "\<exists>x. terminal_closure_plan id stored_run [broken_end] True = Inl x"
proof -
  have "case terminal_closure_plan id stored_run [broken_end] True of Inl x \<Rightarrow> True | Inr p \<Rightarrow> False"
    by code_simp
  then show ?thesis by (auto split: sum.splits)
qed

theorem refused_closure_has_no_effect_witness:
  "\<exists>m w2. terminate sample_env (sample_services\<lparr>sv_reader := Some (\<lambda>_ _ _. Inr [broken_end])\<rparr>) ''run'' TfFailed
       ''why'' None sample_kernel_world = (Inl (KernelRaised (KernelConflict m)), w2)
     \<and> kw_store w2 = store_one \<and> kw_emitted w2 = [] \<and> kw_tick w2 = 2"
proof -
  let ?sv = "sample_services\<lparr>sv_reader := Some (\<lambda>_ _ _. Inr [broken_end])\<rparr>"
  obtain x where x: "terminal_closure_plan (sv_policy ?sv) stored_run [broken_end] (sv_reader ?sv \<noteq> None) = Inl x"
    using broken_plan by (auto simp: sample_services_def)
  have rd: "read_records ?sv stored_run loaded_world = (Inr [broken_end], sample_kernel_world\<lparr>kw_tick := 2\<rparr>)"
    by (simp add: read_records_def external_def)
  have live: "\<not> is_terminal_status (run_st stored_run)" by code_simp
  from refused_closure_has_no_effect [OF sample_load live _ rd x, of TfFailed "''why''" None]
  show ?thesis
    by (auto simp: sample_kernel_world_def stored_before_def sample_run_def)
qed

theorem only_closed_runs_end_witness:
  "terminate sample_env sample_services ''run'' TfFailed ''why'' None sample_kernel_world
     = (Inr (OutFailed, truncate_run sample_ended), ended_world\<lparr>kw_tick := 9\<rparr>)
   \<and> (\<exists>r q won ev. terminal_closure_is_complete r
        \<and> commit_terminal_status (sv_json_time sample_services) r q = (Accepted, won, ev) \<and> sq_status q = TfFailed)"
proof -
  have s: "sound_store (kw_store sample_kernel_world)"
    using store_one_history by (auto simp: sound_store_def store_one_def sample_kernel_world_def)
  have st: "kw_store sample_kernel_world = store_one" by (simp add: sample_kernel_world_def)
  have ev: "\<exists>ev. commit_terminal_status (sv_json_time sample_services) stored_run sample_ending = (Accepted, sample_ended, ev)"
    using sample_ending_commit by (simp add: sample_services_def)
  have "terminal_closure_is_complete stored_run" "sq_status sample_ending = TfFailed" by code_simp+
  with ev only_closed_runs_end [OF s sample_terminated] sample_terminated show ?thesis by blast
qed

end
