(* ===== verification/Public_Text.thy ===== *)
theory Public_Text
  imports Tool_Contracts
begin

text \<open>
  \<open>execution/orchestrator/public_text.py\<close>, the coalescer: it gathers the sanitised text of a message and
  cuts it into deltas of bounded size with consecutive offsets. A text is a list of code points;
  \<open>encode("utf-8")\<close> raises on a surrogate. \<open>text_digest\<close> and \<open>id_digest\<close> are the hexadecimal SHA-256 of
  a text and of an identity. A method returns its result or the exception, with the new state.
\<close>

type_synonym ptext = "nat list"

datatype text_exn = EncodeError | EmptyCoalescer | BoundTooSmall

section \<open>UTF-8\<close>

definition surrogate :: "nat \<Rightarrow> bool" where
  "surrogate c \<longleftrightarrow> 55296 \<le> c \<and> c \<le> 57343"

definition utf8_width :: "nat \<Rightarrow> int" where
  "utf8_width c = (if c < 128 then 1 else if c < 2048 then 2 else if c < 65536 then 3 else 4)"

definition utf8_size :: "ptext \<Rightarrow> int" where
  "utf8_size t = sum_list (map utf8_width t)"

definition encodable :: "ptext \<Rightarrow> bool" where
  "encodable t \<longleftrightarrow> list_all (\<lambda>c. \<not> surrogate c) t"

section \<open>The coalescer\<close>

record text_delta =
  dl_event_id :: string
  dl_content_index :: int
  dl_index :: int
  dl_start :: int
  dl_end :: int
  dl_text :: ptext

record coalescer =
  co_run_id :: string
  co_turn :: string
  co_message_id :: string
  co_content_index :: int
  co_offset :: int
  co_next_index :: int
  co_interval :: int
  co_max_bytes :: int
  co_pending :: ptext
  co_last_flush :: "datetime option"

definition new_coalescer :: "string \<Rightarrow> string \<Rightarrow> string \<Rightarrow> coalescer" where
  "new_coalescer rid turn mid = \<lparr>co_run_id = rid, co_turn = turn, co_message_id = mid, co_content_index = 0,
     co_offset = 0, co_next_index = 0, co_interval = 65000, co_max_bytes = 384, co_pending = [],
     co_last_flush = None\<rparr>"

text \<open>The loop of \<open>_bounded_prefix\<close>: \<open>first\<close> says that no character was taken yet.\<close>

fun take_bounded :: "int \<Rightarrow> int \<Rightarrow> bool \<Rightarrow> ptext \<Rightarrow> text_exn + ptext" where
  "take_bounded m used first [] = Inr []"
| "take_bounded m used first (c # cs) =
     (if surrogate c then Inl EncodeError
      else if \<not> first \<and> m < used + utf8_width c then Inr []
      else if first \<and> m < utf8_width c then Inl BoundTooSmall
      else map_sum id (\<lambda>t. c # t) (take_bounded m (used + utf8_width c) False cs))"

definition bounded_prefix :: "coalescer \<Rightarrow> text_exn + ptext" where
  "bounded_prefix co = take_bounded (co_max_bytes co) 0 True (co_pending co)"

definition delta_identity :: "(ptext \<Rightarrow> string) \<Rightarrow> coalescer \<Rightarrow> ptext \<Rightarrow> string" where
  "delta_identity text_digest co t =
     (let s = co_offset co in join_strings '':'' [co_run_id co, co_turn co, co_message_id co,
        show_int (co_content_index co), show_int s, show_int (s + int (length t)), take 24 (text_digest t)])"

type_synonym 'a text_step = "(text_exn + 'a) \<times> coalescer"

definition flush_prefix ::
  "(ptext \<Rightarrow> string) \<Rightarrow> (string \<Rightarrow> string) \<Rightarrow> datetime \<Rightarrow> bool \<Rightarrow> coalescer \<Rightarrow> text_delta text_step" where
  "flush_prefix text_digest id_digest now force co =
     (if co_pending co = [] then (Inl EmptyCoalescer, co)
      else case (if force then bounded_prefix co else Inr (co_pending co)) of
        Inl e \<Rightarrow> (Inl e, co)
      | Inr t \<Rightarrow>
          let rest = co\<lparr>co_pending := drop (length t) (co_pending co)\<rparr>;
              end_at = co_offset co + int (length t) in
          if \<not> encodable t then (Inl EncodeError, rest)
          else (Inr \<lparr>dl_event_id = ''public:text:'' @ id_digest (delta_identity text_digest co t),
                  dl_content_index = co_content_index co, dl_index = co_next_index co,
                  dl_start = co_offset co, dl_end = end_at, dl_text = t\<rparr>,
                rest\<lparr>co_offset := end_at, co_next_index := co_next_index co + 1, co_last_flush := Some now\<rparr>))"

lemma take_bounded_prefix:
  "take_bounded m used first cs = Inr t \<Longrightarrow> (first \<Longrightarrow> used = 0) \<Longrightarrow>
     \<exists>rest. cs = t @ rest \<and> encodable t \<and> (first \<and> cs \<noteq> [] \<longrightarrow> t \<noteq> [])
       \<and> (t \<noteq> [] \<longrightarrow> used + utf8_size t \<le> m)"
proof (induction m used first cs arbitrary: t rule: take_bounded.induct)
  case (2 m used first c cs)
  show ?case
  proof (cases "surrogate c \<or> \<not> first \<and> m < used + utf8_width c \<or> first \<and> m < utf8_width c")
    case True
    with "2.prems" show ?thesis by (auto simp: encodable_def split: if_splits)
  next
    case False
    then obtain t' where t': "take_bounded m (used + utf8_width c) False cs = Inr t'" "t = c # t'"
      using "2.prems"(1) by auto
    from False "2.IH" [OF _ _ _ t'(1)] obtain rest where r: "cs = t' @ rest" "encodable t'"
      "t' \<noteq> [] \<longrightarrow> used + utf8_width c + utf8_size t' \<le> m" by auto
    have "utf8_size t = utf8_width c + utf8_size t'" using t'(2) by (simp add: utf8_size_def)
    with r t'(2) False "2.prems"(2) show ?thesis by (cases "t' = []") (auto simp: encodable_def utf8_size_def)
  qed
qed (simp add: encodable_def)

lemma bounded_prefix_Inr:
  assumes "bounded_prefix co = Inr t" and "co_pending co \<noteq> []"
  shows "t \<noteq> []" and "encodable t" and "utf8_size t \<le> co_max_bytes co" and "\<exists>rest. co_pending co = t @ rest"
  using take_bounded_prefix [of "co_max_bytes co" 0 True "co_pending co" t] assms
  by (auto simp: bounded_prefix_def)

text \<open>The flush of a prefix: what it took, what it left.\<close>

lemma flush_prefix_Inr:
  assumes "flush_prefix td fd now force co = (Inr d, co')"
  shows "co_pending co = dl_text d @ co_pending co'" and "dl_text d \<noteq> []" and "encodable (dl_text d)"
    and "dl_start d = co_offset co" and "dl_end d = dl_start d + int (length (dl_text d))"
    and "dl_index d = co_next_index co" and "dl_content_index d = co_content_index co"
    and "co' = co\<lparr>co_pending := co_pending co', co_offset := dl_end d, co_next_index := dl_index d + 1,
           co_last_flush := Some now\<rparr>"
    and "force \<Longrightarrow> utf8_size (dl_text d) \<le> co_max_bytes co" and "\<not> force \<Longrightarrow> co_pending co' = []"
proof -
  obtain t where p: "co_pending co \<noteq> []" and t: "(if force then bounded_prefix co else Inr (co_pending co)) = Inr t"
    and e: "encodable t"
    and r: "d = \<lparr>dl_event_id = ''public:text:'' @ fd (delta_identity td co t), dl_content_index = co_content_index co,
        dl_index = co_next_index co, dl_start = co_offset co, dl_end = co_offset co + int (length t), dl_text = t\<rparr>"
      "co' = co\<lparr>co_pending := drop (length t) (co_pending co), co_offset := co_offset co + int (length t),
        co_next_index := co_next_index co + 1, co_last_flush := Some now\<rparr>"
    using assms by (auto simp: flush_prefix_def Let_def split: if_split_asm sum.split_asm)
  have cut: "t \<noteq> [] \<and> (\<exists>rest. co_pending co = t @ rest) \<and> (force \<longrightarrow> utf8_size t \<le> co_max_bytes co)
      \<and> (\<not> force \<longrightarrow> t = co_pending co)"
    using t p bounded_prefix_Inr [of co t] by (cases force) auto
  then obtain rest where "co_pending co = t @ rest" by blast
  with cut e r show "co_pending co = dl_text d @ co_pending co'" "dl_text d \<noteq> []" "encodable (dl_text d)"
    "dl_start d = co_offset co" "dl_end d = dl_start d + int (length (dl_text d))"
    "dl_index d = co_next_index co" "dl_content_index d = co_content_index co"
    "co' = co\<lparr>co_pending := co_pending co', co_offset := dl_end d, co_next_index := dl_index d + 1,
       co_last_flush := Some now\<rparr>"
    "force \<Longrightarrow> utf8_size (dl_text d) \<le> co_max_bytes co" "\<not> force \<Longrightarrow> co_pending co' = []"
    by simp_all
qed

lemma flush_prefix_shorter [termination_simp]:
  "flush_prefix td fd now force co = (Inr d, co') \<Longrightarrow> length (co_pending co') < length (co_pending co)"
  using flush_prefix_Inr(1,2) [of td fd now force co d co'] by simp

section \<open>The methods\<close>

text \<open>The two \<open>while\<close> loops: as long as the pending text fills a delta, and as long as there is any.\<close>

function full_deltas ::
  "(ptext \<Rightarrow> string) \<Rightarrow> (string \<Rightarrow> string) \<Rightarrow> datetime \<Rightarrow> coalescer \<Rightarrow> text_delta list \<Rightarrow> text_delta list text_step"
where
  "full_deltas td fd now co ds =
     (if \<not> encodable (co_pending co) then (Inl EncodeError, co)
      else if utf8_size (co_pending co) < co_max_bytes co then (Inr ds, co)
      else case flush_prefix td fd now True co of
        (Inl e, co') \<Rightarrow> (Inl e, co')
      | (Inr d, co') \<Rightarrow> full_deltas td fd now co' (ds @ [d]))"
  by pat_completeness auto

termination
  by (relation "measure (\<lambda>(td, fd, now, co, ds). length (co_pending co))") (auto dest: flush_prefix_shorter [OF sym])

function all_deltas ::
  "(ptext \<Rightarrow> string) \<Rightarrow> (string \<Rightarrow> string) \<Rightarrow> datetime \<Rightarrow> coalescer \<Rightarrow> text_delta list \<Rightarrow> text_delta list text_step"
where
  "all_deltas td fd now co ds =
     (if co_pending co = [] then (Inr ds, co)
      else case flush_prefix td fd now True co of
        (Inl e, co') \<Rightarrow> (Inl e, co')
      | (Inr d, co') \<Rightarrow> all_deltas td fd now co' (ds @ [d]))"
  by pat_completeness auto

termination
  by (relation "measure (\<lambda>(td, fd, now, co, ds). length (co_pending co))") (auto dest: flush_prefix_shorter [OF sym])

declare full_deltas.simps [simp del] all_deltas.simps [simp del]

definition interval_over :: "datetime \<Rightarrow> coalescer \<Rightarrow> bool" where
  "interval_over now co \<longleftrightarrow> co_pending co \<noteq> []
     \<and> (case co_last_flush co of None \<Rightarrow> False | Some t \<Rightarrow> co_interval co \<le> now - t)"

definition add_text ::
  "(ptext \<Rightarrow> string) \<Rightarrow> (string \<Rightarrow> string) \<Rightarrow> ptext \<Rightarrow> datetime \<Rightarrow> coalescer \<Rightarrow> text_delta list text_step" where
  "add_text td fd t now co =
     (let co1 = (if t = [] then co else co\<lparr>co_pending := co_pending co @ t,
            co_last_flush := (case co_last_flush co of None \<Rightarrow> Some now | Some x \<Rightarrow> Some x)\<rparr>) in
      case full_deltas td fd now co1 [] of
        (Inl e, co2) \<Rightarrow> (Inl e, co2)
      | (Inr ds, co2) \<Rightarrow>
          if \<not> interval_over now co2 then (Inr ds, co2)
          else (case flush_prefix td fd now False co2 of
            (Inl e, co3) \<Rightarrow> (Inl e, co3) | (Inr d, co3) \<Rightarrow> (Inr (ds @ [d]), co3)))"

definition timed_flush ::
  "(ptext \<Rightarrow> string) \<Rightarrow> (string \<Rightarrow> string) \<Rightarrow> datetime \<Rightarrow> coalescer \<Rightarrow> text_delta list text_step" where
  "timed_flush td fd now co =
     (if co_pending co = [] then (Inr [], co)
      else case flush_prefix td fd now False co of
        (Inl e, co') \<Rightarrow> (Inl e, co') | (Inr d, co') \<Rightarrow> (Inr [d], co'))"

definition semantic_flush ::
  "(ptext \<Rightarrow> string) \<Rightarrow> (string \<Rightarrow> string) \<Rightarrow> datetime \<Rightarrow> coalescer \<Rightarrow> text_delta list text_step" where
  "semantic_flush td fd now co = all_deltas td fd now co []"

definition flush_one ::
  "(ptext \<Rightarrow> string) \<Rightarrow> (string \<Rightarrow> string) \<Rightarrow> datetime \<Rightarrow> coalescer \<Rightarrow> text_delta text_step" where
  "flush_one td fd now co = flush_prefix td fd now True co"

section \<open>Sequences of calls\<close>

datatype text_op = AddText ptext datetime | TimedFlush datetime | SemanticFlush datetime

fun text_op_step ::
  "(ptext \<Rightarrow> string) \<Rightarrow> (string \<Rightarrow> string) \<Rightarrow> text_op \<Rightarrow> coalescer \<Rightarrow> text_delta list text_step" where
  "text_op_step td fd (AddText t now) co = add_text td fd t now co"
| "text_op_step td fd (TimedFlush now) co = timed_flush td fd now co"
| "text_op_step td fd (SemanticFlush now) co = semantic_flush td fd now co"

fun text_ops ::
  "(ptext \<Rightarrow> string) \<Rightarrow> (string \<Rightarrow> string) \<Rightarrow> text_op list \<Rightarrow> coalescer \<Rightarrow> text_delta list text_step" where
  "text_ops td fd [] co = (Inr [], co)"
| "text_ops td fd (x # xs) co = (case text_op_step td fd x co of
      (Inl e, co') \<Rightarrow> (Inl e, co')
    | (Inr ds, co') \<Rightarrow> (case text_ops td fd xs co' of
        (Inl e, co'') \<Rightarrow> (Inl e, co'') | (Inr ds', co'') \<Rightarrow> (Inr (ds @ ds'), co'')))"

fun added :: "text_op \<Rightarrow> ptext" where
  "added (AddText t _) = t"
| "added _ = []"

abbreviation texts :: "text_delta list \<Rightarrow> ptext" where
  "texts ds \<equiv> concat (map dl_text ds)"

text \<open>Deltas that follow each other from one offset and index to another.\<close>

fun delta_chain :: "int \<Rightarrow> int \<Rightarrow> text_delta list \<Rightarrow> int \<Rightarrow> int \<Rightarrow> bool" where
  "delta_chain a i [] b j \<longleftrightarrow> a = b \<and> i = j"
| "delta_chain a i (d # ds) b j \<longleftrightarrow> dl_start d = a \<and> dl_index d = i \<and> dl_text d \<noteq> []
     \<and> dl_end d = a + int (length (dl_text d)) \<and> delta_chain (dl_end d) (i + 1) ds b j"

lemma delta_chain_append:
  "delta_chain a i (xs @ ys) b j \<longleftrightarrow> (\<exists>c k. delta_chain a i xs c k \<and> delta_chain c k ys b j)"
  by (induction xs arbitrary: a i) auto

lemma delta_chain_length: "delta_chain a i ds b j \<Longrightarrow> b = a + int (length (texts ds)) \<and> j = i + int (length ds)"
proof (induction ds arbitrary: a i)
  case (Cons d ds)
  from Cons.prems Cons.IH [of "dl_end d" "i + 1"] show ?case by (auto simp: algebra_simps)
qed simp

lemma delta_chain_nonempty: "delta_chain a i ds b j \<Longrightarrow> d \<in> set ds \<Longrightarrow> dl_text d \<noteq> []"
  by (induction ds arbitrary: a i) auto

text \<open>What a call does: it emits a chain and the rest stays pending; its deltas respect the bound.\<close>

definition cuts :: "coalescer \<Rightarrow> ptext \<Rightarrow> text_delta list \<Rightarrow> coalescer \<Rightarrow> bool" where
  "cuts co t ds co' \<longleftrightarrow> co_pending co @ t = texts ds @ co_pending co'
     \<and> delta_chain (co_offset co) (co_next_index co) ds (co_offset co') (co_next_index co')
     \<and> list_all (\<lambda>d. utf8_size (dl_text d) \<le> co_max_bytes co) ds \<and> co_max_bytes co' = co_max_bytes co"

lemma cuts_none: "cuts co [] [] co"
  by (simp add: cuts_def)

lemma cuts_trans: "cuts co t ds co1 \<Longrightarrow> cuts co1 u es co2 \<Longrightarrow> cuts co (t @ u) (ds @ es) co2"
  by (auto simp: cuts_def delta_chain_append) (metis append_assoc)

lemma flush_cuts:
  assumes "flush_prefix td fd now force co = (Inr d, co')" and "force \<or> utf8_size (co_pending co) \<le> co_max_bytes co"
  shows "cuts co [] [d] co'"
proof -
  note f = flush_prefix_Inr [OF assms(1)]
  have "utf8_size (dl_text d) \<le> co_max_bytes co"
    using f(1,9,10) assms(2) by (cases force) auto
  moreover have "co_offset co' = dl_end d" "co_next_index co' = dl_index d + 1" "co_max_bytes co' = co_max_bytes co"
    using arg_cong [OF f(8), of co_offset] arg_cong [OF f(8), of co_next_index] arg_cong [OF f(8), of co_max_bytes]
    by simp_all
  ultimately show ?thesis using f(1-6) by (simp add: cuts_def)
qed

lemma full_deltas_cuts:
  "full_deltas td fd now co ds = (Inr ds', co') \<Longrightarrow>
     \<exists>new. ds' = ds @ new \<and> cuts co [] new co' \<and> utf8_size (co_pending co') < co_max_bytes co'"
proof (induction td fd now co ds rule: full_deltas.induct)
  case (1 td fd now co ds)
  show ?case
  proof (cases "utf8_size (co_pending co) < co_max_bytes co")
    case True
    with "1.prems" show ?thesis by (auto simp: full_deltas.simps [of td fd now co] cuts_none split: if_splits)
  next
    case False
    then have e: "encodable (co_pending co)"
      using "1.prems" by (auto simp: full_deltas.simps [of td fd now co] split: if_splits)
    with False "1.prems" obtain d co1 where f: "flush_prefix td fd now True co = (Inr d, co1)"
      and r: "full_deltas td fd now co1 (ds @ [d]) = (Inr ds', co')"
      by (auto simp: full_deltas.simps [of td fd now co] split: prod.splits sum.splits)
    from "1.IH" [OF _ False f [symmetric] refl r] e obtain new where "ds' = (ds @ [d]) @ new" "cuts co1 [] new co'"
      "utf8_size (co_pending co') < co_max_bytes co'" by auto
    moreover have "cuts co [] ([d] @ new) co'" using cuts_trans [OF flush_cuts [OF f] calculation(2)] by simp
    ultimately show ?thesis by auto
  qed
qed

lemma all_deltas_cuts:
  "all_deltas td fd now co ds = (Inr ds', co') \<Longrightarrow> \<exists>new. ds' = ds @ new \<and> cuts co [] new co' \<and> co_pending co' = []"
proof (induction td fd now co ds rule: all_deltas.induct)
  case (1 td fd now co ds)
  show ?case
  proof (cases "co_pending co = []")
    case True
    with "1.prems" show ?thesis by (auto simp: all_deltas.simps [of td fd now co] cuts_none)
  next
    case False
    with "1.prems" obtain d co1 where f: "flush_prefix td fd now True co = (Inr d, co1)"
      and r: "all_deltas td fd now co1 (ds @ [d]) = (Inr ds', co')"
      by (auto simp: all_deltas.simps [of td fd now co] split: prod.splits sum.splits)
    from "1.IH" [OF False f [symmetric] refl r] obtain new where "ds' = (ds @ [d]) @ new" "cuts co1 [] new co'"
      "co_pending co' = []" by auto
    moreover have "cuts co [] ([d] @ new) co'" using cuts_trans [OF flush_cuts [OF f] calculation(2)] by simp
    ultimately show ?thesis by auto
  qed
qed

lemma add_text_cuts:
  assumes "add_text td fd t now co = (Inr ds, co')"
  shows "cuts co t ds co' \<and> utf8_size (co_pending co') < max 1 (co_max_bytes co')"
proof -
  define co1 where "co1 = (if t = [] then co else co\<lparr>co_pending := co_pending co @ t,
    co_last_flush := (case co_last_flush co of None \<Rightarrow> Some now | Some x \<Rightarrow> Some x)\<rparr>)"
  have start: "cuts co1 [] x y \<Longrightarrow> cuts co t x y" for x y by (simp add: cuts_def co1_def split: if_splits)
  from assms obtain ds1 co2 where f: "full_deltas td fd now co1 [] = (Inr ds1, co2)"
    and k: "(if \<not> interval_over now co2 then (Inr ds1, co2)
          else (case flush_prefix td fd now False co2 of
            (Inl e, co3) \<Rightarrow> (Inl e, co3) | (Inr d, co3) \<Rightarrow> (Inr (ds1 @ [d]), co3))) = (Inr ds, co')"
    unfolding add_text_def Let_def co1_def [symmetric] by (auto split: prod.splits sum.splits)
  from full_deltas_cuts [OF f] have c: "cuts co1 [] ds1 co2" and m: "utf8_size (co_pending co2) < co_max_bytes co2"
    by auto
  show ?thesis
  proof (cases "interval_over now co2")
    case False
    with k c m start show ?thesis by auto
  next
    case True
    with k obtain d where d: "flush_prefix td fd now False co2 = (Inr d, co')" "ds = ds1 @ [d]"
      by (auto split: prod.splits sum.splits)
    from flush_prefix_Inr(10) [OF d(1)] have "co_pending co' = []" by simp
    then have "utf8_size (co_pending co') < max 1 (co_max_bytes co')" by (simp add: utf8_size_def)
    moreover have "cuts co1 ([] @ []) (ds1 @ [d]) co'"
      by (rule cuts_trans [OF c flush_cuts [OF d(1)]]) (use m in simp)
    ultimately show ?thesis using start d(2) by simp
  qed
qed

lemma op_cuts:
  assumes "text_op_step td fd x co = (Inr ds, co')" and "utf8_size (co_pending co) \<le> co_max_bytes co"
    and "0 < co_max_bytes co"
  shows "cuts co (added x) ds co' \<and> utf8_size (co_pending co') \<le> co_max_bytes co'
    \<and> (\<forall>now. x = SemanticFlush now \<longrightarrow> co_pending co' = [])"
proof (cases x)
  case (AddText t now)
  with assms(1) have "cuts co t ds co'" "utf8_size (co_pending co') < max 1 (co_max_bytes co')"
    using add_text_cuts by auto
  moreover from this(1) have "co_max_bytes co' = co_max_bytes co" by (simp add: cuts_def)
  ultimately show ?thesis using AddText assms(3) by auto
next
  case (TimedFlush now)
  show ?thesis
  proof (cases "co_pending co = []")
    case True
    with TimedFlush assms show ?thesis by (simp add: timed_flush_def cuts_none)
  next
    case False
    with TimedFlush assms(1) obtain d where d: "flush_prefix td fd now False co = (Inr d, co')" "ds = [d]"
      by (auto simp: timed_flush_def split: prod.splits sum.splits)
    from flush_prefix_Inr(10) [OF d(1)] have "co_pending co' = []" by simp
    moreover have "cuts co [] [d] co'" using flush_cuts [OF d(1)] assms(2) by simp
    ultimately show ?thesis using TimedFlush d(2) assms(3) by (simp add: utf8_size_def cuts_def)
  qed
next
  case (SemanticFlush now)
  with assms(1) have "all_deltas td fd now co [] = (Inr ds, co')" by (simp add: semantic_flush_def)
  from all_deltas_cuts [OF this] SemanticFlush assms(3) show ?thesis by (auto simp: utf8_size_def cuts_def)
qed

lemma ops_cuts:
  "text_ops td fd xs co = (Inr ds, co') \<Longrightarrow> utf8_size (co_pending co) \<le> co_max_bytes co \<Longrightarrow> 0 < co_max_bytes co \<Longrightarrow>
     cuts co (concat (map added xs)) ds co' \<and> utf8_size (co_pending co') \<le> co_max_bytes co'
     \<and> (\<forall>now. xs \<noteq> [] \<and> last xs = SemanticFlush now \<longrightarrow> co_pending co' = [])"
proof (induction xs arbitrary: co ds)
  case Nil
  then show ?case by (simp add: cuts_none)
next
  case (Cons x xs)
  then obtain es co1 fs where x: "text_op_step td fd x co = (Inr es, co1)"
    and xs: "text_ops td fd xs co1 = (Inr fs, co')" and ds: "ds = es @ fs"
    by (auto split: prod.splits sum.splits)
  from op_cuts [OF x Cons.prems(2,3)] have c: "cuts co (added x) es co1"
    and m: "utf8_size (co_pending co1) \<le> co_max_bytes co1" and l: "\<forall>now. x = SemanticFlush now \<longrightarrow> co_pending co1 = []"
    by auto
  have "0 < co_max_bytes co1" using c Cons.prems(3) by (simp add: cuts_def)
  from Cons.IH [OF xs m this] have r: "cuts co1 (concat (map added xs)) fs co'"
    "utf8_size (co_pending co') \<le> co_max_bytes co'"
    "\<forall>now. xs \<noteq> [] \<and> last xs = SemanticFlush now \<longrightarrow> co_pending co' = []" by auto
  show ?case
  proof (cases "xs = []")
    case True
    with xs have "co' = co1" by simp
    with l cuts_trans [OF c r(1)] r(2) ds True show ?thesis by simp
  next
    case False
    with cuts_trans [OF c r(1)] r(2,3) ds show ?thesis by simp
  qed
qed

text \<open>
  C31: The public deltas are the text. Whatever calls of \<open>add\<close>, the timer and the semantic flush a message
sees, the emitted deltas put together, with what is still pending, are exactly the text that was
added; their offsets and indices are consecutive from zero, the last offset is the length of the
emitted text; no delta is empty or larger than 384 bytes; and nothing is pending after a
semantic flush.\<close>

theorem public_text_roundtrip:
  assumes "text_ops td fd xs (new_coalescer rid turn mid) = (Inr ds, co')"
  shows "texts ds @ co_pending co' = concat (map added xs)
    \<and> delta_chain 0 0 ds (co_offset co') (co_next_index co')
    \<and> co_offset co' = int (length (texts ds)) \<and> co_next_index co' = int (length ds)
    \<and> (\<forall>d \<in> set ds. dl_text d \<noteq> [] \<and> utf8_size (dl_text d) \<le> 384)
    \<and> (\<forall>now. xs \<noteq> [] \<and> last xs = SemanticFlush now \<longrightarrow> co_pending co' = [])"
proof -
  have s: "co_pending (new_coalescer rid turn mid) = []" "co_max_bytes (new_coalescer rid turn mid) = 384"
    "co_offset (new_coalescer rid turn mid) = 0" "co_next_index (new_coalescer rid turn mid) = 0"
    by (simp_all add: new_coalescer_def)
  from ops_cuts [OF assms] s have c: "cuts (new_coalescer rid turn mid) (concat (map added xs)) ds co'"
    "\<forall>now. xs \<noteq> [] \<and> last xs = SemanticFlush now \<longrightarrow> co_pending co' = []" by (auto simp: utf8_size_def)
  then have ch: "delta_chain 0 0 ds (co_offset co') (co_next_index co')" by (simp add: cuts_def s)
  have "\<forall>d \<in> set ds. dl_text d \<noteq> []"
    using delta_chain_nonempty [OF ch] by blast
  with c ch delta_chain_length [OF ch] show ?thesis by (simp add: cuts_def s list_all_iff)
qed

section \<open>The loops succeed\<close>

lemma utf8_width_pos: "0 < utf8_width c" "utf8_width c \<le> 4"
  by (simp_all add: utf8_width_def)

lemma take_bounded_total:
  "encodable cs \<Longrightarrow> first \<longrightarrow> 4 \<le> m \<Longrightarrow> \<exists>t. take_bounded m used first cs = Inr t"
proof (induction m used first cs rule: take_bounded.induct)
  case (2 m used first c cs)
  then have "\<not> surrogate c" and "\<not> (first \<and> m < utf8_width c)"
    using utf8_width_pos(2) [of c] by (auto simp: encodable_def)
  then show ?case using 2 by (auto simp: encodable_def)
qed simp

lemma flush_total:
  assumes "encodable (co_pending co)" and "4 \<le> co_max_bytes co" and "co_pending co \<noteq> []"
  obtains d co' where "flush_prefix td fd now force co = (Inr d, co')"
proof -
  obtain t where t: "bounded_prefix co = Inr t"
    using take_bounded_total [of "co_pending co" True "co_max_bytes co" 0] assms by (auto simp: bounded_prefix_def)
  then have "encodable t" using bounded_prefix_Inr(2) assms(3) by blast
  with t assms that show ?thesis by (cases force) (auto simp: flush_prefix_def Let_def)
qed

lemma flush_keeps:
  assumes "flush_prefix td fd now force co = (Inr d, co')" and "encodable (co_pending co)"
  shows "encodable (co_pending co')" and "co_max_bytes co' = co_max_bytes co"
proof -
  note f = flush_prefix_Inr [OF assms(1)]
  show "encodable (co_pending co')" using f(1) assms(2) by (simp add: encodable_def)
  show "co_max_bytes co' = co_max_bytes co" using arg_cong [OF f(8), of co_max_bytes] by simp
qed

lemma full_deltas_total:
  "encodable (co_pending co) \<Longrightarrow> 4 \<le> co_max_bytes co \<Longrightarrow>
     \<exists>ds' co'. full_deltas td fd now co ds = (Inr ds', co') \<and> encodable (co_pending co')"
proof (induction td fd now co ds rule: full_deltas.induct)
  case (1 td fd now co ds)
  show ?case
  proof (cases "utf8_size (co_pending co) < co_max_bytes co")
    case True
    with 1 show ?thesis by (simp add: full_deltas.simps [of td fd now co])
  next
    case False
    then have "co_pending co \<noteq> []" using "1.prems"(2) by (auto simp: utf8_size_def)
    with "1.prems" obtain d co1 where f: "flush_prefix td fd now True co = (Inr d, co1)" by (blast elim: flush_total)
    from "1.IH" [OF _ False f [symmetric] refl] flush_keeps [OF f] "1.prems" False f show ?thesis
      by (simp add: full_deltas.simps [of td fd now co])
  qed
qed

lemma all_deltas_total:
  "encodable (co_pending co) \<Longrightarrow> 4 \<le> co_max_bytes co \<Longrightarrow> \<exists>ds' co'. all_deltas td fd now co ds = (Inr ds', co')"
proof (induction td fd now co ds rule: all_deltas.induct)
  case (1 td fd now co ds)
  show ?case
  proof (cases "co_pending co = []")
    case True
    then show ?thesis by (simp add: all_deltas.simps [of td fd now co])
  next
    case False
    with "1.prems" obtain d co1 where f: "flush_prefix td fd now True co = (Inr d, co1)" by (blast elim: flush_total)
    from "1.IH" [OF False f [symmetric] refl] flush_keeps [OF f] "1.prems" False f show ?thesis
      by (simp add: all_deltas.simps [of td fd now co])
  qed
qed

lemma op_total:
  assumes e: "encodable (co_pending co)" "encodable (added x)" and m: "4 \<le> co_max_bytes co"
  shows "\<exists>ds co'. text_op_step td fd x co = (Inr ds, co')"
proof (cases x)
  case (AddText t now)
  define co1 where "co1 = (if t = [] then co else co\<lparr>co_pending := co_pending co @ t,
    co_last_flush := (case co_last_flush co of None \<Rightarrow> Some now | Some x \<Rightarrow> Some x)\<rparr>)"
  have 1: "encodable (co_pending co1)" "4 \<le> co_max_bytes co1"
    using e m AddText by (simp_all add: co1_def encodable_def)
  then obtain ds co2 where f: "full_deltas td fd now co1 [] = (Inr ds, co2)" and e2: "encodable (co_pending co2)"
    using full_deltas_total by blast
  have m2: "4 \<le> co_max_bytes co2" using full_deltas_cuts [OF f] 1(2) by (auto simp: cuts_def)
  show ?thesis
  proof (cases "interval_over now co2")
    case False
    with f AddText show ?thesis by (simp add: add_text_def Let_def co1_def [symmetric])
  next
    case True
    then have "co_pending co2 \<noteq> []" by (simp add: interval_over_def)
    then obtain d co3 where "flush_prefix td fd now False co2 = (Inr d, co3)" using flush_total e2 m2 by blast
    with True f AddText show ?thesis by (simp add: add_text_def Let_def co1_def [symmetric])
  qed
next
  case (TimedFlush now)
  show ?thesis
  proof (cases "co_pending co = []")
    case False
    with e m obtain d co' where "flush_prefix td fd now False co = (Inr d, co')" by (blast elim: flush_total)
    with TimedFlush False show ?thesis by (simp add: timed_flush_def)
  qed (simp add: TimedFlush timed_flush_def)
next
  case (SemanticFlush now)
  with all_deltas_total e(1) m show ?thesis by (simp add: semantic_flush_def)
qed

lemma ops_total:
  "encodable (co_pending co) \<Longrightarrow> 4 \<le> co_max_bytes co \<Longrightarrow> utf8_size (co_pending co) \<le> co_max_bytes co \<Longrightarrow>
     list_all (\<lambda>x. encodable (added x)) xs \<Longrightarrow> \<exists>ds co'. text_ops td fd xs co = (Inr ds, co')"
proof (induction xs arbitrary: co)
  case (Cons x xs)
  then obtain ds co1 where x: "text_op_step td fd x co = (Inr ds, co1)" using op_total [of co x td fd] by auto
  from op_cuts [OF x Cons.prems(3)] Cons.prems have c: "cuts co (added x) ds co1"
    and b: "utf8_size (co_pending co1) \<le> co_max_bytes co1" by auto
  have "encodable (co_pending co @ added x)" using Cons.prems(1,4) by (simp add: encodable_def)
  moreover have "co_pending co @ added x = texts ds @ co_pending co1" using c by (simp add: cuts_def)
  ultimately have "encodable (texts ds @ co_pending co1)" by simp
  then have "encodable (co_pending co1)" by (simp add: encodable_def)
  with Cons.IH [of co1] b c Cons.prems obtain es co2 where "text_ops td fd xs co1 = (Inr es, co2)"
    by (auto simp: cuts_def)
  with x show ?case by simp
qed simp

text \<open>
  C32: The loops of the coalescer end and never raise. For every sequence of calls whose texts are
encodable, however long, each call returns: both \<open>while\<close> loops emit a non-empty delta in each
round until less than a full delta, or nothing, is left.\<close>

theorem coalescer_terminates:
  assumes "list_all (\<lambda>x. encodable (added x)) xs"
  shows "\<exists>ds co'. text_ops td fd (xs @ [SemanticFlush now]) (new_coalescer rid turn mid) = (Inr ds, co')
     \<and> co_pending co' = [] \<and> texts ds = concat (map added xs) \<and> length ds \<le> length (concat (map added xs))"
proof -
  let ?co = "new_coalescer rid turn mid"
  have start: "encodable (co_pending ?co)" "4 \<le> co_max_bytes ?co" "utf8_size (co_pending ?co) \<le> co_max_bytes ?co"
    by (simp_all add: new_coalescer_def encodable_def utf8_size_def)
  have "list_all (\<lambda>x. encodable (added x)) (xs @ [SemanticFlush now])" using assms by (simp add: encodable_def)
  then obtain ds co' where f: "text_ops td fd (xs @ [SemanticFlush now]) ?co = (Inr ds, co')"
    using ops_total [of ?co "xs @ [SemanticFlush now]" td fd] start by blast
  from ops_cuts [OF f] have c: "cuts ?co (concat (map added (xs @ [SemanticFlush now]))) ds co'" and p: "co_pending co' = []"
    by (auto simp: new_coalescer_def utf8_size_def)
  then have t: "texts ds = concat (map added xs)" by (simp add: cuts_def new_coalescer_def)
  have "\<forall>d \<in> set ds. dl_text d \<noteq> []" using c delta_chain_nonempty by (auto simp: cuts_def)
  then have "length ds \<le> length (texts ds)" by (induction ds) (auto simp: Suc_le_eq add_strict_increasing)
  with f p t show ?thesis by auto
qed

section \<open>Witnesses\<close>

text \<open>Two texts, the second of four-byte code points, with a timer flush between them.\<close>

definition sample_ops :: "text_op list" where
  "sample_ops = [AddText [72, 105] 1000, TimedFlush 70000, AddText (replicate 100 128512) 71000, SemanticFlush 72000]"

lemma sample_ops_encodable: "list_all (\<lambda>x. encodable (added x)) sample_ops"
  by (simp add: sample_ops_def encodable_def list_all_iff surrogate_def)

theorem public_text_roundtrip_witness:
  "\<exists>ds co. text_ops (\<lambda>_. []) id sample_ops (new_coalescer ''r'' ''t'' ''m'') = (Inr ds, co)
     \<and> texts ds = concat (map added sample_ops) \<and> co_offset co = 102"
proof -
  let ?co = "new_coalescer ''r'' ''t'' ''m''"
  have "encodable (co_pending ?co)" "4 \<le> co_max_bytes ?co" "utf8_size (co_pending ?co) \<le> co_max_bytes ?co"
    by (simp_all add: new_coalescer_def encodable_def utf8_size_def)
  from ops_total [OF this sample_ops_encodable, of "\<lambda>_. []" id] obtain ds co where
    f: "text_ops (\<lambda>_. []) id sample_ops ?co = (Inr ds, co)" by blast
  have "sample_ops \<noteq> [] \<and> last sample_ops = SemanticFlush 72000" by (simp add: sample_ops_def)
  with public_text_roundtrip [OF f] have "texts ds = concat (map added sample_ops)"
    "co_offset co = int (length (texts ds))" by auto
  moreover have "length (concat (map added sample_ops)) = 102" by (simp add: sample_ops_def)
  ultimately show ?thesis using f by auto
qed

theorem coalescer_terminates_witness:
  "\<exists>ds co. text_ops (\<lambda>_. []) id (sample_ops @ [SemanticFlush 73000]) (new_coalescer ''r'' ''t'' ''m'') = (Inr ds, co)
     \<and> texts ds = concat (map added sample_ops) \<and> length ds \<le> 102"
proof -
  have "length (concat (map added sample_ops)) = 102" by (simp add: sample_ops_def)
  with coalescer_terminates [OF sample_ops_encodable, of "\<lambda>_. []" id 73000 "''r''" "''t''" "''m''"]
  show ?thesis by metis
qed

end
