(* ===== verification/Agent_Calls.thy ===== *)
theory Agent_Calls
  imports Run_Contracts "HOL-Library.List_Lexorder" "HOL-Library.Char_ord"
begin

text \<open>
  The durable record of a call to a remote Agent (\<open>a2a_runtime/models.py\<close>, with the typed answers
  of \<open>common/dto/hitl.py\<close>) and its validator. The ledger's rules over it are the theory
  \<open>Call_Ledger\<close>. Fields whose type is a single literal (\<open>schema_version\<close>, \<open>output_schema_*\<close>) are left
  out; the SHA-256 of a result's JSON is a parameter of the validator.
\<close>

section \<open>States of a call\<close>

datatype call_state =
    CsAccepted | CsReadyToDispatch | CsDispatching | CsDeliveryUncertain | CsWorking
  | CsContinuationPending | CsInputRequired | CsAuthRequired | CsResuming | CsCancelPending
  | CsCompleted | CsFailed | CsCanceled | CsRejected | CsExpired

text \<open>
  \<open>AGENT_CALL_STATES\<close> is the set of all literals of the type: the type class of finite, enumerated
  types says so, and lets a quantifier over states be computed.
\<close>

instantiation call_state :: enum
begin

definition enum_call_state :: "call_state list" where
  "enum_call_state = [CsAccepted, CsReadyToDispatch, CsDispatching, CsDeliveryUncertain, CsWorking,
     CsContinuationPending, CsInputRequired, CsAuthRequired, CsResuming, CsCancelPending,
     CsCompleted, CsFailed, CsCanceled, CsRejected, CsExpired]"

definition enum_all_call_state :: "(call_state \<Rightarrow> bool) \<Rightarrow> bool" where
  "enum_all_call_state P = list_all P enum_class.enum"

definition enum_ex_call_state :: "(call_state \<Rightarrow> bool) \<Rightarrow> bool" where
  "enum_ex_call_state P = list_ex P enum_class.enum"

instance
proof
  have "x \<in> set enum_class.enum" for x :: call_state by (cases x) (simp_all add: enum_call_state_def)
  then show univ: "(UNIV :: call_state set) = set enum_class.enum" by blast
  show "distinct (enum_class.enum :: call_state list)" by (simp add: enum_call_state_def)
  fix P :: "call_state \<Rightarrow> bool"
  show "enum_class.enum_all P = Ball UNIV P" unfolding univ enum_all_call_state_def list_all_iff ..
  show "enum_class.enum_ex P = Bex UNIV P" unfolding univ enum_ex_call_state_def list_ex_iff ..
qed

end

definition terminal_call_state :: "call_state \<Rightarrow> bool" where
  "terminal_call_state s \<longleftrightarrow> s \<in> {CsCompleted, CsFailed, CsCanceled, CsRejected, CsExpired}"

definition active_call_state :: "call_state \<Rightarrow> bool" where
  "active_call_state s \<longleftrightarrow> \<not> terminal_call_state s"

section \<open>Policy, resources and the dispatch snapshot\<close>

record runtime_policy =
  rp_max_task_chars :: int
  rp_max_callback_body_bytes :: int
  rp_max_normalized_observation_bytes :: int
  rp_claim_lease_seconds :: rat
  rp_claim_renew_interval_seconds :: rat
  rp_max_transport_attempts :: int
  rp_max_uncertain_inspection_attempts :: int
  rp_max_authorization_refresh_attempts :: int
  rp_retry_backoff_initial_seconds :: int
  rp_retry_backoff_max_seconds :: int
  rp_orphan_acceptance_ttl_seconds :: int
  rp_recent_observation_id_limit :: int
  rp_recovery_batch_limit :: int

definition policy_error :: "runtime_policy \<Rightarrow> check" where
  "policy_error p = first_error
     [require (0 < rp_max_task_chars p \<and> rp_max_task_chars p \<le> 100000) ''max_task_chars'',
      require (0 < rp_max_callback_body_bytes p) ''max_callback_body_bytes'',
      require (0 < rp_max_normalized_observation_bytes p) ''max_normalized_observation_bytes'',
      require (0 < rp_claim_lease_seconds p) ''claim_lease_seconds'',
      require (0 < rp_claim_renew_interval_seconds p) ''claim_renew_interval_seconds'',
      require (0 < rp_max_transport_attempts p) ''max_transport_attempts'',
      require (0 < rp_max_uncertain_inspection_attempts p) ''max_uncertain_inspection_attempts'',
      require (0 < rp_max_authorization_refresh_attempts p) ''max_authorization_refresh_attempts'',
      require (0 < rp_retry_backoff_initial_seconds p) ''retry_backoff_initial_seconds'',
      require (0 < rp_retry_backoff_max_seconds p) ''retry_backoff_max_seconds'',
      require (0 < rp_orphan_acceptance_ttl_seconds p) ''orphan_acceptance_ttl_seconds'',
      require (0 < rp_recent_observation_id_limit p \<and> rp_recent_observation_id_limit p \<le> 128)
        ''recent_observation_id_limit'',
      require (0 < rp_recovery_batch_limit p \<and> rp_recovery_batch_limit p \<le> 1000) ''recovery_batch_limit'',
      require (rp_claim_renew_interval_seconds p < rp_claim_lease_seconds p)
        ''claim renewal must occur before lease expiry'',
      require (rp_retry_backoff_initial_seconds p \<le> rp_retry_backoff_max_seconds p)
        ''initial retry backoff exceeds maximum'']"

datatype transport_kind = Direct | Relay
datatype direct_mode = ModeSync | ModeStream | ModePoll
datatype frozen_kind = FrozenContext | FrozenArtifact | FrozenAttachment

record frozen_ref =
  fr_ref_id :: string
  fr_kind :: frozen_kind
  fr_conversation_id :: string
  fr_room_epoch :: int
  fr_source_message_id :: string
  fr_source_agent_id :: "string option"
  fr_mime_type :: "string option"
  fr_size_bytes :: int
  fr_content_digest :: string
  fr_projection_id :: "string option"
  fr_materialization_digest :: "string option"

record frozen_manifest =
  rm_manifest_id :: string
  rm_refs :: "frozen_ref list"
  rm_content_digest :: string

definition frozen_manifest_error :: "frozen_manifest \<Rightarrow> check" where
  "frozen_manifest_error m = first_error
     [require (list_all (\<lambda>r. 1 \<le> fr_room_epoch r \<and> 0 \<le> fr_size_bytes r) (rm_refs m)) ''refs'',
      require (distinct (map fr_ref_id (rm_refs m))) ''resource refs must be unique'']"

record dispatch_snapshot =
  ds_command_id :: string
  ds_message_id :: string
  ds_task :: string
  ds_agent_id :: string
  ds_skill_id :: "string option"
  ds_endpoint_scope :: string
  ds_transport_kind :: transport_kind
  ds_direct_mode :: "direct_mode option"
  ds_requesting_subject_digest :: string
  ds_conversation_id :: string
  ds_room_epoch :: int
  ds_deadline_at :: datetime
  ds_resource_manifest :: frozen_manifest

definition dispatch_snapshot_error :: "dispatch_snapshot \<Rightarrow> check" where
  "dispatch_snapshot_error s = first_error
     [require (1 \<le> ds_room_epoch s) ''room_epoch'', frozen_manifest_error (ds_resource_manifest s)]"

section \<open>Aliases, answers and commands\<close>

datatype alias_kind = AliasTask | AliasContext | AliasRelayJournal

record ownership_alias =
  oa_kind :: alias_kind
  oa_value :: string
  oa_binding_scope :: string
  oa_authoritative :: bool

datatype policy_decision = Approve | Deny

datatype hitl_answer =
    TextAnswer string
  | SingleChoiceAnswer "string option" "string option"
  | MultiChoiceAnswer "string list" "string option"
  | ConfirmationAnswer bool
  | AuthorizationResultAnswer string
  | PolicyDecisionAnswer policy_decision "string option"

record question_answer =
  qa_question_id :: string
  qa_answer :: hitl_answer

text \<open>A constrained string of \<open>common/dto/hitl.py\<close>: stripped, not blank, of bounded length.\<close>

definition bounded_text :: "nat \<Rightarrow> string \<Rightarrow> bool" where
  "bounded_text n s \<longleftrightarrow> py_strip s = s \<and> s \<noteq> [] \<and> length s \<le> n"

definition reference_char :: "char \<Rightarrow> bool" where
  "reference_char c \<longleftrightarrow> CHR ''A'' \<le> c \<and> c \<le> CHR ''Z'' \<or> CHR ''a'' \<le> c \<and> c \<le> CHR ''z''
     \<or> CHR ''0'' \<le> c \<and> c \<le> CHR ''9'' \<or> c \<in> set ''._-''"

definition authorization_reference :: "string \<Rightarrow> bool" where
  "authorization_reference s \<longleftrightarrow> take 8 s = ''authref:''
     \<and> 1 \<le> length (drop 8 s) \<and> length (drop 8 s) \<le> 200 \<and> list_all reference_char (drop 8 s)"

fun answer_error :: "hitl_answer \<Rightarrow> check" where
  "answer_error (TextAnswer t) = require (bounded_text 10000 t) ''text''"
| "answer_error (SingleChoiceAnswer c x) = first_error
     [require (\<forall>s \<in> set_option c. bounded_text 256 s) ''choice'',
      require (\<forall>s \<in> set_option x. bounded_text 1000 s) ''other'',
      require ((c = None) \<noteq> (x = None)) ''answer exactly one of choice or other'']"
| "answer_error (MultiChoiceAnswer cs x) = first_error
     [require (list_all (bounded_text 256) cs \<and> length cs \<le> 100) ''choices'',
      require (\<forall>s \<in> set_option x. bounded_text 1000 s) ''other'',
      require (distinct cs) ''choices must be unique'',
      require (cs \<noteq> [] \<or> x \<noteq> None) ''answer at least one choice or other'']"
| "answer_error (ConfirmationAnswer b) = None"
| "answer_error (AuthorizationResultAnswer r) =
     require (authorization_reference r) ''authorization_reference''"
| "answer_error (PolicyDecisionAnswer d reason) =
     require (\<forall>s \<in> set_option reason. bounded_text 1000 s) ''reason''"

definition question_answer_error :: "question_answer \<Rightarrow> check" where
  "question_answer_error a = first_error
     [require (bounded_text 256 (qa_question_id a)) ''question_id'', answer_error (qa_answer a)]"

record auth_reference_binding =
  vb_reference_digest :: string
  vb_proof_digest :: string
  vb_interaction_id :: string
  vb_interaction_revision :: int
  vb_route_fingerprint :: string
  vb_interaction_fingerprint :: string
  vb_question_id :: string
  vb_challenge_digest :: string
  vb_answer_digest :: string

record answer_marker =
  hm_interaction_id :: string
  hm_interaction_revision :: int
  hm_route_fingerprint :: string
  hm_answer_digest :: string
  hm_answerer_digest :: string
  hm_verified_auth_reference_digests :: "string list"
  hm_verified_auth_references :: "auth_reference_binding list"
  hm_applied_at :: datetime

definition marker_error :: "answer_marker \<Rightarrow> check" where
  "marker_error m = first_error
     [require (1 \<le> hm_interaction_revision m) ''interaction_revision'',
      require (list_all (\<lambda>b. 1 \<le> vb_interaction_revision b) (hm_verified_auth_references m))
        ''verified_auth_references'']"

record continuation_command =
  cn_command_id :: string
  cn_transport_kind :: transport_kind
  cn_call_record_id :: string
  cn_interaction_id :: string
  cn_interaction_revision :: int
  cn_answer_digest :: string
  cn_answers :: "question_answer list"
  cn_binding_id :: string
  cn_binding_digest :: string
  cn_requesting_subject_digest :: string
  cn_task_id :: string
  cn_context_id :: string
  cn_conversation_id :: string
  cn_room_epoch :: int
  cn_created_at :: datetime

definition continuation_error :: "continuation_command \<Rightarrow> check" where
  "continuation_error c = first_error
     ([require (1 \<le> cn_interaction_revision c) ''interaction_revision''] @
      map question_answer_error (cn_answers c) @ [require (1 \<le> cn_room_epoch c) ''room_epoch''])"

record join_binding =
  jb_join_invocation_id :: string
  jb_command_id :: string
  jb_interaction_fingerprint :: "string option"
  jb_created_at :: datetime

record cancellation_command =
  cc_command_id :: string
  cc_transport_kind :: transport_kind
  cc_call_record_id :: string
  cc_reason :: string
  cc_deletion_id :: "string option"
  cc_created_at :: datetime

datatype command_state = CmdPending | CmdDispatching | CmdDeliveryUncertain | CmdAccepted

section \<open>The call record\<close>

record call_record =
  ac_state_version :: int
  ac_call_record_id :: string
  ac_invocation_id :: string
  ac_acceptance_id :: string
  ac_idempotency_key :: string
  ac_run_id :: string
  ac_conversation_id :: string
  ac_room_epoch :: int
  ac_assistant_message_id :: string
  ac_source_index :: int
  ac_tool_name :: string
  ac_execution_mode :: execution_mode
  ac_side_effect_level :: side_effect
  ac_binding_id :: string
  ac_binding_digest :: string
  ac_agent_id :: string
  ac_skill_id :: "string option"
  ac_card_digest :: string
  ac_endpoint_scope_digest :: string
  ac_arguments_digest :: string
  ac_requesting_subject_digest :: string
  ac_dispatch_snapshot :: dispatch_snapshot
  ac_resource_manifest :: frozen_manifest
  ac_runtime_policy :: runtime_policy
  ac_state :: call_state
  ac_transport_kind :: transport_kind
  ac_transport_attempts :: int
  ac_inspection_attempts :: int
  ac_dispatch_command_id :: string
  ac_a2a_task_id :: "string option"
  ac_a2a_context_id :: "string option"
  ac_ownership_aliases :: "ownership_alias list"
  ac_ownership_alias_keys :: "string list"
  ac_pending_interaction_id :: "string option"
  ac_interaction_revision :: "int option"
  ac_interaction_fingerprint :: "string option"
  ac_model_reply_rounds :: "(string \<times> int) list"
  ac_model_reply_joins :: "join_binding list"
  ac_answer_applied :: "answer_marker option"
  ac_consumed_auth_references :: "auth_reference_binding list"
  ac_continuation_command :: "continuation_command option"
  ac_continuation_state :: "command_state option"
  ac_continuation_attempts :: int
  ac_authorization_refresh_attempts :: int
  ac_artifact_refs :: "string list"
  ac_latest_observation_cursor :: "string option"
  ac_recent_observation_ids :: "string list"
  ac_terminal_result :: "tool_result option"
  ac_terminal_result_digest :: "string option"
  ac_push_token_digest :: "string option"
  ac_cancellation_command :: "cancellation_command option"
  ac_cancellation_command_id :: "string option"
  ac_cancellation_reason :: "string option"
  ac_cancellation_state :: "command_state option"
  ac_cancellation_attempts :: int
  ac_error_code :: "string option"
  ac_error_message :: "string option"
  ac_claim_owner :: "string option"
  ac_claim_expires_at :: "datetime option"
  ac_next_attempt_at :: "datetime option"
  ac_accepted_at :: datetime
  ac_updated_at :: datetime
  ac_terminal_at :: "datetime option"

text \<open>\<open>AgentCallLedgerRecord.acceptance\<close>.\<close>

definition call_acceptance :: "call_record \<Rightarrow> tool_acceptance" where
  "call_acceptance r = \<lparr>ta_acceptance_id = ac_acceptance_id r, ta_invocation_id = ac_invocation_id r,
     ta_idempotency_key = ac_idempotency_key r, ta_accepted_at = ac_accepted_at r\<rparr>"

definition alias_kind_name :: "alias_kind \<Rightarrow> string" where
  "alias_kind_name k = (case k of AliasTask \<Rightarrow> ''task'' | AliasContext \<Rightarrow> ''context''
     | AliasRelayJournal \<Rightarrow> ''relay_journal'')"

definition alias_key :: "ownership_alias \<Rightarrow> string" where
  "alias_key a = oa_binding_scope a @ ''|'' @ alias_kind_name (oa_kind a) @ ''|'' @ oa_value a"

definition ownership_alias_keys :: "ownership_alias list \<Rightarrow> string list" where
  "ownership_alias_keys as = sort (map alias_key (filter oa_authoritative as))"

section \<open>The validator\<close>

definition call_field_error :: "call_record \<Rightarrow> check" where
  "call_field_error r = first_error
     [require (0 \<le> ac_state_version r) ''state_version'',
      require (1 \<le> ac_room_epoch r) ''room_epoch'',
      require (0 \<le> ac_source_index r) ''source_index'',
      dispatch_snapshot_error (ac_dispatch_snapshot r),
      frozen_manifest_error (ac_resource_manifest r),
      policy_error (ac_runtime_policy r),
      require (0 \<le> ac_transport_attempts r) ''transport_attempts'',
      require (0 \<le> ac_inspection_attempts r) ''inspection_attempts'',
      require (\<forall>v \<in> set_option (ac_interaction_revision r). 1 \<le> v) ''interaction_revision'',
      (case ac_answer_applied r of None \<Rightarrow> None | Some m \<Rightarrow> marker_error m),
      require (list_all (\<lambda>b. 1 \<le> vb_interaction_revision b) (ac_consumed_auth_references r))
        ''consumed_auth_references'',
      (case ac_continuation_command r of None \<Rightarrow> None | Some c \<Rightarrow> continuation_error c),
      require (0 \<le> ac_continuation_attempts r) ''continuation_attempts'',
      require (0 \<le> ac_authorization_refresh_attempts r) ''authorization_refresh_attempts'',
      require (length (ac_recent_observation_ids r) \<le> 128) ''recent_observation_ids'',
      require (0 \<le> ac_cancellation_attempts r) ''cancellation_attempts'']"

text \<open>The parts of \<open>_record_is_consistent\<close>, in its order.\<close>

definition verdict_error :: "(tool_result \<Rightarrow> string) \<Rightarrow> call_record \<Rightarrow> check" where
  "verdict_error digest r = first_error
     [require (terminal_call_state (ac_state r)
          \<longrightarrow> ac_terminal_at r \<noteq> None \<and> ac_terminal_result r \<noteq> None)
        ''terminal call requires terminal time and result'',
      require (\<not> terminal_call_state (ac_state r) \<longrightarrow> ac_terminal_at r = None)
        ''nonterminal call cannot have terminal time'',
      (case ac_terminal_result r of None \<Rightarrow> None | Some t \<Rightarrow> first_error
         [require (tr_call_id t = ac_invocation_id r) ''terminal result call ID does not correlate'',
          require (tr_tool_name t = ac_tool_name r) ''terminal result tool name does not correlate'',
          require (ac_terminal_result_digest r = Some (digest t))
            ''terminal result digest does not correlate''])]"

definition snapshot_correlates :: "call_record \<Rightarrow> bool" where
  "snapshot_correlates r \<longleftrightarrow> (let s = ac_dispatch_snapshot r in
       ds_conversation_id s = ac_conversation_id r \<and> ds_room_epoch s = ac_room_epoch r
     \<and> ds_agent_id s = ac_agent_id r
     \<and> ds_requesting_subject_digest s = ac_requesting_subject_digest r
     \<and> ds_resource_manifest s = ac_resource_manifest r)"

definition marker_correlates :: "call_record \<Rightarrow> bool" where
  "marker_correlates r \<longleftrightarrow> (case ac_answer_applied r of None \<Rightarrow> True | Some m \<Rightarrow>
       Some (hm_interaction_id m) = ac_pending_interaction_id r
     \<and> Some (hm_interaction_revision m) = ac_interaction_revision r
     \<and> hm_answerer_digest m = ac_requesting_subject_digest r)"

definition continuation_correlates :: "call_record \<Rightarrow> continuation_command \<Rightarrow> bool" where
  "continuation_correlates r c \<longleftrightarrow> cn_call_record_id c = ac_call_record_id r
     \<and> cn_binding_id c = ac_binding_id r \<and> cn_binding_digest c = ac_binding_digest r
     \<and> cn_requesting_subject_digest c = ac_requesting_subject_digest r
     \<and> cn_conversation_id c = ac_conversation_id r \<and> cn_room_epoch c = ac_room_epoch r"

definition command_error :: "call_record \<Rightarrow> check" where
  "command_error r = first_error
     [(case ac_continuation_command r of
         Some c \<Rightarrow> first_error
           [require (continuation_correlates r c) ''continuation command does not correlate'',
            require (ac_continuation_state r \<noteq> None) ''continuation command requires durable state'']
       | None \<Rightarrow> require (ac_continuation_state r = None) ''continuation state requires a command''),
      (case ac_cancellation_command r of
         Some c \<Rightarrow> first_error
           [require (cc_call_record_id c = ac_call_record_id r
               \<and> Some (cc_command_id c) = ac_cancellation_command_id r)
              ''cancellation command does not correlate'',
            require (ac_cancellation_state r \<noteq> None) ''cancellation command requires durable state'']
       | None \<Rightarrow> require (ac_cancellation_state r = None \<and> ac_cancellation_command_id r = None)
           ''cancellation state requires a command'')]"

definition call_error :: "(tool_result \<Rightarrow> string) \<Rightarrow> call_record \<Rightarrow> check" where
  "call_error digest r = first_error
     [call_field_error r,
      require (distinct (ac_recent_observation_ids r)) ''recent observation IDs must be unique'',
      require (sort (ac_ownership_alias_keys r) = ownership_alias_keys (ac_ownership_aliases r))
        ''ownership alias keys do not match authoritative aliases'',
      verdict_error digest r,
      require (snapshot_correlates r) ''immutable dispatch snapshot does not correlate'',
      require (list_all (\<lambda>a. oa_binding_scope a = ac_endpoint_scope_digest r) (ac_ownership_aliases r))
        ''ownership alias scope does not correlate'',
      require (distinct (map vb_reference_digest (ac_consumed_auth_references r)))
        ''authorization references cannot be reused across challenges'',
      require (marker_correlates r) ''applied HITL answer does not correlate'',
      command_error r]"

definition call_valid :: "(tool_result \<Rightarrow> string) \<Rightarrow> call_record \<Rightarrow> bool" where
  "call_valid digest r \<longleftrightarrow> call_error digest r = None"

section \<open>Normalized observations\<close>

datatype source_kind = SrcDirect | SrcWebhook | SrcRelay | SrcPoll | SrcInspection
datatype event_kind = EvWorking | EvArtifact | EvInputRequired | EvAuthRequired | EvTerminal

record inline_artifact =
  il_ref_id :: string
  il_artifact_id :: "string option"
  il_artifact_name :: "string option"
  il_artifact_description :: "string option"
  il_artifact_index :: int
  il_part_index :: int
  il_content_index :: int
  il_mime_type :: string
  il_size_bytes :: int
  il_content_digest :: string

record observation =
  ob_observation_id :: string
  ob_call_record_id :: "string option"
  ob_source_kind :: source_kind
  ob_source_identity :: string
  ob_binding_scope :: string
  ob_event_kind :: event_kind
  ob_observed_at :: datetime
  ob_task_id :: "string option"
  ob_context_id :: "string option"
  ob_agent_id :: "string option"
  ob_status :: "result_status option"
  ob_content :: "content_part list"
  ob_inline_artifacts :: "inline_artifact list"
  ob_artifact_refs :: "string list"
  ob_interaction_spec :: "json option"
  ob_error_code :: "string option"
  ob_error_message :: "string option"
  ob_cursor :: "string option"

definition is_data_part :: "content_part \<Rightarrow> bool" where
  "is_data_part p \<longleftrightarrow> (case p of DataPart _ _ _ \<Rightarrow> True | _ \<Rightarrow> False)"

definition inline_artifact_error :: "observation \<Rightarrow> inline_artifact \<Rightarrow> check" where
  "inline_artifact_error x a = first_error
     [require (il_content_index a < int (length (ob_content x)))
        ''inline artifact content index is out of range'',
      require (is_data_part (ob_content x ! nat (il_content_index a)))
        ''inline artifact must address a DataPart'']"

definition observation_error :: "observation \<Rightarrow> check" where
  "observation_error x = first_error
     ([require (list_all (\<lambda>a. 0 \<le> il_artifact_index a \<and> 0 \<le> il_part_index a
         \<and> 0 \<le> il_content_index a \<and> 0 < il_size_bytes a) (ob_inline_artifacts x)
         \<and> length (ob_inline_artifacts x) \<le> 20) ''inline_artifacts'',
       require (ob_event_kind x = EvTerminal \<longrightarrow> ob_status x \<noteq> None)
         ''terminal observation requires status'',
       require (ob_event_kind x \<noteq> EvTerminal \<longrightarrow> ob_status x = None)
         ''only terminal observation may carry status'',
       require (distinct (map il_ref_id (ob_inline_artifacts x))) ''inline artifact refs must be unique'',
       require (list_all (\<lambda>a. il_ref_id a \<in> set (ob_artifact_refs x)) (ob_inline_artifacts x))
         ''inline artifact refs must be advertised''] @
      map (inline_artifact_error x) (ob_inline_artifacts x))"

end
