(* ===== verification/Call_Ledger.thy ===== *)
theory Call_Ledger
  imports Agent_Calls
begin

text \<open>
  \<open>a2a_runtime/ledger.py\<close>: the lifecycle of a call to a remote Agent. A table says which states may
  follow a state; \<open>transition_call\<close> takes one of its steps; \<open>apply_observation\<close> decides what a
  normalized observation of the remote Task does to the record. \<open>digest\<close> is the SHA-256 of the JSON
  of a result.
\<close>

section \<open>The transition table\<close>

fun call_transitions :: "call_state \<Rightarrow> call_state set" where
  "call_transitions CsAccepted = {CsReadyToDispatch, CsCancelPending, CsRejected, CsExpired}"
| "call_transitions CsReadyToDispatch = {CsDispatching, CsCancelPending, CsRejected, CsExpired}"
| "call_transitions CsDispatching = {CsReadyToDispatch, CsDeliveryUncertain, CsWorking,
     CsContinuationPending, CsCompleted, CsFailed, CsCanceled, CsRejected, CsExpired, CsCancelPending}"
| "call_transitions CsDeliveryUncertain = {CsDispatching, CsWorking, CsContinuationPending, CsCompleted,
     CsFailed, CsCanceled, CsRejected, CsExpired, CsCancelPending}"
| "call_transitions CsWorking = {CsContinuationPending, CsCompleted, CsFailed, CsCanceled, CsRejected,
     CsExpired, CsCancelPending}"
| "call_transitions CsContinuationPending = {CsInputRequired, CsAuthRequired, CsResuming, CsFailed,
     CsCanceled, CsExpired, CsCancelPending}"
| "call_transitions CsInputRequired = {CsResuming, CsFailed, CsCanceled, CsExpired, CsCancelPending}"
| "call_transitions CsAuthRequired = {CsResuming, CsFailed, CsCanceled, CsRejected, CsExpired,
     CsCancelPending}"
| "call_transitions CsResuming = {CsDeliveryUncertain, CsWorking, CsContinuationPending, CsCompleted,
     CsFailed, CsCanceled, CsRejected, CsExpired, CsCancelPending}"
| "call_transitions CsCancelPending = {CsCanceled}"
| "call_transitions CsCompleted = {}"
| "call_transitions CsFailed = {}"
| "call_transitions CsCanceled = {}"
| "call_transitions CsRejected = {}"
| "call_transitions CsExpired = {}"

datatype ledger_exn =
    IllegalCallTransition call_state call_state
  | AliasAlreadyBound alias_kind
  | ConflictingTerminal string string
  | StatusAssertion

definition legal_call_transition :: "call_state \<Rightarrow> call_state \<Rightarrow> bool" where
  "legal_call_transition s t \<longleftrightarrow> t \<in> call_transitions s"

text \<open>
  \<open>updates\<close> are the keyword arguments of the call, as a function on the record; \<open>terminal_at\<close> is the one
  of them the code inspects: \<open>None\<close> when the caller does not pass it.
\<close>

definition transition_call ::
  "call_record \<Rightarrow> call_state \<Rightarrow> datetime \<Rightarrow> datetime option option \<Rightarrow> (call_record \<Rightarrow> call_record)
     \<Rightarrow> ledger_exn + call_record" where
  "transition_call r t now terminal_at updates =
     (if \<not> legal_call_transition (ac_state r) t then Inl (IllegalCallTransition (ac_state r) t)
      else let u = updates r;
               v = (if terminal_call_state t
                    then u\<lparr>ac_terminal_at := (case terminal_at of Some x \<Rightarrow> x | None \<Rightarrow> Some now),
                           ac_claim_owner := None, ac_claim_expires_at := None, ac_next_attempt_at := None\<rparr>
                    else u\<lparr>ac_terminal_at := None\<rparr>) in
           Inr (v\<lparr>ac_state := t, ac_state_version := ac_state_version r + 1, ac_updated_at := now\<rparr>))"

section \<open>Aliases\<close>

definition starts_with_any :: "string list \<Rightarrow> string \<Rightarrow> bool" where
  "starts_with_any ps s \<longleftrightarrow> list_ex (\<lambda>p. take (length p) s = p) ps"

definition provisional_id :: "string \<Rightarrow> bool" where
  "provisional_id v \<longleftrightarrow> starts_with_any [''relay-pending-'', ''pending-'', ''provisional-''] v"

definition bind_alias ::
  "string \<Rightarrow> ownership_alias list \<Rightarrow> alias_kind \<Rightarrow> string option \<Rightarrow> ledger_exn + ownership_alias list" where
  "bind_alias scope as kind v = (case v of
      None \<Rightarrow> Inr as
    | Some x \<Rightarrow>
        if x = [] \<or> provisional_id x then Inr as
        else let a = \<lparr>oa_kind = kind, oa_value = x, oa_binding_scope = scope, oa_authoritative = True\<rparr> in
          (case List.find (\<lambda>b. oa_kind b = kind) as of
             None \<Rightarrow> Inr (as @ [a])
           | Some b \<Rightarrow> if b \<noteq> a then Inl (AliasAlreadyBound kind) else Inr as))"

definition bind_authoritative_aliases ::
  "call_record \<Rightarrow> string option \<Rightarrow> string option \<Rightarrow> ledger_exn + ownership_alias list" where
  "bind_authoritative_aliases r task ctx =
     (case bind_alias (ac_endpoint_scope_digest r) (ac_ownership_aliases r) AliasTask task of
        Inl e \<Rightarrow> Inl e
      | Inr as \<Rightarrow> bind_alias (ac_endpoint_scope_digest r) as AliasContext ctx)"

section \<open>Observations\<close>

text \<open>\<open>a or b\<close> on optional strings: the empty string is false.\<close>

definition str_or :: "string option \<Rightarrow> string option \<Rightarrow> string option" where
  "str_or a b = (case a of None \<Rightarrow> b | Some s \<Rightarrow> if s = [] then b else a)"

text \<open>\<open>xs[k:]\<close>.\<close>

definition slice_from :: "int \<Rightarrow> 'a list \<Rightarrow> 'a list" where
  "slice_from k xs = (if 0 \<le> k then drop (nat k) xs else drop (length xs - nat (- k)) xs)"

definition merged_refs :: "call_record \<Rightarrow> observation \<Rightarrow> string list" where
  "merged_refs r x = fromkeys (ac_artifact_refs r @ ob_artifact_refs x)"

definition observation_result :: "call_record \<Rightarrow> observation \<Rightarrow> tool_result option" where
  "observation_result r x = (case ob_status x of None \<Rightarrow> None | Some st \<Rightarrow> Some
     \<lparr>tr_call_id = ac_invocation_id r, tr_tool_name = ac_tool_name r, tr_status = st,
      tr_content = ob_content x, tr_artifact_refs = merged_refs r x,
      tr_error_code = ob_error_code x, tr_error_message = ob_error_message x\<rparr>)"

definition state_of_status :: "result_status \<Rightarrow> call_state" where
  "state_of_status s = (case s of ResCompleted \<Rightarrow> CsCompleted | ResFailed \<Rightarrow> CsFailed
     | ResCanceled \<Rightarrow> CsCanceled | ResRejected \<Rightarrow> CsRejected | ResExpired \<Rightarrow> CsExpired)"

text \<open>The dictionary \<open>common\<close>.\<close>

definition common_updates ::
  "ownership_alias list \<Rightarrow> int \<Rightarrow> observation \<Rightarrow> call_record \<Rightarrow> call_record" where
  "common_updates as limit x r = r
     \<lparr>ac_ownership_aliases := as,
      ac_ownership_alias_keys := ownership_alias_keys as,
      ac_a2a_task_id := str_or (ob_task_id x) (ac_a2a_task_id r),
      ac_a2a_context_id := str_or (ob_context_id x) (ac_a2a_context_id r),
      ac_recent_observation_ids := slice_from (- limit) (ac_recent_observation_ids r @ [ob_observation_id x]),
      ac_latest_observation_cursor := str_or (ob_cursor x) (ac_latest_observation_cursor r)\<rparr>"

definition clear_interaction :: "call_record \<Rightarrow> call_record" where
  "clear_interaction r = r
     \<lparr>ac_pending_interaction_id := None, ac_interaction_revision := None,
      ac_interaction_fingerprint := None, ac_answer_applied := None, ac_continuation_command := None,
      ac_continuation_state := None, ac_continuation_attempts := 0,
      ac_authorization_refresh_attempts := 0, ac_next_attempt_at := None\<rparr>"

definition is_progress :: "observation \<Rightarrow> bool" where
  "is_progress x \<longleftrightarrow> ob_event_kind x \<in> {EvWorking, EvArtifact}"

definition is_interaction_event :: "observation \<Rightarrow> bool" where
  "is_interaction_event x \<longleftrightarrow> ob_event_kind x \<in> {EvInputRequired, EvAuthRequired}"

definition is_canceled_terminal :: "observation \<Rightarrow> bool" where
  "is_canceled_terminal x \<longleftrightarrow> ob_event_kind x = EvTerminal \<and> ob_status x = Some ResCanceled"

text \<open>A terminal call: the same result again is a replay, another one a conflict.\<close>

definition late_observation ::
  "(tool_result \<Rightarrow> string) \<Rightarrow> call_record \<Rightarrow> observation \<Rightarrow> ledger_exn + call_record" where
  "late_observation digest r x =
     (if ob_event_kind x \<noteq> EvTerminal then Inr r
      else (case observation_result r x of
          None \<Rightarrow> Inl StatusAssertion
        | Some t \<Rightarrow> if Some (digest t) = ac_terminal_result_digest r then Inr r
            else Inl (ConflictingTerminal
              (the (str_or (ac_terminal_result_digest r) (Some ''missing''))) (digest t))))"

definition ignored_observation :: "call_record \<Rightarrow> observation \<Rightarrow> bool" where
  "ignored_observation r x \<longleftrightarrow> ac_state r = CsCancelPending \<and> \<not> is_canceled_terminal x
     \<or> is_progress x \<and> ac_state r \<in> {CsAccepted, CsReadyToDispatch}"

definition accept_observation ::
  "(tool_result \<Rightarrow> string) \<Rightarrow> int \<Rightarrow> call_record \<Rightarrow> observation \<Rightarrow> ownership_alias list
     \<Rightarrow> ledger_exn + call_record" where
  "accept_observation digest limit r x as =
     (if is_interaction_event x then
        transition_call r CsContinuationPending (ob_observed_at x) None
          (\<lambda>u. common_updates as limit x (clear_interaction u))
      else if is_progress x then
        (if ac_state r \<in> {CsDispatching, CsDeliveryUncertain, CsResuming} then
           transition_call r CsWorking (ob_observed_at x) None
             (\<lambda>u. common_updates as limit x (u\<lparr>ac_artifact_refs := merged_refs r x\<rparr>))
         else Inr ((common_updates as limit x r)
           \<lparr>ac_artifact_refs := merged_refs r x, ac_state_version := ac_state_version r + 1,
            ac_updated_at := ob_observed_at x\<rparr>))
      else (case (ob_status x, observation_result r x) of
          (Some st, Some t) \<Rightarrow> transition_call r (state_of_status st) (ob_observed_at x) None
            (\<lambda>u. common_updates as limit x (u\<lparr>ac_artifact_refs := merged_refs r x,
               ac_terminal_result := Some t, ac_terminal_result_digest := Some (digest t),
               ac_error_code := ob_error_code x, ac_error_message := ob_error_message x\<rparr>))
        | _ \<Rightarrow> Inl StatusAssertion))"

definition apply_call_observation ::
  "(tool_result \<Rightarrow> string) \<Rightarrow> int \<Rightarrow> call_record \<Rightarrow> observation \<Rightarrow> ledger_exn + call_record" where
  "apply_call_observation digest limit r x =
     (if ob_observation_id x \<in> set (ac_recent_observation_ids r) then Inr r
      else if terminal_call_state (ac_state r) then late_observation digest r x
      else if ignored_observation r x then Inr r
      else (case bind_authoritative_aliases r (ob_task_id x) (ob_context_id x) of
          Inl e \<Rightarrow> Inl e
        | Inr as \<Rightarrow> accept_observation digest limit r x as))"

section \<open>The table\<close>

lemma terminal_is_final: "terminal_call_state s \<Longrightarrow> call_transitions s = {}"
  by (cases s) (simp_all add: terminal_call_state_def)

lemma terminal_state_of_status [simp]: "terminal_call_state (state_of_status s)"
  by (cases s) (simp_all add: state_of_status_def terminal_call_state_def)

text \<open>Cancellation is open to every unfinished call, and nothing but it follows a pending one.\<close>

lemma cancellation_open:
  "\<forall>s. \<not> terminal_call_state s \<longrightarrow> s = CsCancelPending \<or> legal_call_transition s CsCancelPending"
  by code_simp

lemma cancel_pending_only_canceled: "legal_call_transition CsCancelPending t \<longleftrightarrow> t = CsCanceled"
  by (simp add: legal_call_transition_def)

section \<open>What a step keeps\<close>

text \<open>The identity of a call: what no operation of the runtime changes.\<close>

definition call_identity ::
  "call_record \<Rightarrow> string list \<times> string list \<times> int \<times> int \<times> dispatch_snapshot \<times> frozen_manifest
     \<times> runtime_policy \<times> transport_kind \<times> datetime" where
  "call_identity r = ([ac_call_record_id r, ac_invocation_id r, ac_acceptance_id r, ac_idempotency_key r,
      ac_run_id r, ac_conversation_id r, ac_assistant_message_id r, ac_tool_name r],
     [ac_binding_id r, ac_binding_digest r, ac_agent_id r, ac_card_digest r, ac_endpoint_scope_digest r,
      ac_arguments_digest r, ac_requesting_subject_digest r, ac_dispatch_command_id r],
     ac_room_epoch r, ac_source_index r, ac_dispatch_snapshot r, ac_resource_manifest r,
     ac_runtime_policy r, ac_transport_kind r, ac_accepted_at r)"

text \<open>The verdict of a call: what a finished call reports.\<close>

definition call_verdict ::
  "call_record \<Rightarrow> call_state \<times> tool_result option \<times> string option \<times> datetime option
     \<times> string option \<times> string option" where
  "call_verdict r = (ac_state r, ac_terminal_result r, ac_terminal_result_digest r, ac_terminal_at r,
     ac_error_code r, ac_error_message r)"

text \<open>One write of the ledger: the next version of the same call, by a step of the table or in place.\<close>

definition call_follows :: "call_record \<Rightarrow> call_record \<Rightarrow> bool" where
  "call_follows r r' \<longleftrightarrow> ac_state_version r' = ac_state_version r + 1
     \<and> call_identity r' = call_identity r
     \<and> (ac_state r' = ac_state r \<or> legal_call_transition (ac_state r) (ac_state r'))
     \<and> (terminal_call_state (ac_state r) \<longrightarrow> call_verdict r' = call_verdict r)"

named_theorems identity_intro "updates that keep the identity of a call"

lemma identity_common [identity_intro]:
  "call_identity (common_updates as limit x r) = call_identity r"
  by (simp add: call_identity_def common_updates_def)

lemma identity_clear [identity_intro]: "call_identity (clear_interaction r) = call_identity r"
  by (simp add: call_identity_def clear_interaction_def)

lemma transition_follows:
  assumes "transition_call r t now tat f = Inr r'" and "call_identity (f r) = call_identity r"
  shows "call_follows r r'" and "ac_state r' = t" and "legal_call_transition (ac_state r) t"
    and "ac_updated_at r' = now"
proof -
  from assms(1) have l: "legal_call_transition (ac_state r) t"
    and r': "ac_state r' = t" "ac_state_version r' = ac_state_version r + 1" "ac_updated_at r' = now"
      "call_identity r' = call_identity (f r)"
    by (auto simp: transition_call_def call_identity_def Let_def split: if_splits)
  from l have "\<not> terminal_call_state (ac_state r)"
    using terminal_is_final by (auto simp: legal_call_transition_def)
  with l r' assms(2) show "call_follows r r'" "ac_state r' = t" "legal_call_transition (ac_state r) t"
    "ac_updated_at r' = now" by (simp_all add: call_follows_def)
qed

lemma accept_follows:
  assumes "accept_observation digest limit r x as = Inr r'" and "\<not> terminal_call_state (ac_state r)"
  shows "call_follows r r'"
proof -
  have i: "call_identity (u\<lparr>ac_artifact_refs := a\<rparr>) = call_identity u"
    "call_identity (u\<lparr>ac_artifact_refs := a, ac_terminal_result := b, ac_terminal_result_digest := c,
       ac_error_code := d, ac_error_message := e\<rparr>) = call_identity u" for u :: call_record and a b c d e
    by (simp_all add: call_identity_def)
  note step = transition_follows(1)
  consider "is_interaction_event x" | "\<not> is_interaction_event x" "is_progress x"
    | "\<not> is_interaction_event x" "\<not> is_progress x" by blast
  then show ?thesis
  proof cases
    case 1
    with assms(1) have "transition_call r CsContinuationPending (ob_observed_at x) None
        (\<lambda>u. common_updates as limit x (clear_interaction u)) = Inr r'"
      by (simp add: accept_observation_def)
    then show ?thesis by (rule step) (simp add: identity_intro)
  next
    case 2
    show ?thesis
    proof (cases "ac_state r \<in> {CsDispatching, CsDeliveryUncertain, CsResuming}")
      case True
      with 2 assms(1) have "transition_call r CsWorking (ob_observed_at x) None
          (\<lambda>u. common_updates as limit x (u\<lparr>ac_artifact_refs := merged_refs r x\<rparr>)) = Inr r'"
        by (simp add: accept_observation_def)
      then show ?thesis by (rule step) (simp add: identity_intro i)
    next
      case False
      with 2 assms(1) have "r' = (common_updates as limit x r)\<lparr>ac_artifact_refs := merged_refs r x,
          ac_state_version := ac_state_version r + 1, ac_updated_at := ob_observed_at x\<rparr>"
        by (simp add: accept_observation_def)
      then show ?thesis using assms(2)
        by (simp add: call_follows_def common_updates_def call_identity_def)
    qed
  next
    case 3
    with assms(1) obtain st t where "transition_call r (state_of_status st) (ob_observed_at x) None
        (\<lambda>u. common_updates as limit x (u\<lparr>ac_artifact_refs := merged_refs r x, ac_terminal_result := Some t,
           ac_terminal_result_digest := Some (digest t), ac_error_code := ob_error_code x,
           ac_error_message := ob_error_message x\<rparr>)) = Inr r'"
      by (auto simp: accept_observation_def split: option.splits)
    then show ?thesis by (rule step) (simp add: identity_intro i)
  qed
qed

lemma observation_follows:
  assumes "apply_call_observation digest limit r x = Inr r'"
  shows "r' = r \<or> call_follows r r' \<and> \<not> terminal_call_state (ac_state r)"
proof (cases "ob_observation_id x \<in> set (ac_recent_observation_ids r) \<or> ignored_observation r x
    \<or> terminal_call_state (ac_state r)")
  case True
  with assms show ?thesis
    by (auto simp: apply_call_observation_def late_observation_def split: if_splits option.splits)
next
  case False
  with assms obtain as where "accept_observation digest limit r x as = Inr r'"
    by (auto simp: apply_call_observation_def split: sum.splits)
  with False accept_follows show ?thesis by blast
qed

end
