(* ===== verification/Call_Store.thy ===== *)
theory Call_Store
  imports Call_Ledger Run_Store
begin

text \<open>
  \<open>MongoAgentCallLedgerStore\<close> of \<open>execution/repository/orchestrator/stores.py\<close>, one document per call, and
  \<open>CountingAgentCallLedgerStore\<close> of \<open>a2a_runtime/call_counting.py\<close> around it. An operation that awaits
  between its reads and its write takes the store of each: another worker may have written in
  between. As in \<open>Run_Store\<close>, Mongo keeps milliseconds, and a write may fail before or after it took
  effect. The unique indexes are those of \<open>a2a_runtime/persistence.py\<close>.
\<close>

section \<open>Documents\<close>

definition stored_snapshot :: "dispatch_snapshot \<Rightarrow> dispatch_snapshot" where
  "stored_snapshot s = s\<lparr>ds_deadline_at := bson_millis (ds_deadline_at s)\<rparr>"

definition stored_call :: "call_record \<Rightarrow> call_record" where
  "stored_call r = r
     \<lparr>ac_dispatch_snapshot := stored_snapshot (ac_dispatch_snapshot r),
      ac_model_reply_joins := map (\<lambda>j. j\<lparr>jb_created_at := bson_millis (jb_created_at j)\<rparr>) (ac_model_reply_joins r),
      ac_answer_applied := map_option (\<lambda>m. m\<lparr>hm_applied_at := bson_millis (hm_applied_at m)\<rparr>) (ac_answer_applied r),
      ac_continuation_command :=
        map_option (\<lambda>c. c\<lparr>cn_created_at := bson_millis (cn_created_at c)\<rparr>) (ac_continuation_command r),
      ac_cancellation_command :=
        map_option (\<lambda>c. c\<lparr>cc_created_at := bson_millis (cc_created_at c)\<rparr>) (ac_cancellation_command r),
      ac_claim_expires_at := opt_millis (ac_claim_expires_at r),
      ac_next_attempt_at := opt_millis (ac_next_attempt_at r),
      ac_accepted_at := bson_millis (ac_accepted_at r),
      ac_updated_at := bson_millis (ac_updated_at r),
      ac_terminal_at := opt_millis (ac_terminal_at r)\<rparr>"

type_synonym call_docs = "call_record list"

definition find_call :: "call_docs \<Rightarrow> string \<Rightarrow> call_record option" where
  "find_call s k = List.find (\<lambda>r. ac_call_record_id r = k) s"

text \<open>\<open>_from_document\<close> validates what it read.\<close>

definition read_call ::
  "(tool_result \<Rightarrow> string) \<Rightarrow> call_record option \<Rightarrow> store_exn + call_record option" where
  "read_call digest doc = (case doc of None \<Rightarrow> Inr None
     | Some r \<Rightarrow> (case call_error digest r of Some m \<Rightarrow> Inl (ValidationFailed m) | None \<Rightarrow> Inr (Some r)))"

definition load_call_by_id ::
  "(tool_result \<Rightarrow> string) \<Rightarrow> call_docs \<Rightarrow> string \<Rightarrow> store_exn + call_record option" where
  "load_call_by_id digest s k = read_call digest (find_call s k)"

definition load_call ::
  "(tool_result \<Rightarrow> string) \<Rightarrow> call_docs \<Rightarrow> string \<Rightarrow> string \<Rightarrow> store_exn + call_record option" where
  "load_call digest s run invoc = read_call digest
     (List.find (\<lambda>r. ac_run_id r = run \<and> ac_invocation_id r = invoc) s)"

definition names_alias :: "string \<Rightarrow> alias_kind \<Rightarrow> string option \<Rightarrow> call_record \<Rightarrow> bool" where
  "names_alias scope kind v r \<longleftrightarrow> v \<noteq> None \<and> v \<noteq> Some [] \<and> ac_endpoint_scope_digest r = scope
     \<and> list_ex (\<lambda>a. oa_kind a = kind \<and> Some (oa_value a) = v \<and> oa_binding_scope a = scope)
         (ac_ownership_aliases r)"

text \<open>A correlation must be unique: two matches are none.\<close>

definition find_call_by_alias ::
  "(tool_result \<Rightarrow> string) \<Rightarrow> call_docs \<Rightarrow> string \<Rightarrow> string option \<Rightarrow> string option
     \<Rightarrow> store_exn + call_record option" where
  "find_call_by_alias digest s scope task ctx =
     (case filter (\<lambda>r. names_alias scope AliasTask task r \<or> names_alias scope AliasContext ctx r) s of
        [r] \<Rightarrow> read_call digest (Some r) | _ \<Rightarrow> Inr None)"

definition find_call_by_task_id ::
  "(tool_result \<Rightarrow> string) \<Rightarrow> call_docs \<Rightarrow> string \<Rightarrow> store_exn + call_record option" where
  "find_call_by_task_id digest s task =
     (case filter (\<lambda>r. list_ex (\<lambda>a. oa_kind a = AliasTask \<and> oa_value a = task) (ac_ownership_aliases r)) s of
        [r] \<Rightarrow> read_call digest (Some r) | _ \<Rightarrow> Inr None)"

section \<open>Unique indexes\<close>

definition alias_clash :: "call_record \<Rightarrow> call_record \<Rightarrow> bool" where
  "alias_clash a b \<longleftrightarrow> set (ac_ownership_alias_keys a) \<inter> set (ac_ownership_alias_keys b) \<noteq> {}"

definition call_clash :: "call_record \<Rightarrow> call_record \<Rightarrow> bool" where
  "call_clash a b \<longleftrightarrow>
     ac_run_id a = ac_run_id b \<and> ac_invocation_id a = ac_invocation_id b
   \<or> ac_acceptance_id a = ac_acceptance_id b
   \<or> ac_idempotency_key a = ac_idempotency_key b
   \<or> ac_run_id a = ac_run_id b \<and> ac_assistant_message_id a = ac_assistant_message_id b
       \<and> ac_source_index a = ac_source_index b
   \<or> alias_clash a b
   \<or> ac_pending_interaction_id a \<noteq> None \<and> ac_pending_interaction_id a = ac_pending_interaction_id b"

definition call_violation :: "call_docs \<Rightarrow> call_record \<Rightarrow> bool" where
  "call_violation s r \<longleftrightarrow> list_ex (\<lambda>d. ac_call_record_id d \<noteq> ac_call_record_id r \<and> call_clash d r) s"

section \<open>insert\<close>

definition acceptance_identity ::
  "call_record \<Rightarrow> string \<times> string \<times> string \<times> string \<times> string \<times> string \<times> string \<times> string \<times> int" where
  "acceptance_identity r = (ac_call_record_id r, ac_run_id r, ac_invocation_id r, ac_acceptance_id r,
     ac_idempotency_key r, ac_binding_digest r, ac_arguments_digest r,
     rm_content_digest (ac_resource_manifest r), ac_room_epoch r)"

type_synonym ledger_result = "store_exn + outcome"

definition same_acceptance :: "call_record option \<Rightarrow> call_record \<Rightarrow> bool" where
  "same_acceptance x r \<longleftrightarrow> (case x of None \<Rightarrow> False | Some e \<Rightarrow> acceptance_identity e = acceptance_identity r)"

definition insert_call ::
  "(tool_result \<Rightarrow> string) \<Rightarrow> call_docs \<Rightarrow> call_docs \<Rightarrow> fault \<Rightarrow> call_record \<Rightarrow> ledger_result \<times> call_docs" where
  "insert_call digest s0 s flt r =
     (case load_call digest s0 (ac_run_id r) (ac_invocation_id r) of
        Inl e \<Rightarrow> (Inl e, s)
      | Inr (Some x) \<Rightarrow> (Inr (replayed_if (same_acceptance (Some x) r)), s)
      | Inr None \<Rightarrow>
          (let refused = find_call s (ac_call_record_id r) \<noteq> None \<or> call_violation s r;
               s' = (if refused \<or> flt = FaultBefore then s else s @ [stored_call r]) in
           if flt \<noteq> NoFault then
             (case load_call digest s' (ac_run_id r) (ac_invocation_id r) of
                Inl e \<Rightarrow> (Inl e, s')
              | Inr x \<Rightarrow> (if same_acceptance x r then Inr Replayed else Inl AdapterFailed, s'))
           else if refused then
             (case load_call digest s (ac_run_id r) (ac_invocation_id r) of
                Inl e \<Rightarrow> (Inl e, s)
              | Inr x \<Rightarrow> (Inr (replayed_if (same_acceptance x r)), s))
           else (Inr Accepted, s')))"

section \<open>cas\<close>

definition replace_call :: "call_docs \<Rightarrow> call_record \<Rightarrow> call_docs" where
  "replace_call s r = map (\<lambda>d. if ac_call_record_id d = ac_call_record_id r then stored_call r else d) s"

definition call_version_matches :: "call_docs \<Rightarrow> string \<Rightarrow> int \<Rightarrow> bool" where
  "call_version_matches s k v \<longleftrightarrow> (case find_call s k of None \<Rightarrow> False | Some d \<Rightarrow> ac_state_version d = v)"

text \<open>\<open>s0\<close> is the store of the first read, \<open>s1\<close> that of the alias query, \<open>s\<close> that of the write.\<close>

definition cas_write ::
  "(tool_result \<Rightarrow> string) \<Rightarrow> call_docs \<Rightarrow> fault \<Rightarrow> call_record \<Rightarrow> int \<Rightarrow> ledger_result \<times> call_docs" where
  "cas_write digest s flt r v =
     (let found = call_version_matches s (ac_call_record_id r) v;
          refused = found \<and> call_violation s r;
          s' = (if \<not> found \<or> refused \<or> flt = FaultBefore then s else replace_call s r) in
      if flt \<noteq> NoFault then
        (case load_call_by_id digest s' (ac_call_record_id r) of
           Inl e \<Rightarrow> (Inl e, s')
         | Inr x \<Rightarrow> (if x = Some r then Inr Replayed else Inl AdapterFailed, s'))
      else if refused then (Inr Conflict, s)
      else if found then (Inr Accepted, s')
      else
        (case load_call_by_id digest s (ac_call_record_id r) of
           Inl e \<Rightarrow> (Inl e, s)
         | Inr x \<Rightarrow> (Inr (replayed_if (x = Some r)), s)))"

definition cas_call ::
  "(tool_result \<Rightarrow> string) \<Rightarrow> call_docs \<Rightarrow> call_docs \<Rightarrow> call_docs \<Rightarrow> fault \<Rightarrow> call_record \<Rightarrow> int
     \<Rightarrow> ledger_result \<times> call_docs" where
  "cas_call digest s0 s1 s flt r v =
     (case load_call_by_id digest s0 (ac_call_record_id r) of
        Inl e \<Rightarrow> (Inl e, s)
      | Inr None \<Rightarrow> (Inr StoreError, s)
      | Inr (Some c) \<Rightarrow>
          if c = r then (Inr Replayed, s)
          else if ac_state_version c \<noteq> v \<or> ac_state_version r \<noteq> v + 1 then (Inr Conflict, s)
          else if ac_ownership_alias_keys r \<noteq> []
              \<and> list_ex (\<lambda>d. ac_call_record_id d \<noteq> ac_call_record_id r \<and> alias_clash d r) s1
          then (Inr Conflict, s)
          else cas_write digest s flt r v)"

text \<open>\<open>cas\<close> with nothing in between.\<close>

definition cas_call_now ::
  "(tool_result \<Rightarrow> string) \<Rightarrow> call_docs \<Rightarrow> call_record \<Rightarrow> int \<Rightarrow> ledger_result \<times> call_docs" where
  "cas_call_now digest s r v = cas_call digest s s s NoFault r v"

section \<open>Leases\<close>

definition later :: "datetime option \<Rightarrow> datetime \<Rightarrow> bool" where
  "later t now \<longleftrightarrow> (case t of None \<Rightarrow> False | Some x \<Rightarrow> now < x)"

text \<open>The three lease operations load, decide, and write the decision with \<open>cas\<close>.\<close>

definition cas_or_none ::
  "(tool_result \<Rightarrow> string) \<Rightarrow> call_docs \<Rightarrow> (call_record \<Rightarrow> call_record option) \<Rightarrow> string
     \<Rightarrow> (store_exn + call_record option) \<times> call_docs" where
  "cas_or_none digest s decide k = (case load_call_by_id digest s k of
      Inl e \<Rightarrow> (Inl e, s)
    | Inr None \<Rightarrow> (Inr None, s)
    | Inr (Some r) \<Rightarrow> (case decide r of
          None \<Rightarrow> (Inr None, s)
        | Some r' \<Rightarrow> (case cas_call_now digest s r' (ac_state_version r) of
              (Inl e, s') \<Rightarrow> (Inl e, s')
            | (Inr oc, s') \<Rightarrow> (Inr (if oc \<in> {Accepted, Replayed} then Some r' else None), s'))))"

definition claim_decision :: "int \<Rightarrow> string \<Rightarrow> datetime \<Rightarrow> datetime \<Rightarrow> call_record \<Rightarrow> call_record option" where
  "claim_decision v owner lease now r =
     (if ac_state_version r \<noteq> v \<or> lease \<le> now \<or> later (ac_claim_expires_at r) now
         \<or> later (ac_next_attempt_at r) now then None
      else Some (r\<lparr>ac_claim_owner := Some owner, ac_claim_expires_at := Some lease,
        ac_next_attempt_at := None, ac_state_version := ac_state_version r + 1, ac_updated_at := now\<rparr>))"

definition renew_decision :: "int \<Rightarrow> string \<Rightarrow> datetime \<Rightarrow> datetime \<Rightarrow> call_record \<Rightarrow> call_record option" where
  "renew_decision v owner lease now r =
     (case ac_claim_expires_at r of
        None \<Rightarrow> None
      | Some old \<Rightarrow>
          if ac_state_version r \<noteq> v \<or> ac_claim_owner r \<noteq> Some owner \<or> lease \<le> now \<or> lease \<le> old then None
          else Some (r\<lparr>ac_claim_expires_at := Some lease, ac_state_version := ac_state_version r + 1,
            ac_updated_at := now\<rparr>))"

definition release_decision ::
  "int \<Rightarrow> string \<Rightarrow> datetime option \<Rightarrow> datetime \<Rightarrow> call_record \<Rightarrow> call_record option" where
  "release_decision v owner nxt now r =
     (if ac_state_version r \<noteq> v \<or> ac_claim_owner r \<noteq> Some owner then None
      else Some (r\<lparr>ac_claim_owner := None, ac_claim_expires_at := None, ac_next_attempt_at := nxt,
        ac_state_version := ac_state_version r + 1, ac_updated_at := now\<rparr>))"

definition claim_call where
  "claim_call digest s k v owner lease now = cas_or_none digest s (claim_decision v owner lease now) k"

definition renew_call where
  "renew_call digest s k v owner lease now = cas_or_none digest s (renew_decision v owner lease now) k"

definition release_call where
  "release_call digest s k v owner nxt now = cas_or_none digest s (release_decision v owner nxt now) k"

section \<open>Listings and cleanup\<close>

definition call_due :: "datetime \<Rightarrow> call_record \<Rightarrow> bool" where
  "call_due now r \<longleftrightarrow> \<not> terminal_call_state (ac_state r)
     \<and> \<not> later (ac_next_attempt_at r) now \<and> \<not> later (ac_claim_expires_at r) now"

fun read_all :: "(tool_result \<Rightarrow> string) \<Rightarrow> call_record list \<Rightarrow> store_exn + call_record list" where
  "read_all digest [] = Inr []"
| "read_all digest (r # rs) = (case read_call digest (Some r) of
      Inl e \<Rightarrow> Inl e
    | Inr x \<Rightarrow> map_sum id (\<lambda>ys. r # ys) (read_all digest rs))"

definition list_due_calls where
  "list_due_calls digest s now lmt = read_all digest (take (nat lmt) (filter (call_due now) s))"

definition list_calls_for_run where
  "list_calls_for_run digest s run = read_all digest (filter (\<lambda>r. ac_run_id r = run) s)"

definition delete_calls_by_epoch :: "call_docs \<Rightarrow> string \<Rightarrow> int \<Rightarrow> int \<times> call_docs" where
  "delete_calls_by_epoch s conv epoch =
     (let gone = (\<lambda>r. ac_conversation_id r = conv \<and> ac_room_epoch r = epoch) in
      (int (length (filter gone s)), filter (Not \<circ> gone) s))"

section \<open>Counting finished calls\<close>

text \<open>
  \<open>CountingAgentCallLedgerStore.cas\<close>: \<open>sp\<close> is the store its own read sees, before the inner \<open>cas\<close>. The
  result carries the count it adds: the Agent and whether the call succeeded.
\<close>

definition not_dispatched :: "call_state \<Rightarrow> bool" where
  "not_dispatched s \<longleftrightarrow> s \<in> {CsAccepted, CsReadyToDispatch}"

definition counts_call :: "call_record option \<Rightarrow> bool" where
  "counts_call prior \<longleftrightarrow> (case prior of None \<Rightarrow> False
     | Some p \<Rightarrow> \<not> terminal_call_state (ac_state p) \<and> \<not> not_dispatched (ac_state p))"

definition counting_cas ::
  "(tool_result \<Rightarrow> string) \<Rightarrow> call_docs \<Rightarrow> call_docs \<Rightarrow> call_docs \<Rightarrow> call_docs \<Rightarrow> fault
     \<Rightarrow> call_record \<Rightarrow> int \<Rightarrow> (ledger_result \<times> (string \<times> bool) option) \<times> call_docs" where
  "counting_cas digest sp s0 s1 s flt r v =
     (case (if terminal_call_state (ac_state r) then load_call_by_id digest sp (ac_call_record_id r)
            else Inr None) of
        Inl e \<Rightarrow> ((Inl e, None), s)
      | Inr prior \<Rightarrow>
          (let (oc, s') = cas_call digest s0 s1 s flt r v in
           ((oc, if oc = Inr Accepted \<and> counts_call prior
                 then Some (ac_agent_id r, ac_state r = CsCompleted) else None), s')))"

end
