(* ===== verification/Ledger_Properties.thy ===== *)
theory Ledger_Properties
  imports Call_Ledger
begin

text \<open>
  What the ledger's rules guarantee of a call record: observations keep it valid, and a finished call
  only ever confirms its own result.
\<close>

section \<open>Validity\<close>

lemma call_valid_iff:
  "call_valid digest r \<longleftrightarrow> call_field_error r = None \<and> distinct (ac_recent_observation_ids r)
     \<and> sort (ac_ownership_alias_keys r) = ownership_alias_keys (ac_ownership_aliases r)
     \<and> verdict_error digest r = None \<and> snapshot_correlates r
     \<and> list_all (\<lambda>a. oa_binding_scope a = ac_endpoint_scope_digest r) (ac_ownership_aliases r)
     \<and> distinct (map vb_reference_digest (ac_consumed_auth_references r))
     \<and> marker_correlates r \<and> command_error r = None"
  by (simp add: call_valid_def call_error_def first_error_None)

lemma verdict_error_None:
  "verdict_error digest r = None \<longleftrightarrow>
     (terminal_call_state (ac_state r) \<longrightarrow> ac_terminal_at r \<noteq> None \<and> ac_terminal_result r \<noteq> None)
   \<and> (\<not> terminal_call_state (ac_state r) \<longrightarrow> ac_terminal_at r = None)
   \<and> (\<forall>t \<in> set_option (ac_terminal_result r). tr_call_id t = ac_invocation_id r
        \<and> tr_tool_name t = ac_tool_name r \<and> ac_terminal_result_digest r = Some (digest t))"
  by (cases "ac_terminal_result r") (auto simp: verdict_error_def first_error_None)

lemma sort_alias_keys [simp]: "sort (ownership_alias_keys as) = ownership_alias_keys as"
  by (simp add: ownership_alias_keys_def sorted_sort_id)

lemma bind_alias_scope:
  assumes "bind_alias scope as kind v = Inr as'" and "list_all (\<lambda>a. oa_binding_scope a = scope) as"
  shows "list_all (\<lambda>a. oa_binding_scope a = scope) as'"
  using assms by (auto simp: bind_alias_def Let_def split: option.splits if_splits)

lemma bind_aliases_scope:
  assumes "bind_authoritative_aliases r task ctx = Inr as"
    and "list_all (\<lambda>a. oa_binding_scope a = ac_endpoint_scope_digest r) (ac_ownership_aliases r)"
  shows "list_all (\<lambda>a. oa_binding_scope a = ac_endpoint_scope_digest r) as"
  using assms by (auto simp: bind_authoritative_aliases_def split: sum.splits dest: bind_alias_scope)

lemma recent_window:
  assumes "0 < limit" and "limit \<le> 128" and "distinct ids" and "x \<notin> set ids"
  shows "length (slice_from (- limit) (ids @ [x])) \<le> 128" and "distinct (slice_from (- limit) (ids @ [x]))"
proof -
  have "length (drop k ys) \<le> n" if "length ys - n \<le> k" for k n and ys :: "'a list" using that by simp
  moreover have "nat limit \<le> 128" using assms(2) by simp
  ultimately show "length (slice_from (- limit) (ids @ [x])) \<le> 128" using assms(1)
    by (simp add: slice_from_def)
  have "distinct (ids @ [x])" using assms(3,4) by simp
  then show "distinct (slice_from (- limit) (ids @ [x]))" unfolding slice_from_def
    by (simp only: if_split distinct_drop simp_thms)
qed

text \<open>The parts of a valid record that a step must re-establish; the rest follows its identity.\<close>

definition base_valid :: "call_record \<Rightarrow> bool" where
  "base_valid r \<longleftrightarrow> call_field_error r = None \<and> distinct (ac_recent_observation_ids r)
     \<and> sort (ac_ownership_alias_keys r) = ownership_alias_keys (ac_ownership_aliases r)
     \<and> snapshot_correlates r
     \<and> list_all (\<lambda>a. oa_binding_scope a = ac_endpoint_scope_digest r) (ac_ownership_aliases r)
     \<and> distinct (map vb_reference_digest (ac_consumed_auth_references r))
     \<and> marker_correlates r \<and> command_error r = None"

lemma call_valid_base: "call_valid digest r \<longleftrightarrow> base_valid r \<and> verdict_error digest r = None"
  by (auto simp: call_valid_iff base_valid_def)

lemma marker_correlates_iff:
  "marker_correlates r \<longleftrightarrow> (\<forall>m \<in> set_option (ac_answer_applied r).
       Some (hm_interaction_id m) = ac_pending_interaction_id r
     \<and> Some (hm_interaction_revision m) = ac_interaction_revision r
     \<and> hm_answerer_digest m = ac_requesting_subject_digest r)"
  by (cases "ac_answer_applied r") (simp_all add: marker_correlates_def)

lemma command_error_None:
  "command_error r = None \<longleftrightarrow>
     (ac_continuation_command r = None \<longleftrightarrow> ac_continuation_state r = None)
   \<and> (\<forall>c \<in> set_option (ac_continuation_command r). continuation_correlates r c)
   \<and> (ac_cancellation_command r = None \<longleftrightarrow> ac_cancellation_state r = None)
   \<and> (\<forall>c \<in> set_option (ac_cancellation_command r). cc_call_record_id c = ac_call_record_id r)
   \<and> map_option cc_command_id (ac_cancellation_command r) = ac_cancellation_command_id r"
  by (cases "ac_continuation_command r"; cases "ac_cancellation_command r")
    (auto simp: command_error_def first_error_None)

lemmas base_defs = base_valid_def call_field_error_def first_error_None snapshot_correlates_def
  marker_correlates_iff command_error_None continuation_correlates_def

lemma base_common:
  assumes "base_valid r" and "0 < limit" and "limit \<le> 128"
    and "ob_observation_id x \<notin> set (ac_recent_observation_ids r)"
    and "list_all (\<lambda>a. oa_binding_scope a = ac_endpoint_scope_digest r) as"
  shows "base_valid (common_updates as limit x r)"
  using assms recent_window [OF assms(2,3) _ assms(4)]
  by (simp add: base_defs common_updates_def)

lemma base_clear: "base_valid r \<Longrightarrow> base_valid (clear_interaction r)"
  by (simp add: base_defs clear_interaction_def)

lemma base_result:
  "base_valid r \<Longrightarrow> base_valid (r\<lparr>ac_artifact_refs := a, ac_terminal_result := b,
     ac_terminal_result_digest := c, ac_error_code := d, ac_error_message := e\<rparr>)"
  by (simp add: base_defs)

lemma base_refs: "base_valid r \<Longrightarrow> base_valid (r\<lparr>ac_artifact_refs := a\<rparr>)"
  by (simp add: base_defs)

lemma transition_valid:
  assumes "transition_call r t now None f = Inr r'" and "base_valid (f r)" and "0 \<le> ac_state_version r"
    and "terminal_call_state t \<longrightarrow> ac_terminal_result (f r) \<noteq> None"
    and "\<forall>res \<in> set_option (ac_terminal_result (f r)). tr_call_id res = ac_invocation_id (f r)
        \<and> tr_tool_name res = ac_tool_name (f r) \<and> ac_terminal_result_digest (f r) = Some (digest res)"
  shows "call_valid digest r'"
proof -
  from assms(1) have r': "r' = (if terminal_call_state t
        then (f r)\<lparr>ac_terminal_at := Some now, ac_claim_owner := None, ac_claim_expires_at := None,
          ac_next_attempt_at := None\<rparr> else (f r)\<lparr>ac_terminal_at := None\<rparr>)
      \<lparr>ac_state := t, ac_state_version := ac_state_version r + 1, ac_updated_at := now\<rparr>"
    by (auto simp: transition_call_def Let_def split: if_splits)
  have "base_valid r'" using assms(2,3) by (simp add: r' base_defs)
  moreover have "verdict_error digest r' = None"
    using assms(4,5) by (auto simp: r' verdict_error_None)
  ultimately show ?thesis by (simp add: call_valid_base)
qed

lemma accept_valid:
  assumes a: "accept_observation digest limit r x as = Inr r'" and v: "call_valid digest r"
    and l: "0 < limit" "limit \<le> 128" and n: "ob_observation_id x \<notin> set (ac_recent_observation_ids r)"
    and s: "list_all (\<lambda>a. oa_binding_scope a = ac_endpoint_scope_digest r) as"
    and t: "\<not> terminal_call_state (ac_state r)"
  shows "call_valid digest r'"
proof -
  from v have b: "base_valid r" and e: "verdict_error digest r = None" and z: "0 \<le> ac_state_version r"
    by (auto simp: call_valid_base base_defs)
  note c = base_common [OF _ l]
  consider "is_interaction_event x" | "\<not> is_interaction_event x" "is_progress x"
    | "\<not> is_interaction_event x" "\<not> is_progress x" by blast
  then show ?thesis
  proof cases
    case 1
    with a have "transition_call r CsContinuationPending (ob_observed_at x) None
        (\<lambda>u. common_updates as limit x (clear_interaction u)) = Inr r'"
      by (simp add: accept_observation_def)
    moreover have "base_valid (common_updates as limit x (clear_interaction r))"
      by (rule c [OF base_clear [OF b]]) (use n s in \<open>simp_all add: clear_interaction_def\<close>)
    ultimately show ?thesis using z
      by (rule transition_valid)
        (use e in \<open>simp_all add: verdict_error_None common_updates_def clear_interaction_def
          terminal_call_state_def\<close>)
  next
    case 2
    have w: "base_valid (common_updates as limit x (r\<lparr>ac_artifact_refs := merged_refs r x\<rparr>))"
      by (rule c [OF base_refs [OF b]]) (use n s in simp_all)
    show ?thesis
    proof (cases "ac_state r \<in> {CsDispatching, CsDeliveryUncertain, CsResuming}")
      case True
      with 2 a have "transition_call r CsWorking (ob_observed_at x) None
          (\<lambda>u. common_updates as limit x (u\<lparr>ac_artifact_refs := merged_refs r x\<rparr>)) = Inr r'"
        by (simp add: accept_observation_def)
      then show ?thesis using w z
        by (rule transition_valid)
          (use e in \<open>simp_all add: verdict_error_None common_updates_def terminal_call_state_def\<close>)
    next
      case False
      with 2 a have r': "r' = (common_updates as limit x r)\<lparr>ac_artifact_refs := merged_refs r x,
          ac_state_version := ac_state_version r + 1, ac_updated_at := ob_observed_at x\<rparr>"
        by (simp add: accept_observation_def)
      from c [OF b n s] z have "base_valid r'" by (simp add: r' base_defs)
      moreover have "verdict_error digest r' = None"
        using e by (simp add: r' verdict_error_None common_updates_def)
      ultimately show ?thesis by (simp add: call_valid_base)
    qed
  next
    case 3
    let ?f = "\<lambda>res u. common_updates as limit x (u\<lparr>ac_artifact_refs := merged_refs r x,
       ac_terminal_result := Some res, ac_terminal_result_digest := Some (digest res),
       ac_error_code := ob_error_code x, ac_error_message := ob_error_message x\<rparr>)"
    from 3 a obtain st res where o: "observation_result r x = Some res"
      and "transition_call r (state_of_status st) (ob_observed_at x) None (?f res) = Inr r'"
      by (auto simp: accept_observation_def split: option.splits)
    moreover have "base_valid (?f res r)"
      by (rule c [OF base_result [OF b]]) (use n s in simp_all)
    moreover from o have "tr_call_id res = ac_invocation_id r" "tr_tool_name res = ac_tool_name r"
      by (auto simp: observation_result_def split: option.splits)
    ultimately show ?thesis using z
      by (intro transition_valid [of r "state_of_status st" "ob_observed_at x" "?f res" r' digest])
        (simp_all add: common_updates_def)
  qed
qed

text \<open>
  C28: Observations keep a call record valid. \<open>model_copy\<close> does not validate, so the rules have to:
  applying any observation to a valid record, with a window of recent ids within the policy's
  bounds, either raises or yields a record that passes its validator: its recent ids are unique and within the
  bound, its alias keys and scopes match, a terminal record has its finishing time and its result while an
  unfinished one has no finishing time, a result that is present correlates with the call and its digest,
  and the markers and commands correlate. The record is the next version of the same call by a step of the
  table, or the record itself.
\<close>

theorem observation_keeps_call_valid:
  assumes "call_valid digest r" and "0 < limit" and "limit \<le> 128"
    and "apply_call_observation digest limit r x = Inr r'"
  shows "call_valid digest r' \<and> (r' = r \<or> call_follows r r')"
proof -
  have "call_valid digest r'"
  proof (cases "r' = r")
    case True
    with assms(1) show ?thesis by simp
  next
    case False
    with assms(4) obtain as where "bind_authoritative_aliases r (ob_task_id x) (ob_context_id x) = Inr as"
      and "accept_observation digest limit r x as = Inr r'"
      and "ob_observation_id x \<notin> set (ac_recent_observation_ids r)" "\<not> terminal_call_state (ac_state r)"
      by (auto simp: apply_call_observation_def late_observation_def split: if_splits sum.splits option.splits)
    with assms(1-3) show ?thesis using bind_aliases_scope accept_valid
      by (metis call_valid_iff)
  qed
  with observation_follows [OF assms(4)] show ?thesis by blast
qed

section \<open>Redelivery\<close>

lemma accept_records_id:
  assumes "accept_observation digest limit r x as = Inr r'" and "0 < limit"
  shows "ob_observation_id x \<in> set (ac_recent_observation_ids r')"
proof -
  have k: "ob_observation_id x \<in> set (slice_from (- limit) (ids @ [ob_observation_id x]))" for ids
    using assms(2) by (simp add: slice_from_def)
  have t: "ac_recent_observation_ids r' = ac_recent_observation_ids (f r)"
    if "transition_call r st now None f = Inr r'" for st now f
    using that by (auto simp: transition_call_def Let_def split: if_splits)
  have c: "ac_recent_observation_ids (common_updates as limit x u)
      = slice_from (- limit) (ac_recent_observation_ids u @ [ob_observation_id x])" for u
    by (simp add: common_updates_def)
  from assms(1) k c show ?thesis
    by (auto simp: accept_observation_def split: if_splits option.splits dest!: t)
qed

lemma merged_again:
  assumes "ac_artifact_refs r' = merged_refs r x" and "set (ob_artifact_refs y) \<subseteq> set (ob_artifact_refs x)"
  shows "merged_refs r' y = merged_refs r x"
proof -
  have "filter (\<lambda>a. a \<notin> set (merged_refs r x)) (fromkeys (ob_artifact_refs y)) = []"
    using assms(2) by (auto simp: merged_refs_def filter_empty_conv)
  moreover have "fromkeys (merged_refs r x) = merged_refs r x" by (simp add: merged_refs_def)
  ultimately show ?thesis using assms(1) by (simp add: merged_refs_def [of r' y] fromkeys_append)
qed

lemma ending_result:
  assumes "accept_observation digest limit r x as = Inr r'" and "terminal_call_state (ac_state r')"
    and "\<not> terminal_call_state (ac_state r)"
  shows "\<exists>t. observation_result r x = Some t \<and> ac_terminal_result_digest r' = Some (digest t)
    \<and> ac_artifact_refs r' = merged_refs r x \<and> ac_invocation_id r' = ac_invocation_id r
    \<and> ac_tool_name r' = ac_tool_name r"
proof -
  have "\<not> is_interaction_event x" "\<not> is_progress x"
    using assms by (auto simp: accept_observation_def transition_call_def terminal_call_state_def
        common_updates_def Let_def split: if_splits)
  then show ?thesis using assms(1)
    by (auto simp: accept_observation_def transition_call_def common_updates_def Let_def
        split: option.splits if_splits)
qed

lemma terminal_observed:
  assumes "terminal_call_state (ac_state r)" and "ob_event_kind y = EvTerminal"
    and "observation_result r y = Some t"
  shows "apply_call_observation digest limit r y
    = (if ob_observation_id y \<in> set (ac_recent_observation_ids r)
          \<or> Some (digest t) = ac_terminal_result_digest r then Inr r
       else Inl (ConflictingTerminal (the (str_or (ac_terminal_result_digest r) (Some ''missing''))) (digest t)))"
  using assms by (simp add: apply_call_observation_def late_observation_def)

text \<open>
  C29: Redelivered evidence changes nothing. Applying an observation a second time returns the record
  unchanged. When the observation ended the call, consider a later terminal observation under any id that
  is not among the remembered ones, so also after the window of ids has moved on. If it has the same status,
  content and error and no new artifact, the record is returned unchanged. Otherwise, when its result has
  another digest than the one the call ended with, it is refused as a conflict that names both digests, the
  persisted one first. (Under a remembered id the record is returned unchanged whatever the content.)
\<close>

theorem redelivered_evidence_changes_nothing:
  assumes "apply_call_observation digest limit r x = Inr r'" and "0 < limit"
  shows "apply_call_observation digest limit r' x = Inr r'
    \<and> (\<not> terminal_call_state (ac_state r) \<and> terminal_call_state (ac_state r') \<longrightarrow>
       (\<forall>y. ob_event_kind y = EvTerminal \<and> ob_observation_id y \<notin> set (ac_recent_observation_ids r') \<longrightarrow>
         (if ob_status y = ob_status x \<and> ob_content y = ob_content x \<and> ob_error_code y = ob_error_code x
            \<and> ob_error_message y = ob_error_message x \<and> set (ob_artifact_refs y) \<subseteq> set (ob_artifact_refs x)
          then apply_call_observation digest limit r' y = Inr r'
          else \<forall>t u. observation_result r' y = Some t \<and> observation_result r x = Some u \<and> digest t \<noteq> digest u
            \<longrightarrow> apply_call_observation digest limit r' y
                = Inl (ConflictingTerminal (if digest u = [] then ''missing'' else digest u) (digest t)))))"
proof (intro conjI impI allI)
  show "apply_call_observation digest limit r' x = Inr r'"
  proof (cases "r' = r")
    case True
    with assms(1) show ?thesis by simp
  next
    case False
    with assms(1) obtain as where "accept_observation digest limit r x as = Inr r'"
      by (auto simp: apply_call_observation_def late_observation_def split: if_splits sum.splits option.splits)
    from accept_records_id [OF this assms(2)] show ?thesis by (simp add: apply_call_observation_def)
  qed
next
  fix y :: observation
  assume t: "\<not> terminal_call_state (ac_state r) \<and> terminal_call_state (ac_state r')"
    and y': "ob_event_kind y = EvTerminal \<and> ob_observation_id y \<notin> set (ac_recent_observation_ids r')"
  then have y: "ob_event_kind y = EvTerminal" "ob_observation_id y \<notin> set (ac_recent_observation_ids r')"
    by simp_all
  from t y obtain as where "accept_observation digest limit r x as = Inr r'"
    using assms(1) by (auto simp: apply_call_observation_def split: if_splits sum.splits)
  from ending_result [OF this] t obtain u where u: "observation_result r x = Some u"
    "ac_terminal_result_digest r' = Some (digest u)" "ac_artifact_refs r' = merged_refs r x"
    "ac_invocation_id r' = ac_invocation_id r" "ac_tool_name r' = ac_tool_name r" by blast
  note late = terminal_observed [OF conjunct2 [OF t] y(1)]
  show "if ob_status y = ob_status x \<and> ob_content y = ob_content x \<and> ob_error_code y = ob_error_code x
       \<and> ob_error_message y = ob_error_message x \<and> set (ob_artifact_refs y) \<subseteq> set (ob_artifact_refs x)
    then apply_call_observation digest limit r' y = Inr r'
    else \<forall>t u. observation_result r' y = Some t \<and> observation_result r x = Some u \<and> digest t \<noteq> digest u
      \<longrightarrow> apply_call_observation digest limit r' y
        = Inl (ConflictingTerminal (if digest u = [] then ''missing'' else digest u) (digest t))"
  proof (split if_split, intro conjI impI allI)
    assume s: "ob_status y = ob_status x \<and> ob_content y = ob_content x \<and> ob_error_code y = ob_error_code x
       \<and> ob_error_message y = ob_error_message x \<and> set (ob_artifact_refs y) \<subseteq> set (ob_artifact_refs x)"
    with merged_again [OF u(3)] have "merged_refs r' y = merged_refs r x" by blast
    with s u have "observation_result r' y = Some u" by (simp add: observation_result_def cong: option.case_cong)
    with late u(2) show "apply_call_observation digest limit r' y = Inr r'" by simp
  next
    fix t v
    assume "observation_result r' y = Some t \<and> observation_result r x = Some v \<and> digest t \<noteq> digest v"
    with late u y(2) show "apply_call_observation digest limit r' y
        = Inl (ConflictingTerminal (if digest v = [] then ''missing'' else digest v) (digest t))"
      by (auto simp: str_or_def)
  qed
qed

end
