(* ===== verification/Call_History.thy ===== *)
theory Call_History
  imports Call_Store Ledger_Properties Versioned
begin

text \<open>
  The call ledger under concurrent workers. A history is the list of the stores the collection went
  through, the latest first; a step inserts a call or writes, by compare-and-swap, a candidate
  that some worker computed from a copy of the call as it was in any earlier store. Versions fence
  every such write (\<open>Versioned\<close>), so the calls of a history move along the table of the ledger, and
  a finished call keeps its verdict.
\<close>

section \<open>Stored documents\<close>

lemma stored_call_idem [simp]: "stored_call (stored_call r) = stored_call r"
  by (simp add: stored_call_def stored_snapshot_def o_def option.map_comp)

lemma stored_call_simps [simp]:
  "ac_call_record_id (stored_call r) = ac_call_record_id r"
  "ac_state_version (stored_call r) = ac_state_version r"
  "ac_state (stored_call r) = ac_state r"
  "ac_agent_id (stored_call r) = ac_agent_id r"
  by (simp_all add: stored_call_def)

lemma stored_follows:
  assumes "call_follows c r"
  shows "call_follows (stored_call c) (stored_call r)"
  using assms by (auto simp: call_follows_def call_identity_def call_verdict_def stored_call_def)

lemma find_call_id: "find_call s k = Some d \<Longrightarrow> ac_call_record_id d = k \<and> d \<in> set s"
  by (induction s) (auto simp: find_call_def split: if_splits)

lemma find_call_replace:
  "find_call (replace_call s r) k
     = (if k = ac_call_record_id r then map_option (\<lambda>_. stored_call r) (find_call s k) else find_call s k)"
  by (induction s) (auto simp: find_call_def replace_call_def)

lemma find_call_append: "find_call (s @ t) k = (case find_call s k of None \<Rightarrow> find_call t k | Some d \<Rightarrow> Some d)"
  by (induction s) (auto simp: find_call_def)

section \<open>What one write does\<close>

lemma cas_write_store:
  "snd (cas_write digest s flt r v) = s
   \<or> call_version_matches s (ac_call_record_id r) v \<and> \<not> call_violation s r
     \<and> snd (cas_write digest s flt r v) = replace_call s r"
  by (auto simp: cas_write_def Let_def split: sum.splits)

lemma cas_call_store:
  "snd (cas_call digest s0 s1 s flt r v) = s
   \<or> call_version_matches s (ac_call_record_id r) v \<and> ac_state_version r = v + 1
     \<and> snd (cas_call digest s0 s1 s flt r v) = replace_call s r"
  using cas_write_store [of digest s flt r v]
  by (auto simp: cas_call_def split: sum.splits option.splits)

lemma cas_call_accepted:
  assumes "cas_call digest s0 s1 s flt r v = (Inr Accepted, s')"
  shows "call_version_matches s (ac_call_record_id r) v" "s' = replace_call s r" "ac_state_version r = v + 1"
proof -
  from assms have w: "cas_write digest s flt r v = (Inr Accepted, s')" and "ac_state_version r = v + 1"
    by (auto simp: cas_call_def split: sum.splits option.splits if_splits)
  then show "ac_state_version r = v + 1" by simp
  from w show "call_version_matches s (ac_call_record_id r) v" "s' = replace_call s r"
    by (auto simp: cas_write_def Let_def replayed_if_def split: sum.splits if_splits)
qed

lemma insert_call_store:
  "snd (insert_call digest s0 s flt r) = s
   \<or> find_call s (ac_call_record_id r) = None \<and> snd (insert_call digest s0 s flt r) = s @ [stored_call r]"
  by (auto simp: insert_call_def Let_def split: sum.splits option.splits)

text \<open>
  What a worker holding the copy \<open>c\<close> of a call writes. It moves the call by \<open>transition_call\<close>, with updates
  of fields that are not its identity; or it applies an observation; or it keeps books: \<open>renew\<close>,
  \<open>release\<close>, the rescheduling and the markers of \<open>runtime.py\<close>, \<open>recovery.py\<close>, \<open>push.py\<close> and \<open>hitl.py\<close> copy
  the record with new values of the fields below (those of \<open>b\<close>) and the next version.
\<close>

definition bookkeep :: "datetime \<Rightarrow> call_record \<Rightarrow> call_record \<Rightarrow> call_record" where
  "bookkeep now b c = c\<lparr>ac_claim_owner := ac_claim_owner b, ac_claim_expires_at := ac_claim_expires_at b,
     ac_next_attempt_at := ac_next_attempt_at b, ac_inspection_attempts := ac_inspection_attempts b,
     ac_model_reply_rounds := ac_model_reply_rounds b, ac_model_reply_joins := ac_model_reply_joins b,
     ac_answer_applied := ac_answer_applied b, ac_consumed_auth_references := ac_consumed_auth_references b,
     ac_continuation_state := ac_continuation_state b, ac_continuation_attempts := ac_continuation_attempts b,
     ac_authorization_refresh_attempts := ac_authorization_refresh_attempts b,
     ac_state_version := ac_state_version c + 1, ac_updated_at := now\<rparr>"

inductive worker_candidate :: "call_record \<Rightarrow> call_record \<Rightarrow> bool" for c where
  candidate_transition: "transition_call c t now tat upd = Inr r \<Longrightarrow> call_identity (upd c) = call_identity c
    \<Longrightarrow> worker_candidate c r"
| candidate_observation: "apply_call_observation digest limit c x = Inr r \<Longrightarrow> worker_candidate c r"
| candidate_bookkeeping: "worker_candidate c (bookkeep now b c)"

lemma candidate_follows: "worker_candidate c r \<Longrightarrow> r = c \<or> call_follows c r"
proof (induction rule: worker_candidate.induct)
  case (candidate_transition t now tat upd r)
  then show ?case using transition_follows(1) by blast
next
  case (candidate_observation digest limit x r)
  then show ?case using observation_follows by blast
next
  case (candidate_bookkeeping now b)
  show ?case by (simp add: bookkeep_def call_follows_def call_identity_def call_verdict_def)
qed

lemma worker_candidate_id: "worker_candidate c r \<Longrightarrow> ac_call_record_id r = ac_call_record_id c"
  by (auto simp: call_follows_def call_identity_def dest: candidate_follows)

lemma lease_candidates:
  "claim_decision v owner lease now c = Some r \<Longrightarrow> worker_candidate c r"
  "renew_decision v owner lease now c = Some r \<Longrightarrow> worker_candidate c r"
  "release_decision v owner nxt now c = Some r \<Longrightarrow> worker_candidate c r"
proof -
  assume "claim_decision v owner lease now c = Some r"
  then have "r = bookkeep now r c" by (auto simp: claim_decision_def bookkeep_def split: if_splits)
  then show "worker_candidate c r" by (metis candidate_bookkeeping)
next
  assume "renew_decision v owner lease now c = Some r"
  then have "r = bookkeep now r c" by (auto simp: renew_decision_def bookkeep_def split: if_splits option.splits)
  then show "worker_candidate c r" by (metis candidate_bookkeeping)
next
  assume "release_decision v owner nxt now c = Some r"
  then have "r = bookkeep now r c" by (auto simp: release_decision_def bookkeep_def split: if_splits)
  then show "worker_candidate c r" by (metis candidate_bookkeeping)
qed

definition call_put :: "call_record \<Rightarrow> call_docs \<Rightarrow> call_docs \<Rightarrow> bool" where
  "call_put c s s' \<longleftrightarrow> (\<exists>digest s0 s1 flt r. worker_candidate c r
     \<and> s' = snd (cas_call digest s0 s1 s flt r (ac_state_version c)))"

abbreviation calls_keep :: "call_docs \<Rightarrow> call_docs \<Rightarrow> string \<Rightarrow> bool" where
  "calls_keep \<equiv> keeps find_call ac_state_version stored_call"

abbreviation calls_advance :: "call_docs \<Rightarrow> call_docs \<Rightarrow> string \<Rightarrow> bool" where
  "calls_advance \<equiv> advances find_call ac_state_version stored_call call_follows"

abbreviation call_snapshot :: "call_docs \<Rightarrow> call_record \<Rightarrow> bool" where
  "call_snapshot \<equiv> snapshot_ok find_call ac_call_record_id ac_state_version stored_call"

interpretation calls: versioned_documents find_call ac_call_record_id ac_state_version stored_call
  call_follows call_put
proof
  fix c s s' k assume "call_put c s s'"
  then obtain r where w: "worker_candidate c r" and st: "s' = s \<or> s' = replace_call s r
      \<and> call_version_matches s (ac_call_record_id r) (ac_state_version c) \<and> ac_state_version r = ac_state_version c + 1"
    unfolding call_put_def using cas_call_store by metis
  note id = worker_candidate_id [OF w]
  from st show "calls_keep s s' k" if "k \<noteq> ac_call_record_id c"
    using that id by (auto simp: keeps_def find_call_replace split: option.split)
  show "calls_keep s s' (ac_call_record_id c)
      \<or> (\<exists>d d'. find_call s (ac_call_record_id c) = Some d \<and> ac_state_version d = ac_state_version c
           \<and> find_call s' (ac_call_record_id c) = Some d' \<and> ac_state_version d' = ac_state_version c + 1
           \<and> call_follows (stored_call c) (stored_call d'))"
  proof (cases "s' = s")
    case True
    then show ?thesis by simp
  next
    case False
    with st have s': "s' = replace_call s r"
      and m: "call_version_matches s (ac_call_record_id c) (ac_state_version c)" by (auto simp: id)
    from m obtain d where d: "find_call s (ac_call_record_id c) = Some d" "ac_state_version d = ac_state_version c"
      by (auto simp: call_version_matches_def split: option.splits)
    have "ac_state_version r = ac_state_version c + 1" using st False by simp
    moreover from this have f: "call_follows c r" using candidate_follows [OF w] by auto
    ultimately show ?thesis using d s' stored_follows [OF f] by (auto simp: find_call_replace id)
  qed
qed

section \<open>Histories\<close>

text \<open>A copy of a stored call: the document itself, or what its writer still holds of it.\<close>

definition copy_of :: "call_docs \<Rightarrow> call_record \<Rightarrow> bool" where
  "copy_of s c \<longleftrightarrow> (\<exists>d. find_call s (ac_call_record_id c) = Some d \<and> stored_call c = stored_call d)"

inductive ledger_history :: "call_docs list \<Rightarrow> bool" where
  start: "ledger_history [[]]"
| insert: "ledger_history (s # h) \<Longrightarrow> s0 \<in> set (s # h)
    \<Longrightarrow> ledger_history (snd (insert_call digest s0 s flt r) # s # h)"
| cas: "ledger_history (s # h) \<Longrightarrow> s0 \<in> set (s # h) \<Longrightarrow> copy_of s0 c \<Longrightarrow> call_put c s s'
    \<Longrightarrow> ledger_history (s' # s # h)"

inductive_cases ledger_historyE: "ledger_history (s # h)"

definition call_moves :: "call_docs \<Rightarrow> call_docs \<Rightarrow> bool" where
  "call_moves s s' \<longleftrightarrow> (\<forall>k. calls_keep s s' k \<or> calls_advance s s' k)"

definition copies_fenced :: "call_docs list \<Rightarrow> call_docs \<Rightarrow> bool" where
  "copies_fenced h s \<longleftrightarrow> (\<forall>s0 \<in> set h. \<forall>c. copy_of s0 c \<longrightarrow> call_snapshot s c)"

lemma stored_version: "stored_call c = stored_call d \<Longrightarrow> ac_state_version c = ac_state_version d"
  by (metis stored_call_simps(2))

lemma fresh_copy: "copy_of s c \<Longrightarrow> call_snapshot s c"
  by (auto simp: copy_of_def snapshot_ok_def dest: stored_version)

lemma copies_fenced_step:
  assumes "copies_fenced (s # h) s" and "call_moves s s'"
  shows "copies_fenced (s' # s # h) s'"
proof -
  have "call_snapshot s' c" if "call_snapshot s c" for c
    using calls.snapshot_survives [OF that] assms(2) unfolding call_moves_def by blast
  with assms(1) fresh_copy show ?thesis unfolding copies_fenced_def by (metis set_ConsD)
qed

lemma insert_moves: "call_moves s (snd (insert_call digest s0 s flt r))"
  using insert_call_store [of digest s0 s flt r]
  by (auto simp: call_moves_def keeps_def find_call_append split: option.splits)

lemma put_moves: "call_put c s s' \<Longrightarrow> call_snapshot s c \<Longrightarrow> call_moves s s'"
  using calls.write_is_atomic [of c s s'] by (auto simp: call_moves_def)

lemma ledger_fenced: "ledger_history h \<Longrightarrow> copies_fenced h (hd h)"
proof (induction rule: ledger_history.induct)
  case start
  show ?case using fresh_copy by (simp add: copies_fenced_def)
next
  case (insert s h s0 digest flt r)
  then show ?case using copies_fenced_step [OF _ insert_moves] by simp
next
  case (cas s h s0 c s')
  then have "call_snapshot s c" by (auto simp: copies_fenced_def)
  with cas put_moves copies_fenced_step show ?case by (metis list.sel(1))
qed

lemma history_copy: "ledger_history (s # h) \<Longrightarrow> s0 \<in> set (s # h) \<Longrightarrow> copy_of s0 c \<Longrightarrow> call_snapshot s c"
  using ledger_fenced [of "s # h"] unfolding copies_fenced_def list.sel by blast

lemma history_moves:
  assumes "ledger_history (s' # s # h)"
  shows "call_moves s s'"
  using assms
proof cases
  case (insert s0 digest flt r)
  then show ?thesis using insert_moves by simp
next
  case (cas s0 c)
  then show ?thesis by (blast intro: put_moves history_copy)
qed

lemma ledger_tail: "ledger_history (s' # s # h) \<Longrightarrow> ledger_history (s # h)"
  by (erule ledger_historyE) auto

lemma history_suffix: "ledger_history (h1 @ s # h2) \<Longrightarrow> ledger_history (s # h2)"
proof (induction h1)
  case (Cons a h1)
  then show ?case by (cases h1) (auto dest: ledger_tail)
qed simp

text \<open>The stored documents are in stored form.\<close>

lemma stored_step:
  assumes "\<forall>u \<in> set h. \<forall>d \<in> set u. stored_call d = d" and "t \<in> set h"
    and "set t' \<subseteq> insert (stored_call r) (set t)"
  shows "\<forall>u \<in> set (t' # h). \<forall>d \<in> set u. stored_call d = d"
proof -
  have "stored_call d = d" if "d \<in> set t'" for d
    using assms that by (cases "d = stored_call r") auto
  with assms(1) show ?thesis by simp
qed

lemma history_stored: "ledger_history h \<Longrightarrow> \<forall>s \<in> set h. \<forall>d \<in> set s. stored_call d = d"
proof (induction rule: ledger_history.induct)
  case (insert t h s0 digest flt r)
  have "set (snd (insert_call digest s0 t flt r)) \<subseteq> insert (stored_call r) (set t)"
    using insert_call_store [of digest s0 t flt r] by (elim disjE) auto
  from stored_step [OF insert.IH _ this] show ?case by simp
next
  case (cas t h s0 c t')
  then obtain r where "t' = t \<or> t' = replace_call t r" unfolding call_put_def using cas_call_store by metis
  then have "set t' \<subseteq> insert (stored_call r) (set t)" by (auto simp: replace_call_def)
  from stored_step [OF cas.IH _ this] show ?case by simp
qed simp

section \<open>Along a history\<close>

definition table_path :: "call_record \<Rightarrow> call_record \<Rightarrow> bool" where
  "table_path d d' \<longleftrightarrow> (ac_state d, ac_state d') \<in> {(a, b). legal_call_transition a b}\<^sup>*"

definition call_evolves :: "call_record \<Rightarrow> call_record \<Rightarrow> bool" where
  "call_evolves d d' \<longleftrightarrow> ac_state_version d \<le> ac_state_version d'
     \<and> (ac_state_version d = ac_state_version d' \<longrightarrow> d' = d)
     \<and> call_identity d' = call_identity d \<and> table_path d d'
     \<and> (terminal_call_state (ac_state d) \<longrightarrow> call_verdict d' = call_verdict d)"

lemma evolves_refl [simp]: "call_evolves d d"
  by (simp add: call_evolves_def table_path_def)

lemma evolves_step: "call_evolves d e \<Longrightarrow> call_follows e e' \<Longrightarrow> call_evolves d e'"
  by (auto simp: call_evolves_def call_follows_def table_path_def call_verdict_def
      intro: rtrancl_into_rtrancl)

lemma history_evolves:
  assumes "ledger_history (h1 @ s # h2)" and "find_call s k = Some d"
  shows "\<exists>d'. find_call (hd (h1 @ [s])) k = Some d' \<and> call_evolves d d'"
  using assms(1)
proof (induction h1)
  case Nil
  with assms(2) show ?case by simp
next
  case (Cons t h1)
  let ?u = "hd (h1 @ [s])"
  from Cons.prems have h: "ledger_history (h1 @ s # h2)" by (cases h1) (auto dest: ledger_tail)
  from Cons.IH [OF this] obtain e where e: "find_call ?u k = Some e" "call_evolves d e" by blast
  obtain h' where h': "h1 @ s # h2 = ?u # h'" by (cases h1) auto
  with Cons.prems have hist: "ledger_history (t # ?u # h')" by simp
  then have "calls_keep ?u t k \<or> calls_advance ?u t k" using history_moves by (simp add: call_moves_def)
  with e obtain e' where e': "find_call t k = Some e'"
    "stored_call e' = stored_call e \<or> call_follows (stored_call e) (stored_call e')"
    by (auto simp: keeps_def advances_def split: option.splits)
  from history_stored [OF hist] find_call_id [OF e(1)] find_call_id [OF e'(1)]
  have "stored_call e = e" "stored_call e' = e'" by simp_all
  with e e' evolves_step show ?case by auto
qed

text \<open>
  C26: A finished call keeps its verdict, and every call follows the table. Take any interleaving of
  insertions and of compare-and-swap writes, lost or unacknowledged at will, each of a candidate that a
  worker computed from a copy of the call as old as one likes: by \<open>transition_call\<close> with updates that leave
  the identity of the call alone, by \<open>apply_observation\<close>, or by a copy with other lease, retry and
  continuation fields, which are the candidates the ledger's callers write. Then a call that is stored stays stored,
  its version never falls, its identity never changes, its state moves along the transition table,
  and once it is terminal its state, result, digest, finishing time and error never change again.
\<close>

theorem finished_call_keeps_its_verdict:
  assumes "ledger_history (h1 @ s # h2)" and "find_call s k = Some d" and "s' \<in> set (h1 @ [s])"
  shows "\<exists>d'. find_call s' k = Some d' \<and> ac_state_version d \<le> ac_state_version d'
     \<and> call_identity d' = call_identity d
     \<and> (ac_state d, ac_state d') \<in> {(a, b). b \<in> call_transitions a}\<^sup>*
     \<and> (terminal_call_state (ac_state d) \<longrightarrow> call_verdict d' = call_verdict d)"
proof -
  from assms(3) obtain g1 g2 where g: "h1 @ [s] = g1 @ s' # g2" by (meson split_list)
  obtain g3 where g3: "hd (g3 @ [s]) = s'" and "h1 @ s # h2 = g1 @ g3 @ s # h2"
  proof (cases g2 rule: rev_cases)
    case Nil
    with g that [of "[]"] show ?thesis by simp
  next
    case (snoc ys y)
    with g have "h1 @ [s] = (g1 @ s' # ys) @ [y]" by simp
    then have "h1 = g1 @ s' # ys" by (simp only: append1_eq_conv)
    with that [of "s' # ys"] show ?thesis by simp
  qed
  with assms(1) have "ledger_history (g1 @ g3 @ s # h2)" by simp
  then have "ledger_history (g3 @ s # h2)"
    by (cases g3) (auto dest: history_suffix [of g1])
  from history_evolves [OF this assms(2)] g3 show ?thesis
    by (auto simp: call_evolves_def table_path_def legal_call_transition_def)
qed

end
