(* ===== verification/Call_Cancellation.thy ===== *)
theory Call_Cancellation
  imports Call_History
begin

text \<open>
  \<open>persist_local_cancellation\<close> of \<open>a2a_runtime/cancellation.py\<close>: a call is canceled in the ledger without
  waiting for the remote Agent, in two compare-and-swaps (\<open>cancel_pending\<close> with its command, then
  \<open>canceled\<close> with its result), retried at most eight times against other writers.

  Between any two accesses to the ledger other workers may act: \<open>lv_others\<close> is what they do before the
  n-th access, \<open>lv_fault\<close> how a write fails, \<open>lv_now\<close> the clock, \<open>lv_stable\<close> the digest of the command's parts.
\<close>

record ledger_env =
  lv_others :: "nat \<Rightarrow> call_docs \<Rightarrow> call_docs"
  lv_fault :: "nat \<Rightarrow> fault"
  lv_now :: "nat \<Rightarrow> datetime"
  lv_digest :: "tool_result \<Rightarrow> string"
  lv_stable :: "string list \<Rightarrow> string"

record ledger_world =
  lw_store :: call_docs
  lw_tick :: nat

datatype cancel_exn =
    CancelLedger ledger_exn
  | CancelStore store_exn
  | CancelCheckpoint string

definition world_load ::
  "ledger_env \<Rightarrow> string \<Rightarrow> ledger_world \<Rightarrow> (cancel_exn + call_record option) \<times> ledger_world" where
  "world_load env k w =
     (let s = lv_others env (lw_tick w) (lw_store w) in
      (map_sum CancelStore id (load_call_by_id (lv_digest env) s k),
       \<lparr>lw_store = s, lw_tick = lw_tick w + 1\<rparr>))"

definition world_cas ::
  "ledger_env \<Rightarrow> call_record \<Rightarrow> int \<Rightarrow> ledger_world \<Rightarrow> (cancel_exn + outcome) \<times> ledger_world" where
  "world_cas env r v w =
     (let t = lw_tick w; s0 = lv_others env t (lw_store w); s1 = lv_others env (t + 1) s0;
          s = lv_others env (t + 2) s1;
          (res, s') = cas_call (lv_digest env) s0 s1 s (lv_fault env t) r v in
      (map_sum CancelStore id res, \<lparr>lw_store = s', lw_tick = t + 3\<rparr>))"

definition cancel_command :: "ledger_env \<Rightarrow> call_record \<Rightarrow> string \<Rightarrow> string option \<Rightarrow> nat \<Rightarrow> cancellation_command"
  where
  "cancel_command env r reason deletion t =
     \<lparr>cc_command_id = ''cancel-'' @ lv_stable env
        [ac_call_record_id r, take 1000 reason, the (str_or deletion (Some ''active''))],
      cc_transport_kind = ac_transport_kind r, cc_call_record_id = ac_call_record_id r,
      cc_reason = take 1000 reason, cc_deletion_id = deletion, cc_created_at = lv_now env t\<rparr>"

definition cancel_updates :: "cancellation_command \<Rightarrow> string \<Rightarrow> call_record \<Rightarrow> call_record" where
  "cancel_updates c reason r = r
     \<lparr>ac_cancellation_command := Some c, ac_cancellation_command_id := Some (cc_command_id c),
      ac_cancellation_reason := Some (take 1000 reason), ac_cancellation_state := Some CmdPending\<rparr>"

definition pending_cancellation ::
  "ledger_env \<Rightarrow> call_record \<Rightarrow> string \<Rightarrow> string option \<Rightarrow> nat \<Rightarrow> ledger_exn + call_record" where
  "pending_cancellation env r reason deletion t = transition_call r CsCancelPending (lv_now env t) None
     (cancel_updates (cancel_command env r reason deletion t) reason)"

definition canceled_observation :: "call_record \<Rightarrow> cancellation_command \<Rightarrow> datetime \<Rightarrow> observation" where
  "canceled_observation r c now =
     \<lparr>ob_observation_id = ''cancel-observation-'' @ cc_command_id c,
      ob_call_record_id = Some (ac_call_record_id r), ob_source_kind = SrcInspection,
      ob_source_identity = ''cancel:'' @ cc_command_id c, ob_binding_scope = ac_endpoint_scope_digest r,
      ob_event_kind = EvTerminal, ob_observed_at = now, ob_task_id = ac_a2a_task_id r,
      ob_context_id = ac_a2a_context_id r, ob_agent_id = None, ob_status = Some ResCanceled,
      ob_content = [TextPart ''The Agent call was canceled.''], ob_inline_artifacts = [],
      ob_artifact_refs = [], ob_interaction_spec = None, ob_error_code = Some ''canceled'',
      ob_error_message = Some (take 500 (cc_reason c)), ob_cursor = None\<rparr>"

text \<open>A lost compare-and-swap: the winner is read, and its absence is a checkpoint error.\<close>

definition load_winner ::
  "ledger_env \<Rightarrow> string \<Rightarrow> call_record \<Rightarrow> ledger_world \<Rightarrow> (cancel_exn + call_record) \<times> ledger_world" where
  "load_winner env msg r w = (case world_load env (ac_call_record_id r) w of
      (Inl e, w') \<Rightarrow> (Inl e, w')
    | (Inr None, w') \<Rightarrow> (Inl (CancelCheckpoint msg), w')
    | (Inr (Some x), w') \<Rightarrow> (Inr x, w'))"

text \<open>The first half of an attempt: \<open>Inl\<close> a lost race's winner, \<open>Inr\<close> the pending call.\<close>

definition make_pending ::
  "ledger_env \<Rightarrow> string \<Rightarrow> string option \<Rightarrow> call_record \<Rightarrow> ledger_world
     \<Rightarrow> (cancel_exn + (call_record + call_record)) \<times> ledger_world" where
  "make_pending env reason deletion r w =
     (if ac_state r = CsCancelPending then (Inr (Inr r), w)
      else (case pending_cancellation env r reason deletion (lw_tick w) of
          Inl e \<Rightarrow> (Inl (CancelLedger e), w)
        | Inr p \<Rightarrow> (case world_cas env p (ac_state_version r) w of
              (Inl e, w') \<Rightarrow> (Inl e, w')
            | (Inr oc, w') \<Rightarrow>
                if oc \<in> {Accepted, Replayed} then (Inr (Inr p), w')
                else (case load_winner env ''cancellation CAS winner could not be classified'' r w' of
                    (Inl e, w'') \<Rightarrow> (Inl e, w'') | (Inr x, w'') \<Rightarrow> (Inr (Inl x), w'')))))"

text \<open>The second half: \<open>Inl\<close> a lost race's winner, \<open>Inr\<close> the canceled call.\<close>

definition make_canceled ::
  "ledger_env \<Rightarrow> call_record \<Rightarrow> ledger_world \<Rightarrow> (cancel_exn + (call_record + call_record)) \<times> ledger_world"
  where
  "make_canceled env p w = (case ac_cancellation_command p of
      None \<Rightarrow> (Inl (CancelCheckpoint ''cancel-pending Agent call has no cancellation command''), w)
    | Some c \<Rightarrow>
        (case apply_call_observation (lv_digest env) (rp_recent_observation_id_limit (ac_runtime_policy p)) p
            (canceled_observation p c (lv_now env (lw_tick w))) of
           Inl e \<Rightarrow> (Inl (CancelLedger e), w)
         | Inr t \<Rightarrow> (case world_cas env t (ac_state_version p) w of
               (Inl e, w') \<Rightarrow> (Inl e, w')
             | (Inr oc, w') \<Rightarrow>
                 if oc \<in> {Accepted, Replayed} then (Inr (Inr t), w')
                 else (case load_winner env ''cancellation terminal CAS winner could not be classified'' p w' of
                     (Inl e, w'') \<Rightarrow> (Inl e, w'') | (Inr x, w'') \<Rightarrow> (Inr (Inl x), w'')))))"

fun cancel_attempts ::
  "nat \<Rightarrow> ledger_env \<Rightarrow> string \<Rightarrow> string option \<Rightarrow> call_record \<Rightarrow> ledger_world
     \<Rightarrow> (cancel_exn + call_record) \<times> ledger_world" where
  "cancel_attempts 0 env reason deletion r w =
     (Inl (CancelCheckpoint ''Agent-call cancellation CAS did not converge''), w)"
| "cancel_attempts (Suc n) env reason deletion r w =
     (if terminal_call_state (ac_state r) then (Inr r, w)
      else (case make_pending env reason deletion r w of
          (Inl e, w') \<Rightarrow> (Inl e, w')
        | (Inr (Inl x), w') \<Rightarrow> cancel_attempts n env reason deletion x w'
        | (Inr (Inr p), w') \<Rightarrow> (case make_canceled env p w' of
              (Inl e, w'') \<Rightarrow> (Inl e, w'')
            | (Inr (Inl x), w'') \<Rightarrow> cancel_attempts n env reason deletion x w''
            | (Inr (Inr t), w'') \<Rightarrow> (Inr t, w''))))"

definition persist_local_cancellation where
  "persist_local_cancellation env r reason deletion w = cancel_attempts 8 env reason deletion r w"

section \<open>The candidates are a worker's\<close>

lemma identity_cancel [identity_intro]: "call_identity (cancel_updates c reason r) = call_identity r"
  by (simp add: call_identity_def cancel_updates_def)

lemma pending_follows:
  assumes "pending_cancellation env r reason deletion t = Inr p"
  shows "worker_candidate r p" "ac_state p = CsCancelPending"
  using assms transition_follows(2) unfolding pending_cancellation_def
  by (auto simp: identity_intro intro: candidate_transition)

lemma canceled_follows:
  assumes "apply_call_observation digest limit p (canceled_observation p c now) = Inr t"
    and "\<not> terminal_call_state (ac_state p)" "ac_state p = CsCancelPending"
    and "''cancel-observation-'' @ cc_command_id c \<notin> set (ac_recent_observation_ids p)"
  shows "worker_candidate p t" "ac_state t = CsCanceled"
proof -
  let ?x = "canceled_observation p c now"
  have n: "\<not> ignored_observation p ?x" "\<not> is_interaction_event ?x" "\<not> is_progress ?x"
    using assms(3) by (simp_all add: ignored_observation_def is_interaction_event_def is_progress_def
        is_canceled_terminal_def canceled_observation_def)
  with assms obtain as where a: "accept_observation digest limit p ?x as = Inr t"
    by (auto simp: apply_call_observation_def canceled_observation_def split: sum.splits)
  from assms(1) show "worker_candidate p t" by (rule candidate_observation)
  from a n show "ac_state t = CsCanceled"
    by (auto simp: accept_observation_def canceled_observation_def observation_result_def
        transition_call_def state_of_status_def Let_def split: if_splits)
qed

end
