(* ===== verification/Cancellation_Properties.thy ===== *)
theory Cancellation_Properties
  imports Call_Cancellation
begin

text \<open>
  Local cancellation against other writers: what it returns is finished and stored, and without
  interference it ends a call that is valid and, if its cancellation has begun, has its command.
\<close>

section \<open>Copies held while others act\<close>

text \<open>
  Only this function makes an observation whose id starts with \<open>cancel-observation-\<close>, so an unfinished
  call lists none.
\<close>

definition own_observation :: "string \<Rightarrow> bool" where
  "own_observation x \<longleftrightarrow> take 19 x = ''cancel-observation-''"

definition quiet :: "call_record \<Rightarrow> bool" where
  "quiet r \<longleftrightarrow> terminal_call_state (ac_state r) \<or> list_all (Not \<circ> own_observation) (ac_recent_observation_ids r)"

text \<open>The other workers: they extend the history of the ledger, and keep its calls quiet.\<close>

definition ledger_others :: "(nat \<Rightarrow> call_docs \<Rightarrow> call_docs) \<Rightarrow> bool" where
  "ledger_others others \<longleftrightarrow> (\<forall>t s h. ledger_history (s # h) \<and> list_all quiet s \<longrightarrow>
     list_all quiet (others t s) \<and> (\<exists>g. ledger_history (g @ s # h) \<and> hd (g @ [s]) = others t s))"

text \<open>\<open>r\<close> is a copy of some store before \<open>s\<close> in a history that went through all of \<open>S\<close>.\<close>

definition held :: "call_docs set \<Rightarrow> call_docs \<Rightarrow> call_record \<Rightarrow> bool" where
  "held S s r \<longleftrightarrow> (\<exists>h. ledger_history (s # h) \<and> S \<subseteq> set (s # h) \<and> list_all quiet s \<and> quiet r
     \<and> (\<exists>s0 \<in> set (s # h). copy_of s0 r))"

lemma held_mono: "held S s r \<Longrightarrow> T \<subseteq> S \<Longrightarrow> held T s r"
  unfolding held_def by blast

lemma held_others:
  assumes "ledger_others others" and "held S s r"
  shows "held (insert s S) (others t s) r"
proof -
  from assms(2) obtain h where h: "ledger_history (s # h)" "S \<subseteq> set (s # h)" "list_all quiet s" "quiet r"
    "\<exists>s0 \<in> set (s # h). copy_of s0 r" by (auto simp: held_def)
  with assms(1) obtain g where q: "list_all quiet (others t s)"
    and g: "ledger_history (g @ s # h)" "hd (g @ [s]) = others t s" by (meson ledger_others_def)
  obtain h' where h': "g @ s # h = others t s # h'" using g(2) by (cases g) auto
  have sub: "set (s # h) \<subseteq> set (others t s # h')" unfolding h' [symmetric] by auto
  with h(2) have "insert s S \<subseteq> set (others t s # h')" by auto
  moreover have "\<exists>s0 \<in> set (others t s # h'). copy_of s0 r" using h(5) sub by blast
  ultimately show ?thesis unfolding held_def using g(1) q h(4) h' by metis
qed

lemma held_found:
  assumes "held S s r" and "find_call s k = Some x"
  shows "held S s x"
proof -
  from find_call_id [OF assms(2)] have "copy_of s x" "x \<in> set s"
    using assms(2) by (auto simp: copy_of_def)
  with assms(1) show ?thesis unfolding held_def by (auto simp: list_all_iff)
qed

lemma quiet_stored [simp]: "quiet (stored_call r) = quiet r"
  by (simp add: quiet_def stored_call_def)

lemma copy_of_replaced: "call_version_matches s (ac_call_record_id p) v \<Longrightarrow> copy_of (replace_call s p) p"
  by (auto simp: copy_of_def find_call_replace call_version_matches_def split: option.splits)

lemma load_call_found: "load_call_by_id digest s k = Inr (Some x) \<Longrightarrow> find_call s k = Some x"
  by (auto simp: load_call_by_id_def read_call_def split: option.splits)

lemma find_copy: "find_call s (ac_call_record_id p) = Some p \<Longrightarrow> copy_of s p"
  by (simp add: copy_of_def)

text \<open>A replay was confirmed by reading the candidate itself.\<close>

lemma cas_replayed:
  assumes "cas_call digest s0 s1 s flt p v = (Inr Replayed, s')"
  shows "copy_of s0 p \<or> copy_of s' p"
proof (cases "load_call_by_id digest s0 (ac_call_record_id p) = Inr (Some p)")
  case True
  then show ?thesis using load_call_found find_copy by blast
next
  case False
  with assms have "cas_write digest s flt p v = (Inr Replayed, s')"
    by (auto simp: cas_call_def split: sum.splits option.splits if_splits)
  then have "load_call_by_id digest s' (ac_call_record_id p) = Inr (Some p)"
    by (auto simp: cas_write_def Let_def replayed_if_def split: sum.splits if_splits)
  then show ?thesis using load_call_found find_copy by blast
qed

lemma held_cas:
  assumes h: "held S s r" and f: "worker_candidate r p" and q: "quiet p" and s0: "s0 \<in> S"
    and c: "cas_call digest s0 s1 s flt p (ac_state_version r) = (res, s')"
  shows "held S s' r \<and> (res \<in> {Inr Accepted, Inr Replayed} \<longrightarrow> held S s' p)"
proof -
  from h obtain g where g: "ledger_history (s # g)" "S \<subseteq> set (s # g)" "list_all quiet s" "quiet r"
    "\<exists>u \<in> set (s # g). copy_of u r" by (auto simp: held_def)
  from f c have "call_put r s s'" unfolding call_put_def by (metis snd_conv)
  with g(1,5) have h': "ledger_history (s' # s # g)" by (blast intro: ledger_history.cas)
  from c have "s' = s \<or> s' = replace_call s p" using cas_call_store by (metis snd_conv)
  with g(3) q have q': "list_all quiet s'" by (auto simp: replace_call_def list_all_iff)
  have S: "S \<subseteq> set (s' # s # g)" using g(2) by auto
  have "held S s' p" if "res \<in> {Inr Accepted, Inr Replayed}"
  proof -
    have "copy_of s' p \<or> copy_of s0 p"
      using that c cas_replayed cas_call_accepted copy_of_replaced by (metis insertE singletonD)
    moreover have "s0 \<in> set (s' # s # g)" using S s0 by blast
    ultimately show ?thesis using h' S q q' unfolding held_def by (meson list.set_intros(1))
  qed
  moreover have "held S s' r" using h' S g(4,5) q' unfolding held_def by (meson list.set_intros(2))
  ultimately show ?thesis by blast
qed

section \<open>The steps of the function\<close>

lemma cas_held:
  assumes others: "ledger_others (lv_others env)"
    and "held {} (lw_store w) r" and "worker_candidate r p" and "quiet p"
    and "world_cas env p (ac_state_version r) w = (Inr oc, w')"
  shows "held {} (lw_store w') r" and "oc \<in> {Accepted, Replayed} \<Longrightarrow> held {} (lw_store w') p"
proof -
  let ?t = "lw_tick w"
  define s0 where "s0 = lv_others env ?t (lw_store w)"
  define s1 where "s1 = lv_others env (?t + 1) s0"
  define s where "s = lv_others env (?t + 2) s1"
  have "held {} s0 r" unfolding s0_def
    by (rule held_mono [OF held_others [OF others assms(2)]]) simp
  from held_others [OF others held_others [OF others this, of "?t + 1"], of "?t + 2"]
  have hs: "held {s0} s r" unfolding s_def s1_def by (rule held_mono) simp
  from assms(5) have c: "cas_call (lv_digest env) s0 s1 s (lv_fault env ?t) p (ac_state_version r)
      = (Inr oc, lw_store w')"
    unfolding world_cas_def Let_def s0_def [symmetric] s1_def [symmetric] s_def [symmetric]
    by (cases "cas_call (lv_digest env) s0 s1 s (lv_fault env ?t) p (ac_state_version r)")
      (auto simp: map_sum_def split: sum.splits)
  from held_cas [OF hs assms(3,4) _ c]
  have "held {s0} (lw_store w') r" "oc \<in> {Accepted, Replayed} \<longrightarrow> held {s0} (lw_store w') p" by auto
  then show "held {} (lw_store w') r" "oc \<in> {Accepted, Replayed} \<Longrightarrow> held {} (lw_store w') p"
    by (blast intro: held_mono)+
qed

lemma winner_held:
  assumes others: "ledger_others (lv_others env)"
    and "held {} (lw_store w) r" and "load_winner env msg q w = (Inr x, w')"
  shows "held {} (lw_store w') x"
proof -
  from assms(3) have "lw_store w' = lv_others env (lw_tick w) (lw_store w)"
    and "find_call (lw_store w') (ac_call_record_id q) = Some x"
    by (auto simp: load_winner_def world_load_def Let_def map_sum_def load_call_by_id_def read_call_def
        split: prod.splits sum.splits option.splits)
  with held_found [OF held_mono [OF held_others [OF others assms(2)]]] show ?thesis by simp
qed

lemma pending_held:
  assumes others: "ledger_others (lv_others env)"
    and "held {} (lw_store w) r" and "\<not> terminal_call_state (ac_state r)"
    and "make_pending env reason deletion r w = (Inr res, w')"
  shows "case res of Inl x \<Rightarrow> held {} (lw_store w') x
    | Inr p \<Rightarrow> held {} (lw_store w') p \<and> ac_state p = CsCancelPending"
proof (cases "ac_state r = CsCancelPending")
  case True
  with assms show ?thesis by (auto simp: make_pending_def)
next
  case False
  from False assms(4) obtain p oc w1 where p: "pending_cancellation env r reason deletion (lw_tick w) = Inr p"
    and c: "world_cas env p (ac_state_version r) w = (Inr oc, w1)"
    and res: "if oc \<in> {Accepted, Replayed} then res = Inr p \<and> w' = w1
      else \<exists>x. res = Inl x \<and> load_winner env ''cancellation CAS winner could not be classified'' r w1 = (Inr x, w')"
    by (auto simp: make_pending_def split: sum.splits prod.splits if_splits)
  note f = pending_follows [OF p]
  have "ac_recent_observation_ids p = ac_recent_observation_ids r"
    using p by (auto simp: pending_cancellation_def transition_call_def cancel_updates_def Let_def split: if_splits)
  moreover have "quiet r" using assms(2) by (auto simp: held_def)
  ultimately have "quiet p" using assms(3) by (simp add: quiet_def)
  note h = cas_held [OF others assms(2) f(1) this c]
  show ?thesis
  proof (cases "oc \<in> {Accepted, Replayed}")
    case True
    with res h f show ?thesis by simp
  next
    case False
    with res obtain x where "res = Inl x"
      "load_winner env ''cancellation CAS winner could not be classified'' r w1 = (Inr x, w')" by auto
    with winner_held [OF others h(1)] show ?thesis by simp
  qed
qed

lemma canceled_held:
  assumes others: "ledger_others (lv_others env)"
    and "held {} (lw_store w) p" and "ac_state p = CsCancelPending"
    and "make_canceled env p w = (Inr res, w')"
  shows "case res of Inl x \<Rightarrow> held {} (lw_store w') x
    | Inr t \<Rightarrow> held {} (lw_store w') t \<and> ac_state t = CsCanceled"
proof -
  let ?x = "\<lambda>c. canceled_observation p c (lv_now env (lw_tick w))"
  from assms(4) obtain c t oc w1 where
    a: "apply_call_observation (lv_digest env) (rp_recent_observation_id_limit (ac_runtime_policy p)) p (?x c) = Inr t"
    and c: "world_cas env t (ac_state_version p) w = (Inr oc, w1)"
    and res: "if oc \<in> {Accepted, Replayed} then res = Inr t \<and> w' = w1
      else \<exists>x. res = Inl x
        \<and> load_winner env ''cancellation terminal CAS winner could not be classified'' p w1 = (Inr x, w')"
    by (auto simp: make_canceled_def split: sum.splits prod.splits if_splits option.splits)
  have nt: "\<not> terminal_call_state (ac_state p)" using assms(3) by (simp add: terminal_call_state_def)
  have "quiet p" using assms(2) by (auto simp: held_def)
  with nt have "''cancel-observation-'' @ cc_command_id c \<notin> set (ac_recent_observation_ids p)"
    by (auto simp: quiet_def list_all_iff own_observation_def)
  note f = canceled_follows [OF a nt assms(3) this]
  have "quiet t" using f(2) by (simp add: quiet_def terminal_call_state_def)
  note h = cas_held [OF others assms(2) f(1) this c]
  show ?thesis
  proof (cases "oc \<in> {Accepted, Replayed}")
    case True
    with res h f show ?thesis by simp
  next
    case False
    with res obtain x where "res = Inl x"
      "load_winner env ''cancellation terminal CAS winner could not be classified'' p w1 = (Inr x, w')" by auto
    with winner_held [OF others h(1)] show ?thesis by simp
  qed
qed

lemma attempts_end:
  assumes others: "ledger_others (lv_others env)"
    and "held {} (lw_store w) r" and "cancel_attempts n env reason deletion r w = (Inr t, w')"
  shows "held {} (lw_store w') t \<and> terminal_call_state (ac_state t)"
  using assms(2,3)
proof (induction n arbitrary: r w)
  case 0
  then show ?case by simp
next
  case (Suc n)
  show ?case
  proof (cases "terminal_call_state (ac_state r)")
    case True
    with Suc.prems show ?thesis by auto
  next
    case False
    with Suc.prems(2) obtain res w1 where m: "make_pending env reason deletion r w = (Inr res, w1)"
      by (auto split: prod.splits sum.splits)
    note p = pending_held [OF others Suc.prems(1) False m]
    show ?thesis
    proof (cases res)
      case (Inl x)
      with Suc.prems(2) False m have "cancel_attempts n env reason deletion x w1 = (Inr t, w')" by simp
      with Suc.IH p Inl show ?thesis by simp
    next
      case (Inr q)
      with Suc.prems(2) False m obtain res' w2 where c: "make_canceled env q w1 = (Inr res', w2)"
        by (auto split: prod.splits sum.splits)
      from p Inr have "held {} (lw_store w1) q" "ac_state q = CsCancelPending" by simp_all
      note k = canceled_held [OF others this c]
      show ?thesis
      proof (cases res')
        case (Inl x)
        with Suc.prems(2) False m \<open>res = Inr q\<close> c have "cancel_attempts n env reason deletion x w2 = (Inr t, w')"
          by simp
        with Suc.IH k Inl show ?thesis by simp
      next
        case (Inr u)
        with Suc.prems(2) False m \<open>res = Inr q\<close> c k show ?thesis by (simp add: terminal_call_state_def)
      qed
    qed
  qed
qed

lemma held_verdict:
  assumes "held {} s t" and "terminal_call_state (ac_state t)"
  shows "\<exists>d. find_call s (ac_call_record_id t) = Some d \<and> call_verdict d = call_verdict (stored_call t)"
proof -
  from assms(1) obtain h s0 d0 where h: "ledger_history (s # h)" "s0 \<in> set (s # h)"
    "find_call s0 (ac_call_record_id t) = Some d0" "stored_call t = stored_call d0"
    by (auto simp: held_def copy_of_def)
  from h(2) obtain g1 g2 where g: "s # h = g1 @ s0 # g2" by (meson split_list)
  then have "hd (g1 @ [s0]) = s" by (cases g1) auto
  with history_evolves [of g1 s0 g2] h(1,3) g obtain d where
    d: "find_call s (ac_call_record_id t) = Some d" "call_evolves d0 d" by auto
  from history_stored [OF h(1)] h(2) find_call_id [OF h(3)] have "stored_call d0 = d0" by auto
  with h(4) have "d0 = stored_call t" by simp
  with d assms(2) show ?thesis by (auto simp: call_evolves_def)
qed

text \<open>
  A cancellation that returns has ended the call. Whatever other workers do to the ledger in
  between, and whichever writes are lost, unacknowledged or overtaken, the record that
  \<open>persist_local_cancellation\<close> returns is finished, and the ledger stores that very verdict: the caller
  never acts on a cancellation that lost, nor on a result that is not durable.
\<close>

theorem cancellation_returns_stored_verdict:
  assumes "ledger_others (lv_others env)" and "ledger_history (s # h)" and "list_all quiet s"
    and "s0 \<in> set (s # h)" and "copy_of s0 r" and "quiet r"
    and "persist_local_cancellation env r reason deletion \<lparr>lw_store = s, lw_tick = n\<rparr> = (Inr t, w')"
  shows "terminal_call_state (ac_state t)
    \<and> (\<exists>d. find_call (lw_store w') (ac_call_record_id t) = Some d \<and> call_verdict d = call_verdict (stored_call t))"
proof -
  have "held {} s r" using assms(2-6) unfolding held_def by auto
  with assms(7) have "held {} (lw_store w') t \<and> terminal_call_state (ac_state t)"
    using attempts_end [OF assms(1), of "\<lparr>lw_store = s, lw_tick = n\<rparr>" r 8]
    unfolding persist_local_cancellation_def by simp
  with held_verdict show ?thesis by blast
qed

section \<open>Without interference\<close>

lemma call_valid_stored [simp]: "call_valid digest (stored_call r) = call_valid digest r"
proof -
  have "dispatch_snapshot_error (stored_snapshot x) = dispatch_snapshot_error x" for x
    by (simp add: dispatch_snapshot_error_def stored_snapshot_def)
  moreover have "marker_error (m\<lparr>hm_applied_at := x\<rparr>) = marker_error m" for m x
    by (simp add: marker_error_def)
  moreover have "continuation_error (c\<lparr>cn_created_at := x\<rparr>) = continuation_error c" for c x
    by (simp add: continuation_error_def)
  ultimately have "base_valid (stored_call r) = base_valid r"
    by (cases "ac_answer_applied r"; cases "ac_continuation_command r"; cases "ac_cancellation_command r")
      (simp_all add: base_defs stored_call_def stored_snapshot_def Let_def)
  moreover have "verdict_error digest (stored_call r) = None \<longleftrightarrow> verdict_error digest r = None"
    by (simp add: verdict_error_None stored_call_def)
  ultimately show ?thesis by (simp add: call_valid_base)
qed

lemma cas_alone:
  assumes "find_call s (ac_call_record_id p) = Some d" and "call_valid digest d"
    and "ac_state_version p = ac_state_version d + 1" and "\<not> call_violation s p"
  shows "cas_call digest s s s NoFault p (ac_state_version d) = (Inr Accepted, replace_call s p)"
proof -
  have "load_call_by_id digest s (ac_call_record_id p) = Inr (Some d)"
    using assms(1,2) by (simp add: load_call_by_id_def read_call_def call_valid_def)
  moreover have "d \<noteq> p" using assms(3) by auto
  moreover have "\<not> list_ex (\<lambda>d. ac_call_record_id d \<noteq> ac_call_record_id p \<and> alias_clash d p) s"
    using assms(4) by (auto simp: call_violation_def call_clash_def list_ex_iff)
  ultimately show ?thesis using assms
    by (simp add: cas_call_def cas_write_def Let_def call_version_matches_def)
qed

lemma violation_cong:
  assumes "call_identity p = call_identity r" and "set (ac_ownership_alias_keys p) = set (ac_ownership_alias_keys r)"
    and "ac_pending_interaction_id p = ac_pending_interaction_id r"
  shows "call_violation s p = call_violation s r"
  using assms by (simp add: call_violation_def call_clash_def alias_clash_def call_identity_def)

lemma violation_replaced:
  assumes "ac_call_record_id p = ac_call_record_id t"
  shows "call_violation (replace_call s p) t = call_violation s t"
  using assms by (auto simp: call_violation_def replace_call_def list_ex_iff)

definition undisturbed :: "ledger_env \<Rightarrow> bool" where
  "undisturbed env \<longleftrightarrow> lv_others env = (\<lambda>_ s. s) \<and> lv_fault env = (\<lambda>_. NoFault)"

lemma world_cas_alone:
  assumes "undisturbed env" and "find_call (lw_store w) (ac_call_record_id p) = Some d"
    and "call_valid (lv_digest env) d" and "ac_state_version p = ac_state_version d + 1"
    and "\<not> call_violation (lw_store w) p"
  shows "world_cas env p (ac_state_version d) w
    = (Inr Accepted, \<lparr>lw_store = replace_call (lw_store w) p, lw_tick = lw_tick w + 3\<rparr>)"
  using assms cas_alone [OF assms(2-5)] by (simp add: world_cas_def undisturbed_def Let_def)

lemma bind_aliases_cong:
  "ac_endpoint_scope_digest p = ac_endpoint_scope_digest r \<Longrightarrow> ac_ownership_aliases p = ac_ownership_aliases r
     \<Longrightarrow> bind_authoritative_aliases p = bind_authoritative_aliases r"
  by (simp add: fun_eq_iff bind_authoritative_aliases_def cong: sum.case_cong)

text \<open>What cancellation relies on of a stored call.\<close>

definition cancelable :: "(tool_result \<Rightarrow> string) \<Rightarrow> call_docs \<Rightarrow> call_record \<Rightarrow> bool" where
  "cancelable digest s r \<longleftrightarrow> copy_of s r \<and> call_valid digest r \<and> \<not> terminal_call_state (ac_state r)
     \<and> quiet r \<and> \<not> call_violation s r
     \<and> bind_authoritative_aliases r (ac_a2a_task_id r) (ac_a2a_context_id r) = Inr (ac_ownership_aliases r)"

lemma copy_found:
  assumes "copy_of s r" and "call_valid digest r"
  shows "\<exists>d. find_call s (ac_call_record_id r) = Some d \<and> ac_state_version d = ac_state_version r
    \<and> call_valid digest d"
  using assms call_valid_stored stored_version unfolding copy_of_def by metis

lemma pending_alone:
  assumes u: "undisturbed env" and c: "cancelable (lv_digest env) (lw_store w) r"
    and n: "ac_state r \<noteq> CsCancelPending"
  shows "\<exists>p w'. make_pending env reason deletion r w = (Inr (Inr p), w')
    \<and> ac_state p = CsCancelPending \<and> ac_cancellation_command p \<noteq> None
    \<and> cancelable (lv_digest env) (lw_store w') p \<and> ac_call_record_id p = ac_call_record_id r"
proof -
  let ?cmd = "cancel_command env r reason deletion (lw_tick w)"
  from c n have "legal_call_transition (ac_state r) CsCancelPending"
    using cancellation_open by (auto simp: cancelable_def)
  then obtain p where p: "pending_cancellation env r reason deletion (lw_tick w) = Inr p"
    and e: "p = (cancel_updates ?cmd reason r)\<lparr>ac_terminal_at := None, ac_state := CsCancelPending,
      ac_state_version := ac_state_version r + 1, ac_updated_at := lv_now env (lw_tick w)\<rparr>"
    by (auto simp: pending_cancellation_def transition_call_def terminal_call_state_def Let_def)
  have "ac_state_version p = ac_state_version r + 1" by (simp add: e)
  with candidate_follows [OF pending_follows(1) [OF p]] have f: "call_follows r p" by auto
  from c have base: "base_valid r" and te: "verdict_error (lv_digest env) r = None"
    by (auto simp: cancelable_def call_valid_base)
  have b: "base_valid (cancel_updates ?cmd reason r)"
    using base by (simp add: base_defs cancel_updates_def cancel_command_def)
  have v: "call_valid (lv_digest env) p"
    using p [unfolded pending_cancellation_def] b
    by (rule transition_valid)
      (use base te in \<open>simp_all add: verdict_error_None cancel_updates_def terminal_call_state_def base_defs\<close>)
  have k: "ac_call_record_id p = ac_call_record_id r" using f by (simp add: call_follows_def call_identity_def)
  have nv: "call_violation s p = call_violation s r" for s
    by (rule violation_cong) (use f in \<open>simp_all add: e call_follows_def cancel_updates_def call_identity_def\<close>)
  from c copy_found obtain d where d: "find_call (lw_store w) (ac_call_record_id r) = Some d"
    "ac_state_version d = ac_state_version r" "call_valid (lv_digest env) d" by (metis cancelable_def)
  have w: "world_cas env p (ac_state_version r) w
      = (Inr Accepted, \<lparr>lw_store = replace_call (lw_store w) p, lw_tick = lw_tick w + 3\<rparr>)"
    using world_cas_alone [OF u, of w p d] c d f nv k by (simp add: cancelable_def call_follows_def)
  have "copy_of (replace_call (lw_store w) p) p"
    using d k by (intro copy_of_replaced) (simp add: call_version_matches_def)
  moreover have "bind_authoritative_aliases p = bind_authoritative_aliases r"
    by (rule bind_aliases_cong) (simp_all add: e cancel_updates_def)
  moreover have "quiet p" "\<not> terminal_call_state (ac_state p)"
    using c by (auto simp: cancelable_def e cancel_updates_def quiet_def terminal_call_state_def)
  moreover have "\<not> call_violation (replace_call (lw_store w) p) p"
    using c nv violation_replaced [of p p "lw_store w"] by (simp add: cancelable_def)
  moreover have "ac_a2a_task_id p = ac_a2a_task_id r" "ac_a2a_context_id p = ac_a2a_context_id r"
    "ac_ownership_aliases p = ac_ownership_aliases r" by (simp_all add: e cancel_updates_def)
  ultimately have "cancelable (lv_digest env) (replace_call (lw_store w) p) p"
    using c v by (simp add: cancelable_def)
  with p w n k show ?thesis by (simp add: make_pending_def e cancel_updates_def)
qed

lemma canceled_alone:
  assumes u: "undisturbed env" and c: "cancelable (lv_digest env) (lw_store w) p"
    and s: "ac_state p = CsCancelPending" and m: "ac_cancellation_command p = Some cmd"
  shows "\<exists>t w'. make_canceled env p w = (Inr (Inr t), w') \<and> ac_state t = CsCanceled
    \<and> call_valid (lv_digest env) t \<and> find_call (lw_store w') (ac_call_record_id p) = Some (stored_call t)"
proof -
  let ?x = "canceled_observation p cmd (lv_now env (lw_tick w))"
  let ?limit = "rp_recent_observation_id_limit (ac_runtime_policy p)"
  from c have v: "call_valid (lv_digest env) p" and nt: "\<not> terminal_call_state (ac_state p)"
    and bind: "bind_authoritative_aliases p (ob_task_id ?x) (ob_context_id ?x) = Inr (ac_ownership_aliases p)"
    by (simp_all add: cancelable_def canceled_observation_def)
  from v have base: "base_valid p" by (simp add: call_valid_base)
  then have limit: "0 < ?limit" "?limit \<le> 128" by (simp_all add: base_defs policy_error_def)
  have new: "ob_observation_id ?x \<notin> set (ac_recent_observation_ids p)"
    using c nt by (auto simp: cancelable_def quiet_def list_all_iff own_observation_def canceled_observation_def)
  let ?r = "\<lambda>st. \<lparr>tr_call_id = ac_invocation_id p, tr_tool_name = ac_tool_name p, tr_status = st,
      tr_content = ob_content ?x, tr_artifact_refs = merged_refs p ?x, tr_error_code = ob_error_code ?x,
      tr_error_message = ob_error_message ?x\<rparr>"
  have ev: "ob_status ?x = Some ResCanceled" "\<not> ignored_observation p ?x" "\<not> is_interaction_event ?x"
    "\<not> is_progress ?x" "observation_result p ?x = Some (?r ResCanceled)"
    by (simp_all add: s canceled_observation_def ignored_observation_def is_canceled_terminal_def
        is_interaction_event_def is_progress_def observation_result_def)
  have "legal_call_transition (ac_state p) (state_of_status ResCanceled)"
    by (simp add: s state_of_status_def legal_call_transition_def)
  then obtain t where a: "accept_observation (lv_digest env) ?limit p ?x (ac_ownership_aliases p) = Inr t"
    and t: "ac_state t = CsCanceled" "ac_pending_interaction_id t = ac_pending_interaction_id p"
      "ac_ownership_alias_keys t = ownership_alias_keys (ac_ownership_aliases p)"
    using ev by (auto simp: accept_observation_def transition_call_def Let_def common_updates_def state_of_status_def)
  have app: "apply_call_observation (lv_digest env) ?limit p ?x = Inr t"
    using new nt ev(2) bind a by (simp add: apply_call_observation_def)
  from accept_follows [OF a nt] have f: "call_follows p t" .
  from base have scope: "list_all (\<lambda>a. oa_binding_scope a = ac_endpoint_scope_digest p) (ac_ownership_aliases p)"
    and keys: "sort (ac_ownership_alias_keys p) = ownership_alias_keys (ac_ownership_aliases p)"
    by (simp_all add: base_valid_def)
  note valid = accept_valid [OF a v limit new scope nt]
  have k: "ac_call_record_id t = ac_call_record_id p" using f by (simp add: call_follows_def call_identity_def)
  have "set (sort (ac_ownership_alias_keys p)) = set (ac_ownership_alias_keys p)" by simp
  with keys t(3) have "set (ac_ownership_alias_keys t) = set (ac_ownership_alias_keys p)" by simp
  then have nv: "call_violation s t = call_violation s p" for s
    using f t(2) by (intro violation_cong) (simp_all add: call_follows_def)
  from c copy_found obtain d where d: "find_call (lw_store w) (ac_call_record_id p) = Some d"
    "ac_state_version d = ac_state_version p" "call_valid (lv_digest env) d" by (metis cancelable_def)
  have "world_cas env t (ac_state_version p) w
      = (Inr Accepted, \<lparr>lw_store = replace_call (lw_store w) t, lw_tick = lw_tick w + 3\<rparr>)"
    using world_cas_alone [OF u, of w t d] c d f nv k by (simp add: cancelable_def call_follows_def)
  with m app valid t(1) d(1) k show ?thesis
    by (simp add: make_canceled_def find_call_replace)
qed

text \<open>
  C27: Undisturbed, local cancellation ends the call. Suppose that nobody else writes to the ledger and no
  write faults while the function runs; that the given record is valid, in any unfinished state, and the stored
  call at its own version; that the aliases of its own Task and context are bound, that none of its remembered
  observations is one a cancellation makes, and that no other call holds its unique keys; and that it already
  has its cancellation command if it is \<open>cancel_pending\<close> (without one the function raises).
  Then the function raises nothing: it returns the call as \<open>canceled\<close>, valid, and the ledger stores it.
\<close>

theorem cancellation_always_ends_call:
  assumes "undisturbed env" and "cancelable (lv_digest env) s r"
    and "ac_state r = CsCancelPending \<longrightarrow> ac_cancellation_command r \<noteq> None"
  shows "\<exists>t w'. persist_local_cancellation env r reason deletion \<lparr>lw_store = s, lw_tick = n\<rparr> = (Inr t, w')
    \<and> ac_state t = CsCanceled \<and> call_valid (lv_digest env) t
    \<and> find_call (lw_store w') (ac_call_record_id r) = Some (stored_call t)"
proof -
  let ?w = "\<lparr>lw_store = s, lw_tick = n\<rparr>"
  have eight: "(8::nat) = Suc 7" by simp
  from assms(2) have nt: "\<not> terminal_call_state (ac_state r)" by (simp add: cancelable_def)
  have "\<exists>p w1. make_pending env reason deletion r ?w = (Inr (Inr p), w1) \<and> ac_state p = CsCancelPending
      \<and> ac_cancellation_command p \<noteq> None \<and> cancelable (lv_digest env) (lw_store w1) p
      \<and> ac_call_record_id p = ac_call_record_id r"
  proof (cases "ac_state r = CsCancelPending")
    case True
    with assms(2,3) show ?thesis by (simp add: make_pending_def)
  next
    case False
    with pending_alone [OF assms(1), of ?w r] assms(2) show ?thesis by simp
  qed
  then obtain p w1 cmd where p: "make_pending env reason deletion r ?w = (Inr (Inr p), w1)"
    "ac_state p = CsCancelPending" "ac_cancellation_command p = Some cmd"
    "cancelable (lv_digest env) (lw_store w1) p" "ac_call_record_id p = ac_call_record_id r" by auto
  from canceled_alone [OF assms(1) p(4,2,3)] obtain t w' where
    t: "make_canceled env p w1 = (Inr (Inr t), w')" "ac_state t = CsCanceled"
      "call_valid (lv_digest env) t" "find_call (lw_store w') (ac_call_record_id p) = Some (stored_call t)"
    by blast
  have "persist_local_cancellation env r reason deletion ?w = (Inr t, w')"
    unfolding persist_local_cancellation_def eight cancel_attempts.simps using nt p(1) t(1) by simp
  with t p(5) show ?thesis by auto
qed

end
