(* ===== verification/Call_Counting.thy ===== *)
theory Call_Counting
  imports Call_History
begin

text \<open>
  \<open>CountingAgentCallLedgerStore\<close> over a history: the wrapper reads the call once more before the write it
  wraps, in a store at or after the one the caller's copy comes from, and counts when the write is
  accepted and that read saw the call dispatched and unfinished. Other writers may come in between.
\<close>

type_synonym call_count = "string \<times> string \<times> bool"

definition count_of :: "string \<Rightarrow> (string \<times> bool) option \<Rightarrow> call_count list" where
  "count_of k n = (case n of None \<Rightarrow> [] | Some (agent, ok) \<Rightarrow> [(k, agent, ok)])"

text \<open>A history of the ledger with the counts made along it: the call, its Agent, its success.\<close>

inductive counted_history :: "call_docs list \<Rightarrow> call_count list \<Rightarrow> bool" where
  start: "counted_history [[]] []"
| other: "counted_history (s # h) ns \<Longrightarrow> ledger_history (s' # s # h) \<Longrightarrow> counted_history (s' # s # h) ns"
| count: "counted_history (s # h) ns \<Longrightarrow> s # h = h1 @ sp # h2 \<Longrightarrow> s0 \<in> set (sp # h2) \<Longrightarrow> copy_of s0 c
    \<Longrightarrow> worker_candidate c r
    \<Longrightarrow> counting_cas digest sp sl sa s flt r (ac_state_version c) = ((oc, n), s')
    \<Longrightarrow> counted_history (s' # s # h) (count_of (ac_call_record_id r) n @ ns)"

lemma idle_put: "worker_candidate c r \<Longrightarrow> call_put c s s"
  unfolding call_put_def
  by (intro exI [of _ "\<lambda>_. []"] exI [of _ "[]"] exI [of _ NoFault] exI [of _ r] conjI)
    (simp_all add: cas_call_def load_call_by_id_def read_call_def find_call_def)

lemma counting_cases:
  assumes "counting_cas digest sp sl sa s flt r v = ((oc, n), s')"
  shows "s' = s \<and> n = None
    \<or> cas_call digest sl sa s flt r v = (oc, s')
      \<and> (n \<noteq> None \<longrightarrow> oc = Inr Accepted \<and> terminal_call_state (ac_state r)
         \<and> n = Some (ac_agent_id r, ac_state r = CsCompleted)
         \<and> (\<exists>p. find_call sp (ac_call_record_id r) = Some p \<and> \<not> terminal_call_state (ac_state p)))"
  using assms by (auto simp: counting_cas_def counts_call_def load_call_by_id_def read_call_def
      split: sum.splits prod.splits if_splits option.splits)

lemma counting_put:
  assumes "worker_candidate c r" and "counting_cas digest sp sl sa s flt r (ac_state_version c) = ((oc, n), s')"
  shows "call_put c s s'"
  using counting_cases [OF assms(2)]
proof
  assume "s' = s \<and> n = None"
  with idle_put [OF assms(1)] show ?thesis by simp
next
  assume *: "cas_call digest sl sa s flt r (ac_state_version c) = (oc, s') \<and> (n \<noteq> None \<longrightarrow> oc = Inr Accepted
      \<and> terminal_call_state (ac_state r) \<and> n = Some (ac_agent_id r, ac_state r = CsCompleted)
      \<and> (\<exists>p. find_call sp (ac_call_record_id r) = Some p \<and> \<not> terminal_call_state (ac_state p)))"
  then have "s' = snd (cas_call digest sl sa s flt r (ac_state_version c))" by simp
  with assms(1) show ?thesis unfolding call_put_def by blast
qed

lemma counted_ledger: "counted_history h ns \<Longrightarrow> ledger_history h"
proof (induction rule: counted_history.induct)
  case (count s h ns h1 sp h2 s0 c r digest sl sa flt oc n s')
  have "s0 \<in> set (s # h)" using count.hyps(2,3) by auto
  from ledger_history.cas [OF count.IH this count.hyps(4) counting_put [OF count.hyps(5,6)]]
  show ?case .
qed (auto intro: ledger_history.start)

lemma counted_tail: "counted_history (s' # s # h) ns \<Longrightarrow> ledger_history (s # h)"
  using counted_ledger ledger_tail by blast

text \<open>What the wrapper read is the document its accepted write replaced.\<close>

lemma counted_prior:
  assumes h: "ledger_history (h1 @ sp # h2)" and c: "s0 \<in> set (sp # h2)" "copy_of s0 c"
    and p: "find_call sp (ac_call_record_id c) = Some p"
    and d: "find_call (hd (h1 @ [sp])) (ac_call_record_id c) = Some d" "ac_state_version d = ac_state_version c"
  shows "d = p"
proof -
  from c obtain d0 where d0: "find_call s0 (ac_call_record_id c) = Some d0" "stored_call c = stored_call d0"
    by (auto simp: copy_of_def)
  obtain g1 g2 where g: "sp # h2 = g1 @ s0 # g2" using c(1) by (meson split_list)
  have sp: "hd (g1 @ [s0]) = sp" using g by (cases g1) auto
  from history_suffix [OF h] g have "ledger_history (g1 @ s0 # g2)" by simp
  from history_evolves [OF this d0(1)] sp p have e0: "call_evolves d0 p" by auto
  from history_evolves [OF h p] d(1) have e: "call_evolves p d" by auto
  from stored_version [OF d0(2)] d(2) e0 e have "ac_state_version p = ac_state_version d"
    by (auto simp: call_evolves_def)
  with e show ?thesis by (simp add: call_evolves_def)
qed

section \<open>Every call is counted once\<close>

definition count_settled :: "call_docs \<Rightarrow> call_count \<Rightarrow> bool" where
  "count_settled s n \<longleftrightarrow> (case n of (k, agent, ok) \<Rightarrow> (\<exists>d. find_call s k = Some d
     \<and> terminal_call_state (ac_state d) \<and> ac_agent_id d = agent \<and> ok = (ac_state d = CsCompleted)))"

lemma settled_evolves:
  assumes "count_settled s n" and "ledger_history (s' # s # h)"
  shows "count_settled s' n"
proof -
  obtain k agent ok where n: "n = (k, agent, ok)" by (cases n) auto
  with assms(1) obtain d where d: "find_call s k = Some d" "terminal_call_state (ac_state d)"
    "ac_agent_id d = agent" "ok = (ac_state d = CsCompleted)" by (auto simp: count_settled_def)
  from history_evolves [of "[s']" s h k d] assms(2) d(1) obtain d' where
    "find_call s' k = Some d'" "call_evolves d d'" by auto
  with d n show ?thesis
    by (auto simp: count_settled_def call_evolves_def call_verdict_def call_identity_def)
qed

lemma counted_settled:
  "counted_history h ns \<Longrightarrow> distinct (map fst ns) \<and> (\<forall>n \<in> set ns. count_settled (hd h) n)"
proof (induction rule: counted_history.induct)
  case start
  show ?case by simp
next
  case (other s h ns s')
  with settled_evolves show ?case by auto
next
  case (count s h ns h1 sp h2 s0 c r digest sl sa flt oc n s')
  have hist: "ledger_history (s' # s # h)"
    using counted_ledger [OF counted_history.count [OF count.hyps]] .
  with count.IH settled_evolves have old: "distinct (map fst ns)" "\<forall>n \<in> set ns. count_settled s' n"
    by auto
  show ?case
  proof (cases n)
    case None
    with old show ?thesis by (simp add: count_of_def)
  next
    case (Some m)
    let ?k = "ac_call_record_id r"
    note id = worker_candidate_id [OF count.hyps(5)]
    from counting_cases [OF count.hyps(6)] Some obtain p where
      w: "cas_call digest sl sa s flt r (ac_state_version c) = (Inr Accepted, s')"
      and t: "terminal_call_state (ac_state r)" and m: "m = (ac_agent_id r, ac_state r = CsCompleted)"
      and p: "find_call sp ?k = Some p" "\<not> terminal_call_state (ac_state p)" by auto
    from cas_call_accepted [OF w] obtain d where d: "find_call s ?k = Some d"
      "ac_state_version d = ac_state_version c" and s': "s' = replace_call s r"
      by (auto simp: call_version_matches_def split: option.splits)
    have "d = p"
    proof (rule counted_prior)
      show "ledger_history (h1 @ sp # h2)" using counted_tail count.hyps hist ledger_tail by metis
      show "s0 \<in> set (sp # h2)" "copy_of s0 c" by (fact count.hyps)+
      show "find_call sp (ac_call_record_id c) = Some p" using p id by simp
      have "hd (h1 @ [sp]) = s" using count.hyps(2) by (cases h1) auto
      with d id show "find_call (hd (h1 @ [sp])) (ac_call_record_id c) = Some d" by simp
      show "ac_state_version d = ac_state_version c" by (fact d)
    qed
    with p(2) d(1) count.IH have "?k \<notin> fst ` set ns" by (auto simp: count_settled_def)
    moreover have "find_call s' ?k = Some (stored_call r)" using d s' by (simp add: find_call_replace)
    then have "count_settled s' (?k, m)" using t m by (simp add: count_settled_def)
    ultimately show ?thesis using old Some m by (simp add: count_of_def)
  qed
qed

text \<open>
  Every Agent call is counted at most once, and as what it became. However terminal writes,
  retries and stale copies of any number of workers interleave, no call appears twice among the
  counts, and each counted call is stored as finished, for the Agent that was counted, with
  success exactly when it completed.
\<close>

theorem calls_counted_once:
  assumes "counted_history (s # h) ns"
  shows "distinct (map fst ns) \<and> (\<forall>(k, agent, ok) \<in> set ns. \<exists>d. find_call s k = Some d
     \<and> terminal_call_state (ac_state d) \<and> ac_agent_id d = agent \<and> ok = (ac_state d = CsCompleted))"
  using counted_settled [OF assms] by (auto simp: count_settled_def)

end
