(* ===== verification/Call_Samples.thy ===== *)
theory Call_Samples
  imports Cancellation_Properties Call_Counting
begin

text \<open>
  A concrete call and the observations of it, and the histories in which the properties of the call
  ledger apply.
\<close>

definition sample_policy :: runtime_policy where
  "sample_policy = \<lparr>rp_max_task_chars = 20000, rp_max_callback_body_bytes = 2097152,
     rp_max_normalized_observation_bytes = 262144, rp_claim_lease_seconds = 30,
     rp_claim_renew_interval_seconds = 10, rp_max_transport_attempts = 3,
     rp_max_uncertain_inspection_attempts = 3, rp_max_authorization_refresh_attempts = 3,
     rp_retry_backoff_initial_seconds = 1, rp_retry_backoff_max_seconds = 60,
     rp_orphan_acceptance_ttl_seconds = 300, rp_recent_observation_id_limit = 128,
     rp_recovery_batch_limit = 100\<rparr>"

definition sample_manifest :: frozen_manifest where
  "sample_manifest = \<lparr>rm_manifest_id = ''m'', rm_refs = [], rm_content_digest = ''0''\<rparr>"

definition sample_snapshot :: dispatch_snapshot where
  "sample_snapshot = \<lparr>ds_command_id = ''cmd'', ds_message_id = ''msg'', ds_task = ''look'',
     ds_agent_id = ''agent'', ds_skill_id = None, ds_endpoint_scope = ''e'', ds_transport_kind = Direct,
     ds_direct_mode = Some ModePoll, ds_requesting_subject_digest = ''subject'',
     ds_conversation_id = ''room'', ds_room_epoch = 1, ds_deadline_at = 90000,
     ds_resource_manifest = sample_manifest\<rparr>"

definition sample_call :: call_record where
  "sample_call = \<lparr>ac_state_version = 3, ac_call_record_id = ''call'', ac_invocation_id = ''inv'',
     ac_acceptance_id = ''acc'', ac_idempotency_key = ''key'', ac_run_id = ''run'',
     ac_conversation_id = ''room'', ac_room_epoch = 1, ac_assistant_message_id = ''am'',
     ac_source_index = 0, ac_tool_name = ''ask'', ac_execution_mode = Parallel,
     ac_side_effect_level = EffectExternal, ac_binding_id = ''b'', ac_binding_digest = ''bd'',
     ac_agent_id = ''agent'', ac_skill_id = None, ac_card_digest = ''cd'',
     ac_endpoint_scope_digest = ''es'', ac_arguments_digest = ''ad'',
     ac_requesting_subject_digest = ''subject'', ac_dispatch_snapshot = sample_snapshot,
     ac_resource_manifest = sample_manifest, ac_runtime_policy = sample_policy, ac_state = CsWorking,
     ac_transport_kind = Direct, ac_transport_attempts = 1, ac_inspection_attempts = 0,
     ac_dispatch_command_id = ''cmd'', ac_a2a_task_id = Some ''task'', ac_a2a_context_id = None,
     ac_ownership_aliases = [\<lparr>oa_kind = AliasTask, oa_value = ''task'', oa_binding_scope = ''es'',
       oa_authoritative = True\<rparr>],
     ac_ownership_alias_keys = [''es|task|task''], ac_pending_interaction_id = None,
     ac_interaction_revision = None, ac_interaction_fingerprint = None, ac_model_reply_rounds = [],
     ac_model_reply_joins = [], ac_answer_applied = None, ac_consumed_auth_references = [],
     ac_continuation_command = None, ac_continuation_state = None, ac_continuation_attempts = 0,
     ac_authorization_refresh_attempts = 0, ac_artifact_refs = [''a1''],
     ac_latest_observation_cursor = None, ac_recent_observation_ids = [''o1''],
     ac_terminal_result = None, ac_terminal_result_digest = None, ac_push_token_digest = None,
     ac_cancellation_command = None, ac_cancellation_command_id = None, ac_cancellation_reason = None,
     ac_cancellation_state = None, ac_cancellation_attempts = 0, ac_error_code = None,
     ac_error_message = None, ac_claim_owner = Some ''w'', ac_claim_expires_at = Some 70000,
     ac_next_attempt_at = None, ac_accepted_at = 1000, ac_updated_at = 2000, ac_terminal_at = None\<rparr>"

definition sample_observation :: observation where
  "sample_observation = \<lparr>ob_observation_id = ''o2'', ob_call_record_id = Some ''call'',
     ob_source_kind = SrcPoll, ob_source_identity = ''p2'', ob_binding_scope = ''es'',
     ob_event_kind = EvTerminal, ob_observed_at = 5000, ob_task_id = Some ''task'',
     ob_context_id = Some ''ctx'', ob_agent_id = None, ob_status = Some ResCompleted,
     ob_content = [TextPart ''done''], ob_inline_artifacts = [], ob_artifact_refs = [''a2''],
     ob_interaction_spec = None, ob_error_code = None, ob_error_message = None, ob_cursor = None\<rparr>"

text \<open>The digest of a sample result: its first content part as it is.\<close>

definition sample_digest :: "tool_result \<Rightarrow> string" where
  "sample_digest t = (case tr_content t of TextPart x # _ \<Rightarrow> ''sha:'' @ x | _ \<Rightarrow> ''sha'')"

definition sample_finished :: call_record where
  "sample_finished = (case apply_call_observation sample_digest 128 sample_call sample_observation of
     Inr r \<Rightarrow> r | Inl _ \<Rightarrow> sample_call)"

lemmas sample_call_defs = sample_call_def sample_snapshot_def sample_manifest_def sample_policy_def

lemma sample_call_valid: "call_valid sample_digest sample_call"
  by code_simp

lemma sample_call_applied:
  "apply_call_observation sample_digest 128 sample_call sample_observation = Inr sample_finished"
  by code_simp

lemma sample_finished_state [simp]: "ac_state sample_finished = CsCompleted"
  by code_simp

theorem observation_keeps_call_valid_witness:
  "call_valid sample_digest sample_finished
     \<and> (sample_finished = sample_call \<or> call_follows sample_call sample_finished)"
  using observation_keeps_call_valid [OF sample_call_valid _ _ sample_call_applied] by simp


theorem redelivered_evidence_changes_nothing_witness:
  "apply_call_observation sample_digest 128 sample_finished sample_observation = Inr sample_finished
   \<and> apply_call_observation sample_digest 128 sample_finished
       (sample_observation\<lparr>ob_observation_id := ''o3''\<rparr>) = Inr sample_finished"
proof -
  let ?y = "sample_observation\<lparr>ob_observation_id := ''o3''\<rparr>"
  have t: "\<not> terminal_call_state (ac_state sample_call) \<and> terminal_call_state (ac_state sample_finished)"
    by code_simp
  have y: "ob_event_kind ?y = EvTerminal \<and> ob_observation_id ?y \<notin> set (ac_recent_observation_ids sample_finished)"
    by code_simp
  have s: "ob_status ?y = ob_status sample_observation \<and> ob_content ?y = ob_content sample_observation
    \<and> ob_error_code ?y = ob_error_code sample_observation \<and> ob_error_message ?y = ob_error_message sample_observation
    \<and> set (ob_artifact_refs ?y) \<subseteq> set (ob_artifact_refs sample_observation)" by simp
  note r = redelivered_evidence_changes_nothing [OF sample_call_applied, simplified]
  from r t y s show ?thesis by auto
qed

section \<open>Histories of the sample call\<close>

lemma sample_inserted: "insert_call sample_digest [] [] NoFault sample_call = (Inr Accepted, [sample_call])"
  by code_simp

lemma sample_written:
  "cas_call sample_digest [sample_call] [sample_call] [sample_call] NoFault sample_finished 3
     = (Inr Accepted, [sample_finished])"
  by code_simp

lemma sample_version [simp]: "ac_state_version sample_call = 3" "ac_call_record_id sample_call = ''call''"
  "ac_call_record_id sample_finished = ''call''" "ac_agent_id sample_finished = ''agent''"
  by (code_simp, code_simp, code_simp, code_simp)

lemma sample_follows: "call_follows sample_call sample_finished"
proof -
  have "ac_state sample_call = CsWorking" by code_simp
  then have "sample_finished \<noteq> sample_call" using sample_finished_state by force
  with observation_follows [OF sample_call_applied] show ?thesis by blast
qed

lemma sample_found [simp]: "find_call [sample_call] ''call'' = Some sample_call"
  "find_call [sample_finished] ''call'' = Some sample_finished"
  by (simp_all add: find_call_def)

lemma sample_copy: "copy_of [sample_call] sample_call"
  by (simp add: copy_of_def)

lemma sample_started: "ledger_history [[sample_call], []]"
  using ledger_history.insert [OF ledger_history.start, of "[]" sample_digest NoFault sample_call]
  by (simp add: sample_inserted)

lemma sample_candidate: "worker_candidate sample_call sample_finished"
  by (rule candidate_observation [OF sample_call_applied])

lemma sample_put: "call_put sample_call [sample_call] [sample_finished]"
  unfolding call_put_def using sample_candidate sample_written by (metis sample_version(1) snd_conv)

lemma sample_history: "ledger_history [[sample_finished], [sample_call], []]"
  using ledger_history.cas [OF sample_started _ sample_copy sample_put] by simp

theorem finished_call_keeps_its_verdict_witness:
  "\<exists>d'. find_call [sample_finished] ''call'' = Some d' \<and> ac_state_version sample_call \<le> ac_state_version d'
     \<and> call_identity d' = call_identity sample_call
     \<and> (ac_state sample_call, ac_state d') \<in> {(a, b). b \<in> call_transitions a}\<^sup>*"
  using finished_call_keeps_its_verdict [of "[[sample_finished]]" "[sample_call]" "[[]]" "''call''" sample_call
      "[sample_finished]"] sample_history by auto

lemma sample_counting:
  "counting_cas sample_digest [sample_call] [sample_call] [sample_call] [sample_call] NoFault sample_finished
     (ac_state_version sample_call) = ((Inr Accepted, Some (''agent'', True)), [sample_finished])"
proof -
  have "load_call_by_id sample_digest [sample_call] ''call'' = Inr (Some sample_call)"
    using sample_call_valid by (simp add: load_call_by_id_def read_call_def call_valid_def)
  moreover have "ac_state sample_call = CsWorking" by code_simp
  ultimately show ?thesis
    by (simp add: counting_cas_def sample_written terminal_call_state_def counts_call_def not_dispatched_def)
qed

lemma sample_counted: "counted_history [[sample_finished], [sample_call], []] [(''call'', ''agent'', True)]"
proof -
  have "counted_history [[sample_call], []] []"
    using counted_history.other [OF counted_history.start] sample_started by simp
  from counted_history.count [OF this, of "[]" "[sample_call]" "[[]]" "[sample_call]", OF _ _ sample_copy
      sample_candidate sample_counting]
  show ?thesis by (simp add: count_of_def)
qed

theorem calls_counted_once_witness:
  "\<exists>d. find_call [sample_finished] ''call'' = Some d \<and> terminal_call_state (ac_state d)
     \<and> ac_agent_id d = ''agent'' \<and> ac_state d = CsCompleted"
  using calls_counted_once [OF sample_counted] by simp

section \<open>Canceling the sample call\<close>

text \<open>Other workers finish the call before the first access of the cancellation, then do nothing.\<close>

definition sample_others :: "nat \<Rightarrow> call_docs \<Rightarrow> call_docs" where
  "sample_others t s = (if t = 0 \<and> s = [sample_call] then [sample_finished] else s)"

definition sample_cancel_env :: "(nat \<Rightarrow> call_docs \<Rightarrow> call_docs) \<Rightarrow> ledger_env" where
  "sample_cancel_env others = \<lparr>lv_others = others, lv_fault = (\<lambda>_. NoFault), lv_now = (\<lambda>t. 8000 + 1000 * int t),
     lv_digest = sample_digest, lv_stable = concat\<rparr>"

lemma sample_quiet: "quiet sample_call" "quiet sample_finished"
  by (code_simp, code_simp)

lemma sample_ledger_others: "ledger_others sample_others"
  unfolding ledger_others_def
proof (intro allI impI conjI)
  fix t s h assume a: "ledger_history (s # h) \<and> list_all quiet s"
  then show "list_all quiet (sample_others t s)" using sample_quiet by (simp add: sample_others_def)
  show "\<exists>g. ledger_history (g @ s # h) \<and> hd (g @ [s]) = sample_others t s"
  proof (cases "t = 0 \<and> s = [sample_call]")
    case True
    have "ledger_history ([sample_finished] # s # h)"
      by (rule ledger_history.cas [of s h s sample_call]) (use a True sample_copy sample_put in simp_all)
    then show ?thesis using True by (intro exI [of _ "[[sample_finished]]"]) (simp add: sample_others_def)
  next
    case False
    then show ?thesis using a by (intro exI [of _ "[]"]) (auto simp: sample_others_def)
  qed
qed

lemma sample_beaten:
  "persist_local_cancellation (sample_cancel_env sample_others) sample_call ''stop'' None
     \<lparr>lw_store = [sample_call], lw_tick = 0\<rparr> = (Inr sample_finished, \<lparr>lw_store = [sample_finished], lw_tick = 4\<rparr>)"
  by code_simp

theorem cancellation_returns_stored_verdict_witness:
  "terminal_call_state (ac_state sample_finished)
    \<and> (\<exists>d. find_call [sample_finished] (ac_call_record_id sample_finished) = Some d
      \<and> call_verdict d = call_verdict (stored_call sample_finished))"
  using cancellation_returns_stored_verdict [OF _ sample_started _ _ sample_copy sample_quiet(1) sample_beaten]
    sample_ledger_others sample_quiet by (simp add: sample_cancel_env_def)

lemma sample_cancelable: "cancelable sample_digest [sample_call] sample_call"
proof -
  have "\<not> terminal_call_state (ac_state sample_call)" "\<not> call_violation [sample_call] sample_call"
    "bind_authoritative_aliases sample_call (ac_a2a_task_id sample_call) (ac_a2a_context_id sample_call)
       = Inr (ac_ownership_aliases sample_call)"
    by (code_simp, code_simp, code_simp)
  with sample_copy sample_call_valid sample_quiet(1) show ?thesis by (simp add: cancelable_def)
qed

theorem cancellation_always_ends_call_witness:
  "\<exists>t w'. persist_local_cancellation (sample_cancel_env (\<lambda>_ s. s)) sample_call ''stop'' None
      \<lparr>lw_store = [sample_call], lw_tick = 0\<rparr> = (Inr t, w')
    \<and> ac_state t = CsCanceled \<and> call_valid sample_digest t
    \<and> find_call (lw_store w') ''call'' = Some (stored_call t)"
proof -
  have "ac_state sample_call \<noteq> CsCancelPending" by code_simp
  with cancellation_always_ends_call [of "sample_cancel_env (\<lambda>_ s. s)" "[sample_call]" sample_call "''stop''" None 0]
    sample_cancelable show ?thesis by (simp add: sample_cancel_env_def undisturbed_def)
qed

end
