(* ===== verification/Room_Epochs.thy ===== *)
theory Room_Epochs
  imports Run_Store
begin

text \<open>
  \<open>MongoRoomEpochStore\<close> of \<open>execution/repository/orchestrator/stores.py\<close>. A room has one document: the
  number of its current incarnation and whether it is active. Deleting a room deactivates the epoch,
  creating it again activates the next one, and every side effect for a room is fenced by its epoch.
  \<open>s0\<close> is the store of the first read, \<open>s\<close> that of the write; a write may fail before or after it took
  effect. \<open>schema_version\<close> is left out.
\<close>

record room_epoch =
  re_conversation_id :: string
  re_epoch :: int
  re_high_water_mark :: int
  re_active :: bool
  re_creation_id :: string
  re_deletion_id :: "string option"
  re_updated_at :: datetime

definition room_error :: "room_epoch \<Rightarrow> check" where
  "room_error r = first_error
     [require (1 \<le> re_epoch r) ''epoch'', require (1 \<le> re_high_water_mark r) ''high_water_mark'']"

type_synonym room_docs = "room_epoch list"

definition find_room :: "room_docs \<Rightarrow> string \<Rightarrow> room_epoch option" where
  "find_room s k = List.find (\<lambda>r. re_conversation_id r = k) s"

definition checked_room :: "room_epoch option \<Rightarrow> store_exn + room_epoch option" where
  "checked_room doc = (case doc of None \<Rightarrow> Inr None
     | Some r \<Rightarrow> (case room_error r of Some m \<Rightarrow> Inl (ValidationFailed m) | None \<Rightarrow> Inr (Some r)))"

definition read_room :: "room_docs \<Rightarrow> string \<Rightarrow> store_exn + room_epoch option" where
  "read_room s k = checked_room (find_room s k)"

definition read_active_room :: "room_docs \<Rightarrow> string \<Rightarrow> store_exn + room_epoch option" where
  "read_active_room s k = checked_room (List.find (\<lambda>r. re_conversation_id r = k \<and> re_active r) s)"

definition stored_room :: "room_epoch \<Rightarrow> room_epoch" where
  "stored_room r = r\<lparr>re_updated_at := bson_millis (re_updated_at r)\<rparr>"

definition replace_room :: "room_docs \<Rightarrow> room_epoch \<Rightarrow> room_docs" where
  "replace_room s r = map (\<lambda>d. if re_conversation_id d = re_conversation_id r then stored_room r else d) s"

type_synonym room_result = "store_exn + (outcome \<times> room_epoch option)"

definition same_activation :: "room_epoch \<Rightarrow> room_epoch \<Rightarrow> bool" where
  "same_activation winner r \<longleftrightarrow> re_conversation_id winner = re_conversation_id r
     \<and> re_epoch winner = re_epoch r \<and> re_high_water_mark winner = re_high_water_mark r
     \<and> re_active winner \<and> re_creation_id winner = re_creation_id r \<and> re_deletion_id winner = None"

definition same_deactivation :: "room_epoch \<Rightarrow> room_epoch \<Rightarrow> bool" where
  "same_deactivation winner r \<longleftrightarrow> re_conversation_id winner = re_conversation_id r
     \<and> re_epoch winner = re_epoch r \<and> re_high_water_mark winner = re_high_water_mark r
     \<and> \<not> re_active winner \<and> re_creation_id winner = re_creation_id r
     \<and> re_deletion_id winner = re_deletion_id r"

text \<open>After the write: what the caller gets, by the winner it finds stored.\<close>

definition resolve_room ::
  "(room_epoch \<Rightarrow> room_epoch \<Rightarrow> bool) \<Rightarrow> room_docs \<Rightarrow> fault \<Rightarrow> room_epoch option \<Rightarrow> room_epoch \<Rightarrow> room_result"
  where
  "resolve_room same s flt current r = (case read_room s (re_conversation_id r) of
      Inl e \<Rightarrow> Inl e
    | Inr winner \<Rightarrow>
        if (case winner of None \<Rightarrow> False | Some x \<Rightarrow> same x r) then Inr (Replayed, winner)
        else if flt \<noteq> NoFault then Inl AdapterFailed
        else Inr (Conflict, if winner = None then current else winner))"

definition next_room :: "room_epoch option \<Rightarrow> string \<Rightarrow> string \<Rightarrow> datetime \<Rightarrow> room_epoch" where
  "next_room current k creation now =
     (let e = (case current of None \<Rightarrow> 1 | Some c \<Rightarrow> re_high_water_mark c + 1) in
      \<lparr>re_conversation_id = k, re_epoch = e, re_high_water_mark = e, re_active = True,
       re_creation_id = creation, re_deletion_id = None, re_updated_at = now\<rparr>)"

text \<open>
  The write of \<open>activate\<close>: with a current document, it replaces one that still has its high water mark;
  without one, it inserts unless the unique index on the room forbids it.
\<close>

definition activation_write ::
  "room_docs \<Rightarrow> fault \<Rightarrow> room_epoch option \<Rightarrow> room_epoch \<Rightarrow> bool \<times> room_docs" where
  "activation_write s flt current r =
     (let found = find_room s (re_conversation_id r);
          possible = (case current of
             Some c \<Rightarrow> (case found of None \<Rightarrow> False | Some d \<Rightarrow> re_high_water_mark d = re_high_water_mark c)
           | None \<Rightarrow> found = None);
          s' = (if current = None then s @ [stored_room r] else replace_room s r) in
      (possible \<and> flt = NoFault, if possible \<and> flt \<noteq> FaultBefore then s' else s))"

definition activate_room ::
  "room_docs \<Rightarrow> room_docs \<Rightarrow> fault \<Rightarrow> string \<Rightarrow> string \<Rightarrow> datetime \<Rightarrow> room_result \<times> room_docs" where
  "activate_room s0 s flt k creation now =
     (case read_room s0 k of
        Inl e \<Rightarrow> (Inl e, s)
      | Inr current \<Rightarrow>
          (case current of
             Some c \<Rightarrow>
               if re_active c then (Inr (replayed_if (re_creation_id c = creation), current), s)
               else if re_creation_id c = creation then (Inr (Conflict, current), s)
               else (let r = next_room current k creation now;
                         (ok, s') = activation_write s flt current r in
                     (if ok then Inr (Accepted, Some r) else resolve_room same_activation s' flt current r, s'))
           | None \<Rightarrow>
               (let r = next_room current k creation now;
                    (ok, s') = activation_write s flt current r in
                (if ok then Inr (Accepted, Some r) else resolve_room same_activation s' flt current r, s'))))"

definition deactivation_write :: "room_docs \<Rightarrow> fault \<Rightarrow> room_epoch \<Rightarrow> int \<Rightarrow> bool \<times> room_docs" where
  "deactivation_write s flt r e =
     (let possible = (case find_room s (re_conversation_id r) of None \<Rightarrow> False
             | Some d \<Rightarrow> re_epoch d = e \<and> re_active d) in
      (possible \<and> flt = NoFault, if possible \<and> flt \<noteq> FaultBefore then replace_room s r else s))"

definition deactivate_room ::
  "room_docs \<Rightarrow> room_docs \<Rightarrow> fault \<Rightarrow> string \<Rightarrow> int \<Rightarrow> string \<Rightarrow> datetime \<Rightarrow> room_result \<times> room_docs" where
  "deactivate_room s0 s flt k e deletion now =
     (case read_active_room s0 k of
        Inl x \<Rightarrow> (Inl x, s)
      | Inr current \<Rightarrow>
          (case current of
             Some c \<Rightarrow>
               if re_epoch c \<noteq> e then
                 (case read_room s0 k of
                    Inl x \<Rightarrow> (Inl x, s)
                  | Inr existing \<Rightarrow> (Inr (Conflict, existing), s))
               else
                 (let r = c\<lparr>re_active := False, re_deletion_id := Some deletion, re_updated_at := now\<rparr>;
                      (ok, s') = deactivation_write s flt r e in
                  (if ok then Inr (Accepted, Some r) else resolve_room same_deactivation s' flt current r, s'))
           | None \<Rightarrow>
               (case read_room s0 k of
                  Inl x \<Rightarrow> (Inl x, s)
                | Inr existing \<Rightarrow>
                    (Inr (replayed_if (case existing of None \<Rightarrow> False
                       | Some x \<Rightarrow> \<not> re_active x \<and> re_epoch x = e \<and> re_deletion_id x = Some deletion), existing), s))))"

definition verify_active :: "room_docs \<Rightarrow> string \<Rightarrow> int \<Rightarrow> bool" where
  "verify_active s k e \<longleftrightarrow> list_ex (\<lambda>r. re_conversation_id r = k \<and> re_epoch r = e \<and> re_active r) s"

definition verify_cleanup_epoch :: "room_docs \<Rightarrow> string \<Rightarrow> int \<Rightarrow> string \<Rightarrow> bool" where
  "verify_cleanup_epoch s k e deletion \<longleftrightarrow> list_ex (\<lambda>r. re_conversation_id r = k \<and> re_epoch r = e
     \<and> \<not> re_active r \<and> re_deletion_id r = Some deletion) s"

section \<open>Histories\<close>

text \<open>The stores the collection went through, the latest first; a read may see any earlier one.\<close>

inductive room_history :: "room_docs list \<Rightarrow> bool" where
  start: "room_history [[]]"
| activate: "room_history (s # h) \<Longrightarrow> s0 \<in> set (s # h)
    \<Longrightarrow> room_history (snd (activate_room s0 s flt k creation now) # s # h)"
| deactivate: "room_history (s # h) \<Longrightarrow> s0 \<in> set (s # h)
    \<Longrightarrow> room_history (snd (deactivate_room s0 s flt k e deletion now) # s # h)"

text \<open>A room moves on: to a later epoch, or from active to inactive within its epoch.\<close>

definition room_follows :: "room_epoch \<Rightarrow> room_epoch \<Rightarrow> bool" where
  "room_follows d d' \<longleftrightarrow> re_epoch d < re_epoch d' \<or> re_epoch d = re_epoch d'
     \<and> (re_active d' \<longrightarrow> re_active d) \<and> (\<not> re_active d \<longrightarrow> d' = d)"

definition rooms_follow :: "room_docs \<Rightarrow> room_docs \<Rightarrow> bool" where
  "rooms_follow s s' \<longleftrightarrow> (\<forall>k d. find_room s k = Some d \<longrightarrow> (\<exists>d'. find_room s' k = Some d' \<and> room_follows d d'))"

definition rooms_ok :: "room_docs \<Rightarrow> bool" where
  "rooms_ok s \<longleftrightarrow> distinct (map re_conversation_id s)
     \<and> list_all (\<lambda>r. re_high_water_mark r = re_epoch r \<and> 1 \<le> re_epoch r) s"

lemma room_follows_refl [simp]: "room_follows d d"
  by (simp add: room_follows_def)

lemma room_follows_trans: "room_follows a b \<Longrightarrow> room_follows b c \<Longrightarrow> room_follows a c"
  by (auto simp: room_follows_def)

lemma rooms_follow_refl [simp]: "rooms_follow s s"
  by (auto simp: rooms_follow_def)

lemma rooms_follow_trans: "rooms_follow a b \<Longrightarrow> rooms_follow b c \<Longrightarrow> rooms_follow a c"
  unfolding rooms_follow_def by (meson room_follows_trans)

lemma find_room_Some: "find_room s k = Some d \<Longrightarrow> re_conversation_id d = k \<and> d \<in> set s"
  by (induction s) (auto simp: find_room_def split: if_splits)

lemma find_room_only:
  "find_room s k = Some d \<Longrightarrow> distinct (map re_conversation_id s) \<Longrightarrow> filter (\<lambda>r. re_conversation_id r = k) s = [d]"
proof (induction s)
  case (Cons a t)
  show ?case
  proof (cases "re_conversation_id a = k")
    case True
    with Cons.prems(2) have "filter (\<lambda>r. re_conversation_id r = k) t = []" by (auto simp: filter_empty_conv image_iff)
    with True Cons.prems(1) show ?thesis by (simp add: find_room_def)
  next
    case False
    with Cons show ?thesis by (simp add: find_room_def)
  qed
qed (simp add: find_room_def)

lemma find_room_None: "find_room s k = None \<longleftrightarrow> k \<notin> re_conversation_id ` set s"
  by (auto simp: find_room_def find_None_iff)

lemma find_room_replace:
  "find_room (replace_room s r) k
     = (if k = re_conversation_id r then map_option (\<lambda>_. stored_room r) (find_room s k) else find_room s k)"
  by (induction s) (auto simp: find_room_def replace_room_def stored_room_def)

lemma find_room_snoc:
  "find_room (s @ [r]) k = (case find_room s k of Some d \<Rightarrow> Some d
     | None \<Rightarrow> if re_conversation_id r = k then Some r else None)"
  by (induction s) (auto simp: find_room_def)

lemma rooms_ok_replace: "rooms_ok s \<Longrightarrow> re_high_water_mark r = re_epoch r \<Longrightarrow> 1 \<le> re_epoch r
    \<Longrightarrow> rooms_ok (replace_room s r)"
proof -
  assume a: "rooms_ok s" "re_high_water_mark r = re_epoch r" "1 \<le> re_epoch r"
  have "map re_conversation_id (replace_room s r) = map re_conversation_id s"
    by (simp add: replace_room_def stored_room_def)
  moreover have "list_all (\<lambda>r. re_high_water_mark r = re_epoch r \<and> 1 \<le> re_epoch r) (replace_room s r)"
    using a by (auto simp: rooms_ok_def list_all_iff replace_room_def stored_room_def)
  ultimately show ?thesis using a(1) by (simp only: rooms_ok_def)
qed

lemma rooms_ok_snoc: "rooms_ok s \<Longrightarrow> find_room s (re_conversation_id r) = None
    \<Longrightarrow> re_high_water_mark r = re_epoch r \<Longrightarrow> 1 \<le> re_epoch r \<Longrightarrow> rooms_ok (s @ [stored_room r])"
  by (auto simp: rooms_ok_def find_room_None stored_room_def)

lemma rooms_follow_replace:
  assumes "find_room s (re_conversation_id r) = Some d" and "room_follows d (stored_room r)"
  shows "rooms_follow s (replace_room s r)"
  using assms by (auto simp: rooms_follow_def find_room_replace)

lemma rooms_follow_snoc: "find_room s (re_conversation_id r) = None \<Longrightarrow> rooms_follow s (s @ [r])"
  by (auto simp: rooms_follow_def find_room_snoc)

text \<open>What \<open>activate\<close> and \<open>deactivate\<close> may write.\<close>

lemma activate_store:
  "snd (activate_room s0 s flt k creation now) = s
   \<or> (let c = find_room s0 k; r = next_room c k creation now in
        (case c of None \<Rightarrow> find_room s k = None \<and> snd (activate_room s0 s flt k creation now) = s @ [stored_room r]
         | Some c \<Rightarrow> \<not> re_active c \<and> snd (activate_room s0 s flt k creation now) = replace_room s r
             \<and> (\<exists>d. find_room s k = Some d \<and> re_high_water_mark d = re_high_water_mark c)))"
  by (auto simp: activate_room_def read_room_def checked_room_def activation_write_def next_room_def Let_def
      split: option.splits sum.splits if_splits)

lemma deactivate_store:
  "snd (deactivate_room s0 s flt k e deletion now) = s
   \<or> (\<exists>c d. c \<in> set s0 \<and> re_conversation_id c = k \<and> re_epoch c = e \<and> find_room s k = Some d \<and> re_epoch d = e
        \<and> re_active d \<and> snd (deactivate_room s0 s flt k e deletion now)
          = replace_room s (c\<lparr>re_active := False, re_deletion_id := Some deletion, re_updated_at := now\<rparr>))"
proof (cases "List.find (\<lambda>r. re_conversation_id r = k \<and> re_active r) s0")
  case None
  then show ?thesis
    by (auto simp: deactivate_room_def read_active_room_def checked_room_def split: option.splits sum.splits)
next
  case (Some c)
  then have c: "c \<in> set s0" "re_conversation_id c = k" by (auto simp: find_Some_iff)
  have "snd (deactivate_room s0 s flt k e deletion now) = s \<or> re_epoch c = e
      \<and> (\<exists>d. find_room s k = Some d \<and> re_epoch d = e \<and> re_active d) \<and> snd (deactivate_room s0 s flt k e deletion now)
          = replace_room s (c\<lparr>re_active := False, re_deletion_id := Some deletion, re_updated_at := now\<rparr>)"
    using Some c(2) by (auto simp: deactivate_room_def read_active_room_def checked_room_def Let_def
        deactivation_write_def split: option.splits sum.splits)
  with c show ?thesis by blast
qed

lemma room_history_step:
  "room_history h \<Longrightarrow> list_all rooms_ok h
     \<and> (\<forall>s h'. h = s # h' \<longrightarrow> (\<forall>s0 \<in> set h. rooms_follow s0 s))"
proof (induction rule: room_history.induct)
  case start
  show ?case by (simp add: rooms_ok_def)
next
  case (activate s h s0 flt k creation now)
  let ?s = "snd (activate_room s0 s flt k creation now)"
  from activate have ok: "rooms_ok s" "rooms_ok s0" "list_all rooms_ok (s # h)" by (auto simp: list_all_iff)
  have "rooms_ok ?s \<and> rooms_follow s ?s"
  proof (cases "?s = s")
    case True
    with ok show ?thesis by simp
  next
    case False
    let ?r = "next_room (find_room s0 k) k creation now"
    show ?thesis
    proof (cases "find_room s0 k")
      case None
      with False activate_store [of s0 s flt k creation now]
      have "find_room s k = None" "?s = s @ [stored_room ?r]" by (auto simp: Let_def)
      with ok rooms_ok_snoc [of s ?r] rooms_follow_snoc [of s "stored_room ?r"] None show ?thesis
        by (simp add: next_room_def stored_room_def)
    next
      case (Some c)
      with False activate_store [of s0 s flt k creation now] obtain d
        where s': "?s = replace_room s ?r" and d: "find_room s k = Some d" "re_high_water_mark d = re_high_water_mark c"
        by (auto simp: Let_def)
      from ok d find_room_Some [OF d(1)] have "re_high_water_mark d = re_epoch d" "1 \<le> re_epoch d"
        by (auto simp: rooms_ok_def list_all_iff)
      then have r: "re_high_water_mark ?r = re_epoch ?r" "1 \<le> re_epoch ?r" "re_conversation_id ?r = k"
        "room_follows d (stored_room ?r)"
        using Some d(2) by (simp_all add: next_room_def room_follows_def stored_room_def Let_def)
      with ok(1) have "rooms_ok (replace_room s ?r)" by (intro rooms_ok_replace)
      moreover have "rooms_follow s (replace_room s ?r)" using r d(1) by (intro rooms_follow_replace) simp_all
      ultimately show ?thesis by (simp only: s')
    qed
  qed
  with activate.IH ok show ?case using rooms_follow_trans by auto
next
  case (deactivate s h s0 flt k e deletion now)
  let ?s = "snd (deactivate_room s0 s flt k e deletion now)"
  from deactivate have ok: "rooms_ok s" "rooms_ok s0" "list_all rooms_ok (s # h)" by (auto simp: list_all_iff)
  have "rooms_ok ?s \<and> rooms_follow s ?s"
  proof (cases "?s = s")
    case True
    with ok show ?thesis by simp
  next
    case False
    with deactivate_store [of s0 s flt k e deletion now] obtain c d where
      c: "c \<in> set s0" "re_conversation_id c = k" "re_epoch c = e" and d: "find_room s k = Some d" "re_epoch d = e" "re_active d"
      and s': "?s = replace_room s (c\<lparr>re_active := False, re_deletion_id := Some deletion, re_updated_at := now\<rparr>)"
      by blast
    from ok(2) c have "re_high_water_mark c = re_epoch c" "1 \<le> re_epoch c" by (auto simp: rooms_ok_def list_all_iff)
    with s' d c ok rooms_ok_replace rooms_follow_replace [of s _ d] show ?thesis
      by (simp add: room_follows_def stored_room_def)
  qed
  with deactivate.IH ok show ?case using rooms_follow_trans by auto
qed

lemma room_history_suffix: "room_history (h1 @ s # h2) \<Longrightarrow> room_history (s # h2)"
proof (induction h1)
  case (Cons a h1)
  then have "room_history (h1 @ s # h2)" by (cases h1) (auto elim: room_history.cases)
  with Cons.IH show ?case .
qed simp

text \<open>An epoch that was deactivated or passed is not active, and stays so along a history.\<close>

definition epoch_dead :: "room_docs \<Rightarrow> string \<Rightarrow> int \<Rightarrow> bool" where
  "epoch_dead s k e \<longleftrightarrow> (case find_room s k of None \<Rightarrow> False
     | Some d \<Rightarrow> e < re_epoch d \<or> e = re_epoch d \<and> \<not> re_active d)"

lemma rooms_ok_only:
  "rooms_ok s \<Longrightarrow> find_room s k = Some d \<Longrightarrow> filter (\<lambda>r. re_conversation_id r = k) s = [d]"
  by (auto simp: rooms_ok_def intro: find_room_only)

lemma epoch_dead_inactive: "rooms_ok s \<Longrightarrow> epoch_dead s k e \<Longrightarrow> \<not> verify_active s k e"
proof -
  assume ok: "rooms_ok s" and dead: "epoch_dead s k e"
  then obtain d where d: "find_room s k = Some d" "e < re_epoch d \<or> e = re_epoch d \<and> \<not> re_active d"
    by (auto simp: epoch_dead_def split: option.splits)
  have "r = d" if "r \<in> set s" "re_conversation_id r = k" for r
  proof -
    have "r \<in> set (filter (\<lambda>r. re_conversation_id r = k) s)" using that by simp
    with rooms_ok_only [OF ok d(1)] show ?thesis by simp
  qed
  with d(2) show ?thesis by (auto simp: verify_active_def list_ex_iff)
qed

lemma epoch_dead_follows: "rooms_follow s s' \<Longrightarrow> epoch_dead s k e \<Longrightarrow> epoch_dead s' k e"
  by (fastforce simp: rooms_follow_def epoch_dead_def room_follows_def split: option.splits)

text \<open>
  C30: A dead incarnation of a room never comes back. In any history of activations and deactivations,
  with stale reads and lost or unacknowledged writes: once a room's epoch \<open>e\<close> was deactivated or
  passed, no later store verifies \<open>e\<close> as active; the epoch of a room never falls, and the room keeps
  exactly one document.
\<close>

theorem dead_epoch_stays_dead:
  assumes "room_history (h1 @ s # h2)" and "find_room s k = Some d"
    and "e < re_epoch d \<or> e = re_epoch d \<and> \<not> re_active d" and "s' \<in> set (h1 @ [s])"
  shows "\<not> verify_active s' k e
    \<and> (\<exists>d'. find_room s' k = Some d' \<and> re_epoch d \<le> re_epoch d' \<and> filter (\<lambda>r. re_conversation_id r = k) s' = [d'])"
proof -
  from assms(4) obtain g1 g2 where g: "h1 @ [s] = g1 @ s' # g2" by (meson split_list)
  from assms(1) g have h: "room_history (g1 @ s' # g2 @ h2)" by (metis append_Cons append_Nil append_assoc)
  have "s \<in> set (s' # g2 @ h2)" using g by (cases g2 rule: rev_cases) auto
  with room_history_step [OF room_history_suffix [OF h]] have "rooms_follow s s'" and ok: "rooms_ok s'"
    by auto
  with assms(2) obtain d' where d': "find_room s' k = Some d'" "room_follows d d'"
    unfolding rooms_follow_def by blast
  have "epoch_dead s k e" using assms(2,3) by (simp add: epoch_dead_def)
  from epoch_dead_inactive [OF ok epoch_dead_follows [OF \<open>rooms_follow s s'\<close> this]]
  have "\<not> verify_active s' k e" .
  with d' rooms_ok_only [OF ok d'(1)] show ?thesis by (auto simp: room_follows_def)
qed

section \<open>A concrete room\<close>

definition sample_rooms :: "room_docs list" where
  "sample_rooms = (let s1 = snd (activate_room [] [] NoFault ''r'' ''c1'' 1000);
      s2 = snd (deactivate_room s1 s1 FaultAfter ''r'' 1 ''d1'' 2000);
      s3 = snd (activate_room s2 s2 NoFault ''r'' ''c2'' 3000) in [s3, s2, s1, []])"

lemma sample_rooms_history: "room_history sample_rooms"
  unfolding sample_rooms_def Let_def
  by (intro room_history.activate room_history.deactivate room_history.start) simp_all

theorem dead_epoch_stays_dead_witness:
  "\<not> verify_active (hd sample_rooms) ''r'' 1
    \<and> (\<exists>d'. find_room (hd sample_rooms) ''r'' = Some d' \<and> 1 \<le> re_epoch d'
      \<and> filter (\<lambda>r. re_conversation_id r = ''r'') (hd sample_rooms) = [d'])"
proof -
  have h: "sample_rooms = [hd sample_rooms] @ (sample_rooms ! 1) # drop 2 sample_rooms"
    by (simp add: sample_rooms_def Let_def)
  have d: "find_room (sample_rooms ! 1) ''r'' = Some \<lparr>re_conversation_id = ''r'', re_epoch = 1,
      re_high_water_mark = 1, re_active = False, re_creation_id = ''c1'', re_deletion_id = Some ''d1'',
      re_updated_at = 2000\<rparr>" by code_simp
  have "room_history ([hd sample_rooms] @ (sample_rooms ! 1) # drop 2 sample_rooms)"
    unfolding h [symmetric] by (rule sample_rooms_history)
  from dead_epoch_stays_dead [OF this d, of 1 "hd sample_rooms"]
  show ?thesis by simp
qed

end
