(* ===== verification/Turn_Contracts.thy ===== *)
theory Turn_Contracts
  imports Prelude
begin

text \<open>
  \<open>common/dto/turn_lifecycle.py\<close>: the public payloads of a Turn, one record per class and a datatype
  for their union, with their validators; and of \<open>common/dto/delivery.py\<close> the events that carry them
  (\<open>RunEventNotification\<close>) and the events of human interactions and Agent cards that a Turn correlates.
  A literal type with a role in the fold is a datatype, another one a string checked against its
  values.
\<close>

section \<open>Strings\<close>

definition public_id :: "string \<Rightarrow> bool" where
  "public_id s \<longleftrightarrow> 1 \<le> length s \<and> length s \<le> 256"

definition public_text :: "string \<Rightarrow> bool" where
  "public_text s \<longleftrightarrow> length s \<le> 32000"

definition public_summary :: "string \<Rightarrow> bool" where
  "public_summary s \<longleftrightarrow> length s \<le> 1000"

definition public_label :: "string \<Rightarrow> bool" where
  "public_label s \<longleftrightarrow> 1 \<le> length s \<and> length s \<le> 160"

definition optional :: "('a \<Rightarrow> bool) \<Rightarrow> 'a option \<Rightarrow> bool" where
  "optional p x \<longleftrightarrow> (case x of None \<Rightarrow> True | Some y \<Rightarrow> p y)"

definition letter :: "char \<Rightarrow> bool" where
  "letter c \<longleftrightarrow> (let n = of_char c :: nat in 65 \<le> n \<and> n \<le> 90 \<or> 97 \<le> n \<and> n \<le> 122)"

definition digit :: "char \<Rightarrow> bool" where
  "digit c \<longleftrightarrow> (let n = of_char c :: nat in 48 \<le> n \<and> n \<le> 57)"

text \<open>\<open>^inv_[A-Za-z0-9_-]{8,128}$\<close> (Python's \<open>$\<close> before a final newline is not a match of pydantic's engine).\<close>

definition call_pattern :: "string \<Rightarrow> bool" where
  "call_pattern s \<longleftrightarrow> take 4 s = ''inv_'' \<and> 8 \<le> length (drop 4 s) \<and> length (drop 4 s) \<le> 128
     \<and> list_all (\<lambda>c. letter c \<or> digit c \<or> c \<in> set ''_-'') (drop 4 s)"

text \<open>\<open>^[A-Za-z][A-Za-z0-9_.:-]{0,63}$\<close>\<close>

definition code_pattern :: "string \<Rightarrow> bool" where
  "code_pattern s \<longleftrightarrow> s \<noteq> [] \<and> letter (hd s) \<and> length s \<le> 64
     \<and> list_all (\<lambda>c. letter c \<or> digit c \<or> c \<in> set ''_.:-'') (tl s)"

section \<open>Payloads\<close>

record run_started =
  pst_hybro_turn_id :: string
  pst_user_message_id :: string
  pst_started_at :: datetime
  pst_mode :: string

record turn_start =
  pts_internal_turn_id :: string
  pts_attempt :: int

record message_start =
  pms_internal_turn_id :: string
  pms_message_id :: string

record text_delta_event =
  ptd_content_index :: int
  ptd_delta_index :: int
  ptd_start_offset :: int
  ptd_end_offset :: int
  ptd_delta :: string

record message_update =
  pmu_internal_turn_id :: string
  pmu_message_id :: string
  pmu_event :: text_delta_event

datatype message_disposition = MdCommentary | MdFinal | MdError | MdAborted

record message_end =
  pme_internal_turn_id :: string
  pme_message_id :: string
  pme_stop_reason :: string
  pme_disposition :: message_disposition
  pme_text :: string
  pme_error_summary :: "string option"

datatype execution_kind = ExecAgent | ExecTool

record execution_target =
  et_name :: string
  et_source :: "string option"

record tool_start =
  pxs_internal_turn_id :: string
  pxs_tool_call_id :: string
  pxs_tool_name :: string
  pxs_input :: "(string \<times> json) list"
  pxs_execution_kind :: execution_kind
  pxs_target :: "execution_target option"
  pxs_request_summary :: string

datatype tool_status = TsRunning | TsSuspended | TsCompleted | TsFailed | TsCanceled

record tool_update =
  pxu_internal_turn_id :: string
  pxu_tool_call_id :: string
  pxu_tool_name :: string
  pxu_update_index :: int
  pxu_status :: tool_status
  pxu_partial_result :: string
  pxu_execution_kind :: execution_kind
  pxu_target :: "execution_target option"

record tool_end =
  pxe_internal_turn_id :: string
  pxe_tool_call_id :: string
  pxe_tool_name :: string
  pxe_outcome :: tool_status
  pxe_result :: string
  pxe_is_error :: bool
  pxe_duration_ms :: int
  pxe_failure_reason :: "string option"
  pxe_execution_kind :: execution_kind
  pxe_target :: "execution_target option"
  pxe_detail_available :: bool
  pxe_error_code :: "string option"
  pxe_error_message :: "string option"

datatype internal_status = ItActive | ItCompleted | ItError | ItAborted

record turn_end =
  pte_internal_turn_id :: string
  pte_message_id :: "string option"
  pte_tool_call_ids :: "string list"
  pte_status :: internal_status

record retry_scheduled =
  prt_internal_turn_id :: string
  prt_attempt :: int
  prt_delay_ms :: int
  prt_error_class :: string

record model_decision =
  pmd_internal_turn_id :: string
  pmd_decision :: string
  pmd_agent_label :: "string option"
  pmd_question_summary :: "string option"
  pmd_source_summary :: "string option"
  pmd_reason :: "string option"

record run_waiting =
  pwi_interaction_id :: string
  pwi_request_ids :: "string list"
  pwi_requested_at :: datetime

record run_resumed =
  prs_interaction_id :: string
  prs_resolved_request_ids :: "string list"
  prs_resumed_at :: datetime

datatype settlement = StCompleted | StFailed | StCanceled

record run_settled =
  psl_status :: settlement
  psl_started_at :: datetime
  psl_settled_at :: datetime
  psl_duration_ms :: int
  psl_final_message_id :: "string option"
  psl_failure_code :: "string option"
  psl_error_summary :: "string option"
  psl_cancellation_code :: "string option"

datatype canonical_payload =
    RunStarted run_started
  | TurnStart turn_start
  | MessageStart message_start
  | MessageUpdate message_update
  | MessageEnd message_end
  | ToolStart tool_start
  | ToolUpdate tool_update
  | ToolEnd tool_end
  | TurnEnd turn_end
  | RetryScheduled retry_scheduled
  | ModelDecision model_decision
  | RunWaiting run_waiting
  | RunResumed run_resumed
  | RunSettled run_settled

section \<open>Validators\<close>

definition text_delta_error :: "text_delta_event \<Rightarrow> check" where
  "text_delta_error e = first_error
     [require (0 \<le> ptd_content_index e) ''content_index'', require (0 \<le> ptd_delta_index e) ''delta_index'',
      require (0 \<le> ptd_start_offset e) ''start_offset'', require (0 \<le> ptd_end_offset e) ''end_offset'',
      require (public_text (ptd_delta e)) ''delta'',
      require (ptd_end_offset e = ptd_start_offset e + int (length (ptd_delta e)))
        ''text delta offsets must count Unicode code points'']"

definition allowed_stop_reasons :: "message_disposition \<Rightarrow> string list" where
  "allowed_stop_reasons d = (case d of MdCommentary \<Rightarrow> [''tool_use''] | MdFinal \<Rightarrow> [''stop'']
     | MdError \<Rightarrow> [''length'', ''content_filter'', ''error'', ''deferred''] | MdAborted \<Rightarrow> [''aborted''])"

definition message_end_error :: "message_end \<Rightarrow> check" where
  "message_end_error p = first_error
     [require (public_id (pme_internal_turn_id p)) ''internal_turn_id'',
      require (public_id (pme_message_id p)) ''message_id'',
      require (public_text (pme_text p)) ''text'',
      require (optional public_summary (pme_error_summary p)) ''error_summary'',
      require (pme_stop_reason p \<in> set (allowed_stop_reasons (pme_disposition p)))
        ''invalid message disposition/stop_reason combination'',
      require (pme_disposition p = MdError \<longrightarrow> pme_error_summary p \<noteq> None \<and> pme_error_summary p \<noteq> Some [])
        ''error message_end requires error_summary'',
      require (pme_disposition p \<noteq> MdError \<longrightarrow> pme_error_summary p = None)
        ''error_summary is valid only for error disposition'']"

definition target_error :: "execution_kind \<Rightarrow> execution_target option \<Rightarrow> check" where
  "target_error k t = first_error
     [require (optional (\<lambda>x. public_label (et_name x)
         \<and> optional (\<lambda>s. s \<in> {''cloud'', ''local'', ''hub''}) (et_source x)) t) ''target'',
      require (k = ExecAgent \<longrightarrow> t \<noteq> None) ''agent execution requires a target'',
      require (k = ExecTool \<longrightarrow> t = None) ''tool execution must not carry a target'']"

fun json_scalar :: "json \<Rightarrow> bool" where
  "json_scalar (JArr _) = False"
| "json_scalar (JObj _) = False"
| "json_scalar _ = True"

definition tool_start_error :: "tool_start \<Rightarrow> check" where
  "tool_start_error p = first_error
     [require (public_id (pxs_internal_turn_id p)) ''internal_turn_id'',
      require (call_pattern (pxs_tool_call_id p)) ''tool_call_id'',
      require (public_label (pxs_tool_name p)) ''tool_name'',
      require (list_all (\<lambda>kv. json_scalar (snd kv)) (pxs_input p)) ''input'',
      require (public_summary (pxs_request_summary p)) ''request_summary'',
      target_error (pxs_execution_kind p) (pxs_target p)]"

definition tool_update_error :: "tool_update \<Rightarrow> check" where
  "tool_update_error p = first_error
     [require (public_id (pxu_internal_turn_id p)) ''internal_turn_id'',
      require (call_pattern (pxu_tool_call_id p)) ''tool_call_id'',
      require (public_label (pxu_tool_name p)) ''tool_name'',
      require (1 \<le> pxu_update_index p) ''update_index'',
      require (pxu_status p \<in> {TsRunning, TsSuspended}) ''status'',
      require (public_summary (pxu_partial_result p)) ''partial_result'',
      target_error (pxu_execution_kind p) (pxu_target p)]"

definition outcome_fields_valid :: "tool_end \<Rightarrow> bool" where
  "outcome_fields_valid p \<longleftrightarrow> (case pxe_outcome p of
      TsCompleted \<Rightarrow> \<not> pxe_is_error p \<and> pxe_failure_reason p = None
    | TsFailed \<Rightarrow> pxe_is_error p
    | _ \<Rightarrow> \<not> pxe_is_error p \<and> pxe_result p = [] \<and> pxe_failure_reason p = None)"

definition tool_end_error :: "tool_end \<Rightarrow> check" where
  "tool_end_error p = first_error
     [require (public_id (pxe_internal_turn_id p)) ''internal_turn_id'',
      require (call_pattern (pxe_tool_call_id p)) ''tool_call_id'',
      require (public_label (pxe_tool_name p)) ''tool_name'',
      require (pxe_outcome p \<in> {TsCompleted, TsFailed, TsCanceled}) ''outcome'',
      require (public_summary (pxe_result p)) ''result'',
      require (0 \<le> pxe_duration_ms p) ''duration_ms'',
      require (optional (\<lambda>x. x \<in> {''rejected'', ''expired'', ''validation'', ''authorization'', ''execution''})
        (pxe_failure_reason p)) ''failure_reason'',
      require (optional code_pattern (pxe_error_code p)) ''error_code'',
      require (optional (\<lambda>x. length x \<le> 500) (pxe_error_message p)) ''error_message'',
      require (outcome_fields_valid p) ''invalid tool outcome fields'',
      require (pxe_detail_available p \<longrightarrow> pxe_outcome p = TsCompleted)
        ''detail_available is valid only for completed outcome'',
      require (pxe_outcome p \<noteq> TsFailed \<longrightarrow> pxe_error_code p = None \<and> pxe_error_message p = None)
        ''error details are valid only for failed outcome'',
      target_error (pxe_execution_kind p) (pxe_target p)]"

definition turn_end_error :: "turn_end \<Rightarrow> check" where
  "turn_end_error p = first_error
     [require (public_id (pte_internal_turn_id p)) ''internal_turn_id'',
      require (optional public_id (pte_message_id p)) ''message_id'',
      require (list_all call_pattern (pte_tool_call_ids p)) ''tool_call_ids'',
      require (pte_status p \<noteq> ItActive) ''status'',
      require (distinct (pte_tool_call_ids p)) ''turn_end tool_call_ids must be unique'',
      require (pte_status p = ItCompleted \<longrightarrow> pte_message_id p \<noteq> None) ''completed turn requires message_id'']"

definition decision_error :: "model_decision \<Rightarrow> check" where
  "decision_error p = first_error
     [require (public_id (pmd_internal_turn_id p)) ''internal_turn_id'',
      require (pmd_decision p \<in> {''interaction_received'', ''answered_from_context'', ''forwarded_to_user'',
        ''no_progress'', ''degraded_to_user''}) ''decision'',
      require (optional public_label (pmd_agent_label p)) ''agent_label'',
      require (optional public_summary (pmd_question_summary p)) ''question_summary'',
      require (optional public_summary (pmd_source_summary p)) ''source_summary'',
      require (optional public_summary (pmd_reason p)) ''reason'',
      require (pmd_decision p \<in> {''answered_from_context'', ''forwarded_to_user''} \<longrightarrow> pmd_agent_label p \<noteq> None)
        (pmd_decision p @ '' requires agent_label''),
      require (pmd_decision p \<in> {''no_progress'', ''degraded_to_user''}
        \<longrightarrow> pmd_reason p \<noteq> None \<and> pmd_reason p \<noteq> Some []) ''terminal decision requires reason'']"

definition settlement_fields_valid :: "run_settled \<Rightarrow> bool" where
  "settlement_fields_valid p \<longleftrightarrow> (case psl_status p of
      StCompleted \<Rightarrow> psl_final_message_id p \<noteq> None \<and> psl_failure_code p = None
        \<and> psl_error_summary p = None \<and> psl_cancellation_code p = None
    | StFailed \<Rightarrow> psl_final_message_id p = None \<and> psl_failure_code p \<noteq> None
        \<and> psl_error_summary p \<noteq> None \<and> psl_error_summary p \<noteq> Some [] \<and> psl_cancellation_code p = None
    | StCanceled \<Rightarrow> psl_final_message_id p = None \<and> psl_failure_code p = None
        \<and> psl_error_summary p = None \<and> psl_cancellation_code p \<noteq> None)"

definition settled_error :: "run_settled \<Rightarrow> check" where
  "settled_error p = first_error
     [require (0 \<le> psl_duration_ms p) ''duration_ms'',
      require (optional public_id (psl_final_message_id p)) ''final_message_id'',
      require (optional (\<lambda>x. x \<in> {''budget_exhausted'', ''provider_error'', ''assembly_error'', ''tool_failure'',
        ''hitl_error'', ''rejected'', ''internal_error''}) (psl_failure_code p)) ''failure_code'',
      require (optional public_summary (psl_error_summary p)) ''error_summary'',
      require (optional (\<lambda>x. x \<in> {''user_requested'', ''room_closed'', ''shutdown'', ''policy''})
        (psl_cancellation_code p)) ''cancellation_code'',
      require (psl_started_at p \<le> psl_settled_at p) ''settled_at must not precede started_at'',
      require (settlement_fields_valid p) ''invalid run_settled conditional fields'']"

definition payload_error :: "canonical_payload \<Rightarrow> check" where
  "payload_error p = (case p of
      RunStarted x \<Rightarrow> first_error
        [require (public_id (pst_hybro_turn_id x)) ''hybro_turn_id'',
         require (public_id (pst_user_message_id x)) ''user_message_id'',
         require (pst_mode x \<in> {''fast'', ''direct'', ''ultimate'', ''supervisor'', ''passthrough''}) ''mode'']
    | TurnStart x \<Rightarrow> first_error
        [require (public_id (pts_internal_turn_id x)) ''internal_turn_id'', require (1 \<le> pts_attempt x) ''attempt'']
    | MessageStart x \<Rightarrow> first_error
        [require (public_id (pms_internal_turn_id x)) ''internal_turn_id'',
         require (public_id (pms_message_id x)) ''message_id'']
    | MessageUpdate x \<Rightarrow> first_error
        [require (public_id (pmu_internal_turn_id x)) ''internal_turn_id'',
         require (public_id (pmu_message_id x)) ''message_id'', text_delta_error (pmu_event x)]
    | MessageEnd x \<Rightarrow> message_end_error x
    | ToolStart x \<Rightarrow> tool_start_error x
    | ToolUpdate x \<Rightarrow> tool_update_error x
    | ToolEnd x \<Rightarrow> tool_end_error x
    | TurnEnd x \<Rightarrow> turn_end_error x
    | RetryScheduled x \<Rightarrow> first_error
        [require (public_id (prt_internal_turn_id x)) ''internal_turn_id'', require (2 \<le> prt_attempt x) ''attempt'',
         require (0 \<le> prt_delay_ms x) ''delay_ms'',
         require (prt_error_class x \<in> {''provider_timeout'', ''provider_error'', ''content_filter'',
           ''assembly_error'', ''tool_failure'', ''process_restart''}) ''error_class'']
    | ModelDecision x \<Rightarrow> decision_error x
    | RunWaiting x \<Rightarrow> first_error
        [require (public_id (pwi_interaction_id x)) ''interaction_id'',
         require (list_all public_id (pwi_request_ids x) \<and> pwi_request_ids x \<noteq> []) ''request_ids'',
         require (distinct (pwi_request_ids x)) ''request_ids must be unique'']
    | RunResumed x \<Rightarrow> first_error
        [require (public_id (prs_interaction_id x)) ''interaction_id'',
         require (list_all public_id (prs_resolved_request_ids x) \<and> prs_resolved_request_ids x \<noteq> [])
           ''resolved_request_ids'',
         require (distinct (prs_resolved_request_ids x)) ''resolved_request_ids must be unique'']
    | RunSettled x \<Rightarrow> settled_error x)"

section \<open>Events\<close>

record run_event =
  rv_event_id :: string
  rv_run_id :: string
  rv_seq :: int
  rv_payload :: canonical_payload
  rv_correlation_id :: "string option"

definition nonempty :: "string option \<Rightarrow> bool" where
  "nonempty s \<longleftrightarrow> s \<noteq> None \<and> s \<noteq> Some []"

definition run_event_error :: "run_event \<Rightarrow> check" where
  "run_event_error e = first_error
     [payload_error (rv_payload e),
      require (rv_event_id e \<noteq> []) ''event_id'', require (rv_run_id e \<noteq> []) ''run_id'',
      require (0 \<le> rv_seq e) ''seq'',
      require (nonempty (rv_correlation_id e)) ''canonical run events require correlation_id'',
      (case rv_payload e of
         RunStarted x \<Rightarrow> require (pst_hybro_turn_id x = rv_run_id e) ''hybro_turn_id must equal run_id''
       | _ \<Rightarrow> None)]"

text \<open>
  The room events of human questions. The fold keeps the fields as the document has them, before the
  defaults of the class are applied: an absent \<open>question_index\<close> is \<open>None\<close>. \<open>legacy\<close> says that one of the
  fields forbidden on canonical events is present.
\<close>

record hitl_request =
  hr_run_id :: "string option"
  hr_request_id :: string
  hr_message_id :: string
  hr_source :: string
  hr_prompt :: string
  hr_prompt_type :: string
  hr_choices :: "string list option"
  hr_agent_label :: "string option"
  hr_interaction_id :: "string option"
  hr_question_count :: "int option"
  hr_question_index :: "int option"
  hr_related_user_message_id :: "string option"
  hr_client_request_id :: "string option"
  hr_legacy :: bool

definition hitl_sources :: "string list" where
  "hitl_sources = [''agent'', ''supervisor'', ''system'']"

definition hitl_prompt_types :: "string list" where
  "hitl_prompt_types = [''text'', ''textarea'', ''choice'', ''single_choice'', ''multi_choice'', ''confirmation'',
     ''approval'', ''authentication'', ''date'']"

definition hitl_request_error :: "hitl_request \<Rightarrow> check" where
  "hitl_request_error q = first_error
     [require (length (hr_prompt q) \<le> 4000) ''prompt'',
      if hr_run_id q = None then None else first_error
        [require (nonempty (hr_client_request_id q) \<and> nonempty (hr_related_user_message_id q))
           ''canonical HITL requests require exact Turn roots'',
         require (\<not> hr_legacy q) ''canonical HITL requests forbid legacy/private metadata'',
         require (optional (\<lambda>l. length l \<le> 160) (hr_agent_label q)) ''canonical HITL agent_label is too long'',
         require (optional (\<lambda>cs. length cs \<le> 20 \<and> list_all (\<lambda>c. length c \<le> 500) cs) (hr_choices q))
           ''canonical HITL choices exceed public bounds'',
         require (hr_source q \<in> set hitl_sources) ''canonical HITL source is not allowlisted'',
         require (hr_prompt_type q \<in> set hitl_prompt_types) ''canonical HITL prompt type is not allowlisted'']]"

datatype response_status = RsResponded | RsExpired | RsCanceled | RsError

record hitl_response =
  hp_run_id :: "string option"
  hp_request_id :: string
  hp_source :: string
  hp_status :: "response_status option"
  hp_interaction_id :: "string option"
  hp_answer_ref :: "string option"
  hp_answer_text :: "string option"
  hp_related_user_message_id :: "string option"
  hp_client_request_id :: "string option"
  hp_legacy :: bool

text \<open>\<open>hp_status\<close> is \<open>None\<close> for a status outside the allowed ones.\<close>

definition hitl_response_error :: "hitl_response \<Rightarrow> check" where
  "hitl_response_error q = first_error
     [require (optional (\<lambda>a. length a \<le> 1000) (hp_answer_text q)) ''answer_text'',
      if hp_run_id q = None then None else first_error
        [require (nonempty (hp_client_request_id q) \<and> nonempty (hp_related_user_message_id q))
           ''canonical HITL responses require exact Turn roots'',
         require (hp_status q \<noteq> None) ''canonical HITL response status is not allowlisted'',
         require (hp_source q \<in> set hitl_sources) ''canonical HITL response source is not allowlisted'',
         require (\<not> hp_legacy q) ''canonical HITL responses forbid legacy/private metadata'']]"

text \<open>The cards of Agent calls, submitted or updated.\<close>

record task_card =
  tk_run_id :: "string option"
  tk_opaque_public_call_id :: "string option"
  tk_message_id :: string
  tk_related_message_id :: "string option"
  tk_client_request_id :: "string option"
  tk_private :: bool

definition task_card_error :: "task_card \<Rightarrow> check" where
  "task_card_error c = (case tk_run_id c of None \<Rightarrow> None | Some run \<Rightarrow> first_error
     [require (optional (\<lambda>p. take 4 p = ''inv_'') (tk_opaque_public_call_id c) \<and> tk_opaque_public_call_id c \<noteq> None
         \<and> tk_message_id c = ''orchestrator:'' @ run @ '':'' @ the (tk_opaque_public_call_id c))
        ''canonical task card identity is invalid'',
      require (nonempty (tk_client_request_id c) \<and> nonempty (tk_related_message_id c))
        ''canonical task cards require exact Turn roots'',
      require (\<not> tk_private c) ''canonical task cards forbid private/legacy content''])"

record agent_response =
  ar_message_id :: string
  ar_content :: "string option"
  ar_client_request_id :: "string option"
  ar_related_message_id :: "string option"

text \<open>A record of the room log, by its \<open>kind\<close>; the other kinds do not reach a Turn.\<close>

datatype room_record =
    RecRunEvent run_event
  | RecAgentResponse agent_response
  | RecTaskSubmitted task_card
  | RecTaskUpdate task_card
  | RecHitlRequest hitl_request
  | RecHitlResponse hitl_response
  | RecOther

end
