(* ===== verification/Turn_Fold.thy ===== *)
theory Turn_Fold
  imports Turn_Contracts
begin

text \<open>
  \<open>RoomEventFold\<close> of \<open>delivery/snapshot.py\<close> on its \<open>turns\<close>: what a client sees of every Turn of a
  room, folded from the records of the room log. The other sections of the fold (messages, task
  cards, streaming buffers) are left out: no handler reads them to decide about a Turn, and on the
  records their event classes allow (a \<open>message_id\<close> is required there) none of their updates rejects
  one. A stored \<open>run_event\<close> of a retired kind is a \<open>RecOther\<close>. A handler answers the new turns, \<open>Rejected\<close> where the code
  returns \<open>False\<close>, or \<open>Raised\<close> with the message of the exception; the caller discards the fold in both
  cases, so a partial update is never seen. \<open>turns\<close> is a dictionary, an association list here.
\<close>

section \<open>State\<close>

record internal_turn =
  it_id :: string
  it_attempt :: int
  it_message_ids :: "string list"
  it_tool_call_ids :: "string list"
  it_status :: internal_status

record assistant =
  as_message_id :: string
  as_internal_turn_id :: string
  as_text :: string
  as_content_index :: int
  as_next_delta_index :: int
  as_end_offset :: int
  as_order :: int

datatype shown_status = ShCompleted | ShError | ShAborted

record tool_activity =
  ta_internal_turn_id :: string
  ta_tool_call_id :: string
  ta_label :: string
  ta_input :: "(string \<times> json) list"
  ta_partial_result :: string
  ta_result :: "string option"
  ta_is_error :: "bool option"
  ta_duration_ms :: "int option"
  ta_status :: tool_status
  ta_update_index :: int
  ta_execution_kind :: execution_kind
  ta_target_name :: "string option"
  ta_request_summary :: string
  ta_detail_available :: bool
  ta_error_code :: "string option"
  ta_error_message :: "string option"
  ta_order :: int

text \<open>
  The timeline of a Turn: texts shown (message, internal turn, text, status, order), Tools, decisions
  of the model (event, payload, order) and retries (event, payload, order).
\<close>

datatype activity =
    ActAssistant string string string shown_status int
  | ActTool tool_activity
  | ActDecision string model_decision int
  | ActRetry string retry_scheduled int

record final_answer =
  fa_message_id :: string
  fa_internal_turn_id :: string
  fa_text :: string
  fa_order :: int

datatype request_status = RqRequested | RqAnswered response_status

record question =
  qu_request_id :: string
  qu_message_id :: string
  qu_question_index :: "int option"
  qu_question_count :: "int option"
  qu_prompt :: string
  qu_prompt_type :: string
  qu_choices :: "string list"
  qu_source :: string
  qu_agent_label :: "string option"
  qu_status :: request_status
  qu_answer_ref :: "string option"

datatype interaction_state = IaAwaiting | IaResumed | IaError | IaCanceled | IaExpired

text \<open>The time of an interaction is the stamp of the log record until the Run says when it waits.\<close>

datatype stamp = LogStamp string | Instant datetime

record turn_interaction =
  ti_interaction_id :: string
  ti_state :: interaction_state
  ti_request_ids :: "string list"
  ti_requests :: "question list"
  ti_requested_at :: stamp
  ti_resumed_at :: "datetime option"

datatype turn_state = TurnActive | TurnAwaiting | TurnSettled settlement

record turn =
  tn_user_message_id :: string
  tn_client_request_id :: string
  tn_state :: turn_state
  tn_started_at :: datetime
  tn_settled_at :: "datetime option"
  tn_duration_ms :: "int option"
  tn_terminal_code :: "string option"
  tn_terminal_summary :: "string option"
  tn_internal_turns :: "internal_turn list"
  tn_activity :: "activity list"
  tn_current_assistant :: "assistant option"
  tn_final_answer :: "final_answer option"
  tn_final_committed :: bool
  tn_hitl_interactions :: "turn_interaction list"
  tn_active_interaction_id :: "string option"
  tn_agent_call_message_ids :: "string list"

type_synonym turns = "(string \<times> turn) list"

datatype fold_failure = Rejected | Raised string

definition accept_if :: "bool \<Rightarrow> 'a \<Rightarrow> fold_failure + 'a" where
  "accept_if b x = (if b then Inr x else Inl Rejected)"

lemma accept_if_Inr [simp]: "accept_if b x = Inr y \<longleftrightarrow> b \<and> y = x"
  by (auto simp: accept_if_def)

lemma accept_if_Inl [simp]: "accept_if b x = Inl e \<longleftrightarrow> \<not> b \<and> e = Rejected"
  by (auto simp: accept_if_def)

text \<open>\<open>str(x or "")\<close> of an optional string.\<close>

definition text_or_empty :: "string option \<Rightarrow> string" where
  "text_or_empty x = (case x of None \<Rightarrow> [] | Some s \<Rightarrow> s)"

text \<open>\<open>x or None\<close>: an empty string counts as absent.\<close>

definition either_text :: "string option \<Rightarrow> string option \<Rightarrow> string option" where
  "either_text x y = (if nonempty x then x else y)"

section \<open>Messages\<close>

definition start_turn :: "turn_start \<Rightarrow> turn \<Rightarrow> fold_failure + turn" where
  "start_turn p t = accept_if (\<not> list_ex (\<lambda>i. it_status i = ItActive) (tn_internal_turns t))
     (t\<lparr>tn_internal_turns := tn_internal_turns t @ [\<lparr>it_id = pts_internal_turn_id p, it_attempt = pts_attempt p,
        it_message_ids = [], it_tool_call_ids = [], it_status = ItActive\<rparr>]\<rparr>)"

text \<open>\<open>internal\<close>: the first internal turn with the id of the payload.\<close>

definition internal_of :: "string \<Rightarrow> turn \<Rightarrow> internal_turn option" where
  "internal_of i t = List.find (\<lambda>x. it_id x = i) (tn_internal_turns t)"

definition change_internal :: "string \<Rightarrow> (internal_turn \<Rightarrow> internal_turn) \<Rightarrow> turn \<Rightarrow> turn" where
  "change_internal i f t = t\<lparr>tn_internal_turns := update_first (\<lambda>x. it_id x = i) f (tn_internal_turns t)\<rparr>"

definition start_message :: "int \<Rightarrow> message_start \<Rightarrow> turn \<Rightarrow> fold_failure + turn" where
  "start_message seq p t = accept_if (tn_current_assistant t = None)
     ((change_internal (pms_internal_turn_id p)
         (\<lambda>i. i\<lparr>it_message_ids := it_message_ids i @ [pms_message_id p]\<rparr>) t)
       \<lparr>tn_current_assistant := Some \<lparr>as_message_id = pms_message_id p,
          as_internal_turn_id = pms_internal_turn_id p, as_text = [], as_content_index = 0,
          as_next_delta_index = 0, as_end_offset = 0, as_order = seq\<rparr>\<rparr>)"

text \<open>The delta that follows what the assistant shows: same content part, next index, contiguous offsets.\<close>

definition delta_follows :: "assistant \<Rightarrow> text_delta_event \<Rightarrow> bool" where
  "delta_follows a d \<longleftrightarrow> ptd_content_index d = as_content_index a
     \<and> ptd_delta_index d = as_next_delta_index a \<and> ptd_start_offset d = as_end_offset a
     \<and> ptd_end_offset d = as_end_offset a + int (length (ptd_delta d))"

definition append_delta :: "text_delta_event \<Rightarrow> assistant \<Rightarrow> assistant" where
  "append_delta d a = a\<lparr>as_text := as_text a @ ptd_delta d, as_end_offset := ptd_end_offset d,
     as_next_delta_index := as_next_delta_index a + 1\<rparr>"

definition update_message :: "message_update \<Rightarrow> turn \<Rightarrow> fold_failure + turn" where
  "update_message p t = (case tn_current_assistant t of None \<Rightarrow> Inl Rejected
     | Some a \<Rightarrow> accept_if (as_message_id a = pmu_message_id p \<and> delta_follows a (pmu_event p))
         (t\<lparr>tn_current_assistant := Some (append_delta (pmu_event p) a)\<rparr>))"

definition shown_of :: "message_disposition \<Rightarrow> shown_status" where
  "shown_of d = (case d of MdCommentary \<Rightarrow> ShCompleted | MdFinal \<Rightarrow> ShCompleted
     | MdError \<Rightarrow> ShError | MdAborted \<Rightarrow> ShAborted)"

text \<open>A text that is not the answer is shown in the timeline, unless it is empty.\<close>

definition show_text :: "activity \<Rightarrow> string \<Rightarrow> turn \<Rightarrow> turn" where
  "show_text act text t = (if text = [] then t else t\<lparr>tn_activity := tn_activity t @ [act]\<rparr>)"

definition end_message :: "int \<Rightarrow> message_end \<Rightarrow> turn \<Rightarrow> fold_failure + turn" where
  "end_message seq p t = (case tn_current_assistant t of None \<Rightarrow> Inl Rejected
     | Some a \<Rightarrow>
        if as_message_id a \<noteq> pme_message_id p then Inl Rejected
        else if 0 < as_next_delta_index a \<and> pme_text p \<noteq> as_text a
          then Inl (Raised ''canonical message_end contradicts assembled durable deltas'')
        else Inr ((case pme_disposition p of
            MdCommentary \<Rightarrow> show_text (ActAssistant (as_message_id a) (as_internal_turn_id a) (pme_text p)
              (shown_of MdCommentary) seq) (pme_text p) t
          | MdFinal \<Rightarrow> t\<lparr>tn_final_answer := Some \<lparr>fa_message_id = as_message_id a,
              fa_internal_turn_id = pme_internal_turn_id p, fa_text = pme_text p, fa_order = seq\<rparr>\<rparr>
          | d \<Rightarrow> show_text (ActAssistant (as_message_id a) (pme_internal_turn_id p) (pme_text p)
              (shown_of d) seq) (pme_text p) t)
          \<lparr>tn_current_assistant := None\<rparr>))"

section \<open>Tools\<close>

fun tool_of :: "activity \<Rightarrow> tool_activity option" where
  "tool_of (ActTool x) = Some x"
| "tool_of _ = None"

definition tools :: "turn \<Rightarrow> tool_activity list" where
  "tools t = List.map_filter tool_of (tn_activity t)"

definition is_call :: "string \<Rightarrow> activity \<Rightarrow> bool" where
  "is_call c act \<longleftrightarrow> (case tool_of act of None \<Rightarrow> False | Some x \<Rightarrow> ta_tool_call_id x = c)"

fun change_activity :: "(tool_activity \<Rightarrow> tool_activity) \<Rightarrow> activity \<Rightarrow> activity" where
  "change_activity f (ActTool x) = ActTool (f x)"
| "change_activity f act = act"

definition change_tool :: "string \<Rightarrow> (tool_activity \<Rightarrow> tool_activity) \<Rightarrow> turn \<Rightarrow> turn" where
  "change_tool c f t = t\<lparr>tn_activity := update_first (is_call c) (change_activity f) (tn_activity t)\<rparr>"

definition start_tool :: "int \<Rightarrow> tool_start \<Rightarrow> turn \<Rightarrow> fold_failure + turn" where
  "start_tool seq p t = accept_if (\<not> list_ex (is_call (pxs_tool_call_id p)) (tn_activity t))
     ((change_internal (pxs_internal_turn_id p)
         (\<lambda>i. i\<lparr>it_tool_call_ids := it_tool_call_ids i @ [pxs_tool_call_id p]\<rparr>) t)
       \<lparr>tn_activity := tn_activity t @ [ActTool \<lparr>ta_internal_turn_id = pxs_internal_turn_id p,
          ta_tool_call_id = pxs_tool_call_id p, ta_label = pxs_tool_name p, ta_input = pxs_input p,
          ta_partial_result = [], ta_result = None, ta_is_error = None, ta_duration_ms = None,
          ta_status = TsRunning, ta_update_index = 0, ta_execution_kind = pxs_execution_kind p,
          ta_target_name = (if pxs_execution_kind p = ExecAgent
            then case pxs_target p of None \<Rightarrow> None | Some g \<Rightarrow> either_text (Some (et_name g)) None else None),
          ta_request_summary = pxs_request_summary p, ta_detail_available = False,
          ta_error_code = None, ta_error_message = None, ta_order = seq\<rparr>]\<rparr>)"

definition find_tool :: "string \<Rightarrow> turn \<Rightarrow> tool_activity option" where
  "find_tool c t = List.find (\<lambda>x. ta_tool_call_id x = c) (tools t)"

definition update_tool :: "tool_update \<Rightarrow> turn \<Rightarrow> fold_failure + turn" where
  "update_tool p t = (case find_tool (pxu_tool_call_id p) t of None \<Rightarrow> Inl Rejected
     | Some x \<Rightarrow> accept_if (ta_update_index x < pxu_update_index p \<and> pxu_execution_kind p = ta_execution_kind x)
         (change_tool (pxu_tool_call_id p) (\<lambda>y. y\<lparr>ta_update_index := pxu_update_index p,
            ta_status := pxu_status p, ta_partial_result := pxu_partial_result p\<rparr>) t))"

definition open_tool :: "tool_activity \<Rightarrow> bool" where
  "open_tool x \<longleftrightarrow> ta_status x \<in> {TsRunning, TsSuspended}"

definition end_tool :: "tool_end \<Rightarrow> turn \<Rightarrow> fold_failure + turn" where
  "end_tool p t = (case find_tool (pxe_tool_call_id p) t of None \<Rightarrow> Inl Rejected
     | Some x \<Rightarrow> accept_if (open_tool x \<and> pxe_execution_kind p = ta_execution_kind x)
         (change_tool (pxe_tool_call_id p) (\<lambda>y. y\<lparr>ta_status := pxe_outcome p, ta_result := Some (pxe_result p),
            ta_is_error := Some (pxe_is_error p), ta_duration_ms := Some (pxe_duration_ms p),
            ta_detail_available := pxe_detail_available p,
            ta_error_code := (case pxe_error_code p of None \<Rightarrow> ta_error_code y | Some e \<Rightarrow> Some e),
            ta_error_message := (case pxe_error_message p of None \<Rightarrow> ta_error_message y | Some e \<Rightarrow> Some e)\<rparr>) t))"

section \<open>Decisions, retries and the end of an internal turn\<close>

fun is_decision :: "string \<Rightarrow> activity \<Rightarrow> bool" where
  "is_decision e (ActDecision i _ _) = (i = e)"
| "is_decision e _ = False"

fun is_retry :: "string \<Rightarrow> activity \<Rightarrow> bool" where
  "is_retry e (ActRetry i _ _) = (i = e)"
| "is_retry e _ = False"

definition decide :: "int \<Rightarrow> string \<Rightarrow> model_decision \<Rightarrow> turn \<Rightarrow> fold_failure + turn" where
  "decide seq event p t = accept_if (event \<noteq> [] \<and> \<not> list_ex (is_decision event) (tn_activity t))
     (t\<lparr>tn_activity := tn_activity t @ [ActDecision event p seq]\<rparr>)"

definition retry :: "int \<Rightarrow> string \<Rightarrow> internal_turn \<Rightarrow> retry_scheduled \<Rightarrow> turn \<Rightarrow> fold_failure + turn" where
  "retry seq event i p t = accept_if
     (it_status i \<in> {ItError, ItAborted} \<and> \<not> list_ex (is_retry event) (tn_activity t))
     (t\<lparr>tn_activity := tn_activity t @ [ActRetry event p seq]\<rparr>)"

definition tools_of :: "string \<Rightarrow> turn \<Rightarrow> tool_activity list" where
  "tools_of i t = filter (\<lambda>x. ta_internal_turn_id x = i) (tools t)"

definition last_message :: "internal_turn \<Rightarrow> string option" where
  "last_message i = (if it_message_ids i = [] then None else Some (last (it_message_ids i)))"

definition end_turn :: "internal_turn \<Rightarrow> turn_end \<Rightarrow> turn \<Rightarrow> fold_failure + turn" where
  "end_turn i p t = accept_if
     (pte_tool_call_ids p = map ta_tool_call_id (tools_of (pte_internal_turn_id p) t)
       \<and> \<not> list_ex open_tool (tools_of (pte_internal_turn_id p) t)
       \<and> pte_message_id p = last_message i)
     (change_internal (pte_internal_turn_id p) (\<lambda>i. i\<lparr>it_status := pte_status p\<rparr>) t)"

section \<open>Waiting for a human\<close>

definition interaction_of :: "string \<Rightarrow> turn \<Rightarrow> turn_interaction option" where
  "interaction_of x t = List.find (\<lambda>n. ti_interaction_id n = x) (tn_hitl_interactions t)"

definition change_interaction :: "string \<Rightarrow> (turn_interaction \<Rightarrow> turn_interaction) \<Rightarrow> turn \<Rightarrow> turn" where
  "change_interaction x f t = t\<lparr>tn_hitl_interactions :=
     update_first (\<lambda>n. ti_interaction_id n = x) f (tn_hitl_interactions t)\<rparr>"

text \<open>
  \<open>sorted(indices) == list(range(n))\<close>: sorting an absent index among others raises \<open>TypeError\<close>.
\<close>

definition indices_complete :: "question list \<Rightarrow> bool" where
  "indices_complete qs \<longleftrightarrow> list_all (\<lambda>q. qu_question_index q \<noteq> None) qs
     \<and> sort (map (the \<circ> qu_question_index) qs) = map int [0..<length qs]"

definition wait_input :: "run_waiting \<Rightarrow> turn \<Rightarrow> fold_failure + turn" where
  "wait_input p t = (case interaction_of (pwi_interaction_id p) t of None \<Rightarrow> Inl Rejected
     | Some n \<Rightarrow>
        if ti_request_ids n \<noteq> pwi_request_ids p then Inl Rejected
        else if 2 \<le> length (ti_requests n) \<and> list_ex (\<lambda>q. qu_question_index q = None) (ti_requests n)
          then Inl (Raised ''TypeError'')
        else accept_if (indices_complete (ti_requests n)
            \<and> list_all (\<lambda>q. qu_question_count q = Some (int (length (ti_requests n)))) (ti_requests n))
          ((change_interaction (pwi_interaction_id p) (\<lambda>n. n\<lparr>ti_requested_at := Instant (pwi_requested_at p)\<rparr>) t)
             \<lparr>tn_state := TurnAwaiting, tn_active_interaction_id := Some (pwi_interaction_id p)\<rparr>))"

definition resume :: "run_resumed \<Rightarrow> turn \<Rightarrow> fold_failure + turn" where
  "resume p t = (if tn_active_interaction_id t \<noteq> Some (prs_interaction_id p) then Inl Rejected
     else case interaction_of (prs_interaction_id p) t of None \<Rightarrow> Inl Rejected
     | Some n \<Rightarrow> accept_if (ti_request_ids n = prs_resolved_request_ids p
           \<and> list_all (\<lambda>q. qu_status q = RqAnswered RsResponded) (ti_requests n))
         ((change_interaction (prs_interaction_id p)
             (\<lambda>n. n\<lparr>ti_state := IaResumed, ti_resumed_at := Some (prs_resumed_at p)\<rparr>) t)
           \<lparr>tn_state := TurnActive, tn_active_interaction_id := None\<rparr>))"

section \<open>Settlement\<close>

definition open_children :: "turn \<Rightarrow> bool" where
  "open_children t \<longleftrightarrow> tn_current_assistant t \<noteq> None \<or> tn_active_interaction_id t \<noteq> None
     \<or> list_ex (\<lambda>i. it_status i = ItActive) (tn_internal_turns t) \<or> list_ex open_tool (tools t)"

fun retries :: "string \<Rightarrow> activity \<Rightarrow> bool" where
  "retries i (ActRetry _ p _) = (prt_internal_turn_id p = i)"
| "retries i _ = False"

definition earlier_closed :: "turn \<Rightarrow> internal_turn \<Rightarrow> bool" where
  "earlier_closed t i \<longleftrightarrow> it_status i = ItCompleted
     \<or> it_status i \<in> {ItError, ItAborted} \<and> list_ex (retries (it_id i)) (tn_activity t)"

text \<open>What a completed settlement needs: the committed final answer closes the last internal turn.\<close>

definition completion_ready :: "string option \<Rightarrow> turn \<Rightarrow> bool" where
  "completion_ready m t \<longleftrightarrow> tn_final_committed t \<and> tn_internal_turns t \<noteq> []
     \<and> (case tn_final_answer t of None \<Rightarrow> False
        | Some f \<Rightarrow> m = Some (fa_message_id f)
            \<and> it_status (last (tn_internal_turns t)) = ItCompleted
            \<and> fa_internal_turn_id f = it_id (last (tn_internal_turns t))
            \<and> last_message (last (tn_internal_turns t)) = Some (fa_message_id f)
            \<and> list_all (earlier_closed t) (butlast (tn_internal_turns t)))"

definition ending_ready :: "turn \<Rightarrow> bool" where
  "ending_ready t \<longleftrightarrow> tn_internal_turns t = []
     \<or> it_status (last (tn_internal_turns t)) \<in> {ItError, ItAborted}"

definition settle_turn :: "run_settled \<Rightarrow> turn \<Rightarrow> fold_failure + turn" where
  "settle_turn p t = accept_if
     (\<not> open_children t \<and> (if psl_status p = StCompleted
        then completion_ready (psl_final_message_id p) t else ending_ready t))
     (t\<lparr>tn_state := TurnSettled (psl_status p), tn_settled_at := Some (psl_settled_at p),
        tn_duration_ms := Some (psl_duration_ms p),
        tn_terminal_code := either_text (psl_failure_code p) (psl_cancellation_code p),
        tn_terminal_summary := psl_error_summary p\<rparr>)"

section \<open>One canonical event\<close>

fun payload_internal :: "canonical_payload \<Rightarrow> string option" where
  "payload_internal (TurnStart p) = Some (pts_internal_turn_id p)"
| "payload_internal (MessageStart p) = Some (pms_internal_turn_id p)"
| "payload_internal (MessageUpdate p) = Some (pmu_internal_turn_id p)"
| "payload_internal (MessageEnd p) = Some (pme_internal_turn_id p)"
| "payload_internal (ToolStart p) = Some (pxs_internal_turn_id p)"
| "payload_internal (ToolUpdate p) = Some (pxu_internal_turn_id p)"
| "payload_internal (ToolEnd p) = Some (pxe_internal_turn_id p)"
| "payload_internal (TurnEnd p) = Some (pte_internal_turn_id p)"
| "payload_internal (RetryScheduled p) = Some (prt_internal_turn_id p)"
| "payload_internal (ModelDecision p) = Some (pmd_internal_turn_id p)"
| "payload_internal _ = None"

text \<open>After the final message only the end of its internal turn and the settlement are accepted.\<close>

fun admits :: "final_answer \<Rightarrow> canonical_payload \<Rightarrow> bool" where
  "admits f (TurnEnd p) = (pte_internal_turn_id p = fa_internal_turn_id f)"
| "admits f (RunSettled _) = True"
| "admits f _ = False"

definition settled :: "turn \<Rightarrow> bool" where
  "settled t \<longleftrightarrow> (case tn_state t of TurnSettled _ \<Rightarrow> True | _ \<Rightarrow> False)"

definition child_event ::
    "int \<Rightarrow> string \<Rightarrow> internal_turn \<Rightarrow> canonical_payload \<Rightarrow> turn \<Rightarrow> fold_failure + turn" where
  "child_event seq event i payload t = (case payload of
      MessageStart p \<Rightarrow> start_message seq p t
    | MessageUpdate p \<Rightarrow> update_message p t
    | MessageEnd p \<Rightarrow> end_message seq p t
    | ToolStart p \<Rightarrow> start_tool seq p t
    | ToolUpdate p \<Rightarrow> update_tool p t
    | ToolEnd p \<Rightarrow> end_tool p t
    | ModelDecision p \<Rightarrow> decide seq event p t
    | TurnEnd p \<Rightarrow> end_turn i p t
    | RetryScheduled p \<Rightarrow> retry seq event i p t
    | _ \<Rightarrow> Inr t)"

definition fold_event :: "int \<Rightarrow> string \<Rightarrow> canonical_payload \<Rightarrow> turn \<Rightarrow> fold_failure + turn" where
  "fold_event seq event payload t =
    (if settled t then Inl Rejected
     else if (case tn_final_answer t of None \<Rightarrow> False | Some f \<Rightarrow> \<not> admits f payload) then Inl Rejected
     else case payload of
        TurnStart p \<Rightarrow> start_turn p t
      | RunWaiting p \<Rightarrow> wait_input p t
      | RunResumed p \<Rightarrow> resume p t
      | RunSettled p \<Rightarrow> settle_turn p t
      | RunStarted _ \<Rightarrow> Inr t
      | _ \<Rightarrow> (case payload_internal payload of None \<Rightarrow> Inl Rejected
          | Some x \<Rightarrow> (case internal_of x t of None \<Rightarrow> Inl Rejected
              | Some i \<Rightarrow> child_event seq event i payload t)))"

definition new_turn :: "run_started \<Rightarrow> string \<Rightarrow> turn" where
  "new_turn p request = \<lparr>tn_user_message_id = pst_user_message_id p, tn_client_request_id = request,
     tn_state = TurnActive, tn_started_at = pst_started_at p, tn_settled_at = None, tn_duration_ms = None,
     tn_terminal_code = None, tn_terminal_summary = None, tn_internal_turns = [], tn_activity = [],
     tn_current_assistant = None, tn_final_answer = None, tn_final_committed = False,
     tn_hitl_interactions = [], tn_active_interaction_id = None, tn_agent_call_message_ids = []\<rparr>"

definition put_turn :: "string \<Rightarrow> turns \<Rightarrow> fold_failure + turn \<Rightarrow> fold_failure + turns" where
  "put_turn run ts x = (case x of Inl e \<Rightarrow> Inl e | Inr t \<Rightarrow> Inr (AList.update run t ts))"

text \<open>\<open>_fold_canonical_turn\<close>\<close>

definition fold_canonical_turn :: "int \<Rightarrow> run_event \<Rightarrow> turns \<Rightarrow> fold_failure + turns" where
  "fold_canonical_turn seq e ts = (case rv_payload e of
      RunStarted p \<Rightarrow>
        if map_of ts (rv_run_id e) \<noteq> None then Inl Rejected
        else if \<not> nonempty (rv_correlation_id e) \<or> pst_hybro_turn_id p \<noteq> rv_run_id e then Inl Rejected
        else Inr (AList.update (rv_run_id e) (new_turn p (the (rv_correlation_id e))) ts)
    | payload \<Rightarrow> (case map_of ts (rv_run_id e) of None \<Rightarrow> Inl Rejected
        | Some t \<Rightarrow> if rv_correlation_id e \<noteq> Some (tn_client_request_id t) then Inl Rejected
            else put_turn (rv_run_id e) ts (fold_event seq (rv_event_id e) payload t)))"

definition fold_run_event :: "int \<Rightarrow> run_event \<Rightarrow> turns \<Rightarrow> fold_failure + turns" where
  "fold_run_event seq e ts = (if run_event_error e \<noteq> None
     then Inl (Raised ''invalid canonical run event payload'') else fold_canonical_turn seq e ts)"

section \<open>The other records that touch a Turn\<close>

text \<open>\<open>_agent_response\<close>: the durable answer commits the final message of its Turn, once.\<close>

definition commit_final :: "agent_response \<Rightarrow> turn \<Rightarrow> turn" where
  "commit_final a t = (case tn_final_answer t of None \<Rightarrow> t
     | Some f \<Rightarrow>
        if fa_message_id f = ar_message_id a \<and> ar_client_request_id a = Some (tn_client_request_id t)
          \<and> ar_related_message_id a = Some (tn_user_message_id t) \<and> \<not> tn_final_committed t
        then t\<lparr>tn_final_answer := Some (f\<lparr>fa_text := text_or_empty (ar_content a)\<rparr>), tn_final_committed := True\<rparr>
        else t)"

definition fold_agent_response :: "agent_response \<Rightarrow> turns \<Rightarrow> turns" where
  "fold_agent_response a ts = (if ar_message_id a = [] then ts
     else map (\<lambda>(run, t). (run, commit_final a t)) ts)"

text \<open>The roots by which a card or a question names its Turn.\<close>

definition same_roots :: "string option \<Rightarrow> string option \<Rightarrow> turn \<Rightarrow> bool" where
  "same_roots request user t \<longleftrightarrow> request = Some (tn_client_request_id t) \<and> user = Some (tn_user_message_id t)"

definition card_turn :: "task_card \<Rightarrow> turns \<Rightarrow> fold_failure + turn option" where
  "card_turn c ts = (if tk_run_id c \<noteq> None \<and> task_card_error c \<noteq> None then Inl Rejected
     else if text_or_empty (tk_run_id c) = [] then Inr None
     else case map_of ts (text_or_empty (tk_run_id c)) of None \<Rightarrow> Inl Rejected
       | Some t \<Rightarrow> accept_if (same_roots (tk_client_request_id c) (tk_related_message_id c) t) (Some t))"

definition add_agent_call :: "string \<Rightarrow> turn \<Rightarrow> turn" where
  "add_agent_call m t = (if m \<in> set (tn_agent_call_message_ids t) then t
     else t\<lparr>tn_agent_call_message_ids := tn_agent_call_message_ids t @ [m]\<rparr>)"

definition fold_task_submitted :: "task_card \<Rightarrow> turns \<Rightarrow> fold_failure + turns" where
  "fold_task_submitted c ts = (case card_turn c ts of Inl e \<Rightarrow> Inl e | Inr None \<Rightarrow> Inr ts
     | Inr (Some t) \<Rightarrow> Inr (AList.update (text_or_empty (tk_run_id c)) (add_agent_call (tk_message_id c) t) ts))"

definition fold_task_update :: "task_card \<Rightarrow> turns \<Rightarrow> fold_failure + turns" where
  "fold_task_update c ts = (case card_turn c ts of Inl e \<Rightarrow> Inl e | Inr _ \<Rightarrow> Inr ts)"

definition question_of :: "hitl_request \<Rightarrow> question" where
  "question_of q = \<lparr>qu_request_id = hr_request_id q, qu_message_id = hr_message_id q,
     qu_question_index = hr_question_index q, qu_question_count = hr_question_count q,
     qu_prompt = hr_prompt q, qu_prompt_type = hr_prompt_type q,
     qu_choices = (case hr_choices q of None \<Rightarrow> [] | Some cs \<Rightarrow> cs), qu_source = hr_source q,
     qu_agent_label = hr_agent_label q, qu_status = RqRequested, qu_answer_ref = None\<rparr>"

definition ask :: "string \<Rightarrow> hitl_request \<Rightarrow> turn \<Rightarrow> fold_failure + turn" where
  "ask ts q t = (let x = text_or_empty (hr_interaction_id q);
       add = (\<lambda>n. n\<lparr>ti_request_ids := ti_request_ids n @ [hr_request_id q],
                    ti_requests := ti_requests n @ [question_of q]\<rparr>)
     in if x = [] then Inl Rejected
        else case interaction_of x t of
          None \<Rightarrow> Inr (t\<lparr>tn_hitl_interactions := tn_hitl_interactions t
            @ [add \<lparr>ti_interaction_id = x, ti_state = IaAwaiting, ti_request_ids = [], ti_requests = [],
                 ti_requested_at = LogStamp ts, ti_resumed_at = None\<rparr>]\<rparr>)
        | Some n \<Rightarrow> if ti_state n \<noteq> IaAwaiting then Inr t
            else accept_if (hr_request_id q \<notin> set (ti_request_ids n)) (change_interaction x add t))"

definition fold_hitl_request :: "string \<Rightarrow> hitl_request \<Rightarrow> turns \<Rightarrow> fold_failure + turns" where
  "fold_hitl_request stamp q ts =
    (if hr_run_id q \<noteq> None \<and> hitl_request_error q \<noteq> None then Inl Rejected
     else if hr_request_id q = [] then accept_if (hr_run_id q = None) ts
     else case map_of ts (text_or_empty (hr_run_id q)) of
        None \<Rightarrow> accept_if (text_or_empty (hr_run_id q) = []) ts
      | Some t \<Rightarrow>
          if \<not> same_roots (hr_client_request_id q) (hr_related_user_message_id q) t
          then accept_if (text_or_empty (hr_run_id q) = []) ts
          else put_turn (text_or_empty (hr_run_id q)) ts (ask stamp q t))"

text \<open>The statuses that end an interaction without resuming it, in the order they are looked for.\<close>

definition ended_as :: "request_status list \<Rightarrow> interaction_state option" where
  "ended_as ss = (if RqAnswered RsError \<in> set ss then Some IaError
     else if RqAnswered RsCanceled \<in> set ss then Some IaCanceled
     else if RqAnswered RsExpired \<in> set ss then Some IaExpired else None)"

definition ended_interaction :: "turn_interaction \<Rightarrow> interaction_state option" where
  "ended_interaction n = (if length (ti_requests n) = length (ti_request_ids n)
       \<and> list_all (\<lambda>q. qu_status q \<noteq> RqRequested) (ti_requests n)
     then ended_as (map qu_status (ti_requests n)) else None)"

definition answer :: "hitl_response \<Rightarrow> turn \<Rightarrow> fold_failure + turn" where
  "answer q t = (case hp_interaction_id q of None \<Rightarrow> Inl Rejected
     | Some x \<Rightarrow> (case interaction_of x t of None \<Rightarrow> Inl Rejected
        | Some n \<Rightarrow>
          if \<not> list_ex (\<lambda>u. qu_request_id u = hp_request_id q) (ti_requests n) then Inl Rejected
          else case hp_status q of None \<Rightarrow> Inl Rejected
          | Some s \<Rightarrow> (let n' = n\<lparr>ti_requests := update_first (\<lambda>u. qu_request_id u = hp_request_id q)
                (\<lambda>u. u\<lparr>qu_status := RqAnswered s, qu_answer_ref := hp_answer_ref q\<rparr>) (ti_requests n)\<rparr>
              in Inr (case ended_interaction n' of
                  None \<Rightarrow> change_interaction x (\<lambda>_. n') t
                | Some st \<Rightarrow> (change_interaction x (\<lambda>_. n'\<lparr>ti_state := st\<rparr>) t)
                    \<lparr>tn_active_interaction_id := (if tn_active_interaction_id t = Some x then None
                       else tn_active_interaction_id t)\<rparr>))))"

definition fold_hitl_response :: "hitl_response \<Rightarrow> turns \<Rightarrow> fold_failure + turns" where
  "fold_hitl_response q ts =
    (if hp_run_id q \<noteq> None \<and> hitl_response_error q \<noteq> None then Inl Rejected
     else case map_of ts (text_or_empty (hp_run_id q)) of
        None \<Rightarrow> accept_if (text_or_empty (hp_run_id q) = []) ts
      | Some t \<Rightarrow>
          if \<not> same_roots (hp_client_request_id q) (hp_related_user_message_id q) t
          then accept_if (text_or_empty (hp_run_id q) = []) ts
          else put_turn (text_or_empty (hp_run_id q)) ts (answer q t))"

text \<open>\<open>apply\<close> of one record of the log: its sequence number, its time stamp and its content.\<close>

record logged =
  lg_room_seq :: int
  lg_stamp :: string
  lg_record :: room_record

definition apply_record :: "logged \<Rightarrow> turns \<Rightarrow> fold_failure + turns" where
  "apply_record l ts = (case lg_record l of
      RecRunEvent e \<Rightarrow> fold_run_event (lg_room_seq l) e ts
    | RecAgentResponse a \<Rightarrow> Inr (fold_agent_response a ts)
    | RecTaskSubmitted c \<Rightarrow> fold_task_submitted c ts
    | RecTaskUpdate c \<Rightarrow> fold_task_update c ts
    | RecHitlRequest q \<Rightarrow> fold_hitl_request (lg_stamp l) q ts
    | RecHitlResponse q \<Rightarrow> fold_hitl_response q ts
    | RecOther \<Rightarrow> Inr ts)"

end
