(* ===== verification/Room_Log.thy ===== *)
theory Room_Log
  imports Turn_Fold
begin

text \<open>
  \<open>MongoRoomEventStore\<close> of \<open>delivery/room_events.py\<close>: the append-only log of the public events of a
  room. An append is one transaction where the deployment has them; otherwise it allocates a number,
  inserts, and repairs the holes that lost races leave with skipped tombstones. Every await of the
  fallback is a phase of a writer here, so that any number of writers interleave.
\<close>

section \<open>Documents\<close>

text \<open>The entry of a document: its time stamp and record, or \<open>None\<close> for the kind \<open>skipped\<close>.\<close>

record doc =
  dc_id :: string
  dc_room :: string
  dc_room_seq :: int
  dc_entry :: "(string \<times> room_record) option"

text \<open>The counter document of a room; an absent field or document counts as zero.\<close>

record room_counter =
  ct_seq :: int
  ct_healed_through :: int

record room_db =
  rd_events :: "doc list"
  rd_counters :: "(string \<times> room_counter) list"

definition counter :: "string \<Rightarrow> room_db \<Rightarrow> room_counter" where
  "counter room db = (case map_of (rd_counters db) room of
     None \<Rightarrow> \<lparr>ct_seq = 0, ct_healed_through = 0\<rparr> | Some c \<Rightarrow> c)"

definition put_counter :: "string \<Rightarrow> room_counter \<Rightarrow> room_db \<Rightarrow> room_db" where
  "put_counter room c db = db\<lparr>rd_counters := AList.update room c (rd_counters db)\<rparr>"

text \<open>\<open>$inc\<close> of the sequence with \<open>upsert\<close>: the allocated number and the database.\<close>

definition allocate :: "string \<Rightarrow> room_db \<Rightarrow> int \<times> room_db" where
  "allocate room db = (let n = ct_seq (counter room db) + 1
     in (n, put_counter room ((counter room db)\<lparr>ct_seq := n\<rparr>) db))"

text \<open>The unique indexes: the id of a document, and the number in its room. \<open>None\<close> is \<open>DuplicateKeyError\<close>.\<close>

definition collides :: "doc \<Rightarrow> doc \<Rightarrow> bool" where
  "collides d e \<longleftrightarrow> dc_id d = dc_id e \<or> dc_room d = dc_room e \<and> dc_room_seq d = dc_room_seq e"

definition insert_doc :: "doc \<Rightarrow> room_db \<Rightarrow> room_db option" where
  "insert_doc d db = (if list_ex (collides d) (rd_events db) then None
     else Some (db\<lparr>rd_events := rd_events db @ [d]\<rparr>))"

definition find_doc :: "string \<Rightarrow> string \<Rightarrow> room_db \<Rightarrow> doc option" where
  "find_doc i room db = List.find (\<lambda>d. dc_id d = i \<and> dc_room d = room) (rd_events db)"

definition tombstone :: "string \<Rightarrow> int \<Rightarrow> doc" where
  "tombstone room n = \<lparr>dc_id = ''skip:'' @ room @ '':'' @ show_int n, dc_room = room, dc_room_seq = n,
     dc_entry = None\<rparr>"

text \<open>A tombstone whose insertion collides is not needed.\<close>

definition fill_skipped :: "string \<Rightarrow> int \<Rightarrow> room_db \<Rightarrow> room_db" where
  "fill_skipped room n db = (case insert_doc (tombstone room n) db of None \<Rightarrow> db | Some db' \<Rightarrow> db')"

section \<open>Writers\<close>

text \<open>
  Where an append stands. \<open>Allocate\<close> and its successors carry the attempts left after this one; an
  allocated number stays with the writer until its document or a tombstone takes it.
\<close>

datatype phase =
    Start
  | ReadBack
  | Probe
  | Allocate nat
  | Insert nat int
  | Recheck nat int
  | Fill int int
  | HealCounter int
  | HealScan int int int
  | HealInsert int "int list" int
  | HealMax int int
  | Appended int bool
  | Failed

record writer =
  wr_id :: string
  wr_room :: string
  wr_entry :: "string \<times> room_record"
  wr_phase :: phase

definition new_doc :: "writer \<Rightarrow> int \<Rightarrow> doc" where
  "new_doc w n = \<lparr>dc_id = wr_id w, dc_room = wr_room w, dc_room_seq = n, dc_entry = Some (wr_entry w)\<rparr>"

definition retries_left :: nat where
  "retries_left = 2"

definition next_attempt :: "nat \<Rightarrow> phase" where
  "next_attempt k = (if k = 0 then Failed else Allocate (k - 1))"

text \<open>\<open>_append_transactional\<close>: number and document together, or neither.\<close>

definition append_transactional :: "writer \<Rightarrow> room_db \<Rightarrow> phase \<times> room_db" where
  "append_transactional w db = (case allocate (wr_room w) db of (n, db') \<Rightarrow>
     (case insert_doc (new_doc w n) db' of None \<Rightarrow> (ReadBack, db) | Some db'' \<Rightarrow> (Appended n True, db'')))"

text \<open>\<open>_read_back\<close>\<close>

definition read_back :: "writer \<Rightarrow> room_db \<Rightarrow> phase" where
  "read_back w db = (case find_doc (wr_id w) (wr_room w) db of
     None \<Rightarrow> Appended 0 False | Some d \<Rightarrow> Appended (dc_room_seq d) True)"

definition heal_missing :: "string \<Rightarrow> int \<Rightarrow> int \<Rightarrow> int \<Rightarrow> room_db \<Rightarrow> int list" where
  "heal_missing room healed through n db =
    (let seen = map dc_room_seq (take (nat (through - healed)) (filter (\<lambda>d. dc_room d = room
           \<and> healed + 1 \<le> dc_room_seq d \<and> dc_room_seq d \<le> through) (rd_events db)))
     in filter (\<lambda>m. m \<notin> set seen) [healed + 1 .. through])"

text \<open>
  One phase of \<open>append\<close>. \<open>ok\<close> is the answer of the environment: whether the deployment has transactions
  (at the start), whether the scan of the healer succeeds (there).
\<close>

definition advance :: "int \<Rightarrow> bool \<Rightarrow> writer \<Rightarrow> room_db \<Rightarrow> phase \<times> room_db" where
  "advance grace ok w db = (let room = wr_room w in case wr_phase w of
      Start \<Rightarrow> if ok then append_transactional w db else (Probe, db)
    | ReadBack \<Rightarrow> (read_back w db, db)
    | Probe \<Rightarrow> (case find_doc (wr_id w) room db of
          None \<Rightarrow> (Allocate retries_left, db) | Some d \<Rightarrow> (Appended (dc_room_seq d) True, db))
    | Allocate k \<Rightarrow> (case allocate room db of (n, db') \<Rightarrow> (Insert k n, db'))
    | Insert k n \<Rightarrow> (case insert_doc (new_doc w n) db of None \<Rightarrow> (Recheck k n, db)
          | Some db' \<Rightarrow> (HealCounter n, db'))
    | Recheck k n \<Rightarrow> (case find_doc (wr_id w) room db of None \<Rightarrow> (next_attempt k, db)
          | Some d \<Rightarrow> (Fill n (dc_room_seq d), db))
    | Fill n m \<Rightarrow> (Appended m True, fill_skipped room n db)
    | HealCounter n \<Rightarrow> if grace \<le> 0 \<or> n - grace \<le> 0 then (Appended n True, db)
        else let healed = ct_healed_through (counter room db)
          in if n - grace \<le> healed then (Appended n True, db) else (HealScan n healed (n - grace), db)
    | HealScan n healed through \<Rightarrow>
        (if ok then HealInsert n (heal_missing room healed through n db) through else Appended n True, db)
    | HealInsert n [] through \<Rightarrow> (HealMax n through, db)
    | HealInsert n (m # ms) through \<Rightarrow> (HealInsert n ms through, fill_skipped room m db)
    | HealMax n through \<Rightarrow> (Appended n True, put_counter room
        ((counter room db)\<lparr>ct_healed_through := max (ct_healed_through (counter room db)) through\<rparr>) db)
    | Appended n p \<Rightarrow> (Appended n p, db)
    | Failed \<Rightarrow> (Failed, db))"

section \<open>Reading\<close>

text \<open>\<open>read_range\<close>: the documents of a room after a number, in order, at most \<open>limit\<close> of them.\<close>

definition read_range :: "string \<Rightarrow> bool \<Rightarrow> room_db \<Rightarrow> int \<Rightarrow> nat \<Rightarrow> doc list" where
  "read_range room skipped db after limit = take limit (sort_key dc_room_seq
     (filter (\<lambda>d. dc_room d = room \<and> after < dc_room_seq d \<and> (skipped \<or> dc_entry d \<noteq> None)) (rd_events db)))"

definition latest_seq :: "string \<Rightarrow> room_db \<Rightarrow> int" where
  "latest_seq room db = ct_seq (counter room db)"

section \<open>Any number of writers\<close>

text \<open>
  \<open>home\<close> is the room an idempotency key belongs to; the keys of producers name their room or a document of
  it, and none looks like a tombstone. A writer may stop for ever at any phase (\<open>crashes\<close>).
\<close>

record log_system =
  ls_db :: room_db
  ls_writers :: "writer list"

inductive log_step :: "int \<Rightarrow> (string \<Rightarrow> string) \<Rightarrow> bool \<Rightarrow> log_system \<Rightarrow> log_system \<Rightarrow> bool"
  for grace home crashes where
  log_arrive: "wr_phase w = Start \<Longrightarrow> home (wr_id w) = wr_room w \<Longrightarrow> take 5 (wr_id w) \<noteq> ''skip:''
    \<Longrightarrow> log_step grace home crashes s (s\<lparr>ls_writers := ls_writers s @ [w]\<rparr>)"
| log_advance: "i < length (ls_writers s) \<Longrightarrow> advance grace ok (ls_writers s ! i) (ls_db s) = (p, db)
    \<Longrightarrow> log_step grace home crashes s
      (s\<lparr>ls_db := db, ls_writers := (ls_writers s)[i := (ls_writers s ! i)\<lparr>wr_phase := p\<rparr>]\<rparr>)"
| log_crash: "crashes \<Longrightarrow> i < length (ls_writers s) \<Longrightarrow> log_step grace home crashes s
      (s\<lparr>ls_writers := take i (ls_writers s) @ drop (Suc i) (ls_writers s)\<rparr>)"

inductive log_reachable :: "int \<Rightarrow> (string \<Rightarrow> string) \<Rightarrow> bool \<Rightarrow> log_system \<Rightarrow> bool"
  for grace home crashes where
  log_empty: "log_reachable grace home crashes \<lparr>ls_db = \<lparr>rd_events = [], rd_counters = []\<rparr>, ls_writers = []\<rparr>"
| log_next: "log_reachable grace home crashes s \<Longrightarrow> log_step grace home crashes s s'
    \<Longrightarrow> log_reachable grace home crashes s'"

end
