(* ===== verification/Room_Log_Properties.thy ===== *)
theory Room_Log_Properties
  imports Room_Log
begin

text \<open>
  The room log under any interleaving of writers: a number has at most one document, documents never
  change, an append answers the number of its own document, and the holes that lost allocations leave
  are filled, by the writer itself or by the healer.
\<close>

section \<open>Tombstones\<close>

lemma digits_no_colon: "CHR '':'' \<notin> set (nat_digits n)"
proof (induction n rule: nat_digits.induct)
  case (1 n)
  have "digit_char (n mod 10) \<noteq> CHR '':''"
  proof
    assume "digit_char (n mod 10) = CHR '':''"
    then have "of_char (digit_char (n mod 10)) = (58 :: nat)" by simp
    moreover have "n mod 10 < 10" by simp
    ultimately show False by (simp add: digit_char_def)
  qed
  with 1 show ?case by (cases "n < 10") (auto simp: nat_digits.simps [of n])
qed

lemma int_no_colon: "CHR '':'' \<notin> set (show_int n)"
  by (simp add: show_int_def digits_no_colon)

lemma last_separator:
  assumes "xs @ c # ys = us @ c # vs" and "c \<notin> set ys" and "c \<notin> set vs"
  shows "xs = us \<and> ys = vs"
proof -
  from assms(1) have "rev ys @ c # rev xs = rev vs @ c # rev us"
    by (metis rev.simps(2) rev_append append.assoc append_Cons append_Nil)
  then have "takeWhile (\<lambda>x. x \<noteq> c) (rev ys @ c # rev xs) = takeWhile (\<lambda>x. x \<noteq> c) (rev vs @ c # rev us)"
    by simp
  moreover from assms(2,3) have "\<forall>x \<in> set ys. x \<noteq> c" "\<forall>x \<in> set vs. x \<noteq> c" by auto
  ultimately have "rev ys = rev vs" by (simp add: takeWhile_append)
  with assms(1) show ?thesis by simp
qed

lemma tombstone_inj: "dc_id (tombstone room n) = dc_id (tombstone room' m) \<Longrightarrow> room = room' \<and> n = m"
  using last_separator [of room "CHR '':''" "show_int n" room' "show_int m"] int_no_colon
  by (auto simp: tombstone_def show_int_inj)

section \<open>The invariant of the database\<close>

definition present :: "room_db \<Rightarrow> string \<Rightarrow> int \<Rightarrow> bool" where
  "present db room n \<longleftrightarrow> (\<exists>d \<in> set (rd_events db). dc_room d = room \<and> dc_room_seq d = n)"

definition origin_ok :: "(string \<Rightarrow> string) \<Rightarrow> doc \<Rightarrow> bool" where
  "origin_ok home d \<longleftrightarrow> (case dc_entry d of None \<Rightarrow> d = tombstone (dc_room d) (dc_room_seq d)
     | Some x \<Rightarrow> home (dc_id d) = dc_room d \<and> take 5 (dc_id d) \<noteq> ''skip:'')"

definition db_ok :: "(string \<Rightarrow> string) \<Rightarrow> room_db \<Rightarrow> bool" where
  "db_ok home db \<longleftrightarrow> sorted_wrt (\<lambda>d e. \<not> collides d e) (rd_events db)
     \<and> (\<forall>d \<in> set (rd_events db). origin_ok home d \<and> 1 \<le> dc_room_seq d
          \<and> dc_room_seq d \<le> ct_seq (counter (dc_room d) db))
     \<and> (\<forall>room. 0 \<le> ct_seq (counter room db) \<and> 0 \<le> ct_healed_through (counter room db)
          \<and> (\<forall>n. 1 \<le> n \<and> n \<le> ct_healed_through (counter room db) \<longrightarrow> present db room n))"

text \<open>The log only grows.\<close>

definition db_le :: "room_db \<Rightarrow> room_db \<Rightarrow> bool" where
  "db_le db db' \<longleftrightarrow> (\<exists>xs. rd_events db' = rd_events db @ xs)
     \<and> (\<forall>room. ct_seq (counter room db) \<le> ct_seq (counter room db')
          \<and> ct_healed_through (counter room db) \<le> ct_healed_through (counter room db'))"

lemma db_le_refl [simp]: "db_le db db"
  by (simp add: db_le_def)

lemma db_le_trans: "db_le a b \<Longrightarrow> db_le b c \<Longrightarrow> db_le a c"
  by (auto simp: db_le_def intro: order_trans)

lemma db_le_events: "db_le db db' \<Longrightarrow> d \<in> set (rd_events db) \<Longrightarrow> d \<in> set (rd_events db')"
  by (auto simp: db_le_def)

lemma db_le_present: "db_le db db' \<Longrightarrow> present db room n \<Longrightarrow> present db' room n"
  by (auto simp: db_le_def present_def)

lemma db_le_seq: "db_le db db' \<Longrightarrow> ct_seq (counter room db) \<le> ct_seq (counter room db')"
  by (auto simp: db_le_def)

lemma counter_put [simp]:
  "counter room (put_counter room' c db) = (if room = room' then c else counter room db)"
  "rd_events (put_counter room' c db) = rd_events db"
  by (simp_all add: counter_def put_counter_def)

lemma present_put [simp]: "present (put_counter room' c db) room n = present db room n"
  by (simp add: present_def)

lemma allocate_ok:
  assumes "db_ok home db" and "allocate room db = (n, db')"
  shows "db_ok home db' \<and> db_le db db' \<and> n = ct_seq (counter room db) + 1 \<and> n = ct_seq (counter room db')
    \<and> 1 \<le> n \<and> rd_events db' = rd_events db \<and> (\<forall>r. r \<noteq> room \<longrightarrow> counter r db' = counter r db)"
  using assms by (auto simp: allocate_def Let_def db_ok_def db_le_def split: if_splits) force+

lemma healed_ok:
  assumes "db_ok home db" and "\<forall>m. 1 \<le> m \<and> m \<le> through \<longrightarrow> present db room m"
  shows "db_ok home (put_counter room
      ((counter room db)\<lparr>ct_healed_through := max (ct_healed_through (counter room db)) through\<rparr>) db)"
    and "db_le db (put_counter room
      ((counter room db)\<lparr>ct_healed_through := max (ct_healed_through (counter room db)) through\<rparr>) db)"
proof -
  let ?c = "(counter room db)\<lparr>ct_healed_through := max (ct_healed_through (counter room db)) through\<rparr>"
  have "present db r n" if "1 \<le> n" "n \<le> ct_healed_through (counter r (put_counter room ?c db))" for r n
    using that assms by (cases "r = room") (auto simp: db_ok_def max_def split: if_splits)
  moreover from assms(1) have "0 \<le> ct_healed_through (counter room db)" by (simp add: db_ok_def)
  ultimately show "db_ok home (put_counter room ?c db)" using assms(1) by (auto simp: db_ok_def le_max_iff_disj)
  show "db_le db (put_counter room ?c db)" by (auto simp: db_le_def)
qed

lemma counter_events [simp]: "counter room (db\<lparr>rd_events := es\<rparr>) = counter room db"
  by (simp add: counter_def)

lemma insert_doc_ok:
  assumes "db_ok home db" and "insert_doc d db = Some db'" and "origin_ok home d"
    and "1 \<le> dc_room_seq d" and "dc_room_seq d \<le> ct_seq (counter (dc_room d) db)"
  shows "db_ok home db' \<and> db_le db db' \<and> rd_events db' = rd_events db @ [d]
    \<and> (\<forall>room. counter room db' = counter room db)"
proof -
  from assms(2) have e: "db' = db\<lparr>rd_events := rd_events db @ [d]\<rparr>" "\<forall>e \<in> set (rd_events db). \<not> collides d e"
    by (auto simp: insert_doc_def list_ex_iff split: if_splits)
  with assms show ?thesis
    by (auto simp: db_ok_def db_le_def sorted_wrt_append collides_def present_def)
qed

lemma insert_doc_None: "insert_doc d db = None \<longleftrightarrow> (\<exists>e \<in> set (rd_events db). collides d e)"
  by (auto simp: insert_doc_def list_ex_iff)

lemma tombstone_origin: "origin_ok home (tombstone room n)"
  by (simp add: origin_ok_def tombstone_def)

lemma skipped_id:
  assumes "origin_ok home e" and "dc_entry e = None"
  shows "take 5 (dc_id e) = ''skip:''"
proof -
  from assms have "dc_id e = dc_id (tombstone (dc_room e) (dc_room_seq e))" by (simp add: origin_ok_def)
  then show ?thesis by (simp add: tombstone_def)
qed

text \<open>A number whose tombstone collides is taken already.\<close>

lemma tombstone_collides:
  assumes "db_ok home db" and "e \<in> set (rd_events db)" and "collides (tombstone room n) e"
  shows "present db room n"
proof (cases "dc_room e = room \<and> dc_room_seq e = n")
  case True
  with assms(2) show ?thesis by (auto simp: present_def)
next
  case False
  with assms(3) have i: "dc_id e = dc_id (tombstone room n)" by (auto simp: collides_def tombstone_def)
  then have "take 5 (dc_id e) = ''skip:''" by (simp add: tombstone_def)
  moreover from assms(1,2) have "origin_ok home e" by (simp add: db_ok_def)
  ultimately have "e = tombstone (dc_room e) (dc_room_seq e)"
    by (auto simp: origin_ok_def split: option.splits)
  with i tombstone_inj [of "dc_room e" "dc_room_seq e" room n] have "dc_room e = room \<and> dc_room_seq e = n" by metis
  with False show ?thesis by simp
qed

lemma fill_ok:
  assumes "db_ok home db" and "1 \<le> n" and "n \<le> ct_seq (counter room db)"
  shows "db_ok home (fill_skipped room n db) \<and> db_le db (fill_skipped room n db)
    \<and> present (fill_skipped room n db) room n \<and> (\<forall>r. counter r (fill_skipped room n db) = counter r db)"
proof (cases "insert_doc (tombstone room n) db")
  case None
  then have "present db room n" using tombstone_collides [OF assms(1)] by (auto simp: insert_doc_None)
  with None assms show ?thesis by (simp add: fill_skipped_def)
next
  case (Some db')
  from insert_doc_ok [OF assms(1) Some tombstone_origin] assms(2,3)
  have "db_ok home db'" "db_le db db'" "rd_events db' = rd_events db @ [tombstone room n]"
    "\<forall>r. counter r db' = counter r db" by (simp_all add: tombstone_def)
  with Some show ?thesis by (auto simp: fill_skipped_def present_def tombstone_def)
qed

section \<open>The invariant of a writer\<close>

definition own_doc :: "room_db \<Rightarrow> writer \<Rightarrow> int \<Rightarrow> bool" where
  "own_doc db w n \<longleftrightarrow> (\<exists>d \<in> set (rd_events db). dc_id d = wr_id w \<and> dc_room d = wr_room w \<and> dc_room_seq d = n)"

definition allocated :: "room_db \<Rightarrow> writer \<Rightarrow> int \<Rightarrow> bool" where
  "allocated db w n \<longleftrightarrow> 1 \<le> n \<and> n \<le> ct_seq (counter (wr_room w) db)"

definition phase_ok :: "room_db \<Rightarrow> writer \<Rightarrow> phase \<Rightarrow> bool" where
  "phase_ok db w p \<longleftrightarrow> (case p of
      Insert k n \<Rightarrow> allocated db w n
    | Recheck k n \<Rightarrow> allocated db w n \<and> (present db (wr_room w) n \<or> (\<exists>m. own_doc db w m))
    | Fill n m \<Rightarrow> allocated db w n \<and> own_doc db w m
    | HealCounter n \<Rightarrow> allocated db w n \<and> own_doc db w n
    | HealScan n healed through \<Rightarrow> allocated db w n \<and> own_doc db w n \<and> through < n
        \<and> 0 \<le> healed \<and> healed < through \<and> (\<forall>m. 1 \<le> m \<and> m \<le> healed \<longrightarrow> present db (wr_room w) m)
    | HealInsert n ms through \<Rightarrow> allocated db w n \<and> own_doc db w n \<and> through < n
        \<and> (\<forall>m \<in> set ms. 1 \<le> m \<and> m \<le> through)
        \<and> (\<forall>m. 1 \<le> m \<and> m \<le> through \<longrightarrow> m \<in> set ms \<or> present db (wr_room w) m)
    | HealMax n through \<Rightarrow> allocated db w n \<and> own_doc db w n \<and> through < n
        \<and> (\<forall>m. 1 \<le> m \<and> m \<le> through \<longrightarrow> present db (wr_room w) m)
    | Appended n persisted \<Rightarrow> persisted \<longrightarrow> own_doc db w n
    | _ \<Rightarrow> True)"

definition writer_ok :: "(string \<Rightarrow> string) \<Rightarrow> room_db \<Rightarrow> writer \<Rightarrow> bool" where
  "writer_ok home db w \<longleftrightarrow> home (wr_id w) = wr_room w \<and> take 5 (wr_id w) \<noteq> ''skip:'' \<and> phase_ok db w (wr_phase w)"

lemma rephased [simp]:
  "own_doc db (w\<lparr>wr_phase := q\<rparr>) n = own_doc db w n" "allocated db (w\<lparr>wr_phase := q\<rparr>) n = allocated db w n"
  "own_doc db (w\<lparr>wr_phase := q\<rparr>) = own_doc db w" "phase_ok db (w\<lparr>wr_phase := q\<rparr>) p = phase_ok db w p"
proof -
  show o: "own_doc db (w\<lparr>wr_phase := q\<rparr>) n = own_doc db w n" for n by (simp add: own_doc_def)
  show a: "allocated db (w\<lparr>wr_phase := q\<rparr>) n = allocated db w n" for n by (simp add: allocated_def)
  show "own_doc db (w\<lparr>wr_phase := q\<rparr>) = own_doc db w" by (simp add: fun_eq_iff o)
  then show "phase_ok db (w\<lparr>wr_phase := q\<rparr>) p = phase_ok db w p"
    by (cases p) (simp_all add: phase_ok_def a)
qed

lemma own_doc_mono: "db_le db db' \<Longrightarrow> own_doc db w n \<Longrightarrow> own_doc db' w n"
  by (auto simp: db_le_def own_doc_def)

lemma allocated_mono: "db_le db db' \<Longrightarrow> allocated db w n \<Longrightarrow> allocated db' w n"
  using db_le_seq [of db db' "wr_room w"] by (auto simp: allocated_def)

lemma phase_mono:
  assumes "db_le db db'" and "phase_ok db w p"
  shows "phase_ok db' w p"
  using assms(2) allocated_mono [OF assms(1)] db_le_present [OF assms(1)]
  by (cases p) (auto simp: phase_ok_def dest: own_doc_mono [OF assms(1)])

lemma writer_mono: "db_le db db' \<Longrightarrow> writer_ok home db w \<Longrightarrow> writer_ok home db' w"
  by (simp add: writer_ok_def phase_mono)

lemma new_doc_origin: "writer_ok home db w \<Longrightarrow> origin_ok home (new_doc w n)"
  by (simp add: writer_ok_def origin_ok_def new_doc_def)

lemma find_doc_Some: "find_doc (wr_id w) (wr_room w) db = Some d \<Longrightarrow> own_doc db w (dc_room_seq d)"
  using find_Some [of _ "rd_events db" d] by (auto simp: find_doc_def own_doc_def)

lemma find_doc_None: "find_doc (wr_id w) (wr_room w) db = None \<Longrightarrow> \<not> own_doc db w n"
  by (auto simp: find_doc_def find_None own_doc_def)

text \<open>A document that keeps a writer from inserting: its number is taken, or its id is in the log of the room.\<close>

lemma insert_blocked:
  assumes "db_ok home db" and "writer_ok home db w" and "insert_doc (new_doc w n) db = None"
  shows "present db (wr_room w) n \<or> (\<exists>m. own_doc db w m)"
proof -
  from assms(3) obtain e where e: "e \<in> set (rd_events db)" "collides (new_doc w n) e" by (auto simp: insert_doc_None)
  show ?thesis
  proof (cases "dc_id e = wr_id w")
    case True
    from assms(1) e(1) have "origin_ok home e" by (simp add: db_ok_def)
    moreover from True assms(2) have "dc_entry e \<noteq> None"
      using skipped_id [OF calculation] by (cases "dc_entry e") (simp_all add: writer_ok_def)
    ultimately have "dc_room e = wr_room w" using True assms(2) by (auto simp: origin_ok_def writer_ok_def)
    with True e(1) show ?thesis by (auto simp: own_doc_def)
  next
    case False
    with e show ?thesis by (auto simp: collides_def new_doc_def present_def)
  qed
qed

text \<open>The scan of the healer sees every document of its range: there are no more than the range has numbers.\<close>

lemma distinct_numbers:
  "sorted_wrt (\<lambda>d e. \<not> collides d e) ds \<Longrightarrow> distinct (map dc_room_seq (filter (\<lambda>d. dc_room d = room \<and> P d) ds))"
  by (induction ds) (auto simp: collides_def)

lemma distinct_range_length:
  assumes "distinct (map f xs)" and "f ` set xs \<subseteq> {a + 1 .. b :: int}"
  shows "length xs \<le> nat (b - a)"
proof -
  have "length (map f xs) = card (f ` set xs)" using distinct_card [OF assms(1)] by simp
  also have "\<dots> \<le> card {a + 1 .. b}" by (rule card_mono) (use assms(2) in auto)
  finally show ?thesis by simp
qed

lemma heal_missing_complete:
  assumes "db_ok home db" and "m \<in> {healed + 1 .. through}"
  shows "m \<in> set (heal_missing room healed through n db) \<or> present db room m"
proof -
  let ?ds = "filter (\<lambda>d. dc_room d = room \<and> healed + 1 \<le> dc_room_seq d \<and> dc_room_seq d \<le> through) (rd_events db)"
  from assms(1) have "distinct (map dc_room_seq ?ds)" by (simp only: db_ok_def distinct_numbers)
  then have "length ?ds \<le> nat (through - healed)" by (rule distinct_range_length) auto
  then have "take (nat (through - healed)) ?ds = ?ds" by (rule take_all)
  with assms(2) show ?thesis by (auto simp: heal_missing_def Let_def present_def)
qed

lemma heal_missing_range: "m \<in> set (heal_missing room healed through n db) \<Longrightarrow> healed + 1 \<le> m \<and> m \<le> through"
  by (simp add: heal_missing_def Let_def)

section \<open>One phase\<close>

lemma transactional_ok:
  assumes db: "db_ok home db" and w: "writer_ok home db w" and a: "append_transactional w db = (p, db')"
  shows "db_ok home db' \<and> db_le db db' \<and> phase_ok db' w p"
proof -
  obtain n db1 where n: "allocate (wr_room w) db = (n, db1)" by fastforce
  note al = allocate_ok [OF db n]
  show ?thesis
  proof (cases "insert_doc (new_doc w n) db1")
    case None
    with a n db show ?thesis by (simp add: append_transactional_def phase_ok_def)
  next
    case (Some db2)
    have "db_ok home db2 \<and> db_le db1 db2 \<and> rd_events db2 = rd_events db1 @ [new_doc w n]
        \<and> (\<forall>room. counter room db2 = counter room db1)"
      by (rule insert_doc_ok [OF conjunct1 [OF al] Some new_doc_origin [OF w]]) (use al in \<open>simp_all add: new_doc_def\<close>)
    with a n al Some db_le_trans [of db db1 db2] show ?thesis
      by (auto simp: append_transactional_def phase_ok_def own_doc_def new_doc_def)
  qed
qed

lemma advance_ok:
  assumes db: "db_ok home db" and w: "writer_ok home db w" and a: "advance grace ok w db = (p, db')"
  shows "db_ok home db' \<and> db_le db db' \<and> phase_ok db' w p"
proof (cases "wr_phase w")
  case Start
  with a db transactional_ok [OF db w] show ?thesis by (auto simp: advance_def phase_ok_def split: if_splits)
next
  case ReadBack
  with a db show ?thesis
    by (auto simp: advance_def read_back_def phase_ok_def split: option.splits dest: find_doc_Some)
next
  case Probe
  with a db show ?thesis by (auto simp: advance_def phase_ok_def split: option.splits dest: find_doc_Some)
next
  case (Allocate k)
  obtain n db1 where "allocate (wr_room w) db = (n, db1)" by fastforce
  with a Allocate allocate_ok [OF db this] show ?thesis by (auto simp: advance_def phase_ok_def allocated_def)
next
  case (Insert k n)
  with w have al: "allocated db w n" by (simp add: writer_ok_def phase_ok_def)
  show ?thesis
  proof (cases "insert_doc (new_doc w n) db")
    case None
    with a Insert db al insert_blocked [OF db w None] show ?thesis by (auto simp: advance_def phase_ok_def)
  next
    case (Some db2)
    have i: "db_ok home db2 \<and> db_le db db2 \<and> rd_events db2 = rd_events db @ [new_doc w n]
        \<and> (\<forall>room. counter room db2 = counter room db)"
      by (rule insert_doc_ok [OF db Some new_doc_origin [OF w]]) (use al in \<open>simp_all add: new_doc_def allocated_def\<close>)
    then have "own_doc db2 w n" by (auto simp: own_doc_def new_doc_def)
    with a Insert Some i allocated_mono [of db db2 w n] al show ?thesis by (auto simp: advance_def phase_ok_def)
  qed
next
  case (Recheck k n)
  with a db w show ?thesis
    by (auto simp: advance_def phase_ok_def writer_ok_def next_attempt_def split: option.splits dest: find_doc_Some)
next
  case (Fill n m)
  with w have "1 \<le> n" "n \<le> ct_seq (counter (wr_room w) db)" "own_doc db w m"
    by (simp_all add: writer_ok_def phase_ok_def allocated_def)
  with a Fill fill_ok [OF db this(1,2)] own_doc_mono [of db _ w m] show ?thesis
    by (auto simp: advance_def phase_ok_def)
next
  case (HealCounter n)
  with a w db show ?thesis
    by (auto simp: advance_def phase_ok_def writer_ok_def db_ok_def Let_def split: if_splits)
next
  case (HealScan n healed through)
  with w have h: "allocated db w n" "own_doc db w n" "through < n" "0 \<le> healed" "healed < through"
    "\<forall>m. 1 \<le> m \<and> m \<le> healed \<longrightarrow> present db (wr_room w) m" by (simp_all add: writer_ok_def phase_ok_def)
  show ?thesis
  proof (cases ok)
    case True
    have "m \<in> set (heal_missing (wr_room w) healed through n db) \<or> present db (wr_room w) m"
      if "1 \<le> m" "m \<le> through" for m
      using that h(6) heal_missing_complete [OF db, of m healed through "wr_room w" n] by (cases "m \<le> healed") auto
    moreover have "1 \<le> m \<and> m \<le> through" if "m \<in> set (heal_missing (wr_room w) healed through n db)" for m
      using heal_missing_range [OF that] h(4) by simp
    ultimately show ?thesis using a db h True HealScan by (auto simp: advance_def phase_ok_def)
  qed (use a db h HealScan in \<open>auto simp: advance_def phase_ok_def\<close>)
next
  case (HealInsert n ms through)
  with w have h: "allocated db w n" "own_doc db w n" "through < n" "\<forall>m \<in> set ms. 1 \<le> m \<and> m \<le> through"
    "\<forall>m. 1 \<le> m \<and> m \<le> through \<longrightarrow> m \<in> set ms \<or> present db (wr_room w) m" by (simp_all add: writer_ok_def phase_ok_def)
  show ?thesis
  proof (cases ms)
    case Nil
    with a db h HealInsert show ?thesis by (auto simp: advance_def phase_ok_def)
  next
    case (Cons m ms')
    let ?db = "fill_skipped (wr_room w) m db"
    have "db_ok home ?db \<and> db_le db ?db \<and> present ?db (wr_room w) m \<and> (\<forall>r. counter r ?db = counter r db)"
      by (rule fill_ok [OF db]) (use h Cons in \<open>auto simp: allocated_def\<close>)
    with a h HealInsert Cons own_doc_mono [of db ?db w n] allocated_mono [of db ?db w n]
      db_le_present [of db ?db "wr_room w"]
    show ?thesis by (auto simp: advance_def phase_ok_def; blast)
  qed
next
  case (HealMax n through)
  with w have h: "own_doc db w n" "\<forall>m. 1 \<le> m \<and> m \<le> through \<longrightarrow> present db (wr_room w) m"
    by (simp_all add: writer_ok_def phase_ok_def)
  with a HealMax healed_ok [OF db h(2)] own_doc_mono [of db _ w n] show ?thesis
    by (auto simp: advance_def phase_ok_def Let_def)
next
  case (Appended n q)
  with a db w show ?thesis by (auto simp: advance_def phase_ok_def writer_ok_def)
next
  case Failed
  with a db show ?thesis by (auto simp: advance_def phase_ok_def)
qed

section \<open>Every reachable log\<close>

definition system_ok :: "(string \<Rightarrow> string) \<Rightarrow> log_system \<Rightarrow> bool" where
  "system_ok home s \<longleftrightarrow> db_ok home (ls_db s) \<and> (\<forall>w \<in> set (ls_writers s). writer_ok home (ls_db s) w)"

lemma set_take_drop: "x \<in> set (take i xs @ drop (Suc i) xs) \<Longrightarrow> x \<in> set xs"
  by (auto dest: in_set_takeD in_set_dropD)

lemma log_step_ok:
  "log_step grace home crashes s s' \<Longrightarrow> system_ok home s \<Longrightarrow> system_ok home s' \<and> db_le (ls_db s) (ls_db s')"
proof (induction rule: log_step.induct)
  case (log_arrive w s)
  then show ?case by (auto simp: system_ok_def writer_ok_def phase_ok_def)
next
  case (log_advance i s ok p db)
  let ?w = "ls_writers s ! i"
  from log_advance have db: "db_ok home (ls_db s)" and w: "writer_ok home (ls_db s) ?w" by (auto simp: system_ok_def)
  note a = advance_ok [OF db w log_advance.hyps(2)]
  have "writer_ok home db v" if v: "v \<in> set ((ls_writers s)[i := ?w\<lparr>wr_phase := p\<rparr>])" for v
  proof (cases "v = ?w\<lparr>wr_phase := p\<rparr>")
    case True
    with a w show ?thesis by (simp add: writer_ok_def)
  next
    case False
    with v have "v \<in> set (ls_writers s)" using set_update_subset_insert by fastforce
    with log_advance.prems a writer_mono show ?thesis by (auto simp: system_ok_def)
  qed
  with a show ?case by (simp add: system_ok_def)
next
  case (log_crash i s)
  then show ?case using set_take_drop [of _ i "ls_writers s"] by (simp add: system_ok_def)
qed

lemma log_reachable_ok: "log_reachable grace home crashes s \<Longrightarrow> system_ok home s"
proof (induction rule: log_reachable.induct)
  case log_empty
  show ?case by (auto simp: system_ok_def db_ok_def counter_def)
next
  case (log_next s s')
  with log_step_ok show ?case by blast
qed

lemma unique_document:
  assumes "db_ok home db" and "d \<in> set (rd_events db)" and "e \<in> set (rd_events db)" and "collides d e"
  shows "d = e"
proof -
  have "sorted_wrt (\<lambda>d e. \<not> collides d e) ds \<Longrightarrow> d \<in> set ds \<Longrightarrow> e \<in> set ds \<Longrightarrow> d = e" for ds
    using assms(4) by (induction ds) (auto simp: collides_def)
  with assms show ?thesis by (auto simp: db_ok_def)
qed

end
