(* ===== verification/Room_Log_Holes.thy ===== *)
theory Room_Log_Holes
  imports Room_Log_Properties
begin

text \<open>
  The promises of the room log: one document per idempotency key whatever the retries, no hole once the
  writers of a room have returned, and no hole at all in the part the healer has passed, even when
  writers died holding a number.
\<close>

section \<open>Allocated numbers are held\<close>

text \<open>The number a writer has allocated and not yet used.\<close>

fun holds :: "phase \<Rightarrow> int \<Rightarrow> bool" where
  "holds (Insert k m) n = (m = n)"
| "holds (Recheck k m) n = (m = n)"
| "holds (Fill m e) n = (m = n)"
| "holds _ n = False"

definition covered :: "log_system \<Rightarrow> bool" where
  "covered s \<longleftrightarrow> (\<forall>room n. 1 \<le> n \<and> n \<le> ct_seq (counter room (ls_db s)) \<longrightarrow> present (ls_db s) room n
     \<or> (\<exists>w \<in> set (ls_writers s). wr_room w = room \<and> holds (wr_phase w) n))"

lemma counter_fill: "ct_seq (counter r (fill_skipped room n db)) = ct_seq (counter r db)"
  by (auto simp: fill_skipped_def insert_doc_def split: option.splits if_splits)

lemma inserted:
  "insert_doc d db = Some db' \<Longrightarrow> counter r db' = counter r db \<and> present db' (dc_room d) (dc_room_seq d)"
  by (auto simp: insert_doc_def present_def split: if_splits)

lemma transaction_allocates:
  assumes "db_ok home db" and "append_transactional w db = (p, db')"
  shows "db' = db \<or> ct_seq (counter (wr_room w) db') = ct_seq (counter (wr_room w) db) + 1
    \<and> present db' (wr_room w) (ct_seq (counter (wr_room w) db) + 1)
    \<and> (\<forall>r. r \<noteq> wr_room w \<longrightarrow> counter r db' = counter r db)"
proof -
  obtain m db1 where m: "allocate (wr_room w) db = (m, db1)" by fastforce
  show ?thesis
  proof (cases "insert_doc (new_doc w m) db1")
    case (Some db2)
    with assms(2) m allocate_ok [OF assms(1) m] inserted [OF Some] show ?thesis
      by (simp add: append_transactional_def new_doc_def)
  qed (use assms(2) m in \<open>simp add: append_transactional_def\<close>)
qed

text \<open>A phase that allocates holds the number or has used it.\<close>

lemma advance_allocates:
  assumes "db_ok home db" and "advance grace ok w db = (p, db')" and "n \<le> ct_seq (counter room db')"
  shows "n \<le> ct_seq (counter room db) \<or> room = wr_room w \<and> (holds p n \<or> present db' room n)"
proof (cases "wr_phase w")
  case Start
  show ?thesis
  proof (cases ok)
    case True
    with Start assms(2) have "append_transactional w db = (p, db')" by (simp add: advance_def)
    from transaction_allocates [OF assms(1) this] assms(3) show ?thesis
      by (cases "room = wr_room w"; cases "n \<le> ct_seq (counter room db)") (auto dest: order_antisym)
  qed (use Start assms(2,3) in \<open>simp add: advance_def\<close>)
next
  case (Allocate k)
  obtain m db1 where m: "allocate (wr_room w) db = (m, db1)" by fastforce
  from Allocate assms(2,3) m allocate_ok [OF assms(1) m] show ?thesis
    by (cases "room = wr_room w"; cases "n = m") (auto simp: advance_def Let_def)
next
  case (HealInsert k ms through)
  with assms(2,3) show ?thesis by (cases ms) (auto simp: advance_def Let_def counter_fill)
next
  case (Insert k m)
  with assms(2,3) inserted [of "new_doc w m" db] show ?thesis
    by (auto simp: advance_def Let_def split: option.splits)
qed (use assms(2,3) in \<open>auto simp: advance_def Let_def counter_fill split: if_splits option.splits\<close>)

text \<open>A held number is used or held on.\<close>

lemma advance_holds:
  assumes db: "db_ok home db" and w: "writer_ok home db w" and a: "advance grace ok w db = (p, db')"
    and h: "holds (wr_phase w) n"
  shows "holds p n \<or> present db' (wr_room w) n"
proof (cases "wr_phase w")
  case (Insert k m)
  with a h inserted [of "new_doc w m" db] show ?thesis
    by (auto simp: advance_def new_doc_def split: option.splits)
next
  case (Recheck k m)
  with w have "present db (wr_room w) m \<or> (\<exists>j. own_doc db w j)" by (simp add: writer_ok_def phase_ok_def)
  with Recheck a h find_doc_None [of w db] show ?thesis
    by (auto simp: advance_def split: option.splits)
next
  case (Fill m e)
  with w have "1 \<le> m" "m \<le> ct_seq (counter (wr_room w) db)" by (simp_all add: writer_ok_def phase_ok_def allocated_def)
  with Fill a h fill_ok [OF db this] show ?thesis by (auto simp: advance_def)
qed (use h in simp_all)

lemma step_covered:
  "log_step grace home False s s' \<Longrightarrow> system_ok home s \<Longrightarrow> covered s \<Longrightarrow> covered s'"
proof (induction rule: log_step.induct)
  case (log_arrive w s)
  then show ?case by (fastforce simp: covered_def)
next
  case (log_advance i s ok p db)
  let ?w = "ls_writers s ! i" and ?ws = "(ls_writers s)[i := (ls_writers s ! i)\<lparr>wr_phase := p\<rparr>]"
  from log_advance.prems(1) log_advance.hyps(1) have dbk: "db_ok home (ls_db s)" and wk: "writer_ok home (ls_db s) ?w"
    by (auto simp: system_ok_def)
  note le = advance_ok [OF dbk wk log_advance.hyps(2)]
  have mine: "?w\<lparr>wr_phase := p\<rparr> \<in> set ?ws" using log_advance.hyps(1) by (rule set_update_memI)
  have "present db room n \<or> (\<exists>w \<in> set ?ws. wr_room w = room \<and> holds (wr_phase w) n)"
    if n: "1 \<le> n" "n \<le> ct_seq (counter room db)" for room n
    using advance_allocates [OF dbk log_advance.hyps(2) n(2)]
  proof (elim disjE conjE)
    assume "n \<le> ct_seq (counter room (ls_db s))"
    with n(1) log_advance.prems(2) consider "present (ls_db s) room n"
      | v where "v \<in> set (ls_writers s)" "wr_room v = room" "holds (wr_phase v) n" by (auto simp: covered_def)
    then show ?thesis
    proof cases
      case 1
      with le db_le_present show ?thesis by blast
    next
      case (2 v)
      show ?thesis
      proof (cases "v = ?w")
        case True
        with 2 advance_holds [OF dbk wk log_advance.hyps(2)] mine show ?thesis by force
      next
        case False
        with 2(1) have "v \<in> set ?ws"
          by (metis in_set_conv_nth length_list_update nth_list_update_neq)
        with 2 show ?thesis by blast
      qed
    qed
  next
    assume "room = wr_room ?w" "holds p n"
    with mine show ?thesis by force
  qed simp
  then show ?case by (simp add: covered_def)
qed simp

lemma reachable_covered: "log_reachable grace home False s \<Longrightarrow> covered s"
proof (induction rule: log_reachable.induct)
  case log_empty
  show ?case by (auto simp: covered_def counter_def)
next
  case (log_next s s')
  with step_covered log_reachable_ok show ?case by blast
qed

lemma quiescent_present:
  assumes "log_reachable grace home False s" and "1 \<le> n" and "n \<le> latest_seq room (ls_db s)"
    and "\<forall>w \<in> set (ls_writers s). wr_room w = room \<longrightarrow> wr_phase w = Failed \<or> (\<exists>m p. wr_phase w = Appended m p)"
  shows "present (ls_db s) room n"
  using reachable_covered [OF assms(1)] assms(2-4) by (fastforce simp: covered_def latest_seq_def)

section \<open>The promises\<close>

text \<open>
  An append answers the number of its own document and never of another: when a writer has returned a number as persisted, the log holds one document with its idempotency key, in its room and at that number, whatever other writers, retries, healers and crashes interleave.\<close>

theorem append_answers_its_document:
  assumes "log_reachable grace home crashes s" and "w \<in> set (ls_writers s)" and "wr_phase w = Appended n True"
  shows "\<exists>d \<in> set (rd_events (ls_db s)). dc_id d = wr_id w \<and> dc_room d = wr_room w \<and> dc_room_seq d = n
    \<and> (\<forall>e \<in> set (rd_events (ls_db s)). dc_id e = wr_id w \<longrightarrow> e = d)"
proof -
  from log_reachable_ok [OF assms(1)] assms(2,3) have ok: "db_ok home (ls_db s)" "own_doc (ls_db s) w n"
    by (auto simp: system_ok_def writer_ok_def phase_ok_def)
  from ok(2) obtain d where "d \<in> set (rd_events (ls_db s))" "dc_id d = wr_id w" "dc_room d = wr_room w"
    "dc_room_seq d = n" by (auto simp: own_doc_def)
  with unique_document [OF ok(1)] show ?thesis by (auto simp: collides_def)
qed

text \<open>
  C18: A quiescent room has no hole: when no writer crashed and every append to the room has returned, each number up to the latest one has exactly one document, a record or a tombstone.\<close>

theorem quiescent_log_has_no_hole:
  assumes "log_reachable grace home False s" and "1 \<le> n" and "n \<le> latest_seq room (ls_db s)"
    and "\<forall>w \<in> set (ls_writers s). wr_room w = room \<longrightarrow> wr_phase w = Failed \<or> (\<exists>m p. wr_phase w = Appended m p)"
  shows "\<exists>!d. d \<in> set (rd_events (ls_db s)) \<and> dc_room d = room \<and> dc_room_seq d = n"
proof -
  have "present (ls_db s) room n" by (rule quiescent_present [OF assms])
  then obtain d where d: "d \<in> set (rd_events (ls_db s))" "dc_room d = room" "dc_room_seq d = n"
    by (auto simp: present_def)
  moreover have "db_ok home (ls_db s)" using log_reachable_ok [OF assms(1)] by (simp add: system_ok_def)
  ultimately show ?thesis using unique_document by (intro ex1I [of _ d]) (auto simp: collides_def)
qed

text \<open>
  No hole is permanent: every number the healer has passed has a document, also when writers died holding a number.\<close>

theorem healed_prefix_has_no_hole:
  assumes "log_reachable grace home crashes s" and "1 \<le> n"
    and "n \<le> ct_healed_through (counter room (ls_db s))"
  shows "\<exists>!d. d \<in> set (rd_events (ls_db s)) \<and> dc_room d = room \<and> dc_room_seq d = n"
proof -
  have ok: "db_ok home (ls_db s)" using log_reachable_ok [OF assms(1)] by (simp add: system_ok_def)
  with assms(2,3) have "present (ls_db s) room n" by (simp add: db_ok_def)
  then obtain d where d: "d \<in> set (rd_events (ls_db s))" "dc_room d = room" "dc_room_seq d = n"
    by (auto simp: present_def)
  with ok unique_document show ?thesis by (intro ex1I [of _ d]) (auto simp: collides_def)
qed

end
