(* ===== verification/Turn_Steps.thy ===== *)
theory Turn_Steps
  imports Turn_Fold
begin

text \<open>
  The fold seen from one Turn: \<open>turn_step\<close> says how an accepted record of the log changes the Turn of a
  run, \<open>turn_path\<close> how an accepted log does. A fact about Turns is then a rule induction, and
  \<open>reachable_turn\<close> carries it to every snapshot.
\<close>

section \<open>Folding a log\<close>

fun fold_log :: "logged list \<Rightarrow> turns \<Rightarrow> fold_failure + turns" where
  "fold_log [] ts = Inr ts"
| "fold_log (l # ls) ts = (case apply_record l ts of Inl e \<Rightarrow> Inl e | Inr ts' \<Rightarrow> fold_log ls ts')"

lemma fold_log_append:
  "fold_log (xs @ ys) ts = (case fold_log xs ts of Inl e \<Rightarrow> Inl e | Inr ts' \<Rightarrow> fold_log ys ts')"
  by (induction xs arbitrary: ts) (auto split: sum.splits)

lemma fold_log_append_Inr:
  "fold_log (xs @ ys) ts = Inr us \<longleftrightarrow> (\<exists>ts'. fold_log xs ts = Inr ts' \<and> fold_log ys ts' = Inr us)"
  by (auto simp: fold_log_append split: sum.splits)

section \<open>One record, one Turn\<close>

inductive turn_step :: "string \<Rightarrow> logged \<Rightarrow> turn \<Rightarrow> turn \<Rightarrow> bool" for run l where
  step_other: "\<forall>e. lg_record l = RecRunEvent e \<longrightarrow> rv_run_id e \<noteq> run \<Longrightarrow> turn_step run l t t"
| step_event: "lg_record l = RecRunEvent e \<Longrightarrow> rv_run_id e = run \<Longrightarrow> payload_error (rv_payload e) = None
    \<Longrightarrow> fold_event (lg_room_seq l) (rv_event_id e) (rv_payload e) t = Inr t' \<Longrightarrow> turn_step run l t t'"
| step_final: "lg_record l = RecAgentResponse a \<Longrightarrow> turn_step run l t (commit_final a t)"
| step_call: "lg_record l = RecTaskSubmitted c \<Longrightarrow> turn_step run l t (add_agent_call m t)"
| step_ask: "lg_record l = RecHitlRequest q \<Longrightarrow> ask s q t = Inr t' \<Longrightarrow> turn_step run l t t'"
| step_answer: "lg_record l = RecHitlResponse r \<Longrightarrow> answer r t = Inr t' \<Longrightarrow> turn_step run l t t'"

inductive_cases turn_stepE: "turn_step run l t t'"

lemma put_turn_Inr [simp]:
  "put_turn run ts x = Inr us \<longleftrightarrow> (\<exists>t. x = Inr t \<and> us = AList.update run t ts)"
  by (auto simp: put_turn_def split: sum.splits)

lemma map_of_map_values: "map_of (map (\<lambda>(k, v). (k, f v)) ts) k = map_option f (map_of ts k)"
  by (induction ts) auto

lemma run_event_payload: "run_event_error e = None \<Longrightarrow> payload_error (rv_payload e) = None"
  by (simp add: run_event_error_def first_error_None)

lemma canonical_step:
  assumes "fold_canonical_turn seq e ts = Inr ts'" and "map_of ts run = Some t"
  shows "(rv_run_id e \<noteq> run \<and> map_of ts' run = Some t)
    \<or> (rv_run_id e = run \<and> (\<exists>t'. fold_event seq (rv_event_id e) (rv_payload e) t = Inr t' \<and> map_of ts' run = Some t'))"
  using assms by (auto simp: fold_canonical_turn_def split: canonical_payload.splits option.splits if_splits)

lemma card_turn_Inr: "card_turn c ts = Inr (Some t) \<Longrightarrow> map_of ts (text_or_empty (tk_run_id c)) = Some t"
  by (auto simp: card_turn_def split: if_splits option.splits)

lemma record_step:
  assumes "apply_record l ts = Inr ts'" and "map_of ts run = Some t"
  shows "\<exists>t'. map_of ts' run = Some t' \<and> turn_step run l t t'"
proof (cases "lg_record l")
  case (RecRunEvent e)
  with assms(1) have v: "run_event_error e = None" and f: "fold_canonical_turn (lg_room_seq l) e ts = Inr ts'"
    by (auto simp: apply_record_def fold_run_event_def split: if_splits)
  from canonical_step [OF f assms(2)] show ?thesis
  proof (elim disjE conjE exE)
    assume "rv_run_id e \<noteq> run" "map_of ts' run = Some t"
    with RecRunEvent show ?thesis by (auto intro!: step_other)
  next
    fix t'
    assume "rv_run_id e = run" "fold_event (lg_room_seq l) (rv_event_id e) (rv_payload e) t = Inr t'"
      "map_of ts' run = Some t'"
    with step_event [OF RecRunEvent _ run_event_payload [OF v]] show ?thesis by blast
  qed
next
  case (RecAgentResponse a)
  with assms show ?thesis
    by (auto simp: apply_record_def fold_agent_response_def map_of_map_values
        intro!: step_final step_other)
next
  case (RecTaskSubmitted c)
  with assms show ?thesis
    by (auto simp: apply_record_def fold_task_submitted_def split: sum.splits option.splits
        dest!: card_turn_Inr intro!: step_call step_other)
next
  case (RecHitlRequest q)
  with assms have "map_of ts' run = Some t \<or> (\<exists>t'. map_of ts' run = Some t' \<and> ask (lg_stamp l) q t = Inr t')"
    by (auto simp: apply_record_def fold_hitl_request_def split: if_splits option.splits)
  then show ?thesis using step_ask [OF RecHitlRequest] step_other [of l run t] RecHitlRequest by auto
next
  case (RecHitlResponse r)
  with assms have "map_of ts' run = Some t \<or> (\<exists>t'. map_of ts' run = Some t' \<and> answer r t = Inr t')"
    by (auto simp: apply_record_def fold_hitl_response_def split: if_splits option.splits)
  then show ?thesis using step_answer [OF RecHitlResponse] step_other [of l run t] RecHitlResponse by auto
qed (use assms in \<open>auto simp: apply_record_def fold_task_update_def split: sum.splits intro!: step_other\<close>)

lemma fold_agent_response_None: "map_of (fold_agent_response a ts) run = None \<longleftrightarrow> map_of ts run = None"
  by (simp add: fold_agent_response_def map_of_map_values)

lemma record_starts:
  assumes "apply_record l ts = Inr ts'" and "map_of ts run = None" and "map_of ts' run = Some t"
  shows "\<exists>e p. lg_record l = RecRunEvent e \<and> rv_run_id e = run \<and> rv_payload e = RunStarted p
    \<and> t = new_turn p (the (rv_correlation_id e))"
  using assms fold_agent_response_None [of _ ts run]
  by (auto simp: apply_record_def fold_run_event_def fold_canonical_turn_def fold_task_submitted_def
      fold_task_update_def fold_hitl_request_def fold_hitl_response_def
      split: room_record.splits canonical_payload.splits option.splits sum.splits if_splits
      dest!: card_turn_Inr)

section \<open>Logs\<close>

inductive turn_path :: "string \<Rightarrow> logged list \<Rightarrow> turn \<Rightarrow> turn \<Rightarrow> bool" for run where
  path_none: "turn_path run [] t t"
| path_step: "turn_step run l t u \<Longrightarrow> turn_path run ls u v \<Longrightarrow> turn_path run (l # ls) t v"

lemma log_path:
  "fold_log ls ts = Inr us \<Longrightarrow> map_of ts run = Some t \<Longrightarrow> \<exists>u. map_of us run = Some u \<and> turn_path run ls t u"
proof (induction ls arbitrary: ts t)
  case (Cons l ls)
  then obtain ts' where a: "apply_record l ts = Inr ts'" and f: "fold_log ls ts' = Inr us"
    by (auto split: sum.splits)
  from record_step [OF a Cons.prems(2)] obtain t' where "map_of ts' run = Some t'" "turn_step run l t t'" by blast
  with Cons.IH [OF f] show ?case by (blast intro: path_step)
qed (auto intro: path_none)

lemma path_keeps:
  assumes "turn_path run ls t u" and "P t" and "\<And>l v w. turn_step run l v w \<Longrightarrow> P v \<Longrightarrow> P w"
  shows "P u"
  using assms(1,2) by (induction rule: turn_path.induct) (auto intro: assms(3))

text \<open>What holds of a started Turn and is kept by every step holds of every Turn of every snapshot.\<close>

lemma reachable_turn:
  assumes "fold_log ls [] = Inr ts" and "map_of ts run = Some t"
    and new: "\<And>p r. P (new_turn p r)" and step: "\<And>l v w. turn_step run l v w \<Longrightarrow> P v \<Longrightarrow> P w"
  shows "P t"
proof -
  have "fold_log ls us = Inr ts \<Longrightarrow> (\<And>v. map_of us run = Some v \<Longrightarrow> P v) \<Longrightarrow> P t" for us
  proof (induction ls arbitrary: us)
    case Nil
    with assms(2) show ?case by simp
  next
    case (Cons l ls)
    then obtain us' where a: "apply_record l us = Inr us'" and f: "fold_log ls us' = Inr ts"
      by (auto split: sum.splits)
    show ?case
    proof (rule Cons.IH [OF f])
      fix v assume v: "map_of us' run = Some v"
      show "P v"
      proof (cases "map_of us run")
        case None
        from record_starts [OF a this v] new show ?thesis by blast
      next
        case (Some w)
        with record_step [OF a Some] v Cons.prems(2) [OF Some] step show ?thesis by auto
      qed
    qed
  qed
  from this [OF assms(1)] show ?thesis by simp
qed

section \<open>One canonical event\<close>

text \<open>The handler of an event, once the guards of the Turn have passed.\<close>

definition handled :: "int \<Rightarrow> string \<Rightarrow> canonical_payload \<Rightarrow> turn \<Rightarrow> fold_failure + turn" where
  "handled seq event payload t = (case payload of
      TurnStart p \<Rightarrow> start_turn p t
    | RunWaiting p \<Rightarrow> wait_input p t
    | RunResumed p \<Rightarrow> resume p t
    | RunSettled p \<Rightarrow> settle_turn p t
    | RunStarted _ \<Rightarrow> Inr t
    | _ \<Rightarrow> (case payload_internal payload of None \<Rightarrow> Inl Rejected
        | Some x \<Rightarrow> (case internal_of x t of None \<Rightarrow> Inl Rejected
            | Some i \<Rightarrow> child_event seq event i payload t)))"

lemma fold_event_Inr:
  "fold_event seq event pl t = Inr t' \<longleftrightarrow>
     \<not> settled t \<and> (\<forall>f. tn_final_answer t = Some f \<longrightarrow> admits f pl) \<and> handled seq event pl t = Inr t'"
proof (cases "tn_final_answer t")
  case None
  then show ?thesis unfolding fold_event_def handled_def [symmetric] by simp
next
  case (Some f)
  then show ?thesis unfolding fold_event_def handled_def [symmetric] by simp
qed

end
