(* ===== verification/Turn_Properties.thy ===== *)
theory Turn_Properties
  imports Turn_Steps
begin

text \<open>
  What a client may rely on in a Turn of a snapshot: a settled Turn changes no more, the committed final
  answer is the answer in every later snapshot, the text a client assembled from the deltas is the text
  of the message, and a Turn is shown as completed only when everything it started has ended and its
  final answer closes its last internal turn.
\<close>

section \<open>What no record changes\<close>

text \<open>What a settled Turn shows of its run.\<close>

definition closing_view where
  "closing_view (t :: turn) = (tn_state t, tn_settled_at t, tn_duration_ms t, tn_terminal_code t, tn_terminal_summary t,
     tn_internal_turns t, tn_activity t, tn_current_assistant t)"

text \<open>What only the events of the run change, and what they all keep.\<close>

lemma commit_final_view [simp]:
  "closing_view (commit_final a t) = closing_view t" "tn_final_committed t \<Longrightarrow> commit_final a t = t"
  "tn_hitl_interactions (commit_final a t) = tn_hitl_interactions t"
  "tn_active_interaction_id (commit_final a t) = tn_active_interaction_id t"
  "tn_user_message_id (commit_final a t) = tn_user_message_id t"
  by (auto simp: commit_final_def closing_view_def split: option.splits)

lemma add_agent_call_view [simp]:
  "closing_view (add_agent_call m t) = closing_view t" "tn_final_answer (add_agent_call m t) = tn_final_answer t"
  "tn_final_committed (add_agent_call m t) = tn_final_committed t"
  "tn_active_interaction_id (add_agent_call m t) = tn_active_interaction_id t"
  "tn_hitl_interactions (add_agent_call m t) = tn_hitl_interactions t"
  by (auto simp: add_agent_call_def closing_view_def)

lemma change_interaction_view [simp]:
  "closing_view (change_interaction x f t) = closing_view t"
  "tn_final_answer (change_interaction x f t) = tn_final_answer t"
  "tn_final_committed (change_interaction x f t) = tn_final_committed t"
  "tn_active_interaction_id (change_interaction x f t) = tn_active_interaction_id t"
  by (auto simp: change_interaction_def closing_view_def)

lemma ask_view:
  assumes "ask s q t = Inr t'"
  shows "closing_view t' = closing_view t \<and> tn_final_answer t' = tn_final_answer t
    \<and> tn_final_committed t' = tn_final_committed t \<and> tn_active_interaction_id t' = tn_active_interaction_id t"
proof (cases "interaction_of (text_or_empty (hr_interaction_id q)) t")
  case None
  with assms show ?thesis by (auto simp: ask_def Let_def closing_view_def split: if_splits)
next
  case (Some n)
  with assms show ?thesis by (auto simp: ask_def Let_def split: if_splits)
qed

lemma answer_view:
  assumes "answer q t = Inr t'"
  shows "closing_view t' = closing_view t \<and> tn_final_answer t' = tn_final_answer t
    \<and> tn_final_committed t' = tn_final_committed t
    \<and> (tn_active_interaction_id t' = tn_active_interaction_id t \<or> tn_active_interaction_id t' = None)"
proof -
  have view: "closing_view (u\<lparr>tn_active_interaction_id := x\<rparr>) = closing_view u" for u x
    by (simp add: closing_view_def)
  from assms show ?thesis
    by (auto simp: answer_def Let_def view split: if_splits option.splits)
qed

lemma settled_view: "settled t \<longleftrightarrow> (\<exists>s. fst (closing_view t) = TurnSettled s)"
  by (cases "tn_state t") (auto simp: settled_def closing_view_def)

lemma step_settled:
  "turn_step run l t t' \<Longrightarrow> settled t \<Longrightarrow> closing_view t' = closing_view t"
  by (induction rule: turn_step.induct) (simp_all add: ask_view answer_view fold_event_Inr)

text \<open>After the final message every accepted event keeps the answer.\<close>

lemma handled_answered:
  assumes "handled seq event pl t = Inr t'" and "tn_final_answer t = Some f" and "admits f pl"
  shows "tn_final_answer t' = Some f \<and> tn_final_committed t' = tn_final_committed t"
proof (cases pl)
  case (TurnEnd p)
  with assms show ?thesis
    by (auto simp: handled_def child_event_def end_turn_def change_internal_def split: option.splits)
next
  case (RunSettled p)
  with assms show ?thesis by (auto simp: handled_def settle_turn_def)
qed (use assms in simp_all)

lemma step_committed:
  "turn_step run l t t' \<Longrightarrow> tn_final_committed t \<and> tn_final_answer t = Some f
     \<Longrightarrow> tn_final_committed t' \<and> tn_final_answer t' = Some f"
  by (induction rule: turn_step.induct)
    (auto simp: ask_view answer_view fold_event_Inr dest: handled_answered)

text \<open>
  C14: No record of the log changes the state, the outcome, the timeline or the internal turns of a settled Turn in any later snapshot.\<close>

theorem settled_turn_stays_settled:
  assumes "fold_log ls ts = Inr us" and "map_of ts run = Some t" and "settled t"
  shows "\<exists>u. map_of us run = Some u \<and> closing_view u = closing_view t"
proof -
  from log_path [OF assms(1,2)] obtain u where u: "map_of us run = Some u" "turn_path run ls t u" by blast
  have "settled u \<and> closing_view u = closing_view t"
  proof (rule path_keeps [OF u(2)])
    show "settled t \<and> closing_view t = closing_view t" using assms(3) by simp
  next
    fix l v w assume "turn_step run l v w" "settled v \<and> closing_view v = closing_view t"
    then show "settled w \<and> closing_view w = closing_view t"
      using step_settled [of run l v w] settled_view [of v] settled_view [of w] by auto
  qed
  with u(1) show ?thesis by blast
qed

text \<open>
  Once the durable answer has committed the final message of a Turn, every later snapshot shows that answer, whatever records follow.\<close>

theorem committed_answer_is_final:
  assumes "fold_log ls ts = Inr us" and "map_of ts run = Some t"
    and "tn_final_committed t" and "tn_final_answer t = Some f"
  shows "\<exists>u. map_of us run = Some u \<and> tn_final_committed u \<and> tn_final_answer u = Some f"
proof -
  from log_path [OF assms(1,2)] obtain u where u: "map_of us run = Some u" "turn_path run ls t u" by blast
  have "tn_final_committed u \<and> tn_final_answer u = Some f"
    by (rule path_keeps [OF u(2)]) (use assms(3,4) step_committed in blast)+
  with u(1) show ?thesis by blast
qed

section \<open>What a completed Turn has closed\<close>

text \<open>Only its settlement settles a Turn.\<close>

lemma handled_unsettled:
  assumes "handled seq event pl t = Inr t'" and "\<not> settled t" and "settled t'"
  shows "\<exists>p. pl = RunSettled p \<and> settle_turn p t = Inr t'"
proof -
  have state: "tn_state (change_internal i f t) = tn_state t" "tn_state (change_tool c g t) = tn_state t"
    "tn_state (show_text act x t) = tn_state t" for i f c g act x
    by (simp_all add: change_internal_def change_tool_def show_text_def)
  show ?thesis
  proof (cases pl)
    case (MessageEnd p)
    with assms state show ?thesis
      by (cases "pme_disposition p")
        (auto simp: handled_def child_event_def end_message_def settled_def split: option.splits if_splits)
  qed (use assms state in \<open>auto simp: handled_def child_event_def start_turn_def start_message_def
      update_message_def start_tool_def update_tool_def end_tool_def decide_def retry_def end_turn_def
      wait_input_def resume_def settled_def split: option.splits if_splits\<close>)
qed

definition turn_closed :: "turn \<Rightarrow> bool" where
  "turn_closed t \<longleftrightarrow> \<not> open_children t \<and> (tn_state t = TurnSettled StCompleted
     \<longrightarrow> completion_ready (map_option fa_message_id (tn_final_answer t)) t)"

lemma settlement_closes:
  assumes "settle_turn p t = Inr t'"
  shows "turn_closed t'"
  using assms by (auto simp: settle_turn_def turn_closed_def open_children_def completion_ready_def earlier_closed_def
      tools_def list_all_iff split: option.splits if_splits)

lemma view_closed:
  assumes "closing_view t' = closing_view t" and "turn_closed t"
    and "tn_active_interaction_id t' = tn_active_interaction_id t \<or> tn_active_interaction_id t' = None"
    and "tn_final_committed t \<Longrightarrow> tn_final_committed t' \<and> tn_final_answer t' = tn_final_answer t"
  shows "turn_closed t'"
proof -
  have e: "earlier_closed t' = earlier_closed t"
    using assms(1) by (auto simp: fun_eq_iff closing_view_def earlier_closed_def)
  show ?thesis
    using assms by (auto simp: turn_closed_def open_children_def closing_view_def completion_ready_def tools_def e
        split: option.splits)
qed

lemma step_closed:
  assumes "turn_step run l t t'" and "settled t \<longrightarrow> turn_closed t"
  shows "settled t' \<longrightarrow> turn_closed t'"
  using assms
proof (induction rule: turn_step.induct)
  case (step_event e t t')
  then have "\<not> settled t" "handled (lg_room_seq l) (rv_event_id e) (rv_payload e) t = Inr t'"
    by (simp_all add: fold_event_Inr)
  with handled_unsettled settlement_closes show ?case by blast
next
  case (step_final a t)
  then show ?case
    using view_closed [OF commit_final_view(1)] settled_view [of t] settled_view [of "commit_final a t"] by auto
next
  case (step_call c t m)
  then show ?case
    using view_closed [OF add_agent_call_view(1)] settled_view [of t] settled_view [of "add_agent_call m t"] by auto
next
  case (step_ask q s t t')
  from ask_view [OF step_ask(2)] step_ask(3) show ?case
    using view_closed [of t' t] settled_view [of t] settled_view [of t'] by auto
next
  case (step_answer r t t')
  from answer_view [OF step_answer(2)] step_answer(3) show ?case
    using view_closed [of t' t] settled_view [of t] settled_view [of t'] by auto
qed simp

text \<open>
  C13: In every snapshot a settled Turn has no open message, Tool, internal Turn or interaction, and a Turn shown as completed has its final answer committed by the durable response, as the last message of its last internal Turn, with every earlier internal Turn completed or retried.\<close>

theorem settled_turn_is_closed:
  assumes "fold_log ls [] = Inr ts" and "map_of ts run = Some t" and "settled t"
  shows "\<not> open_children t \<and> (tn_state t = TurnSettled StCompleted
     \<longrightarrow> completion_ready (map_option fa_message_id (tn_final_answer t)) t)"
proof -
  have "settled t \<longrightarrow> turn_closed t"
    by (rule reachable_turn [OF assms(1,2)]) (auto simp: settled_def new_turn_def intro: step_closed [rule_format])
  with assms(3) show ?thesis by (simp add: turn_closed_def)
qed

section \<open>What the fold lets through\<close>

text \<open>
  \<open>tool_execution_end\<close> refuses a Tool that has ended, \<open>tool_execution_update\<close> does not look; the fold
  of the client refuses such an update.
\<close>

lemma find_tool_activity: "find_tool c t = Some x \<longleftrightarrow> List.find (is_call c) (tn_activity t) = Some (ActTool x)"
proof -
  have "List.find (\<lambda>y. ta_tool_call_id y = c) (List.map_filter tool_of as) = Some x
      \<longleftrightarrow> List.find (is_call c) as = Some (ActTool x)" for as
  proof (induction as)
    case (Cons a as)
    then show ?case by (cases a) (simp_all add: map_filter_simps is_call_def)
  qed (simp add: map_filter_simps)
  then show ?thesis by (simp add: find_tool_def tools_def)
qed

lemma find_call_changed:
  assumes "\<And>y. ta_tool_call_id (f y) = ta_tool_call_id y"
  shows "List.find (is_call c) (update_first (is_call d) (change_activity f) as) = Some (ActTool y)
    \<longleftrightarrow> (\<exists>x. List.find (is_call c) as = Some (ActTool x) \<and> y = (if d = c then f x else x))"
proof (induction as)
  case (Cons a as)
  then show ?case using assms by (cases a) (auto simp: is_call_def)
qed simp

text \<open>The Tool of a call as the Turn shows it while it runs.\<close>

definition shows_open :: "string \<Rightarrow> turn \<Rightarrow> bool" where
  "shows_open c t \<longleftrightarrow> (\<exists>x. find_tool c t = Some x \<and> open_tool x)"

lemma shows_open_activity:
  "shows_open c t \<longleftrightarrow> (\<exists>x. List.find (is_call c) (tn_activity t) = Some (ActTool x) \<and> open_tool x)"
  by (simp add: shows_open_def find_tool_activity)

lemma find_append: "List.find P (xs @ ys) = (case List.find P xs of None \<Rightarrow> List.find P ys | Some x \<Rightarrow> Some x)"
  by (induction xs) auto

lemma shows_open_children: "shows_open c t \<Longrightarrow> open_children t"
  unfolding shows_open_def find_tool_def open_children_def list_ex_iff find_Some_iff by (metis nth_mem)

text \<open>Only the end of the Tool closes it.\<close>

fun ends_call :: "string \<Rightarrow> canonical_payload \<Rightarrow> bool" where
  "ends_call c (ToolEnd p) = (pxe_tool_call_id p = c)"
| "ends_call c _ = False"

lemma changed_open:
  assumes "shows_open c t" and "tn_activity t' = update_first (is_call d) (change_activity f) (tn_activity t)"
    and "\<And>y. ta_tool_call_id (f y) = ta_tool_call_id y" and "d = c \<Longrightarrow> \<forall>y. open_tool (f y)"
  shows "shows_open c t'"
proof -
  from assms(1) obtain x where "List.find (is_call c) (tn_activity t) = Some (ActTool x)" "open_tool x"
    by (auto simp: shows_open_activity)
  then have "List.find (is_call c) (tn_activity t') = Some (ActTool (if d = c then f x else x))
      \<and> open_tool (if d = c then f x else x)"
    using assms(2-4) by (simp add: find_call_changed)
  then show ?thesis unfolding shows_open_activity by blast
qed

lemma appended_open:
  assumes "shows_open c t" and "tn_activity t' = tn_activity t @ as"
  shows "shows_open c t'"
  using assms by (auto simp: shows_open_activity find_append)

lemma same_open: "shows_open c t \<Longrightarrow> tn_activity t' = tn_activity t \<Longrightarrow> shows_open c t'"
  by (simp add: shows_open_activity)

lemma handled_open:
  assumes "handled seq event pl t = Inr t'" and "shows_open c t" and "\<not> ends_call c pl" and "payload_error pl = None"
  shows "shows_open c t' \<and> (\<forall>p. pl \<noteq> RunSettled p)"
proof (cases pl)
  case (ToolUpdate p)
  with assms(4) have st: "pxu_status p \<in> {TsRunning, TsSuspended}"
    by (auto simp: payload_error_def tool_update_error_def first_error_None)
  from ToolUpdate assms(1) obtain f where "tn_activity t'
      = update_first (is_call (pxu_tool_call_id p)) (change_activity f) (tn_activity t)"
    and f: "f = (\<lambda>y. y\<lparr>ta_update_index := pxu_update_index p, ta_status := pxu_status p,
      ta_partial_result := pxu_partial_result p\<rparr>)"
    by (auto simp: handled_def child_event_def update_tool_def change_tool_def split: option.splits)
  from changed_open [OF assms(2) this(1)] st f ToolUpdate show ?thesis by (simp add: open_tool_def)
next
  case (ToolEnd p)
  with assms(1) obtain f where a: "tn_activity t'
      = update_first (is_call (pxe_tool_call_id p)) (change_activity f) (tn_activity t)"
    and f: "\<And>y. ta_tool_call_id (f y) = ta_tool_call_id y"
    by (auto simp: handled_def child_event_def end_tool_def change_tool_def split: option.splits)
  from changed_open [OF assms(2) a f] assms(3) ToolEnd show ?thesis by simp
next
  case (RunSettled p)
  with assms show ?thesis by (simp add: handled_def settle_turn_def shows_open_children)
next
  case (MessageEnd p)
  with assms(1) have "\<exists>as. tn_activity t' = tn_activity t @ as"
    by (cases "pme_disposition p")
      (auto simp: handled_def child_event_def end_message_def show_text_def split: option.splits if_splits)
  with assms(2) MessageEnd show ?thesis by (auto intro: appended_open)
qed (use assms in \<open>auto simp: handled_def child_event_def start_turn_def start_message_def update_message_def
    start_tool_def decide_def retry_def end_turn_def wait_input_def resume_def change_internal_def
    change_interaction_def split: option.splits if_splits intro: appended_open same_open\<close>)

lemma view_open: "closing_view t' = closing_view t \<Longrightarrow> shows_open c t \<Longrightarrow> shows_open c t'"
  by (auto simp: closing_view_def intro: same_open)

definition ends_tool :: "string \<Rightarrow> string \<Rightarrow> logged \<Rightarrow> bool" where
  "ends_tool run c l \<longleftrightarrow> (case lg_record l of
     RecRunEvent e \<Rightarrow> rv_run_id e = run \<and> ends_call c (rv_payload e) | _ \<Rightarrow> False)"

lemma step_open:
  assumes "turn_step run l t t'" and "\<not> settled t \<and> shows_open c t" and "\<not> ends_tool run c l"
  shows "\<not> settled t' \<and> shows_open c t'"
  using assms
proof (induction rule: turn_step.induct)
  case (step_event e t t')
  then have "handled (lg_room_seq l) (rv_event_id e) (rv_payload e) t = Inr t'" "\<not> ends_call c (rv_payload e)"
    by (simp_all add: fold_event_Inr ends_tool_def)
  with step_event handled_open [OF this(1) _ this(2)] handled_unsettled [OF this(1)] show ?case by blast
next
  case (step_final a t)
  then show ?case using view_open [OF commit_final_view(1)] settled_view [of t] settled_view [of "commit_final a t"] by auto
next
  case (step_call k t m)
  then show ?case using view_open [OF add_agent_call_view(1)] settled_view [of t] settled_view [of "add_agent_call m t"] by auto
next
  case (step_ask q s t t')
  then show ?case using ask_view [OF step_ask(2)] view_open [of t' t] settled_view [of t] settled_view [of t'] by auto
next
  case (step_answer r t t')
  then show ?case using answer_view [OF step_answer(2)] view_open [of t' t] settled_view [of t] settled_view [of t'] by auto
qed

lemma path_open:
  "turn_path run ls t u \<Longrightarrow> \<not> settled t \<and> shows_open c t \<Longrightarrow> \<forall>l \<in> set ls. \<not> ends_tool run c l
     \<Longrightarrow> \<not> settled u \<and> shows_open c u"
  by (induction rule: turn_path.induct) (auto dest: step_open)

text \<open>
  C38: An update of a Tool that arrives after its end reopens the Tool. Take a Turn that is not settled and has no
  final message, with a Tool that has ended, and a valid update event of the Run for that Tool, with a higher update
  index, the same kind and the status \<open>running\<close>. The log accepts it, and the snapshot shows the Tool as
  running again. Whatever accepted records follow, as long as none of them ends this Tool a second time, every
  later snapshot shows the Tool as running or suspended and the Turn as not settled.
\<close>

theorem late_update_reopens_tool:
  assumes "map_of ts run = Some t" and "\<not> settled t" and "tn_final_answer t = None"
    and "find_tool c t = Some x" and "\<not> open_tool x"
    and "lg_record l = RecRunEvent e" and "run_event_error e = None" and "rv_run_id e = run"
    and "rv_correlation_id e = Some (tn_client_request_id t)" and "rv_payload e = ToolUpdate p"
    and "internal_of (pxu_internal_turn_id p) t \<noteq> None" and "pxu_tool_call_id p = c"
    and "ta_update_index x < pxu_update_index p" and "pxu_execution_kind p = ta_execution_kind x"
    and "pxu_status p = TsRunning"
  shows "\<exists>us u y. apply_record l ts = Inr us \<and> map_of us run = Some u \<and> find_tool c u = Some y \<and> ta_status y = TsRunning
    \<and> (\<forall>ls vs. fold_log ls us = Inr vs \<and> (\<forall>k \<in> set ls. \<not> ends_tool run c k) \<longrightarrow>
         (\<exists>v z. map_of vs run = Some v \<and> \<not> settled v \<and> find_tool c v = Some z \<and> open_tool z))"
proof -
  let ?f = "\<lambda>y. y\<lparr>ta_update_index := pxu_update_index p, ta_status := pxu_status p,
    ta_partial_result := pxu_partial_result p\<rparr>"
  let ?u = "change_tool c ?f t" and ?us = "AList.update run (change_tool c ?f t) ts"
  have a: "apply_record l ts = Inr ?us"
    using assms by (auto simp: apply_record_def fold_run_event_def fold_canonical_turn_def fold_event_def
        child_event_def update_tool_def accept_if_def put_turn_def)
  have m: "map_of ?us run = Some ?u" by (simp add: update_conv')
  have y: "find_tool c ?u = Some (?f x)"
    using assms(4) by (simp add: find_tool_activity change_tool_def find_call_changed)
  have "\<not> settled ?u" using assms(2) by (simp add: settled_def change_tool_def)
  moreover have "shows_open c ?u" using y assms(15) by (simp add: shows_open_def open_tool_def)
  ultimately have later: "\<exists>v. map_of vs run = Some v \<and> \<not> settled v \<and> shows_open c v"
    if "fold_log ls ?us = Inr vs" "\<forall>k \<in> set ls. \<not> ends_tool run c k" for ls vs
    using log_path [OF that(1) m] path_open [OF _ _ that(2)] by blast
  have "ta_status (?f x) = TsRunning" using assms(15) by simp
  with a m y later show ?thesis unfolding shows_open_def by blast
qed

end
