(* ===== verification/Room_Snapshot.thy ===== *)
theory Room_Snapshot
  imports Room_Log_Holes Turn_Properties
begin

text \<open>
  \<open>SnapshotService\<close> of \<open>delivery/snapshot.py\<close>: a snapshot is the fold of the longest contiguous prefix of
  the room log, continued from a checkpoint in memory. The store is a parameter of the service, as in
  the code: what it reads of it is \<open>read after limit\<close>, one answer per page, and other writers may append
  between two pages. The snapshots of one room exclude each other (the room lock).
\<close>

section \<open>Folding pages\<close>

definition logged_of :: "doc \<Rightarrow> logged option" where
  "logged_of d = (case dc_entry d of None \<Rightarrow> None
     | Some (ts, r) \<Rightarrow> Some \<lparr>lg_room_seq = dc_room_seq d, lg_stamp = ts, lg_record = r\<rparr>)"

text \<open>
  The loop over the records of a page: the next number, whether a record was folded, whether a number
  was missing, and the turns. A rejected record raises with its number.
\<close>

datatype snapshot_error = FoldRejected int | FoldRaised string

record scan =
  sn_expected :: int
  sn_folded_any :: bool
  sn_gap :: bool
  sn_turns :: turns

definition fold_failed :: "int \<Rightarrow> fold_failure \<Rightarrow> snapshot_error" where
  "fold_failed n e = (case e of Rejected \<Rightarrow> FoldRejected n | Raised m \<Rightarrow> FoldRaised m)"

fun fold_page :: "doc list \<Rightarrow> scan \<Rightarrow> snapshot_error + scan" where
  "fold_page [] s = Inr s"
| "fold_page (d # ds) s =
    (if dc_room_seq d < sn_expected s then fold_page ds s
     else if sn_expected s < dc_room_seq d then Inr (s\<lparr>sn_gap := True\<rparr>)
     else case logged_of d of
        None \<Rightarrow> fold_page ds (s\<lparr>sn_expected := sn_expected s + 1\<rparr>)
      | Some l \<Rightarrow> (case apply_record l (sn_turns s) of
            Inl e \<Rightarrow> Inl (fold_failed (dc_room_seq d) e)
          | Inr ts \<Rightarrow> fold_page ds (s\<lparr>sn_expected := sn_expected s + 1, sn_folded_any := True, sn_turns := ts\<rparr>)))"

text \<open>
  The loop over pages: \<open>dbs\<close> are the states of the store that the successive reads see, \<open>None\<close> means
  that they were not enough to finish. A short page ends the log.
\<close>

type_synonym 'db reader = "'db \<Rightarrow> int \<Rightarrow> nat \<Rightarrow> doc list"

fun scan_pages :: "'db reader \<Rightarrow> nat \<Rightarrow> 'db list \<Rightarrow> scan \<Rightarrow> (snapshot_error + scan) option" where
  "scan_pages read limit [] s = None"
| "scan_pages read limit (db # dbs) s =
    (let page = read db (sn_expected s - 1) limit in
     if page = [] then Some (Inr s)
     else case fold_page page s of
        Inl e \<Rightarrow> Some (Inl e)
      | Inr s' \<Rightarrow> if sn_gap s' \<or> length page < limit then Some (Inr s') else scan_pages read limit dbs s')"

section \<open>The service\<close>

type_synonym room_checkpoint = "int \<times> turns"

text \<open>The checkpoints of the rooms, the most recently stored last; the oldest fall out above the capacity.\<close>

type_synonym room_checkpoints = "(string \<times> room_checkpoint) list"

definition remember :: "nat \<Rightarrow> string \<Rightarrow> room_checkpoint \<Rightarrow> room_checkpoints \<Rightarrow> room_checkpoints" where
  "remember capacity room c cs =
    (let cs' = filter (\<lambda>x. fst x \<noteq> room) cs @ [(room, c)] in drop (length cs' - capacity) cs')"

definition scan_start :: "bool \<Rightarrow> room_checkpoint option \<Rightarrow> scan" where
  "scan_start force cached = (case (force, cached) of
     (False, Some (w, ts)) \<Rightarrow> \<lparr>sn_expected = w + 1, sn_folded_any = False, sn_gap = False, sn_turns = ts\<rparr>
   | _ \<Rightarrow> \<lparr>sn_expected = 1, sn_folded_any = False, sn_gap = False, sn_turns = []\<rparr>)"

text \<open>
  \<open>_snapshot_locked\<close>. \<open>before\<close> are the checkpoints when it starts, \<open>after\<close> those when it ends: snapshots of
  other rooms may have run in between. It answers the watermark and the turns, and never less than the
  checkpoint it found.
\<close>

definition snapshot_locked :: "nat \<Rightarrow> 'db reader \<Rightarrow> nat \<Rightarrow> string \<Rightarrow> bool \<Rightarrow> 'db list
    \<Rightarrow> room_checkpoints \<Rightarrow> room_checkpoints \<Rightarrow> ((snapshot_error + room_checkpoint) \<times> room_checkpoints) option" where
  "snapshot_locked capacity read limit room force dbs before after =
    (let cached = map_of before room in
     case scan_pages read limit dbs (scan_start force cached) of
       None \<Rightarrow> None
     | Some (Inl e) \<Rightarrow> Some (Inl e, after)
     | Some (Inr s) \<Rightarrow> (let watermark = sn_expected s - 1 in
         if cached \<noteq> None \<and> watermark < fst (the cached) then Some (Inr (the cached), after)
         else Some (Inr (watermark, sn_turns s),
           if force \<or> sn_folded_any s \<or> 0 < watermark
           then remember capacity room (watermark, sn_turns s) after else after)))"

section \<open>Folding a list of documents\<close>

lemma fold_page_append:
  "\<not> sn_gap s \<Longrightarrow> fold_page (xs @ ys) s = (case fold_page xs s of Inl e \<Rightarrow> Inl e
     | Inr s' \<Rightarrow> if sn_gap s' then Inr s' else fold_page ys s')"
  by (induction xs s rule: fold_page.induct) (auto split: sum.splits option.splits)

lemma fold_page_skips: "\<forall>d \<in> set xs. dc_room_seq d < sn_expected s \<Longrightarrow> fold_page (xs @ ys) s = fold_page ys s"
  by (induction xs) auto

text \<open>A run of consecutive numbers folds as the log of its records.\<close>

lemma fold_page_run:
  "map dc_room_seq ds = [sn_expected s..m] \<Longrightarrow> fold_log (List.map_filter logged_of ds) (sn_turns s) = Inr ts
     \<Longrightarrow> sn_expected s \<le> m + 1
     \<Longrightarrow> \<exists>a. fold_page ds s = Inr (s\<lparr>sn_expected := m + 1, sn_folded_any := a, sn_turns := ts\<rparr>)"
proof (induction ds arbitrary: s)
  case Nil
  then have "sn_expected s = m + 1" by simp
  with Nil show ?case by (auto simp: map_filter_simps intro!: exI [of _ "sn_folded_any s"])
next
  case (Cons d ds)
  from Cons.prems(1) have m: "sn_expected s \<le> m" by (cases "sn_expected s \<le> m") simp_all
  with Cons.prems(1) have e: "dc_room_seq d = sn_expected s" "map dc_room_seq ds = [sn_expected s + 1..m]"
    by (simp_all add: upto_rec1)
  show ?case
  proof (cases "logged_of d")
    case None
    have "\<exists>a. fold_page ds (s\<lparr>sn_expected := sn_expected s + 1\<rparr>) = Inr (s\<lparr>sn_expected := sn_expected s + 1\<rparr>
        \<lparr>sn_expected := m + 1, sn_folded_any := a, sn_turns := ts\<rparr>)"
      by (rule Cons.IH) (use e m None Cons.prems(2) in \<open>simp_all add: map_filter_simps\<close>)
    with e None show ?thesis by simp
  next
    case (Some l)
    with Cons.prems(2) obtain us where us: "apply_record l (sn_turns s) = Inr us"
      "fold_log (List.map_filter logged_of ds) us = Inr ts" by (auto simp: map_filter_simps split: sum.splits)
    let ?s = "s\<lparr>sn_expected := sn_expected s + 1, sn_folded_any := True, sn_turns := us\<rparr>"
    have "\<exists>a. fold_page ds ?s = Inr (?s\<lparr>sn_expected := m + 1, sn_folded_any := a, sn_turns := ts\<rparr>)"
      by (rule Cons.IH) (use e m us in simp_all)
    with e Some us(1) show ?thesis by simp
  qed
qed

text \<open>A log without a missing number is read to its end.\<close>

lemma fold_page_no_gap:
  "fold_page ds s = Inr s' \<Longrightarrow> map dc_room_seq ds = [sn_expected s..m] \<Longrightarrow> \<not> sn_gap s \<Longrightarrow> sn_expected s \<le> m + 1
     \<Longrightarrow> sn_expected s' = m + 1 \<and> \<not> sn_gap s'"
proof (induction ds s rule: fold_page.induct)
  case (2 d ds s)
  from "2.prems"(2) have m: "sn_expected s \<le> m" by (cases "sn_expected s \<le> m") simp_all
  with "2.prems"(2) have e: "dc_room_seq d = sn_expected s" "map dc_room_seq ds = [sn_expected s + 1..m]"
    by (simp_all add: upto_rec1)
  with 2 m show ?case by (auto split: option.splits sum.splits)
qed (auto simp: upto_Nil2)

text \<open>Whether a record was folded decides nothing else.\<close>

lemma fold_page_any:
  "map_sum id (\<lambda>s. (sn_expected s, sn_turns s)) (fold_page ds (s\<lparr>sn_folded_any := a\<rparr>))
     = map_sum id (\<lambda>s. (sn_expected s, sn_turns s)) (fold_page ds s)"
proof (induction ds arbitrary: s a)
  case (Cons d ds)
  have swap: "s\<lparr>sn_folded_any := a, sn_expected := e\<rparr> = s\<lparr>sn_expected := e, sn_folded_any := a\<rparr>" for e by simp
  from Cons.IH [of a "s\<lparr>sn_expected := sn_expected s + 1\<rparr>"] Cons.IH [of a s] show ?case
    by (auto simp: swap split: option.splits sum.splits)
qed simp

lemma last_below: "sorted_wrt (<) (map f (xs @ ys)) \<Longrightarrow> xs \<noteq> [] \<Longrightarrow> y \<in> set ys \<Longrightarrow> f (last xs) < (f y :: int)"
  by (simp add: sorted_wrt_append)

lemma filter_beyond:
  fixes g :: "'a \<Rightarrow> int"
  assumes "filter (\<lambda>d. j - 1 < g d) ds = xs @ ys" and "\<forall>x \<in> set xs. g x < k" and "\<forall>y \<in> set ys. k \<le> g y" and "j \<le> k"
  shows "filter (\<lambda>d. k - 1 < g d) ds = ys"
proof -
  have "filter (\<lambda>d. k - 1 < g d) ds = filter (\<lambda>d. k - 1 < g d) (filter (\<lambda>d. j - 1 < g d) ds)"
    using assms(4) by (auto intro: filter_cong)
  also have "\<dots> = filter (\<lambda>d. k - 1 < g d) xs @ filter (\<lambda>d. k - 1 < g d) ys" by (simp add: assms(1))
  also have "filter (\<lambda>d. k - 1 < g d) xs = []" using assms(2) by (auto simp: filter_empty_conv)
  also have "filter (\<lambda>d. k - 1 < g d) ys = ys" using assms(3) by (auto simp: filter_id_conv)
  finally show ?thesis by simp
qed

text \<open>A page folded without a gap is consecutive.\<close>

lemma fold_page_consecutive:
  "fold_page ds s = Inr s' \<Longrightarrow> \<not> sn_gap s' \<Longrightarrow> sorted_wrt (<) (map dc_room_seq ds)
     \<Longrightarrow> \<forall>d \<in> set ds. sn_expected s \<le> dc_room_seq d
     \<Longrightarrow> sn_expected s' = sn_expected s + int (length ds) \<and> (\<forall>d \<in> set ds. dc_room_seq d < sn_expected s')
       \<and> (ds \<noteq> [] \<longrightarrow> dc_room_seq (last ds) = sn_expected s' - 1)"
proof (induction ds arbitrary: s)
  case (Cons d ds)
  from Cons.prems have e: "dc_room_seq d = sn_expected s" by (auto split: if_splits)
  with Cons.prems(3) have above: "\<forall>x \<in> set ds. sn_expected s + 1 \<le> dc_room_seq x" by auto
  from Cons.prems(1) e obtain s1 where s1: "fold_page ds s1 = Inr s'" "sn_expected s1 = sn_expected s + 1"
    by (auto split: option.splits sum.splits)
  from Cons.IH [OF s1(1) Cons.prems(2)] Cons.prems(3) above s1(2) e show ?case
    by (cases ds) auto
qed simp

section \<open>What the service needs of a store\<close>

text \<open>
  A store reads the documents of a room in the order of their numbers, without gaps of its own: the page
  after a number is the beginning of what the room holds after it. \<open>docs\<close> is the log of the room, \<open>grows\<close>
  says that it was only appended to.
\<close>

locale room_store =
  fixes read :: "'db reader" and docs :: "'db \<Rightarrow> doc list" and good :: "'db \<Rightarrow> bool"
    and grows :: "'db \<Rightarrow> 'db \<Rightarrow> bool"
  assumes ordered: "good db \<Longrightarrow> sorted_wrt (<) (map dc_room_seq (docs db))"
    and positive: "good db \<Longrightarrow> d \<in> set (docs db) \<Longrightarrow> 1 \<le> dc_room_seq d"
    and reads: "good db \<Longrightarrow> read db after limit = take limit (filter (\<lambda>d. after < dc_room_seq d) (docs db))"
    and kept: "good db \<Longrightarrow> good db' \<Longrightarrow> grows db db' \<Longrightarrow> set (docs db) \<subseteq> set (docs db')"
begin

text \<open>The watermark \<open>n\<close> and the turns of a snapshot are right for a log: they are the fold of its numbers \<open>1..n\<close>.\<close>

definition prefix_fold :: "'db \<Rightarrow> int \<Rightarrow> turns \<Rightarrow> bool" where
  "prefix_fold db n ts \<longleftrightarrow> (\<exists>ds. set ds \<subseteq> set (docs db) \<and> map dc_room_seq ds = [1..n]
     \<and> fold_log (List.map_filter logged_of ds) [] = Inr ts)"

lemma prefix_grows: "good db \<Longrightarrow> good db' \<Longrightarrow> grows db db' \<Longrightarrow> prefix_fold db n ts \<Longrightarrow> prefix_fold db' n ts"
  using kept [of db db'] by (auto simp: prefix_fold_def)

lemma prefix_start: "prefix_fold db 0 []"
  by (auto simp: prefix_fold_def map_filter_simps intro!: exI [of _ "[]"])

lemma prefix_next:
  assumes "prefix_fold db n ts" and "d \<in> set (docs db)" and "dc_room_seq d = n + 1" and "0 \<le> n"
    and "case logged_of d of None \<Rightarrow> ts' = ts | Some l \<Rightarrow> apply_record l ts = Inr ts'"
  shows "prefix_fold db (n + 1) ts'"
proof -
  from assms(1) obtain ds where ds: "set ds \<subseteq> set (docs db)" "map dc_room_seq ds = [1..n]"
    "fold_log (List.map_filter logged_of ds) [] = Inr ts" by (auto simp: prefix_fold_def)
  have "fold_log (List.map_filter logged_of (ds @ [d])) [] = Inr ts'"
    using ds(3) assms(5)
    by (cases "logged_of d") (auto simp: map_filter_def fold_log_append)
  moreover have "[1..n + 1] = [1..n] @ [n + 1]" using assms(4) by (simp add: upto_rec2)
  ultimately show ?thesis using ds assms(2,3)
    by (auto simp: prefix_fold_def intro!: exI [of _ "ds @ [d]"])
qed

lemma fold_page_prefix:
  assumes "fold_page ds s = Inr s'" and "prefix_fold db (sn_expected s - 1) (sn_turns s)"
    and "set ds \<subseteq> set (docs db)" and "1 \<le> sn_expected s"
  shows "prefix_fold db (sn_expected s' - 1) (sn_turns s') \<and> sn_expected s \<le> sn_expected s'"
  using assms
proof (induction ds s rule: fold_page.induct)
  case (2 d ds s)
  consider "dc_room_seq d < sn_expected s" | "sn_expected s < dc_room_seq d" | "dc_room_seq d = sn_expected s"
    by linarith
  then show ?case
  proof cases
    case 1
    with 2(1) [OF 1] "2.prems" show ?thesis by simp
  next
    case g: 2
    with "2.prems" show ?thesis by auto
  next
    case e: 3
    show ?thesis
    proof (cases "logged_of d")
      case None
      have "prefix_fold db (sn_expected s - 1 + 1) (sn_turns s)"
        by (rule prefix_next [of _ _ _ d]) (use "2.prems" e None in auto)
      with 2(2) [OF _ _ None] "2.prems" e None show ?thesis by auto
    next
      case (Some l)
      with "2.prems" e obtain ts where ts: "apply_record l (sn_turns s) = Inr ts" by (auto split: sum.splits)
      have "prefix_fold db (sn_expected s - 1 + 1) ts"
        by (rule prefix_next [of _ _ _ d]) (use "2.prems" e Some ts in auto)
      with 2(3) [OF _ _ Some ts] "2.prems" e Some ts show ?thesis by auto
    qed
  qed
qed simp

text \<open>Pages read from a growing log fold a prefix of what it is in the end.\<close>

lemma pages_prefix:
  assumes "scan_pages read limit dbs s = Some (Inr s')" and "\<forall>x \<in> set dbs. good x \<and> grows x db \<and> good db"
    and "prefix_fold db (sn_expected s - 1) (sn_turns s)" and "1 \<le> sn_expected s"
  shows "prefix_fold db (sn_expected s' - 1) (sn_turns s') \<and> sn_expected s \<le> sn_expected s'"
  using assms
proof (induction dbs arbitrary: s)
  case (Cons x dbs)
  let ?page = "read x (sn_expected s - 1) limit"
  show ?case
  proof (cases "?page = []")
    case True
    with Cons.prems show ?thesis by simp
  next
    case False
    with Cons.prems(1) obtain s1 where s1: "fold_page ?page s = Inr s1"
      "scan_pages read limit dbs s1 = Some (Inr s') \<or> s' = s1"
      by (auto simp: Let_def split: sum.splits if_splits)
    have sub: "set ?page \<subseteq> set (docs db)"
      using Cons.prems(2) reads [of x] kept [of x db] by (auto dest!: in_set_takeD)
    from fold_page_prefix [OF s1(1) Cons.prems(3) sub Cons.prems(4)] have p:
      "prefix_fold db (sn_expected s1 - 1) (sn_turns s1)" "sn_expected s \<le> sn_expected s1" by blast+
    with s1(2) Cons.IH [of s1] Cons.prems(2,4) show ?thesis by auto
  qed
qed simp

text \<open>The numbers up to the watermark of a right snapshot are the beginning of the log.\<close>

lemma ordered_split:
  "sorted_wrt (<) (map f xs) \<Longrightarrow> xs = filter (\<lambda>x. f x \<le> (w :: int)) xs @ filter (\<lambda>x. w < f x) xs"
proof (induction xs)
  case (Cons x xs)
  show ?case
  proof (cases "f x \<le> w")
    case False
    with Cons.prems have "\<forall>y \<in> set xs. w < f y" by auto
    with False show ?thesis by (auto simp: filter_empty_conv filter_id_conv)
  qed (use Cons in simp)
qed simp

lemma prefix_docs:
  assumes "good db" and "set ds \<subseteq> set (docs db)" and "map dc_room_seq ds = [1..n]"
  shows "docs db = ds @ filter (\<lambda>d. n < dc_room_seq d) (docs db)"
proof -
  let ?low = "filter (\<lambda>d. dc_room_seq d \<le> n) (docs db)"
  from ordered [OF assms(1)] have o: "sorted_wrt (<) (map dc_room_seq (docs db))" .
  then have inj: "inj_on dc_room_seq (set (docs db))" by (simp add: strict_sorted_iff distinct_map)
  have "dc_room_seq ` set ?low = {1..n}"
  proof (intro equalityI subsetI)
    fix m assume "m \<in> {1..n}"
    with assms(3) have "m \<in> dc_room_seq ` set ds" by (metis set_upto list.set_map)
    with assms(2) \<open>m \<in> {1..n}\<close> show "m \<in> dc_room_seq ` set ?low" by auto
  qed (use positive [OF assms(1)] in auto)
  moreover have "sorted_wrt (<) (map dc_room_seq ?low)" using o by (simp add: sorted_wrt_map sorted_wrt_filter)
  ultimately have "map dc_room_seq ?low = [1..n]"
    by (intro sorted_distinct_set_unique) (simp_all add: strict_sorted_iff)
  with assms(3) have "map dc_room_seq ?low = map dc_room_seq ds" by simp
  moreover have "inj_on dc_room_seq (set ?low \<union> set ds)" using inj by (rule inj_on_subset) (use assms(2) in auto)
  ultimately have "?low = ds" by (simp add: map_inj_on)
  with ordered_split [OF o, of n] show ?thesis by simp
qed

text \<open>Reading by pages is reading at once, whatever the limit; enough reads always finish.\<close>

lemma paging_is_invisible:
  assumes "good db" and "0 < limit" and "\<not> sn_gap s"
    and "length (filter (\<lambda>d. sn_expected s - 1 < dc_room_seq d) (docs db)) < n"
  shows "scan_pages read limit (replicate n db) s = Some (fold_page (docs db) s)"
  using assms(3,4)
proof (induction n arbitrary: s)
  case (Suc n)
  let ?rest = "\<lambda>k. filter (\<lambda>d. k - 1 < dc_room_seq d) (docs db)"
  let ?page = "take limit (?rest (sn_expected s))" and ?more = "drop limit (?rest (sn_expected s))"
  note o = ordered [OF assms(1)]
  have low: "fold_page (docs db) u = fold_page (?rest (sn_expected u)) u" for u
    by (subst ordered_split [OF o, of "sn_expected u - 1"]) (rule fold_page_skips, auto)
  have page: "read db (sn_expected s - 1) limit = ?page" by (rule reads [OF assms(1)])
  have all: "fold_page (docs db) s = (case fold_page ?page s of Inl e \<Rightarrow> Inl e
      | Inr s' \<Rightarrow> if sn_gap s' then Inr s' else fold_page ?more s')"
    unfolding low [of s] by (subst fold_page_append [OF Suc.prems(1), symmetric]) simp
  show ?case
  proof (cases "?page = []")
    case True
    with assms(2) have "?rest (sn_expected s) = []" by auto
    with True page low [of s] show ?thesis by simp
  next
    case ne: False
    show ?thesis
    proof (cases "fold_page ?page s")
      case (Inl e)
      with ne page all show ?thesis by simp
    next
      case (Inr s')
      consider "sn_gap s'" | "\<not> sn_gap s'" "length ?page < limit" | "\<not> sn_gap s'" "\<not> length ?page < limit" by blast
      then show ?thesis
      proof cases
        case 1
        with ne page all Inr show ?thesis by simp
      next
        case 2
        then have short: "length (?rest (sn_expected s)) < limit" by (simp add: min_def split: if_splits)
        with 2 ne page all Inr show ?thesis by simp
      next
        case 3
        have po: "sorted_wrt (<) (map dc_room_seq (?page @ ?more))"
          using o by (simp add: sorted_wrt_map sorted_wrt_filter)
        have above: "\<forall>d \<in> set ?page. sn_expected s \<le> dc_room_seq d" by (auto dest: in_set_takeD)
        have "sorted_wrt (<) (map dc_room_seq ?page)" using po by (simp only: map_append sorted_wrt_append)
        note c = fold_page_consecutive [OF Inr 3(1) this above]
        have beyond: "\<forall>d \<in> set ?more. sn_expected s' \<le> dc_room_seq d"
        proof
          fix d assume "d \<in> set ?more"
          with last_below [OF po ne] have "dc_room_seq (last ?page) < dc_room_seq d" by blast
          with c ne show "sn_expected s' \<le> dc_room_seq d" by simp
        qed
        have more: "?rest (sn_expected s') = ?more"
        proof (rule filter_beyond [of "sn_expected s" _ _ ?page])
          show "\<forall>d \<in> set ?page. dc_room_seq d < sn_expected s'" using c by blast
          show "sn_expected s \<le> sn_expected s'" using c by simp
        qed (use beyond in simp_all)
        have "0 < length (?rest (sn_expected s))" using ne by (metis length_greater_0_conv take_Nil)
        then have "length ?more < n" using Suc.prems(2) assms(2) unfolding length_drop by linarith
        then have "scan_pages read limit (replicate n db) s' = Some (fold_page (docs db) s')"
          by (intro Suc.IH 3(1)) (simp only: more)
        with 3 ne page all Inr low [of s'] more show ?thesis by simp
      qed
    qed
  qed
qed simp

text \<open>Continuing from a right checkpoint answers what folding everything again answers.\<close>

lemma incremental_is_refold:
  assumes "good db" and "prefix_fold db w ts" and "0 \<le> w"
  shows "map_sum id (\<lambda>s. (sn_expected s, sn_turns s))
      (fold_page (docs db) \<lparr>sn_expected = w + 1, sn_folded_any = False, sn_gap = False, sn_turns = ts\<rparr>)
    = map_sum id (\<lambda>s. (sn_expected s, sn_turns s))
      (fold_page (docs db) \<lparr>sn_expected = 1, sn_folded_any = False, sn_gap = False, sn_turns = []\<rparr>)"
proof -
  let ?rest = "filter (\<lambda>d. w < dc_room_seq d) (docs db)"
  from assms(2) obtain ds where ds: "set ds \<subseteq> set (docs db)" "map dc_room_seq ds = [1..w]"
    "fold_log (List.map_filter logged_of ds) [] = Inr ts" by (auto simp: prefix_fold_def)
  have split: "docs db = ds @ ?rest" by (rule prefix_docs [OF assms(1) ds(1,2)])
  let ?zero = "\<lparr>sn_expected = 1, sn_folded_any = False, sn_gap = False, sn_turns = []\<rparr>"
  have "\<exists>a. fold_page ds ?zero = Inr (?zero\<lparr>sn_expected := w + 1, sn_folded_any := a, sn_turns := ts\<rparr>)"
    by (rule fold_page_run) (use ds assms(3) in simp_all)
  then obtain a where "fold_page ds ?zero = Inr \<lparr>sn_expected = w + 1, sn_folded_any = a, sn_gap = False, sn_turns = ts\<rparr>"
    by auto
  then have zero: "fold_page (docs db) ?zero
      = fold_page ?rest \<lparr>sn_expected = w + 1, sn_folded_any = a, sn_gap = False, sn_turns = ts\<rparr>"
    by (subst split) (simp add: fold_page_append)
  have below: "dc_room_seq d < w + 1" if "d \<in> set ds" for d
  proof -
    from that have "dc_room_seq d \<in> set (map dc_room_seq ds)" by simp
    then show ?thesis unfolding ds(2) by simp
  qed
  then have "fold_page (docs db) \<lparr>sn_expected = w + 1, sn_folded_any = False, sn_gap = False, sn_turns = ts\<rparr>
      = fold_page ?rest \<lparr>sn_expected = w + 1, sn_folded_any = False, sn_gap = False, sn_turns = ts\<rparr>"
    by (subst split) (rule fold_page_skips, simp)
  with zero fold_page_any [of ?rest a "\<lparr>sn_expected = w + 1, sn_folded_any = False, sn_gap = False, sn_turns = ts\<rparr>"]
  show ?thesis by simp
qed

end

end
