(* ===== verification/Snapshot_Properties.thy ===== *)
theory Snapshot_Properties
  imports Room_Snapshot
begin

text \<open>
  The Mongo log is a store the snapshot service can rely on, so the facts about such stores hold of the
  service over it: a snapshot is the fold of a prefix of the log and never older than the checkpoint, a
  checkpoint changes what is read but not what is answered, and in a quiescent room a snapshot that
  succeeds is complete.
\<close>

section \<open>The Mongo log as a store\<close>

definition log_docs :: "string \<Rightarrow> room_db \<Rightarrow> doc list" where
  "log_docs room db = sort_key dc_room_seq (filter (\<lambda>d. dc_room d = room) (rd_events db))"

definition log_ok :: "room_db \<Rightarrow> bool" where
  "log_ok db \<longleftrightarrow> sorted_wrt (\<lambda>d e. \<not> collides d e) (rd_events db) \<and> (\<forall>d \<in> set (rd_events db). 1 \<le> dc_room_seq d)"

lemma db_ok_log: "db_ok home db \<Longrightarrow> log_ok db"
  by (simp add: db_ok_def log_ok_def)

lemma set_log_docs [simp]: "set (log_docs room db) = {d \<in> set (rd_events db). dc_room d = room}"
  by (auto simp: log_docs_def)

lemma log_docs_ordered: "log_ok db \<Longrightarrow> sorted_wrt (<) (map dc_room_seq (log_docs room db))"
  using distinct_numbers [of "rd_events db" room "\<lambda>_. True"]
  by (auto simp: log_ok_def log_docs_def strict_sorted_iff distinct_map)

interpretation mongo: room_store "read_range room True" "log_docs room" log_ok db_le for room
proof (unfold_locales, goal_cases)
  case (1 db)
  then show ?case by (rule log_docs_ordered)
next
  case (2 db d)
  then show ?case by (simp add: log_ok_def)
next
  case (3 db after limit)
  show ?case by (simp add: read_range_def log_docs_def filter_sort conj_commute)
next
  case (4 db db')
  then show ?case using db_le_events by auto
qed

section \<open>Right snapshots\<close>

text \<open>A watermark and turns are right for a log: they are the fold of the room's documents \<open>1..watermark\<close>.\<close>

definition snapshot_right :: "string \<Rightarrow> room_db \<Rightarrow> room_checkpoint \<Rightarrow> bool" where
  "snapshot_right room db c \<longleftrightarrow> 0 \<le> fst c \<and> (\<exists>ds. (\<forall>d \<in> set ds. d \<in> set (rd_events db) \<and> dc_room d = room)
     \<and> map dc_room_seq ds = [1..fst c] \<and> fold_log (List.map_filter logged_of ds) [] = Inr (snd c))"

definition checkpoints_right :: "room_db \<Rightarrow> room_checkpoints \<Rightarrow> bool" where
  "checkpoints_right db cs \<longleftrightarrow> (\<forall>(room, c) \<in> set cs. snapshot_right room db c)"

lemma snapshot_right_prefix: "snapshot_right room db c \<longleftrightarrow> 0 \<le> fst c \<and> mongo.prefix_fold room db (fst c) (snd c)"
  by (auto simp: snapshot_right_def mongo.prefix_fold_def subset_iff)

lemma checkpoint_right: "checkpoints_right db cs \<Longrightarrow> map_of cs room = Some c \<Longrightarrow> snapshot_right room db c"
  by (auto simp: checkpoints_right_def dest!: map_of_SomeD)

lemma remember_right:
  "checkpoints_right db cs \<Longrightarrow> snapshot_right room db c \<Longrightarrow> checkpoints_right db (remember capacity room c cs)"
  by (auto simp: checkpoints_right_def remember_def Let_def dest!: in_set_dropD)

lemma checkpoints_grow:
  "log_ok db \<Longrightarrow> log_ok db' \<Longrightarrow> db_le db db' \<Longrightarrow> checkpoints_right db cs \<Longrightarrow> checkpoints_right db' cs"
  using mongo.prefix_grows by (fastforce simp: checkpoints_right_def snapshot_right_prefix)

text \<open>Every scan starts from something right.\<close>

lemma start_right:
  assumes "checkpoints_right db cs"
  shows "mongo.prefix_fold room db (sn_expected (scan_start force (map_of cs room)) - 1)
      (sn_turns (scan_start force (map_of cs room)))
    \<and> 1 \<le> sn_expected (scan_start force (map_of cs room)) \<and> \<not> sn_gap (scan_start force (map_of cs room))"
proof (cases "map_of cs room")
  case None
  with mongo.prefix_start show ?thesis by (simp add: scan_start_def split: bool.splits)
next
  case (Some c)
  from checkpoint_right [OF assms Some] mongo.prefix_start [of room db] Some show ?thesis
    by (cases c) (auto simp: scan_start_def snapshot_right_prefix split: bool.splits)
qed

text \<open>
  C16: A snapshot is the fold of the room's log from 1 to its watermark, whatever is appended between the pages it reads, never below the checkpoint it found, and it leaves right checkpoints behind.\<close>

theorem snapshot_folds_a_prefix:
  assumes "snapshot_locked capacity (read_range room True) limit room force dbs before after = Some (Inr c, cs)"
    and "\<forall>x \<in> set dbs. log_ok x \<and> db_le x db" and "log_ok db"
    and "checkpoints_right db before" and "checkpoints_right db after"
  shows "snapshot_right room db c \<and> checkpoints_right db cs
    \<and> (\<forall>old. map_of before room = Some old \<longrightarrow> fst old \<le> fst c)"
proof -
  let ?start = "scan_start force (map_of before room)"
  from assms(1) obtain s where s: "scan_pages (read_range room True) limit dbs ?start = Some (Inr s)"
    by (auto simp: snapshot_locked_def Let_def split: option.splits sum.splits if_splits)
  have "mongo.prefix_fold room db (sn_expected s - 1) (sn_turns s) \<and> sn_expected ?start \<le> sn_expected s"
    by (rule mongo.pages_prefix [OF s]) (use assms(2,3) start_right [OF assms(4)] in auto)
  with start_right [OF assms(4), of room force] have r: "snapshot_right room db (sn_expected s - 1, sn_turns s)"
    by (simp add: snapshot_right_prefix)
  show ?thesis
  proof (cases "map_of before room \<noteq> None \<and> sn_expected s - 1 < fst (the (map_of before room))")
    case True
    with assms(1) s have "Some c = map_of before room \<and> cs = after" by (auto simp: snapshot_locked_def Let_def)
    with checkpoint_right [OF assms(4)] assms(5) show ?thesis by auto
  next
    case False
    with assms(1) s have c: "c = (sn_expected s - 1, sn_turns s)"
      and cs: "cs = after \<or> cs = remember capacity room c after"
      by (auto simp: snapshot_locked_def Let_def split: if_splits)
    have "checkpoints_right db cs"
      using cs assms(5) remember_right [OF assms(5), of room c capacity] r c by blast
    moreover from False c have "fst old \<le> fst c" if "map_of before room = Some old" for old using that by simp
    ultimately show ?thesis using r c by blast
  qed
qed

section \<open>Checkpoints decide nothing\<close>

text \<open>The answer of a service over a store that does not change meanwhile is its one unpaged fold.\<close>

definition answer_of :: "(snapshot_error + scan) \<Rightarrow> snapshot_error + room_checkpoint" where
  "answer_of r = map_sum id (\<lambda>s. (sn_expected s - 1, sn_turns s)) r"

definition refold :: "string \<Rightarrow> room_db \<Rightarrow> snapshot_error + room_checkpoint" where
  "refold room db = answer_of (fold_page (log_docs room db)
     \<lparr>sn_expected = 1, sn_folded_any = False, sn_gap = False, sn_turns = []\<rparr>)"

lemma answer_of_eq:
  "map_sum id (\<lambda>s. (sn_expected s, sn_turns s)) r = map_sum id (\<lambda>s. (sn_expected s, sn_turns s)) r' \<Longrightarrow>
     answer_of r = answer_of r'"
  by (cases r; cases r') (auto simp: answer_of_def)

lemma start_refold:
  assumes "log_ok db" and "checkpoints_right db cs"
  shows "answer_of (fold_page (log_docs room db) (scan_start force (map_of cs room))) = refold room db"
proof (cases "force \<or> map_of cs room = None")
  case True
  then show ?thesis by (cases "map_of cs room"; cases force) (auto simp: scan_start_def refold_def)
next
  case False
  then obtain w ts where c: "map_of cs room = Some (w, ts)" by auto
  from checkpoint_right [OF assms(2) c] have p: "mongo.prefix_fold room db w ts" "0 \<le> w"
    by (simp_all add: snapshot_right_prefix)
  have "scan_start force (map_of cs room) = \<lparr>sn_expected = w + 1, sn_folded_any = False, sn_gap = False, sn_turns = ts\<rparr>"
    using False c by (simp add: scan_start_def)
  then show ?thesis unfolding refold_def
    by (simp only: answer_of_eq [OF mongo.incremental_is_refold [OF assms(1) p]])
qed

text \<open>A right checkpoint is never ahead of a refold.\<close>

lemma refold_reaches:
  assumes "log_ok db" and "checkpoints_right db cs" and "map_of cs room = Some c" and "refold room db = Inr r"
  shows "fst c \<le> fst r"
proof -
  let ?s = "scan_start False (map_of cs room)"
  from start_refold [OF assms(1,2), of room False] assms(4) obtain s where
    s: "fold_page (log_docs room db) ?s = Inr s" "r = (sn_expected s - 1, sn_turns s)"
    by (auto simp: answer_of_def map_sum_def split: sum.splits)
  from start_right [OF assms(2), of room False] mongo.fold_page_prefix [OF s(1)]
  have "sn_expected ?s \<le> sn_expected s" by auto
  with s(2) assms(3) show ?thesis by (cases c) (simp add: scan_start_def)
qed

text \<open>
  C15: The incremental snapshot is the full one: over a log that does not change while it is read, a snapshot answers the fold of the whole log up to its first missing number, error or not, whether it starts from a checkpoint or is forced to fold everything again, whatever the page size, and it always answers.\<close>

theorem incremental_snapshot_is_refold:
  assumes "log_ok db" and "0 < limit" and "length (rd_events db) < n"
    and "checkpoints_right db before"
  shows "map_option fst (snapshot_locked capacity (read_range room True) limit room force (replicate n db) before after)
    = Some (refold room db)"
proof -
  let ?s = "scan_start force (map_of before room)"
  have "length (filter (\<lambda>d. sn_expected ?s - 1 < dc_room_seq d) (log_docs room db)) < n"
    using assms(3) by (intro le_less_trans [OF length_filter_le]) (simp add: log_docs_def le_less_trans [OF length_filter_le])
  from mongo.paging_is_invisible [OF assms(1,2) _ this] start_right [OF assms(4)]
  have s: "scan_pages (read_range room True) limit (replicate n db) ?s = Some (fold_page (log_docs room db) ?s)" by blast
  note r = start_refold [OF assms(1,4), of room force]
  show ?thesis
  proof (cases "fold_page (log_docs room db) ?s")
    case (Inl e)
    with s r show ?thesis by (simp add: snapshot_locked_def answer_of_def)
  next
    case (Inr t)
    with r have t: "refold room db = Inr (sn_expected t - 1, sn_turns t)" by (simp add: answer_of_def)
    have "\<not> (map_of before room \<noteq> None \<and> sn_expected t - 1 < fst (the (map_of before room)))"
      using refold_reaches [OF assms(1,4) _ t] by auto
    with s Inr t show ?thesis by (auto simp: snapshot_locked_def Let_def)
  qed
qed

text \<open>
  C17: In a quiescent room a snapshot that succeeds is complete: when every append has returned and no writer died, its watermark is the latest number of the room.\<close>

theorem quiescent_snapshot_is_complete:
  assumes "log_reachable grace home False s"
    and "\<forall>w \<in> set (ls_writers s). wr_room w = room \<longrightarrow> wr_phase w = Failed \<or> (\<exists>m p. wr_phase w = Appended m p)"
    and "refold room (ls_db s) = Inr c"
  shows "fst c = latest_seq room (ls_db s)"
proof -
  let ?db = "ls_db s" and ?n = "latest_seq room (ls_db s)"
  have ok: "db_ok home ?db" using log_reachable_ok [OF assms(1)] by (simp add: system_ok_def)
  have o: "sorted_wrt (<) (map dc_room_seq (log_docs room ?db))" by (rule log_docs_ordered [OF db_ok_log [OF ok]])
  have hole: "\<exists>d \<in> set (rd_events ?db). dc_room d = room \<and> dc_room_seq d = m" if "1 \<le> m" "m \<le> ?n" for m
    using quiescent_present [OF assms(1) that assms(2)] by (auto simp: present_def)
  have range: "dc_room_seq d \<le> ?n \<and> 1 \<le> dc_room_seq d" if "d \<in> set (rd_events ?db)" "dc_room d = room" for d
    using ok that by (auto simp: db_ok_def latest_seq_def)
  have "set (map dc_room_seq (log_docs room ?db)) = set [1..?n]"
  proof (intro equalityI subsetI)
    fix m assume "m \<in> set [1..?n]"
    with hole [of m] show "m \<in> set (map dc_room_seq (log_docs room ?db))" by (auto intro: rev_image_eqI)
  qed (use range in auto)
  with o have "map dc_room_seq (log_docs room ?db) = [1..?n]"
    by (intro sorted_distinct_set_unique) (simp_all add: strict_sorted_iff)
  moreover have "0 \<le> ?n" using ok by (simp add: db_ok_def latest_seq_def)
  moreover from assms(3) obtain t where "fold_page (log_docs room ?db)
      \<lparr>sn_expected = 1, sn_folded_any = False, sn_gap = False, sn_turns = []\<rparr> = Inr t" "fst c = sn_expected t - 1"
    by (auto simp: refold_def answer_of_def map_sum_def split: sum.splits)
  ultimately show ?thesis using fold_page_no_gap by fastforce
qed

end
