(* ===== verification/Turn_Text.thy ===== *)
theory Turn_Text
  imports Turn_Steps
begin

text \<open>
  The text of a message while it streams. Between the start of a message and its end, the Turn shows
  the concatenation of the deltas that the log holds for the run, whatever else the log holds in
  between; the end of the message is accepted only with that text.
\<close>

section \<open>What the log says\<close>

definition run_payload :: "string \<Rightarrow> logged \<Rightarrow> canonical_payload option" where
  "run_payload run l = (case lg_record l of
     RecRunEvent e \<Rightarrow> if rv_run_id e = run then Some (rv_payload e) else None | _ \<Rightarrow> None)"

definition delta_in :: "string \<Rightarrow> logged \<Rightarrow> string list" where
  "delta_in run l = (case run_payload run l of
     Some (MessageUpdate p) \<Rightarrow> [ptd_delta (pmu_event p)] | _ \<Rightarrow> [])"

definition streamed :: "string \<Rightarrow> logged list \<Rightarrow> string list" where
  "streamed run ls = concat (map (delta_in run) ls)"

definition ends_message :: "string \<Rightarrow> logged \<Rightarrow> bool" where
  "ends_message run l \<longleftrightarrow> (case run_payload run l of Some (MessageEnd p) \<Rightarrow> True | _ \<Rightarrow> False)"

lemma streamed_simps [simp]:
  "streamed run [] = []" "streamed run (l # ls) = delta_in run l @ streamed run ls"
  by (simp_all add: streamed_def)

section \<open>The assistant of a Turn\<close>

lemma current_kept [simp]:
  "tn_current_assistant (change_internal i f t) = tn_current_assistant t"
  "tn_current_assistant (change_tool c g t) = tn_current_assistant t"
  "tn_current_assistant (change_interaction x h t) = tn_current_assistant t"
  "tn_current_assistant (add_agent_call m t) = tn_current_assistant t"
  "tn_current_assistant (commit_final a t) = tn_current_assistant t"
  by (auto simp: change_internal_def change_tool_def change_interaction_def add_agent_call_def
      commit_final_def split: option.splits)

lemma asked_current: "ask s q t = Inr t' \<Longrightarrow> tn_current_assistant t' = tn_current_assistant t"
  by (auto simp: ask_def Let_def split: option.splits if_splits)

lemma answered_current: "answer r t = Inr t' \<Longrightarrow> tn_current_assistant t' = tn_current_assistant t"
  by (auto simp: answer_def Let_def split: option.splits if_splits)

text \<open>No event but those of the message itself touches it.\<close>

fun message_event :: "canonical_payload \<Rightarrow> bool" where
  "message_event (MessageStart _) = True"
| "message_event (MessageUpdate _) = True"
| "message_event (MessageEnd _) = True"
| "message_event _ = False"

lemma handled_current:
  "handled seq event pl t = Inr t' \<Longrightarrow> \<not> message_event pl \<Longrightarrow> tn_current_assistant t' = tn_current_assistant t"
  by (cases pl)
    (auto simp: handled_def child_event_def start_turn_def wait_input_def resume_def settle_turn_def start_tool_def
      update_tool_def end_tool_def decide_def retry_def end_turn_def split: option.splits if_splits)

text \<open>The assistant after more deltas: the same message, the text grown by them, one index for each.\<close>

definition grown :: "assistant \<Rightarrow> string list \<Rightarrow> assistant \<Rightarrow> bool" where
  "grown a ds b \<longleftrightarrow> as_message_id b = as_message_id a \<and> as_text b = as_text a @ concat ds
     \<and> as_next_delta_index b = as_next_delta_index a + int (length ds)
     \<and> as_end_offset b = as_end_offset a + int (length (concat ds))"

lemma grown_refl [simp]: "grown a [] a"
  by (simp add: grown_def)

lemma grown_trans: "grown a xs b \<Longrightarrow> grown b ys c \<Longrightarrow> grown a (xs @ ys) c"
  by (simp add: grown_def)

lemma delta_in_event:
  "lg_record l = RecRunEvent e \<Longrightarrow> rv_run_id e = run \<Longrightarrow> run_payload run l = Some (rv_payload e)"
  by (simp add: run_payload_def)

lemma delta_in_other:
  "\<forall>e. lg_record l = RecRunEvent e \<longrightarrow> rv_run_id e \<noteq> run \<Longrightarrow> delta_in run l = []"
  by (auto simp: delta_in_def run_payload_def split: room_record.splits)

lemma handled_grows:
  assumes h: "handled seq event pl t = Inr t'" and a: "tn_current_assistant t = Some a"
    and "\<And>p. pl \<noteq> MessageEnd p"
  shows "\<exists>b. tn_current_assistant t' = Some b
    \<and> grown a (case pl of MessageUpdate p \<Rightarrow> [ptd_delta (pmu_event p)] | _ \<Rightarrow> []) b"
proof (cases "message_event pl")
  case False
  with handled_current [OF h] a show ?thesis by (cases pl) auto
next
  case True
  with h a assms(3) show ?thesis
    by (cases pl) (auto simp: handled_def child_event_def start_message_def update_message_def delta_follows_def
        append_delta_def grown_def split: option.splits)
qed

lemma step_grows:
  assumes "turn_step run l t t'" and "tn_current_assistant t = Some a" and "\<not> ends_message run l"
  shows "\<exists>b. tn_current_assistant t' = Some b \<and> grown a (delta_in run l) b"
  using assms
proof (induction rule: turn_step.induct)
  case (step_event e t t')
  then have p: "run_payload run l = Some (rv_payload e)" by (simp add: run_payload_def)
  from step_event have h: "handled (lg_room_seq l) (rv_event_id e) (rv_payload e) t = Inr t'"
    by (simp add: fold_event_Inr)
  from p step_event.prems(2) have "\<And>q. rv_payload e \<noteq> MessageEnd q" by (auto simp: ends_message_def)
  from handled_grows [OF h step_event.prems(1) this] p show ?case
    by (simp add: delta_in_def split: canonical_payload.splits)
qed (auto simp: delta_in_other asked_current answered_current)

lemma path_grows:
  "turn_path run ls t u \<Longrightarrow> tn_current_assistant t = Some a \<Longrightarrow> \<forall>l \<in> set ls. \<not> ends_message run l
     \<Longrightarrow> \<exists>b. tn_current_assistant u = Some b \<and> grown a (streamed run ls) b"
proof (induction arbitrary: a rule: turn_path.induct)
  case (path_step l t u ls v)
  from step_grows [OF path_step.hyps(1) path_step.prems(1)] path_step.prems(2)
  obtain b where b: "tn_current_assistant u = Some b" "grown a (delta_in run l) b" by auto
  from path_step.IH [OF b(1)] path_step.prems(2)
  obtain c where c: "tn_current_assistant v = Some c" "grown b (streamed run ls) c" by auto
  from c(1) grown_trans [OF b(2) c(2)] show ?case by auto
qed simp

section \<open>From the start of a message to its end\<close>

lemma accepted_event:
  assumes "apply_record l ts = Inr us" and "run_payload run l = Some pl" and "map_of ts run = Some t"
    and "\<And>p. pl \<noteq> RunStarted p"
  shows "\<exists>ev t'. map_of us run = Some t' \<and> handled (lg_room_seq l) ev pl t = Inr t'"
proof -
  from assms(2) obtain e where e: "lg_record l = RecRunEvent e" "rv_run_id e = run" "pl = rv_payload e"
    by (auto simp: run_payload_def split: room_record.splits if_splits)
  with assms(1) have "fold_canonical_turn (lg_room_seq l) e ts = Inr us"
    by (auto simp: apply_record_def fold_run_event_def split: if_splits)
  from canonical_step [OF this assms(3)] e show ?thesis by (auto simp: fold_event_Inr)
qed

lemma started_message:
  assumes "apply_record l ts = Inr us" and "run_payload run l = Some (MessageStart p)" and "map_of ts run = Some t"
  shows "\<exists>t' a. map_of us run = Some t' \<and> tn_current_assistant t' = Some a
    \<and> as_message_id a = pms_message_id p \<and> as_text a = [] \<and> as_next_delta_index a = 0"
  using accepted_event [OF assms]
  by (auto simp: handled_def child_event_def start_message_def split: option.splits)

lemma ended_message:
  assumes "apply_record l ts = Inr us" and "run_payload run l = Some (MessageEnd q)" and "map_of ts run = Some t"
    and "tn_current_assistant t = Some a"
  shows "as_message_id a = pme_message_id q \<and> (0 < as_next_delta_index a \<longrightarrow> pme_text q = as_text a)
    \<and> (\<exists>u. map_of us run = Some u \<and> tn_current_assistant u = None \<and> (pme_disposition q = MdFinal \<longrightarrow>
        (\<exists>f. tn_final_answer u = Some f \<and> fa_message_id f = as_message_id a \<and> fa_text f = pme_text q)))"
  using accepted_event [OF assms(1-3)] assms(4)
  by (auto simp: handled_def child_event_def end_message_def split: option.splits if_splits)

text \<open>
  C12: The text a client assembled while a message streamed is the text of the message: between its accepted start and its accepted end, with any other records of the room in between, the deltas of the run concatenate to the terminal text, and a final message becomes the final answer with that text.\<close>

theorem streamed_text_is_the_message:
  assumes "fold_log (s # ls @ [e]) ts = Inr us" and "map_of ts run = Some t"
    and "run_payload run s = Some (MessageStart p)" and "run_payload run e = Some (MessageEnd q)"
    and "\<forall>l \<in> set ls. \<not> ends_message run l" and "streamed run ls \<noteq> []"
  shows "pme_message_id q = pms_message_id p \<and> pme_text q = concat (streamed run ls)
    \<and> (pme_disposition q = MdFinal \<longrightarrow> (\<exists>u f. map_of us run = Some u \<and> tn_final_answer u = Some f
        \<and> fa_message_id f = pms_message_id p \<and> fa_text f = concat (streamed run ls)))"
proof -
  from assms(1) obtain xs ys where x: "apply_record s ts = Inr xs" and y: "fold_log ls xs = Inr ys"
    and z: "apply_record e ys = Inr us"
    by (auto simp: fold_log_append split: sum.splits)
  from started_message [OF x assms(3,2)] obtain t1 a where t1: "map_of xs run = Some t1"
    "tn_current_assistant t1 = Some a" "as_message_id a = pms_message_id p" "as_text a = []"
    "as_next_delta_index a = 0" by blast
  from log_path [OF y t1(1)] obtain t2 where t2: "map_of ys run = Some t2" "turn_path run ls t1 t2" by blast
  from path_grows [OF t2(2) t1(2) assms(5)] obtain b
    where b: "tn_current_assistant t2 = Some b" "grown a (streamed run ls) b" by blast
  from b(2) t1(3-5) assms(6) have "as_message_id b = pms_message_id p" "as_text b = concat (streamed run ls)"
    "0 < as_next_delta_index b" by (auto simp: grown_def)
  with ended_message [OF z assms(4) t2(1) b(1)] show ?thesis by auto
qed

text \<open>
  A message end whose text is not the text assembled from its deltas is not folded: the snapshot raises instead of showing either text.\<close>

theorem contradicting_end_raises:
  assumes "map_of ts run = Some t" and "tn_current_assistant t = Some a" and "0 < as_next_delta_index a"
    and "lg_record l = RecRunEvent e" and "rv_run_id e = run" and "rv_payload e = MessageEnd q"
    and "run_event_error e = None" and "rv_correlation_id e = Some (tn_client_request_id t)"
    and "pme_message_id q = as_message_id a" and "pme_text q \<noteq> as_text a"
    and "\<not> settled t" and "tn_final_answer t = None" and "internal_of (pme_internal_turn_id q) t \<noteq> None"
  shows "apply_record l ts = Inl (Raised ''canonical message_end contradicts assembled durable deltas'')"
  using assms
  by (auto simp: apply_record_def fold_run_event_def fold_canonical_turn_def fold_event_def child_event_def
      end_message_def put_turn_def)

end
