(* ===== verification/Room_Samples.thy ===== *)
theory Room_Samples
  imports Snapshot_Properties Turn_Text
begin

text \<open>
  A small room evaluated by the simplifier: one Turn whose answer streams in two deltas, and a log with
  two fallback writers, the first of which dies holding number 1. The properties of the Turn fold, of
  the room log and of the snapshot service are applied to them.
\<close>

section \<open>A Turn\<close>

definition canonical_event :: "int \<Rightarrow> canonical_payload \<Rightarrow> logged" where
  "canonical_event n p = \<lparr>lg_room_seq = n, lg_stamp = ''t'', lg_record = RecRunEvent \<lparr>rv_event_id = ''e'' @ show_int n,
     rv_run_id = ''run'', rv_seq = n, rv_payload = p, rv_correlation_id = Some ''req''\<rparr>\<rparr>"

definition sample_delta :: "int \<Rightarrow> int \<Rightarrow> string \<Rightarrow> canonical_payload" where
  "sample_delta i k s = MessageUpdate \<lparr>pmu_internal_turn_id = ''it'', pmu_message_id = ''msg'',
     pmu_event = \<lparr>ptd_content_index = 0, ptd_delta_index = i, ptd_start_offset = k,
       ptd_end_offset = k + int (length s), ptd_delta = s\<rparr>\<rparr>"

definition sample_start :: message_start where
  "sample_start = \<lparr>pms_internal_turn_id = ''it'', pms_message_id = ''msg''\<rparr>"

definition sample_end :: "string \<Rightarrow> message_end" where
  "sample_end s = \<lparr>pme_internal_turn_id = ''it'', pme_message_id = ''msg'', pme_stop_reason = ''stop'',
     pme_disposition = MdFinal, pme_text = s, pme_error_summary = None\<rparr>"

definition sample_answer :: "string \<Rightarrow> logged" where
  "sample_answer s = \<lparr>lg_room_seq = 7, lg_stamp = ''t'', lg_record = RecAgentResponse \<lparr>ar_message_id = ''msg'',
     ar_content = Some s, ar_client_request_id = Some ''req'', ar_related_message_id = Some ''user''\<rparr>\<rparr>"

definition first_events :: "logged list" where
  "first_events = [canonical_event 1 (RunStarted \<lparr>pst_hybro_turn_id = ''run'', pst_user_message_id = ''user'',
       pst_started_at = 0, pst_mode = ''fast''\<rparr>),
     canonical_event 2 (TurnStart \<lparr>pts_internal_turn_id = ''it'', pts_attempt = 1\<rparr>)]"

definition deltas :: "logged list" where
  "deltas = [canonical_event 4 (sample_delta 0 0 ''Hel''), canonical_event 5 (sample_delta 1 3 ''lo'')]"

definition last_events :: "logged list" where
  "last_events = [sample_answer ''Hello'',
     canonical_event 8 (TurnEnd \<lparr>pte_internal_turn_id = ''it'', pte_message_id = Some ''msg'',
       pte_tool_call_ids = [], pte_status = ItCompleted\<rparr>),
     canonical_event 9 (RunSettled \<lparr>psl_status = StCompleted, psl_started_at = 0, psl_settled_at = 5,
       psl_duration_ms = 5, psl_final_message_id = Some ''msg'', psl_failure_code = None,
       psl_error_summary = None, psl_cancellation_code = None\<rparr>)]"

definition message_events :: "logged list" where
  "message_events = canonical_event 3 (MessageStart sample_start) # deltas @ [canonical_event 6 (MessageEnd (sample_end ''Hello''))]"

lemmas sample_log = first_events_def message_events_def last_events_def canonical_event_def sample_delta_def
  sample_start_def sample_end_def deltas_def sample_answer_def

lemmas checks = payload_error_def public_id_def public_text_def public_summary_def public_label_def optional_def
  text_delta_error_def message_end_error_def allowed_stop_reasons_def turn_end_error_def settled_error_def
  settlement_fields_valid_def nonempty_def run_event_error_def

lemmas handlers = apply_record_def fold_run_event_def fold_canonical_turn_def fold_event_def child_event_def
  put_turn_def accept_if_def settled_def new_turn_def start_turn_def internal_of_def change_internal_def
  start_message_def update_message_def delta_follows_def append_delta_def end_message_def show_text_def
  fold_agent_response_def commit_final_def text_or_empty_def end_turn_def tools_of_def tools_def last_message_def
  settle_turn_def open_children_def completion_ready_def either_text_def earlier_closed_def map_filter_simps

text \<open>The Turn before its message, while the message streams, with its answer, and settled.\<close>

definition begun :: turn where
  "begun = \<lparr>tn_user_message_id = ''user'', tn_client_request_id = ''req'', tn_state = TurnActive, tn_started_at = 0,
     tn_settled_at = None, tn_duration_ms = None, tn_terminal_code = None, tn_terminal_summary = None,
     tn_internal_turns = [\<lparr>it_id = ''it'', it_attempt = 1, it_message_ids = [], it_tool_call_ids = [],
       it_status = ItActive\<rparr>], tn_activity = [], tn_current_assistant = None, tn_final_answer = None,
     tn_final_committed = False, tn_hitl_interactions = [], tn_active_interaction_id = None,
     tn_agent_call_message_ids = []\<rparr>"

definition internal_with_message :: "internal_status \<Rightarrow> internal_turn" where
  "internal_with_message st = \<lparr>it_id = ''it'', it_attempt = 1, it_message_ids = [''msg''], it_tool_call_ids = [],
     it_status = st\<rparr>"

definition shown :: assistant where
  "shown = \<lparr>as_message_id = ''msg'', as_internal_turn_id = ''it'', as_text = ''Hello'', as_content_index = 0,
     as_next_delta_index = 2, as_end_offset = 5, as_order = 3\<rparr>"

definition streaming :: turn where
  "streaming = begun\<lparr>tn_internal_turns := [internal_with_message ItActive], tn_current_assistant := Some shown\<rparr>"

definition hello :: final_answer where
  "hello = \<lparr>fa_message_id = ''msg'', fa_internal_turn_id = ''it'', fa_text = ''Hello'', fa_order = 6\<rparr>"

definition answered :: turn where
  "answered = begun\<lparr>tn_internal_turns := [internal_with_message ItActive], tn_final_answer := Some hello\<rparr>"

definition ended :: turn where
  "ended = answered\<lparr>tn_internal_turns := [internal_with_message ItCompleted], tn_final_committed := True,
     tn_state := TurnSettled StCompleted, tn_settled_at := Some 5, tn_duration_ms := Some 5\<rparr>"

lemmas sample_turns = begun_def internal_with_message_def shown_def streaming_def hello_def answered_def ended_def

lemma first_folds: "fold_log first_events [] = Inr [(''run'', begun)]"
  by (simp add: sample_log checks handlers sample_turns)

lemma message_folds: "fold_log message_events [(''run'', begun)] = Inr [(''run'', answered)]"
  by (simp add: sample_log checks handlers sample_turns)

lemma last_folds: "fold_log last_events [(''run'', answered)] = Inr [(''run'', ended)]"
  by (simp add: sample_log checks handlers sample_turns)

text \<open>The whole Turn, and a later answer with another text, after the Turn has settled.\<close>

lemma whole_folds: "fold_log (first_events @ message_events @ last_events) [] = Inr [(''run'', ended)]"
  by (simp add: fold_log_append first_folds message_folds last_folds)

lemma late_folds: "fold_log [sample_answer ''Bye''] [(''run'', ended)] = Inr [(''run'', ended)]"
  by (simp add: sample_log handlers sample_turns)

lemma ended_facts: "settled ended" "tn_final_committed ended" "tn_final_answer ended = Some hello"
  "tn_state ended = TurnSettled StCompleted"
  by (simp_all add: sample_turns settled_def)

lemma settled_turn_stays_settled_witness:
  "\<exists>u. map_of [(''run'', ended)] ''run'' = Some u \<and> closing_view u = closing_view ended"
  by (rule settled_turn_stays_settled [OF late_folds _ ended_facts(1)]) simp

lemma committed_answer_is_final_witness:
  "\<exists>u. map_of [(''run'', ended)] ''run'' = Some u \<and> tn_final_committed u \<and> tn_final_answer u = Some hello"
  by (rule committed_answer_is_final [OF late_folds _ ended_facts(2,3)]) simp

lemma settled_turn_is_closed_witness: "\<not> open_children ended \<and> completion_ready (Some ''msg'') ended"
  using settled_turn_is_closed [OF whole_folds _ ended_facts(1), of "''run''"] ended_facts(3,4)
  by (simp add: hello_def)

lemma streamed_text_is_the_message_witness: "''Hello'' = concat (streamed ''run'' deltas)"
proof -
  have f: "fold_log (canonical_event 3 (MessageStart sample_start) # deltas
      @ [canonical_event 6 (MessageEnd (sample_end ''Hello''))]) [(''run'', begun)] = Inr [(''run'', answered)]"
    using message_folds by (simp only: message_events_def)
  have "streamed ''run'' deltas \<noteq> []" "\<forall>l \<in> set deltas. \<not> ends_message ''run'' l"
    by (simp_all add: deltas_def canonical_event_def sample_delta_def delta_in_def ends_message_def run_payload_def)
  then show ?thesis
    using streamed_text_is_the_message [OF f, of "''run''" begun sample_start "sample_end ''Hello''"]
    by (simp add: run_payload_def canonical_event_def sample_end_def)
qed

lemma contradicting_end_raises_witness:
  "apply_record (canonical_event 6 (MessageEnd (sample_end ''Hell''))) [(''run'', streaming)]
    = Inl (Raised ''canonical message_end contradicts assembled durable deltas'')"
  by (rule contradicting_end_raises [where run = "''run''" and t = streaming and a = shown
        and q = "sample_end ''Hell''" and e = "\<lparr>rv_event_id = ''e'' @ show_int 6, rv_run_id = ''run'', rv_seq = 6,
          rv_payload = MessageEnd (sample_end ''Hell''), rv_correlation_id = Some ''req''\<rparr>"])
    (simp_all add: sample_log checks handlers sample_turns)

text \<open>A Turn whose Tool has ended, and an update that comes too late.\<close>

definition ended_tool :: tool_activity where
  "ended_tool = \<lparr>ta_internal_turn_id = ''it'', ta_tool_call_id = ''inv_00000001'',
     ta_label = ''search'', ta_input = [], ta_partial_result = [], ta_result = Some ''ok'', ta_is_error = Some False,
     ta_duration_ms = Some 1, ta_status = TsCompleted, ta_update_index = 0, ta_execution_kind = ExecTool,
     ta_target_name = None, ta_request_summary = [], ta_detail_available = False, ta_error_code = None,
     ta_error_message = None, ta_order = 3\<rparr>"

definition tool_done :: turn where
  "tool_done = begun\<lparr>tn_activity := [ActTool ended_tool]\<rparr>"

definition late_update :: tool_update where
  "late_update = \<lparr>pxu_internal_turn_id = ''it'', pxu_tool_call_id = ''inv_00000001'', pxu_tool_name = ''search'',
     pxu_update_index = 1, pxu_status = TsRunning, pxu_partial_result = [], pxu_execution_kind = ExecTool,
     pxu_target = None\<rparr>"

definition tool_updated :: logged where
  "tool_updated = canonical_event 5 (ToolUpdate late_update)"

lemma late_update_reopens_tool_witness:
  "\<exists>us u y. apply_record tool_updated [(''run'', tool_done)] = Inr us \<and> map_of us ''run'' = Some u
    \<and> find_tool ''inv_00000001'' u = Some y \<and> ta_status y = TsRunning"
proof -
  let ?e = "\<lparr>rv_event_id = ''e'' @ show_int 5, rv_run_id = ''run'', rv_seq = 5,
    rv_payload = ToolUpdate late_update, rv_correlation_id = Some ''req''\<rparr>"
  have t: "map_of [(''run'', tool_done)] ''run'' = Some tool_done" "\<not> settled tool_done" "tn_final_answer tool_done = None"
    "find_tool ''inv_00000001'' tool_done = Some ended_tool" "\<not> open_tool ended_tool"
    by (simp_all add: tool_done_def ended_tool_def begun_def settled_def find_tool_def tools_def map_filter_simps open_tool_def)
  have "call_pattern ''inv_00000001''" by code_simp
  then have e: "lg_record tool_updated = RecRunEvent ?e" "run_event_error ?e = None"
    by (simp_all add: tool_updated_def late_update_def sample_log checks tool_update_error_def target_error_def)
  have "rv_run_id ?e = ''run''" "rv_correlation_id ?e = Some (tn_client_request_id tool_done)"
    "rv_payload ?e = ToolUpdate late_update" "internal_of (pxu_internal_turn_id late_update) tool_done \<noteq> None"
    "pxu_tool_call_id late_update = ''inv_00000001''" "ta_update_index ended_tool < pxu_update_index late_update"
    "pxu_execution_kind late_update = ta_execution_kind ended_tool" "pxu_status late_update = TsRunning"
    by (simp_all add: tool_done_def begun_def late_update_def ended_tool_def internal_of_def)
  from late_update_reopens_tool [OF t e this] show ?thesis by blast
qed

section \<open>A room with a dead writer\<close>

text \<open>An action of the environment on the log, and the log after it, when the action is possible.\<close>

datatype log_action = Arrive writer | Advance nat bool | Crash nat

definition act :: "int \<Rightarrow> log_action \<Rightarrow> log_system \<Rightarrow> log_system" where
  "act grace a s = (case a of
      Arrive w \<Rightarrow> s\<lparr>ls_writers := ls_writers s @ [w]\<rparr>
    | Advance i ok \<Rightarrow> (case advance grace ok (ls_writers s ! i) (ls_db s) of (p, db) \<Rightarrow>
        s\<lparr>ls_db := db, ls_writers := (ls_writers s)[i := (ls_writers s ! i)\<lparr>wr_phase := p\<rparr>]\<rparr>)
    | Crash i \<Rightarrow> s\<lparr>ls_writers := take i (ls_writers s) @ drop (Suc i) (ls_writers s)\<rparr>)"

definition possible :: "(string \<Rightarrow> string) \<Rightarrow> bool \<Rightarrow> log_action \<Rightarrow> log_system \<Rightarrow> bool" where
  "possible home crashes a s \<longleftrightarrow> (case a of
      Arrive w \<Rightarrow> wr_phase w = Start \<and> home (wr_id w) = wr_room w \<and> take 5 (wr_id w) \<noteq> ''skip:''
    | Advance i ok \<Rightarrow> i < length (ls_writers s)
    | Crash i \<Rightarrow> crashes \<and> i < length (ls_writers s))"

lemma act_step:
  assumes "possible home crashes a s"
  shows "log_step grace home crashes s (act grace a s)"
proof (cases a)
  case (Arrive w)
  with assms show ?thesis by (auto simp: possible_def act_def intro: log_arrive)
next
  case (Advance i ok)
  obtain p db where "advance grace ok (ls_writers s ! i) (ls_db s) = (p, db)" by fastforce
  with assms Advance log_advance [OF _ this] show ?thesis by (simp add: possible_def act_def)
next
  case (Crash i)
  with assms show ?thesis by (auto simp: possible_def act_def intro: log_crash)
qed

fun perform :: "int \<Rightarrow> log_action list \<Rightarrow> log_system \<Rightarrow> log_system" where
  "perform grace [] s = s"
| "perform grace (a # as) s = perform grace as (act grace a s)"

fun all_possible :: "int \<Rightarrow> (string \<Rightarrow> string) \<Rightarrow> bool \<Rightarrow> log_action list \<Rightarrow> log_system \<Rightarrow> bool" where
  "all_possible grace home crashes [] s = True"
| "all_possible grace home crashes (a # as) s =
    (possible home crashes a s \<and> all_possible grace home crashes as (act grace a s))"

lemma perform_reachable:
  "log_reachable grace home crashes s \<Longrightarrow> all_possible grace home crashes as s
     \<Longrightarrow> log_reachable grace home crashes (perform grace as s)"
  by (induction as arbitrary: s) (auto intro: log_next act_step)

definition empty_log :: log_system where
  "empty_log = \<lparr>ls_db = \<lparr>rd_events = [], rd_counters = []\<rparr>, ls_writers = []\<rparr>"

definition appender :: "string \<Rightarrow> room_record \<Rightarrow> writer" where
  "appender i r = \<lparr>wr_id = i, wr_room = ''room'', wr_entry = (''t'', r), wr_phase = Start\<rparr>"

text \<open>
  Writer \<open>a\<close> allocates number 1 and dies; writer \<open>b\<close> takes number 2 without transactions and its healer,
  with a grace of 1, fills number 1.
\<close>

definition dying :: "log_action list" where
  "dying = [Arrive (appender ''a'' RecOther), Advance 0 False, Advance 0 True, Advance 0 True, Crash 0,
     Arrive (appender ''b'' RecOther), Advance 0 False] @ replicate 8 (Advance 0 True)"

text \<open>Two writers, one retrying the key of the other, with transactions.\<close>

definition retrying :: "log_action list" where
  "retrying = [Arrive (appender ''a'' (lg_record (hd first_events))), Arrive (appender ''a'' RecOther),
     Advance 0 True, Advance 1 True, Advance 1 True]"

definition dead_log :: log_system where
  "dead_log = perform 1 dying empty_log"

definition retried_log :: log_system where
  "retried_log = perform 5 retrying empty_log"

lemma empty_reachable: "log_reachable grace home crashes empty_log"
  unfolding empty_log_def by (rule log_empty)

lemma dead_reachable: "log_reachable 1 (\<lambda>_. ''room'') True dead_log"
  unfolding dead_log_def by (rule perform_reachable [OF empty_reachable]) code_simp

lemma retried_reachable: "log_reachable 5 (\<lambda>_. ''room'') False retried_log"
  unfolding retried_log_def by (rule perform_reachable [OF empty_reachable]) code_simp

lemma append_answers_its_document_witness:
  "\<exists>d. d \<in> set (rd_events (ls_db retried_log)) \<and> dc_id d = ''a'' \<and> dc_room_seq d = 1"
proof -
  have w: "ls_writers retried_log ! 1 \<in> set (ls_writers retried_log)"
    "wr_phase (ls_writers retried_log ! 1) = Appended 1 True" "wr_id (ls_writers retried_log ! 1) = ''a''"
    by (rule nth_mem, code_simp+)
  from append_answers_its_document [OF retried_reachable w(1,2)] w(3) show ?thesis by auto
qed

lemma healed_prefix_has_no_hole_witness:
  "\<exists>!d. d \<in> set (rd_events (ls_db dead_log)) \<and> dc_room d = ''room'' \<and> dc_room_seq d = 1"
  by (rule healed_prefix_has_no_hole [OF dead_reachable]) code_simp+

lemma retried_quiet: "\<forall>w \<in> set (ls_writers retried_log). wr_room w = ''room''
    \<longrightarrow> wr_phase w = Failed \<or> (\<exists>m p. wr_phase w = Appended m p)"
proof -
  have "map wr_phase (ls_writers retried_log) = [Appended 1 True, Appended 1 True]" by code_simp
  then have "\<forall>p \<in> set (map wr_phase (ls_writers retried_log)). p = Appended 1 True" by simp
  then show ?thesis by auto
qed

lemma quiescent_log_has_no_hole_witness:
  "\<exists>!d. d \<in> set (rd_events (ls_db retried_log)) \<and> dc_room d = ''room'' \<and> dc_room_seq d = 1"
  by (rule quiescent_log_has_no_hole [OF retried_reachable _ _ retried_quiet]) code_simp+

section \<open>Its snapshots\<close>

definition retried_turns :: turns where
  "retried_turns = [(''run'', new_turn \<lparr>pst_hybro_turn_id = ''run'', pst_user_message_id = ''user'',
     pst_started_at = 0, pst_mode = ''fast''\<rparr> ''req'')]"

lemma retried_ok: "log_ok (ls_db retried_log)"
  using log_reachable_ok [OF retried_reachable] db_ok_log by (auto simp: system_ok_def)

lemma retried_refold: "refold ''room'' (ls_db retried_log) = Inr (1, retried_turns)"
  by code_simp

lemma retried_events: "rd_events (ls_db retried_log) = [new_doc (appender ''a'' (lg_record (hd first_events))) 1]"
  by code_simp

lemma retried_checkpoint: "checkpoints_right (ls_db retried_log) [(''room'', (1, retried_turns))]"
proof -
  have "fold_log (List.map_filter logged_of [new_doc (appender ''a'' (lg_record (hd first_events))) 1]) [] = Inr retried_turns"
    by code_simp
  then show ?thesis
    by (auto simp: checkpoints_right_def snapshot_right_def retried_events new_doc_def appender_def
        intro!: exI [of _ "[new_doc (appender ''a'' (lg_record (hd first_events))) 1]"])
qed

lemma incremental_snapshot_is_refold_witness:
  "fst (the (snapshot_locked 2 (read_range ''room'' True) 1 ''room'' False (replicate 2 (ls_db retried_log))
     [(''room'', (1, retried_turns))] [])) = Inr (1, retried_turns)"
proof -
  have "length (rd_events (ls_db retried_log)) < 2" by (simp add: retried_events)
  from incremental_snapshot_is_refold [OF retried_ok zero_less_one this retried_checkpoint, of 2 "''room''" False "[]"]
  show ?thesis by (auto simp: retried_refold)
qed

lemma forced_snapshot: "snapshot_locked 2 (read_range ''room'' True) 1 ''room'' True (replicate 2 (ls_db retried_log))
     [] [] = Some (Inr (1, retried_turns), [(''room'', (1, retried_turns))])"
  by code_simp

lemma snapshot_folds_a_prefix_witness: "snapshot_right ''room'' (ls_db retried_log) (1, retried_turns)"
  using snapshot_folds_a_prefix [OF forced_snapshot _ retried_ok] retried_ok
  by (simp add: checkpoints_right_def)

lemma quiescent_snapshot_is_complete_witness: "latest_seq ''room'' (ls_db retried_log) = 1"
  using quiescent_snapshot_is_complete [OF retried_reachable retried_quiet retried_refold] by simp

end
