(* ===== verification/Mongo.thy ===== *)
theory Mongo
  imports Prelude
begin

text \<open>
  The collections of \<open>dal/mongo/client.py\<close>: a collection is the list of its documents in natural order,
  a query is a predicate, and the adapter answers what its callers see of the driver's results.
\<close>

text \<open>A \<open>find\<close> that names no limit is cut at a thousand documents.\<close>

definition find_limit :: nat where
  "find_limit = 1000"

definition find_rows :: "nat option \<Rightarrow> ('a \<Rightarrow> bool) \<Rightarrow> 'a list \<Rightarrow> 'a list" where
  "find_rows limit p rows = take (case limit of None \<Rightarrow> find_limit | Some n \<Rightarrow> n) (filter p rows)"

text \<open>\<open>update_one\<close> answers whether a document was modified, not whether one matched.\<close>

definition update_one :: "('a \<Rightarrow> bool) \<Rightarrow> ('a \<Rightarrow> 'a) \<Rightarrow> 'a list \<Rightarrow> bool \<times> 'a list" where
  "update_one p f rows = (case List.find p rows of None \<Rightarrow> (False, rows)
     | Some r \<Rightarrow> (f r \<noteq> r, update_first p f rows))"

fun remove_first :: "('a \<Rightarrow> bool) \<Rightarrow> 'a list \<Rightarrow> 'a list" where
  "remove_first p [] = []"
| "remove_first p (x # xs) = (if p x then xs else x # remove_first p xs)"

definition delete_one :: "('a \<Rightarrow> bool) \<Rightarrow> 'a list \<Rightarrow> bool \<times> 'a list" where
  "delete_one p rows = (list_ex p rows, remove_first p rows)"

text \<open>\<open>find_one_and_update\<close> with the document after the update.\<close>

definition find_one_and_update :: "('a \<Rightarrow> bool) \<Rightarrow> ('a \<Rightarrow> 'a) \<Rightarrow> 'a list \<Rightarrow> 'a option \<times> 'a list" where
  "find_one_and_update p f rows = (map_option f (List.find p rows), update_first p f rows)"

lemma set_find_rows: "r \<in> set (find_rows limit p rows) \<Longrightarrow> r \<in> set rows \<and> p r"
  by (auto simp: find_rows_def dest!: in_set_takeD)

lemma find_rows_all: "length (filter p rows) \<le> find_limit \<Longrightarrow> find_rows None p rows = filter p rows"
  by (simp add: find_rows_def)

lemma update_one_rows: "snd (update_one p f rows) = update_first p f rows"
  by (simp add: update_one_def update_first_none split: option.splits)

lemma update_one_matched: "fst (update_one p f rows) \<Longrightarrow> \<exists>r. List.find p rows = Some r"
  by (simp add: update_one_def split: option.splits)

lemma update_first_kept: "r \<in> set rows \<Longrightarrow> r \<in> set (update_first p f rows) \<or> p r \<and> f r \<in> set (update_first p f rows)"
  by (induction rows) auto

lemma remove_first_set: "r \<in> set (remove_first p rows) \<Longrightarrow> r \<in> set rows"
  by (induction rows) (auto split: if_splits)

lemma remove_first_distinct: "distinct (map g rows) \<Longrightarrow> distinct (map g (remove_first p rows))"
  by (induction rows) (auto dest: remove_first_set)

end
