(* ===== verification/Message_Store.thy ===== *)
theory Message_Store
  imports Mongo Run_Contracts "HOL-Library.List_Lexorder" "HOL-Library.Char_ord" "HOL-Library.Product_Lexorder"
begin

text \<open>
  \<open>MessageMongoRepository\<close> of \<open>conversation/repository/mongo.py\<close> with \<open>conversation/timeline.py\<close> and
  \<open>conversation/message_graph.py\<close>: the user and agent messages of the rooms in two collections, their
  merged timeline read by pages, threads, idempotent inserts, and the updates of the task of an agent
  message. Both collections are lists of documents; the startup audit of the indexes guarantees what
  the types say: a room and a message id that are strings, an integer sort key.
\<close>

section \<open>Messages\<close>

text \<open>The task of an agent message and its content, with the fields the updates look at.\<close>

record message_task =
  mt_state :: "string option"
  mt_artifacts :: "string list"
  mt_rest :: json

record message_content =
  mc_text :: "string option"
  mc_task :: "message_task option"
  mc_rest :: json

record message_row =
  mr_message_id :: string
  mr_room_id :: string
  mr_sort_us :: int
  mr_message_type :: "string option"
  mr_parent_message_id :: "string option"
  mr_related_message_id :: "string option"
  mr_client_request_id :: "string option"
  mr_fingerprint :: "string option"
  mr_fingerprint_version :: "int option"
  mr_content :: "message_content option"
  mr_rest :: json

record message_db =
  md_users :: "message_row list"
  md_agents :: "message_row list"

section \<open>The timeline\<close>

datatype source = UserSource | AgentSource

definition source_rank :: "source \<Rightarrow> int" where
  "source_rank s = (case s of UserSource \<Rightarrow> 0 | AgentSource \<Rightarrow> 1)"

type_synonym row_order = "int \<times> int \<times> string"

definition timeline_key :: "int \<Rightarrow> source \<Rightarrow> string \<Rightarrow> row_order" where
  "timeline_key us s i = (us, source_rank s, i)"

record timeline_position =
  tp_sort_us :: int
  tp_source :: source
  tp_message_id :: string

type_synonym entry = "source \<times> message_row"

definition row_key :: "entry \<Rightarrow> row_order" where
  "row_key e = timeline_key (mr_sort_us (snd e)) (fst e) (mr_message_id (snd e))"

text \<open>\<open>list.sort(key=.., reverse=True)\<close>, and the descending sort of a query.\<close>

fun insert_desc :: "('a \<Rightarrow> 'k::linorder) \<Rightarrow> 'a \<Rightarrow> 'a list \<Rightarrow> 'a list" where
  "insert_desc f x [] = [x]"
| "insert_desc f x (y # ys) = (if f y \<le> f x then x # y # ys else y # insert_desc f x ys)"

definition sort_desc :: "('a \<Rightarrow> 'k::linorder) \<Rightarrow> 'a list \<Rightarrow> 'a list" where
  "sort_desc f xs = foldr (insert_desc f) xs []"

text \<open>\<open>_timeline_query\<close>: the rows of one collection below a cursor.\<close>

definition timeline_query :: "string \<Rightarrow> source \<Rightarrow> timeline_position option \<Rightarrow> message_row \<Rightarrow> bool" where
  "timeline_query room s before r \<longleftrightarrow> mr_room_id r = room \<and> (case before of None \<Rightarrow> True
     | Some b \<Rightarrow>
        if source_rank s < source_rank (tp_source b) then mr_sort_us r \<le> tp_sort_us b
        else if source_rank (tp_source b) < source_rank s then mr_sort_us r < tp_sort_us b
        else mr_sort_us r < tp_sort_us b \<or> mr_sort_us r = tp_sort_us b \<and> mr_message_id r < tp_message_id b)"

definition query_rows :: "(message_row \<Rightarrow> bool) \<Rightarrow> nat \<Rightarrow> message_row list \<Rightarrow> message_row list" where
  "query_rows p limit rows = take limit (sort_desc (\<lambda>r. (mr_sort_us r, mr_message_id r)) (filter p rows))"

record timeline_page =
  pg_entries :: "entry list"
  pg_has_more :: bool
  pg_next_position :: "timeline_position option"

definition position_of :: "entry \<Rightarrow> timeline_position" where
  "position_of e = \<lparr>tp_sort_us = mr_sort_us (snd e), tp_source = fst e, tp_message_id = mr_message_id (snd e)\<rparr>"

text \<open>
  \<open>get_timeline_page\<close>: the newest \<open>limit\<close> messages below the cursor, oldest first. One more row of each
  collection is fetched to know whether there are more.
\<close>

definition get_timeline_page :: "string \<Rightarrow> nat \<Rightarrow> timeline_position option \<Rightarrow> message_db \<Rightarrow> timeline_page" where
  "get_timeline_page room limit before db =
    (let users = query_rows (timeline_query room UserSource before) (limit + 1) (md_users db);
         agents = query_rows (timeline_query room AgentSource before) (limit + 1) (md_agents db);
         merged = sort_desc row_key (map (Pair UserSource) users @ map (Pair AgentSource) agents);
         selected = take limit merged;
         has_more = (limit < length merged)
     in \<lparr>pg_entries = rev selected, pg_has_more = has_more,
         pg_next_position = (if has_more \<and> selected \<noteq> [] then Some (position_of (last selected)) else None)\<rparr>)"

text \<open>A client that scrolls up: it asks for the page below each cursor it is given. \<open>n\<close> bounds the requests.\<close>

fun scroll :: "nat \<Rightarrow> string \<Rightarrow> nat \<Rightarrow> timeline_position option \<Rightarrow> message_db \<Rightarrow> timeline_page list option" where
  "scroll 0 room limit before db = None"
| "scroll (Suc n) room limit before db = (let p = get_timeline_page room limit before db in
     case pg_next_position p of None \<Rightarrow> Some [p]
     | Some q \<Rightarrow> map_option (Cons p) (scroll n room limit (Some q) db))"

section \<open>Threads\<close>

text \<open>\<open>_message_sort_key\<close> of a stored row; a row without a type counts as an agent's.\<close>

definition history_key :: "message_row \<Rightarrow> row_order" where
  "history_key r = (mr_sort_us r, (if mr_message_type r = Some ''user'' then 0 else 1), mr_message_id r)"

definition answers_to :: "string list \<Rightarrow> message_row \<Rightarrow> bool" where
  "answers_to frontier r \<longleftrightarrow> (\<exists>p \<in> set frontier. mr_related_message_id r = Some p \<or> mr_parent_message_id r = Some p)"

definition thread_rows :: "string list \<Rightarrow> message_db \<Rightarrow> message_row list" where
  "thread_rows frontier db = sort_key history_key
     (find_rows None (answers_to frontier) (md_users db) @ find_rows None (answers_to frontier) (md_agents db))"

text \<open>The state of the loop: the thread so far, the ids seen, and the next frontier.\<close>

record thread_state =
  ts_thread :: "message_row list"
  ts_seen :: "string list"
  ts_next :: "string list"

definition visit :: "message_row \<Rightarrow> thread_state \<Rightarrow> thread_state" where
  "visit r s = (if mr_message_id r = [] \<or> mr_message_id r \<in> set (ts_seen s) then s
     else \<lparr>ts_thread = ts_thread s @ [r], ts_seen = ts_seen s @ [mr_message_id r],
           ts_next = ts_next s @ [mr_message_id r]\<rparr>)"

definition visit_level :: "string list \<Rightarrow> message_db \<Rightarrow> thread_state \<Rightarrow> thread_state" where
  "visit_level frontier db s = foldl (\<lambda>s r. visit r s) (s\<lparr>ts_next := []\<rparr>) (thread_rows frontier db)"

definition message_ids :: "message_db \<Rightarrow> string set" where
  "message_ids db = mr_message_id ` set (md_users db @ md_agents db)"

lemma finite_message_ids [simp]: "finite (message_ids db)"
  by (simp add: message_ids_def)

lemma visit_seen:
  "foldl (\<lambda>s r. visit r s) s rs = s' \<Longrightarrow> \<exists>ks. ts_seen s' = ts_seen s @ ks \<and> ts_next s' = ts_next s @ ks
     \<and> set ks \<subseteq> mr_message_id ` set rs \<and> set ks \<inter> set (ts_seen s) = {}"
proof (induction rs arbitrary: s)
  case (Cons r rs)
  from Cons.prems have "foldl (\<lambda>s r. visit r s) (visit r s) rs = s'" by simp
  from Cons.IH [OF this] obtain js where "ts_seen s' = ts_seen (visit r s) @ js" "ts_next s' = ts_next (visit r s) @ js"
    "set js \<subseteq> mr_message_id ` set rs" "set js \<inter> set (ts_seen (visit r s)) = {}" by blast
  then show ?case
    by (cases "mr_message_id r = [] \<or> mr_message_id r \<in> set (ts_seen s)")
      (auto simp: visit_def intro!: exI [of _ "mr_message_id r # js"])
qed simp

lemma thread_rows_ids: "r \<in> set (thread_rows frontier db) \<Longrightarrow> mr_message_id r \<in> message_ids db"
  by (auto simp: thread_rows_def message_ids_def dest!: set_find_rows)

text \<open>\<open>get_thread\<close>. Every round that does not end the loop sees a message it had not seen.\<close>

function thread_loop :: "message_db \<Rightarrow> string list \<Rightarrow> thread_state \<Rightarrow> message_row list" where
  "thread_loop db frontier s = (if frontier = [] then ts_thread s
     else (let s' = visit_level frontier db s in thread_loop db (ts_next s') s'))"
  by pat_completeness auto

termination
proof (relation "measures [\<lambda>(db, frontier, s). card (message_ids db - set (ts_seen s)),
    \<lambda>(db, frontier, s). length frontier]", goal_cases)
  case (2 db frontier s s')
  from visit_seen [OF 2(2) [unfolded visit_level_def, symmetric]] obtain ks where
    "ts_seen s' = ts_seen s @ ks" "ts_next s' = ks" "set ks \<subseteq> message_ids db" "set ks \<inter> set (ts_seen s) = {}"
    using thread_rows_ids by fastforce
  then show ?case
  proof (cases "ks = []")
    case False
    with \<open>set ks \<subseteq> message_ids db\<close> \<open>set ks \<inter> set (ts_seen s) = {}\<close>
    have "message_ids db - set (ts_seen s @ ks) \<subset> message_ids db - set (ts_seen s)" by (cases "ks") auto
    with \<open>ts_seen s' = ts_seen s @ ks\<close> show ?thesis by (auto intro!: psubset_card_mono)
  qed (use 2(1) in simp)
qed simp

declare thread_loop.simps [simp del]

definition get_thread :: "string \<Rightarrow> message_db \<Rightarrow> message_row list" where
  "get_thread parent db = thread_loop db [parent] \<lparr>ts_thread = [], ts_seen = [parent], ts_next = []\<rparr>"

section \<open>Inserting the messages of a user\<close>

datatype insert_error =
    InvalidDocument
  | UnexpectedDuplicate
  | IdempotencyConflict

definition max_client_request_id :: nat where
  "max_client_request_id = 128"

definition valid_request_id :: "string \<Rightarrow> bool" where
  "valid_request_id s \<longleftrightarrow> py_strip s \<noteq> [] \<and> length (py_strip s) \<le> max_client_request_id"

text \<open>\<open>_canonical_user_message_document\<close>\<close>

definition canonical_user_message :: "message_row \<Rightarrow> insert_error + message_row" where
  "canonical_user_message m =
    (if py_strip (mr_message_id m) = [] \<or> py_strip (mr_room_id m) = [] then Inl InvalidDocument
     else case mr_client_request_id m of None \<Rightarrow> Inr m
       | Some c \<Rightarrow> if valid_request_id c then Inr (m\<lparr>mr_client_request_id := Some (py_strip c)\<rparr>)
           else Inl InvalidDocument)"

text \<open>The unique indexes of the user messages: the message id, and the request key of a room.\<close>

definition same_key :: "message_row \<Rightarrow> message_row \<Rightarrow> bool" where
  "same_key m r \<longleftrightarrow> mr_message_id m = mr_message_id r
     \<or> mr_client_request_id m \<noteq> None \<and> mr_room_id m = mr_room_id r \<and> mr_client_request_id m = mr_client_request_id r"

definition insert_user :: "message_row \<Rightarrow> message_db \<Rightarrow> message_db option" where
  "insert_user m db = (if list_ex (same_key m) (md_users db) then None
     else Some (db\<lparr>md_users := md_users db @ [m]\<rparr>))"

definition by_request_key :: "string \<Rightarrow> string \<Rightarrow> message_db \<Rightarrow> message_row option" where
  "by_request_key room c db =
     List.find (\<lambda>r. mr_room_id r = room \<and> mr_client_request_id r = Some c) (md_users db)"

record insert_result =
  ir_message_id :: string
  ir_created :: bool
  ir_document :: message_row

definition fingerprint_matches :: "message_row \<Rightarrow> message_row \<Rightarrow> bool" where
  "fingerprint_matches stored m \<longleftrightarrow> mr_fingerprint stored = mr_fingerprint m
     \<and> mr_fingerprint_version stored = mr_fingerprint_version m"

text \<open>
  \<open>insert_user_message_idempotently\<close>. \<open>later\<close> is the store when the losing insert looks for the winner:
  other requests may have run in between.
\<close>

definition insert_idempotently ::
    "message_row \<Rightarrow> message_db \<Rightarrow> message_db \<Rightarrow> (insert_error + insert_result) \<times> message_db" where
  "insert_idempotently document db later = (case canonical_user_message document of
      Inl e \<Rightarrow> (Inl e, db)
    | Inr m \<Rightarrow> (case mr_client_request_id m of
          None \<Rightarrow> (Inl InvalidDocument, db)
        | Some c \<Rightarrow>
            if mr_fingerprint m = None \<or> mr_fingerprint m = Some [] \<or> mr_fingerprint_version m = None
            then (Inl InvalidDocument, db)
            else case insert_user m db of
              Some db' \<Rightarrow> (Inr \<lparr>ir_message_id = mr_message_id m, ir_created = True, ir_document = m\<rparr>, db')
            | None \<Rightarrow> (case by_request_key (mr_room_id m) c later of
                None \<Rightarrow> (Inl UnexpectedDuplicate, later)
              | Some r \<Rightarrow>
                  if mr_message_id r = [] then (Inl UnexpectedDuplicate, later)
                  else if fingerprint_matches r m
                    then (Inr \<lparr>ir_message_id = mr_message_id r, ir_created = False, ir_document = r\<rparr>, later)
                  else (Inl IdempotencyConflict, later))))"

section \<open>Updating the messages of an agent\<close>

definition terminal_task_states :: "string list" where
  "terminal_task_states = [''canceled'', ''completed'', ''expired'', ''failed'', ''rejected'']"

definition row_task_state :: "message_row \<Rightarrow> string option" where
  "row_task_state r = (case mr_content r of None \<Rightarrow> None | Some c \<Rightarrow>
     (case mc_task c of None \<Rightarrow> None | Some t \<Rightarrow> mt_state t))"

text \<open>
  A \<open>$set\<close> of the task of a message: its content as a whole, its task, or the state of its task. The
  identity of the message in the timeline is removed from every update and is not part of it.
\<close>

datatype task_update =
    SetContent message_content
  | SetTask message_task
  | SetState string
  | SetOther json

definition updated_task_state :: "task_update \<Rightarrow> string option" where
  "updated_task_state u = (case u of
      SetContent c \<Rightarrow> (case mc_task c of None \<Rightarrow> None | Some t \<Rightarrow> mt_state t)
    | SetTask t \<Rightarrow> mt_state t
    | SetState s \<Rightarrow> Some s
    | SetOther _ \<Rightarrow> None)"

definition empty_content :: message_content where
  "empty_content = \<lparr>mc_text = None, mc_task = None, mc_rest = JNull\<rparr>"

definition empty_task :: message_task where
  "empty_task = \<lparr>mt_state = None, mt_artifacts = [], mt_rest = JNull\<rparr>"

definition content_of :: "message_row \<Rightarrow> message_content" where
  "content_of r = (case mr_content r of None \<Rightarrow> empty_content | Some c \<Rightarrow> c)"

definition task_of :: "message_content \<Rightarrow> message_task" where
  "task_of c = (case mc_task c of None \<Rightarrow> empty_task | Some t \<Rightarrow> t)"

definition apply_update :: "task_update \<Rightarrow> message_row \<Rightarrow> message_row" where
  "apply_update u r = (case u of
      SetContent c \<Rightarrow> r\<lparr>mr_content := Some c\<rparr>
    | SetTask t \<Rightarrow> r\<lparr>mr_content := Some ((content_of r)\<lparr>mc_task := Some t\<rparr>)\<rparr>
    | SetState s \<Rightarrow> r\<lparr>mr_content := Some ((content_of r)\<lparr>mc_task :=
        Some ((task_of (content_of r))\<lparr>mt_state := Some s\<rparr>)\<rparr>)\<rparr>
    | SetOther j \<Rightarrow> r\<lparr>mr_rest := j\<rparr>)"

definition is_terminal_task :: "string option \<Rightarrow> bool" where
  "is_terminal_task s \<longleftrightarrow> (case s of None \<Rightarrow> False | Some x \<Rightarrow> x \<in> set terminal_task_states)"

text \<open>\<open>update_one\<close> of the agent messages.\<close>

definition update_agents ::
    "(message_row \<Rightarrow> bool) \<Rightarrow> (message_row \<Rightarrow> message_row) \<Rightarrow> message_db \<Rightarrow> bool \<times> message_db" where
  "update_agents p f db = (case update_one p f (md_agents db) of (b, rs) \<Rightarrow> (b, db\<lparr>md_agents := rs\<rparr>))"

text \<open>\<open>update_status\<close>: the state together with the other fields the caller names, in one \<open>$set\<close>.\<close>

definition update_status :: "string \<Rightarrow> string \<Rightarrow> task_update list \<Rightarrow> message_db \<Rightarrow> bool \<times> message_db" where
  "update_status i s us db = update_agents
     (\<lambda>r. mr_message_id r = i \<and> \<not> is_terminal_task (row_task_state r)) (fold apply_update (SetState s # us)) db"

definition has_text :: "string option \<Rightarrow> bool" where
  "has_text t \<longleftrightarrow> (case t of None \<Rightarrow> False | Some s \<Rightarrow> py_strip s \<noteq> [])"

text \<open>What the text and the artifacts of an update add to a message that has none.\<close>

definition update_content :: "task_update \<Rightarrow> message_content" where
  "update_content u = (case u of SetContent c \<Rightarrow> c | _ \<Rightarrow> empty_content)"

definition adds_text :: "task_update \<Rightarrow> message_row \<Rightarrow> bool" where
  "adds_text u r \<longleftrightarrow> has_text (mc_text (update_content u)) \<and> \<not> has_text (mc_text (content_of r))"

definition adds_artifacts :: "task_update \<Rightarrow> message_row \<Rightarrow> bool" where
  "adds_artifacts u r \<longleftrightarrow> mt_artifacts (task_of (update_content u)) \<noteq> []
     \<and> mt_artifacts (task_of (content_of r)) = []"

definition backfill :: "task_update \<Rightarrow> message_row \<Rightarrow> message_row \<Rightarrow> message_row" where
  "backfill u seen r = (let c = content_of r;
       c1 = (if adds_text u seen then c\<lparr>mc_text := mc_text (update_content u)\<rparr> else c);
       c2 = (if adds_artifacts u seen
         then c1\<lparr>mc_task := Some ((task_of c1)\<lparr>mt_artifacts := mt_artifacts (task_of (update_content u))\<rparr>)\<rparr> else c1)
     in r\<lparr>mr_content := Some c2\<rparr>)"

text \<open>The fence of the backfill: the row is what was read, in the fields the update depends on.\<close>

definition unchanged_since :: "task_update \<Rightarrow> message_row \<Rightarrow> message_row \<Rightarrow> bool" where
  "unchanged_since u seen r \<longleftrightarrow> mr_message_id r = mr_message_id seen \<and> row_task_state r = row_task_state seen
     \<and> (adds_text u seen \<longrightarrow> mc_text (content_of r) = mc_text (content_of seen))
     \<and> (adds_artifacts u seen \<longrightarrow> mt_artifacts (task_of (content_of r)) = mt_artifacts (task_of (content_of seen)))"

text \<open>\<open>update_agent_message\<close>. \<open>others\<close> are the writes of others between its three accesses.\<close>

definition update_agent_message ::
    "string \<Rightarrow> task_update \<Rightarrow> (message_db \<Rightarrow> message_db) \<Rightarrow> (message_db \<Rightarrow> message_db) \<Rightarrow> message_db
      \<Rightarrow> bool \<times> message_db" where
  "update_agent_message i u others1 others2 db =
    (case update_agents (\<lambda>r. mr_message_id r = i
        \<and> (updated_task_state u \<noteq> None \<longrightarrow> \<not> is_terminal_task (row_task_state r))) (apply_update u) db of
      (True, db1) \<Rightarrow> (True, db1)
    | (False, db1) \<Rightarrow> (let db2 = others1 db1 in
        case List.find (\<lambda>r. mr_message_id r = i) (md_agents db2) of
          None \<Rightarrow> (False, db2)
        | Some cur \<Rightarrow>
            if updated_task_state u \<noteq> None \<and> is_terminal_task (row_task_state cur)
            then if updated_task_state u \<noteq> row_task_state cur then (False, db2)
              else if \<not> adds_text u cur \<and> \<not> adds_artifacts u cur then (True, db2)
              else update_agents (unchanged_since u cur) (backfill u cur) (others2 db2)
            else (True, db2)))"

definition update_if_not_terminal :: "string \<Rightarrow> task_update \<Rightarrow> string list \<Rightarrow> message_db \<Rightarrow> bool \<times> message_db" where
  "update_if_not_terminal i u states db = update_agents
     (\<lambda>r. mr_message_id r = i \<and> (case row_task_state r of None \<Rightarrow> True | Some s \<Rightarrow> s \<notin> set states)) (apply_update u) db"

end
