(* ===== verification/Message_Timeline.thy ===== *)
theory Message_Timeline
  imports Message_Store
begin

text \<open>
  The timeline of a room as a client reads it. The reference is the sorted union of the two
  collections; the pages, each merged from two bounded queries, are its successive pieces.
\<close>

section \<open>Sorting downwards\<close>

lemma set_insert_desc [simp]: "set (insert_desc f x xs) = insert x (set xs)"
  by (induction xs) auto

lemma set_sort_desc [simp]: "set (sort_desc f xs) = set xs"
  by (induction xs) (simp_all add: sort_desc_def)

lemma length_insert_desc [simp]: "length (insert_desc f x xs) = Suc (length xs)"
  by (induction xs) auto

lemma length_sort_desc [simp]: "length (sort_desc f xs) = length xs"
  by (induction xs) (simp_all add: sort_desc_def)

lemma sort_desc_Cons: "sort_desc f (x # xs) = insert_desc f x (sort_desc f xs)"
  by (simp add: sort_desc_def)

definition descends :: "('a \<Rightarrow> 'k::linorder) \<Rightarrow> 'a list \<Rightarrow> bool" where
  "descends f xs \<longleftrightarrow> sorted_wrt (\<lambda>x y. f y < f x) xs"

lemma descends_insert: "descends f xs \<Longrightarrow> f x \<notin> f ` set xs \<Longrightarrow> descends f (insert_desc f x xs)"
  by (induction xs) (auto simp: descends_def)

lemma descends_sort: "distinct (map f xs) \<Longrightarrow> descends f (sort_desc f xs)"
proof (induction xs)
  case (Cons x xs)
  then show ?case by (auto simp: sort_desc_Cons intro: descends_insert)
qed (simp add: sort_desc_def descends_def)

lemma descends_unique: "descends f xs \<Longrightarrow> descends f ys \<Longrightarrow> set xs = set ys \<Longrightarrow> xs = ys"
proof (induction xs arbitrary: ys)
  case (Cons x xs)
  then obtain y zs where ys: "ys = y # zs" by (cases ys) auto
  have "x = y"
  proof (rule ccontr)
    assume "x \<noteq> y"
    with Cons.prems ys have "x \<in> set zs" "y \<in> set xs" by auto
    with Cons.prems ys have "f x < f y" "f y < f x" by (auto simp: descends_def)
    then show False by simp
  qed
  moreover have "set xs = set zs"
  proof -
    have "x \<notin> set xs" "y \<notin> set zs" using Cons.prems ys by (auto simp: descends_def)
    moreover from Cons.prems(3) ys \<open>x = y\<close> have "insert y (set xs) = insert y (set zs)" by simp
    ultimately show ?thesis using insert_ident [of y "set xs" "set zs"] \<open>x = y\<close> by blast
  qed
  moreover have "descends f xs" "descends f zs" using Cons.prems ys by (simp_all add: descends_def)
  ultimately have "xs = zs" using Cons.IH [of zs] by blast
  with \<open>x = y\<close> ys show ?case by simp
qed simp

text \<open>What is below enough others does not reach the beginning of the sorted list.\<close>

lemma take_insert_desc:
  "descends f xs \<Longrightarrow> k \<le> length (filter (\<lambda>y. f x < f y) xs) \<Longrightarrow> take k (insert_desc f x xs) = take k xs"
proof (induction xs arbitrary: k)
  case (Cons y ys)
  show ?case
  proof (cases "f y \<le> f x")
    case True
    with Cons.prems(1) have "\<forall>z \<in> set (y # ys). \<not> f x < f z" by (fastforce simp: descends_def)
    then have "filter (\<lambda>z. f x < f z) (y # ys) = []" by (simp only: filter_empty_conv simp_thms)
    with Cons.prems(2) show ?thesis by simp
  next
    case False
    with Cons.prems Cons.IH [of "k - 1"] show ?thesis by (cases k) (auto simp: descends_def not_le)
  qed
qed simp

lemma filter_sort_desc: "length (filter p (sort_desc f xs)) = length (filter p xs)"
proof (induction xs)
  case (Cons x xs)
  have "length (filter p (insert_desc f x ys)) = length (filter p (x # ys))" for ys by (induction ys) auto
  with Cons show ?case by (simp add: sort_desc_Cons)
qed (simp add: sort_desc_def)

lemma take_sort_drops:
  "distinct (map f (ds @ xs)) \<Longrightarrow> \<forall>d \<in> set ds. k \<le> length (filter (\<lambda>y. f d < f y) xs)
     \<Longrightarrow> take k (sort_desc f (ds @ xs)) = take k (sort_desc f xs)"
proof (induction ds)
  case (Cons d ds)
  have "length (filter (\<lambda>y. f d < f y) (sort_desc f (ds @ xs))) = length (filter (\<lambda>y. f d < f y) (ds @ xs))"
    by (rule filter_sort_desc)
  with Cons.prems(2) have "k \<le> length (filter (\<lambda>y. f d < f y) (sort_desc f (ds @ xs)))" by simp
  moreover have "descends f (sort_desc f (ds @ xs))" using Cons.prems(1) by (intro descends_sort) simp
  ultimately have "take k (sort_desc f ((d # ds) @ xs)) = take k (sort_desc f (ds @ xs))"
    by (simp add: sort_desc_Cons take_insert_desc)
  with Cons show ?case by simp
qed simp

lemma sort_desc_cong: "distinct (map f xs) \<Longrightarrow> distinct (map f ys) \<Longrightarrow> set xs = set ys \<Longrightarrow> sort_desc f xs = sort_desc f ys"
  by (rule descends_unique [of f]) (simp_all add: descends_sort)

text \<open>The beginning of the whole is the beginning of the merged beginnings.\<close>

lemma take_merged:
  assumes d: "distinct (map f (xs @ ys))" and k: "k \<le> m"
  shows "take k (sort_desc f (take m (sort_desc f xs) @ take m (sort_desc f ys))) = take k (sort_desc f (xs @ ys))"
proof -
  let ?A = "sort_desc f xs" and ?B = "sort_desc f ys"
  let ?rest = "drop m ?A @ drop m ?B" and ?top = "take m ?A @ take m ?B"
  have desc: "descends f ?A" "descends f ?B" using d by (auto intro: descends_sort)
  have above: "k \<le> length (filter (\<lambda>y. f z < f y) (take m zs))" if "descends f zs" "z \<in> set (drop m zs)" for z zs
  proof -
    from that have len: "m \<le> length zs" by (metis drop_all list.set(1) empty_iff linear)
    have "descends f (take m zs @ drop m zs)" using that(1) by simp
    then have "\<forall>y \<in> set (take m zs). f z < f y" using that(2)
      by (auto simp: descends_def sorted_wrt_append simp del: append_take_drop_id)
    then have "filter (\<lambda>y. f z < f y) (take m zs) = take m zs" by (simp add: filter_id_conv)
    with len k show ?thesis by simp
  qed
  have all: "set (?rest @ ?top) = set (xs @ ys)"
    by (metis (no_types, lifting) append_take_drop_id set_append set_sort_desc sup.commute sup_assoc sup_left_commute)
  have card: "length (?rest @ ?top) = length (xs @ ys)" by simp
  have dt: "distinct (map f (?rest @ ?top))"
  proof -
    have inj: "inj_on f (set (xs @ ys))" and "distinct (xs @ ys)" using d by (simp_all only: distinct_map)
    then have "distinct (?rest @ ?top)" using all card by (metis card_distinct distinct_card)
    with inj all show ?thesis by (simp only: distinct_map)
  qed
  have "take k (sort_desc f (?rest @ ?top)) = take k (sort_desc f ?top)"
  proof (rule take_sort_drops [OF dt])
    show "\<forall>z \<in> set ?rest. k \<le> length (filter (\<lambda>y. f z < f y) ?top)"
      using above [OF desc(1)] above [OF desc(2)] by (auto simp: trans_le_add1 trans_le_add2)
  qed
  moreover have "sort_desc f (?rest @ ?top) = sort_desc f (xs @ ys)" using sort_desc_cong [OF dt d all] .
  ultimately show ?thesis by simp
qed

lemma sort_desc_map:
  "(\<And>x y. f (g y) \<le> f (g x) \<longleftrightarrow> h y \<le> h x) \<Longrightarrow> sort_desc f (map g xs) = map g (sort_desc h xs)"
proof (induction xs)
  case (Cons x xs)
  have "insert_desc f (g x) (map g ys) = map g (insert_desc h x ys)" for ys
    using Cons.prems by (induction ys) auto
  with Cons show ?case by (simp add: sort_desc_Cons)
qed (simp add: sort_desc_def)

lemma sort_desc_filter:
  assumes "distinct (map f xs)"
  shows "sort_desc f (filter p xs) = filter p (sort_desc f xs)"
proof (rule descends_unique [of f])
  show "descends f (sort_desc f (filter p xs))" using assms by (intro descends_sort distinct_map_filter)
  show "descends f (filter p (sort_desc f xs))"
    using descends_sort [OF assms] by (simp add: descends_def sorted_wrt_filter)
qed auto

section \<open>The reference\<close>

text \<open>The timeline of a room, newest first: both collections, sorted together.\<close>

definition newest_first :: "string \<Rightarrow> message_db \<Rightarrow> entry list" where
  "newest_first room db = sort_desc row_key
     (map (Pair UserSource) (filter (\<lambda>r. mr_room_id r = room) (md_users db))
      @ map (Pair AgentSource) (filter (\<lambda>r. mr_room_id r = room) (md_agents db)))"

definition timeline :: "string \<Rightarrow> message_db \<Rightarrow> entry list" where
  "timeline room db = rev (newest_first room db)"

text \<open>The unique indexes of the two collections.\<close>

definition ids_unique :: "message_db \<Rightarrow> bool" where
  "ids_unique db \<longleftrightarrow> distinct (map mr_message_id (md_users db)) \<and> distinct (map mr_message_id (md_agents db))"

definition position_key :: "timeline_position \<Rightarrow> row_order" where
  "position_key b = timeline_key (tp_sort_us b) (tp_source b) (tp_message_id b)"

lemma position_of_key [simp]: "position_key (position_of e) = row_key e"
  by (simp add: position_key_def position_of_def row_key_def)

lemma query_below:
  "timeline_query room s (Some b) r \<longleftrightarrow> mr_room_id r = room \<and> row_key (s, r) < position_key b"
  by (cases s; cases "tp_source b")
    (auto simp: timeline_query_def row_key_def position_key_def timeline_key_def source_rank_def less_prod_def)

definition below :: "timeline_position option \<Rightarrow> entry \<Rightarrow> bool" where
  "below before e \<longleftrightarrow> (case before of None \<Rightarrow> True | Some b \<Rightarrow> row_key e < position_key b)"

lemma query_split: "timeline_query room s before r \<longleftrightarrow> mr_room_id r = room \<and> below before (s, r)"
  by (cases before) (simp_all add: query_below below_def, simp add: timeline_query_def)

lemma keys_distinct:
  assumes "ids_unique db"
  shows "distinct (map row_key (map (Pair UserSource) (filter p (md_users db)) @ map (Pair AgentSource) (filter q (md_agents db))))"
proof -
  have "distinct (map (\<lambda>r. row_key (s, r)) rs)" if "distinct (map mr_message_id rs)" for s rs
    using that by (induction rs) (auto simp: row_key_def timeline_key_def)
  from this [of "filter p (md_users db)" UserSource] this [of "filter q (md_agents db)" AgentSource] assms
  have "distinct (map (\<lambda>r. row_key (UserSource, r)) (filter p (md_users db)))"
    "distinct (map (\<lambda>r. row_key (AgentSource, r)) (filter q (md_agents db)))"
    by (simp_all add: ids_unique_def distinct_map_filter)
  then show ?thesis by (auto simp: comp_def row_key_def timeline_key_def source_rank_def)
qed

lemma newest_descends: "ids_unique db \<Longrightarrow> descends row_key (newest_first room db)"
  unfolding newest_first_def by (rule descends_sort, rule keys_distinct)

text \<open>The rows of both collections below a cursor are the rows of the timeline below it.\<close>

lemma below_rows:
  assumes "ids_unique db"
  shows "sort_desc row_key (map (Pair UserSource) (filter (timeline_query room UserSource before) (md_users db))
      @ map (Pair AgentSource) (filter (timeline_query room AgentSource before) (md_agents db)))
    = filter (below before) (newest_first room db)"
proof -
  have f: "map (Pair s) (filter (timeline_query room s before) rs)
      = filter (below before) (map (Pair s) (filter (\<lambda>r. mr_room_id r = room) rs))" for s rs
    by (induction rs) (auto simp: query_split)
  show ?thesis unfolding f newest_first_def filter_append [symmetric]
    by (rule sort_desc_filter [OF keys_distinct [OF assms]])
qed

section \<open>One page\<close>

lemma fetched:
  "map (Pair s) (query_rows p m rows) = take m (sort_desc row_key (map (Pair s) (filter p rows)))"
  unfolding query_rows_def take_map [symmetric]
  by (subst sort_desc_map [where h = "\<lambda>r. (mr_sort_us r, mr_message_id r)"])
    (auto simp: row_key_def timeline_key_def less_eq_prod_def)

lemma page_is_piece:
  assumes "ids_unique db" and "0 < limit" and "filter (below before) (newest_first room db) = rs"
  shows "get_timeline_page room limit before db = \<lparr>pg_entries = rev (take limit rs), pg_has_more = (limit < length rs),
    pg_next_position = (if limit < length rs then Some (position_of (last (take limit rs))) else None)\<rparr>"
proof -
  let ?U = "map (Pair UserSource) (filter (timeline_query room UserSource before) (md_users db))"
  let ?A = "map (Pair AgentSource) (filter (timeline_query room AgentSource before) (md_agents db))"
  let ?merged = "sort_desc row_key (take (Suc limit) (sort_desc row_key ?U) @ take (Suc limit) (sort_desc row_key ?A))"
  have rs: "sort_desc row_key (?U @ ?A) = rs" unfolding below_rows [OF assms(1)] by (rule assms(3))
  have take: "take limit ?merged = take limit rs"
    using take_merged [OF keys_distinct [OF assms(1)], of limit "Suc limit"] rs by simp
  have len: "limit < length ?merged \<longleftrightarrow> limit < length rs" by (auto simp flip: rs)
  have "limit < length rs \<Longrightarrow> take limit rs \<noteq> []" using assms(2) by (cases rs) auto
  moreover have "limit < length rs \<Longrightarrow> ?merged \<noteq> []" using len by fastforce
  ultimately show ?thesis by (simp add: get_timeline_page_def Let_def fetched take len del: length_sort_desc)
qed

text \<open>Below the last row of a page is the rest of the timeline.\<close>

lemma below_last:
  assumes "descends row_key (ps @ rs)" and "0 < limit" and "limit < length rs"
  shows "filter (below (Some (position_of (last (take limit rs))))) (ps @ rs) = drop limit rs"
proof -
  let ?t = "take limit rs" and ?d = "drop limit rs"
  have ne: "?t \<noteq> []" using assms(2,3) by auto
  then have t: "?t = butlast ?t @ [last ?t]" by simp
  have "descends row_key (ps @ (butlast ?t @ [last ?t]) @ ?d)" using assms(1) t by simp
  then have d: "\<forall>x \<in> set (ps @ butlast ?t @ [last ?t]). row_key (last ?t) \<le> row_key x"
    "\<forall>x \<in> set ?d. row_key x < row_key (last ?t)"
    by (auto simp: descends_def sorted_wrt_append less_imp_le simp del: append_butlast_last_id)
  have "filter (below (Some (position_of (last ?t)))) (ps @ butlast ?t @ [last ?t]) = []"
    using d(1) by (simp add: filter_empty_conv below_def leD del: append_butlast_last_id)
  moreover have "filter (below (Some (position_of (last ?t)))) ?d = ?d"
    using d(2) by (simp add: filter_id_conv below_def)
  moreover have "ps @ rs = (ps @ butlast ?t @ [last ?t]) @ ?d" using t by simp
  ultimately show ?thesis by (metis append_Nil filter_append)
qed

section \<open>All pages\<close>

lemma scroll_pieces:
  assumes "ids_unique db" and "0 < limit"
  shows "newest_first room db = ps @ rs \<Longrightarrow> filter (below before) (newest_first room db) = rs \<Longrightarrow> length rs < n
    \<Longrightarrow> \<exists>pages. scroll n room limit before db = Some pages \<and> concat (map pg_entries (rev pages)) = rev rs
      \<and> (\<forall>p \<in> set pages. length (pg_entries p) \<le> limit)"
proof (induction n arbitrary: ps rs before)
  case (Suc n)
  note page = page_is_piece [OF assms Suc.prems(2)]
  show ?case
  proof (cases "limit < length rs")
    case False
    with page show ?thesis by simp
  next
    case True
    let ?q = "position_of (last (take limit rs))"
    have "descends row_key (ps @ rs)" using newest_descends [OF assms(1)] Suc.prems(1) by metis
    from below_last [OF this assms(2) True] Suc.prems(1)
    have "filter (below (Some ?q)) (newest_first room db) = drop limit rs" by simp
    moreover have "newest_first room db = (ps @ take limit rs) @ drop limit rs" using Suc.prems(1) by simp
    moreover have "length (drop limit rs) < n" using Suc.prems(3) True assms(2) by simp
    ultimately obtain pages where pages: "scroll n room limit (Some ?q) db = Some pages"
      "concat (map pg_entries (rev pages)) = rev (drop limit rs)" "\<forall>p \<in> set pages. length (pg_entries p) \<le> limit"
      using Suc.IH by blast
    have "rev (drop limit rs) @ rev (take limit rs) = rev rs" by (metis append_take_drop_id rev_append)
    with pages page True show ?thesis by simp
  qed
qed simp

text \<open>
  C24: Scrolling through a room shows its timeline: following the cursors from the newest page to the last, with any page size, ends, and the pages put together are exactly the messages of both collections in timeline order, none missing and none twice.\<close>

theorem pages_make_the_timeline:
  assumes "ids_unique db" and "0 < limit" and "length (md_users db) + length (md_agents db) < n"
  shows "\<exists>pages. scroll n room limit None db = Some pages \<and> concat (map pg_entries (rev pages)) = timeline room db
    \<and> (\<forall>p \<in> set pages. length (pg_entries p) \<le> limit)"
proof -
  have "length (newest_first room db) \<le> length (md_users db) + length (md_agents db)"
    by (simp add: newest_first_def add_mono)
  with assms(3) have "length (newest_first room db) < n" by simp
  with scroll_pieces [OF assms(1,2), of room "[]" "newest_first room db" None n] show ?thesis
    by (simp add: timeline_def below_def)
qed

text \<open>
  Messages that arrive while a client scrolls do not disturb it: a page below a cursor is the same after messages at or above the cursor were added to either collection.\<close>

theorem newer_messages_keep_older_pages:
  assumes "\<forall>r \<in> set users. mr_room_id r = room \<longrightarrow> position_key b \<le> row_key (UserSource, r)"
    and "\<forall>r \<in> set agents. mr_room_id r = room \<longrightarrow> position_key b \<le> row_key (AgentSource, r)"
  shows "get_timeline_page room limit (Some b) (db\<lparr>md_users := md_users db @ users, md_agents := md_agents db @ agents\<rparr>)
    = get_timeline_page room limit (Some b) db"
proof -
  have "filter (timeline_query room UserSource (Some b)) users = []"
    "filter (timeline_query room AgentSource (Some b)) agents = []"
    using assms by (auto simp: filter_empty_conv query_below leD)
  then show ?thesis by (simp add: get_timeline_page_def query_rows_def)
qed

end
