(* ===== verification/Message_Thread.thy ===== *)
theory Message_Thread
  imports Message_Store
begin

text \<open>
  A thread is what a message leads to: the loop over frontiers finds every message reachable by replies
  and nothing else, each once, and after some message it replies to, as long as no query of a level
  is cut at the limit of the adapter; a longer level loses its last replies.
\<close>

section \<open>Replies\<close>

definition replies :: "message_db \<Rightarrow> (string \<times> string) set" where
  "replies db = {(p, mr_message_id r) | p r. r \<in> set (md_users db @ md_agents db) \<and> mr_message_id r \<noteq> []
     \<and> (mr_related_message_id r = Some p \<or> mr_parent_message_id r = Some p)}"

text \<open>The answers to the messages of a thread that one collection holds, and a thread no query of which is cut.\<close>

definition thread_answers :: "string \<Rightarrow> message_db \<Rightarrow> message_row list \<Rightarrow> message_row list" where
  "thread_answers parent db rows = filter (\<lambda>r. \<exists>p. (parent, p) \<in> (replies db)\<^sup>*
     \<and> (mr_related_message_id r = Some p \<or> mr_parent_message_id r = Some p)) rows"

definition thread_fits :: "string \<Rightarrow> message_db \<Rightarrow> bool" where
  "thread_fits parent db \<longleftrightarrow> length (thread_answers parent db (md_users db)) \<le> find_limit
     \<and> length (thread_answers parent db (md_agents db)) \<le> find_limit"

text \<open>The ids of a thread in the order they are found: each new, and a reply to one found before.\<close>

inductive found :: "message_db \<Rightarrow> string \<Rightarrow> string list \<Rightarrow> bool" for db origin where
  found_root: "found db origin [origin]"
| found_reply: "found db origin js \<Longrightarrow> p \<in> set js \<Longrightarrow> (p, i) \<in> replies db \<Longrightarrow> i \<notin> set js \<Longrightarrow> found db origin (js @ [i])"

lemma found_distinct: "found db origin js \<Longrightarrow> distinct js \<and> origin \<in> set js"
  by (induction rule: found.induct) auto

lemma found_reachable: "found db origin js \<Longrightarrow> i \<in> set js \<Longrightarrow> (origin, i) \<in> (replies db)\<^sup>*"
proof (induction arbitrary: i rule: found.induct)
  case (found_reply js p j)
  then show ?case by (cases "i = j") (auto intro: rtrancl_into_rtrancl)
qed simp

lemma found_order: "found db origin js \<Longrightarrow> 0 < k \<Longrightarrow> k < length js \<Longrightarrow> \<exists>p \<in> set (take k js). (p, js ! k) \<in> replies db"
proof (induction rule: found.induct)
  case (found_reply js p i)
  then show ?case by (cases "k < length js") (auto simp: nth_append less_Suc_eq)
qed simp

section \<open>One level\<close>

definition state_ok :: "message_db \<Rightarrow> string \<Rightarrow> thread_state \<Rightarrow> bool" where
  "state_ok db origin s \<longleftrightarrow> found db origin (ts_seen s) \<and> ts_seen s = origin # map mr_message_id (ts_thread s)"

lemma visit_ok:
  "state_ok db origin s \<Longrightarrow> p \<in> set (ts_seen s) \<Longrightarrow> mr_message_id r \<noteq> [] \<Longrightarrow> (p, mr_message_id r) \<in> replies db
     \<Longrightarrow> state_ok db origin (visit r s)"
  using found_reply [of db origin "ts_seen s" p "mr_message_id r"] by (auto simp: state_ok_def visit_def)

lemma visits_ok:
  "state_ok db origin s \<Longrightarrow> \<forall>r \<in> set rs. mr_message_id r \<noteq> [] \<longrightarrow> (\<exists>p \<in> set (ts_seen s). (p, mr_message_id r) \<in> replies db)
     \<Longrightarrow> state_ok db origin (foldl (\<lambda>s r. visit r s) s rs)
       \<and> set (ts_seen (foldl (\<lambda>s r. visit r s) s rs)) = set (ts_seen s) \<union> {mr_message_id r | r. r \<in> set rs \<and> mr_message_id r \<noteq> []}"
proof (induction rs arbitrary: s)
  case (Cons r rs)
  have ok: "state_ok db origin (visit r s)"
  proof (cases "mr_message_id r = []")
    case True
    with Cons.prems(1) show ?thesis by (simp add: visit_def)
  next
    case False
    with Cons.prems visit_ok show ?thesis by force
  qed
  have seen: "set (ts_seen (visit r s)) = set (ts_seen s) \<union> (if mr_message_id r = [] then {} else {mr_message_id r})"
    by (auto simp: visit_def)
  with Cons.prems(2) have "\<forall>x \<in> set rs. mr_message_id x \<noteq> [] \<longrightarrow> (\<exists>p \<in> set (ts_seen (visit r s)). (p, mr_message_id x) \<in> replies db)"
    by auto
  from Cons.IH [OF ok this] seen show ?case by auto
qed simp

lemma thread_rows_replies:
  "r \<in> set (thread_rows frontier db) \<Longrightarrow> mr_message_id r \<noteq> [] \<Longrightarrow> \<exists>p \<in> set frontier. (p, mr_message_id r) \<in> replies db"
  by (auto simp: thread_rows_def answers_to_def replies_def dest!: set_find_rows) blast+

lemma few_answers:
  assumes "thread_fits origin db" and "\<And>p. p \<in> set frontier \<Longrightarrow> (origin, p) \<in> (replies db)\<^sup>*"
  shows "find_rows None (answers_to frontier) (md_users db) = filter (answers_to frontier) (md_users db)"
    and "find_rows None (answers_to frontier) (md_agents db) = filter (answers_to frontier) (md_agents db)"
proof -
  have "length (filter (answers_to frontier) rows) \<le> length (thread_answers origin db rows)" for rows
    using assms(2) by (induction rows) (auto simp: answers_to_def thread_answers_def)
  with assms(1) find_rows_all order_trans
  show "find_rows None (answers_to frontier) (md_users db) = filter (answers_to frontier) (md_users db)"
    and "find_rows None (answers_to frontier) (md_agents db) = filter (answers_to frontier) (md_agents db)"
    unfolding thread_fits_def by blast+
qed

lemma replies_thread_rows:
  assumes "thread_fits origin db" and "\<And>p. p \<in> set frontier \<Longrightarrow> (origin, p) \<in> (replies db)\<^sup>*"
    and "(p, i) \<in> replies db" and "p \<in> set frontier"
  shows "\<exists>r \<in> set (thread_rows frontier db). mr_message_id r = i \<and> i \<noteq> []"
  using assms(3,4) few_answers [OF assms(1,2)] by (fastforce simp: thread_rows_def answers_to_def replies_def)

text \<open>Everything seen before the frontier has its replies among the seen.\<close>

definition explored :: "message_db \<Rightarrow> string list \<Rightarrow> thread_state \<Rightarrow> bool" where
  "explored db frontier s \<longleftrightarrow> set frontier \<subseteq> set (ts_seen s)
     \<and> (\<forall>p i. (p, i) \<in> replies db \<longrightarrow> p \<in> set (ts_seen s) - set frontier \<longrightarrow> i \<in> set (ts_seen s))"

lemma level_ok:
  assumes "state_ok db origin s" and "explored db frontier s" and "thread_fits origin db"
  shows "state_ok db origin (visit_level frontier db s) \<and> explored db (ts_next (visit_level frontier db s)) (visit_level frontier db s)"
proof -
  let ?reset = "s\<lparr>ts_next := []\<rparr>" and ?s = "visit_level frontier db s"
  have ok0: "state_ok db origin ?reset" using assms(1) by (auto simp: state_ok_def)
  have "\<forall>r \<in> set (thread_rows frontier db). mr_message_id r \<noteq> [] \<longrightarrow> (\<exists>p \<in> set (ts_seen ?reset). (p, mr_message_id r) \<in> replies db)"
    using thread_rows_replies assms(2) by (fastforce simp: explored_def)
  note v = visits_ok [OF ok0 this, folded visit_level_def]
  obtain ks where ks: "ts_seen ?s = ts_seen s @ ks" "ts_next ?s = ks"
    using visit_seen [of ?reset "thread_rows frontier db" ?s] by (auto simp: visit_level_def)
  have "i \<in> set (ts_seen ?s)" if "(p, i) \<in> replies db" "p \<in> set (ts_seen ?s) - set ks" for p i
  proof (cases "p \<in> set frontier")
    case True
    have "(origin, q) \<in> (replies db)\<^sup>*" if "q \<in> set frontier" for q
      using that assms(1,2) found_reachable by (auto simp: state_ok_def explored_def)
    from replies_thread_rows [OF assms(3) this that(1) True] v show ?thesis by auto
  next
    case False
    with that ks(1) assms(2) show ?thesis by (auto simp: explored_def)
  qed
  with v ks show ?thesis by (auto simp: explored_def)
qed

section \<open>The whole thread\<close>

lemma loop_finds:
  "state_ok db origin s \<Longrightarrow> explored db frontier s \<Longrightarrow> thread_fits origin db \<Longrightarrow>
     \<exists>js. js = origin # map mr_message_id (thread_loop db frontier s) \<and> found db origin js
       \<and> (\<forall>p i. (p, i) \<in> replies db \<longrightarrow> p \<in> set js \<longrightarrow> i \<in> set js)"
proof (induction db frontier s rule: thread_loop.induct)
  case (1 db frontier s)
  show ?case
  proof (cases "frontier = []")
    case True
    then have "thread_loop db frontier s = ts_thread s" by (simp add: thread_loop.simps)
    with 1(2,3) True show ?thesis by (auto simp: state_ok_def explored_def)
  next
    case False
    from level_ok [OF 1(2-4)] 1(1) [OF False refl] 1(4) show ?thesis
      by (simp add: thread_loop.simps [of db frontier s] False Let_def)
  qed
qed

text \<open>
  C25: The thread of a message is exactly what replies to it, directly or through other replies: every reachable message once and no other, and each one after some message it replies to (a message that replies to several may come before the later ones of these); the loop ends also where messages reply to each other in a circle. The condition is that neither collection holds more answers to the messages of the thread than the thousand that one query returns.\<close>

theorem thread_is_what_replies:
  assumes "thread_fits parent db"
  shows "set (map mr_message_id (get_thread parent db)) = {i. (parent, i) \<in> (replies db)\<^sup>+} - {parent}
   \<and> distinct (parent # map mr_message_id (get_thread parent db))
   \<and> (\<forall>k < length (get_thread parent db). \<exists>p \<in> set (parent # take k (map mr_message_id (get_thread parent db))).
        (p, mr_message_id (get_thread parent db ! k)) \<in> replies db)"
proof -
  let ?t = "get_thread parent db"
  have "state_ok db parent \<lparr>ts_thread = [], ts_seen = [parent], ts_next = []\<rparr>"
    "explored db [parent] \<lparr>ts_thread = [], ts_seen = [parent], ts_next = []\<rparr>"
    by (simp_all add: state_ok_def explored_def found_root)
  from loop_finds [OF this assms] have f: "found db parent (parent # map mr_message_id ?t)"
    and closed: "\<And>p i. (p, i) \<in> replies db \<Longrightarrow> p \<in> set (parent # map mr_message_id ?t) \<Longrightarrow> i \<in> set (parent # map mr_message_id ?t)"
    by (auto simp: get_thread_def)
  note d = found_distinct [OF f]
  have "(parent, i) \<in> (replies db)\<^sup>+ \<Longrightarrow> i \<in> set (parent # map mr_message_id ?t)" for i
  proof (induction rule: trancl_induct)
    case (base y)
    then show ?case by (rule closed) simp
  next
    case (step y z)
    then show ?case using closed by blast
  qed
  moreover have "(parent, i) \<in> (replies db)\<^sup>+" if "i \<in> set (map mr_message_id ?t)" for i
    using found_reachable [OF f, of i] that d by (auto simp: rtrancl_eq_or_trancl)
  ultimately have "set (map mr_message_id ?t) = {i. (parent, i) \<in> (replies db)\<^sup>+} - {parent}"
    using d by auto
  moreover have "\<exists>p \<in> set (parent # take k (map mr_message_id ?t)). (p, mr_message_id (?t ! k)) \<in> replies db"
    if "k < length ?t" for k
    using found_order [OF f, of "Suc k"] that by simp
  ultimately show ?thesis using d by blast
qed

section \<open>Long threads\<close>

lemma visits_fresh:
  "distinct (map mr_message_id rs) \<Longrightarrow> [] \<notin> mr_message_id ` set rs \<Longrightarrow> mr_message_id ` set rs \<inter> set (ts_seen s) = {} \<Longrightarrow>
     foldl (\<lambda>s r. visit r s) s rs = \<lparr>ts_thread = ts_thread s @ rs, ts_seen = ts_seen s @ map mr_message_id rs,
       ts_next = ts_next s @ map mr_message_id rs\<rparr>"
proof (induction rs arbitrary: s)
  case (Cons r rs)
  then have "visit r s = \<lparr>ts_thread = ts_thread s @ [r], ts_seen = ts_seen s @ [mr_message_id r],
      ts_next = ts_next s @ [mr_message_id r]\<rparr>" by (auto simp: visit_def)
  with Cons.IH [of "visit r s"] Cons.prems show ?case by auto
qed simp

text \<open>
  C40: A long thread is cut. Take a message that more than a thousand Agent messages answer, with distinct nonempty ids, while no user message answers it and nothing answers its answers, whatever else the store holds: its thread holds exactly the first thousand of the answers in the order of the collection, and silently misses the rest.\<close>

theorem long_thread_is_cut:
  assumes answers: "answers = filter (answers_to [parent]) (md_agents db)" and "find_limit < length answers"
    and "distinct (parent # [] # map mr_message_id answers)" and "\<forall>r \<in> set (md_users db). \<not> answers_to [parent] r"
    and "\<forall>r \<in> set (md_users db @ md_agents db). \<not> answers_to (map mr_message_id answers) r"
  shows "set (get_thread parent db) = set (take find_limit answers)
    \<and> length (get_thread parent db) = find_limit \<and> (\<exists>r \<in> set answers. r \<notin> set (get_thread parent db))"
proof -
  let ?s0 = "\<lparr>ts_thread = [], ts_seen = [parent], ts_next = []\<rparr>" and ?cut = "take find_limit answers"
  let ?rs = "sort_key history_key ?cut"
  have first: "thread_rows [parent] db = ?rs"
    using assms(4) answers by (simp add: thread_rows_def find_rows_def filter_False)
  have sub: "set ?rs \<subseteq> set answers" by (simp add: set_take_subset)
  have d: "distinct (map mr_message_id ?rs)"
  proof -
    have "distinct (map mr_message_id ?cut)" using assms(3) by (simp add: take_map [symmetric])
    then show ?thesis by (simp add: distinct_map distinct_insort inj_on_def)
  qed
  have v: "visit_level [parent] db ?s0 = \<lparr>ts_thread = ?rs, ts_seen = parent # map mr_message_id ?rs, ts_next = map mr_message_id ?rs\<rparr>"
    unfolding visit_level_def first using assms(3) sub by (subst visits_fresh [OF d]) auto
  have "\<not> answers_to (map mr_message_id ?rs) r" if "r \<in> set (md_users db @ md_agents db)" for r
    using assms(5) that sub by (fastforce simp: answers_to_def)
  then have second: "thread_rows (map mr_message_id ?rs) db = []"
    by (simp add: thread_rows_def find_rows_def filter_False)
  have "length ?rs = find_limit" using assms(2) by simp
  moreover have "0 < find_limit" by (simp add: find_limit_def)
  ultimately have ne: "map mr_message_id ?rs \<noteq> []" by (metis length_greater_0_conv length_map)
  have "get_thread parent db = ?rs"
    unfolding get_thread_def
    by (subst thread_loop.simps, simp add: v Let_def, subst thread_loop.simps)
      (use ne in \<open>simp add: visit_level_def second Let_def thread_loop.simps\<close>)
  moreover have "\<exists>r \<in> set answers. r \<notin> set ?cut"
  proof -
    have "answers ! find_limit \<notin> set ?cut"
      using assms(2,3) by (auto simp: in_set_conv_nth distinct_map nth_eq_iff_index_eq)
    with assms(2) show ?thesis by (auto intro: nth_mem)
  qed
  ultimately show ?thesis using assms(2) by simp
qed

end
