(* ===== verification/Message_Writes.thy ===== *)
theory Message_Writes
  imports Message_Store
begin

text \<open>
  The promises of the writes: a request that is sent again, by a client that lost the answer or by two
  instances at once, becomes one message; and the terminal state of the task of an agent message, with
  the text and the artifacts it was settled with, survives every later update that names a state.
\<close>

section \<open>Idempotent inserts\<close>

definition user_keys_unique :: "message_db \<Rightarrow> bool" where
  "user_keys_unique db \<longleftrightarrow> sorted_wrt (\<lambda>r m. \<not> same_key m r) (md_users db)"

text \<open>Other requests only add rows.\<close>

definition users_grow :: "message_db \<Rightarrow> message_db \<Rightarrow> bool" where
  "users_grow db db' \<longleftrightarrow> (\<exists>rs. md_users db' = md_users db @ rs)"

lemma users_grow_trans: "users_grow a b \<Longrightarrow> users_grow b c \<Longrightarrow> users_grow a c"
  by (auto simp: users_grow_def)

lemma insert_user_keeps: "insert_user m db = Some db' \<Longrightarrow> user_keys_unique db \<Longrightarrow> user_keys_unique db' \<and> users_grow db db'"
  by (auto simp: insert_user_def user_keys_unique_def users_grow_def sorted_wrt_append list_ex_iff split: if_splits)

lemma key_row_unique:
  assumes "user_keys_unique db" and "r \<in> set (md_users db)" and "m \<in> set (md_users db)"
    and "mr_room_id r = mr_room_id m" and "mr_client_request_id r = mr_client_request_id m" and "mr_client_request_id r \<noteq> None"
  shows "r = m"
proof -
  have "sorted_wrt (\<lambda>r m. \<not> same_key m r) rs \<Longrightarrow> r \<in> set rs \<Longrightarrow> m \<in> set rs \<Longrightarrow> r = m" for rs
    using assms(4-6) by (induction rs) (auto simp: same_key_def)
  with assms(1-3) show ?thesis by (auto simp: user_keys_unique_def)
qed

lemma found_by_key:
  assumes "user_keys_unique db" and "r \<in> set (md_users db)" and "mr_client_request_id r = Some c"
  shows "by_request_key (mr_room_id r) c db = Some r"
  unfolding by_request_key_def
  by (rule find_unique) (use assms key_row_unique [OF assms(1)] in auto)

lemma canonical_id: "canonical_user_message d = Inr m \<Longrightarrow> mr_message_id m \<noteq> []"
  by (auto simp: canonical_user_message_def py_strip_def split: if_splits option.splits)

text \<open>The fields without which the insert is refused.\<close>

definition request_complete :: "message_row \<Rightarrow> bool" where
  "request_complete m \<longleftrightarrow> mr_client_request_id m \<noteq> None \<and> mr_fingerprint m \<noteq> None \<and> mr_fingerprint m \<noteq> Some []
     \<and> mr_fingerprint_version m \<noteq> None"

text \<open>A request that succeeded has left its row.\<close>

lemma insert_leaves_row:
  assumes "insert_idempotently d db later = (Inr r, s)" and "canonical_user_message d = Inr m"
  shows "\<exists>x \<in> set (md_users s). mr_room_id x = mr_room_id m \<and> mr_client_request_id x = mr_client_request_id m
    \<and> mr_client_request_id m \<noteq> None \<and> mr_message_id x = ir_message_id r \<and> x = ir_document r \<and> mr_message_id x \<noteq> [] \<and> fingerprint_matches x m"
proof -
  from assms obtain c where c: "mr_client_request_id m = Some c"
    by (auto simp: insert_idempotently_def split: option.splits)
  show ?thesis
  proof (cases "insert_user m db")
    case (Some db')
    then have "m \<in> set (md_users db')" by (auto simp: insert_user_def split: if_splits)
    with assms c Some canonical_id [OF assms(2)] show ?thesis
      by (auto simp: insert_idempotently_def fingerprint_matches_def split: if_splits intro!: bexI [of _ m])
  next
    case None
    with assms c obtain x where x: "by_request_key (mr_room_id m) c later = Some x" "s = later"
      "r = \<lparr>ir_message_id = mr_message_id x, ir_created = False, ir_document = x\<rparr>" "mr_message_id x \<noteq> []" "fingerprint_matches x m"
      by (auto simp: insert_idempotently_def split: if_splits option.splits)
    from find_Some [OF x(1) [unfolded by_request_key_def]] x(2-5) c show ?thesis by auto
  qed
qed

text \<open>
  C23: A request sent again is one message: once a send with a request key has succeeded, every later send with the same key in the room, whatever was inserted in between and whichever insert won, answers the same message and creates none when the fingerprints agree, and is refused as a conflict when they do not.\<close>

theorem request_is_one_message:
  assumes "insert_idempotently d1 db1 later1 = (Inr r, s)" and "canonical_user_message d1 = Inr m1"
    and "canonical_user_message d2 = Inr m2" and "request_complete m2"
    and "mr_room_id m2 = mr_room_id m1" and "mr_client_request_id m2 = mr_client_request_id m1"
    and "users_grow s db2" and "users_grow db2 later2" and "user_keys_unique later2"
  shows "insert_idempotently d2 db2 later2 = ((if fingerprint_matches m1 m2
      then Inr \<lparr>ir_message_id = ir_message_id r, ir_created = False, ir_document = ir_document r\<rparr> else Inl IdempotencyConflict), later2)"
proof -
  from insert_leaves_row [OF assms(1,2)] obtain x where x: "x \<in> set (md_users s)" "mr_room_id x = mr_room_id m1"
    "mr_client_request_id x = mr_client_request_id m1" "mr_client_request_id m1 \<noteq> None"
    "mr_message_id x = ir_message_id r" "x = ir_document r" "mr_message_id x \<noteq> []" "fingerprint_matches x m1" by blast
  obtain c where c: "mr_client_request_id m2 = Some c" using assms(4) by (auto simp: request_complete_def)
  have later: "x \<in> set (md_users db2)" "x \<in> set (md_users later2)"
    using x(1) assms(7,8) by (auto simp: users_grow_def)
  have "same_key m2 x" using x(2,3) assms(5,6) c by (auto simp: same_key_def)
  with later(1) have none: "insert_user m2 db2 = None" by (auto simp: insert_user_def list_ex_iff)
  have found: "by_request_key (mr_room_id m2) c later2 = Some x"
    using found_by_key [OF assms(9) later(2)] x(2,3) assms(5,6) c by simp
  have "fingerprint_matches x m2 \<longleftrightarrow> fingerprint_matches m1 m2" using x(8) by (auto simp: fingerprint_matches_def)
  with assms(3,4) c none found x(5-7) show ?thesis
    by (auto simp: insert_idempotently_def request_complete_def)
qed

section \<open>Terminal tasks\<close>

text \<open>
  What a settled agent message keeps: its identity and everything its content says but for the text and
  the artifacts, and those as soon as it has them.
\<close>

definition settled_core :: "message_row \<Rightarrow> message_row" where
  "settled_core r = r\<lparr>mr_rest := JNull, mr_content := map_option (\<lambda>c. c\<lparr>mc_text := None,
     mc_task := map_option (\<lambda>t. t\<lparr>mt_artifacts := []\<rparr>) (mc_task c)\<rparr>) (mr_content r)\<rparr>"

definition still_settled :: "message_row \<Rightarrow> message_row \<Rightarrow> bool" where
  "still_settled r r' \<longleftrightarrow> settled_core r' = settled_core r \<and> row_task_state r' = row_task_state r
     \<and> (has_text (mc_text (content_of r)) \<longrightarrow> mc_text (content_of r') = mc_text (content_of r))
     \<and> (mt_artifacts (task_of (content_of r)) \<noteq> []
          \<longrightarrow> mt_artifacts (task_of (content_of r')) = mt_artifacts (task_of (content_of r)))"

definition keeps_settled :: "message_db \<Rightarrow> message_db \<Rightarrow> bool" where
  "keeps_settled db db' \<longleftrightarrow> (\<forall>r \<in> set (md_agents db). is_terminal_task (row_task_state r)
     \<longrightarrow> (\<exists>r' \<in> set (md_agents db'). still_settled r r'))"

lemma still_settled_refl [simp]: "still_settled r r"
  by (simp add: still_settled_def)

lemma still_settled_trans: "still_settled a b \<Longrightarrow> still_settled b c \<Longrightarrow> still_settled a c"
  by (auto simp: still_settled_def)

lemma keeps_settled_refl [simp]: "keeps_settled db db"
  unfolding keeps_settled_def using still_settled_refl by blast

lemma keeps_settled_trans: "keeps_settled a b \<Longrightarrow> keeps_settled b c \<Longrightarrow> keeps_settled a c"
proof -
  assume ab: "keeps_settled a b" and bc: "keeps_settled b c"
  show "keeps_settled a c" unfolding keeps_settled_def
  proof (intro ballI impI)
    fix r assume r: "r \<in> set (md_agents a)" "is_terminal_task (row_task_state r)"
    with ab obtain r' where r': "r' \<in> set (md_agents b)" "still_settled r r'" by (auto simp: keeps_settled_def)
    with r(2) have "is_terminal_task (row_task_state r')" by (simp add: still_settled_def)
    with bc r'(1) obtain r'' where "r'' \<in> set (md_agents c)" "still_settled r' r''" by (auto simp: keeps_settled_def)
    with r'(2) still_settled_trans show "\<exists>r' \<in> set (md_agents c). still_settled r r'" by blast
  qed
qed

lemma update_agents_keeps:
  assumes "update_agents p f db = (b, db')"
    and "\<And>r. p r \<Longrightarrow> is_terminal_task (row_task_state r) \<Longrightarrow> still_settled r (f r)"
  shows "keeps_settled db db'"
proof -
  obtain rs where rs: "rs = update_first p f (md_agents db)" "db' = db\<lparr>md_agents := rs\<rparr>"
    using assms(1) update_one_rows [of p f "md_agents db"] by (auto simp: update_agents_def split: prod.splits)
  show ?thesis unfolding keeps_settled_def
  proof (intro ballI impI)
    fix r assume r: "r \<in> set (md_agents db)" "is_terminal_task (row_task_state r)"
    from update_first_kept [OF r(1), of p f, folded rs(1)] show "\<exists>r' \<in> set (md_agents db'). still_settled r r'"
    proof
      assume "r \<in> set rs"
      with rs(2) still_settled_refl [of r] show ?thesis by (auto intro!: bexI [of _ r])
    next
      assume "p r \<and> f r \<in> set rs"
      with rs(2) assms(2) [of r] r(2) show ?thesis by auto
    qed
  qed
qed

text \<open>An update that says what becomes of the task: it names a state, or leaves the content alone.\<close>

definition names_state :: "task_update \<Rightarrow> bool" where
  "names_state u \<longleftrightarrow> updated_task_state u \<noteq> None \<or> (\<exists>j. u = SetOther j)"

lemma other_update_settled: "still_settled r (apply_update (SetOther j) r)"
  by (simp add: apply_update_def still_settled_def settled_core_def row_task_state_def content_of_def)

lemma backfill_settled:
  assumes "unchanged_since u seen r" and "is_terminal_task (row_task_state r)"
  shows "still_settled r (backfill u seen r)"
proof -
  from assms(2) obtain c t s where c: "mr_content r = Some c" "mc_task c = Some t" "mt_state t = Some s"
    by (auto simp: is_terminal_task_def row_task_state_def split: option.splits)
  with assms(1) show ?thesis
    by (auto simp: still_settled_def settled_core_def backfill_def Let_def row_task_state_def content_of_def task_of_def
        unchanged_since_def adds_text_def adds_artifacts_def)
qed

lemma update_status_keeps: "update_status i s us db = (b, db') \<Longrightarrow> keeps_settled db db'"
  unfolding update_status_def by (erule update_agents_keeps) simp

lemma first_update_keeps:
  assumes "update_agents (\<lambda>r. mr_message_id r = i
      \<and> (updated_task_state u \<noteq> None \<longrightarrow> \<not> is_terminal_task (row_task_state r))) (apply_update u) db = (b, db')"
    and "names_state u"
  shows "keeps_settled db db'"
  using assms(1)
proof (rule update_agents_keeps)
  fix r assume "mr_message_id r = i \<and> (updated_task_state u \<noteq> None \<longrightarrow> \<not> is_terminal_task (row_task_state r))"
    "is_terminal_task (row_task_state r)"
  with assms(2) obtain j where "u = SetOther j" by (auto simp: names_state_def)
  with other_update_settled show "still_settled r (apply_update u r)" by simp
qed

text \<open>
  C22: The outcome of an agent message is final. Take an update that names a task state, or leaves the content alone, and other writers between its accesses that keep this rule themselves. Then every message whose task has ended keeps its identity, its task state and everything else its content says, and its text and its artifacts as soon as it has them: a writer that lost the race adds a missing text or missing artifacts, and replays nothing else of its own copy of the task.\<close>

theorem ended_message_is_final:
  assumes "update_agent_message i u others1 others2 db = (b, db')" and "names_state u"
    and "\<forall>x. keeps_settled x (others1 x)" and "\<forall>x. keeps_settled x (others2 x)"
  shows "\<forall>r \<in> set (md_agents db). is_terminal_task (row_task_state r) \<longrightarrow> (\<exists>r' \<in> set (md_agents db').
    settled_core r' = settled_core r \<and> row_task_state r' = row_task_state r
    \<and> (has_text (mc_text (content_of r)) \<longrightarrow> mc_text (content_of r') = mc_text (content_of r))
    \<and> (mt_artifacts (task_of (content_of r)) \<noteq> []
        \<longrightarrow> mt_artifacts (task_of (content_of r')) = mt_artifacts (task_of (content_of r))))"
proof -
  obtain b1 db1 where first: "update_agents (\<lambda>r. mr_message_id r = i
      \<and> (updated_task_state u \<noteq> None \<longrightarrow> \<not> is_terminal_task (row_task_state r))) (apply_update u) db = (b1, db1)"
    by fastforce
  have k1: "keeps_settled db db1" by (rule first_update_keeps [OF first assms(2)])
  have "keeps_settled db db'"
  proof (cases b1)
    case True
    with assms(1) first k1 show ?thesis by (simp add: update_agent_message_def)
  next
    case False
    have k2: "keeps_settled db (others1 db1)" using k1 assms(3) keeps_settled_trans by blast
    have k3: "keeps_settled db (others2 (others1 db1))" using k2 assms(4) keeps_settled_trans by blast
    have filled: "keeps_settled x y" if "update_agents (unchanged_since u cur) (backfill u cur) x = (c, y)" for x y c cur
      using that by (rule update_agents_keeps) (rule backfill_settled)
    from assms(1) first False have "db' = others1 db1
        \<or> (\<exists>cur. update_agents (unchanged_since u cur) (backfill u cur) (others2 (others1 db1)) = (b, db'))"
      by (auto simp: update_agent_message_def Let_def split: option.splits if_splits)
    then show ?thesis using k2 k3 filled keeps_settled_trans by blast
  qed
  then show ?thesis by (simp add: keeps_settled_def still_settled_def)
qed

end
