(* ===== verification/Message_Samples.thy ===== *)
theory Message_Samples
  imports Message_Timeline Message_Thread Message_Writes
begin

text \<open>
  One room with two messages of its user and two of Agents, the last of them settled, on which the
  properties of the message store are evaluated.
\<close>

definition sample_row :: "string \<Rightarrow> int \<Rightarrow> string option \<Rightarrow> message_row" where
  "sample_row i us related = \<lparr>mr_message_id = i, mr_room_id = ''room'', mr_sort_us = us, mr_message_type = None,
     mr_parent_message_id = None, mr_related_message_id = related, mr_client_request_id = None,
     mr_fingerprint = None, mr_fingerprint_version = None, mr_content = None, mr_rest = JNull\<rparr>"

definition request_row :: "string \<Rightarrow> string \<Rightarrow> message_row" where
  "request_row i print = (sample_row i 1 None)\<lparr>mr_client_request_id := Some ''req'',
     mr_fingerprint := Some print, mr_fingerprint_version := Some 2\<rparr>"

definition settled_content :: message_content where
  "settled_content = \<lparr>mc_text = Some ''done'', mc_task = Some \<lparr>mt_state = Some ''completed'',
     mt_artifacts = [], mt_rest = JNull\<rparr>, mc_rest = JNull\<rparr>"

definition sample_db :: message_db where
  "sample_db = \<lparr>md_users = [request_row ''u1'' ''f'', sample_row ''u2'' 3 None],
     md_agents = [sample_row ''a1'' 2 (Some ''u1''),
       (sample_row ''a2'' 3 (Some ''a1''))\<lparr>mr_content := Some settled_content\<rparr>]\<rparr>"

lemmas samples = sample_db_def sample_row_def request_row_def settled_content_def

lemma pages_make_the_timeline_witness:
  "\<exists>pages. scroll 5 ''room'' 1 None sample_db = Some pages
    \<and> map (mr_message_id \<circ> snd) (concat (map pg_entries (rev pages))) = [''u1'', ''a1'', ''u2'', ''a2'']"
proof -
  have "ids_unique sample_db" "length (md_users sample_db) + length (md_agents sample_db) < 5"
    by (simp_all add: samples ids_unique_def)
  from pages_make_the_timeline [OF this(1) zero_less_one this(2), of "''room''"] obtain pages
    where "scroll 5 ''room'' 1 None sample_db = Some pages"
      "concat (map pg_entries (rev pages)) = timeline ''room'' sample_db" by blast
  moreover have "map (mr_message_id \<circ> snd) (timeline ''room'' sample_db) = [''u1'', ''a1'', ''u2'', ''a2'']"
    by code_simp
  ultimately show ?thesis by auto
qed

lemma newer_messages_keep_older_pages_witness:
  "get_timeline_page ''room'' 2 (Some (position_of (AgentSource, sample_row ''a1'' 2 None)))
     (sample_db\<lparr>md_users := md_users sample_db @ [sample_row ''u3'' 9 None], md_agents := md_agents sample_db @ []\<rparr>)
   = get_timeline_page ''room'' 2 (Some (position_of (AgentSource, sample_row ''a1'' 2 None))) sample_db"
  by (rule newer_messages_keep_older_pages) (simp_all add: sample_row_def row_key_def timeline_key_def)

lemma thread_is_what_replies_witness:
  "map mr_message_id (get_thread ''u1'' sample_db) = [''a1'', ''a2'']
   \<and> (''u1'', ''a2'') \<in> (replies sample_db)\<^sup>+"
proof -
  have t: "map mr_message_id (get_thread ''u1'' sample_db) = [''a1'', ''a2'']" by code_simp
  have "thread_fits ''u1'' sample_db"
    by (auto simp: thread_fits_def thread_answers_def find_limit_def samples intro: order_trans [OF length_filter_le])
  with t thread_is_what_replies [of "''u1''" sample_db] have "''a2'' \<in> {i. (''u1'', i) \<in> (replies sample_db)\<^sup>+} - {''u1''}"
    by (metis list.set_intros(1,2))
  with t show ?thesis by simp
qed

definition many_answers :: message_db where
  "many_answers = \<lparr>md_users = [], md_agents = map (\<lambda>n. sample_row (replicate (Suc n) CHR ''r'') 1 (Some ''u'')) [0..<1001]\<rparr>"

lemma long_thread_is_cut_witness:
  "\<exists>r. r \<in> set (md_agents many_answers) \<and> r \<notin> set (get_thread ''u'' many_answers)"
proof -
  let ?row = "\<lambda>n. sample_row (replicate (Suc n) CHR ''r'') 1 (Some ''u'')"
  have ans: "filter (answers_to [''u'']) (md_agents many_answers) = md_agents many_answers"
    by (auto simp: many_answers_def sample_row_def answers_to_def filter_id_conv)
  have "inj_on (\<lambda>n. replicate (Suc n) CHR ''r'') {0..<1001}"
    by (rule inj_onI) (metis length_replicate nat.inject)
  moreover have u: "replicate (Suc n) CHR ''r'' \<noteq> ''u''" for n by (cases n) auto
  ultimately have d: "distinct (''u'' # [] # map mr_message_id (md_agents many_answers))"
    by (auto simp: many_answers_def sample_row_def distinct_map comp_def)
  have "\<forall>r \<in> set (md_users many_answers @ md_agents many_answers).
      \<not> answers_to (map mr_message_id (md_agents many_answers)) r"
    using u by (auto simp: many_answers_def sample_row_def answers_to_def)
  moreover have "find_limit < length (md_agents many_answers)" "\<forall>r \<in> set (md_users many_answers). \<not> answers_to [''u''] r"
    by (simp_all add: many_answers_def find_limit_def)
  ultimately show ?thesis using long_thread_is_cut [OF ans [symmetric] _ d] by blast
qed

definition empty_messages :: message_db where
  "empty_messages = \<lparr>md_users = [], md_agents = []\<rparr>"

lemma request_is_one_message_witness:
  "insert_idempotently (request_row ''u9'' ''f'') (sample_db\<lparr>md_agents := []\<rparr>) sample_db
     = (Inr \<lparr>ir_message_id = ''u1'', ir_created = False, ir_document = request_row ''u1'' ''f''\<rparr>, sample_db)"
proof -
  let ?s = "empty_messages\<lparr>md_users := [request_row ''u1'' ''f'']\<rparr>"
  have first: "insert_idempotently (request_row ''u1'' ''f'') empty_messages empty_messages
      = (Inr \<lparr>ir_message_id = ''u1'', ir_created = True, ir_document = request_row ''u1'' ''f''\<rparr>, ?s)" by code_simp
  have m1: "canonical_user_message (request_row ''u1'' ''f'') = Inr (request_row ''u1'' ''f'')"
    and m2: "canonical_user_message (request_row ''u9'' ''f'') = Inr (request_row ''u9'' ''f'')" by code_simp+
  have "request_complete (request_row ''u9'' ''f'')" "user_keys_unique sample_db"
    "users_grow ?s (sample_db\<lparr>md_agents := []\<rparr>)" "users_grow (sample_db\<lparr>md_agents := []\<rparr>) sample_db"
    by (simp_all add: samples request_complete_def user_keys_unique_def same_key_def users_grow_def empty_messages_def)
  from request_is_one_message [OF first m1 m2 this(1) _ _ this(3,4,2)] show ?thesis
    by (simp add: request_row_def sample_row_def fingerprint_matches_def)
qed

lemma ended_message_is_final_witness:
  "\<exists>r. r \<in> set (md_agents (snd (update_agent_message ''a2'' (SetState ''failed'') id id sample_db)))
    \<and> mr_message_id r = ''a2'' \<and> row_task_state r = Some ''completed''"
proof -
  let ?r = "(sample_row ''a2'' 3 (Some ''a1''))\<lparr>mr_content := Some settled_content\<rparr>"
  obtain b db' where u: "update_agent_message ''a2'' (SetState ''failed'') id id sample_db = (b, db')" by fastforce
  have "\<exists>r' \<in> set (md_agents db'). settled_core r' = settled_core ?r \<and> row_task_state r' = row_task_state ?r"
    using ended_message_is_final [OF u] by (simp add: names_state_def updated_task_state_def)
      (auto simp: samples is_terminal_task_def row_task_state_def terminal_task_states_def)
  then obtain r' where r': "r' \<in> set (md_agents db')" "settled_core r' = settled_core ?r" "row_task_state r' = row_task_state ?r"
    by blast
  have "mr_message_id r' = mr_message_id ?r"
    using arg_cong [OF r'(2), of mr_message_id] by (simp add: settled_core_def)
  with u r' show ?thesis by (auto simp: samples row_task_state_def)
qed

end
