(* ===== verification/Room_Lifecycle.thy ===== *)
theory Room_Lifecycle
  imports Mongo
begin

text \<open>
  The life of a room: the room documents of \<open>RoomMongoRepository\<close> (\<open>conversation/repository/mongo.py\<close>)
  with their write leases and the fields of a deletion, and \<open>RoomWriteLeases\<close> of \<open>room_files/leases.py\<close>.
  Every operation that awaits twice is given the writes of others between its accesses (\<open>others\<close>).
\<close>

section \<open>Rooms\<close>

record write_lease =
  wl_lease_id :: string
  wl_owner :: string
  wl_acquired_at :: datetime
  wl_expires_at :: datetime

datatype room_lifecycle = RoomActive | RoomDeleting

text \<open>A room of an older version has no \<open>lifecycle_state\<close> and counts as active.\<close>

record chat_room =
  cr_room_id :: string
  cr_owner_id :: "string option"
  cr_state :: "room_lifecycle option"
  cr_leases :: "write_lease list"
  cr_deletion_id :: "string option"
  cr_started_at :: "datetime option"
  cr_phase :: "string option"
  cr_rest :: json

definition open_room :: "string \<Rightarrow> chat_room \<Rightarrow> bool" where
  "open_room k r \<longleftrightarrow> cr_room_id r = k \<and> (cr_state r = Some RoomActive \<or> cr_state r = None)"

definition is_room :: "string \<Rightarrow> chat_room \<Rightarrow> bool" where
  "is_room k r \<longleftrightarrow> cr_room_id r = k"

definition create_chat_room :: "string \<Rightarrow> string \<Rightarrow> json \<Rightarrow> chat_room list \<Rightarrow> chat_room list" where
  "create_chat_room k owner j rs = rs @ [\<lparr>cr_room_id = k, cr_owner_id = Some owner, cr_state = Some RoomActive,
     cr_leases = [], cr_deletion_id = None, cr_started_at = None, cr_phase = None, cr_rest = j\<rparr>]"

text \<open>
  \<open>update\<close>, \<open>update_fields\<close>, \<open>touch_activity\<close> and \<open>set_membership\<close>: the fields that say nothing of the
  life of the room.
\<close>

definition update_room_fields :: "string \<Rightarrow> json \<Rightarrow> chat_room list \<Rightarrow> bool \<times> chat_room list" where
  "update_room_fields k j rs = update_one (open_room k) (\<lambda>r. r\<lparr>cr_rest := j\<rparr>) rs"

text \<open>\<open>_owner_id_from_doc\<close>\<close>

definition owner_of_doc :: "chat_room option \<Rightarrow> string option" where
  "owner_of_doc r = (case r of None \<Rightarrow> None | Some r \<Rightarrow> if cr_owner_id r = Some [] then None else cr_owner_id r)"

definition get_room_owner :: "string \<Rightarrow> chat_room list \<Rightarrow> string option" where
  "get_room_owner k rs = owner_of_doc (List.find (is_room k) rs)"

section \<open>Write leases\<close>

definition prune_leases :: "string \<Rightarrow> datetime \<Rightarrow> chat_room list \<Rightarrow> chat_room list" where
  "prune_leases k now rs = snd (update_one (is_room k)
     (\<lambda>r. r\<lparr>cr_leases := filter (\<lambda>l. now < wl_expires_at l) (cr_leases r)\<rparr>) rs)"

definition push_lease :: "string \<Rightarrow> write_lease \<Rightarrow> chat_room list \<Rightarrow> bool \<times> chat_room list" where
  "push_lease k l rs = (case find_one_and_update (open_room k)
       (\<lambda>r. r\<lparr>cr_state := Some RoomActive, cr_leases := cr_leases r @ [l]\<rparr>) rs of
     (r, rs') \<Rightarrow> (case r of None \<Rightarrow> False | Some r \<Rightarrow> list_ex (\<lambda>x. wl_lease_id x = wl_lease_id l) (cr_leases r), rs'))"

definition acquire_write_lease ::
    "string \<Rightarrow> write_lease \<Rightarrow> datetime \<Rightarrow> (chat_room list \<Rightarrow> chat_room list) \<Rightarrow> chat_room list \<Rightarrow> bool \<times> chat_room list" where
  "acquire_write_lease k l now others rs = push_lease k l (others (prune_leases k now rs))"

definition renew_write_lease :: "string \<Rightarrow> string \<Rightarrow> datetime \<Rightarrow> chat_room list \<Rightarrow> bool \<times> chat_room list" where
  "renew_write_lease k i expires rs = update_one
     (\<lambda>r. is_room k r \<and> cr_state r = Some RoomActive \<and> list_ex (\<lambda>l. wl_lease_id l = i) (cr_leases r))
     (\<lambda>r. r\<lparr>cr_leases := map (\<lambda>l. if wl_lease_id l = i then l\<lparr>wl_expires_at := expires\<rparr> else l) (cr_leases r)\<rparr>) rs"

definition release_write_lease :: "string \<Rightarrow> string \<Rightarrow> chat_room list \<Rightarrow> chat_room list" where
  "release_write_lease k i rs = snd (update_one (is_room k)
     (\<lambda>r. r\<lparr>cr_leases := filter (\<lambda>l. wl_lease_id l \<noteq> i) (cr_leases r)\<rparr>) rs)"

definition has_valid_write_lease :: "string \<Rightarrow> string \<Rightarrow> datetime \<Rightarrow> chat_room list \<Rightarrow> bool" where
  "has_valid_write_lease k i now rs \<longleftrightarrow> list_ex (\<lambda>r. is_room k r \<and> cr_state r = Some RoomActive
     \<and> list_ex (\<lambda>l. wl_lease_id l = i \<and> now < wl_expires_at l) (cr_leases r)) rs"

definition leases_left :: "string \<Rightarrow> chat_room list \<Rightarrow> bool" where
  "leases_left k rs \<longleftrightarrow> (case List.find (is_room k) rs of None \<Rightarrow> False | Some r \<Rightarrow> cr_leases r \<noteq> [])"

definition has_live_write_leases ::
    "string \<Rightarrow> datetime \<Rightarrow> (chat_room list \<Rightarrow> chat_room list) \<Rightarrow> chat_room list \<Rightarrow> bool \<times> chat_room list" where
  "has_live_write_leases k now others rs =
     (let rs' = others (prune_leases k now rs) in (leases_left k rs', rs'))"

section \<open>Deletion\<close>

definition fence_room :: "string \<Rightarrow> string \<Rightarrow> string \<Rightarrow> datetime \<Rightarrow> chat_room list \<Rightarrow> bool \<times> chat_room list" where
  "fence_room k owner d now rs = update_one (\<lambda>r. open_room k r \<and> cr_owner_id r = Some owner)
     (\<lambda>r. r\<lparr>cr_state := Some RoomDeleting, cr_deletion_id := Some d, cr_started_at := Some now,
            cr_phase := Some ''fencing''\<rparr>) rs"

definition fenced_by :: "string \<Rightarrow> string \<Rightarrow> chat_room list \<Rightarrow> string option" where
  "fenced_by k owner rs = (case List.find (\<lambda>r. is_room k r \<and> cr_owner_id r = Some owner \<and> cr_state r = Some RoomDeleting) rs of
     None \<Rightarrow> None | Some r \<Rightarrow> if cr_deletion_id r = Some [] then None else cr_deletion_id r)"

definition begin_deletion ::
    "string \<Rightarrow> string \<Rightarrow> string \<Rightarrow> datetime \<Rightarrow> (chat_room list \<Rightarrow> chat_room list) \<Rightarrow> chat_room list
      \<Rightarrow> string option \<times> chat_room list" where
  "begin_deletion k owner d now others rs = (case fence_room k owner d now rs of
      (True, rs') \<Rightarrow> (Some d, rs')
    | (False, rs') \<Rightarrow> (let rs'' = others rs' in (fenced_by k owner rs'', rs'')))"

definition in_deletion :: "string \<Rightarrow> string \<Rightarrow> chat_room \<Rightarrow> bool" where
  "in_deletion k d r \<longleftrightarrow> is_room k r \<and> cr_state r = Some RoomDeleting \<and> cr_deletion_id r = Some d"

definition set_deletion_phase :: "string \<Rightarrow> string \<Rightarrow> string \<Rightarrow> chat_room list \<Rightarrow> bool \<times> chat_room list" where
  "set_deletion_phase k d phase rs = update_one (in_deletion k d) (\<lambda>r. r\<lparr>cr_phase := Some phase\<rparr>) rs"

definition list_stale_deletions :: "datetime \<Rightarrow> chat_room list \<Rightarrow> (string \<times> string) list" where
  "list_stale_deletions before rs = map (\<lambda>r. (cr_room_id r, case cr_deletion_id r of None \<Rightarrow> [] | Some d \<Rightarrow> d))
     (find_rows None (\<lambda>r. cr_state r = Some RoomDeleting
        \<and> (case cr_started_at r of None \<Rightarrow> False | Some t \<Rightarrow> t < before)) rs)"

definition delete_room_in_deletion :: "string \<Rightarrow> string \<Rightarrow> chat_room list \<Rightarrow> bool \<times> chat_room list" where
  "delete_room_in_deletion k d rs = delete_one (in_deletion k d) rs"

definition delete_chat_room :: "string \<Rightarrow> chat_room list \<Rightarrow> bool \<times> chat_room list" where
  "delete_chat_room k rs = delete_one (is_room k) rs"

section \<open>Room writers\<close>

text \<open>\<open>RoomWriteLeases\<close>: its time to live is at least a second; a lease that was not granted is an error.\<close>

datatype file_error = RoomUnavailable | LeaseLost

definition lease_ttl :: "int \<Rightarrow> int" where
  "lease_ttl seconds = max 1 seconds * 1000000"

definition acquire_lease ::
    "int \<Rightarrow> string \<Rightarrow> string \<Rightarrow> string \<Rightarrow> datetime \<Rightarrow> (chat_room list \<Rightarrow> chat_room list) \<Rightarrow> chat_room list
      \<Rightarrow> (file_error + string) \<times> chat_room list" where
  "acquire_lease ttl k owner i now others rs =
     (case acquire_write_lease k \<lparr>wl_lease_id = i, wl_owner = owner, wl_acquired_at = now,
          wl_expires_at = now + lease_ttl ttl\<rparr> now others rs of
        (True, rs') \<Rightarrow> (Inr i, rs') | (False, rs') \<Rightarrow> (Inl RoomUnavailable, rs'))"

definition renew_lease :: "int \<Rightarrow> string \<Rightarrow> string \<Rightarrow> datetime \<Rightarrow> chat_room list \<Rightarrow> bool \<times> chat_room list" where
  "renew_lease ttl k i now rs = renew_write_lease k i (now + lease_ttl ttl) rs"

definition assert_lease_valid :: "string \<Rightarrow> string \<Rightarrow> datetime \<Rightarrow> chat_room list \<Rightarrow> file_error + unit" where
  "assert_lease_valid k i now rs = (if has_valid_write_lease k i now rs then Inr () else Inl LeaseLost)"

end
