(* ===== verification/Room_Deletion.thy ===== *)
theory Room_Deletion
  imports Room_Lifecycle Room_Epochs
begin

text \<open>
  \<open>RoomDeletionService\<close> of \<open>conversation/deletion.py\<close>, \<open>ConversationFacade.delete_room\<close> and the
  recovery of room deletions in \<open>room_files/service.py\<close>. A deletion is a process that stops at every
  await; between its accesses anyone may work on the rooms and on their epochs. What other modules
  delete on its request (memory, files, rows, orchestrator collections) is their answer, a part of the
  environment of the step.
\<close>

section \<open>The process\<close>

datatype cleanup = MemoryCleaned | FilesDeleted | StateDeleted | RunsDeleted int | OwnedDeleted | MessagesDeleted

datatype deletion_step =
    ReadOwner | Fence | FindFence | PruneLeases | PollLeases | ReadEpoch | DeactivateEpoch
  | MarkCleaning | CleanMemory | DeleteFiles | DeleteState | CleanRuns | CleanOwned
  | MarkFinalizing | ReadRoom | DropMessages | DropRoom
  | Responded nat "string option"
  | DeletionRaised

record deletion_process =
  dp_room :: string
  dp_user :: string
  dp_step :: deletion_step
  dp_owner :: string
  dp_deletion :: "string option"
  dp_epoch :: "int option"
  dp_ok :: bool
  dp_cleaned :: "cleanup list"

text \<open>What a call of another module came to: its answer, or an exception.\<close>

datatype service_reply = ServiceAnswered bool | ServiceRaised

text \<open>
  What a step meets: the clock, a fresh id, the deadline of the wait, the reply of the called module,
  and for the epoch store the fault of its write and which of its earlier stores a read still sees.
\<close>

record deletion_env =
  de_now :: datetime
  de_new_id :: string
  de_timeout :: bool
  de_reply :: service_reply
  de_fault :: fault
  de_seen :: nat

record deletion_world =
  dw_rooms :: "chat_room list"
  dw_epochs :: "room_docs list"
  dw_created :: "string list"
  dw_process :: deletion_process

definition start_deletion :: "string \<Rightarrow> string \<Rightarrow> deletion_process" where
  "start_deletion k user = \<lparr>dp_room = k, dp_user = user, dp_step = ReadOwner, dp_owner = [], dp_deletion = None,
     dp_epoch = None, dp_ok = True, dp_cleaned = []\<rparr>"

definition seen_epochs :: "deletion_env \<Rightarrow> room_docs list \<Rightarrow> room_docs" where
  "seen_epochs env h = (if de_seen env < length h then h ! de_seen env else hd h)"

text \<open>A reported success is a cleanup done; anything else leaves the deletion incomplete.\<close>

definition note_reply :: "service_reply \<Rightarrow> cleanup \<Rightarrow> deletion_process \<Rightarrow> deletion_process" where
  "note_reply reply c p = (if reply = ServiceAnswered True then p\<lparr>dp_cleaned := dp_cleaned p @ [c]\<rparr> else p\<lparr>dp_ok := False\<rparr>)"

text \<open>A call whose answer is not looked at succeeds unless it raises.\<close>

definition note_call :: "service_reply \<Rightarrow> cleanup \<Rightarrow> deletion_process \<Rightarrow> deletion_process" where
  "note_call reply c p = note_reply (if reply = ServiceRaised then ServiceRaised else ServiceAnswered True) c p"

definition respond :: "nat \<Rightarrow> string \<Rightarrow> deletion_process \<Rightarrow> deletion_process" where
  "respond status err p = p\<lparr>dp_step := Responded status (Some err)\<rparr>"

definition goto :: "deletion_step \<Rightarrow> deletion_process \<Rightarrow> deletion_process" where
  "goto st p = p\<lparr>dp_step := st\<rparr>"

section \<open>Its steps\<close>

text \<open>\<open>delete_room_by_room_id\<close> and the fence.\<close>

definition read_owner_step :: "deletion_process \<Rightarrow> chat_room list \<Rightarrow> deletion_process" where
  "read_owner_step p rs = (case get_room_owner (dp_room p) rs of
      None \<Rightarrow> respond 404 ''Room not found'' p
    | Some owner \<Rightarrow> if dp_user p \<noteq> owner then respond 403 ''Forbidden'' p
        else goto Fence (p\<lparr>dp_owner := owner\<rparr>))"

definition fence_step :: "deletion_env \<Rightarrow> deletion_process \<Rightarrow> chat_room list \<Rightarrow> deletion_process \<times> chat_room list" where
  "fence_step env p rs = (case fence_room (dp_room p) (dp_owner p) (de_new_id env) (de_now env) rs of
      (True, rs') \<Rightarrow> (goto PruneLeases (p\<lparr>dp_deletion := Some (de_new_id env)\<rparr>), rs')
    | (False, rs') \<Rightarrow> (goto FindFence p, rs'))"

definition find_fence_step :: "deletion_process \<Rightarrow> chat_room list \<Rightarrow> deletion_process" where
  "find_fence_step p rs = (case fenced_by (dp_room p) (dp_owner p) rs of
      None \<Rightarrow> respond 409 ''Room deletion could not be started'' p
    | Some d \<Rightarrow> goto PruneLeases (p\<lparr>dp_deletion := Some d\<rparr>))"

text \<open>\<open>wait_until_drained\<close>, one poll at a time.\<close>

definition prune_step :: "deletion_env \<Rightarrow> deletion_process \<Rightarrow> chat_room list \<Rightarrow> deletion_process \<times> chat_room list" where
  "prune_step env p rs = (if de_timeout env then (respond 409 ''Room still has active writes'' p, rs)
     else (goto PollLeases p, prune_leases (dp_room p) (de_now env) rs))"

definition poll_step :: "deletion_process \<Rightarrow> chat_room list \<Rightarrow> deletion_process" where
  "poll_step p rs = goto (if leases_left (dp_room p) rs then PruneLeases else ReadEpoch) p"

text \<open>\<open>_deactivate_room_epoch\<close>\<close>

definition epoch_failed :: "deletion_process \<Rightarrow> deletion_process" where
  "epoch_failed p = respond 409 ''Room epoch deactivation failed'' p"

definition read_epoch_step :: "deletion_env \<Rightarrow> deletion_process \<Rightarrow> room_docs list \<Rightarrow> deletion_process" where
  "read_epoch_step env p h = (if de_fault env \<noteq> NoFault then epoch_failed p
     else case read_room (seen_epochs env h) (dp_room p) of
        Inl _ \<Rightarrow> epoch_failed p
      | Inr None \<Rightarrow> goto MarkCleaning p
      | Inr (Some r) \<Rightarrow> goto DeactivateEpoch (p\<lparr>dp_epoch := Some (re_epoch r)\<rparr>))"

definition deactivate_step ::
    "deletion_env \<Rightarrow> deletion_process \<Rightarrow> room_docs list \<Rightarrow> deletion_process \<times> room_docs list" where
  "deactivate_step env p h = (case (dp_epoch p, dp_deletion p) of
      (Some e, Some d) \<Rightarrow>
        (case deactivate_room (seen_epochs env h) (hd h) (de_fault env) (dp_room p) e d (de_now env) of
          (res, s) \<Rightarrow> ((case res of Inl _ \<Rightarrow> epoch_failed p
              | Inr (Conflict, _) \<Rightarrow> epoch_failed p
              | Inr _ \<Rightarrow> goto MarkCleaning p), s # h))
    | _ \<Rightarrow> (p, h))"

definition mark_step :: "string \<Rightarrow> deletion_step \<Rightarrow> deletion_process \<Rightarrow> chat_room list \<Rightarrow> deletion_process \<times> chat_room list" where
  "mark_step phase st p rs = (goto st p, (case dp_deletion p of None \<Rightarrow> rs
     | Some d \<Rightarrow> snd (set_deletion_phase (dp_room p) d phase rs)))"

text \<open>\<open>_cleanup_context_memory_for_room\<close> and \<open>_delete_room_owned_data\<close>.\<close>

definition clean_step :: "deletion_env \<Rightarrow> deletion_process \<Rightarrow> deletion_process" where
  "clean_step env p = (case dp_step p of
      CleanMemory \<Rightarrow> goto DeleteFiles (note_reply (de_reply env) MemoryCleaned p)
    | DeleteFiles \<Rightarrow> goto (if de_reply env = ServiceRaised then CleanRuns else DeleteState)
        (note_call (de_reply env) FilesDeleted p)
    | DeleteState \<Rightarrow> goto CleanRuns (note_reply (de_reply env) StateDeleted p)
    | CleanRuns \<Rightarrow> goto CleanOwned (case dp_epoch p of None \<Rightarrow> p | Some e \<Rightarrow> note_call (de_reply env) (RunsDeleted e) p)
    | CleanOwned \<Rightarrow> (let q = note_call (de_reply env) OwnedDeleted p in
        if dp_ok q then goto MarkFinalizing q
        else respond 500 ''Room cleanup is incomplete and will be retried'' q)
    | _ \<Rightarrow> p)"

text \<open>\<open>ConversationFacade.delete_room\<close>\<close>

definition read_room_step :: "deletion_process \<Rightarrow> chat_room list \<Rightarrow> deletion_process" where
  "read_room_step p rs = (if get_room_owner (dp_room p) rs \<noteq> Some (dp_owner p)
     then respond 500 ''Failed to finalize room deletion'' p else goto DropMessages p)"

definition drop_room_step :: "deletion_process \<Rightarrow> chat_room list \<Rightarrow> deletion_process \<times> chat_room list" where
  "drop_room_step p rs = (case delete_chat_room (dp_room p) rs of
      (True, rs') \<Rightarrow> (goto (Responded 200 None) p, rs')
    | (False, rs') \<Rightarrow> (respond 500 ''Failed to finalize room deletion'' p, rs'))"

definition in_rooms :: "deletion_process \<times> chat_room list \<Rightarrow> deletion_world \<Rightarrow> deletion_world" where
  "in_rooms x w = w\<lparr>dw_process := fst x, dw_rooms := snd x\<rparr>"

definition advance_deletion :: "deletion_env \<Rightarrow> deletion_world \<Rightarrow> deletion_world" where
  "advance_deletion env w = (let p = dw_process w; rs = dw_rooms w; h = dw_epochs w in
     case dp_step p of
       ReadOwner \<Rightarrow> in_rooms (read_owner_step p rs, rs) w
     | Fence \<Rightarrow> in_rooms (fence_step env p rs) w
     | FindFence \<Rightarrow> in_rooms (find_fence_step p rs, rs) w
     | PruneLeases \<Rightarrow> in_rooms (prune_step env p rs) w
     | PollLeases \<Rightarrow> in_rooms (poll_step p rs, rs) w
     | ReadEpoch \<Rightarrow> in_rooms (read_epoch_step env p h, rs) w
     | DeactivateEpoch \<Rightarrow> (case deactivate_step env p h of (q, h') \<Rightarrow> w\<lparr>dw_process := q, dw_epochs := h'\<rparr>)
     | MarkCleaning \<Rightarrow> in_rooms (mark_step ''cleaning'' CleanMemory p rs) w
     | MarkFinalizing \<Rightarrow> in_rooms (mark_step ''finalizing'' ReadRoom p rs) w
     | ReadRoom \<Rightarrow> in_rooms (read_room_step p rs, rs) w
     | DropMessages \<Rightarrow> in_rooms (if de_reply env = ServiceRaised then goto DeletionRaised p
         else goto DropRoom (p\<lparr>dp_cleaned := dp_cleaned p @ [MessagesDeleted]\<rparr>), rs) w
     | DropRoom \<Rightarrow> in_rooms (drop_room_step p rs) w
     | Responded _ _ \<Rightarrow> w
     | DeletionRaised \<Rightarrow> w
     | _ \<Rightarrow> in_rooms (clean_step env p, rs) w)"

section \<open>Recovery\<close>

text \<open>
  \<open>_recover_room_deletions\<close> for one stale deletion: the wait, the files, the rows of the other modules,
  then the room. It answers whether the room was removed.
\<close>

definition recover_room_deletion ::
    "string \<Rightarrow> string \<Rightarrow> datetime \<Rightarrow> service_reply \<Rightarrow> service_reply \<Rightarrow> chat_room list \<Rightarrow> bool \<times> chat_room list" where
  "recover_room_deletion k d now files rows rs =
     (case has_live_write_leases k now id rs of
        (True, rs') \<Rightarrow> (False, rs')
      | (False, rs') \<Rightarrow> if files = ServiceRaised \<or> rows \<noteq> ServiceAnswered True then (False, rs')
          else delete_room_in_deletion k d rs')"

end
