(* ===== verification/Deletion_System.thy ===== *)
theory Deletion_System
  imports Room_Deletion
begin

text \<open>
  A deletion among everything else that happens to rooms: other requests create rooms, take, renew and
  release leases, edit rooms, start and finish deletions and recover stale ones, and other epochs come
  and go. The reachable worlds, their invariant, and what it says of a deletion that has drained its room.
\<close>

section \<open>The accesses of others\<close>

datatype room_op =
    CreateRoom string string json
  | EditRoom string json
  | Prune string datetime
  | Push string write_lease
  | Renew string string datetime
  | Release string string
  | FenceRoom string string string datetime
  | SetPhase string string string
  | DropInDeletion string string
  | DropAnyRoom string

definition room_op_rows :: "room_op \<Rightarrow> chat_room list \<Rightarrow> chat_room list" where
  "room_op_rows a rs = (case a of
      CreateRoom k owner j \<Rightarrow> create_chat_room k owner j rs
    | EditRoom k j \<Rightarrow> snd (update_room_fields k j rs)
    | Prune k now \<Rightarrow> prune_leases k now rs
    | Push k l \<Rightarrow> snd (push_lease k l rs)
    | Renew k i t \<Rightarrow> snd (renew_write_lease k i t rs)
    | Release k i \<Rightarrow> release_write_lease k i rs
    | FenceRoom k owner d now \<Rightarrow> snd (fence_room k owner d now rs)
    | SetPhase k d phase \<Rightarrow> snd (set_deletion_phase k d phase rs)
    | DropInDeletion k d \<Rightarrow> snd (delete_room_in_deletion k d rs)
    | DropAnyRoom k \<Rightarrow> snd (delete_chat_room k rs))"

text \<open>The id of a new room is a fresh UUID: creating one under a known id does not happen.\<close>

definition room_op_world :: "room_op \<Rightarrow> deletion_world \<Rightarrow> deletion_world" where
  "room_op_world a w = (case a of
      CreateRoom k owner j \<Rightarrow> if k \<in> set (dw_created w) then w
        else w\<lparr>dw_rooms := room_op_rows a (dw_rooms w), dw_created := k # dw_created w\<rparr>
    | _ \<Rightarrow> w\<lparr>dw_rooms := room_op_rows a (dw_rooms w)\<rparr>)"

inductive deletion_system :: "string \<Rightarrow> string \<Rightarrow> deletion_world \<Rightarrow> bool" for k user where
  sys_start: "deletion_system k user \<lparr>dw_rooms = [], dw_epochs = [[]], dw_created = [],
    dw_process = start_deletion k user\<rparr>"
| sys_op: "deletion_system k user w \<Longrightarrow> deletion_system k user (room_op_world a w)"
| sys_activate: "deletion_system k user w \<Longrightarrow> s0 \<in> set (dw_epochs w) \<Longrightarrow> deletion_system k user
    (w\<lparr>dw_epochs := snd (activate_room s0 (hd (dw_epochs w)) flt c creation now) # dw_epochs w\<rparr>)"
| sys_deactivate: "deletion_system k user w \<Longrightarrow> s0 \<in> set (dw_epochs w) \<Longrightarrow> deletion_system k user
    (w\<lparr>dw_epochs := snd (deactivate_room s0 (hd (dw_epochs w)) flt c e d now) # dw_epochs w\<rparr>)"
| sys_process: "deletion_system k user w \<Longrightarrow> deletion_system k user (advance_deletion env w)"

section \<open>Rooms age\<close>

text \<open>A room in deletion stays in that deletion, and a room in deletion without leases gets none.\<close>

definition room_ages :: "chat_room \<Rightarrow> chat_room \<Rightarrow> bool" where
  "room_ages r r' \<longleftrightarrow> cr_room_id r' = cr_room_id r \<and> (cr_state r = Some RoomDeleting \<longrightarrow>
     cr_state r' = Some RoomDeleting \<and> cr_deletion_id r' = cr_deletion_id r
     \<and> (cr_leases r = [] \<longrightarrow> cr_leases r' = []))"

definition rooms_age :: "chat_room list \<Rightarrow> chat_room list \<Rightarrow> bool" where
  "rooms_age rs rs' \<longleftrightarrow> (\<forall>r' \<in> set rs'. \<exists>r \<in> set rs. room_ages r r')
     \<and> (distinct (map cr_room_id rs) \<longrightarrow> distinct (map cr_room_id rs'))"

lemma room_ages_refl [simp]: "room_ages r r"
  by (simp add: room_ages_def)

lemma rooms_age_refl [simp]: "rooms_age rs rs"
  by (auto simp: rooms_age_def intro: room_ages_refl)

lemma update_first_ages: "(\<And>r. p r \<Longrightarrow> room_ages r (f r)) \<Longrightarrow> rooms_age rs (update_first p f rs)"
proof -
  assume p: "\<And>r. p r \<Longrightarrow> room_ages r (f r)"
  let ?g = "\<lambda>r. if p r then f r else r"
  have g: "update_first p f rs = update_first p ?g rs" by (induction rs) auto
  have "cr_room_id (?g r) = cr_room_id r" for r using p by (simp add: room_ages_def)
  from update_first_map [where f = ?g and g = cr_room_id and p = p and xs = rs] this have "map cr_room_id (update_first p f rs) = map cr_room_id rs"
    by (simp only: g)
  with p show ?thesis by (auto simp: rooms_age_def dest!: update_first_set intro: room_ages_refl)
qed

lemma update_one_ages: "(\<And>r. p r \<Longrightarrow> room_ages r (f r)) \<Longrightarrow> rooms_age rs (snd (update_one p f rs))"
  by (simp only: update_one_rows update_first_ages)

lemma remove_first_ages: "rooms_age rs (remove_first p rs)"
  by (auto simp: rooms_age_def remove_first_distinct dest!: remove_first_set intro: room_ages_refl)

lemma prune_ages: "rooms_age rs (prune_leases k now rs)"
  unfolding prune_leases_def by (rule update_one_ages) (simp add: room_ages_def)

lemma phase_ages: "rooms_age rs (snd (set_deletion_phase k d phase rs))"
  unfolding set_deletion_phase_def by (rule update_one_ages) (simp add: room_ages_def)

lemma fence_ages: "rooms_age rs (snd (fence_room k owner d now rs))"
  unfolding fence_room_def by (rule update_one_ages) (auto simp: room_ages_def open_room_def)

lemma room_op_ages: "(\<forall>k owner j. a \<noteq> CreateRoom k owner j) \<Longrightarrow> rooms_age rs (room_op_rows a rs)"
proof (cases a)
  case (EditRoom k j)
  then show ?thesis by (auto simp: room_op_rows_def update_room_fields_def room_ages_def intro!: update_one_ages)
next
  case (Push k l)
  then show ?thesis
    by (auto simp: room_op_rows_def push_lease_def find_one_and_update_def room_ages_def open_room_def intro!: update_first_ages)
next
  case (Renew k i t)
  then show ?thesis by (auto simp: room_op_rows_def renew_write_lease_def room_ages_def intro!: update_one_ages)
next
  case (Release k i)
  then show ?thesis by (auto simp: room_op_rows_def release_write_lease_def room_ages_def intro!: update_one_ages)
qed (auto simp: room_op_rows_def prune_ages phase_ages fence_ages remove_first_ages delete_room_in_deletion_def
    delete_chat_room_def delete_one_def)

section \<open>The invariant\<close>

text \<open>The room is fenced for a deletion: whatever is left of it is in that deletion.\<close>

definition fenced :: "string \<Rightarrow> string \<Rightarrow> chat_room list \<Rightarrow> bool" where
  "fenced k d rs \<longleftrightarrow> (\<forall>r \<in> set rs. cr_room_id r = k \<longrightarrow> in_deletion k d r)"

definition no_leases :: "string \<Rightarrow> chat_room list \<Rightarrow> bool" where
  "no_leases k rs \<longleftrightarrow> (\<forall>r \<in> set rs. cr_room_id r = k \<longrightarrow> cr_leases r = [])"

text \<open>How far a process has come: it holds the fence, has drained the room, and has dealt with the epoch.\<close>

fun holds_fence :: "deletion_step \<Rightarrow> bool" where
  "holds_fence ReadOwner = False"
| "holds_fence Fence = False"
| "holds_fence FindFence = False"
| "holds_fence (Responded s _) = (s \<in> {200, 500})"
| "holds_fence _ = True"

fun drained :: "deletion_step \<Rightarrow> bool" where
  "drained PruneLeases = False"
| "drained PollLeases = False"
| "drained st = holds_fence st"

fun past_epoch :: "deletion_step \<Rightarrow> bool" where
  "past_epoch ReadEpoch = False"
| "past_epoch DeactivateEpoch = False"
| "past_epoch st = drained st"

text \<open>What has been cleaned up when nothing has failed.\<close>

definition cleaned_first :: "int option \<Rightarrow> cleanup list" where
  "cleaned_first e = [MemoryCleaned, FilesDeleted, StateDeleted] @ (case e of None \<Rightarrow> [] | Some e \<Rightarrow> [RunsDeleted e])"

fun cleaned_by :: "deletion_step \<Rightarrow> int option \<Rightarrow> cleanup list" where
  "cleaned_by DeleteFiles e = [MemoryCleaned]"
| "cleaned_by DeleteState e = [MemoryCleaned, FilesDeleted]"
| "cleaned_by CleanRuns e = [MemoryCleaned, FilesDeleted, StateDeleted]"
| "cleaned_by CleanOwned e = cleaned_first e"
| "cleaned_by MarkFinalizing e = cleaned_first e @ [OwnedDeleted]"
| "cleaned_by ReadRoom e = cleaned_first e @ [OwnedDeleted]"
| "cleaned_by DropMessages e = cleaned_first e @ [OwnedDeleted]"
| "cleaned_by DropRoom e = cleaned_first e @ [OwnedDeleted, MessagesDeleted]"
| "cleaned_by (Responded s err) e = (if s = 200 then cleaned_first e @ [OwnedDeleted, MessagesDeleted] else [])"
| "cleaned_by _ e = []"

definition checks_success :: "deletion_step \<Rightarrow> bool" where
  "checks_success st \<longleftrightarrow> st \<in> {MarkFinalizing, ReadRoom, DropMessages, DropRoom} \<or> (\<exists>err. st = Responded 200 err)"

fun tracked :: "deletion_step \<Rightarrow> bool" where
  "tracked (Responded s _) = (s = 200)"
| "tracked DeletionRaised = False"
| "tracked _ = True"

definition process_ok :: "deletion_process \<Rightarrow> bool" where
  "process_ok p \<longleftrightarrow> (checks_success (dp_step p) \<longrightarrow> dp_ok p)
     \<and> (dp_ok p \<and> tracked (dp_step p) \<longrightarrow> dp_cleaned p = cleaned_by (dp_step p) (dp_epoch p))"

definition rooms_inv :: "deletion_process \<Rightarrow> string list \<Rightarrow> chat_room list \<Rightarrow> bool" where
  "rooms_inv p created rs \<longleftrightarrow> distinct (map cr_room_id rs) \<and> cr_room_id ` set rs \<subseteq> set created
     \<and> (holds_fence (dp_step p) \<longrightarrow> (\<exists>d. dp_deletion p = Some d \<and> dp_room p \<in> set created \<and> fenced (dp_room p) d rs))
     \<and> (drained (dp_step p) \<longrightarrow> no_leases (dp_room p) rs)
     \<and> (dp_step p = Responded 200 None \<longrightarrow> dp_room p \<notin> cr_room_id ` set rs)"

definition epochs_inv :: "deletion_process \<Rightarrow> room_docs list \<Rightarrow> bool" where
  "epochs_inv p h \<longleftrightarrow> room_history h
     \<and> (dp_step p \<in> {ReadOwner, Fence, FindFence, PruneLeases, PollLeases, ReadEpoch} \<longrightarrow> dp_epoch p = None)
     \<and> (past_epoch (dp_step p) \<longrightarrow> (\<forall>e. dp_epoch p = Some e \<longrightarrow> epoch_dead (hd h) (dp_room p) e))"

definition deletion_inv :: "string \<Rightarrow> deletion_world \<Rightarrow> bool" where
  "deletion_inv k w \<longleftrightarrow> dp_room (dw_process w) = k \<and> rooms_inv (dw_process w) (dw_created w) (dw_rooms w)
     \<and> epochs_inv (dw_process w) (dw_epochs w) \<and> process_ok (dw_process w)"

lemma fenced_ages: "fenced k d rs \<Longrightarrow> rooms_age rs rs' \<Longrightarrow> fenced k d rs'"
  by (fastforce simp: fenced_def rooms_age_def room_ages_def in_deletion_def is_room_def)

lemma no_leases_ages: "no_leases k rs \<Longrightarrow> fenced k d rs \<Longrightarrow> rooms_age rs rs' \<Longrightarrow> no_leases k rs'"
  by (fastforce simp: no_leases_def fenced_def rooms_age_def room_ages_def in_deletion_def)

lemma ids_age: "rooms_age rs rs' \<Longrightarrow> cr_room_id ` set rs' \<subseteq> cr_room_id ` set rs"
  by (fastforce simp: rooms_age_def room_ages_def image_iff)

lemma drained_holds: "drained st \<Longrightarrow> holds_fence st"
  by (cases st rule: drained.cases) auto

text \<open>What happens to the rooms, while the process stands still, keeps the invariant.\<close>

lemma rooms_inv_age:
  assumes "rooms_inv p created rs" and "rooms_age rs rs'"
  shows "rooms_inv p created rs'"
proof -
  have "distinct (map cr_room_id rs')" using assms by (simp add: rooms_inv_def rooms_age_def)
  moreover have "cr_room_id ` set rs' \<subseteq> set created" using assms ids_age by (fastforce simp: rooms_inv_def)
  moreover have "\<exists>d. dp_deletion p = Some d \<and> dp_room p \<in> set created \<and> fenced (dp_room p) d rs \<and> fenced (dp_room p) d rs'"
    if "holds_fence (dp_step p)" using that assms fenced_ages by (auto simp: rooms_inv_def)
  moreover have "no_leases (dp_room p) rs" if "drained (dp_step p)" using that assms(1) by (simp add: rooms_inv_def)
  moreover have "dp_room p \<notin> cr_room_id ` set rs'" if "dp_step p = Responded 200 None"
    using that assms(1) ids_age [OF assms(2)] by (auto simp: rooms_inv_def)
  ultimately show ?thesis
    unfolding rooms_inv_def using no_leases_ages [OF _ _ assms(2)] drained_holds by metis
qed

lemma rooms_inv_create:
  assumes "rooms_inv p created rs" and "k \<notin> set created"
  shows "rooms_inv p (k # created) (create_chat_room k owner j rs)"
proof -
  have "k \<notin> cr_room_id ` set rs" using assms by (auto simp: rooms_inv_def)
  moreover have "dp_room p \<noteq> k" if "holds_fence (dp_step p)" using that assms by (auto simp: rooms_inv_def)
  ultimately show ?thesis using assms drained_holds [of "dp_step p"]
    by (auto simp: rooms_inv_def create_chat_room_def fenced_def no_leases_def)
qed

lemma rooms_inv_op:
  "rooms_inv p (dw_created w) (dw_rooms w)
     \<Longrightarrow> rooms_inv p (dw_created (room_op_world a w)) (dw_rooms (room_op_world a w))"
proof (cases "\<exists>k owner j. a = CreateRoom k owner j")
  case True
  assume inv: "rooms_inv p (dw_created w) (dw_rooms w)"
  from True obtain k owner j where a: "a = CreateRoom k owner j" by blast
  show ?thesis
  proof (cases "k \<in> set (dw_created w)")
    case False
    with rooms_inv_create [OF inv False] a show ?thesis by (simp add: room_op_world_def room_op_rows_def)
  qed (use a inv in \<open>simp add: room_op_world_def\<close>)
next
  case False
  assume inv: "rooms_inv p (dw_created w) (dw_rooms w)"
  from False have "room_op_world a w = w\<lparr>dw_rooms := room_op_rows a (dw_rooms w)\<rparr>"
    by (cases a) (auto simp: room_op_world_def)
  with rooms_inv_age [OF inv room_op_ages] False show ?thesis by simp
qed

end
