(* ===== verification/Deletion_Safety.thy ===== *)
theory Deletion_Safety
  imports Deletion_System
begin

text \<open>
  Every step of a deletion keeps the invariant of the system; the promises to the rest of the program
  follow: a drained room takes no more writes, and a deleted room has left nothing that still runs.
\<close>

section \<open>Epochs\<close>

lemma room_history_ne: "room_history h \<Longrightarrow> h \<noteq> []"
  by (induction rule: room_history.induct) auto

lemma history_pushes:
  assumes "room_history (s # h)" and "s0 \<in> set h"
  shows "epoch_dead s0 k e \<Longrightarrow> epoch_dead s k e"
  using room_history_step [OF assms(1)] assms(2) epoch_dead_follows by auto

lemma epochs_inv_push:
  assumes "epochs_inv p h" and "room_history (s # h)"
  shows "epochs_inv p (s # h)"
proof -
  have "hd h \<in> set h" using assms(1) room_history_ne by (auto simp: epochs_inv_def)
  with assms history_pushes show ?thesis by (fastforce simp: epochs_inv_def)
qed

lemma seen_epochs_in: "room_history h \<Longrightarrow> seen_epochs env h \<in> set h"
  using room_history_ne [of h] by (auto simp: seen_epochs_def)

lemma activate_history: "room_history h \<Longrightarrow> s0 \<in> set h \<Longrightarrow> room_history (snd (activate_room s0 (hd h) flt c creation now) # h)"
  using room_history.activate [of "hd h" "tl h"] room_history_ne [of h] by simp

lemma deactivate_history: "room_history h \<Longrightarrow> s0 \<in> set h \<Longrightarrow> room_history (snd (deactivate_room s0 (hd h) flt c e d now) # h)"
  using room_history.deactivate [of "hd h" "tl h"] room_history_ne [of h] by simp

lemma resolved_dead:
  "resolve_room same_deactivation s flt current r = Inr (res, x) \<Longrightarrow> res \<noteq> Conflict \<Longrightarrow> epoch_dead s (re_conversation_id r) (re_epoch r)"
  by (auto simp: resolve_room_def read_room_def checked_room_def epoch_dead_def same_deactivation_def
      split: sum.splits option.splits if_splits)

lemma checked_room_Inr: "checked_room doc = Inr x \<Longrightarrow> x = doc"
  by (auto simp: checked_room_def split: option.splits)

text \<open>An answer other than a conflict means that the epoch is dead.\<close>

lemma deactivated_dead:
  assumes "room_history h" and "s0 \<in> set h" and "deactivate_room s0 (hd h) flt k e d now = (Inr (res, x), s')" and "res \<noteq> Conflict"
  shows "epoch_dead s' k e"
proof (cases "List.find (\<lambda>r. re_conversation_id r = k \<and> re_active r) s0")
  case None
  with assms(3) have "s' = hd h" and "read_room s0 k = Inr x" and "res = replayed_if (case x of None \<Rightarrow> False
      | Some x \<Rightarrow> \<not> re_active x \<and> re_epoch x = e \<and> re_deletion_id x = Some d)"
    by (auto simp: deactivate_room_def read_active_room_def checked_room_def split: sum.splits)
  moreover from \<open>read_room s0 k = Inr x\<close> have "find_room s0 k = x" by (auto simp: read_room_def dest!: checked_room_Inr)
  ultimately have "epoch_dead s0 k e" using assms(4)
    by (auto simp: replayed_if_def epoch_dead_def split: option.splits if_splits)
  moreover have "rooms_follow s0 (hd h)" using room_history_step [OF assms(1)] assms(2) by (cases h) auto
  ultimately show ?thesis using epoch_dead_follows \<open>s' = hd h\<close> by blast
next
  case (Some c)
  let ?r = "c\<lparr>re_active := False, re_deletion_id := Some d, re_updated_at := now\<rparr>"
  from Some have c: "re_conversation_id c = k" by (auto simp: find_Some_iff)
  have ok: "room_error c = None"
    using assms(3) Some by (cases "room_error c") (simp_all add: deactivate_room_def read_active_room_def checked_room_def)
  have e: "re_epoch c = e"
  proof (rule ccontr)
    assume "re_epoch c \<noteq> e"
    with assms(3) Some ok have "res = Conflict"
      by (cases "read_room s0 k") (simp_all add: deactivate_room_def read_active_room_def checked_room_def)
    with assms(4) show False ..
  qed
  with assms(3) Some ok have w: "(case deactivation_write (hd h) flt ?r e of
      (ok, s') \<Rightarrow> (if ok then Inr (Accepted, Some ?r) else resolve_room same_deactivation s' flt (Some c) ?r, s')) = (Inr (res, x), s')"
    by (simp add: deactivate_room_def read_active_room_def checked_room_def Let_def)
  obtain ok where d: "deactivation_write (hd h) flt ?r e = (ok, s')" using w by (auto split: prod.splits)
  show ?thesis
  proof (cases ok)
    case True
    with d c e show ?thesis
      by (auto simp: deactivation_write_def Let_def epoch_dead_def find_room_replace stored_room_def split: option.splits)
  next
    case False
    with w d have "resolve_room same_deactivation s' flt (Some c) ?r = Inr (res, x)" by simp
    from resolved_dead [OF this assms(4)] c e show ?thesis by simp
  qed
qed

section \<open>Steps of the process\<close>

lemma rooms_inv_goto:
  assumes "rooms_inv p c rs" and "dp_room q = dp_room p" and "dp_deletion q = dp_deletion p"
    and "holds_fence (dp_step q) \<longrightarrow> holds_fence (dp_step p)" and "drained (dp_step q) \<longrightarrow> drained (dp_step p)"
    and "dp_step q \<noteq> Responded 200 None"
  shows "rooms_inv q c rs"
  using assms by (auto simp: rooms_inv_def)

lemma epochs_inv_goto:
  assumes "epochs_inv p h" and "dp_room q = dp_room p" and "dp_epoch q = dp_epoch p"
    and "past_epoch (dp_step q) \<longrightarrow> past_epoch (dp_step p)"
    and "dp_step q \<in> {ReadOwner, Fence, FindFence, PruneLeases, PollLeases, ReadEpoch} \<longrightarrow> dp_epoch p = None"
  shows "epochs_inv q h"
  using assms by (auto simp: epochs_inv_def)

lemma row_unique: "distinct (map cr_room_id rs) \<Longrightarrow> r \<in> set rs \<Longrightarrow> r' \<in> set rs \<Longrightarrow> cr_room_id r = cr_room_id r' \<Longrightarrow> r = r'"
  by (auto simp: distinct_map dest: inj_onD)

lemma fence_fences:
  assumes "distinct (map cr_room_id rs)" and "fence_room k owner d now rs = (True, rs')"
  shows "fenced k d rs' \<and> k \<in> cr_room_id ` set rs"
proof -
  let ?p = "\<lambda>r. open_room k r \<and> cr_owner_id r = Some owner"
  let ?f = "\<lambda>r :: chat_room. r\<lparr>cr_state := Some RoomDeleting, cr_deletion_id := Some d, cr_started_at := Some now, cr_phase := Some ''fencing''\<rparr>"
  from assms(2) obtain r where r: "List.find ?p rs = Some r" and rs': "rs' = update_first ?p ?f rs"
    by (auto simp: fence_room_def update_one_def split: option.splits)
  have id: "r \<in> set rs" "open_room k r" using find_Some [OF r] by auto
  have "distinct (map cr_room_id xs) \<Longrightarrow> List.find ?p xs = Some r \<Longrightarrow> fenced k d (update_first ?p ?f xs)" for xs
  proof (induction xs)
    case (Cons x xs)
    show ?case
    proof (cases "?p x")
      case True
      then have "in_deletion k d (?f x)" "cr_room_id x = k" by (auto simp: in_deletion_def is_room_def open_room_def)
      moreover have "cr_room_id y \<noteq> k" if "y \<in> set xs" for y
        using that Cons.prems(1) \<open>cr_room_id x = k\<close> by (auto simp: image_iff)
      ultimately show ?thesis using True by (auto simp: fenced_def)
    next
      case False
      with Cons.prems have "List.find ?p xs = Some r" "cr_room_id x \<noteq> k"
        using find_Some [of ?p xs r] by (auto simp: open_room_def image_iff split: if_splits)
      with Cons False show ?thesis by (auto simp: fenced_def)
    qed
  qed simp
  with assms(1) r rs' id show ?thesis by (auto simp: open_room_def)
qed

lemma fenced_by_fenced:
  assumes "distinct (map cr_room_id rs)" and "fenced_by k owner rs = Some d"
  shows "fenced k d rs \<and> k \<in> cr_room_id ` set rs"
proof -
  from assms(2) obtain r where "List.find (\<lambda>r. is_room k r \<and> cr_owner_id r = Some owner \<and> cr_state r = Some RoomDeleting) rs = Some r"
    "cr_deletion_id r = Some d" by (auto simp: fenced_by_def split: option.splits if_splits)
  with find_Some [OF this(1)] have "r \<in> set rs" "in_deletion k d r" by (auto simp: in_deletion_def)
  with row_unique [OF assms(1)] show ?thesis by (force simp: fenced_def in_deletion_def is_room_def)
qed

lemma polled_empty:
  assumes "distinct (map cr_room_id rs)" and "\<not> leases_left k rs"
  shows "no_leases k rs"
proof (cases "List.find (is_room k) rs")
  case None
  then show ?thesis by (auto simp: find_None_iff no_leases_def is_room_def)
next
  case (Some r)
  with find_Some [OF this] row_unique [OF assms(1)] assms(2) show ?thesis
    by (auto simp: no_leases_def leases_left_def is_room_def)
qed

lemma dropped_gone:
  assumes "distinct (map cr_room_id rs)" and "delete_chat_room k rs = (True, rs')"
  shows "k \<notin> cr_room_id ` set rs'"
proof -
  have "distinct (map cr_room_id xs) \<Longrightarrow> list_ex (is_room k) xs \<Longrightarrow> k \<notin> cr_room_id ` set (remove_first (is_room k) xs)" for xs
    by (induction xs) (auto simp: is_room_def image_iff list_ex_iff)
  with assms show ?thesis by (auto simp: delete_chat_room_def delete_one_def)
qed

section \<open>The invariant holds\<close>

lemmas step_defs = advance_deletion_def in_rooms_def read_owner_step_def fence_step_def find_fence_step_def prune_step_def
  poll_step_def read_epoch_step_def mark_step_def clean_step_def read_room_step_def drop_room_step_def
  note_call_def epoch_failed_def Let_def

lemma note_reply_frame [simp]:
  "dp_room (note_reply reply c p) = dp_room p" "dp_owner (note_reply reply c p) = dp_owner p" "dp_deletion (note_reply reply c p) = dp_deletion p"
  "dp_step (note_reply reply c p) = dp_step p" "dp_epoch (note_reply reply c p) = dp_epoch p"
  by (simp_all add: note_reply_def)

lemma goto_frame [simp]:
  "dp_room (goto st p) = dp_room p" "dp_deletion (goto st p) = dp_deletion p" "dp_step (goto st p) = st"
  "dp_owner (goto st p) = dp_owner p" "dp_epoch (goto st p) = dp_epoch p" "dp_ok (goto st p) = dp_ok p" "dp_cleaned (goto st p) = dp_cleaned p"
  by (simp_all add: goto_def)

lemma respond_frame [simp]:
  "dp_room (respond n e p) = dp_room p" "dp_owner (respond n e p) = dp_owner p" "dp_deletion (respond n e p) = dp_deletion p"
  "dp_step (respond n e p) = Responded n (Some e)" "dp_epoch (respond n e p) = dp_epoch p"
  "dp_ok (respond n e p) = dp_ok p" "dp_cleaned (respond n e p) = dp_cleaned p"
  by (simp_all add: respond_def)

lemma clean_step_frame:
  assumes "dp_step p \<in> {CleanMemory, DeleteFiles, DeleteState, CleanRuns, CleanOwned}"
  shows "dp_room (clean_step env p) = dp_room p \<and> dp_deletion (clean_step env p) = dp_deletion p
    \<and> dp_epoch (clean_step env p) = dp_epoch p \<and> dp_step (clean_step env p)
      \<in> {DeleteFiles, DeleteState, CleanRuns, CleanOwned, MarkFinalizing} \<union> {Responded 500 (Some ''Room cleanup is incomplete and will be retried'')}"
  using assms by (auto simp: clean_step_def note_call_def Let_def split: option.splits if_splits)

lemma advance_rooms:
  assumes inv: "rooms_inv (dw_process w) (dw_created w) (dw_rooms w)"
  shows "rooms_inv (dw_process (advance_deletion env w)) (dw_created (advance_deletion env w)) (dw_rooms (advance_deletion env w))"
proof -
  let ?p = "dw_process w" and ?rs = "dw_rooms w"
  note goto = rooms_inv_goto [OF inv]
  have distinct: "distinct (map cr_room_id ?rs)" and known: "cr_room_id ` set ?rs \<subseteq> set (dw_created w)"
    using inv by (auto simp: rooms_inv_def)
  show ?thesis
  proof (cases "dp_step ?p")
    case ReadOwner
    then show ?thesis
      by (auto simp: step_defs split: option.splits intro!: goto)
  next
    case Fence
    obtain b rs where f: "fence_room (dp_room ?p) (dp_owner ?p) (de_new_id env) (de_now env) ?rs = (b, rs)" by fastforce
    then have aged: "rooms_age ?rs rs" using fence_ages [of ?rs] by (metis snd_conv)
    show ?thesis
    proof (cases b)
      case True
      with fence_fences [OF distinct] f have "fenced (dp_room ?p) (de_new_id env) rs" "dp_room ?p \<in> set (dw_created w)"
        using known by auto
      with Fence f True rooms_inv_age [OF inv aged] show ?thesis by (auto simp: step_defs rooms_inv_def)
    next
      case False
      with Fence f rooms_inv_age [OF inv aged] show ?thesis by (auto simp: step_defs rooms_inv_def)
    qed
  next
    case FindFence
    then show ?thesis
      using fenced_by_fenced [OF distinct] known distinct by (fastforce simp: step_defs rooms_inv_def split: option.splits)
  next
    case PruneLeases
    with goto rooms_inv_age [OF inv prune_ages] show ?thesis
      by (auto simp: step_defs rooms_inv_def)
  next
    case PollLeases
    with inv polled_empty [OF distinct] show ?thesis by (auto simp: step_defs rooms_inv_def)
  next
    case ReadEpoch
    then show ?thesis by (auto simp: step_defs split: sum.splits option.splits intro!: goto)
  next
    case DeactivateEpoch
    then show ?thesis
      by (auto simp: step_defs deactivate_step_def split: prod.splits sum.splits option.splits outcome.splits intro!: goto)
  next
    case MarkCleaning
    with inv obtain d where "dp_deletion ?p = Some d" by (auto simp: rooms_inv_def)
    with MarkCleaning rooms_inv_goto [OF rooms_inv_age [OF inv phase_ages]] show ?thesis
      by (simp add: advance_deletion_def in_rooms_def mark_step_def Let_def)
  next
    case MarkFinalizing
    with inv obtain d where "dp_deletion ?p = Some d" by (auto simp: rooms_inv_def)
    with MarkFinalizing rooms_inv_goto [OF rooms_inv_age [OF inv phase_ages]] show ?thesis
      by (simp add: advance_deletion_def in_rooms_def mark_step_def Let_def)
  next
    case ReadRoom
    then show ?thesis by (auto simp: step_defs intro!: goto)
  next
    case DropMessages
    then show ?thesis by (auto simp: step_defs intro!: goto)
  next
    case DropRoom
    obtain b rs where f: "delete_chat_room (dp_room ?p) ?rs = (b, rs)" by fastforce
    then have "rooms_age ?rs rs" using remove_first_ages by (auto simp: delete_chat_room_def delete_one_def)
    with DropRoom f rooms_inv_age [OF inv this] dropped_gone [OF distinct] show ?thesis
      by (cases b) (auto simp: step_defs rooms_inv_def)
  qed (use inv clean_step_frame [of ?p env] in \<open>auto simp: advance_deletion_def in_rooms_def intro!: goto\<close>)
qed

lemma epochs_inv_step:
  assumes inv: "epochs_inv (dw_process w) (dw_epochs w)"
  shows "epochs_inv (dw_process (advance_deletion env w)) (dw_epochs (advance_deletion env w))"
proof -
  let ?p = "dw_process w" and ?h = "dw_epochs w"
  note goto = epochs_inv_goto [OF inv]
  have h: "room_history ?h" using inv by (simp add: epochs_inv_def)
  show ?thesis
  proof (cases "dp_step ?p")
    case Fence
    with inv show ?thesis by (auto simp: step_defs epochs_inv_def split: prod.splits bool.splits)
  next
    case FindFence
    with inv show ?thesis by (auto simp: step_defs epochs_inv_def split: option.splits)
  next
    case ReadEpoch
    with inv show ?thesis by (auto simp: step_defs epochs_inv_def split: sum.splits option.splits)
  next
    case DeactivateEpoch
    show ?thesis
    proof (cases "\<exists>e d. dp_epoch ?p = Some e \<and> dp_deletion ?p = Some d")
      case True
      then obtain e d where ed: "dp_epoch ?p = Some e" "dp_deletion ?p = Some d" by blast
      obtain res s where x: "deactivate_room (seen_epochs env ?h) (hd ?h) (de_fault env) (dp_room ?p) e d (de_now env) = (res, s)"
        by fastforce
      have push: "epochs_inv ?p (s # ?h)"
        using epochs_inv_push [OF inv deactivate_history [OF h seen_epochs_in [OF h]]] x by (metis snd_conv)
      have "epoch_dead s (dp_room ?p) e" if "res = Inr (o', y)" "o' \<noteq> Conflict" for o' y
        using deactivated_dead [OF h seen_epochs_in [OF h]] x that by blast
      with push DeactivateEpoch ed x show ?thesis
        by (auto simp: step_defs deactivate_step_def epochs_inv_def split: sum.splits prod.splits outcome.splits)
    next
      case False
      with DeactivateEpoch inv show ?thesis
        by (auto simp: step_defs deactivate_step_def split: option.splits)
    qed
  next
    case ReadOwner
    then show ?thesis using inv by (auto simp: step_defs epochs_inv_def split: option.splits)
  next
    case DropRoom
    then show ?thesis by (auto simp: step_defs split: prod.splits bool.splits intro!: goto)
  next
    case PruneLeases
    with inv show ?thesis by (auto simp: step_defs epochs_inv_def)
  next
    case PollLeases
    with inv show ?thesis by (auto simp: step_defs epochs_inv_def)
  qed (use inv clean_step_frame [of ?p env] in \<open>auto simp: step_defs intro!: goto\<close>)
qed

lemma clean_step_ok:
  assumes ok: "process_ok p" and "dp_step p \<in> {CleanMemory, DeleteFiles, DeleteState, CleanRuns, CleanOwned}"
  shows "process_ok (clean_step env p)"
proof -
  have so_far: "dp_ok p \<Longrightarrow> dp_cleaned p = cleaned_by (dp_step p) (dp_epoch p)"
    using assms by (auto simp: process_ok_def)
  from assms(2) consider "dp_step p = CleanMemory" | "dp_step p = DeleteFiles" | "dp_step p = DeleteState"
    | "dp_step p = CleanRuns" | "dp_step p = CleanOwned" by blast
  then show ?thesis
    by cases (use so_far in \<open>simp_all add: process_ok_def clean_step_def note_call_def note_reply_def Let_def
      cleaned_first_def checks_success_def split: option.splits\<close>)
qed

lemma process_ok_step: "process_ok (dw_process w) \<Longrightarrow> process_ok (dw_process (advance_deletion env w))"
proof -
  let ?p = "dw_process w"
  assume ok: "process_ok ?p"
  note clean = clean_step_ok [OF ok]
  show ?thesis
  proof (cases "dp_step ?p")
    case DeactivateEpoch
    have "dp_cleaned q = dp_cleaned ?p \<and> dp_ok q = dp_ok ?p \<and> (dp_step q = MarkCleaning \<or> dp_step q = DeactivateEpoch
        \<or> dp_step q = Responded 409 (Some ''Room epoch deactivation failed''))"
      if "deactivate_step env ?p (dw_epochs w) = (q, h)" for q h
      using that DeactivateEpoch
      by (auto simp: deactivate_step_def epoch_failed_def split: prod.splits sum.splits option.splits outcome.splits)
    with DeactivateEpoch ok show ?thesis
      by (auto simp: advance_deletion_def process_ok_def checks_success_def Let_def split: prod.splits)
  qed (use ok clean in \<open>auto simp: step_defs process_ok_def checks_success_def split: prod.splits bool.splits sum.splits option.splits\<close>)
qed

lemma step_room [simp]: "dp_room (dw_process (advance_deletion env w)) = dp_room (dw_process w)"
  by (cases "dp_step (dw_process w)")
    (auto simp: step_defs deactivate_step_def split: prod.splits bool.splits sum.splits option.splits outcome.splits)

lemma room_op_frame [simp]: "dw_process (room_op_world a w) = dw_process w" "dw_epochs (room_op_world a w) = dw_epochs w"
  by (cases a; simp add: room_op_world_def)+

theorem deletion_invariant: "deletion_system k user w \<Longrightarrow> deletion_inv k w"
proof (induction rule: deletion_system.induct)
  case sys_start
  show ?case by (simp add: deletion_inv_def rooms_inv_def epochs_inv_def process_ok_def start_deletion_def
      checks_success_def room_history.start)
next
  case (sys_op w a)
  then have "rooms_inv (dw_process w) (dw_created w) (dw_rooms w)" by (simp add: deletion_inv_def)
  from sys_op rooms_inv_op [OF this, of a] show ?case by (simp add: deletion_inv_def)
next
  case (sys_activate w s0 flt c creation now)
  then have inv: "epochs_inv (dw_process w) (dw_epochs w)" by (simp add: deletion_inv_def)
  then have h: "room_history (dw_epochs w)" by (simp add: epochs_inv_def)
  from epochs_inv_push [OF inv activate_history [OF h sys_activate.hyps(2)]] sys_activate.IH show ?case
    by (simp add: deletion_inv_def)
next
  case (sys_deactivate w s0 flt c e d now)
  then have inv: "epochs_inv (dw_process w) (dw_epochs w)" by (simp add: deletion_inv_def)
  then have h: "room_history (dw_epochs w)" by (simp add: epochs_inv_def)
  from epochs_inv_push [OF inv deactivate_history [OF h sys_deactivate.hyps(2)]] sys_deactivate.IH show ?case
    by (simp add: deletion_inv_def)
next
  case (sys_process w env)
  then show ?case using advance_rooms [of w env] epochs_inv_step [of w env] process_ok_step [of w env]
    by (simp add: deletion_inv_def)
qed

section \<open>Properties\<close>

text \<open>
  C19: A drained room takes no more writes: once a deletion has fenced its room and seen no lease left, then for as long as the deletion runs, whatever other requests do, no lease of the room is valid at any time, none can be acquired or renewed, and whatever is left of the room belongs to this deletion.\<close>

theorem drained_room_takes_no_writes:
  assumes "deletion_system k user w" and "drained (dp_step (dw_process w))"
  shows "\<not> has_valid_write_lease k i now (dw_rooms w) \<and> \<not> fst (push_lease k l (dw_rooms w))
    \<and> \<not> fst (renew_write_lease k i t (dw_rooms w))
    \<and> (\<exists>d. dp_deletion (dw_process w) = Some d \<and> fenced k d (dw_rooms w))"
proof -
  have "holds_fence (dp_step (dw_process w))" using assms(2) by (rule drained_holds)
  with deletion_invariant [OF assms(1)] obtain d where
    d: "dp_deletion (dw_process w) = Some d" "fenced k d (dw_rooms w)"
    by (auto simp: deletion_inv_def rooms_inv_def)
  then have closed: "\<not> open_room k r" "is_room k r \<Longrightarrow> cr_state r \<noteq> Some RoomActive" if "r \<in> set (dw_rooms w)" for r
    using that by (auto simp: fenced_def in_deletion_def open_room_def is_room_def)
  then have "List.find (open_room k) (dw_rooms w) = None" by (auto simp: find_None_iff)
  moreover have "List.find (\<lambda>r. is_room k r \<and> cr_state r = Some RoomActive \<and> list_ex (\<lambda>l. wl_lease_id l = i) (cr_leases r)) (dw_rooms w) = None"
    using closed by (auto simp: find_None_iff)
  ultimately show ?thesis using d closed
    by (auto simp: has_valid_write_lease_def push_lease_def find_one_and_update_def renew_write_lease_def update_one_def list_ex_iff)
qed

text \<open>
  C20: A deletion that reports success has deleted in order: memory, files, the rows of the other modules, the data of the epoch if it had found an epoch record when it read it, the messages and last the room. The room is gone, and the epoch that the deletion read, if it read one, is not active, so that nothing that is fenced by it runs again. (A deletion that found no epoch record says nothing about an epoch.)\<close>

theorem deleted_room_is_gone:
  assumes "deletion_system k user w" and "dp_step (dw_process w) = Responded 200 None"
  shows "k \<notin> cr_room_id ` set (dw_rooms w)
    \<and> dp_cleaned (dw_process w) = [MemoryCleaned, FilesDeleted, StateDeleted]
        @ (case dp_epoch (dw_process w) of None \<Rightarrow> [] | Some e \<Rightarrow> [RunsDeleted e]) @ [OwnedDeleted, MessagesDeleted]
    \<and> (\<forall>e. dp_epoch (dw_process w) = Some e \<longrightarrow> \<not> verify_active (hd (dw_epochs w)) k e)"
proof -
  have inv: "deletion_inv k w" by (rule deletion_invariant [OF assms(1)])
  then have h: "room_history (dw_epochs w)" by (simp add: deletion_inv_def epochs_inv_def)
  then have "rooms_ok (hd (dw_epochs w))"
    using room_history_step [OF h] room_history_ne [OF h] by (cases "dw_epochs w") auto
  with inv assms(2) epoch_dead_inactive show ?thesis
    by (auto simp: deletion_inv_def rooms_inv_def epochs_inv_def process_ok_def checks_success_def cleaned_first_def
        split: option.splits)
qed

end
