(* ===== verification/Deletion_Progress.thy ===== *)
theory Deletion_Progress
  imports Deletion_Safety
begin

text \<open>
  What a deletion reaches. It can be retried: when the writers are gone, the collaborators answer and
  nobody interferes, a new attempt ends with the room deleted, wherever an earlier one stopped. The
  recovery of stale deletions, however, removes the room without its epoch.
\<close>

section \<open>A smooth run\<close>

definition smooth :: "deletion_env \<Rightarrow> bool" where
  "smooth env \<longleftrightarrow> \<not> de_timeout env \<and> de_reply env = ServiceAnswered True \<and> de_fault env = NoFault
     \<and> de_seen env = 0 \<and> de_new_id env \<noteq> []"

definition deletion_ends :: "deletion_env \<Rightarrow> nat \<Rightarrow> deletion_world \<Rightarrow> bool" where
  "deletion_ends env n w \<longleftrightarrow> (\<forall>m \<ge> n. dp_step (dw_process ((advance_deletion env ^^ m) w)) = Responded 200 None)"

lemma responded_stays: "dp_step (dw_process w) = Responded s err \<Longrightarrow> (advance_deletion env ^^ m) w = w"
  by (induction m) (simp_all add: advance_deletion_def Let_def)

lemma ends_now: "dp_step (dw_process w) = Responded 200 None \<Longrightarrow> deletion_ends env n w"
  by (simp add: deletion_ends_def responded_stays)

lemma ends_step: "deletion_ends env n (advance_deletion env w) \<Longrightarrow> deletion_ends env (Suc n) w"
proof (unfold deletion_ends_def, intro allI impI)
  fix m assume n: "\<forall>m \<ge> n. dp_step (dw_process ((advance_deletion env ^^ m) (advance_deletion env w))) = Responded 200 None"
    and "Suc n \<le> m"
  then obtain j where "m = Suc j" "n \<le> j" by (cases m) auto
  with n show "dp_step (dw_process ((advance_deletion env ^^ m) w)) = Responded 200 None"
    by (simp add: funpow_swap1)
qed

lemma ends_steps: "deletion_ends env n ((advance_deletion env ^^ j) w) \<Longrightarrow> deletion_ends env (j + n) w"
proof (induction j arbitrary: w)
  case (Suc j)
  from Suc.prems have "deletion_ends env n ((advance_deletion env ^^ j) (advance_deletion env w))"
    by (simp add: funpow_swap1)
  from ends_step [OF Suc.IH [OF this]] show ?case by simp
qed simp

lemma ends_later: "deletion_ends env n w \<Longrightarrow> n \<le> m \<Longrightarrow> deletion_ends env m w"
  by (simp add: deletion_ends_def)

section \<open>The room on the way\<close>

definition room_there :: "string \<Rightarrow> string \<Rightarrow> string \<Rightarrow> chat_room list \<Rightarrow> chat_room \<Rightarrow> bool" where
  "room_there k user d rs r \<longleftrightarrow> distinct (map cr_room_id rs) \<and> List.find (is_room k) rs = Some r
     \<and> in_deletion k d r \<and> cr_owner_id r = Some user"

lemma find_narrow:
  assumes "distinct (map cr_room_id rs)" and "List.find (is_room k) rs = Some r" and "\<And>x. q x \<Longrightarrow> is_room k x" and "q r"
  shows "List.find q rs = Some r"
  by (rule find_unique) (use find_Some [OF assms(2)] assms row_unique [OF assms(1)] in \<open>auto simp: is_room_def\<close>)

lemma find_updated:
  assumes "distinct (map cr_room_id rs)" and "List.find (is_room k) rs = Some r" and "\<And>x. q x \<Longrightarrow> is_room k x" and "q r"
    and "\<And>x. cr_room_id (f x) = cr_room_id x"
  shows "List.find (is_room k) (update_first q f rs) = Some (f r) \<and> distinct (map cr_room_id (update_first q f rs))"
proof -
  have "List.find (is_room k) (update_first q f rs) = Some (f r)"
    using assms(2) by (induction rs) (use assms(3-5) in \<open>auto simp: is_room_def split: if_splits\<close>)
  with assms(1,5) show ?thesis by (simp add: update_first_map)
qed

definition on_track :: "string \<Rightarrow> string \<Rightarrow> deletion_step \<Rightarrow> deletion_world \<Rightarrow> bool" where
  "on_track k user st w \<longleftrightarrow> dp_step (dw_process w) = st \<and> dp_room (dw_process w) = k \<and> dp_owner (dw_process w) = user
     \<and> dp_ok (dw_process w) \<and> user \<noteq> []
     \<and> (\<exists>d r. dp_deletion (dw_process w) = Some d \<and> room_there k user d (dw_rooms w) r)"

lemma on_track_clean:
  assumes "smooth env" and "on_track k user st w" and "st \<in> {CleanMemory, DeleteFiles, DeleteState, CleanRuns, CleanOwned}"
  shows "on_track k user (case st of CleanMemory \<Rightarrow> DeleteFiles | DeleteFiles \<Rightarrow> DeleteState | DeleteState \<Rightarrow> CleanRuns
    | CleanRuns \<Rightarrow> CleanOwned | _ \<Rightarrow> MarkFinalizing) (advance_deletion env w)"
  using assms by (auto simp: on_track_def smooth_def step_defs clean_step_def note_reply_def split: option.splits)

lemma on_track_mark:
  assumes "on_track k user st w" and "st = MarkCleaning \<and> st' = CleanMemory \<or> st = MarkFinalizing \<and> st' = ReadRoom"
  shows "on_track k user st' (advance_deletion env w)"
proof -
  from assms(1) obtain d r where d: "dp_deletion (dw_process w) = Some d" "room_there k user d (dw_rooms w) r"
    by (auto simp: on_track_def)
  have "\<exists>r. room_there k user d (snd (set_deletion_phase k d phase (dw_rooms w))) r" for phase
    using d(2) find_updated [of "dw_rooms w" k r "in_deletion k d" "\<lambda>r. r\<lparr>cr_phase := Some phase\<rparr>"]
    by (auto simp: room_there_def set_deletion_phase_def update_one_rows in_deletion_def is_room_def
        intro!: exI [of _ "r\<lparr>cr_phase := Some phase\<rparr>"])
  with assms d(1) show ?thesis by (auto simp: on_track_def advance_deletion_def in_rooms_def mark_step_def Let_def)
qed

lemma on_track_finish:
  assumes "smooth env" and "on_track k user ReadRoom w"
  shows "deletion_ends env 3 w"
proof -
  from assms(2) obtain d r where d: "dp_deletion (dw_process w) = Some d" "room_there k user d (dw_rooms w) r"
    by (auto simp: on_track_def)
  then have there: "get_room_owner k (dw_rooms w) = Some user" "list_ex (is_room k) (dw_rooms w)"
    using assms(2) find_Some [of "is_room k"]
    by (auto simp: room_there_def get_room_owner_def owner_of_doc_def on_track_def list_ex_iff)
  let ?w1 = "advance_deletion env w" and ?w2 = "advance_deletion env (advance_deletion env w)"
  have 1: "dp_step (dw_process ?w1) = DropMessages" "dw_rooms ?w1 = dw_rooms w" "dp_room (dw_process ?w1) = k"
    using assms(2) there(1) by (auto simp: on_track_def step_defs)
  then have 2: "dp_step (dw_process ?w2) = DropRoom" "dw_rooms ?w2 = dw_rooms w" "dp_room (dw_process ?w2) = k"
    using assms(1) by (auto simp: step_defs smooth_def)
  then have "dp_step (dw_process (advance_deletion env ?w2)) = Responded 200 None"
    using there(2) by (simp add: step_defs delete_chat_room_def delete_one_def)
  from ends_step [OF ends_step [OF ends_step [OF ends_now [OF this]]]] show ?thesis by (simp add: numeral_3_eq_3)
qed

lemma on_track_cleanup:
  assumes "smooth env" and "on_track k user MarkCleaning w"
  shows "deletion_ends env 10 w"
proof -
  have finish: "deletion_ends env 4 w'" if "on_track k user MarkFinalizing w'" for w'
    using ends_step [OF on_track_finish [OF assms(1) on_track_mark [OF that]]] by simp
  note clean = on_track_clean [OF assms(1)]
  have "on_track k user CleanMemory (advance_deletion env w)" by (rule on_track_mark [OF assms(2)]) simp
  from clean [OF this] have "on_track k user DeleteFiles (advance_deletion env (advance_deletion env w))" by simp
  from clean [OF this] have "on_track k user DeleteState ((advance_deletion env ^^ 3) w)" by (simp add: numeral_3_eq_3)
  from clean [OF this] have "on_track k user CleanRuns ((advance_deletion env ^^ 4) w)" by (simp add: eval_nat_numeral)
  from clean [OF this] have "on_track k user CleanOwned ((advance_deletion env ^^ 5) w)" by (simp add: eval_nat_numeral)
  from clean [OF this] have "on_track k user MarkFinalizing ((advance_deletion env ^^ 6) w)" by (simp add: eval_nat_numeral)
  from ends_steps [OF finish [OF this]] show ?thesis by simp
qed

lemma deactivation_succeeds:
  assumes "rooms_ok s" and "find_room s k = Some c" and "room_error c = None"
    and "re_active c \<or> re_deletion_id c = Some d"
  shows "\<exists>o' y s'. deactivate_room s s NoFault k (re_epoch c) d now = (Inr (o', y), s') \<and> o' \<noteq> Conflict"
proof -
  have only: "r = c" if "r \<in> set s" "re_conversation_id r = k" for r
  proof -
    have "r \<in> set (filter (\<lambda>r. re_conversation_id r = k) s)" using that by simp
    with rooms_ok_only [OF assms(1,2)] show ?thesis by simp
  qed
  from find_room_Some [OF assms(2)] have c: "c \<in> set s" "re_conversation_id c = k" by auto
  show ?thesis
  proof (cases "re_active c")
    case True
    have "List.find (\<lambda>r. re_conversation_id r = k \<and> re_active r) s = Some c"
      by (rule find_unique) (use c only True in blast)+
    with True assms(2,3) c show ?thesis
      by (simp add: deactivate_room_def read_active_room_def checked_room_def deactivation_write_def Let_def)
  next
    case False
    then have "List.find (\<lambda>r. re_conversation_id r = k \<and> re_active r) s = None"
      unfolding find_None_iff using only by blast
    with False assms(2-4) show ?thesis
      by (simp add: deactivate_room_def read_active_room_def read_room_def checked_room_def replayed_if_def)
  qed
qed

lemma on_track_epoch:
  assumes "smooth env" and "on_track k user ReadEpoch w" and "rooms_ok (hd (dw_epochs w))" and "read_room (hd (dw_epochs w)) k = Inr x"
    and "\<And>c. x = Some c \<Longrightarrow> re_active c \<or> re_deletion_id c = dp_deletion (dw_process w)"
  shows "deletion_ends env 12 w"
proof -
  have seen: "seen_epochs env (dw_epochs w) = hd (dw_epochs w)"
    using assms(1) by (cases "dw_epochs w") (auto simp: smooth_def seen_epochs_def)
  have step: "advance_deletion env w = in_rooms (case x of None \<Rightarrow> goto MarkCleaning (dw_process w)
      | Some r \<Rightarrow> goto DeactivateEpoch (dw_process w\<lparr>dp_epoch := Some (re_epoch r)\<rparr>), dw_rooms w) w"
    using assms(1,2,4) seen
    by (simp add: on_track_def smooth_def advance_deletion_def read_epoch_step_def Let_def split: option.splits)
  show ?thesis
  proof (cases x)
    case None
    with step assms(2) have "on_track k user MarkCleaning (advance_deletion env w)" by (simp add: on_track_def in_rooms_def)
    from ends_later [OF ends_step [OF on_track_cleanup [OF assms(1) this]], of 12] show ?thesis by simp
  next
    case (Some c)
    obtain d where d: "dp_deletion (dw_process w) = Some d" using assms(2) by (auto simp: on_track_def)
    have find: "find_room (hd (dw_epochs w)) k = Some c" "room_error c = None"
      using assms(4) Some by (auto simp: read_room_def checked_room_def split: option.splits)
    let ?s = "hd (dw_epochs w)"
    obtain o' y s where res: "deactivate_room ?s ?s NoFault k (re_epoch c) d (de_now env) = (Inr (o', y), s)" "o' \<noteq> Conflict"
      using deactivation_succeeds [OF assms(3) find] assms(5) Some d by metis
    let ?p1 = "goto DeactivateEpoch (dw_process w\<lparr>dp_epoch := Some (re_epoch c)\<rparr>)"
    have "dp_room ?p1 = k" "dp_epoch ?p1 = Some (re_epoch c)" "dp_deletion ?p1 = Some d" "de_fault env = NoFault"
      using assms(1,2) d by (simp_all add: on_track_def smooth_def)
    with res seen have "deactivate_step env ?p1 (dw_epochs w) = (goto MarkCleaning ?p1, s # dw_epochs w)"
      by (cases o') (simp_all add: deactivate_step_def)
    with step Some have "advance_deletion env (advance_deletion env w)
        = w\<lparr>dw_process := goto MarkCleaning ?p1, dw_epochs := s # dw_epochs w\<rparr>"
      by (simp add: in_rooms_def advance_deletion_def Let_def)
    with assms(2) have "on_track k user MarkCleaning (advance_deletion env (advance_deletion env w))"
      by (simp add: on_track_def)
    from ends_step [OF ends_step [OF on_track_cleanup [OF assms(1) this]]] show ?thesis by simp
  qed
qed

lemma on_track_drain:
  assumes "smooth env" and "on_track k user PruneLeases w" and "rooms_ok (hd (dw_epochs w))" and "read_room (hd (dw_epochs w)) k = Inr x"
    and "\<And>c. x = Some c \<Longrightarrow> re_active c \<or> re_deletion_id c = dp_deletion (dw_process w)"
    and "\<And>r l. r \<in> set (dw_rooms w) \<Longrightarrow> l \<in> set (cr_leases r) \<Longrightarrow> cr_room_id r = k \<Longrightarrow> wl_expires_at l \<le> de_now env"
  shows "deletion_ends env 14 w"
proof -
  let ?f = "\<lambda>r :: chat_room. r\<lparr>cr_leases := filter (\<lambda>l. de_now env < wl_expires_at l) (cr_leases r)\<rparr>"
  let ?rs = "prune_leases k (de_now env) (dw_rooms w)"
  from assms(2) obtain d r where d: "dp_deletion (dw_process w) = Some d" "room_there k user d (dw_rooms w) r"
    by (auto simp: on_track_def)
  then have r: "r \<in> set (dw_rooms w)" "cr_room_id r = k"
    using find_Some [of "is_room k"] by (auto simp: room_there_def is_room_def)
  have "cr_leases (?f r) = []" using assms(6) [OF r(1) _ r(2)] by (auto simp: filter_empty_conv not_less)
  moreover have there: "room_there k user d ?rs (?f r)"
    using d(2) find_updated [of "dw_rooms w" k r "is_room k" ?f] r
    by (auto simp: room_there_def prune_leases_def update_one_rows in_deletion_def is_room_def)
  ultimately have "\<not> leases_left k ?rs" by (simp add: leases_left_def room_there_def)
  let ?w1 = "in_rooms (goto PollLeases (dw_process w), ?rs) w"
  have "advance_deletion env w = ?w1" using assms(1,2)
    by (simp add: on_track_def smooth_def advance_deletion_def prune_step_def Let_def)
  moreover have "advance_deletion env ?w1 = in_rooms (goto ReadEpoch (goto PollLeases (dw_process w)), ?rs) ?w1"
    using assms(2) \<open>\<not> leases_left k ?rs\<close> by (simp add: on_track_def advance_deletion_def poll_step_def in_rooms_def Let_def)
  moreover have "on_track k user ReadEpoch \<dots>" using assms(2) there d(1) by (auto simp: on_track_def in_rooms_def)
  moreover have "dp_deletion (dw_process (in_rooms (goto ReadEpoch (goto PollLeases (dw_process w)), ?rs) ?w1)) = dp_deletion (dw_process w)"
    "dw_epochs (in_rooms (goto ReadEpoch (goto PollLeases (dw_process w)), ?rs) ?w1) = dw_epochs w" by (simp_all add: in_rooms_def)
  ultimately have "deletion_ends env 12 (advance_deletion env (advance_deletion env w))"
    using on_track_epoch [OF assms(1)] assms(3-5) by metis
  from ends_step [OF ends_step [OF this]] show ?thesis by simp
qed

section \<open>Retrying a deletion\<close>

lemma reachable_store:
  assumes "deletion_system k user w"
  shows "distinct (map cr_room_id (dw_rooms w)) \<and> rooms_ok (hd (dw_epochs w)) \<and> cr_room_id ` set (dw_rooms w) \<subseteq> set (dw_created w)"
proof -
  from deletion_invariant [OF assms] have h: "room_history (dw_epochs w)" by (simp add: deletion_inv_def epochs_inv_def)
  from room_history_step [OF this] room_history_ne [OF h] have "rooms_ok (hd (dw_epochs w))" by (cases "dw_epochs w") auto
  with deletion_invariant [OF assms] show ?thesis by (simp add: deletion_inv_def rooms_inv_def)
qed

lemma readable_room: "rooms_ok s \<Longrightarrow> read_room s k = Inr (find_room s k)"
proof (cases "find_room s k")
  case (Some c)
  assume "rooms_ok s"
  with find_room_Some [OF Some] have "room_error c = None"
    by (auto simp: rooms_ok_def list_all_iff room_error_def require_def)
  with Some show ?thesis by (simp add: read_room_def checked_room_def)
qed (simp add: read_room_def checked_room_def)

text \<open>The fence of a new attempt: it closes an open room, or joins the deletion that a former attempt began.\<close>

lemma fence_joins:
  assumes "smooth env" and "distinct (map cr_room_id rs)" and "List.find (is_room k) rs = Some r"
    and "cr_owner_id r = Some user" and "user \<noteq> []" and "open_room k r \<or> in_deletion k d r \<and> d \<noteq> []"
    and w: "w = w0\<lparr>dw_process := start_deletion k user, dw_rooms := rs\<rparr>"
  shows "\<exists>j w'. j \<le> 3 \<and> w' = (advance_deletion env ^^ j) w \<and> on_track k user PruneLeases w' \<and> dw_epochs w' = dw_epochs w0
    \<and> dp_deletion (dw_process w') = Some (if open_room k r then de_new_id env else d)
    \<and> (\<forall>x \<in> set (dw_rooms w'). \<exists>y \<in> set rs. cr_room_id y = cr_room_id x \<and> cr_leases y = cr_leases x)"
proof -
  let ?p1 = "goto Fence ((start_deletion k user)\<lparr>dp_owner := user\<rparr>)"
  have owner: "get_room_owner k rs = Some user" using assms(3-5) by (simp add: get_room_owner_def owner_of_doc_def)
  then have 1: "advance_deletion env w = w0\<lparr>dw_process := ?p1, dw_rooms := rs\<rparr>"
    using w by (simp add: advance_deletion_def start_deletion_def read_owner_step_def in_rooms_def goto_def Let_def)
  let ?q = "\<lambda>r. open_room k r \<and> cr_owner_id r = Some user"
  let ?f = "\<lambda>r :: chat_room. r\<lparr>cr_state := Some RoomDeleting, cr_deletion_id := Some (de_new_id env),
    cr_started_at := Some (de_now env), cr_phase := Some ''fencing''\<rparr>"
  have q: "?q x \<Longrightarrow> is_room k x" for x by (simp add: open_room_def is_room_def)
  show ?thesis
  proof (cases "open_room k r")
    case True
    then have found: "List.find ?q rs = Some r" by (intro find_narrow [OF assms(2,3) q]) (simp_all add: assms(4))
    from True have "?f r \<noteq> r" by (auto simp: open_room_def dest!: arg_cong [where f = cr_state])
    with found have "fence_room k user (de_new_id env) (de_now env) rs = (True, update_first ?q ?f rs)"
      by (simp add: fence_room_def update_one_def)
    then have 2: "advance_deletion env (advance_deletion env w) = w0\<lparr>dw_process := goto PruneLeases (?p1\<lparr>dp_deletion := Some (de_new_id env)\<rparr>),
        dw_rooms := update_first ?q ?f rs\<rparr>"
      unfolding 1 by (simp add: advance_deletion_def start_deletion_def fence_step_def in_rooms_def goto_def Let_def)
    have "room_there k user (de_new_id env) (update_first ?q ?f rs) (?f r)"
      using find_updated [OF assms(2,3), of ?q ?f] q True assms(4)
      by (simp add: room_there_def in_deletion_def open_room_def is_room_def)
    then have "on_track k user PruneLeases (advance_deletion env (advance_deletion env w))"
      unfolding 2 using assms(5) by (auto simp: on_track_def start_deletion_def goto_def)
    moreover have "\<exists>y \<in> set rs. cr_room_id y = cr_room_id x \<and> cr_leases y = cr_leases x" if "x \<in> set (update_first ?q ?f rs)" for x
      using update_first_set [OF that] by auto
    ultimately show ?thesis using True 2
      by (intro exI [of _ 2] exI [of _ "advance_deletion env (advance_deletion env w)"])
        (simp add: numeral_2_eq_2 goto_def)
  next
    case False
    then have d: "in_deletion k d r" "d \<noteq> []" using assms(6) by auto
    have r: "x = r" if "x \<in> set rs" "is_room k x" for x
      using row_unique [OF assms(2)] that find_Some [OF assms(3)] by (auto simp: is_room_def)
    have "List.find ?q rs = None" unfolding find_None_iff using r q False by blast
    then have "fence_room k user (de_new_id env) (de_now env) rs = (False, rs)" by (simp add: fence_room_def update_one_def)
    then have 2: "advance_deletion env (advance_deletion env w) = w0\<lparr>dw_process := goto FindFence ?p1, dw_rooms := rs\<rparr>"
      unfolding 1 by (simp add: advance_deletion_def start_deletion_def fence_step_def in_rooms_def goto_def Let_def)
    have "List.find (\<lambda>r. is_room k r \<and> cr_owner_id r = Some user \<and> cr_state r = Some RoomDeleting) rs = Some r"
      by (rule find_narrow [OF assms(2,3)]) (use d assms(4) in \<open>auto simp: in_deletion_def\<close>)
    with d have "fenced_by k user rs = Some d" by (simp add: fenced_by_def in_deletion_def)
    then have 3: "(advance_deletion env ^^ 3) w = w0\<lparr>dw_process := goto PruneLeases (?p1\<lparr>dp_deletion := Some d\<rparr>), dw_rooms := rs\<rparr>"
      using 2 by (simp add: numeral_3_eq_3 advance_deletion_def [of env "w0\<lparr>dw_process := _, dw_rooms := _\<rparr>"] start_deletion_def
          find_fence_step_def in_rooms_def goto_def Let_def)
    have "room_there k user d rs r" using assms(2-4) d by (simp add: room_there_def)
    then have "on_track k user PruneLeases ((advance_deletion env ^^ 3) w)"
      unfolding 3 using assms(5) by (auto simp: on_track_def start_deletion_def goto_def)
    with 3 False show ?thesis
      by (intro exI [of _ 3] exI [of _ "(advance_deletion env ^^ 3) w"]) (auto simp: goto_def)
  qed
qed

text \<open>
  C21: A deletion can be retried to the end. Take a reachable state, whatever earlier attempts left behind, in which the room still exists, has an owner with a nonempty id, is open or in a deletion with a nonempty id, has no lease that still runs, and has no epoch record, an active one, or one that was deactivated under the id of the deletion the room is in. A new attempt of the owner that draws a nonempty deletion id and meets no failing collaborator and no interference reports success within seventeen steps.\<close>

theorem deletion_can_be_retried:
  assumes "deletion_system k0 user0 w" and "smooth env" and "r \<in> set (dw_rooms w)" and "cr_room_id r = k"
    and "cr_owner_id r = Some user" and "user \<noteq> []" and "open_room k r \<or> in_deletion k d r \<and> d \<noteq> []"
    and "\<forall>l \<in> set (cr_leases r). wl_expires_at l \<le> de_now env"
    and "\<forall>c. find_room (hd (dw_epochs w)) k = Some c \<longrightarrow> re_active c \<or> in_deletion k d r \<and> re_deletion_id c = Some d"
  shows "dp_step (dw_process ((advance_deletion env ^^ 17) (w\<lparr>dw_process := start_deletion k user\<rparr>))) = Responded 200 None"
proof -
  from reachable_store [OF assms(1)] have distinct: "distinct (map cr_room_id (dw_rooms w))" and ok: "rooms_ok (hd (dw_epochs w))"
    by auto
  have find: "List.find (is_room k) (dw_rooms w) = Some r"
    by (rule find_unique) (use assms(3,4) row_unique [OF distinct] in \<open>auto simp: is_room_def\<close>)
  let ?w = "w\<lparr>dw_process := start_deletion k user, dw_rooms := dw_rooms w\<rparr>"
  obtain j w' where w': "j \<le> 3" "w' = (advance_deletion env ^^ j) ?w" "on_track k user PruneLeases w'" "dw_epochs w' = dw_epochs w"
    "dp_deletion (dw_process w') = Some (if open_room k r then de_new_id env else d)"
    "\<forall>x \<in> set (dw_rooms w'). \<exists>y \<in> set (dw_rooms w). cr_room_id y = cr_room_id x \<and> cr_leases y = cr_leases x"
    using fence_joins [OF assms(2) distinct find assms(5-7) refl, of w] by blast
  have "deletion_ends env 14 w'"
  proof (rule on_track_drain [OF assms(2) w'(3)])
    show "rooms_ok (hd (dw_epochs w'))" "read_room (hd (dw_epochs w')) k = Inr (find_room (hd (dw_epochs w)) k)"
      using ok readable_room w'(4) by auto
    show "re_active c \<or> re_deletion_id c = dp_deletion (dw_process w')" if "find_room (hd (dw_epochs w)) k = Some c" for c
      using assms(9) that w'(5) by (auto simp: in_deletion_def open_room_def)
    show "wl_expires_at l \<le> de_now env" if x: "x \<in> set (dw_rooms w')" "l \<in> set (cr_leases x)" "cr_room_id x = k" for x l
    proof -
      from w'(6) x(1) obtain y where "y \<in> set (dw_rooms w)" "cr_room_id y = cr_room_id x" "cr_leases y = cr_leases x" by blast
      with x row_unique [OF distinct assms(3)] assms(4,8) show ?thesis by metis
    qed
  qed
  from ends_later [OF ends_steps [OF this [unfolded w'(2)]], of 17] w'(1) have "deletion_ends env 17 ?w" by simp
  then show ?thesis by (simp add: deletion_ends_def)
qed

section \<open>Recovery\<close>

text \<open>
  C39: The recovery of a stale deletion forgets the epoch: when a deletion stopped after its room had drained and before its epoch was deactivated, recovery removes the room although the epoch stays active, and since a later request finds no room it answers that there is none, so that nothing deactivates the epoch any more.\<close>

theorem recovery_forgets_the_epoch:
  assumes "deletion_system k user w" and "dp_step (dw_process w) = ReadEpoch" and "dp_deletion (dw_process w) = Some d"
    and "k \<in> cr_room_id ` set (dw_rooms w)" and "find_room (hd (dw_epochs w)) k = Some c" and "re_active c"
    and "recover_room_deletion k d now (ServiceAnswered b) (ServiceAnswered True) (dw_rooms w) = (res, rs)"
  shows "res \<and> deletion_system k user (w\<lparr>dw_rooms := rs\<rparr>) \<and> k \<notin> cr_room_id ` set rs
    \<and> verify_active (hd (dw_epochs w)) k (re_epoch c)
    \<and> advance_deletion env (w\<lparr>dw_rooms := rs, dw_process := start_deletion k u\<rparr>)
       = w\<lparr>dw_rooms := rs, dw_process := respond 404 ''Room not found'' (start_deletion k u)\<rparr>"
proof -
  let ?pruned = "prune_leases k now (dw_rooms w)"
  have op: "room_op_world (Prune k now) w = w\<lparr>dw_rooms := ?pruned\<rparr>" by (simp add: room_op_world_def room_op_rows_def)
  have sys1: "deletion_system k user (w\<lparr>dw_rooms := ?pruned\<rparr>)" using sys_op [OF assms(1), of "Prune k now"] op by simp
  from reachable_store [OF this] have distinct: "distinct (map cr_room_id ?pruned)" by simp
  from deletion_invariant [OF sys1] assms(2,3) have fenced: "fenced k d ?pruned" and none: "no_leases k ?pruned"
    by (auto simp: deletion_inv_def rooms_inv_def)
  have "map cr_room_id ?pruned = map cr_room_id (dw_rooms w)"
    unfolding prune_leases_def update_one_rows by (rule update_first_map) simp
  then have "k \<in> cr_room_id ` set ?pruned" using assms(4) by (metis list.set_map)
  then obtain r where r: "r \<in> set ?pruned" "cr_room_id r = k" by auto
  have same: "in_deletion k d x \<longleftrightarrow> is_room k x" if "x \<in> set ?pruned" for x
    using that fenced by (auto simp: fenced_def in_deletion_def is_room_def)
  have "\<not> leases_left k ?pruned"
  proof (cases "List.find (is_room k) ?pruned")
    case (Some x)
    with find_Some [OF this] none show ?thesis by (auto simp: leases_left_def no_leases_def is_room_def)
  qed (simp add: leases_left_def)
  with assms(7) have drop: "delete_room_in_deletion k d ?pruned = (res, rs)"
    by (simp add: recover_room_deletion_def has_live_write_leases_def)
  then have "rs = remove_first (in_deletion k d) ?pruned" and "res" using r same
    by (auto simp: delete_room_in_deletion_def delete_one_def list_ex_iff is_room_def)
  moreover have "k \<notin> cr_room_id ` set (remove_first (in_deletion k d) xs)"
    if "distinct (map cr_room_id xs)" "\<forall>x \<in> set xs. in_deletion k d x \<longleftrightarrow> is_room k x" for xs
    using that by (induction xs) (auto simp: is_room_def image_iff)
  ultimately have gone: "k \<notin> cr_room_id ` set rs" using distinct same by auto
  have "room_op_world (DropInDeletion k d) (w\<lparr>dw_rooms := ?pruned\<rparr>) = w\<lparr>dw_rooms := rs\<rparr>"
    using drop by (simp add: room_op_world_def room_op_rows_def)
  then have "deletion_system k user (w\<lparr>dw_rooms := rs\<rparr>)" using sys_op [OF sys1, of "DropInDeletion k d"] by simp
  moreover have "verify_active (hd (dw_epochs w)) k (re_epoch c)"
    using find_room_Some [OF assms(5)] assms(6) by (auto simp: verify_active_def list_ex_iff)
  moreover have "get_room_owner k rs = None"
  proof -
    have "List.find (is_room k) rs = None" using gone by (auto simp: find_None_iff is_room_def)
    then show ?thesis by (simp add: get_room_owner_def owner_of_doc_def)
  qed
  ultimately show ?thesis using \<open>res\<close> gone
    by (simp add: advance_deletion_def start_deletion_def read_owner_step_def in_rooms_def respond_def)
qed

end
