(* ===== verification/Deletion_Samples.thy ===== *)
theory Deletion_Samples
  imports Deletion_Progress
begin

text \<open>One room, created, activated and deleted by its owner, on which the properties are evaluated.\<close>

definition sample_deletion_env :: deletion_env where
  "sample_deletion_env = \<lparr>de_now = 5, de_new_id = ''d'', de_timeout = False, de_reply = ServiceAnswered True,
     de_fault = NoFault, de_seen = 0\<rparr>"

definition living_world :: deletion_world where
  "living_world = (let w = room_op_world (CreateRoom ''r'' ''u'' JNull) \<lparr>dw_rooms = [], dw_epochs = [[]], dw_created = [],
       dw_process = start_deletion ''r'' ''u''\<rparr>
     in w\<lparr>dw_epochs := snd (activate_room [] [] NoFault ''r'' ''c'' 1) # dw_epochs w\<rparr>)"

definition after_steps :: "nat \<Rightarrow> deletion_world" where
  "after_steps n = (advance_deletion sample_deletion_env ^^ n) living_world"

lemma living_world_reached: "deletion_system ''r'' ''u'' living_world"
proof -
  let ?w = "room_op_world (CreateRoom ''r'' ''u'' JNull) \<lparr>dw_rooms = [], dw_epochs = [[]], dw_created = [],
    dw_process = start_deletion ''r'' ''u''\<rparr>"
  have "deletion_system ''r'' ''u'' ?w" by (rule sys_op [OF sys_start])
  from sys_activate [OF this, of "[]" NoFault "''r''" "''c''" 1] show ?thesis
    by (simp add: living_world_def Let_def)
qed

lemma after_steps_reached: "deletion_system ''r'' ''u'' (after_steps n)"
  by (induction n) (simp_all add: after_steps_def living_world_reached sys_process)

definition fenced_row :: chat_room where
  "fenced_row = \<lparr>cr_room_id = ''r'', cr_owner_id = Some ''u'', cr_state = Some RoomDeleting, cr_leases = [],
     cr_deletion_id = Some ''d'', cr_started_at = Some 5, cr_phase = Some ''fencing'', cr_rest = JNull\<rparr>"

definition active_epoch :: room_epoch where
  "active_epoch = \<lparr>re_conversation_id = ''r'', re_epoch = 1, re_high_water_mark = 1, re_active = True,
     re_creation_id = ''c'', re_deletion_id = None, re_updated_at = bson_millis 1\<rparr>"

definition fenced_process :: deletion_process where
  "fenced_process = (start_deletion ''r'' ''u'')\<lparr>dp_step := ReadEpoch, dp_owner := ''u'', dp_deletion := Some ''d''\<rparr>"

lemmas run_defs = step_defs goto_def respond_def note_reply_def start_deletion_def sample_deletion_env_def
  get_room_owner_def owner_of_doc_def fence_room_def update_one_def open_room_def is_room_def prune_leases_def leases_left_def

lemma living_world_is: "living_world = \<lparr>dw_rooms = create_chat_room ''r'' ''u'' JNull [], dw_epochs = [[active_epoch], [[]] ! 0],
    dw_created = [''r''], dw_process = start_deletion ''r'' ''u''\<rparr>"
  by (simp add: living_world_def room_op_world_def room_op_rows_def activate_room_def read_room_def checked_room_def
      find_room_def activation_write_def next_room_def stored_room_def active_epoch_def Let_def)

lemma fenced_world: "after_steps 4 = \<lparr>dw_rooms = [fenced_row], dw_epochs = [[active_epoch], []], dw_created = [''r''],
    dw_process = fenced_process\<rparr>"
  by (simp add: after_steps_def living_world_is eval_nat_numeral create_chat_room_def run_defs fenced_row_def fenced_process_def)

lemma drained_world: "dp_step (dw_process (after_steps 4)) = ReadEpoch" "dp_deletion (dw_process (after_steps 4)) = Some ''d''"
  by (simp_all add: fenced_world fenced_process_def start_deletion_def)

lemma deactivated_world: "after_steps 6 = \<lparr>dw_rooms = [fenced_row], dw_epochs = [[stored_room (active_epoch\<lparr>re_active := False,
      re_deletion_id := Some ''d'', re_updated_at := 5\<rparr>)], [active_epoch], []], dw_created = [''r''],
    dw_process = fenced_process\<lparr>dp_step := MarkCleaning, dp_epoch := Some 1\<rparr>\<rparr>"
proof -
  have "after_steps 6 = advance_deletion sample_deletion_env (advance_deletion sample_deletion_env (after_steps 4))"
    by (simp add: after_steps_def eval_nat_numeral)
  then show ?thesis
    by (simp add: fenced_world fenced_process_def run_defs seen_epochs_def read_room_def read_active_room_def checked_room_def
        find_room_def room_error_def require_def deactivate_step_def deactivate_room_def deactivation_write_def replace_room_def)
      (simp add: active_epoch_def)
qed

lemma drained_room_takes_no_writes_witness:
  "\<not> fst (push_lease ''r'' \<lparr>wl_lease_id = ''l'', wl_owner = ''o'', wl_acquired_at = 6, wl_expires_at = 66\<rparr> (dw_rooms (after_steps 4)))"
  using drained_room_takes_no_writes [OF after_steps_reached, of 4] drained_world by simp

lemma deleted_room_is_gone_witness:
  "''r'' \<notin> cr_room_id ` set (dw_rooms (after_steps 16)) \<and> hd (dp_cleaned (dw_process (after_steps 16))) = MemoryCleaned
    \<and> last (dp_cleaned (dw_process (after_steps 16))) = MessagesDeleted"
proof -
  have "on_track ''r'' ''u'' MarkCleaning (after_steps 6)"
    by (simp add: on_track_def deactivated_world room_there_def)
      (simp add: fenced_row_def fenced_process_def start_deletion_def in_deletion_def is_room_def)
  moreover have "smooth sample_deletion_env" by (simp add: smooth_def sample_deletion_env_def)
  ultimately have "deletion_ends sample_deletion_env 10 (after_steps 6)" using on_track_cleanup by blast
  moreover have "after_steps 16 = (advance_deletion sample_deletion_env ^^ 10) (after_steps 6)"
    using funpow_add [of 10 6 "advance_deletion sample_deletion_env"] by (simp add: after_steps_def comp_def)
  ultimately have "dp_step (dw_process (after_steps 16)) = Responded 200 None" by (simp add: deletion_ends_def)
  from deleted_room_is_gone [OF after_steps_reached this] show ?thesis by simp
qed

lemma interrupted_world: "dw_rooms (after_steps 4) = [fenced_row]" "hd (dw_epochs (after_steps 4)) = [active_epoch]"
  by (simp_all add: fenced_world)

lemma deletion_can_be_retried_witness:
  "dp_step (dw_process ((advance_deletion sample_deletion_env ^^ 17)
     ((after_steps 4)\<lparr>dw_process := start_deletion ''r'' ''u''\<rparr>))) = Responded 200 None"
  by (rule deletion_can_be_retried [OF after_steps_reached, where r = fenced_row and d = "''d''"])
    (simp_all add: interrupted_world find_room_def smooth_def sample_deletion_env_def,
      simp_all add: fenced_row_def in_deletion_def is_room_def active_epoch_def)

lemma recovery_forgets_the_epoch_witness:
  "fst (recover_room_deletion ''r'' ''d'' 9 (ServiceAnswered True) (ServiceAnswered True) [fenced_row])
   \<and> verify_active [active_epoch] ''r'' 1"
proof -
  obtain res rs where rec: "recover_room_deletion ''r'' ''d'' 9 (ServiceAnswered True) (ServiceAnswered True)
      (dw_rooms (after_steps 4)) = (res, rs)" by fastforce
  have "''r'' \<in> cr_room_id ` set (dw_rooms (after_steps 4))"
    "find_room (hd (dw_epochs (after_steps 4))) ''r'' = Some active_epoch" "re_active active_epoch"
    by (simp_all add: interrupted_world find_room_def) (simp_all add: fenced_row_def active_epoch_def)
  from recovery_forgets_the_epoch [OF after_steps_reached drained_world this rec] rec show ?thesis
    by (simp add: interrupted_world active_epoch_def)
qed

end
