(* ===== verification/Spec2Isabelle.thy ===== *)
theory Spec2Isabelle
  imports Budget Intent_Lifecycle Store_Properties Stream_Assembly Context Outbox_Progress Kernel_Protocol Kernel_Atomicity Ending_Samples Public_Text Call_Samples Room_Epochs Room_Samples Message_Samples Deletion_Samples
begin

text \<open>
  A verification library for the orchestration core of Hybro, a multi-agent chat backend in which
  a Run calls remote Agents through tools under a durable, replayable aggregate. All paths below are under
  \<open>src/backend/\<close>.

  \<^bold>\<open>The program.\<close> A user message starts a Run (\<open>execution/orchestrator/kernel.py\<close>). The Run is one document
  (\<open>models.py\<close>) that the kernel replaces by compare-and-swap (\<open>execution/repository/orchestrator/run_store.py\<close>),
  one checkpoint at a time: an assistant message from the model stream (\<open>streaming.py\<close>), a Tool batch, its results or
  suspensions, questions for the user. Calls to remote Agents have a ledger of their own (\<open>a2a_runtime/ledger.py\<close>,
  \<open>stores.py\<close>), fed by observations from several workers. A Run ends by one terminal commit
  (\<open>settlement.py\<close>), and a worker drains the outbox of its projections (\<open>projection.py\<close>). What the user sees are the
  public events of a room: an append-only log (\<open>delivery/room_events.py\<close>), folded to Turns by the snapshot service
  (\<open>delivery/snapshot.py\<close>), beside the messages of the room (\<open>conversation/repository/mongo.py\<close>). Rooms are written under
  leases (\<open>room_files/leases.py\<close>), fenced by epochs, and deleted by a process that drains the leases first
  (\<open>conversation/deletion.py\<close>).

  \<^bold>\<open>How the model reads.\<close> A pydantic class is a record with the initials of the class as prefix of its fields, a union or
  enumeration is a datatype, a validator is a \<open>check\<close> (the first error message, or \<open>None\<close>), a raise is \<open>Inl\<close>. Python's integers
  are \<open>int\<close>, times are integers in microseconds, which a write to Mongo cuts to milliseconds. Strings are lists of characters,
  except in \<open>Public_Text\<close>, where the code points and surrogates matter. A Mongo collection is the
  list of its documents. Where code awaits, others may act: an operation that reads and then writes takes the
  store of each access, a method of many accesses is a function of a world with the operations of others before
  each access, and the fallback of the room log and a deletion are processes with one step per await.

  \<^bold>\<open>Theories by component.\<close>
  \<^item> Shared: \<open>Prelude\<close> (JSON values, checks, Python's list operations), \<open>Versioned\<close> (the locale of every compare-and-swap
    store, interpreted on the Run store and on the call ledger), \<open>Samples\<close> (validated values for the witnesses).
  \<^item> Contracts: \<open>Tool_Contracts\<close>, \<open>Run_Contracts\<close>, \<open>Run_State\<close> (\<open>models.py\<close>, \<open>persistence.py\<close>), \<open>Run_Normalize\<close>,
    \<open>Run_Events\<close> (\<open>events.py\<close>, \<open>event_store.py\<close>).
  \<^item> Pure parts of a model turn: \<open>Budget\<close>, \<open>Stream_Assembly\<close>, \<open>Transcript\<close>, \<open>Context\<close>, \<open>Public_Text\<close> (the files of the same
    names in \<open>execution/orchestrator\<close>).
  \<^item> Settlement: \<open>Settlement\<close>, \<open>Terminal_Commit\<close> (the locale of a terminal commit with its three interpretations),
    \<open>Commit_Properties\<close>, \<open>Intent_Lifecycle\<close>.
  \<^item> Run store: \<open>Run_Store\<close>, \<open>Run_Recovery\<close>, then \<open>Store_Invariants\<close>, \<open>Store_Operations\<close>, \<open>Store_Properties\<close>.
  \<^item> Outbox: \<open>Outbox_Worker\<close>, \<open>Outbox_Properties\<close>, \<open>Outbox_Progress\<close>.
  \<^item> Kernel: \<open>Kernel_Batches\<close> (module functions over batches), \<open>Kernel_Observation\<close> (\<open>observe_tool\<close>), \<open>Kernel_Checkpoint\<close>
    and \<open>Kernel_Steps\<close> (methods that write through the store), \<open>Kernel_Outcomes\<close> (the end of \<open>_execute_tool_batch\<close> and
    the other writes of batches), \<open>Kernel_Closure\<close> and \<open>Kernel_Terminate\<close> (the ending); over them \<open>Observation_Properties\<close>,
    \<open>Observation_Safety\<close>, \<open>Kernel_Protocol\<close> (the step relation over all transcript writes), \<open>Kernel_Atomicity\<close>,
    \<open>Kernel_Order\<close> (a locale for preorders on worlds, interpreted on the store and on the events), \<open>Kernel_Ending\<close>,
    \<open>Ending_Samples\<close>.
  \<^item> Agent calls: \<open>Agent_Calls\<close> and \<open>Call_Ledger\<close> (\<open>a2a_runtime/models.py\<close>, \<open>ledger.py\<close>), \<open>Call_Store\<close>, \<open>Call_Counting\<close>,
    \<open>Call_Cancellation\<close>; over them \<open>Ledger_Properties\<close>, \<open>Call_History\<close>, \<open>Cancellation_Properties\<close>, \<open>Call_Samples\<close>.
  \<^item> Delivery: \<open>Turn_Contracts\<close>, \<open>Turn_Fold\<close>, \<open>Room_Snapshot\<close> (\<open>delivery/snapshot.py\<close>), \<open>Room_Log\<close>
    (\<open>delivery/room_events.py\<close>); over them \<open>Turn_Steps\<close>, \<open>Turn_Text\<close>, \<open>Turn_Properties\<close>, \<open>Room_Log_Properties\<close>,
    \<open>Room_Log_Holes\<close>, \<open>Snapshot_Properties\<close>, \<open>Room_Samples\<close>.
  \<^item> Conversation: \<open>Mongo\<close> (the adapter \<open>dal/mongo/client.py\<close>), \<open>Message_Store\<close>, \<open>Room_Lifecycle\<close>, \<open>Room_Epochs\<close>,
    \<open>Room_Deletion\<close>; over them \<open>Message_Timeline\<close>, \<open>Message_Thread\<close>, \<open>Message_Writes\<close>, \<open>Message_Samples\<close>,
    \<open>Deletion_System\<close>, \<open>Deletion_Safety\<close>, \<open>Deletion_Progress\<close>, \<open>Deletion_Samples\<close>.
\<close>

text \<open>
  \<^bold>\<open>What the lemmas show.\<close>
  \<^item> One winner: commits race in any order and at most one wins; the completion gates are exact; the committed Run passes the
    validator exactly when its descendants are closed.
  \<^item> The Run store under any interleaving and any fault: stored Runs stay valid, a stale write does nothing, a
    cancellation is final, an ambiguous write is resolved by its command, a running lease excludes others.
  \<^item> The outbox: the terminal status is projected after every other required intent; undisturbed, the last one settles the Run.
  \<^item> The kernel: the invariant \<open>accounted\<close> (announced calls, batch entries and result messages correspond) is kept by every write
    of transcript or batches, so the transcript converts; \<open>observe_tool\<close> keeps the aggregate valid without validating;
    \<open>_update_entry\<close> is atomic; an ending checks the history before any effect.
  \<^item> The call ledger: observations keep records valid, redelivery changes nothing, a finished call keeps its verdict in
    every history, local cancellation ends a call.
  \<^item> Delivery: the room log has no hole once its writers are done, a snapshot is the fold of a prefix and equals the full
    refold, the streamed text is the text of the message, settled Turns are closed and stay settled.
  \<^item> Conversation: pages make the timeline, a thread is what replies, a request is one message, a settled task is final;
    leases, epochs and deletions: a drained room takes no writes, a deleted room is gone, a deletion can be retried.
  \<^item> Four theorems prove behaviour that is not meant: \<open>late_update_reopens_tool\<close>, \<open>recovery_forgets_the_epoch\<close>,
    \<open>long_thread_is_cut\<close>, and the scope of \<open>cancellation_always_ends_call\<close>, whose command hypothesis excludes a raise.

  \<^bold>\<open>Parameters.\<close> Code outside the repository is an argument: \<open>json.dumps\<close>, \<open>json.loads\<close> and SHA-256 (of which nothing is
  assumed unless a theorem names it), \<open>datetime.isoformat\<close>, the Tool runtime, projectors, the reader of room records, the label
  policy, the clock and the factories of ids. Faults of Mongo are a value of each operation (the write failed
  before or after it took effect).

  \<^bold>\<open>Bounds and fuel.\<close> Loops that retry a bounded number of times are recursions over that number: eight attempts of a
  cancellation, three of the manifest refresh, the attempts of an append. The pages of a snapshot recurse over the list of the
  states of the log that they see, one per page; in a log that does not change, one page more than it has events is always enough
  (\<open>incremental_snapshot_is_refold\<close>). The levels of a thread, the compilation of a context and the flushing loops of
  the coalescer are functions with a termination proof. A deletion answers within seventeen steps when nothing stands in its way: its polls of the
  leases find them expired at the first look.

  \<^bold>\<open>Not modelled.\<close> The model loop of the kernel with compaction, recovery of an active attempt and the passthrough profile;
  sessions; the regular expressions of the sanitiser; the transport, dispatch, recovery and push of Agent calls, whose writes
  are steps of the modelled ledger; the older sections of the snapshot fold; facades, routes, jobs, model providers and
  the frontend. They are glue over injected services, or the next parts of the plan.
\<close>

end
